(* ===== verification/Prelude.thy ===== *)
theory Prelude
  imports Main "HOL-Library.Word"
begin

section \<open>Shared vocabulary of the oracle-rs model\<close>

text \<open>
  Types, outcomes, sequencing and byte-order lemmas that every component theory uses.

  \<^item> Machine integers are words of their Rust width; signed Rust integers (\<open>i8\<close> \dots \<open>i64\<close>)
    are the same words, read with \<open>sint\<close>.  \<open>usize\<close> (64 bits, bounded by the size of a memory
    object) is \<open>nat\<close>.
  \<^item> A fallible computation yields \<open>Inl (Err e)\<close> for a Rust \<open>Err(e)\<close> and \<open>Inl Panic\<close> for a
    panic: an index or slice out of range, or an arithmetic overflow (as a build with overflow
    checks reports it).  Where an operation does not overflow, builds with and without
    overflow checks agree, so a theorem that excludes \<open>Panic\<close> speaks about both.
  \<^item> A method on \<open>&mut self\<close> is an \<open>action\<close>: it returns the outcome together with the state
    left behind, also when it fails.
\<close>

unbundle bit_operations_syntax

type_synonym u8 = "8 word"
type_synonym u16 = "16 word"
type_synonym u32 = "32 word"
type_synonym u64 = "64 word"
type_synonym i8 = "8 word"
type_synonym i16 = "16 word"
type_synonym i32 = "32 word"
type_synonym i64 = "64 word"

subsection \<open>Outcomes\<close>

datatype 'e fault = Err 'e | Panic

type_synonym ('e, 'a) outcome = "'e fault + 'a"

definition is_ok :: "('e, 'a) outcome \<Rightarrow> bool" where
  "is_ok r = (case r of Inl _ \<Rightarrow> False | Inr _ \<Rightarrow> True)"

text \<open>The \<open>?\<close> operator on a plain result: stop at the first failure.\<close>

definition res_bind :: "('e, 'a) outcome \<Rightarrow> ('a \<Rightarrow> ('e, 'b) outcome) \<Rightarrow> ('e, 'b) outcome" where
  "res_bind r f = (case r of Inl e \<Rightarrow> Inl e | Inr a \<Rightarrow> f a)"

lemma res_bind_simps [simp]:
  "res_bind (Inl e) f = Inl e"
  "res_bind (Inr a) f = f a"
  by (simp_all add: res_bind_def)

lemma res_bind_Inr_iff:
  "res_bind r f = Inr b \<longleftrightarrow> (\<exists>a. r = Inr a \<and> f a = Inr b)"
  by (cases r) auto

text \<open>Indexing and slicing as Rust does them: out of range is a panic.\<close>

definition index_at :: "'a list \<Rightarrow> nat \<Rightarrow> ('e, 'a) outcome" where
  "index_at xs i = (if i < length xs then Inr (xs ! i) else Inl Panic)"

definition slice_at :: "'a list \<Rightarrow> nat \<Rightarrow> nat \<Rightarrow> ('e, 'a list) outcome" where
  "slice_at xs a b =
     (if a \<le> b \<and> b \<le> length xs then Inr (take (b - a) (drop a xs)) else Inl Panic)"

lemma index_at_ok [simp]: "i < length xs \<Longrightarrow> index_at xs i = Inr (xs ! i)"
  by (simp add: index_at_def)

lemma slice_at_ok [simp]:
  "a \<le> b \<Longrightarrow> b \<le> length xs \<Longrightarrow> slice_at xs a b = Inr (take (b - a) (drop a xs))"
  by (simp add: slice_at_def)

text \<open>\<open>buf[a..a + n].copy_from_slice(..)\<close>.\<close>

definition copy_at :: "nat \<Rightarrow> 'a list \<Rightarrow> 'a list \<Rightarrow> ('e, 'a list) outcome" where
  "copy_at a bs buf =
     (if a + length bs \<le> length buf then Inr (take a buf @ bs @ drop (a + length bs) buf) else Inl Panic)"

lemma copy_at_ok:
  assumes "length pre = a" "length old = length bs"
  shows "copy_at a bs (pre @ old @ post) = Inr (pre @ bs @ post)"
  using assms by (simp add: copy_at_def)

subsection \<open>Actions on a mutable state\<close>

type_synonym ('s, 'e, 'a) action = "'s \<Rightarrow> ('e, 'a) outcome \<times> 's"

definition ok :: "'a \<Rightarrow> ('s, 'e, 'a) action" where
  "ok a = (\<lambda>s. (Inr a, s))"

definition lift_res :: "('e, 'a) outcome \<Rightarrow> ('s, 'e, 'a) action" where
  "lift_res r = (\<lambda>s. (r, s))"

definition fail :: "'e \<Rightarrow> ('s, 'e, 'a) action" where
  "fail e = lift_res (Inl (Err e))"

definition andThen ::
  "('s, 'e, 'a) action \<Rightarrow> ('a \<Rightarrow> ('s, 'e, 'b) action) \<Rightarrow> ('s, 'e, 'b) action" where
  "andThen m f = (\<lambda>s. case m s of (Inl e, s') \<Rightarrow> (Inl e, s') | (Inr a, s') \<Rightarrow> f a s')"

definition andSeq ::
  "('s, 'e, 'a) action \<Rightarrow> ('s, 'e, 'b) action \<Rightarrow> ('s, 'e, 'b) action" where
  "andSeq m k = andThen m (\<lambda>_. k)"

lemma ok_apply: "ok a s = (Inr a, s)"
  by (simp add: ok_def)

lemma lift_res_apply: "lift_res r s = (r, s)"
  by (simp add: lift_res_def)

lemma fail_apply: "fail e s = (Inl (Err e), s)"
  by (simp add: fail_def lift_res_apply)

lemmas action_apply = ok_apply lift_res_apply fail_apply

lemma andThen_apply:
  "andThen m f s = (case m s of (Inl e, s') \<Rightarrow> (Inl e, s') | (Inr a, s') \<Rightarrow> f a s')"
  by (simp add: andThen_def)

lemma andThen_Inr [simp]: "m s = (Inr a, s') \<Longrightarrow> andThen m f s = f a s'"
  by (simp add: andThen_apply)

lemma andThen_Inl [simp]: "m s = (Inl e, s') \<Longrightarrow> andThen m f s = (Inl e, s')"
  by (simp add: andThen_apply)

lemma andThen_ok [simp]: "andThen (ok a) f = f a"
  by (simp add: andThen_def ok_def)

lemma andThen_lift_res [simp]:
  "andThen (lift_res (Inl e)) f = lift_res (Inl e)"
  "andThen (lift_res (Inr a)) f = f a"
  by (simp_all add: andThen_def lift_res_def)

lemma andThen_assoc: "andThen (andThen m f) g = andThen m (\<lambda>a. andThen (f a) g)"
  by (auto simp: andThen_def fun_eq_iff split: prod.splits sum.splits)

lemma andSeq_apply:
  "andSeq m k s = (case m s of (Inl e, s') \<Rightarrow> (Inl e, s') | (Inr a, s') \<Rightarrow> k s')"
  by (simp add: andSeq_def andThen_apply)

lemma andThen_cong [fundef_cong]:
  assumes "s = s'" and "m s' = m' s'"
    and "\<And>a t. m' s' = (Inr a, t) \<Longrightarrow> f a t = f' a t"
  shows "andThen m f s = andThen m' f' s'"
  using assms by (auto simp: andThen_apply split: prod.splits sum.splits)

text \<open>Mapping an action's value (\<open>Ok(self.read()? as T)\<close>).\<close>

definition fmap :: "('a \<Rightarrow> 'b) \<Rightarrow> ('s, 'e, 'a) action \<Rightarrow> ('s, 'e, 'b) action" where
  "fmap g m = andThen m (\<lambda>a. ok (g a))"

subsection \<open>Ranges of words\<close>

lemma unat_u8_less: "unat (b :: u8) < 256"
  using unsigned_less [where ?'a = nat and w = b] by simp

lemma unat_u16_less: "unat (b :: u16) < 65536"
  using unsigned_less [where ?'a = nat and w = b] by simp

lemma unat_u32_less: "unat (b :: u32) < 4294967296"
  using unsigned_less [where ?'a = nat and w = b] by simp

lemma unat_u64_less: "unat (b :: u64) < 18446744073709551616"
  using unsigned_less [where ?'a = nat and w = b] by simp

lemmas unat_less = unat_u8_less unat_u16_less unat_u32_less unat_u64_less

subsection \<open>Big-endian bytes\<close>

text \<open>
  \<open>be_word\<close> is the loop \<open>value = (value << 8) | b\<close>; on two, four or eight bytes it is
  \<open>from_be_bytes\<close>.  \<open>be_bytes n w\<close> is the loop
  \<open>for i in (0..n).rev() { push((w >> (8 * i)) as u8) }\<close>; at full width it is \<open>to_be_bytes\<close>.
\<close>

definition be_word :: "u8 list \<Rightarrow> 'a::len word" where
  "be_word bs = foldl (\<lambda>v b. push_bit 8 v OR ucast b) 0 bs"

definition be_bytes :: "nat \<Rightarrow> 'a::len word \<Rightarrow> u8 list" where
  "be_bytes n w = map (\<lambda>i. ucast (drop_bit (8 * i) w)) (rev [0..<n])"

lemma length_be_bytes [simp]: "length (be_bytes n w) = n"
  by (simp add: be_bytes_def)

lemma be_bytes_0 [simp]: "be_bytes 0 w = []"
  by (simp add: be_bytes_def)

lemma be_bytes_Suc: "be_bytes (Suc n) w = ucast (drop_bit (8 * n) w) # be_bytes n w"
  by (simp add: be_bytes_def)

lemma be_bytes_snoc: "be_bytes (Suc n) w = be_bytes n (drop_bit 8 w) @ [ucast w]"
proof (induction n)
  case 0
  show ?case by (simp add: be_bytes_def)
next
  case (Suc n)
  have "ucast (drop_bit (8 * Suc n) w) = (ucast (drop_bit (8 * n) (drop_bit 8 w)) :: u8)"
    by (simp add: add.commute)
  with Suc show ?case
    by (simp only: be_bytes_Suc [of "Suc n" w] be_bytes_Suc [of n "drop_bit 8 w"] append_Cons)
qed

lemma be_word_Nil [simp]: "be_word [] = 0"
  by (simp add: be_word_def)

lemma be_word_snoc: "be_word (bs @ [b]) = push_bit 8 (be_word bs) OR ucast b"
  by (simp add: be_word_def)

lemma push_or_drop_bits:
  fixes w :: "'a::len word"
  shows "push_bit 8 (take_bit (8 * n) (drop_bit 8 w)) OR ucast (ucast w :: u8)
    = take_bit (8 * Suc n) w"
  by (rule bit_word_eqI) (auto simp: bit_simps not_less not_le)

lemma be_word_be_bytes: "be_word (be_bytes n w) = take_bit (8 * n) (w :: 'a::len word)"
proof (induction n arbitrary: w)
  case 0
  show ?case by simp
next
  case (Suc n)
  show ?case
    by (simp only: be_bytes_snoc be_word_snoc Suc.IH push_or_drop_bits)
qed

lemma be_word_be_bytes_full:
  "LENGTH('a) \<le> 8 * n \<Longrightarrow> be_word (be_bytes n w) = (w :: 'a::len word)"
  by (simp add: be_word_be_bytes take_bit_word_eq_self)

lemma bit_be_word_low:
  fixes b :: u8
  assumes "8 \<le> LENGTH('a)"
  shows "ucast (push_bit 8 (v :: 'a::len word) OR ucast b) = b"
    and "8 * n + 8 \<le> LENGTH('a) \<Longrightarrow> take_bit (8 * n) v = v \<Longrightarrow>
         drop_bit 8 (push_bit 8 v OR ucast b) = v"
proof -
  show "ucast (push_bit 8 v OR ucast b) = b"
    using assms by (intro bit_word_eqI) (auto simp: bit_simps)
  assume n: "8 * n + 8 \<le> LENGTH('a)" and v: "take_bit (8 * n) v = v"
  have hi: "bit v i \<Longrightarrow> i < 8 * n" for i
    using arg_cong [OF v, of "\<lambda>w. bit w i"] by (simp add: bit_take_bit_iff)
  have nb: "\<not> bit b (8 + i)" for i
    by (auto dest: bit_imp_le_length)
  have sm: "8 + i < LENGTH('a)" if "bit v i" for i
    using hi [OF that] n by simp
  show "drop_bit 8 (push_bit 8 v OR ucast b) = v"
    by (intro bit_word_eqI) (auto simp: bit_simps nb sm)
qed

lemma take_bit_be_word:
  assumes "8 * length bs \<le> LENGTH('a)"
  shows "take_bit (8 * length bs) (be_word bs :: 'a::len word) = be_word bs"
  using assms
proof (induction bs rule: rev_induct)
  case Nil
  show ?case by simp
next
  case (snoc b bs)
  let ?v = "be_word bs :: 'a word"
  have IH: "take_bit (8 * length bs) ?v = ?v"
    using snoc by simp
  have hi: "i < 8 * length bs" if "bit ?v i" for i
    using that arg_cong [OF IH, of "\<lambda>w. bit w i"] by (simp add: bit_take_bit_iff)
  have lo: "i < 8 + 8 * length bs" if "bit b i" for i
    using bit_imp_le_length [OF that] by simp
  show ?case
    by (rule bit_word_eqI) (auto simp: be_word_snoc bit_simps dest: hi lo)
qed

lemma be_bytes_be_word:
  assumes "8 * length bs \<le> LENGTH('a)"
  shows "be_bytes (length bs) (be_word bs :: 'a::len word) = bs"
  using assms
proof (induction bs rule: rev_induct)
  case Nil
  show ?case by simp
next
  case (snoc b bs)
  let ?v = "be_word bs :: 'a word"
  have le: "8 * length bs + 8 \<le> LENGTH('a)" "8 \<le> LENGTH('a)"
    using snoc.prems by simp_all
  have "take_bit (8 * length bs) ?v = ?v"
    using le by (intro take_bit_be_word) simp
  then show ?case
    using snoc le bit_be_word_low [OF le(2)]
    by (simp add: be_bytes_snoc be_word_snoc)
qed

end
