(* ===== verification/RustText.thy ===== *)
theory RustText
  imports Prelude
begin

section \<open>Rust strings: decimal text and UTF-8\<close>

text \<open>
  A Rust \<open>String\<close> or \<open>&str\<close> is the byte string of its UTF-8 encoding (\<open>string\<close>, one \<open>char\<close>
  per byte), which is what \<open>len\<close> counts and what goes on the wire.  This theory models what
  the driver uses of the standard library's text functions: \<open>Display\<close> of unsigned and signed
  integers, zero padding, \<open>String::from_utf8\<close> with its error, and ASCII classification.
\<close>

subsection \<open>Integer text\<close>

fun show_nat :: "nat \<Rightarrow> string" where
  "show_nat n = (if n < 10 then [char_of (48 + n)]
                 else show_nat (n div 10) @ [char_of (48 + n mod 10)])"

declare show_nat.simps [simp del]

definition show_int :: "int \<Rightarrow> string" where
  "show_int i = (if i < 0 then CHR ''-'' # show_nat (nat (- i)) else show_nat (nat i))"

text \<open>\<open>{:0n}\<close>: pad a number's text with zeros on the left to width \<open>n\<close>.\<close>

definition pad_zeros :: "nat \<Rightarrow> string \<Rightarrow> string" where
  "pad_zeros n s = replicate (n - length s) (CHR ''0'') @ s"

definition is_digit_char :: "char \<Rightarrow> bool" where
  "is_digit_char c \<longleftrightarrow> 48 \<le> (of_char c :: nat) \<and> (of_char c :: nat) \<le> 57"

definition digit_value :: "char \<Rightarrow> nat" where
  "digit_value c = of_char c - 48"

fun nat_of_digits :: "nat \<Rightarrow> string \<Rightarrow> nat" where
  "nat_of_digits acc [] = acc"
| "nat_of_digits acc (c # cs) = nat_of_digits (10 * acc + digit_value c) cs"

lemma nat_of_digits_append:
  "nat_of_digits acc (xs @ ys) = nat_of_digits (nat_of_digits acc xs) ys"
  by (induction xs arbitrary: acc) auto

lemma digit_char:
  assumes "d < 10"
  shows "is_digit_char (char_of (48 + d))" "digit_value (char_of (48 + d)) = d"
proof -
  have "(of_char (char_of (48 + d) :: char) :: nat) = 48 + d"
    using assms by (simp add: of_char_of)
  then show "is_digit_char (char_of (48 + d))" "digit_value (char_of (48 + d)) = d"
    using assms by (simp_all add: is_digit_char_def digit_value_def)
qed

lemma show_nat_digits: "list_all is_digit_char (show_nat n)"
proof (induction n rule: show_nat.induct)
  case (1 n)
  then show ?case
    by (subst show_nat.simps) (simp add: digit_char)
qed

lemma show_nat_nonempty [simp]: "show_nat n \<noteq> []"
  by (subst show_nat.simps) simp

lemma nat_of_digits_show: "nat_of_digits 0 (show_nat n) = n"
proof (induction n rule: show_nat.induct)
  case (1 n)
  show ?case
  proof (cases "n < 10")
    case True
    then show ?thesis by (subst show_nat.simps) (simp add: digit_char)
  next
    case False
    then have "nat_of_digits 0 (show_nat (n div 10)) = n div 10" by (rule 1)
    with False show ?thesis
      by (subst show_nat.simps) (simp add: nat_of_digits_append digit_char)
  qed
qed

subsection \<open>Bytes and UTF-8\<close>

definition text_of_bytes :: "u8 list \<Rightarrow> string" where
  "text_of_bytes bs = map (\<lambda>b. char_of (unat b)) bs"

definition bytes_of_text :: "string \<Rightarrow> u8 list" where
  "bytes_of_text s = map (\<lambda>c. of_nat (of_char c)) s"

lemma length_bytes_of_text [simp]: "length (bytes_of_text s) = length s"
  by (simp add: bytes_of_text_def)

lemma length_text_of_bytes [simp]: "length (text_of_bytes bs) = length bs"
  by (simp add: text_of_bytes_def)

lemma bytes_of_text_of_bytes [simp]: "bytes_of_text (text_of_bytes bs) = bs"
proof -
  have "of_nat (of_char (char_of (unat b) :: char)) = (b :: u8)" for b
  proof -
    have "unat b < 256" by (rule unat_u8_less)
    then show ?thesis by (simp add: of_char_of)
  qed
  then show ?thesis by (simp add: bytes_of_text_def text_of_bytes_def comp_def)
qed

lemma text_of_bytes_of_text [simp]: "text_of_bytes (bytes_of_text s) = s"
proof -
  have "char_of (unat (of_nat (of_char c) :: u8)) = (c :: char)" for c
  proof -
    have "(of_char c :: nat) < 256" by simp
    then have "unat (of_nat (of_char c) :: u8) = of_char c"
      by (simp add: unat_of_nat)
    then show ?thesis by simp
  qed
  then show ?thesis by (simp add: bytes_of_text_def text_of_bytes_def comp_def)
qed

text \<open>
  \<open>core::str\<close>'s validation: the index of the first bad sequence and its length, or no length
  when the input ends inside a sequence.
\<close>

definition is_cont :: "u8 \<Rightarrow> bool" where
  "is_cont b \<longleftrightarrow> 0x80 \<le> b \<and> b \<le> 0xBF"

definition second_ok :: "u8 \<Rightarrow> u8 \<Rightarrow> bool" where
  "second_ok b0 b1 \<longleftrightarrow>
     (if b0 = 0xE0 then 0xA0 \<le> b1 \<and> b1 \<le> 0xBF
      else if b0 = 0xED then 0x80 \<le> b1 \<and> b1 \<le> 0x9F
      else if b0 = 0xF0 then 0x90 \<le> b1 \<and> b1 \<le> 0xBF
      else if b0 = 0xF4 then 0x80 \<le> b1 \<and> b1 \<le> 0x8F
      else is_cont b1)"

definition utf8_width :: "u8 \<Rightarrow> nat" where
  "utf8_width b =
     (if b < 0x80 then 1 else if 0xC2 \<le> b \<and> b \<le> 0xDF then 2
      else if 0xE0 \<le> b \<and> b \<le> 0xEF then 3 else if 0xF0 \<le> b \<and> b \<le> 0xF4 then 4 else 0)"

fun utf8_tail :: "nat \<Rightarrow> nat \<Rightarrow> u8 list \<Rightarrow> nat option option" where
  \<comment> \<open>\<open>utf8_tail k n bs\<close>: \<open>k\<close> bytes seen, \<open>n\<close> continuation bytes to go\<close>
  "utf8_tail k 0 bs = None"
| "utf8_tail k (Suc n) [] = Some None"
| "utf8_tail k (Suc n) (b # bs) =
     (if is_cont b then utf8_tail (Suc k) n bs else Some (Some k))"

definition utf8_seq_error :: "u8 \<Rightarrow> u8 list \<Rightarrow> nat option option" where
  "utf8_seq_error b0 rest =
     (if utf8_width b0 = 0 then Some (Some 1)
      else if utf8_width b0 = 1 then None
      else case rest of
          [] \<Rightarrow> Some None
        | b1 # rest' \<Rightarrow>
            if second_ok b0 b1 then utf8_tail 2 (utf8_width b0 - 2) rest' else Some (Some 1))"

function utf8_error :: "nat \<Rightarrow> u8 list \<Rightarrow> (nat \<times> nat option) option" where
  "utf8_error i [] = None"
| "utf8_error i (b # bs) =
     (case utf8_seq_error b bs of
        Some e \<Rightarrow> Some (i, e)
      | None \<Rightarrow> utf8_error (i + utf8_width b) (drop (utf8_width b - 1) bs))"
  by pat_completeness auto
termination
  by (relation "measure (\<lambda>(i, bs). length bs)") auto

text \<open>\<open>String::from_utf8\<close> with the \<open>Display\<close> text of its error.\<close>

definition from_utf8 :: "u8 list \<Rightarrow> string + string" where
  "from_utf8 bs =
     (case utf8_error 0 bs of
        None \<Rightarrow> Inr (text_of_bytes bs)
      | Some (i, Some n) \<Rightarrow>
          Inl (''invalid utf-8 sequence of '' @ show_nat n @ '' bytes from index '' @ show_nat i)
      | Some (i, None) \<Rightarrow>
          Inl (''incomplete utf-8 byte sequence from index '' @ show_nat i))"

text \<open>The strings a Rust program can hold: valid UTF-8.\<close>

definition is_str :: "string \<Rightarrow> bool" where
  "is_str s \<longleftrightarrow> utf8_error 0 (bytes_of_text s) = None"

lemma from_utf8_str: "is_str s \<Longrightarrow> from_utf8 (bytes_of_text s) = Inr s"
  by (simp add: is_str_def from_utf8_def)

lemma from_utf8_Inr_is_str: "from_utf8 bs = Inr s \<Longrightarrow> is_str s \<and> bytes_of_text s = bs"
  by (auto simp: from_utf8_def is_str_def split: option.splits prod.splits)

lemma utf8_error_ascii:
  "list_all (\<lambda>b. b < 0x80) bs \<Longrightarrow> utf8_error i bs = None"
proof (induction bs arbitrary: i)
  case Nil
  show ?case by simp
next
  case (Cons b bs)
  then have "utf8_width b = 1" by (simp add: utf8_width_def)
  with Cons show ?case by (simp add: utf8_seq_error_def)
qed

text \<open>ASCII text (bytes below 128) is a Rust string.\<close>

definition is_ascii :: "string \<Rightarrow> bool" where
  "is_ascii s \<longleftrightarrow> list_all (\<lambda>c. (of_char c :: nat) < 128) s"

lemma is_ascii_is_str: "is_ascii s \<Longrightarrow> is_str s"
  unfolding is_str_def
  by (intro utf8_error_ascii)
    (auto simp: is_ascii_def bytes_of_text_def list_all_iff word_less_nat_alt unat_of_nat)

subsection \<open>Characters and trimming\<close>

text \<open>\<open>char::from(u8)\<close>: the code point of that number, in UTF-8.\<close>

definition char_from_u8 :: "u8 \<Rightarrow> string" where
  "char_from_u8 b =
     (if b < 0x80 then [char_of (unat b)]
      else [char_of (192 + unat b div 64), char_of (128 + unat b mod 64)])"

text \<open>
  \<open>str::trim\<close> strips Unicode white space at both ends; \<open>ws_seqs\<close> lists the UTF-8 sequences of
  the \<open>White_Space\<close> code points.
\<close>

definition ws_seqs :: "nat list list" where
  "ws_seqs = [[9], [10], [11], [12], [13], [32], [0xC2, 0x85], [0xC2, 0xA0], [0xE1, 0x9A, 0x80],
     [0xE2, 0x80, 0x80], [0xE2, 0x80, 0x81], [0xE2, 0x80, 0x82], [0xE2, 0x80, 0x83],
     [0xE2, 0x80, 0x84], [0xE2, 0x80, 0x85], [0xE2, 0x80, 0x86], [0xE2, 0x80, 0x87],
     [0xE2, 0x80, 0x88], [0xE2, 0x80, 0x89], [0xE2, 0x80, 0x8A], [0xE2, 0x80, 0xA8],
     [0xE2, 0x80, 0xA9], [0xE2, 0x80, 0xAF], [0xE2, 0x81, 0x9F], [0xE3, 0x80, 0x80]]"

fun is_prefix :: "nat list \<Rightarrow> string \<Rightarrow> bool" where
  "is_prefix [] s = True"
| "is_prefix (n # ns) [] = False"
| "is_prefix (n # ns) (c # s) = (of_char c = n \<and> is_prefix ns s)"

definition ws_head :: "nat list list \<Rightarrow> string \<Rightarrow> nat" where
  "ws_head seqs s = (case find (\<lambda>w. is_prefix w s) seqs of None \<Rightarrow> 0 | Some w \<Rightarrow> length w)"

function strip_ws :: "nat list list \<Rightarrow> string \<Rightarrow> string" where
  "strip_ws seqs s =
     (if s = [] \<or> ws_head seqs s = 0 then s else strip_ws seqs (drop (ws_head seqs s) s))"
  by pat_completeness auto
termination
  by (relation "measure (\<lambda>(_, s). length s)") auto

declare strip_ws.simps [simp del]

definition str_trim :: "string \<Rightarrow> string" where
  "str_trim s = rev (strip_ws (map rev ws_seqs) (rev (strip_ws ws_seqs s)))"

lemma strip_ws_id: "ws_head seqs s = 0 \<Longrightarrow> strip_ws seqs s = s"
  by (simp add: strip_ws.simps)

text \<open>Text that starts and ends with a printable ASCII character is not trimmed.\<close>

definition visible_char :: "char \<Rightarrow> bool" where
  "visible_char c \<longleftrightarrow> 32 < (of_char c :: nat) \<and> (of_char c :: nat) < 128"

lemma ws_head_visible: "visible_char c \<Longrightarrow> ws_head ws_seqs (c # s) = 0"
  by (simp add: ws_head_def ws_seqs_def visible_char_def)

lemma ws_head_visible_rev: "visible_char c \<Longrightarrow> ws_head (map rev ws_seqs) (c # s) = 0"
  by (simp add: ws_head_def ws_seqs_def visible_char_def)

lemma str_trim_visible:
  assumes "s \<noteq> []" and "visible_char (hd s)" and "visible_char (last s)"
  shows "str_trim s = s"
proof -
  obtain c t where s: "s = c # t" using assms(1) by (cases s) auto
  obtain d u where r: "rev s = d # u" using assms(1) by (cases "rev s") auto
  have "d = last s" using r assms(1) by (simp add: last_rev hd_rev [symmetric])
  then have "ws_head (map rev ws_seqs) (rev s) = 0"
    using assms(3) by (simp add: r ws_head_visible_rev)
  moreover have "ws_head ws_seqs s = 0"
    using assms(2) by (simp add: s ws_head_visible)
  ultimately show ?thesis by (simp add: str_trim_def strip_ws_id)
qed

lemma digit_visible: "is_digit_char c \<Longrightarrow> visible_char c"
  by (simp add: is_digit_char_def visible_char_def)

end
