(* ===== verification/Errors.thy ===== *)
theory Errors
  imports RustText
begin

section \<open>Protocol constants and the driver's error type\<close>

text \<open>
  \<open>PacketType\<close> and \<open>MarkerType\<close> of \<open>src/src/constants.rs\<close>, the TNS length
  indicators, and the \<open>Error\<close> enum of \<open>src/src/error.rs\<close> with its classifiers.
  An \<open>io::Error\<close> and a \<open>Duration\<close> carry their display text and their nanoseconds.
\<close>

subsection \<open>Packet types\<close>

datatype packet_type = Connect | Accept | Ack | Refuse | Redirect | Data | NullPacket
  | Abort | Resend | Marker | Attention | Control

datatype marker_type = Break | Reset | Interrupt

fun packet_type_byte :: "packet_type \<Rightarrow> u8" where
  "packet_type_byte Connect = 1"
| "packet_type_byte Accept = 2"
| "packet_type_byte Ack = 3"
| "packet_type_byte Refuse = 4"
| "packet_type_byte Redirect = 5"
| "packet_type_byte Data = 6"
| "packet_type_byte NullPacket = 7"
| "packet_type_byte Abort = 9"
| "packet_type_byte Resend = 11"
| "packet_type_byte Marker = 12"
| "packet_type_byte Attention = 13"
| "packet_type_byte Control = 14"

fun marker_type_byte :: "marker_type \<Rightarrow> u8" where
  "marker_type_byte Break = 1"
| "marker_type_byte Reset = 2"
| "marker_type_byte Interrupt = 3"

subsection \<open>TNS length indicators (\<open>constants::length\<close>)\<close>

definition MAX_SHORT :: u8 where "MAX_SHORT = 252"
definition ESCAPE_CHAR :: u8 where "ESCAPE_CHAR = 253"
definition LONG_INDICATOR :: u8 where "LONG_INDICATOR = 254"
definition NULL_INDICATOR :: u8 where "NULL_INDICATOR = 255"

lemmas length_indicator_defs = MAX_SHORT_def ESCAPE_CHAR_def LONG_INDICATOR_def NULL_INDICATOR_def

definition PACKET_HEADER_SIZE :: nat where "PACKET_HEADER_SIZE = 8"

definition NO_DATA_FOUND :: u32 where "NO_DATA_FOUND = 1403"

subsection \<open>The \<open>Error\<close> enum\<close>

datatype (plugins only: code size) error =
    InvalidPacketType u8
  | InvalidMessageType u8
  | PacketTooShort nat nat
  | UnexpectedPacketType packet_type packet_type
  | ProtocolVersionNotSupported u16 u16
  | Protocol string
  | ProtocolError string
  | BufferUnderflow nat nat
  | BufferOverflow nat nat
  | InvalidLengthIndicator u8
  | ConnectionRefused "u32 option" "string option"
  | ConnectionRedirected string
  | ConnectionRedirect string
  | ConnectionClosed
  | ConnectionClosedByServer string
  | ConnectionNotReady
  | CursorClosed
  | InvalidCursor string
  | ConnectionTimeout nat
  | InvalidConnectionString string
  | InvalidServiceName "string option" "string option"
  | InvalidSid "string option" "string option"
  | AuthenticationFailed string
  | InvalidCredentials
  | UnsupportedVerifierType u32
  | OracleError u32 string
  | SqlError string
  | NoDataFound
  | ServerError u32 string
  | InvalidDataType u16
  | InvalidOracleType u8
  | DataConversionError string
  | UnexpectedNull
  | Io string
  | FeatureNotSupported string
  | NativeNetworkEncryptionRequired
  | Internal string

type_synonym 'a result = "(error, 'a) outcome"

definition oracle_err :: "u32 \<Rightarrow> string \<Rightarrow> error" where
  "oracle_err code message = OracleError code message"

definition is_no_data_found :: "error \<Rightarrow> bool" where
  "is_no_data_found e =
     (case e of NoDataFound \<Rightarrow> True
      | OracleError code _ \<Rightarrow> code = NO_DATA_FOUND
      | _ \<Rightarrow> False)"

definition is_connection_error :: "error \<Rightarrow> bool" where
  "is_connection_error e =
     (case e of ConnectionRefused _ _ \<Rightarrow> True
      | ConnectionClosed \<Rightarrow> True
      | ConnectionClosedByServer _ \<Rightarrow> True
      | ConnectionTimeout _ \<Rightarrow> True
      | Io _ \<Rightarrow> True
      | _ \<Rightarrow> False)"

definition is_recoverable :: "error \<Rightarrow> bool" where
  "is_recoverable e =
     (case e of ConnectionTimeout _ \<Rightarrow> True | ConnectionClosed \<Rightarrow> True | _ \<Rightarrow> False)"

lemma recoverable_is_connection_error: "is_recoverable e \<Longrightarrow> is_connection_error e"
  by (cases e) (simp_all add: is_recoverable_def is_connection_error_def)

subsection \<open>\<open>TryFrom<u8>\<close>\<close>

definition packet_type_try_from :: "u8 \<Rightarrow> packet_type result" where
  "packet_type_try_from value =
     (if value = 1 then Inr Connect
      else if value = 2 then Inr Accept
      else if value = 3 then Inr Ack
      else if value = 4 then Inr Refuse
      else if value = 5 then Inr Redirect
      else if value = 6 then Inr Data
      else if value = 7 then Inr NullPacket
      else if value = 9 then Inr Abort
      else if value = 11 then Inr Resend
      else if value = 12 then Inr Marker
      else if value = 13 then Inr Attention
      else if value = 14 then Inr Control
      else Inl (Err (InvalidPacketType value)))"

lemma packet_type_try_from_byte [simp]:
  "packet_type_try_from (packet_type_byte t) = Inr t"
  by (cases t) (simp_all add: packet_type_try_from_def)

lemma packet_type_try_from_Inr:
  "packet_type_try_from b = Inr t \<longleftrightarrow> b = packet_type_byte t"
proof
  show "packet_type_try_from b = Inr t \<Longrightarrow> b = packet_type_byte t"
    by (auto simp: packet_type_try_from_def split: if_splits)
qed simp

lemma packet_type_try_from_no_panic [simp]: "packet_type_try_from b \<noteq> Inl Panic"
  by (simp add: packet_type_try_from_def)

end
