(* ===== verification/Codes.thy ===== *)
theory Codes
  imports Errors
begin

section \<open>The one-byte codes of the TTC protocol\<close>

text \<open>
  The remaining enums of \<open>src/src/constants.rs\<close>: \<open>MessageType\<close>, \<open>FunctionCode\<close>,
  \<open>OracleType\<close>, \<open>FetchOrientation\<close> and \<open>BindDirection\<close>, each with its discriminants
  and, where the source has one, its \<open>TryFrom<u8>\<close>; and the classification of column types
  the execute path uses.  Constructors carry a prefix naming their enum.
\<close>

subsection \<open>\<open>MessageType\<close>\<close>

datatype (plugins only: code size) message_type = MsgProtocol | MsgDataTypes | MsgFunction
    | MsgError | MsgRowHeader | MsgRowData | MsgParameter | MsgStatus | MsgIoVector
    | MsgLobData | MsgWarning | MsgDescribeInfo | MsgPiggyback | MsgFlushOutBinds
    | MsgBitVector | MsgServerSidePiggyback | MsgOnewayFn | MsgImplicitResultset
    | MsgRenegotiate | MsgEndOfResponse | MsgToken | MsgFastAuth

primrec message_type_byte :: "message_type \<Rightarrow> u8" where
  "message_type_byte MsgProtocol = 1"
| "message_type_byte MsgDataTypes = 2"
| "message_type_byte MsgFunction = 3"
| "message_type_byte MsgError = 4"
| "message_type_byte MsgRowHeader = 6"
| "message_type_byte MsgRowData = 7"
| "message_type_byte MsgParameter = 8"
| "message_type_byte MsgStatus = 9"
| "message_type_byte MsgIoVector = 11"
| "message_type_byte MsgLobData = 14"
| "message_type_byte MsgWarning = 15"
| "message_type_byte MsgDescribeInfo = 16"
| "message_type_byte MsgPiggyback = 17"
| "message_type_byte MsgFlushOutBinds = 19"
| "message_type_byte MsgBitVector = 21"
| "message_type_byte MsgServerSidePiggyback = 23"
| "message_type_byte MsgOnewayFn = 26"
| "message_type_byte MsgImplicitResultset = 27"
| "message_type_byte MsgRenegotiate = 28"
| "message_type_byte MsgEndOfResponse = 29"
| "message_type_byte MsgToken = 33"
| "message_type_byte MsgFastAuth = 34"

definition message_type_try_from :: "u8 \<Rightarrow> message_type result" where
  "message_type_try_from value =
     (if value = 1 then Inr MsgProtocol
      else if value = 2 then Inr MsgDataTypes
      else if value = 3 then Inr MsgFunction
      else if value = 4 then Inr MsgError
      else if value = 6 then Inr MsgRowHeader
      else if value = 7 then Inr MsgRowData
      else if value = 8 then Inr MsgParameter
      else if value = 9 then Inr MsgStatus
      else if value = 11 then Inr MsgIoVector
      else if value = 14 then Inr MsgLobData
      else if value = 15 then Inr MsgWarning
      else if value = 16 then Inr MsgDescribeInfo
      else if value = 17 then Inr MsgPiggyback
      else if value = 19 then Inr MsgFlushOutBinds
      else if value = 21 then Inr MsgBitVector
      else if value = 23 then Inr MsgServerSidePiggyback
      else if value = 26 then Inr MsgOnewayFn
      else if value = 27 then Inr MsgImplicitResultset
      else if value = 28 then Inr MsgRenegotiate
      else if value = 29 then Inr MsgEndOfResponse
      else if value = 33 then Inr MsgToken
      else if value = 34 then Inr MsgFastAuth
      else Inl (Err (InvalidMessageType value)))"

lemma message_type_try_from_byte [simp]: "message_type_try_from (message_type_byte t) = Inr t"
  by (cases t) (simp_all add: message_type_try_from_def)

lemma message_type_try_from_Inr: "message_type_try_from b = Inr t \<Longrightarrow> b = message_type_byte t"
  by (auto simp: message_type_try_from_def split: if_splits)

lemma message_type_try_from_no_panic [simp]: "message_type_try_from b \<noteq> Inl Panic"
  by (simp add: message_type_try_from_def)

subsection \<open>\<open>FunctionCode\<close>\<close>

datatype (plugins only: code size) function_code = FnReexecute | FnFetch | FnLogoff | FnCommit
    | FnRollback | FnReexecuteAndFetch | FnExecute | FnLobOp | FnTpcTxnSwitch
    | FnTpcTxnChangeState | FnCloseCursors | FnAuthPhaseOne | FnAuthPhaseTwo | FnAqEnq
    | FnAqDeq | FnDirectPathPrepare | FnDirectPathLoadStream | FnDirectPathOp
    | FnSetEndToEndAttr | FnArrayAq | FnPing | FnSetSchema | FnSessionGet | FnSessionRelease
    | FnSessionState | FnPipelineBegin | FnPipelineEnd

primrec function_code_byte :: "function_code \<Rightarrow> u8" where
  "function_code_byte FnReexecute = 4"
| "function_code_byte FnFetch = 5"
| "function_code_byte FnLogoff = 9"
| "function_code_byte FnCommit = 14"
| "function_code_byte FnRollback = 15"
| "function_code_byte FnReexecuteAndFetch = 78"
| "function_code_byte FnExecute = 94"
| "function_code_byte FnLobOp = 96"
| "function_code_byte FnTpcTxnSwitch = 103"
| "function_code_byte FnTpcTxnChangeState = 104"
| "function_code_byte FnCloseCursors = 105"
| "function_code_byte FnAuthPhaseOne = 118"
| "function_code_byte FnAuthPhaseTwo = 115"
| "function_code_byte FnAqEnq = 121"
| "function_code_byte FnAqDeq = 122"
| "function_code_byte FnDirectPathPrepare = 128"
| "function_code_byte FnDirectPathLoadStream = 129"
| "function_code_byte FnDirectPathOp = 130"
| "function_code_byte FnSetEndToEndAttr = 135"
| "function_code_byte FnArrayAq = 145"
| "function_code_byte FnPing = 147"
| "function_code_byte FnSetSchema = 152"
| "function_code_byte FnSessionGet = 162"
| "function_code_byte FnSessionRelease = 163"
| "function_code_byte FnSessionState = 176"
| "function_code_byte FnPipelineBegin = 199"
| "function_code_byte FnPipelineEnd = 200"

subsection \<open>\<open>OracleType\<close>\<close>

datatype (plugins only: code size) oracle_type = OraVarchar | OraNumber | OraBinaryInteger
    | OraLong | OraRowid | OraDate | OraRaw | OraLongRaw | OraChar | OraBinaryFloat
    | OraBinaryDouble | OraCursor | OraObject | OraClob | OraBlob | OraBfile | OraJson
    | OraVector | OraTimestamp | OraTimestampTz | OraIntervalYm | OraIntervalDs | OraUrowid
    | OraTimestampLtz | OraBoolean

primrec oracle_type_byte :: "oracle_type \<Rightarrow> u8" where
  "oracle_type_byte OraVarchar = 1"
| "oracle_type_byte OraNumber = 2"
| "oracle_type_byte OraBinaryInteger = 3"
| "oracle_type_byte OraLong = 8"
| "oracle_type_byte OraRowid = 11"
| "oracle_type_byte OraDate = 12"
| "oracle_type_byte OraRaw = 23"
| "oracle_type_byte OraLongRaw = 24"
| "oracle_type_byte OraChar = 96"
| "oracle_type_byte OraBinaryFloat = 100"
| "oracle_type_byte OraBinaryDouble = 101"
| "oracle_type_byte OraCursor = 102"
| "oracle_type_byte OraObject = 109"
| "oracle_type_byte OraClob = 112"
| "oracle_type_byte OraBlob = 113"
| "oracle_type_byte OraBfile = 114"
| "oracle_type_byte OraJson = 119"
| "oracle_type_byte OraVector = 127"
| "oracle_type_byte OraTimestamp = 180"
| "oracle_type_byte OraTimestampTz = 181"
| "oracle_type_byte OraIntervalYm = 182"
| "oracle_type_byte OraIntervalDs = 183"
| "oracle_type_byte OraUrowid = 208"
| "oracle_type_byte OraTimestampLtz = 231"
| "oracle_type_byte OraBoolean = 252"

definition oracle_type_try_from :: "u8 \<Rightarrow> oracle_type result" where
  "oracle_type_try_from value =
     (if value = 1 then Inr OraVarchar
      else if value = 2 then Inr OraNumber
      else if value = 3 then Inr OraBinaryInteger
      else if value = 8 then Inr OraLong
      else if value = 11 then Inr OraRowid
      else if value = 12 then Inr OraDate
      else if value = 23 then Inr OraRaw
      else if value = 24 then Inr OraLongRaw
      else if value = 96 then Inr OraChar
      else if value = 100 then Inr OraBinaryFloat
      else if value = 101 then Inr OraBinaryDouble
      else if value = 102 then Inr OraCursor
      else if value = 109 then Inr OraObject
      else if value = 112 then Inr OraClob
      else if value = 113 then Inr OraBlob
      else if value = 114 then Inr OraBfile
      else if value = 119 then Inr OraJson
      else if value = 127 then Inr OraVector
      else if value = 180 then Inr OraTimestamp
      else if value = 181 then Inr OraTimestampTz
      else if value = 182 then Inr OraIntervalYm
      else if value = 183 then Inr OraIntervalDs
      else if value = 208 then Inr OraUrowid
      else if value = 231 then Inr OraTimestampLtz
      else if value = 252 then Inr OraBoolean
      else Inl (Err (InvalidOracleType value)))"

lemma oracle_type_try_from_byte [simp]: "oracle_type_try_from (oracle_type_byte t) = Inr t"
  by (cases t) (simp_all add: oracle_type_try_from_def)

lemma oracle_type_try_from_Inr: "oracle_type_try_from b = Inr t \<Longrightarrow> b = oracle_type_byte t"
  by (auto simp: oracle_type_try_from_def split: if_splits)

lemma oracle_type_try_from_no_panic [simp]: "oracle_type_try_from b \<noteq> Inl Panic"
  by (simp add: oracle_type_try_from_def)

definition is_lob :: "oracle_type \<Rightarrow> bool" where
  "is_lob t \<longleftrightarrow> t = OraClob \<or> t = OraBlob \<or> t = OraBfile \<or> t = OraJson \<or> t = OraVector"

definition requires_no_prefetch :: "oracle_type \<Rightarrow> bool" where
  "requires_no_prefetch t \<longleftrightarrow> t = OraClob \<or> t = OraBlob \<or> t = OraJson \<or> t = OraVector"

primrec default_bind_buffer_size :: "oracle_type \<Rightarrow> u32" where
  "default_bind_buffer_size OraVarchar = 4000"
| "default_bind_buffer_size OraNumber = 22"
| "default_bind_buffer_size OraBinaryInteger = 22"
| "default_bind_buffer_size OraLong = 32767"
| "default_bind_buffer_size OraRowid = 18"
| "default_bind_buffer_size OraDate = 7"
| "default_bind_buffer_size OraRaw = 4000"
| "default_bind_buffer_size OraLongRaw = 4000"
| "default_bind_buffer_size OraChar = 4000"
| "default_bind_buffer_size OraBinaryFloat = 4"
| "default_bind_buffer_size OraBinaryDouble = 8"
| "default_bind_buffer_size OraCursor = 0"
| "default_bind_buffer_size OraObject = 0"
| "default_bind_buffer_size OraClob = 112"
| "default_bind_buffer_size OraBlob = 112"
| "default_bind_buffer_size OraBfile = 112"
| "default_bind_buffer_size OraJson = 100"
| "default_bind_buffer_size OraVector = 100"
| "default_bind_buffer_size OraTimestamp = 13"
| "default_bind_buffer_size OraTimestampTz = 13"
| "default_bind_buffer_size OraIntervalYm = 5"
| "default_bind_buffer_size OraIntervalDs = 11"
| "default_bind_buffer_size OraUrowid = 18"
| "default_bind_buffer_size OraTimestampLtz = 13"
| "default_bind_buffer_size OraBoolean = 1"

lemma requires_no_prefetch_is_lob: "requires_no_prefetch t \<Longrightarrow> is_lob t"
  by (auto simp: requires_no_prefetch_def is_lob_def)

subsection \<open>\<open>FetchOrientation\<close> and \<open>BindDirection\<close>\<close>

datatype (plugins only: code size) fetch_orientation = FetchCurrent | FetchNext | FetchFirst
    | FetchLast | FetchPrior | FetchAbsolute | FetchRelative

primrec fetch_orientation_code :: "fetch_orientation \<Rightarrow> u32" where
  "fetch_orientation_code FetchCurrent = 1"
| "fetch_orientation_code FetchNext = 2"
| "fetch_orientation_code FetchFirst = 4"
| "fetch_orientation_code FetchLast = 8"
| "fetch_orientation_code FetchPrior = 16"
| "fetch_orientation_code FetchAbsolute = 32"
| "fetch_orientation_code FetchRelative = 64"

datatype (plugins only: code size) bind_direction = BindOutput | BindInput | BindInputOutput

primrec bind_direction_byte :: "bind_direction \<Rightarrow> u8" where
  "bind_direction_byte BindOutput = 16"
| "bind_direction_byte BindInput = 32"
| "bind_direction_byte BindInputOutput = 48"

definition is_input :: "bind_direction \<Rightarrow> bool" where
  "is_input d \<longleftrightarrow> d = BindInput \<or> d = BindInputOutput"

definition is_output :: "bind_direction \<Rightarrow> bool" where
  "is_output d \<longleftrightarrow> d = BindOutput \<or> d = BindInputOutput"

definition bind_direction_from_wire :: "u8 \<Rightarrow> bind_direction option" where
  "bind_direction_from_wire value =
     (if value = 16 then Some BindOutput
      else if value = 32 then Some BindInput
      else if value = 48 then Some BindInputOutput
      else None)"

definition bind_direction_try_from :: "u8 \<Rightarrow> bind_direction result" where
  "bind_direction_try_from value =
     (case bind_direction_from_wire value of
        Some d \<Rightarrow> Inr d
      | None \<Rightarrow> Inl (Err (Protocol (''Invalid bind direction: '' @ show_nat (unat value)))))"

lemma bind_direction_try_from_byte [simp]: "bind_direction_try_from (bind_direction_byte d) = Inr d"
  by (cases d) (simp_all add: bind_direction_try_from_def bind_direction_from_wire_def)

lemma bind_direction_try_from_Inr: "bind_direction_try_from b = Inr d \<Longrightarrow> b = bind_direction_byte d"
  by (auto simp: bind_direction_try_from_def bind_direction_from_wire_def split: if_splits)

subsection \<open>Property\<close>

text \<open>
  For each of the four enums that travel as one byte, \<open>try_from\<close> accepts exactly the
  discriminants: it gives a constructor if and only if the byte is that constructor's.
\<close>

theorem codes_try_from_iff:
  "(packet_type_try_from b = Inr p \<longleftrightarrow> b = packet_type_byte p)
   \<and> (message_type_try_from b = Inr m \<longleftrightarrow> b = message_type_byte m)
   \<and> (oracle_type_try_from b = Inr t \<longleftrightarrow> b = oracle_type_byte t)
   \<and> (bind_direction_try_from b = Inr d \<longleftrightarrow> b = bind_direction_byte d)"
  using packet_type_try_from_Inr message_type_try_from_Inr oracle_type_try_from_Inr
    bind_direction_try_from_Inr by auto

end
