(* ===== verification/ReadBuf.thy ===== *)
theory ReadBuf
  imports Errors
begin

section \<open>The read buffer\<close>

text \<open>
  \<open>src/src/buffer/read.rs\<close>: \<open>ReadBuffer\<close> is the byte data and a read position; every reader is
  an action on it, in the order of the source.  Two judgements organise the proofs:
  \<^item> \<open>reads m bs v\<close>: wherever \<open>m\<close> starts on the bytes \<open>bs\<close>, it succeeds with \<open>v\<close> and stops
    right behind them (the round trips compose from it);
  \<^item> \<open>rd_post m Q\<close>: on any input \<open>m\<close> never panics, never moves backwards or past the end,
    leaves the data alone, and a value it returns satisfies \<open>Q\<close>.
  The two chunk loops are total functions: each round that continues consumes input.
\<close>

named_theorems rd_intros

record rbuf =
  rb_data :: "u8 list"
  rb_pos :: nat

type_synonym 'a reader = "(rbuf, error, 'a) action"

subsection \<open>Construction, positions\<close>

definition rbuf_new :: "u8 list \<Rightarrow> rbuf" where
  "rbuf_new data = \<lparr>rb_data = data, rb_pos = 0\<rparr>"

definition rb_len :: "rbuf \<Rightarrow> nat" where
  "rb_len s = length (rb_data s)"

definition rb_is_empty :: "rbuf \<Rightarrow> bool" where
  "rb_is_empty s \<longleftrightarrow> rb_data s = []"

definition remaining :: "rbuf \<Rightarrow> nat" where
  "remaining s = length (rb_data s) - rb_pos s"

definition remaining_bytes :: "u8 list reader" where
  "remaining_bytes = (\<lambda>s. (slice_at (rb_data s) (rb_pos s) (length (rb_data s)), s))"

definition has_remaining :: "rbuf \<Rightarrow> nat \<Rightarrow> bool" where
  "has_remaining s n \<longleftrightarrow> n \<le> remaining s"

definition ensure_remaining :: "nat \<Rightarrow> unit reader" where
  "ensure_remaining n =
     (\<lambda>s. if remaining s < n then (Inl (Err (BufferUnderflow n (remaining s))), s)
          else (Inr (), s))"

definition advance :: "nat \<Rightarrow> unit reader" where
  "advance n = (\<lambda>s. (Inr (), s\<lparr>rb_pos := rb_pos s + n\<rparr>))"

definition skip :: "nat \<Rightarrow> unit reader" where
  "skip n = andSeq (ensure_remaining n) (advance n)"

definition reset :: "unit reader" where
  "reset = (\<lambda>s. (Inr (), s\<lparr>rb_pos := 0\<rparr>))"

definition set_position :: "nat \<Rightarrow> unit reader" where
  "set_position pos =
     (\<lambda>s. if length (rb_data s) < pos
          then (Inl (Err (BufferUnderflow pos (length (rb_data s)))), s)
          else (Inr (), s\<lparr>rb_pos := pos\<rparr>))"

subsection \<open>Raw bytes\<close>

text \<open>\<open>data_array n\<close> is the array expression \<open>[self.data[self.pos], \<dots>, self.data[self.pos + n-1]]\<close>.\<close>

definition data_array :: "nat \<Rightarrow> u8 list reader" where
  "data_array n =
     (\<lambda>s. (if \<forall>i<n. rb_pos s + i < length (rb_data s)
           then Inr (map (\<lambda>i. rb_data s ! (rb_pos s + i)) [0..<n]) else Inl Panic, s))"

definition data_slice :: "nat \<Rightarrow> u8 list reader" where
  "data_slice n = (\<lambda>s. (slice_at (rb_data s) (rb_pos s) (rb_pos s + n), s))"

definition data_byte :: "u8 reader" where
  "data_byte = (\<lambda>s. (index_at (rb_data s) (rb_pos s), s))"

definition read_u8 :: "u8 reader" where
  "read_u8 =
     andSeq (ensure_remaining 1)
       (andThen data_byte (\<lambda>value. andSeq (advance 1) (ok value)))"

text \<open>\<open>read_bytes\<close> fills a caller's slice; the slice's length is the argument.\<close>

definition read_bytes :: "nat \<Rightarrow> u8 list reader" where
  "read_bytes n =
     andSeq (ensure_remaining n)
       (andThen (data_slice n) (\<lambda>bytes. andSeq (advance n) (ok bytes)))"

definition read_bytes_owned :: "nat \<Rightarrow> u8 list reader" where
  "read_bytes_owned n =
     andSeq (ensure_remaining n)
       (andThen (data_slice n) (\<lambda>bytes. andSeq (advance n) (ok bytes)))"

definition read_bytes_vec :: "nat \<Rightarrow> u8 list reader" where
  "read_bytes_vec n =
     andSeq (ensure_remaining n)
       (andThen (data_slice n) (\<lambda>bytes. andSeq (advance n) (ok bytes)))"

definition peek_u8 :: "u8 reader" where
  "peek_u8 = andSeq (ensure_remaining 1) data_byte"

definition peek_bytes :: "nat \<Rightarrow> u8 list reader" where
  "peek_bytes n = andSeq (ensure_remaining n) (data_slice n)"

subsection \<open>Fixed-width integers\<close>

definition read_u16_be :: "u16 reader" where
  "read_u16_be =
     andSeq (ensure_remaining 2)
       (andThen (data_array 2) (\<lambda>bs. andSeq (advance 2) (ok (be_word bs))))"

definition read_i16_be :: "i16 reader" where
  "read_i16_be =
     andSeq (ensure_remaining 2)
       (andThen (data_array 2) (\<lambda>bs. andSeq (advance 2) (ok (be_word bs))))"

definition read_u16_le :: "u16 reader" where
  "read_u16_le =
     andSeq (ensure_remaining 2)
       (andThen (data_array 2) (\<lambda>bs. andSeq (advance 2) (ok (be_word (rev bs)))))"

definition read_u32_be :: "u32 reader" where
  "read_u32_be =
     andSeq (ensure_remaining 4)
       (andThen (data_array 4) (\<lambda>bs. andSeq (advance 4) (ok (be_word bs))))"

definition read_u64_be :: "u64 reader" where
  "read_u64_be =
     andSeq (ensure_remaining 8)
       (andThen (data_array 8) (\<lambda>bs. andSeq (advance 8) (ok (be_word bs))))"

subsection \<open>Variable-length integers\<close>

definition read_ub1 :: "u8 reader" where
  "read_ub1 = read_u8"

definition read_ub_length :: "u8 reader" where
  "read_ub_length = andThen read_u8 (\<lambda>len. ok (len AND 0x7F))"

definition read_ub2 :: "u16 reader" where
  "read_ub2 = andThen read_ub_length (\<lambda>len.
     if len = 0 then ok 0
     else if len = 1 then fmap ucast read_u8
     else if len = 2 then read_u16_be
     else fail (InvalidLengthIndicator len))"

definition read_sb2 :: "i16 reader" where
  "read_sb2 = andThen read_ub_length (\<lambda>len.
     if len = 0 then ok 0
     else if len = 1 then fmap scast read_u8
     else if len = 2 then read_i16_be
     else fail (InvalidLengthIndicator len))"

definition three_bytes :: "'a::len word reader" where
  "three_bytes = andThen (read_bytes_vec 3) (\<lambda>bytes.
     andThen (lift_res (index_at bytes 0)) (\<lambda>b0.
     andThen (lift_res (index_at bytes 1)) (\<lambda>b1.
     andThen (lift_res (index_at bytes 2)) (\<lambda>b2.
     ok (push_bit 16 (ucast b0) OR push_bit 8 (ucast b1) OR ucast b2)))))"

definition read_ub4 :: "u32 reader" where
  "read_ub4 = andThen read_ub_length (\<lambda>len.
     if len = 0 then ok 0
     else if len = 1 then fmap ucast read_u8
     else if len = 2 then fmap ucast read_u16_be
     else if len = 3 then three_bytes
     else if len = 4 then read_u32_be
     else fail (InvalidLengthIndicator len))"

definition read_ub8 :: "u64 reader" where
  "read_ub8 = andThen read_ub_length (\<lambda>len.
     if len = 0 then ok 0
     else if len = 1 then fmap ucast read_u8
     else if len = 2 then fmap ucast read_u16_be
     else if len = 3 then three_bytes
     else if len = 4 then fmap ucast read_u32_be
     else if 5 \<le> len \<and> len \<le> 7 then fmap be_word (read_bytes_vec (unat len))
     else if len = 8 then read_u64_be
     else fail (InvalidLengthIndicator len))"

text \<open>\<open>for _ in 0..len { value = (value << 8) | (self.read_u8()? as u64); }\<close>\<close>

fun read_be_loop :: "nat \<Rightarrow> u64 \<Rightarrow> u64 reader" where
  "read_be_loop 0 value = ok value"
| "read_be_loop (Suc n) value =
     andThen read_u8 (\<lambda>b. read_be_loop n (push_bit 8 value OR ucast b))"

definition too_large :: "nat \<Rightarrow> error" where
  "too_large len = DataConversionError (''integer too large: '' @ show_nat len @ '' bytes'')"

text \<open>\<open>-(value as i64)\<close> overflows on \<open>i64::MIN\<close>.\<close>

definition neg_i64 :: "i64 \<Rightarrow> i64 result" where
  "neg_i64 v = (if sint v = - (2 ^ 63) then Inl Panic else Inr (- v))"

definition read_oracle_int :: "i64 reader" where
  "read_oracle_int = andThen read_u8 (\<lambda>len_byte.
     let is_negative = (len_byte AND 0x80 \<noteq> 0);
         len = unat (len_byte AND 0x7f)
     in if len = 0 then ok 0
        else if 8 < len then fail (too_large len)
        else andThen (read_be_loop len 0) (\<lambda>value.
          if is_negative then lift_res (neg_i64 value) else ok value))"

definition read_oracle_uint :: "u64 reader" where
  "read_oracle_uint = andThen read_u8 (\<lambda>len_byte.
     let len = unat len_byte
     in if len = 0 then ok 0
        else if 8 < len then fail (too_large len)
        else read_be_loop len 0)"

definition skip_ub1 :: "unit reader" where
  "skip_ub1 = skip 1"

definition skip_ub2 :: "unit reader" where
  "skip_ub2 = andThen read_ub_length (\<lambda>len. if 0 < len then skip (unat len) else ok ())"

definition skip_ub4 :: "unit reader" where
  "skip_ub4 = andThen read_ub_length (\<lambda>len. if 0 < len then skip (unat len) else ok ())"

definition skip_ub8 :: "unit reader" where
  "skip_ub8 = andThen read_ub_length (\<lambda>len. if 0 < len then skip (unat len) else ok ())"

subsection \<open>Staying in bounds\<close>

definition rb_wf :: "rbuf \<Rightarrow> bool" where
  "rb_wf s \<longleftrightarrow> rb_pos s \<le> length (rb_data s)"

definition rd_frame :: "rbuf \<Rightarrow> rbuf \<Rightarrow> bool" where
  "rd_frame s s' \<longleftrightarrow> rb_data s' = rb_data s \<and> rb_pos s \<le> rb_pos s' \<and> rb_wf s'"

definition rd_at :: "'a reader \<Rightarrow> rbuf \<Rightarrow> ('a \<Rightarrow> bool) \<Rightarrow> bool" where
  "rd_at m s Q \<longleftrightarrow>
     (\<forall>r s'. rb_wf s \<longrightarrow> m s = (r, s') \<longrightarrow>
        rd_frame s s' \<and> (case r of Inl f \<Rightarrow> f \<noteq> Panic | Inr a \<Rightarrow> Q a))"

definition rd_post :: "'a reader \<Rightarrow> ('a \<Rightarrow> bool) \<Rightarrow> bool" where
  "rd_post m Q \<longleftrightarrow> (\<forall>s. rd_at m s Q)"

abbreviation rd_safe :: "'a reader \<Rightarrow> bool" where
  "rd_safe m \<equiv> rd_post m (\<lambda>_. True)"

lemma rd_frame_refl [simp]: "rb_wf s \<Longrightarrow> rd_frame s s"
  by (simp add: rd_frame_def)

lemma rd_frame_trans: "rd_frame s t \<Longrightarrow> rd_frame t u \<Longrightarrow> rd_frame s u"
  by (auto simp: rd_frame_def)

lemma rd_frame_wf: "rd_frame s t \<Longrightarrow> rb_wf t"
  by (simp add: rd_frame_def)

lemma rd_frame_remaining: "rd_frame s t \<Longrightarrow> remaining t \<le> remaining s"
  by (auto simp: rd_frame_def remaining_def)

lemma rd_atI:
  assumes "\<And>r s'. rb_wf s \<Longrightarrow> m s = (r, s') \<Longrightarrow>
    rd_frame s s' \<and> (case r of Inl f \<Rightarrow> f \<noteq> Panic | Inr a \<Rightarrow> Q a)"
  shows "rd_at m s Q"
  using assms by (auto simp: rd_at_def)

lemma rd_atD:
  assumes "rd_at m s Q" and "rb_wf s" and "m s = (r, s')"
  shows "rd_frame s s'" "r \<noteq> Inl Panic" "r = Inr a \<Longrightarrow> Q a"
  using assms by (fastforce simp: rd_at_def)+

lemma rd_at_unfold: "m s = m' s \<Longrightarrow> rd_at m' s Q \<Longrightarrow> rd_at m s Q"
  by (simp add: rd_at_def)

lemma rd_at_post: "rd_post m Q \<Longrightarrow> rd_at m s Q"
  by (simp add: rd_post_def)

lemma rd_at_andThen:
  assumes m: "rd_at m s P" and f: "\<And>a s'. m s = (Inr a, s') \<Longrightarrow> P a \<Longrightarrow> rd_at (f a) s' Q"
  shows "rd_at (andThen m f) s Q"
proof (rule rd_atI)
  fix r s'
  assume wf: "rb_wf s" and run: "andThen m f s = (r, s')"
  obtain r1 s1 where m1: "m s = (r1, s1)" by fastforce
  note m' = rd_atD [OF m wf m1]
  show "rd_frame s s' \<and> (case r of Inl f \<Rightarrow> f \<noteq> Panic | Inr a \<Rightarrow> Q a)"
  proof (cases r1)
    case (Inl e)
    with run m1 m' show ?thesis by auto
  next
    case (Inr a)
    with run m1 have fa: "f a s1 = (r, s')" by simp
    have Qa: "rd_at (f a) s1 Q" using f m' m1 Inr by blast
    note f' = rd_atD [OF Qa rd_frame_wf [OF m'(1)] fa]
    then show ?thesis
      using rd_frame_trans [OF m'(1) f'(1)] by (auto split: sum.splits)
  qed
qed

lemma rd_at_if:
  "(c \<Longrightarrow> rd_at m s Q) \<Longrightarrow> (\<not> c \<Longrightarrow> rd_at k s Q) \<Longrightarrow> rd_at (\<lambda>t. if c then m t else k t) s Q"
  by (simp add: rd_at_def)

lemma rd_postI:
  assumes "\<And>s r s'. rb_wf s \<Longrightarrow> m s = (r, s') \<Longrightarrow>
    rd_frame s s' \<and> (case r of Inl f \<Rightarrow> f \<noteq> Panic | Inr a \<Rightarrow> Q a)"
  shows "rd_post m Q"
  using assms by (auto simp: rd_post_def rd_at_def)

lemma rd_postD:
  assumes "rd_post m Q" and "rb_wf s" and "m s = (r, s')"
  shows "rd_frame s s'" "r \<noteq> Inl Panic" "r = Inr a \<Longrightarrow> Q a"
  using rd_atD [OF rd_at_post [OF assms(1)] assms(2,3)] by blast+

lemma rd_post_andThen:
  "rd_post m P \<Longrightarrow> (\<And>a. P a \<Longrightarrow> rd_post (f a) Q) \<Longrightarrow> rd_post (andThen m f) Q"
  unfolding rd_post_def by (auto intro: rd_at_andThen)

lemma rd_safe_andThen [rd_intros]:
  "rd_post m (\<lambda>_. True) \<Longrightarrow> (\<And>a. rd_post (f a) Q) \<Longrightarrow> rd_post (andThen m f) Q"
  by (rule rd_post_andThen) auto

lemma rd_safe_andSeq [rd_intros]:
  "rd_post m (\<lambda>_. True) \<Longrightarrow> rd_post k Q \<Longrightarrow> rd_post (andSeq m k) Q"
  by (simp add: andSeq_def rd_safe_andThen)

lemma rd_post_ok [rd_intros]: "Q a \<Longrightarrow> rd_post (ok a) Q"
  by (auto intro!: rd_postI simp: action_apply)

lemma rd_post_fail [rd_intros]: "rd_post (fail e) Q"
  by (auto intro!: rd_postI simp: action_apply)

lemma rd_post_lift_res: "r \<noteq> Inl Panic \<Longrightarrow> (\<And>a. r = Inr a \<Longrightarrow> Q a) \<Longrightarrow> rd_post (lift_res r) Q"
  by (auto intro!: rd_postI simp: action_apply split: sum.splits)

lemma rd_post_fmap [rd_intros]: "rd_post m (\<lambda>a. Q (g a)) \<Longrightarrow> rd_post (fmap g m) Q"
  unfolding fmap_def by (erule rd_post_andThen) (rule rd_post_ok)

lemma rd_post_if [rd_intros]:
  "(c \<Longrightarrow> rd_post a Q) \<Longrightarrow> (\<not> c \<Longrightarrow> rd_post b Q) \<Longrightarrow> rd_post (if c then a else b) Q"
  by simp

lemma rd_post_Let [rd_intros]: "rd_post (f a) Q \<Longrightarrow> rd_post (let x = a in f x) Q"
  by simp

lemma rd_post_weaken: "rd_post m P \<Longrightarrow> (\<And>a. P a \<Longrightarrow> Q a) \<Longrightarrow> rd_post m Q"
  by (auto simp: rd_post_def rd_at_def split: sum.splits)

text \<open>The primitive readers.\<close>

lemmas rd_prim_defs = action_apply andSeq_def andThen_def ensure_remaining_def advance_def data_byte_def
  data_slice_def data_array_def remaining_def rd_frame_def rb_wf_def

lemma rd_skip [rd_intros]: "rd_safe (skip n)"
  by (auto intro!: rd_postI simp: skip_def rd_prim_defs split: if_splits)

lemma rd_read_u8 [rd_intros]: "rd_safe read_u8"
  by (auto intro!: rd_postI simp: read_u8_def rd_prim_defs index_at_def split: if_splits)

lemma rd_read_bytes_vec_len: "rd_post (read_bytes_vec n) (\<lambda>bs. length bs = n)"
  by (auto intro!: rd_postI simp: read_bytes_vec_def rd_prim_defs slice_at_def split: if_splits)

lemma rd_read_bytes_vec [rd_intros]: "rd_safe (read_bytes_vec n)"
  by (rule rd_post_weaken [OF rd_read_bytes_vec_len]) simp

lemma rd_read_bytes [rd_intros]: "rd_safe (read_bytes n)"
  using rd_read_bytes_vec [of n] by (simp add: read_bytes_def read_bytes_vec_def)

lemma rd_read_bytes_owned [rd_intros]: "rd_safe (read_bytes_owned n)"
  using rd_read_bytes_vec [of n] by (simp add: read_bytes_owned_def read_bytes_vec_def)

lemma rd_read_u16_be [rd_intros]: "rd_safe read_u16_be"
  by (auto intro!: rd_postI simp: read_u16_be_def rd_prim_defs split: if_splits)

lemma rd_read_i16_be [rd_intros]: "rd_safe read_i16_be"
  by (auto intro!: rd_postI simp: read_i16_be_def rd_prim_defs split: if_splits)

lemma rd_read_u16_le [rd_intros]: "rd_safe read_u16_le"
  by (auto intro!: rd_postI simp: read_u16_le_def rd_prim_defs split: if_splits)

lemma rd_read_u32_be [rd_intros]: "rd_safe read_u32_be"
  by (auto intro!: rd_postI simp: read_u32_be_def rd_prim_defs split: if_splits)

lemma rd_read_u64_be [rd_intros]: "rd_safe read_u64_be"
  by (auto intro!: rd_postI simp: read_u64_be_def rd_prim_defs split: if_splits)

lemma rd_peek_u8 [rd_intros]: "rd_safe peek_u8"
  by (auto intro!: rd_postI simp: peek_u8_def rd_prim_defs index_at_def split: if_splits)

lemma rd_peek_bytes [rd_intros]: "rd_safe (peek_bytes n)"
  by (auto intro!: rd_postI simp: peek_bytes_def rd_prim_defs slice_at_def split: if_splits)

lemma rd_three_bytes [rd_intros]: "rd_safe three_bytes"
  unfolding three_bytes_def
  by (rule rd_post_andThen [OF rd_read_bytes_vec_len])
    (auto intro!: rd_intros rd_post_lift_res)

lemma rd_read_ub_length [rd_intros]: "rd_safe read_ub_length"
  unfolding read_ub_length_def by (intro rd_intros TrueI)

lemma rd_read_ub2 [rd_intros]: "rd_safe read_ub2"
  unfolding read_ub2_def by (intro rd_intros TrueI)

lemma rd_read_sb2 [rd_intros]: "rd_safe read_sb2"
  unfolding read_sb2_def by (intro rd_intros TrueI)

lemma rd_read_ub4 [rd_intros]: "rd_safe read_ub4"
  unfolding read_ub4_def by (intro rd_intros TrueI)

lemma rd_read_ub8 [rd_intros]: "rd_safe read_ub8"
  unfolding read_ub8_def by (intro rd_intros TrueI)

lemma rd_read_be_loop [rd_intros]: "rd_safe (read_be_loop n v)"
  by (induction n arbitrary: v) (auto intro!: rd_intros)

lemma rd_read_oracle_uint [rd_intros]: "rd_safe read_oracle_uint"
  unfolding read_oracle_uint_def by (intro rd_intros TrueI)

lemma rd_skip_ub [rd_intros]:
  "rd_safe skip_ub1" "rd_safe skip_ub2" "rd_safe skip_ub4" "rd_safe skip_ub8"
  unfolding skip_ub1_def skip_ub2_def skip_ub4_def skip_ub8_def by (intro rd_intros TrueI)+

subsection \<open>Chunked data\<close>

text \<open>
  A round of the chunk loops that continues has consumed the chunk's length field, so fewer
  bytes remain: both loops end on every input.
\<close>

lemma read_u8_InrD:
  "read_u8 s = (Inr b, s') \<Longrightarrow>
   rb_pos s < length (rb_data s) \<and> s' = s\<lparr>rb_pos := Suc (rb_pos s)\<rparr> \<and> b = rb_data s ! rb_pos s"
  by (auto simp: read_u8_def rd_prim_defs index_at_def split: if_splits)

lemma rd_after_u8_progress:
  assumes run: "andThen read_u8 f s = (r, s')" and r: "r = Inr a" and f: "\<And>b. rd_safe (f b)"
  shows "remaining s' < remaining s"
proof -
  from run r obtain b s1 where s1: "read_u8 s = (Inr b, s1)" and fb: "f b s1 = (r, s')"
    by (auto simp: andThen_apply split: prod.splits sum.splits)
  from read_u8_InrD [OF s1] have lt: "remaining s1 < remaining s" and wf: "rb_wf s1"
    by (auto simp: remaining_def rb_wf_def)
  from rd_frame_remaining [OF rd_postD(1) [OF f wf fb]] lt show ?thesis by simp
qed

lemma read_ub4_progress: "read_ub4 s = (Inr n, s') \<Longrightarrow> remaining s' < remaining s"
  unfolding read_ub4_def read_ub_length_def andThen_assoc
  by (erule rd_after_u8_progress [OF _ refl]) (intro rd_intros TrueI)

lemma read_bytes_vec_remaining:
  "read_bytes_vec n s = (Inr bs, s') \<Longrightarrow> remaining s' \<le> remaining s"
  by (auto simp: read_bytes_vec_def rd_prim_defs slice_at_def split: if_splits)

lemma skip_remaining: "skip n s = (Inr u, s') \<Longrightarrow> remaining s' \<le> remaining s"
  by (auto simp: skip_def rd_prim_defs split: if_splits)

function (sequential) skip_chunks :: "rbuf \<Rightarrow> unit result \<times> rbuf" where
  "skip_chunks s =
     andThen read_ub4 (\<lambda>chunk_size s1.
       if chunk_size = 0 then ok () s1
       else andThen (skip (unat chunk_size)) (\<lambda>_ s2. skip_chunks s2) s1) s"
  by pat_completeness auto
termination
  by (relation "measure remaining")
    (auto dest!: read_ub4_progress skip_remaining)

function (sequential) read_chunks :: "u8 list \<Rightarrow> rbuf \<Rightarrow> u8 list result \<times> rbuf" where
  "read_chunks result s =
     andThen read_ub4 (\<lambda>chunk_size s1.
       if chunk_size = 0 then ok result s1
       else andThen (read_bytes_vec (unat chunk_size))
              (\<lambda>chunk s2. read_chunks (result @ chunk) s2) s1) s"
  by pat_completeness auto
termination
  by (relation "measure (\<lambda>(_, s). remaining s)")
    (auto dest!: read_ub4_progress read_bytes_vec_remaining)

declare skip_chunks.simps [simp del] read_chunks.simps [simp del]

definition skip_raw_bytes_chunked :: "unit reader" where
  "skip_raw_bytes_chunked = andThen read_u8 (\<lambda>len.
     if len \<noteq> LONG_INDICATOR then skip (unat len) else skip_chunks)"

definition read_raw_bytes_chunked :: "u8 list reader" where
  "read_raw_bytes_chunked = andThen read_u8 (\<lambda>len.
     if len \<noteq> LONG_INDICATOR then read_bytes_vec (unat len) else read_chunks [])"

definition read_bytes_with_length :: "u8 list option reader" where
  "read_bytes_with_length = andThen read_u8 (\<lambda>len.
     if len = NULL_INDICATOR then ok None
     else if len = LONG_INDICATOR then fmap Some (read_chunks [])
     else andThen (if len = ESCAPE_CHAR then fmap unat read_u8 else ok (unat len)) (\<lambda>actual_len.
       if actual_len = 0 then ok (Some [])
       else fmap Some (read_bytes_vec actual_len)))"

definition utf8_text :: "u8 list \<Rightarrow> string result" where
  "utf8_text bytes =
     (case from_utf8 bytes of Inl e \<Rightarrow> Inl (Err (DataConversionError e)) | Inr t \<Rightarrow> Inr t)"

definition read_string_with_length :: "string option reader" where
  "read_string_with_length = andThen read_bytes_with_length (\<lambda>r.
     case r of None \<Rightarrow> ok None | Some bytes \<Rightarrow> fmap Some (lift_res (utf8_text bytes)))"

definition read_string_with_ub4_length :: "string option reader" where
  "read_string_with_ub4_length = andThen read_ub4 (\<lambda>outer_len.
     if outer_len = 0 then ok None else read_string_with_length)"

lemma rd_skip_chunks [rd_intros]: "rd_safe skip_chunks"
  unfolding rd_post_def
proof
  fix s
  show "rd_at skip_chunks s (\<lambda>_. True)"
  proof (induction s rule: skip_chunks.induct)
    case (1 s)
    show ?case
      by (rule rd_at_unfold [OF skip_chunks.simps],
          intro rd_at_andThen [OF rd_at_post [OF rd_read_ub4]])
        (auto intro!: rd_at_if rd_at_andThen [OF rd_at_post [OF rd_skip]] rd_at_post [OF rd_post_ok] "1.IH")
  qed
qed

lemma rd_read_chunks [rd_intros]: "rd_safe (read_chunks result)"
  unfolding rd_post_def
proof
  fix s
  show "rd_at (read_chunks result) s (\<lambda>_. True)"
  proof (induction result s rule: read_chunks.induct)
    case (1 result s)
    show ?case
      by (rule rd_at_unfold [OF read_chunks.simps],
          intro rd_at_andThen [OF rd_at_post [OF rd_read_ub4]])
        (auto intro!: rd_at_if rd_at_andThen [OF rd_at_post [OF rd_read_bytes_vec]]
          rd_at_post [OF rd_post_ok] "1.IH")
  qed
qed

lemma rd_skip_raw_bytes_chunked [rd_intros]: "rd_safe skip_raw_bytes_chunked"
  unfolding skip_raw_bytes_chunked_def by (intro rd_intros TrueI)

lemma rd_read_raw_bytes_chunked [rd_intros]: "rd_safe read_raw_bytes_chunked"
  unfolding read_raw_bytes_chunked_def by (intro rd_intros TrueI)

lemma rd_read_bytes_with_length [rd_intros]: "rd_safe read_bytes_with_length"
  unfolding read_bytes_with_length_def by (intro rd_intros TrueI)

lemma utf8_text_no_panic [simp]: "utf8_text bs \<noteq> Inl Panic"
  by (simp add: utf8_text_def split: sum.splits)

lemma rd_read_string_with_length [rd_intros]: "rd_safe read_string_with_length"
  unfolding read_string_with_length_def
  by (rule rd_safe_andThen [OF rd_read_bytes_with_length])
    (auto intro!: rd_intros rd_post_lift_res split: option.splits)

lemma rd_read_string_with_ub4_length [rd_intros]: "rd_safe read_string_with_ub4_length"
  unfolding read_string_with_ub4_length_def by (intro rd_intros TrueI)

text \<open>
  The one reader that can panic: \<open>read_oracle_int\<close> negates with \<open>-(value as i64)\<close>, and the
  magnitude \<open>2^63\<close> with the sign bit set has no positive counterpart to negate.
\<close>

lemma read_oracle_int_min_panics:
  "fst (read_oracle_int (rbuf_new [0x88, 0x80, 0, 0, 0, 0, 0, 0, 0])) = Inl Panic"
  by code_simp

subsection \<open>What a reader accepts\<close>

definition reads :: "'a reader \<Rightarrow> u8 list \<Rightarrow> 'a \<Rightarrow> bool" where
  "reads m bs v \<longleftrightarrow>
     (\<forall>pre post. m \<lparr>rb_data = pre @ bs @ post, rb_pos = length pre\<rparr> =
        (Inr v, \<lparr>rb_data = pre @ bs @ post, rb_pos = length pre + length bs\<rparr>))"

named_theorems reads_intros

lemma readsD:
  "reads m bs v \<Longrightarrow> m \<lparr>rb_data = pre @ bs @ post, rb_pos = length pre\<rparr> =
     (Inr v, \<lparr>rb_data = pre @ bs @ post, rb_pos = length pre + length bs\<rparr>)"
  by (simp add: reads_def)

lemma reads_new:
  "reads m bs v \<Longrightarrow>
   m (rbuf_new (bs @ post)) = (Inr v, \<lparr>rb_data = bs @ post, rb_pos = length bs\<rparr>)"
  using readsD [of m bs v "[]" post] by (simp add: rbuf_new_def)

lemma reads_andThen:
  assumes "reads m bs v" and "reads (f v) cs u"
  shows "reads (andThen m f) (bs @ cs) u"
  unfolding reads_def
proof (intro allI)
  fix pre post
  have "m \<lparr>rb_data = pre @ bs @ cs @ post, rb_pos = length pre\<rparr> =
      (Inr v, \<lparr>rb_data = pre @ bs @ cs @ post, rb_pos = length pre + length bs\<rparr>)"
    using readsD [OF assms(1), of pre "cs @ post"] by simp
  moreover have "f v \<lparr>rb_data = pre @ bs @ cs @ post, rb_pos = length pre + length bs\<rparr> =
      (Inr u, \<lparr>rb_data = pre @ bs @ cs @ post, rb_pos = length pre + length bs + length cs\<rparr>)"
    using readsD [OF assms(2), of "pre @ bs" post] by simp
  ultimately show "andThen m f \<lparr>rb_data = pre @ (bs @ cs) @ post, rb_pos = length pre\<rparr> =
      (Inr u, \<lparr>rb_data = pre @ (bs @ cs) @ post, rb_pos = length pre + length (bs @ cs)\<rparr>)"
    by (simp add: andThen_apply add.assoc)
qed

lemma reads_andThen_Nil: "reads m bs v \<Longrightarrow> reads (f v) [] u \<Longrightarrow> reads (andThen m f) bs u"
  using reads_andThen [of m bs v f "[]" u] by simp

lemma reads_ok [reads_intros]: "reads (ok v) [] v"
  by (simp add: reads_def ok_apply)

lemma reads_fmap: "reads m bs v \<Longrightarrow> g v = u \<Longrightarrow> reads (fmap g m) bs u"
  unfolding fmap_def by (erule reads_andThen_Nil) (simp add: reads_ok)

lemma reads_u8 [reads_intros]: "reads read_u8 [b] b"
  by (simp add: reads_def read_u8_def rd_prim_defs)

lemma reads_u8_then: "reads (f b) bs u \<Longrightarrow> reads (andThen read_u8 f) (b # bs) u"
  using reads_andThen [OF reads_u8, of f b bs u] by simp

lemma reads_bytes_vec [reads_intros]: "length bs = n \<Longrightarrow> reads (read_bytes_vec n) bs bs"
  by (auto simp: reads_def read_bytes_vec_def rd_prim_defs)

lemma reads_skip [reads_intros]: "length bs = n \<Longrightarrow> reads (skip n) bs ()"
  by (auto simp: reads_def skip_def rd_prim_defs)

lemma data_array_here:
  "length bs = n \<Longrightarrow>
   map (\<lambda>i. (pre @ bs @ post) ! (length pre + i)) [0..<n] = bs"
  by (rule nth_equalityI) (auto simp: nth_append)

lemma reads_array:
  "length bs = n \<Longrightarrow>
   reads (andSeq (ensure_remaining n) (andThen (data_array n) (\<lambda>bs. andSeq (advance n) (ok (g bs)))))
     bs (g bs)"
  by (auto simp: reads_def rd_prim_defs data_array_here data_array_here [of _ _ "[]", simplified])

lemma reads_fixed:
  "length bs = 2 \<Longrightarrow> reads read_u16_be bs (be_word bs)"
  "length bs = 2 \<Longrightarrow> reads read_i16_be bs (be_word bs)"
  "length bs = 2 \<Longrightarrow> reads read_u16_le bs (be_word (rev bs))"
  "length bs = 4 \<Longrightarrow> reads read_u32_be bs (be_word bs)"
  "length bs = 8 \<Longrightarrow> reads read_u64_be bs (be_word bs)"
  unfolding read_u16_be_def read_i16_be_def read_u16_le_def read_u32_be_def read_u64_be_def
  by (rule reads_array; simp)+

lemma reads_be_bytes [reads_intros]:
  "reads read_u16_be (be_bytes 2 x) x" "reads read_i16_be (be_bytes 2 x) x"
  "reads read_u16_le (rev (be_bytes 2 x)) x"
  "reads read_u32_be (be_bytes 4 y) y" "reads read_u64_be (be_bytes 8 z) z"
  using reads_fixed(1) [of "be_bytes 2 x"] reads_fixed(2) [of "be_bytes 2 x"]
    reads_fixed(3) [of "rev (be_bytes 2 x)"] reads_fixed(4) [of "be_bytes 4 y"]
    reads_fixed(5) [of "be_bytes 8 z"]
  by (simp_all add: be_word_be_bytes_full)

lemma reads_read_be_loop:
  "reads (read_be_loop (length bs) v) bs (foldl (\<lambda>v b. push_bit 8 v OR ucast b) v bs)"
proof (induction bs arbitrary: v)
  case Nil
  show ?case by (simp add: reads_ok)
next
  case (Cons b bs)
  show ?case by (simp add: reads_u8_then Cons)
qed

text \<open>Reads are deterministic, so what two readings have in common is a prefix code.\<close>

lemma reads_unique:
  assumes "reads m bs v" and "reads m cs u" and "bs @ x = cs @ y"
  shows "v = u \<and> bs = cs \<and> x = y"
proof -
  have "m (rbuf_new (cs @ y)) = (Inr v, \<lparr>rb_data = cs @ y, rb_pos = length bs\<rparr>)"
    using reads_new [OF assms(1), of x] assms(3) by simp
  moreover have "m (rbuf_new (cs @ y)) = (Inr u, \<lparr>rb_data = cs @ y, rb_pos = length cs\<rparr>)"
    by (rule reads_new [OF assms(2)])
  ultimately have "v = u" "length bs = length cs" by auto
  then show ?thesis using assms(3) by simp
qed

end
