(* ===== verification/WriteBuf.thy ===== *)
theory WriteBuf
  imports Errors
begin

section \<open>The write buffer\<close>

text \<open>
  \<open>src/src/buffer/write.rs\<close>: \<open>WriteBuffer\<close> is the bytes written so far and an optional limit;
  the initial capacity is only an allocation hint and is not kept.  Two judgements:
  \<^item> \<open>writes m bs\<close>: if \<open>bs\<close> fits under the limit, \<open>m\<close> succeeds and appends exactly \<open>bs\<close>;
  \<^item> \<open>wr_safe m\<close>: whatever happens, \<open>m\<close> never panics, keeps the limit, never exceeds it and
    only appends.
\<close>

named_theorems wr_intros
named_theorems writes_intros

record wbuf =
  wb_data :: "u8 list"
  wb_max :: "nat option"

type_synonym 'a writer = "(wbuf, error, 'a) action"

definition wbuf_new :: wbuf where
  "wbuf_new = \<lparr>wb_data = [], wb_max = None\<rparr>"

definition with_max_capacity :: "nat \<Rightarrow> wbuf" where
  "with_max_capacity max_capacity = \<lparr>wb_data = [], wb_max = Some max_capacity\<rparr>"

definition wb_len :: "wbuf \<Rightarrow> nat" where
  "wb_len w = length (wb_data w)"

definition USIZE_MAX :: nat where "USIZE_MAX = 2 ^ 64 - 1"

definition remaining_capacity :: "wbuf \<Rightarrow> nat" where
  "remaining_capacity w =
     (case wb_max w of Some k \<Rightarrow> k - length (wb_data w) | None \<Rightarrow> USIZE_MAX - length (wb_data w))"

definition clear :: "unit writer" where
  "clear = (\<lambda>w. (Inr (), w\<lparr>wb_data := []\<rparr>))"

definition truncate :: "nat \<Rightarrow> unit writer" where
  "truncate len = (\<lambda>w. (Inr (), w\<lparr>wb_data := take len (wb_data w)\<rparr>))"

subsection \<open>Raw writes\<close>

definition ensure_capacity :: "nat \<Rightarrow> unit writer" where
  "ensure_capacity n =
     (\<lambda>w. case wb_max w of
        None \<Rightarrow> (Inr (), w)
      | Some k \<Rightarrow>
          if k < length (wb_data w) + n
          then (Inl (Err (BufferOverflow n (k - length (wb_data w)))), w)
          else (Inr (), w))"

text \<open>\<open>BytesMut::put_*\<close>: append.\<close>

definition put :: "u8 list \<Rightarrow> unit writer" where
  "put bs = (\<lambda>w. (Inr (), w\<lparr>wb_data := wb_data w @ bs\<rparr>))"

definition write_u8 :: "u8 \<Rightarrow> unit writer" where
  "write_u8 value = andSeq (ensure_capacity 1) (put [value])"

definition write_bytes :: "u8 list \<Rightarrow> unit writer" where
  "write_bytes bytes = andSeq (ensure_capacity (length bytes)) (put bytes)"

definition write_zeros :: "nat \<Rightarrow> unit writer" where
  "write_zeros n = andSeq (ensure_capacity n) (put (replicate n 0))"

definition write_u16_be :: "u16 \<Rightarrow> unit writer" where
  "write_u16_be value = andSeq (ensure_capacity 2) (put (be_bytes 2 value))"

definition write_u16_le :: "u16 \<Rightarrow> unit writer" where
  "write_u16_le value = andSeq (ensure_capacity 2) (put (rev (be_bytes 2 value)))"

definition write_u32_be :: "u32 \<Rightarrow> unit writer" where
  "write_u32_be value = andSeq (ensure_capacity 4) (put (be_bytes 4 value))"

definition write_u64_be :: "u64 \<Rightarrow> unit writer" where
  "write_u64_be value = andSeq (ensure_capacity 8) (put (be_bytes 8 value))"

subsection \<open>Variable-length integers\<close>

definition write_ub1 :: "u8 \<Rightarrow> unit writer" where
  "write_ub1 value = write_u8 value"

definition write_ub2 :: "u16 \<Rightarrow> unit writer" where
  "write_ub2 value =
     (if value = 0 then write_u8 0
      else if value \<le> 255 then andSeq (write_u8 1) (write_u8 (ucast value))
      else andSeq (write_u8 2) (write_u16_be value))"

definition write_ub4 :: "u32 \<Rightarrow> unit writer" where
  "write_ub4 value =
     (if value = 0 then write_u8 0
      else if value \<le> 255 then andSeq (write_u8 1) (write_u8 (ucast value))
      else if value \<le> 65535 then andSeq (write_u8 2) (write_u16_be (ucast value))
      else andSeq (write_u8 4) (write_u32_be value))"

definition write_ub8 :: "u64 \<Rightarrow> unit writer" where
  "write_ub8 value =
     (if value = 0 then write_u8 0
      else if value \<le> 255 then andSeq (write_u8 1) (write_u8 (ucast value))
      else if value \<le> 65535 then andSeq (write_u8 2) (write_u16_be (ucast value))
      else if value \<le> 4294967295 then andSeq (write_u8 4) (write_u32_be (ucast value))
      else andSeq (write_u8 8) (write_u64_be value))"

subsection \<open>Length-prefixed bytes\<close>

definition CHUNK_SIZE :: nat where "CHUNK_SIZE = 32767"

function (sequential) write_chunks :: "u8 list \<Rightarrow> nat \<Rightarrow> unit writer" where
  "write_chunks data offset =
     (if offset < length data then
        (let chunk_len = min (length data - offset) CHUNK_SIZE
         in andSeq (write_ub4 (of_nat chunk_len))
              (andThen (lift_res (slice_at data offset (offset + chunk_len))) (\<lambda>chunk.
                andSeq (write_bytes chunk) (write_chunks data (offset + chunk_len)))))
      else ok ())"
  by pat_completeness auto
termination
  by (relation "measure (\<lambda>(data, offset). length data - offset)") (auto simp: CHUNK_SIZE_def)

declare write_chunks.simps [simp del]

definition write_bytes_with_length :: "u8 list option \<Rightarrow> unit writer" where
  "write_bytes_with_length bytes =
     (case bytes of
        None \<Rightarrow> write_u8 NULL_INDICATOR
      | Some data \<Rightarrow>
          let len = length data
          in if len = 0 then write_u8 0
             else if len \<le> unat MAX_SHORT then andSeq (write_u8 (of_nat len)) (write_bytes data)
             else andSeq (write_u8 LONG_INDICATOR)
                    (andSeq (write_chunks data 0) (write_ub4 0)))"

definition write_string_with_length :: "string option \<Rightarrow> unit writer" where
  "write_string_with_length s = write_bytes_with_length (map_option bytes_of_text s)"

subsection \<open>Oracle integers\<close>

definition leading_zeros :: "u64 \<Rightarrow> nat" where
  "leading_zeros w = length (takeWhile (\<lambda>i. \<not> bit w i) (rev [0..<64]))"

text \<open>\<open>for i in (0..len).rev() { self.write_u8((value >> (i * 8)) as u8)?; }\<close>\<close>

fun write_be_loop :: "nat \<Rightarrow> u64 \<Rightarrow> unit writer" where
  "write_be_loop 0 value = ok ()"
| "write_be_loop (Suc i) value =
     andSeq (write_u8 (ucast (drop_bit (8 * i) value))) (write_be_loop i value)"

definition be_len :: "u64 \<Rightarrow> nat" where
  "be_len value = (64 - leading_zeros value + 7) div 8"

definition write_oracle_int :: "i64 \<Rightarrow> unit writer" where
  "write_oracle_int value =
     (if value = 0 then write_u8 0
      else andThen
        (if sint value < 0
         then (if sint value = - (2 ^ 63) then lift_res (Inl Panic) else ok (True, - value))
         else ok (False, value))
        (\<lambda>(is_negative, abs_value).
           let len = be_len abs_value;
               len_byte = (if is_negative then of_nat len OR 0x80 else of_nat len)
           in andSeq (write_u8 len_byte) (write_be_loop len abs_value)))"

definition write_oracle_uint :: "u64 \<Rightarrow> unit writer" where
  "write_oracle_uint value =
     (if value = 0 then write_u8 0
      else andSeq (write_u8 (of_nat (be_len value))) (write_be_loop (be_len value) value))"

subsection \<open>Patching\<close>

text \<open>\<open>pos + n\<close> is a \<open>usize\<close> addition.\<close>

definition patch :: "nat \<Rightarrow> u8 list \<Rightarrow> unit writer" where
  "patch pos bs =
     (\<lambda>w. if USIZE_MAX < pos + length bs then (Inl Panic, w)
          else if length (wb_data w) < pos + length bs
          then (Inl (Err (BufferOverflow (length bs) (length (wb_data w) - pos))), w)
          else (Inr (), w\<lparr>wb_data := take pos (wb_data w) @ bs @ drop (pos + length bs) (wb_data w)\<rparr>))"

definition patch_u16_be :: "nat \<Rightarrow> u16 \<Rightarrow> unit writer" where
  "patch_u16_be pos value = patch pos (be_bytes 2 value)"

definition patch_u32_be :: "nat \<Rightarrow> u32 \<Rightarrow> unit writer" where
  "patch_u32_be pos value = patch pos (be_bytes 4 value)"

subsection \<open>The limit is kept\<close>

definition wb_wf :: "wbuf \<Rightarrow> bool" where
  "wb_wf w \<longleftrightarrow> (case wb_max w of None \<Rightarrow> True | Some k \<Rightarrow> length (wb_data w) \<le> k)"

definition wr_frame :: "wbuf \<Rightarrow> wbuf \<Rightarrow> bool" where
  "wr_frame w w' \<longleftrightarrow> wb_max w' = wb_max w \<and> wb_wf w' \<and> (\<exists>bs. wb_data w' = wb_data w @ bs)"

definition wr_safe :: "'a writer \<Rightarrow> bool" where
  "wr_safe m \<longleftrightarrow>
     (\<forall>w r w'. wb_wf w \<longrightarrow> m w = (r, w') \<longrightarrow> wr_frame w w' \<and> r \<noteq> Inl Panic)"

lemma wr_frame_refl [simp]: "wb_wf w \<Longrightarrow> wr_frame w w"
  by (simp add: wr_frame_def)

lemma wr_frame_trans: "wr_frame w v \<Longrightarrow> wr_frame v u \<Longrightarrow> wr_frame w u"
  by (auto simp: wr_frame_def)

lemma wr_safeI:
  assumes "\<And>w r w'. wb_wf w \<Longrightarrow> m w = (r, w') \<Longrightarrow> wr_frame w w' \<and> r \<noteq> Inl Panic"
  shows "wr_safe m"
  using assms by (simp add: wr_safe_def)

lemma wr_safeD:
  assumes "wr_safe m" and "wb_wf w" and "m w = (r, w')"
  shows "wr_frame w w'" "r \<noteq> Inl Panic" "wb_wf w'"
  using assms unfolding wr_safe_def wr_frame_def by blast+

lemma wr_safe_andThen [wr_intros]:
  assumes "wr_safe m" and "\<And>a. wr_safe (f a)"
  shows "wr_safe (andThen m f)"
proof (rule wr_safeI)
  fix w r w'
  assume wf: "wb_wf w" and run: "andThen m f w = (r, w')"
  obtain r1 w1 where m1: "m w = (r1, w1)" by fastforce
  note m' = wr_safeD [OF assms(1) wf m1]
  show "wr_frame w w' \<and> r \<noteq> Inl Panic"
  proof (cases r1)
    case (Inl e)
    with run m1 m' show ?thesis by auto
  next
    case (Inr a)
    with run m1 have "f a w1 = (r, w')" by simp
    note f' = wr_safeD [OF assms(2) m'(3) this]
    then show ?thesis using wr_frame_trans [OF m'(1) f'(1)] by simp
  qed
qed

lemma wr_safe_andSeq [wr_intros]: "wr_safe m \<Longrightarrow> wr_safe k \<Longrightarrow> wr_safe (andSeq m k)"
  by (simp add: andSeq_def wr_safe_andThen)

lemma wr_safe_ok [wr_intros]: "wr_safe (ok a)"
  by (auto intro!: wr_safeI simp: action_apply)

lemma wr_safe_fail [wr_intros]: "wr_safe (fail e)"
  by (auto intro!: wr_safeI simp: action_apply)

lemma wr_safe_if [wr_intros]:
  "(c \<Longrightarrow> wr_safe a) \<Longrightarrow> (\<not> c \<Longrightarrow> wr_safe b) \<Longrightarrow> wr_safe (if c then a else b)"
  by simp

lemma wr_safe_put: "length bs = n \<Longrightarrow> wr_safe (andSeq (ensure_capacity n) (put bs))"
  by (auto intro!: wr_safeI simp: andSeq_def andThen_def ensure_capacity_def put_def
      wr_frame_def wb_wf_def split: option.splits if_splits)

lemma wr_safe_raw [wr_intros]:
  "wr_safe (write_u8 b)" "wr_safe (write_bytes bs)" "wr_safe (write_zeros n)"
  "wr_safe (write_u16_be x)" "wr_safe (write_u16_le x)" "wr_safe (write_u32_be y)"
  "wr_safe (write_u64_be z)"
  unfolding write_u8_def write_bytes_def write_zeros_def write_u16_be_def write_u16_le_def
    write_u32_be_def write_u64_be_def
  by (intro wr_safe_put; simp)+

lemma wr_safe_ub [wr_intros]:
  "wr_safe (write_ub1 b)" "wr_safe (write_ub2 x)" "wr_safe (write_ub4 y)" "wr_safe (write_ub8 z)"
  unfolding write_ub1_def write_ub2_def write_ub4_def write_ub8_def by (intro wr_intros)+

lemma wr_safe_lift_res: "r \<noteq> Inl Panic \<Longrightarrow> wr_safe (lift_res r)"
  by (auto intro!: wr_safeI simp: action_apply)

lemma wr_write_chunks [wr_intros]: "wr_safe (write_chunks data offset)"
proof (induction data offset rule: write_chunks.induct)
  case (1 data offset)
  show ?case
  proof (cases "offset < length data")
    case True
    let ?k = "min (length data - offset) CHUNK_SIZE"
    have IH: "wr_safe (write_chunks data (offset + ?k))"
      using 1 True by simp
    have sl: "slice_at data offset (offset + ?k) \<noteq> Inl Panic"
      using True by (simp add: slice_at_def)
    show ?thesis
      unfolding write_chunks.simps [of data offset] Let_def
      by (intro wr_intros IH wr_safe_lift_res sl)
  next
    case False
    then show ?thesis by (simp add: write_chunks.simps [of data offset] wr_safe_ok)
  qed
qed

lemma wr_write_bytes_with_length [wr_intros]: "wr_safe (write_bytes_with_length bytes)"
  unfolding write_bytes_with_length_def Let_def
  by (cases bytes) (simp_all add: wr_safe_raw, intro wr_intros impI conjI)

lemma wr_write_string_with_length [wr_intros]: "wr_safe (write_string_with_length t)"
  unfolding write_string_with_length_def by (intro wr_intros)

lemma wr_write_be_loop [wr_intros]: "wr_safe (write_be_loop n v)"
  by (induction n) (auto intro!: wr_intros)

lemma wr_write_oracle_uint [wr_intros]: "wr_safe (write_oracle_uint v)"
  unfolding write_oracle_uint_def by (intro wr_intros)

lemma wr_write_oracle_int:
  "sint v \<noteq> - (2 ^ 63) \<Longrightarrow> wr_safe (write_oracle_int v)"
  unfolding write_oracle_int_def
  by (intro wr_safe_if wr_safe_andThen) (auto intro!: wr_intros simp: Let_def split: prod.splits)

subsection \<open>What a write appends\<close>

definition fits :: "wbuf \<Rightarrow> u8 list \<Rightarrow> bool" where
  "fits w bs \<longleftrightarrow> (case wb_max w of None \<Rightarrow> True | Some k \<Rightarrow> length (wb_data w) + length bs \<le> k)"

definition writes :: "unit writer \<Rightarrow> u8 list \<Rightarrow> bool" where
  "writes m bs \<longleftrightarrow>
     (\<forall>w. fits w bs \<longrightarrow> m w = (Inr (), w\<lparr>wb_data := wb_data w @ bs\<rparr>))"

lemma writesD: "writes m bs \<Longrightarrow> fits w bs \<Longrightarrow> m w = (Inr (), w\<lparr>wb_data := wb_data w @ bs\<rparr>)"
  by (simp add: writes_def)

lemma writes_andSeq [writes_intros]:
  assumes "writes m bs" and "writes k cs"
  shows "writes (andSeq m k) (bs @ cs)"
  unfolding writes_def
proof (intro allI impI)
  fix w assume f: "fits w (bs @ cs)"
  let ?w = "w\<lparr>wb_data := wb_data w @ bs\<rparr>"
  have "fits w bs" and g: "fits ?w cs"
    using f by (auto simp: fits_def split: option.splits)
  then show "andSeq m k w = (Inr (), w\<lparr>wb_data := wb_data w @ bs @ cs\<rparr>)"
    using writesD [OF assms(1), of w] writesD [OF assms(2) g] by (simp add: andSeq_apply)
qed

lemma writes_ok [writes_intros]: "writes (ok ()) []"
  by (simp add: writes_def ok_apply)

lemma writes_lift_res: "r = Inr a \<Longrightarrow> writes (f a) bs \<Longrightarrow> writes (andThen (lift_res r) f) bs"
  by (simp add: writes_def)

lemma writes_put: "length bs = n \<Longrightarrow> writes (andSeq (ensure_capacity n) (put bs)) bs"
  by (auto simp: writes_def fits_def andSeq_apply ensure_capacity_def put_def split: option.splits)

lemma writes_raw [writes_intros]:
  "writes (write_u8 b) [b]" "writes (write_bytes bs) bs" "writes (write_zeros n) (replicate n 0)"
  "writes (write_u16_be x) (be_bytes 2 x)" "writes (write_u16_le x) (rev (be_bytes 2 x))"
  "writes (write_u32_be y) (be_bytes 4 y)" "writes (write_u64_be z) (be_bytes 8 z)"
  unfolding write_u8_def write_bytes_def write_zeros_def write_u16_be_def write_u16_le_def
    write_u32_be_def write_u64_be_def
  by (intro writes_put; simp)+

lemma writes_be_loop [writes_intros]: "writes (write_be_loop n v) (be_bytes n v)"
proof (induction n)
  case 0
  show ?case by (simp add: writes_ok)
next
  case (Suc n)
  show ?case
    using writes_andSeq [OF writes_raw(1) Suc, of "ucast (drop_bit (8 * n) v)"]
    by (simp add: be_bytes_Suc)
qed

text \<open>A write that does not fit fails and leaves what was already there.\<close>

lemma write_bytes_overflow:
  "\<not> fits w bs \<Longrightarrow> \<exists>k. wb_max w = Some k \<and>
     write_bytes bs w = (Inl (Err (BufferOverflow (length bs) (k - length (wb_data w)))), w)"
  by (auto simp: fits_def write_bytes_def andSeq_apply ensure_capacity_def split: option.splits)

end
