(* ===== verification/Codec.thy ===== *)
theory Codec
  imports ReadBuf WriteBuf
begin

section \<open>Wire codecs\<close>

text \<open>
  The interface between the two buffers: a writer and a reader that agree on a wire form.
  The locale \<open>codec\<close> states the two laws; inside it the round trip, injectivity, prefix
  freedom and the extension to sequences are proved once.  It is interpreted on every pair
  of operations of \<open>buffer/write.rs\<close> and \<open>buffer/read.rs\<close>.
\<close>

fun write_all :: "('a \<Rightarrow> unit writer) \<Rightarrow> 'a list \<Rightarrow> unit writer" where
  "write_all enc [] = ok ()"
| "write_all enc (v # vs) = andSeq (enc v) (write_all enc vs)"

fun read_n :: "'a reader \<Rightarrow> nat \<Rightarrow> 'a list reader" where
  "read_n dec 0 = ok []"
| "read_n dec (Suc n) = andThen dec (\<lambda>v. fmap (\<lambda>vs. v # vs) (read_n dec n))"

locale codec =
  fixes enc :: "'a \<Rightarrow> unit writer"
    and dec :: "'a reader"
    and wire :: "'a \<Rightarrow> u8 list"
    and dm :: "'a \<Rightarrow> bool"
  assumes enc_writes: "dm v \<Longrightarrow> writes (enc v) (wire v)"
    and dec_reads: "dm v \<Longrightarrow> reads dec (wire v) v"
begin

lemma roundtrip:
  assumes "dm v"
  shows "enc v wbuf_new = (Inr (), \<lparr>wb_data = wire v, wb_max = None\<rparr>)
    \<and> dec (rbuf_new (wire v @ post)) = (Inr v, \<lparr>rb_data = wire v @ post, rb_pos = length (wire v)\<rparr>)"
  using writesD [OF enc_writes [OF assms], of wbuf_new] reads_new [OF dec_reads [OF assms]]
  by (simp add: fits_def wbuf_new_def)

lemma roundtrip_new:
  assumes "dm v"
  shows "case enc v wbuf_new of (r, w) \<Rightarrow>
    r = Inr () \<and> dec (rbuf_new (wb_data w @ post)) =
      (Inr v, \<lparr>rb_data = wb_data w @ post, rb_pos = length (wb_data w)\<rparr>)"
  using roundtrip [OF assms] by simp

lemma prefix_free:
  "dm u \<Longrightarrow> dm v \<Longrightarrow> wire u @ x = wire v @ y \<Longrightarrow> u = v \<and> x = y"
  using reads_unique [OF dec_reads dec_reads] by blast

lemma wire_inj: "dm u \<Longrightarrow> dm v \<Longrightarrow> wire u = wire v \<Longrightarrow> u = v"
  using prefix_free [of u v "[]" "[]"] by simp

lemma write_all_writes: "list_all dm vs \<Longrightarrow> writes (write_all enc vs) (concat (map wire vs))"
  by (induction vs) (auto intro: writes_ok writes_andSeq enc_writes)

lemma read_n_reads:
  "list_all dm vs \<Longrightarrow> reads (read_n dec (length vs)) (concat (map wire vs)) vs"
proof (induction vs)
  case Nil
  show ?case by (simp add: reads_ok)
next
  case (Cons v vs)
  then show ?case
    by (auto intro!: reads_andThen reads_fmap dec_reads)
qed

lemma sequence_roundtrip:
  assumes "list_all dm vs"
  shows "case write_all enc vs wbuf_new of (r, w) \<Rightarrow>
    r = Inr () \<and> fst (read_n dec (length vs) (rbuf_new (wb_data w @ post))) = Inr vs"
  using writesD [OF write_all_writes [OF assms], of wbuf_new]
    reads_new [OF read_n_reads [OF assms], of post]
  by (simp add: fits_def wbuf_new_def)

end

subsection \<open>Wire forms\<close>

definition ub2_wire :: "u16 \<Rightarrow> u8 list" where
  "ub2_wire v = (if v = 0 then [0] else if v \<le> 255 then [1, ucast v] else 2 # be_bytes 2 v)"

definition ub4_wire :: "u32 \<Rightarrow> u8 list" where
  "ub4_wire v =
     (if v = 0 then [0] else if v \<le> 255 then [1, ucast v]
      else if v \<le> 65535 then 2 # be_bytes 2 (ucast v :: u16) else 4 # be_bytes 4 v)"

definition ub8_wire :: "u64 \<Rightarrow> u8 list" where
  "ub8_wire v =
     (if v = 0 then [0] else if v \<le> 255 then [1, ucast v]
      else if v \<le> 65535 then 2 # be_bytes 2 (ucast v :: u16)
      else if v \<le> 4294967295 then 4 # be_bytes 4 (ucast v :: u32) else 8 # be_bytes 8 v)"

function (sequential) chunk_wire :: "u8 list \<Rightarrow> u8 list" where
  "chunk_wire data =
     (if data = [] then []
      else ub4_wire (of_nat (length (take CHUNK_SIZE data))) @ take CHUNK_SIZE data
           @ chunk_wire (drop CHUNK_SIZE data))"
  by pat_completeness auto
termination
  by (relation "measure length") (auto simp: CHUNK_SIZE_def)

declare chunk_wire.simps [simp del]

definition bytes_wire :: "u8 list option \<Rightarrow> u8 list" where
  "bytes_wire b =
     (case b of None \<Rightarrow> [NULL_INDICATOR]
      | Some data \<Rightarrow>
          if length data \<le> unat MAX_SHORT then of_nat (length data) # data
          else LONG_INDICATOR # chunk_wire data @ [0])"

lemma writes_byte_then: "writes k bs \<Longrightarrow> writes (andSeq (write_u8 b) k) (b # bs)"
  using writes_andSeq [OF writes_raw(1), of k bs b] by simp

lemma ucast_ucast_id:
  fixes v :: "'a::len word"
  assumes "unat v < 2 ^ LENGTH('b)"
  shows "ucast (ucast v :: 'b::len word) = v"
proof (rule word_unat_eq_iff [THEN iffD2])
  have "take_bit LENGTH('b) (unat v) = unat v"
    using assms by (rule take_bit_nat_eq_self)
  then show "unat (ucast (ucast v :: 'b word) :: 'a word) = unat v"
    by (simp add: unsigned_ucast_eq unsigned_take_bit_eq)
qed

subsection \<open>The pairs of operations are codecs\<close>

lemma writes_ub2 [writes_intros]: "writes (write_ub2 v) (ub2_wire v)"
  by (simp add: write_ub2_def ub2_wire_def writes_raw writes_byte_then)

lemma writes_ub4 [writes_intros]: "writes (write_ub4 v) (ub4_wire v)"
  by (simp add: write_ub4_def ub4_wire_def writes_raw writes_byte_then)

lemma writes_ub8 [writes_intros]: "writes (write_ub8 v) (ub8_wire v)"
  by (simp add: write_ub8_def ub8_wire_def writes_raw writes_byte_then)

lemma reads_ub_len: "b AND 0x7F = c \<Longrightarrow> reads (f c) bs u \<Longrightarrow> reads (andThen read_ub_length f) (b # bs) u"
  unfolding read_ub_length_def andThen_assoc
  by (rule reads_u8_then) simp

lemma reads_ub2 [reads_intros]: "reads read_ub2 (ub2_wire v) v"
proof -
  have small: "v \<le> 255 \<Longrightarrow> ucast (ucast v :: u8) = v"
    by (rule ucast_ucast_id) (simp add: word_le_nat_alt)
  show ?thesis
    by (auto simp: read_ub2_def ub2_wire_def
        intro!: reads_ub_len [OF refl] reads_intros reads_fmap small)
qed

lemma reads_ub4 [reads_intros]: "reads read_ub4 (ub4_wire v) v"
proof -
  have small: "v \<le> 255 \<Longrightarrow> ucast (ucast v :: u8) = v"
    by (rule ucast_ucast_id) (simp add: word_le_nat_alt)
  have medium: "v \<le> 65535 \<Longrightarrow> ucast (ucast v :: u16) = v"
    by (rule ucast_ucast_id) (simp add: word_le_nat_alt)
  show ?thesis
    by (auto simp: read_ub4_def ub4_wire_def
        intro!: reads_ub_len [OF refl] reads_intros reads_fmap small medium)
qed

lemma reads_ub8 [reads_intros]: "reads read_ub8 (ub8_wire v) v"
proof -
  have small: "v \<le> 255 \<Longrightarrow> ucast (ucast v :: u8) = v"
    by (rule ucast_ucast_id) (simp add: word_le_nat_alt)
  have medium: "v \<le> 65535 \<Longrightarrow> ucast (ucast v :: u16) = v"
    by (rule ucast_ucast_id) (simp add: word_le_nat_alt)
  have large: "v \<le> 4294967295 \<Longrightarrow> ucast (ucast v :: u32) = v"
    by (rule ucast_ucast_id) (simp add: word_le_nat_alt)
  show ?thesis
    by (auto simp: read_ub8_def ub8_wire_def
        intro!: reads_ub_len [OF refl] reads_intros reads_fmap small medium large)
qed

interpretation u16_be: codec write_u16_be read_u16_be "be_bytes 2" "\<lambda>_. True"
  by unfold_locales (rule writes_intros reads_intros)+

interpretation u32_be: codec write_u32_be read_u32_be "be_bytes 4" "\<lambda>_. True"
  by unfold_locales (rule writes_intros reads_intros)+

interpretation u64_be: codec write_u64_be read_u64_be "be_bytes 8" "\<lambda>_. True"
  by unfold_locales (rule writes_intros reads_intros)+

interpretation ub2: codec write_ub2 read_ub2 ub2_wire "\<lambda>_. True"
  by unfold_locales (rule writes_intros reads_intros)+

interpretation ub4: codec write_ub4 read_ub4 ub4_wire "\<lambda>_. True"
  by unfold_locales (rule writes_intros reads_intros)+

interpretation ub8: codec write_ub8 read_ub8 ub8_wire "\<lambda>_. True"
  by unfold_locales (rule writes_intros reads_intros)+

subsection \<open>Oracle integers\<close>

lemma leading_zeros_le: "leading_zeros w \<le> 64"
  using length_takeWhile_le [of "\<lambda>i. \<not> bit w i" "rev [0..<64]"] by (simp add: leading_zeros_def)

lemma bit_below_leading_zeros:
  fixes w :: u64
  assumes "bit w i"
  shows "i < 64 - leading_zeros w"
proof (rule ccontr)
  let ?P = "\<lambda>i. \<not> bit w i" and ?xs = "rev [0..<64::nat]"
  assume "\<not> i < 64 - leading_zeros w"
  moreover have "i < 64" using bit_imp_le_length [OF assms] by simp
  ultimately have lt: "63 - i < length (takeWhile ?P ?xs)"
    by (auto simp: leading_zeros_def)
  have "?P (takeWhile ?P ?xs ! (63 - i))"
    using lt by (metis nth_mem set_takeWhileD)
  moreover have "takeWhile ?P ?xs ! (63 - i) = i"
    using lt \<open>i < 64\<close> by (simp add: takeWhile_nth rev_nth)
  ultimately show False using assms by simp
qed

lemma be_len_bounds: "be_len w \<le> 8" "w \<noteq> 0 \<Longrightarrow> 0 < be_len w"
proof -
  show "be_len w \<le> 8" by (simp add: be_len_def)
  assume "w \<noteq> 0"
  then obtain i where "bit w i" by (auto simp: bit_eq_iff)
  then show "0 < be_len w"
    using bit_below_leading_zeros [of w i] by (simp add: be_len_def)
qed

lemma be_word_be_len: "be_word (be_bytes (be_len w) w) = w"
proof -
  have "i < 8 * be_len w" if "bit w i" for i
    using bit_below_leading_zeros [OF that] by (simp add: be_len_def)
  then have "take_bit (8 * be_len w) w = w"
    by (auto intro!: bit_word_eqI simp: bit_simps)
  then show ?thesis by (simp add: be_word_be_bytes)
qed

lemma reads_be_len: "reads (read_be_loop (be_len v) 0) (be_bytes (be_len v) v) v"
  using reads_read_be_loop [of "be_bytes (be_len v) v" 0] be_word_be_len [of v]
  by (simp add: be_word_def)

definition uint_wire :: "u64 \<Rightarrow> u8 list" where
  "uint_wire v = (if v = 0 then [0] else of_nat (be_len v) # be_bytes (be_len v) v)"

definition int_wire :: "i64 \<Rightarrow> u8 list" where
  "int_wire v =
     (if v = 0 then [0]
      else if sint v < 0 then (of_nat (be_len (- v)) OR 0x80) # be_bytes (be_len (- v)) (- v)
      else of_nat (be_len v) # be_bytes (be_len v) v)"

lemma writes_oracle_uint: "writes (write_oracle_uint v) (uint_wire v)"
  by (simp add: write_oracle_uint_def uint_wire_def writes_raw writes_byte_then writes_be_loop)

lemma unat_be_len [simp]: "unat (of_nat (be_len v) :: u8) = be_len v"
  using be_len_bounds(1) [of v] by (simp add: unat_of_nat)

lemma reads_oracle_uint: "reads read_oracle_uint (uint_wire v) v"
proof (cases "v = 0")
  case True
  then show ?thesis
    by (auto simp: read_oracle_uint_def uint_wire_def intro!: reads_u8_then reads_ok)
next
  case False
  then show ?thesis
    using be_len_bounds [of v]
    by (auto simp: read_oracle_uint_def uint_wire_def intro!: reads_u8_then reads_be_len)
qed

text \<open>The length byte of an Oracle integer: at most 8, the sign in bit 7.\<close>

lemma len_byte_cases:
  assumes "n \<le> 8"
  shows "unat ((of_nat n :: u8) AND 0x7f) = n" "(of_nat n :: u8) AND 0x80 = 0"
    "unat ((of_nat n OR 0x80 :: u8) AND 0x7f) = n" "(of_nat n OR 0x80 :: u8) AND 0x80 \<noteq> 0"
proof -
  from assms have "n \<in> set [0..<9]" by simp
  then have "n = 0 \<or> n = 1 \<or> n = 2 \<or> n = 3 \<or> n = 4 \<or> n = 5 \<or> n = 6 \<or> n = 7 \<or> n = 8"
    by auto
  then show "unat ((of_nat n :: u8) AND 0x7f) = n" "(of_nat n :: u8) AND 0x80 = 0"
    "unat ((of_nat n OR 0x80 :: u8) AND 0x7f) = n" "(of_nat n OR 0x80 :: u8) AND 0x80 \<noteq> 0"
    by (elim disjE; simp)+
qed

lemma writes_oracle_int: "sint v \<noteq> - (2 ^ 63) \<Longrightarrow> writes (write_oracle_int v) (int_wire v)"
  by (auto simp: write_oracle_int_def int_wire_def Let_def writes_raw
      intro!: writes_byte_then writes_be_loop)

lemma neg_i64_neg: "sint v \<noteq> - (2 ^ 63) \<Longrightarrow> neg_i64 (- v) = Inr v"
proof -
  assume v: "sint v \<noteq> - (2 ^ 63)"
  have "sint (- v) \<noteq> - (2 ^ 63)"
  proof
    assume "sint (- v) = - (2 ^ 63)"
    then have "(word_of_int (sint (- v)) :: i64) = word_of_int (- (2 ^ 63))" by simp
    then have "- v = 0x8000000000000000" by simp
    then have "v = - 0x8000000000000000" by (metis minus_equation_iff)
    with v show False by simp
  qed
  then show ?thesis by (simp add: neg_i64_def)
qed

lemma reads_oracle_int:
  assumes "sint v \<noteq> - (2 ^ 63)"
  shows "reads read_oracle_int (int_wire v) v"
proof (cases "v = 0")
  case True
  then show ?thesis
    by (auto simp: read_oracle_int_def int_wire_def intro!: reads_u8_then reads_ok)
next
  case False
  then have pos: "0 < be_len v" "0 < be_len (- v)" by (simp_all add: be_len_bounds)
  have le: "be_len v \<le> 8" "be_len (- v) \<le> 8" by (rule be_len_bounds)+
  note lb = len_byte_cases [OF le(1)] len_byte_cases [OF le(2)]
  show ?thesis
  proof (cases "sint v < 0")
    case True
    have "reads (andThen (read_be_loop (be_len (- v)) 0) (\<lambda>value. lift_res (neg_i64 value)))
        (be_bytes (be_len (- v)) (- v)) v"
      by (rule reads_andThen_Nil [OF reads_be_len])
        (simp add: neg_i64_neg [OF assms] reads_def lift_res_apply)
    with True \<open>v \<noteq> 0\<close> pos le lb show ?thesis
      by (simp add: read_oracle_int_def int_wire_def Let_def reads_u8_then)
  next
    case False
    have "reads (andThen (read_be_loop (be_len v) 0) ok) (be_bytes (be_len v) v) v"
      by (rule reads_andThen_Nil [OF reads_be_len reads_ok])
    with False \<open>v \<noteq> 0\<close> pos le lb show ?thesis
      by (simp add: read_oracle_int_def int_wire_def Let_def reads_u8_then)
  qed
qed

interpretation oracle_uint: codec write_oracle_uint read_oracle_uint uint_wire "\<lambda>_. True"
  by unfold_locales (rule writes_oracle_uint reads_oracle_uint)+

interpretation oracle_int: codec write_oracle_int read_oracle_int int_wire "\<lambda>v. sint v \<noteq> - (2 ^ 63)"
  by unfold_locales (erule writes_oracle_int reads_oracle_int)+

subsection \<open>Length-prefixed bytes and strings\<close>

lemma writes_chunks: "writes (write_chunks data offset) (chunk_wire (drop offset data))"
proof (induction data offset rule: write_chunks.induct)
  case (1 data offset)
  show ?case
  proof (cases "offset < length data")
    case True
    define k where "k = min (length data - offset) CHUNK_SIZE"
    have take: "take CHUNK_SIZE (drop offset data) = take k (drop offset data)"
      by (simp add: k_def min_def)
    have drop: "drop CHUNK_SIZE (drop offset data) = drop (offset + k) data"
      by (simp add: k_def min_def add.commute)
    have len: "length (take CHUNK_SIZE (drop offset data)) = k"
      by (simp add: k_def min.commute)
    have sl: "slice_at data offset (offset + k) = Inr (take k (drop offset data))"
      using True by (simp add: k_def)
    have IH: "writes (write_chunks data (offset + k)) (chunk_wire (drop (offset + k) data))"
      using 1 True by (simp add: k_def)
    have "write_chunks data offset =
        andSeq (write_ub4 (of_nat k)) (andSeq (write_bytes (take k (drop offset data)))
          (write_chunks data (offset + k)))"
      using True sl by (simp add: write_chunks.simps [of data offset] k_def Let_def)
    moreover have "chunk_wire (drop offset data) =
        ub4_wire (of_nat k) @ take k (drop offset data) @ chunk_wire (drop (offset + k) data)"
      using True len
      by (subst chunk_wire.simps) (simp only: drop take len, simp)
    ultimately show ?thesis
      by (simp add: writes_andSeq writes_ub4 writes_raw IH)
  next
    case False
    then show ?thesis
      by (simp add: write_chunks.simps [of data offset] chunk_wire.simps [of "[]"] writes_ok)
  qed
qed

lemma writes_bytes_with_length: "writes (write_bytes_with_length b) (bytes_wire b)"
proof (cases b)
  case None
  then show ?thesis by (simp add: write_bytes_with_length_def bytes_wire_def writes_raw)
next
  case (Some data)
  have "writes (andSeq (write_chunks data 0) (write_ub4 0)) (chunk_wire data @ [0])"
    using writes_andSeq [OF writes_chunks [of data 0] writes_ub4 [of 0]]
    by (simp add: ub4_wire_def)
  then show ?thesis
    by (auto simp: Some write_bytes_with_length_def bytes_wire_def Let_def
        intro!: writes_byte_then writes_raw)
qed

lemma reads_state_eq: "(\<And>s. m s = m' s) \<Longrightarrow> reads m' bs v \<Longrightarrow> reads m bs v"
  by (simp add: reads_def)

lemma reads_chunks: "reads (read_chunks acc) (chunk_wire data @ [0]) (acc @ data)"
proof (induction data arbitrary: acc rule: chunk_wire.induct)
  case (1 data)
  let ?body = "\<lambda>acc. andThen read_ub4 (\<lambda>n. if n = 0 then ok acc
      else andThen (read_bytes_vec (unat n)) (\<lambda>chunk. read_chunks (acc @ chunk)))"
  have body: "read_chunks acc s = ?body acc s" for acc s
    by (subst read_chunks.simps) (auto simp: andThen_apply split: prod.splits sum.splits)
  show ?case
  proof (cases "data = []")
    case True
    have "reads (?body acc) ([0] @ []) acc"
      using reads_ub4 [of 0] by (intro reads_andThen [of _ "[0]" 0]) (simp_all add: ub4_wire_def reads_ok)
    with True show ?thesis
      using reads_state_eq [OF body] by (simp add: chunk_wire.simps [of "[]"])
  next
    case False
    define c where "c = take CHUNK_SIZE data"
    have lc: "0 < length c" "length c \<le> 32767"
      using False by (simp_all add: c_def CHUNK_SIZE_def)
    then have un: "unat (of_nat (length c) :: u32) = length c"
      by (simp add: unat_of_nat)
    then have nz: "(of_nat (length c) :: u32) \<noteq> 0"
      using lc by (metis less_not_refl unat_0)
    have "reads (?body acc) (ub4_wire (of_nat (length c)) @ c @ chunk_wire (drop CHUNK_SIZE data) @ [0])
        ((acc @ c) @ drop CHUNK_SIZE data)"
      by (rule reads_andThen [OF reads_ub4])
        (simp only: nz if_False un, rule reads_andThen [OF reads_bytes_vec [OF refl]],
          rule "1.IH" [OF False])
    moreover have "chunk_wire data = ub4_wire (of_nat (length c)) @ c @ chunk_wire (drop CHUNK_SIZE data)"
      using False by (subst chunk_wire.simps) (simp add: c_def)
    moreover have "(acc @ c) @ drop CHUNK_SIZE data = acc @ data" by (simp add: c_def)
    ultimately show ?thesis
      using reads_state_eq [OF body] by simp
  qed
qed

lemma reads_bytes_with_length: "reads read_bytes_with_length (bytes_wire b) b"
proof (cases b)
  case None
  then show ?thesis
    by (auto simp: read_bytes_with_length_def bytes_wire_def intro!: reads_u8_then reads_ok)
next
  case (Some data)
  show ?thesis
  proof (cases "length data \<le> 252")
    case True
    then have un: "unat (of_nat (length data) :: u8) = length data"
      by (simp add: unat_of_nat)
    have ne: "(of_nat (length data) :: u8) \<noteq> k" if "252 < unat k" for k
      using un True that by auto
    show ?thesis
      using True un
      by (auto simp: Some read_bytes_with_length_def bytes_wire_def length_indicator_defs ne
          intro!: reads_u8_then reads_ok reads_fmap reads_bytes_vec)
  next
    case False
    then show ?thesis
      using reads_chunks [of "[]" data]
      by (auto simp: Some read_bytes_with_length_def bytes_wire_def length_indicator_defs
          intro!: reads_u8_then reads_fmap)
  qed
qed

interpretation bytes: codec write_bytes_with_length read_bytes_with_length bytes_wire "\<lambda>_. True"
  by unfold_locales (rule writes_bytes_with_length reads_bytes_with_length)+

definition string_wire :: "string option \<Rightarrow> u8 list" where
  "string_wire t = bytes_wire (map_option bytes_of_text t)"

lemma reads_string_with_length:
  "pred_option is_str t \<Longrightarrow> reads read_string_with_length (string_wire t) t"
  unfolding read_string_with_length_def string_wire_def
  by (rule reads_andThen_Nil [OF reads_bytes_with_length])
    (auto simp: utf8_text_def from_utf8_str fmap_def reads_ok split: option.splits)

interpretation str: codec write_string_with_length read_string_with_length string_wire "pred_option is_str"
  by unfold_locales
    (simp_all add: write_string_with_length_def string_wire_def writes_bytes_with_length
      reads_string_with_length [unfolded string_wire_def])

end
