(* ===== verification/Packet.thy ===== *)
theory Packet
  imports Codec
begin

section \<open>TNS packets\<close>

text \<open>
  \<open>src/src/packet/header.rs\<close> and \<open>src/src/packet/mod.rs\<close>: the 8-byte packet header in its
  two layouts (two-byte length with a checksum, or four-byte length for a large SDU), its
  writer and its parsers, and a packet as header and payload.
\<close>

record packet_header =
  ph_length :: u32
  ph_packet_checksum :: u16
  ph_type :: packet_type
  ph_flags :: u8
  ph_header_checksum :: u16

definition header_new :: "packet_type \<Rightarrow> u32 \<Rightarrow> packet_header" where
  "header_new t len =
     \<lparr>ph_length = len, ph_packet_checksum = 0, ph_type = t, ph_flags = 0, ph_header_checksum = 0\<rparr>"

definition header_with_flags :: "packet_type \<Rightarrow> u32 \<Rightarrow> u8 \<Rightarrow> packet_header" where
  "header_with_flags t len flags =
     \<lparr>ph_length = len, ph_packet_checksum = 0, ph_type = t, ph_flags = flags,
      ph_header_checksum = 0\<rparr>"

definition header_default :: packet_header where
  "header_default = header_new Data (of_nat PACKET_HEADER_SIZE)"

text \<open>Type, flags and header checksum follow the length; the packet checksum reads as 0.\<close>

definition header_read_rest :: "u32 \<Rightarrow> packet_header reader" where
  "header_read_rest len =
     andThen read_u8 (\<lambda>b.
     andThen (lift_res (packet_type_try_from b)) (\<lambda>t.
     andThen read_u8 (\<lambda>flags.
     andThen read_u16_be (\<lambda>hck.
     ok \<lparr>ph_length = len, ph_packet_checksum = 0, ph_type = t, ph_flags = flags,
         ph_header_checksum = hck\<rparr>))))"

definition header_read :: "bool \<Rightarrow> packet_header reader" where
  "header_read large_sdu =
     andThen (if large_sdu then read_u32_be
              else andThen read_u16_be (\<lambda>len. andSeq (skip 2) (ok (ucast len)))) header_read_rest"

definition header_parse_as :: "bool \<Rightarrow> u8 list \<Rightarrow> packet_header result" where
  "header_parse_as large_sdu data =
     (if length data < PACKET_HEADER_SIZE
      then Inl (Err (PacketTooShort PACKET_HEADER_SIZE (length data)))
      else fst (header_read large_sdu (rbuf_new data)))"

definition header_parse :: "u8 list \<Rightarrow> packet_header result" where
  "header_parse data = header_parse_as False data"

definition header_parse_large_sdu :: "u8 list \<Rightarrow> packet_header result" where
  "header_parse_large_sdu data = header_parse_as True data"

definition header_write :: "packet_header \<Rightarrow> bool \<Rightarrow> unit writer" where
  "header_write h large_sdu =
     andSeq (if large_sdu then write_u32_be (ph_length h)
             else andSeq (write_u16_be (ucast (ph_length h))) (write_u16_be (ph_packet_checksum h)))
     (andSeq (write_u8 (packet_type_byte (ph_type h)))
     (andSeq (write_u8 (ph_flags h))
       (write_u16_be (ph_header_checksum h))))"

definition header_to_bytes :: "packet_header \<Rightarrow> bool \<Rightarrow> u8 list result" where
  "header_to_bytes h large_sdu =
     (case header_write h large_sdu wbuf_new of (r, w) \<Rightarrow> res_bind r (\<lambda>_. Inr (wb_data w)))"

definition payload_length :: "packet_header \<Rightarrow> nat" where
  "payload_length h = unat (ph_length h) - PACKET_HEADER_SIZE"

definition has_tls_reneg_flag :: "packet_header \<Rightarrow> bool" where
  "has_tls_reneg_flag h \<longleftrightarrow> ph_flags h AND 0x08 \<noteq> 0"

definition has_redirect_flag :: "packet_header \<Rightarrow> bool" where
  "has_redirect_flag h \<longleftrightarrow> ph_flags h AND 0x04 \<noteq> 0"

record packet =
  pk_header :: packet_header
  pk_payload :: "u8 list"

definition packet_from_bytes :: "u8 list \<Rightarrow> packet result" where
  "packet_from_bytes data =
     res_bind (header_parse data) (\<lambda>header.
     res_bind (slice_at data PACKET_HEADER_SIZE (length data)) (\<lambda>payload.
     Inr \<lparr>pk_header = header, pk_payload = payload\<rparr>))"

definition total_size :: "packet \<Rightarrow> nat" where
  "total_size p = unat (ph_length (pk_header p))"

definition is_packet :: "packet_type \<Rightarrow> packet \<Rightarrow> bool" where
  "is_packet t p \<longleftrightarrow> ph_type (pk_header p) = t"

subsection \<open>The header's wire form\<close>

definition header_wire :: "bool \<Rightarrow> packet_header \<Rightarrow> u8 list" where
  "header_wire large_sdu h =
     (if large_sdu then be_bytes 4 (ph_length h)
      else be_bytes 2 (ucast (ph_length h) :: u16) @ be_bytes 2 (ph_packet_checksum h))
     @ [packet_type_byte (ph_type h), ph_flags h] @ be_bytes 2 (ph_header_checksum h)"

text \<open>The headers the layout can carry: the large layout has no checksum field, the small one
  has sixteen bits of length, and the parser does not keep a checksum.\<close>

definition header_fits :: "bool \<Rightarrow> packet_header \<Rightarrow> bool" where
  "header_fits large_sdu h \<longleftrightarrow>
     ph_packet_checksum h = 0 \<and> (large_sdu \<or> unat (ph_length h) < 65536)"

lemma length_header_wire [simp]: "length (header_wire large_sdu h) = 8"
  by (simp add: header_wire_def)

lemma writes_header: "writes (header_write h large_sdu) (header_wire large_sdu h)"
proof (cases large_sdu)
  case True
  then show ?thesis
    unfolding header_write_def header_wire_def
    by (auto intro!: writes_andSeq writes_byte_then writes_raw)
next
  case False
  have "writes (header_write h False) ((be_bytes 2 (ucast (ph_length h) :: u16)
      @ be_bytes 2 (ph_packet_checksum h)) @ packet_type_byte (ph_type h) # ph_flags h
      # be_bytes 2 (ph_header_checksum h))"
    unfolding header_write_def
    by (simp del: append_assoc, intro writes_andSeq writes_byte_then writes_raw)
  with False show ?thesis by (simp add: header_wire_def)
qed

text \<open>Any header the parser reads back: the checksum reads as zero, the length as the field holds it.\<close>

lemma reads_header:
  "reads (header_read large_sdu) (header_wire large_sdu h)
     (h\<lparr>ph_packet_checksum := 0,
        ph_length := (if large_sdu then ph_length h else ucast (ucast (ph_length h) :: u16))\<rparr>)"
proof -
  have tail: "reads (header_read_rest len)
     ([packet_type_byte (ph_type h), ph_flags h] @ be_bytes 2 (ph_header_checksum h))
     (h\<lparr>ph_packet_checksum := 0, ph_length := len\<rparr>)" for len
    unfolding append.simps header_read_rest_def
    by (rule reads_u8_then, simp, rule reads_u8_then, rule reads_andThen_Nil [OF reads_be_bytes(1)],
        cases h) (simp add: reads_def ok_apply)
  show ?thesis
  proof (cases large_sdu)
    case True
    with reads_andThen [where f = header_read_rest, OF reads_be_bytes(4) tail, of "ph_length h"] show ?thesis
      by (cases h) (simp add: header_read_def header_wire_def)
  next
    case False
    let ?l = "ucast (ph_length h) :: u16"
    have len: "reads (andThen read_u16_be (\<lambda>len. andSeq (skip 2) (ok (ucast len :: u32))))
        (be_bytes 2 ?l @ be_bytes 2 (ph_packet_checksum h)) (ucast ?l)"
      unfolding andSeq_def
      by (rule reads_andThen [OF reads_be_bytes(1)]) (rule reads_andThen_Nil [OF reads_skip reads_ok], simp)
    from reads_andThen [where f = header_read_rest, OF len tail] False show ?thesis
      by (simp add: header_read_def header_wire_def)
  qed
qed

lemma reads_header_fits:
  assumes "header_fits large_sdu h"
  shows "reads (header_read large_sdu) (header_wire large_sdu h) h"
proof -
  have "large_sdu \<or> ucast (ucast (ph_length h) :: u16) = ph_length h"
    using assms by (auto simp: header_fits_def intro: ucast_ucast_id)
  then have "h\<lparr>ph_packet_checksum := 0,
      ph_length := (if large_sdu then ph_length h else ucast (ucast (ph_length h) :: u16))\<rparr> = h"
    using assms by (cases h) (auto simp: header_fits_def)
  then show ?thesis
    using reads_header [of large_sdu h] by simp
qed

text \<open>Both layouts are codecs on the headers that fit them.\<close>

interpretation small_header: codec "\<lambda>h. header_write h False" "header_read False" "header_wire False"
    "header_fits False"
  by unfold_locales (simp_all add: writes_header reads_header_fits)

interpretation large_header: codec "\<lambda>h. header_write h True" "header_read True" "header_wire True"
    "header_fits True"
  by unfold_locales (simp_all add: writes_header reads_header_fits)

lemma header_parse_wire:
  "header_fits large_sdu h \<Longrightarrow> header_parse_as large_sdu (header_wire large_sdu h @ post) = Inr h"
  using reads_new [OF reads_header_fits, of large_sdu h post]
  by (simp add: header_parse_as_def PACKET_HEADER_SIZE_def)

lemma header_to_bytes_wire: "header_to_bytes h large_sdu = Inr (header_wire large_sdu h)"
  using writesD [OF writes_header [of h large_sdu], of wbuf_new]
  by (simp add: header_to_bytes_def fits_def wbuf_new_def)

lemma packet_from_bytes_wire:
  "header_fits False h \<Longrightarrow>
   packet_from_bytes (header_wire False h @ payload) = Inr \<lparr>pk_header = h, pk_payload = payload\<rparr>"
  by (simp add: packet_from_bytes_def header_parse_def header_parse_wire PACKET_HEADER_SIZE_def)

lemma rd_header_read [rd_intros]: "rd_safe (header_read large_sdu)"
  unfolding header_read_def header_read_rest_def
  by (intro rd_intros rd_post_lift_res TrueI packet_type_try_from_no_panic)

end
