(* ===== verification/Framing.thy ===== *)
theory Framing
  imports Packet
begin

section \<open>Framing on the connection's stream\<close>

text \<open>
  The transport half of \<open>ConnectionInner\<close> in \<open>src/src/connection.rs\<close>: sending a payload in
  SDU-sized DATA packets, receiving one packet, collecting a response that spans packets, and
  the MARKER/RESET recovery.

  The socket (plain or TLS) is the environment: \<open>cn_in\<close> is what the peer will still send
  before it closes its side, \<open>cn_out\<close> what has been written, and \<open>cn_wfail\<close> the text of the
  I/O error a write meets, if writes fail.  \<open>read_exact\<close> on a stream that ends early consumes
  what is there and fails with \<open>UnexpectedEof\<close>.  Flushing and the debug trace have no effect
  on this state.
\<close>

datatype conn_state = Disconnected | Connected | ProtocolNegotiated | DataTypesNegotiated
  | Ready | Closed

record conn =
  cn_open :: bool
  cn_in :: "u8 list"
  cn_out :: "u8 list"
  cn_wfail :: "string option"
  cn_state :: conn_state
  cn_sdu :: u16
  cn_large_sdu :: bool
  cn_seq :: u8

type_synonym 'a conn_action = "(conn, error, 'a) action"

definition END_OF_REQUEST :: u16 where "END_OF_REQUEST = 0x0800"
definition END_OF_RESPONSE :: u16 where "END_OF_RESPONSE = 0x2000"
definition EOF_FLAG :: u16 where "EOF_FLAG = 0x0040"

definition next_sequence_number :: "u8 conn_action" where
  "next_sequence_number =
     (\<lambda>c. let n = cn_seq c + 1; m = (if n = 0 then 1 else n) in (Inr m, c\<lparr>cn_seq := m\<rparr>))"

subsection \<open>The stream\<close>

definition stream_read_exact :: "nat \<Rightarrow> u8 list conn_action" where
  "stream_read_exact n =
     (\<lambda>c. if n \<le> length (cn_in c) then (Inr (take n (cn_in c)), c\<lparr>cn_in := drop n (cn_in c)\<rparr>)
          else (Inl (Err (Io ''early eof'')), c\<lparr>cn_in := []\<rparr>))"

definition stream_write_all :: "u8 list \<Rightarrow> unit conn_action" where
  "stream_write_all bs =
     (\<lambda>c. case cn_wfail c of
        Some e \<Rightarrow> (Inl (Err (Io e)), c)
      | None \<Rightarrow> (Inr (), c\<lparr>cn_out := cn_out c @ bs\<rparr>))"

definition conn_send :: "u8 list \<Rightarrow> unit conn_action" where
  "conn_send bs = (\<lambda>c. if cn_open c then stream_write_all bs c else (Inl (Err ConnectionClosed), c))"

subsection \<open>Receiving one packet\<close>

definition close_on_error :: "'a conn_action \<Rightarrow> 'a conn_action" where
  "close_on_error m =
     (\<lambda>c. case m c of (Inl e, c') \<Rightarrow> (Inl e, c'\<lparr>cn_state := Closed\<rparr>) | (Inr a, c') \<Rightarrow> (Inr a, c'))"

definition packet_len :: "bool \<Rightarrow> u8 list \<Rightarrow> nat" where
  "packet_len large_sdu header_buf =
     (if large_sdu then unat (be_word (take 4 header_buf) :: u32)
      else unat (be_word (take 2 header_buf) :: u16))"

definition conn_receive :: "u8 list conn_action" where
  "conn_receive =
     (\<lambda>c. if \<not> cn_open c then (Inl (Err ConnectionClosed), c) else
        andThen (close_on_error (stream_read_exact PACKET_HEADER_SIZE)) (\<lambda>header_buf.
          let payload_len = packet_len (cn_large_sdu c) header_buf - PACKET_HEADER_SIZE
          in andThen (if 0 < payload_len then close_on_error (stream_read_exact payload_len) else ok [])
               (\<lambda>payload_buf. ok (header_buf @ payload_buf))) c)"

subsection \<open>Packets the connection builds\<close>

definition packet_prefix :: "bool \<Rightarrow> packet_type \<Rightarrow> nat \<Rightarrow> u8 list" where
  "packet_prefix large_sdu t total_len =
     (if large_sdu then be_bytes 4 (of_nat total_len :: u32)
      else be_bytes 2 (of_nat total_len :: u16) @ [0, 0])
     @ [packet_type_byte t, 0] @ [0, 0]"

definition data_packet :: "bool \<Rightarrow> u16 \<Rightarrow> u8 list \<Rightarrow> u8 list" where
  "data_packet large_sdu data_flags chunk =
     packet_prefix large_sdu Data (PACKET_HEADER_SIZE + 2 + length chunk)
     @ be_bytes 2 data_flags @ chunk"

definition build_data_packet_from_payload :: "conn \<Rightarrow> u8 list \<Rightarrow> u8 list" where
  "build_data_packet_from_payload c payload =
     packet_prefix (cn_large_sdu c) Data (PACKET_HEADER_SIZE + length payload) @ payload"

definition send_marker :: "u8 \<Rightarrow> unit conn_action" where
  "send_marker marker_type =
     (\<lambda>c. conn_send (packet_prefix (cn_large_sdu c) Marker (PACKET_HEADER_SIZE + 3)
            @ [0x01, 0x00, marker_type]) c)"

subsection \<open>Sending in several packets\<close>

text \<open>
  The send loop is a partial function: with an SDU of exactly 10 every chunk is empty and the
  loop does not return (\<open>None\<close>).
\<close>

definition packet_flags :: "bool \<Rightarrow> bool \<Rightarrow> u16 \<Rightarrow> u16" where
  "packet_flags is_last is_first initial =
     (if is_last then END_OF_REQUEST else if is_first then initial else 0)"

partial_function (option) send_loop ::
  "u8 list \<Rightarrow> u16 \<Rightarrow> nat \<Rightarrow> nat \<Rightarrow> bool \<Rightarrow> conn \<Rightarrow> (unit result \<times> conn) option" where
  "send_loop payload initial k offset is_first c =
     (if offset < length payload then
        let chunk_size = min (length payload - offset) k;
            is_last = (length payload \<le> offset + chunk_size);
            rc = stream_write_all (data_packet (cn_large_sdu c) (packet_flags is_last is_first initial)
                   (take chunk_size (drop offset payload))) c
        in if is_ok (fst rc) then send_loop payload initial k (offset + chunk_size) False (snd rc)
           else Some rc
      else Some (Inr (), c))"

definition send_multi_packet :: "u8 list \<Rightarrow> u16 \<Rightarrow> conn \<Rightarrow> (unit result \<times> conn) option" where
  "send_multi_packet payload initial c =
     (if \<not> cn_open c then Some (Inl (Err ConnectionClosed), c)
      else if unat (cn_sdu c) < PACKET_HEADER_SIZE + 2 then Some (Inl Panic, c)
      else send_loop payload initial (unat (cn_sdu c) - PACKET_HEADER_SIZE - 2) 0 True c)"

subsection \<open>Collecting a response\<close>

text \<open>\<open>scan_for_terminal_message\<close>: the message stream so far, walked over LOB data.\<close>

lemma raw_chunked_after_u8:
  "read_u8 s = (Inr t, s1) \<Longrightarrow> read_raw_bytes_chunked s1 = (Inr bs, s2) \<Longrightarrow>
   remaining s2 < remaining s"
  by (rule rd_after_u8_progress [where f = "\<lambda>_. read_raw_bytes_chunked" and r = "Inr bs" and a = bs])
    (auto intro: rd_intros)

function scan_loop :: "rbuf \<Rightarrow> bool" where
  "scan_loop s =
     (if 0 < remaining s then
        case read_u8 s of
          (Inl e, s1) \<Rightarrow> False
        | (Inr msg_type, s1) \<Rightarrow>
            if msg_type = 29 then True
            else if msg_type = 4 then True
            else if msg_type = 9 then True
            else if msg_type = 14 then
              (case read_raw_bytes_chunked s1 of
                 (Inl e, s2) \<Rightarrow> False
               | (Inr bs, s2) \<Rightarrow> scan_loop s2)
            else if msg_type = 8 then
              (case fst (remaining_bytes s1) of
                 Inl e \<Rightarrow> False
               | Inr rest \<Rightarrow> 4 \<in> set rest \<or> 29 \<in> set rest)
            else False
      else False)"
  by pat_completeness auto
termination
  by (relation "measure remaining") (auto dest: raw_chunked_after_u8 [OF sym sym])

declare scan_loop.simps [simp del]

definition scan_for_terminal_message :: "u8 list \<Rightarrow> bool" where
  "scan_for_terminal_message data = (if data = [] then False else scan_loop (rbuf_new data))"

text \<open>
  One round of the collecting loops: \<open>None\<close> when the packet is not DATA, otherwise the payload
  accumulated so far and whether the response is complete.
\<close>

definition end_flagged :: "u16 \<Rightarrow> u8 list \<Rightarrow> bool" where
  "end_flagged flags payload \<longleftrightarrow>
     flags AND END_OF_RESPONSE \<noteq> 0 \<or> flags AND EOF_FLAG \<noteq> 0
     \<or> (length payload = 3 \<and> payload ! 2 = 29)"

definition response_step :: "u8 list \<Rightarrow> bool \<Rightarrow> u8 list \<Rightarrow> (u8 list \<times> bool) option result" where
  "response_step acc is_first packet =
     (if length packet < PACKET_HEADER_SIZE then Inl (Err (Protocol ''Packet too small''))
      else if packet ! 4 \<noteq> packet_type_byte Data then Inr None
      else
        let payload = drop PACKET_HEADER_SIZE packet
        in if length payload < 2 then Inl (Err (Protocol ''DATA packet payload too small''))
           else
             let flags = be_word [payload ! 0, payload ! 1];
                 acc' = (if is_first then acc @ payload else acc @ drop 2 payload);
                 is_end = end_flagged flags payload;
                 has_terminal =
                   (if \<not> is_end \<and> 2 < length acc' then scan_for_terminal_message (drop 2 acc')
                    else False)
             in Inr (Some (acc', is_end \<or> has_terminal)))"

lemma conn_receive_consumes:
  "conn_receive c = (Inr p, c') \<Longrightarrow> length (cn_in c') < length (cn_in c)"
  by (auto simp: conn_receive_def andThen_apply close_on_error_def stream_read_exact_def
      PACKET_HEADER_SIZE_def action_apply Let_def split: if_splits prod.splits sum.splits)

function (sequential) response_loop ::
  "u8 list \<Rightarrow> bool \<Rightarrow> u8 list \<Rightarrow> conn \<Rightarrow> u8 list result \<times> conn" where
  "response_loop acc is_first packet c =
     (case response_step acc is_first packet of
        Inl e \<Rightarrow> (Inl e, c)
      | Inr None \<Rightarrow> (Inr packet, c)
      | Inr (Some (acc', True)) \<Rightarrow> (Inr (build_data_packet_from_payload c acc'), c)
      | Inr (Some (acc', False)) \<Rightarrow>
          andThen conn_receive (\<lambda>p c'. response_loop acc' False p c') c)"
  by pat_completeness auto
termination
  by (relation "measure (\<lambda>(_, _, _, c). length (cn_in c))") (auto dest: conn_receive_consumes)

declare response_loop.simps [simp del]

definition receive_response_from_first_packet_with_payload ::
  "u8 list \<Rightarrow> u8 list \<Rightarrow> u8 list conn_action" where
  "receive_response_from_first_packet_with_payload first_packet accumulated =
     response_loop accumulated (accumulated = []) first_packet"

definition receive_response :: "u8 list conn_action" where
  "receive_response =
     andThen conn_receive (\<lambda>first. receive_response_from_first_packet_with_payload first [])"

function (sequential) response_or_marker_loop ::
  "u8 list \<Rightarrow> bool \<Rightarrow> conn \<Rightarrow> (u8 list \<times> u8 list) result \<times> conn" where
  "response_or_marker_loop acc is_first c =
     andThen conn_receive (\<lambda>packet c'.
       case response_step acc is_first packet of
         Inl e \<Rightarrow> (Inl e, c')
       | Inr None \<Rightarrow> (Inr (packet, acc), c')
       | Inr (Some (acc', True)) \<Rightarrow> (Inr (build_data_packet_from_payload c' acc', []), c')
       | Inr (Some (acc', False)) \<Rightarrow> response_or_marker_loop acc' False c') c"
  by pat_completeness auto
termination
  by (relation "measure (\<lambda>(_, _, c). length (cn_in c))") (auto dest: conn_receive_consumes)

declare response_or_marker_loop.simps [simp del]

definition receive_response_or_marker :: "(u8 list \<times> u8 list) conn_action" where
  "receive_response_or_marker = response_or_marker_loop [] True"

subsection \<open>MARKER recovery\<close>

definition MARKER_TYPE_RESET :: u8 where "MARKER_TYPE_RESET = 2"

definition closed_in_recovery :: string where
  "closed_in_recovery =
     ''Server closed the connection during error recovery without returning an error payload.''"

text \<open>The second loop: drop further markers, then collect the response.\<close>

function (sequential) after_reset_loop ::
  "u8 list \<Rightarrow> conn \<Rightarrow> u8 list result \<times> conn" where
  "after_reset_loop partial c =
     (case conn_receive c of
        (Inl e, c') \<Rightarrow>
          (Inl (Err (ConnectionClosedByServer closed_in_recovery)), c'\<lparr>cn_state := Closed\<rparr>)
      | (Inr packet, c') \<Rightarrow>
          if packet ! 4 = packet_type_byte Marker then after_reset_loop partial c'
          else receive_response_from_first_packet_with_payload packet partial c')"
  by pat_completeness auto
termination
  by (relation "measure (\<lambda>(_, c). length (cn_in c))") (auto dest: conn_receive_consumes [OF sym])

text \<open>The first loop: wait for the server's RESET marker, or for the response itself.\<close>

function (sequential) await_reset_loop ::
  "u8 list \<Rightarrow> conn \<Rightarrow> u8 list result \<times> conn" where
  "await_reset_loop partial c =
     andThen conn_receive (\<lambda>packet c'.
       if length packet < PACKET_HEADER_SIZE
       then (Inl (Err (Protocol ''Invalid packet received'')), c')
       else if packet ! 4 = packet_type_byte Marker then
         (if PACKET_HEADER_SIZE + 3 \<le> length packet
             \<and> packet ! (PACKET_HEADER_SIZE + 2) = MARKER_TYPE_RESET
          then after_reset_loop partial c'
          else await_reset_loop partial c')
       else receive_response_from_first_packet_with_payload packet partial c') c"
  by pat_completeness auto
termination
  by (relation "measure (\<lambda>(_, c). length (cn_in c))") (auto dest: conn_receive_consumes)

declare after_reset_loop.simps [simp del] await_reset_loop.simps [simp del]

definition handle_marker_reset_with_partial :: "u8 list \<Rightarrow> u8 list conn_action" where
  "handle_marker_reset_with_partial partial =
     andSeq (send_marker MARKER_TYPE_RESET) (await_reset_loop partial)"

definition handle_marker_reset :: "u8 list conn_action" where
  "handle_marker_reset = handle_marker_reset_with_partial []"

subsection \<open>Specification of the split\<close>

text \<open>
  \<open>frames k f payload\<close>: the flags and chunks of the packets a payload is split into, at most
  \<open>k\<close> bytes each; only the last one is flagged as the end of the request.
\<close>

function (sequential) frames :: "nat \<Rightarrow> u16 \<Rightarrow> u8 list \<Rightarrow> (u16 \<times> u8 list) list" where
  "frames k f payload =
     (if payload = [] \<or> k = 0 then []
      else if length payload \<le> k then [(END_OF_REQUEST, payload)]
      else (f, take k payload) # frames k 0 (drop k payload))"
  by pat_completeness auto
termination
  by (relation "measure (\<lambda>(k, f, payload). length payload)") auto

declare frames.simps [simp del]

definition frame_packet :: "bool \<Rightarrow> u16 \<times> u8 list \<Rightarrow> u8 list" where
  "frame_packet large_sdu fr = data_packet large_sdu (fst fr) (snd fr)"

lemma concat_frames: "0 < k \<Longrightarrow> concat (map snd (frames k f payload)) = payload"
proof (induction k f payload rule: frames.induct)
  case (1 k f payload)
  then show ?case by (subst frames.simps) simp
qed

lemma frame_sizes: "(g, ch) \<in> set (frames k f payload) \<Longrightarrow> ch \<noteq> [] \<and> length ch \<le> k"
proof (induction k f payload rule: frames.induct)
  case (1 k f payload)
  then show ?case by (auto simp: frames.simps [of k f payload] split: if_splits)
qed

lemma frames_last:
  "0 < k \<Longrightarrow> payload \<noteq> [] \<Longrightarrow>
   frames k f payload \<noteq> [] \<and> fst (last (frames k f payload)) = END_OF_REQUEST"
proof (induction k f payload rule: frames.induct)
  case (1 k f payload)
  show ?case
  proof (cases "length payload \<le> k")
    case True
    with 1 show ?thesis by (simp add: frames.simps [of k f payload])
  next
    case False
    with 1 have "frames k 0 (drop k payload) \<noteq> []
        \<and> fst (last (frames k 0 (drop k payload))) = END_OF_REQUEST" by simp
    with 1 False show ?thesis by (simp add: frames.simps [of k f payload])
  qed
qed

lemma frames_before_last:
  "g \<in> set (map fst (butlast (frames k f payload))) \<Longrightarrow> g = f \<or> g = 0"
proof (induction k f payload rule: frames.induct)
  case (1 k f payload)
  then show ?case
    by (auto simp: frames.simps [of k f payload] split: if_splits)
qed

subsection \<open>The send loop meets the specification\<close>

lemma send_loop_done: "length payload \<le> offset \<Longrightarrow> send_loop payload i k offset first c = Some (Inr (), c)"
  by (subst send_loop.simps) simp

lemma stream_write_ok:
  "cn_wfail c = None \<Longrightarrow> stream_write_all bs c = (Inr (), c\<lparr>cn_out := cn_out c @ bs\<rparr>)"
  by (simp add: stream_write_all_def)

lemma send_loop_frames:
  assumes "0 < k" and "cn_wfail c = None"
  shows "send_loop payload i k offset first c =
    Some (Inr (), c\<lparr>cn_out := cn_out c @ concat (map (frame_packet (cn_large_sdu c))
      (frames k (if first then i else 0) (drop offset payload)))\<rparr>)"
  using assms
proof (induction "length payload - offset" arbitrary: offset first c rule: less_induct)
  case less
  show ?case
  proof (cases "offset < length payload")
    case False
    then show ?thesis by (simp add: send_loop_done frames.simps)
  next
    case True
    let ?n = "min (length payload - offset) k"
    let ?last = "length payload \<le> offset + ?n"
    let ?ch = "take ?n (drop offset payload)"
    let ?p = "data_packet (cn_large_sdu c) (packet_flags ?last first i) ?ch"
    let ?c = "c\<lparr>cn_out := cn_out c @ ?p\<rparr>"
    have step: "send_loop payload i k offset first c = send_loop payload i k (offset + ?n) False ?c"
      using True less.prems
      by (subst send_loop.simps) (simp add: Let_def stream_write_ok is_ok_def)
    also have "\<dots> = Some (Inr (), ?c\<lparr>cn_out := cn_out ?c @ concat (map (frame_packet (cn_large_sdu c))
        (frames k 0 (drop (offset + ?n) payload)))\<rparr>)"
      using less.hyps [of "offset + ?n" ?c False] less.prems True by simp
    also have "frames k (if first then i else 0) (drop offset payload) =
        (packet_flags ?last first i, ?ch) # frames k 0 (drop (offset + ?n) payload)"
    proof (cases "length payload - offset \<le> k")
      case True
      with \<open>offset < length payload\<close> less.prems show ?thesis
        by (simp add: frames.simps [of k _ "drop offset payload"] frames.simps [of k 0 "[]"]
            packet_flags_def)
    next
      case False
      then have "\<not> length payload \<le> k + offset" by simp
      with False \<open>offset < length payload\<close> less.prems show ?thesis
        by (simp add: frames.simps [of k _ "drop offset payload"] packet_flags_def add.commute)
    qed
    ultimately show ?thesis by (simp add: frame_packet_def)
  qed
qed

lemma send_loop_stuck:
  assumes "offset < length payload" and "cn_wfail c = None"
  shows "send_loop payload i 0 offset first c = None"
proof (rule ccontr)
  assume "send_loop payload i 0 offset first c \<noteq> None"
  then obtain r where r: "send_loop payload i 0 offset first c = Some r" by blast
  have "\<not> (0 = (0::nat) \<and> offset < length payload \<and> cn_wfail c = None)"
  proof (rule send_loop.raw_induct [where P = "\<lambda>payload i k offset first c r.
      \<not> (k = 0 \<and> offset < length payload \<and> cn_wfail c = None)", OF _ r])
    fix f payload i k offset first c r
    assume IH: "\<And>payload i k offset first c r. f payload i k offset first c = Some r \<Longrightarrow>
        \<not> (k = (0::nat) \<and> offset < length payload \<and> cn_wfail c = None)"
      and eq: "(if offset < length payload then
        let chunk_size = min (length payload - offset) k;
            is_last = (length payload \<le> offset + chunk_size);
            rc = stream_write_all (data_packet (cn_large_sdu c) (packet_flags is_last first i)
                   (take chunk_size (drop offset payload))) c
        in if is_ok (fst rc) then f payload i k (offset + chunk_size) False (snd rc)
           else Some rc
      else Some (Inr (), c)) = Some r"
    show "\<not> (k = 0 \<and> offset < length payload \<and> cn_wfail c = None)"
    proof
      assume "k = 0 \<and> offset < length payload \<and> cn_wfail c = None"
      then have "f payload i 0 offset False
          (c\<lparr>cn_out := cn_out c @ data_packet (cn_large_sdu c) (packet_flags False first i) []\<rparr>)
          = Some r" and "offset < length payload" and "cn_wfail c = None"
        using eq by (auto simp: Let_def stream_write_ok is_ok_def)
      then show False using IH by fastforce
    qed
  qed
  with assms show False by simp
qed

subsection \<open>Receiving what was framed\<close>

lemma length_packet_prefix [simp]: "length (packet_prefix large t n) = 8"
  by (simp add: packet_prefix_def)

lemma packet_len_prefix:
  assumes "n < (if large then 4294967296 else 65536)"
  shows "packet_len large (packet_prefix large t n) = n"
  using assms
  by (auto simp: packet_len_def packet_prefix_def be_word_be_bytes_full unat_of_nat)

lemma packet_prefix_type: "packet_prefix large t n ! 4 = packet_type_byte t"
  by (simp add: packet_prefix_def nth_append)

lemma conn_receive_packet:
  assumes "cn_open c"
    and "8 + length body < (if cn_large_sdu c then 4294967296 else 65536)"
    and "cn_in c = packet_prefix (cn_large_sdu c) t (8 + length body) @ body @ rest"
  shows "conn_receive c =
    (Inr (packet_prefix (cn_large_sdu c) t (8 + length body) @ body), c\<lparr>cn_in := rest\<rparr>)"
  using assms packet_len_prefix [OF assms(2)]
  by (cases "body = []")
    (auto simp: conn_receive_def andThen_apply close_on_error_def stream_read_exact_def
      PACKET_HEADER_SIZE_def action_apply Let_def)

lemma conn_receive_data:
  assumes "cn_open c"
    and "10 + length ch < (if cn_large_sdu c then 4294967296 else 65536)"
    and "cn_in c = data_packet (cn_large_sdu c) f ch @ rest"
  shows "conn_receive c = (Inr (data_packet (cn_large_sdu c) f ch), c\<lparr>cn_in := rest\<rparr>)"
  using conn_receive_packet [of c "be_bytes 2 f @ ch" Data rest] assms
  by (simp add: data_packet_def PACKET_HEADER_SIZE_def)

fun receive_packets :: "nat \<Rightarrow> u8 list list conn_action" where
  "receive_packets 0 = ok []"
| "receive_packets (Suc n) = andThen conn_receive (\<lambda>p. fmap (\<lambda>ps. p # ps) (receive_packets n))"

lemma receive_packets_frames:
  assumes "cn_open c"
    and "\<forall>fr \<in> set frs. 10 + length (snd fr) < (if cn_large_sdu c then 4294967296 else 65536)"
    and "cn_in c = concat (map (frame_packet (cn_large_sdu c)) frs) @ rest"
  shows "receive_packets (length frs) c =
    (Inr (map (frame_packet (cn_large_sdu c)) frs), c\<lparr>cn_in := rest\<rparr>)"
  using assms
proof (induction frs arbitrary: c)
  case Nil
  then show ?case by (simp add: ok_apply)
next
  case (Cons fr frs)
  let ?rest = "concat (map (frame_packet (cn_large_sdu c)) frs) @ rest"
  let ?c = "c\<lparr>cn_in := ?rest\<rparr>"
  have "conn_receive c = (Inr (frame_packet (cn_large_sdu c) fr), ?c)"
    using Cons.prems conn_receive_data [of c "snd fr" "fst fr" ?rest]
    by (simp add: frame_packet_def [of _ fr])
  moreover have "receive_packets (length frs) ?c =
      (Inr (map (frame_packet (cn_large_sdu c)) frs), ?c\<lparr>cn_in := rest\<rparr>)"
    using Cons.IH [of ?c] Cons.prems by simp
  ultimately show ?case by (simp add: fmap_def andThen_apply ok_apply)
qed

subsection \<open>A response is put together again\<close>

text \<open>
  \<open>ends_at_last acc first frs\<close>: of the DATA packets \<open>frs\<close> the last is the first one that
  completes the response (by its flags, by an END_OF_RESPONSE message of its own, or because
  the accumulated stream reaches a terminal message).
\<close>

fun ends_at_last :: "u8 list \<Rightarrow> bool \<Rightarrow> (u16 \<times> u8 list) list \<Rightarrow> bool" where
  "ends_at_last acc is_first [] = False"
| "ends_at_last acc is_first (fr # frs) =
     (let payload = be_bytes 2 (fst fr) @ snd fr;
          acc' = acc @ (if is_first then payload else snd fr)
      in if end_flagged (fst fr) payload
            \<or> (2 < length acc' \<and> scan_for_terminal_message (drop 2 acc'))
         then frs = []
         else ends_at_last acc' False frs)"

lemma response_step_data:
  "response_step acc is_first (data_packet large f ch) =
     (let payload = be_bytes 2 f @ ch;
          acc' = acc @ (if is_first then payload else ch)
      in Inr (Some (acc', end_flagged f payload
            \<or> (2 < length acc' \<and> scan_for_terminal_message (drop 2 acc')))))"
proof -
  have "be_bytes 2 f = [be_bytes 2 f ! 0, be_bytes 2 f ! 1]"
    by (rule nth_equalityI) (auto simp: less_2_cases_iff)
  then have be: "be_word [be_bytes 2 f ! 0, be_bytes 2 f ! Suc 0] = f"
    using be_word_be_bytes_full [of 2 f] by simp
  show ?thesis
    by (auto simp: response_step_def data_packet_def PACKET_HEADER_SIZE_def nth_append
        packet_prefix_type Let_def be)
qed

lemma response_loop_frames:
  assumes "ends_at_last acc is_first (fr # frs)" and "cn_open c"
    and "\<forall>x \<in> set frs. 10 + length (snd x) < (if cn_large_sdu c then 4294967296 else 65536)"
    and "cn_in c = concat (map (frame_packet (cn_large_sdu c)) frs) @ rest"
  shows "response_loop acc is_first (frame_packet (cn_large_sdu c) fr) c =
    (Inr (build_data_packet_from_payload c
       (acc @ (if is_first then be_bytes 2 (fst fr) else []) @ concat (map snd (fr # frs)))),
     c\<lparr>cn_in := rest\<rparr>)"
  using assms
proof (induction frs arbitrary: acc is_first fr c)
  case Nil
  then show ?case
    by (subst response_loop.simps)
      (auto simp: frame_packet_def response_step_data Let_def split: if_splits)
next
  case (Cons x frs)
  let ?acc = "acc @ (if is_first then be_bytes 2 (fst fr) @ snd fr else snd fr)"
  let ?c = "c\<lparr>cn_in := concat (map (frame_packet (cn_large_sdu c)) frs) @ rest\<rparr>"
  have step: "response_step acc is_first (frame_packet (cn_large_sdu c) fr) = Inr (Some (?acc, False))"
    and next_: "ends_at_last ?acc False (x # frs)"
    using Cons.prems(1)
    by (auto simp: frame_packet_def response_step_data Let_def split: if_splits)
  have rc: "conn_receive c = (Inr (frame_packet (cn_large_sdu c) x), ?c)"
    using Cons.prems conn_receive_data [of c "snd x" "fst x"]
    by (simp add: frame_packet_def [of _ x])
  have "response_loop ?acc False (frame_packet (cn_large_sdu ?c) x) ?c =
    (Inr (build_data_packet_from_payload ?c (?acc @ concat (map snd (x # frs)))), ?c\<lparr>cn_in := rest\<rparr>)"
    using Cons.IH [OF next_, of ?c] Cons.prems by simp
  then show ?case
    by (subst response_loop.simps)
      (simp add: step rc andThen_apply build_data_packet_from_payload_def)
qed

lemma receive_response_frames:
  assumes "ends_at_last [] True frs" and "cn_open c"
    and "\<forall>x \<in> set frs. 10 + length (snd x) < (if cn_large_sdu c then 4294967296 else 65536)"
    and "cn_in c = concat (map (frame_packet (cn_large_sdu c)) frs) @ rest"
  shows "receive_response c =
    (Inr (build_data_packet_from_payload c (be_bytes 2 (fst (hd frs)) @ concat (map snd frs))),
     c\<lparr>cn_in := rest\<rparr>)"
proof -
  from assms(1) obtain fr frs' where frs: "frs = fr # frs'" by (cases frs) auto
  let ?c = "c\<lparr>cn_in := concat (map (frame_packet (cn_large_sdu c)) frs') @ rest\<rparr>"
  have "conn_receive c = (Inr (frame_packet (cn_large_sdu c) fr), ?c)"
    using assms(2-4) conn_receive_data [of c "snd fr" "fst fr"]
    by (simp add: frs frame_packet_def [of _ fr])
  moreover have "response_loop [] True (frame_packet (cn_large_sdu ?c) fr) ?c =
    (Inr (build_data_packet_from_payload ?c ([] @ be_bytes 2 (fst fr) @ concat (map snd frs))),
      ?c\<lparr>cn_in := rest\<rparr>)"
    using response_loop_frames [of "[]" True fr frs' ?c rest] assms by (simp add: frs)
  ultimately show ?thesis
    by (simp add: receive_response_def andThen_apply frs
        receive_response_from_first_packet_with_payload_def build_data_packet_from_payload_def)
qed

subsection \<open>Recovery from a break\<close>

definition marker_packet :: "bool \<Rightarrow> u8 \<Rightarrow> u8 list" where
  "marker_packet large m = packet_prefix large Marker 11 @ [1, 0, m]"

lemma conn_receive_marker:
  assumes "cn_open c" and "cn_in c = marker_packet (cn_large_sdu c) m @ rest"
  shows "conn_receive c = (Inr (marker_packet (cn_large_sdu c) m), c\<lparr>cn_in := rest\<rparr>)"
  using conn_receive_packet [of c "[1, 0, m]" Marker rest] assms
  by (simp add: marker_packet_def)

lemma marker_packet_nth [simp]:
  "marker_packet large m ! 4 = 12" "marker_packet large m ! 10 = m"
  "length (marker_packet large m) = 11"
  by (simp_all add: marker_packet_def nth_append packet_prefix_type)

lemma data_packet_nth [simp]: "data_packet large f ch ! 4 = 6" "8 \<le> length (data_packet large f ch)"
  by (simp_all add: data_packet_def nth_append packet_prefix_type)

lemma after_reset_markers:
  assumes "cn_open c"
    and "cn_in c = concat (map (marker_packet (cn_large_sdu c)) ms) @ rest"
  shows "after_reset_loop partial c = after_reset_loop partial (c\<lparr>cn_in := rest\<rparr>)"
  using assms
proof (induction ms arbitrary: c)
  case Nil
  then have "c\<lparr>cn_in := rest\<rparr> = c" by simp
  then show ?case by simp
next
  case (Cons m ms)
  let ?c = "c\<lparr>cn_in := concat (map (marker_packet (cn_large_sdu c)) ms) @ rest\<rparr>"
  have "after_reset_loop partial c = after_reset_loop partial ?c"
    using Cons.prems conn_receive_marker [of c m]
    by (subst after_reset_loop.simps) simp
  also have "\<dots> = after_reset_loop partial (?c\<lparr>cn_in := rest\<rparr>)"
    by (rule Cons.IH) (use Cons.prems in simp_all)
  finally show ?case by simp
qed

lemma await_reset_markers:
  assumes "cn_open c" and "2 \<notin> set ms"
    and "cn_in c = concat (map (marker_packet (cn_large_sdu c)) (ms @ [2])) @ rest"
  shows "await_reset_loop partial c = after_reset_loop partial (c\<lparr>cn_in := rest\<rparr>)"
  using assms
proof (induction ms arbitrary: c)
  case Nil
  then show ?case
    using conn_receive_marker [of c 2]
    by (subst await_reset_loop.simps)
      (simp add: PACKET_HEADER_SIZE_def MARKER_TYPE_RESET_def andThen_apply)
next
  case (Cons m ms)
  let ?c = "c\<lparr>cn_in := concat (map (marker_packet (cn_large_sdu c)) (ms @ [2])) @ rest\<rparr>"
  have "await_reset_loop partial c = await_reset_loop partial ?c"
    using Cons.prems conn_receive_marker [of c m]
    by (subst await_reset_loop.simps)
      (auto simp add: PACKET_HEADER_SIZE_def MARKER_TYPE_RESET_def andThen_apply)
  also have "\<dots> = after_reset_loop partial (?c\<lparr>cn_in := rest\<rparr>)"
    by (rule Cons.IH) (use Cons.prems in simp_all)
  finally show ?case by simp
qed

lemma after_reset_response:
  assumes "ends_at_last partial (partial = []) frs" and "cn_open c"
    and "\<forall>x \<in> set frs. 10 + length (snd x) < (if cn_large_sdu c then 4294967296 else 65536)"
    and "cn_in c = concat (map (frame_packet (cn_large_sdu c)) frs) @ rest"
  shows "after_reset_loop partial c =
    (Inr (build_data_packet_from_payload c
      (partial @ (if partial = [] then be_bytes 2 (fst (hd frs)) else []) @ concat (map snd frs))),
     c\<lparr>cn_in := rest\<rparr>)"
proof -
  from assms(1) obtain fr frs' where frs: "frs = fr # frs'" by (cases frs) auto
  let ?c = "c\<lparr>cn_in := concat (map (frame_packet (cn_large_sdu c)) frs') @ rest\<rparr>"
  have "conn_receive c = (Inr (frame_packet (cn_large_sdu c) fr), ?c)"
    using assms(2-4) conn_receive_data [of c "snd fr" "fst fr"]
    by (simp add: frs frame_packet_def [of _ fr])
  moreover have "response_loop partial (partial = []) (frame_packet (cn_large_sdu ?c) fr) ?c =
    (Inr (build_data_packet_from_payload ?c
      (partial @ (if partial = [] then be_bytes 2 (fst fr) else []) @ concat (map snd frs))),
      ?c\<lparr>cn_in := rest\<rparr>)"
    using response_loop_frames [of partial "partial = []" fr frs' ?c rest] assms by (simp add: frs)
  ultimately show ?thesis
    by (subst after_reset_loop.simps)
      (simp add: receive_response_from_first_packet_with_payload_def frs frame_packet_def
        build_data_packet_from_payload_def)
qed

lemma handle_marker_reset_recovers:
  assumes "ends_at_last partial (partial = []) frs" and "cn_open c" and "cn_wfail c = None"
    and "2 \<notin> set before"
    and "\<forall>x \<in> set frs. 10 + length (snd x) < (if cn_large_sdu c then 4294967296 else 65536)"
    and "cn_in c = concat (map (marker_packet (cn_large_sdu c)) (before @ [2] @ after))
      @ concat (map (frame_packet (cn_large_sdu c)) frs) @ rest"
  shows "handle_marker_reset_with_partial partial c =
    (Inr (build_data_packet_from_payload c
      (partial @ (if partial = [] then be_bytes 2 (fst (hd frs)) else []) @ concat (map snd frs))),
     c\<lparr>cn_in := rest, cn_out := cn_out c @ marker_packet (cn_large_sdu c) 2\<rparr>)"
proof -
  let ?resp = "concat (map (frame_packet (cn_large_sdu c)) frs) @ rest"
  let ?m = "\<lambda>ms. concat (map (marker_packet (cn_large_sdu c)) ms)"
  define d where "d = c\<lparr>cn_out := cn_out c @ marker_packet (cn_large_sdu c) 2\<rparr>"
  have "send_marker MARKER_TYPE_RESET c = (Inr (), d)"
    using assms(2,3) by (simp add: send_marker_def conn_send_def stream_write_ok d_def
        marker_packet_def MARKER_TYPE_RESET_def PACKET_HEADER_SIZE_def)
  moreover have "await_reset_loop partial d = after_reset_loop partial (d\<lparr>cn_in := ?m after @ ?resp\<rparr>)"
    by (rule await_reset_markers [of _ before]) (use assms in \<open>simp_all add: d_def\<close>)
  moreover have "\<dots> = after_reset_loop partial (d\<lparr>cn_in := ?resp\<rparr>)"
    using after_reset_markers [of "d\<lparr>cn_in := ?m after @ ?resp\<rparr>" after ?resp partial] assms(2)
    by (simp add: d_def)
  moreover have "after_reset_loop partial (d\<lparr>cn_in := ?resp\<rparr>) =
    (Inr (build_data_packet_from_payload (d\<lparr>cn_in := ?resp\<rparr>)
      (partial @ (if partial = [] then be_bytes 2 (fst (hd frs)) else []) @ concat (map snd frs))),
     d\<lparr>cn_in := ?resp\<rparr>\<lparr>cn_in := rest\<rparr>)"
    by (rule after_reset_response) (use assms in \<open>simp_all add: d_def\<close>)
  ultimately show ?thesis
    by (simp add: handle_marker_reset_with_partial_def andSeq_apply d_def
        build_data_packet_from_payload_def)
qed

end
