(* ===== verification/FramingLaws.thy ===== *)
theory FramingLaws
  imports Framing
begin

section \<open>Properties of packets and of the framing\<close>

text \<open>
  The packet header's round trip in both layouts, the split of a request into SDU-sized DATA
  packets seen from both ends, the reassembly of a response and the recovery from a break.
\<close>

text \<open>
  In the small and the large layout, a header that fits the layout is parsed back from the
  bytes \<open>to_bytes\<close> writes, whatever follows; and a packet is parsed from header and payload.
\<close>

theorem header_roundtrip:
  assumes "header_fits large_sdu h"
  shows "\<exists>bs. header_to_bytes h large_sdu = Inr bs \<and> length bs = PACKET_HEADER_SIZE
    \<and> header_parse_as large_sdu (bs @ payload) = Inr h
    \<and> (\<not> large_sdu \<longrightarrow> packet_from_bytes (bs @ payload) = Inr \<lparr>pk_header = h, pk_payload = payload\<rparr>)"
  using header_to_bytes_wire header_parse_wire [OF assms] packet_from_bytes_wire assms
  by (auto simp: PACKET_HEADER_SIZE_def)

theorem header_roundtrip_witness:
  "\<exists>bs. header_to_bytes (header_new Data 11) False = Inr bs \<and> length bs = PACKET_HEADER_SIZE
    \<and> header_parse_as False (bs @ [1, 2, 3]) = Inr (header_new Data 11)
    \<and> packet_from_bytes (bs @ [1, 2, 3])
        = Inr \<lparr>pk_header = header_new Data 11, pk_payload = [1, 2, 3]\<rparr>"
  using header_roundtrip [of False "header_new Data 11" "[1, 2, 3]"]
  by (simp add: header_fits_def header_new_def)

text \<open>
  A small-layout header whose length needs more than sixteen bits is written with the
  length cut to sixteen bits, without an error.
\<close>

theorem header_length_truncates:
  "header_to_bytes h False = Inr (header_wire False h)
   \<and> header_parse (header_wire False h @ post)
     = Inr (h\<lparr>ph_packet_checksum := 0, ph_length := ucast (ucast (ph_length h) :: u16)\<rparr>)"
  using header_to_bytes_wire reads_new [OF reads_header [of False h], of post]
  by (simp add: header_parse_def header_parse_as_def PACKET_HEADER_SIZE_def)

subsection \<open>Sending\<close>

text \<open>
  C15: with an SDU above ten bytes and a socket that accepts writes, \<open>send_multi_packet\<close>
  returns, and what it wrote is the payload cut into DATA packets: the chunks concatenate to
  the payload, none is empty, none makes a packet longer than the SDU, and exactly the last
  one carries END_OF_REQUEST.
\<close>

theorem send_multi_packet_splits:
  assumes "cn_open c" "cn_wfail c = None" "10 < unat (cn_sdu c)" "payload \<noteq> []"
  shows "\<exists>frs. send_multi_packet payload i c =
      Some (Inr (), c\<lparr>cn_out := cn_out c @ concat (map (frame_packet (cn_large_sdu c)) frs)\<rparr>)
    \<and> concat (map snd frs) = payload
    \<and> (\<forall>fr \<in> set frs. snd fr \<noteq> [] \<and> length (frame_packet (cn_large_sdu c) fr) \<le> unat (cn_sdu c))
    \<and> frs \<noteq> [] \<and> fst (last frs) = END_OF_REQUEST
    \<and> (\<forall>f \<in> set (map fst (butlast frs)). f = i \<or> f = 0)"
proof -
  define k where "k = unat (cn_sdu c) - 10"
  define frs where "frs = frames k i payload"
  have k: "0 < k" using assms(3) by (simp add: k_def)
  have "send_multi_packet payload i c =
      Some (Inr (), c\<lparr>cn_out := cn_out c @ concat (map (frame_packet (cn_large_sdu c)) frs)\<rparr>)"
    using send_loop_frames [OF k assms(2), of payload i 0 True] assms(1,3)
    by (simp add: send_multi_packet_def PACKET_HEADER_SIZE_def frs_def k_def)
  moreover have "concat (map snd frs) = payload"
    by (simp add: frs_def concat_frames [OF k])
  moreover have "snd fr \<noteq> [] \<and> length (frame_packet (cn_large_sdu c) fr) \<le> unat (cn_sdu c)"
    if "fr \<in> set frs" for fr
    using frame_sizes [of "fst fr" "snd fr" k i payload] that assms(3)
    by (auto simp: frs_def frame_packet_def data_packet_def k_def)
  moreover have "frs \<noteq> [] \<and> fst (last frs) = END_OF_REQUEST"
    unfolding frs_def by (rule frames_last [OF k assms(4)])
  moreover have "f = i \<or> f = 0" if "f \<in> set (map fst (butlast frs))" for f
    using frames_before_last that unfolding frs_def .
  ultimately show ?thesis by blast
qed

definition test_conn :: "u16 \<Rightarrow> u8 list \<Rightarrow> conn" where
  "test_conn sdu incoming = \<lparr>cn_open = True, cn_in = incoming, cn_out = [], cn_wfail = None,
     cn_state = Ready, cn_sdu = sdu, cn_large_sdu = False, cn_seq = 1\<rparr>"

theorem send_multi_packet_splits_witness:
  "\<exists>frs. send_multi_packet [1, 2, 3, 4, 5] 0 (test_conn 12 []) =
      Some (Inr (), (test_conn 12 [])\<lparr>cn_out := cn_out (test_conn 12 [])
        @ concat (map (frame_packet (cn_large_sdu (test_conn 12 []))) frs)\<rparr>)
    \<and> concat (map snd frs) = [1, 2, 3, 4, 5]
    \<and> (\<forall>fr \<in> set frs. snd fr \<noteq> []
        \<and> length (frame_packet (cn_large_sdu (test_conn 12 [])) fr) \<le> unat (cn_sdu (test_conn 12 [])))
    \<and> frs \<noteq> [] \<and> fst (last frs) = END_OF_REQUEST
    \<and> (\<forall>f \<in> set (map fst (butlast frs)). f = 0 \<or> f = 0)"
  by (rule send_multi_packet_splits) (simp_all add: test_conn_def)

text \<open>
  C38: the peer sees the split: a receiver with the same settings that finds the written bytes
  on its input receives as many packets as there are chunks, each with its chunk, and
  nothing is left over.
\<close>

theorem peer_receives_split:
  assumes "cn_open c" "cn_wfail c = None" "10 < unat (cn_sdu c)" "cn_out c = []"
    and "cn_open d" "cn_large_sdu d = cn_large_sdu c"
    and "send_multi_packet payload i c = Some (Inr (), c')" "cn_in d = cn_out c' @ rest"
  shows "\<exists>frs. receive_packets (length frs) d =
      (Inr (map (frame_packet (cn_large_sdu c)) frs), d\<lparr>cn_in := rest\<rparr>)
    \<and> concat (map snd frs) = payload"
proof -
  define k where "k = unat (cn_sdu c) - 10"
  define frs where "frs = frames k i payload"
  have k: "0 < k" using assms(3) by (simp add: k_def)
  have "unat (cn_sdu c) < 65536" using unat_less(2) [of "cn_sdu c"] by simp
  then have "\<forall>fr \<in> set frs. 10 + length (snd fr) < (if cn_large_sdu d then 4294967296 else 65536)"
    using frame_sizes [of _ _ k i payload] assms(3) by (fastforce simp: frs_def k_def)
  moreover have "cn_in d = concat (map (frame_packet (cn_large_sdu d)) frs) @ rest"
    using send_loop_frames [OF k assms(2), of payload i 0 True] assms
    by (auto simp: send_multi_packet_def PACKET_HEADER_SIZE_def frs_def k_def)
  ultimately have "receive_packets (length frs) d =
      (Inr (map (frame_packet (cn_large_sdu c)) frs), d\<lparr>cn_in := rest\<rparr>)"
    using receive_packets_frames [OF assms(5)] assms(6) by simp
  moreover have "concat (map snd frs) = payload"
    by (simp add: frs_def concat_frames [OF k])
  ultimately show ?thesis by blast
qed

definition test_sent :: "u8 list" where
  "test_sent = concat (map (frame_packet False) [(0, [7, 8]), (0x0800, [9])])"

theorem peer_receives_split_witness:
  "\<exists>frs. receive_packets (length frs) (test_conn 12 (test_sent @ [])) =
      (Inr (map (frame_packet (cn_large_sdu (test_conn 12 []))) frs),
        (test_conn 12 (test_sent @ []))\<lparr>cn_in := []\<rparr>)
    \<and> concat (map snd frs) = [7, 8, 9]"
proof (rule peer_receives_split [where c = "test_conn 12 []" and i = 0])
  have "send_loop [7, 8, 9] 0 2 0 True (test_conn 12 []) =
    Some (Inr (), (test_conn 12 [])\<lparr>cn_out := test_sent\<rparr>)"
    using send_loop_frames [of 2 "test_conn 12 []" "[7, 8, 9]" 0 0 True]
    by (simp add: test_conn_def test_sent_def frames.simps END_OF_REQUEST_def)
  then show "send_multi_packet [7, 8, 9] 0 (test_conn 12 []) =
    Some (Inr (), (test_conn 12 [])\<lparr>cn_out := test_sent\<rparr>)"
    by (simp add: send_multi_packet_def test_conn_def PACKET_HEADER_SIZE_def)
qed (simp_all add: test_conn_def)

text \<open>
  A negotiated SDU of exactly ten bytes leaves no room for data: sending any payload never
  returns, and with less than ten bytes the size computation underflows.
\<close>

theorem send_multi_packet_small_sdu:
  assumes "cn_open c" "cn_wfail c = None" "payload \<noteq> []"
  shows "(unat (cn_sdu c) = 10 \<longrightarrow> send_multi_packet payload i c = None)
    \<and> (unat (cn_sdu c) < 10 \<longrightarrow> send_multi_packet payload i c = Some (Inl Panic, c))"
  using send_loop_stuck [of 0 payload c i True] assms
  by (auto simp: send_multi_packet_def PACKET_HEADER_SIZE_def)

theorem send_multi_packet_small_sdu_witness:
  "send_multi_packet [1] 0 (test_conn 10 []) = None
   \<and> send_multi_packet [1] 0 (test_conn 9 []) = Some (Inl Panic, test_conn 9 [])"
  using send_multi_packet_small_sdu [of "test_conn 10 []" "[1]" 0]
    send_multi_packet_small_sdu [of "test_conn 9 []" "[1]" 0]
  by (simp add: test_conn_def)

subsection \<open>Receiving\<close>

text \<open>
  C6: a response spread over DATA packets, the last of which completes it, is returned as one
  DATA packet with the first packet's flags and the concatenated messages; what the server
  sends after it stays unread.
\<close>

theorem receive_response_reassembles:
  assumes "ends_at_last [] True frs" "cn_open c"
    and "\<forall>x \<in> set frs. 10 + length (snd x) < (if cn_large_sdu c then 4294967296 else 65536)"
    and "cn_in c = concat (map (frame_packet (cn_large_sdu c)) frs) @ rest"
  shows "receive_response c =
    (Inr (build_data_packet_from_payload c (be_bytes 2 (fst (hd frs)) @ concat (map snd frs))),
     c\<lparr>cn_in := rest\<rparr>)"
  by (rule receive_response_frames [OF assms])

definition test_response :: "(u16 \<times> u8 list) list" where
  "test_response = [(0, [8, 1]), (0x2000, [4, 2])]"

theorem receive_response_reassembles_witness:
  "receive_response (test_conn 12 (concat (map (frame_packet False) test_response) @ [5])) =
    (Inr (build_data_packet_from_payload
        (test_conn 12 (concat (map (frame_packet False) test_response) @ [5]))
        (be_bytes 2 (fst (hd test_response)) @ concat (map snd test_response))),
     (test_conn 12 (concat (map (frame_packet False) test_response) @ [5]))\<lparr>cn_in := [5]\<rparr>)"
proof (rule receive_response_reassembles)
  show "ends_at_last [] True test_response" by code_simp
qed (simp_all add: test_conn_def test_response_def)

text \<open>
  C35: after a break, recovery sends one RESET marker, skips markers until the server's RESET
  and any after it, and returns the response that follows, joined to the part already received.
\<close>

theorem marker_reset_recovers:
  assumes "ends_at_last partial (partial = []) frs" "cn_open c" "cn_wfail c = None"
    and "2 \<notin> set before"
    and "\<forall>x \<in> set frs. 10 + length (snd x) < (if cn_large_sdu c then 4294967296 else 65536)"
    and "cn_in c = concat (map (marker_packet (cn_large_sdu c)) (before @ [2] @ after))
      @ concat (map (frame_packet (cn_large_sdu c)) frs) @ rest"
  shows "handle_marker_reset_with_partial partial c =
    (Inr (build_data_packet_from_payload c
      (partial @ (if partial = [] then be_bytes 2 (fst (hd frs)) else []) @ concat (map snd frs))),
     c\<lparr>cn_in := rest, cn_out := cn_out c @ marker_packet (cn_large_sdu c) 2\<rparr>)"
  by (rule handle_marker_reset_recovers [OF assms])

definition test_recovery :: "u8 list" where
  "test_recovery = concat (map (marker_packet False) ([1] @ [2] @ [2]))
     @ concat (map (frame_packet False) test_response) @ []"

theorem marker_reset_recovers_witness:
  "handle_marker_reset_with_partial [] (test_conn 12 test_recovery) =
    (Inr (build_data_packet_from_payload (test_conn 12 test_recovery)
      ([] @ (if ([] :: u8 list) = [] then be_bytes 2 (fst (hd test_response)) else [])
        @ concat (map snd test_response))),
     (test_conn 12 test_recovery)\<lparr>cn_in := [],
       cn_out := cn_out (test_conn 12 test_recovery)
         @ marker_packet (cn_large_sdu (test_conn 12 test_recovery)) 2\<rparr>)"
proof (rule marker_reset_recovers [where before = "[1]" and after = "[2]"])
  show "ends_at_last [] ([] = ([] :: u8 list)) test_response" by code_simp
qed (simp_all add: test_conn_def test_response_def test_recovery_def)

end
