(* ===== verification/OraNumber.thy ===== *)
theory OraNumber
  imports Complex_Main "HOL-Library.Signed_Division" Errors
begin

section \<open>Oracle NUMBER\<close>

text \<open>
  \<open>src/src/types/number.rs\<close>: \<open>decode_oracle_number\<close> from the base-100 wire form to decimal
  text and \<open>encode_oracle_number\<close> back.  Decimal digits are \<open>nat\<close>s; the decoder's byte
  arithmetic is on \<open>u8\<close> words, because it wraps.  The decimal point index is an \<open>i32\<close>,
  modelled as \<open>int\<close>; the one addition that can leave its range is checked.

  The specification is numeric: \<open>wire_value\<close> is the rational a wire form denotes,
  \<open>decimal_value\<close> the rational a decimal text denotes.
\<close>

definition MAX_DIGITS :: nat where "MAX_DIGITS = 40"
definition MAX_STRING_CHARS :: nat where "MAX_STRING_CHARS = 172"

record oracle_number =
  on_value :: string
  on_is_integer :: bool
  on_is_max_negative :: bool

definition number_new :: "string \<Rightarrow> oracle_number" where
  "number_new value =
     \<lparr>on_value = value, on_is_integer = (CHR ''.'' \<notin> set value), on_is_max_negative = False\<rparr>"

definition digit_char_of :: "nat \<Rightarrow> char" where
  "digit_char_of d = char_of (48 + d)"

subsection \<open>Decoding\<close>

text \<open>One byte of the mantissa: the digits so far, the decimal point index.\<close>

definition decode_pair :: "bool \<Rightarrow> bool \<Rightarrow> u8 \<Rightarrow> nat list \<times> int \<Rightarrow> nat list \<times> int" where
  "decode_pair is_positive is_last byte st =
     (case st of (digits, dpi) \<Rightarrow>
        let value = (if is_positive then byte - 1 else 101 - byte);
            digit1 = unat value div 10;
            (digits1, dpi1) =
              (if digit1 = 0 \<and> digits = [] then (digits, dpi - 1)
               else if digit1 = 10 then (digits @ [1, 0], dpi + 1)
               else if digit1 \<noteq> 0 \<or> digits \<noteq> [] then (digits @ [digit1], dpi)
               else (digits, dpi));
            digit2 = unat value mod 10
        in (if digit2 \<noteq> 0 \<or> \<not> is_last then digits1 @ [digit2] else digits1, dpi1))"

fun decode_mantissa :: "bool \<Rightarrow> u8 list \<Rightarrow> nat list \<times> int \<Rightarrow> nat list \<times> int" where
  "decode_mantissa is_positive [] st = st"
| "decode_mantissa is_positive (b # bs) st =
     decode_mantissa is_positive bs (decode_pair is_positive (bs = []) b st)"

function strip_zeros :: "int \<Rightarrow> nat list \<Rightarrow> nat list" where
  "strip_zeros dpi digits =
     (if digits \<noteq> [] \<and> last digits = 0
      then (if int (length digits) \<le> dpi then digits else strip_zeros dpi (butlast digits))
      else digits)"
  by pat_completeness auto
termination
  by (relation "measure (\<lambda>(_, ds). length ds)") auto

declare strip_zeros.simps [simp del]

text \<open>The decimal text of digits and decimal point index, without the sign.\<close>

definition digits_text :: "nat list \<Rightarrow> int \<Rightarrow> string \<times> bool" where
  "digits_text digits dpi =
     (if dpi \<le> 0 then
        (''0.'' @ replicate (nat (- dpi)) (CHR ''0'') @ map digit_char_of digits, False)
      else
        (concat (map (\<lambda>i. (if 0 < i \<and> int i = dpi then ''.'' else []) @ [digit_char_of (digits ! i)])
           [0..<length digits])
         @ replicate (nat dpi - length digits) (CHR ''0''),
         length digits \<le> nat dpi))"

definition decode_oracle_number :: "u8 list \<Rightarrow> oracle_number result" where
  "decode_oracle_number data =
     (if data = [] then Inl (Err (DataConversionError ''Empty data for Oracle NUMBER''))
      else
        let exponent_byte = data ! 0;
            is_positive = (exponent_byte AND 0x80 \<noteq> 0);
            exponent = (if is_positive then int (unat exponent_byte) - 193
                        else int (unat (NOT exponent_byte)) - 193);
            dpi0 = exponent * 2 + 2
        in if length data = 1 then
             (if is_positive then Inr (number_new ''0'')
              else Inr \<lparr>on_value = [], on_is_integer = False, on_is_max_negative = True\<rparr>)
           else
             let mantissa_len =
                   (if \<not> is_positive \<and> 1 < length data \<and> last data = 102
                    then length data - 2 else length data - 1);
                 (digits0, dpi) =
                   decode_mantissa is_positive (take mantissa_len (tl data)) ([], dpi0);
                 digits = strip_zeros dpi digits0;
                 (body, is_integer) = digits_text digits dpi;
                 result = (if is_positive then [] else ''-'') @ body
             in Inr \<lparr>on_value = (if result = [] \<or> result = ''-'' then ''0'' else result),
                     on_is_integer = is_integer, on_is_max_negative = False\<rparr>)"

subsection \<open>Encoding\<close>

definition invalid_char :: "char \<Rightarrow> error" where
  "invalid_char c = DataConversionError
     (''Invalid character '' @ [char_of (39 :: nat)] @ char_from_u8 (of_nat (of_char c))
      @ [char_of (39 :: nat)] @ '' in number'')"

fun int_digits :: "nat list \<Rightarrow> string \<Rightarrow> (nat list \<times> string) result" where
  "int_digits digits [] = Inr (digits, [])"
| "int_digits digits (b # bs) =
     (if b = CHR ''.'' \<or> b = CHR ''e'' \<or> b = CHR ''E'' then Inr (digits, b # bs)
      else if \<not> is_digit_char b then Inl (Err (invalid_char b))
      else int_digits (if digit_value b \<noteq> 0 \<or> digits \<noteq> [] then digits @ [digit_value b] else digits) bs)"

fun frac_digits :: "nat list \<Rightarrow> int \<Rightarrow> string \<Rightarrow> (nat list \<times> int \<times> string) result" where
  "frac_digits digits dpi [] = Inr (digits, dpi, [])"
| "frac_digits digits dpi (b # bs) =
     (if b = CHR ''e'' \<or> b = CHR ''E'' then Inr (digits, dpi, b # bs)
      else if \<not> is_digit_char b then Inl (Err (invalid_char b))
      else if digit_value b = 0 \<and> digits = [] then frac_digits digits (dpi - 1) bs
      else frac_digits (digits @ [digit_value b]) dpi bs)"

definition i32_add :: "int \<Rightarrow> int \<Rightarrow> int result" where
  "i32_add a b = (if - (2 ^ 31) \<le> a + b \<and> a + b < 2 ^ 31 then Inr (a + b) else Inl Panic)"

text \<open>The exponent: sign, digits up to the first other character; what follows is not looked at.\<close>

definition exponent_sign :: "string \<Rightarrow> bool \<times> string" where
  "exponent_sign t =
     (case t of c # u \<Rightarrow> if c = CHR ''-'' then (True, u) else if c = CHR ''+'' then (False, u)
                       else (False, t)
      | [] \<Rightarrow> (False, t))"

definition apply_exponent :: "int \<Rightarrow> string \<Rightarrow> int result" where
  "apply_exponent dpi s =
     (case s of
        b # t \<Rightarrow>
          if b = CHR ''e'' \<or> b = CHR ''E'' then
            let (exp_negative, t1) = exponent_sign t;
                ds = takeWhile is_digit_char t1
            in if ds = [] then Inl (Err (DataConversionError ''Missing exponent value''))
               else
                 let exp = nat_of_digits 0 ds
                 in if 2 ^ 31 \<le> exp then Inl (Err (DataConversionError ''Invalid exponent''))
                    else i32_add dpi (if exp_negative then - int exp else int exp)
          else Inr dpi
      | [] \<Rightarrow> Inr dpi)"

function strip_trailing :: "nat list \<Rightarrow> nat list" where
  "strip_trailing digits =
     (if digits \<noteq> [] \<and> last digits = 0 then strip_trailing (butlast digits) else digits)"
  by pat_completeness auto
termination
  by (relation "measure length") auto

declare strip_trailing.simps [simp del]

text \<open>The digits after the decimal point, if there is one.\<close>

definition frac_part :: "nat list \<Rightarrow> string \<Rightarrow> (nat list \<times> int \<times> string) result" where
  "frac_part ds rest =
     (case rest of
        b # bs \<Rightarrow> if b = CHR ''.'' then frac_digits ds (int (length ds)) bs
                  else Inr (ds, int (length ds), rest)
      | [] \<Rightarrow> Inr (ds, int (length ds), rest))"

text \<open>Everything up to the sign, the significant digits and the decimal point index.\<close>

definition parse_number :: "string \<Rightarrow> (bool \<times> nat list \<times> int) result" where
  "parse_number bytes =
     (let is_negative = (bytes \<noteq> [] \<and> hd bytes = CHR ''-'')
      in res_bind (int_digits [] (if is_negative then tl bytes else bytes)) (\<lambda>(ds, rest).
         res_bind (frac_part ds rest) (\<lambda>(digits, dpi, rest').
         res_bind (apply_exponent dpi rest') (\<lambda>dpi'.
         Inr (is_negative, strip_trailing digits, dpi')))))"

text \<open>
  The mantissa loop reads one digit for the first pair when a zero is to be prepended, two
  otherwise; \<open>num_pairs\<close> pairs in all.
\<close>

fun encode_mantissa :: "bool \<Rightarrow> bool \<Rightarrow> nat \<Rightarrow> nat list \<Rightarrow> u8 list" where
  "encode_mantissa is_negative single 0 ds = []"
| "encode_mantissa is_negative single (Suc n) ds =
     (let pair_value = (if single then ds ! 0 else ds ! 0 * 10 + ds ! 1)
      in of_nat (if is_negative then 101 - pair_value else pair_value + 1)
           # encode_mantissa is_negative False n (drop (if single then 1 else 2) ds))"

definition encode_digits :: "bool \<Rightarrow> nat list \<Rightarrow> int \<Rightarrow> u8 list result" where
  "encode_digits is_negative digits dpi =
     (if MAX_DIGITS < length digits \<or> 126 < dpi \<or> dpi < -129
      then Inl (Err (DataConversionError ''Number out of range for Oracle NUMBER''))
      else if digits = [] then Inr [128]
      else
        let prepend_zero = (dpi smod 2 = 1);
            digits1 = (if prepend_zero then digits @ [0] else digits);
            dpi1 = (if prepend_zero then dpi + 1 else dpi);
            digits2 = (if length digits1 mod 2 = 1 then digits1 @ [0] else digits1);
            num_pairs = length digits2 div 2;
            exponent_on_wire = (word_of_int (dpi1 sdiv 2 + 192) :: i8);
            exponent_byte = (if is_negative then NOT exponent_on_wire else exponent_on_wire)
        in Inr (exponent_byte # encode_mantissa is_negative prepend_zero num_pairs digits2
                @ (if is_negative \<and> num_pairs < 20 then [102] else [])))"

definition encode_oracle_number :: "string \<Rightarrow> u8 list result" where
  "encode_oracle_number value =
     (let v = str_trim value
      in if v = [] then
           Inl (Err (DataConversionError ''Empty string cannot be encoded as Oracle NUMBER''))
         else if MAX_STRING_CHARS < length v then
           Inl (Err (DataConversionError ''Number string too long for Oracle NUMBER''))
         else res_bind (parse_number v) (\<lambda>(is_negative, digits, dpi).
           encode_digits is_negative digits dpi))"

subsection \<open>What the two forms denote\<close>

definition val10 :: "nat list \<Rightarrow> nat" where
  "val10 ds = foldl (\<lambda>v d. 10 * v + d) 0 ds"

definition val100 :: "nat \<Rightarrow> nat list \<Rightarrow> nat" where
  "val100 v ms = foldl (\<lambda>v m. 100 * v + m) v ms"

text \<open>Digits with the decimal point behind the first \<open>p\<close> of them.\<close>

definition sem :: "nat list \<Rightarrow> int \<Rightarrow> rat" where
  "sem ds p = of_nat (val10 ds) * power_int 10 (p - int (length ds))"

definition wire_positive :: "u8 list \<Rightarrow> bool" where
  "wire_positive data \<longleftrightarrow> data ! 0 AND 0x80 \<noteq> 0"

definition wire_exponent :: "u8 list \<Rightarrow> int" where
  "wire_exponent data =
     (if wire_positive data then int (unat (data ! 0)) else int (unat (NOT (data ! 0)))) - 193"

definition wire_mantissa :: "u8 list \<Rightarrow> u8 list" where
  "wire_mantissa data =
     (if \<not> wire_positive data \<and> 1 < length data \<and> last data = 102 then butlast (tl data) else tl data)"

definition base100 :: "bool \<Rightarrow> u8 \<Rightarrow> nat" where
  "base100 is_positive b = (if is_positive then unat b - 1 else 101 - unat b)"

definition base100_ok :: "bool \<Rightarrow> u8 \<Rightarrow> bool" where
  "base100_ok is_positive b \<longleftrightarrow>
     (if is_positive then 1 \<le> unat b \<and> unat b \<le> 100 else 2 \<le> unat b \<and> unat b \<le> 101)"

definition wire_value :: "u8 list \<Rightarrow> rat" where
  "wire_value data =
     (let ms = map (base100 (wire_positive data)) (wire_mantissa data)
      in (if wire_positive data then 1 else -1) * of_nat (val100 0 ms)
         * power_int 100 (wire_exponent data + 1 - int (length ms)))"

text \<open>Well-formed wire forms: a mantissa of base-100 digits, or the single byte of zero.\<close>

definition wire_ok :: "u8 list \<Rightarrow> bool" where
  "wire_ok data \<longleftrightarrow>
     data \<noteq> [] \<and> (length data = 1 \<longrightarrow> wire_positive data)
     \<and> list_all (base100_ok (wire_positive data)) (wire_mantissa data)"

definition exponent_value :: "string \<Rightarrow> int option" where
  "exponent_value s =
     (case s of [] \<Rightarrow> Some 0
      | b # t \<Rightarrow>
          if b = CHR ''e'' \<or> b = CHR ''E'' then
            let (neg, u) = exponent_sign t
            in if u = [] \<or> \<not> list_all is_digit_char u then None
               else Some (if neg then - int (nat_of_digits 0 u) else int (nat_of_digits 0 u))
          else None)"

definition frac_text :: "string \<Rightarrow> string \<times> string" where
  "frac_text s =
     (case s of
        c # u \<Rightarrow> if c = CHR ''.'' then (takeWhile is_digit_char u, dropWhile is_digit_char u)
                 else ([], s)
      | [] \<Rightarrow> ([], s))"

text \<open>Decimal text: sign, digits, fraction, exponent; \<open>None\<close> for anything else.\<close>

definition decimal_value :: "string \<Rightarrow> rat option" where
  "decimal_value s =
     (let neg = (s \<noteq> [] \<and> hd s = CHR ''-'');
          t = (if neg then tl s else s);
          i = takeWhile is_digit_char t;
          (f, r) = frac_text (dropWhile is_digit_char t)
      in map_option (\<lambda>e. (if neg then -1 else 1) * of_nat (nat_of_digits 0 (i @ f))
                         * power_int 10 (e - int (length f))) (exponent_value r))"

subsection \<open>Digit arithmetic\<close>

lemma val10_Nil [simp]: "val10 [] = 0"
  by (simp add: val10_def)

lemma val10_snoc [simp]: "val10 (ds @ [d]) = 10 * val10 ds + d"
  by (simp add: val10_def)

lemma val10_append: "val10 (xs @ ys) = val10 xs * 10 ^ length ys + val10 ys"
proof (induction ys rule: rev_induct)
  case Nil
  show ?case by simp
next
  case (snoc y ys)
  then show ?case by (simp add: append_assoc [symmetric] algebra_simps del: append_assoc)
qed

lemma val10_single [simp]: "val10 [d] = d"
  by (simp add: val10_def)

lemma val10_Cons0 [simp]: "val10 (0 # ds) = val10 ds"
  using val10_append [of "[0]" ds] by simp

lemma val10_zeros [simp]: "val10 (replicate n 0) = 0"
  by (induction n) (simp_all add: replicate_Suc)

lemma nat_of_digits_val10: "nat_of_digits v cs = v * 10 ^ length cs + val10 (map digit_value cs)"
proof (induction cs arbitrary: v)
  case Nil
  show ?case by simp
next
  case (Cons c cs)
  show ?case
    using Cons [of "10 * v + digit_value c"] val10_append [of "[digit_value c]" "map digit_value cs"]
    by (simp add: algebra_simps)
qed

lemma digit_value_less: "is_digit_char c \<Longrightarrow> digit_value c < 10"
  unfolding is_digit_char_def digit_value_def by linarith

lemma digit_char_of_value [simp]:
  "d < 10 \<Longrightarrow> is_digit_char (digit_char_of d)" "d < 10 \<Longrightarrow> digit_value (digit_char_of d) = d"
  by (simp_all add: digit_char_of_def digit_char)

lemma sem_snoc0: "sem (ds @ [0]) p = sem ds p"
proof -
  have "p - int (length ds) = (p - int (length (ds @ [0]))) + 1" by simp
  then have "power_int (10 :: rat) (p - int (length ds)) = power_int 10 (p - int (length (ds @ [0]))) * 10"
    by (metis power_int_add_1 zero_neq_numeral)
  then show ?thesis by (simp add: sem_def)
qed

lemma sem_strip_zeros: "sem (strip_zeros p ds) p = sem ds p"
proof (induction p ds rule: strip_zeros.induct)
  case (1 p ds)
  show ?case
  proof (cases "ds \<noteq> [] \<and> last ds = 0 \<and> \<not> int (length ds) \<le> p")
    case True
    then have "ds = butlast ds @ [0]" by (metis append_butlast_last_id)
    then have "sem ds p = sem (butlast ds) p" by (metis sem_snoc0)
    with 1 True show ?thesis by (simp add: strip_zeros.simps [of p ds])
  next
    case False
    then show ?thesis by (auto simp: strip_zeros.simps [of p ds])
  qed
qed

lemma strip_zeros_set: "set (strip_zeros p ds) \<subseteq> set ds"
proof (induction p ds rule: strip_zeros.induct)
  case (1 p ds)
  then show ?case
    by (auto simp: strip_zeros.simps [of p ds] dest!: in_set_butlastD dest: subsetD split: if_splits)
qed

lemma strip_trailing_eq:
  "\<exists>n. ds = strip_trailing ds @ replicate n 0"
proof (induction ds rule: strip_trailing.induct)
  case (1 ds)
  show ?case
  proof (cases "ds \<noteq> [] \<and> last ds = 0")
    case True
    then obtain n where n: "butlast ds = strip_trailing (butlast ds) @ replicate n 0"
      using 1 by blast
    have "ds = butlast ds @ [0]"
      using True append_butlast_last_id [of ds] by simp
    also have "\<dots> = (strip_trailing (butlast ds) @ replicate n 0) @ [0]"
      using n by simp
    also have "\<dots> = strip_trailing ds @ replicate (Suc n) 0"
      using True by (simp add: strip_trailing.simps [of ds] replicate_append_same [symmetric])
    finally show ?thesis by blast
  next
    case False
    then have "strip_trailing ds = ds" by (auto simp: strip_trailing.simps [of ds])
    then have "ds = strip_trailing ds @ replicate 0 0" by simp
    then show ?thesis by blast
  qed
qed

lemma sem_zeros: "sem (ds @ replicate n 0) p = sem ds p"
proof (induction n)
  case (Suc n)
  then show ?case
    using sem_snoc0 [of "ds @ replicate n 0" p]
    by (simp add: replicate_append_same [symmetric])
qed simp

lemma sem_strip_trailing: "sem (strip_trailing ds) p = sem ds p"
  using strip_trailing_eq [of ds] sem_zeros by metis

lemma strip_trailing_set: "set (strip_trailing ds) \<subseteq> set ds"
  using strip_trailing_eq [of ds] by (metis set_append sup_ge1)

subsection \<open>The parser computes the text's value\<close>

definition digits_ok :: "nat list \<Rightarrow> bool" where
  "digits_ok ds \<longleftrightarrow> list_all (\<lambda>d. d < 10) ds"

lemma digits_ok_simps [simp]:
  "digits_ok []" "digits_ok (d # ds) \<longleftrightarrow> d < 10 \<and> digits_ok ds"
  "digits_ok (ds @ es) \<longleftrightarrow> digits_ok ds \<and> digits_ok es"
  "digits_ok (replicate n 0)"
  by (auto simp: digits_ok_def list_all_iff)

lemma digits_ok_subset: "set ds \<subseteq> set es \<Longrightarrow> digits_ok es \<Longrightarrow> digits_ok ds"
  by (auto simp: digits_ok_def list_all_iff)

text \<open>
  Both digit loops skip leading zeros: they keep the number the digits spell, and the
  fraction loop moves the point one place per character, pushed or skipped.
\<close>

lemma int_digits_spec:
  assumes "int_digits ds s = Inr (ds', rest)" and "digits_ok ds"
  shows "digits_ok ds' \<and> rest = dropWhile is_digit_char s
    \<and> val10 ds' = nat_of_digits (val10 ds) (takeWhile is_digit_char s)"
  using assms
proof (induction ds s rule: int_digits.induct)
  case (2 ds b bs)
  have "\<not> is_digit_char (CHR ''.'')" "\<not> is_digit_char (CHR ''e'')" "\<not> is_digit_char (CHR ''E'')"
    by (simp_all add: is_digit_char_def)
  with 2 show ?case
    by (auto simp: digit_value_less split: if_splits)
qed auto

lemma frac_digits_spec:
  assumes "frac_digits ds p s = Inr (ds', p', rest)" and "digits_ok ds"
  shows "digits_ok ds' \<and> rest = dropWhile is_digit_char s
    \<and> val10 ds' = nat_of_digits (val10 ds) (takeWhile is_digit_char s)
    \<and> p' - int (length ds') = p - int (length ds) - int (length (takeWhile is_digit_char s))"
  using assms
proof (induction ds p s rule: frac_digits.induct)
  case (2 ds p b bs)
  have "\<not> is_digit_char (CHR ''e'')" "\<not> is_digit_char (CHR ''E'')"
    by (simp_all add: is_digit_char_def)
  with 2 show ?case
    by (auto simp: digit_value_less split: if_splits)
qed auto

lemma apply_exponent_spec:
  assumes "apply_exponent p s = Inr p'" and "exponent_value s = Some e"
  shows "p' = p + e"
proof (cases s)
  case Nil
  with assms show ?thesis by (simp add: apply_exponent_def exponent_value_def)
next
  case (Cons b t)
  obtain n u where es: "exponent_sign t = (n, u)" by fastforce
  from assms(2) Cons es have b: "b = CHR ''e'' \<or> b = CHR ''E''" and u: "u \<noteq> []" "list_all is_digit_char u"
    and e: "e = (if n then - int (nat_of_digits 0 u) else int (nat_of_digits 0 u))"
    by (auto simp: exponent_value_def split: if_splits)
  have "takeWhile is_digit_char u = u"
    using u(2) by (simp add: takeWhile_eq_all_conv list_all_iff)
  with assms(1) Cons es b u(1) e show ?thesis
    by (auto simp: apply_exponent_def i32_add_def Let_def split: if_splits)
qed

lemma frac_part_spec:
  assumes "frac_part ds s = Inr (ds', p', r)" and "digits_ok ds"
  shows "digits_ok ds' \<and> r = snd (frac_text s) \<and> val10 ds' = nat_of_digits (val10 ds) (fst (frac_text s))
    \<and> p' - int (length ds') = - int (length (fst (frac_text s)))"
  using assms frac_digits_spec [of ds "int (length ds)" "tl s" ds' p' r]
  by (auto simp: frac_part_def frac_text_def split: list.splits if_splits)

lemma parse_number_value:
  assumes parse: "parse_number s = Inr (neg, ds, p)" and val: "decimal_value s = Some v"
  shows "v = (if neg then -1 else 1) * sem ds p \<and> digits_ok ds \<and> (neg \<longleftrightarrow> s \<noteq> [] \<and> hd s = CHR ''-'')"
proof -
  define n where "n \<longleftrightarrow> s \<noteq> [] \<and> hd s = CHR ''-''"
  define t where "t = (if n then tl s else s)"
  obtain ds0 rest ds1 p1 r where
    ints: "int_digits [] t = Inr (ds0, rest)" and frac: "frac_part ds0 rest = Inr (ds1, p1, r)"
    and ex: "apply_exponent p1 r = Inr p" and ds: "ds = strip_trailing ds1" and neg: "neg = n"
    using parse [unfolded parse_number_def Let_def, folded n_def, folded t_def]
    by (auto simp: res_bind_Inr_iff)
  note i = int_digits_spec [OF ints, simplified]
  obtain fs r' where ft: "frac_text (dropWhile is_digit_char t) = (fs, r')" by fastforce
  from val ft obtain e where e: "exponent_value r' = Some e"
    and v: "v = (if n then -1 else 1) * of_nat (nat_of_digits 0 (takeWhile is_digit_char t @ fs))
      * power_int 10 (e - int (length fs))"
    unfolding decimal_value_def Let_def n_def [symmetric] t_def [symmetric] by auto
  have f': "digits_ok ds1" "r = r'" "p1 - int (length ds1) = - int (length fs)"
    "val10 ds1 = nat_of_digits 0 (takeWhile is_digit_char t @ fs)"
    using frac_part_spec [OF frac] i ft by (auto simp: nat_of_digits_append)
  have "p = p1 + e" by (rule apply_exponent_spec [OF ex]) (simp add: f' e)
  then have "p - int (length ds1) = e - int (length fs)" using f' by simp
  then have "v = (if neg then -1 else 1) * sem ds p"
    unfolding ds sem_strip_trailing by (simp add: sem_def v f' neg)
  moreover have "digits_ok ds"
    using f' digits_ok_subset [OF strip_trailing_set] ds by simp
  ultimately show ?thesis using neg n_def by blast
qed

subsection \<open>The encoder\<close>

fun pairs :: "nat list \<Rightarrow> nat list" where
  "pairs (d1 # d2 # ds) = (d1 * 10 + d2) # pairs ds"
| "pairs _ = []"

definition encode_base100 :: "bool \<Rightarrow> nat \<Rightarrow> u8" where
  "encode_base100 is_negative m = of_nat (if is_negative then 101 - m else m + 1)"

lemma encode_mantissa_pairs:
  "length ds = 2 * n \<Longrightarrow> encode_mantissa neg False n ds = map (encode_base100 neg) (pairs ds)"
proof (induction n arbitrary: ds)
  case (Suc n)
  then obtain d1 d2 ds' where "ds = d1 # d2 # ds'" "length ds' = 2 * n"
    by (metis (no_types, opaque_lifting) add_Suc_right length_Suc_conv mult_2 mult_Suc_right add_2_eq_Suc)
  with Suc.IH show ?case by (simp add: encode_base100_def Let_def)
qed simp

lemma encode_mantissa_single:
  "length ds = 2 * n + 1 \<Longrightarrow>
   encode_mantissa neg True (Suc n) (ds @ junk) = map (encode_base100 neg) (pairs (0 # ds))"
proof -
  assume len: "length ds = 2 * n + 1"
  then obtain d ds' where ds: "ds = d # ds'" "length ds' = 2 * n" by (cases ds) auto
  have "encode_mantissa neg False n (ds' @ junk) = encode_mantissa neg False n ds'"
    using ds(2)
  proof (induction n arbitrary: ds')
    case (Suc n)
    then obtain d1 d2 es where "ds' = d1 # d2 # es" "length es = 2 * n"
      by (metis (no_types, opaque_lifting) add_Suc_right length_Suc_conv mult_2 mult_Suc_right add_2_eq_Suc)
    with Suc.IH show ?case by simp
  qed simp
  with ds show ?thesis by (simp add: encode_mantissa_pairs encode_base100_def Let_def)
qed

lemma val100_pairs:
  "even (length ds) \<Longrightarrow> val100 v (pairs ds) = v * 10 ^ length ds + val10 ds \<and> length (pairs ds) = length ds div 2"
proof (induction ds arbitrary: v rule: pairs.induct)
  case (1 d1 d2 ds)
  have "val10 (d1 # d2 # ds) = (d1 * 10 + d2) * 10 ^ length ds + val10 ds"
    using val10_append [of "[d1, d2]" ds] by (simp add: val10_def)
  with 1 show ?case by (simp add: val100_def algebra_simps)
qed (simp_all add: val100_def)

lemma pairs_less_100: "digits_ok ds \<Longrightarrow> m \<in> set (pairs ds) \<Longrightarrow> m < 100"
  by (induction ds rule: pairs.induct) auto

lemma unat_u8_of_nat: "n < 256 \<Longrightarrow> unat (of_nat n :: u8) = n"
  by (simp add: unat_of_nat)

lemma encode_base100_inv:
  assumes "m < 100"
  shows "base100 (\<not> neg) (encode_base100 neg m) = m"
    and "base100_ok (\<not> neg) (encode_base100 neg m)"
    and "neg \<Longrightarrow> encode_base100 neg m \<noteq> 102"
proof -
  define k where "k = (if neg then 101 - m else m + 1)"
  have "k < 256" using assms by (auto simp: k_def)
  moreover have "encode_base100 neg m = of_nat k" by (simp only: encode_base100_def k_def)
  ultimately have *: "unat (encode_base100 neg m) = k" by (simp only: unat_u8_of_nat)
  show "base100 (\<not> neg) (encode_base100 neg m) = m"
    and "base100_ok (\<not> neg) (encode_base100 neg m)"
    unfolding base100_def base100_ok_def * using assms by (auto simp: k_def)
  show "encode_base100 neg m \<noteq> 102" if neg
  proof
    assume "encode_base100 neg m = 102"
    then have "k = 102" using * by simp
    then show False using that by (simp add: k_def)
  qed
qed

text \<open>The exponent byte, over the range of exponents the bounds check leaves.\<close>

definition exponent_byte_ok :: "bool \<Rightarrow> int \<Rightarrow> bool" where
  "exponent_byte_ok neg e \<longleftrightarrow>
     (let x = (word_of_int (e + 192) :: i8); b = (if neg then NOT x else x)
      in (b AND 0x80 \<noteq> 0 \<longleftrightarrow> \<not> neg) \<and> int (unat (if neg then NOT b else b)) = e + 192)"

lemma exponent_bytes: "list_all (\<lambda>e. exponent_byte_ok False e \<and> exponent_byte_ok True e) [-64..63]"
  by code_simp

lemma exponent_byte:
  assumes "-64 \<le> e" "e \<le> 63"
  shows "exponent_byte_ok neg e"
proof -
  have "e \<in> set [-64..63]" using assms by (simp only: set_upto atLeastAtMost_iff)
  then have "exponent_byte_ok False e \<and> exponent_byte_ok True e"
    using exponent_bytes unfolding list_all_iff by blast
  then show ?thesis by (cases neg) simp_all
qed

lemma smod2_odd: "p smod 2 = (1::int) \<longleftrightarrow> 0 \<le> p \<and> odd p"
  by (auto simp: signed_modulo_int_def minus_mod_int_eq odd_iff_mod_2_eq_one
      split: if_splits simp: sgn_if abs_if)

lemma sdiv2: "(p :: int) sdiv 2 = (if p < 0 then - (- p div 2) else p div 2)"
  by (simp add: signed_divide_int_def sgn_if)

definition wire_of :: "bool \<Rightarrow> int \<Rightarrow> nat list \<Rightarrow> u8 list" where
  "wire_of neg q ds =
     (let x = (word_of_int (q + 192) :: i8)
      in (if neg then NOT x else x) # map (encode_base100 neg) (pairs ds)
         @ (if neg \<and> length ds div 2 < 20 then [102] else []))"

lemma pairs_not_Nil: "even (length ds) \<Longrightarrow> ds \<noteq> [] \<Longrightarrow> pairs ds \<noteq> []"
  by (cases ds rule: pairs.cases) auto

lemma wire_of_parts:
  assumes "digits_ok ds" "even (length ds)" "ds \<noteq> []" "-64 \<le> q" "q \<le> 63"
  shows "wire_positive (wire_of neg q ds) \<longleftrightarrow> \<not> neg"
    and "wire_exponent (wire_of neg q ds) = q - 1"
    and "wire_mantissa (wire_of neg q ds) = map (encode_base100 neg) (pairs ds)"
proof -
  define b where "b = (if neg then NOT (word_of_int (q + 192)) else (word_of_int (q + 192) :: i8))"
  have hd: "wire_of neg q ds ! 0 = b"
    by (simp only: wire_of_def Let_def b_def nth_Cons_0)
  have e: "b AND 0x80 \<noteq> 0 \<longleftrightarrow> \<not> neg" "int (unat (if neg then NOT b else b)) = q + 192"
    using exponent_byte [OF assms(4,5), of neg]
    unfolding exponent_byte_ok_def Let_def b_def by blast+
  show pos: "wire_positive (wire_of neg q ds) \<longleftrightarrow> \<not> neg"
    using e(1) by (simp only: wire_positive_def hd)
  show "wire_exponent (wire_of neg q ds) = q - 1"
    unfolding wire_exponent_def pos hd using e(2) by (cases neg) simp_all
  have ne: "pairs ds \<noteq> []" by (rule pairs_not_Nil) (use assms in simp_all)
  have "encode_base100 neg (last (pairs ds)) \<noteq> 102" if neg
    by (rule encode_base100_inv(3)) (use that ne assms(1) in \<open>simp_all add: pairs_less_100\<close>)
  then show "wire_mantissa (wire_of neg q ds) = map (encode_base100 neg) (pairs ds)"
    unfolding wire_mantissa_def pos using ne
    by (auto simp: wire_of_def Let_def last_map butlast_append)
qed

lemma wire_of_value:
  assumes "digits_ok ds" "even (length ds)" "ds \<noteq> []" "-64 \<le> q" "q \<le> 63"
  shows "wire_ok (wire_of neg q ds)"
    and "wire_value (wire_of neg q ds) = (if neg then -1 else 1) * sem ds (2 * q)"
proof -
  note parts = wire_of_parts [OF assms]
  have ms: "map (base100 (\<not> neg)) (map (encode_base100 neg) (pairs ds)) = pairs ds"
    using encode_base100_inv(1) pairs_less_100 [OF assms(1)] by (simp add: map_idI)
  have "list_all (base100_ok (\<not> neg)) (map (encode_base100 neg) (pairs ds))"
    using encode_base100_inv(2) pairs_less_100 [OF assms(1)] by (auto simp: list_all_iff)
  moreover have "length (wire_of neg q ds) \<noteq> 1"
    using pairs_not_Nil [OF assms(2,3)] by (simp add: wire_of_def Let_def)
  moreover have "wire_of neg q ds \<noteq> []" by (simp add: wire_of_def Let_def)
  ultimately show "wire_ok (wire_of neg q ds)"
    by (simp add: wire_ok_def parts)
  have len: "length (pairs ds) = length ds div 2" and v: "val100 0 (pairs ds) = val10 ds"
    using val100_pairs [OF assms(2), of 0] by simp_all
  have "power_int (100::rat) (q - int (length ds div 2)) = power_int (10 ^ 2) (q - int (length ds div 2))"
    by simp
  also have "\<dots> = power_int 10 (2 * (q - int (length ds div 2)))"
    by (simp only: power_int_power of_nat_numeral)
  also have "2 * (q - int (length ds div 2)) = 2 * q - int (length ds)"
    using assms(2) by (auto elim!: evenE)
  finally show "wire_value (wire_of neg q ds) = (if neg then -1 else 1) * sem ds (2 * q)"
    unfolding wire_value_def parts Let_def ms length_map len v sem_def by simp
qed

text \<open>
  The encoder's exponent rounds the wrong way for a negative odd decimal point index: Rust's
  remainder of a negative odd number by 2 is -1, so no zero is prepended.
\<close>

definition encode_scale :: "int \<Rightarrow> rat" where
  "encode_scale p = (if p < 0 \<and> odd p then 10 else 1)"

definition pad_even :: "nat list \<Rightarrow> nat list" where
  "pad_even ds = (if length ds mod 2 = 1 then ds @ [0] else ds)"

lemma pad_even [simp]:
  "even (length (pad_even ds))" "sem (pad_even ds) p = sem ds p"
  "digits_ok (pad_even ds) \<longleftrightarrow> digits_ok ds" "pad_even ds = [] \<longleftrightarrow> ds = []"
  by (auto simp: pad_even_def sem_snoc0 odd_iff_mod_2_eq_one [symmetric])

lemma encode_digits_even:
  assumes "\<not> (0 \<le> p \<and> odd p)" "length ds \<le> 40" "p \<le> 126" "-129 \<le> p" "ds \<noteq> []"
  shows "encode_digits neg ds p = Inr (wire_of neg (p sdiv 2) (pad_even ds))"
proof -
  have np: "(p smod 2 = 1) = False" using assms(1) by (simp add: smod2_odd)
  have bnd: "(MAX_DIGITS < length ds \<or> 126 < p \<or> p < -129) = False" "(ds = []) = False"
    using assms(2-5) by (auto simp: MAX_DIGITS_def)
  have "encode_mantissa neg False (length (pad_even ds) div 2) (pad_even ds)
    = map (encode_base100 neg) (pairs (pad_even ds))"
    by (rule encode_mantissa_pairs) simp
  then show ?thesis
    unfolding encode_digits_def Let_def np bnd if_False wire_of_def pad_even_def [symmetric]
    by (simp only: append_Cons)
qed

lemma pad_even_odd:
  obtains es where "pad_even (ds @ [0]) = es @ [0]" "odd (length es)" "sem es p = sem ds p"
    "digits_ok es \<longleftrightarrow> digits_ok ds"
proof (cases "even (length ds)")
  case True
  then have "pad_even (ds @ [0]) = (ds @ [0]) @ [0]" by (auto simp: pad_even_def elim!: evenE)
  then show ?thesis using True by (intro that [of "ds @ [0]"]) (simp_all add: sem_snoc0)
next
  case False
  then have "pad_even (ds @ [0]) = ds @ [0]" by (auto simp: pad_even_def elim!: oddE)
  then show ?thesis using False by (intro that [of ds]) simp_all
qed

lemma sem_Cons0: "sem (0 # ds) (p + 1) = sem ds p"
  by (simp add: sem_def)

lemma encode_digits_odd:
  assumes "0 \<le> p" "odd p" "length ds \<le> 40" "p \<le> 126" "ds \<noteq> []"
    and es: "pad_even (ds @ [0]) = es @ [0]" "odd (length es)"
  shows "encode_digits neg ds p = Inr (wire_of neg ((p + 1) sdiv 2) (0 # es))"
proof -
  have np: "(p smod 2 = 1) = True" using assms(1,2) by (simp add: smod2_odd)
  have bnd: "(MAX_DIGITS < length ds \<or> 126 < p \<or> p < -129) = False" "(ds = []) = False"
    using assms(1-5) by (auto simp: MAX_DIGITS_def)
  obtain n where n: "length es = 2 * n + 1" using es(2) by (auto elim: oddE)
  have "encode_mantissa neg True (length (es @ [0]) div 2) (es @ [0])
    = map (encode_base100 neg) (pairs (0 # es))"
    using encode_mantissa_single [OF n, of neg "[0]"] n by simp
  moreover have "length (es @ [0]) = length (0 # es)" by simp
  ultimately show ?thesis
    unfolding encode_digits_def Let_def np bnd if_False if_True wire_of_def pad_even_def [symmetric] es(1)
    by (simp only: append_Cons)
qed

theorem encode_digits_value:
  assumes "encode_digits neg ds p = Inr w" "ds \<noteq> []" "digits_ok ds"
  shows "wire_ok w \<and> wire_value w = (if neg then -1 else 1) * sem ds p * encode_scale p"
proof -
  have bnd: "p \<le> 126" "-129 \<le> p" and len: "length ds \<le> 40"
    using assms(1) by (auto simp: encode_digits_def MAX_DIGITS_def split: if_splits)
  show ?thesis
  proof (cases "0 \<le> p \<and> odd p")
    case True
    obtain es where es: "pad_even (ds @ [0]) = es @ [0]" "odd (length es)" "sem es p = sem ds p"
      "digits_ok es \<longleftrightarrow> digits_ok ds" by (rule pad_even_odd)
    define q where "q = (p + 1) sdiv 2"
    have q: "2 * q = p + 1" "-64 \<le> q" "q \<le> 63"
      using True bnd by (auto simp: q_def sdiv2 elim!: oddE)
    have w: "w = wire_of neg q (0 # es)"
      using encode_digits_odd [OF _ _ len bnd(1) assms(2) es(1,2)] True assms(1) by (simp add: q_def)
    have "sem (0 # es) (2 * q) = sem ds p" unfolding q(1) sem_Cons0 by (rule es(3))
    then show ?thesis
      using wire_of_value [of "0 # es" q neg] es assms(3) q True by (simp add: w encode_scale_def)
  next
    case False
    define q where "q = p sdiv 2"
    have q: "-64 \<le> q" "q \<le> 63" using bnd by (auto simp: q_def sdiv2)
    have w: "w = wire_of neg q (pad_even ds)"
      using encode_digits_even [OF False len bnd assms(2)] assms(1) by (simp add: q_def)
    have "2 * q = (if p < 0 \<and> odd p then p + 1 else p)"
      using False by (simp add: q_def sdiv2) presburger
    moreover have "sem ds (p + 1) = sem ds p * 10"
      using power_int_add_1 [of "10 :: rat" "p - int (length ds)"] by (simp add: sem_def algebra_simps)
    ultimately have "sem ds (2 * q) = sem ds p * encode_scale p"
      by (simp add: encode_scale_def)
    then show ?thesis
      using wire_of_value [of "pad_even ds" q neg] assms(2,3) q by (simp add: w mult.assoc)
  qed
qed

end
