(* ===== verification/NumberLaws.thy ===== *)
theory NumberLaws
  imports OraNumber
begin

section \<open>Correctness of the NUMBER codec\<close>

text \<open>
  The decoder's digit loop as arithmetic on its state, the decimal text it prints, and the
  properties of \<open>decode_oracle_number\<close> and \<open>encode_oracle_number\<close> against \<open>wire_value\<close>
  and \<open>decimal_value\<close>.
\<close>

subsection \<open>The mantissa loop\<close>

text \<open>A pair moves the value two places; the last pair may drop a trailing zero.\<close>

lemma decode_value:
  assumes "base100_ok pos b"
  shows "unat (if pos then b - 1 else 101 - b) = base100 pos b" and "base100 pos b < 100"
proof -
  have "unat (b - 1) = unat b - 1" if "1 \<le> unat b"
    using that by (simp add: unat_sub word_le_nat_alt)
  moreover have "unat (101 - b) = 101 - unat b" if "unat b \<le> 101"
    using that by (simp add: unat_sub word_le_nat_alt)
  ultimately show "unat (if pos then b - 1 else 101 - b) = base100 pos b"
    using assms by (auto simp: base100_ok_def base100_def split: if_splits)
  show "base100 pos b < 100"
    using assms by (auto simp: base100_ok_def base100_def split: if_splits)
qed

lemma decode_pair_spec:
  assumes "base100_ok pos b" "digits_ok ds" "decode_pair pos fin b (ds, p) = (ds', p')"
  shows "digits_ok ds'"
    and "\<not> fin \<Longrightarrow> val10 ds' = 100 * val10 ds + base100 pos b \<and> p' - int (length ds') = p - int (length ds) - 2"
    and "sem ds' p' = of_nat (100 * val10 ds + base100 pos b) * power_int 10 (p - int (length ds) - 2)"
proof -
  define m where "m = base100 pos b"
  have m: "unat (if pos then b - 1 else 101 - b) = m" "m < 100"
    using decode_value [OF assms(1)] by (simp_all add: m_def)
  have div: "m div 10 < 10" "m mod 10 < 10" "m = 10 * (m div 10) + m mod 10" "m div 10 \<noteq> 10"
    using m(2) by auto
  define es q where "es = (if m div 10 = 0 \<and> ds = [] then ds else ds @ [m div 10])"
    and "q = (if m div 10 = 0 \<and> ds = [] then p - 1 else p)"
  have r: "ds' = (if m mod 10 \<noteq> 0 \<or> \<not> fin then es @ [m mod 10] else es)" "p' = q"
    using assms(3) div(4) by (auto simp: decode_pair_def Let_def m es_def q_def split: if_splits)
  have es: "digits_ok es" "val10 es = 10 * val10 ds + m div 10" "q - int (length es) = p - int (length ds) - 1"
    using assms(2) div(1) by (auto simp: es_def q_def)
  show "digits_ok ds'" using r es div by simp
  have full: "val10 (es @ [m mod 10]) = 100 * val10 ds + m" 
    "q - int (length (es @ [m mod 10])) = p - int (length ds) - 2"
    using es div(3) by simp_all
  show "val10 ds' = 100 * val10 ds + base100 pos b \<and> p' - int (length ds') = p - int (length ds) - 2"
    if "\<not> fin"
    using full that by (simp only: r m_def [symmetric]) simp
  have "sem ds' p' = sem (es @ [m mod 10]) q"
    using r sem_snoc0 [of es q] by auto
  also have "\<dots> = of_nat (100 * val10 ds + m) * power_int 10 (p - int (length ds) - 2)"
    by (simp only: sem_def full)
  finally show "sem ds' p' = of_nat (100 * val10 ds + base100 pos b) * power_int 10 (p - int (length ds) - 2)"
    by (simp only: m_def)
qed

lemma decode_mantissa_spec:
  assumes "list_all (base100_ok pos) bs" "digits_ok ds" "decode_mantissa pos bs (ds, p) = (ds', p')"
  shows "digits_ok ds' \<and> sem ds' p' = of_nat (val100 (val10 ds) (map (base100 pos) bs))
    * power_int 10 (p - int (length ds) - 2 * int (length bs))"
  using assms
proof (induction bs arbitrary: ds p)
  case Nil
  then show ?case by (simp add: sem_def val100_def)
next
  case (Cons b bs)
  obtain es q where eq: "decode_pair pos (bs = []) b (ds, p) = (es, q)" by fastforce
  have b: "base100_ok pos b" using Cons.prems(1) by simp
  note s = decode_pair_spec [OF b Cons.prems(2) eq]
  show ?case
  proof (cases "bs = []")
    case True
    then show ?thesis using s(1,3) Cons.prems(3) eq by (simp add: val100_def)
  next
    case False
    have rec: "decode_mantissa pos bs (es, q) = (ds', p')" using Cons.prems(3) eq by simp
    have "list_all (base100_ok pos) bs" using Cons.prems(1) by simp
    from Cons.IH [OF this s(1) rec] s(2) [OF False] show ?thesis
      by (simp add: val100_def algebra_simps)
  qed
qed

subsection \<open>The printed text\<close>

lemma digits_of_text [simp]:
  "digits_ok ds \<Longrightarrow> list_all is_digit_char (map digit_char_of ds)"
  "digits_ok ds \<Longrightarrow> nat_of_digits 0 (map digit_char_of ds) = val10 ds"
  by (induction ds) (simp_all add: list_all_iff nat_of_digits_val10 o_def map_idI digits_ok_def)

lemma digit_value_text: "digits_ok ds \<Longrightarrow> map (digit_value \<circ> digit_char_of) ds = ds"
  by (simp add: map_idI digits_ok_def list_all_iff)

lemma digit_value_0: "digit_value (CHR ''0'') = 0"
  by code_simp

lemma digit_char_of_0 [simp]: "digit_char_of 0 = CHR ''0''"
  by code_simp

lemma list_all_takeWhile: "list_all P i \<Longrightarrow> takeWhile P (i @ s) = i @ takeWhile P s"
  "list_all P i \<Longrightarrow> dropWhile P (i @ s) = dropWhile P s"
  by (induction i) simp_all

lemma digits_hd: "list_all is_digit_char i \<Longrightarrow> i \<noteq> [] \<Longrightarrow> hd (i @ s) \<noteq> CHR ''-''"
  by (cases i) (auto simp: is_digit_char_def)

lemma decimal_value_text:
  assumes "list_all is_digit_char i" "list_all is_digit_char f" "i \<noteq> []"
  shows "decimal_value ((if neg then ''-'' else []) @ i @ (if dot then CHR ''.'' # f else []))
    = Some ((if neg then -1 else 1) * of_nat (nat_of_digits 0 (i @ (if dot then f else [])))
        * power_int 10 (- int (if dot then length f else 0)))"
proof -
  have nd: "\<not> is_digit_char (CHR ''.'')" "\<not> is_digit_char (CHR ''-'')"
    by (simp_all add: is_digit_char_def)
  have hd: "hd (i @ s) \<noteq> CHR ''-''" for s
    by (rule digits_hd) (rule assms)+
  define t where "t = i @ (if dot then CHR ''.'' # f else [])"
  have f: "takeWhile is_digit_char f = f" "dropWhile is_digit_char f = []"
    using list_all_takeWhile [OF assms(2), of "[]"] by simp_all
  have i: "takeWhile is_digit_char i = i" "dropWhile is_digit_char i = []"
    using list_all_takeWhile [OF assms(1), of "[]"] by simp_all
  have neg: "((if neg then ''-'' else []) @ t \<noteq> [] \<and> hd ((if neg then ''-'' else []) @ t) = CHR ''-'') = neg"
    using hd assms(3) by (auto simp: t_def)
  have tl: "(if neg then tl ((if neg then ''-'' else []) @ t) else (if neg then ''-'' else []) @ t) = t"
    by simp
  show ?thesis
    unfolding decimal_value_def Let_def t_def [symmetric] neg tl
    unfolding t_def
    by (cases dot) (simp_all add: list_all_takeWhile assms nd frac_text_def f i exponent_value_def)
qed

definition digits_body :: "int \<Rightarrow> nat list \<Rightarrow> string" where
  "digits_body p ds =
     concat (map (\<lambda>i. (if 0 < i \<and> int i = p then ''.'' else []) @ [digit_char_of (ds ! i)]) [0..<length ds])"

lemma digits_body_simps [simp]:
  "digits_body p [] = []"
  "digits_body p (ds @ [d]) =
     digits_body p ds @ (if 0 < length ds \<and> int (length ds) = p then ''.'' else []) @ [digit_char_of d]"
proof -
  show "digits_body p [] = []" by (simp add: digits_body_def)
  define f where "f xs i = (if 0 < i \<and> int i = p then ''.'' else []) @ [digit_char_of (xs ! i)]"
    for xs :: "nat list" and i
  have body: "digits_body p xs = concat (map (f xs) [0..<length xs])" for xs
    by (simp only: digits_body_def f_def [abs_def])
  have "map (f (ds @ [d])) [0..<length ds] = map (f ds) [0..<length ds]"
    by (rule map_cong) (auto simp: f_def nth_append)
  then have "concat (map (f (ds @ [d])) [0..<length ds]) = concat (map (f ds) [0..<length ds])"
    by (rule arg_cong)
  then show "digits_body p (ds @ [d]) =
     digits_body p ds @ (if 0 < length ds \<and> int (length ds) = p then ''.'' else []) @ [digit_char_of d]"
    unfolding body by (simp only: length_append_singleton upt_Suc map_append concat_append) (simp add: f_def)
qed

lemma digits_body_shape:
  assumes "0 < p"
  shows "digits_body p ds =
    (if length ds \<le> nat p then map digit_char_of ds
     else map digit_char_of (take (nat p) ds) @ CHR ''.'' # map digit_char_of (drop (nat p) ds))"
proof (induction ds rule: rev_induct)
  case (snoc d ds)
  with assms show ?case by (cases "length ds < nat p"; cases "length ds = nat p") auto
qed simp

lemma digits_text_value:
  assumes "digits_ok ds" "digits_text ds p = (body, b)"
  shows "body \<noteq> [] \<and> hd body \<noteq> CHR ''-'' \<and> decimal_value ((if neg then ''-'' else []) @ body) = Some ((if neg then -1 else 1) * sem ds p)"
proof -
  have zeros: "list_all is_digit_char (replicate n (CHR ''0''))"
    "nat_of_digits 0 (xs @ replicate n (CHR ''0'')) = nat_of_digits 0 xs * 10 ^ n" for n xs
    by (simp_all add: list_all_iff is_digit_char_def nat_of_digits_val10 val10_append digit_value_def)
  show ?thesis
  proof (cases "p \<le> 0")
    case True
    define f where "f = replicate (nat (- p)) (CHR ''0'') @ map digit_char_of ds"
    have body: "body = ''0'' @ CHR ''.'' # f"
      using assms(2) True by (auto simp: digits_text_def f_def)
    have f: "list_all is_digit_char f" using zeros assms(1) by (simp add: f_def)
    have "nat_of_digits 0 (''0'' @ f) = val10 ds" "int (length f) = int (length ds) - p"
      using assms(1) True
      by (simp_all add: f_def nat_of_digits_val10 val10_append digit_value_0 digit_value_text)
    then show ?thesis
      using decimal_value_text [of "''0''" f neg True] f body
      by (simp add: sem_def is_digit_char_def)
  next
    case False
    define z where "z = replicate (nat p - length ds) (CHR ''0'')"
    have body: "body = digits_body p ds @ z"
      using assms(2) False by (simp add: digits_text_def digits_body_def z_def)
    show ?thesis
    proof (cases "length ds \<le> nat p")
      case True
      have b: "body = map digit_char_of ds @ z" "body \<noteq> []"
        using body True False by (auto simp: digits_body_shape z_def)
      have "power_int (10::rat) (p - int (length ds)) = 10 ^ (nat p - length ds)"
        using True False by (simp add: power_int_def nat_diff_distrib)
      then have "of_nat (nat_of_digits 0 body) = sem ds p"
        using assms(1) by (simp add: b(1) sem_def zeros(2) z_def)
      then show ?thesis
        using decimal_value_text [of body "[]" neg False] digits_hd [of body "[]"] assms(1) zeros(1) b z_def
        by simp
    next
      case ge: False
      define i f where "i = take (nat p) ds" and "f = drop (nat p) ds"
      have ds: "ds = i @ f" by (simp add: i_def f_def)
      have b: "body = map digit_char_of i @ CHR ''.'' # map digit_char_of f" "i \<noteq> []"
        using body ge False by (auto simp: digits_body_shape z_def i_def f_def)
      have ok: "digits_ok i" "digits_ok f" using assms(1) by (simp_all add: ds)
      have "int (length f) = int (length ds) - p" using ge False by (simp add: f_def of_nat_diff)
      then show ?thesis
        using decimal_value_text [of "map digit_char_of i" "map digit_char_of f" neg True] ok b
          digits_of_text(2) [OF assms(1)] digits_hd [of "map digit_char_of i"]
        by (simp add: sem_def ds)
    qed
  qed
qed

subsection \<open>Decoding is exact\<close>

lemma decode_number_value:
  assumes ok: "wire_ok data"
  shows "\<exists>n. decode_oracle_number data = Inr n \<and> \<not> on_is_max_negative n
    \<and> decimal_value (on_value n) = Some (wire_value data)"
proof (cases "length data = 1")
  case True
  then have pos: "wire_positive data" using ok by (simp add: wire_ok_def)
  have "wire_value data = 0"
    using True pos by (auto simp: wire_value_def wire_mantissa_def val100_def length_Suc_conv)
  moreover have "decimal_value ''0'' = Some 0" by code_simp
  moreover have "decode_oracle_number data = Inr (number_new ''0'')"
    using True pos by (auto simp: decode_oracle_number_def wire_positive_def Let_def)
  ultimately show ?thesis by (simp add: number_new_def)
next
  case False
  define pos where "pos = wire_positive data"
  define e where "e = wire_exponent data"
  define m where "m = wire_mantissa data"
  have ne: "data \<noteq> []" and m: "list_all (base100_ok pos) m"
    using ok by (simp_all add: wire_ok_def m_def pos_def)
  obtain ds0 p where dm: "decode_mantissa pos m ([], e * 2 + 2) = (ds0, p)" by fastforce
  define ds where "ds = strip_zeros p ds0"
  obtain body b where bd: "digits_text ds p = (body, b)" by fastforce
  note s = decode_mantissa_spec [OF m _ dm]
  have dok: "digits_ok ds"
    using s digits_ok_subset [OF strip_zeros_set] by (simp add: ds_def)
  have "power_int (100::rat) (e + 1 - int (length m)) = power_int (10 ^ 2) (e + 1 - int (length m))"
    by simp
  also have "\<dots> = power_int 10 (2 * (e + 1 - int (length m)))"
    by (simp only: power_int_power of_nat_numeral)
  finally have "sem ds p * (if pos then 1 else -1) = wire_value data"
    using s unfolding wire_value_def Let_def pos_def [symmetric] e_def [symmetric] m_def [symmetric]
    by (simp add: ds_def sem_strip_zeros algebra_simps)
  moreover have "(if pos then 1 else -1) = (if \<not> pos then -1 else (1 :: rat))" by simp
  ultimately have val: "body \<noteq> []" "hd body \<noteq> CHR ''-''"
    "decimal_value ((if \<not> pos then ''-'' else []) @ body) = Some (wire_value data)"
    using digits_text_value [OF dok bd, of "\<not> pos"] by (simp_all add: mult.commute)
  have tk: "take (if \<not> pos \<and> 1 < length data \<and> last data = 102 then length data - 2 else length data - 1)
      (tl data) = m"
    by (auto simp: m_def wire_mantissa_def pos_def butlast_conv_take numeral_2_eq_2)
  have e: "(if pos then int (unat (data ! 0)) - 193 else int (unat (NOT (data ! 0))) - 193) = e"
    by (simp add: e_def wire_exponent_def pos_def)
  have sign: "(if pos then [] else ''-'') = (if \<not> pos then ''-'' else [])" by simp
  have nonempty: "\<not> ((if \<not> pos then ''-'' else []) @ body = [] \<or> (if \<not> pos then ''-'' else []) @ body = ''-'')"
    using val(1,2) by auto
  have "decode_oracle_number data = Inr \<lparr>on_value = (if \<not> pos then ''-'' else []) @ body,
      on_is_integer = b, on_is_max_negative = False\<rparr>"
    unfolding decode_oracle_number_def Let_def wire_positive_def [symmetric] pos_def [symmetric] e tk dm
      prod.case ds_def [symmetric] bd sign
    by (simp only: False ne nonempty if_False)
  with val show ?thesis by simp
qed

subsection \<open>The significant digits are normalised\<close>

definition normal_digits :: "nat list \<Rightarrow> bool" where
  "normal_digits ds \<longleftrightarrow> digits_ok ds \<and> (ds \<noteq> [] \<longrightarrow> hd ds \<noteq> 0)"

lemma normal_digits_snoc: "normal_digits ds \<Longrightarrow> d < 10 \<Longrightarrow> ds \<noteq> [] \<or> d \<noteq> 0 \<Longrightarrow> normal_digits (ds @ [d])"
  by (cases ds) (auto simp: normal_digits_def)

lemma int_digits_normal: "int_digits ds s = Inr (ds', r) \<Longrightarrow> normal_digits ds \<Longrightarrow> normal_digits ds'"
proof (induction ds s rule: int_digits.induct)
  case (2 ds b bs)
  then show ?case
    using normal_digits_snoc [of ds "digit_value b"] by (auto simp: digit_value_less split: if_splits)
qed simp

lemma frac_digits_normal: "frac_digits ds p s = Inr (ds', p', r) \<Longrightarrow> normal_digits ds \<Longrightarrow> normal_digits ds'"
proof (induction ds p s rule: frac_digits.induct)
  case (2 ds p b bs)
  then show ?case
    using normal_digits_snoc [of ds "digit_value b"] by (auto simp: digit_value_less split: if_splits)
qed simp

lemma strip_trailing_normal: "normal_digits ds \<Longrightarrow> normal_digits (strip_trailing ds)"
proof -
  assume n: "normal_digits ds"
  obtain k where k: "ds = strip_trailing ds @ replicate k 0" using strip_trailing_eq by blast
  have "hd ds = hd (strip_trailing ds)" if "strip_trailing ds \<noteq> []"
    using k that by (metis hd_append2)
  moreover have "ds \<noteq> []" if "strip_trailing ds \<noteq> []"
    using k that by (metis append_is_Nil_conv)
  moreover have "digits_ok (strip_trailing ds)"
    using n digits_ok_subset [OF strip_trailing_set] by (simp add: normal_digits_def)
  ultimately show "normal_digits (strip_trailing ds)"
    using n by (auto simp: normal_digits_def)
qed

lemma parse_number_normal:
  assumes "parse_number s = Inr (neg, ds, p)"
  shows "normal_digits ds"
proof -
  define n where "n \<longleftrightarrow> s \<noteq> [] \<and> hd s = CHR ''-''"
  define t where "t = (if n then tl s else s)"
  obtain ds0 rest ds1 p1 r where
    ints: "int_digits [] t = Inr (ds0, rest)" and frac: "frac_part ds0 rest = Inr (ds1, p1, r)"
    and ds: "ds = strip_trailing ds1"
    using assms [unfolded parse_number_def Let_def, folded n_def, folded t_def]
    by (auto simp: res_bind_Inr_iff)
  have "normal_digits ds0"
    using int_digits_normal [OF ints] by (simp add: normal_digits_def)
  then have "normal_digits ds1"
    using frac frac_digits_normal by (auto simp: frac_part_def split: list.splits if_splits)
  then show ?thesis by (simp add: ds strip_trailing_normal)
qed

lemma val10_less: "digits_ok ds \<Longrightarrow> val10 ds < 10 ^ length ds"
  by (induction ds rule: rev_induct) auto

lemma val10_ge: "hd ds \<noteq> 0 \<Longrightarrow> ds \<noteq> [] \<Longrightarrow> 10 ^ (length ds - 1) \<le> val10 ds"
proof (cases ds)
  case (Cons d es)
  assume "hd ds \<noteq> 0"
  then have "10 ^ length es \<le> d * 10 ^ length es" using Cons by simp
  also have "\<dots> \<le> val10 ds"
    using val10_append [of "[d]" es] Cons by simp
  finally show ?thesis using Cons by simp
qed simp

lemma sem_bounds:
  assumes "normal_digits ds"
  shows "sem ds p < power_int 10 p" and "ds \<noteq> [] \<Longrightarrow> power_int 10 (p - 1) \<le> sem ds p"
proof -
  define k where "k = int (length ds)"
  have pos: "(0 :: rat) < power_int 10 (p - k)" by simp
  have "(of_nat (val10 ds) :: rat) < of_nat (10 ^ length ds)"
    using val10_less assms by (simp only: of_nat_less_iff normal_digits_def)
  then have "sem ds p < of_nat (10 ^ length ds) * power_int 10 (p - k)"
    unfolding sem_def k_def [symmetric] using pos by (rule mult_strict_right_mono)
  also have "\<dots> = power_int 10 k * power_int 10 (p - k)" by (simp add: k_def)
  also have "\<dots> = power_int 10 p" by (simp flip: power_int_add)
  finally show "sem ds p < power_int 10 p" .
  assume ne: "ds \<noteq> []"
  then have "(of_nat (10 ^ (length ds - 1)) :: rat) \<le> of_nat (val10 ds)"
    using val10_ge [of ds] assms by (simp add: normal_digits_def del: of_nat_power)
  then have "of_nat (10 ^ (length ds - 1)) * power_int 10 (p - k) \<le> sem ds p"
    unfolding sem_def k_def [symmetric] using pos by (intro mult_right_mono) simp_all
  moreover have "(of_nat (10 ^ (length ds - 1)) :: rat) = power_int 10 (k - 1)"
    using ne by (cases ds) (simp_all add: k_def)
  moreover have "power_int (10 :: rat) (k - 1) * power_int 10 (p - k) = power_int 10 (p - 1)"
    by (simp flip: power_int_add)
  ultimately show "power_int 10 (p - 1) \<le> sem ds p" by simp
qed

lemma encode_number_parts:
  assumes val: "decimal_value (str_trim s) = Some v" and enc: "encode_oracle_number s = Inr w"
  obtains neg ds p where "normal_digits ds" "v = (if neg then -1 else 1) * sem ds p"
    "encode_digits neg ds p = Inr w" "wire_ok w" "wire_value w = encode_scale p * v"
proof -
  obtain neg ds p where parse: "parse_number (str_trim s) = Inr (neg, ds, p)"
    and e: "encode_digits neg ds p = Inr w"
    using enc by (auto simp: encode_oracle_number_def Let_def res_bind_Inr_iff split: if_splits)
  note v = parse_number_value [OF parse val]
  have "wire_ok w \<and> wire_value w = encode_scale p * v"
  proof (cases "ds = []")
    case True
    have "wire_ok [128] \<and> wire_value [128] = 0" by code_simp
    moreover have "w = [128]" using e True by (auto simp: encode_digits_def split: if_splits)
    ultimately show ?thesis using v True by (simp add: sem_def)
  next
    case False
    from encode_digits_value [OF e this] v show ?thesis by simp
  qed
  with that parse_number_normal [OF parse] v e show thesis by blast
qed

lemma power_int_10_less: "power_int (10 :: rat) m < power_int 10 n \<Longrightarrow> m < n"
  using power_int_increasing [of n m "10 :: rat"] by (meson leD le_numeral_extra(4) not_le one_le_numeral)

lemma encode_scale_1:
  assumes "normal_digits ds" "v = (if neg then -1 else 1) * sem ds p" "v = 0 \<or> 1 / 10 \<le> \<bar>v\<bar>"
  shows "encode_scale p * v = v"
proof (cases "v = 0")
  case False
  have "0 \<le> sem ds p" by (simp add: sem_def)
  then have "\<bar>v\<bar> = sem ds p" using assms(2) by (simp add: abs_mult)
  then have "power_int (10 :: rat) (-1) < power_int 10 p"
    using sem_bounds(1) [OF assms(1), of p] assms(3) False by simp
  then have "-1 < p" by (rule power_int_10_less)
  then show ?thesis by (simp add: encode_scale_def)
qed simp

subsection \<open>Properties\<close>

text \<open>
  C17: decoding is total and exact on well-formed wire forms: the text it returns denotes the
  rational number the bytes denote.
\<close>

theorem number_decode_exact:
  assumes "wire_ok data"
  shows "\<exists>n. decode_oracle_number data = Inr n \<and> \<not> on_is_max_negative n
    \<and> decimal_value (on_value n) = Some (wire_value data)"
  by (rule decode_number_value [OF assms])

theorem number_decode_exact_witness:
  "wire_ok [60, 89, 57, 102]
   \<and> (\<exists>n. decode_oracle_number [60, 89, 57, 102] = Inr n \<and> \<not> on_is_max_negative n
      \<and> decimal_value (on_value n) = Some (wire_value [60, 89, 57, 102]))"
proof -
  have "wire_ok [60, 89, 57, 102]" by code_simp
  with number_decode_exact show ?thesis by blast
qed

text \<open>
  C18: encoding is exact for zero and for every number of absolute value at least 0.1: what the
  encoder writes is a well-formed wire form of the number the text denotes.
\<close>

theorem number_encode_exact:
  assumes "decimal_value (str_trim s) = Some v" "encode_oracle_number s = Inr w"
    and "v = 0 \<or> 1 / 10 \<le> \<bar>v\<bar>"
  shows "wire_ok w \<and> wire_value w = v"
proof -
  obtain neg ds p where "normal_digits ds" "v = (if neg then -1 else 1) * sem ds p"
    "wire_ok w" "wire_value w = encode_scale p * v"
    by (rule encode_number_parts [OF assms(1,2)])
  then show ?thesis using encode_scale_1 assms(3) by metis
qed

theorem number_encode_exact_witness:
  "wire_ok [62, 89, 46, 102] \<and> wire_value [62, 89, 46, 102] = - (1255 / 100)"
proof (rule number_encode_exact)
  show "decimal_value (str_trim '' -12.55'') = Some (- (1255 / 100))" by code_simp
  show "encode_oracle_number '' -12.55'' = Inr [62, 89, 46, 102]" by code_simp
qed simp

text \<open>
  The value round trip: decoding what was encoded gives a text with the value of the
  original text, for zero and for numbers of absolute value at least 0.1.
\<close>

theorem number_roundtrip:
  assumes "decimal_value (str_trim s) = Some v" "encode_oracle_number s = Inr w"
    and "v = 0 \<or> 1 / 10 \<le> \<bar>v\<bar>"
  shows "\<exists>n. decode_oracle_number w = Inr n \<and> decimal_value (on_value n) = Some v"
proof -
  obtain neg ds p where "normal_digits ds" "v = (if neg then -1 else 1) * sem ds p"
    and w: "wire_ok w" "wire_value w = encode_scale p * v"
    by (rule encode_number_parts [OF assms(1,2)])
  then have "wire_value w = v" using encode_scale_1 assms(3) by metis
  with decode_number_value [OF w(1)] show ?thesis by auto
qed

theorem number_roundtrip_witness:
  "\<exists>n. decode_oracle_number [193, 2, 51] = Inr n \<and> decimal_value (on_value n) = Some (15 / 10)"
proof (rule number_roundtrip)
  show "decimal_value (str_trim ''1.5'') = Some (15 / 10)" by code_simp
  show "encode_oracle_number ''1.5'' = Inr [193, 2, 51]" by code_simp
qed simp

text \<open>
  A number below 0.1 whose decimal point index is odd, such as 0.05, is encoded ten times
  too large: the test \<open>decimal_point_index % 2 == 1\<close> is never true of a negative index.
\<close>

theorem number_encode_ten_times:
  assumes "decimal_value (str_trim s) = Some v" "encode_oracle_number s = Inr w"
    and "power_int 10 (2 * k - 2) \<le> \<bar>v\<bar>" "\<bar>v\<bar> < power_int 10 (2 * k - 1)" "k \<le> 0"
  shows "wire_value w = 10 * v"
proof -
  obtain neg ds p where n: "normal_digits ds" and v: "v = (if neg then -1 else 1) * sem ds p"
    and w: "wire_value w = encode_scale p * v"
    by (rule encode_number_parts [OF assms(1,2)])
  have "0 \<le> sem ds p" by (simp add: sem_def)
  then have abs: "\<bar>v\<bar> = sem ds p" using v by (simp add: abs_mult)
  have "0 < power_int (10 :: rat) (2 * k - 2)" by simp
  then have "sem ds p \<noteq> 0" using abs assms(3) by linarith
  then have "ds \<noteq> []" by (auto simp: sem_def)
  note b = sem_bounds(1) [OF n, of p] sem_bounds(2) [OF n this, of p]
  have "power_int (10 :: rat) (2 * k - 2) < power_int 10 p" using b(1) assms(3) abs by linarith
  then have "2 * k - 2 < p" by (rule power_int_10_less)
  moreover have "power_int (10 :: rat) (p - 1) < power_int 10 (2 * k - 1)" using b(2) assms(4) abs by linarith
  then have "p - 1 < 2 * k - 1" by (rule power_int_10_less)
  ultimately have "p = 2 * k - 1" by linarith
  with assms(5) w show ?thesis by (simp add: encode_scale_def)
qed

theorem number_encode_ten_times_witness: "wire_value [192, 51] = 10 * (5 / 100)"
proof (rule number_encode_ten_times [where k = 0])
  show "decimal_value (str_trim ''0.05'') = Some (5 / 100)" by code_simp
  show "encode_oracle_number ''0.05'' = Inr [192, 51]" by code_simp
qed (simp_all add: power_int_def power2_eq_square)

end
