(* ===== verification/Checked.thy ===== *)
theory Checked
  imports Prelude "HOL-Library.Signed_Division"
begin

section \<open>Checked machine arithmetic\<close>

text \<open>
  The operators \<open>+\<close>, \<open>-\<close> and \<open>*\<close> of Rust on fixed-width integers, with overflow checks: a result
  outside the type is a panic.  Unsigned operands are words; signed ones are \<open>int\<close>s within
  the range of their type, whose \<open>/\<close> and \<open>%\<close> are \<open>sdiv\<close> and \<open>smod\<close>.
\<close>

definition add_chk :: "'a::len word \<Rightarrow> 'a word \<Rightarrow> ('e, 'a word) outcome" where
  "add_chk a b = (if unat a + unat b < 2 ^ LENGTH('a) then Inr (a + b) else Inl Panic)"

definition sub_chk :: "'a::len word \<Rightarrow> 'a word \<Rightarrow> ('e, 'a word) outcome" where
  "sub_chk a b = (if b \<le> a then Inr (a - b) else Inl Panic)"

definition mul_chk :: "'a::len word \<Rightarrow> 'a word \<Rightarrow> ('e, 'a word) outcome" where
  "mul_chk a b = (if unat a * unat b < 2 ^ LENGTH('a) then Inr (a * b) else Inl Panic)"

text \<open>A signed result of \<open>w\<close> bits.\<close>

definition signed_chk :: "nat \<Rightarrow> int \<Rightarrow> ('e, int) outcome" where
  "signed_chk w v = (if - (2 ^ (w - 1)) \<le> v \<and> v < 2 ^ (w - 1) then Inr v else Inl Panic)"

text \<open>\<open>saturating_sub\<close>.\<close>

definition sat_sub :: "'a::len word \<Rightarrow> 'a word \<Rightarrow> 'a word" where
  "sat_sub a b = (if b \<le> a then a - b else 0)"

lemma add_chk_Inr: "add_chk a b = Inr c \<longleftrightarrow> unat a + unat b < 2 ^ LENGTH('a) \<and> c = (a :: 'a::len word) + b"
  by (auto simp: add_chk_def)

lemma unat_add_chk: "unat a + unat b < 2 ^ LENGTH('a) \<Longrightarrow> unat (a + b) = unat (a :: 'a::len word) + unat b"
  by (rule unat_add_lem [THEN iffD1])

lemma unat_mul_chk: "unat a * unat b < 2 ^ LENGTH('a) \<Longrightarrow> unat (a * b) = unat (a :: 'a::len word) * unat b"
  by (rule unat_mult_lem [THEN iffD1])

lemma sat_sub_add:
  assumes "unat a + unat b < 2 ^ LENGTH('a)"
  shows "sat_sub (a + b) b = (a :: 'a::len word)"
proof -
  have "b \<le> a + b"
    using unat_add_chk [OF assms] by (simp add: word_le_nat_alt)
  then show ?thesis by (simp add: sat_sub_def)
qed

lemma signed_chk_Inr [simp]: "- (2 ^ (w - 1)) \<le> v \<Longrightarrow> v < 2 ^ (w - 1) \<Longrightarrow> signed_chk w v = Inr v"
  by (simp add: signed_chk_def)

end
