(* ===== verification/OraDate.thy ===== *)
theory OraDate
  imports Errors Checked "HOL-Library.List_Lexorder"
begin

section \<open>DATE, TIMESTAMP and INTERVAL\<close>

text \<open>
  \<open>src/src/types/date.rs\<close> and \<open>src/src/types/interval.rs\<close>: the seven to thirteen byte wire
  forms of dates and timestamps, and the excess forms of the two interval types.  A year
  (\<open>i32\<close>), the time zone offsets (\<open>i8\<close>) and the interval fields (\<open>i32\<close>) are \<open>int\<close>s.
\<close>

subsection \<open>Dates\<close>

record oracle_date =
  od_year :: int
  od_month :: u8
  od_day :: u8
  od_hour :: u8
  od_minute :: u8
  od_second :: u8

definition date_new :: "int \<Rightarrow> u8 \<Rightarrow> u8 \<Rightarrow> u8 \<Rightarrow> u8 \<Rightarrow> u8 \<Rightarrow> oracle_date" where
  "date_new year month day hour minute second =
     \<lparr>od_year = year, od_month = month, od_day = day, od_hour = hour, od_minute = minute,
      od_second = second\<rparr>"

definition date_only :: "int \<Rightarrow> u8 \<Rightarrow> u8 \<Rightarrow> oracle_date" where
  "date_only year month day = date_new year month day 0 0 0"

definition date_default :: oracle_date where
  "date_default = date_new 1 1 1 0 0 0"

definition encode_oracle_date :: "oracle_date \<Rightarrow> u8 list result" where
  "encode_oracle_date d =
     res_bind (add_chk (word_of_int (od_year d sdiv 100)) 100) (\<lambda>century.
     res_bind (add_chk (word_of_int (od_year d smod 100)) 100) (\<lambda>year_in_century.
     res_bind (add_chk (od_hour d) 1) (\<lambda>hour.
     res_bind (add_chk (od_minute d) 1) (\<lambda>minute.
     res_bind (add_chk (od_second d) 1) (\<lambda>second.
     Inr [century, year_in_century, od_month d, od_day d, hour, minute, second])))))"

text \<open>\<open>OracleDate::to_oracle_bytes\<close> has the same body.\<close>

definition date_to_oracle_bytes :: "oracle_date \<Rightarrow> u8 list result" where
  "date_to_oracle_bytes d = encode_oracle_date d"

definition decode_oracle_date :: "u8 list \<Rightarrow> oracle_date result" where
  "decode_oracle_date data =
     (if length data < 7 then
        Inl (Err (DataConversionError (''Oracle DATE requires 7 bytes, got '' @ show_nat (length data))))
      else
        let century = int (unat (data ! 0)) - 100;
            year_in_century = int (unat (data ! 1)) - 100
        in Inr \<lparr>od_year = century * 100 + year_in_century, od_month = data ! 2, od_day = data ! 3,
                od_hour = sat_sub (data ! 4) 1, od_minute = sat_sub (data ! 5) 1,
                od_second = sat_sub (data ! 6) 1\<rparr>)"

subsection \<open>Timestamps\<close>

record oracle_timestamp =
  ts_year :: int
  ts_month :: u8
  ts_day :: u8
  ts_hour :: u8
  ts_minute :: u8
  ts_second :: u8
  ts_microsecond :: u32
  ts_tz_hour_offset :: int
  ts_tz_minute_offset :: int

definition timestamp_with_timezone ::
  "int \<Rightarrow> u8 \<Rightarrow> u8 \<Rightarrow> u8 \<Rightarrow> u8 \<Rightarrow> u8 \<Rightarrow> u32 \<Rightarrow> int \<Rightarrow> int \<Rightarrow> oracle_timestamp" where
  "timestamp_with_timezone year month day hour minute second microsecond tz_hour tz_minute =
     \<lparr>ts_year = year, ts_month = month, ts_day = day, ts_hour = hour, ts_minute = minute,
      ts_second = second, ts_microsecond = microsecond, ts_tz_hour_offset = tz_hour,
      ts_tz_minute_offset = tz_minute\<rparr>"

definition timestamp_new :: "int \<Rightarrow> u8 \<Rightarrow> u8 \<Rightarrow> u8 \<Rightarrow> u8 \<Rightarrow> u8 \<Rightarrow> u32 \<Rightarrow> oracle_timestamp" where
  "timestamp_new year month day hour minute second microsecond =
     timestamp_with_timezone year month day hour minute second microsecond 0 0"

definition has_timezone :: "oracle_timestamp \<Rightarrow> bool" where
  "has_timezone t \<longleftrightarrow> ts_tz_hour_offset t \<noteq> 0 \<or> ts_tz_minute_offset t \<noteq> 0"

definition to_date :: "oracle_timestamp \<Rightarrow> oracle_date" where
  "to_date t = date_new (ts_year t) (ts_month t) (ts_day t) (ts_hour t) (ts_minute t) (ts_second t)"

definition timestamp_from_date :: "oracle_date \<Rightarrow> oracle_timestamp" where
  "timestamp_from_date d =
     timestamp_new (od_year d) (od_month d) (od_day d) (od_hour d) (od_minute d) (od_second d) 0"

definition timestamp_to_oracle_bytes :: "oracle_timestamp \<Rightarrow> u8 list result" where
  "timestamp_to_oracle_bytes t =
     res_bind (date_to_oracle_bytes (to_date t)) (\<lambda>date_bytes.
     res_bind (mul_chk (ts_microsecond t) 1000) (\<lambda>nanos.
     Inr (date_bytes @ be_bytes 4 nanos)))"

definition TZ_HOUR_OFFSET :: int where "TZ_HOUR_OFFSET = 20"
definition TZ_MINUTE_OFFSET :: int where "TZ_MINUTE_OFFSET = 60"
definition HAS_REGION_ID :: u8 where "HAS_REGION_ID = 0x80"

definition decode_oracle_timestamp :: "u8 list \<Rightarrow> oracle_timestamp result" where
  "decode_oracle_timestamp data =
     (if length data < 7 then
        Inl (Err (DataConversionError
          (''Oracle TIMESTAMP requires at least 7 bytes, got '' @ show_nat (length data))))
      else
        res_bind (decode_oracle_date data) (\<lambda>date.
        let fsecond = (if 11 \<le> length data
              then (be_word [data ! 7, data ! 8, data ! 9, data ! 10] :: u32) div 1000 else 0)
        in res_bind
             (if 13 \<le> length data \<and> data ! 11 \<noteq> 0 \<and> data ! 12 \<noteq> 0 then
                if data ! 11 AND HAS_REGION_ID \<noteq> 0
                then Inl (Err (DataConversionError ''Named timezone regions are not supported''))
                else res_bind (signed_chk 8 (sint (data ! 11) - TZ_HOUR_OFFSET)) (\<lambda>tz_hour.
                     res_bind (signed_chk 8 (sint (data ! 12) - TZ_MINUTE_OFFSET)) (\<lambda>tz_minute.
                     Inr (tz_hour, tz_minute)))
              else Inr (0, 0)) (\<lambda>(tz_hour, tz_minute).
           Inr \<lparr>ts_year = od_year date, ts_month = od_month date, ts_day = od_day date,
                ts_hour = od_hour date, ts_minute = od_minute date, ts_second = od_second date,
                ts_microsecond = fsecond, ts_tz_hour_offset = tz_hour,
                ts_tz_minute_offset = tz_minute\<rparr>)))"

definition decode_oracle_timestamp_utc :: "u8 list \<Rightarrow> oracle_timestamp result" where
  "decode_oracle_timestamp_utc data =
     res_bind (decode_oracle_timestamp data) (\<lambda>ts.
     Inr (ts\<lparr>ts_tz_hour_offset := 0, ts_tz_minute_offset := 0\<rparr>))"

definition encode_oracle_timestamp :: "oracle_timestamp \<Rightarrow> bool \<Rightarrow> u8 list result" where
  "encode_oracle_timestamp t include_tz =
     res_bind (encode_oracle_date (to_date t)) (\<lambda>date_bytes.
     res_bind (if 0 < ts_microsecond t \<or> include_tz
               then res_bind (mul_chk (ts_microsecond t) 1000) (\<lambda>nanos. Inr (be_bytes 4 nanos))
               else Inr []) (\<lambda>fraction.
     res_bind (if include_tz
               then res_bind (signed_chk 8 (ts_tz_hour_offset t + TZ_HOUR_OFFSET)) (\<lambda>h.
                    res_bind (signed_chk 8 (ts_tz_minute_offset t + TZ_MINUTE_OFFSET)) (\<lambda>m.
                    Inr [word_of_int h, word_of_int m]))
               else Inr []) (\<lambda>zone.
     Inr (date_bytes @ fraction @ zone))))"

subsection \<open>Intervals\<close>

record interval_ym =
  ym_years :: int
  ym_months :: int

record interval_ds =
  ds_days :: int
  ds_hours :: int
  ds_minutes :: int
  ds_seconds :: int
  ds_fseconds :: int

definition DURATION_MID :: int where "DURATION_MID = 0x80000000"
definition DURATION_OFFSET :: int where "DURATION_OFFSET = 60"

text \<open>\<open>as i32\<close> of an \<open>i64\<close> keeps the low 32 bits; a slice of another length is an error.\<close>

definition read_excess_i32 :: "u8 list \<Rightarrow> int result" where
  "read_excess_i32 data =
     (if length data \<noteq> 4 then Inl (Err (DataConversionError ''Expected 4 bytes''))
      else Inr (signed_take_bit 31 (int (unat (be_word data :: u32)) - DURATION_MID)))"

definition write_excess_i32 :: "int \<Rightarrow> u8 list" where
  "write_excess_i32 value = be_bytes 4 (word_of_int (value + DURATION_MID) :: u32)"

definition decode_oracle_interval_ym :: "u8 list \<Rightarrow> interval_ym result" where
  "decode_oracle_interval_ym data =
     (if length data < 5 then
        Inl (Err (DataConversionError
          (''INTERVAL YEAR TO MONTH requires 5 bytes, got '' @ show_nat (length data))))
      else res_bind (read_excess_i32 (take 4 data)) (\<lambda>years.
           Inr \<lparr>ym_years = years, ym_months = int (unat (data ! 4)) - DURATION_OFFSET\<rparr>))"

definition decode_oracle_interval_ds :: "u8 list \<Rightarrow> interval_ds result" where
  "decode_oracle_interval_ds data =
     (if length data < 11 then
        Inl (Err (DataConversionError
          (''INTERVAL DAY TO SECOND requires 11 bytes, got '' @ show_nat (length data))))
      else res_bind (read_excess_i32 (take 4 data)) (\<lambda>days.
           res_bind (read_excess_i32 (take 4 (drop 7 data))) (\<lambda>fseconds.
           Inr \<lparr>ds_days = days, ds_hours = int (unat (data ! 4)) - DURATION_OFFSET,
                ds_minutes = int (unat (data ! 5)) - DURATION_OFFSET,
                ds_seconds = int (unat (data ! 6)) - DURATION_OFFSET, ds_fseconds = fseconds\<rparr>)))"

definition offset_byte :: "int \<Rightarrow> u8 result" where
  "offset_byte v = res_bind (signed_chk 32 (v + DURATION_OFFSET)) (\<lambda>x. Inr (word_of_int x))"

definition encode_oracle_interval_ym :: "interval_ym \<Rightarrow> u8 list result" where
  "encode_oracle_interval_ym v =
     res_bind (offset_byte (ym_months v)) (\<lambda>months.
     Inr (write_excess_i32 (ym_years v) @ [months]))"

definition encode_oracle_interval_ds :: "interval_ds \<Rightarrow> u8 list result" where
  "encode_oracle_interval_ds v =
     res_bind (offset_byte (ds_hours v)) (\<lambda>hours.
     res_bind (offset_byte (ds_minutes v)) (\<lambda>minutes.
     res_bind (offset_byte (ds_seconds v)) (\<lambda>seconds.
     Inr (write_excess_i32 (ds_days v) @ [hours, minutes, seconds] @ write_excess_i32 (ds_fseconds v)))))"

text \<open>\<open>Display\<close>; \<open>i32::abs\<close> of the minimum overflows.\<close>

definition abs_i32 :: "int \<Rightarrow> nat result" where
  "abs_i32 v = res_bind (signed_chk 32 \<bar>v\<bar>) (\<lambda>a. Inr (nat a))"

definition padded :: "nat \<Rightarrow> nat \<Rightarrow> string" where
  "padded width v = pad_zeros width (show_nat v)"

definition interval_ym_text :: "interval_ym \<Rightarrow> string result" where
  "interval_ym_text v =
     res_bind (abs_i32 (ym_years v)) (\<lambda>years.
     res_bind (abs_i32 (ym_months v)) (\<lambda>months.
     Inr ((if ym_years v < 0 \<or> ym_months v < 0 then ''-'' else ''+'')
          @ padded 2 years @ ''-'' @ padded 2 months)))"

definition interval_ds_text :: "interval_ds \<Rightarrow> string result" where
  "interval_ds_text v =
     res_bind (abs_i32 (ds_days v)) (\<lambda>days.
     res_bind (abs_i32 (ds_hours v)) (\<lambda>hours.
     res_bind (abs_i32 (ds_minutes v)) (\<lambda>minutes.
     res_bind (abs_i32 (ds_seconds v)) (\<lambda>seconds.
     res_bind (abs_i32 (ds_fseconds v)) (\<lambda>fseconds.
     Inr ((if ds_days v < 0 \<or> ds_hours v < 0 \<or> ds_minutes v < 0 \<or> ds_seconds v < 0 \<or> ds_fseconds v < 0
           then ''-'' else ''+'')
          @ padded 2 days @ '' '' @ padded 2 hours @ '':'' @ padded 2 minutes @ '':'' @ padded 2 seconds
          @ (if fseconds = 0 then [] else ''.'' @ padded 9 fseconds)))))))"

subsection \<open>The encoders on their range\<close>

definition date_fits :: "oracle_date \<Rightarrow> bool" where
  "date_fits d \<longleftrightarrow> 0 \<le> od_year d \<and> od_year d < 15600
     \<and> unat (od_hour d) < 255 \<and> unat (od_minute d) < 255 \<and> unat (od_second d) < 255"

definition century_byte :: "oracle_date \<Rightarrow> u8" where
  "century_byte d = word_of_int (od_year d div 100) + 100"

definition year_byte :: "oracle_date \<Rightarrow> u8" where
  "year_byte d = word_of_int (od_year d mod 100) + 100"

lemma unat_small_int: "0 \<le> i \<Longrightarrow> i < 256 \<Longrightarrow> unat (word_of_int i :: u8) = nat i"
  by (simp add: unsigned_of_int take_bit_int_eq_self)

lemma sdiv_smod_100: "0 \<le> (y :: int) \<Longrightarrow> y sdiv 100 = y div 100 \<and> y smod 100 = y mod 100"
  by (simp add: signed_divide_int_def signed_modulo_int_def sgn_if minus_div_mult_eq_mod)

lemma date_year_bytes:
  assumes "date_fits d"
  shows "int (unat (century_byte d)) = od_year d div 100 + 100"
    and "int (unat (year_byte d)) = od_year d mod 100 + 100"
proof -
  have c: "0 \<le> od_year d div 100" "od_year d div 100 < 156"
    using assms by (auto simp: date_fits_def)
  have y: "0 \<le> od_year d mod 100" "od_year d mod 100 < 100" by simp_all
  show "int (unat (century_byte d)) = od_year d div 100 + 100"
    unfolding century_byte_def using c by (subst unat_add_chk) (simp_all add: unat_small_int nat_less_iff)
  show "int (unat (year_byte d)) = od_year d mod 100 + 100"
    unfolding year_byte_def using y by (subst unat_add_chk) (simp_all add: unat_small_int nat_less_iff)
qed

lemma encode_date_fits:
  assumes "date_fits d"
  shows "encode_oracle_date d =
    Inr [century_byte d, year_byte d, od_month d, od_day d, od_hour d + 1, od_minute d + 1, od_second d + 1]"
proof -
  have c: "0 \<le> od_year d div 100" "od_year d div 100 < 156"
    using assms by (auto simp: date_fits_def)
  have y: "0 \<le> od_year d mod 100" "od_year d mod 100 < 100" by simp_all
  have "add_chk (word_of_int (od_year d div 100)) 100 = (Inr (century_byte d) :: u8 result)"
    unfolding century_byte_def add_chk_Inr using c by (simp add: unat_small_int nat_less_iff)
  moreover have "add_chk (word_of_int (od_year d mod 100)) 100 = (Inr (year_byte d) :: u8 result)"
    unfolding year_byte_def add_chk_Inr using y by (simp add: unat_small_int nat_less_iff)
  moreover have "add_chk (od_hour d) 1 = (Inr (od_hour d + 1) :: u8 result)"
    "add_chk (od_minute d) 1 = (Inr (od_minute d + 1) :: u8 result)"
    "add_chk (od_second d) 1 = (Inr (od_second d + 1) :: u8 result)"
    using assms by (simp_all add: add_chk_Inr date_fits_def)
  ultimately show ?thesis
    using assms by (simp add: encode_oracle_date_def sdiv_smod_100 date_fits_def)
qed

lemma decode_encode_date:
  assumes "date_fits d"
  shows "decode_oracle_date ([century_byte d, year_byte d, od_month d, od_day d, od_hour d + 1,
    od_minute d + 1, od_second d + 1] @ rest) = Inr d"
proof -
  have "sat_sub (od_hour d + 1) 1 = od_hour d" "sat_sub (od_minute d + 1) 1 = od_minute d"
    "sat_sub (od_second d + 1) 1 = od_second d"
    using assms by (auto intro!: sat_sub_add simp: date_fits_def)
  moreover have "(od_year d div 100) * 100 + od_year d mod 100 = od_year d" by simp
  ultimately show ?thesis
    using date_year_bytes [OF assms] by (cases d) (simp add: decode_oracle_date_def)
qed

lemma mul_micros:
  assumes "unat m < 4294968"
  shows "mul_chk m (1000 :: u32) = (Inr (m * 1000) :: u32 result)" and "(m * 1000) div 1000 = (m :: u32)"
proof -
  have le: "unat m * unat (1000 :: u32) < 2 ^ LENGTH(32)" using assms by simp
  then show "mul_chk m (1000 :: u32) = (Inr (m * 1000) :: u32 result)" by (simp add: mul_chk_def)
  have "unat (m * 1000 div 1000) = unat m"
    using unat_mul_chk [OF le] by (simp add: unat_div)
  then show "(m * 1000) div 1000 = m" by (simp add: word_unat_eq_iff)
qed

definition timestamp_fits :: "oracle_timestamp \<Rightarrow> bool" where
  "timestamp_fits t \<longleftrightarrow> date_fits (to_date t) \<and> unat (ts_microsecond t) < 1000000
     \<and> -12 \<le> ts_tz_hour_offset t \<and> ts_tz_hour_offset t \<le> 14
     \<and> -59 \<le> ts_tz_minute_offset t \<and> ts_tz_minute_offset t \<le> 59"

lemma tz_byte:
  fixes v :: int
  assumes "0 < v" "v < 128"
  shows "sint (word_of_int v :: u8) = v" "(word_of_int v :: u8) \<noteq> 0"
    "(word_of_int v :: u8) AND 0x80 = 0"
proof -
  have u: "unat (word_of_int v :: u8) = nat v" using assms by (simp add: unat_small_int)
  show "sint (word_of_int v :: u8) = v"
    using assms by (simp add: signed_of_int signed_take_bit_int_eq_self)
  show "(word_of_int v :: u8) \<noteq> 0" using u assms by (auto simp: word_unat_eq_iff)
  have "v div 2 ^ 7 = 0" using assms by simp
  then have "\<not> bit v 7" by (simp only: bit_iff_odd)  simp
  then have "\<not> bit (word_of_int v :: u8) 7"
    by (simp add: bit_word_of_int_iff)
  then show "(word_of_int v :: u8) AND 0x80 = 0"
    by (auto intro!: bit_word_eqI simp: bit_simps numeral_eq_Suc less_Suc_eq bit_numeral_rec)
qed

lemma list4: "length xs = 4 \<Longrightarrow> xs = [xs ! 0, xs ! 1, xs ! 2, xs ! 3]"
  by (auto simp: length_Suc_conv eval_nat_numeral)

lemma to_date_fields [simp]:
  "od_year (to_date t) = ts_year t" "od_month (to_date t) = ts_month t" "od_day (to_date t) = ts_day t"
  "od_hour (to_date t) = ts_hour t" "od_minute (to_date t) = ts_minute t"
  "od_second (to_date t) = ts_second t"
  by (simp_all add: to_date_def date_new_def)

lemma encode_timestamp_fits:
  assumes "timestamp_fits t"
  shows "encode_oracle_timestamp t tz = Inr (
    [century_byte (to_date t), year_byte (to_date t), ts_month t, ts_day t, ts_hour t + 1,
     ts_minute t + 1, ts_second t + 1]
    @ (if 0 < ts_microsecond t \<or> tz then be_bytes 4 (ts_microsecond t * 1000) else [])
    @ (if tz then [word_of_int (ts_tz_hour_offset t + 20), word_of_int (ts_tz_minute_offset t + 60)] else []))"
proof -
  have d: "date_fits (to_date t)" and m: "unat (ts_microsecond t) < 4294968"
    using assms by (auto simp: timestamp_fits_def)
  have "signed_chk 8 (ts_tz_hour_offset t + 20) = (Inr (ts_tz_hour_offset t + 20) :: int result)"
    "signed_chk 8 (ts_tz_minute_offset t + 60) = (Inr (ts_tz_minute_offset t + 60) :: int result)"
    using assms by (auto simp: timestamp_fits_def)
  then show ?thesis
    using encode_date_fits [OF d] mul_micros(1) [OF m]
    by (simp add: encode_oracle_timestamp_def TZ_HOUR_OFFSET_def TZ_MINUTE_OFFSET_def to_date_def date_new_def)
qed

lemma decode_encode_timestamp:
  assumes "timestamp_fits t" "encode_oracle_timestamp t tz = Inr bs"
  shows "decode_oracle_timestamp bs = Inr (if tz then t
    else t\<lparr>ts_tz_hour_offset := 0, ts_tz_minute_offset := 0\<rparr>)"
proof -
  let ?m = "ts_microsecond t" and ?h = "ts_tz_hour_offset t + 20" and ?mi = "ts_tz_minute_offset t + 60"
  define c y where "c = century_byte (to_date t)" and "y = year_byte (to_date t)"
  let ?d = "[c, y, ts_month t, ts_day t, ts_hour t + 1, ts_minute t + 1, ts_second t + 1]"
  have d: "date_fits (to_date t)" and m: "unat ?m < 4294968"
    using assms(1) by (auto simp: timestamp_fits_def)
  have dec: "decode_oracle_date (c # y # ts_month t # ts_day t # (ts_hour t + 1) # (ts_minute t + 1)
      # (ts_second t + 1) # rest) = Inr (to_date t)" for rest
    using decode_encode_date [OF d, of rest] by (simp add: c_def y_def)
  obtain n0 n1 n2 n3 where n: "be_bytes 4 (?m * 1000) = [n0, n1, n2, n3]"
    using list4 [OF length_be_bytes [of 4 "?m * 1000"]] by blast
  have mic: "(be_word [n0, n1, n2, n3] :: u32) div 1000 = ?m"
    unfolding n [symmetric] using mul_micros(2) [OF m] by (simp add: be_word_be_bytes_full)
  have bs: "bs = ?d @ (if 0 < ?m \<or> tz then [n0, n1, n2, n3] else [])
      @ (if tz then [word_of_int ?h, word_of_int ?mi] else [])"
    using encode_timestamp_fits [OF assms(1), of tz] assms(2) unfolding n by (simp add: c_def y_def)
  have cong: "Inr t = (Inr \<lparr>ts_year = ts_year t, ts_month = ts_month t, ts_day = ts_day t, ts_hour = ts_hour t,
      ts_minute = ts_minute t, ts_second = ts_second t, ts_microsecond = ?m,
      ts_tz_hour_offset = ts_tz_hour_offset t, ts_tz_minute_offset = ts_tz_minute_offset t\<rparr> :: oracle_timestamp result)"
    "(Inr (t\<lparr>ts_tz_hour_offset := 0, ts_tz_minute_offset := 0\<rparr>) :: oracle_timestamp result) =
     Inr \<lparr>ts_year = ts_year t, ts_month = ts_month t, ts_day = ts_day t, ts_hour = ts_hour t,
      ts_minute = ts_minute t, ts_second = ts_second t, ts_microsecond = ?m,
      ts_tz_hour_offset = 0, ts_tz_minute_offset = 0\<rparr>"
    by (cases t, simp)+
  show ?thesis
  proof (cases tz)
    case True
    define h mi where "h = (word_of_int ?h :: u8)" and "mi = (word_of_int ?mi :: u8)"
    have h: "sint h = ?h" "h \<noteq> 0" "h AND 0x80 = 0"
      unfolding h_def by (rule tz_byte; use assms(1) in \<open>simp add: timestamp_fits_def\<close>)+
    have mi: "sint mi = ?mi" "mi \<noteq> 0"
      unfolding mi_def by (rule tz_byte; use assms(1) in \<open>simp add: timestamp_fits_def\<close>)+
    have r: "signed_chk 8 (ts_tz_hour_offset t) = (Inr (ts_tz_hour_offset t) :: int result)"
      "signed_chk 8 (ts_tz_minute_offset t) = (Inr (ts_tz_minute_offset t) :: int result)"
      using assms(1) by (auto simp: timestamp_fits_def)
    have "bs = ?d @ [n0, n1, n2, n3] @ [h, mi]" using bs True by (simp add: h_def mi_def)
    then show ?thesis
      using True h mi mic r
      by (simp add: decode_oracle_timestamp_def dec cong HAS_REGION_ID_def TZ_HOUR_OFFSET_def
          TZ_MINUTE_OFFSET_def Let_def)
  next
    case False
    then have bs: "bs = ?d @ (if 0 < ?m then [n0, n1, n2, n3] else [])" using bs by simp
    show ?thesis
    proof (cases "0 < ?m")
      case True
      with False mic bs show ?thesis
        by (simp add: decode_oracle_timestamp_def dec cong Let_def)
    next
      case zero: False
      then have "?m = 0" by (simp add: word_gt_0)
      with False bs zero dec [of "[]"] show ?thesis
        by (simp add: decode_oracle_timestamp_def cong Let_def)
    qed
  qed
qed

subsection \<open>The wire order is the chronological order\<close>

definition earlier :: "oracle_date \<Rightarrow> oracle_date \<Rightarrow> bool" where
  "earlier d e \<longleftrightarrow>
     od_year d < od_year e \<or> od_year d = od_year e \<and> (
     od_month d < od_month e \<or> od_month d = od_month e \<and> (
     od_day d < od_day e \<or> od_day d = od_day e \<and> (
     od_hour d < od_hour e \<or> od_hour d = od_hour e \<and> (
     od_minute d < od_minute e \<or> od_minute d = od_minute e \<and>
     od_second d < od_second e))))"

lemma split_100:
  fixes q r q' r' :: int
  assumes "0 \<le> r" "r < 100" "0 \<le> r'" "r' < 100"
  shows "q = q' \<and> r = r' \<longleftrightarrow> 100 * q + r = 100 * q' + r'"
    and "q < q' \<or> q = q' \<and> r < r' \<longleftrightarrow> 100 * q + r < 100 * q' + r'"
  using assms by (cases q q' rule: linorder_cases; simp)+

lemma year_bytes_order:
  assumes "date_fits d" "date_fits e"
  shows "century_byte d = century_byte e \<and> year_byte d = year_byte e \<longleftrightarrow> od_year d = od_year e"
    and "century_byte d < century_byte e \<or> century_byte d = century_byte e \<and> year_byte d < year_byte e
      \<longleftrightarrow> od_year d < od_year e"
proof -
  note b = date_year_bytes [OF assms(1)] date_year_bytes [OF assms(2)]
  have eq: "century_byte d = century_byte e \<longleftrightarrow> od_year d div 100 = od_year e div 100"
    "year_byte d = year_byte e \<longleftrightarrow> od_year d mod 100 = od_year e mod 100"
    using b by (simp_all add: word_unat_eq_iff flip: of_nat_eq_iff [where 'a = int])
  have lt: "century_byte d < century_byte e \<longleftrightarrow> od_year d div 100 < od_year e div 100"
    "year_byte d < year_byte e \<longleftrightarrow> od_year d mod 100 < od_year e mod 100"
    using b by (simp_all add: word_less_nat_alt flip: of_nat_less_iff [where 'a = int])
  have y: "od_year x = 100 * (od_year x div 100) + od_year x mod 100" for x :: oracle_date by simp
  have m: "0 \<le> od_year x mod 100" "od_year x mod 100 < 100" for x :: oracle_date by simp_all
  show "century_byte d = century_byte e \<and> year_byte d = year_byte e \<longleftrightarrow> od_year d = od_year e"
    unfolding eq split_100(1) [OF m m] y [symmetric] ..
  show "century_byte d < century_byte e \<or> century_byte d = century_byte e \<and> year_byte d < year_byte e
      \<longleftrightarrow> od_year d < od_year e"
    unfolding eq lt split_100(2) [OF m m] y [symmetric] ..
qed

lemma succ_order:
  fixes a b :: u8
  assumes "unat a < 255" "unat b < 255"
  shows "a + 1 < b + 1 \<longleftrightarrow> a < b" and "a + 1 = b + 1 \<longleftrightarrow> a = b"
  using assms unat_add_chk [of a 1] unat_add_chk [of b 1] by (simp_all add: word_less_nat_alt)

lemma wire_order:
  assumes "date_fits d" "date_fits e" "encode_oracle_date d = Inr a" "encode_oracle_date e = Inr b"
  shows "a < b \<longleftrightarrow> earlier d e"
proof -
  have b: "unat (od_hour d) < 255" "unat (od_minute d) < 255" "unat (od_second d) < 255"
    "unat (od_hour e) < 255" "unat (od_minute e) < 255" "unat (od_second e) < 255"
    using assms(1,2) by (simp_all add: date_fits_def)
  have a: "a = [century_byte d, year_byte d, od_month d, od_day d, od_hour d + 1, od_minute d + 1, od_second d + 1]"
    and b': "b = [century_byte e, year_byte e, od_month e, od_day e, od_hour e + 1, od_minute e + 1, od_second e + 1]"
    using assms encode_date_fits by auto
  show ?thesis
    unfolding a b' earlier_def year_bytes_order [OF assms(1,2), symmetric]
    using b by (auto simp: succ_order)
qed

subsection \<open>Intervals\<close>

lemma excess_roundtrip:
  assumes "- (2 ^ 31) \<le> v" "v < 2 ^ 31"
  shows "read_excess_i32 (write_excess_i32 v) = Inr v"
proof -
  have "unat (word_of_int (v + DURATION_MID) :: u32) = nat (v + DURATION_MID)"
    using assms by (simp add: unsigned_of_int take_bit_int_eq_self DURATION_MID_def del: of_int_add)
  moreover have "0 \<le> v + DURATION_MID" using assms by (simp add: DURATION_MID_def)
  ultimately have inv: "int (unat (word_of_int (v + DURATION_MID) :: u32)) - DURATION_MID = v"
    by (simp only: int_nat_eq if_True add_diff_cancel)
  moreover have "signed_take_bit 31 v = v"
    using assms by (simp add: signed_take_bit_int_eq_self)
  ultimately show ?thesis
    by (simp add: read_excess_i32_def write_excess_i32_def be_word_be_bytes_full)
qed

lemma offset_byte_roundtrip:
  assumes "-60 \<le> v" "v < 196"
  shows "\<exists>b. offset_byte v = Inr b \<and> int (unat b) - DURATION_OFFSET = v"
proof -
  define b where "b = (word_of_int (v + 60) :: u8)"
  have "(signed_chk 32 (v + 60) :: int result) = Inr (v + 60)" using assms by simp
  then have "offset_byte v = Inr b" by (simp only: offset_byte_def DURATION_OFFSET_def res_bind_simps b_def)
  moreover have "unat b = nat (v + 60)"
    unfolding b_def using assms by (intro unat_small_int) simp_all
  then have "int (unat b) = v + 60" using assms by simp
  ultimately show ?thesis by (simp add: DURATION_OFFSET_def)
qed

lemma length_excess [simp]: "length (write_excess_i32 v) = 4"
  by (simp add: write_excess_i32_def)

definition i32_range :: "int \<Rightarrow> bool" where
  "i32_range v \<longleftrightarrow> - (2 ^ 31) \<le> v \<and> v < 2 ^ 31"

definition offset_range :: "int \<Rightarrow> bool" where
  "offset_range v \<longleftrightarrow> -60 \<le> v \<and> v < 196"

lemma interval_ym_wire:
  assumes "i32_range (ym_years v)" "offset_range (ym_months v)"
  shows "\<exists>bs. encode_oracle_interval_ym v = Inr bs \<and> length bs = 5 \<and> decode_oracle_interval_ym bs = Inr v"
proof -
  obtain m where "offset_byte (ym_months v) = Inr m" "int (unat m) - DURATION_OFFSET = ym_months v"
    using offset_byte_roundtrip [of "ym_months v"] assms(2) by (auto simp: offset_range_def)
  then show ?thesis
    using excess_roundtrip [of "ym_years v"] assms(1)
    by (cases v) (simp add: encode_oracle_interval_ym_def decode_oracle_interval_ym_def i32_range_def nth_append)
qed

lemma interval_ds_wire:
  assumes "i32_range (ds_days v)" "offset_range (ds_hours v)" "offset_range (ds_minutes v)"
    and "offset_range (ds_seconds v)" "i32_range (ds_fseconds v)"
  shows "\<exists>bs. encode_oracle_interval_ds v = Inr bs \<and> length bs = 11 \<and> decode_oracle_interval_ds bs = Inr v"
proof -
  obtain h m s where "offset_byte (ds_hours v) = Inr h" "int (unat h) - DURATION_OFFSET = ds_hours v"
    "offset_byte (ds_minutes v) = Inr m" "int (unat m) - DURATION_OFFSET = ds_minutes v"
    "offset_byte (ds_seconds v) = Inr s" "int (unat s) - DURATION_OFFSET = ds_seconds v"
    using offset_byte_roundtrip [of "ds_hours v"] offset_byte_roundtrip [of "ds_minutes v"]
      offset_byte_roundtrip [of "ds_seconds v"] assms(2-4) by (auto simp: offset_range_def)
  then show ?thesis
    using excess_roundtrip [of "ds_days v"] excess_roundtrip [of "ds_fseconds v"] assms(1,5)
    by (cases v) (simp add: encode_oracle_interval_ds_def decode_oracle_interval_ds_def i32_range_def nth_append)
qed

subsection \<open>Properties\<close>

text \<open>
  Dates round trip and keep their order: for years 0 to 15599 a date is encoded in seven
  bytes, decoded back, and of two dates the earlier one has the lexicographically smaller bytes.
\<close>

theorem date_roundtrip_order:
  assumes "date_fits d" "date_fits e"
  shows "\<exists>a b. encode_oracle_date d = Inr a \<and> encode_oracle_date e = Inr b \<and> length a = 7
    \<and> decode_oracle_date a = Inr d \<and> (a < b \<longleftrightarrow> earlier d e)"
proof -
  obtain a where a: "encode_oracle_date d = Inr a" "length a = 7" "decode_oracle_date a = Inr d"
    using encode_date_fits [OF assms(1)] decode_encode_date [OF assms(1), of "[]"] by simp
  obtain b where b: "encode_oracle_date e = Inr b" using encode_date_fits [OF assms(2)] by blast
  show ?thesis using a b wire_order [OF assms a(1) b] by blast
qed

theorem date_roundtrip_order_witness:
  "\<exists>a b. encode_oracle_date (date_new 2024 2 29 23 59 59) = Inr a
    \<and> encode_oracle_date (date_only 2024 3 1) = Inr b \<and> length a = 7
    \<and> decode_oracle_date a = Inr (date_new 2024 2 29 23 59 59)
    \<and> (a < b \<longleftrightarrow> earlier (date_new 2024 2 29 23 59 59) (date_only 2024 3 1))"
  by (rule date_roundtrip_order) (simp_all add: date_fits_def date_new_def date_only_def)

text \<open>
  A year before -99, which Oracle's DATE allows down to -4712, makes the encoder panic under
  overflow checks: the century is converted to \<open>u8\<close> before 100 is added.
\<close>

theorem date_before_100_bc_panics:
  assumes "-10100 < od_year d" "od_year d \<le> -100"
  shows "encode_oracle_date d = Inl Panic"
proof -
  define q where "q = - od_year d div 100"
  have q: "1 \<le> q" "q \<le> 100" using assms by (auto simp: q_def)
  have "od_year d sdiv 100 = - q" using assms by (simp add: signed_divide_int_def q_def sgn_if)
  moreover have "unat (word_of_int (- q) :: u8) = nat (256 - q)"
  proof -
    have "(word_of_int (- q) :: u8) = word_of_int (256 - q)"
      by (simp add: word_of_int_eq_iff take_bit_eq_mod)
    then show ?thesis using q by (simp only: unat_small_int)
  qed
  ultimately have "add_chk (word_of_int (od_year d sdiv 100)) (100 :: u8) = (Inl Panic :: u8 result)"
    using q by (simp add: add_chk_def)
  then show ?thesis by (simp add: encode_oracle_date_def)
qed

theorem date_before_100_bc_panics_witness: "encode_oracle_date (date_only (-4712) 1 1) = Inl Panic"
  by (rule date_before_100_bc_panics) (simp_all add: date_only_def date_new_def)

text \<open>
  Timestamps round trip through both encodings: with the time zone everything comes back,
  without it the offsets come back as zero; fractions survive to the microsecond.
\<close>

theorem timestamp_roundtrip:
  assumes "timestamp_fits t"
  shows "\<exists>bs. encode_oracle_timestamp t tz = Inr bs
    \<and> decode_oracle_timestamp bs
      = Inr (if tz then t else t\<lparr>ts_tz_hour_offset := 0, ts_tz_minute_offset := 0\<rparr>)"
  using encode_timestamp_fits [OF assms] decode_encode_timestamp [OF assms] by blast

theorem timestamp_roundtrip_witness:
  "\<exists>bs. encode_oracle_timestamp (timestamp_with_timezone 1999 12 31 23 59 59 999999 (-5) (-30)) True = Inr bs
    \<and> decode_oracle_timestamp bs
      = Inr (if True then timestamp_with_timezone 1999 12 31 23 59 59 999999 (-5) (-30)
        else (timestamp_with_timezone 1999 12 31 23 59 59 999999 (-5) (-30))
          \<lparr>ts_tz_hour_offset := 0, ts_tz_minute_offset := 0\<rparr>)"
  by (rule timestamp_roundtrip)
    (simp add: timestamp_fits_def timestamp_with_timezone_def date_fits_def)

text \<open>
  On arbitrary bytes the date decoder never panics, and the timestamp decoder panics exactly
  when a thirteen-byte value has an offset time zone whose minute byte is 0x80 to 0xBB.
\<close>

theorem timestamp_decode_panics_iff:
  "decode_oracle_date data \<noteq> Inl Panic
   \<and> (decode_oracle_timestamp data = Inl Panic \<longleftrightarrow>
      13 \<le> length data \<and> data ! 11 \<noteq> 0 \<and> data ! 11 AND HAS_REGION_ID = 0 \<and> sint (data ! 12) < -68)"
proof
  show date: "decode_oracle_date data \<noteq> Inl Panic"
    by (simp add: decode_oracle_date_def Let_def)
  have hour: "\<exists>h. signed_chk 8 (sint (data ! 11) - TZ_HOUR_OFFSET) = (Inr h :: int result)"
    if "data ! 11 AND HAS_REGION_ID = 0"
  proof -
    have "bit HAS_REGION_ID 7" by code_simp
    then have "\<not> bit (data ! 11) 7"
      using arg_cong [OF that, of "\<lambda>w. bit w 7"] by (simp add: bit_and_iff)
    then have "0 \<le> sint (data ! 11)" by (simp add: not_less [symmetric] bit_last_iff [symmetric])
    moreover have "sint (data ! 11) < 128" using sint_lt [of "data ! 11"] by simp
    ultimately show ?thesis by (simp add: signed_chk_def TZ_HOUR_OFFSET_def)
  qed
  have minute: "signed_chk 8 (sint (data ! 12) - TZ_MINUTE_OFFSET) = (Inl Panic :: int result)
      \<longleftrightarrow> sint (data ! 12) < -68"
    using sint_lt [of "data ! 12"] by (auto simp: signed_chk_def TZ_MINUTE_OFFSET_def)
  have minute_err: "signed_chk 8 (sint (data ! 12) - TZ_MINUTE_OFFSET) \<noteq> (Inl (Err x) :: int result)" for x
    by (simp add: signed_chk_def)
  show "decode_oracle_timestamp data = Inl Panic \<longleftrightarrow>
      13 \<le> length data \<and> data ! 11 \<noteq> 0 \<and> data ! 11 AND HAS_REGION_ID = 0 \<and> sint (data ! 12) < -68"
  proof (cases "length data < 7")
    case True
    then show ?thesis by (simp add: decode_oracle_timestamp_def)
  next
    case False
    then obtain d where d: "decode_oracle_date data = Inr d"
      by (auto simp: decode_oracle_date_def Let_def)
    show ?thesis
    proof (cases "13 \<le> length data \<and> data ! 11 \<noteq> 0 \<and> data ! 12 \<noteq> 0 \<and> data ! 11 AND HAS_REGION_ID = 0")
      case True
      obtain h where h: "signed_chk 8 (sint (data ! 11) - TZ_HOUR_OFFSET) = (Inr h :: int result)"
        using hour True by blast
      show ?thesis
        using True False d h minute minute_err
        by (cases "signed_chk 8 (sint (data ! 12) - TZ_MINUTE_OFFSET) :: int result")
          (auto simp: decode_oracle_timestamp_def Let_def signed_chk_def split: if_splits)
    next
      case no: False
      then show ?thesis
        using False d by (auto simp: decode_oracle_timestamp_def Let_def)
    qed
  qed
qed

text \<open>
  Both interval types round trip over the whole range of their excess fields (\<open>i32\<close>) and
  their offset fields (-60 to 195).
\<close>

theorem interval_roundtrip:
  assumes "i32_range (ym_years v)" "offset_range (ym_months v)"
    and "i32_range (ds_days w)" "offset_range (ds_hours w)" "offset_range (ds_minutes w)"
    and "offset_range (ds_seconds w)" "i32_range (ds_fseconds w)"
  shows "(\<exists>bs. encode_oracle_interval_ym v = Inr bs \<and> length bs = 5 \<and> decode_oracle_interval_ym bs = Inr v)
    \<and> (\<exists>bs. encode_oracle_interval_ds w = Inr bs \<and> length bs = 11 \<and> decode_oracle_interval_ds bs = Inr w)"
  using interval_ym_wire [OF assms(1,2)] interval_ds_wire [OF assms(3-7)] by blast

definition test_ym :: interval_ym where "test_ym = \<lparr>ym_years = -3, ym_months = -11\<rparr>"
definition test_ds :: interval_ds where
  "test_ds = \<lparr>ds_days = 12, ds_hours = 23, ds_minutes = 59, ds_seconds = 1, ds_fseconds = 5000\<rparr>"

theorem interval_roundtrip_witness:
  "(\<exists>bs. encode_oracle_interval_ym test_ym = Inr bs \<and> length bs = 5 \<and> decode_oracle_interval_ym bs = Inr test_ym)
    \<and> (\<exists>bs. encode_oracle_interval_ds test_ds = Inr bs \<and> length bs = 11 \<and> decode_oracle_interval_ds bs = Inr test_ds)"
  by (rule interval_roundtrip) (simp_all add: test_ym_def test_ds_def i32_range_def offset_range_def)

end
