(* ===== verification/RowId.thy ===== *)
theory RowId
  imports Errors
begin

section \<open>ROWID\<close>

text \<open>
  \<open>src/src/types/rowid.rs\<close>: the physical ROWID, its eighteen-character text in a base-64
  alphabet and its wire forms.
\<close>

definition BASE64_ALPHABET :: "u8 list" where
  "BASE64_ALPHABET =
     bytes_of_text ''ABCDEFGHIJKLMNOPQRSTUVWXYZabcdefghijklmnopqrstuvwxyz0123456789+/''"

definition MAX_ROWID_LENGTH :: nat where "MAX_ROWID_LENGTH = 18"

record row_id =
  ri_rba :: u32
  ri_partition_id :: u16
  ri_block_num :: u32
  ri_slot_num :: u16

definition rowid_new :: "u32 \<Rightarrow> u16 \<Rightarrow> u32 \<Rightarrow> u16 \<Rightarrow> row_id" where
  "rowid_new rba partition_id block_num slot_num =
     \<lparr>ri_rba = rba, ri_partition_id = partition_id, ri_block_num = block_num, ri_slot_num = slot_num\<rparr>"

definition rowid_default :: row_id where
  "rowid_default = rowid_new 0 0 0 0"

definition rowid_is_valid :: "row_id \<Rightarrow> bool" where
  "rowid_is_valid r \<longleftrightarrow>
     ri_rba r \<noteq> 0 \<or> ri_partition_id r \<noteq> 0 \<or> ri_block_num r \<noteq> 0 \<or> ri_slot_num r \<noteq> 0"

text \<open>The loop runs over \<open>i\<close> downwards; every write is inside the eighteen bytes.\<close>

fun convert_loop :: "u8 list \<Rightarrow> u64 \<Rightarrow> nat \<Rightarrow> nat \<Rightarrow> u8 list" where
  "convert_loop buf val offset 0 = buf"
| "convert_loop buf val offset (Suc i) =
     convert_loop (buf[offset + i := BASE64_ALPHABET ! unat (val AND 0x3f)]) (drop_bit 6 val) offset i"

definition convert_base64 :: "u8 list \<Rightarrow> u64 \<Rightarrow> nat \<Rightarrow> nat \<Rightarrow> u8 list \<times> nat" where
  "convert_base64 buf value num_chars offset =
     (convert_loop buf value offset num_chars, offset + num_chars)"

text \<open>The bytes written are ASCII, on which \<open>from_utf8_lossy\<close> changes nothing.\<close>

definition rowid_to_string :: "row_id \<Rightarrow> string option" where
  "rowid_to_string r =
     (if \<not> rowid_is_valid r then None
      else
        let (buf1, o1) = convert_base64 (replicate MAX_ROWID_LENGTH 0) (ucast (ri_rba r)) 6 0;
            (buf2, o2) = convert_base64 buf1 (ucast (ri_partition_id r)) 3 o1;
            (buf3, o3) = convert_base64 buf2 (ucast (ri_block_num r)) 6 o2;
            (buf4, o4) = convert_base64 buf3 (ucast (ri_slot_num r)) 3 o3
        in Some (text_of_bytes buf4))"

definition rowid_display :: "row_id \<Rightarrow> string" where
  "rowid_display r = (case rowid_to_string r of Some s \<Rightarrow> s | None \<Rightarrow> ''NULL'')"

definition decode_rowid :: "u8 list \<Rightarrow> row_id result" where
  "decode_rowid data =
     (if data = [] then Inr rowid_default
      else if data ! 0 = 1 \<and> 13 \<le> length data then
        Inr \<lparr>ri_rba = be_word [data ! 1, data ! 2, data ! 3, data ! 4],
             ri_partition_id = be_word [data ! 5, data ! 6],
             ri_block_num = be_word [data ! 7, data ! 8, data ! 9, data ! 10],
             ri_slot_num = be_word [data ! 11, data ! 12]\<rparr>
      else if 10 \<le> length data then
        Inr \<lparr>ri_rba = be_word [data ! 0, data ! 1, data ! 2, data ! 3],
             ri_partition_id = be_word [data ! 4, data ! 5],
             ri_block_num = be_word [data ! 6, data ! 7, data ! 8, data ! 9],
             ri_slot_num = (if 12 \<le> length data then be_word [data ! 10, data ! 11] else 0)\<rparr>
      else Inl (Err (DataConversionError (''Invalid ROWID data length: '' @ show_nat (length data)))))"

definition base64_index :: "u8 \<Rightarrow> u8 option" where
  "base64_index c =
     (if 65 \<le> c \<and> c \<le> 90 then Some (c - 65)
      else if 97 \<le> c \<and> c \<le> 122 then Some (c - 97 + 26)
      else if 48 \<le> c \<and> c \<le> 57 then Some (c - 48 + 52)
      else if c = 43 then Some 62
      else if c = 47 then Some 63
      else None)"

fun decode_base64_loop :: "u64 \<Rightarrow> u8 list \<Rightarrow> u64 result" where
  "decode_base64_loop value [] = Inr value"
| "decode_base64_loop value (c # cs) =
     (case base64_index c of
        Some idx \<Rightarrow> decode_base64_loop (push_bit 6 value OR ucast idx) cs
      | None \<Rightarrow> Inl (Err (DataConversionError
          (''Invalid base64 character in ROWID: '' @ char_from_u8 c))))"

definition decode_base64 :: "u8 list \<Rightarrow> u64 result" where
  "decode_base64 chars = decode_base64_loop 0 chars"

definition parse_rowid_string :: "string \<Rightarrow> row_id result" where
  "parse_rowid_string s =
     (if length s \<noteq> MAX_ROWID_LENGTH then
        Inl (Err (DataConversionError (''Invalid ROWID string length: '' @ show_nat (length s)
          @ '', expected '' @ show_nat MAX_ROWID_LENGTH)))
      else
        let bytes = bytes_of_text s in
        res_bind (decode_base64 (take 6 bytes)) (\<lambda>rba.
        res_bind (decode_base64 (take 3 (drop 6 bytes))) (\<lambda>partition_id.
        res_bind (decode_base64 (take 6 (drop 9 bytes))) (\<lambda>block_num.
        res_bind (decode_base64 (take 3 (drop 15 bytes))) (\<lambda>slot_num.
        Inr \<lparr>ri_rba = ucast rba, ri_partition_id = ucast partition_id, ri_block_num = ucast block_num,
             ri_slot_num = ucast slot_num\<rparr>)))))"

subsection \<open>The alphabet\<close>

definition b64 :: "nat \<Rightarrow> u64 \<Rightarrow> u8 list" where
  "b64 n v = map (\<lambda>i. BASE64_ALPHABET ! unat (drop_bit (6 * i) v AND 0x3f)) (rev [0..<n])"

lemma length_b64 [simp]: "length (b64 n v) = n"
  by (simp add: b64_def)

lemma b64_Suc: "b64 (Suc n) v = b64 n (drop_bit 6 v) @ [BASE64_ALPHABET ! unat (v AND 0x3f)]"
proof -
  have "[0..<Suc n] = 0 # map Suc [0..<n]"
    by (simp only: upt_conv_Cons [OF zero_less_Suc] map_Suc_upt)
  then have "rev [0..<Suc n] = map Suc (rev [0..<n]) @ [0]"
    by (simp add: rev_map del: upt_Suc)
  then show ?thesis by (simp add: b64_def add.commute del: upt_Suc)
qed

lemma convert_loop_b64:
  "offset + n \<le> length buf \<Longrightarrow>
   convert_loop buf v offset n = take offset buf @ b64 n v @ drop (offset + n) buf"
proof (induction n arbitrary: buf v)
  case 0
  then show ?case by (simp add: b64_def)
next
  case (Suc n)
  let ?buf = "buf[offset + n := BASE64_ALPHABET ! unat (v AND 0x3f)]"
  have "drop (offset + n) ?buf = BASE64_ALPHABET ! unat (v AND 0x3f) # drop (offset + Suc n) buf"
    using Suc.prems by (simp add: Cons_nth_drop_Suc [symmetric])
  with Suc.prems Suc.IH [of ?buf "drop_bit 6 v"] show ?case
    by (simp add: b64_Suc)
qed

lemma alphabet_index:
  "list_all (\<lambda>i. base64_index (BASE64_ALPHABET ! i) = Some (of_nat i) \<and> BASE64_ALPHABET ! i < 128) [0..<64]"
  by code_simp

lemma base64_index_alphabet:
  assumes "i < 64"
  shows "base64_index (BASE64_ALPHABET ! i) = Some (of_nat i)" and "BASE64_ALPHABET ! i < 128"
proof -
  have "i \<in> set [0..<64]" using assms by simp
  then show "base64_index (BASE64_ALPHABET ! i) = Some (of_nat i)" and "BASE64_ALPHABET ! i < 128"
    using alphabet_index unfolding list_all_iff by blast+
qed

lemma low6:
  fixes v :: u64
  shows "unat (v AND 0x3f) < 64" and "ucast (ucast (v AND 0x3f) :: u8) = take_bit 6 v"
proof -
  have m: "v AND 0x3f = take_bit 6 v"
    using take_bit_eq_mask [of 6 v] by (simp add: mask_eq_exp_minus_1)
  have "unat (take_bit 6 v) = unat v mod 64"
    by (simp only: unsigned_take_bit_eq) (simp add: take_bit_nat_def)
  then show lt: "unat (v AND 0x3f) < 64" by (simp add: m)
  show "ucast (ucast (v AND 0x3f) :: u8) = take_bit 6 v"
    using lt unfolding m by (simp add: word_unat_eq_iff unat_of_nat unsigned_ucast_eq take_bit_nat_eq_self)
qed

lemma decode_b64:
  "decode_base64_loop a (b64 n v @ cs) = decode_base64_loop (push_bit (6 * n) a OR take_bit (6 * n) v) cs"
proof (induction n arbitrary: v cs)
  case 0
  then show ?case by (simp add: b64_def)
next
  case (Suc n)
  have "(push_bit (6 + 6 * n) a OR push_bit 6 (take_bit (6 * n) (drop_bit 6 v))) OR take_bit 6 v
    = push_bit (6 * Suc n) a OR take_bit (6 * Suc n) v"
    by (rule bit_word_eqI) (auto simp: bit_simps not_less not_le)
  then show ?case
    by (simp add: b64_Suc Suc.IH base64_index_alphabet low6)
qed

subsection \<open>Text\<close>

definition rowid_text :: "u64 \<Rightarrow> u64 \<Rightarrow> u64 \<Rightarrow> u64 \<Rightarrow> string" where
  "rowid_text a b c d = text_of_bytes (b64 6 a @ b64 3 b @ b64 6 c @ b64 3 d)"

lemma rowid_to_string_text:
  "rowid_is_valid r \<Longrightarrow> rowid_to_string r =
     Some (rowid_text (ucast (ri_rba r)) (ucast (ri_partition_id r)) (ucast (ri_block_num r)) (ucast (ri_slot_num r)))"
  by (simp add: rowid_to_string_def convert_base64_def rowid_text_def convert_loop_b64 MAX_ROWID_LENGTH_def)

lemma decode_base64_b64: "decode_base64 (b64 n v) = Inr (take_bit (6 * n) v)"
  using decode_b64 [of 0 n v "[]"] by (simp add: decode_base64_def)

lemma parse_rowid_text:
  "parse_rowid_string (rowid_text a b c d) =
     Inr \<lparr>ri_rba = ucast (take_bit 36 a), ri_partition_id = ucast (take_bit 18 b),
          ri_block_num = ucast (take_bit 36 c), ri_slot_num = ucast (take_bit 18 d)\<rparr>"
  by (simp add: parse_rowid_string_def rowid_text_def MAX_ROWID_LENGTH_def decode_base64_b64)

lemma ucast_take_ucast:
  fixes w :: "'a::len word"
  assumes "LENGTH('a) \<le> n" "LENGTH('a) \<le> 64"
  shows "ucast (take_bit n (ucast w :: u64)) = w"
  by (rule bit_word_eqI) (use assms in \<open>auto simp: bit_simps dest: bit_imp_le_length\<close>)

lemma b64_ascii: "c \<in> set (b64 n v) \<Longrightarrow> c < 128"
  by (auto simp: b64_def base64_index_alphabet low6)

subsection \<open>Properties\<close>

text \<open>
  The text of a ROWID has eighteen characters and is parsed back to it; only the all-zero
  ROWID has no text.
\<close>

theorem rowid_text_roundtrip:
  "(rowid_to_string r = None \<longleftrightarrow> r = rowid_default)
   \<and> (r = rowid_default \<or> (\<exists>s. rowid_to_string r = Some s \<and> length s = MAX_ROWID_LENGTH
        \<and> parse_rowid_string s = Inr r))"
proof -
  have "rowid_is_valid r \<longleftrightarrow> r \<noteq> rowid_default"
    by (cases r) (auto simp: rowid_is_valid_def rowid_default_def rowid_new_def)
  moreover have "length (rowid_text a b c d) = MAX_ROWID_LENGTH" for a b c d
    by (simp add: rowid_text_def MAX_ROWID_LENGTH_def)
  ultimately show ?thesis
    using rowid_to_string_text [of r]
    by (cases r) (auto simp: parse_rowid_text ucast_take_ucast rowid_to_string_def)
qed

text \<open>
  The parser does not check the range of a field: the low 32 or 16 bits of the 36 or 18 the
  characters spell are kept, so texts that differ only in the bits above parse to the same
  ROWID.
\<close>

theorem rowid_parse_truncates:
  "parse_rowid_string (rowid_text a b c d) =
     Inr (rowid_new (ucast (take_bit 36 a)) (ucast (take_bit 18 b)) (ucast (take_bit 36 c)) (ucast (take_bit 18 d)))
   \<and> parse_rowid_string ''AAAAAAQAAAAAAAAAAB'' = parse_rowid_string ''AAAAAAAAAAAAAAAAAB''"
proof
  show "parse_rowid_string ''AAAAAAQAAAAAAAAAAB'' = parse_rowid_string ''AAAAAAAAAAAAAAAAAB''"
    by code_simp
qed (simp add: parse_rowid_text rowid_new_def)

text \<open>
  The thirteen-byte wire form decodes to the fields it carries, and so does the form without
  the type byte, unless it is longer than its twelve bytes and starts with 1.
\<close>

theorem rowid_wire_decode:
  "decode_rowid (1 # be_bytes 4 rba @ be_bytes 2 part @ be_bytes 4 block @ be_bytes 2 slot @ rest)
     = Inr (rowid_new rba part block slot)
   \<and> decode_rowid (be_bytes 4 rba @ be_bytes 2 part @ be_bytes 4 block @ be_bytes 2 slot)
     = Inr (rowid_new rba part block slot)"
proof -
  have b4: "be_bytes 4 (w :: u32) = [ucast (drop_bit 24 w), ucast (drop_bit 16 w), ucast (drop_bit 8 w), ucast w]" for w
    by (simp add: be_bytes_def eval_nat_numeral)
  have b2: "be_bytes 2 (w :: u16) = [ucast (drop_bit 8 w), ucast w]" for w
    by (simp add: be_bytes_def eval_nat_numeral)
  have w4: "be_word [ucast (drop_bit 24 w), ucast (drop_bit 16 w), ucast (drop_bit 8 w), ucast w] = (w :: u32)" for w
    using be_word_be_bytes_full [of 4 w] by (simp add: b4)
  have w2: "be_word [ucast (drop_bit 8 w), ucast w] = (w :: u16)" for w
    using be_word_be_bytes_full [of 2 w] by (simp add: b2)
  show ?thesis
    by (simp add: decode_rowid_def rowid_new_def b4 b2 w4 w2)
qed

end
