(* ===== verification/BinFloat.thy ===== *)
theory BinFloat
  imports Prelude "HOL-Library.List_Lexorder"
begin

section \<open>BINARY_FLOAT and BINARY_DOUBLE\<close>

text \<open>
  \<open>src/src/types/binary.rs\<close>.  An \<open>f32\<close> or \<open>f64\<close> is its bit pattern, a word: the code only
  calls \<open>to_bits\<close> and \<open>from_bits\<close>.
\<close>

definition decode_binary_float :: "u8 list \<Rightarrow> u32" where
  "decode_binary_float data =
     (if length data < 4 then 0
      else
        let b0 = data ! 0; b1 = data ! 1; b2 = data ! 2; b3 = data ! 3;
            (b0, b1, b2, b3) =
              (if b0 AND 0x80 \<noteq> 0 then (b0 AND 0x7f, b1, b2, b3)
               else (NOT b0, NOT b1, NOT b2, NOT b3))
        in push_bit 24 (ucast b0) OR push_bit 16 (ucast b1) OR push_bit 8 (ucast b2) OR ucast b3)"

definition encode_binary_float :: "u32 \<Rightarrow> u8 list" where
  "encode_binary_float value =
     (let b0 = ucast (drop_bit 24 value AND 0xff); b1 = ucast (drop_bit 16 value AND 0xff);
          b2 = ucast (drop_bit 8 value AND 0xff); b3 = ucast (value AND 0xff)
      in if b0 AND 0x80 = 0 then [b0 OR 0x80, b1, b2, b3]
         else [NOT b0, NOT b1, NOT b2, NOT b3])"

definition decode_binary_double :: "u8 list \<Rightarrow> u64" where
  "decode_binary_double data =
     (if length data < 8 then 0
      else
        let b0 = data ! 0; b1 = data ! 1; b2 = data ! 2; b3 = data ! 3;
            b4 = data ! 4; b5 = data ! 5; b6 = data ! 6; b7 = data ! 7;
            (b0, b1, b2, b3, b4, b5, b6, b7) =
              (if b0 AND 0x80 \<noteq> 0 then (b0 AND 0x7f, b1, b2, b3, b4, b5, b6, b7)
               else (NOT b0, NOT b1, NOT b2, NOT b3, NOT b4, NOT b5, NOT b6, NOT b7));
            high_bits = push_bit 24 (ucast b0) OR push_bit 16 (ucast b1) OR push_bit 8 (ucast b2) OR ucast b3;
            low_bits = push_bit 24 (ucast b4) OR push_bit 16 (ucast b5) OR push_bit 8 (ucast b6) OR ucast b7
        in push_bit 32 high_bits OR (low_bits AND 0xffffffff))"

definition encode_binary_double :: "u64 \<Rightarrow> u8 list" where
  "encode_binary_double value =
     (let b0 = ucast (drop_bit 56 value AND 0xff); b1 = ucast (drop_bit 48 value AND 0xff);
          b2 = ucast (drop_bit 40 value AND 0xff); b3 = ucast (drop_bit 32 value AND 0xff);
          b4 = ucast (drop_bit 24 value AND 0xff); b5 = ucast (drop_bit 16 value AND 0xff);
          b6 = ucast (drop_bit 8 value AND 0xff); b7 = ucast (value AND 0xff)
      in if b0 AND 0x80 = 0 then [b0 OR 0x80, b1, b2, b3, b4, b5, b6, b7]
         else [NOT b0, NOT b1, NOT b2, NOT b3, NOT b4, NOT b5, NOT b6, NOT b7])"

subsection \<open>Bytes and words\<close>

lemma be_bytes_4: "be_bytes 4 w = [ucast (drop_bit 24 w), ucast (drop_bit 16 w), ucast (drop_bit 8 w), ucast w]"
  by (simp add: be_bytes_def eval_nat_numeral)

lemma be_bytes_8: "be_bytes 8 w = [ucast (drop_bit 56 w), ucast (drop_bit 48 w), ucast (drop_bit 40 w),
    ucast (drop_bit 32 w), ucast (drop_bit 24 w), ucast (drop_bit 16 w), ucast (drop_bit 8 w), ucast w]"
  by (simp add: be_bytes_def eval_nat_numeral)

lemma byte_masks:
  fixes b :: u8
  shows "b AND 0x80 = 0 \<longleftrightarrow> \<not> bit b 7" and "b AND 0x7f = take_bit 7 b" and "b OR 0x80 = set_bit 7 b"
proof -
  have e: "(0x80 :: u8) = 2 ^ 7" by simp
  show "b AND 0x80 = 0 \<longleftrightarrow> \<not> bit b 7"
    unfolding e by (simp add: bit_iff_and_push_bit_not_eq_0 push_bit_of_1)
  show "b AND 0x7f = take_bit 7 b"
    using take_bit_eq_mask [of 7 b] by (simp add: mask_eq_exp_minus_1)
  show "b OR 0x80 = set_bit 7 b"
    unfolding e by (simp add: set_bit_eq_or push_bit_of_1)
qed

lemma ucast_mask_ff: "ucast (w AND 0xff) = (ucast (w :: 'a::len word) :: u8)"
proof -
  have m: "w AND 0xff = take_bit 8 w"
    using take_bit_eq_mask [of 8 w] by (simp add: mask_eq_exp_minus_1)
  show ?thesis unfolding m by (rule bit_word_eqI) (auto simp: bit_simps)
qed

text \<open>The wire form is the big-endian form of the pattern with its sign handled.\<close>

definition wire_float :: "'a::len word \<Rightarrow> 'a word" where
  "wire_float w = (if bit w (LENGTH('a) - 1) then NOT w else set_bit (LENGTH('a) - 1) w)"

lemma encode_float_wire: "encode_binary_float v = be_bytes 4 (wire_float v)"
proof -
  have "ucast (drop_bit 24 v) AND (0x80 :: u8) = 0 \<longleftrightarrow> \<not> bit v 31"
    by (simp add: byte_masks bit_simps)
  then show ?thesis
    unfolding encode_binary_float_def Let_def ucast_mask_ff be_bytes_4 byte_masks(3) wire_float_def
    by (auto intro!: bit_word_eqI simp: bit_simps)
qed

lemma encode_double_wire: "encode_binary_double v = be_bytes 8 (wire_float v)"
proof -
  have "ucast (drop_bit 56 v) AND (0x80 :: u8) = 0 \<longleftrightarrow> \<not> bit v 63"
    by (simp add: byte_masks bit_simps)
  then show ?thesis
    unfolding encode_binary_double_def Let_def ucast_mask_ff be_bytes_8 byte_masks(3) wire_float_def
    by (auto intro!: bit_word_eqI simp: bit_simps)
qed

definition unwire_float :: "'a::len word \<Rightarrow> 'a word" where
  "unwire_float w = (if bit w (LENGTH('a) - 1) then unset_bit (LENGTH('a) - 1) w else NOT w)"

lemma unwire_wire_float [simp]: "unwire_float (wire_float w) = (w :: 'a::len word)"
  by (rule bit_word_eqI) (auto simp: unwire_float_def wire_float_def bit_simps)

lemma not_byte: "NOT (ucast (w :: 'a::len word) :: u8) = ucast (NOT w)" if "8 \<le> LENGTH('a)"
  by (rule bit_word_eqI) (use that in \<open>auto simp: bit_simps\<close>)

lemma not_drop_byte:
  "n + 8 \<le> LENGTH('a) \<Longrightarrow> NOT (ucast (drop_bit n (w :: 'a::len word)) :: u8) = ucast (drop_bit n (NOT w))"
  by (rule bit_word_eqI) (auto simp: bit_simps)

lemma join_4:
  fixes w :: u32
  shows "push_bit 24 (ucast (ucast (drop_bit 24 w) :: u8)) OR push_bit 16 (ucast (ucast (drop_bit 16 w) :: u8))
    OR push_bit 8 (ucast (ucast (drop_bit 8 w) :: u8)) OR ucast (ucast w :: u8) = w"
proof -
  have "be_word (be_bytes 4 w) = w" by (rule be_word_be_bytes_full) simp
  then show ?thesis
    by (simp add: be_bytes_4 be_word_def push_bit_or or.assoc)
qed

lemma decode_float_wire: "decode_binary_float (be_bytes 4 w @ rest) = unwire_float w"
proof -
  have top: "ucast (drop_bit 24 w) AND (0x80 :: u8) = 0 \<longleftrightarrow> \<not> bit w 31"
    by (simp add: byte_masks bit_simps)
  have un: "take_bit 7 (ucast (drop_bit 24 w) :: u8) = ucast (drop_bit 24 (unset_bit 31 w))"
    "(ucast (drop_bit 16 w) :: u8) = ucast (drop_bit 16 (unset_bit 31 w))"
    "(ucast (drop_bit 8 w) :: u8) = ucast (drop_bit 8 (unset_bit 31 w))"
    "(ucast w :: u8) = ucast (unset_bit 31 w)"
    by (auto intro!: bit_word_eqI simp: bit_simps)
  have len: "\<not> length (be_bytes 4 w @ rest) < 4" by simp
  show ?thesis
  proof (cases "bit w 31")
    case True
    then show ?thesis
      unfolding decode_binary_float_def if_not_P [OF len] be_bytes_4 Let_def
      by (simp add: top byte_masks(2) un(1) unwire_float_def)
        (subst un(2), subst un(3), subst un(4), rule join_4)
  next
    case False
    then show ?thesis
      unfolding decode_binary_float_def if_not_P [OF len] be_bytes_4 Let_def
      by (simp add: top not_drop_byte not_byte [of w] unwire_float_def join_4)
  qed
qed

lemma join_8:
  fixes w :: u64
  shows "push_bit 32 (push_bit 24 (ucast (ucast (drop_bit 56 w) :: u8)) OR push_bit 16 (ucast (ucast (drop_bit 48 w) :: u8))
      OR push_bit 8 (ucast (ucast (drop_bit 40 w) :: u8)) OR ucast (ucast (drop_bit 32 w) :: u8))
    OR ((push_bit 24 (ucast (ucast (drop_bit 24 w) :: u8)) OR push_bit 16 (ucast (ucast (drop_bit 16 w) :: u8))
      OR push_bit 8 (ucast (ucast (drop_bit 8 w) :: u8)) OR ucast (ucast w :: u8)) AND 0xffffffff) = w"
proof -
  have m: "x AND 0xffffffff = take_bit 32 x" for x :: u64
    using take_bit_eq_mask [of 32 x] by (simp add: mask_eq_exp_minus_1)
  have b: "take_bit 32 (push_bit n (ucast (b :: u8)) :: u64) = push_bit n (ucast b)" if "n \<le> 24" for n b
    by (rule bit_word_eqI) (use that in \<open>auto simp: bit_simps dest: bit_imp_le_length\<close>)
  have b0: "take_bit 32 (ucast (b :: u8) :: u64) = ucast b" for b
    using b [of 0 b] by simp
  have "be_word (be_bytes 8 w) = w" by (rule be_word_be_bytes_full) simp
  then show ?thesis
    unfolding m by (simp add: be_bytes_8 be_word_def push_bit_or or.assoc take_bit_or b b0)
qed

lemma decode_double_wire: "decode_binary_double (be_bytes 8 w @ rest) = unwire_float w"
proof -
  have top: "ucast (drop_bit 56 w) AND (0x80 :: u8) = 0 \<longleftrightarrow> \<not> bit w 63"
    by (simp add: byte_masks bit_simps)
  have un: "take_bit 7 (ucast (drop_bit 56 w) :: u8) = ucast (drop_bit 56 (unset_bit 63 w))"
    "n \<le> 48 \<Longrightarrow> (ucast (drop_bit n (unset_bit 63 w)) :: u8) = ucast (drop_bit n w)"
    "(ucast (unset_bit 63 w) :: u8) = ucast w" for n
    by (auto intro!: bit_word_eqI simp: bit_simps)
  have len: "\<not> length (be_bytes 8 w @ rest) < 8" by simp
  show ?thesis
  proof (cases "bit w 63")
    case True
    then show ?thesis
      unfolding decode_binary_double_def if_not_P [OF len] be_bytes_8 Let_def
      using join_8 [of "unset_bit 63 w"] by (simp add: top byte_masks(2) un unwire_float_def)
  next
    case False
    then show ?thesis
      unfolding decode_binary_double_def if_not_P [OF len] be_bytes_8 Let_def
      using join_8 [of "NOT w"] by (simp add: top not_drop_byte not_byte [of w] unwire_float_def)
  qed
qed

subsection \<open>The byte order\<close>

lemma digit_less:
  fixes h l h' l' P :: nat
  assumes "l < P" "l' < P"
  shows "h * P + l < h' * P + l' \<longleftrightarrow> h < h' \<or> h = h' \<and> l < l'"
proof (cases h h' rule: linorder_cases)
  case less
  then have "Suc h * P \<le> h' * P" by (intro mult_le_mono1) simp
  with less assms show ?thesis by simp
next
  case greater
  then have "Suc h' * P \<le> h * P" by (intro mult_le_mono1) simp
  with greater assms show ?thesis by simp
qed simp

lemma be_bytes_less:
  fixes a b :: "'a::len word"
  shows "be_bytes n a < be_bytes n b \<longleftrightarrow> unat a mod 256 ^ n < unat b mod 256 ^ n"
proof (induction n)
  case 0
  show ?case by simp
next
  case (Suc n)
  have split: "unat x mod 256 ^ Suc n = (unat x div 256 ^ n mod 256) * 256 ^ n + unat x mod 256 ^ n"
    for x :: "'a word"
    by (simp add: mod_mult2_eq mult.commute [of 256])
  have top: "unat (ucast (drop_bit (8 * n) x) :: u8) = unat x div 256 ^ n mod 256" for x :: "'a word"
    unfolding unsigned_ucast_eq unsigned_drop_bit_eq
    by (simp add: drop_bit_eq_div take_bit_eq_mod power_mult)
  show ?case
    unfolding split be_bytes_Suc
    by (simp add: Suc digit_less word_less_nat_alt word_unat_eq_iff top)
qed

text \<open>
  The order of the numbers on their patterns, -0 before +0 and the NaNs outermost: sign and
  magnitude.
\<close>

definition float_key :: "'a::len word \<Rightarrow> int" where
  "float_key w =
     (let m = int (unat (unset_bit (LENGTH('a) - 1) w))
      in if bit w (LENGTH('a) - 1) then - m - 1 else m)"

lemma unat_top:
  fixes w :: "'a::len word"
  shows "unat w = (if bit w (LENGTH('a) - 1) then 2 ^ (LENGTH('a) - 1) else 0)
    + unat (unset_bit (LENGTH('a) - 1) w)"
    and "unat (unset_bit (LENGTH('a) - 1) w) < 2 ^ (LENGTH('a) - 1)"
proof -
  define n where "n = LENGTH('a) - 1"
  have n: "LENGTH('a) = Suc n" by (simp add: n_def)
  have u: "unset_bit n w = take_bit n w"
    by (rule bit_word_eqI) (auto simp: bit_simps n)
  then have lt: "unat (unset_bit n w) < 2 ^ n" 
    by (simp only: unsigned_take_bit_eq) (rule take_bit_nat_less_exp)
  show "unat (unset_bit (LENGTH('a) - 1) w) < 2 ^ (LENGTH('a) - 1)"
    using lt by (simp add: n_def)
  have "unat w = unat w div 2 ^ n * 2 ^ n + unat w mod 2 ^ n"
    by (rule div_mult_mod_eq [symmetric])
  moreover have "unat w mod 2 ^ n = unat (unset_bit n w)"
    unfolding u by (simp only: unsigned_take_bit_eq) (simp add: take_bit_eq_mod)
  moreover have "unat w div 2 ^ n = (if bit w n then 1 else 0)"
  proof -
    have "unat w < 2 ^ Suc n" using unsigned_less [of w] by (simp add: n)
    then have "unat w div 2 ^ n < 2" by (simp add: less_mult_imp_div_less)
    moreover have "odd (unat w div 2 ^ n) \<longleftrightarrow> bit w n"
      by (simp add: bit_iff_odd [symmetric] bit_unsigned_iff n)
    ultimately show ?thesis by (auto elim: oddE evenE)
  qed
  ultimately show "unat w = (if bit w (LENGTH('a) - 1) then 2 ^ (LENGTH('a) - 1) else 0)
    + unat (unset_bit (LENGTH('a) - 1) w)"
    by (simp add: n_def)
qed

lemma wire_float_less:
  fixes a b :: "'a::len word"
  shows "wire_float a < wire_float b \<longleftrightarrow> float_key a < float_key b"
proof -
  define n where "n = LENGTH('a) - 1"
  have n: "LENGTH('a) = Suc n" by (simp add: n_def)
  define m where "m x = unat (unset_bit n x)" for x :: "'a word"
  have m: "m x < 2 ^ n" "unat x = (if bit x n then 2 ^ n else 0) + m x" for x
    using unat_top [of x] by (simp_all add: m_def n_def)
  have key: "float_key x = (if bit x n then - int (m x) - 1 else int (m x))" for x
    by (simp add: float_key_def m_def n_def)
  have wire: "unat (wire_float x) = (if bit x n then 2 ^ n - 1 - m x else 2 ^ n + m x)" for x
  proof (cases "bit x n")
    case True
    have "NOT x = - 1 - x" by (simp add: not_eq_complement)
    then have "unat (NOT x) = unat (- 1 :: 'a word) - unat x" by (simp add: unat_sub)
    also have "\<dots> = 2 ^ Suc n - 1 - unat x"
      by (simp add: unsigned_minus_1_eq_mask mask_eq_exp_minus_1 n)
    also have "\<dots> = 2 ^ n - 1 - m x" using True m(2) [of x] by simp
    finally show ?thesis using True by (simp add: wire_float_def n_def)
  next
    case False
    have "unset_bit n (set_bit n x) = unset_bit n x"
      by (rule bit_word_eqI) (auto simp: bit_simps)
    moreover have "bit (set_bit n x) n" by (simp add: bit_simps n)
    ultimately have "unat (set_bit n x) = 2 ^ n + m x" using m(2) [of "set_bit n x"] by (simp add: m_def)
    then show ?thesis using False by (simp add: wire_float_def n_def)
  qed
  show ?thesis
    unfolding word_less_nat_alt wire key using m(1) [of a] m(1) [of b] by auto
qed

lemma be_bytes_less_full:
  fixes a b :: "'a::len word"
  assumes "LENGTH('a) = 8 * n"
  shows "be_bytes n a < be_bytes n b \<longleftrightarrow> a < b"
proof -
  have "unat x < 256 ^ n" for x :: "'a word"
    using unsigned_less [of x] assms by (simp add: power_mult)
  then show ?thesis by (simp add: be_bytes_less word_less_nat_alt)
qed

subsection \<open>Properties\<close>

text \<open>
  Every bit pattern, NaNs and signed zeros included, survives encoding and decoding, in four
  and in eight bytes, whatever follows.
\<close>

theorem binary_float_roundtrip:
  "length (encode_binary_float v) = 4 \<and> decode_binary_float (encode_binary_float v @ rest) = v
   \<and> length (encode_binary_double w) = 8 \<and> decode_binary_double (encode_binary_double w @ rest) = w"
  by (simp add: encode_float_wire encode_double_wire decode_float_wire decode_double_wire)

text \<open>
  The wire forms sort as the numbers do: the bytes of one pattern come before those of
  another exactly when its number does, in the sign-and-magnitude order of IEEE 754.
\<close>

theorem binary_float_order:
  "(encode_binary_float a < encode_binary_float b \<longleftrightarrow> float_key a < float_key b)
   \<and> (encode_binary_double c < encode_binary_double d \<longleftrightarrow> float_key c < float_key d)"
  by (simp add: encode_float_wire encode_double_wire be_bytes_less_full wire_float_less)

end
