(* ===== verification/OraVector.thy ===== *)
theory OraVector
  imports Errors BinFloat
begin

section \<open>VECTOR\<close>

text \<open>
  \<open>src/src/types/vector.rs\<close>: the VECTOR image, dense or sparse, of 32-bit or 64-bit floats (bit
  patterns), signed bytes or packed bits.
\<close>

definition VECTOR_MAGIC_BYTE :: u8 where "VECTOR_MAGIC_BYTE = 0xDB"
definition VECTOR_VERSION_BASE :: u8 where "VECTOR_VERSION_BASE = 0"
definition VECTOR_VERSION_WITH_BINARY :: u8 where "VECTOR_VERSION_WITH_BINARY = 1"
definition VECTOR_VERSION_WITH_SPARSE :: u8 where "VECTOR_VERSION_WITH_SPARSE = 2"
definition VECTOR_FLAG_NORM :: u16 where "VECTOR_FLAG_NORM = 0x0002"
definition VECTOR_FLAG_NORM_RESERVED :: u16 where "VECTOR_FLAG_NORM_RESERVED = 0x0010"
definition VECTOR_FLAG_SPARSE :: u16 where "VECTOR_FLAG_SPARSE = 0x0020"

lemmas vector_consts = VECTOR_MAGIC_BYTE_def VECTOR_VERSION_BASE_def VECTOR_VERSION_WITH_BINARY_def
  VECTOR_VERSION_WITH_SPARSE_def VECTOR_FLAG_NORM_def VECTOR_FLAG_NORM_RESERVED_def VECTOR_FLAG_SPARSE_def

datatype vector_format = FmtFloat32 | FmtFloat64 | FmtInt8 | FmtBinary

definition format_from_wire :: "u8 \<Rightarrow> vector_format result" where
  "format_from_wire value =
     (if value = 2 then Inr FmtFloat32 else if value = 3 then Inr FmtFloat64
      else if value = 4 then Inr FmtInt8 else if value = 5 then Inr FmtBinary
      else Inl (Err (Protocol (''Unsupported vector format: '' @ show_nat (unat value)))))"

primrec format_to_wire :: "vector_format \<Rightarrow> u8" where
  "format_to_wire FmtFloat32 = 2"
| "format_to_wire FmtFloat64 = 3"
| "format_to_wire FmtInt8 = 4"
| "format_to_wire FmtBinary = 5"

datatype vector_data = Float32 "u32 list" | Float64 "u64 list" | Int8 "i8 list" | Binary "u8 list"

record sparse_vector =
  sv_num_dimensions :: u32
  sv_indices :: "u32 list"
  sv_values :: vector_data

datatype oracle_vector = Dense vector_data | Sparse sparse_vector

primrec data_format :: "vector_data \<Rightarrow> vector_format" where
  "data_format (Float32 v) = FmtFloat32"
| "data_format (Float64 v) = FmtFloat64"
| "data_format (Int8 v) = FmtInt8"
| "data_format (Binary v) = FmtBinary"

primrec data_len :: "vector_data \<Rightarrow> nat" where
  "data_len (Float32 v) = length v"
| "data_len (Float64 v) = length v"
| "data_len (Int8 v) = length v"
| "data_len (Binary v) = length v * 8"

primrec dimensions :: "oracle_vector \<Rightarrow> nat" where
  "dimensions (Dense d) = data_len d"
| "dimensions (Sparse s) = unat (sv_num_dimensions s)"

primrec is_sparse :: "oracle_vector \<Rightarrow> bool" where
  "is_sparse (Dense d) = False"
| "is_sparse (Sparse s) = True"

primrec vector_data_of :: "oracle_vector \<Rightarrow> vector_data" where
  "vector_data_of (Dense d) = d"
| "vector_data_of (Sparse s) = sv_values s"

subsection \<open>Decoding\<close>

text \<open>The element loops: element \<open>i\<close> is the \<open>k\<close> bytes at \<open>i * k\<close>.\<close>

fun decode_elems :: "nat \<Rightarrow> string \<Rightarrow> (u8 list \<Rightarrow> 'a) \<Rightarrow> u8 list \<Rightarrow> nat \<Rightarrow> nat \<Rightarrow> 'a list result" where
  "decode_elems k msg dec data i 0 = Inr []"
| "decode_elems k msg dec data i (Suc n) =
     (if length data < i * k + k then Inl (Err (Protocol msg))
      else res_bind (decode_elems k msg dec data (Suc i) n) (\<lambda>vs.
           Inr (dec (take k (drop (i * k) data)) # vs)))"

definition decode_vector_values :: "u8 list \<Rightarrow> nat \<Rightarrow> vector_format \<Rightarrow> vector_data result" where
  "decode_vector_values data num_elements fmt =
     (case fmt of
        FmtFloat32 \<Rightarrow> res_bind (decode_elems 4 ''Vector FLOAT32 data truncated'' decode_binary_float data 0 num_elements)
          (\<lambda>vs. Inr (Float32 vs))
      | FmtFloat64 \<Rightarrow> res_bind (decode_elems 8 ''Vector FLOAT64 data truncated'' decode_binary_double data 0 num_elements)
          (\<lambda>vs. Inr (Float64 vs))
      | FmtInt8 \<Rightarrow> res_bind (decode_elems 1 ''Vector INT8 data truncated'' hd data 0 num_elements)
          (\<lambda>vs. Inr (Int8 vs))
      | FmtBinary \<Rightarrow> res_bind (decode_elems 1 ''Vector BINARY data truncated'' hd data 0 (num_elements div 8))
          (\<lambda>vs. Inr (Binary vs)))"

text \<open>The index loop, from position \<open>pos\<close>; it returns the position after it.\<close>

fun decode_indices :: "u8 list \<Rightarrow> nat \<Rightarrow> nat \<Rightarrow> (u32 list \<times> nat) result" where
  "decode_indices data pos 0 = Inr ([], pos)"
| "decode_indices data pos (Suc n) =
     (if length data < pos + 4 then Inl (Err (Protocol ''Sparse vector indices truncated''))
      else res_bind (decode_indices data (pos + 4) n) (\<lambda>(is, pos').
           Inr (be_word (take 4 (drop pos data)) # is, pos')))"

definition hex_digit :: "nat \<Rightarrow> char" where
  "hex_digit d = char_of (if d < 10 then 48 + d else 55 + d)"

definition show_hex2 :: "u8 \<Rightarrow> string" where
  "show_hex2 b = [hex_digit (unat b div 16), hex_digit (unat b mod 16)]"

definition decode_vector :: "u8 list \<Rightarrow> oracle_vector result" where
  "decode_vector data =
     (if length data < 10 then Inl (Err (Protocol ''Vector data too short''))
      else if data ! 0 \<noteq> VECTOR_MAGIC_BYTE then
        Inl (Err (Protocol (''Invalid vector magic byte: 0x'' @ show_hex2 (data ! 0) @ '', expected 0x''
          @ show_hex2 VECTOR_MAGIC_BYTE)))
      else if VECTOR_VERSION_WITH_SPARSE < data ! 1 then
        Inl (Err (Protocol (''Unsupported vector version: '' @ show_nat (unat (data ! 1)))))
      else
        let flags = (be_word [data ! 2, data ! 3] :: u16)
        in res_bind (format_from_wire (data ! 4)) (\<lambda>fmt.
           let num_elements = (be_word [data ! 5, data ! 6, data ! 7, data ! 8] :: u32);
               pos = (if flags AND VECTOR_FLAG_NORM_RESERVED \<noteq> 0 \<or> flags AND VECTOR_FLAG_NORM \<noteq> 0
                      then 17 else 9)
           in if flags AND VECTOR_FLAG_SPARSE \<noteq> 0 then
                (if length data < pos + 2 then Inl (Err (Protocol ''Sparse vector data too short''))
                 else
                   let num_sparse = unat (be_word [data ! pos, data ! (pos + 1)] :: u16)
                   in res_bind (decode_indices data (pos + 2) num_sparse) (\<lambda>(indices, pos').
                      res_bind (slice_at data pos' (length data)) (\<lambda>rest.
                      res_bind (decode_vector_values rest num_sparse fmt) (\<lambda>values.
                      Inr (Sparse \<lparr>sv_num_dimensions = num_elements, sv_indices = indices,
                                   sv_values = values\<rparr>)))))
              else
                res_bind (slice_at data pos (length data)) (\<lambda>rest.
                res_bind (decode_vector_values rest (unat num_elements) fmt) (\<lambda>values.
                Inr (Dense values)))))"

subsection \<open>Encoding\<close>

primrec encode_vector_values :: "vector_data \<Rightarrow> u8 list" where
  "encode_vector_values (Float32 vs) = concat (map encode_binary_float vs)"
| "encode_vector_values (Float64 vs) = concat (map encode_binary_double vs)"
| "encode_vector_values (Int8 vs) = vs"
| "encode_vector_values (Binary vs) = vs"

definition encode_vector :: "oracle_vector \<Rightarrow> u8 list" where
  "encode_vector v =
     (let (fmt, num_elements, sparse) =
            (case v of
               Dense d \<Rightarrow> (data_format d, of_nat (data_len d) :: u32, False)
             | Sparse s \<Rightarrow> (data_format (sv_values s), sv_num_dimensions s, True));
          version = (if sparse then VECTOR_VERSION_WITH_SPARSE
                     else if fmt = FmtBinary then VECTOR_VERSION_WITH_BINARY
                     else VECTOR_VERSION_BASE);
          flags = (if sparse then VECTOR_FLAG_NORM_RESERVED OR (VECTOR_FLAG_SPARSE OR VECTOR_FLAG_NORM)
                   else if fmt \<noteq> FmtBinary then VECTOR_FLAG_NORM_RESERVED OR VECTOR_FLAG_NORM
                   else VECTOR_FLAG_NORM_RESERVED)
      in VECTOR_MAGIC_BYTE # version # be_bytes 2 flags @ [format_to_wire fmt] @ be_bytes 4 num_elements
         @ replicate 8 0
         @ (case v of
              Dense d \<Rightarrow> encode_vector_values d
            | Sparse s \<Rightarrow> be_bytes 2 (of_nat (length (sv_indices s)) :: u16)
                @ concat (map (be_bytes 4) (sv_indices s)) @ encode_vector_values (sv_values s)))"

subsection \<open>Element loops\<close>

lemma decode_elems_encode:
  assumes "\<And>v. length (enc v) = k" "\<And>v. dec (enc v) = v"
    and "data = pre @ concat (map enc vs) @ post" "length pre = i * k"
  shows "decode_elems k msg dec data i (length vs) = Inr vs"
  using assms(3,4)
proof (induction vs arbitrary: pre i)
  case Nil
  show ?case by simp
next
  case (Cons v vs)
  have "data = (pre @ enc v) @ concat (map enc vs) @ post" "length (pre @ enc v) = Suc i * k"
    using Cons.prems by (simp_all add: assms(1))
  from Cons.IH [OF this] Cons.prems show ?case
    by (simp add: assms(1,2))
qed

lemma decode_elems_no_panic [simp]: "decode_elems k msg dec data i n \<noteq> Inl Panic"
proof (induction n arbitrary: i)
  case (Suc n)
  then show ?case by (cases "decode_elems k msg dec data (Suc i) n") auto
qed simp

lemma res_bind_Inr_Inl [simp]: "res_bind r (\<lambda>a. Inr (f a)) = Inl e \<longleftrightarrow> r = Inl e"
  by (cases r) simp_all

lemma decode_values_no_panic [simp]: "decode_vector_values data n fmt \<noteq> Inl Panic"
  by (simp add: decode_vector_values_def split: vector_format.splits)

lemma concat_singletons: "concat (map (\<lambda>v. [v]) vs) = vs"
  by (induction vs) simp_all

lemma decode_values_encode:
  assumes "n = data_len d"
  shows "decode_vector_values (encode_vector_values d) n (data_format d) = Inr d"
proof (cases d)
  case (Float32 vs)
  have "decode_binary_float (encode_binary_float v) = v" for v
    using decode_float_wire [of "wire_float v" "[]"] by (simp add: encode_float_wire)
  then show ?thesis
    using decode_elems_encode [of encode_binary_float 4 decode_binary_float
        "concat (map encode_binary_float vs)" "[]" vs "[]" 0] Float32 assms
    by (simp add: decode_vector_values_def encode_float_wire)
next
  case (Float64 vs)
  have "decode_binary_double (encode_binary_double v) = v" for v
    using decode_double_wire [of "wire_float v" "[]"] by (simp add: encode_double_wire)
  then show ?thesis
    using decode_elems_encode [of encode_binary_double 8 decode_binary_double
        "concat (map encode_binary_double vs)" "[]" vs "[]" 0] Float64 assms
    by (simp add: decode_vector_values_def encode_double_wire)
next
  case (Int8 vs)
  then show ?thesis
    using decode_elems_encode [of "\<lambda>v. [v]" 1 hd vs "[]" vs "[]" 0] assms
    by (simp add: decode_vector_values_def concat_singletons)
next
  case (Binary vs)
  then show ?thesis
    using decode_elems_encode [of "\<lambda>v. [v]" 1 hd vs "[]" vs "[]" 0] assms
    by (simp add: decode_vector_values_def concat_singletons)
qed

lemma decode_indices_encode:
  assumes "data = pre @ concat (map (be_bytes 4) is) @ post" "length pre = pos"
  shows "decode_indices data pos (length is) = Inr (is, pos + 4 * length is)"
  using assms
proof (induction "is" arbitrary: pre pos)
  case Nil
  then show ?case by simp
next
  case (Cons i "is")
  have "data = (pre @ be_bytes 4 i) @ concat (map (be_bytes 4) is) @ post" "length (pre @ be_bytes 4 i) = pos + 4"
    using Cons.prems by simp_all
  from Cons.IH [OF this] Cons.prems show ?case
    by (simp add: be_word_be_bytes_full)
qed

lemma decode_indices_pos:
  "decode_indices data pos n = Inr (is, p) \<Longrightarrow> pos \<le> length data \<Longrightarrow> p \<le> length data"
  by (induction n arbitrary: pos "is") (auto simp: res_bind_Inr_iff split: if_splits prod.splits)

lemma decode_indices_no_panic [simp]: "decode_indices data pos n \<noteq> Inl Panic"
proof (induction n arbitrary: pos)
  case (Suc n)
  then show ?case by (cases "decode_indices data (pos + 4) n") auto
qed simp

subsection \<open>Properties\<close>

text \<open>
  The vectors the image can carry: the element count in 32 bits for a dense vector; for a
  sparse one, as many values as indices, counted in 16 bits.
\<close>

definition vector_fits :: "oracle_vector \<Rightarrow> bool" where
  "vector_fits v \<longleftrightarrow>
     (case v of
        Dense d \<Rightarrow> data_len d < 2 ^ 32
      | Sparse s \<Rightarrow> data_len (sv_values s) = length (sv_indices s) \<and> length (sv_indices s) < 2 ^ 16)"

lemma format_wire [simp]: "format_from_wire (format_to_wire f) = Inr f"
  by (cases f) (simp_all add: format_from_wire_def)

lemma be_bytes_2: "be_bytes 2 w = [ucast (drop_bit 8 w), ucast w]"
  by (simp add: be_bytes_def eval_nat_numeral)

lemma be_word_2: "be_word [ucast (drop_bit 8 w), ucast w] = (w :: u16)"
  using be_word_be_bytes_full [of 2 w] by (simp add: be_bytes_2)

lemma be_word_4:
  "be_word [ucast (drop_bit 24 w), ucast (drop_bit 16 w), ucast (drop_bit 8 w), ucast w] = (w :: u32)"
  using be_word_be_bytes_full [of 4 w] by (simp add: be_bytes_4)

lemma decode_header:
  fixes flags :: u16 and num :: u32
  assumes "ver \<le> 2" "flags AND VECTOR_FLAG_NORM_RESERVED \<noteq> 0"
  shows "decode_vector (VECTOR_MAGIC_BYTE # ver # be_bytes 2 flags @ [format_to_wire fmt] @ be_bytes 4 num
      @ replicate 8 0 @ body) =
    (if flags AND VECTOR_FLAG_SPARSE \<noteq> 0 then
       (if length body < 2 then Inl (Err (Protocol ''Sparse vector data too short''))
        else
          let data = VECTOR_MAGIC_BYTE # ver # be_bytes 2 flags @ [format_to_wire fmt] @ be_bytes 4 num
                @ replicate 8 0 @ body;
              num_sparse = unat (be_word [body ! 0, body ! 1] :: u16)
          in res_bind (decode_indices data 19 num_sparse) (\<lambda>(indices, pos').
             res_bind (slice_at data pos' (length data)) (\<lambda>rest.
             res_bind (decode_vector_values rest num_sparse fmt) (\<lambda>values.
             Inr (Sparse \<lparr>sv_num_dimensions = num, sv_indices = indices, sv_values = values\<rparr>)))))
     else res_bind (decode_vector_values body (unat num) fmt) (\<lambda>values. Inr (Dense values)))"
proof -
  let ?data = "VECTOR_MAGIC_BYTE # ver # be_bytes 2 flags @ [format_to_wire fmt] @ be_bytes 4 num
                @ replicate 8 0 @ body"
  have r8: "replicate 8 (0 :: u8) = [0, 0, 0, 0, 0, 0, 0, 0]" by (simp add: eval_nat_numeral)
  have sl: "slice_at ?data 17 (length ?data) = (Inr body :: u8 list result)"
    by (simp add: r8 be_bytes_2 be_bytes_4)
  have nth: "?data ! 17 = body ! 0" "?data ! (17 + 1) = body ! 1" if "2 \<le> length body"
    using that by (simp_all add: r8 be_bytes_2 be_bytes_4)
  have parts: "?data ! 0 = VECTOR_MAGIC_BYTE" "?data ! 1 = ver"
    "(be_word [?data ! 2, ?data ! 3] :: u16) = flags" "?data ! 4 = format_to_wire fmt"
    "(be_word [?data ! 5, ?data ! 6, ?data ! 7, ?data ! 8] :: u32) = num"
    "length ?data = 17 + length body"
    by (simp_all add: be_bytes_2 be_bytes_4 be_word_2 be_word_4)
  have v: "\<not> VECTOR_VERSION_WITH_SPARSE < ver" using assms(1) by (simp add: vector_consts not_less)
  have l: "\<not> length ?data < 10" "length ?data < 17 + 2 \<longleftrightarrow> length body < 2"
    using parts(6) by simp_all
  show ?thesis
    unfolding decode_vector_def parts(1-5) Let_def
    using v l(1) assms(2) nth
    by (auto simp: sl l(2))
qed

lemma flag_facts:
  "VECTOR_FLAG_NORM_RESERVED OR (VECTOR_FLAG_SPARSE OR VECTOR_FLAG_NORM) = 0x32"
  "VECTOR_FLAG_NORM_RESERVED OR VECTOR_FLAG_NORM = 0x12"
  "(0x32 :: u16) AND VECTOR_FLAG_NORM_RESERVED \<noteq> 0" "(0x32 :: u16) AND VECTOR_FLAG_SPARSE \<noteq> 0"
  "(0x12 :: u16) AND VECTOR_FLAG_NORM_RESERVED \<noteq> 0" "(0x12 :: u16) AND VECTOR_FLAG_SPARSE = 0"
  "VECTOR_FLAG_NORM_RESERVED \<noteq> 0"
  "VECTOR_FLAG_NORM_RESERVED AND VECTOR_FLAG_SPARSE = 0"
  by (simp_all add: vector_consts)

lemma dense_roundtrip:
  assumes "data_len d < 2 ^ 32"
  shows "decode_vector (encode_vector (Dense d)) = Inr (Dense d)"
proof -
  have n: "unat (of_nat (data_len d) :: u32) = data_len d"
    using assms by (simp add: unat_of_nat)
  have v: "VECTOR_VERSION_WITH_BINARY \<le> 2" "VECTOR_VERSION_BASE \<le> 2"
    by (simp_all add: vector_consts)
  note h = decode_header [of _ _ "data_format d" "of_nat (data_len d)" "encode_vector_values d"]
  note h2 = decode_header [of _ _ FmtBinary "of_nat (data_len d)" "encode_vector_values d"]
  show ?thesis
    using decode_values_encode [of "data_len d" d] n
    by (cases "data_format d = FmtBinary")
      (simp_all add: encode_vector_def h [simplified] h2 [simplified] v flag_facts)
qed

lemma sparse_roundtrip:
  assumes "data_len (sv_values s) = length (sv_indices s)" "length (sv_indices s) < 2 ^ 16"
  shows "decode_vector (encode_vector (Sparse s)) = Inr (Sparse s)"
proof -
  let ?n = "of_nat (length (sv_indices s)) :: u16"
  define body where "body = be_bytes 2 ?n @ concat (map (be_bytes 4) (sv_indices s)) @ encode_vector_values (sv_values s)"
  define data where "data = VECTOR_MAGIC_BYTE # VECTOR_VERSION_WITH_SPARSE # be_bytes 2 (0x32 :: u16)
    @ [format_to_wire (data_format (sv_values s))] @ be_bytes 4 (sv_num_dimensions s) @ replicate 8 0 @ body"
  define pre where "pre = VECTOR_MAGIC_BYTE # VECTOR_VERSION_WITH_SPARSE # be_bytes 2 (0x32 :: u16)
    @ [format_to_wire (data_format (sv_values s))] @ be_bytes 4 (sv_num_dimensions s) @ replicate 8 0 @ be_bytes 2 ?n"
  have enc: "encode_vector (Sparse s) = data"
    by (simp add: encode_vector_def data_def body_def flag_facts)
  have data: "data = pre @ concat (map (be_bytes 4) (sv_indices s)) @ encode_vector_values (sv_values s)"
    and pre: "length pre = 19"
    by (simp_all add: data_def body_def pre_def)
  have n: "unat ?n = length (sv_indices s)"
    using assms(2) by (simp add: unat_of_nat)
  have "be_word [body ! 0, body ! 1] = ?n" "\<not> length body < 2"
    by (simp_all add: body_def be_bytes_2 be_word_2)
  moreover have "VECTOR_VERSION_WITH_SPARSE \<le> 2" by (simp add: vector_consts)
  moreover have "length (concat (map (be_bytes 4) is)) = 4 * length is" for "is" :: "u32 list"
    by (induction "is") simp_all
  then have "slice_at data (19 + 4 * length (sv_indices s)) (length data)
      = (Inr (encode_vector_values (sv_values s)) :: u8 list result)"
    unfolding data using pre by simp
  ultimately show ?thesis
    unfolding enc data_def
    using decode_indices_encode [OF data pre] decode_values_encode [of "length (sv_indices s)" "sv_values s"] assms(1)
      decode_header [of VECTOR_VERSION_WITH_SPARSE "0x32" "data_format (sv_values s)" "sv_num_dimensions s" body]
    unfolding data_def [symmetric] by (simp add: n flag_facts Let_def)
qed

text \<open>
  C36: vectors round trip: every dense vector whose element count fits 32 bits and every sparse
  vector with one value per index, of any of the four formats, is decoded as it was encoded.
\<close>

theorem vector_roundtrip:
  assumes "vector_fits v"
  shows "decode_vector (encode_vector v) = Inr v"
  using assms dense_roundtrip sparse_roundtrip
  by (auto simp: vector_fits_def split: oracle_vector.splits)

definition test_vector :: oracle_vector where
  "test_vector = Sparse \<lparr>sv_num_dimensions = 100, sv_indices = [3, 70], sv_values = Int8 [-1, 5]\<rparr>"

theorem vector_roundtrip_witness: "decode_vector (encode_vector test_vector) = Inr test_vector"
  by (rule vector_roundtrip) (simp add: vector_fits_def test_vector_def)

text \<open>
  On arbitrary bytes the decoder panics in one case only: a dense image with a valid header
  that announces the eight norm bytes but ends before them (ten to sixteen bytes long).
\<close>

theorem vector_decode_panics_iff:
  "decode_vector data = Inl Panic \<longleftrightarrow>
     10 \<le> length data \<and> length data < 17 \<and> data ! 0 = VECTOR_MAGIC_BYTE \<and> data ! 1 \<le> 2
     \<and> is_ok (format_from_wire (data ! 4))
     \<and> (be_word [data ! 2, data ! 3] AND VECTOR_FLAG_NORM_RESERVED \<noteq> (0 :: u16)
        \<or> be_word [data ! 2, data ! 3] AND VECTOR_FLAG_NORM \<noteq> (0 :: u16))
     \<and> be_word [data ! 2, data ! 3] AND VECTOR_FLAG_SPARSE = (0 :: u16)"
proof (cases "length data < 10 \<or> data ! 0 \<noteq> VECTOR_MAGIC_BYTE \<or> VECTOR_VERSION_WITH_SPARSE < data ! 1")
  case True
  then show ?thesis
    by (auto simp: decode_vector_def vector_consts not_less)
next
  case head: False
  define flags where "flags = (be_word [data ! 2, data ! 3] :: u16)"
  define pos where "pos = (if flags AND VECTOR_FLAG_NORM_RESERVED \<noteq> 0 \<or> flags AND VECTOR_FLAG_NORM \<noteq> 0
    then 17 else 9 :: nat)"
  have hd: "\<not> length data < 10" "\<not> data ! 0 \<noteq> VECTOR_MAGIC_BYTE" "\<not> VECTOR_VERSION_WITH_SPARSE < data ! 1"
    using head by auto
  show ?thesis
  proof (cases "format_from_wire (data ! 4)")
    case (Inl e)
    then have "e \<noteq> Panic" by (auto simp: format_from_wire_def split: if_splits)
    then show ?thesis
      unfolding decode_vector_def Let_def if_not_P [OF hd(1)] if_not_P [OF hd(2)] if_not_P [OF hd(3)]
      by (simp add: Inl is_ok_def)
  next
    case (Inr fmt)
    show ?thesis
    proof (cases "flags AND VECTOR_FLAG_SPARSE = 0")
      case True
      have "decode_vector data = Inl Panic \<longleftrightarrow> length data < pos"
        unfolding decode_vector_def Let_def if_not_P [OF hd(1)] if_not_P [OF hd(2)] if_not_P [OF hd(3)] Inr
          flags_def [symmetric] pos_def [symmetric]
        using True by (auto simp: slice_at_def)
      then show ?thesis
        using head True Inr by (auto simp: flags_def [symmetric] pos_def is_ok_def not_less vector_consts)
    next
      case False
      let ?n = "unat (be_word [data ! pos, data ! (pos + 1)] :: u16)"
      have "decode_vector data \<noteq> Inl Panic"
      proof (cases "length data < pos + 2")
        case True
        then show ?thesis
          unfolding decode_vector_def Let_def if_not_P [OF hd(1)] if_not_P [OF hd(2)] if_not_P [OF hd(3)] Inr
            flags_def [symmetric] pos_def [symmetric]
          using False by simp
      next
        case long: False
        have "decode_indices data (pos + 2) ?n = Inl Panic \<or> (\<exists>is p. decode_indices data (pos + 2) ?n = Inr (is, p)
            \<and> p \<le> length data) \<or> (\<exists>x. decode_indices data (pos + 2) ?n = Inl (Err x))"
          using decode_indices_pos [of data "pos + 2" ?n] long
          by (cases "decode_indices data (pos + 2) ?n") (auto intro: fault.exhaust)
        with False long show ?thesis
          unfolding decode_vector_def Let_def if_not_P [OF hd(1)] if_not_P [OF hd(2)] if_not_P [OF hd(3)] Inr
            flags_def [symmetric] pos_def [symmetric]
          by auto
      qed
      then show ?thesis using False by (simp add: flags_def [symmetric])
    qed
  qed
qed

theorem vector_decode_panics_iff_witness:
  "decode_vector [0xDB, 0, 0, 0x12, 2, 0, 0, 0, 1, 0] = Inl Panic"
proof -
  have "is_ok (format_from_wire 2)" "(be_word [0, 0x12] :: u16) = 0x12" by code_simp+
  then show ?thesis
    unfolding vector_decode_panics_iff by (simp add: vector_consts)
qed

end
