(* ===== verification/Statement.thy ===== *)
theory Statement
  imports Codes
begin

section \<open>SQL statements and their bind variables\<close>

text \<open>
  \<open>src/src/statement.rs\<close>: the statement's state, the detection of its type, and the scan for
  bind variables.  SQL text here is ASCII, where a \<open>char\<close> of the source is a byte and
  \<open>to_uppercase\<close>, \<open>is_alphanumeric\<close> and \<open>is_whitespace\<close> are the ASCII ones.
\<close>

subsection \<open>Data\<close>

datatype statement_type = StUnknown | StQuery | StDml | StDdl | StPlSql

record bind_info =
  bi_name :: string
  bi_is_return_bind :: bool
  bi_oracle_type :: "oracle_type option"
  bi_buffer_size :: u32
  bi_precision :: i16
  bi_scale :: i16
  bi_csfrm :: u8
  bi_bind_dir :: u8
  bi_is_array :: bool
  bi_num_elements :: u32

definition bind_info_new :: "string \<Rightarrow> bool \<Rightarrow> bind_info" where
  "bind_info_new name is_return_bind =
     \<lparr>bi_name = name, bi_is_return_bind = is_return_bind, bi_oracle_type = None, bi_buffer_size = 0,
      bi_precision = 0, bi_scale = 0, bi_csfrm = 0, bi_bind_dir = bind_direction_byte BindInput,
      bi_is_array = False, bi_num_elements = 0\<rparr>"

datatype collection_type = PlsqlIndexTable | NestedTable | Varray

record column_info =
  ci_name :: string
  ci_oracle_type :: oracle_type
  ci_data_size :: u32
  ci_buffer_size :: u32
  ci_precision :: i16
  ci_scale :: i16
  ci_nullable :: bool
  ci_csfrm :: u8
  ci_type_schema :: "string option"
  ci_type_name :: "string option"
  ci_domain_schema :: "string option"
  ci_domain_name :: "string option"
  ci_is_json :: bool
  ci_is_oson :: bool
  ci_vector_dimensions :: "u32 option"
  ci_vector_format :: "u8 option"
  ci_element_type :: "oracle_type option"
  ci_collection_type :: "collection_type option"

definition column_info_new :: "string \<Rightarrow> oracle_type \<Rightarrow> column_info" where
  "column_info_new name oracle_type =
     \<lparr>ci_name = name, ci_oracle_type = oracle_type, ci_data_size = 0, ci_buffer_size = 0,
      ci_precision = 0, ci_scale = 0, ci_nullable = True, ci_csfrm = 0, ci_type_schema = None,
      ci_type_name = None, ci_domain_schema = None, ci_domain_name = None, ci_is_json = False,
      ci_is_oson = False, ci_vector_dimensions = None, ci_vector_format = None,
      ci_element_type = None, ci_collection_type = None\<rparr>"

record statement =
  st_sql :: string
  st_sql_bytes :: "u8 list"
  st_type :: statement_type
  st_cursor_id :: u16
  st_bind_info_list :: "bind_info list"
  st_columns :: "column_info list"
  st_executed :: bool
  st_binds_changed :: bool
  st_requires_define :: bool
  st_no_prefetch :: bool
  st_is_returning :: bool

subsection \<open>Characters\<close>

definition ascii_code :: "char \<Rightarrow> nat" where
  "ascii_code c = of_char c"

definition ascii_upper :: "char \<Rightarrow> char" where
  "ascii_upper c = (if 97 \<le> ascii_code c \<and> ascii_code c \<le> 122 then char_of (ascii_code c - 32) else c)"

definition is_alphabetic :: "char \<Rightarrow> bool" where
  "is_alphabetic c \<longleftrightarrow>
     65 \<le> ascii_code c \<and> ascii_code c \<le> 90 \<or> 97 \<le> ascii_code c \<and> ascii_code c \<le> 122"

definition is_alphanumeric :: "char \<Rightarrow> bool" where
  "is_alphanumeric c \<longleftrightarrow> is_alphabetic c \<or> is_digit_char c"

definition is_whitespace :: "char \<Rightarrow> bool" where
  "is_whitespace c \<longleftrightarrow> ascii_code c = 32 \<or> 9 \<le> ascii_code c \<and> ascii_code c \<le> 13"

text \<open>\<open>while i < len && p(chars[i]) { i += 1 }\<close>\<close>

definition scan_while :: "(char \<Rightarrow> bool) \<Rightarrow> string \<Rightarrow> nat \<Rightarrow> nat" where
  "scan_while p chars i = i + length (takeWhile p (drop i chars))"

subsection \<open>Parsing\<close>

definition quote_char :: char where "quote_char = char_of (39 :: nat)"
definition dquote_char :: char where "dquote_char = char_of (34 :: nat)"
definition newline_char :: char where "newline_char = char_of (10 :: nat)"

definition match_keyword :: "string \<Rightarrow> nat \<Rightarrow> string \<Rightarrow> bool" where
  "match_keyword chars pos keyword \<longleftrightarrow>
     pos + length keyword \<le> length chars
     \<and> \<not> (0 < pos \<and> is_alphanumeric (chars ! (pos - 1)))
     \<and> list_all (\<lambda>i. chars ! (pos + i) = keyword ! i) [0..<length keyword]
     \<and> \<not> (pos + length keyword < length chars \<and> is_alphanumeric (chars ! (pos + length keyword)))"

definition is_name_char :: "char \<Rightarrow> bool" where
  "is_name_char c \<longleftrightarrow> is_alphanumeric c \<or> c = CHR ''_'' \<or> c = CHR ''$'' \<or> c = CHR ''#''"

definition extract_bind_name :: "string \<Rightarrow> nat \<Rightarrow> string" where
  "extract_bind_name chars start =
     (let i = scan_while is_whitespace chars start
      in if length chars \<le> i then []
         else
           let first_char = chars ! i
           in if first_char = dquote_char then
                take (scan_while (\<lambda>c. c \<noteq> dquote_char) chars (i + 1) - (i + 1)) (drop (i + 1) chars)
              else if is_digit_char first_char then
                take (scan_while is_digit_char chars i - i) (drop i chars)
              else if \<not> is_alphabetic first_char then []
              else map ascii_upper (take (scan_while is_name_char chars i - i) (drop i chars)))"

record scan =
  sc_in_string :: bool
  sc_in_comment :: bool
  sc_in_line_comment :: bool
  sc_returning_found :: bool
  sc_into_found :: bool
  sc_is_returning :: bool
  sc_binds :: "bind_info list"

definition scan_new :: scan where
  "scan_new = \<lparr>sc_in_string = False, sc_in_comment = False, sc_in_line_comment = False,
     sc_returning_found = False, sc_into_found = False, sc_is_returning = False, sc_binds = []\<rparr>"

text \<open>One iteration of the scan: the next index and the flags after it.\<close>

definition bind_step :: "statement_type \<Rightarrow> string \<Rightarrow> nat \<Rightarrow> scan \<Rightarrow> nat \<times> scan" where
  "bind_step ty chars i sc =
     (if chars ! i = CHR '':'' \<and> i + 1 < length chars \<and> extract_bind_name chars (i + 1) \<noteq> [] then
        let bind_name = extract_bind_name chars (i + 1);
            should_add = (if ty = StPlSql then bind_name \<notin> set (map bi_name (sc_binds sc)) else True)
        in (i + (1 + length bind_name),
            if should_add then sc\<lparr>sc_binds := sc_binds sc @ [bind_info_new bind_name (sc_into_found sc)]\<rparr>
            else sc)
      else (i + 1, sc))"

definition scan_step :: "statement_type \<Rightarrow> string \<Rightarrow> string \<Rightarrow> nat \<Rightarrow> scan \<Rightarrow> nat \<times> scan" where
  "scan_step ty chars chars_upper i sc =
     (let ch = chars ! i;
          next_is = (\<lambda>c. i + 1 < length chars \<and> chars ! (i + 1) = c)
      in if ch = quote_char \<and> \<not> sc_in_comment sc \<and> \<not> sc_in_line_comment sc then
           (i + 1, sc\<lparr>sc_in_string := \<not> sc_in_string sc\<rparr>)
         else if sc_in_string sc then (i + 1, sc)
         else if ch = CHR ''-'' \<and> next_is (CHR ''-'') then (i + 2, sc\<lparr>sc_in_line_comment := True\<rparr>)
         else if sc_in_line_comment sc then
           (i + 1, if ch = newline_char then sc\<lparr>sc_in_line_comment := False\<rparr> else sc)
         else if ch = CHR ''/'' \<and> next_is (CHR ''*'') then (i + 2, sc\<lparr>sc_in_comment := True\<rparr>)
         else if sc_in_comment sc then
           (if ch = CHR ''*'' \<and> next_is (CHR ''/'') then (i + 2, sc\<lparr>sc_in_comment := False\<rparr>)
            else (i + 1, sc))
         else if ty = StDml \<and> \<not> sc_returning_found sc \<and> match_keyword chars_upper i ''RETURNING'' then
           (i + 9, sc\<lparr>sc_returning_found := True\<rparr>)
         else if sc_returning_found sc \<and> \<not> sc_into_found sc \<and> match_keyword chars_upper i ''INTO'' then
           (i + 4, sc\<lparr>sc_into_found := True, sc_is_returning := True\<rparr>)
         else bind_step ty chars i sc)"

lemma scan_step_progress: "i < fst (scan_step ty chars upper i sc)"
  by (simp add: scan_step_def bind_step_def Let_def)

function scan_loop_binds :: "statement_type \<Rightarrow> string \<Rightarrow> string \<Rightarrow> nat \<Rightarrow> scan \<Rightarrow> scan" where
  "scan_loop_binds ty chars chars_upper i sc =
     (if i < length chars then
        (case scan_step ty chars chars_upper i sc of (j, sc') \<Rightarrow> scan_loop_binds ty chars chars_upper j sc')
      else sc)"
  by pat_completeness auto
termination
  by (relation "measure (\<lambda>(ty, chars, upper, i, sc). length chars - i)")
    (auto simp: case_prod_beta intro!: diff_less_mono2 scan_step_progress)

declare scan_loop_binds.simps [simp del]

definition parse_bind_variables :: "statement \<Rightarrow> statement" where
  "parse_bind_variables s =
     (let sc = scan_loop_binds (st_type s) (st_sql s) (map ascii_upper (st_sql s)) 0
                 (scan_new\<lparr>sc_is_returning := st_is_returning s, sc_binds := st_bind_info_list s\<rparr>)
      in s\<lparr>st_bind_info_list := sc_binds sc, st_is_returning := sc_is_returning sc\<rparr>)"

definition keyword_type :: "string \<Rightarrow> statement_type" where
  "keyword_type w =
     (if w \<in> set [''SELECT'', ''WITH''] then StQuery
      else if w \<in> set [''INSERT'', ''UPDATE'', ''DELETE'', ''MERGE''] then StDml
      else if w \<in> set [''CREATE'', ''ALTER'', ''DROP'', ''GRANT'', ''REVOKE'', ''ANALYZE'', ''AUDIT'',
                       ''COMMENT'', ''TRUNCATE''] then StDdl
      else if w \<in> set [''DECLARE'', ''BEGIN'', ''CALL''] then StPlSql
      else StUnknown)"

text \<open>The first word after \<open>trim_start\<close>, by \<open>split_whitespace().next()\<close>.\<close>

definition first_word :: "string \<Rightarrow> string" where
  "first_word t = takeWhile (\<lambda>c. \<not> is_whitespace c) (dropWhile is_whitespace t)"

definition parse_statement :: "statement \<Rightarrow> statement" where
  "parse_statement s =
     (let w = first_word (map ascii_upper (st_sql s));
          s' = (if w = [] then s else s\<lparr>st_type := keyword_type w\<rparr>)
      in if st_type s' = StDdl then s' else parse_bind_variables s')"

definition statement_new :: "string \<Rightarrow> statement" where
  "statement_new sql =
     parse_statement \<lparr>st_sql = sql, st_sql_bytes = bytes_of_text sql, st_type = StUnknown,
       st_cursor_id = 0, st_bind_info_list = [], st_columns = [], st_executed = False,
       st_binds_changed = False, st_requires_define = False, st_no_prefetch = False,
       st_is_returning = False\<rparr>"

subsection \<open>State changes\<close>

definition set_cursor_id :: "u16 \<Rightarrow> statement \<Rightarrow> statement" where
  "set_cursor_id v s = s\<lparr>st_cursor_id := v\<rparr>"

definition set_columns :: "column_info list \<Rightarrow> statement \<Rightarrow> statement" where
  "set_columns v s = s\<lparr>st_columns := v\<rparr>"

definition set_executed :: "bool \<Rightarrow> statement \<Rightarrow> statement" where
  "set_executed v s = s\<lparr>st_executed := v\<rparr>"

definition set_binds_changed :: "bool \<Rightarrow> statement \<Rightarrow> statement" where
  "set_binds_changed v s = s\<lparr>st_binds_changed := v\<rparr>"

definition set_requires_define :: "bool \<Rightarrow> statement \<Rightarrow> statement" where
  "set_requires_define v s = s\<lparr>st_requires_define := v\<rparr>"

definition set_no_prefetch :: "bool \<Rightarrow> statement \<Rightarrow> statement" where
  "set_no_prefetch v s = s\<lparr>st_no_prefetch := v\<rparr>"

definition set_statement_type :: "statement_type \<Rightarrow> statement \<Rightarrow> statement" where
  "set_statement_type v s = s\<lparr>st_type := v\<rparr>"

definition is_query :: "statement \<Rightarrow> bool" where "is_query s \<longleftrightarrow> st_type s = StQuery"
definition is_dml :: "statement \<Rightarrow> bool" where "is_dml s \<longleftrightarrow> st_type s = StDml"
definition is_ddl :: "statement \<Rightarrow> bool" where "is_ddl s \<longleftrightarrow> st_type s = StDdl"
definition is_plsql :: "statement \<Rightarrow> bool" where "is_plsql s \<longleftrightarrow> st_type s = StPlSql"

definition clear_statement :: "statement \<Rightarrow> statement" where
  "clear_statement s = s\<lparr>st_cursor_id := 0, st_columns := [], st_executed := False,
     st_binds_changed := False, st_requires_define := False, st_no_prefetch := False\<rparr>"

definition clone_for_reuse :: "statement \<Rightarrow> statement" where
  "clone_for_reuse s =
     \<lparr>st_sql = st_sql s, st_sql_bytes = st_sql_bytes s, st_type = st_type s,
      st_cursor_id = st_cursor_id s, st_bind_info_list = st_bind_info_list s,
      st_columns = st_columns s, st_executed = st_executed s, st_binds_changed = False,
      st_requires_define = False, st_no_prefetch = st_no_prefetch s,
      st_is_returning = st_is_returning s\<rparr>"

definition bind_names :: "statement \<Rightarrow> string list" where
  "bind_names s = map bi_name (st_bind_info_list s)"

subsection \<open>Segments of SQL text\<close>

text \<open>
  The specification of the bind scan: text as a sequence of single characters, string literals,
  the two kinds of comments and bind variables.  \<open>segs_ok\<close> says that each piece ends where it is
  meant to; a block comment holds none of the pairs \<open>*/\<close>, \<open>/*\<close> and \<open>--\<close>.
\<close>

datatype seg = Chr char | Lit string | LineComment string | BlockComment string | Bind string

primrec render_seg :: "seg \<Rightarrow> string" where
  "render_seg (Chr c) = [c]"
| "render_seg (Lit t) = quote_char # t @ [quote_char]"
| "render_seg (LineComment t) = ''--'' @ t @ [newline_char]"
| "render_seg (BlockComment t) = ''/*'' @ t @ ''*/''"
| "render_seg (Bind n) = CHR '':'' # n"

definition render :: "seg list \<Rightarrow> string" where
  "render ss = concat (map render_seg ss)"

lemma render_simps [simp]: "render [] = []" "render (s # ss) = render_seg s @ render ss"
  by (simp_all add: render_def)

fun no_pair :: "char \<Rightarrow> char \<Rightarrow> string \<Rightarrow> bool" where
  "no_pair a b (c # d # t) \<longleftrightarrow> \<not> (c = a \<and> d = b) \<and> no_pair a b (d # t)"
| "no_pair a b _ \<longleftrightarrow> True"

definition starts_with :: "(char \<Rightarrow> bool) \<Rightarrow> string \<Rightarrow> bool" where
  "starts_with p t \<longleftrightarrow> (case t of [] \<Rightarrow> False | c # _ \<Rightarrow> p c)"

definition bind_name_ok :: "string \<Rightarrow> bool" where
  "bind_name_ok n \<longleftrightarrow> (case n of [] \<Rightarrow> False
     | c # _ \<Rightarrow> is_digit_char c \<and> list_all is_digit_char n \<or> is_alphabetic c \<and> list_all is_name_char n)"

text \<open>A segment in front of the text \<open>rest\<close>.\<close>

primrec seg_ok :: "seg \<Rightarrow> string \<Rightarrow> bool" where
  "seg_ok (Chr c) rest \<longleftrightarrow> c \<noteq> quote_char \<and> c \<noteq> CHR '':''
     \<and> \<not> (c = CHR ''-'' \<and> starts_with (\<lambda>d. d = CHR ''-'') rest)
     \<and> \<not> (c = CHR ''/'' \<and> starts_with (\<lambda>d. d = CHR ''*'') rest)"
| "seg_ok (Lit t) rest \<longleftrightarrow> quote_char \<notin> set t"
| "seg_ok (LineComment t) rest \<longleftrightarrow> newline_char \<notin> set t"
| "seg_ok (BlockComment t) rest \<longleftrightarrow> no_pair (CHR ''-'') (CHR ''-'') t \<and> no_pair (CHR ''*'') (CHR ''/'') (t @ ''*'')
     \<and> no_pair (CHR ''/'') (CHR ''*'') (t @ ''*'')"
| "seg_ok (Bind n) rest \<longleftrightarrow> bind_name_ok n \<and> \<not> starts_with is_name_char rest"

fun segs_ok :: "seg list \<Rightarrow> bool" where
  "segs_ok [] = True"
| "segs_ok (s # ss) \<longleftrightarrow> seg_ok s (render ss) \<and> segs_ok ss"

fun seg_binds :: "seg list \<Rightarrow> string list" where
  "seg_binds [] = []"
| "seg_binds (Bind n # ss) = map ascii_upper n # seg_binds ss"
| "seg_binds (_ # ss) = seg_binds ss"

text \<open>PL/SQL keeps the first occurrence of a name.\<close>

definition add_name :: "statement_type \<Rightarrow> string list \<Rightarrow> string \<Rightarrow> string list" where
  "add_name ty names n = (if ty = StPlSql \<and> n \<in> set names then names else names @ [n])"

definition collect :: "statement_type \<Rightarrow> string list \<Rightarrow> string list \<Rightarrow> string list" where
  "collect ty names ns = foldl (add_name ty) names ns"

subsection \<open>The scan on segments\<close>

lemma dropD:
  assumes "drop i chars = c # rest"
  shows "i < length chars" "chars ! i = c" "drop (Suc i) chars = rest"
    "Suc i < length chars \<and> chars ! Suc i = d \<longleftrightarrow> starts_with (\<lambda>e. e = d) rest"
proof -
  show i: "i < length chars" using assms by (cases "i < length chars") simp_all
  show "chars ! i = c" "drop (Suc i) chars = rest"
    using assms Cons_nth_drop_Suc [OF i] by simp_all
  then show "Suc i < length chars \<and> chars ! Suc i = d \<longleftrightarrow> starts_with (\<lambda>e. e = d) rest"
    by (cases "Suc i < length chars") (auto simp: starts_with_def Cons_nth_drop_Suc [symmetric])
qed

lemma drop_append: "drop i chars = u @ rest \<Longrightarrow> drop (i + length u) chars = rest"
  by (metis add.commute append_eq_conv_conj drop_drop)

lemma loop_step:
  assumes "drop i chars = c # rest" "scan_step ty chars upper i sc = (j, sc')"
  shows "scan_loop_binds ty chars upper i sc = scan_loop_binds ty chars upper j sc'"
  using dropD(1) [OF assms(1)] assms(2) by (simp add: scan_loop_binds.simps [of ty chars upper i sc])

lemma special_chars [simp]:
  "quote_char \<noteq> CHR ''-''" "quote_char \<noteq> CHR ''/''" "quote_char \<noteq> CHR ''*''" "quote_char \<noteq> CHR '':''"
  "CHR ''-'' \<noteq> quote_char" "CHR ''/'' \<noteq> quote_char" "CHR ''*'' \<noteq> quote_char" "CHR '':'' \<noteq> quote_char"
  "newline_char \<noteq> CHR ''-''" "newline_char \<noteq> quote_char"
  "CHR ''-'' \<noteq> newline_char" "quote_char \<noteq> newline_char"
  by code_simp+

lemma skip_string:
  assumes "drop i chars = t @ quote_char # rest" "quote_char \<notin> set t"
    and "sc_in_string sc" "\<not> sc_in_comment sc" "\<not> sc_in_line_comment sc"
  shows "scan_loop_binds ty chars upper i sc
    = scan_loop_binds ty chars upper (i + length t + 1) (sc\<lparr>sc_in_string := False\<rparr>)"
  using assms(1,2)
proof (induction t arbitrary: i)
  case Nil
  then have "scan_step ty chars upper i sc = (i + 1, sc\<lparr>sc_in_string := False\<rparr>)"
    using dropD(2) [of i chars quote_char rest] assms(3-5) by (simp add: scan_step_def Let_def)
  with Nil loop_step show ?case by simp
next
  case (Cons c t)
  then have d: "drop i chars = c # t @ quote_char # rest" by simp
  then have "scan_step ty chars upper i sc = (i + 1, sc)"
    using dropD(2) [OF d] Cons.prems(2) assms(3-5) by (auto simp: scan_step_def Let_def)
  then show ?case using loop_step [OF d] Cons.IH [of "Suc i"] dropD(3) [OF d] Cons.prems(2) by simp
qed

lemma skip_line_comment:
  assumes "drop i chars = t @ newline_char # rest" "newline_char \<notin> set t"
    and "\<not> sc_in_string sc" "\<not> sc_in_comment sc" "sc_in_line_comment sc"
  shows "scan_loop_binds ty chars upper i sc
    = scan_loop_binds ty chars upper (i + length t + 1) (sc\<lparr>sc_in_line_comment := False\<rparr>)"
  using assms(1,2)
proof (induction "length t" arbitrary: t i rule: less_induct)
  case less
  have same: "sc\<lparr>sc_in_line_comment := True\<rparr> = sc" using assms(5) by (cases sc) simp
  show ?case
  proof (cases t)
    case Nil
    then have "scan_step ty chars upper i sc = (i + 1, sc\<lparr>sc_in_line_comment := False\<rparr>)"
      using dropD(2) [of i chars newline_char rest] less.prems assms(3-5) by (simp add: scan_step_def Let_def)
    then show ?thesis using Nil less.prems loop_step by simp
  next
    case (Cons c t')
    then have d: "drop i chars = c # t' @ newline_char # rest" using less.prems by simp
    show ?thesis
    proof (cases "c = CHR ''-'' \<and> starts_with (\<lambda>e. e = CHR ''-'') (t' @ newline_char # rest)")
      case True
      then obtain u where t': "t' = CHR ''-'' # u"
        by (cases t') (auto simp: starts_with_def)
      have "scan_step ty chars upper i sc = (i + 2, sc)"
        using dropD(2,4) [OF d] True assms(3-5) same by (simp add: scan_step_def Let_def)
      moreover have "drop (Suc (Suc i)) chars = u @ newline_char # rest"
        using dropD(3) [OF d] dropD(3) [of "Suc i" chars "CHR ''-''"] t' by simp
      then have "scan_loop_binds ty chars upper (i + 2) sc
        = scan_loop_binds ty chars upper (i + 2 + length u + 1) (sc\<lparr>sc_in_line_comment := False\<rparr>)"
        using less.hyps [of u "i + 2"] less.prems(2) Cons t' by simp
      ultimately show ?thesis using loop_step [OF d] Cons t' by simp
    next
      case False
      have "scan_step ty chars upper i sc = (i + 1, sc)"
        using dropD(2,4) [OF d] False assms(3-5) Cons less.prems(2) by (auto simp: scan_step_def Let_def)
      moreover have "scan_loop_binds ty chars upper (Suc i) sc
        = scan_loop_binds ty chars upper (Suc i + length t' + 1) (sc\<lparr>sc_in_line_comment := False\<rparr>)"
        using less.hyps [of t' "Suc i"] dropD(3) [OF d] less.prems(2) Cons by simp
      ultimately show ?thesis using loop_step [OF d] Cons by simp
    qed
  qed
qed

lemma starts_append: "starts_with p (xs @ a # ys) \<longleftrightarrow> starts_with p (xs @ [a])"
  by (cases xs) (simp_all add: starts_with_def)

lemma no_pair_head: "no_pair a b (a # t) \<Longrightarrow> \<not> starts_with (\<lambda>e. e = b) t"
  by (cases t) (auto simp: starts_with_def)

lemma no_pair_tl: "no_pair a b (c # t) \<Longrightarrow> no_pair a b t"
  by (cases t) auto

lemma skip_block_comment:
  assumes "drop i chars = t @ ''*/'' @ rest"
    and "no_pair (CHR ''-'') (CHR ''-'') t" "no_pair (CHR ''*'') (CHR ''/'') (t @ ''*'')"
    and "no_pair (CHR ''/'') (CHR ''*'') (t @ ''*'')"
    and "\<not> sc_in_string sc" "sc_in_comment sc" "\<not> sc_in_line_comment sc"
  shows "scan_loop_binds ty chars upper i sc
    = scan_loop_binds ty chars upper (i + length t + 2) (sc\<lparr>sc_in_comment := False\<rparr>)"
  using assms(1-4)
proof (induction t arbitrary: i)
  case Nil
  then have d: "drop i chars = CHR ''*'' # CHR ''/'' # rest" by simp
  then have "scan_step ty chars upper i sc = (i + 2, sc\<lparr>sc_in_comment := False\<rparr>)"
    using dropD(2,4) [OF d] assms(5-7) by (simp add: scan_step_def Let_def starts_with_def)
  then show ?case using loop_step [OF d] by simp
next
  case (Cons c t)
  then have d: "drop i chars = c # t @ CHR ''*'' # CHR ''/'' # rest" by simp
  have "\<not> (c = CHR ''-'' \<and> starts_with (\<lambda>e. e = CHR ''-'') (t @ CHR ''*'' # CHR ''/'' # rest))"
    using Cons.prems(2) by (cases t) (auto simp: starts_with_def)
  moreover have "\<not> (c = CHR ''/'' \<and> starts_with (\<lambda>e. e = CHR ''*'') (t @ CHR ''*'' # CHR ''/'' # rest))"
    using Cons.prems(4) no_pair_head [of "CHR ''/''" "CHR ''*''" "t @ ''*''"]
    unfolding starts_append [of _ t "CHR ''*''" "CHR ''/'' # rest"] by auto
  moreover have "\<not> (c = CHR ''*'' \<and> starts_with (\<lambda>e. e = CHR ''/'') (t @ CHR ''*'' # CHR ''/'' # rest))"
    using Cons.prems(3) no_pair_head [of "CHR ''*''" "CHR ''/''" "t @ ''*''"]
    unfolding starts_append [of _ t "CHR ''*''" "CHR ''/'' # rest"] by auto
  ultimately have "scan_step ty chars upper i sc = (i + 1, sc)"
    using dropD(2,4) [OF d] assms(5-7) by (auto simp: scan_step_def Let_def)
  moreover have "scan_loop_binds ty chars upper (Suc i) sc
    = scan_loop_binds ty chars upper (Suc i + length t + 2) (sc\<lparr>sc_in_comment := False\<rparr>)"
    using Cons.IH [of "Suc i"] dropD(3) [OF d] Cons.prems(2-4) by (auto dest: no_pair_tl)
  ultimately show ?case using loop_step [OF d] by simp
qed

subsection \<open>Bind names\<close>

lemma scan_while_drop: "drop i chars = t \<Longrightarrow> scan_while p chars i = i + length (takeWhile p t)"
  by (simp add: scan_while_def)

lemma takeWhile_stop: "list_all p n \<Longrightarrow> \<not> starts_with p rest \<Longrightarrow> takeWhile p (n @ rest) = n"
  by (induction n) (auto simp: starts_with_def split: list.splits)

lemma name_head:
  assumes "bind_name_ok (c # n)"
  shows "\<not> is_whitespace c" "c \<noteq> dquote_char" "is_digit_char c \<or> is_alphabetic c"
proof -
  show a: "is_digit_char c \<or> is_alphabetic c" using assms by (auto simp: bind_name_ok_def)
  then show "\<not> is_whitespace c"
    by (auto simp: is_whitespace_def is_alphabetic_def is_digit_char_def ascii_code_def)
  have "ascii_code dquote_char = 34" by code_simp
  then show "c \<noteq> dquote_char"
    using a by (auto simp: is_alphabetic_def is_digit_char_def ascii_code_def)
qed

lemma digit_upper: "is_digit_char c \<Longrightarrow> ascii_upper c = c"
  by (simp add: is_digit_char_def ascii_upper_def ascii_code_def)

lemma starts_with_mono: "starts_with p t \<Longrightarrow> (\<And>c. p c \<Longrightarrow> q c) \<Longrightarrow> starts_with q t"
  by (auto simp: starts_with_def split: list.splits)

lemma extract_bind_name_ok:
  assumes d: "drop i chars = n @ rest" and n: "bind_name_ok n" and r: "\<not> starts_with is_name_char rest"
  shows "extract_bind_name chars i = map ascii_upper n"
proof -
  obtain c n' where c: "n = c # n'" using n by (cases n) (auto simp: bind_name_ok_def)
  note h = name_head [OF n [unfolded c]]
  have dc: "drop i chars = c # n' @ rest" using d c by simp
  have ws: "scan_while is_whitespace chars i = i"
    using scan_while_drop [OF dc, of is_whitespace] h(1) by simp
  have i: "\<not> length chars \<le> i" "chars ! i = c" using dropD(1,2) [OF dc] by simp_all
  show ?thesis
  proof (cases "is_digit_char c")
    case True
    then have "\<not> is_alphabetic c"
      by (auto simp: is_alphabetic_def is_digit_char_def ascii_code_def)
    then have all: "list_all is_digit_char n" using n by (auto simp: bind_name_ok_def c)
    have "\<not> starts_with is_digit_char rest"
      using r starts_with_mono [of is_digit_char rest is_name_char] by (auto simp: is_name_char_def is_alphanumeric_def)
    then have "takeWhile is_digit_char (drop i chars) = n"
      unfolding d by (rule takeWhile_stop [OF all])
    moreover have "map ascii_upper n = n"
      using all by (auto simp: list_all_iff digit_upper intro: map_idI)
    ultimately show ?thesis
      using True h(2) i d by (simp add: extract_bind_name_def ws Let_def) (simp add: scan_while_def)
  next
    case False
    then have all: "list_all is_name_char n" and "is_alphabetic c" using n by (auto simp: bind_name_ok_def c)
    moreover have "takeWhile is_name_char (drop i chars) = n"
      unfolding d by (rule takeWhile_stop [OF all r])
    ultimately show ?thesis
      using False h(2) i d by (simp add: extract_bind_name_def ws Let_def) (simp add: scan_while_def)
  qed
qed

subsection \<open>Keywords inside plain text\<close>

lemma upper_alpha: "is_alphabetic (ascii_upper c) \<Longrightarrow> is_alphabetic c"
proof -
  assume a: "is_alphabetic (ascii_upper c)"
  show "is_alphabetic c"
  proof (cases "97 \<le> ascii_code c \<and> ascii_code c \<le> 122")
    case True
    then show ?thesis by (simp add: is_alphabetic_def)
  next
    case False
    then have "ascii_upper c = c" by (auto simp: ascii_upper_def)
    then show ?thesis using a by simp
  qed
qed

lemma match_keyword_letters:
  assumes m: "match_keyword (map ascii_upper chars) i kw" and kw: "list_all is_alphabetic kw"
  shows "\<exists>u rest. drop i chars = u @ rest \<and> length u = length kw \<and> list_all is_alphabetic u"
proof (intro exI conjI)
  show "drop i chars = take (length kw) (drop i chars) @ drop (length kw) (drop i chars)"
    by (rule append_take_drop_id [symmetric])
  have len: "i + length kw \<le> length chars" using m by (simp add: match_keyword_def)
  then show "length (take (length kw) (drop i chars)) = length kw" by simp
  show "list_all is_alphabetic (take (length kw) (drop i chars))"
    unfolding list_all_length
  proof (intro allI impI)
    fix k assume "k < length (take (length kw) (drop i chars))"
    then have k: "k < length kw" by simp
    then have "ascii_upper (chars ! (i + k)) = kw ! k"
      using m len by (auto simp: match_keyword_def list_all_iff)
    then have "is_alphabetic (chars ! (i + k))"
      using kw k upper_alpha by (metis list_all_length)
    then show "is_alphabetic (take (length kw) (drop i chars) ! k)"
      using k len by simp
  qed
qed

lemma peel_letters:
  assumes "render ss = u @ rest" "list_all is_alphabetic u" "segs_ok ss"
  shows "\<exists>ss'. render ss' = rest \<and> segs_ok ss' \<and> seg_binds ss' = seg_binds ss
    \<and> (u \<noteq> [] \<longrightarrow> length ss' < length ss)"
  using assms
proof (induction u arbitrary: ss)
  case Nil
  then show ?case by auto
next
  case (Cons c u)
  have na: "\<not> is_alphabetic quote_char" "\<not> is_alphabetic (CHR '':'')" "\<not> is_alphabetic (CHR ''-'')"
    "\<not> is_alphabetic (CHR ''/'')" by code_simp+
  obtain s ss1 where ss: "ss = s # ss1" using Cons.prems(1) by (cases ss) auto
  have "s = Chr c"
    using Cons.prems(1,2) na by (cases s) (auto simp: ss)
  then have "render ss1 = u @ rest" "segs_ok ss1" "seg_binds ss1 = seg_binds ss"
    using Cons.prems by (simp_all add: ss)
  with Cons.IH [of ss1] Cons.prems(2) show ?case
    by (fastforce simp: ss)
qed

definition scan_clean :: "scan \<Rightarrow> bool" where
  "scan_clean sc \<longleftrightarrow> \<not> sc_in_string sc \<and> \<not> sc_in_comment sc \<and> \<not> sc_in_line_comment sc"

definition scan_names :: "scan \<Rightarrow> string list" where
  "scan_names sc = map bi_name (sc_binds sc)"

lemma scan_update_id [simp]:
  "\<not> sc_in_string sc \<Longrightarrow> sc\<lparr>sc_in_string := True, sc_in_string := False\<rparr> = sc"
  "\<not> sc_in_comment sc \<Longrightarrow> sc\<lparr>sc_in_comment := False\<rparr> = sc"
  "\<not> sc_in_string sc \<Longrightarrow> sc\<lparr>sc_in_string := False\<rparr> = sc"
  "\<not> sc_in_line_comment sc \<Longrightarrow> sc\<lparr>sc_in_line_comment := False\<rparr> = sc"
  by (cases sc, simp)+

text \<open>What one step does in front of a well-formed segment: a keyword, or the segment.\<close>

lemma keyword_step:
  assumes d: "drop i chars = render ss" and ok: "segs_ok ss" and clean: "scan_clean sc"
    and c: "render ss = c # t" "is_alphabetic c"
  shows "(\<exists>k ss' sc'. scan_step ty chars (map ascii_upper chars) i sc = (i + k, sc') \<and> drop (i + k) chars = render ss'
      \<and> segs_ok ss' \<and> seg_binds ss' = seg_binds ss \<and> length ss' < length ss
      \<and> scan_clean sc' \<and> scan_names sc' = scan_names sc)
    \<or> scan_step ty chars (map ascii_upper chars) i sc = bind_step ty chars i sc"
proof -
  have kw: "list_all is_alphabetic ''RETURNING''" "list_all is_alphabetic ''INTO''" by code_simp+
  have l: "length ''RETURNING'' = 9" "length ''INTO'' = 4" by simp_all
  have d': "drop i chars = c # t" using d c by simp
  have nc: "c \<noteq> quote_char" "c \<noteq> CHR ''-''" "c \<noteq> CHR ''/''"
  proof -
    have "\<not> is_alphabetic quote_char" "\<not> is_alphabetic (CHR ''-'')" "\<not> is_alphabetic (CHR ''/'')" by code_simp+
    then show "c \<noteq> quote_char" "c \<noteq> CHR ''-''" "c \<noteq> CHR ''/''" using c(2) by auto
  qed
  have peel: "\<exists>ss'. drop (i + length w) chars = render ss' \<and> segs_ok ss' \<and> seg_binds ss' = seg_binds ss
      \<and> length ss' < length ss"
    if mk: "match_keyword (map ascii_upper chars) i w" and al: "list_all is_alphabetic w" and ne: "w \<noteq> []" for w
  proof -
    obtain u rest where u: "drop i chars = u @ rest" "length u = length w" "list_all is_alphabetic u"
      using match_keyword_letters [OF mk al] by blast
    have dr: "drop (i + length w) chars = rest"
      using drop_append [OF u(1)] u(2) by simp
    have une: "u \<noteq> []" using u(2) ne by auto
    have "render ss = u @ rest" using u(1) d by simp
    from peel_letters [OF this u(3) ok] une show ?thesis unfolding dr by metis
  qed
  have step: "scan_step ty chars (map ascii_upper chars) i sc =
    (if ty = StDml \<and> \<not> sc_returning_found sc \<and> match_keyword (map ascii_upper chars) i ''RETURNING'' then
       (i + 9, sc\<lparr>sc_returning_found := True\<rparr>)
     else if sc_returning_found sc \<and> \<not> sc_into_found sc \<and> match_keyword (map ascii_upper chars) i ''INTO'' then
       (i + 4, sc\<lparr>sc_into_found := True, sc_is_returning := True\<rparr>)
     else bind_step ty chars i sc)"
    using clean nc dropD(2) [OF d'] by (simp add: scan_step_def scan_clean_def Let_def)
  show ?thesis
  proof (cases "ty = StDml \<and> \<not> sc_returning_found sc \<and> match_keyword (map ascii_upper chars) i ''RETURNING''")
    case True
    then obtain ss' where "drop (i + 9) chars = render ss'" "segs_ok ss'" "seg_binds ss' = seg_binds ss"
        "length ss' < length ss"
      using peel [of "''RETURNING''", unfolded l(1)] kw by auto
    moreover have "scan_step ty chars (map ascii_upper chars) i sc = (i + 9, sc\<lparr>sc_returning_found := True\<rparr>)"
      using step True by simp
    ultimately show ?thesis using clean by (fastforce simp: scan_clean_def scan_names_def)
  next
    case no_ret: False
    show ?thesis
    proof (cases "sc_returning_found sc \<and> \<not> sc_into_found sc \<and> match_keyword (map ascii_upper chars) i ''INTO''")
      case True
      then obtain ss' where "drop (i + 4) chars = render ss'" "segs_ok ss'" "seg_binds ss' = seg_binds ss"
          "length ss' < length ss"
        using peel [of "''INTO''", unfolded l(2)] kw by auto
      moreover have "scan_step ty chars (map ascii_upper chars) i sc
        = (i + 4, sc\<lparr>sc_into_found := True, sc_is_returning := True\<rparr>)"
        using step True no_ret by auto
      ultimately show ?thesis using clean by (fastforce simp: scan_clean_def scan_names_def)
    next
      case False
      then show ?thesis using step no_ret by auto
    qed
  qed
qed

lemma no_keyword_step:
  assumes d: "drop i chars = c # t" and clean: "scan_clean sc" and c: "\<not> is_alphabetic c" "c \<noteq> quote_char"
    and "\<not> (c = CHR ''-'' \<and> starts_with (\<lambda>e. e = CHR ''-'') t)"
    and "\<not> (c = CHR ''/'' \<and> starts_with (\<lambda>e. e = CHR ''*'') t)"
  shows "scan_step ty chars (map ascii_upper chars) i sc = bind_step ty chars i sc"
proof -
  have "\<not> match_keyword (map ascii_upper chars) i w" if "list_all is_alphabetic w" "w \<noteq> []" for w
    using match_keyword_letters [of chars i w] that d c(1) by (auto simp: Cons_eq_append_conv)
  moreover have "list_all is_alphabetic ''RETURNING''" "list_all is_alphabetic ''INTO''" by code_simp+
  ultimately show ?thesis
    using clean assms(4-6) dropD(2,4) [OF d] by (auto simp: scan_step_def scan_clean_def Let_def)
qed

lemma bind_step_other:
  "chars ! i \<noteq> CHR '':'' \<Longrightarrow> bind_step ty chars i sc = (i + 1, sc)"
  by (simp add: bind_step_def)

lemma collect_Cons: "collect ty names (n # ns) = collect ty (add_name ty names n) ns"
  by (simp add: collect_def)

lemma scan_segs:
  assumes "drop i chars = render ss" "segs_ok ss" "scan_clean sc"
  shows "scan_names (scan_loop_binds ty chars (map ascii_upper chars) i sc)
    = collect ty (scan_names sc) (seg_binds ss)"
  using assms
proof (induction "length ss" arbitrary: ss i sc rule: less_induct)
  case less
  note cl = less.prems(3) [unfolded scan_clean_def]
  show ?case
  proof (cases ss)
    case Nil
    then have "\<not> i < length chars" using less.prems(1) by simp
    then show ?thesis by (simp add: scan_loop_binds.simps [of ty chars _ i sc] Nil collect_def)
  next
    case (Cons s ss')
    have rec: "scan_names (scan_loop_binds ty chars (map ascii_upper chars) j sc')
        = collect ty (scan_names sc') (seg_binds ss')"
      if "drop j chars = render ss'" "scan_clean sc'" for j sc'
      using less.hyps [of ss' j sc'] that less.prems(2) Cons by simp
    show ?thesis
    proof (cases s)
      case (Chr c)
      have d: "drop i chars = c # render ss'" using less.prems(1) Cons Chr by simp
      have ok: "c \<noteq> quote_char" "c \<noteq> CHR '':''" "\<not> (c = CHR ''-'' \<and> starts_with (\<lambda>d. d = CHR ''-'') (render ss'))"
        "\<not> (c = CHR ''/'' \<and> starts_with (\<lambda>d. d = CHR ''*'') (render ss'))"
        using less.prems(2) Cons Chr by auto
      have bs: "bind_step ty chars i sc = (i + 1, sc)"
        using ok(2) dropD(2) [OF d] by (simp add: bind_step_other)
      have sb: "seg_binds ss = seg_binds ss'" by (simp add: Cons Chr)
      have adv: "scan_names (scan_loop_binds ty chars (map ascii_upper chars) i sc) = collect ty (scan_names sc) (seg_binds ss)"
        if "scan_step ty chars (map ascii_upper chars) i sc = bind_step ty chars i sc"
        using loop_step [OF d that [unfolded bs]] rec [of "i + 1" sc] dropD(3) [OF d] less.prems(3) sb by simp
      show ?thesis
      proof (cases "is_alphabetic c")
        case False
        show ?thesis by (rule adv, rule no_keyword_step [OF d less.prems(3) False ok(1,3,4)])
      next
        case True
        have r: "render ss = c # render ss'" by (simp add: Cons Chr)
        from keyword_step [OF less.prems r True, of ty] show ?thesis
        proof
          assume "scan_step ty chars (map ascii_upper chars) i sc = bind_step ty chars i sc"
          then show ?thesis by (rule adv)
        next
          assume "\<exists>k ss' sc'. scan_step ty chars (map ascii_upper chars) i sc = (i + k, sc') \<and>
            drop (i + k) chars = render ss' \<and> segs_ok ss' \<and> seg_binds ss' = seg_binds ss \<and>
            length ss' < length ss \<and> scan_clean sc' \<and> scan_names sc' = scan_names sc"
          then obtain k ss1 sc1 where k: "scan_step ty chars (map ascii_upper chars) i sc = (i + k, sc1)"
            "drop (i + k) chars = render ss1" "segs_ok ss1" "seg_binds ss1 = seg_binds ss"
            "length ss1 < length ss" "scan_clean sc1" "scan_names sc1 = scan_names sc" by blast
          show ?thesis
            using loop_step [OF d k(1)] less.hyps [OF k(5) k(2) k(3) k(6)] k(4,7) by simp
        qed
      qed
    next
      case (Lit t)
      have d: "drop i chars = quote_char # t @ quote_char # render ss'"
        using less.prems(1) Cons Lit by simp
      have st: "scan_step ty chars (map ascii_upper chars) i sc = (i + 1, sc\<lparr>sc_in_string := True\<rparr>)"
        using dropD(2) [OF d] cl by (simp add: scan_step_def Let_def)
      have q: "quote_char \<notin> set t" using less.prems(2) Cons Lit by simp
      have "drop (i + 1) chars = t @ quote_char # render ss'" using dropD(3) [OF d] by simp
      from skip_string [OF this q, of "sc\<lparr>sc_in_string := True\<rparr>" ty "map ascii_upper chars"] cl
      have "scan_loop_binds ty chars (map ascii_upper chars) (i + 1) (sc\<lparr>sc_in_string := True\<rparr>)
        = scan_loop_binds ty chars (map ascii_upper chars) (i + (length t + 2)) sc" by simp
      moreover have "drop (i + (length t + 2)) chars = render ss'"
        using drop_append [of i chars "quote_char # t @ [quote_char]"] d by simp
      ultimately show ?thesis
        using loop_step [OF d st] rec [of "i + (length t + 2)" sc] less.prems(3) Cons Lit by simp
    next
      case (LineComment t)
      have d: "drop i chars = CHR ''-'' # CHR ''-'' # t @ newline_char # render ss'"
        using less.prems(1) Cons LineComment by simp
      have st: "scan_step ty chars (map ascii_upper chars) i sc = (i + 2, sc\<lparr>sc_in_line_comment := True\<rparr>)"
        using dropD(2,4) [OF d] cl by (simp add: scan_step_def Let_def starts_with_def)
      have n: "newline_char \<notin> set t" using less.prems(2) Cons LineComment by simp
      have "drop (i + 2) chars = t @ newline_char # render ss'"
        using drop_append [of i chars "''--''"] d by simp
      from skip_line_comment [OF this n, of "sc\<lparr>sc_in_line_comment := True\<rparr>" ty "map ascii_upper chars"] cl
      have "scan_loop_binds ty chars (map ascii_upper chars) (i + 2) (sc\<lparr>sc_in_line_comment := True\<rparr>)
        = scan_loop_binds ty chars (map ascii_upper chars) (i + (length t + 3)) sc"
        by (simp add: eval_nat_numeral)
      moreover have "drop (i + (length t + 3)) chars = render ss'"
        using drop_append [of i chars "''--'' @ t @ [newline_char]"] d by (simp add: eval_nat_numeral)
      ultimately show ?thesis
        using loop_step [OF d st] rec [of "i + (length t + 3)" sc] less.prems(3) Cons LineComment by simp
    next
      case (BlockComment t)
      have d: "drop i chars = CHR ''/'' # CHR ''*'' # t @ ''*/'' @ render ss'"
        using less.prems(1) Cons BlockComment by simp
      have st: "scan_step ty chars (map ascii_upper chars) i sc = (i + 2, sc\<lparr>sc_in_comment := True\<rparr>)"
        using dropD(2,4) [OF d] cl by (simp add: scan_step_def Let_def starts_with_def)
      have n: "no_pair (CHR ''-'') (CHR ''-'') t" "no_pair (CHR ''*'') (CHR ''/'') (t @ ''*'')"
        "no_pair (CHR ''/'') (CHR ''*'') (t @ ''*'')"
        using less.prems(2) Cons BlockComment by simp_all
      have "drop (i + 2) chars = t @ ''*/'' @ render ss'"
        using drop_append [of i chars "''/*''"] d by simp
      from skip_block_comment [OF this n, of "sc\<lparr>sc_in_comment := True\<rparr>" ty "map ascii_upper chars"] cl
      have "scan_loop_binds ty chars (map ascii_upper chars) (i + 2) (sc\<lparr>sc_in_comment := True\<rparr>)
        = scan_loop_binds ty chars (map ascii_upper chars) (i + (length t + 4)) sc"
        by (simp add: eval_nat_numeral)
      moreover have "drop (i + (length t + 4)) chars = render ss'"
        using drop_append [of i chars "''/*'' @ t @ ''*/''"] d by (simp add: eval_nat_numeral)
      ultimately show ?thesis
        using loop_step [OF d st] rec [of "i + (length t + 4)" sc] less.prems(3) Cons BlockComment by simp
    next
      case (Bind n)
      have d: "drop i chars = CHR '':'' # n @ render ss'" using less.prems(1) Cons Bind by simp
      have ok: "bind_name_ok n" "\<not> starts_with is_name_char (render ss')" using less.prems(2) Cons Bind by simp_all
      have e: "extract_bind_name chars (Suc i) = map ascii_upper n"
        by (rule extract_bind_name_ok [OF dropD(3) [OF d] ok])
      have ne: "n \<noteq> []" using ok(1) by (auto simp: bind_name_ok_def)
      then have len: "Suc i < length chars"
        using dropD(3) [OF d] by (cases "Suc i < length chars") simp_all
      have colon: "\<not> is_alphabetic (CHR '':'')" by code_simp
      define sc' where "sc' = (if ty = StPlSql \<and> map ascii_upper n \<in> set (map bi_name (sc_binds sc)) then sc
        else sc\<lparr>sc_binds := sc_binds sc @ [bind_info_new (map ascii_upper n) (sc_into_found sc)]\<rparr>)"
      have "bind_step ty chars i sc = (i + (1 + length n), sc')"
        using len ne dropD(2) [OF d] by (simp add: bind_step_def e Let_def sc'_def)
      moreover have "scan_step ty chars (map ascii_upper chars) i sc = bind_step ty chars i sc"
        by (rule no_keyword_step [OF d less.prems(3) colon]) simp_all
      ultimately have st: "scan_step ty chars (map ascii_upper chars) i sc = (i + (1 + length n), sc')" by simp
      have "drop (i + (1 + length n)) chars = render ss'"
        using drop_append [of i chars "CHR '':'' # n"] d by simp
      moreover have "scan_clean sc'" using less.prems(3) by (simp add: sc'_def scan_clean_def)
      moreover have "scan_names sc' = add_name ty (scan_names sc) (map ascii_upper n)"
        by (simp add: sc'_def scan_names_def add_name_def bind_info_new_def)
      ultimately show ?thesis
        using loop_step [OF d st] rec [of "i + (1 + length n)" sc'] Cons Bind by (simp add: collect_Cons)
    qed
  qed
qed

lemma parse_binds_names:
  assumes "st_sql s = render ss" "segs_ok ss" "st_bind_info_list s = []"
  shows "bind_names (parse_bind_variables s) = collect (st_type s) [] (seg_binds ss)"
    and "st_type (parse_bind_variables s) = st_type s"
proof -
  have "scan_clean (scan_new\<lparr>sc_is_returning := st_is_returning s, sc_binds := []\<rparr>)"
    by (simp add: scan_clean_def scan_new_def)
  from scan_segs [OF _ assms(2) this, of 0 "render ss" "st_type s"]
  show "bind_names (parse_bind_variables s) = collect (st_type s) [] (seg_binds ss)"
    by (simp add: parse_bind_variables_def bind_names_def assms scan_names_def Let_def)
  show "st_type (parse_bind_variables s) = st_type s"
    by (simp add: parse_bind_variables_def Let_def)
qed

subsection \<open>Properties\<close>


definition test_segs :: "seg list" where
  "test_segs = map Chr ''select '' @ [Lit '':no -- '', Chr (CHR '',''), Bind ''a1'', LineComment '' :x /*'',
     BlockComment '' it is '', Bind ''7'', Chr (CHR '' '')]"


text \<open>
  A block comment that contains \<open>--\<close> is taken for a line comment inside it: its end is not
  seen, and bind variables after it on the line are missed.
\<close>

theorem bind_scan_nested_dashes:
  "bind_names (statement_new ''SELECT /* a */ :x FROM t'') = [''X'']
   \<and> bind_names (statement_new ''SELECT /* -- */ :x FROM t'') = []"
  by code_simp

end
