(* ===== verification/StmtCache.thy ===== *)
theory StmtCache
  imports Statement
begin

section \<open>The statement cache\<close>

text \<open>
  \<open>src/src/statement_cache.rs\<close>.  The cache is built on the \<open>indexmap\<close> package, which is not part
  of the repository: its operations are a parameter, the record \<open>index_map\<close>, and the locale
  \<open>index_map_laws\<close> states what the cache relies on.  \<open>Instant::now()\<close> is an argument \<open>now\<close> of the
  operations that read the clock.
\<close>

record cached_statement =
  cs_statement :: statement
  cs_in_use :: bool
  cs_last_used :: nat

definition cached_new :: "statement \<Rightarrow> nat \<Rightarrow> cached_statement" where
  "cached_new s now = \<lparr>cs_statement = s, cs_in_use = False, cs_last_used = now\<rparr>"

definition touch :: "nat \<Rightarrow> cached_statement \<Rightarrow> cached_statement" where
  "touch now cs = cs\<lparr>cs_last_used := now\<rparr>"

subsection \<open>The map interface\<close>

text \<open>
  \<open>im_insert\<close> is \<open>IndexMap::insert\<close>, and on a key that is present also a write through
  \<open>get_mut\<close>; \<open>im_iter\<close> is the order of iteration.
\<close>

record 'm index_map =
  im_empty :: 'm
  im_get :: "'m \<Rightarrow> string \<Rightarrow> cached_statement option"
  im_insert :: "'m \<Rightarrow> string \<Rightarrow> cached_statement \<Rightarrow> 'm"
  im_swap_remove :: "'m \<Rightarrow> string \<Rightarrow> 'm"
  im_iter :: "'m \<Rightarrow> (string \<times> cached_statement) list"

locale index_map_laws =
  fixes I :: "'m index_map"
  assumes iter_empty: "im_iter I (im_empty I) = []"
    and iter_distinct: "distinct (map fst (im_iter I m))"
    and get_iter: "im_get I m = map_of (im_iter I m)"
    and get_insert: "im_get I (im_insert I m k v) = (im_get I m)(k \<mapsto> v)"
    and get_remove: "im_get I (im_swap_remove I m k) = (im_get I m)(k := None)"
begin

lemma get_empty [simp]: "im_get I (im_empty I) k = None"
  by (simp add: get_iter iter_empty)

lemma in_iter: "(k, v) \<in> set (im_iter I m) \<longleftrightarrow> im_get I m k = Some v"
  by (simp add: get_iter iter_distinct)

lemma keys_iter: "fst ` set (im_iter I m) = dom (im_get I m)"
  by (simp add: get_iter dom_map_of_conv_image_fst)

lemma length_iter: "length (im_iter I m) = card (dom (im_get I m))"
  using distinct_card [OF iter_distinct, of m] keys_iter [of m] by simp

lemma finite_dom [simp]: "finite (dom (im_get I m))"
  by (simp add: get_iter finite_dom_map_of)

lemma length_insert:
  "length (im_iter I (im_insert I m k v)) =
     (if im_get I m k = None then Suc (length (im_iter I m)) else length (im_iter I m))"
  by (auto simp: length_iter get_insert insert_absorb domIff)

lemma length_remove:
  "im_get I m k \<noteq> None \<Longrightarrow> Suc (length (im_iter I (im_swap_remove I m k))) = length (im_iter I m)"
  using card_Suc_Diff1 [of "dom (im_get I m)" k] by (simp add: length_iter get_remove domIff)

end

subsection \<open>An association list meets the laws\<close>

fun al_insert :: "(string \<times> cached_statement) list \<Rightarrow> string \<Rightarrow> cached_statement \<Rightarrow> (string \<times> cached_statement) list" where
  "al_insert [] k v = [(k, v)]"
| "al_insert ((j, w) # m) k v = (if j = k then (k, v) # m else (j, w) # al_insert m k v)"

text \<open>\<open>swap_remove\<close>: the last entry takes the place of the removed one.\<close>

fun al_swap_remove :: "(string \<times> cached_statement) list \<Rightarrow> string \<Rightarrow> (string \<times> cached_statement) list" where
  "al_swap_remove [] k = []"
| "al_swap_remove ((j, w) # m) k =
     (if j = k then (if m = [] then [] else last m # butlast m) else (j, w) # al_swap_remove m k)"

typedef assoc_map = "{m :: (string \<times> cached_statement) list. distinct (map fst m)}"
  by (rule exI [of _ "[]"]) simp

setup_lifting type_definition_assoc_map

lemma al_insert_keys: "fst ` set (al_insert m k v) = insert k (fst ` set m)"
  by (induction m k v rule: al_insert.induct) auto

lemma al_insert_distinct: "distinct (map fst m) \<Longrightarrow> distinct (map fst (al_insert m k v))"
  by (induction m k v rule: al_insert.induct) (auto simp: al_insert_keys)

lemma al_insert_map_of: "map_of (al_insert m k v) = (map_of m)(k \<mapsto> v)"
  by (induction m k v rule: al_insert.induct) (auto simp: fun_eq_iff)

lemma swap_perm: "m \<noteq> [] \<Longrightarrow> set (last m # butlast m) = set m \<and> distinct (map fst (last m # butlast m)) = distinct (map fst m)"
proof -
  assume "m \<noteq> []"
  then have m: "m = butlast m @ [last m]" by simp
  have "set (last m # butlast m) = set (butlast m @ [last m])"
    "distinct (map fst (last m # butlast m)) = distinct (map fst (butlast m @ [last m]))" by auto
  then show ?thesis using m by simp
qed

lemma al_swap_remove_set:
  "distinct (map fst m) \<Longrightarrow> set (al_swap_remove m k) = {e \<in> set m. fst e \<noteq> k} \<and> distinct (map fst (al_swap_remove m k))"
proof (induction m k rule: al_swap_remove.induct)
  case (2 j w m k)
  show ?case
  proof (cases "j = k")
    case True
    then show ?thesis using 2 swap_perm [of m] by (auto simp: image_iff)
  next
    case False
    then show ?thesis using 2 by auto
  qed
qed simp

lemma al_swap_remove_map_of:
  assumes "distinct (map fst m)"
  shows "map_of (al_swap_remove m k) = (map_of m)(k := None)"
proof
  fix j
  have "map_of (al_swap_remove m k) j = Some v \<longleftrightarrow> ((map_of m)(k := None)) j = Some v" for v
    using al_swap_remove_set [OF assms, of k] assms by auto
  then show "map_of (al_swap_remove m k) j = ((map_of m)(k := None)) j"
    by (metis not_Some_eq)
qed

lift_definition am_empty :: assoc_map is "[]" by simp
lift_definition am_get :: "assoc_map \<Rightarrow> string \<Rightarrow> cached_statement option" is map_of .
lift_definition am_insert :: "assoc_map \<Rightarrow> string \<Rightarrow> cached_statement \<Rightarrow> assoc_map" is al_insert
  by (rule al_insert_distinct)
lift_definition am_swap_remove :: "assoc_map \<Rightarrow> string \<Rightarrow> assoc_map" is al_swap_remove
  using al_swap_remove_set by blast
lift_definition am_iter :: "assoc_map \<Rightarrow> (string \<times> cached_statement) list" is "\<lambda>m. m" .

definition assoc_index_map :: "assoc_map index_map" where
  "assoc_index_map = \<lparr>im_empty = am_empty, im_get = am_get, im_insert = am_insert,
     im_swap_remove = am_swap_remove, im_iter = am_iter\<rparr>"

interpretation assoc: index_map_laws assoc_index_map
  by unfold_locales
    (simp_all add: assoc_index_map_def, (transfer, simp add: al_insert_map_of al_swap_remove_map_of)+)

subsection \<open>The cache\<close>

record 'm stmt_cache =
  stc_cache :: 'm
  stc_max_size :: nat

definition cache_new :: "'m index_map \<Rightarrow> nat \<Rightarrow> 'm stmt_cache" where
  "cache_new I max_size = \<lparr>stc_cache = im_empty I, stc_max_size = max_size\<rparr>"

definition cache_len :: "'m index_map \<Rightarrow> 'm stmt_cache \<Rightarrow> nat" where
  "cache_len I c = length (im_iter I (stc_cache c))"

definition cache_get :: "'m index_map \<Rightarrow> nat \<Rightarrow> string \<Rightarrow> 'm stmt_cache \<Rightarrow> statement option \<times> 'm stmt_cache" where
  "cache_get I now sql c =
     (if stc_max_size c = 0 then (None, c)
      else case im_get I (stc_cache c) sql of
        None \<Rightarrow> (None, c)
      | Some cached \<Rightarrow>
          let touched = touch now cached
          in if cs_in_use touched then (None, c\<lparr>stc_cache := im_insert I (stc_cache c) sql touched\<rparr>)
             else (Some (clone_for_reuse (cs_statement touched)),
                   c\<lparr>stc_cache := im_insert I (stc_cache c) sql (touched\<lparr>cs_in_use := True\<rparr>)\<rparr>))"

text \<open>\<open>min_by_key\<close> keeps the first of equal minima.\<close>

fun min_by_last_used :: "(string \<times> cached_statement) list \<Rightarrow> (string \<times> cached_statement) option" where
  "min_by_last_used [] = None"
| "min_by_last_used (e # es) =
     (case min_by_last_used es of
        None \<Rightarrow> Some e
      | Some f \<Rightarrow> Some (if cs_last_used (snd f) < cs_last_used (snd e) then f else e))"

definition evict_lru :: "'m index_map \<Rightarrow> 'm stmt_cache \<Rightarrow> 'm stmt_cache" where
  "evict_lru I c =
     (case min_by_last_used (filter (\<lambda>(k, cached). \<not> cs_in_use cached) (im_iter I (stc_cache c))) of
        None \<Rightarrow> c
      | Some (key, _) \<Rightarrow> c\<lparr>stc_cache := im_swap_remove I (stc_cache c) key\<rparr>)"

definition cache_put :: "'m index_map \<Rightarrow> nat \<Rightarrow> string \<Rightarrow> statement \<Rightarrow> 'm stmt_cache \<Rightarrow> 'm stmt_cache" where
  "cache_put I now sql stmt c =
     (if stc_max_size c = 0 then c
      else if is_ddl stmt then c
      else if st_cursor_id stmt = 0 then c
      else case im_get I (stc_cache c) sql of
        Some cached \<Rightarrow>
          c\<lparr>stc_cache := im_insert I (stc_cache c) sql
               (touch now (cached\<lparr>cs_statement := stmt, cs_in_use := False\<rparr>))\<rparr>
      | None \<Rightarrow>
          let c' = (if stc_max_size c \<le> cache_len I c then evict_lru I c else c)
          in c'\<lparr>stc_cache := im_insert I (stc_cache c') sql (cached_new stmt now)\<rparr>)"

definition return_statement :: "'m index_map \<Rightarrow> string \<Rightarrow> 'm stmt_cache \<Rightarrow> 'm stmt_cache" where
  "return_statement I sql c =
     (case im_get I (stc_cache c) sql of
        None \<Rightarrow> c
      | Some cached \<Rightarrow> c\<lparr>stc_cache := im_insert I (stc_cache c) sql (cached\<lparr>cs_in_use := False\<rparr>)\<rparr>)"

definition mark_cursor_closed :: "'m index_map \<Rightarrow> string \<Rightarrow> 'm stmt_cache \<Rightarrow> 'm stmt_cache" where
  "mark_cursor_closed I sql c =
     (case im_get I (stc_cache c) sql of
        None \<Rightarrow> c
      | Some cached \<Rightarrow>
          if st_cursor_id (cs_statement cached) \<noteq> 0 then
            c\<lparr>stc_cache := im_insert I (stc_cache c) sql
                 (cached\<lparr>cs_statement := set_executed False (set_cursor_id 0 (cs_statement cached))\<rparr>)\<rparr>
          else c)"

definition cache_clear :: "'m index_map \<Rightarrow> 'm stmt_cache \<Rightarrow> 'm stmt_cache" where
  "cache_clear I c = c\<lparr>stc_cache := im_empty I\<rparr>"

subsection \<open>Eviction\<close>

lemma min_by_last_used_None [simp]: "min_by_last_used es = None \<longleftrightarrow> es = []"
  by (cases es) (auto split: option.splits)

lemma min_by_last_used_Some:
  "min_by_last_used es = Some e \<Longrightarrow> e \<in> set es \<and> (\<forall>f \<in> set es. cs_last_used (snd e) \<le> cs_last_used (snd f))"
proof (induction es arbitrary: e)
  case (Cons x es)
  then show ?case
    by (cases "min_by_last_used es") (fastforce split: if_splits)+
qed simp

context index_map_laws
begin

lemma evict_cases:
  obtains "\<forall>k v. im_get I (stc_cache c) k = Some v \<longrightarrow> cs_in_use v" "evict_lru I c = c"
  | k v where "im_get I (stc_cache c) k = Some v" "\<not> cs_in_use v"
      "\<forall>j w. im_get I (stc_cache c) j = Some w \<and> \<not> cs_in_use w \<longrightarrow> cs_last_used v \<le> cs_last_used w"
      "evict_lru I c = c\<lparr>stc_cache := im_swap_remove I (stc_cache c) k\<rparr>"
proof (cases "min_by_last_used (filter (\<lambda>(k, cached). \<not> cs_in_use cached) (im_iter I (stc_cache c)))")
  case None
  then have "filter (\<lambda>(k, cached). \<not> cs_in_use cached) (im_iter I (stc_cache c)) = []" by simp
  then have "\<forall>k v. im_get I (stc_cache c) k = Some v \<longrightarrow> cs_in_use v"
    using in_iter by (fastforce simp: filter_empty_conv)
  then show thesis using that(1) None by (simp add: evict_lru_def)
next
  case (Some e)
  obtain k v where e: "e = (k, v)" by fastforce
  have "im_get I (stc_cache c) k = Some v" "\<not> cs_in_use v"
    using min_by_last_used_Some [OF Some] by (auto simp: e in_iter)
  moreover have "\<forall>j w. im_get I (stc_cache c) j = Some w \<and> \<not> cs_in_use w \<longrightarrow> cs_last_used v \<le> cs_last_used w"
    using min_by_last_used_Some [OF Some] by (fastforce simp: e in_iter [symmetric])
  ultimately show thesis using that(2) Some by (simp add: evict_lru_def e)
qed

lemma evict_keeps_in_use:
  "im_get I (stc_cache c) k = Some v \<Longrightarrow> cs_in_use v \<Longrightarrow> im_get I (stc_cache (evict_lru I c)) k = Some v"
  by (cases rule: evict_cases [of c]) (auto simp: get_remove)

lemma evict_sub:
  "im_get I (stc_cache (evict_lru I c)) k = Some v \<Longrightarrow> im_get I (stc_cache c) k = Some v"
  by (cases rule: evict_cases [of c]) (auto simp: get_remove split: if_splits)

lemma evict_max_size [simp]: "stc_max_size (evict_lru I c) = stc_max_size c"
  by (cases rule: evict_cases [of c]) auto

lemma evict_len:
  assumes "im_get I (stc_cache c) k = Some v" "\<not> cs_in_use v"
  shows "Suc (cache_len I (evict_lru I c)) = cache_len I c"
  using assms by (cases rule: evict_cases [of c]) (auto simp: cache_len_def length_remove)

lemma put_len:
  assumes "im_get I (stc_cache c) sql = None" "\<not> is_ddl s" "st_cursor_id s \<noteq> 0" "stc_max_size c \<noteq> 0"
  shows "cache_len I (cache_put I now sql s c) =
    Suc (cache_len I (if stc_max_size c \<le> cache_len I c then evict_lru I c else c))"
proof -
  have "im_get I (stc_cache (evict_lru I c)) sql = None"
    using evict_sub [of c sql] assms(1) by (metis not_None_eq)
  then show ?thesis
    using assms by (simp add: cache_put_def Let_def cache_len_def length_insert)
qed

lemma put_new_get:
  assumes "\<not> is_ddl s" "st_cursor_id s \<noteq> 0" "stc_max_size c \<noteq> 0"
  shows "\<exists>v. im_get I (stc_cache (cache_put I now sql s c)) sql = Some v \<and> cs_statement v = s \<and> \<not> cs_in_use v"
    and "stc_max_size (cache_put I now sql s c) = stc_max_size c"
  using assms
  by (auto simp: cache_put_def Let_def get_insert cached_new_def touch_def split: option.splits)

lemma get_hit:
  assumes "im_get I (stc_cache c) sql = Some v" "\<not> cs_in_use v" "stc_max_size c \<noteq> 0"
  shows "fst (cache_get I now sql c) = Some (clone_for_reuse (cs_statement v))"
  using assms by (simp add: cache_get_def touch_def)

lemma get_marks:
  assumes "fst (cache_get I now sql c) = Some s"
  shows "\<exists>v. im_get I (stc_cache (snd (cache_get I now sql c))) sql = Some v \<and> cs_in_use v"
  using assms
  by (auto simp: cache_get_def get_insert Let_def split: if_splits option.splits)

lemma get_in_use:
  assumes "im_get I (stc_cache c) sql = Some v" "cs_in_use v"
  shows "fst (cache_get I now sql c) = None"
  using assms by (simp add: cache_get_def touch_def)

end

subsection \<open>Sequences of operations\<close>

datatype cache_op = OpGet nat string | OpPut nat string statement | OpReturn string | OpMark string | OpClear

primrec cache_apply :: "'m index_map \<Rightarrow> cache_op \<Rightarrow> 'm stmt_cache \<Rightarrow> 'm stmt_cache" where
  "cache_apply I (OpGet now sql) c = snd (cache_get I now sql c)"
| "cache_apply I (OpPut now sql s) c = cache_put I now sql s c"
| "cache_apply I (OpReturn sql) c = return_statement I sql c"
| "cache_apply I (OpMark sql) c = mark_cursor_closed I sql c"
| "cache_apply I OpClear c = cache_clear I c"

text \<open>The operations that end a check-out of \<open>sql\<close>.\<close>

primrec releases :: "string \<Rightarrow> cache_op \<Rightarrow> bool" where
  "releases sql (OpGet now sql') \<longleftrightarrow> False"
| "releases sql (OpPut now sql' s) \<longleftrightarrow> sql' = sql"
| "releases sql (OpReturn sql') \<longleftrightarrow> sql' = sql"
| "releases sql (OpMark sql') \<longleftrightarrow> False"
| "releases sql OpClear \<longleftrightarrow> True"

inductive cache_reach :: "'m index_map \<Rightarrow> nat \<Rightarrow> 'm stmt_cache \<Rightarrow> bool" for I mx where
  start: "cache_reach I mx (cache_new I mx)"
| step: "cache_reach I mx c \<Longrightarrow> cache_reach I mx (cache_apply I op c)"

definition cache_ok :: "'m index_map \<Rightarrow> nat \<Rightarrow> 'm stmt_cache \<Rightarrow> bool" where
  "cache_ok I mx c \<longleftrightarrow> stc_max_size c = mx
     \<and> (mx = 0 \<longrightarrow> (\<forall>k. im_get I (stc_cache c) k = None))
     \<and> (\<forall>k v. im_get I (stc_cache c) k = Some v \<longrightarrow> \<not> is_ddl (cs_statement v))"

context index_map_laws
begin

lemma apply_keeps_checkout:
  assumes "im_get I (stc_cache c) sql = Some v" "cs_in_use v" "\<not> releases sql op"
  shows "\<exists>w. im_get I (stc_cache (cache_apply I op c)) sql = Some w \<and> cs_in_use w"
proof (cases op)
  case (OpGet now sql')
  then show ?thesis
    using assms by (auto simp: cache_get_def get_insert Let_def touch_def split: option.splits)
next
  case (OpPut now sql' s)
  then show ?thesis
    using assms evict_keeps_in_use [OF assms(1,2)]
    by (auto simp: cache_put_def get_insert Let_def split: option.splits)
next
  case (OpReturn sql')
  then show ?thesis
    using assms by (auto simp: return_statement_def get_insert split: option.splits)
next
  case (OpMark sql')
  then show ?thesis
    using assms by (auto simp: mark_cursor_closed_def get_insert split: option.splits)
next
  case OpClear
  then show ?thesis using assms by simp
qed

lemma run_keeps_checkout:
  assumes "im_get I (stc_cache c) sql = Some v" "cs_in_use v" "list_all (\<lambda>op. \<not> releases sql op) ops"
  shows "\<exists>w. im_get I (stc_cache (fold (cache_apply I) ops c)) sql = Some w \<and> cs_in_use w"
  using assms
proof (induction ops arbitrary: c v)
  case (Cons op ops)
  then show ?case using apply_keeps_checkout [of c sql v op] by fastforce
qed auto

lemma is_ddl_keep [simp]: "is_ddl (set_executed b (set_cursor_id i s)) = is_ddl s"
  by (simp add: is_ddl_def set_executed_def set_cursor_id_def)

lemma apply_ok: "cache_ok I mx c \<Longrightarrow> cache_ok I mx (cache_apply I op c)"
proof (cases op)
  case (OpGet now sql)
  then show "cache_ok I mx c \<Longrightarrow> ?thesis"
    by (auto simp: cache_ok_def cache_get_def get_insert Let_def touch_def split: option.splits if_splits)
next
  case (OpPut now sql s)
  then show "cache_ok I mx c \<Longrightarrow> ?thesis"
    using evict_sub [of c]
    by (auto simp: cache_ok_def cache_put_def get_insert Let_def touch_def cached_new_def
        split: option.splits if_splits)
next
  case (OpReturn sql)
  then show "cache_ok I mx c \<Longrightarrow> ?thesis"
    by (auto simp: cache_ok_def return_statement_def get_insert split: option.splits if_splits)
next
  case (OpMark sql)
  then show "cache_ok I mx c \<Longrightarrow> ?thesis"
    by (auto simp: cache_ok_def mark_cursor_closed_def get_insert split: option.splits if_splits)
next
  case OpClear
  then show "cache_ok I mx c \<Longrightarrow> ?thesis"
    by (auto simp: cache_ok_def cache_clear_def)
qed

lemma reach_ok: "cache_reach I mx c \<Longrightarrow> cache_ok I mx c"
proof (induction rule: cache_reach.induct)
  case start
  show ?case by (simp add: cache_ok_def cache_new_def)
next
  case (step c op)
  then show ?case by (intro apply_ok)
qed

end

subsection \<open>Properties\<close>

text \<open>
  The properties hold for every map that meets the laws; the witnesses use the association
  list.
\<close>

definition test_stmt :: statement where
  "test_stmt = set_cursor_id 7 (statement_new ''SELECT :a FROM dual'')"

definition test_cache :: "assoc_map stmt_cache" where
  "test_cache = cache_put assoc_index_map 1 ''q'' test_stmt (cache_new assoc_index_map 1)"

lemma test_stmt_facts: "\<not> is_ddl test_stmt" "st_cursor_id test_stmt \<noteq> 0" "clone_for_reuse test_stmt = test_stmt"
  by code_simp+

text \<open>
  What is put is what is got: after a non-DDL statement with a cursor is put, the next get
  of its text returns it for reuse, cursor included, in any state of the cache.
\<close>

theorem cache_put_get:
  assumes "index_map_laws I" "stc_max_size c \<noteq> 0" "\<not> is_ddl s" "st_cursor_id s \<noteq> 0"
  shows "fst (cache_get I now' sql (cache_put I now sql s c)) = Some (clone_for_reuse s)"
proof -
  note laws = assms(1)
  obtain v where v: "im_get I (stc_cache (cache_put I now sql s c)) sql = Some v" "cs_statement v = s"
      "\<not> cs_in_use v"
    using index_map_laws.put_new_get(1) [OF laws assms(3,4,2), of now sql] by blast
  have "stc_max_size (cache_put I now sql s c) \<noteq> 0"
    using index_map_laws.put_new_get(2) [OF laws assms(3,4,2), of now sql] assms(2) by simp
  from index_map_laws.get_hit [OF laws v(1,3) this] v(2) show ?thesis by simp
qed

theorem cache_put_get_witness:
  "fst (cache_get assoc_index_map 2 ''q'' test_cache) = Some test_stmt"
  using cache_put_get [OF assoc.index_map_laws_axioms, of "cache_new assoc_index_map 1" test_stmt 2 "''q''" 1]
    test_stmt_facts by (simp add: test_cache_def cache_new_def)



text \<open>
  C37: eviction is least recently used: it removes an entry that is not in use and that no other
  such entry was used before, keeps every other entry, and does nothing when all are in use.
\<close>

theorem evict_is_lru:
  assumes "index_map_laws I"
  shows "(if \<exists>k v. im_get I (stc_cache c) k = Some v \<and> \<not> cs_in_use v
     then \<exists>k v. im_get I (stc_cache c) k = Some v \<and> \<not> cs_in_use v
       \<and> (\<forall>j w. im_get I (stc_cache c) j = Some w \<and> \<not> cs_in_use w \<longrightarrow> cs_last_used v \<le> cs_last_used w)
       \<and> im_get I (stc_cache (evict_lru I c)) = (im_get I (stc_cache c))(k := None)
     else evict_lru I c = c)"
proof -
  note laws = assms
  show ?thesis
  proof (cases rule: index_map_laws.evict_cases [OF laws, of c])
    case 1
    then have no: "\<not> (\<exists>k v. im_get I (stc_cache c) k = Some v \<and> \<not> cs_in_use v)" by blast
    show ?thesis unfolding if_not_P [OF no] by (rule 1(2))
  next
    case (2 k v)
    then have yes: "\<exists>k v. im_get I (stc_cache c) k = Some v \<and> \<not> cs_in_use v" by blast
    have "im_get I (stc_cache (evict_lru I c)) = (im_get I (stc_cache c))(k := None)"
      using 2(4) by (simp add: index_map_laws.get_remove [OF laws])
    with 2(1-3) show ?thesis unfolding if_P [OF yes] by blast
  qed
qed

theorem evict_is_lru_witness:
  "evict_lru assoc_index_map (cache_new assoc_index_map 3) = cache_new assoc_index_map 3"
proof -
  have no: "\<not> (\<exists>k v. im_get assoc_index_map (stc_cache (cache_new assoc_index_map 3)) k = Some v \<and> \<not> cs_in_use v)"
    by (simp add: cache_new_def)
  show ?thesis
    using evict_is_lru [OF assoc.index_map_laws_axioms, of "cache_new assoc_index_map 3"]
    unfolding if_not_P [OF no] .
qed

text \<open>
  The limit holds as long as eviction finds an idle entry: a put then leaves at most
  \<open>max_size\<close> entries; but with every entry in use, a put of a new text makes the cache one
  entry larger than it was, beyond the limit.
\<close>

theorem cache_put_size:
  assumes "index_map_laws I" "im_get I (stc_cache c) sql = None" "\<not> is_ddl s" "st_cursor_id s \<noteq> 0"
    and "stc_max_size c \<noteq> 0"
  shows "cache_len I (cache_put I now sql s c) =
    (if cache_len I c < stc_max_size c \<or> (\<forall>k v. im_get I (stc_cache c) k = Some v \<longrightarrow> cs_in_use v)
     then cache_len I c + 1 else cache_len I c)"
proof -
  note laws = assms(1)
  note p = index_map_laws.put_len [OF laws assms(2-5), of now]
  show ?thesis
  proof (cases "cache_len I c < stc_max_size c")
    case True
    then show ?thesis using p by simp
  next
    case False
    show ?thesis
    proof (cases "\<forall>k v. im_get I (stc_cache c) k = Some v \<longrightarrow> cs_in_use v")
      case True
      then have "evict_lru I c = c" by (cases rule: index_map_laws.evict_cases [OF laws, of c]) auto
      then show ?thesis using p True False by simp
    next
      case idle: False
      then obtain k v where "im_get I (stc_cache c) k = Some v" "\<not> cs_in_use v" by blast
      from index_map_laws.evict_len [OF laws this] show ?thesis using p idle False by simp
    qed
  qed
qed

theorem cache_put_size_witness:
  "cache_len assoc_index_map (cache_put assoc_index_map 1 ''q'' test_stmt (cache_new assoc_index_map 1)) = 1"
  using cache_put_size [OF assoc.index_map_laws_axioms, of "cache_new assoc_index_map 1" "''q''" test_stmt 1]
    test_stmt_facts by (simp add: cache_new_def cache_len_def assoc.iter_empty)

text \<open>
  In every state reachable from a new cache no DDL statement is cached, the limit is the
  configured one, and a cache of size 0 is empty.
\<close>

theorem cache_reach_invariant:
  assumes "index_map_laws I" "cache_reach I mx c"
  shows "stc_max_size c = mx \<and> (mx = 0 \<longrightarrow> cache_len I c = 0)
    \<and> (\<forall>k v. im_get I (stc_cache c) k = Some v \<longrightarrow> \<not> is_ddl (cs_statement v))"
proof -
  note laws = assms(1)
  show ?thesis
    using index_map_laws.reach_ok [OF laws assms(2)]
    by (auto simp: cache_ok_def cache_len_def index_map_laws.length_iter [OF laws] dom_def)
qed

theorem cache_reach_invariant_witness:
  "stc_max_size test_cache = 1"
proof -
  have "cache_reach assoc_index_map 1 (cache_apply assoc_index_map (OpPut 1 ''q'' test_stmt) (cache_new assoc_index_map 1))"
    by (rule cache_reach.step [OF cache_reach.start])
  from cache_reach_invariant [OF assoc.index_map_laws_axioms this] show ?thesis
    by (simp add: test_cache_def)
qed

end
