(* ===== verification/FloatOps.thy ===== *)
theory FloatOps
  imports RustText
begin

section \<open>Numbers of the Rust standard library\<close>

text \<open>
  What the driver uses of the standard library's numbers: \<open>str::parse\<close> into integers and
  \<open>f64\<close>, \<open>Display\<close> of \<open>f64\<close>, and the \<open>as\<close> casts between \<open>i64\<close>, \<open>f32\<close> and \<open>f64\<close>.  A float is
  its IEEE 754 bit pattern.  \<open>float_round\<close> is the correctly rounded (nearest, ties to even)
  pattern of a positive rational; parsing, casts and printing are built on it.
\<close>

subsection \<open>Parsing integers\<close>

text \<open>\<open>from_str_radix 10\<close>: digit by digit; a bad digit is reported before the overflow it meets.\<close>

fun parse_digits :: "bool \<Rightarrow> int \<Rightarrow> int \<Rightarrow> int \<Rightarrow> string \<Rightarrow> string + int" where
  "parse_digits neg lo hi acc [] = Inr acc"
| "parse_digits neg lo hi acc (c # cs) =
     (if \<not> is_digit_char c then Inl ''invalid digit found in string''
      else
        let v = (if neg then 10 * acc - int (digit_value c) else 10 * acc + int (digit_value c))
        in if v < lo then Inl ''number too small to fit in target type''
           else if hi < v then Inl ''number too large to fit in target type''
           else parse_digits neg lo hi v cs)"

definition parse_int :: "bool \<Rightarrow> int \<Rightarrow> int \<Rightarrow> string \<Rightarrow> string + int" where
  "parse_int is_signed lo hi s =
     (if s = [] then Inl ''cannot parse integer from empty string''
      else if s = ''+'' \<or> s = ''-'' then Inl ''invalid digit found in string''
      else if hd s = CHR ''+'' then parse_digits False lo hi 0 (tl s)
      else if hd s = CHR ''-'' \<and> is_signed then parse_digits True lo hi 0 (tl s)
      else parse_digits False lo hi 0 s)"

definition parse_i64 :: "string \<Rightarrow> string + int" where
  "parse_i64 s = parse_int True (- (2 ^ 63)) (2 ^ 63 - 1) s"

definition parse_u32 :: "string \<Rightarrow> string + u32" where
  "parse_u32 s = map_sum id word_of_int (parse_int False 0 (2 ^ 32 - 1) s)"

definition parse_u16 :: "string \<Rightarrow> string + u16" where
  "parse_u16 s = map_sum id word_of_int (parse_int False 0 (2 ^ 16 - 1) s)"

definition ok_option :: "'e + 'a \<Rightarrow> 'a option" where
  "ok_option r = (case r of Inl _ \<Rightarrow> None | Inr a \<Rightarrow> Some a)"

lemma ok_option_simps [simp]: "ok_option (Inl e) = None" "ok_option (Inr a) = Some a"
  by (simp_all add: ok_option_def)

lemma nat_of_digits_mono: "n \<le> nat_of_digits n cs"
proof (induction cs arbitrary: n)
  case (Cons c cs)
  have "n \<le> 10 * n + digit_value c" by simp
  also have "\<dots> \<le> nat_of_digits (10 * n + digit_value c) cs" by (rule Cons)
  finally show ?case by simp
qed simp

lemma parse_digits_ok:
  assumes "list_all is_digit_char cs" "lo \<le> (if neg then - int (nat_of_digits n cs) else 0)"
    and "(if neg then 0 else int (nat_of_digits n cs)) \<le> hi"
  shows "parse_digits neg lo hi (if neg then - int n else int n) cs
    = Inr (if neg then - int (nat_of_digits n cs) else int (nat_of_digits n cs))"
  using assms
proof (induction cs arbitrary: n)
  case (Cons c cs)
  let ?m = "10 * n + digit_value c"
  let ?v = "if neg then - int ?m else int ?m"
  have v: "(if neg then 10 * (if neg then - int n else int n) - int (digit_value c)
      else 10 * (if neg then - int n else int n) + int (digit_value c)) = ?v" by simp
  have "int ?m \<le> int (nat_of_digits ?m cs)"
    using nat_of_digits_mono [of ?m cs] by (simp only: of_nat_le_iff)
  then have "lo \<le> ?v" "?v \<le> hi" using Cons.prems(2,3) by (auto split: if_splits)
  then show ?case
    using Cons.IH [of ?m] Cons.prems
    by (simp only: parse_digits.simps v list.pred_inject Let_def nat_of_digits.simps) (simp split: if_splits)
qed simp

lemma parse_i64_show:
  assumes "- (2 ^ 63) \<le> i" "i < 2 ^ 63"
  shows "parse_i64 (show_int i) = Inr i"
proof (cases "i < 0")
  case True
  have "parse_digits True (- (2 ^ 63)) (2 ^ 63 - 1) 0 (show_nat (nat (- i))) = Inr i"
    using parse_digits_ok [OF show_nat_digits, of "- (2 ^ 63)" True 0 "nat (- i)" "2 ^ 63 - 1"] assms True
    by (simp add: nat_of_digits_show)
  moreover have "show_nat (nat (- i)) \<noteq> []" by simp
  ultimately show ?thesis
    using True by (simp add: parse_i64_def parse_int_def show_int_def)
next
  case False
  define s where "s = show_nat (nat i)"
  have s: "s \<noteq> []" "list_all is_digit_char s" by (simp_all add: s_def show_nat_digits)
  then have hd: "is_digit_char (hd s)" by (cases s) simp_all
  then have "hd s \<noteq> CHR ''+''" "hd s \<noteq> CHR ''-''" by (auto simp: is_digit_char_def)
  moreover have "parse_digits False (- (2 ^ 63)) (2 ^ 63 - 1) 0 s = Inr i"
    using parse_digits_ok [OF show_nat_digits, of "- (2 ^ 63)" False 0 "nat i" "2 ^ 63 - 1"] assms False
    by (simp add: nat_of_digits_show s_def)
  ultimately show ?thesis
    using False s(1) by (auto simp: parse_i64_def parse_int_def show_int_def s_def [symmetric])
qed

subsection \<open>Rounding to a float\<close>

function bit_length :: "int \<Rightarrow> int" where
  "bit_length n = (if n \<le> 0 then 0 else bit_length (n div 2) + 1)"
  by pat_completeness auto
termination
  by (relation "measure nat") auto

declare bit_length.simps [simp del]

definition scale2 :: "int \<Rightarrow> int \<Rightarrow> int \<Rightarrow> int \<times> int" where
  \<comment> \<open>the fraction \<open>num / den\<close> times \<open>2 ^ k\<close>\<close>
  "scale2 k num den = (if 0 \<le> k then (num * 2 ^ nat k, den) else (num, den * 2 ^ nat (- k)))"

definition floor_log2 :: "int \<Rightarrow> int \<Rightarrow> int" where
  "floor_log2 num den =
     (let k = bit_length num - bit_length den;
          (n, d) = scale2 (- k) num den
      in if d \<le> n then k else k - 1)"

text \<open>
  \<open>mb\<close> mantissa bits, smallest normal exponent \<open>emin\<close>.  The quotient is taken in units of the
  last place and rounded; adding it to the biased exponent carries into the exponent when the
  rounding reaches the next power of two.
\<close>

definition float_round :: "nat \<Rightarrow> int \<Rightarrow> int \<Rightarrow> int \<Rightarrow> int" where
  "float_round mb emin num den =
     (if num = 0 then 0
      else
        let ex = max (floor_log2 num den) emin;
            (n, d) = scale2 (int mb - ex) num den;
            q = n div d;
            r = n mod d;
            m = (if 2 * r < d \<or> 2 * r = d \<and> even q then q else q + 1);
            bits = (ex - emin) * 2 ^ mb + m;
            inf = (3 - 2 * emin) * 2 ^ mb
        in min bits inf)"

definition f64_round :: "bool \<Rightarrow> int \<Rightarrow> int \<Rightarrow> u64" where
  "f64_round neg num den = (if neg then 2 ^ 63 else 0) OR word_of_int (float_round 52 (-1022) num den)"

definition f32_round :: "bool \<Rightarrow> int \<Rightarrow> int \<Rightarrow> u32" where
  "f32_round neg num den = (if neg then 2 ^ 31 else 0) OR word_of_int (float_round 23 (-126) num den)"

subsection \<open>Taking floats apart\<close>

definition f64_negative :: "u64 \<Rightarrow> bool" where
  "f64_negative b \<longleftrightarrow> bit b 63"

definition f64_magnitude :: "u64 \<Rightarrow> int" where
  "f64_magnitude b = uint (take_bit 63 b)"

definition f64_is_nan :: "u64 \<Rightarrow> bool" where
  "f64_is_nan b \<longleftrightarrow> 0x7FF0000000000000 < f64_magnitude b"

definition f64_is_infinite :: "u64 \<Rightarrow> bool" where
  "f64_is_infinite b \<longleftrightarrow> f64_magnitude b = 0x7FF0000000000000"

definition f64_is_finite :: "u64 \<Rightarrow> bool" where
  "f64_is_finite b \<longleftrightarrow> f64_magnitude b < 0x7FF0000000000000"

text \<open>The magnitude of a finite pattern as a fraction.\<close>

definition mag_fraction :: "nat \<Rightarrow> int \<Rightarrow> int \<Rightarrow> int \<times> int" where
  "mag_fraction mb emin mag =
     (let e = mag div 2 ^ mb; f = mag mod 2 ^ mb
      in if e = 0 then scale2 (emin - int mb) f 1
         else scale2 (emin - int mb + e - 1) (f + 2 ^ mb) 1)"

definition f64_fraction :: "u64 \<Rightarrow> int \<times> int" where
  "f64_fraction b = mag_fraction 52 (-1022) (f64_magnitude b)"

subsection \<open>Casts\<close>

text \<open>\<open>i64 as f64\<close>.\<close>

definition f64_of_int :: "int \<Rightarrow> u64" where
  "f64_of_int i = f64_round (i < 0) \<bar>i\<bar> 1"

text \<open>\<open>f64 as i64\<close>: truncation, saturating; NaN is 0.\<close>

definition i64_of_f64 :: "u64 \<Rightarrow> int" where
  "i64_of_f64 b =
     (if f64_is_nan b then 0
      else
        let t = (if f64_is_infinite b then 2 ^ 64
                 else case f64_fraction b of (n, d) \<Rightarrow> n div d);
            v = (if f64_negative b then - t else t)
        in max (- (2 ^ 63)) (min (2 ^ 63 - 1) v))"

text \<open>\<open>f32 as f64\<close>: exact; a NaN keeps its payload at the top and becomes quiet.\<close>

definition f64_of_f32 :: "u32 \<Rightarrow> u64" where
  "f64_of_f32 b =
     (let neg = bit b 31; mag = uint (take_bit 31 b)
      in if 0x7F800000 < mag then
           (if neg then 2 ^ 63 else 0) OR 0x7FF8000000000000 OR push_bit 29 (ucast (take_bit 23 b))
         else if mag = 0x7F800000 then (if neg then 2 ^ 63 else 0) OR 0x7FF0000000000000
         else case mag_fraction 23 (-126) mag of (n, d) \<Rightarrow> f64_round neg n d)"

text \<open>\<open>f64 as f32\<close>: rounded.\<close>

definition f32_of_f64 :: "u64 \<Rightarrow> u32" where
  "f32_of_f64 b =
     (let neg = f64_negative b
      in if f64_is_nan b then
           (if neg then 2 ^ 31 else 0) OR 0x7FC00000 OR take_bit 23 (ucast (drop_bit 29 b))
         else if f64_is_infinite b then (if neg then 2 ^ 31 else 0) OR 0x7F800000
         else case f64_fraction b of (n, d) \<Rightarrow> f32_round neg n d)"

subsection \<open>Parsing and printing \<open>f64\<close>\<close>

definition ascii_lower_char :: "char \<Rightarrow> char" where
  "ascii_lower_char c =
     (if 65 \<le> (of_char c :: nat) \<and> (of_char c :: nat) \<le> 90 then char_of (of_char c + 32 :: nat) else c)"

text \<open>The unsigned part: digits, fraction and exponent, read to the end of the text.\<close>

definition parse_float_body :: "bool \<Rightarrow> string \<Rightarrow> u64 option" where
  "parse_float_body neg t =
     (let i = takeWhile is_digit_char t;
          t1 = dropWhile is_digit_char t;
          has_dot = (t1 \<noteq> [] \<and> hd t1 = CHR ''.'');
          f = (if has_dot then takeWhile is_digit_char (tl t1) else []);
          t2 = (if has_dot then dropWhile is_digit_char (tl t1) else t1)
      in if i @ f = [] then None
         else
           let ex = (if t2 = [] then Some 0
                     else if hd t2 = CHR ''e'' \<or> hd t2 = CHR ''E'' then
                       let u = tl t2;
                           eneg = (u \<noteq> [] \<and> hd u = CHR ''-'');
                           ds = (if u \<noteq> [] \<and> (hd u = CHR ''-'' \<or> hd u = CHR ''+'') then tl u else u)
                       in if ds = [] \<or> \<not> list_all is_digit_char ds then None
                          else Some (if eneg then - int (nat_of_digits 0 ds) else int (nat_of_digits 0 ds))
                     else None)
           in map_option (\<lambda>e.
                let k = e - int (length f); m = int (nat_of_digits 0 (i @ f))
                in if 0 \<le> k then f64_round neg (m * 10 ^ nat k) 1 else f64_round neg m (10 ^ nat (- k))) ex)"

definition parse_f64 :: "string \<Rightarrow> string + u64" where
  "parse_f64 s =
     (if s = [] then Inl ''cannot parse float from empty string''
      else
        let neg = (hd s = CHR ''-'');
            t = (if hd s = CHR ''-'' \<or> hd s = CHR ''+'' then tl s else s);
            l = map ascii_lower_char t;
            sgn = (if neg then 2 ^ 63 else 0)
        in if l = ''inf'' \<or> l = ''infinity'' then Inr (sgn OR 0x7FF0000000000000)
           else if l = ''nan'' then Inr (sgn OR 0x7FF8000000000000)
           else case parse_float_body neg t of
                  None \<Rightarrow> Inl ''invalid float literal''
                | Some b \<Rightarrow> Inr b)"

text \<open>
  \<open>Display\<close> of \<open>f64\<close>: the shortest decimal that rounds back, the closer of two when both do,
  written without an exponent.
\<close>

definition floor_log10_from :: "int \<Rightarrow> int \<Rightarrow> int \<Rightarrow> bool" where
  "floor_log10_from n d k \<longleftrightarrow>
     (if 0 \<le> k then n < d * 10 ^ nat k else n * 10 ^ nat (- k) < d)"

text \<open>The least \<open>k\<close> with \<open>n / d < 10 ^ k\<close>.\<close>

definition decimal_point :: "int \<Rightarrow> int \<Rightarrow> int" where
  "decimal_point n d =
     (case find (floor_log10_from n d) (map (\<lambda>j. int j - 330) [0..<700]) of None \<Rightarrow> 0 | Some k \<Rightarrow> k)"

definition shortest_with :: "int \<Rightarrow> int \<Rightarrow> int \<Rightarrow> int \<Rightarrow> nat \<Rightarrow> int option" where
  "shortest_with mag n d k len =
     (let p = int len - k;
          (nn, dd) = (if 0 \<le> p then (n * 10 ^ nat p, d) else (n, d * 10 ^ nat (- p)));
          lo = nn div dd;
          r = nn mod dd;
          back = (\<lambda>m. (if 0 \<le> p then float_round 52 (-1022) m (10 ^ nat p)
                       else float_round 52 (-1022) (m * 10 ^ nat (- p)) 1) = mag)
      in if back lo \<and> (r = 0 \<or> \<not> (back (lo + 1) \<and> dd \<le> 2 * r)) then Some lo
         else if back (lo + 1) then Some (lo + 1) else None)"

definition shortest_digits :: "int \<Rightarrow> int \<Rightarrow> int \<Rightarrow> int \<Rightarrow> nat \<times> int" where
  "shortest_digits mag n d k =
     (case find (\<lambda>len. shortest_with mag n d k len \<noteq> None) [1..<18] of
        None \<Rightarrow> (0, 0)
      | Some len \<Rightarrow> (len, the (shortest_with mag n d k len)))"

definition place_point :: "int \<Rightarrow> int \<Rightarrow> string" where
  \<comment> \<open>the number \<open>m * 10 ^ e\<close> without an exponent\<close>
  "place_point m e =
     (let ds = show_nat (nat m)
      in if 0 \<le> e then ds @ replicate (nat e) (CHR ''0'')
         else if nat (- e) < length ds then
           take (length ds - nat (- e)) ds @ ''.'' @ drop (length ds - nat (- e)) ds
         else ''0.'' @ replicate (nat (- e) - length ds) (CHR ''0'') @ ds)"

function strip10 :: "int \<Rightarrow> int \<Rightarrow> int \<times> int" where
  "strip10 m e = (if 0 < m \<and> m mod 10 = 0 then strip10 (m div 10) (e + 1) else (m, e))"
  by pat_completeness auto
termination
  by (relation "measure (\<lambda>(m, _). nat m)") auto

declare strip10.simps [simp del]

definition show_f64 :: "u64 \<Rightarrow> string" where
  "show_f64 b =
     (let sgn = (if f64_negative b then ''-'' else [])
      in if f64_is_nan b then ''NaN''
         else if f64_is_infinite b then sgn @ ''inf''
         else if f64_magnitude b = 0 then sgn @ ''0''
         else case f64_fraction b of (n, d) \<Rightarrow>
           let k = decimal_point n d;
               (len, m) = shortest_digits (f64_magnitude b) n d k;
               (m', e) = strip10 m (k - int len)
           in sgn @ place_point m' e)"

end
