(* ===== verification/TextOps.thy ===== *)
theory TextOps
  imports FloatOps
begin

section \<open>Searching and converting text\<close>

text \<open>
  \<open>String::from_utf8_lossy\<close>, substring search, slicing, ASCII case, and the padded integer
  formats, as the driver uses them.  \<open>to_uppercase\<close> is modelled on ASCII.
\<close>

text \<open>\<open>U+FFFD\<close> stands for each maximal ill-formed piece.\<close>

definition REPLACEMENT :: "u8 list" where
  "REPLACEMENT = [0xEF, 0xBF, 0xBD]"

function lossy_bytes :: "u8 list \<Rightarrow> u8 list" where
  "lossy_bytes [] = []"
| "lossy_bytes (b # bs) =
     (case utf8_seq_error b bs of
        None \<Rightarrow> take (utf8_width b) (b # bs) @ lossy_bytes (drop (utf8_width b - 1) bs)
      | Some (Some n) \<Rightarrow> REPLACEMENT @ lossy_bytes (drop (n - 1) bs)
      | Some None \<Rightarrow> REPLACEMENT)"
  by pat_completeness auto
termination
  by (relation "measure length") auto

definition from_utf8_lossy :: "u8 list \<Rightarrow> string" where
  "from_utf8_lossy bs = text_of_bytes (lossy_bytes bs)"

lemma lossy_bytes_valid: "utf8_error i bs = None \<Longrightarrow> lossy_bytes bs = bs"
proof (induction i bs rule: utf8_error.induct)
  case (2 i b bs)
  have w: "0 < utf8_width b" if "utf8_seq_error b bs = None"
    using that by (cases "utf8_width b") (auto simp: utf8_seq_error_def)
  show ?case
  proof (cases "utf8_seq_error b bs")
    case None
    then have "lossy_bytes (drop (utf8_width b - 1) bs) = drop (utf8_width b - 1) bs" using 2 by simp
    then show ?thesis using None w by (cases "utf8_width b") simp_all
  qed (use 2 in simp)
qed simp

lemma from_utf8_lossy_str: "is_str s \<Longrightarrow> from_utf8_lossy (bytes_of_text s) = s"
  by (simp add: from_utf8_lossy_def is_str_def lossy_bytes_valid)

text \<open>\<open>str::find\<close>: the byte index of the first occurrence.\<close>

fun find_text :: "string \<Rightarrow> string \<Rightarrow> nat option" where
  "find_text pat s =
     (if take (length pat) s = pat then Some 0
      else case s of [] \<Rightarrow> None | c # cs \<Rightarrow> map_option Suc (find_text pat cs))"

declare find_text.simps [simp del]

definition contains_text :: "string \<Rightarrow> string \<Rightarrow> bool" where
  "contains_text s pat \<longleftrightarrow> find_text pat s \<noteq> None"

lemma find_text_Some:
  "find_text pat s = Some i \<Longrightarrow> i + length pat \<le> length s \<and> take (length pat) (drop i s) = pat"
proof (induction s arbitrary: i)
  case Nil
  then show ?case by (subst (asm) find_text.simps) (auto split: if_splits)
next
  case (Cons c s)
  show ?case
  proof (cases "take (length pat) (c # s) = pat")
    case True
    then have "i = 0" using Cons.prems by (subst (asm) find_text.simps) simp
    moreover have "length pat \<le> length (c # s)" using True by (metis length_take min.cobounded1)
    ultimately show ?thesis using True by simp
  next
    case False
    then obtain j where "find_text pat s = Some j" "i = Suc j"
      using Cons.prems by (subst (asm) find_text.simps) auto
    with Cons.IH [of j] show ?thesis by simp
  qed
qed

lemma find_text_None: "find_text pat s = None \<Longrightarrow> take (length pat) (drop i s) = pat \<Longrightarrow> False"
proof (induction s arbitrary: i)
  case Nil
  then show ?case by (subst (asm) find_text.simps) (auto split: if_splits)
next
  case (Cons c s)
  have ne: "take (length pat) (c # s) \<noteq> pat" and n: "find_text pat s = None"
    using find_text.simps [of pat "c # s"] Cons.prems(1) by (auto split: if_splits)
  then show ?case using Cons.IH [OF n, of "i - 1"] Cons.prems(2) by (cases i) simp_all
qed

definition ascii_upper_text :: "string \<Rightarrow> string" where
  "ascii_upper_text s =
     map (\<lambda>c. if 97 \<le> (of_char c :: nat) \<and> (of_char c :: nat) \<le> 122 then char_of (of_char c - 32 :: nat) else c) s"

definition eq_ignore_ascii_case :: "string \<Rightarrow> string \<Rightarrow> bool" where
  "eq_ignore_ascii_case a b \<longleftrightarrow> map ascii_lower_char a = map ascii_lower_char b"

text \<open>\<open>{:02x}\<close> of a byte.\<close>

definition lower_hex2 :: "u8 \<Rightarrow> string" where
  "lower_hex2 b = map (\<lambda>d. char_of (if d < 10 then 48 + d else 87 + d)) [unat b div 16, unat b mod 16]"

text \<open>\<open>{:0n}\<close> of a signed integer: the sign counts towards the width.\<close>

definition pad_int :: "nat \<Rightarrow> int \<Rightarrow> string" where
  "pad_int n i =
     (if i < 0 then CHR ''-'' # pad_zeros (n - 1) (show_nat (nat (- i))) else pad_zeros n (show_nat (nat i)))"

end
