(* ===== verification/Json.thy ===== *)
theory Json
  imports TextOps "HOL-Library.Char_ord" "HOL-Library.List_Lexorder"
begin

section \<open>JSON values\<close>

text \<open>
  The document type of the \<open>serde_json\<close> package as the driver's source matches on it:
  \<open>Value\<close> with \<open>Null\<close>, \<open>Bool\<close>, \<open>Number\<close>, \<open>String\<close>, \<open>Array\<close> and \<open>Object\<close>.  A number is an
  integer of 64 bits or a finite \<open>f64\<close>.  An object is the list of its entries in iteration
  order.  \<open>Map::insert\<close> and the order it keeps belong to the package: they are the parameter of
  the locale \<open>json_map\<close>, whose laws say that a map is rebuilt by inserting its entries in
  iteration order.  The locale is interpreted on both maps the package offers.
\<close>

datatype json_number = JInt int | JFloat u64

datatype json = JNull | JBool bool | JNumber json_number | JString string
  | JArray "json list" | JObject "(string \<times> json) list"

type_synonym json_entries = "(string \<times> json) list"
type_synonym json_insert = "string \<Rightarrow> json \<Rightarrow> json_entries \<Rightarrow> json_entries"

definition insert_all :: "json_insert \<Rightarrow> json_entries \<Rightarrow> json_entries \<Rightarrow> json_entries" where
  "insert_all ins es m = foldl (\<lambda>m (k, v). ins k v m) m es"

lemma insert_all_simps [simp]:
  "insert_all ins [] m = m"
  "insert_all ins ((k, v) # es) m = insert_all ins es (ins k v m)"
  by (simp_all add: insert_all_def)

locale json_map =
  fixes ins :: json_insert
    and canon :: "json_entries \<Rightarrow> bool"
  assumes distinct_keys: "canon es \<Longrightarrow> distinct (map fst es)"
    and rebuild: "canon es \<Longrightarrow> insert_all ins es [] = es"
begin

lemma rebuild_split: "canon (es @ fs) \<Longrightarrow> insert_all ins fs (insert_all ins es []) = es @ fs"
  using rebuild [of "es @ fs"] by (simp add: insert_all_def)

end

subsection \<open>The sorted map\<close>

fun sorted_insert :: json_insert where
  "sorted_insert k v [] = [(k, v)]"
| "sorted_insert k v ((k', v') # es) =
     (if k < k' then (k, v) # (k', v') # es
      else if k = k' then (k, v) # es
      else (k', v') # sorted_insert k v es)"

definition sorted_entries :: "json_entries \<Rightarrow> bool" where
  "sorted_entries es \<longleftrightarrow> sorted_wrt (<) (map fst es)"

lemma sorted_insert_last:
  "list_all (\<lambda>(k', _). k' < k) es \<Longrightarrow> sorted_insert k v es = es @ [(k, v)]"
  by (induction es) auto

lemma sorted_insert_all:
  "sorted_wrt (<) (map fst (es @ fs)) \<Longrightarrow> insert_all sorted_insert fs es = es @ fs"
proof (induction fs arbitrary: es)
  case (Cons f fs)
  obtain k v where f: "f = (k, v)" by fastforce
  have "list_all (\<lambda>(k', _). k' < k) es"
    using Cons.prems by (auto simp: f sorted_wrt_append list_all_iff)
  with Cons.IH [of "es @ [f]"] Cons.prems show ?case by (simp add: f sorted_insert_last)
qed simp

interpretation sorted_map: json_map sorted_insert sorted_entries
proof unfold_locales
  fix es :: json_entries
  assume s: "sorted_entries es"
  then show "distinct (map fst es)"
    unfolding sorted_entries_def strict_sorted_iff by blast
  show "insert_all sorted_insert es [] = es"
    using sorted_insert_all [of "[]" es] s by (simp add: sorted_entries_def)
qed

subsection \<open>The map in insertion order\<close>

fun ordered_insert :: json_insert where
  "ordered_insert k v [] = [(k, v)]"
| "ordered_insert k v ((k', v') # es) =
     (if k = k' then (k, v) # es else (k', v') # ordered_insert k v es)"

lemma ordered_insert_new: "k \<notin> fst ` set es \<Longrightarrow> ordered_insert k v es = es @ [(k, v)]"
  by (induction k v es rule: ordered_insert.induct) auto

lemma ordered_insert_all:
  "distinct (map fst (es @ fs)) \<Longrightarrow> insert_all ordered_insert fs es = es @ fs"
proof (induction fs arbitrary: es)
  case (Cons f fs)
  obtain k v where f: "f = (k, v)" by fastforce
  have "k \<notin> fst ` set es" using Cons.prems by (auto simp: f)
  with Cons.IH [of "es @ [f]"] Cons.prems show ?case by (simp add: f ordered_insert_new)
qed simp

interpretation ordered_map: json_map ordered_insert "\<lambda>es. distinct (map fst es)"
  by unfold_locales (use ordered_insert_all [of "[]"] in simp_all)

end
