(* ===== verification/NumberText.thy ===== *)
theory NumberText
  imports NumberLaws FloatOps
begin

section \<open>NUMBER and machine numbers\<close>

text \<open>
  \<open>OracleNumber::to_i64\<close> and \<open>to_f64\<close> (\<open>src/src/types/number.rs\<close>), and the exact text round
  trip of integers: the decoder prints an integer of up to 40 digits with the very characters
  \<open>i64::to_string\<close> gave the encoder.  The columns, the collections and the JSON encoder all
  rest on it.
\<close>

definition to_i64 :: "oracle_number \<Rightarrow> int result" where
  "to_i64 n =
     (if on_is_max_negative n then
        Inl (Err (DataConversionError ''Maximum negative Oracle number cannot be represented as i64''))
      else case parse_i64 (on_value n) of
          Inl e \<Rightarrow> Inl (Err (DataConversionError (''Cannot parse as i64: '' @ e)))
        | Inr i \<Rightarrow> Inr i)"

definition to_f64 :: "oracle_number \<Rightarrow> u64 result" where
  "to_f64 n =
     (if on_is_max_negative n then Inr (f64_round True (10 ^ 126) 1)
      else case parse_f64 (on_value n) of
          Inl e \<Rightarrow> Inl (Err (DataConversionError (''Cannot parse as f64: '' @ e)))
        | Inr b \<Rightarrow> Inr b)"

lemma to_number_no_panic [simp]: "to_i64 n \<noteq> Inl Panic" "to_f64 n \<noteq> Inl Panic"
  by (auto simp: to_i64_def to_f64_def split: sum.splits)

subsection \<open>The decoded digits are normalised\<close>

lemma decode_pair_normal:
  assumes "base100_ok pos b" "normal_digits ds" "ds \<noteq> [] \<or> base100 pos b \<noteq> 0"
    and "decode_pair pos fin b (ds, p) = (ds', p')"
  shows "normal_digits ds' \<and> ds' \<noteq> []"
proof -
  define m where "m = base100 pos b"
  have m: "unat (if pos then b - 1 else 101 - b) = m" "m < 100"
    using decode_value [OF assms(1)] by (simp_all add: m_def)
  have d: "m div 10 < 10" "m mod 10 < 10" "m div 10 \<noteq> 10" using m(2) by auto
  define es where "es = (if m div 10 = 0 \<and> ds = [] then ds else ds @ [m div 10])"
  have r: "ds' = (if m mod 10 \<noteq> 0 \<or> \<not> fin then es @ [m mod 10] else es)"
    using assms(4) d(3) by (auto simp: decode_pair_def Let_def m es_def split: if_splits)
  have es: "normal_digits es" "es = [] \<Longrightarrow> m mod 10 \<noteq> 0"
    using assms(2,3) d normal_digits_snoc [of ds "m div 10"]
    by (auto simp: es_def m_def [symmetric] split: if_splits)
  show ?thesis
    using r es d normal_digits_snoc [of es "m mod 10"] by (auto split: if_splits)
qed

lemma decode_mantissa_normal:
  assumes "list_all (base100_ok pos) bs" "normal_digits ds"
    and "ds \<noteq> [] \<or> bs \<noteq> [] \<and> base100 pos (hd bs) \<noteq> 0"
    and "decode_mantissa pos bs (ds, p) = (ds', p')"
  shows "normal_digits ds' \<and> ds' \<noteq> []"
  using assms
proof (induction bs arbitrary: ds p)
  case (Cons b bs)
  obtain es q where eq: "decode_pair pos (bs = []) b (ds, p) = (es, q)" by fastforce
  have b: "base100_ok pos b" and hd: "ds \<noteq> [] \<or> base100 pos b \<noteq> 0" using Cons.prems by auto
  from decode_pair_normal [OF b Cons.prems(2) hd eq]
  have "normal_digits es" "es \<noteq> []" by auto
  with Cons eq show ?case by auto
qed simp

lemma strip_zeros_normal: "normal_digits ds \<Longrightarrow> ds \<noteq> [] \<Longrightarrow> normal_digits (strip_zeros p ds) \<and> strip_zeros p ds \<noteq> []"
proof (induction p ds rule: strip_zeros.induct)
  case (1 p ds)
  show ?case
  proof (cases "last ds = 0 \<and> \<not> int (length ds) \<le> p")
    case True
    have "butlast ds \<noteq> []"
    proof
      assume "butlast ds = []"
      then have "ds = [last ds]" using 1(3) by (metis append_butlast_last_id append_Nil)
      with True 1(2,3) show False by (metis list.sel(1) normal_digits_def)
    qed
    moreover have "normal_digits (butlast ds)"
    proof -
      have "set (butlast ds) \<subseteq> set ds" by (auto dest: in_set_butlastD)
      moreover have "hd (butlast ds) = hd ds"
        using \<open>butlast ds \<noteq> []\<close> 1(3) by (metis append_butlast_last_id hd_append2)
      ultimately show ?thesis
        using 1(2,3) digits_ok_subset [of "butlast ds" ds] by (simp add: normal_digits_def)
    qed
    ultimately show ?thesis
      using 1 True by (subst (1 2) strip_zeros.simps) simp
  next
    case False
    then show ?thesis using 1 by (subst (1 2) strip_zeros.simps) auto
  qed
qed

lemma strip_zeros_last: "strip_zeros p ds \<noteq> [] \<Longrightarrow>
  int (length (strip_zeros p ds)) \<le> p \<or> last (strip_zeros p ds) \<noteq> 0"
proof (induction p ds rule: strip_zeros.induct)
  case (1 p ds)
  then show ?case
    by (cases "ds \<noteq> [] \<and> last ds = 0") (auto simp: strip_zeros.simps [of p ds])
qed

text \<open>Digits that denote a natural number reach at most to the decimal point.\<close>

lemma integer_digits_length:
  assumes "digits_ok ds" "ds \<noteq> []" "last ds \<noteq> 0" "sem ds p = of_nat n"
  shows "int (length ds) \<le> p"
proof (rule ccontr)
  assume len: "\<not> int (length ds) \<le> p"
  define k where "k = nat (int (length ds) - p)"
  have k: "0 < k" "int k = int (length ds) - p" using len by (simp_all add: k_def)
  obtain es d where ds: "ds = es @ [d]" using assms(2) by (metis append_butlast_last_id)
  have d: "d < 10" "d \<noteq> 0" using assms(1,3) by (simp_all add: ds)
  have "of_nat (val10 ds) = (of_nat n :: rat) * 10 ^ k"
  proof -
    have "sem ds p * power_int 10 (int k) = of_nat (val10 ds) * (power_int 10 (p - int (length ds)) * power_int 10 (int k))"
      by (simp only: sem_def mult.assoc)
    also have "power_int (10::rat) (p - int (length ds)) * power_int 10 (int k) = 1"
      by (simp add: k(2) flip: power_int_add)
    finally show ?thesis by (simp add: assms(4))
  qed
  then have "(of_nat (val10 ds) :: rat) = of_nat (n * 10 ^ k)" by simp
  then have "val10 ds = n * 10 ^ k" by (simp only: of_nat_eq_iff)
  then have "10 dvd val10 ds" using k(1) by (cases k) auto
  then show False using d by (simp add: ds) presburger
qed

lemma val10_inj:
  assumes "digits_ok xs" "digits_ok ys" "length xs = length ys" "val10 xs = val10 ys"
  shows "xs = ys"
  using assms(3,1,2,4)
proof (induction xs ys rule: rev_induct2)
  case (4 x xs y ys)
  then have "10 * val10 xs + x = 10 * val10 ys + y" "x < 10" "y < 10" by simp_all
  then have "x = y" "val10 xs = val10 ys" by presburger+
  with 4 show ?case by simp
qed simp_all

text \<open>A natural number's digits, padded to the decimal point, are the digits of its decimal text.\<close>

lemma normal_digits_unique:
  assumes "normal_digits ds" "ds \<noteq> []" "int (length ds) \<le> p" "sem ds p = of_nat n"
    and "normal_digits es" "es \<noteq> []" "val10 es = n"
  shows "nat p = length es" and "ds @ replicate (nat p - length ds) 0 = es"
proof -
  have se: "sem es (int (length es)) = of_nat n" by (simp add: sem_def assms(7))
  note b = sem_bounds [OF assms(1), of p] sem_bounds [OF assms(5), of "int (length es)"]
  have "power_int (10 :: rat) (p - 1) < power_int 10 (int (length es))"
    "power_int (10 :: rat) (int (length es) - 1) < power_int 10 p"
    using b assms(2,4,6) se by (metis le_less_trans)+
  then have "p - 1 < int (length es)" "int (length es) - 1 < p" by (blast dest: power_int_10_less)+
  then have p: "p = int (length es)" by linarith
  then show "nat p = length es" by simp
  let ?xs = "ds @ replicate (nat p - length ds) 0"
  have len: "length ?xs = length es" using p assms(3) by simp
  have "sem ?xs p = of_nat n" by (simp only: sem_zeros assms(4))
  then have "val10 ?xs = n" using len p by (simp add: sem_def)
  moreover have "digits_ok ?xs" "digits_ok es"
    using assms(1,5) by (auto simp: normal_digits_def digits_ok_def list_all_iff)
  ultimately show "?xs = es" using len assms(7) by (intro val10_inj) simp_all
qed

subsection \<open>Encoding an integer's text\<close>

lemma digit_char_of_digit_value: "is_digit_char c \<Longrightarrow> digit_char_of (digit_value c) = c"
  by (simp add: is_digit_char_def digit_char_of_def digit_value_def)

lemma show_int_not_Nil [simp]: "show_int i \<noteq> []"
  by (simp add: show_int_def)

definition nat_digits :: "nat \<Rightarrow> nat list" where
  "nat_digits n = map digit_value (show_nat n)"

lemma nat_digits_facts:
  shows "map digit_char_of (nat_digits n) = show_nat n"
    and "digits_ok (nat_digits n)" and "val10 (nat_digits n) = n" and "nat_digits n \<noteq> []"
proof -
  have d: "is_digit_char c" if "c \<in> set (show_nat n)" for c
    using show_nat_digits that by (simp add: list_all_iff)
  show "map digit_char_of (nat_digits n) = show_nat n"
    by (auto simp: nat_digits_def digit_char_of_digit_value intro!: map_idI dest!: d)
  show "digits_ok (nat_digits n)"
    using d digit_value_less by (auto simp: nat_digits_def digits_ok_def list_all_iff)
  show "val10 (nat_digits n) = n"
    using nat_of_digits_val10 [of 0 "show_nat n"] by (simp add: nat_digits_def nat_of_digits_show)
  show "nat_digits n \<noteq> []" by (simp add: nat_digits_def)
qed

lemma nat_digits_normal: "0 < n \<Longrightarrow> normal_digits (nat_digits n)"
proof (induction n rule: show_nat.induct)
  case (1 n)
  show ?case
  proof (cases "n < 10")
    case True
    then show ?thesis
      using 1(2) by (subst nat_digits_def, subst show_nat.simps)
        (simp add: normal_digits_def digit_char)
  next
    case False
    then have "normal_digits (nat_digits (n div 10))" using 1 by simp
    moreover have "nat_digits n = nat_digits (n div 10) @ [n mod 10]"
      using False by (subst nat_digits_def, subst show_nat.simps) (simp add: nat_digits_def digit_char)
    ultimately show ?thesis by (simp add: normal_digits_snoc nat_digits_facts(4))
  qed
qed

lemma int_digits_normal_id:
  "list_all is_digit_char s \<Longrightarrow> ds \<noteq> [] \<or> s = [] \<or> digit_value (hd s) \<noteq> 0 \<Longrightarrow>
   int_digits ds s = Inr (ds @ map digit_value s, [])"
proof (induction s arbitrary: ds)
  case (Cons c s)
  have "c \<noteq> CHR ''.''" "c \<noteq> CHR ''e''" "c \<noteq> CHR ''E''"
    using Cons.prems by (auto simp: is_digit_char_def)
  with Cons show ?case by auto
qed simp

lemma show_int_trim [simp]: "str_trim (show_int i) = show_int i"
proof (rule str_trim_visible)
  have d: "visible_char c" if "c \<in> set (show_nat n)" for c n
    using show_nat_digits that digit_visible by (simp add: list_all_iff)
  show "show_int i \<noteq> []" by (simp add: show_int_def)
  have "visible_char (hd (show_nat n))" "visible_char (last (show_nat n))" for n
    by (rule d [of _ n], simp)+
  then show "visible_char (hd (show_int i))" "visible_char (last (show_int i))"
    by (auto simp: show_int_def visible_char_def)
qed

lemma parse_number_show:
  assumes "i \<noteq> 0"
  shows "parse_number (show_int i) =
    Inr (i < 0, strip_trailing (nat_digits (nat \<bar>i\<bar>)), int (length (nat_digits (nat \<bar>i\<bar>))))"
proof -
  define n where "n = nat \<bar>i\<bar>"
  have n: "0 < n" using assms by (simp add: n_def)
  have hd: "digit_value (hd (show_nat n)) \<noteq> 0"
    using nat_digits_normal [OF n] by (simp add: normal_digits_def nat_digits_def hd_map)
  have hdm: "hd (show_nat n) \<noteq> CHR ''-''"
    using digits_hd [OF show_nat_digits, of n "[]"] by simp
  have "int_digits [] (show_nat n) = Inr (nat_digits n, [])"
    using int_digits_normal_id [of "show_nat n" "[]"] hd show_nat_digits by (simp add: nat_digits_def)
  moreover have "show_int i = (if i < 0 then CHR ''-'' # show_nat n else show_nat n)"
    by (simp add: show_int_def n_def)
  ultimately show ?thesis
    using hdm by (simp add: parse_number_def n_def [symmetric] frac_part_def apply_exponent_def)
qed

definition number_of_int :: "int \<Rightarrow> oracle_number" where
  "number_of_int i = \<lparr>on_value = show_int i, on_is_integer = True, on_is_max_negative = False\<rparr>"

lemma to_i64_number_of_int: "- (2 ^ 63) \<le> i \<Longrightarrow> i < 2 ^ 63 \<Longrightarrow> to_i64 (number_of_int i) = Inr i"
  by (simp add: to_i64_def number_of_int_def parse_i64_show)

definition first_pair :: "nat list \<Rightarrow> nat" where
  "first_pair ds = (if 2 \<le> length ds then ds ! 0 * 10 + ds ! 1 else 0)"

lemma hd_pairs: "2 \<le> length ds \<Longrightarrow> hd (pairs ds) = first_pair ds"
  by (cases ds rule: pairs.cases) (auto simp: first_pair_def)

text \<open>What the decoder makes of \<open>wire_of\<close>.\<close>

lemma decode_wire_of:
  assumes ds: "digits_ok ds" "even (length ds)" "ds \<noteq> []" "first_pair ds \<noteq> 0"
    and q: "-64 \<le> q" "q \<le> 63" and s: "sem ds (2 * q) = of_nat n" and n: "0 < n"
  shows "decode_oracle_number (wire_of neg q ds) =
    Inr \<lparr>on_value = (if neg then ''-'' else []) @ show_nat n, on_is_integer = True,
         on_is_max_negative = False\<rparr>"
proof -
  define data where "data = wire_of neg q ds"
  note parts = wire_of_parts [OF ds(1-3) q, of neg, folded data_def]
  have len2: "2 \<le> length ds" using ds(2,3) by (cases ds rule: pairs.cases) auto
  have pne: "pairs ds \<noteq> []" by (rule pairs_not_Nil) (use ds in simp_all)
  have m: "list_all (base100_ok (\<not> neg)) (map (encode_base100 neg) (pairs ds))"
    "map (base100 (\<not> neg)) (map (encode_base100 neg) (pairs ds)) = pairs ds"
    using encode_base100_inv(1,2) pairs_less_100 [OF ds(1)] by (auto simp: list_all_iff intro!: map_idI)
  obtain ds0 p where dm: "decode_mantissa (\<not> neg) (map (encode_base100 neg) (pairs ds)) ([], (q - 1) * 2 + 2) = (ds0, p)"
    by fastforce
  have "base100 (\<not> neg) (hd (map (encode_base100 neg) (pairs ds))) = hd (pairs ds)"
    using m(2) pne by (metis hd_map map_is_Nil_conv)
  then have n0: "normal_digits ds0 \<and> ds0 \<noteq> []"
    using decode_mantissa_normal [OF m(1) _ _ dm] hd_pairs [OF len2] ds(4) pne
    by (simp add: normal_digits_def)
  define es where "es = strip_zeros p ds0"
  have es: "normal_digits es" "es \<noteq> []" using strip_zeros_normal n0 by (simp_all add: es_def)
  have "sem ds0 p = of_nat (val100 0 (pairs ds)) * power_int 10 ((q - 1) * 2 + 2 - 2 * int (length (pairs ds)))"
    using decode_mantissa_spec [OF m(1) _ dm] by (simp only: m(2)) simp
  also have "\<dots> = sem ds (2 * q)"
    using val100_pairs [OF ds(2), of 0] ds(2) by (auto simp: sem_def algebra_simps elim!: evenE)
  finally have sem: "sem es p = of_nat n" by (simp add: es_def sem_strip_zeros s)
  have le: "int (length es) \<le> p"
    using strip_zeros_last [of p ds0] es sem integer_digits_length [of es p n]
    by (auto simp: es_def [symmetric] normal_digits_def)
  note u = normal_digits_unique [OF es le sem nat_digits_normal [OF n] nat_digits_facts(4,3)]
  have p0: "0 < p" using le es(2) by (cases es) simp_all
  have dt: "digits_text es p = (show_nat n, True)"
  proof -
    have "length es \<le> nat p" using le by simp
    moreover have "map digit_char_of es @ replicate (nat p - length es) (CHR ''0'') = show_nat n"
      using arg_cong [OF u(2), of "map digit_char_of"] by (simp add: nat_digits_facts(1))
    ultimately show ?thesis
      using p0 digits_body_shape [OF p0, of es] by (simp add: digits_text_def digits_body_def)
  qed
  have ne: "data \<noteq> []" "length data \<noteq> 1" using pne by (simp_all add: data_def wire_of_def Let_def)
  have tk: "take (if \<not> (data ! 0 AND 0x80 \<noteq> 0) \<and> 1 < length data \<and> last data = 102
      then length data - 2 else length data - 1) (tl data) = map (encode_base100 neg) (pairs ds)"
    using parts(3) by (auto simp: wire_mantissa_def wire_positive_def butlast_conv_take numeral_2_eq_2 split: if_splits)
  have e: "(if data ! 0 AND 0x80 \<noteq> 0 then int (unat (data ! 0)) - 193 else int (unat (NOT (data ! 0))) - 193) = q - 1"
    using parts(2) by (simp add: wire_exponent_def wire_positive_def split: if_splits)
  have pos: "(data ! 0 AND 0x80 \<noteq> 0) = (\<not> neg)" using parts(1) by (simp add: wire_positive_def)
  have hd: "hd (show_nat n) \<noteq> CHR ''-''" using digits_hd [OF show_nat_digits, of n "[]"] by simp
  have nonempty: "\<not> ((if \<not> neg then [] else ''-'') @ show_nat n = [] \<or> (if \<not> neg then [] else ''-'') @ show_nat n = ''-'')"
    using hd by (cases "show_nat n") auto
  show ?thesis
    unfolding data_def [symmetric] decode_oracle_number_def Let_def tk e
    unfolding pos dm prod.case es_def [symmetric] dt
    using ne nonempty by simp
qed

text \<open>The round trip of an integer's text.\<close>

lemma int_text_roundtrip:
  assumes "\<bar>i\<bar> < 10 ^ 40"
  shows "\<exists>w. encode_oracle_number (show_int i) = Inr w \<and> w \<noteq> [] \<and> length w \<le> 24
    \<and> decode_oracle_number w = Inr (number_of_int i)"
proof (cases "i = 0")
  case True
  have "encode_oracle_number (show_int 0) = Inr [128]" by code_simp
  moreover have "decode_oracle_number [128] = Inr (number_of_int 0)" by code_simp
  ultimately show ?thesis using True by auto
next
  case False
  define n where "n = nat \<bar>i\<bar>"
  define D where "D = nat_digits n"
  define ds where "ds = strip_trailing D"
  have n: "0 < n" "n < 10 ^ 40" using False assms by (simp_all add: n_def nat_less_iff)
  have D: "normal_digits D" "D \<noteq> []" "val10 D = n"
    using nat_digits_normal [OF n(1)] nat_digits_facts(3,4) by (simp_all add: D_def)
  have ds: "normal_digits ds" using strip_trailing_normal [OF D(1)] by (simp add: ds_def)
  define p where "p = int (length D)"
  have sem: "sem ds p = of_nat n" unfolding ds_def sem_strip_trailing by (simp add: p_def sem_def D(3))
  have dne: "ds \<noteq> []" using sem n(1) by (auto simp: sem_def)
  obtain k where "D = ds @ replicate k 0" using strip_trailing_eq [of D] by (auto simp: ds_def)
  then have dlen: "length ds \<le> length D" by simp
  have D40: "length D \<le> 40"
  proof (rule ccontr)
    assume "\<not> length D \<le> 40"
    then have "(10::nat) ^ 40 \<le> 10 ^ (length D - 1)" by (intro power_increasing) simp_all
    also have "\<dots> \<le> n" using val10_ge [of D] D by (simp add: normal_digits_def)
    finally show False using n(2) by simp
  qed
  have p: "p \<le> 40" "0 < p" using D40 D(2) by (simp_all add: p_def)
  have ds40: "length ds \<le> 40" using dlen D40 by simp
  have len_show: "length (show_int i) \<le> 41"
  proof -
    have "length (show_nat n) = length D" by (simp add: D_def nat_digits_def)
    moreover have "show_int i = (if i < 0 then CHR ''-'' # show_nat n else show_nat n)"
      by (simp add: show_int_def n_def)
    ultimately show ?thesis using D40 by simp
  qed
  have enc: "encode_oracle_number (show_int i) = encode_digits (i < 0) ds p"
    using False len_show parse_number_show [OF False]
    by (simp add: encode_oracle_number_def Let_def MAX_STRING_CHARS_def n_def [symmetric] D_def [symmetric]
        ds_def [symmetric] p_def [symmetric])
  have res: "number_of_int i = \<lparr>on_value = (if i < 0 then ''-'' else []) @ show_nat n, on_is_integer = True,
      on_is_max_negative = False\<rparr>"
    by (simp add: number_of_int_def show_int_def n_def)
  have wlen: "length (wire_of (i < 0) q es) \<le> 24" "wire_of (i < 0) q es \<noteq> []"
    if "length es \<le> 42" "even (length es)" for q es
  proof -
    have "length (pairs es) = length es div 2" using val100_pairs [OF that(2), of 0] by simp
    moreover have "length es div 2 \<le> 21" using that(1) by simp
    ultimately show "length (wire_of (i < 0) q es) \<le> 24" "wire_of (i < 0) q es \<noteq> []"
      using that by (simp_all add: wire_of_def Let_def)
  qed
  have d0: "0 < ds ! 0" using ds dne by (cases ds) (auto simp: normal_digits_def)
  show ?thesis
  proof (cases "odd p")
    case True
    obtain es where es: "pad_even (ds @ [0]) = es @ [0]" "odd (length es)" "sem es p = sem ds p"
      "digits_ok es \<longleftrightarrow> digits_ok ds" by (rule pad_even_odd)
    have esl: "length es \<le> 41" "es ! 0 = ds ! 0"
      using arg_cong [OF es(1), of length] arg_cong [OF es(1), of "\<lambda>xs. xs ! 0"] es(2) ds40 dne
      by (auto simp: pad_even_def nth_append split: if_splits)
    define q where "q = (p + 1) sdiv 2"
    have q: "2 * q = p + 1" "-64 \<le> q" "q \<le> 63"
      using True p by (auto simp: q_def sdiv2 elim!: oddE)
    have w: "encode_digits (i < 0) ds p = Inr (wire_of (i < 0) q (0 # es))"
      using encode_digits_odd [OF _ True ds40 _ dne es(1,2)] p by (simp add: q_def)
    have "decode_oracle_number (wire_of (i < 0) q (0 # es)) = Inr (number_of_int i)"
      unfolding res
    proof (rule decode_wire_of [OF _ _ _ _ q(2,3) _ n(1)])
      show "sem (0 # es) (2 * q) = rat_of_nat n" unfolding q(1) sem_Cons0 by (simp add: es(3) sem)
      show "digits_ok (0 # es)" using es(4) ds by (simp add: normal_digits_def)
      show "even (length (0 # es))" using es(2) by simp
      show "first_pair (0 # es) \<noteq> 0" using es(2) esl(2) d0 by (cases es) (auto simp: first_pair_def)
    qed simp
    moreover have "length (0 # es) \<le> 42" "even (length (0 # es))" using esl(1) es(2) by simp_all
    ultimately show ?thesis using w enc wlen by (metis res)
  next
    case False
    define q where "q = p sdiv 2"
    define es where "es = pad_even ds"
    have q: "2 * q = p" "-64 \<le> q" "q \<le> 63"
      using False p by (auto simp: q_def sdiv2 elim!: evenE)
    have w: "encode_digits (i < 0) ds p = Inr (wire_of (i < 0) q es)"
      using encode_digits_even [OF _ ds40 _ _ dne] False p by (simp add: q_def es_def)
    have esl: "length es \<le> 42" "es ! 0 = ds ! 0" using ds40 dne by (auto simp: es_def pad_even_def nth_append)
    have "decode_oracle_number (wire_of (i < 0) q es) = Inr (number_of_int i)"
      unfolding res
    proof (rule decode_wire_of [OF _ _ _ _ q(2,3) _ n(1)])
      show "sem es (2 * q) = rat_of_nat n" unfolding q(1) by (simp add: es_def sem)
      show "digits_ok es" "even (length es)" "es \<noteq> []" using ds dne by (simp_all add: es_def normal_digits_def)
      then show "first_pair es \<noteq> 0" using esl(2) d0 by (cases es rule: pairs.cases) (auto simp: first_pair_def)
    qed
    moreover have "even (length es)" by (simp add: es_def)
    ultimately show ?thesis using w enc wlen esl(1) by (metis res)
  qed
qed

end
