(* ===== verification/Oson.thy ===== *)
theory Oson
  imports Json NumberText BinFloat Checked "HOL-Library.Product_Lexorder"
begin

section \<open>OSON, Oracle's binary JSON\<close>

text \<open>
  \<open>src/src/types/oson.rs\<close>: \<open>OsonEncoder\<close> and \<open>OsonDecoder\<close>.
  \<^item> The decoder's struct is the record \<open>oson_decoder\<close>; its methods are actions on it.  The
    recursive descent \<open>decode_node\<close> takes the stack depth it may use: calling itself with none
    left is the abort of a stack overflow (\<open>Panic\<close>).
  \<^item> The encoder's tree segment is the byte list \<open>buf\<close> it appends to and patches.
  \<^item> \<open>ins\<close> is \<open>serde_json\<close>'s \<open>Map::insert\<close>, \<open>show_float\<close> its text of a float.
\<close>

definition FLAG_REL_OFFSET_MODE :: u16 where "FLAG_REL_OFFSET_MODE = 0x0001"
definition FLAG_INLINE_LEAF :: u16 where "FLAG_INLINE_LEAF = 0x0002"
definition FLAG_NUM_FNAMES_UINT32 :: u16 where "FLAG_NUM_FNAMES_UINT32 = 0x0008"
definition FLAG_IS_SCALAR :: u16 where "FLAG_IS_SCALAR = 0x0010"
definition FLAG_HASH_ID_UINT8 :: u16 where "FLAG_HASH_ID_UINT8 = 0x0100"
definition FLAG_NUM_FNAMES_UINT16 :: u16 where "FLAG_NUM_FNAMES_UINT16 = 0x0400"
definition FLAG_FNAMES_SEG_UINT32 :: u16 where "FLAG_FNAMES_SEG_UINT32 = 0x0800"
definition FLAG_TREE_SEG_UINT32 :: u16 where "FLAG_TREE_SEG_UINT32 = 0x1000"
definition FLAG_TINY_NODES_STAT :: u16 where "FLAG_TINY_NODES_STAT = 0x2000"
definition FLAG_SEC_FNAMES_SEG_UINT16 :: u16 where "FLAG_SEC_FNAMES_SEG_UINT16 = 0x0100"

lemmas oson_flags = FLAG_REL_OFFSET_MODE_def FLAG_INLINE_LEAF_def FLAG_NUM_FNAMES_UINT32_def
  FLAG_IS_SCALAR_def FLAG_HASH_ID_UINT8_def FLAG_NUM_FNAMES_UINT16_def FLAG_FNAMES_SEG_UINT32_def
  FLAG_TREE_SEG_UINT32_def FLAG_TINY_NODES_STAT_def FLAG_SEC_FNAMES_SEG_UINT16_def

definition OSON_MAGIC :: "u8 list" where "OSON_MAGIC = [0xFF, 0x4A, 0x5A]"
definition VERSION_MAX_FNAME_255 :: u8 where "VERSION_MAX_FNAME_255 = 1"
definition VERSION_MAX_FNAME_65535 :: u8 where "VERSION_MAX_FNAME_65535 = 3"

subsection \<open>The decoder's state and its reads\<close>

record oson_decoder =
  od_data :: "u8 list"
  od_pos :: nat
  od_version :: u8
  od_primary :: u16
  od_secondary :: u16
  od_names :: "string list"
  od_id_length :: nat
  od_tree :: nat
  od_relative :: bool

type_synonym 'a oreader = "(oson_decoder, error, 'a) action"

definition unexpected_end :: error where
  "unexpected_end = ProtocolError ''Unexpected end of OSON data''"

definition get_pos :: "nat oreader" where
  "get_pos = (\<lambda>s. (Inr (od_pos s), s))"

definition set_pos :: "nat \<Rightarrow> unit oreader" where
  "set_pos p = (\<lambda>s. (Inr (), s\<lparr>od_pos := p\<rparr>))"

definition oread_bytes :: "nat \<Rightarrow> u8 list oreader" where
  "oread_bytes len =
     (\<lambda>s. if length (od_data s) < od_pos s + len then (Inl (Err unexpected_end), s)
          else (slice_at (od_data s) (od_pos s) (od_pos s + len), s\<lparr>od_pos := od_pos s + len\<rparr>))"

definition oread_u8 :: "u8 oreader" where
  "oread_u8 =
     (\<lambda>s. if length (od_data s) \<le> od_pos s then (Inl (Err unexpected_end), s)
          else (index_at (od_data s) (od_pos s), s\<lparr>od_pos := od_pos s + 1\<rparr>))"

text \<open>\<open>read_u16_be\<close> and \<open>read_u32_be\<close>: the length check, then the bytes by index.\<close>

definition oread_u16 :: "u16 oreader" where
  "oread_u16 = fmap be_word (oread_bytes 2)"

definition oread_u32 :: "u32 oreader" where
  "oread_u32 = fmap be_word (oread_bytes 4)"

definition oread_string :: "nat \<Rightarrow> string oreader" where
  "oread_string len = fmap from_utf8_lossy (oread_bytes len)"

subsection \<open>Scalars\<close>

definition json_of_f64 :: "u64 \<Rightarrow> json" where
  "json_of_f64 b = (if f64_is_finite b then JNumber (JFloat b) else JNull)"

definition json_of_f32 :: "u32 \<Rightarrow> json" where
  "json_of_f32 b = json_of_f64 (f64_of_f32 b)"

definition decode_json_number :: "nat \<Rightarrow> json oreader" where
  "decode_json_number len = andThen (oread_bytes len) (\<lambda>bytes.
     case decode_oracle_number bytes of
       Inl Panic \<Rightarrow> lift_res (Inl Panic)
     | Inl (Err e) \<Rightarrow> ok JNull
     | Inr num \<Rightarrow>
         ok (case parse_i64 (on_value num) of
               Inr i \<Rightarrow> JNumber (JInt i)
             | Inl _ \<Rightarrow> (case parse_f64 (on_value num) of
                   Inr f \<Rightarrow> json_of_f64 f
                 | Inl _ \<Rightarrow> JString (on_value num))))"

definition oson_date :: "u8 list \<Rightarrow> string result" where
  "oson_date bytes =
     (if length bytes < 7 then Inl (Err (ProtocolError ''Invalid date bytes''))
      else
        let century = int (unat (bytes ! 0)) - 100;
            year = int (unat (bytes ! 1)) - 100;
            full_year = century * 100 + year
        in res_bind (sub_chk (bytes ! 4) 1) (\<lambda>hour.
           res_bind (sub_chk (bytes ! 5) 1) (\<lambda>minute.
           res_bind (sub_chk (bytes ! 6) 1) (\<lambda>second.
           Inr (pad_int 4 full_year @ ''-'' @ pad_zeros 2 (show_nat (unat (bytes ! 2))) @ ''-''
             @ pad_zeros 2 (show_nat (unat (bytes ! 3))) @ ''T'' @ pad_zeros 2 (show_nat (unat hour))
             @ '':'' @ pad_zeros 2 (show_nat (unat minute)) @ '':'' @ pad_zeros 2 (show_nat (unat second)))))))"

definition oson_timestamp :: "u8 list \<Rightarrow> string result" where
  "oson_timestamp bytes =
     res_bind (slice_at bytes 0 7) (\<lambda>d. res_bind (oson_date d) (\<lambda>date_str.
       if 11 \<le> length bytes then
         let nanos = (be_word (take 4 (drop 7 bytes)) :: u32); micros = nanos div 1000
         in Inr (date_str @ ''.'' @ pad_zeros 6 (show_nat (unat micros)))
       else Inr date_str))"

definition b64_char :: "nat \<Rightarrow> char" where
  "b64_char i = ''ABCDEFGHIJKLMNOPQRSTUVWXYZabcdefghijklmnopqrstuvwxyz0123456789+/'' ! i"

text \<open>\<open>base64_encode\<close>, three bytes at a time; a missing byte counts as 0 and prints \<open>=\<close>.\<close>

definition b64_chunk :: "u8 list \<Rightarrow> string" where
  "b64_chunk chunk =
     (let b0 = unat (chunk ! 0);
          b1 = (if 1 < length chunk then unat (chunk ! 1) else 0);
          b2 = (if 2 < length chunk then unat (chunk ! 2) else 0)
      in [b64_char (b0 div 4), b64_char (b0 mod 4 * 16 + b1 div 16),
          if 1 < length chunk then b64_char (b1 mod 16 * 4 + b2 div 64) else CHR ''='',
          if 2 < length chunk then b64_char (b2 mod 64) else CHR ''=''])"

fun oson_base64 :: "u8 list \<Rightarrow> string" where
  "oson_base64 [] = []"
| "oson_base64 [a] = b64_chunk [a]"
| "oson_base64 [a, b] = b64_chunk [a, b]"
| "oson_base64 (a # b # c # rest) = b64_chunk [a, b, c] @ oson_base64 rest"

definition decode_extended :: "json oreader" where
  "decode_extended = andThen oread_u8 (\<lambda>ext_type.
     if ext_type = 0x01 then
       andThen oread_u32 (\<lambda>len. andThen (oread_bytes (unat len)) (\<lambda>_. ok (JArray [])))
     else fail (ProtocolError (''Unsupported extended OSON type: 0x'' @ lower_hex2 ext_type)))"

definition decode_scalar :: "u8 \<Rightarrow> json oreader" where
  "decode_scalar node_type =
     (if node_type = 0x30 then ok JNull
      else if node_type = 0x31 then ok (JBool True)
      else if node_type = 0x32 then ok (JBool False)
      else if node_type = 0x33 then
        andThen oread_u8 (\<lambda>len. fmap JString (oread_string (unat len)))
      else if node_type = 0x37 then
        andThen oread_u16 (\<lambda>len. fmap JString (oread_string (unat len)))
      else if node_type = 0x38 then
        andThen oread_u32 (\<lambda>len. fmap JString (oread_string (unat len)))
      else if node_type = 0x34 then andThen oread_u8 (\<lambda>len. decode_json_number (unat len))
      else if node_type = 0x36 then fmap (\<lambda>bs. json_of_f64 (decode_binary_double bs)) (oread_bytes 8)
      else if node_type = 0x7f then fmap (\<lambda>bs. json_of_f32 (decode_binary_float bs)) (oread_bytes 4)
      else if node_type = 0x3c \<or> node_type = 0x7d then
        andThen (oread_bytes 7) (\<lambda>bs. fmap JString (lift_res (oson_date bs)))
      else if node_type = 0x39 then
        andThen (oread_bytes 11) (\<lambda>bs. fmap JString (lift_res (oson_timestamp bs)))
      else if node_type = 0x7c then
        andThen (oread_bytes 13) (\<lambda>bs. andThen (lift_res (slice_at bs 0 11)) (\<lambda>ts.
          fmap JString (lift_res (oson_timestamp ts))))
      else if node_type = 0x3a then
        andThen oread_u16 (\<lambda>len. fmap (\<lambda>bs. JString (oson_base64 bs)) (oread_bytes (unat len)))
      else if node_type = 0x3b then
        andThen oread_u32 (\<lambda>len. fmap (\<lambda>bs. JString (oson_base64 bs)) (oread_bytes (unat len)))
      else if node_type = 0x7e then
        andThen oread_u8 (\<lambda>len. fmap (\<lambda>bs. JString (oson_base64 bs)) (oread_bytes (unat len)))
      else if node_type = 0x7b then decode_extended
      else if node_type = 0x3d \<or> node_type = 0x3e then
        fail (ProtocolError ''Interval types not supported in JSON'')
      else if node_type AND 0xf0 = 0x20 \<or> node_type AND 0xf0 = 0x60 then
        decode_json_number (unat (node_type AND 0x0f) + 1)
      else if node_type AND 0xf0 = 0x40 \<or> node_type AND 0xf0 = 0x50 then
        decode_json_number (unat (node_type AND 0x0f))
      else if node_type AND 0xe0 = 0 then
        (if node_type = 0 then ok (JString []) else fmap JString (oread_string (unat node_type)))
      else fail (ProtocolError (''Unsupported OSON node type: 0x'' @ lower_hex2 node_type)))"

subsection \<open>Containers\<close>

definition get_offset :: "u8 \<Rightarrow> u32 oreader" where
  "get_offset node_type = (if node_type AND 0x20 \<noteq> 0 then oread_u32 else fmap ucast oread_u16)"

definition usub :: "nat \<Rightarrow> nat \<Rightarrow> nat result" where
  "usub a b = (if b \<le> a then Inr (a - b) else Inl Panic)"

text \<open>The count of children behind a node type; the shared form has none of its own.\<close>

definition read_count :: "u8 \<Rightarrow> u32 oreader" where
  "read_count node_type =
     (let bits = node_type AND 0x18
      in if bits = 0x00 then fmap ucast oread_u8
         else if bits = 0x08 then fmap ucast oread_u16
         else if bits = 0x10 then oread_u32
         else ok 0)"

definition read_field_id :: "nat oreader" where
  "read_field_id = (\<lambda>s.
     if od_id_length s = 1 then fmap unat oread_u8 s
     else if od_id_length s = 2 then fmap unat oread_u16 s
     else if od_id_length s = 4 then fmap unat oread_u32 s
     else (Inl Panic, s))"

definition field_name :: "nat \<Rightarrow> string oreader" where
  "field_name field_id = (\<lambda>s.
     (if 0 < field_id \<and> field_id \<le> length (od_names s)
      then index_at (od_names s) (field_id - 1)
      else Inr (''field_'' @ show_nat field_id), s))"

text \<open>Read the value whose offset is at \<open>offsets_pos\<close>: the value and the next offset's position.\<close>

definition decode_child :: "json oreader \<Rightarrow> u8 \<Rightarrow> nat \<Rightarrow> nat \<Rightarrow> (json \<times> nat) oreader" where
  "decode_child child node_type container_offset offsets_pos =
     andSeq (set_pos offsets_pos) (andThen (get_offset node_type) (\<lambda>value_offset.
     andThen get_pos (\<lambda>next_pos. (\<lambda>s.
       andThen (lift_res (if od_relative s then add_chk (of_nat container_offset) value_offset
                          else Inr value_offset)) (\<lambda>actual_offset.
       andSeq (set_pos (od_tree s + unat actual_offset))
         (andThen child (\<lambda>value. ok (value, next_pos)))) s))))"

fun object_loop :: "json_insert \<Rightarrow> json oreader \<Rightarrow> u8 \<Rightarrow> nat \<Rightarrow> nat \<Rightarrow> nat \<Rightarrow> nat
    \<Rightarrow> json_entries \<Rightarrow> json_entries oreader" where
  "object_loop ins child node_type container_offset 0 field_ids_pos offsets_pos m = ok m"
| "object_loop ins child node_type container_offset (Suc n) field_ids_pos offsets_pos m =
     andSeq (set_pos field_ids_pos) (andThen read_field_id (\<lambda>field_id.
     andThen get_pos (\<lambda>field_ids_pos'.
     andThen (field_name field_id) (\<lambda>name.
     andThen (decode_child child node_type container_offset offsets_pos) (\<lambda>(value, offsets_pos').
     object_loop ins child node_type container_offset n field_ids_pos' offsets_pos'
       (ins name value m))))))"

fun array_loop :: "json oreader \<Rightarrow> u8 \<Rightarrow> nat \<Rightarrow> nat \<Rightarrow> nat \<Rightarrow> json list \<Rightarrow> json list oreader" where
  "array_loop child node_type container_offset 0 offsets_pos arr = ok arr"
| "array_loop child node_type container_offset (Suc n) offsets_pos arr =
     andThen (decode_child child node_type container_offset offsets_pos) (\<lambda>(value, offsets_pos').
     array_loop child node_type container_offset n offsets_pos' (arr @ [value]))"

text \<open>Where a shared node's field ids and its own offsets are, and how many.\<close>

definition shared_layout :: "u8 \<Rightarrow> (nat \<times> nat \<times> u32) oreader" where
  "shared_layout node_type =
     andThen (get_offset node_type) (\<lambda>offset.
     andThen get_pos (\<lambda>local_offsets_pos. (\<lambda>s.
       andSeq (set_pos (od_tree s + unat offset))
         (andThen oread_u8 (\<lambda>shared_node_type.
          andThen (read_count shared_node_type) (\<lambda>nc.
          andThen get_pos (\<lambda>shared_field_ids_pos.
          ok (shared_field_ids_pos, local_offsets_pos, nc))))) s)))"

definition container_layout :: "u8 \<Rightarrow> u32 \<Rightarrow> (nat \<times> nat \<times> u32) oreader" where
  "container_layout node_type num_children =
     (if node_type AND 0x18 = 0x18 then shared_layout node_type
      else (\<lambda>s.
        (Inr (if node_type AND 0x40 = 0
              then (od_pos s, od_pos s + od_id_length s * unat num_children, num_children)
              else (0, od_pos s, num_children)), s)))"

definition decode_container :: "json_insert \<Rightarrow> json oreader \<Rightarrow> u8 \<Rightarrow> json oreader" where
  "decode_container ins child node_type = (\<lambda>s.
     andThen (lift_res (res_bind (usub (od_pos s) (od_tree s)) (\<lambda>a. usub a 1))) (\<lambda>container_offset.
     andThen (read_count node_type) (\<lambda>count.
     andThen (container_layout node_type count) (\<lambda>(field_ids_pos, offsets_pos, num_children).
       if node_type AND 0x40 = 0 then
         fmap JObject (object_loop ins child node_type container_offset (unat num_children)
           field_ids_pos offsets_pos [])
       else andThen get_pos (\<lambda>offsets_pos.
         fmap JArray (array_loop child node_type container_offset (unat num_children)
           offsets_pos []))))) s)"

fun decode_node :: "json_insert \<Rightarrow> nat \<Rightarrow> json oreader" where
  "decode_node ins 0 = lift_res (Inl Panic)"
| "decode_node ins (Suc depth) = andThen oread_u8 (\<lambda>node_type.
     if node_type AND 0x80 \<noteq> 0 then decode_container ins (decode_node ins depth) node_type
     else decode_scalar node_type)"

subsection \<open>The header\<close>

fun read_offsets :: "nat \<Rightarrow> nat \<Rightarrow> u32 list oreader" where
  "read_offsets offsets_size 0 = ok []"
| "read_offsets offsets_size (Suc n) =
     andThen (if offsets_size = 2 then fmap ucast oread_u16 else oread_u32) (\<lambda>offset.
     fmap (\<lambda>offs. offset # offs) (read_offsets offsets_size n))"

definition short_name :: "u8 list \<Rightarrow> u32 \<Rightarrow> string result" where
  "short_name names_data offset =
     (let name_start = unat offset
      in res_bind (index_at names_data name_start) (\<lambda>name_len.
         res_bind (slice_at names_data (name_start + 1) (name_start + 1 + unat name_len)) (\<lambda>name_bytes.
         Inr (from_utf8_lossy name_bytes))))"

definition long_name :: "u8 list \<Rightarrow> u32 \<Rightarrow> string result" where
  "long_name names_data offset =
     (let name_start = unat offset
      in res_bind (index_at names_data name_start) (\<lambda>hi.
         res_bind (index_at names_data (name_start + 1)) (\<lambda>lo.
         let name_len = unat (be_word [hi, lo] :: u16)
         in res_bind (slice_at names_data (name_start + 2) (name_start + 2 + name_len)) (\<lambda>name_bytes.
            Inr (from_utf8_lossy name_bytes)))))"

fun res_map :: "('a \<Rightarrow> ('e, 'b) outcome) \<Rightarrow> 'a list \<Rightarrow> ('e, 'b list) outcome" where
  "res_map f [] = Inr []"
| "res_map f (x # xs) = res_bind (f x) (\<lambda>y. res_bind (res_map f xs) (\<lambda>ys. Inr (y # ys)))"

text \<open>
  \<open>read_short_field_names\<close> (1-byte hash ids, 1-byte name lengths) and
  \<open>read_long_field_names\<close> (2-byte ones).
\<close>

definition read_field_names ::
  "nat \<Rightarrow> (u8 list \<Rightarrow> u32 \<Rightarrow> string result) \<Rightarrow> u32 \<Rightarrow> nat \<Rightarrow> u32 \<Rightarrow> string list oreader" where
  "read_field_names hash_size name num_fields offsets_size seg_size =
     andThen get_pos (\<lambda>p. andSeq (set_pos (p + unat num_fields * hash_size))
       (andThen (read_offsets offsets_size (unat num_fields)) (\<lambda>offsets.
        andThen get_pos (\<lambda>start. (\<lambda>s.
          andThen (lift_res (slice_at (od_data s) start (start + unat seg_size))) (\<lambda>names_data.
          andSeq (set_pos (start + unat seg_size))
            (lift_res (res_map (name names_data) offsets))) s)))))"

definition read_short_field_names :: "u32 \<Rightarrow> nat \<Rightarrow> u32 \<Rightarrow> string list oreader" where
  "read_short_field_names = read_field_names 1 short_name"

definition read_long_field_names :: "u32 \<Rightarrow> nat \<Rightarrow> u32 \<Rightarrow> string list oreader" where
  "read_long_field_names = read_field_names 2 long_name"

definition extend_names :: "string list \<Rightarrow> unit oreader" where
  "extend_names names = (\<lambda>s. (Inr (), s\<lparr>od_names := od_names s @ names\<rparr>))"

definition has_flag :: "u16 \<Rightarrow> u16 \<Rightarrow> bool" where
  "has_flag flags f \<longleftrightarrow> flags AND f \<noteq> 0"

text \<open>The scalar image: the tree segment size is skipped.\<close>

definition parse_scalar :: "json_insert \<Rightarrow> nat \<Rightarrow> u16 \<Rightarrow> json oreader" where
  "parse_scalar ins depth flags =
     andThen get_pos (\<lambda>p.
     andSeq (set_pos (p + (if has_flag flags FLAG_TREE_SEG_UINT32 then 4 else 2)))
       (decode_node ins depth))"

definition read_num_names :: "u16 \<Rightarrow> (u32 \<times> nat) oreader" where
  "read_num_names flags =
     (if has_flag flags FLAG_NUM_FNAMES_UINT32 then fmap (\<lambda>n. (n, 4)) oread_u32
      else if has_flag flags FLAG_NUM_FNAMES_UINT16 then fmap (\<lambda>n. (ucast n, 2)) oread_u16
      else fmap (\<lambda>n. (ucast n, 1)) oread_u8)"

definition read_seg_size :: "u16 \<Rightarrow> u16 \<Rightarrow> u32 oreader" where
  "read_seg_size flags f = (if has_flag flags f then oread_u32 else fmap ucast oread_u16)"

text \<open>The secondary header: offset size, count and size of the long field names.\<close>

definition read_long_header :: "u8 \<Rightarrow> (u16 \<times> nat \<times> u32 \<times> u32) oreader" where
  "read_long_header version =
     (if version = VERSION_MAX_FNAME_65535 then
        andThen oread_u16 (\<lambda>secondary. andThen oread_u32 (\<lambda>num. andThen oread_u32 (\<lambda>seg.
          ok (secondary, if has_flag secondary FLAG_SEC_FNAMES_SEG_UINT16 then 2 else 4, num, seg))))
      else ok (0, 0, 0, 0))"

definition parse_containers :: "json_insert \<Rightarrow> nat \<Rightarrow> u8 \<Rightarrow> u16 \<Rightarrow> json oreader" where
  "parse_containers ins depth version flags =
     andThen (read_num_names flags) (\<lambda>(num_short, id_length).
     andSeq (\<lambda>s. (Inr (), s\<lparr>od_id_length := id_length\<rparr>))
     (andThen (read_seg_size flags FLAG_FNAMES_SEG_UINT32) (\<lambda>short_seg.
     andThen (read_long_header version) (\<lambda>(secondary, long_offs, num_long, long_seg).
     andSeq (\<lambda>s. (Inr (), s\<lparr>od_secondary := secondary\<rparr>))
     (andThen (read_seg_size flags FLAG_TREE_SEG_UINT32) (\<lambda>_.
     andThen oread_u16 (\<lambda>_.
     andSeq (if 0 < num_short
             then andThen (read_short_field_names num_short
                    (if has_flag flags FLAG_FNAMES_SEG_UINT32 then 4 else 2) short_seg) extend_names
             else ok ())
     (andSeq (if 0 < num_long
              then andThen (read_long_field_names num_long long_offs long_seg) extend_names
              else ok ())
     (andSeq (\<lambda>s. (Inr (), s\<lparr>od_tree := od_pos s\<rparr>))
       (decode_node ins depth))))))))))"

definition oson_parse :: "json_insert \<Rightarrow> nat \<Rightarrow> json oreader" where
  "oson_parse ins depth = (\<lambda>s.
     if length (od_data s) < 4 then (Inl (Err (ProtocolError ''OSON data too short'')), s)
     else if take 3 (od_data s) \<noteq> OSON_MAGIC
     then (Inl (Err (ProtocolError ''Invalid OSON magic bytes'')), s)
     else andSeq (set_pos 3) (andThen oread_u8 (\<lambda>version.
       andSeq (\<lambda>s. (Inr (), s\<lparr>od_version := version\<rparr>))
       (if version \<noteq> VERSION_MAX_FNAME_255 \<and> version \<noteq> VERSION_MAX_FNAME_65535
        then fail (ProtocolError (''Unsupported OSON version: '' @ show_nat (unat version)))
        else andThen oread_u16 (\<lambda>flags.
          andSeq (\<lambda>s. (Inr (), s\<lparr>od_primary := flags,
              od_relative := has_flag flags FLAG_REL_OFFSET_MODE\<rparr>))
          (if has_flag flags FLAG_IS_SCALAR then parse_scalar ins depth flags
           else parse_containers ins depth version flags))))) s)"

definition decoder_new :: "u8 list \<Rightarrow> oson_decoder" where
  "decoder_new data = \<lparr>od_data = data, od_pos = 0, od_version = 0, od_primary = 0,
     od_secondary = 0, od_names = [], od_id_length = 1, od_tree = 0, od_relative = False\<rparr>"

definition oson_decode :: "json_insert \<Rightarrow> nat \<Rightarrow> u8 list \<Rightarrow> json result" where
  "oson_decode ins depth data = fst (oson_parse ins depth (decoder_new data))"

subsection \<open>The encoder: field names\<close>

record oson_encoder =
  oe_names :: "string list"
  oe_ids :: "string \<Rightarrow> u32 option"

definition bernstein_hash :: "u8 list \<Rightarrow> u32" where
  "bernstein_hash data = foldl (\<lambda>hash b. (hash XOR ucast b) * 16777619) 0x811C9DC5 data"

definition note_field :: "string \<Rightarrow> oson_encoder \<Rightarrow> oson_encoder" where
  "note_field key enc =
     (if oe_ids enc key = None
      then enc\<lparr>oe_names := oe_names enc @ [key], oe_ids := (oe_ids enc)(key \<mapsto> 0)\<rparr>
      else enc)"

fun collect_field_names :: "json \<Rightarrow> oson_encoder \<Rightarrow> oson_encoder"
  and collect_items :: "json list \<Rightarrow> oson_encoder \<Rightarrow> oson_encoder"
  and collect_entries :: "json_entries \<Rightarrow> oson_encoder \<Rightarrow> oson_encoder" where
  "collect_field_names (JObject es) enc = collect_entries es enc"
| "collect_field_names (JArray vs) enc = collect_items vs enc"
| "collect_field_names JNull enc = enc"
| "collect_field_names (JBool b) enc = enc"
| "collect_field_names (JNumber n) enc = enc"
| "collect_field_names (JString t) enc = enc"
| "collect_items [] enc = enc"
| "collect_items (v # vs) enc = collect_items vs (collect_field_names v enc)"
| "collect_entries [] enc = enc"
| "collect_entries ((key, child) # es) enc =
     collect_entries es (collect_field_names child (note_field key enc))"

definition hash_byte :: "string \<Rightarrow> u32" where
  "hash_byte name = bernstein_hash (bytes_of_text name) AND 0xff"

text \<open>\<open>sort_by\<close> is stable: by hash byte, then by length.\<close>

definition sort_and_update_field_ids :: "oson_encoder \<Rightarrow> oson_encoder" where
  "sort_and_update_field_ids enc =
     (if oe_names enc = [] then enc
      else
        let sorted = sort_key (\<lambda>name. (hash_byte name, length name)) (oe_names enc)
        in \<lparr>oe_names = sorted,
            oe_ids = foldl (\<lambda>ids (i, name). ids(name \<mapsto> of_nat (i + 1))) (oe_ids enc) (enumerate 0 sorted)\<rparr>)"

fun names_segment :: "string list \<Rightarrow> u8 list \<Rightarrow> u16 list \<times> u8 list" where
  "names_segment [] names_data = ([], names_data)"
| "names_segment (name # names) names_data =
     (case names_segment names (names_data @ of_nat (length name) # bytes_of_text name) of
        (offsets, final) \<Rightarrow> (of_nat (length names_data) # offsets, final))"

definition build_field_names_components :: "string list \<Rightarrow> u8 list \<times> u8 list \<times> u8 list" where
  "build_field_names_components names =
     (case names_segment names [] of (offsets, names_data) \<Rightarrow>
        (map (\<lambda>name. ucast (hash_byte name)) names,
         concat (map (be_bytes 2) offsets), names_data))"

subsection \<open>The encoder: tree segment\<close>

definition json_number_text :: "(u64 \<Rightarrow> string) \<Rightarrow> json_number \<Rightarrow> string" where
  "json_number_text show_float n = (case n of JInt i \<Rightarrow> show_int i | JFloat b \<Rightarrow> show_float b)"

definition encode_json_string :: "u8 list \<Rightarrow> u8 list" where
  "encode_json_string bytes =
     (if length bytes < 256 then [0x33, of_nat (length bytes)]
      else if length bytes < 65536 then 0x37 # be_bytes 2 (of_nat (length bytes) :: u16)
      else 0x38 # be_bytes 4 (of_nat (length bytes) :: u32)) @ bytes"

text \<open>Node type and count: \<open>TYPE_ARRAY | 0x20\<close> or \<open>TYPE_OBJECT | 0x20\<close> is the base.\<close>

definition container_head :: "u8 \<Rightarrow> nat \<Rightarrow> u8 list" where
  "container_head base num_children =
     (if 65535 < num_children then base OR 0x10 else if 255 < num_children then base OR 0x08 else base)
     # (if num_children < 256 then [of_nat num_children]
        else if num_children < 65536 then be_bytes 2 (of_nat num_children :: u16)
        else be_bytes 4 (of_nat num_children :: u32))"

fun encode_node :: "(u64 \<Rightarrow> string) \<Rightarrow> (string \<Rightarrow> u32 option) \<Rightarrow> json \<Rightarrow> u8 list \<Rightarrow> u8 list result"
  and encode_items :: "(u64 \<Rightarrow> string) \<Rightarrow> (string \<Rightarrow> u32 option) \<Rightarrow> json list \<Rightarrow> nat \<Rightarrow> nat \<Rightarrow> u8 list
    \<Rightarrow> u8 list result"
  and encode_entries :: "(u64 \<Rightarrow> string) \<Rightarrow> (string \<Rightarrow> u32 option) \<Rightarrow> json_entries \<Rightarrow> nat \<Rightarrow> nat \<Rightarrow> u8 list
    \<Rightarrow> u8 list result" where
  "encode_node show_float ids JNull buf = Inr (buf @ [0x30])"
| "encode_node show_float ids (JBool b) buf = Inr (buf @ [if b then 0x31 else 0x32])"
| "encode_node show_float ids (JNumber n) buf =
     res_bind (encode_oracle_number (json_number_text show_float n)) (\<lambda>num_bytes.
     Inr (buf @ [0x34, of_nat (length num_bytes)] @ num_bytes))"
| "encode_node show_float ids (JString t) buf = Inr (buf @ encode_json_string (bytes_of_text t))"
| "encode_node show_float ids (JArray arr) buf =
     (let buf1 = buf @ container_head (0xc0 OR 0x20) (length arr)
      in encode_items show_float ids arr 0 (length buf1) (buf1 @ replicate (length arr * 4) 0))"
| "encode_node show_float ids (JObject es) buf =
     (let field_ids = map (\<lambda>(key, _). case ids key of None \<Rightarrow> 0 | Some i \<Rightarrow> ucast i) es;
          buf1 = buf @ container_head (0x84 OR 0x20) (length es) @ field_ids
      in encode_entries show_float ids es 0 (length buf1) (buf1 @ replicate (length es * 4) 0))"
| "encode_items show_float ids [] i offsets_start buf = Inr buf"
| "encode_items show_float ids (v # vs) i offsets_start buf =
     res_bind (copy_at (offsets_start + i * 4) (be_bytes 4 (of_nat (length buf) :: u32)) buf) (\<lambda>buf1.
     res_bind (encode_node show_float ids v buf1) (\<lambda>buf2.
     encode_items show_float ids vs (i + 1) offsets_start buf2))"
| "encode_entries show_float ids [] i offsets_start buf = Inr buf"
| "encode_entries show_float ids ((key, v) # es) i offsets_start buf =
     res_bind (copy_at (offsets_start + i * 4) (be_bytes 4 (of_nat (length buf) :: u32)) buf) (\<lambda>buf1.
     res_bind (encode_node show_float ids v buf1) (\<lambda>buf2.
     encode_entries show_float ids es (i + 1) offsets_start buf2))"

definition is_container :: "json \<Rightarrow> bool" where
  "is_container v = (case v of JObject _ \<Rightarrow> True | JArray _ \<Rightarrow> True | _ \<Rightarrow> False)"

definition sized :: "bool \<Rightarrow> nat \<Rightarrow> u8 list" where
  "sized wide n = (if wide then be_bytes 4 (of_nat n :: u32) else be_bytes 2 (of_nat n :: u16))"

definition oson_encode :: "(u64 \<Rightarrow> string) \<Rightarrow> json \<Rightarrow> u8 list result" where
  "oson_encode show_float value =
     (let enc = sort_and_update_field_ids (collect_field_names value \<lparr>oe_names = [], oe_ids = Map.empty\<rparr>)
      in res_bind (encode_node show_float (oe_ids enc) value []) (\<lambda>tree_seg.
         let is_scalar = (\<not> is_container value);
             (hash_ids, offsets, names_data) = build_field_names_components (oe_names enc);
             wide_tree = (65535 < length tree_seg);
             wide_names = (\<not> is_scalar \<and> 65535 < length names_data);
             flags = FLAG_INLINE_LEAF
               OR (if is_scalar then FLAG_IS_SCALAR else FLAG_HASH_ID_UINT8 OR FLAG_TINY_NODES_STAT)
               OR (if wide_names then FLAG_FNAMES_SEG_UINT32 else 0)
               OR (if wide_tree then FLAG_TREE_SEG_UINT32 else 0)
         in Inr (OSON_MAGIC @ [VERSION_MAX_FNAME_255] @ be_bytes 2 flags
              @ (if is_scalar then sized wide_tree (length tree_seg)
                 else of_nat (length (oe_names enc)) # sized wide_names (length names_data)
                      @ sized wide_tree (length tree_seg) @ [0, 0] @ hash_ids @ offsets @ names_data)
              @ tree_seg)))"

end
