(* ===== verification/OsonLaws.thy ===== *)
theory OsonLaws
  imports Oson
begin

section \<open>Correctness of the OSON codec\<close>

text \<open>
  The round trip of the encoder and the decoder over whole documents.  \<open>oreads m bs v\<close> is the
  reading judgement of the decoder's actions, \<open>decodes\<close> says that a node at a position of the
  tree segment is decoded to a value.  The invariant of the encoder is that a node appended to
  the buffer decodes from the position it was appended at, whatever surrounds it.
\<close>

subsection \<open>Reading\<close>

definition here :: "oson_decoder \<Rightarrow> u8 list \<Rightarrow> bool" where
  "here s bs \<longleftrightarrow> od_pos s \<le> length (od_data s) \<and> take (length bs) (drop (od_pos s) (od_data s)) = bs"

definition oreads :: "'a oreader \<Rightarrow> u8 list \<Rightarrow> 'a \<Rightarrow> bool" where
  "oreads m bs v \<longleftrightarrow> (\<forall>s. here s bs \<longrightarrow> m s = (Inr v, s\<lparr>od_pos := od_pos s + length bs\<rparr>))"

named_theorems oreads_intros

lemma oreadsD: "oreads m bs v \<Longrightarrow> here s bs \<Longrightarrow> m s = (Inr v, s\<lparr>od_pos := od_pos s + length bs\<rparr>)"
  by (simp add: oreads_def)

lemma here_length: "here s bs \<Longrightarrow> od_pos s + length bs \<le> length (od_data s)"
proof -
  assume h: "here s bs"
  then have "length (take (length bs) (drop (od_pos s) (od_data s))) = length bs"
    by (simp only: here_def)
  then have "min (length (od_data s) - od_pos s) (length bs) = length bs"
    by (simp only: length_take length_drop)
  with h show ?thesis by (auto simp: here_def min_def split: if_splits)
qed

lemma here_append:
  "here s (bs @ cs) \<longleftrightarrow> here s bs \<and> here (s\<lparr>od_pos := od_pos s + length bs\<rparr>) cs"
proof
  assume h: "here s (bs @ cs)"
  have t: "take (length bs + length cs) (drop (od_pos s) (od_data s)) = bs @ cs"
    using h by (simp add: here_def)
  have "take (length bs) (drop (od_pos s) (od_data s)) = take (length bs) (take (length bs + length cs) (drop (od_pos s) (od_data s)))"
    by simp
  also have "\<dots> = bs" by (simp only: t) simp
  finally have 1: "take (length bs) (drop (od_pos s) (od_data s)) = bs" .
  have "take (length cs) (drop (od_pos s + length bs) (od_data s))
      = drop (length bs) (take (length bs + length cs) (drop (od_pos s) (od_data s)))"
    by (simp add: drop_take add.commute)
  also have "\<dots> = cs" by (simp only: t) simp
  finally show "here s bs \<and> here (s\<lparr>od_pos := od_pos s + length bs\<rparr>) cs"
    using 1 h here_length [OF h] by (simp add: here_def)
next
  assume h: "here s bs \<and> here (s\<lparr>od_pos := od_pos s + length bs\<rparr>) cs"
  then have "take (length bs) (drop (od_pos s) (od_data s)) = bs"
    "take (length cs) (drop (od_pos s + length bs) (od_data s)) = cs"
    by (simp_all add: here_def)
  then have "take (length bs + length cs) (drop (od_pos s) (od_data s)) = bs @ cs"
    by (simp add: take_add add.commute)
  with h show "here s (bs @ cs)" by (simp add: here_def)
qed

lemma here_Cons: "here s (b # cs) \<longleftrightarrow> here s [b] \<and> here (s\<lparr>od_pos := od_pos s + 1\<rparr>) cs"
  using here_append [of s "[b]" cs] by simp

lemma oreads_andThen:
  assumes "oreads m bs v" "oreads (f v) cs u"
  shows "oreads (andThen m f) (bs @ cs) u"
  unfolding oreads_def
proof (intro allI impI)
  fix s assume "here s (bs @ cs)"
  then have h: "here s bs" "here (s\<lparr>od_pos := od_pos s + length bs\<rparr>) cs" by (simp_all add: here_append)
  show "andThen m f s = (Inr u, s\<lparr>od_pos := od_pos s + length (bs @ cs)\<rparr>)"
    using oreadsD [OF assms(1) h(1)] oreadsD [OF assms(2) h(2)] by (simp add: add.assoc)
qed

lemma oreads_ok [oreads_intros]: "oreads (ok v) [] v"
  by (simp add: oreads_def ok_apply)

lemma oreads_lift: "r = Inr v \<Longrightarrow> oreads (lift_res r) [] v"
  by (simp add: oreads_def lift_res_apply)

lemma oreads_fmap: "oreads m bs v \<Longrightarrow> g v = u \<Longrightarrow> oreads (fmap g m) bs u"
  unfolding fmap_def using oreads_andThen [of m bs v "\<lambda>a. ok (g a)" "[]" u] by (simp add: oreads_ok)

lemma oreads_bytes [oreads_intros]: "length bs = n \<Longrightarrow> oreads (oread_bytes n) bs bs"
  by (auto simp: oreads_def oread_bytes_def here_length not_less dest: here_length)
    (auto simp: here_def)

lemma oreads_u8 [oreads_intros]: "oreads oread_u8 [b] b"
  unfolding oreads_def
proof (intro allI impI)
  fix s assume h: "here s [b]"
  then have len: "od_pos s < length (od_data s)" using here_length [OF h] by simp
  then have "od_data s ! od_pos s = b"
    using h by (simp add: here_def take_Suc_conv_app_nth hd_drop_conv_nth take_Suc)
  then show "oread_u8 s = (Inr b, s\<lparr>od_pos := od_pos s + length [b]\<rparr>)"
    using len by (simp add: oread_u8_def)
qed

lemma oreads_u8_then: "oreads (f b) bs u \<Longrightarrow> oreads (andThen oread_u8 f) (b # bs) u"
  using oreads_andThen [OF oreads_u8, of f b bs u] by simp

lemma oreads_u16 [oreads_intros]: "oreads oread_u16 (be_bytes 2 v) v"
  unfolding oread_u16_def by (rule oreads_fmap [OF oreads_bytes]) (simp_all add: be_word_be_bytes_full)

lemma oreads_u32 [oreads_intros]: "oreads oread_u32 (be_bytes 4 v) v"
  unfolding oread_u32_def by (rule oreads_fmap [OF oreads_bytes]) (simp_all add: be_word_be_bytes_full)

subsection \<open>Scalars\<close>

lemma unat_count:
  "n < 256 \<Longrightarrow> unat (of_nat n :: u8) = n" "n < 65536 \<Longrightarrow> unat (of_nat n :: u16) = n"
  "n < 4294967296 \<Longrightarrow> unat (of_nat n :: u32) = n"
  by (simp_all add: unat_of_nat)

lemma ucast_count:
  "n < 256 \<Longrightarrow> ucast (of_nat n :: u8) = (of_nat n :: u32)"
  "n < 65536 \<Longrightarrow> ucast (of_nat n :: u16) = (of_nat n :: u32)"
  "n < 256 \<Longrightarrow> ucast (of_nat n :: u32) = (of_nat n :: u8)"
  by (simp_all add: word_unat_eq_iff unsigned_ucast_eq unat_of_nat take_bit_nat_eq_self)

text \<open>What is kept of a number: it must come back from its NUMBER form and its text.\<close>

definition number_survives :: "(u64 \<Rightarrow> string) \<Rightarrow> json_number \<Rightarrow> bool" where
  "number_survives show_float n =
     (case n of
        JInt i \<Rightarrow> - (2 ^ 63) \<le> i \<and> i < 2 ^ 63
      | JFloat b \<Rightarrow> f64_is_finite b \<and>
          (case encode_oracle_number (show_float b) of
             Inl _ \<Rightarrow> False
           | Inr w \<Rightarrow> length w < 256 \<and>
               (case decode_oracle_number w of
                  Inl _ \<Rightarrow> False
                | Inr num \<Rightarrow> ok_option (parse_i64 (on_value num)) = None \<and> parse_f64 (on_value num) = Inr b)))"

lemma number_wire:
  assumes "number_survives show_float n"
  shows "\<exists>w. encode_oracle_number (json_number_text show_float n) = Inr w \<and> length w < 256
    \<and> oreads (decode_json_number (length w)) w (JNumber n)"
proof (cases n)
  case (JInt i)
  then have i: "- (2 ^ 63) \<le> i" "i < 2 ^ 63" using assms by (simp_all add: number_survives_def)
  then obtain w where w: "encode_oracle_number (show_int i) = Inr w" "length w \<le> 24"
    "decode_oracle_number w = Inr (number_of_int i)"
    using int_text_roundtrip [of i] i by (auto simp: abs_less_iff)
  have "oreads (decode_json_number (length w)) (w @ []) (JNumber n)"
    unfolding decode_json_number_def
    by (rule oreads_andThen [OF oreads_bytes [OF refl]])
      (simp add: w(3) number_of_int_def parse_i64_show [OF i] JInt oreads_ok)
  with w show ?thesis by (auto simp: JInt json_number_text_def)
next
  case (JFloat b)
  then obtain w num where w: "encode_oracle_number (show_float b) = Inr w" "length w < 256"
    "decode_oracle_number w = Inr num" "ok_option (parse_i64 (on_value num)) = None"
    "parse_f64 (on_value num) = Inr b" "f64_is_finite b"
    using assms by (auto simp: number_survives_def split: sum.splits)
  have "oreads (decode_json_number (length w)) (w @ []) (JNumber n)"
    unfolding decode_json_number_def
    by (rule oreads_andThen [OF oreads_bytes [OF refl]])
      (use w in \<open>auto simp: JFloat json_of_f64_def ok_option_def oreads_ok split: sum.splits\<close>)
  with w show ?thesis by (auto simp: JFloat json_number_text_def)
qed

lemma reads_json_string:
  assumes "is_str t" "length t < 4294967296"
  shows "\<exists>b bs. encode_json_string (bytes_of_text t) = b # bs \<and> b AND 0x80 = 0
    \<and> oreads (decode_scalar b) bs (JString t)"
proof -
  have r: "oreads (fmap JString (oread_string (length t))) (bytes_of_text t) (JString t)"
    unfolding oread_string_def
    by (rule oreads_fmap [OF oreads_fmap [OF oreads_bytes]]) (simp_all add: from_utf8_lossy_str assms)
  show ?thesis
  proof (cases "length t < 256")
    case True
    have "oreads (decode_scalar 0x33) (of_nat (length t) # bytes_of_text t) (JString t)"
      by (simp add: decode_scalar_def) (rule oreads_u8_then, simp add: unat_count True r)
    then show ?thesis using True by (simp add: encode_json_string_def)
  next
    case False
    show ?thesis
    proof (cases "length t < 65536")
      case True
      have "oreads (decode_scalar 0x37) (be_bytes 2 (of_nat (length t) :: u16) @ bytes_of_text t) (JString t)"
        by (simp add: decode_scalar_def) (rule oreads_andThen [OF oreads_u16], simp add: unat_count True r)
      then show ?thesis using True False by (simp add: encode_json_string_def)
    next
      case wide: False
      have "oreads (decode_scalar 0x38) (be_bytes 4 (of_nat (length t) :: u32) @ bytes_of_text t) (JString t)"
        by (simp add: decode_scalar_def) (rule oreads_andThen [OF oreads_u32], simp add: unat_count assms r)
      then show ?thesis using wide False by (simp add: encode_json_string_def)
    qed
  qed
qed

subsection \<open>Documents that are stored faithfully\<close>

fun json_height :: "json \<Rightarrow> nat" and items_height :: "json list \<Rightarrow> nat"
  and entries_height :: "json_entries \<Rightarrow> nat" where
  "json_height (JArray vs) = Suc (items_height vs)"
| "json_height (JObject es) = Suc (entries_height es)"
| "json_height JNull = 1"
| "json_height (JBool b) = 1"
| "json_height (JNumber n) = 1"
| "json_height (JString t) = 1"
| "items_height [] = 0"
| "items_height (v # vs) = max (json_height v) (items_height vs)"
| "entries_height [] = 0"
| "entries_height ((k, v) # es) = max (json_height v) (entries_height es)"

lemma entries_height_items: "entries_height es = items_height (map snd es)"
  by (induction es) auto

text \<open>
  Strings and keys are Rust strings, numbers survive the NUMBER form, and every object's entries
  are a map of the package.
\<close>

fun json_stores :: "(u64 \<Rightarrow> string) \<Rightarrow> (json_entries \<Rightarrow> bool) \<Rightarrow> json \<Rightarrow> bool"
  and items_store :: "(u64 \<Rightarrow> string) \<Rightarrow> (json_entries \<Rightarrow> bool) \<Rightarrow> json list \<Rightarrow> bool"
  and entries_store :: "(u64 \<Rightarrow> string) \<Rightarrow> (json_entries \<Rightarrow> bool) \<Rightarrow> json_entries \<Rightarrow> bool" where
  "json_stores f canon (JArray vs) = items_store f canon vs"
| "json_stores f canon (JObject es) = (canon es \<and> entries_store f canon es)"
| "json_stores f canon JNull = True"
| "json_stores f canon (JBool b) = True"
| "json_stores f canon (JNumber n) = number_survives f n"
| "json_stores f canon (JString t) = is_str t"
| "items_store f canon [] = True"
| "items_store f canon (v # vs) = (json_stores f canon v \<and> items_store f canon vs)"
| "entries_store f canon [] = True"
| "entries_store f canon ((k, v) # es) = (is_str k \<and> json_stores f canon v \<and> entries_store f canon es)"

lemma entries_store_items:
  "entries_store f canon es \<longleftrightarrow> items_store f canon (map snd es) \<and> (\<forall>k\<in>fst ` set es. is_str k)"
  by (induction es) auto

fun json_keys :: "json \<Rightarrow> string set" and items_keys :: "json list \<Rightarrow> string set"
  and entries_keys :: "json_entries \<Rightarrow> string set" where
  "json_keys (JArray vs) = items_keys vs"
| "json_keys (JObject es) = entries_keys es"
| "json_keys JNull = {}"
| "json_keys (JBool b) = {}"
| "json_keys (JNumber n) = {}"
| "json_keys (JString t) = {}"
| "items_keys [] = {}"
| "items_keys (v # vs) = json_keys v \<union> items_keys vs"
| "entries_keys [] = {}"
| "entries_keys ((k, v) # es) = insert k (json_keys v \<union> entries_keys es)"

lemma entries_keys_items: "entries_keys es = fst ` set es \<union> items_keys (map snd es)"
  by (induction es) (auto, force)

text \<open>The encoder's ids and the decoder's names agree on a set of keys.\<close>

definition ids_agree :: "(string \<Rightarrow> u32 option) \<Rightarrow> string list \<Rightarrow> string set \<Rightarrow> bool" where
  "ids_agree ids names K \<longleftrightarrow>
     (\<forall>k\<in>K. \<exists>i. ids k = Some (of_nat i) \<and> 0 < i \<and> i \<le> length names \<and> i < 256 \<and> names ! (i - 1) = k)"

lemma ids_agree_subset: "ids_agree ids names K \<Longrightarrow> L \<subseteq> K \<Longrightarrow> ids_agree ids names L"
  by (auto simp: ids_agree_def)

subsection \<open>Nodes in place\<close>

definition placed :: "oson_decoder \<Rightarrow> u8 list \<Rightarrow> nat \<Rightarrow> string list \<Rightarrow> bool" where
  "placed s data tree names \<longleftrightarrow>
     od_data s = data \<and> od_tree s = tree \<and> od_names s = names \<and> od_id_length s = 1 \<and> \<not> od_relative s"

lemma placed_pos [simp]: "placed (s\<lparr>od_pos := p\<rparr>) data tree names = placed s data tree names"
  by (simp add: placed_def)

definition decodes :: "json_insert \<Rightarrow> string list \<Rightarrow> u8 list \<Rightarrow> nat \<Rightarrow> nat \<Rightarrow> json \<Rightarrow> bool" where
  "decodes ins names data tree p v \<longleftrightarrow>
     (\<forall>d s. placed s data tree names \<longrightarrow> od_pos s = tree + p \<longrightarrow> json_height v \<le> d \<longrightarrow>
        (\<exists>q. decode_node ins d s = (Inr v, s\<lparr>od_pos := q\<rparr>)))"

lemma decodesD:
  "decodes ins names data tree p v \<Longrightarrow> placed s data tree names \<Longrightarrow> od_pos s = tree + p \<Longrightarrow>
    json_height v \<le> d \<Longrightarrow> fst (decode_node ins d s) = Inr v"
  unfolding decodes_def by (metis fst_conv)

definition in_place :: "u8 list \<Rightarrow> nat \<Rightarrow> u8 list \<Rightarrow> bool" where
  "in_place data p bs \<longleftrightarrow> p \<le> length data \<and> take (length bs) (drop p data) = bs"

lemma in_place_here: "od_data s = data \<Longrightarrow> in_place data (od_pos s) bs \<Longrightarrow> here s bs"
  by (simp add: in_place_def here_def)

lemma here_in_place: "here s bs \<longleftrightarrow> in_place (od_data s) (od_pos s) bs"
  by (simp add: in_place_def here_def)

lemma in_place_append:
  "in_place data p (bs @ cs) \<longleftrightarrow> in_place data p bs \<and> in_place data (p + length bs) cs"
  using here_append [of "(decoder_new data)\<lparr>od_pos := p\<rparr>" bs cs]
  by (simp add: in_place_def here_def decoder_new_def)

lemma in_place_Cons: "in_place data p (b # cs) \<longleftrightarrow> in_place data p [b] \<and> in_place data (p + 1) cs"
  using in_place_append [of data p "[b]" cs] by simp

text \<open>A scalar node: a type byte below 128 and its body.\<close>

lemma decodes_scalar:
  assumes "b AND 0x80 = 0" "oreads (decode_scalar b) bs v" "in_place data (tree + p) (b # bs)"
    and "json_height v = 1"
  shows "decodes ins names data tree p v"
  unfolding decodes_def
proof (intro allI impI)
  fix d s
  assume s: "placed s data tree names" "od_pos s = tree + p" and d: "json_height v \<le> d"
  obtain d' where d': "d = Suc d'" using d assms(4) by (cases d) auto
  have "oreads (decode_node ins d) (b # bs) v"
    unfolding d' decode_node.simps by (rule oreads_u8_then) (simp add: assms)
  moreover have "here s (b # bs)"
    using assms(3) s by (intro in_place_here) (simp_all add: placed_def)
  ultimately show "\<exists>q. decode_node ins d s = (Inr v, s\<lparr>od_pos := q\<rparr>)"
    by (auto dest: oreadsD)
qed

text \<open>Reading one child through its offset.\<close>

lemma decode_child_at:
  fixes offset :: u32
  assumes s: "placed s data tree names" and nt: "node_type AND 0x20 \<noteq> 0"
    and off: "in_place data offsets_pos (be_bytes 4 offset)"
    and v: "decodes ins names data tree (unat offset) v" and d: "json_height v \<le> d"
  shows "\<exists>q. decode_child (decode_node ins d) node_type co offsets_pos s
    = (Inr (v, offsets_pos + 4), s\<lparr>od_pos := q\<rparr>)"
proof -
  have h: "here (s\<lparr>od_pos := offsets_pos\<rparr>) (be_bytes 4 offset)"
    using s off by (intro in_place_here) (simp_all add: placed_def)
  have r: "oread_u32 (s\<lparr>od_pos := offsets_pos\<rparr>) = (Inr offset, s\<lparr>od_pos := offsets_pos + 4\<rparr>)"
    using oreadsD [OF oreads_u32 h] by simp
  obtain q where q: "decode_node ins d (s\<lparr>od_pos := tree + unat offset\<rparr>) = (Inr v, s\<lparr>od_pos := q\<rparr>)"
    using v d s unfolding decodes_def by (metis (no_types, lifting) oson_decoder.select_convs(2)
      oson_decoder.surjective oson_decoder.update_convs(2) placed_pos)
  show ?thesis
    using s nt q
    by (auto simp: decode_child_def andSeq_apply andThen_apply set_pos_def get_pos_def get_offset_def r
        lift_res_apply ok_apply placed_def)
qed

lemma array_loop_at:
  fixes offs :: "u32 list"
  assumes "placed s data tree names" and nt: "node_type AND 0x20 \<noteq> 0"
    and "list_all2 (\<lambda>off v. decodes ins names data tree (unat off) v) offs vs"
    and "in_place data p (concat (map (be_bytes 4) offs))" and "items_height vs \<le> d"
  shows "\<exists>q. array_loop (decode_node ins d) node_type co (length vs) p arr s = (Inr (arr @ vs), s\<lparr>od_pos := q\<rparr>)"
  using assms(3,1,4,5)
proof (induction offs vs arbitrary: s p arr rule: list_all2_induct)
  case Nil
  show ?case by (auto simp: ok_apply intro!: exI [of _ "od_pos s"])
next
  case (Cons off offs v vs)
  have off: "in_place data p (be_bytes 4 off)" and rest: "in_place data (p + 4) (concat (map (be_bytes 4) offs))"
    using Cons.prems(2) by (simp_all add: in_place_append)
  have h: "json_height v \<le> d" "items_height vs \<le> d" using Cons.prems(3) by simp_all
  obtain q where q: "decode_child (decode_node ins d) node_type co p s = (Inr (v, p + 4), s\<lparr>od_pos := q\<rparr>)"
    using decode_child_at [OF Cons.prems(1) nt off Cons.hyps(1) h(1)] by blast
  obtain q' where "array_loop (decode_node ins d) node_type co (length vs) (p + 4) (arr @ [v]) (s\<lparr>od_pos := q\<rparr>)
      = (Inr ((arr @ [v]) @ vs), s\<lparr>od_pos := q\<rparr>\<lparr>od_pos := q'\<rparr>)"
    using Cons.IH [OF _ rest h(2), of "s\<lparr>od_pos := q\<rparr>" "arr @ [v]"] Cons.prems(1) by auto
  then show ?case by (auto simp: q)
qed

text \<open>The entries of an object: ids and offsets are read side by side.\<close>

lemma field_name_at:
  assumes "placed s data tree names" and "in_place data p [of_nat i]" "0 < i" "i \<le> length names" "i < 256"
  shows "read_field_id (s\<lparr>od_pos := p\<rparr>) = (Inr i, s\<lparr>od_pos := p + 1\<rparr>)"
    and "field_name i s = (Inr (names ! (i - 1)), s)"
proof -
  have h: "here (s\<lparr>od_pos := p\<rparr>) [of_nat i]"
    using assms by (intro in_place_here) (simp_all add: placed_def)
  have "fmap unat oread_u8 (s\<lparr>od_pos := p\<rparr>) = (Inr i, s\<lparr>od_pos := p + 1\<rparr>)"
    using oreadsD [OF oreads_fmap [OF oreads_u8, of unat] h] assms(5) by (simp add: unat_count)
  then show "read_field_id (s\<lparr>od_pos := p\<rparr>) = (Inr i, s\<lparr>od_pos := p + 1\<rparr>)"
    using assms(1) by (simp add: read_field_id_def placed_def)
  show "field_name i s = (Inr (names ! (i - 1)), s)"
    using assms by (simp add: field_name_def placed_def)
qed

lemma object_loop_at:
  fixes offs :: "u32 list"
  assumes "placed s data tree names" and nt: "node_type AND 0x20 \<noteq> 0"
    and "list_all2 (\<lambda>off e. decodes ins names data tree (unat off) (snd e)) offs es"
    and "in_place data p (concat (map (be_bytes 4) offs))"
    and "in_place data fp (map (\<lambda>(key, _). case ids key of None \<Rightarrow> 0 | Some i \<Rightarrow> ucast i) es)"
    and "entries_height es \<le> d" and "ids_agree ids names (fst ` set es)"
  shows "\<exists>q. object_loop ins (decode_node ins d) node_type co (length es) fp p m s
    = (Inr (insert_all ins es m), s\<lparr>od_pos := q\<rparr>)"
  using assms(3,1,4-7)
proof (induction offs es arbitrary: s p fp m rule: list_all2_induct)
  case Nil
  show ?case by (auto simp: ok_apply intro!: exI [of _ "od_pos s"])
next
  case (Cons off offs e es)
  obtain k v where e: "e = (k, v)" by fastforce
  obtain i where i: "ids k = Some (of_nat i)" "0 < i" "i \<le> length names" "i < 256" "names ! (i - 1) = k"
    using Cons.prems(5) by (auto simp: ids_agree_def e)
  have uc: "ucast (of_nat i :: u32) = (of_nat i :: u8)" by (rule ucast_count(3) [OF i(4)])
  have off: "in_place data p (be_bytes 4 off)" and rest: "in_place data (p + 4) (concat (map (be_bytes 4) offs))"
    using Cons.prems(2) by (simp_all add: in_place_append)
  have ids: "in_place data fp [of_nat i]"
      "in_place data (fp + 1) (map (\<lambda>(key, _). case ids key of None \<Rightarrow> 0 | Some i \<Rightarrow> ucast i) es)"
    using Cons.prems(3) by (simp_all add: in_place_Cons [of _ _ _ "map _ es"] e i(1) uc)
  have h: "json_height v \<le> d" "entries_height es \<le> d" using Cons.prems(4) by (simp_all add: e)
  have ag: "ids_agree ids names (fst ` set es)" by (rule ids_agree_subset [OF Cons.prems(5)]) auto
  have p1: "placed (s\<lparr>od_pos := fp + 1\<rparr>) data tree names" using Cons.prems(1) by simp
  note f = field_name_at [OF Cons.prems(1) ids(1) i(2-4)]
    field_name_at(2) [OF p1 ids(1) i(2-4)]
  obtain q where q: "decode_child (decode_node ins d) node_type co p (s\<lparr>od_pos := fp + 1\<rparr>)
      = (Inr (v, p + 4), s\<lparr>od_pos := q\<rparr>)"
    using decode_child_at [OF p1 nt off _ h(1)] Cons.hyps(1) by (auto simp: e)
  obtain q' where "object_loop ins (decode_node ins d) node_type co (length es) (fp + 1) (p + 4) (ins k v m)
      (s\<lparr>od_pos := q\<rparr>) = (Inr (insert_all ins es (ins k v m)), s\<lparr>od_pos := q'\<rparr>)"
    using Cons.IH [OF _ rest ids(2) h(2) ag, of "s\<lparr>od_pos := q\<rparr>" "ins k v m"] Cons.prems(1) by auto
  then show ?case
    by (auto simp: andSeq_apply andThen_apply set_pos_def get_pos_def f [simplified] i(5) [simplified]
        q [simplified] e)
qed

subsection \<open>Container nodes\<close>

lemma container_head_reads:
  assumes "base = 0xe0 \<or> base = 0xa4" "n < 4294967296"
  shows "\<exists>nt cs. container_head base n = nt # cs \<and> nt AND 0x80 \<noteq> 0 \<and> nt AND 0x20 \<noteq> 0
    \<and> nt AND 0x18 \<noteq> 0x18 \<and> (nt AND 0x40 = 0 \<longleftrightarrow> base = 0xa4) \<and> oreads (read_count nt) cs (of_nat n)"
proof -
  consider "n < 256" | "256 \<le> n" "n < 65536" | "65536 \<le> n" by linarith
  then show ?thesis
  proof cases
    case 1
    have "ucast (of_nat n :: u8) = (of_nat n :: u32)"
      by (rule ucast_count(1) [OF 1])
    then have "oreads (fmap ucast oread_u8) [of_nat n] (of_nat n :: u32)"
      by (intro oreads_fmap [OF oreads_u8])
    then show ?thesis using 1 assms(1) by (auto simp: container_head_def read_count_def)
  next
    case 2
    have "ucast (of_nat n :: u16) = (of_nat n :: u32)"
      by (rule ucast_count(2) [OF 2(2)])
    then have "oreads (fmap ucast oread_u16) (be_bytes 2 (of_nat n :: u16)) (of_nat n :: u32)"
      by (intro oreads_fmap [OF oreads_u16])
    then show ?thesis using 2 assms(1) by (auto simp: container_head_def read_count_def)
  next
    case 3
    have "oreads oread_u32 (be_bytes 4 (of_nat n :: u32)) (of_nat n)" by (rule oreads_u32)
    then show ?thesis using 3 assms(1) by (auto simp: container_head_def read_count_def)
  qed
qed

text \<open>Behind the node type: the count is read, the container's own offset is \<open>p\<close>.\<close>

lemma decode_container_at:
  assumes s: "placed s data tree names" "od_pos s = tree + p"
    and nt: "nt AND 0x80 \<noteq> 0" "nt AND 0x18 \<noteq> 0x18" "oreads (read_count nt) cs (of_nat n)"
    and n: "n < 4294967296" and inp: "in_place data (tree + p) (nt # cs)"
  defines "q \<equiv> tree + p + 1 + length cs"
  shows "decode_node ins (Suc d) s =
    (if nt AND 0x40 = 0
     then fmap JObject (object_loop ins (decode_node ins d) nt p n q (q + n) []) (s\<lparr>od_pos := q\<rparr>)
     else fmap JArray (array_loop (decode_node ins d) nt p n q []) (s\<lparr>od_pos := q\<rparr>))"
proof -
  have h: "here s [nt]" "here (s\<lparr>od_pos := tree + p + 1\<rparr>) cs"
    using inp s by (auto simp: in_place_Cons [of _ _ _ cs] placed_def intro!: in_place_here)
  have u8: "oread_u8 s = (Inr nt, s\<lparr>od_pos := tree + p + 1\<rparr>)"
    using oreadsD [OF oreads_u8 h(1)] s by simp
  have c: "read_count nt (s\<lparr>od_pos := tree + p + 1\<rparr>) = (Inr (of_nat n), s\<lparr>od_pos := q\<rparr>)"
    using oreadsD [OF nt(3) h(2)] by (simp add: q_def)
  note c = c [simplified]
  show ?thesis
    using s nt(1,2)
    by (simp add: andThen_apply u8 decode_container_def placed_def usub_def lift_res_apply c
        container_layout_def unat_count(3) [OF n] get_pos_def)
qed

lemma decodes_array:
  fixes offs :: "u32 list"
  assumes "container_head 0xe0 (length vs) = nt # cs" and n: "length vs < 4294967296"
    and "in_place data (tree + p) ((nt # cs) @ concat (map (be_bytes 4) offs))"
    and "list_all2 (\<lambda>off v. decodes ins names data tree (unat off) v) offs vs"
  shows "decodes ins names data tree p (JArray vs)"
  unfolding decodes_def
proof (intro allI impI)
  fix d s assume s: "placed s data tree names" "od_pos s = tree + p" and d: "json_height (JArray vs) \<le> d"
  obtain d' where d': "d = Suc d'" "items_height vs \<le> d'" using d by (cases d) auto
  have nt: "nt AND 0x80 \<noteq> 0" "nt AND 0x20 \<noteq> 0" "nt AND 0x18 \<noteq> 0x18" "nt AND 0x40 \<noteq> 0"
      "oreads (read_count nt) cs (of_nat (length vs))"
    using container_head_reads [of "0xe0" "length vs"] n assms(1) by auto
  have inp: "in_place data (tree + p) (nt # cs)"
      "in_place data (tree + p + 1 + length cs) (concat (map (be_bytes 4) offs))"
    using assms(3) unfolding in_place_append by (simp_all add: ac_simps)
  define q where "q = tree + p + 1 + length cs"
  obtain r where "array_loop (decode_node ins d') nt p (length vs) q [] (s\<lparr>od_pos := q\<rparr>) = (Inr vs, s\<lparr>od_pos := r\<rparr>)"
    using array_loop_at [OF _ nt(2) assms(4), of "s\<lparr>od_pos := q\<rparr>" q d' p "[]"] s inp(2) d'(2)
    by (auto simp: q_def)
  then show "\<exists>q. decode_node ins d s = (Inr (JArray vs), s\<lparr>od_pos := q\<rparr>)"
    unfolding d'(1) decode_container_at [OF s nt(1,3,5) n inp(1)]
    using nt(4) by (auto simp: q_def fmap_def andThen_apply ok_apply)
qed

lemma decodes_object:
  fixes offs :: "u32 list"
  assumes "container_head 0xa4 (length es) = nt # cs" and n: "length es < 4294967296"
    and "in_place data (tree + p) ((nt # cs)
      @ map (\<lambda>(key, _). case ids key of None \<Rightarrow> 0 | Some i \<Rightarrow> ucast i) es @ concat (map (be_bytes 4) offs))"
    and "list_all2 (\<lambda>off e. decodes ins names data tree (unat off) (snd e)) offs es"
    and ids: "ids_agree ids names (fst ` set es)" and ins: "insert_all ins es [] = es"
  shows "decodes ins names data tree p (JObject es)"
  unfolding decodes_def
proof (intro allI impI)
  fix d s assume s: "placed s data tree names" "od_pos s = tree + p" and d: "json_height (JObject es) \<le> d"
  obtain d' where d': "d = Suc d'" "entries_height es \<le> d'" using d by (cases d) auto
  have nt: "nt AND 0x80 \<noteq> 0" "nt AND 0x20 \<noteq> 0" "nt AND 0x18 \<noteq> 0x18" "nt AND 0x40 = 0"
      "oreads (read_count nt) cs (of_nat (length es))"
    using container_head_reads [of "0xa4" "length es"] n assms(1) by auto
  define q where "q = tree + p + 1 + length cs"
  have inp: "in_place data (tree + p) (nt # cs)"
      "in_place data q (map (\<lambda>(key, _). case ids key of None \<Rightarrow> 0 | Some i \<Rightarrow> ucast i) es)"
      "in_place data (q + length es) (concat (map (be_bytes 4) offs))"
    using assms(3) unfolding in_place_append by (simp_all add: ac_simps q_def)
  obtain r where "object_loop ins (decode_node ins d') nt p (length es) q (q + length es) [] (s\<lparr>od_pos := q\<rparr>)
      = (Inr es, s\<lparr>od_pos := r\<rparr>)"
    using object_loop_at [OF _ nt(2) assms(4), of "s\<lparr>od_pos := q\<rparr>" "q + length es" q ids d' p "[]"]
      s inp d'(2) ids ins by (auto simp: q_def)
  then show "\<exists>q. decode_node ins d s = (Inr (JObject es), s\<lparr>od_pos := q\<rparr>)"
    unfolding d'(1) decode_container_at [OF s nt(1,3,5) n inp(1)]
    using nt(4) by (auto simp: q_def fmap_def andThen_apply ok_apply)
qed

subsection \<open>What the encoder appends\<close>

definition appends :: "(u64 \<Rightarrow> string) \<Rightarrow> (string \<Rightarrow> u32 option) \<Rightarrow> json_insert
    \<Rightarrow> string list \<Rightarrow> json \<Rightarrow> bool" where
  "appends f ids ins names v \<longleftrightarrow>
     (\<forall>buf. \<exists>bs. encode_node f ids v buf = Inr (buf @ bs) \<and> bs \<noteq> []
        \<and> (length buf + length bs < 4294967296 \<longrightarrow>
           (\<forall>data tree. in_place data (tree + length buf) bs \<longrightarrow>
              decodes ins names data tree (length buf) v)))"

lemma appendsI:
  assumes "\<And>buf. encode_node f ids v buf = Inr (buf @ g buf)" "\<And>buf. g buf \<noteq> []"
    and "\<And>buf data tree. length buf + length (g buf) < 4294967296 \<Longrightarrow>
      in_place data (tree + length buf) (g buf) \<Longrightarrow> decodes ins names data tree (length buf) v"
  shows "appends f ids ins names v"
  using assms unfolding appends_def by blast

text \<open>
  The child loop: the reserved words receive the positions the children are appended at.
\<close>

lemma encode_items_spec:
  assumes "\<forall>v\<in>set vs. appends f ids ins names v"
    and "length pre = start + i * 4"
  shows "\<exists>(offs :: u32 list) bs. length offs = length vs
    \<and> encode_items f ids vs i start (pre @ replicate (length vs * 4) 0 @ body)
      = Inr (pre @ concat (map (be_bytes 4) offs) @ body @ bs)
    \<and> (length pre + length vs * 4 + length body + length bs < 4294967296 \<longrightarrow>
       (\<forall>data tree. in_place data (tree + length pre + length vs * 4 + length body) bs \<longrightarrow>
          list_all2 (\<lambda>off v. decodes ins names data tree (unat off) v) offs vs))"
  using assms
proof (induction vs arbitrary: i pre body)
  case Nil
  then show ?case by simp
next
  case (Cons v vs)
  define off :: u32 where "off = of_nat (length pre + Suc (length vs) * 4 + length body)"
  define buf1 where "buf1 = pre @ be_bytes 4 off @ replicate (length vs * 4) 0 @ body"
  have rep: "replicate (length (v # vs) * 4) (0::u8) = replicate 4 0 @ replicate (length vs * 4) 0"
    by (simp add: replicate_add [symmetric] del: replicate.simps)
  have c: "copy_at (start + i * 4) (be_bytes 4 off) (pre @ replicate (length (v # vs) * 4) 0 @ body) = Inr buf1"
    using copy_at_ok [of pre "start + i * 4" "replicate 4 0" "be_bytes 4 off" "replicate (length vs * 4) 0 @ body"]
      Cons.prems(2) unfolding rep buf1_def by simp
  have lb: "length buf1 = length pre + Suc (length vs) * 4 + length body" by (simp add: buf1_def)
  obtain vb where vb: "encode_node f ids v buf1 = Inr (buf1 @ vb)"
    "length buf1 + length vb < 4294967296 \<Longrightarrow> in_place data (tree + length buf1) vb \<Longrightarrow>
       decodes ins names data tree (length buf1) v" for data tree
    using Cons.prems(1) unfolding appends_def by (metis list.set_intros(1))
  have "\<forall>u\<in>set vs. appends f ids ins names u" "length (pre @ be_bytes 4 off) = start + (i + 1) * 4"
    using Cons.prems by simp_all
  from Cons.IH [OF this, of "body @ vb"] obtain offs :: "u32 list" and bs where
    o: "length offs = length vs"
      "encode_items f ids vs (i + 1) start ((pre @ be_bytes 4 off) @ replicate (length vs * 4) 0 @ body @ vb)
        = Inr ((pre @ be_bytes 4 off) @ concat (map (be_bytes 4) offs) @ (body @ vb) @ bs)"
      "length (pre @ be_bytes 4 off) + length vs * 4 + length (body @ vb) + length bs < 4294967296 \<Longrightarrow>
         in_place data (tree + length (pre @ be_bytes 4 off) + length vs * 4 + length (body @ vb)) bs \<Longrightarrow>
         list_all2 (\<lambda>off v. decodes ins names data tree (unat off) v) offs vs" for data tree
    by blast
  have "encode_items f ids (v # vs) i start (pre @ replicate (length (v # vs) * 4) 0 @ body)
      = Inr (pre @ concat (map (be_bytes 4) (off # offs)) @ body @ vb @ bs)"
  proof -
    have "length (pre @ replicate (length (v # vs) * 4) 0 @ body) = length buf1" by (simp add: lb)
    then have w: "(of_nat (length (pre @ replicate (length (v # vs) * 4) 0 @ body)) :: u32) = off"
      by (simp only: lb off_def)
    show ?thesis
      unfolding encode_items.simps w c res_bind_simps vb(1)
      using o(2) by (simp add: buf1_def)
  qed
  moreover have "list_all2 (\<lambda>off v. decodes ins names data tree (unat off) v) (off # offs) (v # vs)"
    if small: "length pre + length (v # vs) * 4 + length body + length (vb @ bs) < 4294967296"
      and inp: "in_place data (tree + length pre + length (v # vs) * 4 + length body) (vb @ bs)"
    for data tree
  proof -
    have "unat off = length buf1" using small unfolding off_def lb by (intro unat_count(3)) simp
    moreover have "decodes ins names data tree (length buf1) v"
      using vb(2) [of data tree] small inp by (simp add: lb in_place_append ac_simps)
    moreover have "list_all2 (\<lambda>off v. decodes ins names data tree (unat off) v) offs vs"
      using o(3) [of data tree] small inp by (simp add: in_place_append ac_simps)
    ultimately show ?thesis by simp
  qed
  ultimately show ?case
    using o(1) by (intro exI [of _ "off # offs"] exI [of _ "vb @ bs"]) simp
qed

lemma encode_entries_items: "encode_entries f ids es i start buf = encode_items f ids (map snd es) i start buf"
  by (induction es arbitrary: i buf) (auto simp: res_bind_def split: sum.splits)

text \<open>Every node of a document is appended so that it decodes from where it was put.\<close>

lemma items_store_iff: "items_store f canon vs \<longleftrightarrow> (\<forall>v\<in>set vs. json_stores f canon v)"
  by (induction vs) auto

lemma items_keys_eq: "items_keys vs = (\<Union>v\<in>set vs. json_keys v)"
  by (induction vs) auto

lemma appends_scalar:
  assumes "\<And>buf. encode_node f ids v buf = Inr (buf @ b # bs)" "b AND 0x80 = 0"
    and "length bs < 4294967296 \<Longrightarrow> oreads (decode_scalar b) bs v" "json_height v = 1"
  shows "appends f ids ins names v"
  unfolding appends_def
proof
  fix buf
  show "\<exists>cs. encode_node f ids v buf = Inr (buf @ cs) \<and> cs \<noteq> []
      \<and> (length buf + length cs < 4294967296 \<longrightarrow>
         (\<forall>data tree. in_place data (tree + length buf) cs \<longrightarrow> decodes ins names data tree (length buf) v))"
    using assms(1) [of buf] decodes_scalar [OF assms(2) _ _ assms(4), of bs] assms(3)
    by (intro exI [of _ "b # bs"]) auto
qed

lemma appends_array:
  assumes "\<forall>v\<in>set vs. appends f ids ins names v"
  shows "appends f ids ins names (JArray vs)"
  unfolding appends_def
proof
  fix buf
  obtain nt cs where head: "container_head 0xe0 (length vs) = nt # cs"
    by (cases "container_head 0xe0 (length vs)") (auto simp: container_head_def)
  obtain offs :: "u32 list" and bs where o: "length offs = length vs"
    "encode_items f ids vs 0 (length (buf @ nt # cs)) ((buf @ nt # cs) @ replicate (length vs * 4) 0 @ [])
       = Inr ((buf @ nt # cs) @ concat (map (be_bytes 4) offs) @ [] @ bs)"
    "length (buf @ nt # cs) + length vs * 4 + length ([] :: u8 list) + length bs < 4294967296 \<Longrightarrow>
       in_place data (tree + length (buf @ nt # cs) + length vs * 4 + length ([] :: u8 list)) bs \<Longrightarrow>
       list_all2 (\<lambda>off v. decodes ins names data tree (unat off) v) offs vs" for data tree
    using encode_items_spec [OF assms, of "buf @ nt # cs" "length (buf @ nt # cs)" 0 "[]"] by auto
  define out where "out = (nt # cs) @ concat (map (be_bytes 4) offs) @ bs"
  have "encode_node f ids (JArray vs) buf = Inr (buf @ out)"
    using o(2) by (simp add: head out_def Let_def)
  moreover have "decodes ins names data tree (length buf) (JArray vs)"
    if small: "length buf + length out < 4294967296" and inp: "in_place data (tree + length buf) out" for data tree
  proof (rule decodes_array [OF head])
    have lc: "length (concat (map (be_bytes 4) offs)) = length vs * 4"
      unfolding o(1) [symmetric] by (induction offs) simp_all
    show "length vs < 4294967296" using small by (simp add: out_def lc)
    show "in_place data (tree + length buf) ((nt # cs) @ concat (map (be_bytes 4) offs))"
      using inp by (simp only: out_def in_place_append append_assoc [symmetric])
    show "list_all2 (\<lambda>off v. decodes ins names data tree (unat off) v) offs vs"
    proof -
      have "in_place data (tree + length buf + length ((nt # cs) @ concat (map (be_bytes 4) offs))) bs"
        using inp in_place_append [of data _ "(nt # cs) @ concat (map (be_bytes 4) offs)" bs]
        by (simp add: out_def)
      then show ?thesis using o(3) [of data tree] small by (simp add: out_def lc ac_simps)
    qed
  qed
  ultimately show "\<exists>bs. encode_node f ids (JArray vs) buf = Inr (buf @ bs) \<and> bs \<noteq> []
      \<and> (length buf + length bs < 4294967296 \<longrightarrow>
         (\<forall>data tree. in_place data (tree + length buf) bs \<longrightarrow> decodes ins names data tree (length buf) (JArray vs)))"
    by (intro exI [of _ out]) (simp add: out_def)
qed

lemma appends_object:
  assumes "\<forall>e\<in>set es. appends f ids ins names (snd e)"
    and ids: "ids_agree ids names (fst ` set es)" and ins: "insert_all ins es [] = es"
  shows "appends f ids ins names (JObject es)"
  unfolding appends_def
proof
  fix buf
  obtain nt cs where head: "container_head 0xa4 (length es) = nt # cs"
    by (cases "container_head 0xa4 (length es)") (auto simp: container_head_def)
  define fids where "fids = map (\<lambda>(key, _). case ids key of None \<Rightarrow> 0 :: u8 | Some i \<Rightarrow> ucast i) es"
  define pre where "pre = buf @ (nt # cs) @ fids"
  have "\<forall>v\<in>set (map snd es). appends f ids ins names v" using assms(1) by simp
  from encode_items_spec [OF this, of pre "length pre" 0 "[]"]
  obtain offs :: "u32 list" and bs where o: "length offs = length es"
    "encode_entries f ids es 0 (length pre) (pre @ replicate (length es * 4) 0)
       = Inr (pre @ concat (map (be_bytes 4) offs) @ bs)"
    "length pre + length es * 4 + length bs < 4294967296 \<Longrightarrow>
       in_place data (tree + length pre + length es * 4) bs \<Longrightarrow>
       list_all2 (\<lambda>off v. decodes ins names data tree (unat off) v) offs (map snd es)" for data tree
    by (auto simp: encode_entries_items)
  define out where "out = (nt # cs) @ fids @ concat (map (be_bytes 4) offs) @ bs"
  have "encode_node f ids (JObject es) buf = Inr (buf @ out)"
    using o(2) by (simp add: head out_def Let_def fids_def pre_def)
  moreover have "decodes ins names data tree (length buf) (JObject es)"
    if small: "length buf + length out < 4294967296" and inp: "in_place data (tree + length buf) out" for data tree
  proof (rule decodes_object [OF head])
    have lc: "length (concat (map (be_bytes 4) offs)) = length es * 4"
      unfolding o(1) [symmetric] by (induction offs) simp_all
    show "length es < 4294967296" using small by (simp add: out_def lc)
    show "in_place data (tree + length buf) ((nt # cs)
        @ map (\<lambda>(key, _). case ids key of None \<Rightarrow> 0 | Some i \<Rightarrow> ucast i) es @ concat (map (be_bytes 4) offs))"
      using inp by (simp only: out_def in_place_append append_assoc fids_def)
    show "list_all2 (\<lambda>off e. decodes ins names data tree (unat off) (snd e)) offs es"
    proof -
      have "in_place data (tree + length buf + length ((nt # cs) @ fids @ concat (map (be_bytes 4) offs))) bs"
        using inp in_place_append [of data _ "(nt # cs) @ fids @ concat (map (be_bytes 4) offs)" bs]
        by (simp add: out_def)
      then show ?thesis
        using o(3) [of data tree] small by (simp add: out_def pre_def lc ac_simps list_all2_map2)
    qed
  qed (use ids ins in blast)+
  ultimately show "\<exists>bs. encode_node f ids (JObject es) buf = Inr (buf @ bs) \<and> bs \<noteq> []
      \<and> (length buf + length bs < 4294967296 \<longrightarrow>
         (\<forall>data tree. in_place data (tree + length buf) bs \<longrightarrow> decodes ins names data tree (length buf) (JObject es)))"
    by (intro exI [of _ out]) (simp add: out_def)
qed

context json_map
begin

lemma node_appends:
  "json_stores f canon v \<Longrightarrow> ids_agree ids names (json_keys v) \<Longrightarrow> appends f ids ins names v"
proof (induction v)
  case (JArray vs)
  have "\<forall>v\<in>set vs. appends f ids ins names v"
    using JArray by (auto simp: items_store_iff items_keys_eq intro!: JArray.IH intro: ids_agree_subset)
  then show ?case by (rule appends_array)
next
  case (JObject es)
  have "appends f ids ins names (snd e)" if "e \<in> set es" for e
  proof (rule JObject.IH [OF that])
    show "snd e \<in> Basic_BNFs.snds e" by (simp add: snds.simps)
    show "json_stores f canon (snd e)"
      using JObject.prems(1) that by (auto simp: entries_store_items items_store_iff)
    show "ids_agree ids names (json_keys (snd e))"
      by (rule ids_agree_subset [OF JObject.prems(2)])
        (use that in \<open>auto simp: entries_keys_items items_keys_eq\<close>)
  qed
  moreover have "ids_agree ids names (fst ` set es)"
    by (rule ids_agree_subset [OF JObject.prems(2)]) (auto simp: entries_keys_items)
  moreover have "insert_all ins es [] = es" using JObject.prems(1) by (simp add: rebuild)
  ultimately show ?case by (intro appends_object) auto
next
  case (JNumber n)
  then obtain w where w: "encode_oracle_number (json_number_text f n) = Inr w" "length w < 256"
    "oreads (decode_json_number (length w)) w (JNumber n)"
    using number_wire by force
  show ?case
  proof (rule appends_scalar)
    show "encode_node f ids (JNumber n) buf = Inr (buf @ 0x34 # of_nat (length w) # w)" for buf
      by (simp add: w(1))
    show "oreads (decode_scalar 0x34) (of_nat (length w) # w) (JNumber n)"
      by (simp add: decode_scalar_def) (rule oreads_u8_then, simp add: unat_count w)
  qed simp_all
next
  case (JString t)
  then have str: "is_str t" by simp
  show ?case
  proof (cases "length t < 4294967296")
    case True
    with reads_json_string [OF str] obtain b bs where b: "encode_json_string (bytes_of_text t) = b # bs"
      "b AND 0x80 = 0" "oreads (decode_scalar b) bs (JString t)" by blast
    show ?thesis by (rule appends_scalar [of _ _ _ b bs]) (simp_all add: b)
  next
    case False
    obtain b bs where b: "encode_json_string (bytes_of_text t) = b # bs" "b AND 0x80 = 0" "\<not> length bs < 4294967296"
      using False by (auto simp: encode_json_string_def)
    show ?thesis by (rule appends_scalar [of _ _ _ b bs]) (use b in simp_all)
  qed
next
  case JNull
  have "oreads (decode_scalar 0x30) [] JNull" by (simp add: decode_scalar_def oreads_ok)
  then show ?case by (intro appends_scalar [of _ _ _ "0x30" "[]"]) simp_all
next
  case (JBool b)
  have "oreads (decode_scalar (if b then 0x31 else 0x32)) [] (JBool b)" by (simp add: decode_scalar_def oreads_ok)
  then show ?case by (intro appends_scalar [of _ _ _ "if b then 0x31 else 0x32" "[]"]) simp_all
qed

end

subsection \<open>The field names\<close>

definition enc_wf :: "oson_encoder \<Rightarrow> bool" where
  "enc_wf e \<longleftrightarrow> distinct (oe_names e) \<and> dom (oe_ids e) = set (oe_names e)"

lemma note_field_wf:
  "enc_wf e \<Longrightarrow> enc_wf (note_field k e) \<and> set (oe_names (note_field k e)) = insert k (set (oe_names e))"
  by (auto simp: enc_wf_def note_field_def domIff)

lemma collect_wf:
  "enc_wf e \<Longrightarrow> enc_wf (collect_field_names v e)
    \<and> set (oe_names (collect_field_names v e)) = set (oe_names e) \<union> json_keys v"
  "enc_wf e \<Longrightarrow> enc_wf (collect_items vs e)
    \<and> set (oe_names (collect_items vs e)) = set (oe_names e) \<union> items_keys vs"
  "enc_wf e \<Longrightarrow> enc_wf (collect_entries es e)
    \<and> set (oe_names (collect_entries es e)) = set (oe_names e) \<union> entries_keys es"
  by (induction v e and vs e and es e rule: collect_field_names_collect_items_collect_entries.induct)
    (auto simp: note_field_wf)

lemma numbered:
  fixes ids :: "string \<Rightarrow> u32 option"
  assumes "distinct names" "j < length names"
  shows "foldl (\<lambda>ids (i, name). ids(name \<mapsto> of_nat (i + 1))) ids (enumerate n names) (names ! j)
    = Some (of_nat (n + j + 1))"
  using assms
proof (induction names arbitrary: ids n j)
  case (Cons k names)
  have other: "k \<notin> set names \<Longrightarrow>
      foldl (\<lambda>ids (i, name). ids(name \<mapsto> of_nat (i + 1))) ids (enumerate m names) k = ids k" for ids :: "string \<Rightarrow> u32 option" and m
    by (induction names arbitrary: ids m) auto
  show ?case
  proof (cases j)
    case 0
    then show ?thesis
      using Cons.prems other [of "ids(k \<mapsto> of_nat (n + 1))" "Suc n"]
      by (simp del: fun_upd_apply) simp
  next
    case (Suc j')
    then show ?thesis using Cons.IH [of j' "ids(k \<mapsto> of_nat (n + 1))" "Suc n"] Cons.prems by simp
  qed
qed simp

text \<open>After the sort the ids number the names from 1, and both know every key of the document.\<close>

lemma sorted_ids_agree:
  assumes "enc_wf e" "length (oe_names e) < 256"
  defines "e' \<equiv> sort_and_update_field_ids e"
  shows "set (oe_names e') = set (oe_names e)" "length (oe_names e') = length (oe_names e)"
    and "ids_agree (oe_ids e') (oe_names e') (set (oe_names e))"
proof -
  show s: "set (oe_names e') = set (oe_names e)" and l: "length (oe_names e') = length (oe_names e)"
    by (simp_all add: e'_def sort_and_update_field_ids_def Let_def)
  have d: "distinct (oe_names e')"
    using assms(1) by (simp add: e'_def sort_and_update_field_ids_def enc_wf_def Let_def)
  show "ids_agree (oe_ids e') (oe_names e') (set (oe_names e))"
    unfolding ids_agree_def
  proof
    fix k assume k: "k \<in> set (oe_names e)"
    then obtain j where j: "j < length (oe_names e')" "oe_names e' ! j = k"
      by (metis s in_set_conv_nth)
    have "oe_ids e' = foldl (\<lambda>ids (i, name). ids(name \<mapsto> of_nat (i + 1))) (oe_ids e) (enumerate 0 (oe_names e'))"
      using k by (auto simp: e'_def sort_and_update_field_ids_def Let_def)
    then have "oe_ids e' k = Some (of_nat (j + 1))"
      using numbered [OF d j(1), of "oe_ids e" 0] by (simp add: j(2))
    then show "\<exists>i. oe_ids e' k = Some (of_nat i) \<and> 0 < i \<and> i \<le> length (oe_names e') \<and> i < 256
        \<and> oe_names e' ! (i - 1) = k"
      using j l assms(2) by (intro exI [of _ "j + 1"]) simp
  qed
qed

lemma short_name_at:
  assumes "is_str name" "length name < 256" "length acc < 65536"
  shows "short_name (acc @ (of_nat (length name) # bytes_of_text name) @ rest) (ucast (of_nat (length acc) :: u16))
    = Inr name"
  using assms
  by (simp add: short_name_def ucast_count(2) unat_count index_at_def slice_at_def nth_append
      from_utf8_lossy_str)

lemma names_segment_read:
  assumes "names_segment names acc = (offs, fin)" "length fin < 65536"
    and "\<forall>n\<in>set names. is_str n \<and> length n < 256"
  shows "length offs = length names \<and> (\<exists>rest. fin = acc @ rest)
    \<and> length fin = length acc + sum_list (map (\<lambda>n. length n + 1) names)
    \<and> res_map (short_name fin) (map ucast offs) = Inr names"
  using assms
proof (induction names arbitrary: acc offs fin)
  case (Cons n names)
  obtain offs' where o: "names_segment names (acc @ of_nat (length n) # bytes_of_text n) = (offs', fin)"
    "offs = of_nat (length acc) # offs'"
    using Cons.prems(1) by (auto split: prod.splits)
  note IH = Cons.IH [OF o(1) Cons.prems(2)] 
  then obtain rest where rest: "fin = acc @ (of_nat (length n) # bytes_of_text n) @ rest"
    using Cons.prems(3) by auto
  have "short_name fin (ucast (of_nat (length acc) :: u16)) = Inr n"
    unfolding rest by (rule short_name_at) (use Cons.prems rest in auto)
  then show ?case using IH Cons.prems(3) rest by (auto simp: o(2))
qed simp

lemma names_segment_length:
  "snd (names_segment names acc) = acc @ concat (map (\<lambda>n. of_nat (length n) # bytes_of_text n) names)"
proof (induction names arbitrary: acc)
  case (Cons n names)
  show ?case
    using Cons.IH [of "acc @ of_nat (length n) # bytes_of_text n"] by (simp add: case_prod_beta)
qed simp

lemma names_segment_short:
  assumes "\<forall>n\<in>set names. length n < 256" "length names < 256"
  shows "length (snd (names_segment names [])) < 65536"
proof -
  have "length (concat (map (\<lambda>n. of_nat (length n) # bytes_of_text n) names)) \<le> 256 * length names"
    using assms(1) by (induction names) auto
  then show ?thesis using assms(2) by (simp add: names_segment_length)
qed

subsection \<open>The header\<close>

lemma oreads_offsets:
  "oreads (read_offsets 2 (length offs)) (concat (map (be_bytes 2) offs)) (map ucast (offs :: u16 list))"
proof (induction offs)
  case (Cons off offs)
  have "oreads (fmap ucast oread_u16) (be_bytes 2 off) (ucast off :: u32)"
    by (rule oreads_fmap [OF oreads_u16]) simp
  moreover have "oreads (fmap (\<lambda>offs. ucast off # offs) (read_offsets 2 (length offs)))
      (concat (map (be_bytes 2) offs)) (map ucast (off # offs))"
    by (rule oreads_fmap [OF Cons.IH]) simp
  ultimately show ?case
    unfolding list.size add_Suc_right add_0_right read_offsets.simps list.map concat.simps if_P [OF refl]
    by (rule oreads_andThen)
qed (simp add: oreads_ok)

lemma oreads_names:
  assumes b: "build_field_names_components names = (hs, os, nd)"
    and n: "\<forall>n\<in>set names. is_str n \<and> length n < 256" "length names < 256"
  shows "length nd < 65536"
    "oreads (read_short_field_names (of_nat (length names)) 2 (of_nat (length nd))) (hs @ os @ nd) names"
proof -
  obtain offs fin where seg: "names_segment names [] = (offs, fin)" by fastforce
  have bd: "length hs = length names" "os = concat (map (be_bytes 2) offs)" "nd = fin"
    using b by (auto simp: build_field_names_components_def seg)
  show len: "length nd < 65536" using names_segment_short [of names] n by (auto simp: seg bd)
  have r: "length offs = length names" "res_map (short_name nd) (map ucast offs) = Inr names"
    using names_segment_read [OF seg] len n by (simp_all add: bd)
  have u: "unat (of_nat (length names) :: u32) = length names" "unat (of_nat (length nd) :: u32) = length nd"
    using n len by (simp_all add: unat_count)
  show "oreads (read_short_field_names (of_nat (length names)) 2 (of_nat (length nd))) (hs @ os @ nd) names"
    unfolding oreads_def
  proof (intro allI impI)
    fix s assume "here s (hs @ os @ nd)"
    then have h: "here (s\<lparr>od_pos := od_pos s + length names\<rparr>) os"
        "here (s\<lparr>od_pos := od_pos s + length names + length os\<rparr>) nd"
      by (simp_all add: here_append bd)
    have ro: "read_offsets 2 (length names) (s\<lparr>od_pos := od_pos s + length names\<rparr>)
        = (Inr (map ucast offs), s\<lparr>od_pos := od_pos s + (length names + length os)\<rparr>)"
      using oreadsD [OF oreads_offsets, of _ offs] h(1) by (simp add: bd r(1) add.assoc)
    have sl: "slice_at (od_data s) (od_pos s + (length names + length os))
          (od_pos s + (length names + (length os + length nd))) = (Inr nd :: u8 list result)"
      using h(2) here_length [OF h(2)] by (simp add: here_def add.assoc)
    show "read_short_field_names (of_nat (length names)) 2 (of_nat (length nd)) s
        = (Inr names, s\<lparr>od_pos := od_pos s + length (hs @ os @ nd)\<rparr>)"
      by (simp add: read_short_field_names_def read_field_names_def andThen_apply andSeq_apply get_pos_def
          set_pos_def u ro lift_res_apply sl r(2) bd(1) add.assoc)
  qed
qed

definition oson_flags_of :: "bool \<Rightarrow> bool \<Rightarrow> u16" where
  "oson_flags_of is_scalar wide_tree = FLAG_INLINE_LEAF
     OR (if is_scalar then FLAG_IS_SCALAR else FLAG_HASH_ID_UINT8 OR FLAG_TINY_NODES_STAT)
     OR 0 OR (if wide_tree then FLAG_TREE_SEG_UINT32 else 0)"

lemma flags_read:
  "has_flag (oson_flags_of sc wide) FLAG_IS_SCALAR = sc"
  "has_flag (oson_flags_of sc wide) FLAG_TREE_SEG_UINT32 = wide"
  "\<not> has_flag (oson_flags_of sc wide) FLAG_REL_OFFSET_MODE"
  "\<not> has_flag (oson_flags_of sc wide) FLAG_FNAMES_SEG_UINT32"
  "\<not> has_flag (oson_flags_of sc wide) FLAG_NUM_FNAMES_UINT32"
  "\<not> has_flag (oson_flags_of sc wide) FLAG_NUM_FNAMES_UINT16"
  by (simp_all add: has_flag_def oson_flags_of_def oson_flags)

lemma oreads_sized:
  "length tree < 65536 \<or> wide \<Longrightarrow> has_flag flags f = wide \<Longrightarrow>
    \<exists>w. oreads (read_seg_size flags f) (sized wide n) w"
  by (auto simp: read_seg_size_def sized_def intro!: exI oreads_u32 oreads_fmap [OF oreads_u16])

text \<open>The fixed part: magic, version, flags.\<close>

lemma oson_parse_header:
  assumes data: "data = OSON_MAGIC @ [VERSION_MAX_FNAME_255] @ be_bytes 2 (oson_flags_of sc wide) @ rest"
  defines "s0 \<equiv> (decoder_new data)\<lparr>od_pos := 6, od_version := 1, od_primary := oson_flags_of sc wide\<rparr>"
  shows "oson_decode ins depth data =
    fst ((if sc then parse_scalar ins depth (oson_flags_of sc wide)
          else parse_containers ins depth 1 (oson_flags_of sc wide)) s0)"
    and "here s0 rest"
proof -
  define F where "F = oson_flags_of sc wide"
  have h: "here ((decoder_new data)\<lparr>od_pos := 3\<rparr>) [1]"
      "here ((decoder_new data)\<lparr>od_pos := 4, od_version := 1\<rparr>) (be_bytes 2 F)"
    by (simp_all add: here_def decoder_new_def data OSON_MAGIC_def VERSION_MAX_FNAME_255_def F_def)
  have r: "oread_u8 ((decoder_new data)\<lparr>od_pos := 3\<rparr>) = (Inr 1, (decoder_new data)\<lparr>od_pos := 4\<rparr>)"
      "oread_u16 ((decoder_new data)\<lparr>od_pos := 4, od_version := 1\<rparr>)
        = (Inr F, (decoder_new data)\<lparr>od_pos := 6, od_version := 1\<rparr>)"
    using oreadsD [OF oreads_u8 h(1)] oreadsD [OF oreads_u16 h(2)] by simp_all
  have m: "take 3 (od_data (decoder_new data)) = OSON_MAGIC" "\<not> length (od_data (decoder_new data)) < 4"
    by (simp_all add: decoder_new_def data OSON_MAGIC_def)
  have rel: "od_relative (decoder_new data) = False" by (simp add: decoder_new_def)
  have fl: "has_flag F FLAG_IS_SCALAR = sc" "has_flag F FLAG_REL_OFFSET_MODE = False"
    using flags_read [of sc wide] by (simp_all add: F_def)
  have upd: "(decoder_new data)\<lparr>od_pos := 6, od_version := 1, od_primary := F, od_relative := False\<rparr> = s0"
    using rel by (simp add: s0_def F_def decoder_new_def)
  show "oson_decode ins depth data =
    fst ((if sc then parse_scalar ins depth (oson_flags_of sc wide)
          else parse_containers ins depth 1 (oson_flags_of sc wide)) s0)"
    unfolding F_def [symmetric]
    by (simp add: oson_decode_def oson_parse_def m andSeq_apply andThen_apply set_pos_def r
        VERSION_MAX_FNAME_255_def fl upd)
  show "here s0 rest"
    by (simp add: here_def s0_def decoder_new_def data OSON_MAGIC_def)
qed

lemma parse_containers_at:
  assumes b: "build_field_names_components names = (hs, os, nd)"
    and n: "\<forall>n\<in>set names. is_str n \<and> length n < 256" "length names < 256"
    and h: "here s ((of_nat (length names) # sized False (length nd)) @ sized wide k @ [0, 0] @ hs @ os @ nd)"
  defines "q \<equiv> od_pos s + 1 + 2 + length (sized wide k) + 2 + length (hs @ os @ nd)"
  shows "parse_containers ins depth 1 (oson_flags_of False wide) s
    = decode_node ins depth (s\<lparr>od_id_length := 1, od_secondary := 0, od_pos := q,
        od_names := od_names s @ names, od_tree := q\<rparr>)"
proof -
  define F where "F = oson_flags_of False wide"
  note F = flags_read [of False wide, folded F_def]
  have nd: "length nd < 65536" and rn: "oreads (read_short_field_names (of_nat (length names)) 2
      (of_nat (length nd))) (hs @ os @ nd) names"
    using oreads_names [OF b n] by simp_all
  define s1 where "s1 = s\<lparr>od_id_length := 1, od_pos := od_pos s + 1\<rparr>"
  define s2 where "s2 = s\<lparr>od_id_length := 1, od_secondary := 0, od_pos := od_pos s + 1 + 2\<rparr>"
  define p3 where "p3 = od_pos s + 1 + 2 + length (sized wide k)"
  have hs: "here s [of_nat (length names)]" "here s1 (sized False (length nd))" "here s2 (sized wide k)"
      "here (s2\<lparr>od_pos := p3\<rparr>) (be_bytes 2 (0::u16))" "here (s2\<lparr>od_pos := p3 + 2\<rparr>) (hs @ os @ nd)"
  proof -
    have "in_place (od_data s) (od_pos s)
        ([of_nat (length names)] @ sized False (length nd) @ sized wide k @ be_bytes 2 (0::u16) @ hs @ os @ nd)"
      using h by (simp add: here_in_place be_bytes_def upt_rec)
    then have "in_place (od_data s) (od_pos s) [of_nat (length names)]"
        "in_place (od_data s) (od_pos s + 1) (sized False (length nd))"
        "in_place (od_data s) (od_pos s + 1 + 2) (sized wide k)"
        "in_place (od_data s) p3 (be_bytes 2 (0::u16))" "in_place (od_data s) (p3 + 2) (hs @ os @ nd)"
      unfolding in_place_append [of _ _ "[_]"] in_place_append [of _ _ "sized _ _"] in_place_append [of _ _ "be_bytes _ _"]
      by (simp_all add: p3_def sized_def add.assoc)
    then show "here s [of_nat (length names)]" "here s1 (sized False (length nd))" "here s2 (sized wide k)"
        "here (s2\<lparr>od_pos := p3\<rparr>) (be_bytes 2 (0::u16))" "here (s2\<lparr>od_pos := p3 + 2\<rparr>) (hs @ os @ nd)"
      by (simp_all add: here_in_place s1_def s2_def)
  qed
  have "oreads (read_num_names F) [of_nat (length names)] (of_nat (length names), 1)"
    unfolding read_num_names_def using F
    by (simp only: if_False, intro oreads_fmap [OF oreads_u8]) (simp only: ucast_count(1) [OF n(2)])
  from oreadsD [OF this hs(1)]
  have r1: "read_num_names F s = (Inr (of_nat (length names), 1), s\<lparr>od_pos := od_pos s + 1\<rparr>)"
    by simp
  have "oreads (read_seg_size F FLAG_FNAMES_SEG_UINT32) (sized False (length nd)) (of_nat (length nd))"
    by (simp add: read_seg_size_def F sized_def) (rule oreads_fmap [OF oreads_u16], rule ucast_count(2) [OF nd])
  from oreadsD [OF this hs(2)]
  have r2: "read_seg_size F FLAG_FNAMES_SEG_UINT32 s1 = (Inr (of_nat (length nd)), s1\<lparr>od_pos := od_pos s + 1 + 2\<rparr>)"
    by (simp add: s1_def sized_def)
  obtain w where w: "oreads (read_seg_size F FLAG_TREE_SEG_UINT32) (sized wide k) w"
    using oreads_sized [of "[]" wide F] F by auto
  have r3: "read_seg_size F FLAG_TREE_SEG_UINT32 s2 = (Inr w, s2\<lparr>od_pos := p3\<rparr>)"
    using oreadsD [OF w hs(3)] by (simp add: s2_def p3_def)
  have r4: "oread_u16 (s2\<lparr>od_pos := p3\<rparr>) = (Inr 0, s2\<lparr>od_pos := p3 + 2\<rparr>)"
    using oreadsD [OF oreads_u16 hs(4)] by simp
  have r5: "read_short_field_names (of_nat (length names)) 2 (of_nat (length nd)) (s2\<lparr>od_pos := p3 + 2\<rparr>)
      = (Inr names, s2\<lparr>od_pos := q\<rparr>)"
    using oreadsD [OF rn hs(5)] by (simp add: q_def p3_def)
  have none: "q = p3 + 2" if "names = []"
    using b that by (auto simp: build_field_names_components_def q_def p3_def)
  have pos: "0 < (of_nat (length names) :: u32) \<longleftrightarrow> names \<noteq> []"
    using n(2) by (simp add: word_neq_0_conv [symmetric] word_unat_eq_iff unat_count)
  have upd: "s\<lparr>od_pos := od_pos s + 1, od_id_length := 1\<rparr> = s1" "s1\<lparr>od_pos := od_pos s + 1 + 2, od_secondary := 0\<rparr> = s2"
    by (simp_all add: s1_def s2_def)
  show ?thesis
    unfolding parse_containers_def F_def [symmetric]
    by (simp add: andThen_apply r1 andSeq_apply upd [simplified] r2 [simplified] read_long_header_def ok_apply
        VERSION_MAX_FNAME_65535_def r3 r4 [simplified] pos F r5 [simplified] extend_names_def none)
      (auto simp: none s2_def)
qed

subsection \<open>Whole documents\<close>

lemma encode_node_scalar:
  "\<not> is_container v \<Longrightarrow> encode_node f ids v [] = Inr bs \<Longrightarrow> encode_node f ids v buf = Inr (buf @ bs)"
  by (cases v) (auto simp: is_container_def res_bind_def split: sum.splits)

context json_map
begin

lemma container_image:
  assumes c: "is_container v" and st: "json_stores f canon v"
    and k: "card (json_keys v) < 256" "\<forall>n\<in>json_keys v. is_str n \<and> length n < 256"
  shows "\<exists>data. oson_encode f v = Inr data \<and>
    (length data < 4294967296 \<longrightarrow> json_height v \<le> depth \<longrightarrow> oson_decode ins depth data = Inr v)"
proof -
  define e where "e = collect_field_names v \<lparr>oe_names = [], oe_ids = Map.empty\<rparr>"
  define e' where "e' = sort_and_update_field_ids e"
  define names where "names = oe_names e'"
  have e: "enc_wf e" "set (oe_names e) = json_keys v"
    using collect_wf(1) [of "\<lparr>oe_names = [], oe_ids = Map.empty\<rparr>" v] by (simp_all add: e_def enc_wf_def)
  have len: "length (oe_names e) < 256"
    using k(1) e distinct_card [of "oe_names e"] by (simp add: enc_wf_def)
  note s = sorted_ids_agree [OF e(1) len, folded e'_def names_def]
  have names: "\<forall>n\<in>set names. is_str n \<and> length n < 256" "length names < 256"
    using k(2) s(1,2) e(2) len by auto
  obtain hs os nd where b: "build_field_names_components names = (hs, os, nd)" by (metis prod_cases3)
  have nd: "length nd < 65536" using oreads_names [OF b names] by simp
  have "appends f (oe_ids e') ins names v"
    using node_appends [OF st] s(3) e(2) by simp
  then obtain tree where tree: "encode_node f (oe_ids e') v [] = Inr tree"
    "\<And>data start. length tree < 4294967296 \<Longrightarrow> in_place data start tree \<Longrightarrow> decodes ins names data start 0 v"
    unfolding appends_def by (metis append_Nil list.size(3) add_0 add_0_right)
  define wide where "wide = (65535 < length tree)"
  define body where "body = (of_nat (length names) # sized False (length nd)) @ sized wide (length tree)
      @ [0, 0] @ hs @ os @ nd"
  define data where "data = OSON_MAGIC @ [VERSION_MAX_FNAME_255] @ be_bytes 2 (oson_flags_of False wide) @ body @ tree"
  have enc: "oson_encode f v = Inr data"
    using nd by (simp add: oson_encode_def Let_def e_def [symmetric] e'_def [symmetric] names_def [symmetric]
        tree(1) c b data_def body_def wide_def oson_flags_of_def)
  have "oson_decode ins depth data = Inr v" if small: "length data < 4294967296" and d: "json_height v \<le> depth"
  proof -
    define s0 where "s0 = (decoder_new data)\<lparr>od_pos := 6, od_version := 1, od_primary := oson_flags_of False wide\<rparr>"
    have dec: "oson_decode ins depth data = fst (parse_containers ins depth 1 (oson_flags_of False wide) s0)"
      and h: "here s0 (body @ tree)"
      using oson_parse_header [OF data_def] by (simp_all add: s0_def)
    define q where "q = od_pos s0 + 1 + 2 + length (sized wide (length tree)) + 2 + length (hs @ os @ nd)"
    define s1 where "s1 = s0\<lparr>od_id_length := 1, od_secondary := 0, od_pos := q, od_names := od_names s0 @ names, od_tree := q\<rparr>"
    have q: "q = od_pos s0 + length body" by (simp add: q_def body_def sized_def)
    have "here s0 body" and t: "in_place data q tree"
      using h by (simp_all add: here_in_place in_place_append q s0_def decoder_new_def)
    then have p: "parse_containers ins depth 1 (oson_flags_of False wide) s0 = decode_node ins depth s1"
      using parse_containers_at [OF b names, of s0 wide "length tree" ins depth] by (simp add: body_def s1_def q_def)
    have "placed s1 data q names"
      by (simp add: placed_def s1_def s0_def decoder_new_def)
    moreover have "decodes ins names data q 0 v"
      using tree(2) [OF _ t] small by (simp add: data_def)
    ultimately have "fst (decode_node ins depth s1) = Inr v"
      by (intro decodesD [of ins names data q 0]) (use d in \<open>simp_all add: s1_def\<close>)
    then show ?thesis by (simp add: dec p)
  qed
  with enc show ?thesis by blast
qed

lemma scalar_image:
  assumes c: "\<not> is_container v" and st: "json_stores f canon v"
  shows "\<exists>data. oson_encode f v = Inr data \<and>
    (length data < 4294967296 \<longrightarrow> json_height v \<le> depth \<longrightarrow> oson_decode ins depth data = Inr v)"
proof -
  have keys: "json_keys v = {}" using c by (cases v) (auto simp: is_container_def)
  have e: "sort_and_update_field_ids (collect_field_names v \<lparr>oe_names = [], oe_ids = Map.empty\<rparr>)
      = \<lparr>oe_names = [], oe_ids = Map.empty\<rparr>"
    using c by (cases v) (auto simp: is_container_def sort_and_update_field_ids_def)
  have ap: "appends f Map.empty ins [] v"
    by (rule node_appends [OF st]) (simp add: ids_agree_def keys)
  then obtain tree where tree: "encode_node f Map.empty v [] = Inr tree"
    unfolding appends_def by (metis append_Nil)
  define wide where "wide = (65535 < length tree)"
  define data where "data = OSON_MAGIC @ [VERSION_MAX_FNAME_255] @ be_bytes 2 (oson_flags_of True wide)
      @ sized wide (length tree) @ tree"
  have enc: "oson_encode f v = Inr data"
    by (simp add: oson_encode_def Let_def e tree c data_def wide_def oson_flags_of_def
        build_field_names_components_def)
  have "oson_decode ins depth data = Inr v" if small: "length data < 4294967296" and d: "json_height v \<le> depth"
  proof -
    define s0 where "s0 = (decoder_new data)\<lparr>od_pos := 6, od_version := 1, od_primary := oson_flags_of True wide\<rparr>"
    define q where "q = 6 + length (sized wide (length tree))"
    have dec: "oson_decode ins depth data = fst (parse_scalar ins depth (oson_flags_of True wide) s0)"
      and h: "here s0 (sized wide (length tree) @ tree)"
      using oson_parse_header [OF data_def] by (simp_all add: s0_def)
    have p: "parse_scalar ins depth (oson_flags_of True wide) s0 = decode_node ins depth (s0\<lparr>od_pos := q\<rparr>)"
      by (simp add: parse_scalar_def andThen_apply get_pos_def andSeq_apply set_pos_def flags_read q_def
          sized_def s0_def)
    have t: "in_place data q tree"
      using h by (simp add: here_in_place in_place_append q_def s0_def decoder_new_def)
    define buf where "buf = replicate q (0::u8)"
    have lens: "length buf + length tree < 4294967296"
      using small by (simp add: buf_def q_def data_def OSON_MAGIC_def)
    obtain bs where bs: "encode_node f Map.empty v buf = Inr (buf @ bs)"
      "length buf + length bs < 4294967296 \<Longrightarrow> in_place data (0 + length buf) bs \<Longrightarrow> decodes ins [] data 0 (length buf) v"
      using ap unfolding appends_def by blast
    have "bs = tree" using bs(1) encode_node_scalar [OF c tree, of buf] by simp
    then have "decodes ins [] data 0 q v"
      using bs(2) lens t by (simp add: buf_def)
    moreover have "placed (s0\<lparr>od_pos := q\<rparr>) data 0 []"
      by (simp add: placed_def s0_def decoder_new_def)
    ultimately have "fst (decode_node ins depth (s0\<lparr>od_pos := q\<rparr>)) = Inr v"
      by (rule decodesD) (use d in simp_all)
    then show ?thesis by (simp add: dec p)
  qed
  with enc show ?thesis by blast
qed

lemma keys_are_strings:
  "json_stores f canon v \<Longrightarrow> k \<in> json_keys v \<Longrightarrow> is_str k"
  "items_store f canon vs \<Longrightarrow> k \<in> items_keys vs \<Longrightarrow> is_str k"
  "entries_store f canon es \<Longrightarrow> k \<in> entries_keys es \<Longrightarrow> is_str k"
  by (induction v and vs and es rule: json_keys_items_keys_entries_keys.induct) auto

lemma image_roundtrip:
  assumes "json_stores f canon v" "card (json_keys v) < 256" "\<forall>n\<in>json_keys v. length n < 256"
  shows "\<exists>data. oson_encode f v = Inr data \<and>
    (length data < 4294967296 \<longrightarrow> json_height v \<le> depth \<longrightarrow> oson_decode ins depth data = Inr v)"
  using container_image [of v f depth] scalar_image [of v f depth] assms keys_are_strings(1) [OF assms(1)]
  by blast

end

subsection \<open>Properties\<close>


definition sample_doc :: json where
  "sample_doc = JObject [(''a'', JArray [JNumber (JInt 42), JString ''x'', JNull]),
     (''b'', JBool True), (''c'', JObject [(''a'', JArray [])])]"


text \<open>The image of an array whose only element is the array itself.\<close>

definition cyclic_image :: "u8 list" where
  "cyclic_image = [0xFF, 0x4A, 0x5A, 1, 0x21, 0x02, 0, 0, 0, 0, 6, 0, 0, 0xe0, 1, 0, 0, 0, 0]"

lemma cyclic_node:
  assumes "od_data s = cyclic_image" "od_pos s = 13" "od_tree s = 13" "\<not> od_relative s"
  shows "fst (decode_node ins d s) = Inl Panic"
  using assms
proof (induction d arbitrary: s)
  case 0
  show ?case by (simp add: lift_res_apply)
next
  case (Suc d)
  have h: "here s [0xe0]" "here (s\<lparr>od_pos := 14\<rparr>) [1]" "here (s\<lparr>od_pos := 15\<rparr>) (be_bytes 4 (0::u32))"
    using Suc.prems by (simp_all add: here_def cyclic_image_def be_bytes_def upt_rec)
  have r: "oread_u8 s = (Inr 0xe0, s\<lparr>od_pos := 14\<rparr>)" "oread_u8 (s\<lparr>od_pos := 14\<rparr>) = (Inr 1, s\<lparr>od_pos := 15\<rparr>)"
      "oread_u32 (s\<lparr>od_pos := 15\<rparr>) = (Inr 0, s\<lparr>od_pos := 19\<rparr>)"
    using oreadsD [OF oreads_u8 h(1)] oreadsD [OF oreads_u8 h(2)] oreadsD [OF oreads_u32 h(3)] Suc.prems
    by simp_all
  have "fst (decode_node ins d (s\<lparr>od_pos := 13\<rparr>)) = Inl Panic"
    by (rule Suc.IH) (use Suc.prems in simp_all)
  then show ?case
    using Suc.prems r
    by (auto simp: andThen_apply decode_container_def usub_def lift_res_apply read_count_def fmap_def
        ok_apply container_layout_def get_pos_def decode_child_def andSeq_apply set_pos_def get_offset_def
        split: prod.splits sum.splits)
qed

text \<open>
  The decoder follows the offsets of the image without bounding its recursion: on the image
  of an array that contains itself it overflows the stack, whatever the stack's depth.
\<close>

theorem oson_cycle_overflows: "oson_decode ins depth cyclic_image = Inl Panic"
proof -
  have img: "cyclic_image = OSON_MAGIC @ [VERSION_MAX_FNAME_255] @ be_bytes 2 (oson_flags_of False False)
      @ [0, 0, 0, 0, 6, 0, 0, 0xe0, 1, 0, 0, 0, 0]"
    by (simp add: cyclic_image_def OSON_MAGIC_def VERSION_MAX_FNAME_255_def oson_flags_of_def oson_flags
        be_bytes_def upt_rec)
  define s1 where "s1 = (decoder_new cyclic_image)\<lparr>od_pos := 6, od_version := 1, od_primary := oson_flags_of False False\<rparr>"
  have b: "build_field_names_components [] = ([], [], [])" by (simp add: build_field_names_components_def)
  have "here s1 ((of_nat (length ([] :: string list)) # sized False (length ([] :: u8 list)))
      @ sized False 6 @ [0, 0] @ [] @ [] @ [])"
    by (simp add: here_def s1_def decoder_new_def cyclic_image_def sized_def be_bytes_def upt_rec)
  from parse_containers_at [OF b _ _ this, of ins depth]
  have "parse_containers ins depth 1 (oson_flags_of False False) s1
      = decode_node ins depth (s1\<lparr>od_id_length := 1, od_secondary := 0, od_pos := 13, od_names := [], od_tree := 13\<rparr>)"
    by (simp add: s1_def decoder_new_def sized_def)
  moreover have "fst (decode_node ins depth (s1\<lparr>od_id_length := 1, od_secondary := 0, od_pos := 13, od_names := [], od_tree := 13\<rparr>)) = Inl Panic"
    by (rule cyclic_node) (simp_all add: s1_def decoder_new_def)
  ultimately show ?thesis
    using oson_parse_header(1) [OF img] by (simp add: s1_def)
qed

end
