(* ===== verification/Values.thy ===== *)
theory Values
  imports Json NumberText OraDate RowId BinFloat OraVector Statement
begin

section \<open>Column values, objects and rows\<close>

text \<open>
  \<open>src/src/row.rs\<close> (\<open>Value\<close>, its accessors and conversions, \<open>Row\<close>), \<open>src/src/dbobject.rs\<close>
  (object types and instances), \<open>src/src/types/lob.rs\<close> and \<open>src/src/types/cursor.rs\<close>.
  An \<open>i64\<close> inside a value is an \<open>int\<close> of that range, an \<open>f64\<close> its bit pattern.  A \<open>HashMap\<close> is
  an association list without duplicate keys, whose order nothing observes.  \<open>debug\<close> is the
  text of \<open>{:?}\<close>, \<open>json_text\<close> that of \<open>serde_json\<close>.
\<close>

subsection \<open>LOBs\<close>

record lob_locator =
  loc_bytes :: "u8 list"
  loc_size :: u64
  loc_chunk_size :: u32
  loc_type :: oracle_type
  loc_csfrm :: u8

definition is_blob :: "lob_locator \<Rightarrow> bool" where "is_blob l \<longleftrightarrow> loc_type l = OraBlob"
definition is_clob :: "lob_locator \<Rightarrow> bool" where "is_clob l \<longleftrightarrow> loc_type l = OraClob"
definition is_bfile :: "lob_locator \<Rightarrow> bool" where "is_bfile l \<longleftrightarrow> loc_type l = OraBfile"

definition LOC_FLAGS_INIT :: u8 where "LOC_FLAGS_INIT = 0x08"
definition LOC_OFFSET_FLAG_3 :: nat where "LOC_OFFSET_FLAG_3 = 6"
definition LOC_OFFSET_FLAG_4 :: nat where "LOC_OFFSET_FLAG_4 = 7"
definition LOC_FLAGS_VAR_LENGTH_CHARSET :: u8 where "LOC_FLAGS_VAR_LENGTH_CHARSET = 0x80"
definition LOC_FLAGS_TEMP :: u8 where "LOC_FLAGS_TEMP = 0x01"

definition is_initialized :: "lob_locator \<Rightarrow> bool" where
  "is_initialized l \<longleftrightarrow> 5 < length (loc_bytes l) \<and> loc_bytes l ! 5 AND LOC_FLAGS_INIT \<noteq> 0"

definition uses_var_length_charset :: "lob_locator \<Rightarrow> bool" where
  "uses_var_length_charset l \<longleftrightarrow>
     LOC_OFFSET_FLAG_3 < length (loc_bytes l) \<and> loc_bytes l ! LOC_OFFSET_FLAG_3 AND LOC_FLAGS_VAR_LENGTH_CHARSET \<noteq> 0"

definition is_temp :: "lob_locator \<Rightarrow> bool" where
  "is_temp l \<longleftrightarrow>
     LOC_OFFSET_FLAG_4 < length (loc_bytes l) \<and> loc_bytes l ! LOC_OFFSET_FLAG_4 AND LOC_FLAGS_TEMP \<noteq> 0"

definition get_file_name :: "lob_locator \<Rightarrow> (string \<times> string) option" where
  "get_file_name l =
     (let b = loc_bytes l; n = length b
      in if \<not> is_bfile l then None
         else if n < 16 + 2 then None
         else
           let dir_len = unat (be_word [b ! 16, b ! 17] :: u16); file_len_off = 18 + dir_len
           in if n < file_len_off + 2 then None
              else
                let dir_name = from_utf8_lossy (take dir_len (drop 18 b));
                    file_len = unat (be_word [b ! file_len_off, b ! (file_len_off + 1)] :: u16);
                    file_off = file_len_off + 2
                in if n < file_off + file_len then None
                   else Some (dir_name, from_utf8_lossy (take file_len (drop file_off b))))"

datatype lob_value = LobInline "u8 list" | LobLoc lob_locator | LobEmpty | LobNull

definition lob_inline :: "u8 list \<Rightarrow> lob_value" where
  "lob_inline data = (if data = [] then LobEmpty else LobInline data)"

fun lob_is_empty :: "lob_value \<Rightarrow> bool" where
  "lob_is_empty LobEmpty = True"
| "lob_is_empty LobNull = True"
| "lob_is_empty (LobInline data) = (data = [])"
| "lob_is_empty (LobLoc l) = (loc_size l = 0)"

fun lob_size :: "lob_value \<Rightarrow> u64 option" where
  "lob_size LobNull = None"
| "lob_size LobEmpty = Some 0"
| "lob_size (LobInline data) = Some (of_nat (length data))"
| "lob_size (LobLoc l) = Some (loc_size l)"

definition lob_unread :: error where
  "lob_unread = Protocol ''LOB data requires explicit read operation''"

fun lob_as_string :: "lob_value \<Rightarrow> string option result" where
  "lob_as_string LobNull = Inr None"
| "lob_as_string LobEmpty = Inr (Some [])"
| "lob_as_string (LobInline data) = Inr (Some (from_utf8_lossy data))"
| "lob_as_string (LobLoc l) = Inl (Err lob_unread)"

fun lob_as_bytes :: "lob_value \<Rightarrow> u8 list option result" where
  "lob_as_bytes LobNull = Inr None"
| "lob_as_bytes LobEmpty = Inr (Some [])"
| "lob_as_bytes (LobInline data) = Inr (Some data)"
| "lob_as_bytes (LobLoc l) = Inl (Err lob_unread)"

subsection \<open>Values\<close>

record ref_cursor =
  rc_cursor_id :: u16
  rc_columns :: "column_info list"
  rc_fetched :: bool

definition ref_cursor_new :: "u16 \<Rightarrow> column_info list \<Rightarrow> ref_cursor" where
  "ref_cursor_new cursor_id columns = \<lparr>rc_cursor_id = cursor_id, rc_columns = columns, rc_fetched = False\<rparr>"

datatype (plugins only: code size) "value" =
    VNull
  | VTypedNull oracle_type
  | VString string
  | VBytes "u8 list"
  | VInteger int
  | VFloat u64
  | VNumber oracle_number
  | VDate oracle_date
  | VTimestamp oracle_timestamp
  | VRowId row_id
  | VBoolean bool
  | VIntervalYM interval_ym
  | VIntervalDS interval_ds
  | VLob lob_value
  | VJson json
  | VVector oracle_vector
  | VCursor ref_cursor
  | VCollection db_object
and db_object =
    DbObject (obj_type_name: string) (obj_values: "(string \<times> value) list")
      (obj_elements: "value list") (obj_is_collection: bool)

fun null_type :: "value \<Rightarrow> oracle_type option" where
  "null_type (VTypedNull t) = Some t"
| "null_type _ = None"

definition is_null :: "value \<Rightarrow> bool" where
  "is_null v = (case v of VNull \<Rightarrow> True | VTypedNull _ \<Rightarrow> True | _ \<Rightarrow> False)"

definition as_str :: "value \<Rightarrow> string option" where
  "as_str v = (case v of VString s \<Rightarrow> Some s | _ \<Rightarrow> None)"

definition as_i64 :: "value \<Rightarrow> int option" where
  "as_i64 v =
     (case v of
        VString s \<Rightarrow> ok_option (parse_i64 s)
      | VInteger i \<Rightarrow> Some i
      | VFloat f \<Rightarrow> Some (i64_of_f64 f)
      | VNumber n \<Rightarrow> ok_option (to_i64 n)
      | _ \<Rightarrow> None)"

definition as_f64 :: "value \<Rightarrow> u64 option" where
  "as_f64 v =
     (case v of
        VString s \<Rightarrow> ok_option (parse_f64 s)
      | VFloat f \<Rightarrow> Some f
      | VInteger i \<Rightarrow> Some (f64_of_int i)
      | VNumber n \<Rightarrow> ok_option (to_f64 n)
      | _ \<Rightarrow> None)"

definition as_bytes :: "value \<Rightarrow> u8 list option" where
  "as_bytes v = (case v of VBytes b \<Rightarrow> Some b | VString s \<Rightarrow> Some (bytes_of_text s) | _ \<Rightarrow> None)"

definition as_bool :: "value \<Rightarrow> bool option" where
  "as_bool v = (case v of VBoolean b \<Rightarrow> Some b | VInteger i \<Rightarrow> Some (i \<noteq> 0) | _ \<Rightarrow> None)"

definition as_cursor_id :: "value \<Rightarrow> u16 option" where
  "as_cursor_id v = (case v of VCursor c \<Rightarrow> Some (rc_cursor_id c) | _ \<Rightarrow> None)"

definition as_collection :: "value \<Rightarrow> db_object option" where
  "as_collection v = (case v of VCollection obj \<Rightarrow> Some obj | _ \<Rightarrow> None)"

subsection \<open>Conversions\<close>

definition cannot_convert :: "(value \<Rightarrow> string) \<Rightarrow> value \<Rightarrow> string \<Rightarrow> 'a result" where
  "cannot_convert debug v target =
     Inl (Err (DataConversionError (''Cannot convert '' @ debug v @ '' to '' @ target)))"

definition null_to :: "string \<Rightarrow> 'a result" where
  "null_to target = Inl (Err (DataConversionError (''Cannot convert NULL to '' @ target)))"

definition value_to_string :: "(value \<Rightarrow> string) \<Rightarrow> value \<Rightarrow> string result" where
  "value_to_string debug v =
     (case v of
        VString s \<Rightarrow> Inr s
      | VNumber n \<Rightarrow> Inr (on_value n)
      | VInteger i \<Rightarrow> Inr (show_int i)
      | VFloat f \<Rightarrow> Inr (show_f64 f)
      | VIntervalYM i \<Rightarrow> interval_ym_text i
      | VIntervalDS i \<Rightarrow> interval_ds_text i
      | VNull \<Rightarrow> null_to ''String''
      | VTypedNull _ \<Rightarrow> null_to ''String''
      | _ \<Rightarrow> cannot_convert debug v ''String'')"

definition value_to_i64 :: "(value \<Rightarrow> string) \<Rightarrow> value \<Rightarrow> int result" where
  "value_to_i64 debug v =
     (case as_i64 v of Some i \<Rightarrow> Inr i | None \<Rightarrow> cannot_convert debug v ''i64'')"

definition value_to_f64 :: "(value \<Rightarrow> string) \<Rightarrow> value \<Rightarrow> u64 result" where
  "value_to_f64 debug v =
     (case as_f64 v of Some f \<Rightarrow> Inr f | None \<Rightarrow> cannot_convert debug v ''f64'')"

definition value_to_bytes :: "(value \<Rightarrow> string) \<Rightarrow> value \<Rightarrow> u8 list result" where
  "value_to_bytes debug v =
     (case v of
        VBytes bytes \<Rightarrow> Inr bytes
      | VString s \<Rightarrow> Inr (bytes_of_text s)
      | VNull \<Rightarrow> null_to ''bytes''
      | VTypedNull _ \<Rightarrow> null_to ''bytes''
      | _ \<Rightarrow> cannot_convert debug v ''bytes'')"

definition value_to_date :: "(value \<Rightarrow> string) \<Rightarrow> value \<Rightarrow> oracle_date result" where
  "value_to_date debug v =
     (case v of
        VDate date \<Rightarrow> Inr date
      | VTimestamp timestamp \<Rightarrow> Inr (to_date timestamp)
      | VNull \<Rightarrow> null_to ''OracleDate''
      | VTypedNull _ \<Rightarrow> null_to ''OracleDate''
      | _ \<Rightarrow> cannot_convert debug v ''OracleDate'')"

definition value_to_timestamp :: "(value \<Rightarrow> string) \<Rightarrow> value \<Rightarrow> oracle_timestamp result" where
  "value_to_timestamp debug v =
     (case v of
        VTimestamp timestamp \<Rightarrow> Inr timestamp
      | VDate date \<Rightarrow> Inr (timestamp_from_date date)
      | VNull \<Rightarrow> null_to ''OracleTimestamp''
      | VTypedNull _ \<Rightarrow> null_to ''OracleTimestamp''
      | _ \<Rightarrow> cannot_convert debug v ''OracleTimestamp'')"

subsection \<open>Display\<close>

definition ymd_text :: "int \<Rightarrow> u8 \<Rightarrow> u8 \<Rightarrow> u8 \<Rightarrow> u8 \<Rightarrow> u8 \<Rightarrow> string" where
  "ymd_text year month day hour minute second =
     pad_int 4 year @ ''-'' @ padded 2 (unat month) @ ''-'' @ padded 2 (unat day) @ '' ''
     @ padded 2 (unat hour) @ '':'' @ padded 2 (unat minute) @ '':'' @ padded 2 (unat second)"

definition lob_text :: "lob_value \<Rightarrow> string" where
  "lob_text lob =
     (case lob of
        LobNull \<Rightarrow> ''NULL''
      | LobEmpty \<Rightarrow> ''<empty LOB>''
      | LobInline data \<Rightarrow> ''<LOB: '' @ show_nat (length data) @ '' bytes inline>''
      | LobLoc l \<Rightarrow> ''<LOB: '' @ show_nat (unat (loc_size l)) @ '' bytes, locator>'')"

definition object_text :: "db_object \<Rightarrow> string" where
  "object_text obj =
     (if obj_is_collection obj
      then ''<COLLECTION '' @ obj_type_name obj @ '': '' @ show_nat (length (obj_elements obj)) @ '' elements>''
      else ''<OBJECT '' @ obj_type_name obj @ '': '' @ show_nat (length (obj_values obj)) @ '' attributes>'')"

text \<open>\<open>{:+03}\<close>: the sign is always written and counts towards the width.\<close>

definition value_text :: "(json \<Rightarrow> string) \<Rightarrow> value \<Rightarrow> string result" where
  "value_text json_text v =
     (case v of
        VNull \<Rightarrow> Inr ''NULL''
      | VTypedNull _ \<Rightarrow> Inr ''NULL''
      | VString s \<Rightarrow> Inr s
      | VBytes b \<Rightarrow> Inr (''<'' @ show_nat (length b) @ '' bytes>'')
      | VInteger i \<Rightarrow> Inr (show_int i)
      | VFloat f \<Rightarrow> Inr (show_f64 f)
      | VNumber n \<Rightarrow> Inr (on_value n)
      | VDate d \<Rightarrow> Inr (ymd_text (od_year d) (od_month d) (od_day d) (od_hour d) (od_minute d) (od_second d))
      | VTimestamp t \<Rightarrow>
          Inr (ymd_text (ts_year t) (ts_month t) (ts_day t) (ts_hour t) (ts_minute t) (ts_second t)
            @ ''.'' @ padded 6 (unat (ts_microsecond t))
            @ (if has_timezone t
               then '' '' @ (if ts_tz_hour_offset t < 0 then ''-'' else ''+'')
                 @ padded 2 (nat \<bar>ts_tz_hour_offset t\<bar>) @ '':'' @ pad_int 2 (ts_tz_minute_offset t)
               else []))
      | VRowId r \<Rightarrow> Inr (rowid_display r)
      | VBoolean b \<Rightarrow> Inr (if b then ''true'' else ''false'')
      | VIntervalYM i \<Rightarrow> interval_ym_text i
      | VIntervalDS i \<Rightarrow> interval_ds_text i
      | VLob lob \<Rightarrow> Inr (lob_text lob)
      | VJson j \<Rightarrow> Inr (json_text j)
      | VVector x \<Rightarrow> Inr (''<VECTOR: '' @ show_nat (dimensions x) @ '' dimensions>'')
      | VCursor c \<Rightarrow> Inr (''<CURSOR: id='' @ show_nat (unat (rc_cursor_id c)) @ '', ''
            @ show_nat (length (rc_columns c)) @ '' columns>'')
      | VCollection obj \<Rightarrow> Inr (object_text obj))"

subsection \<open>Object types and instances\<close>

record db_object_attr =
  at_name :: string
  at_oracle_type :: oracle_type
  at_max_size :: u32
  at_precision :: u8
  at_scale :: "8 word"
  at_nullable :: bool
  at_object_type_name :: "string option"

definition attr_new :: "string \<Rightarrow> oracle_type \<Rightarrow> db_object_attr" where
  "attr_new name oracle_type =
     \<lparr>at_name = name, at_oracle_type = oracle_type, at_max_size = 0, at_precision = 0, at_scale = 0,
      at_nullable = True, at_object_type_name = None\<rparr>"

record db_object_type =
  ot_schema :: string
  ot_name :: string
  ot_package_name :: "string option"
  ot_is_collection :: bool
  ot_collection_type :: "collection_type option"
  ot_element_type :: "oracle_type option"
  ot_element_type_name :: "string option"
  ot_attributes :: "db_object_attr list"
  ot_oid :: "u8 list option"

definition object_type_new :: "string \<Rightarrow> string \<Rightarrow> db_object_type" where
  "object_type_new schema name =
     \<lparr>ot_schema = schema, ot_name = name, ot_package_name = None, ot_is_collection = False,
      ot_collection_type = None, ot_element_type = None, ot_element_type_name = None,
      ot_attributes = [], ot_oid = None\<rparr>"

definition object_type_collection ::
  "string \<Rightarrow> string \<Rightarrow> collection_type \<Rightarrow> oracle_type \<Rightarrow> db_object_type" where
  "object_type_collection schema name ctype element_type =
     \<lparr>ot_schema = schema, ot_name = name, ot_package_name = None, ot_is_collection = True,
      ot_collection_type = Some ctype, ot_element_type = Some element_type,
      ot_element_type_name = None, ot_attributes = [], ot_oid = None\<rparr>"

definition full_name :: "db_object_type \<Rightarrow> string" where
  "full_name t =
     (case ot_package_name t of
        Some pkg \<Rightarrow> ot_schema t @ ''.'' @ pkg @ ''.'' @ ot_name t
      | None \<Rightarrow> ot_schema t @ ''.'' @ ot_name t)"

definition add_attribute :: "db_object_attr \<Rightarrow> db_object_type \<Rightarrow> db_object_type" where
  "add_attribute attr t = t\<lparr>ot_attributes := ot_attributes t @ [attr]\<rparr>"

definition attribute_of :: "db_object_type \<Rightarrow> string \<Rightarrow> db_object_attr option" where
  "attribute_of t name = List.find (\<lambda>a. eq_ignore_ascii_case (at_name a) name) (ot_attributes t)"

definition object_new :: "string \<Rightarrow> db_object" where
  "object_new type_name = DbObject type_name [] [] False"

definition object_collection :: "string \<Rightarrow> db_object" where
  "object_collection type_name = DbObject type_name [] [] True"

text \<open>\<open>HashMap::insert\<close>.\<close>

definition map_insert :: "'k \<Rightarrow> 'v \<Rightarrow> ('k \<times> 'v) list \<Rightarrow> ('k \<times> 'v) list" where
  "map_insert k v m = (k, v) # filter (\<lambda>e. fst e \<noteq> k) m"

definition object_set :: "string \<Rightarrow> value \<Rightarrow> db_object \<Rightarrow> db_object" where
  "object_set name v obj =
     DbObject (obj_type_name obj) (map_insert (ascii_upper_text name) v (obj_values obj))
       (obj_elements obj) (obj_is_collection obj)"

definition object_get :: "string \<Rightarrow> db_object \<Rightarrow> value option" where
  "object_get name obj = map_of (obj_values obj) (ascii_upper_text name)"

definition object_has :: "string \<Rightarrow> db_object \<Rightarrow> bool" where
  "object_has name obj \<longleftrightarrow> map_of (obj_values obj) (ascii_upper_text name) \<noteq> None"

definition object_append :: "value \<Rightarrow> db_object \<Rightarrow> db_object" where
  "object_append v obj =
     DbObject (obj_type_name obj) (obj_values obj) (obj_elements obj @ [v]) (obj_is_collection obj)"

definition object_len :: "db_object \<Rightarrow> nat" where
  "object_len obj = (if obj_is_collection obj then length (obj_elements obj) else length (obj_values obj))"

subsection \<open>Rows\<close>

record row =
  row_values :: "value list"
  row_names :: "string list option"

definition row_new :: "value list \<Rightarrow> row" where
  "row_new values = \<lparr>row_values = values, row_names = None\<rparr>"

definition row_with_names :: "value list \<Rightarrow> string list \<Rightarrow> row" where
  "row_with_names values names = \<lparr>row_values = values, row_names = Some names\<rparr>"

definition list_get :: "'a list \<Rightarrow> nat \<Rightarrow> 'a option" where
  "list_get xs i = (if i < length xs then Some (xs ! i) else None)"

definition row_get :: "row \<Rightarrow> nat \<Rightarrow> value option" where
  "row_get r i = list_get (row_values r) i"

fun position :: "('a \<Rightarrow> bool) \<Rightarrow> 'a list \<Rightarrow> nat option" where
  "position P [] = None"
| "position P (x # xs) = (if P x then Some 0 else map_option Suc (position P xs))"

definition get_by_name :: "row \<Rightarrow> string \<Rightarrow> value option" where
  "get_by_name r name =
     (case row_names r of None \<Rightarrow> None
      | Some names \<Rightarrow>
          (case position (\<lambda>n. eq_ignore_ascii_case n name) names of None \<Rightarrow> None
           | Some index \<Rightarrow> list_get (row_values r) index))"

definition get_string :: "row \<Rightarrow> nat \<Rightarrow> string option" where
  "get_string r i = Option.bind (row_get r i) as_str"

definition get_i64 :: "row \<Rightarrow> nat \<Rightarrow> int option" where
  "get_i64 r i = Option.bind (row_get r i) as_i64"

definition get_f64 :: "row \<Rightarrow> nat \<Rightarrow> u64 option" where
  "get_f64 r i = Option.bind (row_get r i) as_f64"

definition row_is_null :: "row \<Rightarrow> nat \<Rightarrow> bool" where
  "row_is_null r i = (case row_get r i of None \<Rightarrow> True | Some v \<Rightarrow> is_null v)"

definition row_index :: "row \<Rightarrow> nat \<Rightarrow> value result" where
  "row_index r i = index_at (row_values r) i"

end
