(* ===== verification/Pickle.thy ===== *)
theory Pickle
  imports Values Codec
begin

section \<open>The pickle format of collections\<close>

text \<open>
  \<open>src/src/types/pickle.rs\<close>: VARRAYs, nested tables and index-by tables in their packed form.
  Decoding is an action on the read buffer, encoding one on the write buffer.  Each element type
  is a codec in the sense of the locale \<open>codec\<close>, interpreted here on \<open>encode_value\<close> and
  \<open>decode_value\<close>.
\<close>

definition LONG_LENGTH_INDICATOR :: u8 where "LONG_LENGTH_INDICATOR = 254"
definition NULL_LENGTH_INDICATOR :: u8 where "NULL_LENGTH_INDICATOR = 255"
definition MAX_SHORT_LENGTH :: u8 where "MAX_SHORT_LENGTH = 245"
definition ATOMIC_NULL :: u8 where "ATOMIC_NULL = 253"
definition IS_VERSION_81 :: u8 where "IS_VERSION_81 = 0x80"
definition IS_DEGENERATE :: u8 where "IS_DEGENERATE = 0x10"
definition IS_COLLECTION :: u8 where "IS_COLLECTION = 0x08"
definition IMAGE_VERSION :: u8 where "IMAGE_VERSION = 1"

lemmas pickle_consts = LONG_LENGTH_INDICATOR_def NULL_LENGTH_INDICATOR_def MAX_SHORT_LENGTH_def
  ATOMIC_NULL_def IS_VERSION_81_def IS_DEGENERATE_def IS_COLLECTION_def IMAGE_VERSION_def

subsection \<open>Lengths and header\<close>

definition read_length :: "u32 reader" where
  "read_length = andThen read_u8 (\<lambda>short_len.
     if short_len = LONG_LENGTH_INDICATOR then read_u32_be else ok (ucast short_len))"

definition skip_length :: "unit reader" where
  "skip_length = andThen read_u8 (\<lambda>short_len.
     if short_len = LONG_LENGTH_INDICATOR then skip 4 else ok ())"

definition write_length :: "nat \<Rightarrow> unit writer" where
  "write_length len =
     (if len \<le> unat MAX_SHORT_LENGTH then write_u8 (of_nat len)
      else andSeq (write_u8 LONG_LENGTH_INDICATOR) (write_u32_be (of_nat len)))"

text \<open>A byte 1 behind the length is taken for a prefix segment of one byte.\<close>

definition skip_prefix_segment :: "unit reader" where
  "skip_prefix_segment = (\<lambda>s.
     if 0 < remaining s then
       andThen peek_u8 (\<lambda>next_byte.
         if next_byte = 1 \<and> 2 \<le> remaining s then andSeq (skip 1) (skip (unat next_byte)) else ok ()) s
     else (Inr (), s))"

definition read_header :: "(u8 \<times> u8) reader" where
  "read_header = andThen read_u8 (\<lambda>flags. andThen read_u8 (\<lambda>version.
     andSeq skip_length
       (if flags AND IS_DEGENERATE \<noteq> 0
        then fail (DataConversionError ''DbObject stored in LOB is not supported'')
        else andSeq skip_prefix_segment (ok (flags, version)))))"

subsection \<open>Values\<close>

definition number_to_value :: "oracle_number \<Rightarrow> value" where
  "number_to_value num =
     (if on_is_integer num
      then (case to_i64 num of Inr i \<Rightarrow> VInteger i | Inl _ \<Rightarrow> VNumber num)
      else VNumber num)"

definition decode_sized :: "oracle_type \<Rightarrow> nat \<Rightarrow> value reader" where
  "decode_sized t len =
     (case t of
        OraVarchar \<Rightarrow> andThen (read_bytes_vec len) (\<lambda>bytes. lift_res
          (case from_utf8 bytes of
             Inl e \<Rightarrow> Inl (Err (DataConversionError (''Invalid UTF-8: '' @ e)))
           | Inr s \<Rightarrow> Inr (VString s)))
      | OraChar \<Rightarrow> andThen (read_bytes_vec len) (\<lambda>bytes. lift_res
          (case from_utf8 bytes of
             Inl e \<Rightarrow> Inl (Err (DataConversionError (''Invalid UTF-8: '' @ e)))
           | Inr s \<Rightarrow> Inr (VString s)))
      | OraNumber \<Rightarrow> andThen (read_bytes_vec len) (\<lambda>bytes.
          fmap number_to_value (lift_res (decode_oracle_number bytes)))
      | OraBinaryInteger \<Rightarrow>
          if 4 \<le> len then
            andThen read_u32_be (\<lambda>v.
              andSeq (if 4 < len then skip (len - 4) else ok ()) (ok (VInteger (uint v))))
          else andSeq (skip len) (ok VNull)
      | OraRaw \<Rightarrow> fmap VBytes (read_bytes_vec len)
      | OraBinaryDouble \<Rightarrow>
          if len = 8 then fmap (\<lambda>bytes. VFloat (decode_binary_double bytes)) (read_bytes_vec 8)
          else andSeq (skip len) (ok VNull)
      | OraBinaryFloat \<Rightarrow>
          if len = 4 then fmap (\<lambda>bytes. VFloat (f64_of_f32 (decode_binary_float bytes))) (read_bytes_vec 4)
          else andSeq (skip len) (ok VNull)
      | OraBoolean \<Rightarrow>
          if 4 \<le> len then fmap (\<lambda>v. VBoolean (v \<noteq> 0)) read_u32_be
          else fmap (\<lambda>bytes. VBoolean (bytes \<noteq> [] \<and> last bytes \<noteq> 0)) (read_bytes_vec len)
      | OraDate \<Rightarrow> andThen (read_bytes_vec len) (\<lambda>bytes. fmap VDate (lift_res (decode_oracle_date bytes)))
      | OraTimestamp \<Rightarrow> andThen (read_bytes_vec len) (\<lambda>bytes.
          fmap VTimestamp (lift_res (decode_oracle_timestamp bytes)))
      | OraTimestampTz \<Rightarrow> andThen (read_bytes_vec len) (\<lambda>bytes.
          fmap VTimestamp (lift_res (decode_oracle_timestamp bytes)))
      | OraTimestampLtz \<Rightarrow> andThen (read_bytes_vec len) (\<lambda>bytes.
          fmap VTimestamp (lift_res (decode_oracle_timestamp bytes)))
      | OraIntervalYm \<Rightarrow> andThen (read_bytes_vec len) (\<lambda>bytes.
          fmap VIntervalYM (lift_res (decode_oracle_interval_ym bytes)))
      | OraIntervalDs \<Rightarrow> andThen (read_bytes_vec len) (\<lambda>bytes.
          fmap VIntervalDS (lift_res (decode_oracle_interval_ds bytes)))
      | _ \<Rightarrow> fmap VBytes (read_bytes_vec len))"

definition decode_value :: "oracle_type \<Rightarrow> value reader" where
  "decode_value t = andThen read_u8 (\<lambda>first_byte.
     if first_byte = ATOMIC_NULL \<or> first_byte = NULL_LENGTH_INDICATOR then ok VNull
     else andThen (if first_byte = LONG_LENGTH_INDICATOR then fmap unat read_u32_be else ok (unat first_byte))
       (\<lambda>len. if len = 0 then ok VNull else decode_sized t len))"

definition write_sized :: "u8 list \<Rightarrow> unit writer" where
  "write_sized bytes = andSeq (write_length (length bytes)) (write_bytes bytes)"

definition write_encoded :: "u8 list result \<Rightarrow> unit writer" where
  "write_encoded r = andThen (lift_res r) write_sized"

definition encode_value :: "(value \<Rightarrow> string) \<Rightarrow> oracle_type \<Rightarrow> value \<Rightarrow> unit writer" where
  "encode_value debug t v =
     (case v of
        VNull \<Rightarrow> write_u8 NULL_LENGTH_INDICATOR
      | VTypedNull _ \<Rightarrow> write_u8 NULL_LENGTH_INDICATOR
      | VString s \<Rightarrow> write_sized (bytes_of_text s)
      | VInteger n \<Rightarrow>
          (case t of
             OraBinaryInteger \<Rightarrow> andSeq (write_u8 4) (write_u32_be (word_of_int n))
           | _ \<Rightarrow> write_encoded (encode_oracle_number (show_int n)))
      | VFloat f \<Rightarrow>
          (case t of
             OraBinaryDouble \<Rightarrow> andSeq (write_u8 8) (write_bytes (encode_binary_double f))
           | OraBinaryFloat \<Rightarrow> andSeq (write_u8 4) (write_bytes (encode_binary_float (f32_of_f64 f)))
           | _ \<Rightarrow> write_encoded (encode_oracle_number (show_f64 f)))
      | VNumber n \<Rightarrow> write_encoded (encode_oracle_number (on_value n))
      | VBytes b \<Rightarrow> write_sized b
      | VBoolean b \<Rightarrow> andSeq (write_u8 4) (write_u32_be (if b then 1 else 0))
      | VDate d \<Rightarrow> write_encoded (date_to_oracle_bytes d)
      | VTimestamp ts \<Rightarrow> write_encoded (timestamp_to_oracle_bytes ts)
      | VIntervalYM i \<Rightarrow> write_encoded (encode_oracle_interval_ym i)
      | VIntervalDS i \<Rightarrow> write_encoded (encode_oracle_interval_ds i)
      | _ \<Rightarrow> fail (DataConversionError (''Type '' @ debug v @ '' not supported in collections'')))"

subsection \<open>Collections\<close>

definition skip_index :: "collection_type \<Rightarrow> unit reader" where
  "skip_index ct = (if ct = PlsqlIndexTable then fmap (\<lambda>_. ()) read_u32_be else ok ())"

definition collection_type_of :: "db_object_type \<Rightarrow> collection_type" where
  "collection_type_of t = (case ot_collection_type t of None \<Rightarrow> Varray | Some c \<Rightarrow> c)"

definition element_type_of :: "db_object_type \<Rightarrow> oracle_type" where
  "element_type_of t = (case ot_element_type t of None \<Rightarrow> OraVarchar | Some e \<Rightarrow> e)"

definition read_collection :: "db_object_type \<Rightarrow> value list reader" where
  "read_collection t = andSeq read_header (andSeq read_u8 (andThen read_length (\<lambda>num_elements.
     read_n (andSeq (skip_index (collection_type_of t)) (decode_value (element_type_of t)))
       (unat num_elements))))"

definition decode_collection :: "db_object_type \<Rightarrow> u8 list \<Rightarrow> db_object result" where
  "decode_collection t data =
     (if data = [] then Inr (object_collection (full_name t))
      else res_bind (fst (read_collection t (rbuf_new data))) (\<lambda>elements.
        Inr (DbObject (full_name t) [] elements True)))"

primrec collection_code :: "collection_type \<Rightarrow> u8" where
  "collection_code PlsqlIndexTable = 1"
| "collection_code NestedTable = 2"
| "collection_code Varray = 3"

fun write_elements :: "(value \<Rightarrow> string) \<Rightarrow> collection_type \<Rightarrow> oracle_type \<Rightarrow> nat \<Rightarrow> value list \<Rightarrow> unit writer" where
  "write_elements debug ct et idx [] = ok ()"
| "write_elements debug ct et idx (v # vs) =
     andSeq (if ct = PlsqlIndexTable then write_u32_be (of_nat idx) else ok ())
       (andSeq (encode_value debug et v) (write_elements debug ct et (idx + 1) vs))"

definition write_collection :: "(value \<Rightarrow> string) \<Rightarrow> db_object \<Rightarrow> db_object_type \<Rightarrow> unit writer" where
  "write_collection debug obj t =
     andSeq (write_u8 (IS_VERSION_81 OR IS_COLLECTION)) (andSeq (write_u8 IMAGE_VERSION)
     (andSeq (write_u8 LONG_LENGTH_INDICATOR) (andSeq (write_u32_be 0)
     (andSeq (write_u8 1) (andSeq (write_u8 1)
     (andSeq (write_u8 (collection_code (collection_type_of t)))
     (andSeq (write_length (length (obj_elements obj)))
       (write_elements debug (collection_type_of t) (element_type_of t) 0 (obj_elements obj)))))))))"

definition encode_collection :: "(value \<Rightarrow> string) \<Rightarrow> db_object \<Rightarrow> db_object_type \<Rightarrow> u8 list result" where
  "encode_collection debug obj t =
     (case write_collection debug obj t wbuf_new of
        (Inl e, _) \<Rightarrow> Inl e
      | (Inr _, w) \<Rightarrow> copy_at (2 + 1) (be_bytes 4 (of_nat (length (wb_data w)) :: u32)) (wb_data w))"

end
