(* ===== verification/Constants.thy ===== *)
theory Constants
  imports Prelude
begin

section \<open>Protocol constants\<close>

text \<open>
  The numeric constants of \<open>src/src/constants.rs\<close> that the handshake uses, one definition
  each, under the name of the source with its module as a prefix where the bare name is ambiguous.
\<close>

subsection \<open>Protocol versions (\<open>version\<close>)\<close>

definition VERSION_DESIRED :: u16 where "VERSION_DESIRED = 319"
definition VERSION_MINIMUM :: u16 where "VERSION_MINIMUM = 300"
definition VERSION_MIN_ACCEPTED :: u16 where "VERSION_MIN_ACCEPTED = 315"
definition VERSION_MIN_LARGE_SDU :: u16 where "VERSION_MIN_LARGE_SDU = 315"
definition VERSION_MIN_OOB_CHECK :: u16 where "VERSION_MIN_OOB_CHECK = 318"
definition VERSION_MIN_END_OF_RESPONSE :: u16 where "VERSION_MIN_END_OF_RESPONSE = 319"

lemmas version_defs = VERSION_DESIRED_def VERSION_MINIMUM_def VERSION_MIN_ACCEPTED_def
  VERSION_MIN_LARGE_SDU_def VERSION_MIN_OOB_CHECK_def VERSION_MIN_END_OF_RESPONSE_def

subsection \<open>Connection constants (\<open>connection\<close>)\<close>

definition DEFAULT_SDU :: u16 where "DEFAULT_SDU = 8192"
definition DEFAULT_TDU :: u16 where "DEFAULT_TDU = 65535"
definition PROTOCOL_CHARACTERISTICS :: u16 where "PROTOCOL_CHARACTERISTICS = 0x4f98"
definition CHECK_OOB :: u32 where "CHECK_OOB = 0x01"
definition MAX_CONNECT_DATA :: u16 where "MAX_CONNECT_DATA = 230"

lemmas connection_defs = DEFAULT_SDU_def DEFAULT_TDU_def PROTOCOL_CHARACTERISTICS_def
  CHECK_OOB_def MAX_CONNECT_DATA_def

subsection \<open>Service options (\<open>service_options\<close>)\<close>

definition DONT_CARE :: u16 where "DONT_CARE = 0x0001"
definition CAN_RECV_ATTENTION :: u16 where "CAN_RECV_ATTENTION = 0x0400"

lemmas service_options_defs = DONT_CARE_def CAN_RECV_ATTENTION_def

subsection \<open>NSI flags (\<open>nsi_flags\<close>)\<close>

definition NSI_DISABLE_NA :: u8 where "NSI_DISABLE_NA = 0x04"
definition NSI_NA_REQUIRED :: u8 where "NSI_NA_REQUIRED = 0x10"
definition NSI_SUPPORT_SECURITY_RENEG :: u8 where "NSI_SUPPORT_SECURITY_RENEG = 0x80"

lemmas nsi_flags_defs = NSI_DISABLE_NA_def NSI_NA_REQUIRED_def NSI_SUPPORT_SECURITY_RENEG_def

subsection \<open>Accept flags (\<open>accept_flags\<close>)\<close>

definition ACCEPT_CHECK_OOB :: u32 where "ACCEPT_CHECK_OOB = 0x00000001"
definition ACCEPT_FAST_AUTH :: u32 where "ACCEPT_FAST_AUTH = 0x10000000"
definition ACCEPT_HAS_END_OF_RESPONSE :: u32 where "ACCEPT_HAS_END_OF_RESPONSE = 0x02000000"

lemmas accept_flags_defs = ACCEPT_CHECK_OOB_def ACCEPT_FAST_AUTH_def
  ACCEPT_HAS_END_OF_RESPONSE_def

subsection \<open>Authentication modes (\<open>auth_mode\<close>)\<close>

definition AUTH_LOGON :: u32 where "AUTH_LOGON = 0x00000001"
definition AUTH_CHANGE_PASSWORD :: u32 where "AUTH_CHANGE_PASSWORD = 0x00000002"
definition AUTH_SYSDBA :: u32 where "AUTH_SYSDBA = 0x00000020"
definition AUTH_SYSOPER :: u32 where "AUTH_SYSOPER = 0x00000040"
definition AUTH_PRELIM :: u32 where "AUTH_PRELIM = 0x00000080"
definition AUTH_WITH_PASSWORD :: u32 where "AUTH_WITH_PASSWORD = 0x00000100"
definition AUTH_SYSASM :: u32 where "AUTH_SYSASM = 0x00400000"
definition AUTH_SYSBKP :: u32 where "AUTH_SYSBKP = 0x01000000"
definition AUTH_SYSDGD :: u32 where "AUTH_SYSDGD = 0x02000000"
definition AUTH_SYSKMT :: u32 where "AUTH_SYSKMT = 0x04000000"
definition AUTH_SYSRAC :: u32 where "AUTH_SYSRAC = 0x08000000"
definition AUTH_IAM_TOKEN :: u32 where "AUTH_IAM_TOKEN = 0x20000000"

lemmas auth_mode_defs = AUTH_LOGON_def AUTH_CHANGE_PASSWORD_def AUTH_SYSDBA_def AUTH_SYSOPER_def
  AUTH_PRELIM_def AUTH_WITH_PASSWORD_def AUTH_SYSASM_def AUTH_SYSBKP_def AUTH_SYSDGD_def
  AUTH_SYSKMT_def AUTH_SYSRAC_def AUTH_IAM_TOKEN_def

subsection \<open>Verifier types (\<open>verifier_type\<close>)\<close>

definition VERIFIER_V11G_1 :: u32 where "VERIFIER_V11G_1 = 0xb152"
definition VERIFIER_V11G_2 :: u32 where "VERIFIER_V11G_2 = 0x1b25"
definition VERIFIER_V12C :: u32 where "VERIFIER_V12C = 0x4815"

lemmas verifier_type_defs = VERIFIER_V11G_1_def VERIFIER_V11G_2_def VERIFIER_V12C_def

subsection \<open>Character sets (\<open>charset\<close>)\<close>

definition CHARSET_AL16UTF8 :: u16 where "CHARSET_AL16UTF8 = 208"
definition CHARSET_UTF8 :: u16 where "CHARSET_UTF8 = 873"
definition CHARSET_UTF16 :: u16 where "CHARSET_UTF16 = 2000"

lemmas charset_defs = CHARSET_AL16UTF8_def CHARSET_UTF8_def CHARSET_UTF16_def

subsection \<open>Compile-time capability indices (\<open>ccap_index\<close>)\<close>

definition CCAP_SQL_VERSION :: nat where "CCAP_SQL_VERSION = 0"
definition CCAP_LOGON_TYPES :: nat where "CCAP_LOGON_TYPES = 4"
definition CCAP_FEATURE_BACKPORT :: nat where "CCAP_FEATURE_BACKPORT = 5"
definition CCAP_FIELD_VERSION :: nat where "CCAP_FIELD_VERSION = 7"
definition CCAP_SERVER_DEFINE_CONV :: nat where "CCAP_SERVER_DEFINE_CONV = 8"
definition CCAP_DEQUEUE_WITH_SELECTOR :: nat where "CCAP_DEQUEUE_WITH_SELECTOR = 9"
definition CCAP_TTC1 :: nat where "CCAP_TTC1 = 15"
definition CCAP_OCI1 :: nat where "CCAP_OCI1 = 16"
definition CCAP_TDS_VERSION :: nat where "CCAP_TDS_VERSION = 17"
definition CCAP_RPC_VERSION :: nat where "CCAP_RPC_VERSION = 18"
definition CCAP_RPC_SIG :: nat where "CCAP_RPC_SIG = 19"
definition CCAP_DBF_VERSION :: nat where "CCAP_DBF_VERSION = 21"
definition CCAP_LOB :: nat where "CCAP_LOB = 23"
definition CCAP_TTC2 :: nat where "CCAP_TTC2 = 26"
definition CCAP_UB2_DTY :: nat where "CCAP_UB2_DTY = 27"
definition CCAP_OCI2 :: nat where "CCAP_OCI2 = 31"
definition CCAP_CLIENT_FN :: nat where "CCAP_CLIENT_FN = 34"
definition CCAP_OCI3 :: nat where "CCAP_OCI3 = 35"
definition CCAP_TTC3 :: nat where "CCAP_TTC3 = 37"
definition CCAP_SESS_SIGNATURE_VERSION :: nat where "CCAP_SESS_SIGNATURE_VERSION = 39"
definition CCAP_TTC4 :: nat where "CCAP_TTC4 = 40"
definition CCAP_LOB2 :: nat where "CCAP_LOB2 = 42"
definition CCAP_TTC5 :: nat where "CCAP_TTC5 = 44"
definition CCAP_FEATURE_BACKPORT2 :: nat where "CCAP_FEATURE_BACKPORT2 = 45"
definition CCAP_VECTOR_FEATURES :: nat where "CCAP_VECTOR_FEATURES = 52"
definition CCAP_MAX :: nat where "CCAP_MAX = 53"

lemmas ccap_index_defs = CCAP_SQL_VERSION_def CCAP_LOGON_TYPES_def CCAP_FEATURE_BACKPORT_def
  CCAP_FIELD_VERSION_def CCAP_SERVER_DEFINE_CONV_def CCAP_DEQUEUE_WITH_SELECTOR_def CCAP_TTC1_def
  CCAP_OCI1_def CCAP_TDS_VERSION_def CCAP_RPC_VERSION_def CCAP_RPC_SIG_def CCAP_DBF_VERSION_def
  CCAP_LOB_def CCAP_TTC2_def CCAP_UB2_DTY_def CCAP_OCI2_def CCAP_CLIENT_FN_def CCAP_OCI3_def
  CCAP_TTC3_def CCAP_SESS_SIGNATURE_VERSION_def CCAP_TTC4_def CCAP_LOB2_def CCAP_TTC5_def
  CCAP_FEATURE_BACKPORT2_def CCAP_VECTOR_FEATURES_def CCAP_MAX_def

subsection \<open>Compile-time capability values (\<open>ccap_value\<close>)\<close>

definition CCV_SQL_VERSION_MAX :: u8 where "CCV_SQL_VERSION_MAX = 6"
definition FIELD_VERSION_11_2 :: u8 where "FIELD_VERSION_11_2 = 6"
definition FIELD_VERSION_12_1 :: u8 where "FIELD_VERSION_12_1 = 7"
definition FIELD_VERSION_12_2 :: u8 where "FIELD_VERSION_12_2 = 8"
definition FIELD_VERSION_18_1 :: u8 where "FIELD_VERSION_18_1 = 10"
definition FIELD_VERSION_19_1 :: u8 where "FIELD_VERSION_19_1 = 12"
definition FIELD_VERSION_19_1_EXT_1 :: u8 where "FIELD_VERSION_19_1_EXT_1 = 13"
definition FIELD_VERSION_21_1 :: u8 where "FIELD_VERSION_21_1 = 16"
definition FIELD_VERSION_23_1 :: u8 where "FIELD_VERSION_23_1 = 17"
definition FIELD_VERSION_23_4 :: u8 where "FIELD_VERSION_23_4 = 24"
definition FIELD_VERSION_MAX :: u8 where "FIELD_VERSION_MAX = 24"
definition CCV_O5LOGON :: u8 where "CCV_O5LOGON = 8"
definition CCV_O5LOGON_NP :: u8 where "CCV_O5LOGON_NP = 2"
definition CCV_O7LOGON :: u8 where "CCV_O7LOGON = 32"
definition CCV_O8LOGON_LONG_IDENTIFIER :: u8 where "CCV_O8LOGON_LONG_IDENTIFIER = 64"
definition CCV_O9LOGON_LONG_PASSWORD :: u8 where "CCV_O9LOGON_LONG_PASSWORD = 0x80"
definition CCV_CTB_IMPLICIT_POOL :: u8 where "CCV_CTB_IMPLICIT_POOL = 0x08"
definition CCV_CTB_OAUTH_MSG_ON_ERR :: u8 where "CCV_CTB_OAUTH_MSG_ON_ERR = 0x10"
definition CCV_END_USER_SEC_CTX_PIGGYBACK :: u8 where "CCV_END_USER_SEC_CTX_PIGGYBACK = 0x02"
definition CCV_END_OF_CALL_STATUS :: u8 where "CCV_END_OF_CALL_STATUS = 0x01"
definition CCV_IND_RCD :: u8 where "CCV_IND_RCD = 0x08"
definition CCV_FAST_BVEC :: u8 where "CCV_FAST_BVEC = 0x20"
definition CCV_FAST_SESSION_PROPAGATE :: u8 where "CCV_FAST_SESSION_PROPAGATE = 0x10"
definition CCV_APP_CTX_PIGGYBACK :: u8 where "CCV_APP_CTX_PIGGYBACK = 0x80"
definition CCV_TDS_VERSION_MAX :: u8 where "CCV_TDS_VERSION_MAX = 3"
definition CCV_RPC_VERSION_MAX :: u8 where "CCV_RPC_VERSION_MAX = 7"
definition CCV_RPC_SIG_VALUE :: u8 where "CCV_RPC_SIG_VALUE = 3"
definition CCV_DBF_VERSION_MAX :: u8 where "CCV_DBF_VERSION_MAX = 1"
definition CCV_CLIENT_FN_MAX :: u8 where "CCV_CLIENT_FN_MAX = 12"
definition CCV_LOB_UB8_SIZE :: u8 where "CCV_LOB_UB8_SIZE = 0x01"
definition CCV_LOB_ENCS :: u8 where "CCV_LOB_ENCS = 0x02"
definition CCV_LOB_PREFETCH_DATA :: u8 where "CCV_LOB_PREFETCH_DATA = 0x04"
definition CCV_LOB_TEMP_SIZE :: u8 where "CCV_LOB_TEMP_SIZE = 0x08"
definition CCV_LOB_PREFETCH_LENGTH :: u8 where "CCV_LOB_PREFETCH_LENGTH = 0x40"
definition CCV_LOB_12C :: u8 where "CCV_LOB_12C = 0x80"
definition CCV_LOB2_QUASI :: u8 where "CCV_LOB2_QUASI = 0x01"
definition CCV_LOB2_2GB_PREFETCH :: u8 where "CCV_LOB2_2GB_PREFETCH = 0x04"
definition CCV_DRCP :: u8 where "CCV_DRCP = 0x10"
definition CCV_ZLNP :: u8 where "CCV_ZLNP = 0x04"
definition CCV_INBAND_NOTIFICATION :: u8 where "CCV_INBAND_NOTIFICATION = 0x04"
definition CCV_EXPLICIT_BOUNDARY :: u8 where "CCV_EXPLICIT_BOUNDARY = 0x40"
definition CCV_END_OF_REQUEST :: u8 where "CCV_END_OF_REQUEST = 0x20"
definition CCV_LTXID :: u8 where "CCV_LTXID = 0x08"
definition CCV_IMPLICIT_RESULTS :: u8 where "CCV_IMPLICIT_RESULTS = 0x10"
definition CCV_BIG_CHUNK_CLR :: u8 where "CCV_BIG_CHUNK_CLR = 0x20"
definition CCV_KEEP_OUT_ORDER :: u8 where "CCV_KEEP_OUT_ORDER = 0x80"
definition CCV_VECTOR_SUPPORT :: u8 where "CCV_VECTOR_SUPPORT = 0x08"
definition CCV_TOKEN_SUPPORTED :: u8 where "CCV_TOKEN_SUPPORTED = 0x02"
definition CCV_PIPELINING_SUPPORT :: u8 where "CCV_PIPELINING_SUPPORT = 0x04"
definition CCV_PIPELINING_BREAK :: u8 where "CCV_PIPELINING_BREAK = 0x10"
definition CCV_SESSIONLESS_TXNS :: u8 where "CCV_SESSIONLESS_TXNS = 0x20"
definition CCV_VECTOR_FEATURE_BINARY :: u8 where "CCV_VECTOR_FEATURE_BINARY = 0x01"
definition CCV_VECTOR_FEATURE_SPARSE :: u8 where "CCV_VECTOR_FEATURE_SPARSE = 0x02"
definition CCV_OCI3_OCSSYNC :: u8 where "CCV_OCI3_OCSSYNC = 0x20"

lemmas ccap_value_defs = CCV_SQL_VERSION_MAX_def FIELD_VERSION_11_2_def FIELD_VERSION_12_1_def
  FIELD_VERSION_12_2_def FIELD_VERSION_18_1_def FIELD_VERSION_19_1_def
  FIELD_VERSION_19_1_EXT_1_def FIELD_VERSION_21_1_def FIELD_VERSION_23_1_def
  FIELD_VERSION_23_4_def FIELD_VERSION_MAX_def CCV_O5LOGON_def CCV_O5LOGON_NP_def CCV_O7LOGON_def
  CCV_O8LOGON_LONG_IDENTIFIER_def CCV_O9LOGON_LONG_PASSWORD_def CCV_CTB_IMPLICIT_POOL_def
  CCV_CTB_OAUTH_MSG_ON_ERR_def CCV_END_USER_SEC_CTX_PIGGYBACK_def CCV_END_OF_CALL_STATUS_def CCV_IND_RCD_def
  CCV_FAST_BVEC_def CCV_FAST_SESSION_PROPAGATE_def CCV_APP_CTX_PIGGYBACK_def CCV_TDS_VERSION_MAX_def
  CCV_RPC_VERSION_MAX_def CCV_RPC_SIG_VALUE_def CCV_DBF_VERSION_MAX_def CCV_CLIENT_FN_MAX_def CCV_LOB_UB8_SIZE_def
  CCV_LOB_ENCS_def CCV_LOB_PREFETCH_DATA_def CCV_LOB_TEMP_SIZE_def CCV_LOB_PREFETCH_LENGTH_def CCV_LOB_12C_def
  CCV_LOB2_QUASI_def CCV_LOB2_2GB_PREFETCH_def CCV_DRCP_def CCV_ZLNP_def CCV_INBAND_NOTIFICATION_def
  CCV_EXPLICIT_BOUNDARY_def CCV_END_OF_REQUEST_def CCV_LTXID_def CCV_IMPLICIT_RESULTS_def CCV_BIG_CHUNK_CLR_def
  CCV_KEEP_OUT_ORDER_def CCV_VECTOR_SUPPORT_def CCV_TOKEN_SUPPORTED_def CCV_PIPELINING_SUPPORT_def
  CCV_PIPELINING_BREAK_def CCV_SESSIONLESS_TXNS_def CCV_VECTOR_FEATURE_BINARY_def CCV_VECTOR_FEATURE_SPARSE_def
  CCV_OCI3_OCSSYNC_def

subsection \<open>Runtime capability indices (\<open>rcap_index\<close>)\<close>

definition RCAP_COMPAT :: nat where "RCAP_COMPAT = 0"
definition RCAP_TTC :: nat where "RCAP_TTC = 6"
definition RCAP_MAX :: nat where "RCAP_MAX = 11"

lemmas rcap_index_defs = RCAP_COMPAT_def RCAP_TTC_def RCAP_MAX_def

subsection \<open>Runtime capability values (\<open>rcap_value\<close>)\<close>

definition COMPAT_81 :: u8 where "COMPAT_81 = 2"
definition TTC_ZERO_COPY :: u8 where "TTC_ZERO_COPY = 0x01"
definition TTC_32K :: u8 where "TTC_32K = 0x04"
definition TTC_SESSION_STATE_OPS :: u8 where "TTC_SESSION_STATE_OPS = 0x10"

lemmas rcap_value_defs = COMPAT_81_def TTC_ZERO_COPY_def TTC_32K_def TTC_SESSION_STATE_OPS_def

subsection \<open>Encoding flags (\<open>encoding\<close>)\<close>

definition ENCODING_MULTI_BYTE :: u8 where "ENCODING_MULTI_BYTE = 0x01"
definition ENCODING_CONV_LENGTH :: u8 where "ENCODING_CONV_LENGTH = 0x02"

lemmas encoding_defs = ENCODING_MULTI_BYTE_def ENCODING_CONV_LENGTH_def

end
