(* ===== verification/Columns.thy ===== *)
theory Columns
  imports Pickle Oson Constants
begin

section \<open>Column values on the wire\<close>

text \<open>
  The two decoders of column values: \<open>RowDataDecoder\<close> of \<open>src/src/row.rs\<close>, and the functions
  \<open>parse_describe_info\<close>, \<open>parse_column_value\<close>, \<open>parse_lob_value\<close>, \<open>parse_cursor_value\<close>,
  \<open>parse_object_value\<close> and \<open>parse_row_data_with_bitvector\<close> of \<open>src/src/connection.rs\<close>.
  \<open>ver\<close> is the negotiated TTC field version, \<open>ins\<close> and \<open>depth\<close> the JSON map and the stack of the
  OSON decoder.
\<close>

subsection \<open>RowDataDecoder\<close>

definition read_oracle_slice :: "u8 list option reader" where
  "read_oracle_slice = (\<lambda>s.
     if remaining s = 0 then (Inr None, s)
     else andThen read_u8 (\<lambda>length.
       if length = 0 \<or> length = NULL_INDICATOR then ok None
       else if length = LONG_INDICATOR then
         fmap (\<lambda>result. if result = [] then None else Some result) (read_chunks [])
       else fmap Some (read_bytes_vec (unat length))) s)"

definition with_slice :: "(u8 list \<Rightarrow> value result) \<Rightarrow> value reader" where
  "with_slice f = andThen read_oracle_slice (\<lambda>r.
     case r of None \<Rightarrow> ok VNull | Some data \<Rightarrow> lift_res (f data))"

definition string_value :: "u8 list \<Rightarrow> value result" where
  "string_value data =
     (case from_utf8 data of
        Inl e \<Rightarrow> Inl (Err (DataConversionError (''Invalid UTF-8 in string: '' @ e)))
      | Inr s \<Rightarrow> Inr (VString s))"

definition number_value :: "u8 list \<Rightarrow> value result" where
  "number_value data = res_bind (decode_oracle_number data) (\<lambda>num. Inr (number_to_value num))"

definition wrap :: "('a \<Rightarrow> value) \<Rightarrow> 'a result \<Rightarrow> value result" where
  "wrap c r = res_bind r (\<lambda>a. Inr (c a))"

definition decode_rowid_column :: "value reader" where
  "decode_rowid_column = andThen read_u8 (\<lambda>length.
     if length = 0 \<or> length = NULL_INDICATOR then ok VNull
     else andThen read_ub4 (\<lambda>rba. andThen read_ub2 (\<lambda>partition_id. andSeq (skip 1)
       (andThen read_ub4 (\<lambda>block_num. andThen read_ub2 (\<lambda>slot_num.
          ok (VRowId (rowid_new rba partition_id block_num slot_num))))))))"

definition urowid_value :: "u8 list \<Rightarrow> value result" where
  "urowid_value data =
     (if data = [] then Inr VNull
      else if data ! 0 = 1 \<and> 13 \<le> length data then wrap VRowId (decode_rowid data)
      else Inr (VString (from_utf8_lossy (drop 1 data))))"

definition boolean_value :: "u8 list \<Rightarrow> value result" where
  "boolean_value data = Inr (VBoolean ((if data = [] then 0 else last data) = 1))"

definition decode_column_value :: "column_info \<Rightarrow> value reader" where
  "decode_column_value col =
     (let t = ci_oracle_type col
      in if ci_buffer_size col = 0 \<and> \<not> (t = OraLong \<or> t = OraLongRaw \<or> t = OraUrowid) then ok VNull
         else case t of
           OraVarchar \<Rightarrow> with_slice string_value
         | OraChar \<Rightarrow> with_slice string_value
         | OraLong \<Rightarrow> with_slice string_value
         | OraNumber \<Rightarrow> with_slice number_value
         | OraBinaryInteger \<Rightarrow> with_slice number_value
         | OraDate \<Rightarrow> with_slice (\<lambda>data. wrap VDate (decode_oracle_date data))
         | OraTimestamp \<Rightarrow> with_slice (\<lambda>data. wrap VTimestamp (decode_oracle_timestamp data))
         | OraTimestampTz \<Rightarrow> with_slice (\<lambda>data. wrap VTimestamp (decode_oracle_timestamp_utc data))
         | OraTimestampLtz \<Rightarrow> with_slice (\<lambda>data. wrap VTimestamp (decode_oracle_timestamp_utc data))
         | OraRaw \<Rightarrow> with_slice (\<lambda>data. Inr (VBytes data))
         | OraLongRaw \<Rightarrow> with_slice (\<lambda>data. Inr (VBytes data))
         | OraBinaryFloat \<Rightarrow> with_slice (\<lambda>data. Inr (VFloat (f64_of_f32 (decode_binary_float data))))
         | OraBinaryDouble \<Rightarrow> with_slice (\<lambda>data. Inr (VFloat (decode_binary_double data)))
         | OraIntervalYm \<Rightarrow> with_slice (\<lambda>data. wrap VIntervalYM (decode_oracle_interval_ym data))
         | OraIntervalDs \<Rightarrow> with_slice (\<lambda>data. wrap VIntervalDS (decode_oracle_interval_ds data))
         | OraRowid \<Rightarrow> decode_rowid_column
         | OraUrowid \<Rightarrow> with_slice urowid_value
         | OraBoolean \<Rightarrow> with_slice boolean_value
         | _ \<Rightarrow> with_slice (\<lambda>data. Inr (VBytes data)))"

text \<open>The bit of column \<open>i\<close>: 0 marks a value repeated from the previous row.\<close>

definition duplicate_bit :: "u8 list option \<Rightarrow> nat \<Rightarrow> bool" where
  "duplicate_bit bit_vector i =
     (case bit_vector of
        None \<Rightarrow> False
      | Some bv \<Rightarrow> i div 8 < length bv \<and> bv ! (i div 8) AND push_bit (i mod 8) 1 = 0)"

fun decode_columns :: "(column_info \<Rightarrow> value reader) \<Rightarrow> (nat \<Rightarrow> bool) \<Rightarrow> (nat \<Rightarrow> value)
    \<Rightarrow> nat \<Rightarrow> column_info list \<Rightarrow> value list reader" where
  "decode_columns dec dup prev i [] = ok []"
| "decode_columns dec dup prev i (col # cols) =
     andThen (if dup i then ok (prev i) else dec col) (\<lambda>v.
     fmap (\<lambda>vs. v # vs) (decode_columns dec dup prev (i + 1) cols))"

definition decode_row :: "column_info list \<Rightarrow> u8 list option \<Rightarrow> row option \<Rightarrow> row reader" where
  "decode_row columns bit_vector previous_row =
     fmap (\<lambda>values. row_with_names values (map ci_name columns))
       (decode_columns decode_column_value (duplicate_bit bit_vector)
         (\<lambda>i. case Option.bind previous_row (\<lambda>r. row_get r i) of Some v \<Rightarrow> v | None \<Rightarrow> VNull)
         0 columns)"

text \<open>
  \<open>row::parse_row_header\<close>, which returns the bit vector; the repeated length byte is counted in
  its length.
\<close>

function (sequential) skip_row_chunks :: "rbuf \<Rightarrow> unit result \<times> rbuf" where
  "skip_row_chunks s =
     andThen read_ub4 (\<lambda>chunk_len s1.
       if chunk_len = 0 then ok () s1
       else andThen (skip (unat chunk_len)) (\<lambda>_ s2. skip_row_chunks s2) s1) s"
  by pat_completeness auto
termination
  by (relation "measure remaining")
    (auto dest!: read_ub4_progress skip_remaining)

declare skip_row_chunks.simps [simp del]

definition parse_row_header_bits :: "u8 list option reader" where
  "parse_row_header_bits =
     andSeq (skip 1) (andSeq skip_ub2 (andSeq skip_ub4 (andSeq skip_ub4 (andSeq skip_ub2
     (andThen read_ub4 (\<lambda>bit_vector_len.
      andThen (if 0 < bit_vector_len
               then andSeq (skip 1) (fmap Some (read_bytes_vec (unat bit_vector_len - 1)))
               else ok None) (\<lambda>bit_vector.
      andThen read_ub4 (\<lambda>rxhrid_len.
      andSeq (if 0 < rxhrid_len then skip_row_chunks else ok ()) (ok bit_vector)))))))))"

subsection \<open>Column metadata\<close>

lemmas field_versions = FIELD_VERSION_12_2_def FIELD_VERSION_21_1_def FIELD_VERSION_23_1_def
  FIELD_VERSION_23_4_def

definition skip_annotation :: "unit reader" where
  "skip_annotation =
     andSeq read_string_with_ub4_length (andSeq read_string_with_ub4_length skip_ub4)"

definition skip_annotations :: "unit reader" where
  "skip_annotations = andThen read_ub4 (\<lambda>num_annotations.
     if 0 < num_annotations then
       andSeq skip_ub1 (andThen read_ub4 (\<lambda>actual_num. andSeq skip_ub1
         (andSeq (read_n skip_annotation (unat actual_num)) skip_ub4)))
     else ok ())"

definition non_empty :: "string option \<Rightarrow> string option" where
  "non_empty s = (case s of None \<Rightarrow> None | Some t \<Rightarrow> if t = [] then None else Some t)"

definition parse_describe_column :: "u8 \<Rightarrow> column_info reader" where
  "parse_describe_column ver =
     andThen read_u8 (\<lambda>ora_type_num. andSeq skip_ub1
     (andThen read_u8 (\<lambda>precision. andThen read_u8 (\<lambda>scale.
     andThen read_ub4 (\<lambda>buffer_size.
     andSeq skip_ub4 (andSeq skip_ub8 (andSeq read_bytes_with_length
     (andSeq skip_ub2 (andSeq skip_ub2 (andThen read_u8 (\<lambda>csfrm. andThen read_ub4 (\<lambda>max_size.
     andSeq (if FIELD_VERSION_12_2 \<le> ver then skip_ub4 else ok ())
     (andSeq read_u8 (andSeq skip_ub1
     (andThen read_string_with_ub4_length (\<lambda>name.
     andThen read_string_with_ub4_length (\<lambda>schema.
     andThen read_string_with_ub4_length (\<lambda>type_name.
     andSeq skip_ub2 (andSeq skip_ub4
     (andSeq (if FIELD_VERSION_23_1 \<le> ver
              then andSeq read_string_with_ub4_length (fmap (\<lambda>_. ()) read_string_with_ub4_length)
              else ok ())
     (andSeq (if 20 \<le> ver then skip_annotations else ok ())
     (andSeq (if FIELD_VERSION_23_4 \<le> ver then andSeq skip_ub4 (andSeq skip_ub1 skip_ub1) else ok ())
       (ok ((column_info_new (case name of None \<Rightarrow> [] | Some n \<Rightarrow> n)
              (case oracle_type_try_from ora_type_num of Inr t \<Rightarrow> t | Inl _ \<Rightarrow> OraVarchar))
            \<lparr>ci_data_size := (if 0 < max_size then max_size else buffer_size),
             ci_buffer_size := buffer_size, ci_precision := ucast precision,
             ci_scale := ucast scale, ci_csfrm := csfrm,
             ci_type_schema := non_empty schema, ci_type_name := non_empty type_name\<rparr>))))))))))))))))))))))))"

definition parse_describe_info :: "u8 \<Rightarrow> column_info list reader" where
  "parse_describe_info ver = andSeq skip_ub4 (andThen read_ub4 (\<lambda>num_columns.
     if num_columns = 0 then ok []
     else andSeq skip_ub1 (andThen (read_n (parse_describe_column ver) (unat num_columns)) (\<lambda>columns.
       andThen read_ub4 (\<lambda>current_date_indicator.
       andSeq (if 0 < current_date_indicator then skip_raw_bytes_chunked else ok ())
       (andSeq skip_ub4 (andSeq skip_ub4 (andSeq skip_ub4 (andSeq skip_ub4
       (andThen read_ub4 (\<lambda>dcbqcky_indicator.
       andSeq (if 0 < dcbqcky_indicator then skip_raw_bytes_chunked else ok ())
         (ok columns))))))))))))"

subsection \<open>Column values of the connection\<close>

definition parse_cursor_value :: "u8 \<Rightarrow> value reader" where
  "parse_cursor_value ver = andSeq read_u8 (andThen (parse_describe_info ver) (\<lambda>cursor_columns.
     fmap (\<lambda>cursor_id. VCursor (ref_cursor_new cursor_id cursor_columns)) read_ub2))"

definition read_oid :: "unit reader" where
  "read_oid = andThen read_ub4 (\<lambda>len.
     if 0 < len then fmap (\<lambda>_. ()) (read_bytes_vec (unat len)) else ok ())"

text \<open>A collection that does not decode is returned as its bytes.\<close>

definition object_value :: "column_info \<Rightarrow> u8 list \<Rightarrow> value result" where
  "object_value col data =
     (let type_name = (case ci_type_name col of None \<Rightarrow> ''UNKNOWN'' | Some n \<Rightarrow> n)
      in if data ! 0 AND 0x08 \<noteq> 0 then
           let t = object_type_collection
                     (case ci_type_schema col of None \<Rightarrow> [] | Some n \<Rightarrow> n) type_name
                     (case ci_collection_type col of None \<Rightarrow> Varray | Some c \<Rightarrow> c)
                     (case ci_element_type col of None \<Rightarrow> OraVarchar | Some e \<Rightarrow> e)
           in case decode_collection t data of
                Inr collection \<Rightarrow> Inr (VCollection collection)
              | Inl Panic \<Rightarrow> Inl Panic
              | Inl (Err e) \<Rightarrow> Inr (VBytes data)
         else Inr (VCollection (object_set ''_raw_data'' (VBytes data) (object_new type_name))))"

definition or_null :: "(u8 list \<Rightarrow> value result) \<Rightarrow> u8 list option \<Rightarrow> value result" where
  "or_null f data = (case data of None \<Rightarrow> Inr VNull | Some bytes \<Rightarrow> if bytes = [] then Inr VNull else f bytes)"

definition parse_object_value :: "column_info \<Rightarrow> value reader" where
  "parse_object_value col = andSeq read_oid (andSeq read_oid
     (andThen read_ub4 (\<lambda>snapshot_len.
     andSeq (if 0 < snapshot_len then skip_raw_bytes_chunked else ok ())
     (andSeq read_ub2 (andThen read_ub4 (\<lambda>data_len. andSeq read_ub2
       (if data_len = 0 then ok VNull
        else andThen read_bytes_with_length (\<lambda>packed_data. lift_res (or_null (object_value col) packed_data)))))))))"

definition is_json_column :: "column_info \<Rightarrow> bool" where
  "is_json_column col \<longleftrightarrow> ci_oracle_type col = OraJson \<or> ci_is_json col"

definition json_value :: "json_insert \<Rightarrow> nat \<Rightarrow> u8 list option \<Rightarrow> value result" where
  "json_value ins depth data =
     (case data of
        None \<Rightarrow> Inr (VJson JNull)
      | Some bytes \<Rightarrow>
          if bytes = [] then Inr (VJson JNull)
          else case oson_decode ins depth bytes of
                 Inr j \<Rightarrow> Inr (VJson j)
               | Inl Panic \<Rightarrow> Inl Panic
               | Inl (Err e) \<Rightarrow> Inr (VJson JNull))"

definition vector_value :: "u8 list \<Rightarrow> value result" where
  "vector_value bytes =
     (case decode_vector bytes of
        Inr v \<Rightarrow> Inr (VVector v) | Inl Panic \<Rightarrow> Inl Panic | Inl (Err e) \<Rightarrow> Inr VNull)"

definition lob_locator_value :: "column_info \<Rightarrow> u64 \<Rightarrow> u32 \<Rightarrow> u8 list option \<Rightarrow> value" where
  "lob_locator_value col sz chunk_size data =
     (case data of
        None \<Rightarrow> VLob LobEmpty
      | Some bytes \<Rightarrow>
          if bytes = [] then VLob LobEmpty
          else VLob (LobLoc \<lparr>loc_bytes = bytes, loc_size = sz, loc_chunk_size = chunk_size,
                 loc_type = ci_oracle_type col, loc_csfrm = ci_csfrm col\<rparr>))"

definition parse_lob_value :: "json_insert \<Rightarrow> nat \<Rightarrow> column_info \<Rightarrow> value reader" where
  "parse_lob_value ins depth col = andThen read_ub4 (\<lambda>num_bytes.
     if num_bytes = 0 then
       ok (if is_json_column col then VJson JNull
           else if ci_oracle_type col = OraVector then VNull else VLob LobNull)
     else
       andThen (if ci_oracle_type col = OraBfile then ok (0, 0)
                else andThen read_ub8 (\<lambda>sz. fmap (\<lambda>chunk_size. (sz, chunk_size)) read_ub4))
       (\<lambda>(sz, chunk_size).
       andThen read_bytes_with_length (\<lambda>data_bytes.
         if is_json_column col then
           andSeq read_bytes_with_length (lift_res (json_value ins depth data_bytes))
         else if ci_oracle_type col = OraVector then
           andSeq read_bytes_with_length (lift_res (or_null vector_value data_bytes))
         else ok (lob_locator_value col sz chunk_size data_bytes))))"

definition plain_value :: "oracle_type \<Rightarrow> u8 list \<Rightarrow> value result" where
  "plain_value t bytes =
     (case t of
        OraNumber \<Rightarrow> number_value bytes
      | OraBinaryInteger \<Rightarrow> number_value bytes
      | OraBinaryFloat \<Rightarrow> Inr (VFloat (f64_of_f32 (decode_binary_float bytes)))
      | OraBinaryDouble \<Rightarrow> Inr (VFloat (decode_binary_double bytes))
      | OraVarchar \<Rightarrow> Inr (VString (from_utf8_lossy bytes))
      | OraChar \<Rightarrow> Inr (VString (from_utf8_lossy bytes))
      | OraLong \<Rightarrow> Inr (VString (from_utf8_lossy bytes))
      | OraRaw \<Rightarrow> Inr (VBytes bytes)
      | OraLongRaw \<Rightarrow> Inr (VBytes bytes)
      | OraDate \<Rightarrow> wrap VDate (decode_oracle_date bytes)
      | OraTimestamp \<Rightarrow> wrap VTimestamp (decode_oracle_timestamp bytes)
      | OraTimestampTz \<Rightarrow> wrap VTimestamp (decode_oracle_timestamp_utc bytes)
      | OraTimestampLtz \<Rightarrow> wrap VTimestamp (decode_oracle_timestamp_utc bytes)
      | OraIntervalYm \<Rightarrow> wrap VIntervalYM (decode_oracle_interval_ym bytes)
      | OraIntervalDs \<Rightarrow> wrap VIntervalDS (decode_oracle_interval_ds bytes)
      | _ \<Rightarrow> Inr (VString (from_utf8_lossy bytes)))"

definition parse_column_value :: "json_insert \<Rightarrow> nat \<Rightarrow> u8 \<Rightarrow> column_info \<Rightarrow> value reader" where
  "parse_column_value ins depth ver col =
     (if is_lob (ci_oracle_type col) then parse_lob_value ins depth col
      else if ci_oracle_type col = OraCursor then parse_cursor_value ver
      else if ci_oracle_type col = OraObject then parse_object_value col
      else andThen read_bytes_with_length (\<lambda>data.
        lift_res (or_null (plain_value (ci_oracle_type col)) data)))"

subsection \<open>Rows of the connection\<close>

definition previous_value :: "value list option \<Rightarrow> nat \<Rightarrow> value" where
  "previous_value previous_values i =
     (case previous_values of
        None \<Rightarrow> VNull
      | Some prev \<Rightarrow> if i < length prev then prev ! i else VNull)"

definition parse_row_data_with_bitvector ::
  "json_insert \<Rightarrow> nat \<Rightarrow> u8 \<Rightarrow> column_info list \<Rightarrow> u8 list option \<Rightarrow> value list option \<Rightarrow> row reader" where
  "parse_row_data_with_bitvector ins depth ver columns bit_vector previous_values =
     fmap row_new
       (decode_columns (parse_column_value ins depth ver) (duplicate_bit bit_vector)
         (previous_value previous_values) 0 columns)"

definition parse_out_bind_row_data :: "json_insert \<Rightarrow> nat \<Rightarrow> u8 \<Rightarrow> column_info list \<Rightarrow> row reader" where
  "parse_out_bind_row_data ins depth ver columns =
     fmap row_new (decode_columns
       (\<lambda>col. andThen (parse_column_value ins depth ver col) (\<lambda>v. andSeq skip_ub4 (ok v)))
       (\<lambda>_. False) (\<lambda>_. VNull) 0 columns)"

end
