(* ===== verification/Binds.thy ===== *)
theory Binds
  imports Pickle
begin

section \<open>Bind parameters\<close>

text \<open>
  \<open>BindParam\<close> of \<open>src/src/statement.rs\<close>.  A collection parameter carries its type in entries of
  the placeholder object, from which the connection builds the column of the OUT value.
\<close>

record bind_param =
  bp_value :: "value option"
  bp_direction :: bind_direction
  bp_oracle_type :: oracle_type
  bp_buffer_size :: u32

definition infer_oracle_type :: "value \<Rightarrow> oracle_type" where
  "infer_oracle_type v =
     (case v of
        VNull \<Rightarrow> OraVarchar
      | VTypedNull t \<Rightarrow> t
      | VString _ \<Rightarrow> OraVarchar
      | VInteger _ \<Rightarrow> OraNumber
      | VFloat _ \<Rightarrow> OraBinaryDouble
      | VNumber _ \<Rightarrow> OraNumber
      | VBytes _ \<Rightarrow> OraRaw
      | VBoolean _ \<Rightarrow> OraBoolean
      | VDate _ \<Rightarrow> OraDate
      | VTimestamp _ \<Rightarrow> OraTimestamp
      | VIntervalYM _ \<Rightarrow> OraIntervalYm
      | VIntervalDS _ \<Rightarrow> OraIntervalDs
      | VRowId _ \<Rightarrow> OraRowid
      | VLob _ \<Rightarrow> OraClob
      | VJson _ \<Rightarrow> OraJson
      | VVector _ \<Rightarrow> OraVector
      | VCursor _ \<Rightarrow> OraCursor
      | VCollection _ \<Rightarrow> OraObject)"

definition bind_input :: "value \<Rightarrow> bind_param" where
  "bind_input v = \<lparr>bp_value = Some v, bp_direction = BindInput, bp_oracle_type = infer_oracle_type v,
     bp_buffer_size = 0\<rparr>"

definition bind_output :: "oracle_type \<Rightarrow> u32 \<Rightarrow> bind_param" where
  "bind_output oracle_type buffer_size = \<lparr>bp_value = None, bp_direction = BindOutput,
     bp_oracle_type = oracle_type, bp_buffer_size = buffer_size\<rparr>"

definition bind_output_cursor :: bind_param where
  "bind_output_cursor = \<lparr>bp_value = Some (VCursor (ref_cursor_new 0 [])), bp_direction = BindOutput,
     bp_oracle_type = OraCursor, bp_buffer_size = 0\<rparr>"

definition bind_input_output :: "value \<Rightarrow> u32 \<Rightarrow> bind_param" where
  "bind_input_output v buffer_size = \<lparr>bp_value = Some v, bp_direction = BindInputOutput,
     bp_oracle_type = infer_oracle_type v, bp_buffer_size = buffer_size\<rparr>"

text \<open>The type's schema, name, element type, kind and OID, as entries of the object.\<close>

definition set_type_entries :: "db_object_type \<Rightarrow> db_object \<Rightarrow> db_object" where
  "set_type_entries t obj =
     (let obj1 = object_set ''_type_schema'' (VString (ot_schema t)) obj;
          obj2 = object_set ''_type_name'' (VString (ot_name t)) obj1;
          obj3 = (case ot_element_type t of None \<Rightarrow> obj2
                  | Some e \<Rightarrow> object_set ''_element_type'' (VInteger (uint (oracle_type_byte e))) obj2);
          obj4 = (case ot_collection_type t of None \<Rightarrow> obj3
                  | Some c \<Rightarrow> object_set ''_collection_type'' (VInteger (uint (collection_code c))) obj3)
      in case ot_oid t of None \<Rightarrow> obj4 | Some oid \<Rightarrow> object_set ''_type_oid'' (VBytes oid) obj4)"

definition bind_output_collection :: "db_object_type \<Rightarrow> bind_param" where
  "bind_output_collection t =
     \<lparr>bp_value = Some (VCollection (set_type_entries t (object_collection (full_name t)))),
      bp_direction = BindOutput, bp_oracle_type = OraObject, bp_buffer_size = 0\<rparr>"

definition bind_input_collection :: "db_object_type \<Rightarrow> db_object \<Rightarrow> bind_param" where
  "bind_input_collection t c =
     \<lparr>bp_value = Some (VCollection (set_type_entries t (DbObject (full_name t) [] (obj_elements c) True))),
      bp_direction = BindInput, bp_oracle_type = OraObject, bp_buffer_size = 0\<rparr>"

definition placeholder_value :: "bind_param \<Rightarrow> value" where
  "placeholder_value p =
     (case bp_value p of
        Some v \<Rightarrow> v
      | None \<Rightarrow>
         (case bp_oracle_type p of
            OraVarchar \<Rightarrow> VString []
          | OraChar \<Rightarrow> VString []
          | OraLong \<Rightarrow> VString []
          | OraNumber \<Rightarrow> VInteger 0
          | OraBinaryInteger \<Rightarrow> VInteger 0
          | OraBinaryDouble \<Rightarrow> VFloat 0
          | OraBinaryFloat \<Rightarrow> VFloat 0
          | OraRaw \<Rightarrow> VBytes []
          | OraLongRaw \<Rightarrow> VBytes []
          | OraCursor \<Rightarrow> VCursor (ref_cursor_new 0 [])
          | OraBoolean \<Rightarrow> VBoolean False
          | t \<Rightarrow> VTypedNull t))"

subsection \<open>The columns of OUT values\<close>

definition collection_from_code :: "u8 \<Rightarrow> collection_type option" where
  "collection_from_code b =
     (if b = 1 then Some PlsqlIndexTable else if b = 2 then Some NestedTable
      else if b = 3 then Some Varray else None)"

definition text_entry :: "string \<Rightarrow> db_object \<Rightarrow> string option" where
  "text_entry name obj = Option.bind (object_get name obj) as_str"

definition out_column :: "nat \<Rightarrow> bind_param \<Rightarrow> column_info" where
  "out_column i p =
     (let col = (column_info_new (''OUT_'' @ show_nat i) (bp_oracle_type p))
                  \<lparr>ci_buffer_size := bp_buffer_size p, ci_data_size := bp_buffer_size p, ci_nullable := True\<rparr>
      in case bp_value p of
           Some (VCollection obj) \<Rightarrow>
             (let col1 = col\<lparr>ci_type_schema := text_entry ''_type_schema'' obj,
                             ci_type_name := text_entry ''_type_name'' obj\<rparr>;
                  col2 = (case object_get ''_element_type'' obj of
                            Some (VInteger code) \<Rightarrow>
                              col1\<lparr>ci_element_type := ok_option (oracle_type_try_from (word_of_int code))\<rparr>
                          | _ \<Rightarrow> col1)
              in case object_get ''_collection_type'' obj of
                   Some (VInteger code) \<Rightarrow> col2\<lparr>ci_collection_type := collection_from_code (word_of_int code)\<rparr>
                 | _ \<Rightarrow> col2)
         | _ \<Rightarrow> col)"

lemma object_get_set:
  "object_get n (object_set m v obj) =
     (if ascii_upper_text n = ascii_upper_text m then Some v else object_get n obj)"
proof -
  have "map_of (filter (\<lambda>e. fst e \<noteq> k) xs) k' = (if k' = k then None else map_of xs k')"
    for k k' :: string and xs :: "(string \<times> value) list"
    by (induction xs) auto
  then show ?thesis by (simp add: object_get_def object_set_def map_insert_def)
qed

lemma collection_from_code_code [simp]: "collection_from_code (collection_code c) = Some c"
  by (cases c) (simp_all add: collection_from_code_def)

lemma placeholder_entries:
  defines "obj t \<equiv> set_type_entries t (object_collection (full_name t))"
  shows "object_get ''_type_schema'' (obj t) = Some (VString (ot_schema t))"
    "object_get ''_type_name'' (obj t) = Some (VString (ot_name t))"
    "object_get ''_element_type'' (obj t) = map_option (\<lambda>e. VInteger (uint (oracle_type_byte e))) (ot_element_type t)"
    "object_get ''_collection_type'' (obj t) = map_option (\<lambda>c. VInteger (uint (collection_code c))) (ot_collection_type t)"
proof -
  have n: "ascii_upper_text ''_type_schema'' = ''_TYPE_SCHEMA''" "ascii_upper_text ''_type_name'' = ''_TYPE_NAME''"
    "ascii_upper_text ''_element_type'' = ''_ELEMENT_TYPE''" "ascii_upper_text ''_type_oid'' = ''_TYPE_OID''"
    "ascii_upper_text ''_collection_type'' = ''_COLLECTION_TYPE''"
    by code_simp+
  have e: "object_get name (object_collection tn) = None" for name tn
    by (simp add: object_get_def object_collection_def)
  show "object_get ''_type_schema'' (obj t) = Some (VString (ot_schema t))"
    "object_get ''_type_name'' (obj t) = Some (VString (ot_name t))"
    "object_get ''_element_type'' (obj t) = map_option (\<lambda>e. VInteger (uint (oracle_type_byte e))) (ot_element_type t)"
    "object_get ''_collection_type'' (obj t) = map_option (\<lambda>c. VInteger (uint (collection_code c))) (ot_collection_type t)"
    by (auto simp: obj_def set_type_entries_def Let_def object_get_set n e split: option.splits)
qed

text \<open>
  An OUT collection keeps its type: the column that the connection builds from the bind
  parameter has the schema, name, element type and kind of the type it was made for.
\<close>

theorem out_collection_column:
  "ci_type_schema (out_column i (bind_output_collection t)) = Some (ot_schema t)
   \<and> ci_type_name (out_column i (bind_output_collection t)) = Some (ot_name t)
   \<and> ci_element_type (out_column i (bind_output_collection t)) = ot_element_type t
   \<and> ci_collection_type (out_column i (bind_output_collection t)) = ot_collection_type t
   \<and> ci_oracle_type (out_column i (bind_output_collection t)) = OraObject"
  by (auto simp: out_column_def bind_output_collection_def Let_def text_entry_def as_str_def
      placeholder_entries column_info_new_def ok_option_def split: option.splits)

end
