(* ===== verification/Results.thy ===== *)
theory Results
  imports Values
begin

section \<open>Results of statements\<close>

text \<open>
  What the connection hands to its callers: \<open>QueryResult\<close>, \<open>PlsqlResult\<close> and \<open>SessionState\<close> of
  \<open>src/src/connection.rs\<close>, the implicit results of \<open>src/src/implicit.rs\<close>, the batches of
  \<open>src/src/batch.rs\<close> and the scrollable cursors of \<open>src/src/cursor.rs\<close>.
\<close>

subsection \<open>Queries\<close>

record query_result =
  qr_columns :: "column_info list"
  qr_rows :: "row list"
  qr_rows_affected :: u64
  qr_has_more_rows :: bool
  qr_cursor_id :: u16

definition query_result_empty :: query_result where
  "query_result_empty =
     \<lparr>qr_columns = [], qr_rows = [], qr_rows_affected = 0, qr_has_more_rows = False, qr_cursor_id = 0\<rparr>"

definition column_by_name :: "query_result \<Rightarrow> string \<Rightarrow> column_info option" where
  "column_by_name r name = List.find (\<lambda>c. eq_ignore_ascii_case (ci_name c) name) (qr_columns r)"

definition column_index :: "query_result \<Rightarrow> string \<Rightarrow> nat option" where
  "column_index r name = position (\<lambda>c. eq_ignore_ascii_case (ci_name c) name) (qr_columns r)"

definition first_row :: "query_result \<Rightarrow> row option" where
  "first_row r = list_get (qr_rows r) 0"

subsection \<open>Implicit results\<close>

record implicit_result =
  ir_cursor_id :: u16
  ir_columns :: "column_info list"
  ir_rows :: "row list"
  ir_has_more_rows :: bool

definition implicit_result_new :: "u16 \<Rightarrow> column_info list \<Rightarrow> row list \<Rightarrow> implicit_result" where
  "implicit_result_new cursor_id columns rows =
     \<lparr>ir_cursor_id = cursor_id, ir_columns = columns, ir_rows = rows, ir_has_more_rows = False\<rparr>"

definition implicit_column :: "implicit_result \<Rightarrow> string \<Rightarrow> column_info option" where
  "implicit_column r name = List.find (\<lambda>c. eq_ignore_ascii_case (ci_name c) name) (ir_columns r)"

type_synonym implicit_results = "implicit_result list"

definition implicit_add :: "implicit_result \<Rightarrow> implicit_results \<Rightarrow> implicit_results" where
  "implicit_add r rs = rs @ [r]"

definition implicit_get :: "implicit_results \<Rightarrow> nat \<Rightarrow> implicit_result option" where
  "implicit_get rs i = list_get rs i"

subsection \<open>PL/SQL\<close>

record plsql_result =
  pr_out_values :: "value list"
  pr_rows_affected :: u64
  pr_cursor_id :: "u16 option"
  pr_implicit_results :: implicit_results

definition plsql_result_empty :: plsql_result where
  "plsql_result_empty =
     \<lparr>pr_out_values = [], pr_rows_affected = 0, pr_cursor_id = None, pr_implicit_results = []\<rparr>"

definition plsql_get :: "plsql_result \<Rightarrow> nat \<Rightarrow> value option" where
  "plsql_get r i = list_get (pr_out_values r) i"

definition plsql_get_string :: "plsql_result \<Rightarrow> nat \<Rightarrow> string option" where
  "plsql_get_string r i = Option.bind (plsql_get r i) as_str"

definition plsql_get_integer :: "plsql_result \<Rightarrow> nat \<Rightarrow> int option" where
  "plsql_get_integer r i = Option.bind (plsql_get r i) as_i64"

definition plsql_get_float :: "plsql_result \<Rightarrow> nat \<Rightarrow> u64 option" where
  "plsql_get_float r i = Option.bind (plsql_get r i) as_f64"

definition plsql_get_cursor_id :: "plsql_result \<Rightarrow> nat \<Rightarrow> u16 option" where
  "plsql_get_cursor_id r i = Option.bind (plsql_get r i) as_cursor_id"

subsection \<open>Session state\<close>

record session_state =
  ss_flags :: "u32 option"
  ss_session_id :: "u32 option"
  ss_serial_number :: "u16 option"
  ss_ltxid :: "u8 list option"
  ss_key_values :: "(string \<times> u8 list) list"

definition session_state_default :: session_state where
  "session_state_default =
     \<lparr>ss_flags = None, ss_session_id = None, ss_serial_number = None, ss_ltxid = None, ss_key_values = []\<rparr>"

definition record_session_key_value :: "string \<Rightarrow> u8 list \<Rightarrow> session_state \<Rightarrow> session_state" where
  "record_session_key_value key v s = s\<lparr>ss_key_values := map_insert key v (ss_key_values s)\<rparr>"

definition record_ltxid :: "u8 list \<Rightarrow> session_state \<Rightarrow> session_state" where
  "record_ltxid ltxid s = s\<lparr>ss_ltxid := Some ltxid\<rparr>"

definition record_session_identity :: "u32 \<Rightarrow> u32 \<Rightarrow> u16 \<Rightarrow> session_state \<Rightarrow> session_state" where
  "record_session_identity flags session_id serial_number s =
     s\<lparr>ss_flags := Some flags, ss_session_id := Some session_id, ss_serial_number := Some serial_number\<rparr>"

subsection \<open>Batches\<close>

record batch_options =
  bo_batch_errors :: bool
  bo_array_dml_row_counts :: bool
  bo_auto_commit :: bool

definition batch_options_new :: batch_options where
  "batch_options_new = \<lparr>bo_batch_errors = False, bo_array_dml_row_counts = False, bo_auto_commit = False\<rparr>"

record batch_binds =
  bb_sql :: string
  bb_statement :: statement
  bb_rows :: "value list list"
  bb_num_columns :: nat
  bb_options :: batch_options

definition batch_binds_new :: "string \<Rightarrow> batch_binds" where
  "batch_binds_new sql = \<lparr>bb_sql = sql, bb_statement = statement_new sql, bb_rows = [], bb_num_columns = 0,
     bb_options = batch_options_new\<rparr>"

definition batch_add_row :: "value list \<Rightarrow> batch_binds \<Rightarrow> batch_binds" where
  "batch_add_row values b =
     (let b1 = (if bb_rows b = [] then b\<lparr>bb_num_columns := length values\<rparr> else b)
      in b1\<lparr>bb_rows := bb_rows b1 @ [values]\<rparr>)"

definition batch_add_rows :: "value list list \<Rightarrow> batch_binds \<Rightarrow> batch_binds" where
  "batch_add_rows rows b = fold batch_add_row rows b"

definition batch_with_options :: "batch_options \<Rightarrow> batch_binds \<Rightarrow> batch_binds" where
  "batch_with_options options b = b\<lparr>bb_options := options\<rparr>"

fun check_rows :: "nat \<Rightarrow> nat \<Rightarrow> value list list \<Rightarrow> unit result" where
  "check_rows n i [] = Inr ()"
| "check_rows n i (row # rows) =
     (if length row \<noteq> n
      then Inl (Err (Internal (''Row '' @ show_nat i @ '' has '' @ show_nat (length row)
             @ '' columns, expected '' @ show_nat n)))
      else check_rows n (i + 1) rows)"

definition batch_validate :: "batch_binds \<Rightarrow> unit result" where
  "batch_validate b =
     (if bb_rows b = [] then Inl (Err (Internal ''Batch has no rows''))
      else check_rows (bb_num_columns b) 0 (bb_rows b))"

record batch_error =
  be_row_index :: nat
  be_code :: u32
  be_message :: string

definition batch_error_new :: "nat \<Rightarrow> u32 \<Rightarrow> string \<Rightarrow> batch_error" where
  "batch_error_new idx code message = \<lparr>be_row_index = idx, be_code = code, be_message = message\<rparr>"

definition batch_error_text :: "batch_error \<Rightarrow> string" where
  "batch_error_text e =
     ''Row '' @ show_nat (be_row_index e) @ '': ORA-'' @ padded 5 (unat (be_code e)) @ '': '' @ be_message e"

record batch_result =
  br_row_counts :: "u64 list option"
  br_total_rows_affected :: u64
  br_errors :: "batch_error list"
  br_success_count :: nat
  br_failure_count :: nat

definition batch_result_new :: batch_result where
  "batch_result_new =
     \<lparr>br_row_counts = None, br_total_rows_affected = 0, br_errors = [], br_success_count = 0, br_failure_count = 0\<rparr>"

text \<open>\<open>Iterator::sum\<close> of \<open>u64\<close>: an overflow panics.\<close>

fun sum_chk :: "u64 list \<Rightarrow> u64 \<Rightarrow> u64 result" where
  "sum_chk [] acc = Inr acc"
| "sum_chk (c # cs) acc = res_bind (add_chk acc c) (sum_chk cs)"

definition batch_result_with_row_counts :: "u64 list \<Rightarrow> batch_result result" where
  "batch_result_with_row_counts counts = res_bind (sum_chk counts 0) (\<lambda>total_rows.
     Inr \<lparr>br_row_counts = Some counts, br_total_rows_affected = total_rows, br_errors = [],
          br_success_count = length counts, br_failure_count = 0\<rparr>)"

definition batch_is_success :: "batch_result \<Rightarrow> bool" where
  "batch_is_success r \<longleftrightarrow> br_errors r = []"

text \<open>What \<open>validate\<close> accepts: rows there are, and all of one width.\<close>

lemma check_rows_ok: "check_rows n i rows = Inr () \<longleftrightarrow> (\<forall>r\<in>set rows. length r = n)"
  by (induction rows arbitrary: i) auto

lemma batch_validate_ok:
  "batch_validate b = Inr () \<longleftrightarrow> bb_rows b \<noteq> [] \<and> (\<forall>r\<in>set (bb_rows b). length r = bb_num_columns b)"
  by (simp add: batch_validate_def check_rows_ok)

subsection \<open>Scrollable cursors\<close>

record scrollable_cursor =
  sc_cursor_id :: u16
  sc_columns :: "column_info list"
  sc_is_open :: bool
  sc_position :: int
  sc_row_count :: "u64 option"

definition scrollable_cursor_new :: "u16 \<Rightarrow> column_info list \<Rightarrow> scrollable_cursor" where
  "scrollable_cursor_new cursor_id columns =
     \<lparr>sc_cursor_id = cursor_id, sc_columns = columns, sc_is_open = True, sc_position = 0, sc_row_count = None\<rparr>"

definition scrollable_mark_closed :: "scrollable_cursor \<Rightarrow> scrollable_cursor" where
  "scrollable_mark_closed c = c\<lparr>sc_is_open := False\<rparr>"

definition scrollable_update_position :: "int \<Rightarrow> scrollable_cursor \<Rightarrow> scrollable_cursor" where
  "scrollable_update_position p c = c\<lparr>sc_position := p\<rparr>"

datatype scroll_mode = ScrollFirst | ScrollLast | ScrollRelative | ScrollAbsolute

primrec scroll_orientation :: "scroll_mode \<Rightarrow> fetch_orientation" where
  "scroll_orientation ScrollFirst = FetchFirst"
| "scroll_orientation ScrollLast = FetchLast"
| "scroll_orientation ScrollRelative = FetchRelative"
| "scroll_orientation ScrollAbsolute = FetchAbsolute"

end
