(* ===== verification/Response.thy ===== *)
theory Response
  imports Columns Binds Results
begin

section \<open>Parsing the server's responses\<close>

text \<open>
  The response parsers of \<open>src/src/connection.rs\<close>.  A response is a sequence of messages, each a
  type byte and a body; a parser loops over them until one ends the response or the bytes run
  out.  The parsers run on the read buffer and the session state that piggybacked messages
  update.  The loop is \<open>partial_function (option)\<close>, \<open>None\<close> for not returning; \<open>ResponseLaws\<close> shows
  that it always returns.
\<close>

type_synonym 'a parser = "(rbuf \<times> session_state, error, 'a) action"

definition rd :: "'a reader \<Rightarrow> 'a parser" where
  "rd m = (\<lambda>(b, ss). case m b of (r, b') \<Rightarrow> (r, (b', ss)))"

definition upd_session :: "(session_state \<Rightarrow> session_state) \<Rightarrow> unit parser" where
  "upd_session f = (\<lambda>(b, ss). (Inr (), (b, f ss)))"

fun repeat_p :: "nat \<Rightarrow> unit parser \<Rightarrow> unit parser" where
  "repeat_p 0 m = ok ()"
| "repeat_p (Suc n) m = andSeq m (repeat_p n m)"

subsection \<open>Error information\<close>

record error_info =
  ei_code :: u32
  ei_message :: "string option"
  ei_cursor_id :: u16
  ei_row_count :: u64
  ei_batch_errors :: "batch_error list"

definition is_ascii_digit :: "u8 \<Rightarrow> bool" where
  "is_ascii_digit b \<longleftrightarrow> 48 \<le> b \<and> b \<le> 57"

fun find_window :: "u8 list \<Rightarrow> u8 list \<Rightarrow> nat option" where
  "find_window pat [] = None"
| "find_window pat (b # bs) =
     (if take (length pat) (b # bs) = pat then Some 0 else map_option Suc (find_window pat bs))"

definition extract_oracle_error_text :: "u8 list \<Rightarrow> (u32 \<times> string) option" where
  "extract_oracle_error_text data =
     (case find_window (bytes_of_text ''ORA-'') data of None \<Rightarrow> None
      | Some start \<Rightarrow>
          if length data < start + 9 then None
          else
            let digits = take 5 (drop (start + 4) data)
            in if \<not> list_all is_ascii_digit digits then None
               else
                 case parse_u32 (text_of_bytes digits) of Inl _ \<Rightarrow> None
                 | Inr code \<Rightarrow>
                     let rest = drop start data;
                         message = str_trim (from_utf8_lossy (takeWhile (\<lambda>b. b \<noteq> 10 \<and> b \<noteq> 0x1d \<and> b \<noteq> 0) rest))
                     in if message = [] then None else Some (code, message))"

definition read_batch_codes :: "u32 list reader" where
  "read_batch_codes = andThen read_ub2 (\<lambda>n.
     if n \<noteq> 0 then andSeq skip_ub1 (read_n (fmap ucast read_ub2) (unat n)) else ok [])"

definition read_batch_offsets :: "nat list reader" where
  "read_batch_offsets = andThen read_ub4 (\<lambda>n.
     if n \<noteq> 0 then andSeq skip_ub1 (read_n (fmap unat read_ub4) (unat n)) else ok [])"

definition or_empty :: "string option \<Rightarrow> string" where
  "or_empty s = (case s of None \<Rightarrow> [] | Some t \<Rightarrow> t)"

definition read_batch_messages :: "string list reader" where
  "read_batch_messages = andThen read_ub2 (\<lambda>n.
     if n \<noteq> 0 then
       andSeq skip_ub1 (read_n
         (andSeq skip_ub2 (andThen read_string_with_length (\<lambda>s.
            andSeq (skip 2) (ok (str_trim (or_empty s)))))) (unat n))
     else ok [])"

definition error_text :: "u32 \<Rightarrow> string" where
  "error_text code = ''ORA-'' @ padded 5 (unat code)"

definition make_batch_error :: "u32 list \<Rightarrow> nat list \<Rightarrow> string list \<Rightarrow> u32 \<Rightarrow> string option \<Rightarrow> nat \<Rightarrow> batch_error" where
  "make_batch_error codes offsets messages error_code error_msg idx =
     (let code = (case list_get codes idx of None \<Rightarrow> error_code | Some c \<Rightarrow> c)
      in batch_error_new
           (case list_get offsets idx of None \<Rightarrow> idx | Some off \<Rightarrow> off) code
           (case non_empty (list_get messages idx) of
              Some m \<Rightarrow> m
            | None \<Rightarrow> (case error_msg of Some m \<Rightarrow> m | None \<Rightarrow> error_text code)))"

text \<open>A message without an ORA code is replaced by the first one found in the packet.\<close>

definition refine_error :: "u8 list \<Rightarrow> u32 \<Rightarrow> string option \<Rightarrow> u32 \<times> string option" where
  "refine_error packet_bytes error_code error_msg =
     (if error_code \<noteq> 0 \<and> (case error_msg of None \<Rightarrow> True | Some m \<Rightarrow> \<not> contains_text m ''ORA-'')
      then case extract_oracle_error_text packet_bytes of
             Some (code, message) \<Rightarrow> (code, Some message)
           | None \<Rightarrow> (error_code, error_msg)
      else (error_code, error_msg))"

text \<open>The fields before the batch errors: the cursor id is kept, the rest skipped.\<close>

definition error_head :: "u16 reader" where
  "error_head =
     andSeq read_ub4 (andSeq skip_ub2 (andSeq skip_ub4 (andSeq skip_ub2 (andSeq skip_ub2 (andSeq skip_ub2
     (andThen read_ub2 (\<lambda>cursor_id.
     andSeq read_sb2 (andSeq skip_ub1 (andSeq skip_ub1 (andSeq skip_ub1 (andSeq skip_ub1 (andSeq skip_ub1
     (andSeq skip_ub1 (andSeq skip_ub4 (andSeq skip_ub2 (andSeq skip_ub1 (andSeq skip_ub4 (andSeq skip_ub2
     (andSeq skip_ub4 (andSeq skip_ub1 (andSeq skip_ub1 (andSeq skip_ub2 (andSeq skip_ub4
       (ok cursor_id))))))))))))))))))))))))"

definition skip_optional_chunked :: "unit reader" where
  "skip_optional_chunked = andThen read_ub4 (\<lambda>len.
     if 0 < len then skip_raw_bytes_chunked else ok ())"

definition as_bytes_buf :: "u8 list reader" where
  "as_bytes_buf = (\<lambda>s. (Inr (rb_data s), s))"

definition parse_error_info_detailed :: "bool \<Rightarrow> bool \<Rightarrow> error_info reader" where
  "parse_error_info_detailed read_modern_tail skip_modern_fields =
     andThen as_bytes_buf (\<lambda>packet_bytes.
     andThen error_head (\<lambda>cursor_id.
     andSeq skip_optional_chunked
     (andThen read_batch_codes (\<lambda>codes.
      andThen read_batch_offsets (\<lambda>offsets.
      andThen read_batch_messages (\<lambda>messages.
      andThen read_ub4 (\<lambda>error_code.
      andThen (if read_modern_tail then read_ub8 else ok 0) (\<lambda>row_count.
      andSeq (if skip_modern_fields then andSeq skip_ub4 skip_ub4 else ok ())
      (andThen (if error_code \<noteq> 0 then fmap (map_option str_trim) read_string_with_length else ok None)
        (\<lambda>error_msg.
          (case refine_error packet_bytes error_code error_msg of (code, message) \<Rightarrow>
             ok \<lparr>ei_code = code, ei_message = message, ei_cursor_id = cursor_id, ei_row_count = row_count,
                 ei_batch_errors = map (make_batch_error codes offsets messages code message)
                   [0..<max (max (length codes) (length offsets)) (length messages)]\<rparr>)))))))))))"

definition parse_error_info :: "error_info reader" where
  "parse_error_info = parse_error_info_detailed True False"

definition parse_error_info_with_rowcount :: "error_info reader" where
  "parse_error_info_with_rowcount = parse_error_info_detailed True True"

definition oracle_failure :: "error_info \<Rightarrow> 'a result" where
  "oracle_failure info = Inl (Err (OracleError (ei_code info) (or_empty (ei_message info))))"

text \<open>\<open>parse_error_response\<close>: always an error.\<close>

definition parse_error_response :: "u8 list \<Rightarrow> query_result result" where
  "parse_error_response payload =
     (if length payload < 3 then Inl (Err (Protocol ''Error response too short''))
      else fst (andSeq (skip 2) (andThen read_u8 (\<lambda>msg_type.
        if msg_type = message_type_byte MsgError then
          andThen (parse_error_info_detailed True False) (\<lambda>info.
            fail (OracleError (ei_code info)
              (case ei_message info of Some m \<Rightarrow> m | None \<Rightarrow> error_text (ei_code info))))
        else fail (Protocol (''Expected error message type 4, got '' @ show_nat (unat msg_type)))))
        (rbuf_new payload)))"

text \<open>The fetch response's own reading of an error message: code, message, cursor, more rows.\<close>

definition parse_error_message_info :: "u8 \<Rightarrow> (u32 \<times> string \<times> u16 \<times> bool) reader" where
  "parse_error_message_info ver =
     andSeq read_ub4 (andSeq skip_ub2 (andSeq skip_ub4 (andSeq skip_ub2 (andSeq skip_ub2 (andSeq skip_ub2
     (andThen read_ub2 (\<lambda>cursor_id.
     andSeq read_sb2 (andSeq (skip 1) (andSeq (skip 1) (andSeq (skip 1) (andSeq (skip 1) (andSeq (skip 1)
     (andSeq read_u8 (andSeq skip_ub4 (andSeq skip_ub2 (andSeq skip_ub1 (andSeq skip_ub4 (andSeq skip_ub2
     (andSeq skip_ub4 (andSeq (skip 1) (andSeq (skip 1) (andSeq skip_ub2 (andSeq skip_ub4
     (andSeq skip_optional_chunked
     (andSeq (andThen read_ub2 (\<lambda>n. if 0 < n then skip_raw_bytes_chunked else ok ()))
     (andSeq skip_optional_chunked
     (andSeq (andThen read_ub2 (\<lambda>n. if 0 < n then skip_raw_bytes_chunked else ok ()))
     (andThen read_ub4 (\<lambda>error_num. andSeq read_ub8
     (andSeq (if FIELD_VERSION_21_1 \<le> ver then andSeq skip_ub4 skip_ub4 else ok ())
     (andThen (if error_num \<noteq> 0 then fmap or_empty read_string_with_length else ok [])
       (\<lambda>error_msg. ok (error_num, error_msg, cursor_id, error_num \<noteq> 1403)))))))))))))))))))))))))))))))))"

subsection \<open>Return parameters\<close>

text \<open>One key and value; both present, they are recorded in the session state.\<close>

definition record_pair :: "string option \<Rightarrow> u8 list option \<Rightarrow> unit parser" where
  "record_pair key v =
     (case (key, v) of
        (Some k, Some x) \<Rightarrow> upd_session (record_session_key_value k x)
      | _ \<Rightarrow> ok ())"

definition read_pair :: "string option reader \<Rightarrow> u8 list option reader \<Rightarrow> unit parser" where
  "read_pair read_key read_value =
     andThen (rd read_ub2) (\<lambda>key_len.
     andThen (if 0 < key_len then rd read_key else ok None) (\<lambda>key.
     andThen (rd read_ub2) (\<lambda>value_len.
     andThen (if 0 < value_len then rd read_value else ok None) (\<lambda>v.
     andSeq (record_pair key v) (rd skip_ub2)))))"

definition skip_counted :: "unit reader" where
  "skip_counted = andThen read_ub2 (\<lambda>n. if 0 < n then skip (unat n) else ok ())"

definition read_row_counts :: "bool \<Rightarrow> u64 list option parser" where
  "read_row_counts want_row_counts = (\<lambda>s.
     if want_row_counts \<and> 4 \<le> remaining (fst s) then
       rd (andThen read_ub4 (\<lambda>num_rows. fmap Some (read_n read_ub8 (unat num_rows)))) s
     else (Inr None, s))"

definition parse_standard_return_parameters :: "bool \<Rightarrow> u64 list option parser" where
  "parse_standard_return_parameters want_row_counts =
     andThen (rd read_ub2) (\<lambda>num_params.
     andSeq (rd (read_n skip_ub4 (unat num_params)))
     (andSeq (rd skip_counted)
     (andThen (rd read_ub2) (\<lambda>num_pairs.
      andSeq (repeat_p (unat num_pairs)
        (read_pair read_string_with_length (fmap Some read_raw_bytes_chunked)))
      (andSeq (rd skip_counted) (read_row_counts want_row_counts))))))"

text \<open>
  \<open>skip_session_state_return_parameter\<close> looks for the error message that follows: first one
  that parses and ends at the end or before a terminal message, then, from the back, one that
  begins like one and has an end marker behind it.
\<close>

fun probe_aligned :: "u8 list \<Rightarrow> nat list \<Rightarrow> nat option result" where
  "probe_aligned rest [] = Inr None"
| "probe_aligned rest (offset # offsets) =
     (if rest ! offset \<noteq> message_type_byte MsgError then probe_aligned rest offsets
      else case parse_error_info_with_rowcount (rbuf_new (drop (offset + 1) rest)) of
             (Inl Panic, _) \<Rightarrow> Inl Panic
           | (Inl (Err e), _) \<Rightarrow> probe_aligned rest offsets
           | (Inr info, probe) \<Rightarrow>
               let next_offset = offset + 1 + rb_pos probe
               in if next_offset = length rest
                     \<or> (case list_get rest next_offset of None \<Rightarrow> False
                        | Some x \<Rightarrow> x = message_type_byte MsgStatus \<or> x = message_type_byte MsgEndOfResponse)
                  then Inr (Some offset) else probe_aligned rest offsets)"

fun probe_marked :: "u8 list \<Rightarrow> nat list \<Rightarrow> nat option result" where
  "probe_marked rest [] = Inr None"
| "probe_marked rest (offset # offsets) =
     (if rest ! offset \<noteq> message_type_byte MsgError then probe_marked rest offsets
      else if message_type_byte MsgEndOfResponse \<notin> set (drop (offset + 1) rest) then probe_marked rest offsets
      else case fst (andSeq read_ub4 read_ub2 (rbuf_new (drop (offset + 1) rest))) of
             Inl Panic \<Rightarrow> Inl Panic
           | Inl (Err e) \<Rightarrow> probe_marked rest offsets
           | Inr _ \<Rightarrow> Inr (Some offset))"

definition skip_session_state_return_parameter :: "bool reader" where
  "skip_session_state_return_parameter = (\<lambda>s.
     andThen remaining_bytes (\<lambda>rest.
     andThen (lift_res (probe_aligned rest [1..<length rest])) (\<lambda>found.
       case found of
         Some offset \<Rightarrow> andSeq (set_position (rb_pos s + offset)) (ok True)
       | None \<Rightarrow>
           andThen (lift_res (probe_marked rest (rev [1..<length rest]))) (\<lambda>found.
             case found of
               Some offset \<Rightarrow> andSeq (set_position (rb_pos s + offset)) (ok True)
             | None \<Rightarrow> ok False))) s)"

definition parse_return_parameters_internal :: "bool \<Rightarrow> u64 list option parser" where
  "parse_return_parameters_internal want_row_counts = (\<lambda>s.
     case parse_standard_return_parameters want_row_counts s of
       (Inr row_counts, s') \<Rightarrow> (Inr row_counts, s')
     | (Inl Panic, s') \<Rightarrow> (Inl Panic, s')
     | (Inl (Err err), s') \<Rightarrow>
         andSeq (rd (set_position (rb_pos (fst s))))
           (andThen (rd skip_session_state_return_parameter) (\<lambda>skipped.
              if skipped then ok None else fail err)) s')"

definition parse_return_parameters :: "unit parser" where
  "parse_return_parameters = fmap (\<lambda>_. ()) (parse_return_parameters_internal False)"

subsection \<open>Server-side piggybacks\<close>

definition parse_ltxid :: "unit parser" where
  "parse_ltxid = andThen (rd read_ub4) (\<lambda>num_bytes.
     if 0 < num_bytes then
       andThen (rd read_bytes_with_length) (\<lambda>r.
         case r of None \<Rightarrow> ok () | Some ltxid \<Rightarrow> upd_session (record_ltxid ltxid))
     else ok ())"

definition parse_sync :: "unit parser" where
  "parse_sync = andSeq (rd skip_ub2) (andSeq (rd skip_ub1) (andThen (rd read_ub4) (\<lambda>num_elements.
     andSeq (rd (skip 1))
     (andSeq (repeat_p (unat num_elements) (read_pair read_string_with_length read_bytes_with_length))
       (rd skip_ub4)))))"

definition parse_sess_ret :: "unit parser" where
  "parse_sess_ret = andSeq (rd skip_ub2) (andSeq (rd skip_ub1) (andThen (rd read_ub2) (\<lambda>num_elements.
     andSeq
       (if 0 < num_elements then
          andSeq (rd skip_ub1) (repeat_p (unat num_elements)
            (read_pair (fmap (\<lambda>bs. Some (from_utf8_lossy bs)) read_raw_bytes_chunked)
              (fmap Some read_raw_bytes_chunked)))
        else ok ())
     (andThen (rd read_ub4) (\<lambda>session_flags. andThen (rd read_ub4) (\<lambda>session_id.
      andThen (rd read_ub2) (\<lambda>serial_number.
        upd_session (record_session_identity session_flags session_id serial_number))))))))"

definition parse_server_side_piggyback :: "unit parser" where
  "parse_server_side_piggyback = andThen (rd read_u8) (\<lambda>opcode.
     if opcode = 7 then parse_ltxid
     else if opcode = 1 \<or> opcode = 3 then ok ()
     else if opcode = 2 then
       rd (andThen read_ub2 (\<lambda>num_dtys. andSeq skip_ub1 (skip (unat num_dtys))))
     else if opcode = 5 then parse_sync
     else if opcode = 9 then rd (andSeq skip_ub2 skip_ub1)
     else if opcode = 8 then
       rd (andSeq skip_ub2 (andSeq skip_ub1 (andSeq skip_ub4 (andSeq skip_ub4 (andSeq skip_ub1
         skip_optional_chunked)))))
     else if opcode = 4 then parse_sess_ret
     else if opcode = 10 then
       rd (andSeq skip_ub2 (andSeq skip_ub1 (andSeq skip_ub8 (andSeq skip_ub8 skip_ub8))))
     else fail (Protocol (''Unknown server-side piggyback opcode: '' @ show_nat (unat opcode))))"

subsection \<open>The message loop\<close>

definition remaining_p :: "rbuf \<times> session_state \<Rightarrow> nat" where
  "remaining_p s = remaining (fst s)"

partial_function (option) message_loop ::
  "('st \<Rightarrow> u8 \<Rightarrow> ('st \<times> bool) parser) \<Rightarrow> 'st \<Rightarrow> rbuf \<times> session_state
     \<Rightarrow> ('st result \<times> (rbuf \<times> session_state)) option" where
  "message_loop step st s =
     (if remaining_p s = 0 then Some (Inr st, s)
      else case andThen (rd read_u8) (step st) s of
             (Inl e, s') \<Rightarrow> Some (Inl e, s')
           | (Inr (st', stop), s') \<Rightarrow>
               (if stop then Some (Inr st', s') else message_loop step st' s'))"

declare message_loop.simps [code]

text \<open>
  A whole response: too short a payload is an error; the data flags are skipped; the final
  state of the loop is the result.
\<close>

definition run_response ::
  "string \<Rightarrow> ('st \<Rightarrow> u8 \<Rightarrow> ('st \<times> bool) parser) \<Rightarrow> 'st \<Rightarrow> ('st \<Rightarrow> 'r) \<Rightarrow> u8 list \<Rightarrow> session_state
     \<Rightarrow> ('r result \<times> session_state) option" where
  "run_response short step init result_of payload ss =
     (if length payload < 3 then Some (Inl (Err (Protocol short)), ss)
      else case rd (skip 2) (rbuf_new payload, ss) of
             (Inl e, s) \<Rightarrow> Some (Inl e, snd s)
           | (Inr _, s) \<Rightarrow>
               (case message_loop step init s of
                  None \<Rightarrow> None
                | Some (Inl e, s') \<Rightarrow> Some (Inl e, snd s')
                | Some (Inr st, s') \<Rightarrow> Some (Inr (result_of st), snd s')))"

definition read_status :: "unit reader" where
  "read_status = andSeq read_ub4 (fmap (\<lambda>_. ()) read_ub2)"

definition parse_row_header :: "unit reader" where
  "parse_row_header = andSeq skip_ub1 (andSeq skip_ub2 (andSeq skip_ub4 (andSeq skip_ub4 (andSeq skip_ub2
     (andSeq (andThen read_ub4 (\<lambda>num_bytes.
        if 0 < num_bytes then andSeq skip_ub1 (skip (unat num_bytes)) else ok ()))
       skip_optional_chunked)))))"

subsection \<open>Queries\<close>

record query_state =
  qs_columns :: "column_info list"
  qs_rows :: "row list"
  qs_cursor_id :: u16
  qs_row_count :: u64
  qs_has_more :: bool
  qs_bit_vector :: "u8 list option"
  qs_previous :: "value list option"

definition query_state_new :: "column_info list \<Rightarrow> query_state" where
  "query_state_new columns = \<lparr>qs_columns = columns, qs_rows = [], qs_cursor_id = 0, qs_row_count = 0,
     qs_has_more = False, qs_bit_vector = None, qs_previous = None\<rparr>"

definition push_row :: "row \<Rightarrow> query_state \<Rightarrow> query_state" where
  "push_row r st = st\<lparr>qs_rows := qs_rows st @ [r], qs_previous := Some (row_values r), qs_bit_vector := None\<rparr>"

definition read_bit_vector :: "nat \<Rightarrow> u8 list option \<Rightarrow> u8 list option reader" where
  "read_bit_vector num_columns bit_vector = andSeq read_ub2
     (let num_bytes = (num_columns + 7) div 8
      in if 0 < num_bytes then fmap Some (read_bytes_vec num_bytes) else ok bit_vector)"

definition query_step :: "json_insert \<Rightarrow> nat \<Rightarrow> u8 \<Rightarrow> query_state \<Rightarrow> u8 \<Rightarrow> (query_state \<times> bool) parser" where
  "query_step ins depth ver st msg_type =
     (if msg_type = message_type_byte MsgDescribeInfo then
        andSeq (rd skip_raw_bytes_chunked)
          (fmap (\<lambda>columns. (st\<lparr>qs_columns := columns\<rparr>, False)) (rd (parse_describe_info ver)))
      else if msg_type = message_type_byte MsgRowHeader then
        andSeq (rd parse_row_header) (ok (st, False))
      else if msg_type = message_type_byte MsgRowData then
        fmap (\<lambda>r. (push_row r st, False))
          (rd (parse_row_data_with_bitvector ins depth ver (qs_columns st) (qs_bit_vector st) (qs_previous st)))
      else if msg_type = message_type_byte MsgError then
        andThen (rd parse_error_info_with_rowcount) (\<lambda>info.
          if ei_code info \<noteq> 0 \<and> ei_code info \<noteq> 1403 then lift_res (oracle_failure info)
          else ok (st\<lparr>qs_cursor_id := ei_cursor_id info, qs_row_count := ei_row_count info,
                     qs_has_more := (ei_cursor_id info \<noteq> 0 \<and> ei_code info \<noteq> 1403)\<rparr>, True))
      else if msg_type = message_type_byte MsgParameter then
        andSeq parse_return_parameters (ok (st, False))
      else if msg_type = message_type_byte MsgServerSidePiggyback then
        andSeq parse_server_side_piggyback (ok (st, False))
      else if msg_type = message_type_byte MsgStatus then
        andSeq (rd read_status) (ok (st, False))
      else if msg_type = 21 then
        fmap (\<lambda>bv. (st\<lparr>qs_bit_vector := bv\<rparr>, False))
          (rd (read_bit_vector (length (qs_columns st)) (qs_bit_vector st)))
      else ok (st, True))"

definition query_result_of :: "query_state \<Rightarrow> query_result" where
  "query_result_of st = \<lparr>qr_columns = qs_columns st, qr_rows = qs_rows st, qr_rows_affected = qs_row_count st,
     qr_has_more_rows = qs_has_more st, qr_cursor_id = qs_cursor_id st\<rparr>"

definition parse_query_response_with_columns ::
  "json_insert \<Rightarrow> nat \<Rightarrow> u8 \<Rightarrow> column_info list \<Rightarrow> u8 list \<Rightarrow> session_state
     \<Rightarrow> (query_result result \<times> session_state) option" where
  "parse_query_response_with_columns ins depth ver known_columns =
     run_response ''Query response too short'' (query_step ins depth ver) (query_state_new known_columns)
       query_result_of"

definition parse_query_response ::
  "json_insert \<Rightarrow> nat \<Rightarrow> u8 \<Rightarrow> u8 list \<Rightarrow> session_state \<Rightarrow> (query_result result \<times> session_state) option" where
  "parse_query_response ins depth ver = parse_query_response_with_columns ins depth ver []"

text \<open>
  Fetches from a cursor.  The row header's bit vector is kept here; the error message ends the
  response and says whether rows are left.
\<close>

definition read_fetch_header :: "u8 list option \<Rightarrow> u8 list option reader" where
  "read_fetch_header bit_vector = andSeq (skip 1) (andSeq skip_ub2 (andSeq skip_ub4 (andSeq skip_ub4
     (andSeq skip_ub2 (andThen read_ub4 (\<lambda>num_bytes.
      andThen (if 0 < num_bytes then andSeq (skip 1) (fmap Some (read_bytes_vec (unat num_bytes)))
               else ok bit_vector) (\<lambda>bv.
      andSeq skip_optional_chunked (ok bv))))))))"

definition fetch_step :: "json_insert \<Rightarrow> nat \<Rightarrow> u8 \<Rightarrow> query_state \<Rightarrow> u8 \<Rightarrow> (query_state \<times> bool) parser" where
  "fetch_step ins depth ver st msg_type =
     (if msg_type = message_type_byte MsgRowHeader then
        fmap (\<lambda>bv. (st\<lparr>qs_bit_vector := bv\<rparr>, False)) (rd (read_fetch_header (qs_bit_vector st)))
      else if msg_type = message_type_byte MsgRowData then
        fmap (\<lambda>r. (push_row r st, False))
          (rd (parse_row_data_with_bitvector ins depth ver (qs_columns st) (qs_bit_vector st) (qs_previous st)))
      else if msg_type = message_type_byte MsgBitVector then
        fmap (\<lambda>bv. (st\<lparr>qs_bit_vector := bv\<rparr>, False))
          (rd (read_bit_vector (length (qs_columns st)) (qs_bit_vector st)))
      else if msg_type = message_type_byte MsgError then
        andThen (rd (parse_error_message_info ver)) (\<lambda>(error_code, error_msg, cid, more_rows).
          if error_code \<noteq> 0 \<and> error_code \<noteq> 1403
          then fail (OracleError error_code error_msg)
          else ok (st\<lparr>qs_cursor_id := cid, qs_has_more := more_rows\<rparr>, True))
      else ok (st, True))"

definition parse_fetch_response ::
  "json_insert \<Rightarrow> nat \<Rightarrow> u8 \<Rightarrow> u16 \<Rightarrow> column_info list \<Rightarrow> u8 list \<Rightarrow> session_state
     \<Rightarrow> (query_result result \<times> session_state) option" where
  "parse_fetch_response ins depth ver cursor_id columns =
     run_response ''Fetch response too short'' (fetch_step ins depth ver)
       ((query_state_new columns)\<lparr>qs_cursor_id := cursor_id, qs_has_more := True\<rparr>)
       query_result_of"

subsection \<open>DML and batches\<close>

record dml_state =
  ds_rows_affected :: u64
  ds_cursor_id :: u16
  ds_row_counts :: "u64 list option"
  ds_batch_errors :: "batch_error list"

definition dml_state_new :: dml_state where
  "dml_state_new = \<lparr>ds_rows_affected = 0, ds_cursor_id = 0, ds_row_counts = None, ds_batch_errors = []\<rparr>"

text \<open>The messages both share: unknown types are skipped, type 29 ends the response.\<close>

definition skip_bit_byte :: "unit reader" where
  "skip_bit_byte = andSeq read_ub2 (\<lambda>s. if 0 < remaining s then fmap (\<lambda>_. ()) read_u8 s else (Inr (), s))"

definition common_step :: "dml_state \<Rightarrow> u8 \<Rightarrow> (dml_state \<times> bool) parser" where
  "common_step st msg_type =
     (if msg_type = message_type_byte MsgServerSidePiggyback then
        andSeq parse_server_side_piggyback (ok (st, False))
      else if msg_type = message_type_byte MsgStatus then andSeq (rd read_status) (ok (st, False))
      else if msg_type = 21 then andSeq (rd skip_bit_byte) (ok (st, False))
      else ok (st, msg_type = 29))"

definition dml_step :: "dml_state \<Rightarrow> u8 \<Rightarrow> (dml_state \<times> bool) parser" where
  "dml_step st msg_type =
     (if msg_type = message_type_byte MsgError then
        andThen (rd parse_error_info_with_rowcount) (\<lambda>info.
          if ei_code info \<noteq> 0 \<and> ei_code info \<noteq> 1403 then lift_res (oracle_failure info)
          else ok (st\<lparr>ds_rows_affected := ei_row_count info, ds_cursor_id := ei_cursor_id info\<rparr>, False))
      else if msg_type = message_type_byte MsgParameter then
        andSeq parse_return_parameters (ok (st, False))
      else common_step st msg_type)"

definition dml_result_of :: "dml_state \<Rightarrow> query_result" where
  "dml_result_of st = \<lparr>qr_columns = [], qr_rows = [], qr_rows_affected = ds_rows_affected st,
     qr_has_more_rows = False, qr_cursor_id = ds_cursor_id st\<rparr>"

definition parse_dml_response :: "u8 list \<Rightarrow> session_state \<Rightarrow> (query_result result \<times> session_state) option" where
  "parse_dml_response = run_response ''DML response too short'' dml_step dml_state_new dml_result_of"

definition batch_step :: "bool \<Rightarrow> bool \<Rightarrow> dml_state \<Rightarrow> u8 \<Rightarrow> (dml_state \<times> bool) parser" where
  "batch_step want_row_counts batch_errors_enabled st msg_type =
     (if msg_type = message_type_byte MsgError then
        andThen (rd (parse_error_info_detailed True True)) (\<lambda>info.
          let errors = ds_batch_errors st @ ei_batch_errors info
          in if ei_code info \<noteq> 0 \<and> ei_code info \<noteq> 1403 \<and> \<not> (batch_errors_enabled \<and> errors \<noteq> [])
             then lift_res (oracle_failure info)
             else ok (st\<lparr>ds_rows_affected := ei_row_count info, ds_batch_errors := errors\<rparr>, False))
      else if msg_type = message_type_byte MsgParameter then
        fmap (\<lambda>counts. (case counts of None \<Rightarrow> st | Some c \<Rightarrow> st\<lparr>ds_row_counts := Some c\<rparr>, False))
          (parse_return_parameters_internal want_row_counts)
      else common_step st msg_type)"

definition batch_result_of :: "nat \<Rightarrow> dml_state \<Rightarrow> batch_result" where
  "batch_result_of batch_size st =
     \<lparr>br_row_counts = ds_row_counts st, br_total_rows_affected = ds_rows_affected st,
      br_errors = ds_batch_errors st, br_success_count = batch_size - length (ds_batch_errors st),
      br_failure_count = length (ds_batch_errors st)\<rparr>"

definition parse_batch_response ::
  "nat \<Rightarrow> bool \<Rightarrow> bool \<Rightarrow> u8 list \<Rightarrow> session_state \<Rightarrow> (batch_result result \<times> session_state) option" where
  "parse_batch_response batch_size want_row_counts batch_errors_enabled =
     run_response ''Batch response too short'' (batch_step want_row_counts batch_errors_enabled)
       dml_state_new (batch_result_of batch_size)"

subsection \<open>PL/SQL\<close>

definition out_if :: "nat \<Rightarrow> bind_param \<Rightarrow> u8 \<Rightarrow> (nat \<times> column_info) list" where
  "out_if i p dir_byte =
     (case bind_direction_try_from dir_byte of
        Inl _ \<Rightarrow> []
      | Inr dir \<Rightarrow> if dir = BindInput then [] else [(i, out_column i p)])"

fun read_directions :: "nat \<Rightarrow> bind_param list \<Rightarrow> (nat \<times> column_info) list reader" where
  "read_directions i [] = ok []"
| "read_directions i (p # ps) = andThen read_u8 (\<lambda>dir_byte.
     fmap (\<lambda>rest. out_if i p dir_byte @ rest) (read_directions (i + 1) ps))"

text \<open>\<open>num_iters * 256 + num_requests\<close> is \<open>u32\<close> arithmetic, checked.\<close>

definition num_binds :: "u16 \<Rightarrow> u32 \<Rightarrow> u32 result" where
  "num_binds num_requests num_iters =
     res_bind (mul_chk num_iters 256) (\<lambda>m. add_chk m (ucast num_requests))"

definition parse_io_vector :: "bind_param list \<Rightarrow> (nat list \<times> column_info list) reader" where
  "parse_io_vector params = andSeq (skip 1) (andThen read_ub2 (\<lambda>num_requests. andThen read_ub4 (\<lambda>num_iters.
     andThen (lift_res (num_binds num_requests num_iters)) (\<lambda>binds.
     andSeq read_ub4 (andSeq read_ub2 (andSeq skip_counted (andSeq skip_counted
     (fmap (\<lambda>outs. (map fst outs, map snd outs))
       (read_directions 0 (take (unat binds) params))))))))))"

definition read_implicit_result :: "u8 \<Rightarrow> implicit_result reader" where
  "read_implicit_result ver = andThen read_u8 (\<lambda>num_bytes.
     andSeq (if 0 < num_bytes then skip (unat num_bytes) else ok ())
     (andThen (parse_describe_info ver) (\<lambda>columns.
      fmap (\<lambda>cursor_id. implicit_result_new cursor_id columns []) read_ub2)))"

definition parse_implicit_results :: "u8 \<Rightarrow> implicit_results reader" where
  "parse_implicit_results ver = andThen read_ub4 (\<lambda>num_results.
     read_n (read_implicit_result ver) (unat num_results))"

record plsql_state =
  ps_out_values :: "value list"
  ps_out_columns :: "column_info list"
  ps_row_count :: u64
  ps_cursor_id :: "u16 option"
  ps_implicit :: implicit_results

definition plsql_state_new :: plsql_state where
  "plsql_state_new =
     \<lparr>ps_out_values = [], ps_out_columns = [], ps_row_count = 0, ps_cursor_id = None, ps_implicit = []\<rparr>"

text \<open>One OUT value: the first open cursor is remembered; the value replaces the one at its place.\<close>

definition store_out_value :: "nat \<times> value \<Rightarrow> plsql_state \<Rightarrow> plsql_state" where
  "store_out_value iv st =
     (let (idx, v) = iv;
          st1 = (case as_cursor_id v of
                   Some cid \<Rightarrow> if ps_cursor_id st = None \<and> cid \<noteq> 0 then st\<lparr>ps_cursor_id := Some cid\<rparr> else st
                 | None \<Rightarrow> st)
      in if idx < length (ps_out_values st1)
         then st1\<lparr>ps_out_values := (ps_out_values st1)[idx := v]\<rparr>
         else st1\<lparr>ps_out_values := ps_out_values st1 @ [v]\<rparr>)"

definition plsql_step :: "json_insert \<Rightarrow> nat \<Rightarrow> u8 \<Rightarrow> bind_param list \<Rightarrow> plsql_state \<Rightarrow> u8
    \<Rightarrow> (plsql_state \<times> bool) parser" where
  "plsql_step ins depth ver params st msg_type =
     (if msg_type = message_type_byte MsgIoVector then
        fmap (\<lambda>(indices, cols). (st\<lparr>ps_out_columns := cols\<rparr>, False)) (rd (parse_io_vector params))
      else if msg_type = message_type_byte MsgRowHeader then
        andSeq (rd parse_row_header) (ok (st, False))
      else if msg_type = message_type_byte MsgRowData then
        (if ps_out_columns st \<noteq> [] then
           fmap (\<lambda>r. (fold store_out_value (enumerate 0 (row_values r)) st, False))
             (rd (parse_out_bind_row_data ins depth ver (ps_out_columns st)))
         else ok (st, True))
      else if msg_type = message_type_byte MsgDescribeInfo then
        andSeq (rd skip_raw_bytes_chunked) (andSeq (rd (parse_describe_info ver)) (ok (st, False)))
      else if msg_type = message_type_byte MsgFlushOutBinds then ok (st, False)
      else if msg_type = message_type_byte MsgError then
        andThen (rd parse_error_info_with_rowcount) (\<lambda>info.
          if ei_code info \<noteq> 0 then lift_res (oracle_failure info)
          else ok (st\<lparr>ps_row_count := ei_row_count info\<rparr>, True))
      else if msg_type = message_type_byte MsgParameter then
        andSeq parse_return_parameters (ok (st, False))
      else if msg_type = message_type_byte MsgServerSidePiggyback then
        andSeq parse_server_side_piggyback (ok (st, False))
      else if msg_type = message_type_byte MsgStatus then andSeq (rd read_status) (ok (st, False))
      else if msg_type = message_type_byte MsgImplicitResultset then
        fmap (\<lambda>results. (st\<lparr>ps_implicit := results\<rparr>, False)) (rd (parse_implicit_results ver))
      else ok (st, True))"

definition plsql_result_of :: "plsql_state \<Rightarrow> plsql_result" where
  "plsql_result_of st = \<lparr>pr_out_values = ps_out_values st, pr_rows_affected = ps_row_count st,
     pr_cursor_id = ps_cursor_id st, pr_implicit_results = ps_implicit st\<rparr>"

definition parse_plsql_response ::
  "json_insert \<Rightarrow> nat \<Rightarrow> u8 \<Rightarrow> bind_param list \<Rightarrow> u8 list \<Rightarrow> session_state
     \<Rightarrow> (plsql_result result \<times> session_state) option" where
  "parse_plsql_response ins depth ver params =
     run_response ''PL/SQL response too short'' (plsql_step ins depth ver params) plsql_state_new
       plsql_result_of"

subsection \<open>LOB operations\<close>

datatype lob_data = LobText string | LobBytes "u8 list"

definition utf8_of_code :: "nat \<Rightarrow> u8 list" where
  "utf8_of_code c =
     map of_nat
       (if c < 0x80 then [c]
        else if c < 0x800 then [0xC0 + c div 64, 0x80 + c mod 64]
        else if c < 0x10000 then [0xE0 + c div 4096, 0x80 + c div 64 mod 64, 0x80 + c mod 64]
        else [0xF0 + c div 262144, 0x80 + c div 4096 mod 64, 0x80 + c div 64 mod 64, 0x80 + c mod 64])"

definition high_surrogate :: "nat \<Rightarrow> bool" where
  "high_surrogate u \<longleftrightarrow> 0xD800 \<le> u \<and> u < 0xDC00"

definition low_surrogate :: "nat \<Rightarrow> bool" where
  "low_surrogate u \<longleftrightarrow> 0xDC00 \<le> u \<and> u < 0xE000"

text \<open>\<open>String::from_utf16_lossy\<close>: an unpaired surrogate becomes \<open>U+FFFD\<close>.\<close>

fun utf16_lossy :: "nat list \<Rightarrow> u8 list" where
  "utf16_lossy [] = []"
| "utf16_lossy [u] =
     (if high_surrogate u \<or> low_surrogate u then utf8_of_code 0xFFFD else utf8_of_code u)"
| "utf16_lossy (u # v # us) =
     (if high_surrogate u then
        (if low_surrogate v
         then utf8_of_code (0x10000 + (u - 0xD800) * 1024 + (v - 0xDC00)) @ utf16_lossy us
         else utf8_of_code 0xFFFD @ utf16_lossy (v # us))
      else if low_surrogate u then utf8_of_code 0xFFFD @ utf16_lossy (v # us)
      else utf8_of_code u @ utf16_lossy (v # us))"

text \<open>\<open>chunks_exact(2)\<close>: a last odd byte is dropped.\<close>

fun be_units :: "u8 list \<Rightarrow> nat list" where
  "be_units (a # b # bs) = (unat a * 256 + unat b) # be_units bs"
| "be_units _ = []"

definition lob_data_of :: "lob_locator \<Rightarrow> u8 list option \<Rightarrow> lob_data" where
  "lob_data_of locator data =
     (case data of
        Some bytes \<Rightarrow>
          if is_blob locator \<or> is_bfile locator then LobBytes bytes
          else if uses_var_length_charset locator then LobText (text_of_bytes (utf16_lossy (be_units bytes)))
          else LobText (from_utf8_lossy bytes)
      | None \<Rightarrow> if is_blob locator \<or> is_bfile locator then LobBytes [] else LobText [])"

text \<open>
  The parsers' common part: an error message with a code is a failure, one that does not parse is
  passed over; the parameter message begins with the updated locator.
\<close>

definition lob_error_step :: "'st \<Rightarrow> ('st \<times> bool) parser" where
  "lob_error_step st = (\<lambda>s.
     case rd parse_error_info s of
       (Inl Panic, s') \<Rightarrow> (Inl Panic, s')
     | (Inl (Err e), s') \<Rightarrow> (Inr (st, False), s')
     | (Inr info, s') \<Rightarrow>
         (if ei_code info \<noteq> 0
          then Inl (Err (OracleError (ei_code info)
                 (case ei_message info of Some m \<Rightarrow> m | None \<Rightarrow> ''LOB error'')))
          else Inr (st, False), s'))"

definition lob_step :: "(u8 \<Rightarrow> bool) \<Rightarrow> ('st \<Rightarrow> u8 \<Rightarrow> 'st reader) \<Rightarrow> 'st \<Rightarrow> u8 \<Rightarrow> ('st \<times> bool) parser" where
  "lob_step own body st msg_type =
     (if own msg_type then fmap (\<lambda>st'. (st', False)) (rd (body st msg_type))
      else if msg_type = message_type_byte MsgError then lob_error_step st
      else ok (st, msg_type = message_type_byte MsgEndOfResponse))"

definition run_lob ::
  "(u8 \<Rightarrow> bool) \<Rightarrow> ('st \<Rightarrow> u8 \<Rightarrow> 'st reader) \<Rightarrow> 'st \<Rightarrow> u8 list \<Rightarrow> 'st result option" where
  "run_lob own body init payload =
     (case rd (skip 2) (rbuf_new payload, session_state_default) of
        (Inl e, _) \<Rightarrow> Some (Inl e)
      | (Inr _, s) \<Rightarrow> map_option fst (message_loop (lob_step own body) init s))"

definition skip_locator :: "lob_locator \<Rightarrow> unit reader" where
  "skip_locator locator = skip (length (loc_bytes locator))"

definition lob_read_body :: "lob_locator \<Rightarrow> u8 list option \<Rightarrow> u8 \<Rightarrow> u8 list option reader" where
  "lob_read_body locator st msg_type =
     (if msg_type = message_type_byte MsgLobData then fmap Some read_raw_bytes_chunked
      else andSeq (skip_locator locator) (andSeq read_ub8 (ok st)))"

definition parse_lob_read_response :: "u8 list \<Rightarrow> lob_locator \<Rightarrow> lob_data result option" where
  "parse_lob_read_response payload locator =
     map_option (\<lambda>r. res_bind r (\<lambda>data. Inr (lob_data_of locator data)))
       (run_lob (\<lambda>t. t = message_type_byte MsgLobData \<or> t = message_type_byte MsgParameter)
         (lob_read_body locator) None payload)"

definition is_parameter :: "u8 \<Rightarrow> bool" where
  "is_parameter t \<longleftrightarrow> t = message_type_byte MsgParameter"

definition parse_lob_bool_response :: "u8 list \<Rightarrow> lob_locator \<Rightarrow> bool result option" where
  "parse_lob_bool_response payload locator =
     run_lob is_parameter (\<lambda>st t. andSeq (skip_locator locator) (fmap (\<lambda>flag. 0 < flag) read_u8)) False payload"

definition parse_lob_simple_response :: "u8 list \<Rightarrow> lob_locator \<Rightarrow> unit result option" where
  "parse_lob_simple_response payload locator =
     run_lob is_parameter (\<lambda>st t. skip_locator locator) () payload"

definition parse_lob_amount_response :: "u8 list \<Rightarrow> lob_locator \<Rightarrow> u64 result option" where
  "parse_lob_amount_response payload locator =
     run_lob is_parameter (\<lambda>st t. andSeq (skip_locator locator) read_ub8) 0 payload"

text \<open>\<open>parse_lob_error\<close>, on the buffer behind the data flags.\<close>

definition parse_lob_error :: "rbuf \<Rightarrow> 'a result" where
  "parse_lob_error s =
     (case fst (parse_error_info s) of
        Inr info \<Rightarrow> Inl (Err (OracleError (ei_code info)
          (case ei_message info of Some m \<Rightarrow> m | None \<Rightarrow> ''Unknown LOB error'')))
      | Inl Panic \<Rightarrow> Inl Panic
      | Inl (Err e) \<Rightarrow> Inl (Err (Protocol ''LOB operation failed'')))"

end
