(* ===== verification/PickleLaws.thy ===== *)
theory PickleLaws
  imports Pickle
begin

section \<open>Correctness of the pickle format\<close>

text \<open>
  Every element type is a codec on the values it can hold, so a collection of such values is
  decoded back from its packed form.
\<close>

subsection \<open>Sized contents\<close>

definition sized_wire :: "u8 list \<Rightarrow> u8 list" where
  "sized_wire bs =
     (if length bs \<le> 245 then [of_nat (length bs)] else 254 # be_bytes 4 (of_nat (length bs) :: u32)) @ bs"

lemma length_sized_wire: "length (sized_wire bs) \<le> length bs + 5"
  by (simp add: sized_wire_def)

lemma writes_length [writes_intros]:
  "writes (write_length n) (if n \<le> 245 then [of_nat n] else 254 # be_bytes 4 (of_nat n :: u32))"
  using writes_andSeq [OF writes_raw(1) [of 254] writes_raw(6) [of "of_nat n"]] writes_raw(1) [of "of_nat n"]
  by (simp add: write_length_def pickle_consts)

lemma writes_sized [writes_intros]: "writes (write_sized bs) (sized_wire bs)"
  unfolding write_sized_def sized_wire_def by (intro writes_intros)

lemma writes_encoded: "r = Inr bs \<Longrightarrow> writes (write_encoded r) (sized_wire bs)"
  unfolding write_encoded_def by (erule writes_lift_res) (rule writes_sized)

lemma writes_four:
  "length bs = 4 \<Longrightarrow> writes m bs \<Longrightarrow> writes (andSeq (write_u8 4) m) (sized_wire bs)"
  "length bs = 8 \<Longrightarrow> writes m bs \<Longrightarrow> writes (andSeq (write_u8 8) m) (sized_wire bs)"
  using writes_andSeq [OF writes_raw(1) [of 4], of m bs] writes_andSeq [OF writes_raw(1) [of 8], of m bs]
  by (simp_all add: sized_wire_def)

lemma small_u8:
  assumes "n \<le> 245"
  shows "unat (of_nat n :: u8) = n" "(of_nat n :: u8) \<noteq> 253" "(of_nat n :: u8) \<noteq> 254" "(of_nat n :: u8) \<noteq> 255"
proof -
  show u: "unat (of_nat n :: u8) = n" using assms by (simp add: unat_of_nat)
  show "(of_nat n :: u8) \<noteq> 253" "(of_nat n :: u8) \<noteq> 254" "(of_nat n :: u8) \<noteq> 255"
    using u assms by (auto simp: word_unat_eq_iff)
qed

lemma reads_length:
  assumes "n < 4294967296"
  shows "reads read_length (if n \<le> 245 then [of_nat n] else 254 # be_bytes 4 (of_nat n :: u32)) (of_nat n)"
proof (cases "n \<le> 245")
  case True
  have "ucast (of_nat n :: u8) = (of_nat n :: u32)"
    using True by (simp add: word_unat_eq_iff unsigned_ucast_eq unat_of_nat take_bit_nat_eq_self)
  then show ?thesis
    using True by (auto simp: read_length_def pickle_consts small_u8 intro!: reads_u8_then reads_intros)
next
  case False
  then show ?thesis
    by (auto simp: read_length_def pickle_consts intro!: reads_u8_then reads_intros)
qed

lemma reads_sized:
  assumes "bs \<noteq> []" "length bs < 4294967296" and r: "reads (decode_sized t (length bs)) bs v"
  shows "reads (decode_value t) (sized_wire bs) v"
proof (cases "length bs \<le> 245")
  case True
  then show ?thesis
    using assms(1) r
    by (auto simp: sized_wire_def decode_value_def pickle_consts small_u8 intro!: reads_u8_then)
next
  case False
  have "unat (of_nat (length bs) :: u32) = length bs" using assms(2) by (simp add: unat_of_nat)
  then have "reads (fmap unat read_u32_be) (be_bytes 4 (of_nat (length bs) :: u32)) (length bs)"
    by (intro reads_fmap [OF reads_be_bytes(4)])
  then show ?thesis
    using False assms(1) r
    by (auto simp: sized_wire_def decode_value_def pickle_consts intro!: reads_u8_then reads_andThen)
qed

subsection \<open>The values each element type holds\<close>

definition timestamp_plain :: "oracle_timestamp \<Rightarrow> bool" where
  "timestamp_plain t \<longleftrightarrow> date_fits (to_date t) \<and> unat (ts_microsecond t) < 1000000
     \<and> ts_tz_hour_offset t = 0 \<and> ts_tz_minute_offset t = 0"

definition number_canonical :: "oracle_number \<Rightarrow> u8 list \<Rightarrow> bool" where
  "number_canonical n w \<longleftrightarrow>
     encode_oracle_number (on_value n) = Inr w \<and> decode_oracle_number w = Inr n \<and> w \<noteq> []
     \<and> number_to_value n = VNumber n"

definition interval_ym_fits :: "interval_ym \<Rightarrow> bool" where
  "interval_ym_fits v \<longleftrightarrow> i32_range (ym_years v) \<and> offset_range (ym_months v)"

definition interval_ds_fits :: "interval_ds \<Rightarrow> bool" where
  "interval_ds_fits v \<longleftrightarrow> i32_range (ds_days v) \<and> offset_range (ds_hours v) \<and> offset_range (ds_minutes v)
     \<and> offset_range (ds_seconds v) \<and> i32_range (ds_fseconds v)"

text \<open>\<open>holds t v bs\<close>: an element of type \<open>t\<close> can be \<open>v\<close>, and its contents are \<open>bs\<close>.\<close>

definition is_timestamp :: "oracle_type \<Rightarrow> bool" where
  "is_timestamp t \<longleftrightarrow> t = OraTimestamp \<or> t = OraTimestampTz \<or> t = OraTimestampLtz"

definition holds :: "oracle_type \<Rightarrow> value \<Rightarrow> u8 list \<Rightarrow> bool" where
  "holds t v bs \<longleftrightarrow>
     (case v of
        VString s \<Rightarrow> (t = OraVarchar \<or> t = OraChar) \<and> is_str s \<and> s \<noteq> [] \<and> bs = bytes_of_text s
      | VInteger i \<Rightarrow>
          t = OraNumber \<and> - (2 ^ 63) \<le> i \<and> i < 2 ^ 63 \<and> encode_oracle_number (show_int i) = Inr bs
          \<or> t = OraBinaryInteger \<and> 0 \<le> i \<and> i < 2 ^ 32 \<and> bs = be_bytes 4 (word_of_int i :: u32)
      | VNumber n \<Rightarrow> t = OraNumber \<and> number_canonical n bs
      | VBytes b \<Rightarrow> t = OraRaw \<and> b \<noteq> [] \<and> bs = b
      | VFloat f \<Rightarrow>
          t = OraBinaryDouble \<and> bs = encode_binary_double f
          \<or> t = OraBinaryFloat \<and> f64_of_f32 (f32_of_f64 f) = f \<and> bs = encode_binary_float (f32_of_f64 f)
      | VBoolean b \<Rightarrow> t = OraBoolean \<and> bs = be_bytes 4 (if b then 1 else 0 :: u32)
      | VDate d \<Rightarrow> t = OraDate \<and> date_fits d \<and> date_to_oracle_bytes d = Inr bs
      | VTimestamp ts \<Rightarrow> is_timestamp t \<and> timestamp_plain ts \<and> timestamp_to_oracle_bytes ts = Inr bs
      | VIntervalYM i \<Rightarrow> t = OraIntervalYm \<and> interval_ym_fits i \<and> encode_oracle_interval_ym i = Inr bs
      | VIntervalDS i \<Rightarrow> t = OraIntervalDs \<and> interval_ds_fits i \<and> encode_oracle_interval_ds i = Inr bs
      | _ \<Rightarrow> False)"

lemma reads_then_lift:
  "length bs = n \<Longrightarrow> r bs = Inr x \<Longrightarrow> g x = v \<Longrightarrow>
   reads (andThen (read_bytes_vec n) (\<lambda>bytes. fmap g (lift_res (r bytes)))) bs v"
  by (rule reads_andThen_Nil [OF reads_bytes_vec]) (auto simp: fmap_def intro!: reads_ok)

lemma length_date_bytes: "date_to_oracle_bytes d = Inr bs \<Longrightarrow> length bs = 7"
  by (auto simp: date_to_oracle_bytes_def encode_oracle_date_def res_bind_Inr_iff Let_def)

lemma decode_timestamp_plain:
  assumes "timestamp_plain t" "timestamp_to_oracle_bytes t = Inr bs"
  shows "length bs = 11" "decode_oracle_timestamp bs = Inr t"
proof -
  let ?m = "ts_microsecond t"
  have d: "date_fits (to_date t)" and m: "unat ?m < 4294968"
    using assms(1) by (auto simp: timestamp_plain_def)
  define c y where "c = century_byte (to_date t)" and "y = year_byte (to_date t)"
  obtain n0 n1 n2 n3 where n: "be_bytes 4 (?m * 1000) = [n0, n1, n2, n3]"
    using list4 [OF length_be_bytes [of 4 "?m * 1000"]] by blast
  have mic: "(be_word [n0, n1, n2, n3] :: u32) div 1000 = ?m"
    unfolding n [symmetric] using mul_micros(2) [OF m] by (simp add: be_word_be_bytes_full)
  have dec: "decode_oracle_date (c # y # ts_month t # ts_day t # (ts_hour t + 1) # (ts_minute t + 1)
      # (ts_second t + 1) # rest) = Inr (to_date t)" for rest
    using decode_encode_date [OF d, of rest] by (simp add: c_def y_def)
  have bs: "bs = [c, y, ts_month t, ts_day t, ts_hour t + 1, ts_minute t + 1, ts_second t + 1, n0, n1, n2, n3]"
    using assms(2) encode_date_fits [OF d] mul_micros(1) [OF m]
    by (simp add: timestamp_to_oracle_bytes_def date_to_oracle_bytes_def n c_def y_def)
  then show "length bs = 11" by simp
  have "t = \<lparr>ts_year = ts_year t, ts_month = ts_month t, ts_day = ts_day t, ts_hour = ts_hour t,
      ts_minute = ts_minute t, ts_second = ts_second t, ts_microsecond = ?m,
      ts_tz_hour_offset = 0, ts_tz_minute_offset = 0\<rparr>"
    using assms(1) by (cases t) (simp add: timestamp_plain_def)
  then show "decode_oracle_timestamp bs = Inr t"
    by (simp add: bs decode_oracle_timestamp_def dec mic Let_def)
qed


text \<open>What is held is written as its contents behind their length, and read back from them.\<close>

lemma holds_writes: "holds t v bs \<Longrightarrow> writes (encode_value debug t v) (sized_wire bs)"
  unfolding encode_value_def
  by (cases v)
    (auto simp: holds_def number_canonical_def encode_double_wire encode_float_wire
      intro!: writes_sized writes_encoded writes_four writes_raw)

lemma holds_integer:
  assumes "- (2 ^ 63) \<le> i" "i < 2 ^ 63" "encode_oracle_number (show_int i) = Inr bs"
  shows "bs \<noteq> []" "length bs \<le> 24" "fmap number_to_value (lift_res (decode_oracle_number bs)) = ok (VInteger i)"
proof -
  obtain w where w: "encode_oracle_number (show_int i) = Inr w" "w \<noteq> []" "length w \<le> 24"
    "decode_oracle_number w = Inr (number_of_int i)"
    using int_text_roundtrip [of i] assms(1,2) by (auto simp: abs_less_iff)
  with assms(3) show "bs \<noteq> []" "length bs \<le> 24" by auto
  have "number_to_value (number_of_int i) = VInteger i"
    using to_i64_number_of_int [OF assms(1,2)] by (simp add: number_to_value_def number_of_int_def)
  then show "fmap number_to_value (lift_res (decode_oracle_number bs)) = ok (VInteger i)"
    using w assms(3) by (auto simp: fmap_def)
qed

lemma be_bytes_ne [simp]: "be_bytes 4 w \<noteq> []" "be_bytes 8 u \<noteq> []"
  by (simp_all add: be_bytes_4 be_bytes_8)

lemma holds_reads:
  assumes "holds t v bs"
  shows "bs \<noteq> [] \<and> reads (decode_sized t (length bs)) bs v"
proof (cases v)
  case (VString s)
  with assms show ?thesis
    by (auto simp: holds_def decode_sized_def from_utf8_str intro!: reads_andThen_Nil [OF reads_bytes_vec] reads_ok
        simp: lift_res_def [symmetric])
      (simp_all add: reads_def lift_res_apply bytes_of_text_def)
next
  case (VInteger i)
  then consider "t = OraNumber" "- (2 ^ 63) \<le> i" "i < 2 ^ 63" "encode_oracle_number (show_int i) = Inr bs"
    | "t = OraBinaryInteger" "0 \<le> i" "i < 2 ^ 32" "bs = be_bytes 4 (word_of_int i :: u32)"
    using assms by (auto simp: holds_def)
  then show ?thesis
  proof cases
    case 1
    note h = holds_integer [OF 1(2-4)]
    show ?thesis
      using h(1) by (auto simp: 1(1) VInteger decode_sized_def intro!: reads_andThen_Nil [OF reads_bytes_vec] reads_ok)
        (simp add: h(3) reads_ok)
  next
    case 2
    have "uint (word_of_int i :: u32) = i" using 2 by (simp add: uint_word_of_int)
    then show ?thesis
      using reads_andThen_Nil [OF reads_be_bytes(4), of "\<lambda>v. andSeq (ok ()) (ok (VInteger (uint v)))" "word_of_int i" "VInteger i"]
      by (simp add: 2 VInteger decode_sized_def andSeq_def reads_ok)
  qed
next
  case (VFloat f)
  then consider "t = OraBinaryDouble" "bs = encode_binary_double f"
    | "t = OraBinaryFloat" "f64_of_f32 (f32_of_f64 f) = f" "bs = encode_binary_float (f32_of_f64 f)"
    using assms by (auto simp: holds_def)
  then show ?thesis
  proof cases
    case 1
    have "decode_binary_double bs = f"
      using decode_double_wire [of "wire_float f" "[]"] by (simp add: 1 encode_double_wire)
    then show ?thesis
      by (auto simp: 1 VFloat decode_sized_def encode_double_wire intro!: reads_fmap [OF reads_bytes_vec])
  next
    case 2
    have "decode_binary_float bs = f32_of_f64 f"
      using decode_float_wire [of "wire_float (f32_of_f64 f)" "[]"] by (simp add: 2 encode_float_wire)
    then show ?thesis
      using 2(2) by (auto simp: 2(1,3) VFloat decode_sized_def encode_float_wire intro!: reads_fmap [OF reads_bytes_vec])
  qed
next
  case (VNumber n)
  then have n: "t = OraNumber" "decode_oracle_number bs = Inr n" "bs \<noteq> []" "number_to_value n = VNumber n"
    using assms by (auto simp: holds_def number_canonical_def)
  then show ?thesis
    by (auto simp: VNumber decode_sized_def intro!: reads_then_lift)
next
  case (VBytes b)
  then show ?thesis
    using assms by (auto simp: holds_def decode_sized_def intro!: reads_fmap [OF reads_bytes_vec])
next
  case (VBoolean b)
  then have b: "t = OraBoolean" "bs = be_bytes 4 (if b then 1 else 0 :: u32)" using assms by (auto simp: holds_def)
  then show ?thesis
    by (auto simp: VBoolean decode_sized_def intro!: reads_fmap [OF reads_be_bytes(4)])
next
  case (VDate d)
  then have d: "t = OraDate" "date_fits d" "date_to_oracle_bytes d = Inr bs" using assms by (auto simp: holds_def)
  have "decode_oracle_date bs = Inr d"
    using decode_encode_date [OF d(2), of "[]"] encode_date_fits [OF d(2)] d(3) by (simp add: date_to_oracle_bytes_def)
  then show ?thesis
    using length_date_bytes [OF d(3)] by (auto simp: VDate d(1) decode_sized_def intro!: reads_then_lift)
next
  case (VTimestamp ts)
  then have ts: "is_timestamp t" "timestamp_plain ts" "timestamp_to_oracle_bytes ts = Inr bs"
    using assms by (auto simp: holds_def)
  note d = decode_timestamp_plain [OF ts(2,3)]
  then have "bs \<noteq> []" by auto
  then show ?thesis
    using ts(1) d by (auto simp: VTimestamp is_timestamp_def decode_sized_def intro!: reads_then_lift)
next
  case (VIntervalYM i)
  then have i: "t = OraIntervalYm" "interval_ym_fits i" "encode_oracle_interval_ym i = Inr bs"
    using assms by (auto simp: holds_def)
  then have "length bs = 5" "decode_oracle_interval_ym bs = Inr i"
    using interval_ym_wire [of i] by (auto simp: interval_ym_fits_def)
  moreover from this have "bs \<noteq> []" by auto
  ultimately show ?thesis by (auto simp: VIntervalYM i(1) decode_sized_def intro!: reads_then_lift)
next
  case (VIntervalDS i)
  then have i: "t = OraIntervalDs" "interval_ds_fits i" "encode_oracle_interval_ds i = Inr bs"
    using assms by (auto simp: holds_def)
  then have "length bs = 11" "decode_oracle_interval_ds bs = Inr i"
    using interval_ds_wire [of i] by (auto simp: interval_ds_fits_def)
  moreover from this have "bs \<noteq> []" by auto
  ultimately show ?thesis by (auto simp: VIntervalDS i(1) decode_sized_def intro!: reads_then_lift)
qed (use assms in \<open>auto simp: holds_def\<close>)

subsection \<open>Elements as a codec\<close>

definition element_ok :: "oracle_type \<Rightarrow> value \<Rightarrow> bool" where
  "element_ok t v \<longleftrightarrow> v = VNull \<or> (\<exists>bs. holds t v bs \<and> length bs < 4294967296)"

definition element_wire :: "oracle_type \<Rightarrow> value \<Rightarrow> u8 list" where
  "element_wire t v =
     (case v of
        VNull \<Rightarrow> [255]
      | VString s \<Rightarrow> sized_wire (bytes_of_text s)
      | VInteger i \<Rightarrow>
          (if t = OraBinaryInteger then sized_wire (be_bytes 4 (word_of_int i :: u32))
           else case encode_oracle_number (show_int i) of Inl _ \<Rightarrow> [] | Inr bs \<Rightarrow> sized_wire bs)
      | VNumber n \<Rightarrow> (case encode_oracle_number (on_value n) of Inl _ \<Rightarrow> [] | Inr bs \<Rightarrow> sized_wire bs)
      | VBytes b \<Rightarrow> sized_wire b
      | VFloat f \<Rightarrow>
          sized_wire (if t = OraBinaryDouble then encode_binary_double f else encode_binary_float (f32_of_f64 f))
      | VBoolean b \<Rightarrow> sized_wire (be_bytes 4 (if b then 1 else 0 :: u32))
      | VDate d \<Rightarrow> (case date_to_oracle_bytes d of Inl _ \<Rightarrow> [] | Inr bs \<Rightarrow> sized_wire bs)
      | VTimestamp ts \<Rightarrow> (case timestamp_to_oracle_bytes ts of Inl _ \<Rightarrow> [] | Inr bs \<Rightarrow> sized_wire bs)
      | VIntervalYM i \<Rightarrow> (case encode_oracle_interval_ym i of Inl _ \<Rightarrow> [] | Inr bs \<Rightarrow> sized_wire bs)
      | VIntervalDS i \<Rightarrow> (case encode_oracle_interval_ds i of Inl _ \<Rightarrow> [] | Inr bs \<Rightarrow> sized_wire bs)
      | _ \<Rightarrow> [])"

lemma holds_wire: "holds t v bs \<Longrightarrow> element_wire t v = sized_wire bs"
  by (cases v) (auto simp: holds_def element_wire_def number_canonical_def)

interpretation pickled: codec "encode_value debug t" "decode_value t" "element_wire t" "element_ok t"
  for debug t
proof unfold_locales
  fix v assume v: "element_ok t v"
  show "writes (encode_value debug t v) (element_wire t v)"
    using v holds_writes by (auto simp: element_ok_def holds_wire)
      (simp add: encode_value_def element_wire_def pickle_consts writes_raw)
  show "reads (decode_value t) (element_wire t v) v"
    using v holds_reads reads_sized by (auto simp: element_ok_def holds_wire)
      (auto simp: element_wire_def decode_value_def pickle_consts intro!: reads_u8_then reads_ok)
qed

subsection \<open>Collections\<close>

text \<open>The index of an index-by table's element precedes it; the other collections have none.\<close>

definition index_wire :: "collection_type \<Rightarrow> nat \<Rightarrow> u8 list" where
  "index_wire ct idx = (if ct = PlsqlIndexTable then be_bytes 4 (of_nat idx :: u32) else [])"

fun elements_wire :: "collection_type \<Rightarrow> oracle_type \<Rightarrow> nat \<Rightarrow> value list \<Rightarrow> u8 list" where
  "elements_wire ct t idx [] = []"
| "elements_wire ct t idx (v # vs) = index_wire ct idx @ element_wire t v @ elements_wire ct t (idx + 1) vs"

lemma writes_index:
  "writes (if ct = PlsqlIndexTable then write_u32_be (of_nat idx) else ok ()) (index_wire ct idx)"
  by (auto simp: index_wire_def intro: writes_raw writes_ok)

lemma writes_elements:
  "list_all (element_ok t) vs \<Longrightarrow> writes (write_elements debug ct t idx vs) (elements_wire ct t idx vs)"
proof (induction vs arbitrary: idx)
  case Nil
  show ?case by (simp add: writes_ok)
next
  case (Cons v vs)
  show ?case
    unfolding write_elements.simps elements_wire.simps
    by (intro writes_andSeq writes_index pickled.enc_writes Cons.IH) (use Cons.prems in simp_all)
qed

lemma reads_elements:
  "list_all (element_ok t) vs \<Longrightarrow>
   reads (read_n (andSeq (skip_index ct) (decode_value t)) (length vs)) (elements_wire ct t idx vs) vs"
proof (induction vs arbitrary: idx)
  case Nil
  show ?case by (simp add: reads_ok)
next
  case (Cons v vs)
  have "reads (skip_index ct) (index_wire ct idx) ()"
    by (auto simp: skip_index_def index_wire_def intro!: reads_ok reads_fmap [OF reads_be_bytes(4)])
  then have "reads (andSeq (skip_index ct) (decode_value t)) (index_wire ct idx @ element_wire t v) v"
    unfolding andSeq_def using Cons.prems by (intro reads_andThen pickled.dec_reads) simp_all
  moreover have "reads (read_n (andSeq (skip_index ct) (decode_value t)) (length vs)) (elements_wire ct t (idx + 1) vs) vs"
    using Cons.IH Cons.prems by simp
  ultimately have "reads (read_n (andSeq (skip_index ct) (decode_value t)) (length (v # vs)))
      ((index_wire ct idx @ element_wire t v) @ elements_wire ct t (idx + 1) vs) (v # vs)"
    unfolding list.size add_Suc_right add_0_right read_n.simps
    by (intro reads_andThen [of _ _ v] reads_fmap [of _ _ vs]) simp_all
  then show ?case by simp
qed

lemma reads_prefix_segment: "reads skip_prefix_segment [1, 1] ()"
  by (auto simp: reads_def skip_prefix_segment_def remaining_def peek_u8_def skip_def rd_prim_defs)

lemma reads_image_header:
  fixes total :: u32
  shows "reads read_header (0x88 # 1 # 254 # be_bytes 4 total @ [1, 1]) (0x88, 1)"
proof -
  have "reads skip_length (254 # be_bytes 4 total) ()"
    by (auto simp: skip_length_def pickle_consts intro!: reads_u8_then reads_skip)
  moreover have "reads (andSeq skip_prefix_segment (ok (0x88, 1))) ([1, 1] @ []) (0x88 :: u8, 1 :: u8)"
    unfolding andSeq_def by (rule reads_andThen [OF reads_prefix_segment reads_ok])
  ultimately have "reads (andSeq skip_length (andSeq skip_prefix_segment (ok (0x88, 1))))
      ((254 # be_bytes 4 total) @ [1, 1]) (0x88 :: u8, 1 :: u8)"
    unfolding andSeq_def [of skip_length] by (intro reads_andThen) auto
  then show ?thesis
    by (auto simp: read_header_def pickle_consts intro!: reads_u8_then)
qed

subsection \<open>Whole collections\<close>

lemma writes_collection:
  assumes "list_all (element_ok (element_type_of t)) (obj_elements obj)"
  defines "n \<equiv> length (obj_elements obj)"
  shows "writes (write_collection debug obj t)
    ([0x88, 1, 254] @ be_bytes 4 (0 :: u32) @ [1, 1, collection_code (collection_type_of t)]
     @ (if n \<le> 245 then [of_nat n] else 254 # be_bytes 4 (of_nat n :: u32))
     @ elements_wire (collection_type_of t) (element_type_of t) 0 (obj_elements obj))"
proof -
  have "writes (write_collection debug obj t)
    ([IS_VERSION_81 OR IS_COLLECTION] @ [IMAGE_VERSION] @ [LONG_LENGTH_INDICATOR] @ be_bytes 4 (0 :: u32) @ [1] @ [1]
     @ [collection_code (collection_type_of t)]
     @ (if n \<le> 245 then [of_nat n] else 254 # be_bytes 4 (of_nat n :: u32))
     @ elements_wire (collection_type_of t) (element_type_of t) 0 (obj_elements obj))"
    unfolding write_collection_def n_def
    by (intro writes_andSeq writes_raw writes_length writes_elements assms(1))
  then show ?thesis by (simp add: pickle_consts)
qed

lemma collection_image:
  assumes "list_all (element_ok (element_type_of t)) (obj_elements obj)"
  defines "n \<equiv> length (obj_elements obj)"
  shows "\<exists>total. encode_collection debug obj t = Inr ((0x88 # 1 # 254 # be_bytes 4 (total :: u32) @ [1, 1])
     @ [collection_code (collection_type_of t)]
     @ (if n \<le> 245 then [of_nat n] else 254 # be_bytes 4 (of_nat n :: u32))
     @ elements_wire (collection_type_of t) (element_type_of t) 0 (obj_elements obj))"
proof -
  define rest where "rest = [1, 1, collection_code (collection_type_of t)]
     @ (if n \<le> 245 then [of_nat n] else 254 # be_bytes 4 (of_nat n :: u32))
     @ elements_wire (collection_type_of t) (element_type_of t) 0 (obj_elements obj)"
  define data where "data = [0x88, 1, 254] @ be_bytes 4 (0 :: u32) @ rest"
  have "write_collection debug obj t wbuf_new = (Inr (), wbuf_new\<lparr>wb_data := data\<rparr>)"
    using writesD [OF writes_collection [OF assms(1)], of wbuf_new debug]
    by (simp add: fits_def wbuf_new_def data_def rest_def n_def)
  moreover have "copy_at (2 + 1) (be_bytes 4 (of_nat (length data) :: u32)) data
      = (Inr ([0x88, 1, 254] @ be_bytes 4 (of_nat (length data) :: u32) @ rest) :: u8 list result)"
    unfolding data_def by (rule copy_at_ok) simp_all
  ultimately show ?thesis
    unfolding encode_collection_def by (intro exI [of _ "of_nat (length data)"]) (simp add: rest_def)
qed

lemma reads_collection:
  fixes total :: u32
  assumes "list_all (element_ok (element_type_of t)) vs" "length vs < 4294967296"
  defines "n \<equiv> length vs"
  shows "reads (read_collection t) ((0x88 # 1 # 254 # be_bytes 4 total @ [1, 1]) @ [code]
     @ (if n \<le> 245 then [of_nat n] else 254 # be_bytes 4 (of_nat n :: u32))
     @ elements_wire (collection_type_of t) (element_type_of t) 0 vs) vs"
  unfolding read_collection_def andSeq_def [of read_header] andSeq_def [of read_u8] n_def
proof (intro reads_andThen [OF reads_image_header] reads_andThen [OF reads_u8] reads_andThen [OF reads_length])
  have "unat (of_nat (length vs) :: u32) = length vs" using assms(2) by (simp add: unat_of_nat)
  then show "reads (read_n (andSeq (skip_index (collection_type_of t)) (decode_value (element_type_of t)))
      (unat (of_nat (length vs) :: u32))) (elements_wire (collection_type_of t) (element_type_of t) 0 vs) vs"
    using reads_elements [OF assms(1)] by simp
qed (rule assms(2))

lemma collection_decodes:
  assumes "list_all (element_ok (element_type_of t)) (obj_elements obj)" "length (obj_elements obj) < 4294967296"
    and "obj_is_collection obj" "obj_values obj = []" "obj_type_name obj = full_name t"
  shows "\<exists>data. encode_collection debug obj t = Inr data \<and> decode_collection t data = Inr obj"
proof -
  define n where "n = length (obj_elements obj)"
  obtain total :: u32 where e: "encode_collection debug obj t = Inr ((0x88 # 1 # 254 # be_bytes 4 total @ [1, 1])
     @ [collection_code (collection_type_of t)]
     @ (if n \<le> 245 then [of_nat n] else 254 # be_bytes 4 (of_nat n :: u32))
     @ elements_wire (collection_type_of t) (element_type_of t) 0 (obj_elements obj))"
    using collection_image [OF assms(1)] unfolding n_def by blast
  note r = reads_collection [OF assms(1,2), of total "collection_code (collection_type_of t)", folded n_def]
  have "obj = DbObject (full_name t) [] (obj_elements obj) True"
    using assms(3-5) by (cases obj) simp
  then show ?thesis
    using e reads_new [OF r, of "[]"] by (simp add: decode_collection_def)
qed

subsection \<open>Properties\<close>


definition test_table :: db_object_type where
  "test_table = object_type_collection ''HR'' ''NUMS'' PlsqlIndexTable OraNumber"


text \<open>
  A negative \<open>BINARY_INTEGER\<close> element does not survive: it is packed as its low 32 bits and
  read back unsigned.
\<close>

theorem negative_binary_integer_lost:
  assumes "- (2 ^ 31) \<le> i" "i < 0"
  shows "\<exists>w. encode_value debug OraBinaryInteger (VInteger i) wbuf_new = (Inr (), w)
    \<and> fst (decode_value OraBinaryInteger (rbuf_new (wb_data w))) = Inr (VInteger (i + 2 ^ 32))"
proof -
  have same: "encode_value debug OraBinaryInteger (VInteger i) = encode_value debug OraBinaryInteger (VInteger (i + 2 ^ 32))"
  proof -
    have "(word_of_int i :: u32) = word_of_int (i + 2 ^ 32)"
      by (simp only: word_of_int_eq_iff) (simp add: take_bit_eq_mod)
    then show ?thesis unfolding encode_value_def "value.case" oracle_type.case by (rule arg_cong)
  qed
  have "element_ok OraBinaryInteger (VInteger (i + 2 ^ 32))"
    using assms by (simp add: element_ok_def holds_def)
  from pickled.roundtrip_new [OF this, where debug = debug and post = "[]"] show ?thesis
    unfolding same by (auto split: prod.splits)
qed

theorem negative_binary_integer_lost_witness:
  "\<exists>w. encode_value (\<lambda>_. []) OraBinaryInteger (VInteger (-1)) wbuf_new = (Inr (), w)
    \<and> fst (decode_value OraBinaryInteger (rbuf_new (wb_data w))) = Inr (VInteger (-1 + 2 ^ 32))"
  by (rule negative_binary_integer_lost) simp_all

end
