(* ===== verification/ColumnLaws.thy ===== *)
theory ColumnLaws
  imports Columns PickleLaws
begin

section \<open>Properties of the column decoders\<close>

subsection \<open>Staying in the buffer\<close>

text \<open>
  \<open>stays np m\<close>: the reader never leaves the buffer and never moves back, whether it succeeds or
  fails; with \<open>np\<close> it does not panic either.
\<close>

definition stays :: "bool \<Rightarrow> 'a reader \<Rightarrow> bool" where
  "stays np m \<longleftrightarrow>
     (\<forall>s r s'. rb_wf s \<longrightarrow> m s = (r, s') \<longrightarrow> rd_frame s s' \<and> (np \<longrightarrow> r \<noteq> Inl Panic))"

named_theorems stays_intros

lemma staysD: "stays np m \<Longrightarrow> rb_wf s \<Longrightarrow> m s = (r, s') \<Longrightarrow> rd_frame s s' \<and> (np \<longrightarrow> r \<noteq> Inl Panic)"
  by (simp add: stays_def)

lemma stays_safe: "rd_safe m \<Longrightarrow> stays np m"
  unfolding stays_def using rd_postD by blast

lemmas stays_prims [stays_intros] =
  rd_skip [THEN stays_safe] rd_read_u8 [THEN stays_safe] rd_read_bytes_vec [THEN stays_safe]
  rd_read_ub2 [THEN stays_safe] rd_read_ub4 [THEN stays_safe] rd_read_ub8 [THEN stays_safe]
  rd_read_sb2 [THEN stays_safe] rd_skip_ub [THEN stays_safe] rd_read_chunks [THEN stays_safe]
  rd_read_u32_be [THEN stays_safe] rd_peek_u8 [THEN stays_safe]
  rd_skip_raw_bytes_chunked [THEN stays_safe] rd_read_raw_bytes_chunked [THEN stays_safe]
  rd_read_bytes_with_length [THEN stays_safe] rd_read_string_with_length [THEN stays_safe]
  rd_read_string_with_ub4_length [THEN stays_safe]

lemma stays_andThen [stays_intros]:
  assumes "stays np m" "\<And>a. stays np (f a)"
  shows "stays np (andThen m f)"
  unfolding stays_def
proof (intro allI impI)
  fix s r s' assume wf: "rb_wf s" and run: "andThen m f s = (r, s')"
  obtain r1 s1 where m1: "m s = (r1, s1)" by fastforce
  note m' = staysD [OF assms(1) wf m1]
  show "rd_frame s s' \<and> (np \<longrightarrow> r \<noteq> Inl Panic)"
  proof (cases r1)
    case (Inl e)
    then show ?thesis using run m1 m' by auto
  next
    case (Inr a)
    then have "f a s1 = (r, s')" using run m1 by simp
    from staysD [OF assms(2) rd_frame_wf this] m' show ?thesis
      by (blast intro: rd_frame_trans)
  qed
qed

lemma stays_andSeq [stays_intros]: "stays np m \<Longrightarrow> stays np k \<Longrightarrow> stays np (andSeq m k)"
  by (simp add: andSeq_def stays_andThen)

lemma stays_lift_res: "(np \<Longrightarrow> r \<noteq> Inl Panic) \<Longrightarrow> stays np (lift_res r)"
  by (auto simp: stays_def lift_res_apply)

lemma stays_simple [stays_intros]: "stays np (ok a)" "stays np (fail e)"
  by (auto simp: stays_def action_apply)

lemma stays_fmap [stays_intros]: "stays np m \<Longrightarrow> stays np (fmap g m)"
  unfolding fmap_def by (intro stays_intros)

lemma stays_if [stays_intros]: "(c \<Longrightarrow> stays np a) \<Longrightarrow> (\<not> c \<Longrightarrow> stays np b) \<Longrightarrow> stays np (if c then a else b)"
  by simp

lemma stays_read_n [stays_intros]: "stays np m \<Longrightarrow> stays np (read_n m n)"
  by (induction n) (auto intro!: stays_intros)

lemma stays_case_prod [stays_intros]: "(\<And>a b. p = (a, b) \<Longrightarrow> stays np (f a b)) \<Longrightarrow> stays np (case p of (a, b) \<Rightarrow> f a b)"
  by (cases p) simp

lemma stays_case_option [stays_intros]:
  "(p = None \<Longrightarrow> stays np a) \<Longrightarrow> (\<And>x. p = Some x \<Longrightarrow> stays np (f x)) \<Longrightarrow> stays np (case p of None \<Rightarrow> a | Some x \<Rightarrow> f x)"
  by (cases p) simp_all

lemma stays_Let [stays_intros]: "stays np (f a) \<Longrightarrow> stays np (let x = a in f x)"
  by simp

lemma stays_guard [stays_intros]:
  "(\<And>s. c s \<Longrightarrow> stays np m) \<Longrightarrow> (\<And>s. \<not> c s \<Longrightarrow> stays np k) \<Longrightarrow> stays np (\<lambda>s. if c s then m s else k s)"
  by (auto simp: stays_def)

lemma stays_pure [stays_intros]: "stays np (\<lambda>s. (Inr (f s), s))"
  by (auto simp: stays_def)

subsection \<open>Metadata\<close>

lemma stays_describe_column [stays_intros]: "stays np (parse_describe_column ver)"
  unfolding parse_describe_column_def skip_annotations_def skip_annotation_def by (intro stays_intros)

lemma stays_describe [stays_intros]: "stays np (parse_describe_info ver)"
  unfolding parse_describe_info_def by (intro stays_intros)

subsection \<open>Values\<close>

lemma decode_number_no_panic [simp]: "decode_oracle_number bs \<noteq> Inl Panic"
  by (auto simp: decode_oracle_number_def Let_def split: prod.splits)

lemma decode_date_no_panic [simp]: "decode_oracle_date bs \<noteq> Inl Panic"
  by (simp add: decode_oracle_date_def Let_def)

lemma read_excess_no_panic [simp]: "read_excess_i32 bs \<noteq> Inl Panic"
  by (simp add: read_excess_i32_def)

lemma res_bind_no_panic: "r \<noteq> Inl Panic \<Longrightarrow> (\<And>a. f a \<noteq> Inl Panic) \<Longrightarrow> res_bind r f \<noteq> Inl Panic"
  by (cases r) auto

lemma decode_interval_no_panic [simp]:
  "decode_oracle_interval_ym bs \<noteq> Inl Panic" "decode_oracle_interval_ds bs \<noteq> Inl Panic"
  by (simp_all add: decode_oracle_interval_ym_def decode_oracle_interval_ds_def res_bind_no_panic)

lemma wrap_no_panic: "r \<noteq> Inl Panic \<Longrightarrow> wrap c r \<noteq> Inl Panic"
  by (simp add: wrap_def res_bind_no_panic)

lemma number_value_no_panic: "number_value bs \<noteq> Inl Panic"
  by (simp add: number_value_def res_bind_no_panic)

lemma plain_value_no_panic: "\<not> is_timestamp t \<Longrightarrow> plain_value t bs \<noteq> Inl Panic"
  by (cases t) (auto simp: plain_value_def is_timestamp_def number_value_no_panic intro!: wrap_no_panic)

lemma or_null_no_panic: "(\<And>bs. f bs \<noteq> Inl Panic) \<Longrightarrow> or_null f data \<noteq> Inl Panic"
  by (auto simp: or_null_def split: option.splits)

text \<open>Columns whose values are decoded without a panic on any bytes.\<close>

definition panic_free :: "column_info \<Rightarrow> bool" where
  "panic_free col \<longleftrightarrow>
     \<not> is_timestamp (ci_oracle_type col) \<and> \<not> is_json_column col
     \<and> ci_oracle_type col \<noteq> OraVector \<and> ci_oracle_type col \<noteq> OraObject"

lemma stays_lob:
  assumes "np \<Longrightarrow> \<not> is_json_column col \<and> ci_oracle_type col \<noteq> OraVector"
  shows "stays np (parse_lob_value ins depth col)"
  unfolding parse_lob_value_def
  using assms by (cases "is_json_column col"; cases "ci_oracle_type col = OraVector")
    (auto intro!: stays_intros stays_lift_res)

lemma stays_cursor: "stays np (parse_cursor_value ver)"
  unfolding parse_cursor_value_def by (intro stays_intros)

lemma stays_object: "stays False (parse_object_value col)"
  unfolding parse_object_value_def read_oid_def by (intro stays_intros stays_lift_res) simp

lemma stays_column_value:
  assumes "np \<Longrightarrow> panic_free col"
  shows "stays np (parse_column_value ins depth ver col)"
proof -
  have "stays np (parse_object_value col)" if "ci_oracle_type col = OraObject"
    using assms that stays_object by (cases np) (auto simp: panic_free_def)
  moreover have "stays np (parse_lob_value ins depth col)"
    using assms by (intro stays_lob) (simp add: panic_free_def)
  moreover have "stays np (lift_res (or_null (plain_value (ci_oracle_type col)) data))" for data
    using assms by (intro stays_lift_res or_null_no_panic plain_value_no_panic) (simp add: panic_free_def)
  ultimately show ?thesis
    unfolding parse_column_value_def by (auto intro!: stays_intros stays_cursor)
qed

lemma stays_columns:
  "(\<And>col. col \<in> set cols \<Longrightarrow> stays np (dec col)) \<Longrightarrow> stays np (decode_columns dec dup prev i cols)"
  by (induction cols arbitrary: i) (auto intro!: stays_intros)

lemma stays_row:
  assumes "np \<Longrightarrow> \<forall>col\<in>set columns. panic_free col"
  shows "stays np (parse_row_data_with_bitvector ins depth ver columns bv prev)"
  unfolding parse_row_data_with_bitvector_def
  using assms by (intro stays_fmap stays_columns stays_column_value) auto

subsection \<open>Lossy text is text\<close>

lemma utf8_tail_take: "utf8_tail k n bs = None \<Longrightarrow> n \<le> length bs \<and> utf8_tail k n (take n bs @ rest) = None"
  by (induction k n bs rule: utf8_tail.induct) (auto split: if_splits)

lemma utf8_seq_take:
  assumes "utf8_seq_error b bs = None"
  shows "0 < utf8_width b \<and> utf8_width b - 1 \<le> length bs
    \<and> utf8_seq_error b (take (utf8_width b - 1) bs @ rest) = None"
proof (cases "utf8_width b = 1 \<or> utf8_width b = 0")
  case True
  then show ?thesis using assms by (auto simp: utf8_seq_error_def)
next
  case False
  then obtain w where w: "utf8_width b = Suc (Suc w)" by (metis not0_implies_Suc One_nat_def)
  then obtain b1 bs' where bs: "bs = b1 # bs'" "second_ok b b1" "utf8_tail 2 w bs' = None"
    using assms by (auto simp: utf8_seq_error_def split: list.splits if_splits)
  show ?thesis using utf8_tail_take [OF bs(3), of rest] bs w by (simp add: utf8_seq_error_def)
qed

lemma utf8_error_step:
  assumes "utf8_seq_error b bs = None"
  shows "utf8_error i (take (utf8_width b) (b # bs) @ rest) = utf8_error (i + utf8_width b) rest"
proof -
  note t = utf8_seq_take [OF assms, of rest]
  then have "take (utf8_width b) (b # bs) = b # take (utf8_width b - 1) bs"
    by (cases "utf8_width b") simp_all
  then show ?thesis using t by simp
qed

lemma utf8_error_lossy: "utf8_error i (lossy_bytes bs) = None"
proof (induction bs arbitrary: i rule: lossy_bytes.induct)
  case (2 b bs)
  have w: "utf8_width 0xEF = 3" by (simp add: utf8_width_def)
  have e: "utf8_seq_error 0xEF [0xBF, 0xBD] = None" by code_simp
  have r: "utf8_error i (REPLACEMENT @ rest) = utf8_error (i + 3) rest" for i rest
    using utf8_error_step [OF e, of i rest] by (simp only: REPLACEMENT_def w) simp
  show ?case
  proof (cases "utf8_seq_error b bs")
    case None
    then show ?thesis using utf8_error_step [OF None] "2.IH"(1) [OF None] by simp
  next
    case (Some e)
    then show ?thesis
      using r [of i "[]"] "2.IH"(2) [OF Some] by (cases e) (simp_all add: r)
  qed
qed simp

lemma is_str_lossy: "is_str (from_utf8_lossy bs)"
  by (simp add: is_str_def from_utf8_lossy_def utf8_error_lossy)

subsection \<open>What kind of value a column gives\<close>

lemma parse_digits_range: "parse_digits neg lo hi acc cs = Inr i \<Longrightarrow> lo \<le> acc \<Longrightarrow> acc \<le> hi \<Longrightarrow> lo \<le> i \<and> i \<le> hi"
  by (induction neg lo hi acc cs rule: parse_digits.induct) (auto simp: Let_def not_less split: if_splits)

lemma parse_i64_range: "parse_i64 s = Inr i \<Longrightarrow> - (2 ^ 63) \<le> i \<and> i < 2 ^ 63"
  using parse_digits_range [of False "- (2 ^ 63)" "2 ^ 63 - 1" 0 s i]
    parse_digits_range [of False "- (2 ^ 63)" "2 ^ 63 - 1" 0 "tl s" i]
    parse_digits_range [of True "- (2 ^ 63)" "2 ^ 63 - 1" 0 "tl s" i]
  by (auto simp: parse_i64_def parse_int_def split: if_splits)

definition i64_range :: "int \<Rightarrow> bool" where
  "i64_range i \<longleftrightarrow> - (2 ^ 63) \<le> i \<and> i < 2 ^ 63"

lemma to_i64_range: "to_i64 n = Inr i \<Longrightarrow> i64_range i"
  using parse_i64_range by (auto simp: to_i64_def i64_range_def split: if_splits sum.splits)

definition conforms :: "column_info \<Rightarrow> value \<Rightarrow> bool" where
  "conforms col v =
     (let t = ci_oracle_type col
      in if is_lob t \<and> is_json_column col then (case v of VJson _ \<Rightarrow> True | _ \<Rightarrow> False)
         else case v of
           VNull \<Rightarrow> t \<noteq> OraClob \<and> t \<noteq> OraBlob \<and> t \<noteq> OraBfile \<and> t \<noteq> OraCursor
         | VInteger i \<Rightarrow> (t = OraNumber \<or> t = OraBinaryInteger) \<and> i64_range i
         | VNumber _ \<Rightarrow> t = OraNumber \<or> t = OraBinaryInteger
         | VFloat _ \<Rightarrow> t = OraBinaryFloat \<or> t = OraBinaryDouble
         | VBytes bs \<Rightarrow> (t = OraRaw \<or> t = OraLongRaw \<or> t = OraObject) \<and> bs \<noteq> []
         | VDate _ \<Rightarrow> t = OraDate
         | VTimestamp _ \<Rightarrow> is_timestamp t
         | VIntervalYM _ \<Rightarrow> t = OraIntervalYm
         | VIntervalDS _ \<Rightarrow> t = OraIntervalDs
         | VLob (LobLoc l) \<Rightarrow> (t = OraClob \<or> t = OraBlob \<or> t = OraBfile) \<and> loc_type l = t \<and> loc_bytes l \<noteq> []
         | VLob (LobInline _) \<Rightarrow> False
         | VLob _ \<Rightarrow> t = OraClob \<or> t = OraBlob \<or> t = OraBfile
         | VVector _ \<Rightarrow> t = OraVector
         | VCursor c \<Rightarrow> t = OraCursor \<and> \<not> rc_fetched c
         | VCollection _ \<Rightarrow> t = OraObject
         | VString s \<Rightarrow> is_str s \<and> (t = OraVarchar \<or> t = OraChar \<or> t = OraLong \<or> t = OraRowid \<or> t = OraUrowid
             \<or> t = OraBoolean)
         | _ \<Rightarrow> False)"

text \<open>\<open>yields m P\<close>: whatever the reader returns satisfies \<open>P\<close>.\<close>

definition yields :: "'a reader \<Rightarrow> ('a \<Rightarrow> bool) \<Rightarrow> bool" where
  "yields m P \<longleftrightarrow> (\<forall>s v s'. m s = (Inr v, s') \<longrightarrow> P v)"

lemma yields_andThen: "(\<And>a. yields (f a) P) \<Longrightarrow> yields (andThen m f) P"
  by (auto simp: yields_def andThen_apply split: prod.splits sum.splits)

lemma yields_andSeq: "yields k P \<Longrightarrow> yields (andSeq m k) P"
  by (simp add: andSeq_def yields_andThen)

lemma yields_ok: "P a \<Longrightarrow> yields (ok a) P"
  by (simp add: yields_def ok_apply)

lemma yields_lift_res: "(\<And>a. r = Inr a \<Longrightarrow> P a) \<Longrightarrow> yields (lift_res r) P"
  by (simp add: yields_def lift_res_apply)

lemma yields_fmap: "(\<And>a. P (g a)) \<Longrightarrow> yields (fmap g m) P"
  unfolding fmap_def by (intro yields_andThen yields_ok)

lemma yields_if: "(c \<Longrightarrow> yields a P) \<Longrightarrow> (\<not> c \<Longrightarrow> yields b P) \<Longrightarrow> yields (if c then a else b) P"
  by simp

lemmas yields_intros = yields_andThen yields_andSeq yields_ok yields_lift_res yields_fmap yields_if

lemma number_value_kind: "number_value bs = Inr v \<Longrightarrow> (\<exists>i. v = VInteger i \<and> i64_range i) \<or> (\<exists>n. v = VNumber n)"
  using to_i64_range by (auto simp: number_value_def res_bind_Inr_iff number_to_value_def split: if_splits sum.splits)

lemma wrap_Inr: "wrap c r = Inr v \<longleftrightarrow> (\<exists>a. r = Inr a \<and> v = c a)"
  by (auto simp: wrap_def res_bind_Inr_iff)

lemma plain_value_conforms:
  assumes "plain_value (ci_oracle_type col) bs = Inr v" "bs \<noteq> []"
    and "\<not> is_lob (ci_oracle_type col)" "ci_oracle_type col \<noteq> OraCursor" "ci_oracle_type col \<noteq> OraObject"
  shows "conforms col v"
  using assms
  by (cases "ci_oracle_type col")
    (auto simp: plain_value_def conforms_def is_lob_def is_timestamp_def wrap_Inr is_str_lossy dest!: number_value_kind)

lemma lob_conforms:
  assumes "is_lob (ci_oracle_type col)"
  shows "yields (parse_lob_value ins depth col) (conforms col)"
proof -
  have t: "ci_oracle_type col = OraClob \<or> ci_oracle_type col = OraBlob \<or> ci_oracle_type col = OraBfile
      \<or> ci_oracle_type col = OraJson \<or> ci_oracle_type col = OraVector"
    using assms by (auto simp: is_lob_def)
  have zero: "conforms col (if is_json_column col then VJson JNull
      else if ci_oracle_type col = OraVector then VNull else VLob LobNull)"
    using t by (auto simp: conforms_def is_lob_def is_json_column_def)
  have js: "conforms col v" if "is_json_column col" "json_value ins depth data = Inr v" for data v
    using that assms by (auto simp: conforms_def json_value_def split: option.splits if_splits sum.splits fault.splits)
  have vec: "conforms col v" if "\<not> is_json_column col" "ci_oracle_type col = OraVector" "or_null vector_value data = Inr v" for data v
    using that by (auto simp: conforms_def or_null_def vector_value_def is_lob_def
        split: option.splits if_splits sum.splits fault.splits)
  have loc: "conforms col (lob_locator_value col sz chunk_size data)"
    if "\<not> is_json_column col" "ci_oracle_type col \<noteq> OraVector" for sz chunk_size data
    using that t by (auto simp: conforms_def lob_locator_value_def is_lob_def is_json_column_def split: option.splits)
  show ?thesis
    unfolding parse_lob_value_def
    using zero by (cases "is_json_column col"; cases "ci_oracle_type col = OraVector")
      (auto split: prod.splits
        intro!: yields_andThen yields_andSeq yields_if yields_ok yields_lift_res intro: js vec loc)
qed

lemma object_conforms:
  assumes "ci_oracle_type col = OraObject"
  shows "yields (parse_object_value col) (conforms col)"
proof -
  have n: "conforms col VNull" using assms by (simp add: conforms_def is_lob_def)
  have "conforms col v" if "or_null (object_value col) data = Inr v" for data v
    using that assms n
    by (auto simp: conforms_def is_lob_def or_null_def object_value_def Let_def
        split: option.splits if_splits sum.splits fault.splits)
  then show ?thesis
    unfolding parse_object_value_def using n by (intro yields_intros) auto
qed

lemma column_value_conforms: "yields (parse_column_value ins depth ver col) (conforms col)"
proof -
  have c: "yields (parse_cursor_value ver) (conforms col)" if "ci_oracle_type col = OraCursor"
    unfolding parse_cursor_value_def
    using that by (intro yields_intros) (simp add: conforms_def is_lob_def ref_cursor_new_def)
  have p: "conforms col v"
    if "\<not> is_lob (ci_oracle_type col)" "ci_oracle_type col \<noteq> OraCursor" "ci_oracle_type col \<noteq> OraObject"
      "or_null (plain_value (ci_oracle_type col)) data = Inr v" for data v
    using that plain_value_conforms [of col _ v]
    by (auto simp: or_null_def conforms_def is_lob_def split: option.splits if_splits)
  show ?thesis
    unfolding parse_column_value_def
    by (intro yields_if lob_conforms c object_conforms) (auto intro!: yields_intros p)
qed



subsection \<open>The two decoders agree\<close>

definition is_text :: "oracle_type \<Rightarrow> bool" where
  "is_text t \<longleftrightarrow> t = OraVarchar \<or> t = OraChar \<or> t = OraLong"

definition both_decode :: "oracle_type \<Rightarrow> bool" where
  "both_decode t \<longleftrightarrow> is_text t \<or> is_timestamp t \<or> t \<in> {OraNumber, OraBinaryInteger, OraDate, OraRaw, OraLongRaw,
     OraBinaryFloat, OraBinaryDouble, OraIntervalYm, OraIntervalDs}"

definition slice_of :: "u8 list option \<Rightarrow> u8 list option" where
  "slice_of data = (case data of None \<Rightarrow> None | Some bs \<Rightarrow> if bs = [] then None else Some bs)"

lemma or_null_slice: "or_null f data = (case slice_of data of None \<Rightarrow> Inr VNull | Some bs \<Rightarrow> f bs)"
  by (simp add: or_null_def slice_of_def split: option.splits)

lemma read_u8_at:
  "0 < remaining s \<Longrightarrow> read_u8 s = (Inr (rb_data s ! rb_pos s), s\<lparr>rb_pos := rb_pos s + 1\<rparr>)"
  by (cases s) (auto simp: read_u8_def rd_prim_defs remaining_def)

lemma oracle_slice_bytes:
  assumes "0 < remaining s" "rb_data s ! rb_pos s \<noteq> ESCAPE_CHAR"
  shows "read_oracle_slice s = fmap slice_of read_bytes_with_length s"
proof -
  define b s1 where "b = rb_data s ! rb_pos s" and "s1 = s\<lparr>rb_pos := rb_pos s + 1\<rparr>"
  have u: "andThen read_u8 f s = f b s1" for f :: "u8 \<Rightarrow> 'a reader"
    using read_u8_at [OF assms(1)] by (simp add: andThen_apply b_def s1_def)
  have vec: "bs \<noteq> []" if "read_bytes_vec (unat b) s1 = (Inr bs, s2)" "b \<noteq> 0" for bs s2
    using that unat_gt_0 [of b] by (auto simp: read_bytes_vec_def rd_prim_defs slice_at_def split: if_splits)
  have left: "read_oracle_slice s = (if b = 0 \<or> b = NULL_INDICATOR then ok None
      else if b = LONG_INDICATOR then fmap (\<lambda>result. if result = [] then None else Some result) (read_chunks [])
      else fmap Some (read_bytes_vec (unat b))) s1"
    using assms(1) by (simp add: read_oracle_slice_def u)
  have right: "fmap slice_of read_bytes_with_length s = fmap slice_of (if b = NULL_INDICATOR then ok None
      else if b = LONG_INDICATOR then fmap Some (read_chunks [])
      else if b = 0 then ok (Some []) else fmap Some (read_bytes_vec (unat b))) s1"
    using assms(2) unfolding fmap_def read_bytes_with_length_def andThen_assoc u
    by (simp add: b_def [symmetric] unat_eq_0)
  show ?thesis
    unfolding left right using vec
    by (auto simp: fmap_def andThen_apply ok_apply slice_of_def NULL_INDICATOR_def LONG_INDICATOR_def
        split: prod.splits sum.splits)
qed

lemma strict_lossy:
  "string_value bs = Inr (VString (from_utf8_lossy bs)) \<or> (\<exists>e. string_value bs = Inl (Err (DataConversionError e)))"
proof (cases "from_utf8 bs")
  case (Inr t)
  then have "from_utf8_lossy bs = t" using from_utf8_Inr_is_str from_utf8_lossy_str by metis
  then show ?thesis using Inr by (simp add: string_value_def)
qed (simp add: string_value_def)

lemma decode_with_slice:
  assumes "both_decode (ci_oracle_type col)" "ci_buffer_size col \<noteq> 0"
  shows "decode_column_value col =
    with_slice (if is_text (ci_oracle_type col) then string_value else plain_value (ci_oracle_type col))"
  using assms
  by (cases "ci_oracle_type col")
    (auto simp: both_decode_def is_text_def is_timestamp_def decode_column_value_def plain_value_def [abs_def])

lemma parse_plain:
  assumes "both_decode (ci_oracle_type col)"
  shows "parse_column_value ins depth ver col =
    andThen read_bytes_with_length (\<lambda>data. lift_res (or_null (plain_value (ci_oracle_type col)) data))"
  using assms
  by (cases "ci_oracle_type col")
    (auto simp: both_decode_def is_text_def is_timestamp_def parse_column_value_def is_lob_def)



end
