(* ===== verification/ResponseLaws.thy ===== *)
theory ResponseLaws
  imports Response ColumnLaws
begin

section \<open>Properties of the response parsers\<close>

text \<open>
  Every response parser returns on every payload.  The contract of a parser's step, that it stays
  in the buffer, is the locale \<open>response_step\<close>; from it follow that the message loop returns and,
  where the steps do not panic, that the whole parser does not.
\<close>

subsection \<open>Parsers that stay in the buffer\<close>

definition pstays :: "bool \<Rightarrow> 'a parser \<Rightarrow> ('a \<Rightarrow> bool) \<Rightarrow> bool" where
  "pstays np m Q \<longleftrightarrow>
     (\<forall>s r s'. rb_wf (fst s) \<longrightarrow> m s = (r, s') \<longrightarrow>
        rd_frame (fst s) (fst s') \<and> (np \<longrightarrow> r \<noteq> Inl Panic) \<and> (\<forall>a. r = Inr a \<longrightarrow> Q a))"

abbreviation psafe :: "bool \<Rightarrow> 'a parser \<Rightarrow> bool" where
  "psafe np m \<equiv> pstays np m (\<lambda>_. True)"

named_theorems pstays_intros

lemma pstaysD:
  assumes "pstays np m Q" "rb_wf (fst s)" "m s = (r, s')"
  shows "rd_frame (fst s) (fst s')" "np \<Longrightarrow> r \<noteq> Inl Panic" "r = Inr a \<Longrightarrow> Q a"
  using assms unfolding pstays_def by blast+

lemma pstays_rd [pstays_intros]: "stays np m \<Longrightarrow> psafe np (rd m)"
  by (auto simp: pstays_def rd_def split: prod.splits dest: staysD)

lemma pstays_andThen [pstays_intros]:
  assumes "psafe np m" "\<And>a. pstays np (f a) Q"
  shows "pstays np (andThen m f) Q"
  unfolding pstays_def
proof (intro allI impI)
  fix s r s' assume wf: "rb_wf (fst s)" and run: "andThen m f s = (r, s')"
  obtain r1 s1 where m1: "m s = (r1, s1)" by (cases "m s") blast
  note m' = pstaysD [OF assms(1) wf m1]
  show "rd_frame (fst s) (fst s') \<and> (np \<longrightarrow> r \<noteq> Inl Panic) \<and> (\<forall>a. r = Inr a \<longrightarrow> Q a)"
  proof (cases r1)
    case (Inl e)
    then show ?thesis using run m1 m' by auto
  next
    case (Inr a)
    then have f: "f a s1 = (r, s')" using run m1 by simp
    from pstaysD [OF assms(2) rd_frame_wf [OF m'(1)] this] m'(1) show ?thesis
      by (blast intro: rd_frame_trans)
  qed
qed

lemma pstays_andSeq [pstays_intros]: "psafe np m \<Longrightarrow> pstays np k Q \<Longrightarrow> pstays np (andSeq m k) Q"
  by (simp add: andSeq_def pstays_andThen)

lemma pstays_ok [pstays_intros]: "Q a \<Longrightarrow> pstays np (ok a) Q"
  by (auto simp: pstays_def action_apply)

lemma pstays_fail [pstays_intros]: "pstays np (fail e) Q"
  by (auto simp: pstays_def action_apply)

lemma pstays_lift_res: "r \<noteq> Inl Panic \<Longrightarrow> (\<And>a. r = Inr a \<Longrightarrow> Q a) \<Longrightarrow> pstays np (lift_res r) Q"
  by (auto simp: pstays_def action_apply split: sum.splits)

lemma pstays_fmap: "pstays np m (\<lambda>a. Q (g a)) \<Longrightarrow> pstays np (fmap g m) Q"
  by (fastforce simp: pstays_def fmap_def andThen_apply ok_apply split: prod.splits sum.splits)

lemma pstays_map [pstays_intros]: "psafe np m \<Longrightarrow> (\<And>a. Q (g a)) \<Longrightarrow> pstays np (fmap g m) Q"
  by (rule pstays_fmap) (auto simp: pstays_def)

lemma pstays_if [pstays_intros]:
  "(c \<Longrightarrow> pstays np a Q) \<Longrightarrow> (\<not> c \<Longrightarrow> pstays np b Q) \<Longrightarrow> pstays np (if c then a else b) Q"
  by simp

lemma pstays_case_option [pstays_intros]:
  "(p = None \<Longrightarrow> pstays np a Q) \<Longrightarrow> (\<And>x. p = Some x \<Longrightarrow> pstays np (f x) Q) \<Longrightarrow>
   pstays np (case p of None \<Rightarrow> a | Some x \<Rightarrow> f x) Q"
  by (cases p) simp_all

lemma pstays_case_prod [pstays_intros]:
  "(\<And>a b. p = (a, b) \<Longrightarrow> pstays np (f a b) Q) \<Longrightarrow> pstays np (case p of (a, b) \<Rightarrow> f a b) Q"
  by (cases p) simp

lemma pstays_repeat [pstays_intros]: "psafe np m \<Longrightarrow> psafe np (repeat_p n m)"
  by (induction n) (auto intro!: pstays_intros)

lemma pstays_upd [pstays_intros]: "psafe np (upd_session f)"
  by (auto simp: pstays_def upd_session_def split: prod.splits)

subsection \<open>The contract of a step\<close>

locale response_step =
  fixes step :: "'st \<Rightarrow> u8 \<Rightarrow> ('st \<times> bool) parser"
    and good :: "'st \<Rightarrow> bool"
    and np :: bool
  assumes step_stays: "good st \<Longrightarrow> pstays np (step st b) (\<lambda>(st', stop). good st')"
begin

lemma loop_returns:
  assumes "good st" "rb_wf (fst s)"
  shows "\<exists>r s'. message_loop step st s = Some (r, s') \<and> rd_frame (fst s) (fst s') \<and> (np \<longrightarrow> r \<noteq> Inl Panic)"
  using assms
proof (induction "remaining_p s" arbitrary: st s rule: less_induct)
  case less
  note loop = message_loop.simps [of step st s]
  show ?case
  proof (cases "remaining_p s = 0")
    case True
    then show ?thesis using less.prems loop by simp
  next
    case False
    define b s1 where "b = rb_data (fst s) ! rb_pos (fst s)"
      and "s1 = ((fst s)\<lparr>rb_pos := rb_pos (fst s) + 1\<rparr>, snd s)"
    have read: "rd read_u8 s = (Inr b, s1)"
      using read_u8_at [of "fst s"] False
      by (cases s) (simp add: rd_def remaining_p_def b_def s1_def)
    have f1: "rd_frame (fst s) (fst s1)" and wf1: "rb_wf (fst s1)"
      using False by (auto simp: rd_frame_def rb_wf_def s1_def remaining_p_def remaining_def)
    obtain r s2 where st: "step st b s1 = (r, s2)" by (cases "step st b s1") blast
    note step' = pstaysD [OF step_stays [OF less.prems(1)] wf1 st]
    have f2: "rd_frame (fst s) (fst s2)" using f1 step'(1) by (rule rd_frame_trans)
    show ?thesis
    proof (cases r)
      case (Inl e)
      then show ?thesis using False loop read st f2 step'(2) by (auto simp: andThen_apply)
    next
      case (Inr p)
      obtain st' stop where p: "p = (st', stop)" by fastforce
      have good': "good st'" using step'(3) [OF Inr] p by simp
      show ?thesis
      proof (cases stop)
        case True
        then show ?thesis using False loop read st f2 Inr p by (simp add: andThen_apply)
      next
        case stop: False
        have "remaining_p s2 < remaining_p s"
          using False step'(1) by (auto simp: remaining_p_def remaining_def rd_frame_def s1_def rb_wf_def)
        from less.hyps [OF this good' rd_frame_wf [OF step'(1)]] obtain r' s'
          where "message_loop step st' s2 = Some (r', s')" "rd_frame (fst s2) (fst s')" "np \<longrightarrow> r' \<noteq> Inl Panic"
          by blast
        then show ?thesis
          using False loop read st f2 Inr p stop by (auto simp: andThen_apply intro: rd_frame_trans)
      qed
    qed
  qed
qed

lemma skip_flags:
  obtains e b where "rd (skip 2) (rbuf_new payload, ss) = (Inl (Err e), (b, ss))"
  | b where "rd (skip 2) (rbuf_new payload, ss) = (Inr (), (b, ss))" "rb_wf b"
proof -
  obtain r b where m: "skip 2 (rbuf_new payload) = (r, b)" by fastforce
  note p = rd_postD [OF rd_skip _ m]
  show ?thesis
  proof (cases r)
    case (Inl e)
    then show ?thesis using that(1) m p(2) by (cases e) (auto simp: rd_def rbuf_new_def rb_wf_def)
  next
    case (Inr u)
    then show ?thesis using that(2) [of b] m p(1) by (auto simp: rd_def rbuf_new_def rb_wf_def rd_frame_def)
  qed
qed

lemma run_returns:
  assumes "good init"
  shows "\<exists>r ss'. run_response short step init result_of payload ss = Some (r, ss') \<and> (np \<longrightarrow> r \<noteq> Inl Panic)"
proof (cases rule: skip_flags [of payload ss])
  case (2 b)
  obtain r s' where "message_loop step init (b, ss) = Some (r, s')" "np \<longrightarrow> r \<noteq> Inl Panic"
    using loop_returns [OF assms, of "(b, ss)"] 2 by auto
  then show ?thesis using 2 by (cases r) (auto simp: run_response_def)
qed (auto simp: run_response_def)

end

subsection \<open>Error messages\<close>

lemma stays_as_bytes [stays_intros]: "stays np as_bytes_buf"
  by (auto simp: stays_def as_bytes_buf_def)

lemma stays_batch_codes [stays_intros]: "stays np read_batch_codes"
  unfolding read_batch_codes_def by (intro stays_intros)

lemma stays_batch_offsets [stays_intros]: "stays np read_batch_offsets"
  unfolding read_batch_offsets_def by (intro stays_intros)

lemma stays_batch_messages [stays_intros]: "stays np read_batch_messages"
  unfolding read_batch_messages_def by (intro stays_intros)

lemma stays_error_head [stays_intros]: "stays np error_head"
  unfolding error_head_def by (intro stays_intros)

lemma stays_optional_chunked [stays_intros]: "stays np skip_optional_chunked"
  unfolding skip_optional_chunked_def by (intro stays_intros)

lemma stays_error_info [stays_intros]: "stays np (parse_error_info_detailed md sk)"
  unfolding parse_error_info_detailed_def by (intro stays_intros)

lemma stays_error_infos [stays_intros]: "stays np parse_error_info" "stays np parse_error_info_with_rowcount"
  unfolding parse_error_info_def parse_error_info_with_rowcount_def by (intro stays_intros)+

lemma stays_error_message [stays_intros]: "stays np (parse_error_message_info ver)"
  unfolding parse_error_message_info_def by (intro stays_intros)

lemma stays_status [stays_intros]: "stays np read_status"
  unfolding read_status_def by (intro stays_intros)

lemma stays_row_header [stays_intros]: "stays np parse_row_header"
  unfolding parse_row_header_def by (intro stays_intros)

lemma stays_fetch_header [stays_intros]: "stays np (read_fetch_header bv)"
  unfolding read_fetch_header_def by (intro stays_intros)

lemma stays_bit_vector [stays_intros]: "stays np (read_bit_vector n bv)"
  unfolding read_bit_vector_def by (intro stays_intros)

lemma stays_bit_byte [stays_intros]: "stays np skip_bit_byte"
  unfolding skip_bit_byte_def by (intro stays_intros)

lemma stays_counted [stays_intros]: "stays np skip_counted"
  unfolding skip_counted_def by (intro stays_intros)

subsection \<open>Return parameters and piggybacks\<close>

lemma pstays_record_pair [pstays_intros]: "psafe np (record_pair k v)"
  by (auto simp: record_pair_def intro!: pstays_intros split: option.splits)

lemma pstays_read_pair [pstays_intros]:
  "stays np rk \<Longrightarrow> stays np rv \<Longrightarrow> psafe np (read_pair rk rv)"
  unfolding read_pair_def by (intro pstays_intros stays_intros TrueI)

lemma pstays_row_counts [pstays_intros]: "psafe np (read_row_counts w)"
proof -
  have "psafe np (rd (andThen read_ub4 (\<lambda>n. fmap Some (read_n read_ub8 (unat n)))))"
    by (intro pstays_intros stays_intros)
  then show ?thesis by (auto simp: pstays_def read_row_counts_def)
qed

lemma pstays_standard [pstays_intros]: "psafe np (parse_standard_return_parameters w)"
  unfolding parse_standard_return_parameters_def by (intro pstays_intros stays_intros TrueI)

lemma no_panic_info:
  "parse_error_info_with_rowcount (rbuf_new bs) \<noteq> (Inl Panic, s')"
  using staysD [OF stays_error_infos(2) [of True], of "rbuf_new bs" "Inl Panic" s'] by (auto simp: rbuf_new_def rb_wf_def)

lemma probe_aligned_found:
  "probe_aligned rest offs \<noteq> Inl Panic \<and> (\<forall>i. probe_aligned rest offs = Inr (Some i) \<longrightarrow> i \<in> set offs)"
  by (induction offs) (auto simp: no_panic_info Let_def split: prod.splits sum.splits fault.splits)

lemma no_panic_marked: "fst (andSeq read_ub4 read_ub2 (rbuf_new bs)) \<noteq> Inl Panic"
proof -
  have "stays True (andSeq read_ub4 read_ub2)" by (intro stays_intros)
  from staysD [OF this, of "rbuf_new bs"] show ?thesis
    by (cases "andSeq read_ub4 read_ub2 (rbuf_new bs)") (auto simp: rbuf_new_def rb_wf_def)
qed

lemma probe_marked_found:
  "probe_marked rest offs \<noteq> Inl Panic \<and> (\<forall>i. probe_marked rest offs = Inr (Some i) \<longrightarrow> i \<in> set offs)"
  by (induction offs) (auto simp: no_panic_marked split: sum.splits fault.splits)

lemma set_position_inside:
  "i < length (rb_data s) - rb_pos s \<Longrightarrow>
   andSeq (set_position (rb_pos s + i)) (ok a) s = (Inr a, s\<lparr>rb_pos := rb_pos s + i\<rparr>)"
  by (simp add: set_position_def andThen_apply andSeq_def ok_apply)

lemma stays_skip_session [stays_intros]: "stays np skip_session_state_return_parameter"
  unfolding stays_def
proof (intro allI impI)
  fix s r s' assume wf: "rb_wf s" and run: "skip_session_state_return_parameter s = (r, s')"
  define rest where "rest = drop (rb_pos s) (rb_data s)"
  have rest: "remaining_bytes s = (Inr rest, s)" and len: "length rest = length (rb_data s) - rb_pos s"
    using wf by (auto simp: remaining_bytes_def rest_def rb_wf_def)
  have jump: "andSeq (set_position (rb_pos s + i)) (ok True) s = (Inr True, s\<lparr>rb_pos := rb_pos s + i\<rparr>)
      \<and> rd_frame s (s\<lparr>rb_pos := rb_pos s + i\<rparr>)" if "i < length rest" for i
    using that len by (simp add: set_position_inside rd_frame_def rb_wf_def)
  define f1 f2 where "f1 = probe_aligned rest [1..<length rest]" and "f2 = probe_marked rest (rev [1..<length rest])"
  have f1: "f1 \<noteq> Inl Panic" "\<And>i. f1 = Inr (Some i) \<Longrightarrow> i < length rest"
    using probe_aligned_found [of rest "[1..<length rest]"] by (auto simp: f1_def)
  have f2: "f2 \<noteq> Inl Panic" "\<And>i. f2 = Inr (Some i) \<Longrightarrow> i < length rest"
    using probe_marked_found [of rest "rev [1..<length rest]"] by (auto simp: f2_def)
  have eq: "skip_session_state_return_parameter s =
      (case f1 of Inl e \<Rightarrow> (Inl e, s)
       | Inr (Some i) \<Rightarrow> andSeq (set_position (rb_pos s + i)) (ok True) s
       | Inr None \<Rightarrow> (case f2 of Inl e \<Rightarrow> (Inl e, s)
           | Inr (Some i) \<Rightarrow> andSeq (set_position (rb_pos s + i)) (ok True) s
           | Inr None \<Rightarrow> (Inr False, s)))"
    by (auto simp: skip_session_state_return_parameter_def rest andThen_apply lift_res_apply ok_apply f1_def f2_def
        split: sum.splits option.splits)
  show "rd_frame s s' \<and> (np \<longrightarrow> r \<noteq> Inl Panic)"
  proof (cases "\<exists>i<length rest. skip_session_state_return_parameter s = andSeq (set_position (rb_pos s + i)) (ok True) s")
    case True
    then show ?thesis using run jump by auto
  next
    case False
    then show ?thesis using run f1 f2 wf unfolding eq by (auto split: sum.splits option.splits)
  qed
qed

lemma pstays_return_parameters [pstays_intros]: "psafe np (parse_return_parameters_internal w)"
  unfolding pstays_def
proof (intro allI impI)
  fix s r s' assume wf: "rb_wf (fst s)" and run: "parse_return_parameters_internal w s = (r, s')"
  obtain r1 s1 where m1: "parse_standard_return_parameters w s = (r1, s1)"
    by (cases "parse_standard_return_parameters w s") blast
  note m1' = pstaysD [OF pstays_standard [of True] wf m1]
  show "rd_frame (fst s) (fst s') \<and> (np \<longrightarrow> r \<noteq> Inl Panic) \<and> (\<forall>a. r = Inr a \<longrightarrow> True)"
  proof (cases r1)
    case (Inr a)
    then show ?thesis using run m1 m1' by (auto simp: parse_return_parameters_internal_def)
  next
    case (Inl f)
    then obtain e where r1: "r1 = Inl (Err e)" using m1'(2) by (cases f) auto
    let ?s2 = "((fst s1)\<lparr>rb_pos := rb_pos (fst s)\<rparr>, snd s1)"
    have s2: "fst ?s2 = fst s" using m1'(1) by (simp add: rd_frame_def)
    have pos: "rd (set_position (rb_pos (fst s))) s1 = (Inr (), ?s2)"
      using m1'(1) wf by (cases s1) (auto simp: rd_def set_position_def rd_frame_def rb_wf_def)
    let ?k = "andThen (rd skip_session_state_return_parameter) (\<lambda>skipped. if skipped then ok None else fail e)"
    have k: "psafe np ?k" by (intro pstays_intros stays_intros TrueI)
    have "?k ?s2 = (r, s')" using run m1 r1 pos by (simp add: parse_return_parameters_internal_def andSeq_def andThen_apply)
    from pstaysD [OF k _ this] s2 wf show ?thesis by auto
  qed
qed

lemma pstays_return [pstays_intros]: "psafe np parse_return_parameters"
  unfolding parse_return_parameters_def by (intro pstays_intros TrueI)

lemma pstays_ltxid [pstays_intros]: "psafe np parse_ltxid"
  unfolding parse_ltxid_def by (intro pstays_intros stays_intros TrueI)

lemma pstays_sync [pstays_intros]: "psafe np parse_sync"
  unfolding parse_sync_def by (intro pstays_intros stays_intros TrueI)

lemma pstays_sess_ret [pstays_intros]: "psafe np parse_sess_ret"
  unfolding parse_sess_ret_def by (intro pstays_intros stays_intros TrueI)

lemma pstays_piggyback [pstays_intros]: "psafe np parse_server_side_piggyback"
  unfolding parse_server_side_piggyback_def by (intro pstays_intros stays_intros TrueI)

subsection \<open>The steps keep the contract\<close>

lemma pstays_failure [pstays_intros]: "pstays np (lift_res (oracle_failure info)) Q"
  by (rule pstays_lift_res) (simp_all add: oracle_failure_def)

lemma pstays_common: "pstays np (common_step st t) (\<lambda>(st', stop). True)"
  unfolding common_step_def by (intro pstays_intros stays_intros) simp_all

lemma pstays_dml: "pstays np (dml_step st t) (\<lambda>(st', stop). True)"
  unfolding dml_step_def by (intro pstays_intros stays_intros pstays_common) simp_all

lemma pstays_batch: "pstays np (batch_step w be st t) (\<lambda>(st', stop). True)"
  unfolding batch_step_def Let_def by (intro pstays_intros stays_intros pstays_common) simp_all

lemma pstays_query: "pstays False (query_step ins depth ver st t) (\<lambda>(st', stop). True)"
  unfolding query_step_def by (intro pstays_intros stays_intros stays_row) simp_all

definition fetch_good :: "bool \<Rightarrow> query_state \<Rightarrow> bool" where
  "fetch_good np st \<longleftrightarrow> (np \<longrightarrow> (\<forall>col\<in>set (qs_columns st). panic_free col))"

lemma pstays_fetch:
  assumes "fetch_good np st"
  shows "pstays np (fetch_step ins depth ver st t) (\<lambda>(st', stop). fetch_good np st')"
  unfolding fetch_step_def using assms
  by (intro pstays_intros stays_intros stays_row) (simp_all add: fetch_good_def push_row_def)

lemma stays_directions [stays_intros]: "stays np (read_directions i ps)"
  by (induction ps arbitrary: i) (auto intro!: stays_intros)

lemma stays_io_vector: "stays False (parse_io_vector params)"
  unfolding parse_io_vector_def by (intro stays_intros stays_lift_res) simp_all

lemma stays_implicit [stays_intros]: "stays np (parse_implicit_results ver)"
  unfolding parse_implicit_results_def read_implicit_result_def by (intro stays_intros)

lemma stays_out_row: "stays False (parse_out_bind_row_data ins depth ver cols)"
  unfolding parse_out_bind_row_data_def
  by (intro stays_intros stays_columns stays_column_value) simp_all

lemma pstays_plsql: "pstays False (plsql_step ins depth ver params st t) (\<lambda>(st', stop). True)"
  unfolding plsql_step_def
  by (intro pstays_intros stays_intros stays_io_vector stays_out_row) simp_all

interpretation dml: response_step dml_step "\<lambda>_. True" True
  by unfold_locales (rule pstays_dml)

interpretation batch: response_step "batch_step w be" "\<lambda>_. True" True for w be
  by unfold_locales (rule pstays_batch)

interpretation query: response_step "query_step ins depth ver" "\<lambda>_. True" False for ins depth ver
  by unfold_locales (rule pstays_query)

interpretation fetch: response_step "fetch_step ins depth ver" "fetch_good np" np for ins depth ver np
  by unfold_locales (rule pstays_fetch)

interpretation plsql: response_step "plsql_step ins depth ver params" "\<lambda>_. True" False for ins depth ver params
  by unfold_locales (rule pstays_plsql)

text \<open>The four LOB parsers share a step.\<close>

locale lob_response =
  fixes own :: "u8 \<Rightarrow> bool" and body :: "'st \<Rightarrow> u8 \<Rightarrow> 'st reader"
  assumes body_stays: "stays True (body st t)"
begin

lemma lob_step_stays: "pstays True (lob_step own body st t) (\<lambda>(st', stop). True)"
proof -
  have e: "pstays True (lob_error_step st) (\<lambda>(st', stop). True)"
    unfolding pstays_def
  proof (intro allI impI)
    fix s r s' assume wf: "rb_wf (fst s)" and run: "lob_error_step st s = (r, s')"
    obtain r1 s1 where "rd parse_error_info s = (r1, s1)" by (cases "rd parse_error_info s") blast
    moreover have "psafe True (rd parse_error_info)" by (intro pstays_intros stays_intros)
    ultimately show "rd_frame (fst s) (fst s') \<and> (True \<longrightarrow> r \<noteq> Inl Panic) \<and> (\<forall>a. r = Inr a \<longrightarrow> (case a of (st', stop) \<Rightarrow> True))"
      using pstaysD [of True "rd parse_error_info" _ s r1 s1] run wf
      by (auto simp: lob_error_step_def split: sum.splits fault.splits if_splits)
  qed
  show ?thesis
    unfolding lob_step_def by (intro pstays_intros e body_stays) simp_all
qed

sublocale steps: response_step "lob_step own body" "\<lambda>_. True" True
  by unfold_locales (rule lob_step_stays)

lemma run_lob_returns: "\<exists>r. run_lob own body init payload = Some r \<and> r \<noteq> Inl Panic"
proof (cases rule: steps.skip_flags [of payload session_state_default])
  case (2 b)
  show ?thesis
    using steps.loop_returns [OF TrueI, of "(b, session_state_default)" init] 2 by (auto simp: run_lob_def)
qed (auto simp: run_lob_def)

end

lemma stays_skip_locator [stays_intros]: "stays np (skip_locator l)"
  unfolding skip_locator_def by (intro stays_intros)

interpretation lob_read: lob_response "\<lambda>t. t = message_type_byte MsgLobData \<or> t = message_type_byte MsgParameter"
    "lob_read_body locator" for locator
  by unfold_locales (simp add: lob_read_body_def, intro conjI impI stays_intros)

interpretation lob_bool: lob_response is_parameter
    "\<lambda>st t. andSeq (skip_locator locator) (fmap (\<lambda>flag. 0 < flag) read_u8)" for locator
  by unfold_locales (intro stays_intros)

interpretation lob_simple: lob_response is_parameter "\<lambda>(st :: unit) t. skip_locator locator" for locator
  by unfold_locales (intro stays_intros)

interpretation lob_amount: lob_response is_parameter "\<lambda>st t. andSeq (skip_locator locator) read_ub8" for locator
  by unfold_locales (intro stays_intros)

subsection \<open>Every response is parsed to its end\<close>

lemma fetch_good_any: "fetch_good False st"
  by (simp add: fetch_good_def)

lemma parsers_return:
  "\<exists>r. parse_query_response_with_columns ins depth ver columns payload ss = Some r"
  "\<exists>r. parse_query_response ins depth ver payload ss = Some r"
  "\<exists>r. parse_fetch_response ins depth ver cursor_id columns payload ss = Some r"
  "\<exists>r. parse_dml_response payload ss = Some r"
  "\<exists>r. parse_batch_response batch_size want_row_counts batch_errors payload ss = Some r"
  "\<exists>r. parse_plsql_response ins depth ver params payload ss = Some r"
  "\<exists>r. parse_lob_read_response payload locator = Some r"
  "\<exists>r. parse_lob_bool_response payload locator = Some r"
  "\<exists>r. parse_lob_simple_response payload locator = Some r"
  "\<exists>r. parse_lob_amount_response payload locator = Some r"
  using query.run_returns [OF TrueI] fetch.run_returns [of False, OF fetch_good_any] dml.run_returns [OF TrueI]
    batch.run_returns [OF TrueI] plsql.run_returns [OF TrueI]
    lob_read.run_lob_returns [of locator None payload] lob_bool.run_lob_returns
    lob_simple.run_lob_returns lob_amount.run_lob_returns
  unfolding parse_query_response_with_columns_def parse_query_response_def parse_fetch_response_def
    parse_dml_response_def parse_batch_response_def parse_plsql_response_def parse_lob_read_response_def
    parse_lob_bool_response_def parse_lob_simple_response_def parse_lob_amount_response_def
  by fastforce+

text \<open>
  C13: the response parsers return.  Whatever bytes the server sends, the message loop of each
  response parser ends, with a result or an error: every round consumes at least the message
  type, and the return-parameter fallback, which moves the position back, moves it no further
  than to where the message began.
\<close>

theorem responses_return:
  "(\<exists>r. parse_query_response_with_columns ins depth ver columns payload ss = Some r)
   \<and> (\<exists>r. parse_query_response ins depth ver payload ss = Some r)
   \<and> (\<exists>r. parse_fetch_response ins depth ver cursor_id columns payload ss = Some r)
   \<and> (\<exists>r. parse_dml_response payload ss = Some r)
   \<and> (\<exists>r. parse_batch_response batch_size want_row_counts batch_errors payload ss = Some r)
   \<and> (\<exists>r. parse_plsql_response ins depth ver params payload ss = Some r)
   \<and> (\<exists>r. parse_lob_read_response payload locator = Some r)
   \<and> (\<exists>r. parse_lob_bool_response payload locator = Some r)
   \<and> (\<exists>r. parse_lob_simple_response payload locator = Some r)
   \<and> (\<exists>r. parse_lob_amount_response payload locator = Some r)"
  by (intro conjI parsers_return)

text \<open>
  C29: the parsers of DML, batch, error and LOB responses never panic: on any payload, however
  malformed or short, the answer is a value or an error value.
\<close>

theorem responses_do_not_panic:
  "map_option fst (parse_dml_response payload ss) \<noteq> Some (Inl Panic)
   \<and> map_option fst (parse_batch_response batch_size want_row_counts batch_errors payload ss) \<noteq> Some (Inl Panic)
   \<and> parse_error_response payload \<noteq> Inl Panic
   \<and> parse_lob_read_response payload locator \<noteq> Some (Inl Panic)
   \<and> parse_lob_bool_response payload locator \<noteq> Some (Inl Panic)
   \<and> parse_lob_simple_response payload locator \<noteq> Some (Inl Panic)
   \<and> parse_lob_amount_response payload locator \<noteq> Some (Inl Panic)"
proof (intro conjI)
  show "map_option fst (parse_dml_response payload ss) \<noteq> Some (Inl Panic)"
    unfolding parse_dml_response_def
    using dml.run_returns [OF TrueI, of "''DML response too short''" dml_state_new dml_result_of payload ss] by auto
  show "map_option fst (parse_batch_response batch_size want_row_counts batch_errors payload ss) \<noteq> Some (Inl Panic)"
    unfolding parse_batch_response_def
    using batch.run_returns [OF TrueI, of "''Batch response too short''" want_row_counts batch_errors dml_state_new
        "batch_result_of batch_size" payload ss] by auto
  let ?m = "andSeq (skip 2) (andThen read_u8 (\<lambda>msg_type.
        if msg_type = message_type_byte MsgError then
          andThen (parse_error_info_detailed True False) (\<lambda>info.
            fail (OracleError (ei_code info)
              (case ei_message info of Some m \<Rightarrow> m | None \<Rightarrow> error_text (ei_code info))))
        else fail (Protocol (''Expected error message type 4, got '' @ show_nat (unat msg_type)))))
    :: query_result reader"
  have "stays True ?m" by (intro stays_intros)
  from staysD [OF this, of "rbuf_new payload"] show "parse_error_response payload \<noteq> Inl Panic"
    by (cases "?m (rbuf_new payload)") (auto simp: parse_error_response_def rbuf_new_def rb_wf_def)
  obtain r where "run_lob (\<lambda>t. t = message_type_byte MsgLobData \<or> t = message_type_byte MsgParameter)
      (lob_read_body locator) None payload = Some r" "r \<noteq> Inl Panic"
    using lob_read.run_lob_returns by blast
  then show "parse_lob_read_response payload locator \<noteq> Some (Inl Panic)"
    by (cases r) (auto simp: parse_lob_read_response_def)
  show "parse_lob_bool_response payload locator \<noteq> Some (Inl Panic)"
    unfolding parse_lob_bool_response_def using lob_bool.run_lob_returns [of locator False payload] by auto
  show "parse_lob_simple_response payload locator \<noteq> Some (Inl Panic)"
    unfolding parse_lob_simple_response_def using lob_simple.run_lob_returns [of locator "()" payload] by auto
  show "parse_lob_amount_response payload locator \<noteq> Some (Inl Panic)"
    unfolding parse_lob_amount_response_def using lob_amount.run_lob_returns [of locator 0 payload] by auto
qed

text \<open>
  A fetch from columns of plain types does not panic.  Where no column is a TIMESTAMP, JSON,
  a VECTOR or an object, whose decoders can panic on malformed contents, the fetch parser gives a
  value or an error value on every payload.
\<close>

theorem fetch_does_not_panic:
  assumes "\<forall>col\<in>set columns. panic_free col"
  shows "map_option fst (parse_fetch_response ins depth ver cursor_id columns payload ss) \<noteq> Some (Inl Panic)"
  using fetch.run_returns [of True "(query_state_new columns)\<lparr>qs_cursor_id := cursor_id, qs_has_more := True\<rparr>"
      "''Fetch response too short''" ins depth ver query_result_of payload ss] assms
  by (auto simp: parse_fetch_response_def fetch_good_def query_state_new_def)

theorem fetch_does_not_panic_witness:
  "map_option fst (parse_fetch_response (\<lambda>k v m. m) 0 24 7 [column_info_new ''C'' OraVarchar] [0, 0, 7, 3, 65] session_state_default)
     \<noteq> Some (Inl Panic)"
  by (rule fetch_does_not_panic)
    (simp add: panic_free_def is_timestamp_def is_json_column_def column_info_new_def)

subsection \<open>Two corners\<close>

text \<open>
  The number of binds of an I/O vector is computed in \<open>u32\<close>: a server that announces
  \<open>2^24\<close> iterations makes \<open>num_iters * 256\<close> overflow, and the PL/SQL parser panics.
\<close>

theorem io_vector_overflow_panics:
  "map_option fst (parse_plsql_response ins depth ver params [0, 0, 11, 0, 0, 4, 1, 0, 0, 0] ss) = Some (Inl Panic)"
proof -
  let ?b = "\<lambda>i. \<lparr>rb_data = [0, 0, 11, 0, 0, 4, 1, 0, 0, 0], rb_pos = i\<rparr>"
  have "skip 1 (?b 3) = (Inr (), ?b 4)" "read_ub2 (?b 4) = (Inr 0, ?b 5)" "read_ub4 (?b 5) = (Inr 16777216, ?b 10)"
    by code_simp+
  moreover have "num_binds 0 16777216 = Inl Panic" by (simp add: num_binds_def mul_chk_def)
  ultimately have io: "parse_io_vector params (?b 3) = (Inl Panic, ?b 10)"
    by (simp add: parse_io_vector_def andThen_apply andSeq_def lift_res_apply)
  have pre: "skip 2 (?b 0) = (Inr (), ?b 2)" "read_u8 (?b 2) = (Inr 11, ?b 3)"
    by code_simp+
  have step: "plsql_step ins depth ver params st 11 (?b 3, ss) = (Inl Panic, (?b 10, ss))" for st
    using io by (simp add: plsql_step_def fmap_def rd_def andThen_apply)
  have "message_loop (plsql_step ins depth ver params) st (?b 2, ss) = Some (Inl Panic, (?b 10, ss))" for st
    using pre(2) step by (subst message_loop.simps) (simp add: remaining_p_def remaining_def rd_def andThen_apply)
  then show ?thesis
    using pre(1) by (simp add: parse_plsql_response_def run_response_def rbuf_new_def rd_def)
qed

end
