(* ===== verification/QueryLaws.thy ===== *)
theory QueryLaws
  imports ResponseLaws
begin

section \<open>What a query returns\<close>

text \<open>
  The server's side of a query response, as an encoder: column metadata, rows compressed by a bit
  vector against the previous row, the closing error message.  The parsers recover from it what
  was sent.
\<close>

subsection \<open>Bit vectors\<close>

definition byte_of_bits :: "bool list \<Rightarrow> u8" where
  "byte_of_bits bs = horner_sum of_bool 2 bs"

function (sequential) pack_bits :: "bool list \<Rightarrow> u8 list" where
  "pack_bits [] = []"
| "pack_bits bs = byte_of_bits (take 8 bs) # pack_bits (drop 8 bs)"
  by pat_completeness auto
termination
  by (relation "measure length") auto

lemma length_pack_bits: "length (pack_bits bs) = (length bs + 7) div 8"
  by (induction bs rule: pack_bits.induct) (auto simp: Suc_diff_le)

lemma bit_byte_of_bits: "bit (byte_of_bits bs) j \<longleftrightarrow> j < 8 \<and> j < length bs \<and> bs ! j"
  by (auto simp: byte_of_bits_def bit_horner_sum_bit_word_iff)

lemma nth_pack_bits: "k < length (pack_bits bs) \<Longrightarrow> pack_bits bs ! k = byte_of_bits (take 8 (drop (8 * k) bs))"
proof (induction bs arbitrary: k rule: pack_bits.induct)
  case (2 b bs)
  then show ?case by (cases k) (auto simp: drop_Cons' add.commute)
qed simp

lemma duplicate_bit_pack:
  assumes "i < length sent"
  shows "duplicate_bit (Some (pack_bits sent)) i \<longleftrightarrow> \<not> sent ! i"
proof -
  have k: "i div 8 < length (pack_bits sent)" using assms by (simp add: length_pack_bits)
  have "8 * (i div 8) + i mod 8 = i" by simp
  moreover from this have "i mod 8 < length sent - 8 * (i div 8)" using assms by linarith
  ultimately have "bit (pack_bits sent ! (i div 8)) (i mod 8) \<longleftrightarrow> sent ! i"
    using assms by (auto simp: nth_pack_bits [OF k] bit_byte_of_bits)
  then show ?thesis
    using k by (simp add: duplicate_bit_def push_bit_of_1 and_exp_eq_0_iff_not_bit)
qed

subsection \<open>Rows\<close>

text \<open>
  A cell of a row: whether it is sent, its wire form and its value.  A cell that is not sent
  repeats the value of the previous row.
\<close>

record cell =
  cl_sent :: bool
  cl_wire :: "u8 list"
  cl_value :: "value"

definition cell_ok :: "(column_info \<Rightarrow> value reader) \<Rightarrow> value list option \<Rightarrow> nat \<Rightarrow> column_info \<Rightarrow> cell \<Rightarrow> bool" where
  "cell_ok dec prev i col c \<longleftrightarrow>
     (if cl_sent c then reads (dec col) (cl_wire c) (cl_value c)
      else case prev of None \<Rightarrow> False | Some vs \<Rightarrow> i < length vs \<and> vs ! i = cl_value c)"

definition row_ok :: "(column_info \<Rightarrow> value reader) \<Rightarrow> value list option \<Rightarrow> column_info list \<Rightarrow> cell list \<Rightarrow> bool" where
  "row_ok dec prev cols cells \<longleftrightarrow>
     length cells = length cols \<and> (\<forall>i<length cols. cell_ok dec prev i (cols ! i) (cells ! i))"

definition row_wire :: "cell list \<Rightarrow> u8 list" where
  "row_wire cells = concat (map cl_wire (filter cl_sent cells))"

definition sent_bits :: "cell list \<Rightarrow> u8 list" where
  "sent_bits cells = pack_bits (map cl_sent cells)"

lemma decode_columns_reads:
  assumes "length cells = length cols"
    and "\<And>j. j < length cols \<Longrightarrow> (dup (i + j) \<longrightarrow> \<not> cl_sent (cells ! j) \<and> prev (i + j) = cl_value (cells ! j))
      \<and> (\<not> dup (i + j) \<longrightarrow> cl_sent (cells ! j) \<and> reads (dec (cols ! j)) (cl_wire (cells ! j)) (cl_value (cells ! j)))"
  shows "reads (decode_columns dec dup prev i cols) (row_wire cells) (map cl_value cells)"
  using assms
proof (induction cells cols arbitrary: i rule: list_induct2)
  case Nil
  show ?case by (simp add: row_wire_def reads_ok)
next
  case (Cons c cells col cols)
  have first: "(dup i \<longrightarrow> \<not> cl_sent c \<and> prev i = cl_value c)
      \<and> (\<not> dup i \<longrightarrow> cl_sent c \<and> reads (dec col) (cl_wire c) (cl_value c))"
    using Cons.prems [of 0] by simp
  have rest: "reads (decode_columns dec dup prev (i + 1) cols) (row_wire cells) (map cl_value cells)"
    using Cons.prems [of "Suc _"] by (intro Cons.IH) simp
  show ?case
  proof (cases "dup i")
    case True
    then have "row_wire (c # cells) = row_wire cells" using first by (simp add: row_wire_def)
    moreover have "decode_columns dec dup prev i (col # cols) =
        fmap (\<lambda>vs. prev i # vs) (decode_columns dec dup prev (i + 1) cols)"
      using True by simp
    ultimately show ?thesis
      using True first reads_fmap [OF rest, of "\<lambda>vs. prev i # vs"] by simp
  next
    case False
    then have "row_wire (c # cells) = cl_wire c @ row_wire cells" using first by (simp add: row_wire_def)
    then show ?thesis
      using False first reads_andThen [of "dec col" "cl_wire c" "cl_value c"
          "\<lambda>v. fmap (\<lambda>vs. v # vs) (decode_columns dec dup prev (Suc i) cols)", OF _ reads_fmap] rest
      by simp
  qed
qed

lemma row_reads:
  assumes "row_ok (parse_column_value ins depth ver) prev cols cells"
  shows "reads (parse_row_data_with_bitvector ins depth ver cols (Some (sent_bits cells)) prev)
    (row_wire cells) (row_new (map cl_value cells))"
  unfolding parse_row_data_with_bitvector_def
  using assms
  by (intro reads_fmap [OF decode_columns_reads])
    (auto simp: row_ok_def cell_ok_def sent_bits_def duplicate_bit_pack previous_value_def split: option.splits)

lemma full_row_reads:
  assumes "row_ok (parse_column_value ins depth ver) prev cols cells" "list_all cl_sent cells"
  shows "reads (parse_row_data_with_bitvector ins depth ver cols None prev)
    (row_wire cells) (row_new (map cl_value cells))"
  unfolding parse_row_data_with_bitvector_def
  using assms
  by (intro reads_fmap [OF decode_columns_reads])
    (auto simp: row_ok_def cell_ok_def duplicate_bit_def list_all_length)

subsection \<open>Column metadata\<close>

definition text_wire :: "string \<Rightarrow> u8 list" where
  "text_wire t = (if t = [] then [0] else ub4_wire (of_nat (length t)) @ string_wire (Some t))"

definition opt_text_wire :: "string option \<Rightarrow> u8 list" where
  "opt_text_wire t = text_wire (or_empty t)"

definition sends_text :: "string \<Rightarrow> bool" where
  "sends_text t \<longleftrightarrow> is_str t \<and> length t < 4294967296"

definition describe_column_wire :: "u8 \<Rightarrow> column_info \<Rightarrow> u8 list" where
  "describe_column_wire ver col =
     oracle_type_byte (ci_oracle_type col) # 0 # ucast (ci_precision col) # ucast (ci_scale col)
     # ub4_wire (ci_buffer_size col) @ 0 # 0 # 0 # 0 # 0 # ci_csfrm col # ub4_wire (ci_data_size col)
     @ (if FIELD_VERSION_12_2 \<le> ver then [0] else []) @ 0 # 0
     # text_wire (ci_name col) @ opt_text_wire (ci_type_schema col) @ opt_text_wire (ci_type_name col)
     @ 0 # 0 # (if FIELD_VERSION_23_1 \<le> ver then [0, 0] else []) @ (if 20 \<le> ver then [0] else [])
     @ (if FIELD_VERSION_23_4 \<le> ver then [0, 0, 0] else [])"

definition describe_wire :: "u8 \<Rightarrow> column_info list \<Rightarrow> u8 list" where
  "describe_wire ver cols =
     0 # ub4_wire (of_nat (length cols))
     @ (if cols = [] then [] else 0 # concat (map (describe_column_wire ver) cols) @ [0, 0, 0, 0, 0, 0])"

text \<open>The columns a describe message can carry to the client.\<close>

definition column_sent :: "column_info \<Rightarrow> bool" where
  "column_sent col \<longleftrightarrow>
     unat (ci_precision col) < 256 \<and> unat (ci_scale col) < 256
     \<and> (ci_data_size col = 0 \<longrightarrow> ci_buffer_size col = 0)
     \<and> sends_text (ci_name col) \<and> ci_type_schema col \<noteq> Some [] \<and> ci_type_name col \<noteq> Some []
     \<and> sends_text (or_empty (ci_type_schema col)) \<and> sends_text (or_empty (ci_type_name col))
     \<and> col = (column_info_new (ci_name col) (ci_oracle_type col))
         \<lparr>ci_data_size := ci_data_size col, ci_buffer_size := ci_buffer_size col,
          ci_precision := ci_precision col, ci_scale := ci_scale col, ci_csfrm := ci_csfrm col,
          ci_type_schema := ci_type_schema col, ci_type_name := ci_type_name col\<rparr>"

named_theorems reads_steps

lemma reads_step_u8 [reads_steps]:
  "reads (f b) bs u \<Longrightarrow> reads (andThen read_u8 f) (b # bs) u"
  "reads k bs u \<Longrightarrow> reads (andSeq read_u8 k) (b # bs) u"
  by (auto simp: andSeq_def intro: reads_u8_then)

lemma reads_skip_byte: "reads (skip 1) [b] ()"
  by (rule reads_skip) simp

lemma reads_step_skip_byte [reads_steps]:
  "reads k bs u \<Longrightarrow> reads (andSeq (skip 1) k) (b # bs) u"
  "reads k bs u \<Longrightarrow> reads (andSeq skip_ub1 k) (b # bs) u"
  using reads_andThen [OF reads_skip_byte, of "\<lambda>_. k" bs u b] by (simp_all add: andSeq_def skip_ub1_def)

lemma reads_zero:
  "reads skip_ub2 [0] ()" "reads skip_ub4 [0] ()" "reads skip_ub8 [0] ()" "reads read_sb2 [0] 0"
  unfolding skip_ub2_def skip_ub4_def skip_ub8_def read_sb2_def
  by (auto intro!: reads_ub_len [of 0 0] reads_ok simp: Let_def)

lemma reads_step_zero [reads_steps]:
  "reads k bs u \<Longrightarrow> reads (andSeq skip_ub2 k) (0 # bs) u"
  "reads k bs u \<Longrightarrow> reads (andSeq skip_ub4 k) (0 # bs) u"
  "reads k bs u \<Longrightarrow> reads (andSeq skip_ub8 k) (0 # bs) u"
  "reads k bs u \<Longrightarrow> reads (andSeq read_sb2 k) (0 # bs) u"
  using reads_andThen [OF reads_zero(1), of "\<lambda>_. k" bs u] reads_andThen [OF reads_zero(2), of "\<lambda>_. k" bs u]
    reads_andThen [OF reads_zero(3), of "\<lambda>_. k" bs u] reads_andThen [OF reads_zero(4), of "\<lambda>_. k" bs u]
  by (simp_all add: andSeq_def)

lemma reads_step_ub [reads_steps]:
  "reads (f2 v2) bs u \<Longrightarrow> reads (andThen read_ub2 f2) (ub2_wire v2 @ bs) u"
  "reads (f4 v4) bs u \<Longrightarrow> reads (andThen read_ub4 f4) (ub4_wire v4 @ bs) u"
  "reads (f8 v8) bs u \<Longrightarrow> reads (andThen read_ub8 f8) (ub8_wire v8 @ bs) u"
  by (auto intro: reads_andThen reads_ub2 reads_ub4 reads_ub8)

lemma reads_step_ub_zero [reads_steps]:
  "reads (f2 0) bs u \<Longrightarrow> reads (andThen read_ub2 f2) (0 # bs) u"
  "reads (f4 0) bs u \<Longrightarrow> reads (andThen read_ub4 f4) (0 # bs) u"
  "reads k bs u \<Longrightarrow> reads (andSeq read_ub4 k) (0 # bs) u"
  using reads_step_ub(1) [of f2 0] reads_step_ub(2) [of f4 0] reads_step_ub(2) [of "\<lambda>_. k" 0]
  by (auto simp: ub2_wire_def ub4_wire_def andSeq_def)

lemma reads_empty_bytes: "reads read_bytes_with_length [0] (Some [])"
  using reads_bytes_with_length [of "Some []"] by (simp add: bytes_wire_def)

lemma reads_step_bytes [reads_steps]: "reads k bs u \<Longrightarrow> reads (andSeq read_bytes_with_length k) (0 # bs) u"
  using reads_andThen [OF reads_empty_bytes, of "\<lambda>_. k" bs u] by (simp add: andSeq_def)

lemma reads_text:
  assumes "sends_text t"
  shows "reads read_string_with_ub4_length (text_wire t) (if t = [] then None else Some t)"
proof (cases "t = []")
  case True
  then show ?thesis
    unfolding read_string_with_ub4_length_def text_wire_def
    by (auto intro!: reads_step_ub_zero reads_ok)
next
  case False
  then have n: "(of_nat (length t) :: u32) \<noteq> 0"
    using assms by (simp add: sends_text_def unat_eq_0 [symmetric] unat_of_nat)
  have "reads read_string_with_length (string_wire (Some t)) (Some t)"
    using assms by (intro reads_string_with_length) (simp add: sends_text_def)
  then show ?thesis
    using n False by (auto simp: read_string_with_ub4_length_def text_wire_def intro!: reads_andThen [OF reads_ub4])
qed

lemma reads_step_text [reads_steps]:
  "sends_text t \<Longrightarrow> reads (f (if t = [] then None else Some t)) bs u \<Longrightarrow>
   reads (andThen read_string_with_ub4_length f) (text_wire t @ bs) u"
  by (rule reads_andThen [OF reads_text])

lemma reads_step_when [reads_steps]:
  "reads m w () \<Longrightarrow> reads k bs u \<Longrightarrow>
   reads (andSeq (if c then m else ok ()) k) ((if c then w else []) @ bs) u"
  using reads_andThen [of m w "()" "\<lambda>_. k" bs u] by (auto simp: andSeq_def)

lemma oracle_type_byte_inv: "oracle_type_try_from (oracle_type_byte t) = Inr t"
  by (cases t) (simp_all add: oracle_type_try_from_def)

lemma ucast_small: "unat (x :: i16) < 256 \<Longrightarrow> ucast (ucast x :: u8) = x"
  by (rule ucast_ucast_id) simp

lemma reads_no_text: "reads read_string_with_ub4_length [0] None"
  unfolding read_string_with_ub4_length_def by (intro reads_step_ub_zero) (simp add: reads_ok)

lemma opt_text_back: "t \<noteq> Some [] \<Longrightarrow> (if or_empty t = [] then None else Some (or_empty t)) = t"
  by (auto simp: or_empty_def split: option.splits)

lemma describe_column_reads:
  assumes "column_sent col"
  shows "reads (parse_describe_column ver) (describe_column_wire ver col) col"
proof -
  note sent = assms [unfolded column_sent_def]
  have dom: "reads (andSeq read_string_with_ub4_length (fmap (\<lambda>_. ()) read_string_with_ub4_length)) [0, 0] ()"
    using reads_andThen [OF reads_no_text reads_fmap [OF reads_no_text]] by (simp add: andSeq_def)
  have ann: "reads skip_annotations [0] ()"
    unfolding skip_annotations_def by (intro reads_step_ub_zero) (simp add: reads_ok)
  have vec: "reads (andSeq skip_ub4 (andSeq skip_ub1 skip_ub1)) [0, 0, 0] ()"
    by (intro reads_steps) (simp add: skip_ub1_def reads_skip_byte [simplified])
  have name: "(case if ci_name col = [] then None else Some (ci_name col) of None \<Rightarrow> [] | Some n \<Rightarrow> n) = ci_name col"
    by simp
  have last: "reads (andSeq (if FIELD_VERSION_23_4 \<le> ver then andSeq skip_ub4 (andSeq skip_ub1 skip_ub1) else ok ())
       (ok c)) (if FIELD_VERSION_23_4 \<le> ver then [0, 0, 0] else []) col" if "c = col" for c
    using reads_step_when [OF vec reads_ok, of "FIELD_VERSION_23_4 \<le> ver" col] that by simp
  have len: "(if 0 < ci_data_size col then ci_data_size col else ci_buffer_size col) = ci_data_size col"
    using sent by (auto simp: word_gt_0)
  have non_empty: "non_empty t = t" if "t \<noteq> Some []" for t
    using that by (auto simp: non_empty_def split: option.splits)
  show ?thesis
    unfolding parse_describe_column_def describe_column_wire_def opt_text_wire_def
    using sent
    by (intro reads_steps reads_zero dom ann last)
      (simp_all only: name len opt_text_back non_empty ucast_small oracle_type_byte_inv sum.case simp_thms)
qed

lemma reads_read_n:
  "(\<And>v. v \<in> set vs \<Longrightarrow> reads m (w v) v) \<Longrightarrow> reads (read_n m (length vs)) (concat (map w vs)) vs"
  by (induction vs) (auto intro!: reads_ok reads_andThen reads_fmap)

lemma describe_reads:
  assumes "\<forall>col\<in>set cols. column_sent col" "length cols < 4294967296"
  shows "reads (parse_describe_info ver) (describe_wire ver cols) cols"
proof (cases "cols = []")
  case True
  then show ?thesis
    unfolding parse_describe_info_def describe_wire_def by (auto simp: ub4_wire_def intro!: reads_steps reads_ok)
next
  case False
  have n: "(of_nat (length cols) :: u32) \<noteq> 0" "unat (of_nat (length cols) :: u32) = length cols"
    using False assms(2) by (simp_all add: unat_eq_0 [symmetric] unat_of_nat)
  have fin: "reads (andThen read_ub4 (\<lambda>ind. andSeq (if 0 < ind then skip_raw_bytes_chunked else ok ()) (ok cols))) [0] cols"
    by (intro reads_steps) (simp add: andSeq_def reads_ok)
  have tail: "reads (andThen read_ub4 (\<lambda>ind. andSeq (if 0 < ind then skip_raw_bytes_chunked else ok ())
       (andSeq skip_ub4 (andSeq skip_ub4 (andSeq skip_ub4 (andSeq skip_ub4
         (andThen read_ub4 (\<lambda>ind. andSeq (if 0 < ind then skip_raw_bytes_chunked else ok ()) (ok cols)))))))))
      [0, 0, 0, 0, 0, 0] cols"
    by (rule reads_step_ub_zero(2)) (simp add: andSeq_def [of "ok ()"], intro reads_step_zero fin)
  have "reads (read_n (parse_describe_column ver) (length cols)) (concat (map (describe_column_wire ver) cols)) cols"
    using assms(1) by (intro reads_read_n describe_column_reads) simp
  then show ?thesis
    unfolding parse_describe_info_def describe_wire_def
    using n False by (auto intro!: reads_step_zero reads_step_ub reads_step_skip_byte reads_andThen tail)
qed

subsection \<open>The closing message\<close>

definition end_wire :: "u16 \<Rightarrow> u64 \<Rightarrow> u32 \<Rightarrow> string \<Rightarrow> u8 list" where
  "end_wire cursor_id row_count code message =
     0 # 0 # 0 # 0 # 0 # 0 # ub2_wire cursor_id
     @ 0 # 0 # 0 # 0 # 0 # 0 # 0 # 0 # 0 # 0 # 0 # 0 # 0 # 0 # 0 # 0 # 0
     # 0 # 0 # 0 # 0 # ub4_wire code @ ub8_wire row_count @ 0 # 0
     # (if code = 0 then [] else string_wire (Some message))"

definition plain_message :: "u32 \<Rightarrow> string \<Rightarrow> bool" where
  "plain_message code message \<longleftrightarrow> code = 0 \<or> is_str message \<and> contains_text (str_trim message) ''ORA-''"

lemma reads_as_bytes:
  "(\<And>data. reads (f data) bs u) \<Longrightarrow> reads (andThen as_bytes_buf f) bs u"
  by (simp add: reads_def andThen_apply as_bytes_buf_def)

lemma head_reads:
  "reads error_head (0 # 0 # 0 # 0 # 0 # 0 # ub2_wire cursor_id
     @ [0, 0, 0, 0, 0, 0, 0, 0, 0, 0, 0, 0, 0, 0, 0, 0, 0]) cursor_id"
  unfolding error_head_def
  by (intro reads_steps reads_ok)

lemma reads_no_items:
  "reads read_batch_codes [0] []" "reads read_batch_offsets [0] []" "reads read_batch_messages [0] []"
  "reads skip_optional_chunked [0] ()"
  unfolding read_batch_codes_def read_batch_offsets_def read_batch_messages_def skip_optional_chunked_def
  by (intro reads_step_ub_zero; simp add: reads_ok)+

lemma reads_step_items:
  "reads (f1 []) bs u \<Longrightarrow> reads (andThen read_batch_codes f1) (0 # bs) u"
  "reads (f2 []) bs u \<Longrightarrow> reads (andThen read_batch_offsets f2) (0 # bs) u"
  "reads (f3 []) bs u \<Longrightarrow> reads (andThen read_batch_messages f3) (0 # bs) u"
  "reads k bs u \<Longrightarrow> reads (andSeq skip_optional_chunked k) (0 # bs) u"
  using reads_andThen [OF reads_no_items(1), of f1 bs u] reads_andThen [OF reads_no_items(2), of f2 bs u]
    reads_andThen [OF reads_no_items(3), of f3 bs u] reads_andThen [OF reads_no_items(4), of "\<lambda>_. k" bs u]
  by (simp_all add: andSeq_def)

lemma refine_plain:
  "plain_message code message \<Longrightarrow>
   refine_error packet code (if code = 0 then None else Some (str_trim message))
     = (code, if code = 0 then None else Some (str_trim message))"
  by (auto simp: refine_error_def plain_message_def)

text \<open>What the client reads from the closing message.\<close>

definition end_info :: "u16 \<Rightarrow> u64 \<Rightarrow> u32 \<Rightarrow> string \<Rightarrow> error_info" where
  "end_info cursor_id row_count code message =
     \<lparr>ei_code = code, ei_message = (if code = 0 then None else Some (str_trim message)),
      ei_cursor_id = cursor_id, ei_row_count = row_count, ei_batch_errors = []\<rparr>"

lemma end_reads:
  assumes "plain_message code message"
  shows "reads parse_error_info_with_rowcount (end_wire cursor_id row_count code message)
    (end_info cursor_id row_count code message)"
proof -
  have msg: "reads (if code \<noteq> 0 then fmap (map_option str_trim) read_string_with_length else ok None)
      (if code = 0 then [] else string_wire (Some message)) (if code = 0 then None else Some (str_trim message))"
    using assms by (auto simp: plain_message_def intro!: reads_ok reads_fmap reads_string_with_length)
  have split: "end_wire cursor_id row_count code message =
      (0 # 0 # 0 # 0 # 0 # 0 # ub2_wire cursor_id @ [0, 0, 0, 0, 0, 0, 0, 0, 0, 0, 0, 0, 0, 0, 0, 0, 0])
      @ 0 # 0 # 0 # 0 # ub4_wire code @ ub8_wire row_count @ 0 # 0 # (if code = 0 then [] else string_wire (Some message))"
    by (simp add: end_wire_def)
  have skip: "reads (andSeq skip_ub4 skip_ub4) [0, 0] ()"
    by (intro reads_steps reads_zero)
  have skip2: "reads k bs u \<Longrightarrow> reads (andSeq (andSeq skip_ub4 skip_ub4) k) (0 # 0 # bs) u" for k :: "'a reader" and bs u
    using reads_andThen [OF skip, of "\<lambda>_. k" bs u] by (simp add: andSeq_def)
  show ?thesis
    unfolding parse_error_info_with_rowcount_def parse_error_info_detailed_def split if_True
    by (intro reads_as_bytes reads_andThen [OF head_reads] reads_step_items reads_step_ub skip2
        reads_andThen_Nil [OF msg])
      (simp add: refine_plain [OF assms] end_info_def reads_ok)
qed

subsection \<open>Messages\<close>

text \<open>\<open>handles step st bs st' stop\<close>: one message, type byte and body, takes the loop to \<open>st'\<close>.\<close>

definition handles :: "('st \<Rightarrow> u8 \<Rightarrow> ('st \<times> bool) parser) \<Rightarrow> 'st \<Rightarrow> u8 list \<Rightarrow> 'st \<Rightarrow> bool \<Rightarrow> bool" where
  "handles step st bs st' stop \<longleftrightarrow>
     (\<exists>b w. bs = b # w \<and>
       (\<forall>pre post ss. step st b (\<lparr>rb_data = pre @ w @ post, rb_pos = length pre\<rparr>, ss)
          = (Inr (st', stop), (\<lparr>rb_data = pre @ w @ post, rb_pos = length pre + length w\<rparr>, ss))))"

definition consumes :: "('st \<Rightarrow> u8 \<Rightarrow> ('st \<times> bool) parser) \<Rightarrow> 'st \<Rightarrow> u8 list \<Rightarrow> 'st \<Rightarrow> bool" where
  "consumes step st bs st' \<longleftrightarrow>
     (\<forall>pre post ss. message_loop step st (\<lparr>rb_data = pre @ bs @ post, rb_pos = length pre\<rparr>, ss)
        = message_loop step st' (\<lparr>rb_data = pre @ bs @ post, rb_pos = length pre + length bs\<rparr>, ss))"

lemma handlesI:
  assumes "\<And>s. step st b s = fmap (\<lambda>v. (g v, stop)) (rd m) s" and "reads m w v"
  shows "handles step st (b # w) (g v) stop"
  using assms(1) readsD [OF assms(2)]
  by (auto simp: handles_def fmap_def rd_def andThen_apply ok_apply)

lemma loop_message:
  assumes "handles step st bs st' stop"
  shows "message_loop step st (\<lparr>rb_data = pre @ bs @ post, rb_pos = length pre\<rparr>, ss)
    = (if stop then Some (Inr st', (\<lparr>rb_data = pre @ bs @ post, rb_pos = length pre + length bs\<rparr>, ss))
       else message_loop step st' (\<lparr>rb_data = pre @ bs @ post, rb_pos = length pre + length bs\<rparr>, ss))"
proof -
  obtain b w where bs: "bs = b # w" and run: "\<And>pre post ss.
      step st b (\<lparr>rb_data = pre @ w @ post, rb_pos = length pre\<rparr>, ss)
        = (Inr (st', stop), (\<lparr>rb_data = pre @ w @ post, rb_pos = length pre + length w\<rparr>, ss))"
    using assms by (auto simp: handles_def)
  have "rd read_u8 (\<lparr>rb_data = pre @ b # w @ post, rb_pos = length pre\<rparr>, ss)
      = (Inr b, (\<lparr>rb_data = pre @ b # w @ post, rb_pos = length pre + 1\<rparr>, ss))"
    using readsD [OF reads_u8, of pre b "w @ post"] by (simp add: rd_def)
  then show ?thesis
    using run [of "pre @ [b]" post ss]
    by (subst message_loop.simps) (simp add: bs remaining_p_def remaining_def andThen_apply)
qed

lemma consumes_message: "handles step st bs st' False \<Longrightarrow> consumes step st bs st'"
  by (simp add: consumes_def loop_message)

lemma consumes_nil: "consumes step st [] st"
  by (simp add: consumes_def)

lemma consumes_append:
  assumes "consumes step st bs st1" "consumes step st1 cs st2"
  shows "consumes step st (bs @ cs) st2"
  unfolding consumes_def
proof (intro allI)
  fix pre post ss
  show "message_loop step st (\<lparr>rb_data = pre @ (bs @ cs) @ post, rb_pos = length pre\<rparr>, ss)
      = message_loop step st2 (\<lparr>rb_data = pre @ (bs @ cs) @ post, rb_pos = length pre + length (bs @ cs)\<rparr>, ss)"
    using assms(1) [unfolded consumes_def, rule_format, of pre "cs @ post" ss]
      assms(2) [unfolded consumes_def, rule_format, of "pre @ bs" post ss]
    by (simp add: add.assoc)
qed

lemma run_response_message:
  assumes "consumes step init bs st" "handles step st cs st' True" "3 \<le> length (f1 # f2 # bs @ cs)"
  shows "run_response short step init result_of (f1 # f2 # bs @ cs @ post) ss = Some (Inr (result_of st'), ss)"
proof -
  have "skip 2 (rbuf_new ([f1, f2] @ bs @ cs @ post)) = (Inr (), \<lparr>rb_data = [f1, f2] @ bs @ cs @ post, rb_pos = 2\<rparr>)"
    using reads_new [OF reads_skip, of "[f1, f2]" 2 "bs @ cs @ post"] by simp
  moreover have "message_loop step init (\<lparr>rb_data = [f1, f2] @ bs @ cs @ post, rb_pos = 2\<rparr>, ss)
      = Some (Inr st', (\<lparr>rb_data = [f1, f2] @ bs @ cs @ post, rb_pos = 2 + length bs + length cs\<rparr>, ss))"
    using assms(1) [unfolded consumes_def, rule_format, of "[f1, f2]" "cs @ post" ss]
      loop_message [OF assms(2), of "[f1, f2] @ bs" post ss] by (simp add: numeral_2_eq_2)
  ultimately show ?thesis
    using assms(3) by (auto simp: run_response_def rd_def)
qed

subsection \<open>The response of a query\<close>

definition row_message :: "cell list \<Rightarrow> u8 list" where
  "row_message cells =
     (if list_all cl_sent cells then [] else 21 # ub2_wire (of_nat (length (filter cl_sent cells))) @ sent_bits cells)
     @ 7 # row_wire cells"

definition row_header_wire :: "u8 list" where
  "row_header_wire = [6, 0, 0, 0, 0, 0, 0, 0]"

text \<open>The messages of a query's response, which stand behind the two bytes of data flags.\<close>

definition query_body ::
  "u8 \<Rightarrow> column_info list \<Rightarrow> cell list list \<Rightarrow> u16 \<Rightarrow> u64 \<Rightarrow> u32 \<Rightarrow> string \<Rightarrow> u8 list" where
  "query_body ver cols rows cursor_id row_count code message =
     (16 # 0 # describe_wire ver cols) @ row_header_wire @ concat (map row_message rows)
     @ 4 # end_wire cursor_id row_count code message"

definition query_wire ::
  "u8 \<Rightarrow> column_info list \<Rightarrow> cell list list \<Rightarrow> u16 \<Rightarrow> u64 \<Rightarrow> u32 \<Rightarrow> string \<Rightarrow> u8 list" where
  "query_wire ver cols rows cursor_id row_count code message =
     0 # 0 # query_body ver cols rows cursor_id row_count code message"

text \<open>
  A fetch's response has rows and the closing message only; its parser reads that message by itself
  and takes the two fields of later servers by the negotiated version.
\<close>

definition fetch_end_wire :: "u8 \<Rightarrow> u16 \<Rightarrow> u64 \<Rightarrow> u32 \<Rightarrow> string \<Rightarrow> u8 list" where
  "fetch_end_wire ver cursor_id row_count code message =
     0 # 0 # 0 # 0 # 0 # 0 # ub2_wire cursor_id
     @ 0 # 0 # 0 # 0 # 0 # 0 # 0 # 0 # 0 # 0 # 0 # 0 # 0 # 0 # 0 # 0 # 0
     # 0 # 0 # 0 # 0 # ub4_wire code @ ub8_wire row_count
     @ (if FIELD_VERSION_21_1 \<le> ver then [0, 0] else [])
     @ (if code = 0 then [] else string_wire (Some message))"

definition fetch_body :: "u8 \<Rightarrow> cell list list \<Rightarrow> u16 \<Rightarrow> u64 \<Rightarrow> u32 \<Rightarrow> string \<Rightarrow> u8 list" where
  "fetch_body ver rows cursor_id row_count code message =
     concat (map row_message rows) @ 4 # fetch_end_wire ver cursor_id row_count code message"

lemma fetch_end_reads:
  assumes "code = 0 \<or> is_str message"
  shows "reads (parse_error_message_info ver) (fetch_end_wire ver cursor_id row_count code message)
    (code, if code = 0 then [] else message, cursor_id, code \<noteq> 1403)"
proof -
  have msg: "reads (if code \<noteq> 0 then fmap or_empty read_string_with_length else ok [])
      (if code = 0 then [] else string_wire (Some message)) (if code = 0 then [] else message)"
    using assms reads_fmap [OF reads_string_with_length [of "Some message"], of or_empty]
    by (auto simp: or_empty_def intro!: reads_ok)
  have skip: "reads (andSeq skip_ub4 skip_ub4) [0, 0] ()"
    by (intro reads_steps reads_zero)
  have none: "reads (andThen read_ub2 (\<lambda>n. if 0 < n then skip_raw_bytes_chunked else ok ())) [0] ()"
    by (intro reads_step_ub_zero) (simp add: reads_ok)
  have chunk: "reads k bs u \<Longrightarrow>
      reads (andSeq (andThen read_ub2 (\<lambda>n. if 0 < n then skip_raw_bytes_chunked else ok ())) k) (0 # bs) u"
    for k :: "'a reader" and bs u
    using reads_andThen [OF none, of "\<lambda>_. k" bs u] by (simp add: andSeq_def)
  have rows: "reads k bs u \<Longrightarrow> reads (andSeq read_ub8 k) (ub8_wire row_count @ bs) u" for k :: "'a reader" and bs u
    unfolding andSeq_def by (rule reads_andThen [OF reads_ub8])
  show ?thesis
    unfolding parse_error_message_info_def fetch_end_wire_def
    by (intro reads_steps reads_step_items reads_step_ub_zero chunk rows skip reads_andThen_Nil [OF msg])
      (simp add: reads_ok)
qed

fun rows_ok :: "(column_info \<Rightarrow> value reader) \<Rightarrow> value list option \<Rightarrow> column_info list \<Rightarrow> cell list list \<Rightarrow> bool" where
  "rows_ok dec prev cols [] \<longleftrightarrow> True"
| "rows_ok dec prev cols (cells # rows) \<longleftrightarrow>
     row_ok dec prev cols cells \<and> rows_ok dec (Some (map cl_value cells)) cols rows"

abbreviation row_of :: "cell list \<Rightarrow> row" where
  "row_of cells \<equiv> row_new (map cl_value cells)"

text \<open>The two messages of a row are handled alike in the responses to a query and to a fetch.\<close>

definition row_step ::
  "json_insert \<Rightarrow> nat \<Rightarrow> u8 \<Rightarrow> (query_state \<Rightarrow> u8 \<Rightarrow> (query_state \<times> bool) parser) \<Rightarrow> bool" where
  "row_step ins depth ver step \<longleftrightarrow> (\<forall>st.
     step st 7 = fmap (\<lambda>r. (push_row r st, False))
        (rd (parse_row_data_with_bitvector ins depth ver (qs_columns st) (qs_bit_vector st) (qs_previous st)))
     \<and> step st 21 = fmap (\<lambda>bv. (st\<lparr>qs_bit_vector := bv\<rparr>, False))
        (rd (read_bit_vector (length (qs_columns st)) (qs_bit_vector st))))"

lemma row_step_query: "row_step ins depth ver (query_step ins depth ver)"
  by (simp add: row_step_def query_step_def)

lemma row_step_fetch: "row_step ins depth ver (fetch_step ins depth ver)"
  by (simp add: row_step_def fetch_step_def)

lemma handles_row:
  assumes "row_step ins depth ver step"
    and "reads (parse_row_data_with_bitvector ins depth ver (qs_columns st) (qs_bit_vector st) (qs_previous st)) w r"
  shows "handles step st (7 # w) (push_row r st) False"
  by (rule handlesI [where g = "\<lambda>r. push_row r st", OF _ assms(2)]) (use assms(1) in \<open>simp add: row_step_def\<close>)

lemma handles_bits:
  assumes "row_step ins depth ver step" "bits \<noteq> []" "length bits = (length (qs_columns st) + 7) div 8"
  shows "handles step st (21 # ub2_wire n @ bits) (st\<lparr>qs_bit_vector := Some bits\<rparr>) False"
proof (rule handlesI [where g = "\<lambda>bv. st\<lparr>qs_bit_vector := bv\<rparr>"])
  show "reads (read_bit_vector (length (qs_columns st)) (qs_bit_vector st)) (ub2_wire n @ bits) (Some bits)"
    unfolding read_bit_vector_def andSeq_def
    by (rule reads_andThen [OF reads_ub2])
      (use assms in \<open>simp add: Let_def reads_fmap [OF reads_bytes_vec] flip: length_greater_0_conv\<close>)
qed (use assms(1) in \<open>simp add: row_step_def\<close>)

lemma consumes_row:
  assumes step: "row_step ins depth ver step"
    and ok: "row_ok (parse_column_value ins depth ver) (qs_previous st) (qs_columns st) cells"
    and none: "qs_bit_vector st = None"
  shows "consumes step st (row_message cells) (push_row (row_of cells) st)"
proof (cases "list_all cl_sent cells")
  case True
  then show ?thesis
    using handles_row [OF step, of st] full_row_reads [OF ok True] none
    by (auto simp: row_message_def intro!: consumes_message)
next
  case False
  let ?st = "st\<lparr>qs_bit_vector := Some (sent_bits cells)\<rparr>"
  have len: "length (sent_bits cells) = (length (qs_columns st) + 7) div 8"
    using ok by (simp add: sent_bits_def length_pack_bits row_ok_def)
  moreover have "sent_bits cells \<noteq> []"
    using False by (cases cells) (auto simp: sent_bits_def)
  ultimately have "consumes step st
      (21 # ub2_wire (of_nat (length (filter cl_sent cells))) @ sent_bits cells) ?st"
    by (intro consumes_message handles_bits [OF step])
  moreover have "consumes step ?st (7 # row_wire cells) (push_row (row_of cells) ?st)"
    using row_reads [OF ok] by (intro consumes_message handles_row [OF step]) simp
  moreover have "push_row (row_of cells) ?st = push_row (row_of cells) st"
    by (simp add: push_row_def)
  ultimately show ?thesis
    using False consumes_append by (fastforce simp: row_message_def)
qed

lemma consumes_rows:
  assumes "row_step ins depth ver step"
    and "rows_ok (parse_column_value ins depth ver) (qs_previous st) (qs_columns st) rows" "qs_bit_vector st = None"
  shows "\<exists>prev. consumes step st (concat (map row_message rows))
    (st\<lparr>qs_rows := qs_rows st @ map row_of rows, qs_previous := prev\<rparr>)"
  using assms
proof (induction rows arbitrary: st)
  case Nil
  show ?case by (intro exI [of _ "qs_previous st"]) (simp add: consumes_nil)
next
  case (Cons cells rows)
  let ?st = "push_row (row_of cells) st"
  have "row_values (row_of cells) = map cl_value cells" by (simp add: row_new_def)
  with Cons.prems have "rows_ok (parse_column_value ins depth ver) (qs_previous ?st) (qs_columns ?st) rows"
    "qs_bit_vector ?st = None"
    by (simp_all add: push_row_def)
  from Cons.IH [OF Cons.prems(1) this] obtain prev where rest: "consumes step ?st (concat (map row_message rows))
      (?st\<lparr>qs_rows := qs_rows ?st @ map row_of rows, qs_previous := prev\<rparr>)" by blast
  have first: "consumes step st (row_message cells) ?st"
    using Cons.prems by (intro consumes_row [OF Cons.prems(1)]) simp_all
  have "?st\<lparr>qs_rows := qs_rows ?st @ map row_of rows, qs_previous := prev\<rparr>
      = st\<lparr>qs_rows := qs_rows st @ map row_of (cells # rows), qs_previous := prev\<rparr>"
    using Cons.prems(3) by (cases st) (simp add: push_row_def)
  then show ?case using consumes_append [OF first rest] by auto
qed

lemma consumes_describe:
  assumes "\<forall>col\<in>set cols. column_sent col" "length cols < 4294967296"
  shows "consumes (query_step ins depth ver) st (16 # 0 # describe_wire ver cols) (st\<lparr>qs_columns := cols\<rparr>)"
proof (rule consumes_message, rule handlesI [where g = "\<lambda>columns. st\<lparr>qs_columns := columns\<rparr>"])
  have chunk: "reads skip_raw_bytes_chunked [0] ()"
    unfolding skip_raw_bytes_chunked_def
    by (rule reads_u8_then) (simp add: LONG_INDICATOR_def reads_skip)
  show "reads (andSeq skip_raw_bytes_chunked (parse_describe_info ver)) (0 # describe_wire ver cols) cols"
    using reads_andThen [OF chunk describe_reads [OF assms]] by (simp add: andSeq_def)
  show "query_step ins depth ver st 16 s = fmap (\<lambda>columns. (st\<lparr>qs_columns := columns\<rparr>, False))
      (rd (andSeq skip_raw_bytes_chunked (parse_describe_info ver))) s" for s
    by (cases s) (auto simp: query_step_def fmap_def rd_def andSeq_def andThen_apply split: prod.splits sum.splits)
qed

lemma consumes_row_header: "consumes (query_step ins depth ver) st row_header_wire st"
proof -
  have bits: "reads (andThen read_ub4 (\<lambda>num_bytes. if 0 < num_bytes then andSeq skip_ub1 (skip (unat num_bytes)) else ok ())) [0] ()"
    by (rule reads_step_ub_zero(2)) (simp add: reads_ok)
  have "reads parse_row_header [0, 0, 0, 0, 0, 0, 0] ()"
    unfolding parse_row_header_def
    by (intro reads_steps) (use reads_andThen [OF bits reads_no_items(4)] in \<open>simp add: andSeq_def\<close>)
  from handlesI [where g = "\<lambda>_. st", OF _ this] have "handles (query_step ins depth ver) st row_header_wire st False"
    by (simp add: query_step_def row_header_wire_def fmap_def andSeq_def)
  then show ?thesis by (rule consumes_message)
qed

lemma query_response:
  assumes "\<forall>col\<in>set cols. column_sent col" "length cols < 4294967296"
    and "rows_ok (parse_column_value ins depth ver) None cols rows"
    and "code = 0 \<or> code = 1403" "plain_message code message"
  shows "parse_query_response ins depth ver
      (f1 # f2 # query_body ver cols rows cursor_id row_count code message @ post) ss =
    Some (Inr \<lparr>qr_columns = cols, qr_rows = map row_of rows, qr_rows_affected = row_count,
       qr_has_more_rows = (cursor_id \<noteq> 0 \<and> code \<noteq> 1403), qr_cursor_id = cursor_id\<rparr>, ss)"
proof -
  let ?step = "query_step ins depth ver"
  define st1 where "st1 = (query_state_new [])\<lparr>qs_columns := cols\<rparr>"
  have d: "consumes ?step (query_state_new []) (16 # 0 # describe_wire ver cols) st1"
    unfolding st1_def by (rule consumes_describe [OF assms(1,2)])
  obtain prev where r: "consumes ?step st1 (concat (map row_message rows))
      (st1\<lparr>qs_rows := qs_rows st1 @ map row_of rows, qs_previous := prev\<rparr>)"
    using consumes_rows [OF row_step_query, of ins depth ver st1 rows] assms(3) by (auto simp: st1_def query_state_new_def)
  let ?st2 = "st1\<lparr>qs_rows := qs_rows st1 @ map row_of rows, qs_previous := prev\<rparr>"
  let ?st3 = "?st2\<lparr>qs_cursor_id := cursor_id, qs_row_count := row_count,
       qs_has_more := (cursor_id \<noteq> 0 \<and> code \<noteq> 1403)\<rparr>"
  have e: "handles ?step ?st2 (4 # end_wire cursor_id row_count code message) ?st3 True"
    using readsD [OF end_reads [OF assms(5), of cursor_id row_count]] assms(4)
    by (auto simp: handles_def query_step_def rd_def andThen_apply ok_apply end_info_def)
  have "query_body ver cols rows cursor_id row_count code message =
      ((16 # 0 # describe_wire ver cols) @ row_header_wire @ concat (map row_message rows))
      @ (4 # end_wire cursor_id row_count code message)"
    by (simp add: query_body_def)
  then show ?thesis
    unfolding parse_query_response_def parse_query_response_with_columns_def
    using run_response_message [OF consumes_append [OF d consumes_append [OF consumes_row_header r]] e,
        of f1 f2 "''Query response too short''" query_result_of post ss]
    by (simp add: query_result_of_def st1_def query_state_new_def)
qed

lemma fetch_response:
  assumes "rows_ok (parse_column_value ins depth ver) None cols rows"
    and "code = 0 \<or> code = 1403" "code = 0 \<or> is_str message"
  shows "parse_fetch_response ins depth ver c cols
      (f1 # f2 # fetch_body ver rows cursor_id row_count code message @ post) ss =
    Some (Inr \<lparr>qr_columns = cols, qr_rows = map row_of rows, qr_rows_affected = 0,
       qr_has_more_rows = (code \<noteq> 1403), qr_cursor_id = cursor_id\<rparr>, ss)"
proof -
  let ?step = "fetch_step ins depth ver"
  define st1 where "st1 = (query_state_new cols)\<lparr>qs_cursor_id := c, qs_has_more := True\<rparr>"
  obtain prev where r: "consumes ?step st1 (concat (map row_message rows))
      (st1\<lparr>qs_rows := qs_rows st1 @ map row_of rows, qs_previous := prev\<rparr>)"
    using consumes_rows [OF row_step_fetch, of ins depth ver st1 rows] assms(1)
    by (auto simp: st1_def query_state_new_def)
  let ?st2 = "st1\<lparr>qs_rows := qs_rows st1 @ map row_of rows, qs_previous := prev\<rparr>"
  let ?st3 = "?st2\<lparr>qs_cursor_id := cursor_id, qs_has_more := (code \<noteq> 1403)\<rparr>"
  have e: "handles ?step ?st2 (4 # fetch_end_wire ver cursor_id row_count code message) ?st3 True"
    using readsD [OF fetch_end_reads [OF assms(3), of ver cursor_id row_count]] assms(2)
    by (auto simp: handles_def fetch_step_def rd_def andThen_apply ok_apply)
  show ?thesis
    unfolding parse_fetch_response_def
    using run_response_message [OF r e, of f1 f2 "''Fetch response too short''" query_result_of post ss]
    by (simp add: query_result_of_def st1_def query_state_new_def fetch_body_def)
qed

text \<open>
  C1: a query's response is read back.  For every list of columns that metadata can carry, every
  sequence of rows the server sends compressed against the row before (a cell that repeats is
  left out and marked in the bit vector), and every closing message without a failure, the
  client's result has exactly those columns and rows, the row count and the cursor; more rows are
  expected iff a cursor is open and the server did not say 1403 (no more data).
\<close>

theorem query_response_decoded:
  assumes "\<forall>col\<in>set cols. column_sent col" "length cols < 4294967296"
    and "rows_ok (parse_column_value ins depth ver) None cols rows"
    and "code = 0 \<or> code = 1403" "plain_message code message"
  shows "parse_query_response ins depth ver
      (query_wire ver cols rows cursor_id row_count code message @ post) ss =
    Some (Inr \<lparr>qr_columns = cols, qr_rows = map row_of rows, qr_rows_affected = row_count,
       qr_has_more_rows = (cursor_id \<noteq> 0 \<and> code \<noteq> 1403), qr_cursor_id = cursor_id\<rparr>, ss)"
  using query_response [OF assms, of 0 0 cursor_id row_count post ss] by (simp add: query_wire_def)

lemma plain_reads:
  assumes "both_decode (ci_oracle_type col)" "bs \<noteq> []" "plain_value (ci_oracle_type col) bs = Inr v"
  shows "reads (parse_column_value ins depth ver col) (bytes_wire (Some bs)) v"
  unfolding parse_plain [OF assms(1)]
  by (rule reads_andThen_Nil [OF reads_bytes_with_length])
    (use assms(2,3) in \<open>simp add: or_null_def reads_def lift_res_apply\<close>)

definition sample_columns :: "column_info list" where
  "sample_columns =
     [(column_info_new ''C'' OraVarchar)\<lparr>ci_data_size := 10, ci_buffer_size := 10\<rparr>,
      (column_info_new ''N'' OraNumber)\<lparr>ci_data_size := 22, ci_buffer_size := 22\<rparr>]"

definition sample_rows :: "cell list list" where
  "sample_rows =
     [[\<lparr>cl_sent = True, cl_wire = [1, 65], cl_value = VString ''A''\<rparr>,
       \<lparr>cl_sent = True, cl_wire = [2, 193, 8], cl_value = VInteger 7\<rparr>],
      [\<lparr>cl_sent = False, cl_wire = [], cl_value = VString ''A''\<rparr>,
       \<lparr>cl_sent = True, cl_wire = [2, 193, 9], cl_value = VInteger 8\<rparr>]]"

lemma sample_reads:
  "reads (parse_column_value ins depth ver (sample_columns ! 0)) [1, 65] (VString ''A'')"
  "reads (parse_column_value ins depth ver (sample_columns ! 1)) [2, 193, 8] (VInteger 7)"
  "reads (parse_column_value ins depth ver (sample_columns ! 1)) [2, 193, 9] (VInteger 8)"
proof -
  have w: "bytes_wire (Some [65]) = [1, 65]" "bytes_wire (Some [193, 8]) = [2, 193, 8]"
    "bytes_wire (Some [193, 9]) = [2, 193, 9]"
    by code_simp+
  have v: "plain_value (ci_oracle_type (sample_columns ! 0)) [65] = Inr (VString ''A'')"
    "plain_value (ci_oracle_type (sample_columns ! 1)) [193, 8] = Inr (VInteger 7)"
    "plain_value (ci_oracle_type (sample_columns ! 1)) [193, 9] = Inr (VInteger 8)"
    by code_simp+
  have t: "both_decode (ci_oracle_type (sample_columns ! 0))" "both_decode (ci_oracle_type (sample_columns ! 1))"
    by (simp_all add: sample_columns_def column_info_new_def both_decode_def is_text_def)
  show "reads (parse_column_value ins depth ver (sample_columns ! 0)) [1, 65] (VString ''A'')"
    using plain_reads [OF t(1) _ v(1)] w(1) by simp
  show "reads (parse_column_value ins depth ver (sample_columns ! 1)) [2, 193, 8] (VInteger 7)"
    using plain_reads [OF t(2) _ v(2)] w(2) by simp
  show "reads (parse_column_value ins depth ver (sample_columns ! 1)) [2, 193, 9] (VInteger 8)"
    using plain_reads [OF t(2) _ v(3)] w(3) by simp
qed

lemma sample_sent: "\<forall>col\<in>set sample_columns. column_sent col"
proof -
  have "is_str ''C''" "is_str ''N''" "is_str []" by code_simp+
  then show ?thesis
    by (simp add: sample_columns_def column_info_new_def column_sent_def sends_text_def or_empty_def)
qed

lemma sample_rows_ok: "rows_ok (parse_column_value ins depth ver) None sample_columns sample_rows"
proof -
  have two: "sample_columns = [sample_columns ! 0, sample_columns ! 1]" by (simp add: sample_columns_def)
  show ?thesis
    unfolding sample_rows_def
    using sample_reads by (subst two, subst (2) two) (auto simp: row_ok_def cell_ok_def less_Suc_eq)
qed

theorem query_response_decoded_witness:
  "parse_query_response (\<lambda>k v m. m) 0 24
      (query_wire 24 sample_columns sample_rows 3 2 1403 ''ORA-01403: no data found'' @ []) session_state_default =
    Some (Inr \<lparr>qr_columns = sample_columns, qr_rows = map row_of sample_rows, qr_rows_affected = 2,
       qr_has_more_rows = False, qr_cursor_id = 3\<rparr>, session_state_default)"
proof -
  have "length sample_columns < 4294967296" by (simp add: sample_columns_def)
  moreover have "plain_message 1403 ''ORA-01403: no data found''" by code_simp
  ultimately show ?thesis
    using query_response_decoded [OF sample_sent _ sample_rows_ok, of 1403 "''ORA-01403: no data found''" "\<lambda>k v m. m" 0 24 3 2 "[]" session_state_default]
    by simp
qed



text \<open>
  A fetch does not know the rows of the fetch before it.  Where the server marks a column of
  the first row as repeated, the client has no previous row and the value becomes NULL.
\<close>

theorem fetch_forgets_previous_row:
  "parse_fetch_response ins depth ver cursor_id [col] [0, 0, 21, 0, 0, 7] ss =
    Some (Inr \<lparr>qr_columns = [col], qr_rows = [row_new [VNull]], qr_rows_affected = 0,
       qr_has_more_rows = True, qr_cursor_id = cursor_id\<rparr>, ss)"
proof -
  let ?b = "\<lambda>i. \<lparr>rb_data = [0, 0, 21, 0, 0, 7], rb_pos = i\<rparr>"
  let ?step = "fetch_step ins depth ver"
  define st where "st = (query_state_new [col])\<lparr>qs_cursor_id := cursor_id, qs_has_more := True\<rparr>"
  have r: "skip 2 (?b 0) = (Inr (), ?b 2)" "read_u8 (?b 2) = (Inr 21, ?b 3)" "read_ub2 (?b 3) = (Inr 0, ?b 4)"
    "read_bytes_vec 1 (?b 4) = (Inr [0], ?b 5)" "read_u8 (?b 5) = (Inr 7, ?b 6)"
    by code_simp+
  have bv: "read_bit_vector 1 None (?b 3) = (Inr (Some [0]), ?b 5)"
    using r by (simp add: read_bit_vector_def andSeq_def fmap_def ok_apply)
  have s1: "?step st 21 (?b 3, ss) = (Inr (st\<lparr>qs_bit_vector := Some [0]\<rparr>, False), (?b 5, ss))"
    using bv by (simp add: fetch_step_def fmap_def rd_def andThen_apply ok_apply st_def query_state_new_def)
  have dup: "duplicate_bit (Some [0]) 0" by code_simp
  have s2: "?step (st\<lparr>qs_bit_vector := Some [0]\<rparr>) 7 (?b 6, ss) = (Inr (push_row (row_new [VNull]) st, False), (?b 6, ss))"
    using dup
    by (simp add: fetch_step_def fmap_def rd_def andThen_apply ok_apply st_def query_state_new_def push_row_def
        parse_row_data_with_bitvector_def previous_value_def)
  have "message_loop ?step st (?b 2, ss) = Some (Inr (push_row (row_new [VNull]) st), (?b 6, ss))"
    using r s1 s2
    by (simp add: message_loop.simps [of _ _ "(_ :: rbuf, _)"] remaining_p_def remaining_def rd_def andThen_apply)
  then show ?thesis
    using r(1) by (simp add: parse_fetch_response_def run_response_def rd_def rbuf_new_def query_result_of_def
        push_row_def query_state_new_def st_def)
qed

end
