(* ===== verification/Requests.thy ===== *)
theory Requests
  imports Framing Codes
begin

section \<open>Building request packets\<close>

text \<open>
  What the request messages of \<open>src/src/messages\<close> share: a body written field by field, the
  function header with its token, and the data packet around it.
\<close>

text \<open>The statements \<open>buf.write_..(..)?;\<close> in sequence.\<close>

fun do_all :: "unit writer list \<Rightarrow> unit writer" where
  "do_all [] = ok ()"
| "do_all (m # ms) = andSeq m (do_all ms)"

lemma writes_do_all [writes_intros]: "list_all2 writes ms bss \<Longrightarrow> writes (do_all ms) (concat bss)"
  by (induction rule: list_all2_induct) (auto intro: writes_ok writes_andSeq)

lemma do_all_append: "do_all (ms @ ns) = andSeq (do_all ms) (do_all ns)"
proof (induction ms)
  case Nil
  show ?case by (simp add: andSeq_def)
next
  case (Cons m ms)
  then show ?case by (simp add: andSeq_def andThen_assoc)
qed

text \<open>A writer that runs on a fresh buffer and gives its bytes (\<open>buf.freeze()\<close>).\<close>

definition written :: "unit writer \<Rightarrow> u8 list result" where
  "written m = (case m wbuf_new of (Inl e, _) \<Rightarrow> Inl e | (Inr _, w) \<Rightarrow> Inr (wb_data w))"

lemma written_writes: "writes m bs \<Longrightarrow> written m = Inr bs"
  using writesD [of m bs wbuf_new] by (simp add: written_def fits_def wbuf_new_def)

text \<open>The token number that field versions from 18 on expect.\<close>

definition write_token :: "u8 \<Rightarrow> unit writer" where
  "write_token ver = (if 18 \<le> ver then write_ub8 0 else ok ())"

definition token_wire :: "u8 \<Rightarrow> u8 list" where
  "token_wire ver = (if 18 \<le> ver then [0] else [])"

lemma writes_token [writes_intros]: "writes (write_token ver) (token_wire ver)"
  using writes_ub8 [of 0] by (simp add: write_token_def token_wire_def writes_ok ub8_wire_def)

text \<open>
  The header of a data packet, the length four bytes wide with a large SDU and two bytes and a
  checksum without; \<open>packet_len as u16\<close> drops the high bits.
\<close>

definition data_header :: "bool \<Rightarrow> nat \<Rightarrow> u8 list" where
  "data_header large_sdu n =
     (if large_sdu then be_bytes 4 (of_nat n :: u32) else be_bytes 2 (of_nat n :: u16) @ [0, 0])
     @ [packet_type_byte Data, 0, 0, 0]"

lemma length_data_header [simp]: "length (data_header large_sdu n) = 8"
  by (simp add: data_header_def)

end
