(* ===== verification/Execute.thy ===== *)
theory Execute
  imports Requests Columns Binds
begin

section \<open>The execute message\<close>

text \<open>
  \<open>src/src/messages/execute.rs\<close>.  \<open>ver\<close> is the negotiated TTC field version, the only capability
  the message looks at; \<open>texts\<close> bundles the texts of other code: a float inside JSON, a JSON
  document (\<open>serde_json::to_string\<close>) and the \<open>{:?}\<close> text of a value.
\<close>

record texts =
  tx_float :: "u64 \<Rightarrow> string"
  tx_json :: "json \<Rightarrow> string"
  tx_debug :: "value \<Rightarrow> string"

definition OPT_PARSE :: u32 where "OPT_PARSE = 0x01"
definition OPT_BIND :: u32 where "OPT_BIND = 0x08"
definition OPT_DEFINE :: u32 where "OPT_DEFINE = 0x10"
definition OPT_EXECUTE :: u32 where "OPT_EXECUTE = 0x20"
definition OPT_FETCH :: u32 where "OPT_FETCH = 0x40"
definition OPT_COMMIT :: u32 where "OPT_COMMIT = 0x100"
definition OPT_COMMIT_REEXECUTE :: u32 where "OPT_COMMIT_REEXECUTE = 0x01"
definition OPT_PLSQL_BIND :: u32 where "OPT_PLSQL_BIND = 0x400"
definition OPT_NOT_PLSQL :: u32 where "OPT_NOT_PLSQL = 0x8000"
definition OPT_DESCRIBE :: u32 where "OPT_DESCRIBE = 0x20000"
definition OPT_BATCH_ERRORS :: u32 where "OPT_BATCH_ERRORS = 0x80000"
definition FLG_DML_ROWCOUNTS :: u32 where "FLG_DML_ROWCOUNTS = 0x4000"
definition FLG_IMPLICIT_RESULTSET :: u32 where "FLG_IMPLICIT_RESULTSET = 0x8000"
definition FLG_NO_IMPL_REL :: u32 where "FLG_NO_IMPL_REL = 0x200000"
definition FLG_NO_CANCEL_ON_EOF :: u32 where "FLG_NO_CANCEL_ON_EOF = 0x80"
definition FLG_SCROLLABLE :: u32 where "FLG_SCROLLABLE = 0x02"
definition MAX_LONG_LENGTH :: u32 where "MAX_LONG_LENGTH = 0x7FFFFFFF"
definition USE_INDICATORS :: u8 where "USE_INDICATORS = 0x01"
definition CHARSET_UTF8 :: u16 where "CHARSET_UTF8 = 873"
definition LOB_PREFETCH_FLAG :: u64 where "LOB_PREFETCH_FLAG = 0x2000000"
definition TOP_LEVEL :: u32 where "TOP_LEVEL = 0x01"

lemmas execute_options_consts = OPT_PARSE_def OPT_BIND_def OPT_DEFINE_def OPT_EXECUTE_def OPT_FETCH_def
  OPT_COMMIT_def OPT_PLSQL_BIND_def OPT_NOT_PLSQL_def OPT_DESCRIBE_def OPT_BATCH_ERRORS_def

lemmas execute_flags_consts = FLG_DML_ROWCOUNTS_def FLG_IMPLICIT_RESULTSET_def FLG_NO_IMPL_REL_def
  FLG_NO_CANCEL_ON_EOF_def FLG_SCROLLABLE_def

subsection \<open>The message\<close>

record execute_options =
  eo_parse :: bool
  eo_execute :: bool
  eo_fetch :: bool
  eo_commit :: bool
  eo_no_implicit_release :: bool
  eo_define :: bool
  eo_describe_only :: bool
  eo_batch_errors :: bool
  eo_dml_row_counts :: bool
  eo_scrollable :: bool
  eo_scroll_operation :: bool
  eo_fetch_orientation :: u32
  eo_fetch_pos :: u32
  eo_prefetch_rows :: u32
  eo_num_execs :: u32

definition options_default :: execute_options where
  "options_default =
     \<lparr>eo_parse = False, eo_execute = False, eo_fetch = False, eo_commit = False, eo_no_implicit_release = False,
      eo_define = False, eo_describe_only = False, eo_batch_errors = False, eo_dml_row_counts = False,
      eo_scrollable = False, eo_scroll_operation = False, eo_fetch_orientation = 0, eo_fetch_pos = 0,
      eo_prefetch_rows = 0, eo_num_execs = 0\<rparr>"

definition options_for_query :: "u32 \<Rightarrow> execute_options" where
  "options_for_query prefetch_rows = options_default\<lparr>eo_parse := True, eo_execute := True,
     eo_fetch := (0 < prefetch_rows), eo_prefetch_rows := prefetch_rows, eo_num_execs := 1\<rparr>"

definition options_for_dml :: "bool \<Rightarrow> execute_options" where
  "options_for_dml commit = options_default\<lparr>eo_parse := True, eo_execute := True, eo_commit := commit,
     eo_num_execs := 1\<rparr>"

definition options_for_plsql :: execute_options where
  "options_for_plsql = options_default\<lparr>eo_parse := True, eo_execute := True, eo_no_implicit_release := True,
     eo_num_execs := 1\<rparr>"

definition options_describe_only :: execute_options where
  "options_describe_only = options_default\<lparr>eo_parse := True, eo_describe_only := True\<rparr>"

definition options_for_ref_cursor :: "u32 \<Rightarrow> execute_options" where
  "options_for_ref_cursor fetch_size = options_default\<lparr>eo_fetch := (0 < fetch_size),
     eo_prefetch_rows := fetch_size, eo_num_execs := fetch_size\<rparr>"

record bind_metadata =
  bm_oracle_type :: oracle_type
  bm_buffer_size :: u32

record execute_message =
  em_statement :: statement
  em_options :: execute_options
  em_function_code :: function_code
  em_rows :: "value list list"
  em_sequence_number :: u8
  em_skip_row_data :: bool
  em_metadata :: "bind_metadata list option"

definition choose_function :: "statement \<Rightarrow> execute_options \<Rightarrow> function_code" where
  "choose_function stmt options =
     (if st_cursor_id stmt = 0 \<or> \<not> st_executed stmt \<or> st_sql stmt = [] \<or> is_ddl stmt
         \<or> st_binds_changed stmt \<or> eo_describe_only options \<or> st_requires_define stmt
         \<or> eo_batch_errors options \<or> eo_scrollable options
      then FnExecute
      else if is_query stmt \<and> 0 < eo_prefetch_rows options then FnReexecuteAndFetch
      else FnReexecute)"

definition execute_message_new :: "statement \<Rightarrow> execute_options \<Rightarrow> execute_message" where
  "execute_message_new stmt options =
     \<lparr>em_statement = stmt, em_options = options, em_function_code = choose_function stmt options,
      em_rows = [], em_sequence_number = 1, em_skip_row_data = False, em_metadata = None\<rparr>"

definition set_bind_values :: "value list \<Rightarrow> execute_message \<Rightarrow> execute_message" where
  "set_bind_values values m = m\<lparr>em_rows := [values]\<rparr>"

definition set_batch_bind_values :: "value list list \<Rightarrow> execute_message \<Rightarrow> execute_message" where
  "set_batch_bind_values rows m =
     (let m1 = m\<lparr>em_rows := rows\<rparr>
      in if rows = [] then m1
         else m1\<lparr>em_options := (em_options m1)\<lparr>eo_num_execs := of_nat (length rows)\<rparr>\<rparr>)"

definition has_bind_values :: "execute_message \<Rightarrow> bool" where
  "has_bind_values m \<longleftrightarrow> em_rows m \<noteq> [] \<and> hd (em_rows m) \<noteq> []"

subsection \<open>Options, flags and counts\<close>

definition num_params :: "execute_message \<Rightarrow> u32" where
  "num_params m =
     (let stmt = em_statement m
      in if st_requires_define stmt then 0
         else if st_bind_info_list stmt \<noteq> [] then of_nat (length (st_bind_info_list stmt))
         else if has_bind_values m then of_nat (length (hd (em_rows m)))
         else 0)"

definition set_if :: "bool \<Rightarrow> u32 \<Rightarrow> u32 \<Rightarrow> u32" where
  "set_if c flag flags = (if c then flags OR flag else flags)"

definition exec_opts :: "execute_message \<Rightarrow> u32" where
  "exec_opts m =
     (let stmt = em_statement m; opts = em_options m; n = num_params m
      in set_if (eo_commit opts \<and> \<not> eo_describe_only opts) OPT_COMMIT
        (set_if (eo_batch_errors opts) OPT_BATCH_ERRORS
        (set_if (0 < n \<and> \<not> eo_scroll_operation opts) OPT_BIND
        ((if \<not> is_plsql stmt \<and> \<not> eo_describe_only opts then set_if True OPT_NOT_PLSQL
          else set_if (is_plsql stmt \<and> 0 < n) OPT_PLSQL_BIND)
        ((if eo_describe_only opts then set_if True OPT_DESCRIBE
          else set_if (eo_fetch opts \<and> 0 < eo_prefetch_rows opts \<and> \<not> st_no_prefetch stmt) OPT_FETCH)
        (set_if (st_cursor_id stmt = 0 \<or> is_ddl stmt) OPT_PARSE
        (if st_requires_define stmt then set_if True OPT_DEFINE 0
         else set_if (\<not> eo_describe_only opts \<and> st_sql stmt \<noteq> [] \<and> eo_execute opts
           \<and> \<not> eo_scroll_operation opts) OPT_EXECUTE 0)))))))"

definition exec_flgs :: "execute_message \<Rightarrow> u32" where
  "exec_flgs m =
     (let stmt = em_statement m; opts = em_options m
      in set_if (eo_dml_row_counts opts) FLG_DML_ROWCOUNTS
        (set_if (eo_no_implicit_release opts) FLG_NO_IMPL_REL
        (set_if (eo_scrollable opts) FLG_NO_CANCEL_ON_EOF
        (set_if (eo_scrollable opts) FLG_SCROLLABLE
        (set_if (\<not> st_requires_define stmt \<and> \<not> eo_describe_only opts \<and> st_sql stmt \<noteq> [])
          FLG_IMPLICIT_RESULTSET 0)))))"

definition num_iters :: "execute_message \<Rightarrow> u32" where
  "num_iters m =
     (if is_query (em_statement m) then eo_prefetch_rows (em_options m) else eo_num_execs (em_options m))"

definition sends_sql :: "statement \<Rightarrow> bool" where
  "sends_sql stmt \<longleftrightarrow> st_cursor_id stmt = 0 \<or> is_ddl stmt"

definition fetch_position :: "execute_options \<Rightarrow> u32 \<times> u32" where
  "fetch_position opts =
     (if eo_scrollable opts \<and> \<not> eo_scroll_operation opts then (1, 1)
      else if eo_scroll_operation opts then (eo_fetch_orientation opts, eo_fetch_pos opts)
      else (0, 0))"

subsection \<open>Metadata\<close>

definition char_form :: "oracle_type \<Rightarrow> u8" where
  "char_form t = (if t = OraVarchar \<or> t = OraChar \<or> t = OraLong \<or> t = OraClob \<or> t = OraJson then 1 else 0)"

definition prefetch_flag :: "oracle_type \<Rightarrow> u64" where
  "prefetch_flag t = (if t = OraClob \<or> t = OraBlob \<or> t = OraJson \<or> t = OraVector then LOB_PREFETCH_FLAG else 0)"

definition charset_of :: "u8 \<Rightarrow> u16" where
  "charset_of csfrm = (if csfrm \<noteq> 0 then CHARSET_UTF8 else 0)"

definition write_oaccolid :: "u8 \<Rightarrow> unit writer" where
  "write_oaccolid ver = (if FIELD_VERSION_12_2 \<le> ver then write_ub4 0 else ok ())"

text \<open>Type, buffer size, character set form and continuation flag of a value.\<close>

definition infer_bind_metadata :: "value \<Rightarrow> u32 \<Rightarrow> oracle_type \<times> u32 \<times> u8 \<times> u64" where
  "infer_bind_metadata v max_size =
     (case v of
        VNull \<Rightarrow> (OraVarchar, 1, 1, 0)
      | VTypedNull t \<Rightarrow> (t, max (max (default_bind_buffer_size t) max_size) 1, char_form t, prefetch_flag t)
      | VInteger _ \<Rightarrow> (OraNumber, 22, 0, 0)
      | VFloat _ \<Rightarrow> (OraBinaryDouble, 8, 0, 0)
      | VString _ \<Rightarrow> (OraVarchar, max max_size 1, 1, 0)
      | VBytes _ \<Rightarrow> (OraRaw, max max_size 1, 0, 0)
      | VBoolean _ \<Rightarrow> (OraBoolean, 1, 0, 0)
      | VNumber _ \<Rightarrow> (OraNumber, 22, 0, 0)
      | VTimestamp _ \<Rightarrow> (OraTimestamp, 13, 0, 0)
      | VDate _ \<Rightarrow> (OraDate, 7, 0, 0)
      | VIntervalYM _ \<Rightarrow> (OraIntervalYm, 5, 0, 0)
      | VIntervalDS _ \<Rightarrow> (OraIntervalDs, 11, 0, 0)
      | VRowId _ \<Rightarrow> (OraVarchar, 18, 1, 0)
      | VLob l \<Rightarrow>
          let t = (case l of LobLoc loc \<Rightarrow> loc_type loc | _ \<Rightarrow> OraClob)
          in (t, 112, if t = OraBlob then 0 else 1, LOB_PREFETCH_FLAG)
      | VJson _ \<Rightarrow> (OraJson, max max_size 100, 1, LOB_PREFETCH_FLAG)
      | VVector _ \<Rightarrow> (OraVector, max max_size 100, 0, LOB_PREFETCH_FLAG)
      | VCursor _ \<Rightarrow> (OraCursor, 0, 0, 0)
      | VCollection _ \<Rightarrow> (OraObject, 0, 0, 0))"

definition bind_size :: "texts \<Rightarrow> value \<Rightarrow> u32" where
  "bind_size tx v =
     (case v of
        VString s \<Rightarrow> of_nat (length s)
      | VBytes b \<Rightarrow> of_nat (length b)
      | VJson j \<Rightarrow> of_nat (length (tx_json tx j))
      | VVector vec \<Rightarrow> of_nat (dimensions vec * 8)
      | _ \<Rightarrow> 0)"

text \<open>The largest size of each column over all rows; a row longer than the first is out of range.\<close>

fun widen :: "texts \<Rightarrow> value list \<Rightarrow> u32 list \<Rightarrow> u32 list result" where
  "widen tx [] sizes = Inr sizes"
| "widen tx (v # vs) [] = Inl Panic"
| "widen tx (v # vs) (m # sizes) = res_bind (widen tx vs sizes) (\<lambda>rest. Inr (max (bind_size tx v) m # rest))"

fun max_sizes :: "texts \<Rightarrow> value list list \<Rightarrow> u32 list \<Rightarrow> u32 list result" where
  "max_sizes tx [] sizes = Inr sizes"
| "max_sizes tx (r # rows) sizes = res_bind (widen tx r sizes) (max_sizes tx rows)"

definition bind_metadata_of :: "bind_metadata list option \<Rightarrow> nat \<Rightarrow> value \<Rightarrow> u32
    \<Rightarrow> oracle_type \<times> u32 \<times> u8 \<times> u64" where
  "bind_metadata_of metadata col_idx v max_size =
     (case Option.bind metadata (\<lambda>ms. list_get ms col_idx) of
        Some meta \<Rightarrow> (bm_oracle_type meta, bm_buffer_size meta, char_form (bm_oracle_type meta),
                      prefetch_flag (bm_oracle_type meta))
      | None \<Rightarrow> infer_bind_metadata v max_size)"

definition type_oid_of :: "value \<Rightarrow> u8 list option" where
  "type_oid_of v = (case v of VCollection coll \<Rightarrow> Option.bind (object_get ''_type_oid'' coll) as_bytes | _ \<Rightarrow> None)"

definition write_oid :: "oracle_type \<Rightarrow> value \<Rightarrow> unit writer" where
  "write_oid t v =
     (if t = OraObject then
        (case type_oid_of v of
           Some oid \<Rightarrow> do_all [write_ub4 (of_nat (length oid)), write_bytes_with_length (Some oid), write_ub4 0]
         | None \<Rightarrow> do_all [write_ub4 0, write_ub4 0])
      else do_all [write_ub4 0, write_ub2 0])"

definition write_bind_metadata :: "u8 \<Rightarrow> bind_metadata list option \<Rightarrow> nat \<Rightarrow> value \<Rightarrow> u32 \<Rightarrow> unit writer" where
  "write_bind_metadata ver metadata col_idx v max_size =
     (let (t, buffer_size, csfrm, cont_flag) = bind_metadata_of metadata col_idx v max_size
      in do_all [write_u8 (oracle_type_byte t), write_u8 USE_INDICATORS, write_u8 0, write_u8 0,
           write_ub4 buffer_size, write_ub4 0, write_ub8 cont_flag, write_oid t v,
           write_ub2 (charset_of csfrm), write_u8 csfrm, write_ub4 0, write_oaccolid ver])"

text \<open>The define of a fetched column; ROWIDs are fetched as text, JSON and vectors inline.\<close>

definition is_rowid_type :: "oracle_type \<Rightarrow> bool" where
  "is_rowid_type t \<longleftrightarrow> t = OraRowid \<or> t = OraUrowid"

definition inline_lob :: "oracle_type \<Rightarrow> bool" where
  "inline_lob t \<longleftrightarrow> t = OraJson \<or> t = OraVector"

definition write_column_define :: "u8 \<Rightarrow> column_info \<Rightarrow> unit writer" where
  "write_column_define ver col =
     (let t = ci_oracle_type col
      in do_all [write_u8 (oracle_type_byte (if is_rowid_type t then OraVarchar else t)), write_u8 USE_INDICATORS,
           write_u8 0, write_u8 0,
           write_ub4 (if inline_lob t then 1000000 else if is_rowid_type t then 4000 else ci_buffer_size col),
           write_ub4 0,
           write_ub8 (if t = OraBlob \<or> t = OraClob \<or> inline_lob t then LOB_PREFETCH_FLAG else 0),
           write_ub4 0, write_ub2 0, write_ub2 (charset_of (ci_csfrm col)), write_u8 (ci_csfrm col),
           write_ub4 (if inline_lob t then 1000000 else 0), write_oaccolid ver])"

definition write_column_defines :: "u8 \<Rightarrow> statement \<Rightarrow> unit writer" where
  "write_column_defines ver stmt = do_all (map (write_column_define ver) (st_columns stmt))"

subsection \<open>Values\<close>

definition write_short :: "u8 list \<Rightarrow> unit writer" where
  "write_short bytes = do_all [write_u8 (of_nat (length bytes)), write_bytes bytes]"

definition write_short_encoded :: "u8 list result \<Rightarrow> unit writer" where
  "write_short_encoded r = andThen (lift_res r) write_short"

definition write_long_or_short :: "u8 list \<Rightarrow> unit writer" where
  "write_long_or_short bytes =
     (if bytes = [] then write_u8 0
      else if length bytes \<le> 252 then write_short bytes
      else do_all [write_u8 254, write_ub4 (of_nat (length bytes)), write_bytes bytes])"

text \<open>The forty-byte locator before JSON and vector data, and the length after it.\<close>

definition write_qlocator :: "nat \<Rightarrow> unit writer" where
  "write_qlocator n =
     do_all [write_ub4 40, write_u8 40, write_u16_be 38, write_u16_be 4, write_u8 (0x20 OR 0x01 OR 0x40),
       write_u8 0x08, write_u16_be 0, write_u16_be 1, write_u64_be (of_nat n), write_u16_be 0,
       write_u16_be 0, write_u16_be 0, write_u64_be 0, write_u64_be 0]"

definition write_data_length :: "nat \<Rightarrow> unit writer" where
  "write_data_length n =
     (if n < 254 then write_u8 (of_nat n)
      else if n \<le> 65535 then do_all [write_u8 254, write_u16_be (of_nat n)]
      else do_all [write_u8 255, write_u32_be (of_nat n)])"

definition write_inline_lob :: "u8 list \<Rightarrow> unit writer" where
  "write_inline_lob bytes =
     do_all [write_qlocator (length bytes), write_data_length (length bytes), write_bytes bytes]"

definition TOID_PREFIX :: "u8 list" where "TOID_PREFIX = [0x00, 0x22]"
definition NON_NULL_OID :: u8 where "NON_NULL_OID = 0x02"
definition HAS_EXTENT_OID :: u8 where "HAS_EXTENT_OID = 0x08"
definition EXTENT_OID :: "u8 list" where
  "EXTENT_OID = [0, 0, 0, 0, 0, 0, 0, 0, 0, 0, 0, 0, 0, 1, 0, 1]"

definition entry_text :: "string \<Rightarrow> db_object \<Rightarrow> string" where
  "entry_text key coll = (case Option.bind (object_get key coll) as_str of None \<Rightarrow> [] | Some s \<Rightarrow> s)"

definition bound_type :: "u8 list \<Rightarrow> db_object \<Rightarrow> db_object_type" where
  "bound_type type_oid coll =
     \<lparr>ot_schema = entry_text ''_type_schema'' coll, ot_name = entry_text ''_type_name'' coll,
      ot_package_name = None, ot_is_collection = True,
      ot_collection_type = Some
        (case Option.bind (object_get ''_collection_type'' coll) as_i64 of
           None \<Rightarrow> Varray
         | Some c \<Rightarrow> if c = 1 then PlsqlIndexTable else if c = 2 then NestedTable else Varray),
      ot_element_type = Some
        (case Option.bind (object_get ''_element_type'' coll) as_i64 of
           None \<Rightarrow> OraVarchar
         | Some c \<Rightarrow> (case ok_option (oracle_type_try_from (word_of_int c)) of None \<Rightarrow> OraVarchar | Some t \<Rightarrow> t)),
      ot_element_type_name = None, ot_attributes = [], ot_oid = Some type_oid\<rparr>"

definition write_collection_with_data :: "texts \<Rightarrow> db_object \<Rightarrow> unit writer" where
  "write_collection_with_data tx coll =
     (case Option.bind (object_get ''_type_oid'' coll) as_bytes of
        None \<Rightarrow> fail (Protocol ''Collection missing type OID for IN binding'')
      | Some type_oid \<Rightarrow>
          let toid = TOID_PREFIX @ [NON_NULL_OID, HAS_EXTENT_OID] @ type_oid @ EXTENT_OID
          in andThen (lift_res (encode_collection (tx_debug tx) coll (bound_type type_oid coll))) (\<lambda>packed_data.
               do_all [write_ub4 (of_nat (length toid)), write_bytes_with_length (Some toid), write_ub4 0, write_ub4 0,
                 write_ub4 0, write_ub4 (of_nat (length packed_data)), write_ub4 TOP_LEVEL,
                 write_bytes_with_length (Some packed_data)]))"

definition write_bind_value :: "texts \<Rightarrow> value \<Rightarrow> unit writer" where
  "write_bind_value tx v =
     (case v of
        VNull \<Rightarrow> write_u8 0
      | VTypedNull _ \<Rightarrow> write_u8 0
      | VInteger n \<Rightarrow> write_short_encoded (encode_oracle_number (show_int n))
      | VFloat f \<Rightarrow> do_all [write_u8 8, write_bytes (encode_binary_double f)]
      | VNumber n \<Rightarrow> write_short_encoded (encode_oracle_number (on_value n))
      | VString s \<Rightarrow> write_long_or_short (bytes_of_text s)
      | VBytes b \<Rightarrow> write_long_or_short b
      | VBoolean b \<Rightarrow> do_all [write_u8 2, write_u8 (if b then 1 else 0)]
      | VTimestamp ts \<Rightarrow> write_short_encoded (timestamp_to_oracle_bytes ts)
      | VDate d \<Rightarrow> write_short_encoded (date_to_oracle_bytes d)
      | VIntervalYM i \<Rightarrow> write_short_encoded (encode_oracle_interval_ym i)
      | VIntervalDS i \<Rightarrow> write_short_encoded (encode_oracle_interval_ds i)
      | VRowId r \<Rightarrow> (case rowid_to_string r of Some s \<Rightarrow> write_short (bytes_of_text s) | None \<Rightarrow> write_u8 0)
      | VLob l \<Rightarrow>
          (case l of
             LobLoc loc \<Rightarrow>
               do_all [write_ub4 (of_nat (length (loc_bytes loc))), write_bytes_with_length (Some (loc_bytes loc))]
           | _ \<Rightarrow> write_u8 0)
      | VJson j \<Rightarrow>
          (case oson_encode (tx_float tx) j of
             Inr bytes \<Rightarrow> write_inline_lob bytes
           | Inl Panic \<Rightarrow> lift_res (Inl Panic)
           | Inl (Err e) \<Rightarrow> write_u8 0)
      | VVector vec \<Rightarrow> write_inline_lob (encode_vector vec)
      | VCursor c \<Rightarrow>
          (if rc_cursor_id c = 0 then do_all [write_u8 1, write_u8 0]
           else do_all [write_ub4 1, write_ub4 (ucast (rc_cursor_id c))])
      | VCollection coll \<Rightarrow>
          (if obj_elements coll = []
           then do_all [write_ub4 0, write_ub4 0, write_ub4 0, write_ub2 0, write_ub4 0, write_ub4 TOP_LEVEL]
           else write_collection_with_data tx coll))"

definition write_row :: "texts \<Rightarrow> value list \<Rightarrow> unit writer" where
  "write_row tx row = do_all (write_u8 (message_type_byte MsgRowData) # map (write_bind_value tx) row)"

definition write_bind_params :: "texts \<Rightarrow> u8 \<Rightarrow> execute_message \<Rightarrow> unit writer" where
  "write_bind_params tx ver m =
     (case em_rows m of
        [] \<Rightarrow> ok ()
      | first_row # _ \<Rightarrow>
          andThen (lift_res (max_sizes tx (em_rows m) (replicate (length first_row) 0))) (\<lambda>sizes.
          andSeq (do_all (map (\<lambda>(i, v, s). write_bind_metadata ver (em_metadata m) i v s)
                    (enumerate 0 (zip first_row sizes))))
            (if em_skip_row_data m then ok () else do_all (map (write_row tx) (em_rows m)))))"

subsection \<open>The requests\<close>

definition write_function_header :: "u8 \<Rightarrow> function_code \<Rightarrow> u8 \<Rightarrow> unit writer" where
  "write_function_header ver code seq =
     do_all [write_u8 (message_type_byte MsgFunction), write_u8 (function_code_byte code), write_u8 seq,
       write_token ver]"

text \<open>The fields up to the SQL text.\<close>

definition execute_body :: "u8 \<Rightarrow> execute_message \<Rightarrow> unit writer list" where
  "execute_body ver m =
     (let stmt = em_statement m; opts = em_options m; n = num_params m
      in [write_ub4 (exec_opts m), write_ub4 (ucast (st_cursor_id stmt)),
          write_u8 (if sends_sql stmt then 1 else 0),
          write_ub4 (if sends_sql stmt then of_nat (length (st_sql_bytes stmt)) else 0),
          write_u8 1, write_ub4 13, write_u8 0, write_u8 0, write_ub4 0, write_ub4 (num_iters m),
          write_ub4 MAX_LONG_LENGTH,
          write_u8 (if n = 0 then 0 else 1), write_ub4 n,
          write_u8 0, write_u8 0, write_u8 0, write_u8 0, write_u8 0,
          write_u8 (if st_requires_define stmt then 1 else 0),
          write_ub4 (if st_requires_define stmt then of_nat (length (st_columns stmt)) else 0),
          write_ub4 0, write_u8 0, write_u8 1, write_u8 0, write_ub4 0, write_u8 0, write_ub4 0, write_ub4 0,
          write_u8 (if eo_dml_row_counts opts then 1 else 0),
          write_ub4 (if eo_dml_row_counts opts then eo_num_execs opts else 0),
          write_u8 (if eo_dml_row_counts opts then 1 else 0)])"

definition execute_extension :: "u8 \<Rightarrow> unit writer list" where
  "execute_extension ver =
     (if FIELD_VERSION_12_2 \<le> ver then
        [write_u8 0, write_ub4 0, write_u8 0, write_ub4 0, write_u8 0]
        @ (if 9 \<le> ver then [write_u8 0, write_ub4 0] else [])
      else [])"

text \<open>The SQL text and the thirteen entries of the \<open>al8i4\<close> array.\<close>

definition execute_sql :: "statement \<Rightarrow> unit writer list" where
  "execute_sql stmt = (if sends_sql stmt then [write_bytes_with_length (Some (st_sql_bytes stmt))] else [])"

definition al8i4 :: "execute_message \<Rightarrow> u32 list" where
  "al8i4 m =
     (let stmt = em_statement m; opts = em_options m; (orientation, pos) = fetch_position opts
      in [if sends_sql stmt then 1 else 0,
          if is_query stmt then (if st_cursor_id stmt = 0 then 0 else num_iters m) else eo_num_execs opts,
          0, 0, 0, 0, 0, if is_query stmt then 1 else 0, 0, exec_flgs m, orientation, pos, 0])"

definition write_execute_message :: "texts \<Rightarrow> u8 \<Rightarrow> execute_message \<Rightarrow> unit writer" where
  "write_execute_message tx ver m =
     do_all ([write_function_header ver (em_function_code m) (em_sequence_number m)]
       @ execute_body ver m @ execute_extension ver @ execute_sql (em_statement m)
       @ map write_ub4 (al8i4 m)
       @ [if st_requires_define (em_statement m) then write_column_defines ver (em_statement m)
          else if has_bind_values m then write_bind_params tx ver m
          else ok ()])"

definition write_reexecute_message :: "texts \<Rightarrow> u8 \<Rightarrow> execute_message \<Rightarrow> unit writer" where
  "write_reexecute_message tx ver m =
     (let stmt = em_statement m; opts = em_options m;
          and_fetch = (em_function_code m = FnReexecuteAndFetch)
      in do_all ([write_function_header ver (em_function_code m) (em_sequence_number m),
           write_ub4 (ucast (st_cursor_id stmt)),
           write_ub4 (if and_fetch then eo_prefetch_rows opts else eo_num_execs opts),
           write_ub4 (if and_fetch then OPT_EXECUTE else 0),
           write_ub4 (if \<not> and_fetch \<and> eo_commit opts then OPT_COMMIT_REEXECUTE else 0)]
           @ (if has_bind_values m then map (write_row tx) (em_rows m) else [])))"

text \<open>\<open>unreachable!()\<close>: the function code is one of the three.\<close>

definition write_execute_request :: "texts \<Rightarrow> u8 \<Rightarrow> execute_message \<Rightarrow> unit writer" where
  "write_execute_request tx ver m =
     andSeq (write_u16_be END_OF_REQUEST)
       (if em_function_code m = FnExecute then write_execute_message tx ver m
        else if em_function_code m = FnReexecute \<or> em_function_code m = FnReexecuteAndFetch
        then write_reexecute_message tx ver m
        else lift_res (Inl Panic))"

definition build_execute_request :: "texts \<Rightarrow> u8 \<Rightarrow> bool \<Rightarrow> execute_message \<Rightarrow> u8 list result" where
  "build_execute_request tx ver large_sdu m =
     res_bind (written (write_execute_request tx ver m)) (\<lambda>payload.
       Inr (data_header large_sdu (PACKET_HEADER_SIZE + length payload) @ payload))"

end
