(* ===== verification/ExecuteLaws.thy ===== *)
theory ExecuteLaws
  imports Execute QueryLaws
begin

section \<open>Properties of the execute message\<close>

text \<open>
  Bound values are read back as columns of their bind type; the request's fields are found where
  the protocol has them.
\<close>

subsection \<open>Bound values\<close>

definition bind_type :: "value \<Rightarrow> oracle_type" where
  "bind_type v = fst (infer_bind_metadata v 0)"

text \<open>The values whose field is their contents behind one length byte.\<close>

definition bindable :: "value \<Rightarrow> bool" where
  "bindable v \<longleftrightarrow>
     v = VNull \<or> (\<nexists>b. v = VBoolean b) \<and> (\<exists>bs. holds (bind_type v) v bs \<and> length bs \<le> 252)"

definition bound_column :: "value \<Rightarrow> column_info" where
  "bound_column v = column_info_new [] (bind_type v)"

lemma number_value_integer:
  assumes "- (2 ^ 63) \<le> i" "i < 2 ^ 63" "encode_oracle_number (show_int i) = Inr bs"
  shows "number_value bs = Inr (VInteger i)"
  using fun_cong [OF holds_integer(3) [OF assms], of undefined]
  by (cases "decode_oracle_number bs")
    (auto simp: number_value_def fmap_def andThen_apply lift_res_apply ok_apply)

lemma holds_plain:
  assumes "holds (bind_type v) v bs" "\<nexists>b. v = VBoolean b"
  shows "both_decode (bind_type v) \<and> bs \<noteq> [] \<and> plain_value (bind_type v) bs = Inr v"
proof -
  have ne: "bs \<noteq> []" using holds_reads [OF assms(1)] by blast
  note d = holds_def bind_type_def infer_bind_metadata_def both_decode_def is_text_def plain_value_def wrap_def
  show ?thesis
  proof (cases v)
    case (VString s)
    then show ?thesis using assms ne by (auto simp: d from_utf8_lossy_str)
  next
    case (VInteger i)
    then show ?thesis using assms ne number_value_integer by (auto simp: d)
  next
    case (VFloat f)
    have "decode_binary_double (encode_binary_double f) = f"
      using decode_double_wire [of "wire_float f" "[]"] by (simp add: encode_double_wire)
    then show ?thesis using VFloat assms ne by (auto simp: d)
  next
    case (VNumber n)
    then show ?thesis using assms ne by (auto simp: d number_canonical_def number_value_def)
  next
    case (VDate x)
    then have x: "date_fits x" "date_to_oracle_bytes x = Inr bs" using assms by (auto simp: d)
    have "decode_oracle_date bs = Inr x"
      using decode_encode_date [OF x(1), of "[]"] encode_date_fits [OF x(1)] x(2) by (simp add: date_to_oracle_bytes_def)
    then show ?thesis using VDate ne by (auto simp: d)
  next
    case (VTimestamp ts)
    then have ts: "timestamp_plain ts" "timestamp_to_oracle_bytes ts = Inr bs" using assms by (auto simp: d)
    then show ?thesis using VTimestamp ne decode_timestamp_plain by (auto simp: d is_timestamp_def)
  next
    case (VIntervalYM i)
    then show ?thesis
      using assms ne interval_ym_wire [of i] by (auto simp: d interval_ym_fits_def)
  next
    case (VIntervalDS i)
    then show ?thesis
      using assms ne interval_ds_wire [of i] by (auto simp: d interval_ds_fits_def)
  qed (use assms ne in \<open>auto simp: d\<close>)
qed

lemma short_wire: "length bs \<le> 252 \<Longrightarrow> bytes_wire (Some bs) = of_nat (length bs) # bs"
  by (simp add: bytes_wire_def MAX_SHORT_def)

lemma writes_short: "length bs \<le> 252 \<Longrightarrow> writes (write_short bs) (bytes_wire (Some bs))"
  using writes_andSeq [OF writes_raw(1) [of "of_nat (length bs)"] writes_andSeq [OF writes_raw(2) [of bs] writes_ok]]
  by (simp add: write_short_def short_wire)

lemma writes_value:
  assumes "holds (bind_type v) v bs" "length bs \<le> 252" "\<nexists>b. v = VBoolean b"
  shows "writes (write_bind_value tx v) (bytes_wire (Some bs))"
proof -
  note short = writes_short [OF assms(2)]
  have e: "r = Inr bs \<Longrightarrow> writes (write_short_encoded r) (bytes_wire (Some bs))" for r
    unfolding write_short_encoded_def by (erule writes_lift_res) (rule short)
  have "bs \<noteq> []" using holds_reads [OF assms(1)] by blast
  then have l: "writes (write_long_or_short bs) (bytes_wire (Some bs))"
    using short assms(2) by (simp add: write_long_or_short_def)
  have f: "length bs = 8 \<Longrightarrow> writes (do_all [write_u8 8, write_bytes bs]) (bytes_wire (Some bs))"
    using short by (simp add: write_short_def)
  show ?thesis
    using assms(1,3) e l f
    by (cases v)
      (auto simp: write_bind_value_def holds_def bind_type_def infer_bind_metadata_def number_canonical_def
        encode_double_wire)
qed

text \<open>The field of a bindable value.\<close>

definition field_of :: "value \<Rightarrow> u8 list \<Rightarrow> bool" where
  "field_of v w \<longleftrightarrow>
     (\<forall>tx. writes (write_bind_value tx v) w)
     \<and> (\<forall>ins depth ver. reads (parse_column_value ins depth ver (bound_column v)) w v)"

lemma bound_column_type [simp]: "ci_oracle_type (bound_column v) = bind_type v"
  by (simp add: bound_column_def column_info_new_def)

lemma bindable_field:
  assumes "bindable v"
  shows "\<exists>w. field_of v w"
proof (cases "v = VNull")
  case True
  have "both_decode (bind_type v)" by (simp add: True bind_type_def infer_bind_metadata_def both_decode_def is_text_def)
  then have "reads (parse_column_value ins depth ver (bound_column v)) [0] v" for ins depth ver
    using True by (simp add: parse_plain) (rule reads_andThen_Nil [OF reads_empty_bytes],
      simp add: or_null_def reads_def lift_res_apply)
  then show ?thesis
    using True writes_raw(1) [of 0] by (intro exI [of _ "[0]"]) (auto simp: field_of_def write_bind_value_def)
next
  case False
  then obtain bs where bs: "holds (bind_type v) v bs" "length bs \<le> 252" and nb: "\<nexists>b. v = VBoolean b"
    using assms by (auto simp: bindable_def)
  show ?thesis
    using writes_value [OF bs nb] holds_plain [OF bs(1) nb] plain_reads [of "bound_column v" bs v]
    by (intro exI [of _ "bytes_wire (Some bs)"]) (auto simp: field_of_def)
qed

lemma bind_fields:
  assumes "list_all bindable row"
  shows "\<exists>w. (\<forall>tx. writes (do_all (map (write_bind_value tx) row)) w)
    \<and> (\<forall>ins depth ver i. reads (decode_columns (parse_column_value ins depth ver) (\<lambda>_. False) prev i (map bound_column row)) w row)"
  using assms
proof (induction row)
  case Nil
  show ?case by (intro exI [of _ "[]"]) (simp add: writes_ok reads_ok)
next
  case (Cons v row)
  then obtain w where w: "\<And>tx. writes (do_all (map (write_bind_value tx) row)) w"
    "\<And>ins depth ver i. reads (decode_columns (parse_column_value ins depth ver) (\<lambda>_. False) prev i (map bound_column row)) w row"
    by auto
  obtain u where u: "field_of v u" using bindable_field Cons.prems by auto
  have "reads (decode_columns (parse_column_value ins depth ver) (\<lambda>_. False) prev i (map bound_column (v # row))) (u @ w) (v # row)"
    for ins depth ver i
    using u w(2) by (auto simp: field_of_def intro!: reads_andThen reads_fmap)
  moreover have "writes (do_all (map (write_bind_value tx) (v # row))) (u @ w)" for tx
    using u w(1) by (auto simp: field_of_def intro: writes_andSeq)
  ultimately show ?case by blast
qed


definition sample_binds :: "value list" where
  "sample_binds = [VInteger (-42), VNull, VString ''Scott'', VBytes [1, 2, 3]]"

lemma bindableI: "holds (bind_type v) v bs \<Longrightarrow> length bs \<le> 252 \<Longrightarrow> \<nexists>b. v = VBoolean b \<Longrightarrow> bindable v"
  by (auto simp: bindable_def)

lemma sample_bindable: "list_all bindable sample_binds"
proof -
  have n: "encode_oracle_number (show_int (-42)) = Inr [62, 59, 102]" by code_simp
  have "bindable (VInteger (-42))"
    by (rule bindableI [of _ "[62, 59, 102]"]) (use n in \<open>simp_all add: bind_type_def infer_bind_metadata_def holds_def\<close>)
  moreover have t: "is_str ''Scott''" by code_simp
  have "bindable (VString ''Scott'')"
    by (rule bindableI [of _ "bytes_of_text ''Scott''"])
      (use t in \<open>simp_all add: bind_type_def infer_bind_metadata_def holds_def bytes_of_text_def\<close>)
  moreover have "bindable VNull" by (simp add: bindable_def)
  moreover have "bindable (VBytes [1, 2, 3])"
    by (rule bindableI [of _ "[1, 2, 3]"]) (simp_all add: bind_type_def infer_bind_metadata_def holds_def)
  ultimately show ?thesis by (simp add: sample_binds_def)
qed


lemma reads_chunk_step:
  assumes "n \<noteq> 0" "unat n = length bs" "reads (read_chunks (acc @ bs)) rest v"
  shows "reads (read_chunks acc) (ub4_wire n @ bs @ rest) v"
proof -
  have "read_chunks acc s = andThen read_ub4 (\<lambda>n. if n = 0 then ok acc
      else andThen (read_bytes_vec (unat n)) (\<lambda>chunk. read_chunks (acc @ chunk))) s" for s
    by (subst read_chunks.simps) (auto simp: andThen_apply split: prod.splits sum.splits)
  moreover have "reads (andThen read_ub4 (\<lambda>n. if n = 0 then ok acc
      else andThen (read_bytes_vec (unat n)) (\<lambda>chunk. read_chunks (acc @ chunk)))) (ub4_wire n @ bs @ rest) v"
    by (rule reads_andThen [OF reads_ub4])
      (simp only: assms(1,2) if_False, rule reads_andThen [OF reads_bytes_vec [OF refl]], rule assms(3))
  ultimately show ?thesis by (rule reads_state_eq)
qed

lemma reads_long_then_null:
  assumes "252 < length bs" "length bs < 4294967296"
  shows "reads read_bytes_with_length (254 # ub4_wire (of_nat (length bs)) @ bs @ [0]) (Some bs)"
proof -
  have un: "unat (of_nat (length bs) :: u32) = length bs" using assms by (simp add: unat_of_nat)
  moreover from un assms(1) have "(of_nat (length bs) :: u32) \<noteq> 0" by (metis list.size(3) not_less0 unat_0)
  moreover have "reads (read_chunks bs) [0] bs" using reads_chunks [of bs "[]"] by (simp add: chunk_wire.simps)
  ultimately have "reads (read_chunks []) (ub4_wire (of_nat (length bs)) @ bs @ [0]) bs"
    by (intro reads_chunk_step) simp_all
  then show ?thesis
    by (auto simp: read_bytes_with_length_def length_indicator_defs intro!: reads_u8_then reads_fmap)
qed

text \<open>
  Two binds whose fields run into the next one.  Text or bytes of more than 252 bytes are
  written in the chunked form without the empty chunk that ends it, and a boolean announces two
  bytes and writes one: a following NULL is taken as the missing byte, so two values are read as
  one field.
\<close>

theorem bind_fields_run_on:
  assumes "252 < length bs" "length bs < 4294967296"
  shows "(\<exists>w. written (write_row tx [VBytes bs, VNull]) = Inr (7 # w)
      \<and> read_bytes_with_length (rbuf_new w) = (Inr (Some bs), \<lparr>rb_data = w, rb_pos = length w\<rparr>))
    \<and> written (write_row tx [VBoolean b, VNull]) = Inr [7, 2, if b then 1 else 0, 0]
    \<and> read_bytes_with_length (rbuf_new [2, if b then 1 else 0, 0])
        = (Inr (Some [if b then 1 else 0, 0]), \<lparr>rb_data = [2, if b then 1 else 0, 0], rb_pos = 3\<rparr>)"
proof (intro conjI)
  let ?w = "254 # ub4_wire (of_nat (length bs)) @ bs @ [0]"
  have n: "writes (do_all [write_u8 0]) [0]" using writes_andSeq [OF writes_raw(1) [of 0] writes_ok] by simp
  have l: "writes (write_long_or_short bs) (254 # ub4_wire (of_nat (length bs)) @ bs)"
    using assms writes_andSeq [OF writes_raw(1) [of 254] writes_andSeq [OF writes_ub4 writes_andSeq [OF writes_raw(2) [of bs] writes_ok]]]
    by (auto simp: write_long_or_short_def)
  have "writes (write_row tx [VBytes bs, VNull]) ([7] @ (254 # ub4_wire (of_nat (length bs)) @ bs) @ [0])"
    using writes_andSeq [OF writes_raw(1) [of 7] writes_andSeq [OF l n]]
    by (simp add: write_row_def write_bind_value_def)
  from written_writes [OF this] have "written (write_row tx [VBytes bs, VNull]) = Inr (7 # ?w)" by simp
  moreover have "read_bytes_with_length (rbuf_new ?w) = (Inr (Some bs), \<lparr>rb_data = ?w, rb_pos = length ?w\<rparr>)"
    using reads_new [OF reads_long_then_null [OF assms], of "[]"] by simp
  ultimately show "\<exists>w. written (write_row tx [VBytes bs, VNull]) = Inr (7 # w)
      \<and> read_bytes_with_length (rbuf_new w) = (Inr (Some bs), \<lparr>rb_data = w, rb_pos = length w\<rparr>)"
    by blast
  have "writes (do_all [write_u8 2, write_u8 (if b then 1 else 0)]) ([2] @ [if b then 1 else 0] @ [])"
    unfolding do_all.simps by (intro writes_andSeq writes_raw writes_ok)
  from writes_andSeq [OF writes_raw(1) [of 7] writes_andSeq [OF this n]]
  have "writes (write_row tx [VBoolean b, VNull]) [7, 2, if b then 1 else 0, 0]"
    by (simp add: write_row_def write_bind_value_def)
  then show "written (write_row tx [VBoolean b, VNull]) = Inr [7, 2, if b then 1 else 0, 0]"
    by (rule written_writes)
  have w: "bytes_wire (Some [if b then 1 else 0, 0]) = [2, if b then 1 else 0, 0]"
    by (simp add: bytes_wire_def MAX_SHORT_def)
  show "read_bytes_with_length (rbuf_new [2, if b then 1 else 0, 0])
        = (Inr (Some [if b then 1 else 0, 0]), \<lparr>rb_data = [2, if b then 1 else 0, 0], rb_pos = 3\<rparr>)"
    using reads_new [OF reads_bytes_with_length [of "Some [if b then 1 else 0, 0]"], of "[]"] unfolding w append_Nil2 by simp
qed

theorem bind_fields_run_on_witness:
  "(\<exists>w. written (write_row \<lparr>tx_float = \<lambda>_. [], tx_json = \<lambda>_. [], tx_debug = \<lambda>_. []\<rparr> [VBytes (replicate 300 65), VNull]) = Inr (7 # w)
      \<and> read_bytes_with_length (rbuf_new w) = (Inr (Some (replicate 300 65)), \<lparr>rb_data = w, rb_pos = length w\<rparr>))"
  using bind_fields_run_on [of "replicate 300 65"] by (simp only: length_replicate)

subsection \<open>Requests that can be built\<close>

definition writable :: "unit writer \<Rightarrow> bool" where
  "writable m \<longleftrightarrow> (\<exists>bs. writes m bs)"

lemma writableI: "writes m bs \<Longrightarrow> writable m"
  by (auto simp: writable_def)

lemma written_writable: "writable m \<Longrightarrow> \<exists>bs. written m = Inr bs"
  by (auto simp: writable_def dest: written_writes)

lemma writable_andSeq: "writable m \<Longrightarrow> writable k \<Longrightarrow> writable (andSeq m k)"
  by (auto simp: writable_def intro: writes_andSeq)

lemma writable_lift: "r = Inr a \<Longrightarrow> writable (f a) \<Longrightarrow> writable (andThen (lift_res r) f)"
  by (auto simp: writable_def intro: writes_lift_res)

lemma writable_do_all: "list_all writable ms \<Longrightarrow> writable (do_all ms)"
  by (induction ms) (auto intro: writable_andSeq writableI [OF writes_ok])

lemma writable_ok: "writable (ok ())"
  by (rule writableI [OF writes_ok])

lemma writable_basic [simp]:
  "writable (write_u8 b)" "writable (write_bytes bs)" "writable (write_u16_be v2)" "writable (write_ub2 v2)"
  "writable (write_ub4 v4)" "writable (write_ub8 v8)" "writable (write_bytes_with_length x)"
  "writable (write_function_header ver code seq)" "writable (ok ())"
  by (rule writableI, rule writes_raw writes_ub2 writes_ub4 writes_ub8 writes_bytes_with_length writes_ok)+
    (auto simp: write_function_header_def intro!: writable_andSeq writable_do_all writableI [OF writes_token]
      writableI [OF writes_raw(1)] writable_ok)

lemma writable_metadata: "writable (write_bind_metadata ver metadata i v n)"
  by (auto simp: write_bind_metadata_def write_oid_def write_oaccolid_def intro!: writable_andSeq writable_do_all
      split: prod.split option.split)

lemma writable_define: "writable (write_column_define ver col)"
  by (auto simp: write_column_define_def write_oaccolid_def Let_def intro!: writable_andSeq writable_do_all)

lemma writable_row: "list_all bindable row \<Longrightarrow> writable (write_row tx row)"
  using bind_fields [of row "\<lambda>_. VNull"] unfolding write_row_def
  by (force simp: writable_def intro: writes_andSeq writes_raw)

lemma widen_ok: "length vs \<le> length sizes \<Longrightarrow> \<exists>sizes'. widen tx vs sizes = Inr sizes' \<and> length sizes' = length sizes"
proof (induction tx vs sizes rule: widen.induct)
  case (3 tx v vs m sizes)
  then obtain sizes' where "widen tx vs sizes = Inr sizes'" "length sizes' = length sizes" by auto
  then show ?case by simp
qed simp_all

lemma max_sizes_ok: "\<forall>r\<in>set rows. length r \<le> length sizes \<Longrightarrow> \<exists>sizes'. max_sizes tx rows sizes = Inr sizes'"
proof (induction tx rows sizes rule: max_sizes.induct)
  case (2 tx r rows sizes)
  then obtain sizes' where "widen tx r sizes = Inr sizes'" "length sizes' = length sizes"
    using widen_ok [of r sizes tx] by auto
  then show ?case using 2 by simp
qed simp

text \<open>Rows of bindable values, none longer than the first.\<close>

definition sendable :: "execute_message \<Rightarrow> bool" where
  "sendable m \<longleftrightarrow> (\<forall>row\<in>set (em_rows m). list_all bindable row \<and> length row \<le> length (hd (em_rows m)))
     \<and> em_function_code m \<in> {FnExecute, FnReexecute, FnReexecuteAndFetch}"

lemma writable_params:
  assumes "sendable m"
  shows "writable (write_bind_params tx ver m)"
proof (cases "em_rows m")
  case (Cons row rows)
  then obtain sizes where "max_sizes tx (em_rows m) (replicate (length row) 0) = Inr sizes"
    using assms max_sizes_ok [of "em_rows m" "replicate (length row) 0" tx] by (auto simp: sendable_def)
  then show ?thesis
    using assms Cons
    by (auto simp: write_bind_params_def sendable_def list_all_iff writable_metadata intro!: writable_lift writable_andSeq
        writable_do_all writable_row)
qed (simp add: write_bind_params_def)

lemma build_execute_request_ok:
  assumes "sendable m"
  shows "\<exists>req. build_execute_request tx ver large m = Inr req"
proof -
  have body: "list_all writable (execute_body ver m)" "list_all writable (execute_extension ver)"
    "list_all writable (execute_sql stmt)" for stmt
    by (auto simp: execute_body_def execute_extension_def execute_sql_def Let_def)
  have defs: "writable (write_column_defines ver stmt)" for stmt
    unfolding write_column_defines_def by (intro writable_do_all) (simp add: list_all_iff writable_define)
  have "writable (write_execute_message tx ver m)"
    unfolding write_execute_message_def
    using body defs writable_params [OF assms] by (intro writable_do_all) (auto simp: list_all_iff)
  moreover have "writable (write_reexecute_message tx ver m)"
    using assms unfolding write_reexecute_message_def
    by (auto simp: Let_def sendable_def list_all_iff intro!: writable_andSeq writable_do_all writable_row)
  ultimately have "writable (write_execute_request tx ver m)"
    using assms by (auto simp: write_execute_request_def sendable_def intro!: writable_andSeq)
  from written_writable [OF this] show ?thesis by (auto simp: build_execute_request_def)
qed

lemma sendable_new: "sendable (execute_message_new stmt options)"
  by (simp add: sendable_def execute_message_new_def choose_function_def)

lemma sendable_values: "sendable m \<Longrightarrow> list_all bindable params \<Longrightarrow> sendable (set_bind_values params m)"
  by (simp add: sendable_def set_bind_values_def)

end
