(* ===== verification/Config.thy ===== *)
theory Config
  imports Constants Errors TextOps
begin

section \<open>Connection configuration\<close>

text \<open>
  \<open>src/src/config.rs\<close> and the configuration record of \<open>src/src/transport/tls.rs\<close>: how a
  connection is described, the EZConnect parser, the descriptor that goes into the CONNECT
  packet, and the parser of unsigned decimal text (\<open>str::parse\<close>) that the handshake uses.
  Building the TLS client configuration reads files and calls rustls: it is the argument
  \<open>build\<close> of the setters that validate it.  A duration is its number of nanoseconds.
\<close>

subsection \<open>Text\<close>

text \<open>\<open>str::parse\<close> of an unsigned integer below \<open>bound\<close>; callers drop the error.\<close>

definition parse_unsigned :: "nat \<Rightarrow> string \<Rightarrow> nat option" where
  "parse_unsigned bound s =
     (let d = (case s of [] \<Rightarrow> [] | c # cs \<Rightarrow> if c = CHR ''+'' then cs else s)
      in if d = [] \<or> \<not> list_all is_digit_char d then None
         else if nat_of_digits 0 d < bound then Some (nat_of_digits 0 d) else None)"

definition parse_u16 :: "string \<Rightarrow> u16 option" where
  "parse_u16 s = map_option of_nat (parse_unsigned 65536 s)"

definition parse_u32 :: "string \<Rightarrow> u32 option" where
  "parse_u32 s = map_option of_nat (parse_unsigned 4294967296 s)"

text \<open>\<open>str::find\<close> of a character and \<open>str::split\<close> on one.\<close>

definition find_char :: "char \<Rightarrow> string \<Rightarrow> nat option" where
  "find_char c s = find_text [c] s"

fun split_char :: "char \<Rightarrow> string \<Rightarrow> string list" where
  "split_char c [] = [[]]"
| "split_char c (x # xs) =
     (if x = c then [] # split_char c xs
      else case split_char c xs of [] \<Rightarrow> [[x]] | p # ps \<Rightarrow> (x # p) # ps)"

subsection \<open>The records\<close>

datatype service_method = ServiceName string | Sid string

definition service_name :: "service_method \<Rightarrow> string option" where
  "service_name m = (case m of ServiceName s \<Rightarrow> Some s | Sid _ \<Rightarrow> None)"

definition sid :: "service_method \<Rightarrow> string option" where
  "sid m = (case m of ServiceName _ \<Rightarrow> None | Sid s \<Rightarrow> Some s)"

datatype tls_mode = TlsDisable | TlsRequire

record tls_config =
  tls_verify_server :: bool
  tls_server_name :: "string option"
  tls_ca_cert_path :: "string option"
  tls_client_cert_path :: "string option"
  tls_client_key_path :: "string option"
  tls_wallet_path :: "string option"
  tls_wallet_password :: "string option"
  tls_ssl_server_dn_match :: bool
  tls_ssl_server_cert_dn :: "string option"

definition tls_config_new :: tls_config where
  "tls_config_new =
     \<lparr>tls_verify_server = True, tls_server_name = None, tls_ca_cert_path = None,
      tls_client_cert_path = None, tls_client_key_path = None, tls_wallet_path = None,
      tls_wallet_password = None, tls_ssl_server_dn_match = False, tls_ssl_server_cert_dn = None\<rparr>"

definition tls_with_wallet :: "string \<Rightarrow> string option \<Rightarrow> tls_config \<Rightarrow> tls_config" where
  "tls_with_wallet path password t = t\<lparr>tls_wallet_path := Some path, tls_wallet_password := password\<rparr>"

definition tls_danger_accept_invalid_certs :: "tls_config \<Rightarrow> tls_config" where
  "tls_danger_accept_invalid_certs t = t\<lparr>tls_verify_server := False\<rparr>"

definition tls_with_server_name :: "string \<Rightarrow> tls_config \<Rightarrow> tls_config" where
  "tls_with_server_name name t = t\<lparr>tls_server_name := Some name\<rparr>"

definition tls_with_ca_cert :: "string \<Rightarrow> tls_config \<Rightarrow> tls_config" where
  "tls_with_ca_cert path t = t\<lparr>tls_ca_cert_path := Some path\<rparr>"

definition tls_with_client_cert :: "string \<Rightarrow> string \<Rightarrow> tls_config \<Rightarrow> tls_config" where
  "tls_with_client_cert cert_path key_path t =
     t\<lparr>tls_client_cert_path := Some cert_path, tls_client_key_path := Some key_path\<rparr>"

definition tls_with_server_dn_match :: "string option \<Rightarrow> tls_config \<Rightarrow> tls_config" where
  "tls_with_server_dn_match expected_dn t =
     t\<lparr>tls_ssl_server_dn_match := True, tls_ssl_server_cert_dn := expected_dn\<rparr>"

record config =
  cf_host :: string
  cf_port :: u16
  cf_service :: service_method
  cf_username :: string
  cf_password :: string
  cf_tls_mode :: tls_mode
  cf_tls_config :: "tls_config option"
  cf_connect_timeout :: nat
  cf_sdu :: u32
  cf_charset_id :: u16
  cf_ncharset_id :: u16
  cf_stmtcachesize :: nat

definition DEFAULT_PORT :: u16 where "DEFAULT_PORT = 1521"
definition CONFIG_DEFAULT_SDU :: u32 where "CONFIG_DEFAULT_SDU = 8192"
definition DEFAULT_STMTCACHESIZE :: nat where "DEFAULT_STMTCACHESIZE = 20"

definition config_of :: "string \<Rightarrow> u16 \<Rightarrow> service_method \<Rightarrow> string \<Rightarrow> string \<Rightarrow> config" where
  "config_of host port service username password =
     \<lparr>cf_host = host, cf_port = port, cf_service = service, cf_username = username,
      cf_password = password, cf_tls_mode = TlsDisable, cf_tls_config = None,
      cf_connect_timeout = 10000000000, cf_sdu = CONFIG_DEFAULT_SDU,
      cf_charset_id = CHARSET_UTF8, cf_ncharset_id = CHARSET_UTF16,
      cf_stmtcachesize = DEFAULT_STMTCACHESIZE\<rparr>"

definition config_new :: "string \<Rightarrow> u16 \<Rightarrow> string \<Rightarrow> string \<Rightarrow> string \<Rightarrow> config" where
  "config_new host port service username password =
     config_of host port (ServiceName service) username password"

definition config_with_sid :: "string \<Rightarrow> u16 \<Rightarrow> string \<Rightarrow> string \<Rightarrow> string \<Rightarrow> config" where
  "config_with_sid host port s username password = config_of host port (Sid s) username password"

definition config_default :: config where
  "config_default = config_of ''localhost'' DEFAULT_PORT (ServiceName ''FREEPDB1'') [] []"

subsection \<open>Setters\<close>

definition is_tls_enabled :: "config \<Rightarrow> bool" where
  "is_tls_enabled c \<longleftrightarrow> cf_tls_mode c = TlsRequire"

definition config_tls :: "tls_mode \<Rightarrow> config \<Rightarrow> config" where
  "config_tls mode c = c\<lparr>cf_tls_mode := mode\<rparr>"

definition config_tls_config :: "tls_config \<Rightarrow> config \<Rightarrow> config" where
  "config_tls_config t c = c\<lparr>cf_tls_config := Some t, cf_tls_mode := TlsRequire\<rparr>"

definition with_tls :: "(tls_config \<Rightarrow> unit result) \<Rightarrow> config \<Rightarrow> config result" where
  "with_tls build c =
     res_bind (build tls_config_new) (\<lambda>_.
       Inr (c\<lparr>cf_tls_config := Some tls_config_new, cf_tls_mode := TlsRequire\<rparr>))"

definition with_wallet ::
  "(tls_config \<Rightarrow> unit result) \<Rightarrow> string \<Rightarrow> string option \<Rightarrow> config \<Rightarrow> config result" where
  "with_wallet build wallet_path wallet_password c =
     (let t = tls_with_wallet wallet_path wallet_password tls_config_new
      in res_bind (build t) (\<lambda>_. Inr (c\<lparr>cf_tls_config := Some t, cf_tls_mode := TlsRequire\<rparr>)))"

definition with_drcp :: "string \<Rightarrow> string \<Rightarrow> config \<Rightarrow> config" where
  "with_drcp connection_class purity c = c"

definition with_statement_cache_size :: "nat \<Rightarrow> config \<Rightarrow> config" where
  "with_statement_cache_size n c = c\<lparr>cf_stmtcachesize := n\<rparr>"

definition connect_timeout :: "nat \<Rightarrow> config \<Rightarrow> config" where
  "connect_timeout t c = c\<lparr>cf_connect_timeout := t\<rparr>"

definition config_sdu :: "u32 \<Rightarrow> config \<Rightarrow> config" where
  "config_sdu n c = c\<lparr>cf_sdu := n\<rparr>"

definition stmtcachesize :: "nat \<Rightarrow> config \<Rightarrow> config" where
  "stmtcachesize n c = c\<lparr>cf_stmtcachesize := n\<rparr>"

definition set_password :: "string \<Rightarrow> config \<Rightarrow> config" where
  "set_password p c = c\<lparr>cf_password := p\<rparr>"

definition set_username :: "string \<Rightarrow> config \<Rightarrow> config" where
  "set_username u c = c\<lparr>cf_username := u\<rparr>"

subsection \<open>Descriptors\<close>

definition build_connect_string :: "config \<Rightarrow> string" where
  "build_connect_string c =
     (let protocol = (case cf_tls_mode c of TlsDisable \<Rightarrow> ''TCP'' | TlsRequire \<Rightarrow> ''TCPS'');
          address = ''(ADDRESS=(PROTOCOL='' @ protocol @ '')(HOST='' @ cf_host c @ '')(PORT=''
                    @ show_nat (unat (cf_port c)) @ ''))'';
          service_part = (case cf_service c of
              ServiceName name \<Rightarrow> ''(SERVICE_NAME='' @ name @ '')''
            | Sid s \<Rightarrow> ''(SID='' @ s @ '')'')
      in ''(DESCRIPTION='' @ address @ ''(CONNECT_DATA='' @ service_part @ '')'' @ '')'')"

definition config_socket_addr :: "config \<Rightarrow> string" where
  "config_socket_addr c = cf_host c @ '':'' @ show_nat (unat (cf_port c))"

definition display_config :: "config \<Rightarrow> string" where
  "display_config c =
     (case cf_service c of
        ServiceName name \<Rightarrow> cf_host c @ '':'' @ show_nat (unat (cf_port c)) @ ''/'' @ name
      | Sid s \<Rightarrow> cf_host c @ '':'' @ show_nat (unat (cf_port c)) @ '':'' @ s)"

subsection \<open>The EZConnect parser\<close>

definition port_of :: "string \<Rightarrow> u16 result" where
  "port_of s =
     (case parse_u16 s of
        Some p \<Rightarrow> Inr p | None \<Rightarrow> Inl (Err (InvalidConnectionString ''invalid port number'')))"

text \<open>\<open>host[:port]/service\<close>, the slash at \<open>slash_pos\<close>.\<close>

definition parse_service_form :: "string \<Rightarrow> nat \<Rightarrow> config result" where
  "parse_service_form s slash_pos =
     (let host_port = take slash_pos s; service_name = drop (slash_pos + 1) s;
          c = config_default\<lparr>cf_service := ServiceName service_name\<rparr>
      in if service_name = []
         then Inl (Err (InvalidConnectionString ''missing service name after /''))
         else case find_char CHR '':'' host_port of
             Some colon_pos \<Rightarrow>
               res_bind (port_of (drop (colon_pos + 1) host_port)) (\<lambda>port.
                 Inr (c\<lparr>cf_host := take colon_pos host_port, cf_port := port\<rparr>))
           | None \<Rightarrow> Inr (c\<lparr>cf_host := host_port, cf_port := DEFAULT_PORT\<rparr>))"

text \<open>\<open>host\<close>, \<open>host:port\<close> or \<open>host:port:sid\<close>.\<close>

definition parse_colon_form :: "string \<Rightarrow> config result" where
  "parse_colon_form s =
     (case split_char CHR '':'' s of
        [host] \<Rightarrow> Inr (config_default\<lparr>cf_host := host\<rparr>)
      | [host, port] \<Rightarrow>
          res_bind (port_of port) (\<lambda>p. Inr (config_default\<lparr>cf_host := host, cf_port := p\<rparr>))
      | [host, port, s] \<Rightarrow>
          res_bind (port_of port) (\<lambda>p.
            Inr (config_default\<lparr>cf_host := host, cf_port := p, cf_service := Sid s\<rparr>))
      | _ \<Rightarrow> Inl (Err (InvalidConnectionString ''too many colons in connection string'')))"

definition config_from_str :: "string \<Rightarrow> config result" where
  "config_from_str text =
     (let s = dropWhile (\<lambda>c. c = CHR ''/'') (str_trim text)
      in if s = [] then Inl (Err (InvalidConnectionString ''empty connection string''))
         else if hd s = CHR ''(''
         then Inl (Err (InvalidConnectionString
                ''TNS descriptor format not yet supported, use EZConnect format''))
         else res_bind (case find_char CHR ''/'' s of
                  Some slash_pos \<Rightarrow> parse_service_form s slash_pos
                | None \<Rightarrow> parse_colon_form s) (\<lambda>c.
              if cf_host c = [] then Inl (Err (InvalidConnectionString ''missing host'')) else Inr c))"

end
