(* ===== verification/Capabilities.thy ===== *)
theory Capabilities
  imports Constants Errors
begin

section \<open>Capabilities\<close>

text \<open>
  \<open>src/src/capabilities.rs\<close>: what client and server can do, the arrays of the client, and the
  adjustments that the ACCEPT packet and the server's arrays make.  The arrays are vectors of
  bytes; an index out of range would be a panic.
\<close>

subsection \<open>The record\<close>

record capabilities =
  cp_protocol_version :: u16
  cp_protocol_options :: u16
  cp_charset_id :: u16
  cp_ncharset_id :: u16
  cp_compile_caps :: "u8 list"
  cp_runtime_caps :: "u8 list"
  cp_ttc_field_version :: u8
  cp_sdu :: u32
  cp_max_string_size :: u32
  cp_supports_fast_auth :: bool
  cp_supports_oob :: bool
  cp_supports_end_of_response :: bool
  cp_supports_pipelining :: bool
  cp_supports_request_boundaries :: bool
  cp_combo_key :: "u8 list option"

definition DRIVER_NAME :: string where
  "DRIVER_NAME = ''oracle-rs : 0.1.0''"

text \<open>\<open>caps[i] = v\<close>, one assignment and a sequence of them.\<close>

definition update_at :: "nat \<Rightarrow> 'a \<Rightarrow> 'a list \<Rightarrow> ('e, 'a list) outcome" where
  "update_at i v xs = (if i < length xs then Inr (xs[i := v]) else Inl Panic)"

fun update_all :: "(nat \<times> 'a) list \<Rightarrow> 'a list \<Rightarrow> ('e, 'a list) outcome" where
  "update_all [] xs = Inr xs"
| "update_all ((i, v) # us) xs = res_bind (update_at i v xs) (update_all us)"

lemma update_at_ok [simp]: "i < length xs \<Longrightarrow> update_at i v xs = Inr (xs[i := v])"
  by (simp add: update_at_def)

lemma update_all_ok:
  "list_all (\<lambda>(i, v). i < length xs) us \<Longrightarrow>
   update_all us xs = Inr (foldl (\<lambda>ys (i, v). ys[i := v]) xs us)"
  by (induction us arbitrary: xs) (auto simp: list_all_iff)

subsection \<open>The client's arrays\<close>

definition init_compile_caps :: "capabilities \<Rightarrow> capabilities result" where
  "init_compile_caps c =
     res_bind (update_all
       [(CCAP_SQL_VERSION, CCV_SQL_VERSION_MAX),
        (CCAP_LOGON_TYPES, CCV_O5LOGON OR CCV_O5LOGON_NP OR CCV_O7LOGON
           OR CCV_O8LOGON_LONG_IDENTIFIER OR CCV_O9LOGON_LONG_PASSWORD),
        (CCAP_FEATURE_BACKPORT, CCV_CTB_IMPLICIT_POOL OR CCV_CTB_OAUTH_MSG_ON_ERR),
        (CCAP_FIELD_VERSION, cp_ttc_field_version c),
        (CCAP_SERVER_DEFINE_CONV, 1),
        (CCAP_DEQUEUE_WITH_SELECTOR, 1),
        (CCAP_TTC1, CCV_FAST_BVEC OR CCV_END_OF_CALL_STATUS OR CCV_IND_RCD),
        (CCAP_OCI1, CCV_FAST_SESSION_PROPAGATE OR CCV_APP_CTX_PIGGYBACK),
        (CCAP_TDS_VERSION, CCV_TDS_VERSION_MAX),
        (CCAP_RPC_VERSION, CCV_RPC_VERSION_MAX),
        (CCAP_RPC_SIG, CCV_RPC_SIG_VALUE),
        (CCAP_DBF_VERSION, CCV_DBF_VERSION_MAX),
        (CCAP_LOB, CCV_LOB_UB8_SIZE OR CCV_LOB_ENCS OR CCV_LOB_PREFETCH_LENGTH OR CCV_LOB_TEMP_SIZE
           OR CCV_LOB_12C OR CCV_LOB_PREFETCH_DATA),
        (CCAP_UB2_DTY, 1),
        (CCAP_LOB2, CCV_LOB2_QUASI OR CCV_LOB2_2GB_PREFETCH),
        (CCAP_TTC3, CCV_IMPLICIT_RESULTS OR CCV_BIG_CHUNK_CLR OR CCV_KEEP_OUT_ORDER OR CCV_LTXID),
        (CCAP_TTC2, CCV_ZLNP),
        (CCAP_OCI2, CCV_DRCP),
        (CCAP_OCI3, CCV_OCI3_OCSSYNC),
        (CCAP_CLIENT_FN, CCV_CLIENT_FN_MAX),
        (CCAP_SESS_SIGNATURE_VERSION, FIELD_VERSION_12_2),
        (CCAP_TTC4, CCV_INBAND_NOTIFICATION),
        (CCAP_TTC5, CCV_VECTOR_SUPPORT OR CCV_TOKEN_SUPPORTED OR CCV_PIPELINING_SUPPORT
           OR CCV_PIPELINING_BREAK OR CCV_SESSIONLESS_TXNS),
        (CCAP_VECTOR_FEATURES, CCV_VECTOR_FEATURE_BINARY OR CCV_VECTOR_FEATURE_SPARSE),
        (CCAP_FEATURE_BACKPORT2, CCV_END_USER_SEC_CTX_PIGGYBACK)]
       (cp_compile_caps c)) (\<lambda>cc. Inr (c\<lparr>cp_compile_caps := cc\<rparr>))"

definition init_runtime_caps :: "capabilities \<Rightarrow> capabilities result" where
  "init_runtime_caps c =
     res_bind (update_all [(RCAP_COMPAT, COMPAT_81), (RCAP_TTC, TTC_ZERO_COPY OR TTC_32K)]
       (cp_runtime_caps c)) (\<lambda>rc. Inr (c\<lparr>cp_runtime_caps := rc\<rparr>))"

definition capabilities_blank :: capabilities where
  "capabilities_blank =
     \<lparr>cp_protocol_version = 0, cp_protocol_options = 0, cp_charset_id = CHARSET_UTF8,
      cp_ncharset_id = CHARSET_UTF16, cp_compile_caps = replicate CCAP_MAX 0,
      cp_runtime_caps = replicate RCAP_MAX 0, cp_ttc_field_version = FIELD_VERSION_MAX,
      cp_sdu = 8192, cp_max_string_size = 4000, cp_supports_fast_auth = False,
      cp_supports_oob = False, cp_supports_end_of_response = False,
      cp_supports_pipelining = False, cp_supports_request_boundaries = False,
      cp_combo_key = None\<rparr>"

definition capabilities_new :: "capabilities result" where
  "capabilities_new = res_bind (init_compile_caps capabilities_blank) init_runtime_caps"

subsection \<open>Adjustments\<close>

text \<open>\<open>caps[i] |= bits\<close> and \<open>caps[i] &= !bits\<close>.\<close>

definition set_bits :: "nat \<Rightarrow> u8 \<Rightarrow> capabilities \<Rightarrow> capabilities result" where
  "set_bits i bits c =
     res_bind (index_at (cp_compile_caps c) i) (\<lambda>v.
     res_bind (update_at i (v OR bits) (cp_compile_caps c)) (\<lambda>cc. Inr (c\<lparr>cp_compile_caps := cc\<rparr>)))"

definition clear_bits :: "nat \<Rightarrow> u8 \<Rightarrow> capabilities \<Rightarrow> capabilities result" where
  "clear_bits i bits c =
     res_bind (index_at (cp_compile_caps c) i) (\<lambda>v.
     res_bind (update_at i (v AND NOT bits) (cp_compile_caps c)) (\<lambda>cc. Inr (c\<lparr>cp_compile_caps := cc\<rparr>)))"

definition adjust_for_protocol :: "u16 \<Rightarrow> u16 \<Rightarrow> u32 \<Rightarrow> capabilities \<Rightarrow> capabilities result" where
  "adjust_for_protocol protocol_version protocol_options flags2 c =
     (let c1 = c\<lparr>cp_protocol_version := protocol_version, cp_protocol_options := protocol_options,
                 cp_supports_oob := (protocol_options AND CAN_RECV_ATTENTION \<noteq> 0),
                 cp_supports_fast_auth :=
                   (flags2 AND ACCEPT_FAST_AUTH \<noteq> 0 \<or> cp_supports_fast_auth c)\<rparr>
      in if VERSION_MIN_END_OF_RESPONSE \<le> protocol_version \<and> flags2 AND ACCEPT_HAS_END_OF_RESPONSE \<noteq> 0
         then res_bind (set_bits CCAP_TTC4 CCV_END_OF_REQUEST c1) (\<lambda>c2.
                Inr (c2\<lparr>cp_supports_end_of_response := True, cp_supports_pipelining := True\<rparr>))
         else Inr c1)"

text \<open>The three steps of the compile-time adjustment.\<close>

definition adjust_field_version :: "u8 list \<Rightarrow> capabilities \<Rightarrow> capabilities result" where
  "adjust_field_version server_caps c =
     (if CCAP_FIELD_VERSION < length server_caps \<and> server_caps ! CCAP_FIELD_VERSION < cp_ttc_field_version c
      then let server_version = server_caps ! CCAP_FIELD_VERSION
           in res_bind (update_at CCAP_FIELD_VERSION server_version (cp_compile_caps c)) (\<lambda>cc.
                Inr (c\<lparr>cp_ttc_field_version := server_version, cp_compile_caps := cc\<rparr>))
      else Inr c)"

definition adjust_boundaries :: "u8 list \<Rightarrow> capabilities \<Rightarrow> capabilities" where
  "adjust_boundaries server_caps c =
     (if CCAP_TTC4 < length server_caps \<and> server_caps ! CCAP_TTC4 AND CCV_EXPLICIT_BOUNDARY \<noteq> 0
      then c\<lparr>cp_supports_request_boundaries := True\<rparr> else c)"

definition drop_end_of_response :: "capabilities \<Rightarrow> capabilities result" where
  "drop_end_of_response c =
     (if cp_ttc_field_version c < FIELD_VERSION_23_4 \<and> cp_supports_end_of_response c
      then res_bind (clear_bits CCAP_TTC4 CCV_END_OF_REQUEST c) (\<lambda>c1.
             Inr (c1\<lparr>cp_supports_end_of_response := False\<rparr>))
      else Inr c)"

definition adjust_for_server_compile_caps :: "u8 list \<Rightarrow> capabilities \<Rightarrow> capabilities result" where
  "adjust_for_server_compile_caps server_caps c =
     res_bind (adjust_field_version server_caps c) (\<lambda>c1.
       drop_end_of_response (adjust_boundaries server_caps c1))"

definition adjust_for_server_runtime_caps :: "u8 list \<Rightarrow> capabilities \<Rightarrow> capabilities" where
  "adjust_for_server_runtime_caps server_caps c =
     (if RCAP_TTC < length server_caps
      then c\<lparr>cp_max_string_size := (if server_caps ! RCAP_TTC AND TTC_32K \<noteq> 0 then 32767 else 4000),
             cp_supports_request_boundaries :=
               (cp_supports_request_boundaries c \<and> server_caps ! RCAP_TTC AND TTC_SESSION_STATE_OPS \<noteq> 0)\<rparr>
      else c)"

definition check_ncharset_id :: "capabilities \<Rightarrow> unit result" where
  "check_ncharset_id c =
     (if cp_ncharset_id c \<noteq> CHARSET_UTF16 \<and> cp_ncharset_id c \<noteq> CHARSET_AL16UTF8
      then Inl (Err (FeatureNotSupported (''national character set '' @ show_nat (unat (cp_ncharset_id c))
             @ '' is not supported (only UTF16 and AL16UTF8)'')))
      else Inr ())"

definition supports_bool :: "capabilities \<Rightarrow> bool" where
  "supports_bool c \<longleftrightarrow> FIELD_VERSION_23_1 \<le> cp_ttc_field_version c"

definition supports_large_oson_fname :: "capabilities \<Rightarrow> bool" where
  "supports_large_oson_fname c \<longleftrightarrow> FIELD_VERSION_23_1 \<le> cp_ttc_field_version c"

end
