(* ===== verification/PacketBuild.thy ===== *)
theory PacketBuild
  imports Requests
begin

section \<open>Messages built behind a reserved header\<close>

text \<open>
  How the CONNECT, protocol, data types and authentication messages make their packet: eight
  zero bytes are reserved, the message is written behind them, and the header with the length of
  it all is copied over the reservation.
\<close>

definition patch_header :: "packet_type \<Rightarrow> bool \<Rightarrow> u8 list \<Rightarrow> u8 list result" where
  "patch_header t large_sdu bytes =
     res_bind (header_to_bytes (header_new t (of_nat (length bytes))) large_sdu) (\<lambda>header_buf.
       copy_at 0 header_buf bytes)"

definition build_packet :: "packet_type \<Rightarrow> bool \<Rightarrow> unit writer \<Rightarrow> u8 list result" where
  "build_packet t large_sdu m =
     res_bind (written (andSeq (write_zeros PACKET_HEADER_SIZE) m)) (patch_header t large_sdu)"

lemma build_packet_writes:
  assumes "writes m bs"
  shows "build_packet t large_sdu m
    = Inr (header_wire large_sdu (header_new t (of_nat (PACKET_HEADER_SIZE + length bs))) @ bs)"
proof -
  have "writes (andSeq (write_zeros PACKET_HEADER_SIZE) m) (replicate PACKET_HEADER_SIZE 0 @ bs)"
    by (intro writes_andSeq writes_raw assms)
  then have w: "written (andSeq (write_zeros PACKET_HEADER_SIZE) m) = Inr (replicate PACKET_HEADER_SIZE 0 @ bs)"
    by (rule written_writes)
  have "copy_at 0 (header_wire large_sdu h) ([] @ replicate PACKET_HEADER_SIZE 0 @ bs)
      = Inr ([] @ header_wire large_sdu h @ bs)" for h
    by (rule copy_at_ok) (simp_all add: PACKET_HEADER_SIZE_def)
  then show ?thesis
    by (simp add: build_packet_def w patch_header_def header_to_bytes_wire)
qed

text \<open>What is built is a packet, of its type and with the bytes as payload.\<close>

lemma build_packet_parses:
  assumes "writes m bs" "length bs < 65528"
  shows "res_bind (build_packet t False m) packet_from_bytes =
    Inr \<lparr>pk_header = header_new t (of_nat (PACKET_HEADER_SIZE + length bs)), pk_payload = bs\<rparr>"
proof -
  have "unat (of_nat (PACKET_HEADER_SIZE + length bs) :: u32) = PACKET_HEADER_SIZE + length bs"
    using assms(2) by (subst unat_of_nat) (simp add: PACKET_HEADER_SIZE_def)
  then have "header_fits False (header_new t (of_nat (PACKET_HEADER_SIZE + length bs)))"
    using assms(2) by (simp add: header_fits_def header_new_def PACKET_HEADER_SIZE_def del: of_nat_add)
  then show ?thesis
    by (simp add: build_packet_writes [OF assms(1)] packet_from_bytes_wire)
qed

end
