(* ===== verification/Handshake.thy ===== *)
theory Handshake
  imports Config Capabilities PacketBuild
begin

section \<open>CONNECT, ACCEPT, REFUSE and REDIRECT\<close>

text \<open>
  The packets that open a connection: \<open>src/src/messages/connect.rs\<close>, \<open>accept.rs\<close>,
  \<open>refuse.rs\<close> and \<open>redirect.rs\<close>.
\<close>

subsection \<open>CONNECT\<close>

record connect_message =
  cm_version_desired :: u16
  cm_version_minimum :: u16
  cm_service_options :: u16
  cm_sdu :: u32
  cm_tdu :: u32
  cm_protocol_characteristics :: u16
  cm_nsi_flags :: u8
  cm_connect_flags_1 :: u32
  cm_connect_flags_2 :: u32
  cm_connect_data :: string
  cm_supports_oob :: bool

definition connect_from_config :: "config \<Rightarrow> connect_message" where
  "connect_from_config c =
     \<lparr>cm_version_desired = VERSION_DESIRED, cm_version_minimum = VERSION_MINIMUM,
      cm_service_options = DONT_CARE OR CAN_RECV_ATTENTION, cm_sdu = cf_sdu c,
      cm_tdu = ucast DEFAULT_TDU, cm_protocol_characteristics = PROTOCOL_CHARACTERISTICS,
      cm_nsi_flags = NSI_SUPPORT_SECURITY_RENEG OR NSI_DISABLE_NA, cm_connect_flags_1 = 0,
      cm_connect_flags_2 = 0 OR CHECK_OOB, cm_connect_data = build_connect_string c,
      cm_supports_oob = True\<rparr>"

text \<open>The fields behind the reserved header.\<close>

definition connect_fields :: "connect_message \<Rightarrow> unit writer list" where
  "connect_fields m =
     [write_u16_be (cm_version_desired m), write_u16_be (cm_version_minimum m),
      write_u16_be (cm_service_options m),
      write_u16_be (ucast (min (cm_sdu m) 65535)), write_u16_be (ucast (min (cm_tdu m) 65535)),
      write_u16_be (cm_protocol_characteristics m), write_u16_be 0, write_u16_be 1,
      write_u16_be (of_nat (length (cm_connect_data m))), write_u16_be 74, write_u32_be 0,
      write_u8 (cm_nsi_flags m), write_u8 (cm_nsi_flags m), write_zeros 24,
      write_u32_be (cm_sdu m), write_u32_be (cm_tdu m),
      write_u32_be (cm_connect_flags_1 m), write_u32_be (cm_connect_flags_2 m)]"

definition needs_split :: "connect_message \<Rightarrow> bool" where
  "needs_split m \<longleftrightarrow> unat MAX_CONNECT_DATA < length (cm_connect_data m)"

definition build_connect :: "connect_message \<Rightarrow> u8 list result" where
  "build_connect m =
     build_packet Connect False (do_all (connect_fields m
       @ (if needs_split m then [] else [write_bytes (bytes_of_text (cm_connect_data m))])))"

definition build_with_continuation :: "connect_message \<Rightarrow> (u8 list \<times> u8 list option) result" where
  "build_with_continuation m =
     (if \<not> needs_split m then res_bind (build_connect m) (\<lambda>p. Inr (p, None))
      else res_bind (build_packet Connect False (do_all (connect_fields m))) (\<lambda>connect_result.
           res_bind (build_packet Data False
               (do_all [write_u16_be 0, write_bytes (bytes_of_text (cm_connect_data m))])) (\<lambda>data_result.
             Inr (connect_result, Some data_result))))"

subsection \<open>ACCEPT\<close>

record accept_message =
  am_protocol_version :: u16
  am_service_options :: u16
  am_sdu :: u32
  am_tdu :: u32
  am_flags :: u8
  am_flags2 :: u32
  am_accept_data :: "string option"
  am_supports_fast_auth :: bool
  am_supports_oob :: bool
  am_supports_end_of_response :: bool

text \<open>The data begin at an offset of the payload, what was read already taken off it.\<close>

definition read_accept_data :: "nat \<Rightarrow> nat \<Rightarrow> string option reader" where
  "read_accept_data data_length data_offset =
     (if 0 < data_length \<and> 0 < data_offset
      then (\<lambda>s. andSeq
             (let data_start = data_offset - rb_pos s
              in if 0 < data_start \<and> has_remaining s data_start then skip data_start else ok ())
             (\<lambda>s1. if has_remaining s1 data_length
                   then fmap (\<lambda>bytes. Some (from_utf8_lossy bytes)) (read_bytes_vec data_length) s1
                   else ok None s1) s)
      else ok None)"

definition accept_read :: "accept_message reader" where
  "accept_read =
     andThen read_u16_be (\<lambda>protocol_version.
     if protocol_version < VERSION_MIN_ACCEPTED
     then fail (ProtocolVersionNotSupported protocol_version VERSION_MIN_ACCEPTED)
     else andThen read_u16_be (\<lambda>service_options.
     andThen read_u16_be (\<lambda>sdu_16.
     andThen read_u16_be (\<lambda>tdu_16.
     andSeq (skip 2) (
     andThen read_u16_be (\<lambda>data_length.
     andThen read_u16_be (\<lambda>data_offset.
     andThen read_u8 (\<lambda>flags.
     andSeq read_u8 (
     if flags AND NSI_NA_REQUIRED \<noteq> 0 then fail NativeNetworkEncryptionRequired
     else andSeq (skip 8) (
     andThen (if VERSION_MIN_LARGE_SDU \<le> protocol_version then read_u32_be else ok (ucast sdu_16)) (\<lambda>sdu.
     andThen (if VERSION_MIN_OOB_CHECK \<le> protocol_version then andSeq (skip 5) read_u32_be else ok 0) (\<lambda>flags2.
     andThen (read_accept_data (unat data_length) (unat data_offset)) (\<lambda>accept_data.
     ok \<lparr>am_protocol_version = protocol_version, am_service_options = service_options, am_sdu = sdu,
         am_tdu = ucast tdu_16, am_flags = flags, am_flags2 = flags2, am_accept_data = accept_data,
         am_supports_fast_auth = (flags2 AND ACCEPT_FAST_AUTH \<noteq> 0),
         am_supports_oob = (service_options AND 0x0400 \<noteq> 0),
         am_supports_end_of_response =
           (VERSION_MIN_END_OF_RESPONSE \<le> protocol_version \<and> flags2 AND ACCEPT_HAS_END_OF_RESPONSE \<noteq> 0)\<rparr>)))))))))))))"

text \<open>A message parser checks the packet's type and reads its payload.\<close>

definition parse_packet :: "packet_type \<Rightarrow> 'a reader \<Rightarrow> packet \<Rightarrow> 'a result" where
  "parse_packet t m p =
     (if \<not> is_packet t p then Inl (Err (UnexpectedPacketType t (ph_type (pk_header p))))
      else fst (m (rbuf_new (pk_payload p))))"

definition accept_parse :: "packet \<Rightarrow> accept_message result" where
  "accept_parse = parse_packet Accept accept_read"

definition uses_large_sdu :: "accept_message \<Rightarrow> bool" where
  "uses_large_sdu a \<longleftrightarrow> VERSION_MIN_LARGE_SDU \<le> am_protocol_version a"

subsection \<open>REFUSE\<close>

definition INVALID_SERVICE_NAME :: u32 where "INVALID_SERVICE_NAME = 12514"
definition INVALID_SID :: u32 where "INVALID_SID = 12505"

record refuse_message =
  rf_data :: "string option"
  rf_error_code :: "u32 option"

text \<open>The text between a prefix and the next closing parenthesis.\<close>

definition text_after :: "string \<Rightarrow> string \<Rightarrow> string option" where
  "text_after prefix data =
     (case find_text prefix data of
        None \<Rightarrow> None
      | Some start \<Rightarrow>
          let rest = drop (start + length prefix) data
          in map_option (\<lambda>e. take e rest) (find_char CHR '')'' rest))"

definition extract_error_code :: "string \<Rightarrow> u32 option" where
  "extract_error_code data = Option.bind (text_after ''(ERR='' data) parse_u32"

definition refuse_read :: "refuse_message reader" where
  "refuse_read =
     andSeq (skip 2) (
     andThen read_u16_be (\<lambda>data_length.
     andThen (\<lambda>s. if 0 < unat data_length \<and> has_remaining s (unat data_length)
                  then fmap (\<lambda>bytes. Some (from_utf8_lossy bytes)) (read_bytes_vec (unat data_length)) s
                  else ok None s) (\<lambda>data.
     ok \<lparr>rf_data = data, rf_error_code = Option.bind data extract_error_code\<rparr>)))"

definition refuse_parse :: "packet \<Rightarrow> refuse_message result" where
  "refuse_parse = parse_packet Refuse refuse_read"

definition is_invalid_service_name :: "refuse_message \<Rightarrow> bool" where
  "is_invalid_service_name m \<longleftrightarrow> rf_error_code m = Some INVALID_SERVICE_NAME"

definition is_invalid_sid :: "refuse_message \<Rightarrow> bool" where
  "is_invalid_sid m \<longleftrightarrow> rf_error_code m = Some INVALID_SID"

definition refuse_into_error :: "string option \<Rightarrow> refuse_message \<Rightarrow> error" where
  "refuse_into_error service_or_sid m =
     (case rf_error_code m of
        Some code \<Rightarrow>
          if code = INVALID_SERVICE_NAME then InvalidServiceName service_or_sid (rf_data m)
          else if code = INVALID_SID then InvalidSid service_or_sid (rf_data m)
          else ConnectionRefused (Some code) (rf_data m)
      | None \<Rightarrow> ConnectionRefused None (rf_data m))"

subsection \<open>REDIRECT\<close>

record redirect_message =
  rm_address :: string
  rm_connect_string :: "string option"
  rm_host :: "string option"
  rm_port :: "u16 option"

definition extract_host_port :: "string \<Rightarrow> string option \<times> u16 option" where
  "extract_host_port address =
     (text_after ''HOST='' address, Option.bind (text_after ''PORT='' address) parse_u16)"

definition NUL :: char where "NUL = CHR 0x00"

definition split_redirect :: "string \<Rightarrow> string \<times> string option" where
  "split_redirect data =
     (case find_char NUL data of
        Some nul_pos \<Rightarrow>
          (take nul_pos data, if nul_pos + 1 < length data then Some (drop (nul_pos + 1) data) else None)
      | None \<Rightarrow> (data, None))"

definition redirect_of_data :: "string \<Rightarrow> redirect_message" where
  "redirect_of_data data =
     (let (address, connect_string) = split_redirect data;
          (host, port) = extract_host_port address
      in \<lparr>rm_address = address, rm_connect_string = connect_string, rm_host = host, rm_port = port\<rparr>)"

definition redirect_read :: "redirect_message reader" where
  "redirect_read =
     andThen read_u16_be (\<lambda>data_length s.
       if data_length = 0 \<or> \<not> has_remaining s (unat data_length)
       then fail (Internal ''invalid redirect data length'') s
       else fmap (\<lambda>bytes. redirect_of_data (from_utf8_lossy bytes)) (read_bytes_vec (unat data_length)) s)"

definition redirect_parse :: "packet \<Rightarrow> redirect_message result" where
  "redirect_parse = parse_packet Redirect redirect_read"

definition redirect_socket_addr :: "redirect_message \<Rightarrow> string option" where
  "redirect_socket_addr m =
     (case (rm_host m, rm_port m) of
        (Some host, Some port) \<Rightarrow> Some (host @ '':'' @ show_nat (unat port))
      | (Some host, None) \<Rightarrow> Some (host @ '':1521'')
      | (None, _) \<Rightarrow> None)"

definition redirect_is_valid :: "redirect_message \<Rightarrow> bool" where
  "redirect_is_valid m \<longleftrightarrow> rm_address m \<noteq> []"

end
