(* ===== verification/DataTypes.thy ===== *)
theory DataTypes
  imports Prelude
begin

section \<open>The data type table\<close>

text \<open>
  The constants and the table \<open>DATA_TYPES\<close> of \<open>src/src/messages/data_types.rs\<close>: the types
  the client announces, each with the type it converts to and its representation.
\<close>

named_theorems data_type_codes
named_theorems data_type_tables

record data_type_definition =
  dt_data_type :: u16
  dt_conv_data_type :: u16
  dt_representation :: u16

definition dt :: "u16 \<Rightarrow> u16 \<Rightarrow> u16 \<Rightarrow> data_type_definition" where
  "dt data_type conv_data_type representation =
     \<lparr>dt_data_type = data_type, dt_conv_data_type = conv_data_type, dt_representation = representation\<rparr>"

subsection \<open>SQL type numbers\<close>

definition ORA_TYPE_NUM_VARCHAR :: u16 where [data_type_codes]: "ORA_TYPE_NUM_VARCHAR = 1"
definition ORA_TYPE_NUM_NUMBER :: u16 where [data_type_codes]: "ORA_TYPE_NUM_NUMBER = 2"
definition ORA_TYPE_NUM_BINARY_INTEGER :: u16 where [data_type_codes]: "ORA_TYPE_NUM_BINARY_INTEGER = 3"
definition ORA_TYPE_NUM_LONG :: u16 where [data_type_codes]: "ORA_TYPE_NUM_LONG = 8"
definition ORA_TYPE_NUM_ROWID :: u16 where [data_type_codes]: "ORA_TYPE_NUM_ROWID = 11"
definition ORA_TYPE_NUM_DATE :: u16 where [data_type_codes]: "ORA_TYPE_NUM_DATE = 12"
definition ORA_TYPE_NUM_RAW :: u16 where [data_type_codes]: "ORA_TYPE_NUM_RAW = 23"
definition ORA_TYPE_NUM_LONG_RAW :: u16 where [data_type_codes]: "ORA_TYPE_NUM_LONG_RAW = 24"
definition ORA_TYPE_NUM_CHAR :: u16 where [data_type_codes]: "ORA_TYPE_NUM_CHAR = 96"
definition ORA_TYPE_NUM_BINARY_FLOAT :: u16 where [data_type_codes]: "ORA_TYPE_NUM_BINARY_FLOAT = 100"
definition ORA_TYPE_NUM_BINARY_DOUBLE :: u16 where [data_type_codes]: "ORA_TYPE_NUM_BINARY_DOUBLE = 101"
definition ORA_TYPE_NUM_CURSOR :: u16 where [data_type_codes]: "ORA_TYPE_NUM_CURSOR = 102"
definition ORA_TYPE_NUM_OBJECT :: u16 where [data_type_codes]: "ORA_TYPE_NUM_OBJECT = 109"
definition ORA_TYPE_NUM_CLOB :: u16 where [data_type_codes]: "ORA_TYPE_NUM_CLOB = 112"
definition ORA_TYPE_NUM_BLOB :: u16 where [data_type_codes]: "ORA_TYPE_NUM_BLOB = 113"
definition ORA_TYPE_NUM_BFILE :: u16 where [data_type_codes]: "ORA_TYPE_NUM_BFILE = 114"
definition ORA_TYPE_NUM_JSON :: u16 where [data_type_codes]: "ORA_TYPE_NUM_JSON = 119"
definition ORA_TYPE_NUM_VECTOR :: u16 where [data_type_codes]: "ORA_TYPE_NUM_VECTOR = 127"
definition ORA_TYPE_NUM_TIMESTAMP :: u16 where [data_type_codes]: "ORA_TYPE_NUM_TIMESTAMP = 180"
definition ORA_TYPE_NUM_TIMESTAMP_TZ :: u16 where [data_type_codes]: "ORA_TYPE_NUM_TIMESTAMP_TZ = 181"
definition ORA_TYPE_NUM_INTERVAL_YM :: u16 where [data_type_codes]: "ORA_TYPE_NUM_INTERVAL_YM = 182"
definition ORA_TYPE_NUM_INTERVAL_DS :: u16 where [data_type_codes]: "ORA_TYPE_NUM_INTERVAL_DS = 183"
definition ORA_TYPE_NUM_UROWID :: u16 where [data_type_codes]: "ORA_TYPE_NUM_UROWID = 208"
definition ORA_TYPE_NUM_TIMESTAMP_LTZ :: u16 where [data_type_codes]: "ORA_TYPE_NUM_TIMESTAMP_LTZ = 231"
definition ORA_TYPE_NUM_BOOLEAN :: u16 where [data_type_codes]: "ORA_TYPE_NUM_BOOLEAN = 252"

subsection \<open>Types of the protocol itself\<close>

definition TNS_DATA_TYPE_FLOAT :: u16 where [data_type_codes]: "TNS_DATA_TYPE_FLOAT = 4"
definition TNS_DATA_TYPE_STR :: u16 where [data_type_codes]: "TNS_DATA_TYPE_STR = 5"
definition TNS_DATA_TYPE_VNU :: u16 where [data_type_codes]: "TNS_DATA_TYPE_VNU = 6"
definition TNS_DATA_TYPE_PDN :: u16 where [data_type_codes]: "TNS_DATA_TYPE_PDN = 7"
definition TNS_DATA_TYPE_VCS :: u16 where [data_type_codes]: "TNS_DATA_TYPE_VCS = 9"
definition TNS_DATA_TYPE_TIDDEF :: u16 where [data_type_codes]: "TNS_DATA_TYPE_TIDDEF = 10"
definition TNS_DATA_TYPE_VBI :: u16 where [data_type_codes]: "TNS_DATA_TYPE_VBI = 15"
definition TNS_DATA_TYPE_UB2 :: u16 where [data_type_codes]: "TNS_DATA_TYPE_UB2 = 25"
definition TNS_DATA_TYPE_UB4 :: u16 where [data_type_codes]: "TNS_DATA_TYPE_UB4 = 26"
definition TNS_DATA_TYPE_SB1 :: u16 where [data_type_codes]: "TNS_DATA_TYPE_SB1 = 27"
definition TNS_DATA_TYPE_SB2 :: u16 where [data_type_codes]: "TNS_DATA_TYPE_SB2 = 28"
definition TNS_DATA_TYPE_SB4 :: u16 where [data_type_codes]: "TNS_DATA_TYPE_SB4 = 29"
definition TNS_DATA_TYPE_SWORD :: u16 where [data_type_codes]: "TNS_DATA_TYPE_SWORD = 30"
definition TNS_DATA_TYPE_UWORD :: u16 where [data_type_codes]: "TNS_DATA_TYPE_UWORD = 31"
definition TNS_DATA_TYPE_PTRB :: u16 where [data_type_codes]: "TNS_DATA_TYPE_PTRB = 32"
definition TNS_DATA_TYPE_PTRW :: u16 where [data_type_codes]: "TNS_DATA_TYPE_PTRW = 33"
definition TNS_DATA_TYPE_OER8 :: u16 where [data_type_codes]: "TNS_DATA_TYPE_OER8 = 34 + 256"
definition TNS_DATA_TYPE_FUN :: u16 where [data_type_codes]: "TNS_DATA_TYPE_FUN = 35 + 256"
definition TNS_DATA_TYPE_AUA :: u16 where [data_type_codes]: "TNS_DATA_TYPE_AUA = 36 + 256"
definition TNS_DATA_TYPE_RXH7 :: u16 where [data_type_codes]: "TNS_DATA_TYPE_RXH7 = 37 + 256"
definition TNS_DATA_TYPE_NA6 :: u16 where [data_type_codes]: "TNS_DATA_TYPE_NA6 = 38 + 256"
definition TNS_DATA_TYPE_OAC9 :: u16 where [data_type_codes]: "TNS_DATA_TYPE_OAC9 = 39"
definition TNS_DATA_TYPE_AMS :: u16 where [data_type_codes]: "TNS_DATA_TYPE_AMS = 40"
definition TNS_DATA_TYPE_BRN :: u16 where [data_type_codes]: "TNS_DATA_TYPE_BRN = 41"
definition TNS_DATA_TYPE_BRP :: u16 where [data_type_codes]: "TNS_DATA_TYPE_BRP = 42 + 256"
definition TNS_DATA_TYPE_BRV :: u16 where [data_type_codes]: "TNS_DATA_TYPE_BRV = 43 + 256"
definition TNS_DATA_TYPE_KVA :: u16 where [data_type_codes]: "TNS_DATA_TYPE_KVA = 44 + 256"
definition TNS_DATA_TYPE_CLS :: u16 where [data_type_codes]: "TNS_DATA_TYPE_CLS = 45 + 256"
definition TNS_DATA_TYPE_CUI :: u16 where [data_type_codes]: "TNS_DATA_TYPE_CUI = 46 + 256"
definition TNS_DATA_TYPE_DFN :: u16 where [data_type_codes]: "TNS_DATA_TYPE_DFN = 47 + 256"
definition TNS_DATA_TYPE_DQR :: u16 where [data_type_codes]: "TNS_DATA_TYPE_DQR = 48 + 256"
definition TNS_DATA_TYPE_DSC :: u16 where [data_type_codes]: "TNS_DATA_TYPE_DSC = 49 + 256"
definition TNS_DATA_TYPE_EXE :: u16 where [data_type_codes]: "TNS_DATA_TYPE_EXE = 50 + 256"
definition TNS_DATA_TYPE_FCH :: u16 where [data_type_codes]: "TNS_DATA_TYPE_FCH = 51 + 256"
definition TNS_DATA_TYPE_GBV :: u16 where [data_type_codes]: "TNS_DATA_TYPE_GBV = 52 + 256"
definition TNS_DATA_TYPE_GEM :: u16 where [data_type_codes]: "TNS_DATA_TYPE_GEM = 53 + 256"
definition TNS_DATA_TYPE_GIV :: u16 where [data_type_codes]: "TNS_DATA_TYPE_GIV = 54 + 256"
definition TNS_DATA_TYPE_OKG :: u16 where [data_type_codes]: "TNS_DATA_TYPE_OKG = 55 + 256"
definition TNS_DATA_TYPE_HMI :: u16 where [data_type_codes]: "TNS_DATA_TYPE_HMI = 56 + 256"
definition TNS_DATA_TYPE_INO :: u16 where [data_type_codes]: "TNS_DATA_TYPE_INO = 57 + 256"
definition TNS_DATA_TYPE_LNF :: u16 where [data_type_codes]: "TNS_DATA_TYPE_LNF = 59 + 256"
definition TNS_DATA_TYPE_ONT :: u16 where [data_type_codes]: "TNS_DATA_TYPE_ONT = 60 + 256"
definition TNS_DATA_TYPE_OPE :: u16 where [data_type_codes]: "TNS_DATA_TYPE_OPE = 61 + 256"
definition TNS_DATA_TYPE_OSQ :: u16 where [data_type_codes]: "TNS_DATA_TYPE_OSQ = 62 + 256"
definition TNS_DATA_TYPE_SFE :: u16 where [data_type_codes]: "TNS_DATA_TYPE_SFE = 63 + 256"
definition TNS_DATA_TYPE_SPF :: u16 where [data_type_codes]: "TNS_DATA_TYPE_SPF = 64 + 256"
definition TNS_DATA_TYPE_VSN :: u16 where [data_type_codes]: "TNS_DATA_TYPE_VSN = 65 + 256"
definition TNS_DATA_TYPE_UD7 :: u16 where [data_type_codes]: "TNS_DATA_TYPE_UD7 = 66 + 256"
definition TNS_DATA_TYPE_DSA :: u16 where [data_type_codes]: "TNS_DATA_TYPE_DSA = 67 + 256"
definition TNS_DATA_TYPE_UIN :: u16 where [data_type_codes]: "TNS_DATA_TYPE_UIN = 68"
definition TNS_DATA_TYPE_PIN :: u16 where [data_type_codes]: "TNS_DATA_TYPE_PIN = 71 + 256"
definition TNS_DATA_TYPE_PFN :: u16 where [data_type_codes]: "TNS_DATA_TYPE_PFN = 72 + 256"
definition TNS_DATA_TYPE_PPT :: u16 where [data_type_codes]: "TNS_DATA_TYPE_PPT = 73 + 256"
definition TNS_DATA_TYPE_STO :: u16 where [data_type_codes]: "TNS_DATA_TYPE_STO = 75 + 256"
definition TNS_DATA_TYPE_ARC :: u16 where [data_type_codes]: "TNS_DATA_TYPE_ARC = 77 + 256"
definition TNS_DATA_TYPE_MRS :: u16 where [data_type_codes]: "TNS_DATA_TYPE_MRS = 78 + 256"
definition TNS_DATA_TYPE_MRT :: u16 where [data_type_codes]: "TNS_DATA_TYPE_MRT = 79 + 256"
definition TNS_DATA_TYPE_MRG :: u16 where [data_type_codes]: "TNS_DATA_TYPE_MRG = 80 + 256"
definition TNS_DATA_TYPE_MRR :: u16 where [data_type_codes]: "TNS_DATA_TYPE_MRR = 81 + 256"
definition TNS_DATA_TYPE_MRC :: u16 where [data_type_codes]: "TNS_DATA_TYPE_MRC = 82 + 256"
definition TNS_DATA_TYPE_VER :: u16 where [data_type_codes]: "TNS_DATA_TYPE_VER = 83 + 256"
definition TNS_DATA_TYPE_LON2 :: u16 where [data_type_codes]: "TNS_DATA_TYPE_LON2 = 84 + 256"
definition TNS_DATA_TYPE_INO2 :: u16 where [data_type_codes]: "TNS_DATA_TYPE_INO2 = 85 + 256"
definition TNS_DATA_TYPE_ALL :: u16 where [data_type_codes]: "TNS_DATA_TYPE_ALL = 86 + 256"
definition TNS_DATA_TYPE_UDB :: u16 where [data_type_codes]: "TNS_DATA_TYPE_UDB = 87 + 256"
definition TNS_DATA_TYPE_AQI :: u16 where [data_type_codes]: "TNS_DATA_TYPE_AQI = 88 + 256"
definition TNS_DATA_TYPE_ULB :: u16 where [data_type_codes]: "TNS_DATA_TYPE_ULB = 89 + 256"
definition TNS_DATA_TYPE_ULD :: u16 where [data_type_codes]: "TNS_DATA_TYPE_ULD = 90 + 256"
definition TNS_DATA_TYPE_SLS :: u16 where [data_type_codes]: "TNS_DATA_TYPE_SLS = 91"
definition TNS_DATA_TYPE_SID :: u16 where [data_type_codes]: "TNS_DATA_TYPE_SID = 92 + 256"
definition TNS_DATA_TYPE_NA7 :: u16 where [data_type_codes]: "TNS_DATA_TYPE_NA7 = 93 + 256"
definition TNS_DATA_TYPE_LVC :: u16 where [data_type_codes]: "TNS_DATA_TYPE_LVC = 94"
definition TNS_DATA_TYPE_LVB :: u16 where [data_type_codes]: "TNS_DATA_TYPE_LVB = 95"
definition TNS_DATA_TYPE_AVC :: u16 where [data_type_codes]: "TNS_DATA_TYPE_AVC = 97"
definition TNS_DATA_TYPE_AL7 :: u16 where [data_type_codes]: "TNS_DATA_TYPE_AL7 = 98 + 256"
definition TNS_DATA_TYPE_K2RPC :: u16 where [data_type_codes]: "TNS_DATA_TYPE_K2RPC = 99 + 256"
definition TNS_DATA_TYPE_RDD :: u16 where [data_type_codes]: "TNS_DATA_TYPE_RDD = 104"
definition TNS_DATA_TYPE_XDP :: u16 where [data_type_codes]: "TNS_DATA_TYPE_XDP = 103 + 256"
definition TNS_DATA_TYPE_OSL :: u16 where [data_type_codes]: "TNS_DATA_TYPE_OSL = 106"
definition TNS_DATA_TYPE_OKO8 :: u16 where [data_type_codes]: "TNS_DATA_TYPE_OKO8 = 107 + 256"
definition TNS_DATA_TYPE_EXT_NAMED :: u16 where [data_type_codes]: "TNS_DATA_TYPE_EXT_NAMED = 108"
definition TNS_DATA_TYPE_EXT_REF :: u16 where [data_type_codes]: "TNS_DATA_TYPE_EXT_REF = 110"
definition TNS_DATA_TYPE_INT_REF :: u16 where [data_type_codes]: "TNS_DATA_TYPE_INT_REF = 111"
definition TNS_DATA_TYPE_CFILE :: u16 where [data_type_codes]: "TNS_DATA_TYPE_CFILE = 115"
definition TNS_DATA_TYPE_RSET :: u16 where [data_type_codes]: "TNS_DATA_TYPE_RSET = 116"
definition TNS_DATA_TYPE_CWD :: u16 where [data_type_codes]: "TNS_DATA_TYPE_CWD = 117"
definition TNS_DATA_TYPE_OAC122 :: u16 where [data_type_codes]: "TNS_DATA_TYPE_OAC122 = 120"
definition TNS_DATA_TYPE_UD12 :: u16 where [data_type_codes]: "TNS_DATA_TYPE_UD12 = 124 + 256"
definition TNS_DATA_TYPE_AL8 :: u16 where [data_type_codes]: "TNS_DATA_TYPE_AL8 = 125 + 256"
definition TNS_DATA_TYPE_LFOP :: u16 where [data_type_codes]: "TNS_DATA_TYPE_LFOP = 126 + 256"
definition TNS_DATA_TYPE_FCRT :: u16 where [data_type_codes]: "TNS_DATA_TYPE_FCRT = 127 + 256"
definition TNS_DATA_TYPE_DNY :: u16 where [data_type_codes]: "TNS_DATA_TYPE_DNY = 128 + 256"
definition TNS_DATA_TYPE_OPR :: u16 where [data_type_codes]: "TNS_DATA_TYPE_OPR = 129 + 256"
definition TNS_DATA_TYPE_PLS :: u16 where [data_type_codes]: "TNS_DATA_TYPE_PLS = 130 + 256"
definition TNS_DATA_TYPE_XID :: u16 where [data_type_codes]: "TNS_DATA_TYPE_XID = 131 + 256"
definition TNS_DATA_TYPE_TXN :: u16 where [data_type_codes]: "TNS_DATA_TYPE_TXN = 132 + 256"
definition TNS_DATA_TYPE_DCB :: u16 where [data_type_codes]: "TNS_DATA_TYPE_DCB = 133 + 256"
definition TNS_DATA_TYPE_CCA :: u16 where [data_type_codes]: "TNS_DATA_TYPE_CCA = 134 + 256"
definition TNS_DATA_TYPE_WRN :: u16 where [data_type_codes]: "TNS_DATA_TYPE_WRN = 135 + 256"
definition TNS_DATA_TYPE_TLH :: u16 where [data_type_codes]: "TNS_DATA_TYPE_TLH = 137 + 256"
definition TNS_DATA_TYPE_TOH :: u16 where [data_type_codes]: "TNS_DATA_TYPE_TOH = 138 + 256"
definition TNS_DATA_TYPE_FOI :: u16 where [data_type_codes]: "TNS_DATA_TYPE_FOI = 139 + 256"
definition TNS_DATA_TYPE_SID2 :: u16 where [data_type_codes]: "TNS_DATA_TYPE_SID2 = 140 + 256"
definition TNS_DATA_TYPE_TCH :: u16 where [data_type_codes]: "TNS_DATA_TYPE_TCH = 141 + 256"
definition TNS_DATA_TYPE_PII :: u16 where [data_type_codes]: "TNS_DATA_TYPE_PII = 142 + 256"
definition TNS_DATA_TYPE_PFI :: u16 where [data_type_codes]: "TNS_DATA_TYPE_PFI = 143 + 256"
definition TNS_DATA_TYPE_PPU :: u16 where [data_type_codes]: "TNS_DATA_TYPE_PPU = 144 + 256"
definition TNS_DATA_TYPE_PTE :: u16 where [data_type_codes]: "TNS_DATA_TYPE_PTE = 145 + 256"
definition TNS_DATA_TYPE_CLV :: u16 where [data_type_codes]: "TNS_DATA_TYPE_CLV = 146"
definition TNS_DATA_TYPE_RXH8 :: u16 where [data_type_codes]: "TNS_DATA_TYPE_RXH8 = 148 + 256"
definition TNS_DATA_TYPE_N12 :: u16 where [data_type_codes]: "TNS_DATA_TYPE_N12 = 149 + 256"
definition TNS_DATA_TYPE_AUTH :: u16 where [data_type_codes]: "TNS_DATA_TYPE_AUTH = 150 + 256"
definition TNS_DATA_TYPE_KVAL :: u16 where [data_type_codes]: "TNS_DATA_TYPE_KVAL = 151 + 256"
definition TNS_DATA_TYPE_DTR :: u16 where [data_type_codes]: "TNS_DATA_TYPE_DTR = 152"
definition TNS_DATA_TYPE_DUN :: u16 where [data_type_codes]: "TNS_DATA_TYPE_DUN = 153"
definition TNS_DATA_TYPE_DOP :: u16 where [data_type_codes]: "TNS_DATA_TYPE_DOP = 154"
definition TNS_DATA_TYPE_VST :: u16 where [data_type_codes]: "TNS_DATA_TYPE_VST = 155"
definition TNS_DATA_TYPE_ODT :: u16 where [data_type_codes]: "TNS_DATA_TYPE_ODT = 156"
definition TNS_DATA_TYPE_FGI :: u16 where [data_type_codes]: "TNS_DATA_TYPE_FGI = 157 + 256"
definition TNS_DATA_TYPE_DSY :: u16 where [data_type_codes]: "TNS_DATA_TYPE_DSY = 158 + 256"
definition TNS_DATA_TYPE_DSYR8 :: u16 where [data_type_codes]: "TNS_DATA_TYPE_DSYR8 = 159 + 256"
definition TNS_DATA_TYPE_DSYH8 :: u16 where [data_type_codes]: "TNS_DATA_TYPE_DSYH8 = 160 + 256"
definition TNS_DATA_TYPE_DSYL :: u16 where [data_type_codes]: "TNS_DATA_TYPE_DSYL = 161 + 256"
definition TNS_DATA_TYPE_DSYT8 :: u16 where [data_type_codes]: "TNS_DATA_TYPE_DSYT8 = 162 + 256"
definition TNS_DATA_TYPE_DSYV8 :: u16 where [data_type_codes]: "TNS_DATA_TYPE_DSYV8 = 163 + 256"
definition TNS_DATA_TYPE_DSYP :: u16 where [data_type_codes]: "TNS_DATA_TYPE_DSYP = 164 + 256"
definition TNS_DATA_TYPE_DSYF :: u16 where [data_type_codes]: "TNS_DATA_TYPE_DSYF = 165 + 256"
definition TNS_DATA_TYPE_DSYK :: u16 where [data_type_codes]: "TNS_DATA_TYPE_DSYK = 166 + 256"
definition TNS_DATA_TYPE_DSYY :: u16 where [data_type_codes]: "TNS_DATA_TYPE_DSYY = 167 + 256"
definition TNS_DATA_TYPE_DSYQ :: u16 where [data_type_codes]: "TNS_DATA_TYPE_DSYQ = 168 + 256"
definition TNS_DATA_TYPE_DSYC :: u16 where [data_type_codes]: "TNS_DATA_TYPE_DSYC = 169 + 256"
definition TNS_DATA_TYPE_DSYA :: u16 where [data_type_codes]: "TNS_DATA_TYPE_DSYA = 170 + 256"
definition TNS_DATA_TYPE_OT8 :: u16 where [data_type_codes]: "TNS_DATA_TYPE_OT8 = 171 + 256"
definition TNS_DATA_TYPE_DOL :: u16 where [data_type_codes]: "TNS_DATA_TYPE_DOL = 172"
definition TNS_DATA_TYPE_DSYTY :: u16 where [data_type_codes]: "TNS_DATA_TYPE_DSYTY = 173 + 256"
definition TNS_DATA_TYPE_AQE :: u16 where [data_type_codes]: "TNS_DATA_TYPE_AQE = 174 + 256"
definition TNS_DATA_TYPE_KV :: u16 where [data_type_codes]: "TNS_DATA_TYPE_KV = 175 + 256"
definition TNS_DATA_TYPE_AQD :: u16 where [data_type_codes]: "TNS_DATA_TYPE_AQD = 176 + 256"
definition TNS_DATA_TYPE_AQ8 :: u16 where [data_type_codes]: "TNS_DATA_TYPE_AQ8 = 177 + 256"
definition TNS_DATA_TYPE_TIME :: u16 where [data_type_codes]: "TNS_DATA_TYPE_TIME = 178"
definition TNS_DATA_TYPE_TIME_TZ :: u16 where [data_type_codes]: "TNS_DATA_TYPE_TIME_TZ = 179"
definition TNS_DATA_TYPE_EDATE :: u16 where [data_type_codes]: "TNS_DATA_TYPE_EDATE = 184"
definition TNS_DATA_TYPE_ETIME :: u16 where [data_type_codes]: "TNS_DATA_TYPE_ETIME = 185"
definition TNS_DATA_TYPE_ETTZ :: u16 where [data_type_codes]: "TNS_DATA_TYPE_ETTZ = 186"
definition TNS_DATA_TYPE_ESTAMP :: u16 where [data_type_codes]: "TNS_DATA_TYPE_ESTAMP = 187"
definition TNS_DATA_TYPE_ESTZ :: u16 where [data_type_codes]: "TNS_DATA_TYPE_ESTZ = 188"
definition TNS_DATA_TYPE_EIYM :: u16 where [data_type_codes]: "TNS_DATA_TYPE_EIYM = 189"
definition TNS_DATA_TYPE_EIDS :: u16 where [data_type_codes]: "TNS_DATA_TYPE_EIDS = 190"
definition TNS_DATA_TYPE_RFS :: u16 where [data_type_codes]: "TNS_DATA_TYPE_RFS = 193 + 256"
definition TNS_DATA_TYPE_RXH10 :: u16 where [data_type_codes]: "TNS_DATA_TYPE_RXH10 = 194 + 256"
definition TNS_DATA_TYPE_DCLOB :: u16 where [data_type_codes]: "TNS_DATA_TYPE_DCLOB = 195"
definition TNS_DATA_TYPE_DBLOB :: u16 where [data_type_codes]: "TNS_DATA_TYPE_DBLOB = 196"
definition TNS_DATA_TYPE_DBFILE :: u16 where [data_type_codes]: "TNS_DATA_TYPE_DBFILE = 197"
definition TNS_DATA_TYPE_DJSON :: u16 where [data_type_codes]: "TNS_DATA_TYPE_DJSON = 198"
definition TNS_DATA_TYPE_KPN :: u16 where [data_type_codes]: "TNS_DATA_TYPE_KPN = 198 + 256"
definition TNS_DATA_TYPE_KPDNR :: u16 where [data_type_codes]: "TNS_DATA_TYPE_KPDNR = 199 + 256"
definition TNS_DATA_TYPE_DSYD :: u16 where [data_type_codes]: "TNS_DATA_TYPE_DSYD = 200 + 256"
definition TNS_DATA_TYPE_DSYS :: u16 where [data_type_codes]: "TNS_DATA_TYPE_DSYS = 201 + 256"
definition TNS_DATA_TYPE_DSYR :: u16 where [data_type_codes]: "TNS_DATA_TYPE_DSYR = 202 + 256"
definition TNS_DATA_TYPE_DSYH :: u16 where [data_type_codes]: "TNS_DATA_TYPE_DSYH = 203 + 256"
definition TNS_DATA_TYPE_DSYT :: u16 where [data_type_codes]: "TNS_DATA_TYPE_DSYT = 204 + 256"
definition TNS_DATA_TYPE_DSYV :: u16 where [data_type_codes]: "TNS_DATA_TYPE_DSYV = 205 + 256"
definition TNS_DATA_TYPE_AQM :: u16 where [data_type_codes]: "TNS_DATA_TYPE_AQM = 206 + 256"
definition TNS_DATA_TYPE_OER11 :: u16 where [data_type_codes]: "TNS_DATA_TYPE_OER11 = 207 + 256"
definition TNS_DATA_TYPE_AQL :: u16 where [data_type_codes]: "TNS_DATA_TYPE_AQL = 210 + 256"
definition TNS_DATA_TYPE_OTC :: u16 where [data_type_codes]: "TNS_DATA_TYPE_OTC = 211 + 256"
definition TNS_DATA_TYPE_KFNO :: u16 where [data_type_codes]: "TNS_DATA_TYPE_KFNO = 212 + 256"
definition TNS_DATA_TYPE_KFNP :: u16 where [data_type_codes]: "TNS_DATA_TYPE_KFNP = 213 + 256"
definition TNS_DATA_TYPE_KGT8 :: u16 where [data_type_codes]: "TNS_DATA_TYPE_KGT8 = 214 + 256"
definition TNS_DATA_TYPE_RASB4 :: u16 where [data_type_codes]: "TNS_DATA_TYPE_RASB4 = 215 + 256"
definition TNS_DATA_TYPE_RAUB2 :: u16 where [data_type_codes]: "TNS_DATA_TYPE_RAUB2 = 216 + 256"
definition TNS_DATA_TYPE_RAUB1 :: u16 where [data_type_codes]: "TNS_DATA_TYPE_RAUB1 = 217 + 256"
definition TNS_DATA_TYPE_RATXT :: u16 where [data_type_codes]: "TNS_DATA_TYPE_RATXT = 218 + 256"
definition TNS_DATA_TYPE_RSSB4 :: u16 where [data_type_codes]: "TNS_DATA_TYPE_RSSB4 = 219 + 256"
definition TNS_DATA_TYPE_RSUB2 :: u16 where [data_type_codes]: "TNS_DATA_TYPE_RSUB2 = 220 + 256"
definition TNS_DATA_TYPE_RSUB1 :: u16 where [data_type_codes]: "TNS_DATA_TYPE_RSUB1 = 221 + 256"
definition TNS_DATA_TYPE_RSTXT :: u16 where [data_type_codes]: "TNS_DATA_TYPE_RSTXT = 222 + 256"
definition TNS_DATA_TYPE_RIDL :: u16 where [data_type_codes]: "TNS_DATA_TYPE_RIDL = 223 + 256"
definition TNS_DATA_TYPE_GLRDD :: u16 where [data_type_codes]: "TNS_DATA_TYPE_GLRDD = 224 + 256"
definition TNS_DATA_TYPE_GLRDG :: u16 where [data_type_codes]: "TNS_DATA_TYPE_GLRDG = 225 + 256"
definition TNS_DATA_TYPE_GLRDC :: u16 where [data_type_codes]: "TNS_DATA_TYPE_GLRDC = 226 + 256"
definition TNS_DATA_TYPE_OKO :: u16 where [data_type_codes]: "TNS_DATA_TYPE_OKO = 227 + 256"
definition TNS_DATA_TYPE_DPP :: u16 where [data_type_codes]: "TNS_DATA_TYPE_DPP = 228 + 256"
definition TNS_DATA_TYPE_DPLS :: u16 where [data_type_codes]: "TNS_DATA_TYPE_DPLS = 229 + 256"
definition TNS_DATA_TYPE_DPMOP :: u16 where [data_type_codes]: "TNS_DATA_TYPE_DPMOP = 230 + 256"
definition TNS_DATA_TYPE_ESITZ :: u16 where [data_type_codes]: "TNS_DATA_TYPE_ESITZ = 232"
definition TNS_DATA_TYPE_UB8 :: u16 where [data_type_codes]: "TNS_DATA_TYPE_UB8 = 233"
definition TNS_DATA_TYPE_STAT :: u16 where [data_type_codes]: "TNS_DATA_TYPE_STAT = 234 + 256"
definition TNS_DATA_TYPE_RFX :: u16 where [data_type_codes]: "TNS_DATA_TYPE_RFX = 235 + 256"
definition TNS_DATA_TYPE_FAL :: u16 where [data_type_codes]: "TNS_DATA_TYPE_FAL = 236 + 256"
definition TNS_DATA_TYPE_CKV :: u16 where [data_type_codes]: "TNS_DATA_TYPE_CKV = 237 + 256"
definition TNS_DATA_TYPE_DRCX :: u16 where [data_type_codes]: "TNS_DATA_TYPE_DRCX = 238 + 256"
definition TNS_DATA_TYPE_KGH :: u16 where [data_type_codes]: "TNS_DATA_TYPE_KGH = 239 + 256"
definition TNS_DATA_TYPE_AQO :: u16 where [data_type_codes]: "TNS_DATA_TYPE_AQO = 240 + 256"
definition TNS_DATA_TYPE_PNTY :: u16 where [data_type_codes]: "TNS_DATA_TYPE_PNTY = 241"
definition TNS_DATA_TYPE_OKGT :: u16 where [data_type_codes]: "TNS_DATA_TYPE_OKGT = 242 + 256"
definition TNS_DATA_TYPE_KPFC :: u16 where [data_type_codes]: "TNS_DATA_TYPE_KPFC = 243 + 256"
definition TNS_DATA_TYPE_FE2 :: u16 where [data_type_codes]: "TNS_DATA_TYPE_FE2 = 244 + 256"
definition TNS_DATA_TYPE_SPFP :: u16 where [data_type_codes]: "TNS_DATA_TYPE_SPFP = 245 + 256"
definition TNS_DATA_TYPE_DPULS :: u16 where [data_type_codes]: "TNS_DATA_TYPE_DPULS = 246 + 256"
definition TNS_DATA_TYPE_AQA :: u16 where [data_type_codes]: "TNS_DATA_TYPE_AQA = 253 + 256"
definition TNS_DATA_TYPE_KPBF :: u16 where [data_type_codes]: "TNS_DATA_TYPE_KPBF = 254 + 256"
definition TNS_DATA_TYPE_TSM :: u16 where [data_type_codes]: "TNS_DATA_TYPE_TSM = 513"
definition TNS_DATA_TYPE_MSS :: u16 where [data_type_codes]: "TNS_DATA_TYPE_MSS = 514"
definition TNS_DATA_TYPE_KPC :: u16 where [data_type_codes]: "TNS_DATA_TYPE_KPC = 516"
definition TNS_DATA_TYPE_CRS :: u16 where [data_type_codes]: "TNS_DATA_TYPE_CRS = 517"
definition TNS_DATA_TYPE_KKS :: u16 where [data_type_codes]: "TNS_DATA_TYPE_KKS = 518"
definition TNS_DATA_TYPE_KSP :: u16 where [data_type_codes]: "TNS_DATA_TYPE_KSP = 519"
definition TNS_DATA_TYPE_KSPTOP :: u16 where [data_type_codes]: "TNS_DATA_TYPE_KSPTOP = 520"
definition TNS_DATA_TYPE_KSPVAL :: u16 where [data_type_codes]: "TNS_DATA_TYPE_KSPVAL = 521"
definition TNS_DATA_TYPE_PSS :: u16 where [data_type_codes]: "TNS_DATA_TYPE_PSS = 522"
definition TNS_DATA_TYPE_NLS :: u16 where [data_type_codes]: "TNS_DATA_TYPE_NLS = 523"
definition TNS_DATA_TYPE_ALS :: u16 where [data_type_codes]: "TNS_DATA_TYPE_ALS = 524"
definition TNS_DATA_TYPE_KSDEVTVAL :: u16 where [data_type_codes]: "TNS_DATA_TYPE_KSDEVTVAL = 525"
definition TNS_DATA_TYPE_KSDEVTTOP :: u16 where [data_type_codes]: "TNS_DATA_TYPE_KSDEVTTOP = 526"
definition TNS_DATA_TYPE_KPSPP :: u16 where [data_type_codes]: "TNS_DATA_TYPE_KPSPP = 527"
definition TNS_DATA_TYPE_KOL :: u16 where [data_type_codes]: "TNS_DATA_TYPE_KOL = 528"
definition TNS_DATA_TYPE_LST :: u16 where [data_type_codes]: "TNS_DATA_TYPE_LST = 529"
definition TNS_DATA_TYPE_ACX :: u16 where [data_type_codes]: "TNS_DATA_TYPE_ACX = 530"
definition TNS_DATA_TYPE_SCS :: u16 where [data_type_codes]: "TNS_DATA_TYPE_SCS = 531"
definition TNS_DATA_TYPE_RXH :: u16 where [data_type_codes]: "TNS_DATA_TYPE_RXH = 532"
definition TNS_DATA_TYPE_KPDNS :: u16 where [data_type_codes]: "TNS_DATA_TYPE_KPDNS = 533"
definition TNS_DATA_TYPE_KPDCN :: u16 where [data_type_codes]: "TNS_DATA_TYPE_KPDCN = 534"
definition TNS_DATA_TYPE_KPNNS :: u16 where [data_type_codes]: "TNS_DATA_TYPE_KPNNS = 535"
definition TNS_DATA_TYPE_KPNCN :: u16 where [data_type_codes]: "TNS_DATA_TYPE_KPNCN = 536"
definition TNS_DATA_TYPE_KPS :: u16 where [data_type_codes]: "TNS_DATA_TYPE_KPS = 537"
definition TNS_DATA_TYPE_APINF :: u16 where [data_type_codes]: "TNS_DATA_TYPE_APINF = 538"
definition TNS_DATA_TYPE_TEN :: u16 where [data_type_codes]: "TNS_DATA_TYPE_TEN = 539"
definition TNS_DATA_TYPE_XSSCS :: u16 where [data_type_codes]: "TNS_DATA_TYPE_XSSCS = 540"
definition TNS_DATA_TYPE_XSSSO :: u16 where [data_type_codes]: "TNS_DATA_TYPE_XSSSO = 541"
definition TNS_DATA_TYPE_XSSAO :: u16 where [data_type_codes]: "TNS_DATA_TYPE_XSSAO = 542"
definition TNS_DATA_TYPE_KSRPC :: u16 where [data_type_codes]: "TNS_DATA_TYPE_KSRPC = 543"
definition TNS_DATA_TYPE_KVL :: u16 where [data_type_codes]: "TNS_DATA_TYPE_KVL = 560"
definition TNS_DATA_TYPE_SESSGET :: u16 where [data_type_codes]: "TNS_DATA_TYPE_SESSGET = 563"
definition TNS_DATA_TYPE_SESSREL :: u16 where [data_type_codes]: "TNS_DATA_TYPE_SESSREL = 564"
definition TNS_DATA_TYPE_XSSDEF :: u16 where [data_type_codes]: "TNS_DATA_TYPE_XSSDEF = 565"
definition TNS_DATA_TYPE_PDQCINV :: u16 where [data_type_codes]: "TNS_DATA_TYPE_PDQCINV = 572"
definition TNS_DATA_TYPE_PDQIDC :: u16 where [data_type_codes]: "TNS_DATA_TYPE_PDQIDC = 573"
definition TNS_DATA_TYPE_KPDQCSTA :: u16 where [data_type_codes]: "TNS_DATA_TYPE_KPDQCSTA = 574"
definition TNS_DATA_TYPE_KPRS :: u16 where [data_type_codes]: "TNS_DATA_TYPE_KPRS = 575"
definition TNS_DATA_TYPE_KPDQIDC :: u16 where [data_type_codes]: "TNS_DATA_TYPE_KPDQIDC = 576"
definition TNS_DATA_TYPE_RTSTRM :: u16 where [data_type_codes]: "TNS_DATA_TYPE_RTSTRM = 578"
definition TNS_DATA_TYPE_SESSRET :: u16 where [data_type_codes]: "TNS_DATA_TYPE_SESSRET = 579"
definition TNS_DATA_TYPE_SCN6 :: u16 where [data_type_codes]: "TNS_DATA_TYPE_SCN6 = 580"
definition TNS_DATA_TYPE_KECPA :: u16 where [data_type_codes]: "TNS_DATA_TYPE_KECPA = 581"
definition TNS_DATA_TYPE_KECPP :: u16 where [data_type_codes]: "TNS_DATA_TYPE_KECPP = 582"
definition TNS_DATA_TYPE_SXA :: u16 where [data_type_codes]: "TNS_DATA_TYPE_SXA = 583"
definition TNS_DATA_TYPE_KVARR :: u16 where [data_type_codes]: "TNS_DATA_TYPE_KVARR = 584"
definition TNS_DATA_TYPE_KPNGN :: u16 where [data_type_codes]: "TNS_DATA_TYPE_KPNGN = 585"
definition TNS_DATA_TYPE_XSNSOP :: u16 where [data_type_codes]: "TNS_DATA_TYPE_XSNSOP = 590"
definition TNS_DATA_TYPE_XSATTR :: u16 where [data_type_codes]: "TNS_DATA_TYPE_XSATTR = 591"
definition TNS_DATA_TYPE_XSNS :: u16 where [data_type_codes]: "TNS_DATA_TYPE_XSNS = 592"
definition TNS_DATA_TYPE_TXT :: u16 where [data_type_codes]: "TNS_DATA_TYPE_TXT = 593"
definition TNS_DATA_TYPE_XSSESSNS :: u16 where [data_type_codes]: "TNS_DATA_TYPE_XSSESSNS = 594"
definition TNS_DATA_TYPE_XSATTOP :: u16 where [data_type_codes]: "TNS_DATA_TYPE_XSATTOP = 595"
definition TNS_DATA_TYPE_XSCREOP :: u16 where [data_type_codes]: "TNS_DATA_TYPE_XSCREOP = 596"
definition TNS_DATA_TYPE_XSDETOP :: u16 where [data_type_codes]: "TNS_DATA_TYPE_XSDETOP = 597"
definition TNS_DATA_TYPE_XSDESOP :: u16 where [data_type_codes]: "TNS_DATA_TYPE_XSDESOP = 598"
definition TNS_DATA_TYPE_XSSETSP :: u16 where [data_type_codes]: "TNS_DATA_TYPE_XSSETSP = 599"
definition TNS_DATA_TYPE_XSSIDP :: u16 where [data_type_codes]: "TNS_DATA_TYPE_XSSIDP = 600"
definition TNS_DATA_TYPE_XSPRIN :: u16 where [data_type_codes]: "TNS_DATA_TYPE_XSPRIN = 601"
definition TNS_DATA_TYPE_XSKVL :: u16 where [data_type_codes]: "TNS_DATA_TYPE_XSKVL = 602"
definition TNS_DATA_TYPE_XSSSDEF2 :: u16 where [data_type_codes]: "TNS_DATA_TYPE_XSSSDEF2 = 603"
definition TNS_DATA_TYPE_XSNSOP2 :: u16 where [data_type_codes]: "TNS_DATA_TYPE_XSNSOP2 = 604"
definition TNS_DATA_TYPE_XSNS2 :: u16 where [data_type_codes]: "TNS_DATA_TYPE_XSNS2 = 605"
definition TNS_DATA_TYPE_IMPLRES :: u16 where [data_type_codes]: "TNS_DATA_TYPE_IMPLRES = 611"
definition TNS_DATA_TYPE_OER19 :: u16 where [data_type_codes]: "TNS_DATA_TYPE_OER19 = 612"
definition TNS_DATA_TYPE_UB1ARRAY :: u16 where [data_type_codes]: "TNS_DATA_TYPE_UB1ARRAY = 613"
definition TNS_DATA_TYPE_SESSSTATE :: u16 where [data_type_codes]: "TNS_DATA_TYPE_SESSSTATE = 614"
definition TNS_DATA_TYPE_AC_REPLAY :: u16 where [data_type_codes]: "TNS_DATA_TYPE_AC_REPLAY = 615"
definition TNS_DATA_TYPE_AC_CONT :: u16 where [data_type_codes]: "TNS_DATA_TYPE_AC_CONT = 616"
definition TNS_DATA_TYPE_KPDNREQ :: u16 where [data_type_codes]: "TNS_DATA_TYPE_KPDNREQ = 622"
definition TNS_DATA_TYPE_KPDNRNF :: u16 where [data_type_codes]: "TNS_DATA_TYPE_KPDNRNF = 623"
definition TNS_DATA_TYPE_KPNGNC :: u16 where [data_type_codes]: "TNS_DATA_TYPE_KPNGNC = 624"
definition TNS_DATA_TYPE_KPNRI :: u16 where [data_type_codes]: "TNS_DATA_TYPE_KPNRI = 625"
definition TNS_DATA_TYPE_AQENQ :: u16 where [data_type_codes]: "TNS_DATA_TYPE_AQENQ = 626"
definition TNS_DATA_TYPE_AQDEQ :: u16 where [data_type_codes]: "TNS_DATA_TYPE_AQDEQ = 627"
definition TNS_DATA_TYPE_AQJMS :: u16 where [data_type_codes]: "TNS_DATA_TYPE_AQJMS = 628"
definition TNS_DATA_TYPE_KPDNRPAY :: u16 where [data_type_codes]: "TNS_DATA_TYPE_KPDNRPAY = 629"
definition TNS_DATA_TYPE_KPDNRACK :: u16 where [data_type_codes]: "TNS_DATA_TYPE_KPDNRACK = 630"
definition TNS_DATA_TYPE_KPDNRMP :: u16 where [data_type_codes]: "TNS_DATA_TYPE_KPDNRMP = 631"
definition TNS_DATA_TYPE_KPDNRDQ :: u16 where [data_type_codes]: "TNS_DATA_TYPE_KPDNRDQ = 632"
definition TNS_DATA_TYPE_CHUNKINFO :: u16 where [data_type_codes]: "TNS_DATA_TYPE_CHUNKINFO = 636"
definition TNS_DATA_TYPE_SCN :: u16 where [data_type_codes]: "TNS_DATA_TYPE_SCN = 637"
definition TNS_DATA_TYPE_SCN8 :: u16 where [data_type_codes]: "TNS_DATA_TYPE_SCN8 = 638"
definition TNS_DATA_TYPE_UD21 :: u16 where [data_type_codes]: "TNS_DATA_TYPE_UD21 = 639"
definition TNS_DATA_TYPE_TNP :: u16 where [data_type_codes]: "TNS_DATA_TYPE_TNP = 640"
definition TNS_DATA_TYPE_OAC :: u16 where [data_type_codes]: "TNS_DATA_TYPE_OAC = 646"
definition TNS_DATA_TYPE_SESSSIGN :: u16 where [data_type_codes]: "TNS_DATA_TYPE_SESSSIGN = 647"
definition TNS_DATA_TYPE_OER :: u16 where [data_type_codes]: "TNS_DATA_TYPE_OER = 652"
definition TNS_DATA_TYPE_PLEND :: u16 where [data_type_codes]: "TNS_DATA_TYPE_PLEND = 660"
definition TNS_DATA_TYPE_PLBGN :: u16 where [data_type_codes]: "TNS_DATA_TYPE_PLBGN = 661"
definition TNS_DATA_TYPE_UDS :: u16 where [data_type_codes]: "TNS_DATA_TYPE_UDS = 663"
definition TNS_DATA_TYPE_PLOP :: u16 where [data_type_codes]: "TNS_DATA_TYPE_PLOP = 665"

subsection \<open>Representations\<close>

definition TNS_TYPE_REP_UNIVERSAL :: u16 where [data_type_codes]: "TNS_TYPE_REP_UNIVERSAL = 1"
definition TNS_TYPE_REP_ORACLE :: u16 where [data_type_codes]: "TNS_TYPE_REP_ORACLE = 10"

subsection \<open>The table\<close>

text \<open>
  \<open>DATA_TYPES\<close>, in consecutive parts.
\<close>

definition DATA_TYPES_1 :: "data_type_definition list" where
  [data_type_tables]: "DATA_TYPES_1 =
     [dt ORA_TYPE_NUM_VARCHAR ORA_TYPE_NUM_VARCHAR TNS_TYPE_REP_UNIVERSAL,
      dt ORA_TYPE_NUM_NUMBER ORA_TYPE_NUM_NUMBER TNS_TYPE_REP_ORACLE,
      dt ORA_TYPE_NUM_LONG ORA_TYPE_NUM_LONG TNS_TYPE_REP_UNIVERSAL,
      dt ORA_TYPE_NUM_DATE ORA_TYPE_NUM_DATE TNS_TYPE_REP_ORACLE,
      dt ORA_TYPE_NUM_RAW ORA_TYPE_NUM_RAW TNS_TYPE_REP_UNIVERSAL,
      dt ORA_TYPE_NUM_LONG_RAW ORA_TYPE_NUM_LONG_RAW TNS_TYPE_REP_UNIVERSAL,
      dt TNS_DATA_TYPE_UB2 TNS_DATA_TYPE_UB2 TNS_TYPE_REP_UNIVERSAL,
      dt TNS_DATA_TYPE_UB4 TNS_DATA_TYPE_UB4 TNS_TYPE_REP_UNIVERSAL,
      dt TNS_DATA_TYPE_SB1 TNS_DATA_TYPE_SB1 TNS_TYPE_REP_ORACLE,
      dt TNS_DATA_TYPE_SB2 TNS_DATA_TYPE_SB2 TNS_TYPE_REP_UNIVERSAL,
      dt TNS_DATA_TYPE_SB4 TNS_DATA_TYPE_SB4 TNS_TYPE_REP_UNIVERSAL,
      dt TNS_DATA_TYPE_SWORD TNS_DATA_TYPE_SWORD TNS_TYPE_REP_UNIVERSAL,
      dt TNS_DATA_TYPE_UWORD TNS_DATA_TYPE_UWORD TNS_TYPE_REP_UNIVERSAL,
      dt TNS_DATA_TYPE_PTRB TNS_DATA_TYPE_PTRB TNS_TYPE_REP_UNIVERSAL,
      dt TNS_DATA_TYPE_PTRW TNS_DATA_TYPE_PTRW TNS_TYPE_REP_UNIVERSAL,
      dt TNS_DATA_TYPE_TIDDEF TNS_DATA_TYPE_TIDDEF TNS_TYPE_REP_UNIVERSAL,
      dt ORA_TYPE_NUM_ROWID ORA_TYPE_NUM_ROWID TNS_TYPE_REP_UNIVERSAL,
      dt TNS_DATA_TYPE_AMS TNS_DATA_TYPE_AMS TNS_TYPE_REP_UNIVERSAL,
      dt TNS_DATA_TYPE_BRN TNS_DATA_TYPE_BRN TNS_TYPE_REP_UNIVERSAL,
      dt TNS_DATA_TYPE_CWD TNS_DATA_TYPE_CWD TNS_TYPE_REP_UNIVERSAL,
      dt TNS_DATA_TYPE_OAC122 TNS_DATA_TYPE_OAC122 TNS_TYPE_REP_UNIVERSAL,
      dt TNS_DATA_TYPE_OER8 TNS_DATA_TYPE_OER8 TNS_TYPE_REP_UNIVERSAL,
      dt TNS_DATA_TYPE_FUN TNS_DATA_TYPE_FUN TNS_TYPE_REP_UNIVERSAL,
      dt TNS_DATA_TYPE_AUA TNS_DATA_TYPE_AUA TNS_TYPE_REP_UNIVERSAL,
      dt TNS_DATA_TYPE_RXH7 TNS_DATA_TYPE_RXH7 TNS_TYPE_REP_UNIVERSAL,
      dt TNS_DATA_TYPE_NA6 TNS_DATA_TYPE_NA6 TNS_TYPE_REP_UNIVERSAL,
      dt TNS_DATA_TYPE_BRP TNS_DATA_TYPE_BRP TNS_TYPE_REP_UNIVERSAL,
      dt TNS_DATA_TYPE_BRV TNS_DATA_TYPE_BRV TNS_TYPE_REP_UNIVERSAL,
      dt TNS_DATA_TYPE_KVA TNS_DATA_TYPE_KVA TNS_TYPE_REP_UNIVERSAL]"

definition DATA_TYPES_2 :: "data_type_definition list" where
  [data_type_tables]: "DATA_TYPES_2 =
     [dt TNS_DATA_TYPE_CLS TNS_DATA_TYPE_CLS TNS_TYPE_REP_UNIVERSAL,
      dt TNS_DATA_TYPE_CUI TNS_DATA_TYPE_CUI TNS_TYPE_REP_UNIVERSAL,
      dt TNS_DATA_TYPE_DFN TNS_DATA_TYPE_DFN TNS_TYPE_REP_UNIVERSAL,
      dt TNS_DATA_TYPE_DQR TNS_DATA_TYPE_DQR TNS_TYPE_REP_UNIVERSAL,
      dt TNS_DATA_TYPE_DSC TNS_DATA_TYPE_DSC TNS_TYPE_REP_UNIVERSAL,
      dt TNS_DATA_TYPE_EXE TNS_DATA_TYPE_EXE TNS_TYPE_REP_UNIVERSAL,
      dt TNS_DATA_TYPE_FCH TNS_DATA_TYPE_FCH TNS_TYPE_REP_UNIVERSAL,
      dt TNS_DATA_TYPE_GBV TNS_DATA_TYPE_GBV TNS_TYPE_REP_UNIVERSAL,
      dt TNS_DATA_TYPE_GEM TNS_DATA_TYPE_GEM TNS_TYPE_REP_UNIVERSAL,
      dt TNS_DATA_TYPE_GIV TNS_DATA_TYPE_GIV TNS_TYPE_REP_UNIVERSAL,
      dt TNS_DATA_TYPE_OKG TNS_DATA_TYPE_OKG TNS_TYPE_REP_UNIVERSAL,
      dt TNS_DATA_TYPE_HMI TNS_DATA_TYPE_HMI TNS_TYPE_REP_UNIVERSAL,
      dt TNS_DATA_TYPE_INO TNS_DATA_TYPE_INO TNS_TYPE_REP_UNIVERSAL,
      dt TNS_DATA_TYPE_LNF TNS_DATA_TYPE_LNF TNS_TYPE_REP_UNIVERSAL,
      dt TNS_DATA_TYPE_ONT TNS_DATA_TYPE_ONT TNS_TYPE_REP_UNIVERSAL,
      dt TNS_DATA_TYPE_OPE TNS_DATA_TYPE_OPE TNS_TYPE_REP_UNIVERSAL,
      dt TNS_DATA_TYPE_OSQ TNS_DATA_TYPE_OSQ TNS_TYPE_REP_UNIVERSAL,
      dt TNS_DATA_TYPE_SFE TNS_DATA_TYPE_SFE TNS_TYPE_REP_UNIVERSAL,
      dt TNS_DATA_TYPE_SPF TNS_DATA_TYPE_SPF TNS_TYPE_REP_UNIVERSAL,
      dt TNS_DATA_TYPE_VSN TNS_DATA_TYPE_VSN TNS_TYPE_REP_UNIVERSAL,
      dt TNS_DATA_TYPE_UD7 TNS_DATA_TYPE_UD7 TNS_TYPE_REP_UNIVERSAL,
      dt TNS_DATA_TYPE_DSA TNS_DATA_TYPE_DSA TNS_TYPE_REP_UNIVERSAL,
      dt TNS_DATA_TYPE_PIN TNS_DATA_TYPE_PIN TNS_TYPE_REP_UNIVERSAL,
      dt TNS_DATA_TYPE_PFN TNS_DATA_TYPE_PFN TNS_TYPE_REP_UNIVERSAL,
      dt TNS_DATA_TYPE_PPT TNS_DATA_TYPE_PPT TNS_TYPE_REP_UNIVERSAL,
      dt TNS_DATA_TYPE_STO TNS_DATA_TYPE_STO TNS_TYPE_REP_UNIVERSAL,
      dt TNS_DATA_TYPE_ARC TNS_DATA_TYPE_ARC TNS_TYPE_REP_UNIVERSAL,
      dt TNS_DATA_TYPE_MRS TNS_DATA_TYPE_MRS TNS_TYPE_REP_UNIVERSAL,
      dt TNS_DATA_TYPE_MRT TNS_DATA_TYPE_MRT TNS_TYPE_REP_UNIVERSAL]"

definition DATA_TYPES_3 :: "data_type_definition list" where
  [data_type_tables]: "DATA_TYPES_3 =
     [dt TNS_DATA_TYPE_MRG TNS_DATA_TYPE_MRG TNS_TYPE_REP_UNIVERSAL,
      dt TNS_DATA_TYPE_MRR TNS_DATA_TYPE_MRR TNS_TYPE_REP_UNIVERSAL,
      dt TNS_DATA_TYPE_MRC TNS_DATA_TYPE_MRC TNS_TYPE_REP_UNIVERSAL,
      dt TNS_DATA_TYPE_VER TNS_DATA_TYPE_VER TNS_TYPE_REP_UNIVERSAL,
      dt TNS_DATA_TYPE_LON2 TNS_DATA_TYPE_LON2 TNS_TYPE_REP_UNIVERSAL,
      dt TNS_DATA_TYPE_INO2 TNS_DATA_TYPE_INO2 TNS_TYPE_REP_UNIVERSAL,
      dt TNS_DATA_TYPE_ALL TNS_DATA_TYPE_ALL TNS_TYPE_REP_UNIVERSAL,
      dt TNS_DATA_TYPE_UDB TNS_DATA_TYPE_UDB TNS_TYPE_REP_UNIVERSAL,
      dt TNS_DATA_TYPE_AQI TNS_DATA_TYPE_AQI TNS_TYPE_REP_UNIVERSAL,
      dt TNS_DATA_TYPE_ULB TNS_DATA_TYPE_ULB TNS_TYPE_REP_UNIVERSAL,
      dt TNS_DATA_TYPE_ULD TNS_DATA_TYPE_ULD TNS_TYPE_REP_UNIVERSAL,
      dt TNS_DATA_TYPE_SID TNS_DATA_TYPE_SID TNS_TYPE_REP_UNIVERSAL,
      dt TNS_DATA_TYPE_NA7 TNS_DATA_TYPE_NA7 TNS_TYPE_REP_UNIVERSAL,
      dt TNS_DATA_TYPE_AL7 TNS_DATA_TYPE_AL7 TNS_TYPE_REP_UNIVERSAL,
      dt TNS_DATA_TYPE_K2RPC TNS_DATA_TYPE_K2RPC TNS_TYPE_REP_UNIVERSAL,
      dt TNS_DATA_TYPE_XDP TNS_DATA_TYPE_XDP TNS_TYPE_REP_UNIVERSAL,
      dt TNS_DATA_TYPE_OKO8 TNS_DATA_TYPE_OKO8 TNS_TYPE_REP_UNIVERSAL,
      dt TNS_DATA_TYPE_UD12 TNS_DATA_TYPE_UD12 TNS_TYPE_REP_UNIVERSAL,
      dt TNS_DATA_TYPE_AL8 TNS_DATA_TYPE_AL8 TNS_TYPE_REP_UNIVERSAL,
      dt TNS_DATA_TYPE_LFOP TNS_DATA_TYPE_LFOP TNS_TYPE_REP_UNIVERSAL,
      dt TNS_DATA_TYPE_FCRT TNS_DATA_TYPE_FCRT TNS_TYPE_REP_UNIVERSAL,
      dt TNS_DATA_TYPE_DNY TNS_DATA_TYPE_DNY TNS_TYPE_REP_UNIVERSAL,
      dt TNS_DATA_TYPE_OPR TNS_DATA_TYPE_OPR TNS_TYPE_REP_UNIVERSAL,
      dt TNS_DATA_TYPE_PLS TNS_DATA_TYPE_PLS TNS_TYPE_REP_UNIVERSAL,
      dt TNS_DATA_TYPE_XID TNS_DATA_TYPE_XID TNS_TYPE_REP_UNIVERSAL,
      dt TNS_DATA_TYPE_TXN TNS_DATA_TYPE_TXN TNS_TYPE_REP_UNIVERSAL,
      dt TNS_DATA_TYPE_DCB TNS_DATA_TYPE_DCB TNS_TYPE_REP_UNIVERSAL,
      dt TNS_DATA_TYPE_CCA TNS_DATA_TYPE_CCA TNS_TYPE_REP_UNIVERSAL,
      dt TNS_DATA_TYPE_WRN TNS_DATA_TYPE_WRN TNS_TYPE_REP_UNIVERSAL]"

definition DATA_TYPES_4 :: "data_type_definition list" where
  [data_type_tables]: "DATA_TYPES_4 =
     [dt TNS_DATA_TYPE_TLH TNS_DATA_TYPE_TLH TNS_TYPE_REP_UNIVERSAL,
      dt TNS_DATA_TYPE_TOH TNS_DATA_TYPE_TOH TNS_TYPE_REP_UNIVERSAL,
      dt TNS_DATA_TYPE_FOI TNS_DATA_TYPE_FOI TNS_TYPE_REP_UNIVERSAL,
      dt TNS_DATA_TYPE_SID2 TNS_DATA_TYPE_SID2 TNS_TYPE_REP_UNIVERSAL,
      dt TNS_DATA_TYPE_TCH TNS_DATA_TYPE_TCH TNS_TYPE_REP_UNIVERSAL,
      dt TNS_DATA_TYPE_PII TNS_DATA_TYPE_PII TNS_TYPE_REP_UNIVERSAL,
      dt TNS_DATA_TYPE_PFI TNS_DATA_TYPE_PFI TNS_TYPE_REP_UNIVERSAL,
      dt TNS_DATA_TYPE_PPU TNS_DATA_TYPE_PPU TNS_TYPE_REP_UNIVERSAL,
      dt TNS_DATA_TYPE_PTE TNS_DATA_TYPE_PTE TNS_TYPE_REP_UNIVERSAL,
      dt TNS_DATA_TYPE_RXH8 TNS_DATA_TYPE_RXH8 TNS_TYPE_REP_UNIVERSAL,
      dt TNS_DATA_TYPE_N12 TNS_DATA_TYPE_N12 TNS_TYPE_REP_UNIVERSAL,
      dt TNS_DATA_TYPE_AUTH TNS_DATA_TYPE_AUTH TNS_TYPE_REP_UNIVERSAL,
      dt TNS_DATA_TYPE_KVAL TNS_DATA_TYPE_KVAL TNS_TYPE_REP_UNIVERSAL,
      dt TNS_DATA_TYPE_FGI TNS_DATA_TYPE_FGI TNS_TYPE_REP_UNIVERSAL,
      dt TNS_DATA_TYPE_DSY TNS_DATA_TYPE_DSY TNS_TYPE_REP_UNIVERSAL,
      dt TNS_DATA_TYPE_DSYR8 TNS_DATA_TYPE_DSYR8 TNS_TYPE_REP_UNIVERSAL,
      dt TNS_DATA_TYPE_DSYH8 TNS_DATA_TYPE_DSYH8 TNS_TYPE_REP_UNIVERSAL,
      dt TNS_DATA_TYPE_DSYL TNS_DATA_TYPE_DSYL TNS_TYPE_REP_UNIVERSAL,
      dt TNS_DATA_TYPE_DSYT8 TNS_DATA_TYPE_DSYT8 TNS_TYPE_REP_UNIVERSAL,
      dt TNS_DATA_TYPE_DSYV8 TNS_DATA_TYPE_DSYV8 TNS_TYPE_REP_UNIVERSAL,
      dt TNS_DATA_TYPE_DSYP TNS_DATA_TYPE_DSYP TNS_TYPE_REP_UNIVERSAL,
      dt TNS_DATA_TYPE_DSYF TNS_DATA_TYPE_DSYF TNS_TYPE_REP_UNIVERSAL,
      dt TNS_DATA_TYPE_DSYK TNS_DATA_TYPE_DSYK TNS_TYPE_REP_UNIVERSAL,
      dt TNS_DATA_TYPE_DSYY TNS_DATA_TYPE_DSYY TNS_TYPE_REP_UNIVERSAL,
      dt TNS_DATA_TYPE_DSYQ TNS_DATA_TYPE_DSYQ TNS_TYPE_REP_UNIVERSAL,
      dt TNS_DATA_TYPE_DSYC TNS_DATA_TYPE_DSYC TNS_TYPE_REP_UNIVERSAL,
      dt TNS_DATA_TYPE_DSYA TNS_DATA_TYPE_DSYA TNS_TYPE_REP_UNIVERSAL,
      dt TNS_DATA_TYPE_OT8 TNS_DATA_TYPE_OT8 TNS_TYPE_REP_UNIVERSAL,
      dt TNS_DATA_TYPE_DSYTY TNS_DATA_TYPE_DSYTY TNS_TYPE_REP_UNIVERSAL]"

definition DATA_TYPES_5 :: "data_type_definition list" where
  [data_type_tables]: "DATA_TYPES_5 =
     [dt TNS_DATA_TYPE_AQE TNS_DATA_TYPE_AQE TNS_TYPE_REP_UNIVERSAL,
      dt TNS_DATA_TYPE_KV TNS_DATA_TYPE_KV TNS_TYPE_REP_UNIVERSAL,
      dt TNS_DATA_TYPE_AQD TNS_DATA_TYPE_AQD TNS_TYPE_REP_UNIVERSAL,
      dt TNS_DATA_TYPE_AQ8 TNS_DATA_TYPE_AQ8 TNS_TYPE_REP_UNIVERSAL,
      dt TNS_DATA_TYPE_RFS TNS_DATA_TYPE_RFS TNS_TYPE_REP_UNIVERSAL,
      dt TNS_DATA_TYPE_RXH10 TNS_DATA_TYPE_RXH10 TNS_TYPE_REP_UNIVERSAL,
      dt TNS_DATA_TYPE_KPN TNS_DATA_TYPE_KPN TNS_TYPE_REP_UNIVERSAL,
      dt TNS_DATA_TYPE_KPDNR TNS_DATA_TYPE_KPDNR TNS_TYPE_REP_UNIVERSAL,
      dt TNS_DATA_TYPE_DSYD TNS_DATA_TYPE_DSYD TNS_TYPE_REP_UNIVERSAL,
      dt TNS_DATA_TYPE_DSYS TNS_DATA_TYPE_DSYS TNS_TYPE_REP_UNIVERSAL,
      dt TNS_DATA_TYPE_DSYR TNS_DATA_TYPE_DSYR TNS_TYPE_REP_UNIVERSAL,
      dt TNS_DATA_TYPE_DSYH TNS_DATA_TYPE_DSYH TNS_TYPE_REP_UNIVERSAL,
      dt TNS_DATA_TYPE_DSYT TNS_DATA_TYPE_DSYT TNS_TYPE_REP_UNIVERSAL,
      dt TNS_DATA_TYPE_DSYV TNS_DATA_TYPE_DSYV TNS_TYPE_REP_UNIVERSAL,
      dt TNS_DATA_TYPE_AQM TNS_DATA_TYPE_AQM TNS_TYPE_REP_UNIVERSAL,
      dt TNS_DATA_TYPE_OER11 TNS_DATA_TYPE_OER11 TNS_TYPE_REP_UNIVERSAL,
      dt TNS_DATA_TYPE_AQL TNS_DATA_TYPE_AQL TNS_TYPE_REP_UNIVERSAL,
      dt TNS_DATA_TYPE_OTC TNS_DATA_TYPE_OTC TNS_TYPE_REP_UNIVERSAL,
      dt TNS_DATA_TYPE_KFNO TNS_DATA_TYPE_KFNO TNS_TYPE_REP_UNIVERSAL,
      dt TNS_DATA_TYPE_KFNP TNS_DATA_TYPE_KFNP TNS_TYPE_REP_UNIVERSAL,
      dt TNS_DATA_TYPE_KGT8 TNS_DATA_TYPE_KGT8 TNS_TYPE_REP_UNIVERSAL,
      dt TNS_DATA_TYPE_RASB4 TNS_DATA_TYPE_RASB4 TNS_TYPE_REP_UNIVERSAL,
      dt TNS_DATA_TYPE_RAUB2 TNS_DATA_TYPE_RAUB2 TNS_TYPE_REP_UNIVERSAL,
      dt TNS_DATA_TYPE_RAUB1 TNS_DATA_TYPE_RAUB1 TNS_TYPE_REP_UNIVERSAL,
      dt TNS_DATA_TYPE_RATXT TNS_DATA_TYPE_RATXT TNS_TYPE_REP_UNIVERSAL,
      dt TNS_DATA_TYPE_RSSB4 TNS_DATA_TYPE_RSSB4 TNS_TYPE_REP_UNIVERSAL,
      dt TNS_DATA_TYPE_RSUB2 TNS_DATA_TYPE_RSUB2 TNS_TYPE_REP_UNIVERSAL,
      dt TNS_DATA_TYPE_RSUB1 TNS_DATA_TYPE_RSUB1 TNS_TYPE_REP_UNIVERSAL,
      dt TNS_DATA_TYPE_RSTXT TNS_DATA_TYPE_RSTXT TNS_TYPE_REP_UNIVERSAL]"

definition DATA_TYPES_6 :: "data_type_definition list" where
  [data_type_tables]: "DATA_TYPES_6 =
     [dt TNS_DATA_TYPE_RIDL TNS_DATA_TYPE_RIDL TNS_TYPE_REP_UNIVERSAL,
      dt TNS_DATA_TYPE_GLRDD TNS_DATA_TYPE_GLRDD TNS_TYPE_REP_UNIVERSAL,
      dt TNS_DATA_TYPE_GLRDG TNS_DATA_TYPE_GLRDG TNS_TYPE_REP_UNIVERSAL,
      dt TNS_DATA_TYPE_GLRDC TNS_DATA_TYPE_GLRDC TNS_TYPE_REP_UNIVERSAL,
      dt TNS_DATA_TYPE_OKO TNS_DATA_TYPE_OKO TNS_TYPE_REP_UNIVERSAL,
      dt TNS_DATA_TYPE_DPP TNS_DATA_TYPE_DPP TNS_TYPE_REP_UNIVERSAL,
      dt TNS_DATA_TYPE_DPLS TNS_DATA_TYPE_DPLS TNS_TYPE_REP_UNIVERSAL,
      dt TNS_DATA_TYPE_DPMOP TNS_DATA_TYPE_DPMOP TNS_TYPE_REP_UNIVERSAL,
      dt TNS_DATA_TYPE_STAT TNS_DATA_TYPE_STAT TNS_TYPE_REP_UNIVERSAL,
      dt TNS_DATA_TYPE_RFX TNS_DATA_TYPE_RFX TNS_TYPE_REP_UNIVERSAL,
      dt TNS_DATA_TYPE_FAL TNS_DATA_TYPE_FAL TNS_TYPE_REP_UNIVERSAL,
      dt TNS_DATA_TYPE_CKV TNS_DATA_TYPE_CKV TNS_TYPE_REP_UNIVERSAL,
      dt TNS_DATA_TYPE_DRCX TNS_DATA_TYPE_DRCX TNS_TYPE_REP_UNIVERSAL,
      dt TNS_DATA_TYPE_KGH TNS_DATA_TYPE_KGH TNS_TYPE_REP_UNIVERSAL,
      dt TNS_DATA_TYPE_AQO TNS_DATA_TYPE_AQO TNS_TYPE_REP_UNIVERSAL,
      dt TNS_DATA_TYPE_OKGT TNS_DATA_TYPE_OKGT TNS_TYPE_REP_UNIVERSAL,
      dt TNS_DATA_TYPE_KPFC TNS_DATA_TYPE_KPFC TNS_TYPE_REP_UNIVERSAL,
      dt TNS_DATA_TYPE_FE2 TNS_DATA_TYPE_FE2 TNS_TYPE_REP_UNIVERSAL,
      dt TNS_DATA_TYPE_SPFP TNS_DATA_TYPE_SPFP TNS_TYPE_REP_UNIVERSAL,
      dt TNS_DATA_TYPE_DPULS TNS_DATA_TYPE_DPULS TNS_TYPE_REP_UNIVERSAL,
      dt TNS_DATA_TYPE_AQA TNS_DATA_TYPE_AQA TNS_TYPE_REP_UNIVERSAL,
      dt TNS_DATA_TYPE_KPBF TNS_DATA_TYPE_KPBF TNS_TYPE_REP_UNIVERSAL,
      dt TNS_DATA_TYPE_TSM TNS_DATA_TYPE_TSM TNS_TYPE_REP_UNIVERSAL,
      dt TNS_DATA_TYPE_MSS TNS_DATA_TYPE_MSS TNS_TYPE_REP_UNIVERSAL,
      dt TNS_DATA_TYPE_KPC TNS_DATA_TYPE_KPC TNS_TYPE_REP_UNIVERSAL,
      dt TNS_DATA_TYPE_CRS TNS_DATA_TYPE_CRS TNS_TYPE_REP_UNIVERSAL,
      dt TNS_DATA_TYPE_KKS TNS_DATA_TYPE_KKS TNS_TYPE_REP_UNIVERSAL,
      dt TNS_DATA_TYPE_KSP TNS_DATA_TYPE_KSP TNS_TYPE_REP_UNIVERSAL,
      dt TNS_DATA_TYPE_KSPTOP TNS_DATA_TYPE_KSPTOP TNS_TYPE_REP_UNIVERSAL]"

definition DATA_TYPES_7 :: "data_type_definition list" where
  [data_type_tables]: "DATA_TYPES_7 =
     [dt TNS_DATA_TYPE_KSPVAL TNS_DATA_TYPE_KSPVAL TNS_TYPE_REP_UNIVERSAL,
      dt TNS_DATA_TYPE_PSS TNS_DATA_TYPE_PSS TNS_TYPE_REP_UNIVERSAL,
      dt TNS_DATA_TYPE_NLS TNS_DATA_TYPE_NLS TNS_TYPE_REP_UNIVERSAL,
      dt TNS_DATA_TYPE_ALS TNS_DATA_TYPE_ALS TNS_TYPE_REP_UNIVERSAL,
      dt TNS_DATA_TYPE_KSDEVTVAL TNS_DATA_TYPE_KSDEVTVAL TNS_TYPE_REP_UNIVERSAL,
      dt TNS_DATA_TYPE_KSDEVTTOP TNS_DATA_TYPE_KSDEVTTOP TNS_TYPE_REP_UNIVERSAL,
      dt TNS_DATA_TYPE_KPSPP TNS_DATA_TYPE_KPSPP TNS_TYPE_REP_UNIVERSAL,
      dt TNS_DATA_TYPE_KOL TNS_DATA_TYPE_KOL TNS_TYPE_REP_UNIVERSAL,
      dt TNS_DATA_TYPE_LST TNS_DATA_TYPE_LST TNS_TYPE_REP_UNIVERSAL,
      dt TNS_DATA_TYPE_ACX TNS_DATA_TYPE_ACX TNS_TYPE_REP_UNIVERSAL,
      dt TNS_DATA_TYPE_SCS TNS_DATA_TYPE_SCS TNS_TYPE_REP_UNIVERSAL,
      dt TNS_DATA_TYPE_RXH TNS_DATA_TYPE_RXH TNS_TYPE_REP_UNIVERSAL,
      dt TNS_DATA_TYPE_KPDNS TNS_DATA_TYPE_KPDNS TNS_TYPE_REP_UNIVERSAL,
      dt TNS_DATA_TYPE_KPDCN TNS_DATA_TYPE_KPDCN TNS_TYPE_REP_UNIVERSAL,
      dt TNS_DATA_TYPE_KPNNS TNS_DATA_TYPE_KPNNS TNS_TYPE_REP_UNIVERSAL,
      dt TNS_DATA_TYPE_KPNCN TNS_DATA_TYPE_KPNCN TNS_TYPE_REP_UNIVERSAL,
      dt TNS_DATA_TYPE_KPS TNS_DATA_TYPE_KPS TNS_TYPE_REP_UNIVERSAL,
      dt TNS_DATA_TYPE_APINF TNS_DATA_TYPE_APINF TNS_TYPE_REP_UNIVERSAL,
      dt TNS_DATA_TYPE_TEN TNS_DATA_TYPE_TEN TNS_TYPE_REP_UNIVERSAL,
      dt TNS_DATA_TYPE_XSSCS TNS_DATA_TYPE_XSSCS TNS_TYPE_REP_UNIVERSAL,
      dt TNS_DATA_TYPE_XSSSO TNS_DATA_TYPE_XSSSO TNS_TYPE_REP_UNIVERSAL,
      dt TNS_DATA_TYPE_XSSAO TNS_DATA_TYPE_XSSAO TNS_TYPE_REP_UNIVERSAL,
      dt TNS_DATA_TYPE_KSRPC TNS_DATA_TYPE_KSRPC TNS_TYPE_REP_UNIVERSAL,
      dt TNS_DATA_TYPE_KVL TNS_DATA_TYPE_KVL TNS_TYPE_REP_UNIVERSAL,
      dt TNS_DATA_TYPE_XSSDEF TNS_DATA_TYPE_XSSDEF TNS_TYPE_REP_UNIVERSAL,
      dt TNS_DATA_TYPE_PDQCINV TNS_DATA_TYPE_PDQCINV TNS_TYPE_REP_UNIVERSAL,
      dt TNS_DATA_TYPE_PDQIDC TNS_DATA_TYPE_PDQIDC TNS_TYPE_REP_UNIVERSAL,
      dt TNS_DATA_TYPE_KPDQCSTA TNS_DATA_TYPE_KPDQCSTA TNS_TYPE_REP_UNIVERSAL,
      dt TNS_DATA_TYPE_KPRS TNS_DATA_TYPE_KPRS TNS_TYPE_REP_UNIVERSAL]"

definition DATA_TYPES_8 :: "data_type_definition list" where
  [data_type_tables]: "DATA_TYPES_8 =
     [dt TNS_DATA_TYPE_KPDQIDC TNS_DATA_TYPE_KPDQIDC TNS_TYPE_REP_UNIVERSAL,
      dt TNS_DATA_TYPE_RTSTRM TNS_DATA_TYPE_RTSTRM TNS_TYPE_REP_UNIVERSAL,
      dt TNS_DATA_TYPE_SESSGET TNS_DATA_TYPE_SESSGET TNS_TYPE_REP_UNIVERSAL,
      dt TNS_DATA_TYPE_SESSREL TNS_DATA_TYPE_SESSREL TNS_TYPE_REP_UNIVERSAL,
      dt TNS_DATA_TYPE_SESSRET TNS_DATA_TYPE_SESSRET TNS_TYPE_REP_UNIVERSAL,
      dt TNS_DATA_TYPE_SCN6 TNS_DATA_TYPE_SCN6 TNS_TYPE_REP_UNIVERSAL,
      dt TNS_DATA_TYPE_KECPA TNS_DATA_TYPE_KECPA TNS_TYPE_REP_UNIVERSAL,
      dt TNS_DATA_TYPE_KECPP TNS_DATA_TYPE_KECPP TNS_TYPE_REP_UNIVERSAL,
      dt TNS_DATA_TYPE_SXA TNS_DATA_TYPE_SXA TNS_TYPE_REP_UNIVERSAL,
      dt TNS_DATA_TYPE_KVARR TNS_DATA_TYPE_KVARR TNS_TYPE_REP_UNIVERSAL,
      dt TNS_DATA_TYPE_KPNGN TNS_DATA_TYPE_KPNGN TNS_TYPE_REP_UNIVERSAL,
      dt ORA_TYPE_NUM_BINARY_INTEGER ORA_TYPE_NUM_NUMBER TNS_TYPE_REP_ORACLE,
      dt TNS_DATA_TYPE_FLOAT ORA_TYPE_NUM_NUMBER TNS_TYPE_REP_ORACLE,
      dt TNS_DATA_TYPE_STR ORA_TYPE_NUM_VARCHAR TNS_TYPE_REP_UNIVERSAL,
      dt TNS_DATA_TYPE_VNU ORA_TYPE_NUM_NUMBER TNS_TYPE_REP_ORACLE,
      dt TNS_DATA_TYPE_PDN ORA_TYPE_NUM_NUMBER TNS_TYPE_REP_ORACLE,
      dt TNS_DATA_TYPE_VCS ORA_TYPE_NUM_VARCHAR TNS_TYPE_REP_UNIVERSAL,
      dt TNS_DATA_TYPE_VBI ORA_TYPE_NUM_VARCHAR TNS_TYPE_REP_UNIVERSAL,
      dt TNS_DATA_TYPE_OAC9 TNS_DATA_TYPE_OAC9 TNS_TYPE_REP_UNIVERSAL,
      dt TNS_DATA_TYPE_UIN ORA_TYPE_NUM_NUMBER TNS_TYPE_REP_ORACLE,
      dt TNS_DATA_TYPE_SLS ORA_TYPE_NUM_NUMBER TNS_TYPE_REP_ORACLE,
      dt TNS_DATA_TYPE_LVC ORA_TYPE_NUM_VARCHAR TNS_TYPE_REP_UNIVERSAL,
      dt TNS_DATA_TYPE_LVB ORA_TYPE_NUM_RAW TNS_TYPE_REP_UNIVERSAL,
      dt ORA_TYPE_NUM_CHAR ORA_TYPE_NUM_CHAR TNS_TYPE_REP_UNIVERSAL,
      dt TNS_DATA_TYPE_AVC ORA_TYPE_NUM_CHAR TNS_TYPE_REP_UNIVERSAL,
      dt ORA_TYPE_NUM_BINARY_FLOAT ORA_TYPE_NUM_BINARY_FLOAT TNS_TYPE_REP_UNIVERSAL,
      dt ORA_TYPE_NUM_BINARY_DOUBLE ORA_TYPE_NUM_BINARY_DOUBLE TNS_TYPE_REP_UNIVERSAL,
      dt ORA_TYPE_NUM_CURSOR ORA_TYPE_NUM_CURSOR TNS_TYPE_REP_UNIVERSAL,
      dt TNS_DATA_TYPE_RDD ORA_TYPE_NUM_ROWID TNS_TYPE_REP_UNIVERSAL]"

definition DATA_TYPES_9 :: "data_type_definition list" where
  [data_type_tables]: "DATA_TYPES_9 =
     [dt TNS_DATA_TYPE_OSL TNS_DATA_TYPE_OSL TNS_TYPE_REP_UNIVERSAL,
      dt TNS_DATA_TYPE_EXT_NAMED ORA_TYPE_NUM_OBJECT TNS_TYPE_REP_UNIVERSAL,
      dt ORA_TYPE_NUM_OBJECT ORA_TYPE_NUM_OBJECT TNS_TYPE_REP_UNIVERSAL,
      dt TNS_DATA_TYPE_EXT_REF TNS_DATA_TYPE_INT_REF TNS_TYPE_REP_UNIVERSAL,
      dt TNS_DATA_TYPE_INT_REF TNS_DATA_TYPE_INT_REF TNS_TYPE_REP_UNIVERSAL,
      dt ORA_TYPE_NUM_CLOB ORA_TYPE_NUM_CLOB TNS_TYPE_REP_UNIVERSAL,
      dt ORA_TYPE_NUM_BLOB ORA_TYPE_NUM_BLOB TNS_TYPE_REP_UNIVERSAL,
      dt ORA_TYPE_NUM_BFILE ORA_TYPE_NUM_BFILE TNS_TYPE_REP_UNIVERSAL,
      dt TNS_DATA_TYPE_CFILE TNS_DATA_TYPE_CFILE TNS_TYPE_REP_UNIVERSAL,
      dt TNS_DATA_TYPE_RSET ORA_TYPE_NUM_CURSOR TNS_TYPE_REP_UNIVERSAL,
      dt ORA_TYPE_NUM_JSON ORA_TYPE_NUM_JSON TNS_TYPE_REP_UNIVERSAL,
      dt TNS_DATA_TYPE_DJSON TNS_DATA_TYPE_DJSON TNS_TYPE_REP_UNIVERSAL,
      dt TNS_DATA_TYPE_CLV TNS_DATA_TYPE_CLV TNS_TYPE_REP_UNIVERSAL,
      dt TNS_DATA_TYPE_DTR ORA_TYPE_NUM_NUMBER TNS_TYPE_REP_ORACLE,
      dt TNS_DATA_TYPE_DUN ORA_TYPE_NUM_NUMBER TNS_TYPE_REP_ORACLE,
      dt TNS_DATA_TYPE_DOP ORA_TYPE_NUM_NUMBER TNS_TYPE_REP_ORACLE,
      dt TNS_DATA_TYPE_VST ORA_TYPE_NUM_VARCHAR TNS_TYPE_REP_UNIVERSAL,
      dt TNS_DATA_TYPE_ODT ORA_TYPE_NUM_DATE TNS_TYPE_REP_ORACLE,
      dt TNS_DATA_TYPE_DOL ORA_TYPE_NUM_NUMBER TNS_TYPE_REP_ORACLE,
      dt TNS_DATA_TYPE_TIME TNS_DATA_TYPE_TIME TNS_TYPE_REP_UNIVERSAL,
      dt TNS_DATA_TYPE_TIME_TZ TNS_DATA_TYPE_TIME_TZ TNS_TYPE_REP_UNIVERSAL,
      dt ORA_TYPE_NUM_TIMESTAMP ORA_TYPE_NUM_TIMESTAMP TNS_TYPE_REP_UNIVERSAL,
      dt ORA_TYPE_NUM_TIMESTAMP_TZ ORA_TYPE_NUM_TIMESTAMP_TZ TNS_TYPE_REP_UNIVERSAL,
      dt ORA_TYPE_NUM_INTERVAL_YM ORA_TYPE_NUM_INTERVAL_YM TNS_TYPE_REP_UNIVERSAL,
      dt ORA_TYPE_NUM_INTERVAL_DS ORA_TYPE_NUM_INTERVAL_DS TNS_TYPE_REP_UNIVERSAL,
      dt TNS_DATA_TYPE_EDATE ORA_TYPE_NUM_DATE TNS_TYPE_REP_ORACLE,
      dt TNS_DATA_TYPE_ETIME TNS_DATA_TYPE_ETIME TNS_TYPE_REP_UNIVERSAL,
      dt TNS_DATA_TYPE_ETTZ TNS_DATA_TYPE_ETTZ TNS_TYPE_REP_UNIVERSAL,
      dt TNS_DATA_TYPE_ESTAMP TNS_DATA_TYPE_ESTAMP TNS_TYPE_REP_UNIVERSAL]"

definition DATA_TYPES_10 :: "data_type_definition list" where
  [data_type_tables]: "DATA_TYPES_10 =
     [dt TNS_DATA_TYPE_ESTZ TNS_DATA_TYPE_ESTZ TNS_TYPE_REP_UNIVERSAL,
      dt TNS_DATA_TYPE_EIYM TNS_DATA_TYPE_EIYM TNS_TYPE_REP_UNIVERSAL,
      dt TNS_DATA_TYPE_EIDS TNS_DATA_TYPE_EIDS TNS_TYPE_REP_UNIVERSAL,
      dt TNS_DATA_TYPE_DCLOB ORA_TYPE_NUM_CLOB TNS_TYPE_REP_UNIVERSAL,
      dt TNS_DATA_TYPE_DBLOB ORA_TYPE_NUM_BLOB TNS_TYPE_REP_UNIVERSAL,
      dt TNS_DATA_TYPE_DBFILE ORA_TYPE_NUM_BFILE TNS_TYPE_REP_UNIVERSAL,
      dt ORA_TYPE_NUM_UROWID ORA_TYPE_NUM_UROWID TNS_TYPE_REP_UNIVERSAL,
      dt ORA_TYPE_NUM_TIMESTAMP_LTZ ORA_TYPE_NUM_TIMESTAMP_LTZ TNS_TYPE_REP_UNIVERSAL,
      dt TNS_DATA_TYPE_ESITZ ORA_TYPE_NUM_TIMESTAMP_LTZ TNS_TYPE_REP_UNIVERSAL,
      dt TNS_DATA_TYPE_UB8 TNS_DATA_TYPE_UB8 TNS_TYPE_REP_UNIVERSAL,
      dt TNS_DATA_TYPE_PNTY ORA_TYPE_NUM_OBJECT TNS_TYPE_REP_UNIVERSAL,
      dt ORA_TYPE_NUM_BOOLEAN ORA_TYPE_NUM_BOOLEAN TNS_TYPE_REP_UNIVERSAL,
      dt TNS_DATA_TYPE_XSNSOP TNS_DATA_TYPE_XSNSOP TNS_TYPE_REP_UNIVERSAL,
      dt TNS_DATA_TYPE_XSATTR TNS_DATA_TYPE_XSATTR TNS_TYPE_REP_UNIVERSAL,
      dt TNS_DATA_TYPE_XSNS TNS_DATA_TYPE_XSNS TNS_TYPE_REP_UNIVERSAL,
      dt TNS_DATA_TYPE_UB1ARRAY TNS_DATA_TYPE_UB1ARRAY TNS_TYPE_REP_UNIVERSAL,
      dt TNS_DATA_TYPE_SESSSTATE TNS_DATA_TYPE_SESSSTATE TNS_TYPE_REP_UNIVERSAL,
      dt TNS_DATA_TYPE_AC_REPLAY TNS_DATA_TYPE_AC_REPLAY TNS_TYPE_REP_UNIVERSAL,
      dt TNS_DATA_TYPE_AC_CONT TNS_DATA_TYPE_AC_CONT TNS_TYPE_REP_UNIVERSAL,
      dt TNS_DATA_TYPE_IMPLRES TNS_DATA_TYPE_IMPLRES TNS_TYPE_REP_UNIVERSAL,
      dt TNS_DATA_TYPE_OER19 TNS_DATA_TYPE_OER19 TNS_TYPE_REP_UNIVERSAL,
      dt TNS_DATA_TYPE_TXT TNS_DATA_TYPE_TXT TNS_TYPE_REP_UNIVERSAL,
      dt TNS_DATA_TYPE_XSSESSNS TNS_DATA_TYPE_XSSESSNS TNS_TYPE_REP_UNIVERSAL,
      dt TNS_DATA_TYPE_XSATTOP TNS_DATA_TYPE_XSATTOP TNS_TYPE_REP_UNIVERSAL,
      dt TNS_DATA_TYPE_XSCREOP TNS_DATA_TYPE_XSCREOP TNS_TYPE_REP_UNIVERSAL,
      dt TNS_DATA_TYPE_XSDETOP TNS_DATA_TYPE_XSDETOP TNS_TYPE_REP_UNIVERSAL,
      dt TNS_DATA_TYPE_XSDESOP TNS_DATA_TYPE_XSDESOP TNS_TYPE_REP_UNIVERSAL,
      dt TNS_DATA_TYPE_XSSETSP TNS_DATA_TYPE_XSSETSP TNS_TYPE_REP_UNIVERSAL,
      dt TNS_DATA_TYPE_XSSIDP TNS_DATA_TYPE_XSSIDP TNS_TYPE_REP_UNIVERSAL]"

definition DATA_TYPES_11 :: "data_type_definition list" where
  [data_type_tables]: "DATA_TYPES_11 =
     [dt TNS_DATA_TYPE_XSPRIN TNS_DATA_TYPE_XSPRIN TNS_TYPE_REP_UNIVERSAL,
      dt TNS_DATA_TYPE_XSKVL TNS_DATA_TYPE_XSKVL TNS_TYPE_REP_UNIVERSAL,
      dt TNS_DATA_TYPE_XSSSDEF2 TNS_DATA_TYPE_XSSSDEF2 TNS_TYPE_REP_UNIVERSAL,
      dt TNS_DATA_TYPE_XSNSOP2 TNS_DATA_TYPE_XSNSOP2 TNS_TYPE_REP_UNIVERSAL,
      dt TNS_DATA_TYPE_XSNS2 TNS_DATA_TYPE_XSNS2 TNS_TYPE_REP_UNIVERSAL,
      dt TNS_DATA_TYPE_KPDNREQ TNS_DATA_TYPE_KPDNREQ TNS_TYPE_REP_UNIVERSAL,
      dt TNS_DATA_TYPE_KPDNRNF TNS_DATA_TYPE_KPDNRNF TNS_TYPE_REP_UNIVERSAL,
      dt TNS_DATA_TYPE_KPNGNC TNS_DATA_TYPE_KPNGNC TNS_TYPE_REP_UNIVERSAL,
      dt TNS_DATA_TYPE_KPNRI TNS_DATA_TYPE_KPNRI TNS_TYPE_REP_UNIVERSAL,
      dt TNS_DATA_TYPE_AQENQ TNS_DATA_TYPE_AQENQ TNS_TYPE_REP_UNIVERSAL,
      dt TNS_DATA_TYPE_AQDEQ TNS_DATA_TYPE_AQDEQ TNS_TYPE_REP_UNIVERSAL,
      dt TNS_DATA_TYPE_AQJMS TNS_DATA_TYPE_AQJMS TNS_TYPE_REP_UNIVERSAL,
      dt TNS_DATA_TYPE_KPDNRPAY TNS_DATA_TYPE_KPDNRPAY TNS_TYPE_REP_UNIVERSAL,
      dt TNS_DATA_TYPE_KPDNRACK TNS_DATA_TYPE_KPDNRACK TNS_TYPE_REP_UNIVERSAL,
      dt TNS_DATA_TYPE_KPDNRMP TNS_DATA_TYPE_KPDNRMP TNS_TYPE_REP_UNIVERSAL,
      dt TNS_DATA_TYPE_KPDNRDQ TNS_DATA_TYPE_KPDNRDQ TNS_TYPE_REP_UNIVERSAL,
      dt TNS_DATA_TYPE_SCN TNS_DATA_TYPE_SCN TNS_TYPE_REP_UNIVERSAL,
      dt TNS_DATA_TYPE_SCN8 TNS_DATA_TYPE_SCN8 TNS_TYPE_REP_UNIVERSAL,
      dt TNS_DATA_TYPE_CHUNKINFO TNS_DATA_TYPE_CHUNKINFO TNS_TYPE_REP_UNIVERSAL,
      dt TNS_DATA_TYPE_UD21 TNS_DATA_TYPE_UD21 TNS_TYPE_REP_UNIVERSAL,
      dt TNS_DATA_TYPE_UDS TNS_DATA_TYPE_UDS TNS_TYPE_REP_UNIVERSAL,
      dt TNS_DATA_TYPE_TNP TNS_DATA_TYPE_TNP TNS_TYPE_REP_UNIVERSAL,
      dt TNS_DATA_TYPE_OER TNS_DATA_TYPE_OER TNS_TYPE_REP_UNIVERSAL,
      dt TNS_DATA_TYPE_OAC TNS_DATA_TYPE_OAC TNS_TYPE_REP_UNIVERSAL,
      dt TNS_DATA_TYPE_SESSSIGN TNS_DATA_TYPE_SESSSIGN TNS_TYPE_REP_UNIVERSAL,
      dt ORA_TYPE_NUM_VECTOR ORA_TYPE_NUM_VECTOR TNS_TYPE_REP_UNIVERSAL,
      dt TNS_DATA_TYPE_PLEND TNS_DATA_TYPE_PLEND TNS_TYPE_REP_UNIVERSAL,
      dt TNS_DATA_TYPE_PLBGN TNS_DATA_TYPE_PLBGN TNS_TYPE_REP_UNIVERSAL,
      dt TNS_DATA_TYPE_PLOP TNS_DATA_TYPE_PLOP TNS_TYPE_REP_UNIVERSAL]"

definition DATA_TYPES :: "data_type_definition list" where
  "DATA_TYPES =
     DATA_TYPES_1 @ DATA_TYPES_2 @ DATA_TYPES_3 @ DATA_TYPES_4
     @ DATA_TYPES_5 @ DATA_TYPES_6 @ DATA_TYPES_7 @ DATA_TYPES_8
     @ DATA_TYPES_9 @ DATA_TYPES_10 @ DATA_TYPES_11"

text \<open>No entry is mistaken for the terminator.\<close>

definition type_sent :: "data_type_definition \<Rightarrow> bool" where
  "type_sent d \<longleftrightarrow> dt_data_type d \<noteq> 0 \<and> dt_conv_data_type d \<noteq> 0"

lemma type_sent_dt: "type_sent (dt a b r) \<longleftrightarrow> a \<noteq> 0 \<and> b \<noteq> 0"
  by (simp add: type_sent_def dt_def)

lemma data_types_sent: "list_all type_sent DATA_TYPES"
  unfolding DATA_TYPES_def list_all_append
  by (intro conjI; simp add: data_type_tables type_sent_dt; simp add: data_type_codes)

end
