(* ===== verification/Negotiation.thy ===== *)
theory Negotiation
  imports Handshake DataTypes
begin

section \<open>Protocol and data type negotiation\<close>

text \<open>
  \<open>src/src/messages/protocol.rs\<close> and the message of \<open>src/src/messages/data_types.rs\<close>.  The
  parsers update the message and the capabilities in place; here they return both, and an error
  returns neither: it ends the handshake, and with it the connection.
\<close>

subsection \<open>The protocol message\<close>

record protocol_message =
  pm_server_version :: u8
  pm_server_flags :: u8
  pm_server_banner :: "string option"
  pm_server_compile_caps :: "u8 list option"
  pm_server_runtime_caps :: "u8 list option"

definition protocol_new :: protocol_message where
  "protocol_new =
     \<lparr>pm_server_version = 0, pm_server_flags = 0, pm_server_banner = None,
      pm_server_compile_caps = None, pm_server_runtime_caps = None\<rparr>"

definition protocol_encode :: "unit writer" where
  "protocol_encode =
     do_all [write_u8 (message_type_byte MsgProtocol), write_u8 6, write_u8 0,
             write_bytes (bytes_of_text DRIVER_NAME), write_u8 0]"

definition protocol_build_request :: "bool \<Rightarrow> u8 list result" where
  "protocol_build_request large_sdu =
     build_packet Data large_sdu (do_all [write_u16_be END_OF_REQUEST, protocol_encode])"

text \<open>The loop of \<open>read_null_terminated_string\<close> consumes a byte in each round.\<close>

lemma read_u8_progress: "read_u8 s = (Inr b, s') \<Longrightarrow> remaining s' < remaining s"
  by (auto simp: remaining_def dest!: read_u8_InrD)

function (sequential) read_until_null :: "u8 list \<Rightarrow> rbuf \<Rightarrow> u8 list result \<times> rbuf" where
  "read_until_null bytes s =
     andThen read_u8 (\<lambda>b s1. if b = 0 then ok bytes s1 else read_until_null (bytes @ [b]) s1) s"
  by pat_completeness auto
termination
  by (relation "measure (\<lambda>(_, s). remaining s)") (auto dest!: read_u8_progress)

declare read_until_null.simps [simp del]

definition read_null_terminated_string :: "string reader" where
  "read_null_terminated_string = fmap from_utf8_lossy (read_until_null [])"

text \<open>The national character set in the FDO data; the index arithmetic cannot overflow.\<close>

definition fdo_ncharset :: "u8 list \<Rightarrow> u16 option" where
  "fdo_ncharset fdo =
     (if 6 < length fdo
      then let offset = 6 + unat (fdo ! 5) + unat (fdo ! 6)
           in if offset + 5 \<le> length fdo
              then Some (push_bit 8 (ucast (fdo ! (offset + 3))) OR ucast (fdo ! (offset + 4)))
              else None
      else None)"

definition adjust_compile :: "u8 list option \<Rightarrow> capabilities \<Rightarrow> capabilities result" where
  "adjust_compile server_ccaps c =
     (case server_ccaps of None \<Rightarrow> Inr c | Some ccaps \<Rightarrow> adjust_for_server_compile_caps ccaps c)"

definition adjust_runtime :: "u8 list option \<Rightarrow> capabilities \<Rightarrow> capabilities" where
  "adjust_runtime server_rcaps c =
     (case server_rcaps of None \<Rightarrow> c | Some rcaps \<Rightarrow> adjust_for_server_runtime_caps rcaps c)"

definition read_fdo :: "u8 list reader" where
  "read_fdo = andThen read_u16_be (\<lambda>fdo_length.
     if 0 < unat fdo_length then read_bytes_vec (unat fdo_length) else ok [])"

definition protocol_parse_body :: "capabilities \<Rightarrow> (protocol_message \<times> capabilities) reader" where
  "protocol_parse_body c =
     andThen read_u8 (\<lambda>server_version.
     andSeq (skip 1) (
     andThen read_null_terminated_string (\<lambda>banner.
     andThen read_u16_le (\<lambda>charset.
     andThen read_u8 (\<lambda>server_flags.
     andThen read_u16_le (\<lambda>num_elem.
     andSeq (if 0 < unat num_elem then skip (unat num_elem * 5) else ok ()) (
     andThen read_fdo (\<lambda>fdo.
     andThen read_bytes_with_length (\<lambda>server_ccaps.
     andThen (lift_res (adjust_compile server_ccaps
        (c\<lparr>cp_charset_id := charset,
           cp_ncharset_id := (case fdo_ncharset fdo of None \<Rightarrow> cp_ncharset_id c | Some n \<Rightarrow> n)\<rparr>))) (\<lambda>c1.
     andThen read_bytes_with_length (\<lambda>server_rcaps.
     ok (\<lparr>pm_server_version = server_version, pm_server_flags = server_flags,
          pm_server_banner = Some banner, pm_server_compile_caps = server_ccaps,
          pm_server_runtime_caps = server_rcaps\<rparr>, adjust_runtime server_rcaps c1))))))))))))"

definition protocol_parse_message :: "capabilities \<Rightarrow> (protocol_message \<times> capabilities) reader" where
  "protocol_parse_message c =
     andThen read_u8 (\<lambda>msg_type.
       if msg_type \<noteq> message_type_byte MsgProtocol then fail (UnexpectedPacketType Data Data)
       else protocol_parse_body c)"

definition protocol_parse_response :: "u8 list \<Rightarrow> capabilities \<Rightarrow> (protocol_message \<times> capabilities) result" where
  "protocol_parse_response payload c =
     fst (andSeq (skip 2) (protocol_parse_message c) (rbuf_new payload))"

subsection \<open>The data types message\<close>

definition data_type_fields :: "data_type_definition \<Rightarrow> unit writer list" where
  "data_type_fields d =
     [write_u16_be (dt_data_type d), write_u16_be (dt_conv_data_type d),
      write_u16_be (dt_representation d), write_u16_be 0]"

definition data_types_encode :: "capabilities \<Rightarrow> unit writer" where
  "data_types_encode c =
     do_all ([write_u8 (message_type_byte MsgDataTypes), write_u16_le CHARSET_UTF8,
              write_u16_le CHARSET_UTF8, write_u8 (ENCODING_MULTI_BYTE OR ENCODING_CONV_LENGTH),
              write_bytes_with_length (Some (cp_compile_caps c)),
              write_bytes_with_length (Some (cp_runtime_caps c))]
             @ concat (map data_type_fields DATA_TYPES) @ [write_u16_be 0])"

definition data_types_build_request :: "capabilities \<Rightarrow> bool \<Rightarrow> u8 list result" where
  "data_types_build_request c large_sdu =
     build_packet Data large_sdu (do_all [write_u16_be END_OF_REQUEST, data_types_encode c])"

lemma read_u16_be_progress: "read_u16_be s = (Inr v, s') \<Longrightarrow> remaining s' < remaining s"
  by (auto simp: read_u16_be_def data_array_def rd_prim_defs split: if_splits prod.splits sum.splits)

function (sequential) data_types_parse_body :: "rbuf \<Rightarrow> unit result \<times> rbuf" where
  "data_types_parse_body s =
     andThen read_u16_be (\<lambda>data_type s1.
       if data_type = 0 then ok () s1
       else andThen read_u16_be (\<lambda>conv_data_type s2.
              if conv_data_type \<noteq> 0 then andThen (skip 4) (\<lambda>_. data_types_parse_body) s2
              else data_types_parse_body s2) s1) s"
  by pat_completeness auto
termination
  by (relation "measure remaining")
    (auto dest!: read_u16_be_progress skip_remaining)

declare data_types_parse_body.simps [simp del]

definition data_types_parse_message :: "unit reader" where
  "data_types_parse_message =
     andThen read_u8 (\<lambda>msg_type.
       if msg_type \<noteq> message_type_byte MsgDataTypes then fail (InvalidMessageType msg_type)
       else data_types_parse_body)"

definition data_types_parse_response :: "u8 list \<Rightarrow> unit result" where
  "data_types_parse_response payload = fst (andSeq (skip 2) data_types_parse_message (rbuf_new payload))"

end
