(* ===== verification/Crypto.thy ===== *)
theory Crypto
  imports Config Checked
begin

section \<open>Key derivation and encryption for authentication\<close>

text \<open>
  \<open>src/src/crypto.rs\<close>.  The primitives come from other crates and are the arguments of this
  theory, collected in a record: AES in CBC mode with a zero initial vector and no padding
  (\<open>None\<close> where the crate reports an error), PBKDF2 with HMAC-SHA512, the hash functions and
  the hexadecimal codec.  What the driver does around them, key lengths, padding, slices and the
  composition of the keys, is modelled.
\<close>

record crypto =
  aes_cbc_encrypt :: "u8 list \<Rightarrow> u8 list \<Rightarrow> u8 list option"
  aes_cbc_decrypt :: "u8 list \<Rightarrow> u8 list \<Rightarrow> u8 list option"
  pbkdf2_hmac_sha512 :: "u8 list \<Rightarrow> u8 list \<Rightarrow> u32 \<Rightarrow> nat \<Rightarrow> u8 list"
  sha512 :: "u8 list \<Rightarrow> u8 list"
  sha1 :: "u8 list \<Rightarrow> u8 list"
  md5 :: "u8 list \<Rightarrow> u8 list"
  hex_encode_upper :: "u8 list \<Rightarrow> string"
  hex_decode :: "string \<Rightarrow> string + u8 list"

subsection \<open>AES-CBC\<close>

definition key_error :: "string \<Rightarrow> nat \<Rightarrow> u8 list \<Rightarrow> error" where
  "key_error cipher n key =
     Protocol (cipher @ '' key must be '' @ show_nat n @ '' bytes, got '' @ show_nat (length key))"

definition cipher_length_error :: "u8 list \<Rightarrow> error" where
  "cipher_length_error ciphertext =
     Protocol (''Ciphertext length must be a multiple of 16 bytes, got '' @ show_nat (length ciphertext))"

definition aes_encrypt :: "crypto \<Rightarrow> u8 list \<Rightarrow> u8 list \<Rightarrow> u8 list result" where
  "aes_encrypt cr key buffer =
     (case aes_cbc_encrypt cr key buffer of
        Some c \<Rightarrow> Inr c | None \<Rightarrow> Inl (Err (Protocol ''AES encryption failed'')))"

definition aes_decrypt :: "crypto \<Rightarrow> u8 list \<Rightarrow> u8 list \<Rightarrow> u8 list result" where
  "aes_decrypt cr key buffer =
     (case aes_cbc_decrypt cr key buffer of
        Some c \<Rightarrow> Inr c | None \<Rightarrow> Inl (Err (Protocol ''AES decryption failed'')))"

definition encrypt_cbc_256_internal :: "crypto \<Rightarrow> u8 list \<Rightarrow> u8 list \<Rightarrow> bool \<Rightarrow> u8 list result" where
  "encrypt_cbc_256_internal cr key plaintext use_pkcs7 =
     (if length key \<noteq> 32 then Inl (Err (key_error ''AES-256'' 32 key))
      else let remainder = length plaintext mod 16;
               padding_len = (if remainder = 0 \<and> \<not> use_pkcs7 then 0
                              else if remainder = 0 \<and> use_pkcs7 then 16
                              else 16 - remainder);
               buffer = plaintext @ (if 0 < padding_len
                 then (if use_pkcs7 then replicate padding_len (of_nat padding_len) else replicate padding_len 0)
                 else [])
           in aes_encrypt cr key buffer)"

definition encrypt_cbc_256 :: "crypto \<Rightarrow> u8 list \<Rightarrow> u8 list \<Rightarrow> u8 list result" where
  "encrypt_cbc_256 cr key plaintext = encrypt_cbc_256_internal cr key plaintext False"

definition encrypt_cbc_256_pkcs7 :: "crypto \<Rightarrow> u8 list \<Rightarrow> u8 list \<Rightarrow> u8 list result" where
  "encrypt_cbc_256_pkcs7 cr key plaintext = encrypt_cbc_256_internal cr key plaintext True"

definition decrypt_cbc_256 :: "crypto \<Rightarrow> u8 list \<Rightarrow> u8 list \<Rightarrow> u8 list result" where
  "decrypt_cbc_256 cr key ciphertext =
     (if length key \<noteq> 32 then Inl (Err (key_error ''AES-256'' 32 key))
      else if ciphertext = [] \<or> length ciphertext mod 16 \<noteq> 0 then Inl (Err (cipher_length_error ciphertext))
      else aes_decrypt cr key ciphertext)"

definition encrypt_cbc_192 :: "crypto \<Rightarrow> u8 list \<Rightarrow> u8 list \<Rightarrow> u8 list result" where
  "encrypt_cbc_192 cr key plaintext =
     (if length key \<noteq> 24 then Inl (Err (key_error ''AES-192'' 24 key))
      else let padding_len = 16 - length plaintext mod 16
           in aes_encrypt cr key (plaintext @ replicate padding_len (of_nat padding_len)))"

definition decrypt_cbc_192 :: "crypto \<Rightarrow> u8 list \<Rightarrow> u8 list \<Rightarrow> u8 list result" where
  "decrypt_cbc_192 cr key ciphertext =
     (if length key \<noteq> 24 then Inl (Err (key_error ''AES-192'' 24 key))
      else if ciphertext = [] \<or> length ciphertext mod 16 \<noteq> 0 then Inl (Err (cipher_length_error ciphertext))
      else aes_decrypt cr key ciphertext)"

subsection \<open>Verifiers\<close>

datatype verifier_type = V11g1 | V11g2 | V12c

definition verifier_type_try_from :: "u32 \<Rightarrow> verifier_type result" where
  "verifier_type_try_from value =
     (if value = 0xB152 then Inr V11g1
      else if value = 0x1B25 then Inr V11g2
      else if value = 0x4815 then Inr V12c
      else Inl (Err (UnsupportedVerifierType value)))"

definition pbkdf2_derive :: "crypto \<Rightarrow> u8 list \<Rightarrow> u8 list \<Rightarrow> u32 \<Rightarrow> nat \<Rightarrow> u8 list" where
  "pbkdf2_derive cr password salt iterations n = pbkdf2_hmac_sha512 cr password salt iterations n"

definition SPEEDY_KEY :: "u8 list" where
  "SPEEDY_KEY = bytes_of_text ''AUTH_PBKDF2_SPEEDY_KEY''"

definition generate_12c_password_key :: "crypto \<Rightarrow> u8 list \<Rightarrow> u8 list \<Rightarrow> u32 \<Rightarrow> u8 list" where
  "generate_12c_password_key cr password verifier_data iterations =
     pbkdf2_derive cr password (verifier_data @ SPEEDY_KEY) iterations 64"

definition generate_12c_password_hash :: "crypto \<Rightarrow> u8 list \<Rightarrow> u8 list \<Rightarrow> u32 \<Rightarrow> u8 list result" where
  "generate_12c_password_hash cr password verifier_data iterations =
     slice_at (sha512 cr (generate_12c_password_key cr password verifier_data iterations @ verifier_data)) 0 32"

definition generate_11g_password_hash :: "crypto \<Rightarrow> u8 list \<Rightarrow> u8 list \<Rightarrow> u8 list" where
  "generate_11g_password_hash cr password verifier_data = sha1 cr (password @ verifier_data) @ replicate 4 0"

definition generate_12c_combo_key ::
  "crypto \<Rightarrow> u8 list \<Rightarrow> u8 list \<Rightarrow> u8 list \<Rightarrow> u32 \<Rightarrow> u8 list result" where
  "generate_12c_combo_key cr session_key_part_a session_key_part_b salt iterations =
     res_bind (slice_at session_key_part_b 0 32) (\<lambda>b.
     res_bind (slice_at session_key_part_a 0 32) (\<lambda>a.
     Inr (pbkdf2_derive cr (bytes_of_text (hex_encode_upper cr b @ hex_encode_upper cr a)) salt iterations 32)))"

text \<open>The loop \<open>for i in 0..24\<close> over both parts.\<close>

definition xor_parts :: "u8 list \<Rightarrow> u8 list \<Rightarrow> u8 list result" where
  "xor_parts a b =
     (if 40 \<le> length a \<and> 40 \<le> length b
      then Inr (map (\<lambda>i. a ! (16 + i) XOR b ! (16 + i)) [0..<24]) else Inl Panic)"

definition generate_11g_combo_key :: "crypto \<Rightarrow> u8 list \<Rightarrow> u8 list \<Rightarrow> u8 list result" where
  "generate_11g_combo_key cr session_key_part_a session_key_part_b =
     res_bind (xor_parts session_key_part_a session_key_part_b) (\<lambda>xored.
       Inr (take 24 (md5 cr (take 16 xored) @ md5 cr (drop 16 xored))))"

end
