(* ===== verification/Auth.thy ===== *)
theory Auth
  imports Crypto Capabilities PacketBuild
begin

section \<open>Authentication\<close>

text \<open>
  \<open>src/src/messages/auth.rs\<close>: the two phases of the login.  The environment (terminal, program
  and machine names, the user, the process id, the time zone, the upper-casing of the user name)
  and the random bytes that are drawn are arguments.  The debug trace has no effect on the state.
\<close>

subsection \<open>The environment\<close>

record auth_env =
  env_terminal :: string
  env_program :: string
  env_machine :: string
  env_osuser :: string
  env_pid :: string
  env_uppercase :: "string \<Rightarrow> string"
  env_ora_sdtz :: "string option"
  env_local_offset :: int

text \<open>The bytes of \<open>generate_session_key_part\<close> and of the two salts.\<close>

record auth_draws =
  draw_session_key :: "nat \<Rightarrow> u8 list"
  draw_password_salt :: "u8 list"
  draw_speedy_salt :: "u8 list"

definition CARGO_PKG_VERSION :: string where "CARGO_PKG_VERSION = ''0.1.6''"

subsection \<open>Session data\<close>

record session_data =
  sd_auth_sesskey :: "string option"
  sd_auth_vfr_data :: "string option"
  sd_auth_pbkdf2_csk_salt :: "string option"
  sd_auth_pbkdf2_vgen_count :: "u32 option"
  sd_auth_pbkdf2_sder_count :: "u32 option"
  sd_auth_version_no :: "u32 option"
  sd_auth_globally_unique_dbid :: "string option"
  sd_auth_svr_response :: "string option"

text \<open>Each key of the map sets its own field, so the order of the map's iteration is immaterial.\<close>

definition session_data_from_pairs :: "(string \<rightharpoonup> string) \<Rightarrow> session_data" where
  "session_data_from_pairs pairs =
     \<lparr>sd_auth_sesskey = pairs ''AUTH_SESSKEY'',
      sd_auth_vfr_data = pairs ''AUTH_VFR_DATA'',
      sd_auth_pbkdf2_csk_salt = pairs ''AUTH_PBKDF2_CSK_SALT'',
      sd_auth_pbkdf2_vgen_count = Option.bind (pairs ''AUTH_PBKDF2_VGEN_COUNT'') parse_u32,
      sd_auth_pbkdf2_sder_count = Option.bind (pairs ''AUTH_PBKDF2_SDER_COUNT'') parse_u32,
      sd_auth_version_no = Option.bind (pairs ''AUTH_VERSION_NO'') parse_u32,
      sd_auth_globally_unique_dbid = pairs ''AUTH_GLOBALLY_UNIQUE_DBID'',
      sd_auth_svr_response = pairs ''AUTH_SVR_RESPONSE''\<rparr>"

subsection \<open>The message\<close>

datatype auth_phase = PhaseOne | PhaseTwo | PhaseComplete

record auth_message =
  au_username :: string
  au_password :: "u8 list"
  au_phase :: auth_phase
  au_auth_mode :: u32
  au_session_data :: session_data
  au_verifier_type :: u32
  au_combo_key :: "u8 list option"
  au_client_session_key :: "u8 list option"
  au_terminal :: string
  au_program :: string
  au_machine :: string
  au_osuser :: string
  au_pid :: string
  au_driver_name :: string
  au_service_name :: string
  au_sequence_number :: u8

definition auth_new :: "auth_env \<Rightarrow> string \<Rightarrow> u8 list \<Rightarrow> string \<Rightarrow> auth_message" where
  "auth_new env username password service =
     \<lparr>au_username = env_uppercase env username, au_password = password, au_phase = PhaseOne,
      au_auth_mode = AUTH_LOGON OR AUTH_WITH_PASSWORD,
      au_session_data = session_data_from_pairs Map.empty, au_verifier_type = 0,
      au_combo_key = None, au_client_session_key = None, au_terminal = env_terminal env,
      au_program = env_program env, au_machine = env_machine env, au_osuser = env_osuser env,
      au_pid = env_pid env, au_driver_name = ''oracle-rs : '' @ CARGO_PKG_VERSION @ '' thn'',
      au_service_name = service, au_sequence_number = 1\<rparr>"

definition auth_set_sequence_number :: "u8 \<Rightarrow> auth_message \<Rightarrow> auth_message" where
  "auth_set_sequence_number n a = a\<lparr>au_sequence_number := n\<rparr>"

definition with_sysdba :: "auth_message \<Rightarrow> auth_message" where
  "with_sysdba a = a\<lparr>au_auth_mode := au_auth_mode a OR AUTH_SYSDBA\<rparr>"

definition with_sysoper :: "auth_message \<Rightarrow> auth_message" where
  "with_sysoper a = a\<lparr>au_auth_mode := au_auth_mode a OR AUTH_SYSOPER\<rparr>"

definition auth_is_complete :: "auth_message \<Rightarrow> bool" where
  "auth_is_complete a \<longleftrightarrow> au_phase a = PhaseComplete"

definition clear_password :: "auth_message \<Rightarrow> auth_message" where
  "clear_password a = a\<lparr>au_password := []\<rparr>"

subsection \<open>Keys and secrets\<close>

definition required :: "error \<Rightarrow> 'a option \<Rightarrow> 'a result" where
  "required e x = (case x of Some a \<Rightarrow> Inr a | None \<Rightarrow> Inl (Err e))"

definition decode_hex :: "crypto \<Rightarrow> string \<Rightarrow> string \<Rightarrow> u8 list result" where
  "decode_hex cr what text =
     (case hex_decode cr text of
        Inl e \<Rightarrow> Inl (Err (Protocol (''Invalid '' @ what @ '' hex: '' @ e))) | Inr bs \<Rightarrow> Inr bs)"

text \<open>The verifiers set the client's key before they may still fail.\<close>

type_synonym 'a auth_action = "(auth_message, error, 'a) action"

definition modify :: "('s \<Rightarrow> 's) \<Rightarrow> ('s, 'e, unit) action" where
  "modify f = (\<lambda>s. (Inr (), f s))"

definition generate_12c_verifier ::
  "crypto \<Rightarrow> auth_draws \<Rightarrow> u8 list \<Rightarrow> u8 list \<Rightarrow> unit auth_action" where
  "generate_12c_verifier cr draws vfr_data server_key = (\<lambda>a.
     (let sd = au_session_data a in
      andThen (lift_res (required (AuthenticationFailed ''Missing AUTH_PBKDF2_VGEN_COUNT'') (sd_auth_pbkdf2_vgen_count sd))) (\<lambda>iterations.
      andThen (lift_res (generate_12c_password_hash cr (au_password a) vfr_data iterations)) (\<lambda>password_hash.
      andThen (lift_res (decrypt_cbc_256 cr password_hash server_key)) (\<lambda>part_a.
      let part_b = draw_session_key draws (length part_a) in
      andThen (lift_res (encrypt_cbc_256_pkcs7 cr password_hash part_b)) (\<lambda>client_key.
      andSeq (modify (\<lambda>a. a\<lparr>au_client_session_key := Some client_key\<rparr>)) (
      andThen (lift_res (required (AuthenticationFailed ''Missing AUTH_PBKDF2_CSK_SALT'') (sd_auth_pbkdf2_csk_salt sd))) (\<lambda>csk_salt.
      andThen (lift_res (decode_hex cr ''CSK_SALT'' csk_salt)) (\<lambda>csk_salt_bytes.
      andThen (lift_res (required (AuthenticationFailed ''Missing AUTH_PBKDF2_SDER_COUNT'') (sd_auth_pbkdf2_sder_count sd))) (\<lambda>sder_count.
      andThen (lift_res (generate_12c_combo_key cr part_a part_b csk_salt_bytes sder_count)) (\<lambda>combo_key.
      modify (\<lambda>a. a\<lparr>au_combo_key := Some combo_key\<rparr>))))))))))) a)"

definition generate_11g_verifier ::
  "crypto \<Rightarrow> auth_draws \<Rightarrow> u8 list \<Rightarrow> u8 list \<Rightarrow> unit auth_action" where
  "generate_11g_verifier cr draws vfr_data server_key = (\<lambda>a.
     (let password_hash = generate_11g_password_hash cr (au_password a) vfr_data in
      andThen (lift_res (decrypt_cbc_192 cr password_hash server_key)) (\<lambda>part_a.
      let part_b = draw_session_key draws (length part_a) in
      andThen (lift_res (encrypt_cbc_192 cr password_hash part_b)) (\<lambda>client_key.
      andSeq (modify (\<lambda>a. a\<lparr>au_client_session_key := Some client_key\<rparr>)) (
      andThen (lift_res (generate_11g_combo_key cr part_a part_b)) (\<lambda>combo_key.
      modify (\<lambda>a. a\<lparr>au_combo_key := Some combo_key\<rparr>)))))) a)"

definition generate_verifier :: "crypto \<Rightarrow> auth_draws \<Rightarrow> unit auth_action" where
  "generate_verifier cr draws = (\<lambda>a.
     (let sd = au_session_data a in
      andThen (lift_res (required (AuthenticationFailed ''Missing AUTH_VFR_DATA'') (sd_auth_vfr_data sd))) (\<lambda>vfr_data.
      andThen (lift_res (decode_hex cr ''AUTH_VFR_DATA'' vfr_data)) (\<lambda>vfr_bytes.
      andThen (lift_res (required (AuthenticationFailed ''Missing AUTH_SESSKEY'') (sd_auth_sesskey sd))) (\<lambda>server_key.
      andThen (lift_res (decode_hex cr ''AUTH_SESSKEY'' server_key)) (\<lambda>server_key_bytes.
      if au_verifier_type a = VERIFIER_V12C then generate_12c_verifier cr draws vfr_bytes server_key_bytes
      else if au_verifier_type a = VERIFIER_V11G_1 \<or> au_verifier_type a = VERIFIER_V11G_2
      then generate_11g_verifier cr draws vfr_bytes server_key_bytes
      else fail (UnsupportedVerifierType (au_verifier_type a))))))) a)"

definition encode_password :: "crypto \<Rightarrow> auth_draws \<Rightarrow> auth_message \<Rightarrow> string result" where
  "encode_password cr draws a =
     res_bind (required (Protocol ''Combo key not generated'') (au_combo_key a)) (\<lambda>combo_key.
     let password_with_salt = draw_password_salt draws @ au_password a in
     res_bind (if au_verifier_type a = VERIFIER_V12C then encrypt_cbc_256_pkcs7 cr combo_key password_with_salt
               else encrypt_cbc_192 cr combo_key password_with_salt) (\<lambda>encrypted.
     Inr (hex_encode_upper cr encrypted)))"

definition generate_speedy_key :: "crypto \<Rightarrow> auth_draws \<Rightarrow> auth_message \<Rightarrow> string option result" where
  "generate_speedy_key cr draws a =
     (if au_verifier_type a \<noteq> VERIFIER_V12C then Inr None
      else
        res_bind (required (Protocol ''Combo key not generated'') (au_combo_key a)) (\<lambda>combo_key.
        res_bind (required (AuthenticationFailed ''Missing AUTH_VFR_DATA'') (sd_auth_vfr_data (au_session_data a))) (\<lambda>vfr_data.
        res_bind (decode_hex cr ''AUTH_VFR_DATA'' vfr_data) (\<lambda>vfr_bytes.
        res_bind (required (AuthenticationFailed ''Missing iterations'') (sd_auth_pbkdf2_vgen_count (au_session_data a))) (\<lambda>iterations.
        let password_key = pbkdf2_derive cr (au_password a) (vfr_bytes @ SPEEDY_KEY) iterations 64 in
        res_bind (encrypt_cbc_256_pkcs7 cr combo_key (draw_speedy_salt draws @ password_key)) (\<lambda>encrypted.
        res_bind (slice_at encrypted 0 80) (\<lambda>first. Inr (Some (hex_encode_upper cr first)))))))))"

definition SERVER_TO_CLIENT :: "u8 list" where
  "SERVER_TO_CLIENT = bytes_of_text ''SERVER_TO_CLIENT''"

definition verify_server_response :: "crypto \<Rightarrow> auth_message \<Rightarrow> unit result" where
  "verify_server_response cr a =
     (case sd_auth_svr_response (au_session_data a) of
        None \<Rightarrow> Inr ()
      | Some response \<Rightarrow>
          res_bind (required (Protocol ''Combo key not available'') (au_combo_key a)) (\<lambda>combo_key.
          res_bind (decode_hex cr ''server response'' response) (\<lambda>encrypted.
          res_bind (if au_verifier_type a = VERIFIER_V12C then decrypt_cbc_256 cr combo_key encrypted
                    else decrypt_cbc_192 cr combo_key encrypted) (\<lambda>decrypted.
          if 32 \<le> length decrypted \<and> take 16 (drop 16 decrypted) = SERVER_TO_CLIENT then Inr ()
          else Inl (Err (AuthenticationFailed ''Invalid server response''))))))"

text \<open>The offset of the local time zone; hours and minutes are truncated towards zero.\<close>

definition get_alter_timezone_statement :: "auth_env \<Rightarrow> string" where
  "get_alter_timezone_statement env =
     (case env_ora_sdtz env of
        Some tz \<Rightarrow> ''ALTER SESSION SET TIME_ZONE='' @ [CHR 0x27] @ tz @ [CHR 0x27] @ [CHR 0x00]
      | None \<Rightarrow>
          let hours = env_local_offset env sdiv 3600;
              minutes = \<bar>env_local_offset env\<bar> mod 3600 div 60;
              sign = (if 0 \<le> hours then CHR ''+'' else CHR ''-'')
          in ''ALTER SESSION SET TIME_ZONE='' @ [CHR 0x27] @ [sign] @ pad_zeros 2 (show_nat (nat \<bar>hours\<bar>))
             @ '':'' @ pad_zeros 2 (show_nat (nat minutes)) @ [CHR 0x27] @ [CHR 0x00])"

definition client_version_string :: string where
  "client_version_string =
     (let parts = List.map_filter parse_u32 (split_char CHR ''.'' CARGO_PKG_VERSION);
          part = (\<lambda>i. if i < length parts then parts ! i else 0);
          packed = push_bit 24 (part 0) OR push_bit 20 (part 1) OR push_bit 12 (part 2) :: u32
      in show_nat (unat packed))"

subsection \<open>Requests\<close>

definition write_key_value :: "string \<Rightarrow> string \<Rightarrow> u32 \<Rightarrow> unit writer" where
  "write_key_value key val flags =
     do_all ([write_ub4 (of_nat (length key)), write_bytes_with_length (Some (bytes_of_text key)),
              write_ub4 (of_nat (length val))]
             @ (if val = [] then [] else [write_bytes_with_length (Some (bytes_of_text val))])
             @ [write_ub4 flags])"

definition write_auth_header :: "function_code \<Rightarrow> u8 \<Rightarrow> u8 \<Rightarrow> unit writer list" where
  "write_auth_header fn seq ver =
     [write_u8 (message_type_byte MsgFunction), write_u8 (function_code_byte fn), write_u8 seq, write_token ver]"

definition write_user :: "auth_message \<Rightarrow> unit writer list" where
  "write_user a = (if au_username a = [] then []
     else [write_bytes_with_length (Some (bytes_of_text (au_username a)))])"

definition write_phase_one_message :: "auth_message \<Rightarrow> u8 \<Rightarrow> unit writer" where
  "write_phase_one_message a ver =
     do_all (write_auth_header FnAuthPhaseOne (au_sequence_number a) ver
       @ [write_u8 (if au_username a \<noteq> [] then 1 else 0), write_ub4 (of_nat (length (au_username a))),
          write_ub4 (au_auth_mode a), write_u8 1, write_ub4 5, write_u8 0, write_u8 1]
       @ write_user a
       @ [write_key_value ''AUTH_TERMINAL'' (au_terminal a) 0,
          write_key_value ''AUTH_PROGRAM_NM'' (au_program a) 0,
          write_key_value ''AUTH_MACHINE'' (au_machine a) 0,
          write_key_value ''AUTH_PID'' (au_pid a) 0,
          write_key_value ''AUTH_SID'' (au_osuser a) 0])"

definition write_phase_two_message ::
  "crypto \<Rightarrow> auth_env \<Rightarrow> auth_draws \<Rightarrow> auth_message \<Rightarrow> u8 \<Rightarrow> u8 list \<Rightarrow> string \<Rightarrow> unit writer" where
  "write_phase_two_message cr env draws a ver session_key encoded_password =
     do_all (write_auth_header FnAuthPhaseTwo 2 ver
       @ [write_u8 (if au_username a \<noteq> [] then 1 else 0), write_ub4 (of_nat (length (au_username a))),
          write_ub4 (au_auth_mode a OR AUTH_WITH_PASSWORD), write_u8 1,
          write_ub4 (if au_verifier_type a = VERIFIER_V12C then 7 else 6), write_u8 1, write_u8 1]
       @ write_user a
       @ [let session_key_hex = hex_encode_upper cr session_key;
              key_len = (if au_verifier_type a = VERIFIER_V12C then 64 else 96)
          in write_key_value ''AUTH_SESSKEY'' (take (min key_len (length session_key_hex)) session_key_hex) 1,
          if au_verifier_type a = VERIFIER_V12C
          then andThen (lift_res (generate_speedy_key cr draws a)) (\<lambda>speedy.
                 case speedy of Some k \<Rightarrow> write_key_value ''AUTH_PBKDF2_SPEEDY_KEY'' k 0 | None \<Rightarrow> ok ())
          else ok (),
          write_key_value ''AUTH_PASSWORD'' encoded_password 0,
          write_key_value ''SESSION_CLIENT_CHARSET'' ''873'' 0,
          write_key_value ''SESSION_CLIENT_DRIVER_NAME'' (au_driver_name a) 0,
          write_key_value ''SESSION_CLIENT_VERSION'' client_version_string 0,
          write_key_value ''AUTH_ALTER_SESSION'' (get_alter_timezone_statement env) 1])"

definition build_phase_one :: "auth_message \<Rightarrow> u8 \<Rightarrow> bool \<Rightarrow> u8 list result" where
  "build_phase_one a ver large_sdu =
     build_packet Data large_sdu (do_all [write_u16_be END_OF_REQUEST, write_phase_one_message a ver])"

definition build_phase_two ::
  "crypto \<Rightarrow> auth_env \<Rightarrow> auth_draws \<Rightarrow> auth_message \<Rightarrow> u8 \<Rightarrow> bool \<Rightarrow> u8 list result" where
  "build_phase_two cr env draws a ver large_sdu =
     res_bind (encode_password cr draws a) (\<lambda>encoded_password.
     res_bind (required (Protocol ''Client session key not generated'') (au_client_session_key a)) (\<lambda>session_key.
     build_packet Data large_sdu (do_all [write_u16_be END_OF_REQUEST,
       write_phase_two_message cr env draws a ver session_key encoded_password])))"

definition auth_build_request ::
  "crypto \<Rightarrow> auth_env \<Rightarrow> auth_draws \<Rightarrow> auth_message \<Rightarrow> u8 \<Rightarrow> bool \<Rightarrow> u8 list result" where
  "auth_build_request cr env draws a ver large_sdu =
     (case au_phase a of
        PhaseOne \<Rightarrow> build_phase_one a ver large_sdu
      | PhaseTwo \<Rightarrow> build_phase_two cr env draws a ver large_sdu
      | PhaseComplete \<Rightarrow> Inl (Err (Protocol ''Authentication already complete'')))"

subsection \<open>Responses\<close>

definition or_empty :: "string option \<Rightarrow> string" where
  "or_empty t = (case t of Some s \<Rightarrow> s | None \<Rightarrow> [])"

text \<open>One parameter: its key, its value and its flags.\<close>

definition read_pair :: "(string \<times> string \<times> u32) reader" where
  "read_pair =
     andSeq skip_ub4 (
     andThen read_string_with_length (\<lambda>key.
     andThen read_ub4 (\<lambda>value_len.
     andThen (if 0 < value_len then fmap or_empty read_string_with_length else ok []) (\<lambda>val.
     andThen read_ub4 (\<lambda>flags. ok (or_empty key, val, flags))))))"

fun read_pairs :: "nat \<Rightarrow> (string \<rightharpoonup> string) \<Rightarrow> u32 \<Rightarrow> ((string \<rightharpoonup> string) \<times> u32) reader" where
  "read_pairs 0 pairs vtype = ok (pairs, vtype)"
| "read_pairs (Suc n) pairs vtype =
     andThen read_pair (\<lambda>(key, val, flags).
       read_pairs n (pairs(key \<mapsto> val)) (if key = ''AUTH_VFR_DATA'' then flags else vtype))"

definition auth_response_read :: "((string \<rightharpoonup> string) \<times> u32) reader" where
  "auth_response_read =
     andSeq (skip 2) (
     andThen read_u8 (\<lambda>msg_type.
     if msg_type = message_type_byte MsgError then fail (AuthenticationFailed ''Server returned error'')
     else andThen read_ub2 (\<lambda>num_params. read_pairs (unat num_params) Map.empty 0)))"

text \<open>The phase advances before the keys are made or the server's answer is verified.\<close>

definition auth_advance :: "crypto \<Rightarrow> auth_draws \<Rightarrow> unit auth_action" where
  "auth_advance cr draws = (\<lambda>a.
     (case au_phase a of
        PhaseOne \<Rightarrow> generate_verifier cr draws (a\<lparr>au_phase := PhaseTwo\<rparr>)
      | PhaseTwo \<Rightarrow>
          let a1 = a\<lparr>au_phase := PhaseComplete\<rparr> in (verify_server_response cr a1, a1)
      | PhaseComplete \<Rightarrow> (Inr (), a)))"

definition auth_parse_response ::
  "crypto \<Rightarrow> auth_draws \<Rightarrow> u8 list \<Rightarrow> unit auth_action" where
  "auth_parse_response cr draws payload = (\<lambda>a.
     (case fst (auth_response_read (rbuf_new payload)) of
        Inl e \<Rightarrow> (Inl e, a)
      | Inr (pairs, vtype) \<Rightarrow>
          auth_advance cr draws (a\<lparr>au_session_data := session_data_from_pairs pairs,
            au_verifier_type := (if vtype \<noteq> 0 then vtype else au_verifier_type a)\<rparr>)))"

end
