(* ===== verification/Session.thy ===== *)
theory Session
  imports Negotiation Auth StmtCache Results
begin

section \<open>The connection as a whole\<close>

text \<open>
  \<open>Connection\<close> and \<open>ConnectionInner\<close> of \<open>src/src/connection.rs\<close> in one record: the transport of
  theory Framing, the negotiated capabilities, what the server said of itself, the statement
  cache, the session state that piggybacks leave, the configuration, and the closed flag.  Each
  operation holds the mutex while it uses the state, so it is a state transformer; the mutex is
  never poisoned.  \<open>se_ticks\<close> counts the readings of the clock (\<open>Instant::now\<close>).
\<close>

record server_info =
  si_version :: string
  si_banner :: string
  si_session_id :: u32
  si_serial_number :: u32
  si_instance_name :: "string option"
  si_service_name :: "string option"
  si_database_name :: "string option"
  si_protocol_version :: u16
  si_supports_oob :: bool

definition server_info_default :: server_info where
  "server_info_default =
     \<lparr>si_version = [], si_banner = [], si_session_id = 0, si_serial_number = 0, si_instance_name = None,
      si_service_name = None, si_database_name = None, si_protocol_version = 0, si_supports_oob = False\<rparr>"

record 'm session =
  se_conn :: conn
  se_caps :: capabilities
  se_server_info :: server_info
  se_cache :: "'m stmt_cache option"
  se_state :: session_state
  se_config :: config
  se_closed :: bool
  se_ticks :: nat

type_synonym ('m, 'a) session_action = "('m session, error, 'a) action"

definition on_conn :: "'a conn_action \<Rightarrow> ('m, 'a) session_action" where
  "on_conn m = (\<lambda>s. case m (se_conn s) of (r, c) \<Rightarrow> (r, s\<lparr>se_conn := c\<rparr>))"

definition asks :: "('m session \<Rightarrow> 'a) \<Rightarrow> ('m, 'a) session_action" where
  "asks f = (\<lambda>s. (Inr (f s), s))"

definition set_state :: "conn_state \<Rightarrow> ('m, unit) session_action" where
  "set_state st = modify (\<lambda>s. s\<lparr>se_conn := (se_conn s)\<lparr>cn_state := st\<rparr>\<rparr>)"

definition set_caps :: "capabilities \<Rightarrow> ('m, unit) session_action" where
  "set_caps c = modify (\<lambda>s. s\<lparr>se_caps := c\<rparr>)"

definition set_banner :: "string \<Rightarrow> ('m, unit) session_action" where
  "set_banner b = modify (\<lambda>s. s\<lparr>se_server_info := (se_server_info s)\<lparr>si_banner := b\<rparr>\<rparr>)"

abbreviation se_large_sdu :: "'m session \<Rightarrow> bool" where
  "se_large_sdu s \<equiv> cn_large_sdu (se_conn s)"

abbreviation se_ver :: "'m session \<Rightarrow> u8" where
  "se_ver s \<equiv> cp_ttc_field_version (se_caps s)"

abbreviation conn_state_of :: "'m session \<Rightarrow> conn_state" where
  "conn_state_of s \<equiv> cn_state (se_conn s)"

lemmas session_action_defs = on_conn_def asks_def set_state_def set_caps_def set_banner_def modify_def

text \<open>Build a request from the state and send it.\<close>

definition send_built :: "('m session \<Rightarrow> u8 list result) \<Rightarrow> ('m, unit) session_action" where
  "send_built build = andThen (asks build) (\<lambda>r. andThen (lift_res r) (\<lambda>request. on_conn (conn_send request)))"

subsection \<open>Opening\<close>

text \<open>
  \<open>new_with_cache\<close>, with the stream that was opened: what the peer will send, and the error of
  writes, if they fail.
\<close>

definition conn_new :: "u8 list \<Rightarrow> string option \<Rightarrow> conn" where
  "conn_new incoming wfail =
     \<lparr>cn_open = True, cn_in = incoming, cn_out = [], cn_wfail = wfail, cn_state = Connected, cn_sdu = 8192,
      cn_large_sdu = False, cn_seq = 0\<rparr>"

definition session_new :: "'m index_map \<Rightarrow> config \<Rightarrow> u8 list \<Rightarrow> string option \<Rightarrow> 'm session result" where
  "session_new I config incoming wfail =
     res_bind capabilities_new (\<lambda>caps.
       Inr \<lparr>se_conn = conn_new incoming wfail, se_caps = caps, se_server_info = server_info_default,
            se_cache = (if 0 < cf_stmtcachesize config then Some (cache_new I (cf_stmtcachesize config)) else None),
            se_state = session_state_default, se_config = config, se_closed = False, se_ticks = 0\<rparr>)"

subsection \<open>Being ready\<close>

definition is_closed :: "'m session \<Rightarrow> bool" where
  "is_closed s = se_closed s"

definition mark_closed :: "'m session \<Rightarrow> 'm session" where
  "mark_closed s = s\<lparr>se_closed := True\<rparr>"

definition handle_result :: "'a result \<Rightarrow> 'm session \<Rightarrow> 'a result \<times> 'm session" where
  "handle_result r s =
     (case r of Inl (Err e) \<Rightarrow> if is_connection_error e then (r, mark_closed s) else (r, s) | _ \<Rightarrow> (r, s))"

definition ensure_ready :: "('m, unit) session_action" where
  "ensure_ready = (\<lambda>s.
     if is_closed s then (Inl (Err ConnectionClosed), s)
     else if conn_state_of s \<noteq> Ready then (Inl (Err ConnectionNotReady), s)
     else (Inr (), s))"

end
