(* ===== verification/Login.thy ===== *)
theory Login
  imports Session
begin

section \<open>Opening a connection\<close>

text \<open>
  \<open>perform_handshake\<close> of \<open>src/src/connection.rs\<close> and the steps it takes: CONNECT with its resends,
  the out-of-band check, the protocol and data types negotiation, and the login in its plain and
  its combined (\<open>fast auth\<close>) form.  A handshake that fails drops the connection with all its
  state, so what a failing step leaves behind is not observable.
\<close>

subsection \<open>CONNECT\<close>

definition MAX_RESENDS :: nat where "MAX_RESENDS = 3"

definition send_connect :: "u8 list \<Rightarrow> u8 list option \<Rightarrow> ('m, unit) session_action" where
  "send_connect connect_packet continuation =
     andSeq (on_conn (conn_send connect_packet))
       (case continuation of Some packet \<Rightarrow> on_conn (conn_send packet) | None \<Rightarrow> ok ())"

definition min_sdu :: "u32 \<Rightarrow> u16" where
  "min_sdu sdu = ucast (min sdu 65535)"

definition accept_connection :: "u8 list \<Rightarrow> ('m, unit) session_action" where
  "accept_connection response =
     andThen (lift_res (res_bind (packet_from_bytes response) accept_parse)) (\<lambda>acc.
     andThen (asks se_caps) (\<lambda>caps.
     andThen (lift_res (adjust_for_protocol (am_protocol_version acc) (am_service_options acc) (am_flags2 acc) caps)) (\<lambda>caps1.
     modify (\<lambda>s. s\<lparr>se_conn := (se_conn s)\<lparr>cn_large_sdu := uses_large_sdu acc, cn_sdu := min_sdu (am_sdu acc),
                      cn_state := Connected\<rparr>,
                   se_server_info := (se_server_info s)\<lparr>si_protocol_version := am_protocol_version acc,
                      si_supports_oob := am_supports_oob acc\<rparr>,
                   se_caps := caps1\<lparr>cp_sdu := am_sdu acc\<rparr>\<rparr>))))"

definition refuse_connection :: "u8 list \<Rightarrow> ('m, unit) session_action" where
  "refuse_connection response =
     andThen (lift_res (fst (andSeq read_u8 read_u8 (rbuf_new (drop PACKET_HEADER_SIZE response))))) (\<lambda>_.
       fail (ConnectionRefused None (Some ''Connection refused by server'')))"

function (sequential) connect_loop ::
  "u8 list \<Rightarrow> u8 list option \<Rightarrow> nat \<Rightarrow> 'm session \<Rightarrow> unit result \<times> 'm session" where
  "connect_loop connect_packet continuation resend_count s =
     andThen (on_conn conn_receive) (\<lambda>response.
       if length response < PACKET_HEADER_SIZE
       then fail (PacketTooShort PACKET_HEADER_SIZE (length response))
       else if response ! 4 = 2 then accept_connection response
       else if response ! 4 = 4 then refuse_connection response
       else if response ! 4 = 5 then fail (ConnectionRedirect ''redirect not implemented'')
       else if response ! 4 = 11 then
         (if MAX_RESENDS < resend_count + 1
          then fail (ProtocolError ''Server requested too many resends during connect'')
          else andThen (send_connect connect_packet continuation)
                 (\<lambda>_. connect_loop connect_packet continuation (resend_count + 1)))
       else fail (ProtocolError (''Unexpected packet type during connect: '' @ show_nat (unat (response ! 4))))) s"
  by pat_completeness auto
termination
  by (relation "measure (\<lambda>(_, _, n, _). MAX_RESENDS - n)") (auto simp: MAX_RESENDS_def)

declare connect_loop.simps [simp del]

definition send_connect_packet :: "('m, unit) session_action" where
  "send_connect_packet =
     andThen (asks (build_with_continuation \<circ> connect_from_config \<circ> se_config)) (\<lambda>r.
     andThen (lift_res r) (\<lambda>(connect_packet, continuation).
     andSeq (send_connect connect_packet continuation) (connect_loop connect_packet continuation 0)))"

subsection \<open>Out-of-band check\<close>

text \<open>Whatever packet comes back, the check succeeds.\<close>

definition send_oob_check :: "('m, unit) session_action" where
  "send_oob_check =
     andSeq (on_conn (conn_send [0x21])) (
     andSeq (on_conn (send_marker MARKER_TYPE_RESET)) (
     andThen (on_conn conn_receive) (\<lambda>response. ok ())))"

subsection \<open>Protocol and data types\<close>

definition is_data_packet :: "u8 list \<Rightarrow> bool" where
  "is_data_packet response \<longleftrightarrow> 4 < length response \<and> response ! 4 = packet_type_byte Data"

definition negotiate_protocol :: "('m, unit) session_action" where
  "negotiate_protocol =
     andSeq (send_built (\<lambda>s. protocol_build_request (se_large_sdu s))) (
     andThen (on_conn conn_receive) (\<lambda>response.
     if \<not> is_data_packet response then fail (ProtocolError ''Protocol negotiation failed'')
     else andThen (asks se_caps) (\<lambda>caps.
       andThen (lift_res (protocol_parse_response (drop PACKET_HEADER_SIZE response) caps)) (\<lambda>(msg, caps1).
       andSeq (set_caps caps1) (
       andSeq (case pm_server_banner msg of Some b \<Rightarrow> set_banner b | None \<Rightarrow> ok ())
         (set_state ProtocolNegotiated))))))"

definition negotiate_data_types :: "('m, unit) session_action" where
  "negotiate_data_types =
     andSeq (send_built (\<lambda>s. data_types_build_request (se_caps s) (se_large_sdu s))) (
     andThen (on_conn conn_receive) (\<lambda>response.
     if is_data_packet response then set_state DataTypesNegotiated
     else fail (ProtocolError ''Data types negotiation failed'')))"

subsection \<open>Authentication\<close>

definition login_service :: "config \<Rightarrow> string" where
  "login_service c = (case cf_service c of ServiceName s \<Rightarrow> s | Sid s \<Rightarrow> s)"

definition login_message :: "auth_env \<Rightarrow> config \<Rightarrow> auth_message" where
  "login_message env c = auth_new env (cf_username c) (bytes_of_text (cf_password c)) (login_service c)"

text \<open>The message type behind the header and the data flags, when there is one.\<close>

definition has_message :: "message_type \<Rightarrow> u8 list \<Rightarrow> bool" where
  "has_message t response \<longleftrightarrow> PACKET_HEADER_SIZE + 2 < length response
     \<and> response ! (PACKET_HEADER_SIZE + 2) = message_type_byte t"

definition lift_auth :: "'a auth_action \<Rightarrow> auth_message \<Rightarrow> ('m, auth_message) session_action" where
  "lift_auth m a = lift_res (case m a of (Inl e, _) \<Rightarrow> Inl e | (Inr _, a') \<Rightarrow> Inr a')"

definition send_auth :: "crypto \<Rightarrow> auth_env \<Rightarrow> auth_draws \<Rightarrow> auth_message \<Rightarrow> ('m, unit) session_action" where
  "send_auth cr env d a = send_built (\<lambda>s. auth_build_request cr env d a (se_ver s) (se_large_sdu s))"

definition authenticate_phase_two ::
  "crypto \<Rightarrow> auth_env \<Rightarrow> auth_draws \<Rightarrow> auth_message \<Rightarrow> ('m, auth_message) session_action" where
  "authenticate_phase_two cr env d a =
     (if au_phase a \<noteq> PhaseTwo then ok a
      else andSeq (send_auth cr env d a) (
        andThen (on_conn receive_response) (\<lambda>response.
        if length response \<le> PACKET_HEADER_SIZE then fail (Protocol ''Empty auth phase two response'')
        else if response ! 4 = packet_type_byte Marker
        then fail (AuthenticationFailed ''Server sent MARKER - authentication rejected'')
        else if has_message MsgError response then fail InvalidCredentials
        else lift_auth (auth_parse_response cr d (drop PACKET_HEADER_SIZE response)) a)))"

definition finish_authentication :: "auth_message \<Rightarrow> ('m, unit) session_action" where
  "finish_authentication a =
     (if \<not> auth_is_complete a then fail (AuthenticationFailed ''Authentication did not complete'')
      else modify (\<lambda>s. s\<lparr>se_caps := (case au_combo_key a of Some k \<Rightarrow> (se_caps s)\<lparr>cp_combo_key := Some k\<rparr>
                                      | None \<Rightarrow> se_caps s),
                         se_conn := (se_conn s)\<lparr>cn_seq := 2, cn_state := Ready\<rparr>\<rparr>))"

definition authenticate_phase_one ::
  "crypto \<Rightarrow> auth_env \<Rightarrow> auth_draws \<Rightarrow> auth_message \<Rightarrow> ('m, auth_message) session_action" where
  "authenticate_phase_one cr env d a =
     andSeq (send_auth cr env d a) (
     andThen (on_conn conn_receive) (\<lambda>response.
     if length response \<le> PACKET_HEADER_SIZE then fail (Protocol ''Empty auth response'')
     else if has_message MsgError response
     then fail (AuthenticationFailed ''Server rejected authentication phase one'')
     else lift_auth (auth_parse_response cr d (drop PACKET_HEADER_SIZE response)) a))"

definition authenticate :: "crypto \<Rightarrow> auth_env \<Rightarrow> auth_draws \<Rightarrow> ('m, unit) session_action" where
  "authenticate cr env d =
     andThen (asks (login_message env \<circ> se_config)) (\<lambda>a.
     andThen (authenticate_phase_one cr env d a) (\<lambda>a1.
     andThen (authenticate_phase_two cr env d a1) finish_authentication))"

subsection \<open>Fast authentication\<close>

definition fast_auth_request :: "auth_message \<Rightarrow> capabilities \<Rightarrow> bool \<Rightarrow> u8 list result" where
  "fast_auth_request a caps large_sdu =
     (let fast_auth_caps = caps\<lparr>cp_ttc_field_version := FIELD_VERSION_19_1_EXT_1\<rparr>
      in build_packet Data large_sdu (do_all
           [write_u16_be END_OF_REQUEST, write_u8 (message_type_byte MsgFastAuth), write_u8 1, write_u8 1, write_u8 0,
            protocol_encode, write_u16_be 0, write_u8 0, write_u16_be 0, write_u8 FIELD_VERSION_19_1_EXT_1,
            data_types_encode fast_auth_caps,
            write_phase_one_message a (cp_ttc_field_version fast_auth_caps)]))"

text \<open>
  The messages of the answer.  The loop ends because each message it goes on after was read from
  the buffer.
\<close>

definition rd_mono :: "'a reader \<Rightarrow> bool" where
  "rd_mono m \<longleftrightarrow> (\<forall>s a s'. rb_wf s \<longrightarrow> m s = (Inr a, s') \<longrightarrow> rb_wf s' \<and> remaining s' \<le> remaining s)"

named_theorems mono_intros

lemma rd_monoD: "rd_mono m \<Longrightarrow> rb_wf s \<Longrightarrow> m s = (Inr a, s') \<Longrightarrow> rb_wf s' \<and> remaining s' \<le> remaining s"
  by (simp add: rd_mono_def)

lemma rd_mono_post: "rd_post m Q \<Longrightarrow> rd_mono m"
  using rd_postD(1) rd_frame_wf rd_frame_remaining by (fastforce simp: rd_mono_def)

lemma rd_mono_safe: "rd_safe m \<Longrightarrow> rd_mono m"
  by (rule rd_mono_post)

lemma rd_mono_andThen [mono_intros]:
  assumes "rd_mono m" "\<And>a. rd_mono (f a)"
  shows "rd_mono (andThen m f)"
  unfolding rd_mono_def
proof (intro allI impI)
  fix s b s''
  assume s: "rb_wf s" "andThen m f s = (Inr b, s'')"
  then obtain a s' where a: "m s = (Inr a, s')" "f a s' = (Inr b, s'')"
    by (auto simp: andThen_apply split: prod.splits sum.splits)
  show "rb_wf s'' \<and> remaining s'' \<le> remaining s"
    using rd_monoD [OF assms(1) s(1) a(1)] rd_monoD [OF assms(2) _ a(2)] by auto
qed

lemma rd_mono_andSeq [mono_intros]: "rd_mono m \<Longrightarrow> rd_mono k \<Longrightarrow> rd_mono (andSeq m k)"
  by (simp add: andSeq_def rd_mono_andThen)

lemma rd_mono_basic [mono_intros]: "rd_mono (ok a)" "rd_mono (fail e)" "rd_mono (lift_res r)"
  by (auto simp: rd_mono_def action_apply)

lemma rd_mono_if [mono_intros]: "(c \<Longrightarrow> rd_mono m) \<Longrightarrow> (\<not> c \<Longrightarrow> rd_mono k) \<Longrightarrow> rd_mono (if c then m else k)"
  by simp

lemma rd_mono_fmap [mono_intros]: "rd_mono m \<Longrightarrow> rd_mono (fmap g m)"
  by (simp add: fmap_def rd_mono_andThen rd_mono_basic)

lemma rd_read_until_null [rd_intros]: "rd_safe (read_until_null acc)"
  unfolding rd_post_def
proof
  fix s
  show "rd_at (read_until_null acc) s (\<lambda>_. True)"
  proof (induction acc s rule: read_until_null.induct)
    case (1 acc s)
    show ?case
      by (rule rd_at_unfold [OF read_until_null.simps], intro rd_at_andThen [OF rd_at_post [OF rd_read_u8]])
        (auto intro!: rd_at_if rd_at_post [OF rd_post_ok] "1.IH")
  qed
qed

lemma rd_data_types_parse_body [rd_intros]: "rd_safe data_types_parse_body"
  unfolding rd_post_def
proof
  fix s
  show "rd_at data_types_parse_body s (\<lambda>_. True)"
  proof (induction s rule: data_types_parse_body.induct)
    case (1 s)
    show ?case
      by (rule rd_at_unfold [OF data_types_parse_body.simps], intro rd_at_andThen [OF rd_at_post [OF rd_read_u16_be]])
        (intro rd_at_if rd_at_andThen [OF rd_at_post [OF rd_read_u16_be]]
          rd_at_andThen [OF rd_at_post [OF rd_skip]] rd_at_post [OF rd_post_ok]; (rule TrueI | erule (4) "1.IH" | erule (3) "1.IH"))
  qed
qed

lemma rd_mono_protocol_body: "rd_mono (protocol_parse_body c)"
  unfolding protocol_parse_body_def read_fdo_def read_null_terminated_string_def
  by (intro mono_intros; rule rd_mono_safe; intro rd_intros TrueI)

lemma after_u8_progress:
  assumes "0 < remaining s" "andThen read_u8 f s = (Inr a, s')" "\<And>b. rd_mono (f b)"
  shows "remaining s' < remaining s"
proof -
  have wf: "rb_wf s" using assms(1) by (simp add: rb_wf_def remaining_def)
  obtain b s1 where b: "read_u8 s = (Inr b, s1)" "f b s1 = (Inr a, s')"
    using assms(2) by (auto simp: andThen_apply split: prod.splits sum.splits)
  have "rb_wf s1" using rd_monoD [OF rd_mono_post [OF rd_read_u8] wf b(1)] by simp
  then show ?thesis using rd_monoD [OF assms(3) _ b(2)] read_u8_progress [OF b(1)] by simp
qed

lemma protocol_message_progress:
  "0 < remaining s \<Longrightarrow> protocol_parse_message c s = (Inr a, s') \<Longrightarrow> remaining s' < remaining s"
  unfolding protocol_parse_message_def
  by (erule (1) after_u8_progress) (intro mono_intros rd_mono_protocol_body)

lemma data_types_message_progress:
  "0 < remaining s \<Longrightarrow> data_types_parse_message s = (Inr a, s') \<Longrightarrow> remaining s' < remaining s"
  unfolding data_types_parse_message_def
  by (erule (1) after_u8_progress) (intro mono_intros rd_mono_post [OF rd_data_types_parse_body])

text \<open>What ended the loop: a wish to negotiate again, the answer to phase one, or neither.\<close>

datatype fast_outcome = FastRenegotiate | FastAnswered auth_message | FastNone

function (sequential) fast_auth_loop ::
  "crypto \<Rightarrow> auth_draws \<Rightarrow> u8 list \<Rightarrow> auth_message \<Rightarrow> rbuf \<Rightarrow> 'm session
     \<Rightarrow> fast_outcome result \<times> 'm session" where
  "fast_auth_loop cr d flags a buf s =
     (if remaining buf = 0 then (Inr FastNone, s)
      else case peek_u8 buf of
        (Inl e, _) \<Rightarrow> (Inl e, s)
      | (Inr msg_type, _) \<Rightarrow>
          if msg_type = message_type_byte MsgProtocol then
            (case protocol_parse_message (se_caps s) buf of
               (Inl e, _) \<Rightarrow> (Inl e, s)
             | (Inr (msg, caps), buf') \<Rightarrow>
                 fast_auth_loop cr d flags a buf'
                   (s\<lparr>se_caps := caps, se_conn := (se_conn s)\<lparr>cn_state := ProtocolNegotiated\<rparr>,
                      se_server_info := (case pm_server_banner msg of
                        Some b \<Rightarrow> (se_server_info s)\<lparr>si_banner := b\<rparr> | None \<Rightarrow> se_server_info s)\<rparr>))
          else if msg_type = message_type_byte MsgDataTypes then
            (case data_types_parse_message buf of
               (Inl e, _) \<Rightarrow> (Inl e, s)
             | (Inr _, buf') \<Rightarrow>
                 fast_auth_loop cr d flags a buf' (s\<lparr>se_conn := (se_conn s)\<lparr>cn_state := DataTypesNegotiated\<rparr>\<rparr>))
          else if msg_type = message_type_byte MsgRenegotiate then (Inr FastRenegotiate, s)
          else if msg_type = message_type_byte MsgParameter \<or> msg_type = message_type_byte MsgError then
            (case auth_parse_response cr d (flags @ drop (rb_pos buf) (rb_data buf)) a of
               (Inl e, _) \<Rightarrow> (Inl e, s) | (Inr _, a') \<Rightarrow> (Inr (FastAnswered a'), s))
          else if msg_type = message_type_byte MsgStatus \<or> msg_type = message_type_byte MsgEndOfResponse
          then (Inr FastNone, s)
          else (Inl (Err (ProtocolError (''Unexpected fast auth response message type ''
                  @ show_nat (unat msg_type)))), s))"
  by pat_completeness auto
termination
  by (relation "measure (\<lambda>(_, _, _, _, buf, _). remaining buf)")
    (auto dest: protocol_message_progress [OF _ sym] data_types_message_progress [OF _ sym])

declare fast_auth_loop.simps [simp del]

definition authenticate_with_fast_auth ::
  "crypto \<Rightarrow> auth_env \<Rightarrow> auth_draws \<Rightarrow> ('m, bool) session_action" where
  "authenticate_with_fast_auth cr env d =
     andThen (asks (login_message env \<circ> se_config)) (\<lambda>a.
     andSeq (send_built (\<lambda>s. fast_auth_request a (se_caps s) (se_large_sdu s))) (
     andThen (on_conn receive_response) (\<lambda>response.
     if length response \<le> PACKET_HEADER_SIZE then fail (Protocol ''Empty fast auth response'')
     else let payload = drop PACKET_HEADER_SIZE response in
       if length payload < 3 then fail (Protocol ''Fast auth response too short'')
       else andThen (fast_auth_loop cr d (take 2 payload) a (rbuf_new (drop 2 payload))) (\<lambda>outcome.
         case outcome of
           FastRenegotiate \<Rightarrow> ok False
         | FastNone \<Rightarrow> fail (AuthenticationFailed ''Fast auth did not produce a usable phase one response'')
         | FastAnswered a1 \<Rightarrow>
             if au_phase a1 \<noteq> PhaseTwo
             then fail (AuthenticationFailed ''Fast auth did not produce a usable phase one response'')
             else andThen (authenticate_phase_two cr env d a1) (\<lambda>a2.
                    andSeq (finish_authentication a2) (ok True))))))"

subsection \<open>The handshake\<close>

definition needs_oob_check :: "'m session \<Rightarrow> bool" where
  "needs_oob_check s \<longleftrightarrow> VERSION_MIN_OOB_CHECK \<le> si_protocol_version (se_server_info s)
     \<and> si_supports_oob (se_server_info s)"

definition login_steps :: "crypto \<Rightarrow> auth_env \<Rightarrow> auth_draws \<Rightarrow> bool \<Rightarrow> ('m, unit) session_action" where
  "login_steps cr env d supports_fast_auth =
     (if supports_fast_auth
      then andThen (authenticate_with_fast_auth cr env d) (\<lambda>finished.
             if finished then ok () else andSeq negotiate_data_types (authenticate cr env d))
      else andSeq negotiate_protocol (andSeq negotiate_data_types (authenticate cr env d)))"

definition perform_handshake :: "crypto \<Rightarrow> auth_env \<Rightarrow> auth_draws \<Rightarrow> ('m, unit) session_action" where
  "perform_handshake cr env d =
     andSeq send_connect_packet (
     andThen (asks needs_oob_check) (\<lambda>oob.
     andSeq (if oob then send_oob_check else ok ()) (
     andThen (asks (cp_supports_fast_auth \<circ> se_caps)) (login_steps cr env d))))"

text \<open>
  \<open>connect_with_config\<close>: the socket, its options and the TLS handshake are the environment's
  (\<open>dial\<close>); it gives the stream, or the error it met.
\<close>

definition connect_with_config ::
  "'m index_map \<Rightarrow> crypto \<Rightarrow> auth_env \<Rightarrow> auth_draws \<Rightarrow> (config \<Rightarrow> (u8 list \<times> string option) result) \<Rightarrow> config
     \<Rightarrow> 'm session result" where
  "connect_with_config I cr env d dial config =
     res_bind (dial config) (\<lambda>(incoming, wfail).
     res_bind (session_new I config incoming wfail) (\<lambda>s.
       case perform_handshake cr env d s of (Inl e, _) \<Rightarrow> Inl e | (Inr _, s') \<Rightarrow> Inr s'))"

definition connect_to ::
  "'m index_map \<Rightarrow> crypto \<Rightarrow> auth_env \<Rightarrow> auth_draws \<Rightarrow> (config \<Rightarrow> (u8 list \<times> string option) result)
     \<Rightarrow> string \<Rightarrow> string \<Rightarrow> string \<Rightarrow> 'm session result" where
  "connect_to I cr env d dial connect_string username password =
     res_bind (config_from_str connect_string) (\<lambda>c.
       connect_with_config I cr env d dial (set_password password (c\<lparr>cf_username := username\<rparr>)))"

end
