(* ===== verification/CapabilityLaws.thy ===== *)
theory CapabilityLaws
  imports Capabilities
begin

section \<open>Properties of the capabilities\<close>

text \<open>
  The invariant of the negotiation: the arrays keep their lengths, the field version in the
  array is the field version of the record, and the bit that asks for end-of-response markers is
  set exactly when the connection relies on them.
\<close>

lemmas caps_consts = ccap_index_defs rcap_index_defs ccap_value_defs rcap_value_defs charset_defs
  version_defs service_options_defs accept_flags_defs

definition caps_wf :: "capabilities \<Rightarrow> bool" where
  "caps_wf c \<longleftrightarrow>
     length (cp_compile_caps c) = CCAP_MAX \<and> length (cp_runtime_caps c) = RCAP_MAX
     \<and> cp_compile_caps c ! CCAP_FIELD_VERSION = cp_ttc_field_version c
     \<and> cp_ttc_field_version c \<le> FIELD_VERSION_MAX
     \<and> (cp_compile_caps c ! CCAP_TTC4 AND CCV_END_OF_REQUEST \<noteq> 0 \<longleftrightarrow> cp_supports_end_of_response c)
     \<and> (cp_supports_end_of_response c \<longrightarrow> cp_supports_pipelining c)
     \<and> cp_max_string_size c \<in> {4000, 32767}"

lemmas caps_bounds = CCAP_MAX_def RCAP_MAX_def CCAP_FIELD_VERSION_def CCAP_TTC4_def CCV_END_OF_REQUEST_def

lemma capabilities_new_eq:
  "\<exists>c. capabilities_new = Inr c \<and> caps_wf c \<and> cp_ttc_field_version c = FIELD_VERSION_MAX"
proof -
  have "capabilities_new = Inr (case capabilities_new of Inr c \<Rightarrow> c | Inl _ \<Rightarrow> capabilities_blank)"
    by code_simp
  moreover have "caps_wf (case capabilities_new of Inr c \<Rightarrow> c | Inl _ \<Rightarrow> capabilities_blank)"
    unfolding caps_wf_def by code_simp
  moreover have "cp_ttc_field_version (case capabilities_new of Inr c \<Rightarrow> c | Inl _ \<Rightarrow> capabilities_blank)
      = FIELD_VERSION_MAX"
    by code_simp
  ultimately show ?thesis by blast
qed

lemma and_or_bits: "(v OR bits) AND bits = (bits :: u8)"
  by (simp add: and.commute bit.conj_disj_distrib)

lemma and_not_bits: "(v AND NOT bits) AND bits = (0 :: u8)"
  by (simp add: and.assoc)

lemma set_bits_wf:
  assumes "caps_wf c"
  shows "\<exists>c'. set_bits CCAP_TTC4 CCV_END_OF_REQUEST c = Inr c' \<and>
    caps_wf (c'\<lparr>cp_supports_end_of_response := True, cp_supports_pipelining := True\<rparr>)"
  using assms and_or_bits [of "cp_compile_caps c ! CCAP_TTC4" CCV_END_OF_REQUEST]
  by (auto simp: caps_wf_def set_bits_def caps_bounds)

lemma clear_bits_wf:
  assumes "caps_wf c"
  shows "\<exists>c'. clear_bits CCAP_TTC4 CCV_END_OF_REQUEST c = Inr c' \<and>
    caps_wf (c'\<lparr>cp_supports_end_of_response := False\<rparr>) \<and>
    cp_ttc_field_version c' = cp_ttc_field_version c"
  using assms and_not_bits [of "cp_compile_caps c ! CCAP_TTC4" CCV_END_OF_REQUEST]
  by (auto simp: caps_wf_def clear_bits_def caps_bounds)

lemma adjust_for_protocol_wf:
  assumes "caps_wf c"
  shows "\<exists>c'. adjust_for_protocol v opts flags c = Inr c' \<and> caps_wf c'"
proof -
  let ?c = "c\<lparr>cp_protocol_version := v, cp_protocol_options := opts,
      cp_supports_oob := (opts AND CAN_RECV_ATTENTION \<noteq> 0),
      cp_supports_fast_auth := (flags AND ACCEPT_FAST_AUTH \<noteq> 0 \<or> cp_supports_fast_auth c)\<rparr>"
  have "caps_wf ?c" using assms by (simp add: caps_wf_def)
  then show ?thesis
    using set_bits_wf [of ?c] by (auto simp: adjust_for_protocol_def Let_def)
qed

lemma adjust_field_version_wf:
  assumes "caps_wf c"
  shows "\<exists>c1. adjust_field_version server_caps c = Inr c1 \<and> caps_wf c1
    \<and> cp_ttc_field_version c1 = (if CCAP_FIELD_VERSION < length server_caps
        then min (cp_ttc_field_version c) (server_caps ! CCAP_FIELD_VERSION) else cp_ttc_field_version c)
    \<and> cp_supports_end_of_response c1 = cp_supports_end_of_response c"
proof (cases "CCAP_FIELD_VERSION < length server_caps \<and> server_caps ! CCAP_FIELD_VERSION < cp_ttc_field_version c")
  case True
  let ?v = "server_caps ! CCAP_FIELD_VERSION"
  let ?c = "c\<lparr>cp_ttc_field_version := ?v, cp_compile_caps := (cp_compile_caps c)[CCAP_FIELD_VERSION := ?v]\<rparr>"
  have "adjust_field_version server_caps c = Inr ?c"
    using True assms by (simp add: adjust_field_version_def caps_wf_def caps_bounds Let_def)
  moreover have "caps_wf ?c"
    using True assms by (simp add: caps_wf_def caps_bounds) (metis order.strict_implies_order order_trans)
  moreover have "min (cp_ttc_field_version c) ?v = ?v" using True by (intro min_absorb2 less_imp_le) simp
  ultimately show ?thesis using True by simp
next
  case False
  then have "adjust_field_version server_caps c = Inr c" by (auto simp: adjust_field_version_def)
  then show ?thesis using False assms by (auto simp: min_def)
qed

lemma adjust_for_server_compile_caps_wf:
  assumes "caps_wf c"
  shows "\<exists>c'. adjust_for_server_compile_caps server_caps c = Inr c' \<and> caps_wf c'
    \<and> cp_ttc_field_version c' = (if CCAP_FIELD_VERSION < length server_caps
        then min (cp_ttc_field_version c) (server_caps ! CCAP_FIELD_VERSION) else cp_ttc_field_version c)
    \<and> (cp_supports_end_of_response c' \<longleftrightarrow>
        cp_supports_end_of_response c \<and> FIELD_VERSION_23_4 \<le> cp_ttc_field_version c')"
proof -
  obtain c1 where c1: "adjust_field_version server_caps c = Inr c1" "caps_wf c1"
    "cp_ttc_field_version c1 = (if CCAP_FIELD_VERSION < length server_caps
        then min (cp_ttc_field_version c) (server_caps ! CCAP_FIELD_VERSION) else cp_ttc_field_version c)"
    "cp_supports_end_of_response c1 = cp_supports_end_of_response c"
    using adjust_field_version_wf [OF assms] by blast
  let ?c2 = "adjust_boundaries server_caps c1"
  have c2: "caps_wf ?c2" "cp_ttc_field_version ?c2 = cp_ttc_field_version c1"
    "cp_supports_end_of_response ?c2 = cp_supports_end_of_response c1"
    using c1(2) by (auto simp: adjust_boundaries_def caps_wf_def)
  obtain c3 where c3: "clear_bits CCAP_TTC4 CCV_END_OF_REQUEST ?c2 = Inr c3"
    "caps_wf (c3\<lparr>cp_supports_end_of_response := False\<rparr>)" "cp_ttc_field_version c3 = cp_ttc_field_version ?c2"
    using clear_bits_wf [OF c2(1)] by blast
  show ?thesis
    using c1 c2 c3
    by (auto simp: adjust_for_server_compile_caps_def drop_end_of_response_def min_less_iff_disj not_less)
qed

lemma adjust_for_server_runtime_caps_wf:
  "caps_wf c \<Longrightarrow> caps_wf (adjust_for_server_runtime_caps server_caps c)"
  by (auto simp: adjust_for_server_runtime_caps_def caps_wf_def)

text \<open>
  The states of the negotiation: the client's own capabilities, any adjustments in any order, and
  the fields that the handshake sets beside them.
\<close>

inductive negotiated :: "capabilities \<Rightarrow> bool" where
  fresh: "capabilities_new = Inr c \<Longrightarrow> negotiated c"
| protocol: "negotiated c \<Longrightarrow> adjust_for_protocol v opts flags c = Inr c' \<Longrightarrow> negotiated c'"
| compile: "negotiated c \<Longrightarrow> adjust_for_server_compile_caps s c = Inr c' \<Longrightarrow> negotiated c'"
| runtime: "negotiated c \<Longrightarrow> negotiated (adjust_for_server_runtime_caps s c)"
| others: "negotiated c \<Longrightarrow>
    negotiated (c\<lparr>cp_charset_id := cs, cp_ncharset_id := ncs, cp_sdu := sdu, cp_combo_key := key\<rparr>)"

lemma negotiated_wf: "negotiated c \<Longrightarrow> caps_wf c"
proof (induction rule: negotiated.induct)
  case (fresh c)
  then show ?case using capabilities_new_eq by (metis sum.inject(2))
next
  case (protocol c v opts flags c')
  then show ?case using adjust_for_protocol_wf [of c v opts flags] by auto
next
  case (compile c s c')
  then show ?case using adjust_for_server_compile_caps_wf [of c s] by auto
next
  case (runtime c s)
  then show ?case by (rule_tac adjust_for_server_runtime_caps_wf)
next
  case (others c cs ncs sdu key)
  then show ?case by (simp add: caps_wf_def)
qed



text \<open>
  Negotiation takes the lower field version, and keeps the end-of-response markers that the
  ACCEPT packet offered only from field version 23.4 on.
\<close>

theorem field_version_negotiated:
  assumes "negotiated c" "CCAP_FIELD_VERSION < length server_caps"
  shows "\<exists>c'. adjust_for_server_compile_caps server_caps c = Inr c'
    \<and> cp_ttc_field_version c' = min (cp_ttc_field_version c) (server_caps ! CCAP_FIELD_VERSION)
    \<and> (cp_supports_end_of_response c' \<longleftrightarrow>
        cp_supports_end_of_response c \<and> FIELD_VERSION_23_4 \<le> cp_ttc_field_version c')"
  using adjust_for_server_compile_caps_wf [OF negotiated_wf [OF assms(1)], of server_caps] assms(2) by auto

theorem field_version_negotiated_witness:
  "\<exists>c c'. adjust_for_server_compile_caps [6, 1, 1, 1, 1, 1, 1, 12] c = Inr c' \<and> cp_ttc_field_version c' = 12"
proof -
  obtain c where c: "capabilities_new = Inr c" "cp_ttc_field_version c = FIELD_VERSION_MAX"
    using capabilities_new_eq by blast
  then have "negotiated c" by (auto intro: negotiated.fresh)
  from field_version_negotiated [OF this, of "[6, 1, 1, 1, 1, 1, 1, 12]"] show ?thesis
    by (auto simp: c(2) CCAP_FIELD_VERSION_def FIELD_VERSION_MAX_def min_def)
qed

text \<open>
  Withdrawing the markers leaves the pipelining flag that was set with them: a server that
  offers them and then announces an older field version ends with pipelining still on.
\<close>

lemma pipelining_outlives_end_of_response:
  assumes "caps_wf c" "adjust_for_protocol 319 0 ACCEPT_HAS_END_OF_RESPONSE c = Inr c1"
    "adjust_for_server_compile_caps server_caps c1 = Inr c2"
    "CCAP_FIELD_VERSION < length server_caps" "server_caps ! CCAP_FIELD_VERSION < FIELD_VERSION_23_4"
  shows "cp_supports_pipelining c2 \<and> \<not> cp_supports_end_of_response c2"
proof -
  have p: "cp_supports_pipelining c1"
    using assms(2) by (auto simp: adjust_for_protocol_def VERSION_MIN_END_OF_RESPONSE_def Let_def
      ACCEPT_HAS_END_OF_RESPONSE_def set_bits_def res_bind_Inr_iff)
  have "caps_wf c1" using adjust_for_protocol_wf [OF assms(1), of 319 0 ACCEPT_HAS_END_OF_RESPONSE] assms(2) by auto
  from adjust_for_server_compile_caps_wf [OF this, of server_caps] assms(3-5)
  have "\<not> cp_supports_end_of_response c2" by (auto simp: min_def not_le split: if_splits)
  moreover have "cp_supports_pipelining c2"
    using p assms(3) by (auto simp: adjust_for_server_compile_caps_def adjust_field_version_def
      adjust_boundaries_def drop_end_of_response_def clear_bits_def res_bind_Inr_iff Let_def split: if_splits)
  ultimately show ?thesis by simp
qed

end
