(* ===== verification/HandshakeLaws.thy ===== *)
theory HandshakeLaws
  imports Negotiation CapabilityLaws
begin

section \<open>Properties of the configuration and of the handshake's messages\<close>

subsection \<open>Searching and splitting text\<close>

text \<open>A pattern whose first character does not come again is found where it is put.\<close>

lemma find_text_first:
  assumes "find_text (c # p) pre = None" "c \<notin> set p"
  shows "find_text (c # p) (pre @ (c # p) @ post) = Some (length pre)"
  using assms(1)
proof (induction pre)
  case Nil
  show ?case by (subst find_text.simps) simp
next
  case (Cons x pre)
  have n: "take (length (c # p)) (x # pre) \<noteq> c # p" "find_text (c # p) pre = None"
    using Cons.prems by (subst (asm) find_text.simps, simp split: if_splits)+
  have "take (length (c # p)) ((x # pre) @ (c # p) @ post) \<noteq> c # p"
  proof (cases "length (c # p) \<le> length (x # pre)")
    case True
    then show ?thesis using n(1) by simp
  next
    case False
    show ?thesis
    proof
      assume e: "take (length (c # p)) ((x # pre) @ (c # p) @ post) = c # p"
      have l: "Suc (length pre) < length (c # p)" using False by simp
      have "(c # p) ! Suc (length pre) = take (length (c # p)) ((x # pre) @ (c # p) @ post) ! Suc (length pre)"
        by (simp only: e)
      also have "\<dots> = c" using l by (simp add: nth_append)
      finally have "p ! length pre = c" by simp
      moreover have "length pre < length p" using l by simp
      ultimately show False using assms(2) by (metis nth_mem)
    qed
  qed
  then show ?case using Cons.IH [OF n(2)] by (subst find_text.simps) simp
qed

lemma find_char_None: "find_char c s = None \<longleftrightarrow> c \<notin> set s"
proof (induction s)
  case Nil
  show ?case by (simp add: find_char_def find_text.simps)
next
  case (Cons x s)
  then show ?case by (subst find_char_def, subst find_text.simps) (auto simp: find_char_def)
qed

lemma find_char_first: "c \<notin> set pre \<Longrightarrow> find_char c (pre @ c # post) = Some (length pre)"
  using find_text_first [of c "[]" pre post] find_char_None [of c pre] by (simp add: find_char_def)

lemma text_after_first:
  assumes "find_text (c # p) pre = None" "c \<notin> set p" "CHR '')'' \<notin> set v"
  shows "text_after (c # p) (pre @ (c # p) @ v @ CHR '')'' # post) = Some v"
  using find_text_first [OF assms(1,2), of "v @ CHR '')'' # post"] find_char_first [OF assms(3), of post]
  by (simp add: text_after_def)

lemma split_char_plain: "c \<notin> set a \<Longrightarrow> split_char c a = [a]"
  by (induction a) auto

lemma split_char_at: "c \<notin> set a \<Longrightarrow> split_char c (a @ c # b) = a # split_char c b"
  by (induction a) auto

lemma show_nat_chars: "c \<in> set (show_nat n) \<Longrightarrow> is_digit_char c"
  using show_nat_digits [of n] by (auto simp: list_all_iff)

lemma not_in_show_nat [simp]:
  "CHR ''/'' \<notin> set (show_nat n)" "CHR '':'' \<notin> set (show_nat n)" "CHR '')'' \<notin> set (show_nat n)"
  by (auto dest!: show_nat_chars simp: is_digit_char_def)

lemma parse_unsigned_show: "n < bound \<Longrightarrow> parse_unsigned bound (show_nat n) = Some n"
proof -
  assume n: "n < bound"
  obtain x xs where s: "show_nat n = x # xs" by (cases "show_nat n") auto
  have "is_digit_char x" using show_nat_chars [of x n] by (simp add: s)
  then have "x \<noteq> CHR ''+''" by (auto simp: is_digit_char_def)
  then show ?thesis
    using n show_nat_digits [of n] nat_of_digits_show [of n] by (simp add: parse_unsigned_def s)
qed

lemma parse_u16_show [simp]: "parse_u16 (show_nat (unat p)) = Some p"
  using unat_less(2) [of p] by (simp add: parse_u16_def parse_unsigned_show)

lemma parse_u32_show [simp]: "parse_u32 (show_nat (unat n)) = Some n"
  using unat_less(3) [of n] by (simp add: parse_u32_def parse_unsigned_show)

subsection \<open>The configuration\<close>

text \<open>Host names and service names that EZConnect can carry.\<close>

definition plain_host :: "string \<Rightarrow> bool" where
  "plain_host h \<longleftrightarrow> h \<noteq> [] \<and> visible_char (hd h) \<and> hd h \<noteq> CHR ''(''
     \<and> CHR ''/'' \<notin> set h \<and> CHR '':'' \<notin> set h"

definition plain_service :: "service_method \<Rightarrow> bool" where
  "plain_service sv \<longleftrightarrow>
     (case sv of ServiceName s \<Rightarrow> s \<noteq> [] \<and> visible_char (last s)
      | Sid s \<Rightarrow> s \<noteq> [] \<and> visible_char (last s) \<and> CHR ''/'' \<notin> set s \<and> CHR '':'' \<notin> set s)"


lemma config_from_str_visible:
  assumes "plain_host h" "u \<noteq> []" "visible_char (last u)"
  shows "config_from_str (h @ u) =
    res_bind (case find_char CHR ''/'' (h @ u) of
        Some slash_pos \<Rightarrow> parse_service_form (h @ u) slash_pos
      | None \<Rightarrow> parse_colon_form (h @ u)) (\<lambda>c.
    if cf_host c = [] then Inl (Err (InvalidConnectionString ''missing host'')) else Inr c)"
proof -
  obtain x xs where h: "h = x # xs" using assms(1) by (cases h) (auto simp: plain_host_def)
  have "str_trim (h @ u) = h @ u"
    using assms by (intro str_trim_visible) (auto simp: plain_host_def)
  moreover have "dropWhile (\<lambda>c. c = CHR ''/'') (h @ u) = h @ u"
    using assms(1) by (auto simp: h plain_host_def)
  ultimately show ?thesis using assms(1) unfolding h append_Cons by (simp add: config_from_str_def plain_host_def Let_def)
qed

lemma displayed_service:
  assumes "plain_host h" "s \<noteq> []"
  shows "parse_service_form (h @ CHR '':'' # show_nat (unat p) @ CHR ''/'' # s)
      (length (h @ CHR '':'' # show_nat (unat p))) =
    Inr (config_default\<lparr>cf_host := h, cf_port := p, cf_service := ServiceName s\<rparr>)"
  using assms find_char_first [of "CHR '':''" h "show_nat (unat p)"]
  by (simp add: parse_service_form_def plain_host_def port_of_def)

lemma displayed_sid:
  assumes "plain_host h" "plain_service (Sid s)"
  shows "parse_colon_form (h @ CHR '':'' # show_nat (unat p) @ CHR '':'' # s) =
    Inr (config_default\<lparr>cf_host := h, cf_port := p, cf_service := Sid s\<rparr>)"
  using assms by (simp add: parse_colon_form_def plain_host_def plain_service_def split_char_at
    split_char_plain port_of_def)

text \<open>
  The text a configuration is displayed as parses back to its host, port and service, whether
  the service is a service name or a SID.
\<close>

theorem config_roundtrip:
  assumes "plain_host h" "plain_service sv"
  shows "config_from_str (display_config (config_of h p sv username password)) =
    Inr (config_default\<lparr>cf_host := h, cf_port := p, cf_service := sv\<rparr>)"
proof -
  have h: "h \<noteq> []" using assms(1) by (simp add: plain_host_def)
  show ?thesis
  proof (cases sv)
    case (ServiceName s)
    let ?u = "CHR '':'' # show_nat (unat p) @ CHR ''/'' # s"
    have s: "s \<noteq> []" "visible_char (last s)" using assms(2) by (auto simp: ServiceName plain_service_def)
    have "find_char CHR ''/'' (h @ ?u) = Some (length (h @ CHR '':'' # show_nat (unat p)))"
      using assms(1) find_char_first [of "CHR ''/''" "h @ CHR '':'' # show_nat (unat p)" s]
      by (simp add: plain_host_def)
    then show ?thesis
      using config_from_str_visible [OF assms(1), of ?u] displayed_service [OF assms(1) s(1)] s h
      by (simp add: ServiceName display_config_def config_of_def)
  next
    case (Sid s)
    let ?u = "CHR '':'' # show_nat (unat p) @ CHR '':'' # s"
    have s: "s \<noteq> []" "visible_char (last s)" "CHR ''/'' \<notin> set s"
      using assms(2) by (auto simp: Sid plain_service_def)
    then have "find_char CHR ''/'' (h @ ?u) = None"
      using assms(1) by (simp add: find_char_None plain_host_def)
    then show ?thesis
      using config_from_str_visible [OF assms(1), of ?u] displayed_sid [OF assms(1), of s] assms(2) s h
      by (simp add: Sid display_config_def config_of_def)
  qed
qed

theorem config_roundtrip_witness:
  "config_from_str (display_config (config_of ''db1'' 1522 (Sid ''ORCL'') ''scott'' ''tiger'')) =
    Inr (config_default\<lparr>cf_host := ''db1'', cf_port := 1522, cf_service := Sid ''ORCL''\<rparr>)"
proof -
  have "plain_host ''db1''" "plain_service (Sid ''ORCL'')" by code_simp+
  then show ?thesis by (rule config_roundtrip)
qed

subsection \<open>Addresses\<close>

definition address_of :: "string \<Rightarrow> string \<Rightarrow> u16 \<Rightarrow> string" where
  "address_of protocol host port =
     ''(ADDRESS=(PROTOCOL='' @ protocol @ '')(HOST='' @ host @ '')(PORT='' @ show_nat (unat port) @ ''))''"

text \<open>A host that an address can carry.\<close>

definition address_host :: "string \<Rightarrow> bool" where
  "address_host h \<longleftrightarrow> CHR '')'' \<notin> set h \<and> CHR ''='' \<notin> set h \<and> NUL \<notin> set h"

lemma find_text_extend:
  assumes "find_text pat a = None" "pat \<noteq> []" "last pat \<notin> set b"
  shows "find_text pat (a @ b) = None"
proof (rule ccontr)
  assume "find_text pat (a @ b) \<noteq> None"
  then obtain i where i: "i + length pat \<le> length (a @ b)" "take (length pat) (drop i (a @ b)) = pat"
    using find_text_Some [of pat "a @ b"] by auto
  let ?k = "i + (length pat - 1)"
  have k: "(a @ b) ! ?k = last pat"
  proof -
    have "last pat = take (length pat) (drop i (a @ b)) ! (length pat - 1)"
      using i(2) assms(2) by (simp add: last_conv_nth)
    also have "\<dots> = (a @ b) ! ?k" using i(1) assms(2) by (subst nth_take) (auto simp del: drop_append)
    finally show ?thesis by simp
  qed
  have "?k < length a"
  proof (rule ccontr)
    assume n: "\<not> ?k < length a"
    then have "(a @ b) ! ?k = b ! (?k - length a)" by (simp add: nth_append)
    moreover have "?k - length a < length b" using n i(1) assms(2) by (cases pat) auto
    ultimately have "(a @ b) ! ?k \<in> set b" by simp
    then show False using k assms(3) by simp
  qed
  then have "i + length pat \<le> length a" using assms(2) by (cases pat) auto
  then have "take (length pat) (drop i a) = pat" using i(2) by simp
  then show False using find_text_None [OF assms(1)] by blast
qed

lemma address_parts:
  assumes "protocol \<in> {''TCP'', ''TCPS''}" "address_host host"
  shows "extract_host_port (address_of protocol host port) = (Some host, Some port)"
proof -
  let ?a = "''(ADDRESS=(PROTOCOL='' @ protocol @ '')(''"
  let ?b = "''(ADDRESS=(PROTOCOL='' @ protocol @ '')(HOST=''"
  let ?c = "?b @ host @ '')(''"
  have a: "find_text ''HOST='' ?a = None" using assms(1) by (elim insertE; simp; code_simp)
  have b: "find_text ''PORT='' ?b = None" using assms(1) by (elim insertE; simp; code_simp)
  have c: "find_text ''PORT='' ?c = None"
    using assms(2) by (intro find_text_extend [OF b]) (auto simp: address_host_def)
  have h: "text_after ''HOST='' (address_of protocol host port) = Some host"
    using text_after_first [OF a, of host "''(PORT='' @ show_nat (unat port) @ ''))''"] assms(2)
    by (simp add: address_of_def address_host_def)
  have p: "text_after ''PORT='' (address_of protocol host port) = Some (show_nat (unat port))"
    using text_after_first [OF c, of "show_nat (unat port)" "'')''"]
    by (simp add: address_of_def)
  show ?thesis by (simp add: extract_host_port_def h p)
qed

subsection \<open>REDIRECT and REFUSE\<close>

definition message_packet :: "packet_type \<Rightarrow> u8 list \<Rightarrow> packet" where
  "message_packet t payload =
     \<lparr>pk_header = header_new t (of_nat (PACKET_HEADER_SIZE + length payload)), pk_payload = payload\<rparr>"

lemma parse_message_packet:
  assumes "reads m payload v"
  shows "parse_packet t m (message_packet t (payload @ post)) = Inr v"
  using reads_new [OF assms, of post]
  by (simp add: parse_packet_def message_packet_def is_packet_def header_new_def)

text \<open>A text behind its two-byte length.\<close>

definition counted :: "string \<Rightarrow> u8 list" where
  "counted data = be_bytes 2 (of_nat (length data) :: u16) @ bytes_of_text data"

lemma reads_remaining:
  assumes "reads m bs v" "n \<le> length bs"
  shows "reads (\<lambda>s. if has_remaining s n then m s else k s) bs v"
  using assms by (auto simp: reads_def has_remaining_def remaining_def)

lemma counted_length:
  assumes "0 < length data" "length data < 65536"
  shows "unat (of_nat (length data) :: u16) = length data" "(of_nat (length data) :: u16) \<noteq> 0"
proof -
  show u: "unat (of_nat (length data) :: u16) = length data"
    using assms(2) by (subst unat_of_nat) simp
  then show "(of_nat (length data) :: u16) \<noteq> 0" using assms(1) by (metis less_irrefl unat_0)
qed

lemma reads_lossy:
  assumes "is_str data"
  shows "reads (fmap (\<lambda>bytes. g (from_utf8_lossy bytes)) (read_bytes_vec (length data))) (bytes_of_text data) (g data)"
  by (rule reads_fmap [OF reads_bytes_vec]) (simp_all add: from_utf8_lossy_str assms)

lemma reads_redirect:
  assumes "is_str data" "0 < length data" "length data < 65536"
  shows "reads redirect_read (counted data) (redirect_of_data data)"
proof -
  have n: "unat (of_nat (length data) :: u16) = length data" "(of_nat (length data) :: u16) \<noteq> 0"
    by (rule counted_length [OF assms(2,3)])+
  have "reads (\<lambda>s. if has_remaining s (length data)
        then fmap (\<lambda>bytes. redirect_of_data (from_utf8_lossy bytes)) (read_bytes_vec (length data)) s
        else fail (Internal ''invalid redirect data length'') s)
      (bytes_of_text data) (redirect_of_data data)"
    by (rule reads_remaining [OF reads_lossy [OF assms(1)]]) simp
  then have "reads (\<lambda>s. if of_nat (length data) = (0 :: u16) \<or> \<not> has_remaining s (unat (of_nat (length data) :: u16))
        then fail (Internal ''invalid redirect data length'') s
        else fmap (\<lambda>bytes. redirect_of_data (from_utf8_lossy bytes))
               (read_bytes_vec (unat (of_nat (length data) :: u16))) s)
      (bytes_of_text data) (redirect_of_data data)"
    by (rule reads_state_eq [rotated]) (simp add: n)
  from reads_andThen [where f = "\<lambda>data_length s. if data_length = 0 \<or> \<not> has_remaining s (unat data_length)
       then fail (Internal ''invalid redirect data length'') s
       else fmap (\<lambda>bytes. redirect_of_data (from_utf8_lossy bytes)) (read_bytes_vec (unat data_length)) s",
     OF reads_be_bytes(1) this]
  show ?thesis by (simp add: redirect_read_def counted_def)
qed

lemma split_redirect_nul:
  "NUL \<notin> set a \<Longrightarrow> split_redirect (a @ NUL # cs) = (a, if cs = [] then None else Some cs)"
  by (simp add: split_redirect_def find_char_first)

lemma nul_not_in_address: "protocol \<in> {''TCP'', ''TCPS''} \<Longrightarrow> address_host host \<Longrightarrow> NUL \<notin> set (address_of protocol host port)"
  using show_nat_chars [of NUL "unat port"]
  by (auto simp: address_of_def address_host_def NUL_def is_digit_char_def)

text \<open>
  A REDIRECT packet that carries an address and a connect string gives them back, with the
  host and the port of the address and the socket address made of them.
\<close>

theorem redirect_parsed:
  assumes "protocol \<in> {''TCP'', ''TCPS''}" "address_host host"
    "is_str (address_of protocol host port @ NUL # cs)"
    "length (address_of protocol host port @ NUL # cs) < 65536"
  shows "\<exists>m. redirect_parse (message_packet Redirect (counted (address_of protocol host port @ NUL # cs) @ post)) = Inr m
    \<and> rm_address m = address_of protocol host port
    \<and> rm_connect_string m = (if cs = [] then None else Some cs)
    \<and> rm_host m = Some host \<and> rm_port m = Some port
    \<and> redirect_socket_addr m = Some (host @ '':'' @ show_nat (unat port))"
proof -
  let ?data = "address_of protocol host port @ NUL # cs"
  have "redirect_parse (message_packet Redirect (counted ?data @ post)) = Inr (redirect_of_data ?data)"
    unfolding redirect_parse_def using assms(3,4) by (intro parse_message_packet reads_redirect) auto
  then show ?thesis
    using split_redirect_nul [OF nul_not_in_address [OF assms(1,2)], of port cs] address_parts [OF assms(1,2), of port]
    by (simp add: redirect_of_data_def redirect_socket_addr_def)
qed

theorem redirect_parsed_witness:
  "\<exists>m. redirect_parse (message_packet Redirect (counted (address_of ''TCP'' ''rac1'' 1522 @ NUL # ''x'') @ [])) = Inr m
    \<and> rm_host m = Some ''rac1'' \<and> rm_port m = Some 1522"
proof -
  have h: "address_host ''rac1''" by code_simp
  have a: "is_str (address_of ''TCP'' ''rac1'' 1522 @ NUL # ''x'')"
    by (rule is_ascii_is_str) (simp add: address_of_def NUL_def is_ascii_def show_nat.simps)
  have "length (address_of ''TCP'' ''rac1'' 1522 @ NUL # ''x'') < 65536"
    by (simp add: address_of_def show_nat.simps)
  from redirect_parsed [OF _ h a this, of "[]"] show ?thesis by auto
qed

lemma reads_refuse:
  assumes "is_str data" "0 < length data" "length data < 65536" "length reason = 2"
  shows "reads refuse_read (reason @ counted data)
    \<lparr>rf_data = Some data, rf_error_code = extract_error_code data\<rparr>"
proof -
  have n: "unat (of_nat (length data) :: u16) = length data" "(of_nat (length data) :: u16) \<noteq> 0"
    by (rule counted_length [OF assms(2,3)])+
  let ?read = "\<lambda>n s. if 0 < unat n \<and> has_remaining s (unat n)
      then fmap (\<lambda>bytes. Some (from_utf8_lossy bytes)) (read_bytes_vec (unat n)) s else ok None s"
  have "reads (\<lambda>s. if has_remaining s (length data)
        then fmap (\<lambda>bytes. Some (from_utf8_lossy bytes)) (read_bytes_vec (length data)) s else ok None s)
      (bytes_of_text data) (Some data)"
    by (rule reads_remaining [OF reads_lossy [OF assms(1)]]) simp
  then have d: "reads (?read (of_nat (length data) :: u16)) (bytes_of_text data) (Some data)"
    by (rule reads_state_eq [rotated]) (use n assms(2) in simp)
  have "reads (andThen read_u16_be (\<lambda>n. andThen (?read n) (\<lambda>data.
      ok \<lparr>rf_data = data, rf_error_code = Option.bind data extract_error_code\<rparr>))) (counted data)
      \<lparr>rf_data = Some data, rf_error_code = extract_error_code data\<rparr>"
    unfolding counted_def
    by (rule reads_andThen [OF reads_be_bytes(1)], rule reads_andThen_Nil [OF d]) (simp add: reads_ok)
  then show ?thesis
    unfolding refuse_read_def andSeq_def by (rule reads_andThen [OF reads_skip [OF assms(4)]])
qed

text \<open>
  A REFUSE packet whose text carries \<open>(ERR=code)\<close> is reported with that code: as an unknown
  service, an unknown SID, or a refused connection, with the server's text in each case.
\<close>

theorem refuse_reported:
  assumes "find_text ''(ERR='' pre = None" "data = pre @ ''(ERR='' @ show_nat (unat code) @ CHR '')'' # rest"
    "is_str data" "length data < 65536" "length reason = 2"
  shows "\<exists>m. refuse_parse (message_packet Refuse (reason @ counted data @ post)) = Inr m
    \<and> refuse_into_error service m =
        (if code = 12514 then InvalidServiceName service (Some data)
         else if code = 12505 then InvalidSid service (Some data)
         else ConnectionRefused (Some code) (Some data))"
proof -
  have "extract_error_code data = Some code"
    using text_after_first [of "CHR ''(''" "''ERR=''" pre "show_nat (unat code)" rest] assms(1,2)
    by (simp add: extract_error_code_def)
  moreover have "refuse_parse (message_packet Refuse (reason @ counted data @ post)) =
      Inr \<lparr>rf_data = Some data, rf_error_code = extract_error_code data\<rparr>"
    unfolding refuse_parse_def append_assoc [symmetric]
    using assms(2-5) by (intro parse_message_packet reads_refuse) auto
  ultimately show ?thesis
    by (auto simp: refuse_into_error_def INVALID_SERVICE_NAME_def INVALID_SID_def)
qed

theorem refuse_reported_witness:
  "\<exists>m. refuse_parse (message_packet Refuse ([4, 0] @ counted ''(DESCRIPTION=(ERR=12514)(VSNNUM=0))'' @ [])) = Inr m
    \<and> refuse_into_error None m = InvalidServiceName None (Some ''(DESCRIPTION=(ERR=12514)(VSNNUM=0))'')"
proof -
  have n: "find_text ''(ERR='' ''(DESCRIPTION='' = None" by code_simp
  have e: "''(DESCRIPTION=(ERR=12514)(VSNNUM=0))'' = ''(DESCRIPTION='' @ ''(ERR='' @ show_nat (unat (12514 :: u32)) @ CHR '')'' # ''(VSNNUM=0))''"
  proof -
    have "show_nat 12514 = ''12514''" by (simp add: show_nat.simps char_of_def bit_0 bit_Suc_0_iff)
    then show ?thesis by simp
  qed
  have "is_str ''(DESCRIPTION=(ERR=12514)(VSNNUM=0))''"
    by (rule is_ascii_is_str) (simp add: is_ascii_def)
  from refuse_reported [OF n e this, of "[4, 0]" "[]" None] show ?thesis by simp
qed

end
