(* ===== verification/AuthLaws.thy ===== *)
theory AuthLaws
  imports Auth HandshakeLaws TextOps
begin

section \<open>Properties of the login\<close>

text \<open>
  What the primitives promise (the documented behaviour of the crates), the key/value layout, and
  the agreement of client and server on the keys of an O5LOGON login.
\<close>

subsection \<open>The primitives\<close>

text \<open>
  CBC without padding maps whole blocks to as many, decrypts what it encrypted, and the
  ciphertext of the leading blocks is the leading part of the ciphertext.
\<close>

definition cbc_ok :: "crypto \<Rightarrow> bool" where
  "cbc_ok cr \<longleftrightarrow>
     (\<forall>key x. length x mod 16 = 0 \<longrightarrow>
        (\<exists>c. aes_cbc_encrypt cr key x = Some c \<and> length c = length x \<and> aes_cbc_decrypt cr key c = Some x
           \<and> (\<forall>n. aes_cbc_encrypt cr key (take (16 * n) x) = Some (take (16 * n) c))))"

definition digests_ok :: "crypto \<Rightarrow> bool" where
  "digests_ok cr \<longleftrightarrow>
     (\<forall>p s i n. length (pbkdf2_hmac_sha512 cr p s i n) = n) \<and> (\<forall>x. length (sha512 cr x) = 64)
     \<and> (\<forall>x. length (sha1 cr x) = 20) \<and> (\<forall>x. length (md5 cr x) = 16)"

definition hex_ok :: "crypto \<Rightarrow> bool" where
  "hex_ok cr \<longleftrightarrow>
     (\<forall>bs. length (hex_encode_upper cr bs) = 2 * length bs \<and> is_ascii (hex_encode_upper cr bs)
        \<and> hex_decode cr (hex_encode_upper cr bs) = Inr bs)
     \<and> (\<forall>bs n. take (2 * n) (hex_encode_upper cr bs) = hex_encode_upper cr (take n bs))"

definition crypto_ok :: "crypto \<Rightarrow> bool" where
  "crypto_ok cr \<longleftrightarrow> cbc_ok cr \<and> digests_ok cr \<and> hex_ok cr"

definition draws_ok :: "auth_draws \<Rightarrow> bool" where
  "draws_ok d \<longleftrightarrow> (\<forall>n. length (draw_session_key d n) = n) \<and> length (draw_password_salt d) = 16
     \<and> length (draw_speedy_salt d) = 16"

lemma crypto_okD:
  assumes "crypto_ok cr"
  shows "length (pbkdf2_hmac_sha512 cr p s i n) = n" "length (sha512 cr x) = 64" "length (sha1 cr x) = 20"
    "length (md5 cr x) = 16" "length (hex_encode_upper cr bs) = 2 * length bs" "is_str (hex_encode_upper cr bs)"
    "hex_decode cr (hex_encode_upper cr bs) = Inr bs"
    "take (2 * k) (hex_encode_upper cr bs) = hex_encode_upper cr (take k bs)"
  using assms by (auto simp: crypto_ok_def digests_ok_def hex_ok_def intro: is_ascii_is_str)

lemma cbc_encrypt:
  assumes "crypto_ok cr" "length x mod 16 = 0"
  shows "\<exists>c. aes_cbc_encrypt cr key x = Some c \<and> length c = length x \<and> aes_cbc_decrypt cr key c = Some x
    \<and> (\<forall>n. aes_cbc_encrypt cr key (take (16 * n) x) = Some (take (16 * n) c))"
proof -
  have "cbc_ok cr" using assms(1) by (simp add: crypto_ok_def)
  from this [unfolded cbc_ok_def, rule_format, OF assms(2), of key] show ?thesis .
qed

text \<open>PKCS7: what is decrypted is the plaintext behind which the padding tells its own length.\<close>

definition pkcs7 :: "u8 list \<Rightarrow> u8 list" where
  "pkcs7 x = (let k = 16 - length x mod 16 in x @ replicate k (of_nat k))"

lemma length_pkcs7: "length (pkcs7 x) mod 16 = 0" "length x < length (pkcs7 x)"
proof -
  define m q where "m = length x mod 16" and "q = length x div 16"
  have m: "m < 16" unfolding m_def by simp
  have x: "length x = 16 * q + m" unfolding m_def q_def by simp
  have "length (pkcs7 x) = length x + (16 - m)" unfolding pkcs7_def Let_def m_def by simp
  then have "length (pkcs7 x) = 16 * (q + 1)" using m x by arith
  then show "length (pkcs7 x) mod 16 = 0" by simp
  show "length x < length (pkcs7 x)" by (simp add: pkcs7_def Let_def)
qed

lemma encrypt_256_pkcs7:
  assumes "crypto_ok cr" "length key = 32"
  shows "\<exists>c. encrypt_cbc_256_pkcs7 cr key x = Inr c \<and> length c = length (pkcs7 x)
    \<and> decrypt_cbc_256 cr key c = Inr (pkcs7 x)
    \<and> (\<forall>n. 0 < n \<and> 16 * n \<le> length x \<longrightarrow> decrypt_cbc_256 cr key (take (16 * n) c) = Inr (take (16 * n) x))"
proof -
  obtain c where c: "aes_cbc_encrypt cr key (pkcs7 x) = Some c" "length c = length (pkcs7 x)"
    "aes_cbc_decrypt cr key c = Some (pkcs7 x)"
    "\<And>n. aes_cbc_encrypt cr key (take (16 * n) (pkcs7 x)) = Some (take (16 * n) c)"
    using cbc_encrypt [OF assms(1) length_pkcs7(1)] by blast
  have e: "encrypt_cbc_256_pkcs7 cr key x = Inr c"
    using assms(2) c(1) mod_less_divisor [of 16 "length x"]
    by (cases "length x mod 16 = 0") (simp_all add: encrypt_cbc_256_pkcs7_def encrypt_cbc_256_internal_def
      aes_encrypt_def pkcs7_def Let_def)
  have "length c mod 16 = 0" "c \<noteq> []" using c(2) length_pkcs7 [of x] by auto
  then have d: "decrypt_cbc_256 cr key c = Inr (pkcs7 x)"
    using assms(2) c(3) by (simp add: decrypt_cbc_256_def aes_decrypt_def)
  have "decrypt_cbc_256 cr key (take (16 * n) c) = Inr (take (16 * n) x)" if n: "0 < n" "16 * n \<le> length x" for n
  proof -
    have t: "take (16 * n) (pkcs7 x) = take (16 * n) x" using n by (simp add: pkcs7_def Let_def)
    have l: "length (take (16 * n) x) = 16 * n" using n by simp
    obtain c' where c': "aes_cbc_encrypt cr key (take (16 * n) x) = Some c'" "length c' = 16 * n"
      "aes_cbc_decrypt cr key c' = Some (take (16 * n) x)"
      using cbc_encrypt [OF assms(1), of "take (16 * n) x" key] l by auto
    moreover have "c' = take (16 * n) c" using c(4) [of n] c'(1) t by simp
    ultimately show ?thesis
      using n assms(2) by (auto simp: decrypt_cbc_256_def aes_decrypt_def)
  qed
  with e d c(2) show ?thesis by blast
qed

subsection \<open>The key/value layout\<close>

definition pair_wire :: "string \<times> string \<times> u32 \<Rightarrow> u8 list" where
  "pair_wire p = (case p of (key, val, flags) \<Rightarrow>
     ub4_wire (of_nat (length key)) @ string_wire (Some key) @ ub4_wire (of_nat (length val))
     @ (if val = [] then [] else string_wire (Some val)) @ ub4_wire flags)"

definition pair_fits :: "string \<times> string \<times> u32 \<Rightarrow> bool" where
  "pair_fits p = (case p of (key, val, flags) \<Rightarrow> is_str key \<and> is_str val \<and> length val < 4294967296)"

lemma reads_skip_ub4: "reads skip_ub4 (ub4_wire v) ()"
  by (auto simp: skip_ub4_def ub4_wire_def intro!: reads_ub_len [OF refl] reads_intros)

lemma of_nat_u32_zero: "n < 4294967296 \<Longrightarrow> (of_nat n :: u32) = 0 \<longleftrightarrow> n = 0"
  by (auto simp: word_of_nat_eq_0_iff dest: dvd_imp_le)

lemma reads_pair:
  assumes "pair_fits p"
  shows "reads read_pair (pair_wire p) p"
proof -
  obtain key val flags where p: "p = (key, val, flags)" by (cases p)
  have s: "is_str key" "is_str val" "length val < 4294967296" using assms by (simp_all add: p pair_fits_def)
  have v: "reads (if 0 < (of_nat (length val) :: u32) then fmap or_empty read_string_with_length else ok [])
      (if val = [] then [] else string_wire (Some val)) val"
    using of_nat_u32_zero [OF s(3)] s(2)
    by (auto simp: word_neq_0_conv [symmetric] or_empty_def intro!: reads_ok reads_fmap reads_string_with_length)
  show ?thesis
    unfolding read_pair_def pair_wire_def p prod.case andSeq_def
    apply (rule reads_andThen [OF reads_skip_ub4], rule reads_andThen [OF reads_string_with_length])
    apply (simp add: s)
    apply (rule reads_andThen [OF reads_ub4], rule reads_andThen [OF v], rule reads_andThen_Nil [OF reads_ub4])
    apply (simp add: or_empty_def reads_ok)
    done
qed

lemma writes_pair: "writes (write_key_value key val flags) (pair_wire (key, val, flags))"
proof -
  have "writes (write_key_value key val flags)
      (concat ([ub4_wire (of_nat (length key)), string_wire (Some key), ub4_wire (of_nat (length val))]
        @ (if val = [] then [] else [string_wire (Some val)]) @ [ub4_wire flags]))"
    unfolding write_key_value_def
    by (rule writes_do_all) (auto simp: string_wire_def intro!: list_all2_appendI writes_ub4 writes_bytes_with_length)
  then show ?thesis by (auto simp: pair_wire_def)
qed

text \<open>A whole answer: data flags, the message type, the count and the pairs.\<close>

definition auth_body :: "(string \<times> string \<times> u32) list \<Rightarrow> u8 list" where
  "auth_body ps = message_type_byte MsgParameter # ub2_wire (of_nat (length ps)) @ concat (map pair_wire ps)"

definition auth_reply :: "u16 \<Rightarrow> (string \<times> string \<times> u32) list \<Rightarrow> u8 list" where
  "auth_reply f ps = be_bytes 2 f @ auth_body ps"

definition pairs_map :: "(string \<times> string \<times> u32) list \<Rightarrow> (string \<rightharpoonup> string) \<Rightarrow> string \<rightharpoonup> string" where
  "pairs_map = fold (\<lambda>(key, val, flags) m. m(key \<mapsto> val))"

definition pairs_verifier :: "(string \<times> string \<times> u32) list \<Rightarrow> u32 \<Rightarrow> u32" where
  "pairs_verifier = fold (\<lambda>(key, val, flags) v. if key = ''AUTH_VFR_DATA'' then flags else v)"

lemma reads_pairs:
  "list_all pair_fits ps \<Longrightarrow>
   reads (read_pairs (length ps) m v) (concat (map pair_wire ps)) (pairs_map ps m, pairs_verifier ps v)"
proof (induction ps arbitrary: m v)
  case Nil
  show ?case by (simp add: reads_ok pairs_map_def pairs_verifier_def)
next
  case (Cons p ps)
  obtain key val flags where p: "p = (key, val, flags)" by (cases p)
  have "reads (read_pair) (pair_wire p) (key, val, flags)" using reads_pair [of p] Cons.prems by (simp add: p)
  then show ?case
    using Cons.IH [of "m(key \<mapsto> val)" "if key = ''AUTH_VFR_DATA'' then flags else v"] Cons.prems
    by (auto simp: p pairs_map_def pairs_verifier_def simp del: fun_upd_apply intro!: reads_andThen)
qed

lemma reads_auth_reply:
  assumes "list_all pair_fits ps" "length ps < 65536"
  shows "reads auth_response_read (auth_reply f ps) (pairs_map ps Map.empty, pairs_verifier ps 0)"
proof -
  have n: "unat (of_nat (length ps) :: u16) = length ps"
    using assms(2) by (subst unat_of_nat) simp
  have "reads (andThen read_ub2 (\<lambda>num_params. read_pairs (unat num_params) Map.empty 0))
      (ub2_wire (of_nat (length ps)) @ concat (map pair_wire ps)) (pairs_map ps Map.empty, pairs_verifier ps 0)"
    by (rule reads_andThen [OF reads_ub2]) (simp add: n reads_pairs [OF assms(1)])
  then show ?thesis
    unfolding auth_response_read_def andSeq_def auth_reply_def auth_body_def
    by (intro reads_andThen [OF reads_skip]) (simp, rule reads_u8_then, simp)
qed

lemma auth_parse_reply:
  assumes "list_all pair_fits ps" "length ps < 65536"
  shows "auth_parse_response cr d (auth_reply f ps @ post) a =
    auth_advance cr d (a\<lparr>au_session_data := session_data_from_pairs (pairs_map ps Map.empty),
      au_verifier_type := (if pairs_verifier ps 0 \<noteq> 0 then pairs_verifier ps 0 else au_verifier_type a)\<rparr>)"
  by (simp add: auth_parse_response_def reads_new [OF reads_auth_reply [OF assms]])

subsection \<open>The keys of a 12c login\<close>

text \<open>The server's challenge, and the keys it derives itself from what the client sends back.\<close>

definition challenge ::
  "crypto \<Rightarrow> u8 list \<Rightarrow> u8 list \<Rightarrow> u8 list \<Rightarrow> u32 \<Rightarrow> u32 \<Rightarrow> (string \<times> string \<times> u32) list" where
  "challenge cr server_key vfr_data salt vgen sder =
     [(''AUTH_SESSKEY'', hex_encode_upper cr server_key, 0),
      (''AUTH_VFR_DATA'', hex_encode_upper cr vfr_data, VERIFIER_V12C),
      (''AUTH_PBKDF2_CSK_SALT'', hex_encode_upper cr salt, 0),
      (''AUTH_PBKDF2_VGEN_COUNT'', show_nat (unat vgen), 0),
      (''AUTH_PBKDF2_SDER_COUNT'', show_nat (unat sder), 0)]"

definition password_verifier :: "crypto \<Rightarrow> u8 list \<Rightarrow> u8 list \<Rightarrow> u32 \<Rightarrow> u8 list" where
  "password_verifier cr password vfr_data vgen =
     take 32 (sha512 cr (pbkdf2_hmac_sha512 cr password (vfr_data @ SPEEDY_KEY) vgen 64 @ vfr_data))"

definition server_combo_key ::
  "crypto \<Rightarrow> u8 list \<Rightarrow> u8 list \<Rightarrow> u8 list \<Rightarrow> u8 list \<Rightarrow> u32 \<Rightarrow> u8 list option" where
  "server_combo_key cr verifier part_a wire_key salt sder =
     map_option (\<lambda>part_b. pbkdf2_hmac_sha512 cr
       (bytes_of_text (hex_encode_upper cr part_b @ hex_encode_upper cr (take 32 part_a))) salt sder 32)
     (aes_cbc_decrypt cr verifier wire_key)"

lemma length_show_nat: "length (show_nat n) \<le> Suc (n div 10)"
proof (induction n rule: show_nat.induct)
  case (1 n)
  show ?case
  proof (cases "n < 10")
    case True
    then show ?thesis by (subst show_nat.simps) simp
  next
    case False
    then have "length (show_nat (n div 10)) \<le> Suc (n div 10 div 10)" by (rule 1)
    moreover have "Suc (n div 10 div 10) \<le> n div 10" using False by arith
    ultimately show ?thesis using False by (subst show_nat.simps) simp
  qed
qed

lemma unat_u32: "unat (n :: u32) < 4294967296"
  using unsigned_less [of n] by simp

lemma is_str_show_nat: "is_str (show_nat n)"
  by (rule is_ascii_is_str)
    (use show_nat_digits [of n] in \<open>auto simp: is_ascii_def is_digit_char_def list_all_iff\<close>)

lemma auth_keys_str:
  "is_str ''AUTH_SESSKEY''" "is_str ''AUTH_VFR_DATA''" "is_str ''AUTH_PBKDF2_CSK_SALT''"
  "is_str ''AUTH_PBKDF2_VGEN_COUNT''" "is_str ''AUTH_PBKDF2_SDER_COUNT''" "is_str ''AUTH_SVR_RESPONSE''"
  by code_simp+

lemma challenge_fits:
  assumes "crypto_ok cr" "length server_key < 2147483648" "length vfr_data < 2147483648" "length salt < 2147483648"
  shows "list_all pair_fits (challenge cr server_key vfr_data salt vgen sder)"
proof -
  have "length (show_nat (unat n)) < 4294967296" for n :: u32
    using length_show_nat [of "unat n"] unat_u32 [of n] by simp
  then show ?thesis
    using assms(2-) is_str_show_nat
    by (simp add: challenge_def pair_fits_def crypto_okD [OF assms(1)] auth_keys_str)
qed

definition agreed_key :: "crypto \<Rightarrow> auth_draws \<Rightarrow> u8 list \<Rightarrow> u8 list \<Rightarrow> u32 \<Rightarrow> u8 list" where
  "agreed_key cr d part_a salt sder =
     pbkdf2_hmac_sha512 cr (bytes_of_text (hex_encode_upper cr (take 32 (draw_session_key d (length part_a)))
       @ hex_encode_upper cr (take 32 part_a))) salt sder 32"

text \<open>What the client's verifier makes of the challenge.\<close>

lemma generate_12c_verifier_keys:
  assumes ok: "crypto_ok cr" and draws: "draws_ok d"
    and part: "length part_a mod 16 = 0" "32 \<le> length part_a"
    and key: "aes_cbc_encrypt cr (password_verifier cr (au_password a) vfr_data vgen) part_a = Some server_key"
    and sd: "sd_auth_pbkdf2_vgen_count (au_session_data a) = Some vgen"
      "sd_auth_pbkdf2_csk_salt (au_session_data a) = Some (hex_encode_upper cr salt)"
      "sd_auth_pbkdf2_sder_count (au_session_data a) = Some sder"
  shows "\<exists>client_key. generate_12c_verifier cr d vfr_data server_key a =
      (Inr (), a\<lparr>au_client_session_key := Some client_key, au_combo_key := Some (agreed_key cr d part_a salt sder)\<rparr>)
    \<and> server_combo_key cr (password_verifier cr (au_password a) vfr_data vgen) part_a (take 32 client_key) salt sder
      = Some (agreed_key cr d part_a salt sder)"
proof -
  let ?v = "password_verifier cr (au_password a) vfr_data vgen" and ?part_b = "draw_session_key d (length part_a)"
  have v: "generate_12c_password_hash cr (au_password a) vfr_data vgen = Inr ?v" "length ?v = 32"
    by (simp_all add: generate_12c_password_hash_def generate_12c_password_key_def pbkdf2_derive_def
      password_verifier_def slice_at_def crypto_okD [OF ok])
  have sk: "length server_key = length part_a" "aes_cbc_decrypt cr ?v server_key = Some part_a"
    using cbc_encrypt [OF ok part(1), of ?v] key by auto
  then have a: "decrypt_cbc_256 cr ?v server_key = Inr part_a"
    using part v(2) by (auto simp: decrypt_cbc_256_def aes_decrypt_def)
  have lb: "length ?part_b = length part_a" using draws by (simp add: draws_ok_def)
  obtain c where c: "encrypt_cbc_256_pkcs7 cr ?v ?part_b = Inr c" "length c = length (pkcs7 ?part_b)"
    and blocks: "\<And>n. 0 < n \<Longrightarrow> 16 * n \<le> length ?part_b
      \<Longrightarrow> decrypt_cbc_256 cr ?v (take (16 * n) c) = Inr (take (16 * n) ?part_b)"
    using encrypt_256_pkcs7 [OF ok v(2), of ?part_b] by blast
  have lc: "32 \<le> length c" using c(2) length_pkcs7(2) [of ?part_b] lb part(2) by simp
  then have d: "aes_cbc_decrypt cr ?v (take 32 c) = Some (take 32 ?part_b)"
    using blocks [of 2] lb part(2) by (auto simp: decrypt_cbc_256_def aes_decrypt_def split: if_splits option.splits)
  let ?combo = "agreed_key cr d part_a salt sder"
  have k: "generate_12c_combo_key cr part_a ?part_b salt sder = Inr ?combo"
    using part(2) lb by (simp add: generate_12c_combo_key_def pbkdf2_derive_def slice_at_def agreed_key_def)
  have "generate_12c_verifier cr d vfr_data server_key a =
      (Inr (), a\<lparr>au_client_session_key := Some c, au_combo_key := Some ?combo\<rparr>)"
    unfolding generate_12c_verifier_def Let_def sd required_def option.case andThen_lift_res v(1) a c(1)
    by (simp add: andThen_apply andSeq_def modify_def decode_hex_def k sd crypto_okD(7) [OF ok])
  then show ?thesis
    using lc d by (intro exI [of _ c]) (simp add: server_combo_key_def agreed_key_def)
qed

subsection \<open>An instance of the primitives\<close>

text \<open>
  The laws can be met: hexadecimal as it is, and in place of the ciphers and digests a byte-wise
  exclusive-or and paddings.  This instance only shows that the hypotheses can hold.
\<close>

definition hex_digit :: "nat \<Rightarrow> char" where
  "hex_digit n = (if n < 10 then char_of (48 + n) else char_of (55 + n))"

definition hex_value :: "char \<Rightarrow> nat" where
  "hex_value c = (let n = of_char c in if n < 58 then n - 48 else n - 55)"

definition hex_upper :: "u8 list \<Rightarrow> string" where
  "hex_upper bs = concat (map (\<lambda>b. [hex_digit (unat b div 16), hex_digit (unat b mod 16)]) bs)"

fun hex_bytes :: "string \<Rightarrow> string + u8 list" where
  "hex_bytes [] = Inr []"
| "hex_bytes [c] = Inl ''Odd number of digits''"
| "hex_bytes (c # c' # cs) =
     map_sum id ((#) (of_nat (16 * hex_value c + hex_value c'))) (hex_bytes cs)"

definition xor_cipher :: "u8 list \<Rightarrow> u8 list \<Rightarrow> u8 list option" where
  "xor_cipher key x = (if length x mod 16 = 0 then Some (map (\<lambda>b. b XOR hd (key @ [0])) x) else None)"

definition fill :: "nat \<Rightarrow> u8 list \<Rightarrow> u8 list" where
  "fill n bs = take n (bs @ replicate n 0x5A)"

definition toy_crypto :: crypto where
  "toy_crypto = \<lparr>aes_cbc_encrypt = xor_cipher, aes_cbc_decrypt = xor_cipher,
     pbkdf2_hmac_sha512 = (\<lambda>p s i n. fill n (p @ s @ [ucast i])), sha512 = fill 64, sha1 = fill 20, md5 = fill 16,
     hex_encode_upper = hex_upper, hex_decode = hex_bytes\<rparr>"

lemma hex_digit_value: "n < 16 \<Longrightarrow> hex_value (hex_digit n) = n"
  by (auto simp: hex_value_def hex_digit_def Let_def)

lemma hex_digit_ascii: "n < 16 \<Longrightarrow> (of_char (hex_digit n) :: nat) < 128"
  by (auto simp: hex_digit_def)

lemma hex_bytes_upper: "hex_bytes (hex_upper bs) = Inr bs"
proof (induction bs)
  case (Cons b bs)
  have "unat b < 256" using unsigned_less [of b] by simp
  then have "unat b div 16 < 16" by simp
  then have "(of_nat (16 * hex_value (hex_digit (unat b div 16)) + hex_value (hex_digit (unat b mod 16))) :: u8) = b"
    by (simp only: hex_digit_value mod_less_divisor zero_less_numeral mult_div_mod_eq) simp
  then show ?case using Cons by (simp add: hex_upper_def)
qed (simp add: hex_upper_def)

lemma length_hex_upper: "length (hex_upper bs) = 2 * length bs"
  by (induction bs) (simp_all add: hex_upper_def)

lemma take_hex_upper: "take (2 * n) (hex_upper bs) = hex_upper (take n bs)"
proof (induction bs arbitrary: n)
  case (Cons b bs)
  then show ?case by (cases n) (simp_all add: hex_upper_def)
qed (simp add: hex_upper_def)

lemma is_ascii_hex_upper: "is_ascii (hex_upper bs)"
proof -
  have "unat b div 16 < 16" for b :: u8 using unsigned_less [of b, where ?'a = nat] by simp
  then show ?thesis by (auto simp: is_ascii_def hex_upper_def list_all_iff hex_digit_ascii)
qed

lemma toy_crypto_ok: "crypto_ok toy_crypto"
proof -
  have "cbc_ok toy_crypto"
    by (auto simp: cbc_ok_def toy_crypto_def xor_cipher_def take_map comp_def min_def xor.assoc)
  moreover have "digests_ok toy_crypto"
    by (auto simp: digests_ok_def toy_crypto_def fill_def)
  moreover have "hex_ok toy_crypto"
    by (auto simp: hex_ok_def toy_crypto_def length_hex_upper is_ascii_hex_upper hex_bytes_upper take_hex_upper)
  ultimately show ?thesis by (simp add: crypto_ok_def)
qed

definition toy_draws :: auth_draws where
  "toy_draws = \<lparr>draw_session_key = (\<lambda>n. replicate n 7), draw_password_salt = replicate 16 1,
     draw_speedy_salt = replicate 16 2\<rparr>"

lemma toy_draws_ok: "draws_ok toy_draws"
  by (simp add: draws_ok_def toy_draws_def)

definition toy_env :: auth_env where
  "toy_env = \<lparr>env_terminal = ''unknown'', env_program = ''app'', env_machine = ''host'', env_osuser = ''user'',
     env_pid = ''42'', env_uppercase = ascii_upper_text,
     env_ora_sdtz = None, env_local_offset = 3600\<rparr>"

subsection \<open>Agreement on the keys\<close>

lemma challenge_answered:
  assumes "crypto_ok cr" "draws_ok d" "au_phase a = PhaseOne"
    and "length part_a mod 16 = 0" "32 \<le> length part_a" "length part_a < 2147483648"
    and "length vfr_data < 2147483648" "length salt < 2147483648"
    and "aes_cbc_encrypt cr (password_verifier cr (au_password a) vfr_data vgen) part_a = Some server_key"
  shows "\<exists>client_key sd.
    auth_parse_response cr d (auth_reply f (challenge cr server_key vfr_data salt vgen sder) @ post) a =
      (Inr (), a\<lparr>au_session_data := sd, au_verifier_type := VERIFIER_V12C, au_phase := PhaseTwo,
        au_client_session_key := Some client_key, au_combo_key := Some (agreed_key cr d part_a salt sder)\<rparr>)
    \<and> sd_auth_vfr_data sd = Some (hex_encode_upper cr vfr_data) \<and> sd_auth_pbkdf2_vgen_count sd = Some vgen
    \<and> server_combo_key cr (password_verifier cr (au_password a) vfr_data vgen) part_a (take 32 client_key) salt sder
      = Some (agreed_key cr d part_a salt sder)"
proof -
  let ?ps = "challenge cr server_key vfr_data salt vgen sder"
  have sk: "length server_key = length part_a"
    using cbc_encrypt [OF assms(1,4)] assms(9) by (metis option.inject)
  then have fits: "list_all pair_fits ?ps" using challenge_fits [OF assms(1)] assms by simp
  have vt: "pairs_verifier ?ps 0 = VERIFIER_V12C" "VERIFIER_V12C \<noteq> 0"
    by (simp_all add: challenge_def pairs_verifier_def VERIFIER_V12C_def)
  define sd where "sd = session_data_from_pairs (pairs_map ?ps Map.empty)"
  have sd: "sd_auth_sesskey sd = Some (hex_encode_upper cr server_key)"
    "sd_auth_vfr_data sd = Some (hex_encode_upper cr vfr_data)"
    "sd_auth_pbkdf2_csk_salt sd = Some (hex_encode_upper cr salt)"
    "sd_auth_pbkdf2_vgen_count sd = Some vgen" "sd_auth_pbkdf2_sder_count sd = Some sder"
    by (simp_all add: sd_def session_data_from_pairs_def challenge_def pairs_map_def)
  define b where "b = a\<lparr>au_session_data := sd, au_verifier_type := VERIFIER_V12C, au_phase := PhaseTwo\<rparr>"
  have b: "au_session_data b = sd" "au_password b = au_password a" "au_phase b = PhaseTwo"
    "au_verifier_type b = VERIFIER_V12C"
    by (simp_all add: b_def)
  obtain client_key where k: "generate_12c_verifier cr d vfr_data server_key b =
      (Inr (), b\<lparr>au_client_session_key := Some client_key, au_combo_key := Some (agreed_key cr d part_a salt sder)\<rparr>)"
    "server_combo_key cr (password_verifier cr (au_password a) vfr_data vgen) part_a (take 32 client_key) salt sder
      = Some (agreed_key cr d part_a salt sder)"
    using generate_12c_verifier_keys [OF assms(1,2,4,5), where a = b] assms(9) sd b by fastforce
  have "auth_parse_response cr d (auth_reply f ?ps @ post) a = generate_verifier cr d b"
    using assms(3) vt by (subst auth_parse_reply [OF fits])
      (simp_all add: challenge_def auth_advance_def b_def sd_def [unfolded challenge_def])
  also have "\<dots> = generate_12c_verifier cr d vfr_data server_key b"
    by (simp add: generate_verifier_def b sd required_def decode_hex_def crypto_okD(7) [OF assms(1)])
  finally show ?thesis using k sd by (intro exI [of _ client_key] exI [of _ sd]) (simp add: b_def)
qed

text \<open>
  C10: a 12c login agrees on its keys.  From the server's challenge (its session key part encrypted
  under the password verifier, the salts and the iteration counts) the client draws its own part
  and enters phase two; the server, decrypting the first 32 bytes of what the client then sends
  under the same verifier, derives exactly the client's combo key.
\<close>

theorem login_12c_key_agreement:
  assumes "crypto_ok cr" "draws_ok d" "au_phase a = PhaseOne"
    and "length part_a mod 16 = 0" "32 \<le> length part_a" "length part_a < 2147483648"
    and "length vfr_data < 2147483648" "length salt < 2147483648"
    and "aes_cbc_encrypt cr (password_verifier cr (au_password a) vfr_data vgen) part_a = Some server_key"
  shows "\<exists>client_key combo a'.
    auth_parse_response cr d (auth_reply f (challenge cr server_key vfr_data salt vgen sder) @ post) a = (Inr (), a')
    \<and> au_phase a' = PhaseTwo \<and> au_client_session_key a' = Some client_key \<and> au_combo_key a' = Some combo
    \<and> server_combo_key cr (password_verifier cr (au_password a) vfr_data vgen) part_a (take 32 client_key) salt sder
      = Some combo"
proof -
  obtain client_key sd where "auth_parse_response cr d (auth_reply f (challenge cr server_key vfr_data salt vgen sder) @ post) a =
      (Inr (), a\<lparr>au_session_data := sd, au_verifier_type := VERIFIER_V12C, au_phase := PhaseTwo,
        au_client_session_key := Some client_key, au_combo_key := Some (agreed_key cr d part_a salt sder)\<rparr>)"
    "server_combo_key cr (password_verifier cr (au_password a) vfr_data vgen) part_a (take 32 client_key) salt sder
      = Some (agreed_key cr d part_a salt sder)"
    using challenge_answered [OF assms, of f sder post] by blast
  then show ?thesis by simp
qed

definition toy_auth :: auth_message where
  "toy_auth = auth_new toy_env ''scott'' (bytes_of_text ''tiger'') ''FREE''"

theorem login_12c_key_agreement_witness:
  "\<exists>client_key combo a'.
    auth_parse_response toy_crypto toy_draws
      (auth_reply 0 (challenge toy_crypto (the (xor_cipher (password_verifier toy_crypto (bytes_of_text ''tiger'') [9, 9] 4096)
        (replicate 48 3))) [9, 9] [1, 2, 3, 4] 4096 3) @ []) toy_auth = (Inr (), a')
    \<and> au_phase a' = PhaseTwo \<and> au_client_session_key a' = Some client_key \<and> au_combo_key a' = Some combo
    \<and> server_combo_key toy_crypto (password_verifier toy_crypto (au_password toy_auth) [9, 9] 4096) (replicate 48 3)
      (take 32 client_key) [1, 2, 3, 4] 3 = Some combo"
proof -
  have a: "au_phase toy_auth = PhaseOne" "au_password toy_auth = bytes_of_text ''tiger''"
    by (simp_all add: toy_auth_def auth_new_def)
  have "aes_cbc_encrypt toy_crypto v (replicate 48 3) = Some (the (xor_cipher v (replicate 48 3)))" for v
    by (simp add: toy_crypto_def xor_cipher_def)
  then show ?thesis
    using login_12c_key_agreement [OF toy_crypto_ok toy_draws_ok a(1), of "replicate 48 3" "[9, 9]" "[1, 2, 3, 4]"
      4096 _ 0 3 "[]"] by (simp add: a(2))
qed

subsection \<open>What the second phase sends\<close>

definition phase_two_wire :: "auth_message \<Rightarrow> u8 \<Rightarrow> (string \<times> string \<times> u32) list \<Rightarrow> u8 list" where
  "phase_two_wire a ver ps =
     be_bytes 2 END_OF_REQUEST @ [message_type_byte MsgFunction, function_code_byte FnAuthPhaseTwo, 2]
     @ token_wire ver @ [if au_username a \<noteq> [] then 1 else 0] @ ub4_wire (of_nat (length (au_username a)))
     @ ub4_wire (au_auth_mode a OR AUTH_WITH_PASSWORD) @ [1] @ ub4_wire (of_nat (length ps)) @ [1, 1]
     @ (if au_username a = [] then [] else string_wire (Some (au_username a))) @ concat (map pair_wire ps)"

definition phase_two_pairs ::
  "crypto \<Rightarrow> auth_env \<Rightarrow> auth_message \<Rightarrow> u8 list \<Rightarrow> string \<Rightarrow> string \<Rightarrow> (string \<times> string \<times> u32) list" where
  "phase_two_pairs cr env a wire_key speedy password =
     [(''AUTH_SESSKEY'', hex_encode_upper cr wire_key, 1),
      (''AUTH_PBKDF2_SPEEDY_KEY'', speedy, 0),
      (''AUTH_PASSWORD'', password, 0),
      (''SESSION_CLIENT_CHARSET'', ''873'', 0),
      (''SESSION_CLIENT_DRIVER_NAME'', au_driver_name a, 0),
      (''SESSION_CLIENT_VERSION'', client_version_string, 0),
      (''AUTH_ALTER_SESSION'', get_alter_timezone_statement env, 1)]"

lemma encode_password_12c:
  assumes "crypto_ok cr" "au_combo_key a = Some combo" "length combo = 32" "au_verifier_type a = VERIFIER_V12C"
  shows "\<exists>password c. encode_password cr d a = Inr password \<and> hex_decode cr password = Inr c
    \<and> aes_cbc_decrypt cr combo c = Some (pkcs7 (draw_password_salt d @ au_password a))"
proof -
  obtain c where c: "encrypt_cbc_256_pkcs7 cr combo (draw_password_salt d @ au_password a) = Inr c"
    "decrypt_cbc_256 cr combo c = Inr (pkcs7 (draw_password_salt d @ au_password a))"
    using encrypt_256_pkcs7 [OF assms(1,3)] by blast
  then have "aes_cbc_decrypt cr combo c = Some (pkcs7 (draw_password_salt d @ au_password a))"
    by (auto simp: decrypt_cbc_256_def aes_decrypt_def split: if_splits option.splits)
  then show ?thesis
    using c(1) assms by (simp add: encode_password_def required_def crypto_okD(7) [OF assms(1)])
qed

lemma generate_speedy_key_12c:
  assumes ok: "crypto_ok cr" and draws: "draws_ok d" and a: "au_combo_key a = Some combo" "length combo = 32"
    "au_verifier_type a = VERIFIER_V12C"
    and sd: "sd_auth_vfr_data (au_session_data a) = Some (hex_encode_upper cr vfr_data)"
      "sd_auth_pbkdf2_vgen_count (au_session_data a) = Some vgen"
  shows "\<exists>speedy c. generate_speedy_key cr d a = Inr (Some speedy) \<and> hex_decode cr speedy = Inr c
    \<and> aes_cbc_decrypt cr combo c = Some (draw_speedy_salt d
        @ pbkdf2_hmac_sha512 cr (au_password a) (vfr_data @ SPEEDY_KEY) vgen 64)"
proof -
  let ?x = "draw_speedy_salt d @ pbkdf2_hmac_sha512 cr (au_password a) (vfr_data @ SPEEDY_KEY) vgen 64"
  have l: "length ?x = 80" using draws by (simp add: draws_ok_def crypto_okD(1) [OF ok])
  obtain c where c: "encrypt_cbc_256_pkcs7 cr combo ?x = Inr c" "length c = length (pkcs7 ?x)"
    and blocks: "\<And>n. 0 < n \<Longrightarrow> 16 * n \<le> length ?x
      \<Longrightarrow> decrypt_cbc_256 cr combo (take (16 * n) c) = Inr (take (16 * n) ?x)"
    using encrypt_256_pkcs7 [OF ok a(2), of ?x] by blast
  have "80 \<le> length c" using c(2) length_pkcs7(2) [of ?x] l by simp
  moreover have "decrypt_cbc_256 cr combo (take 80 c) = Inr ?x"
    using blocks [of 5] l by (simp add: l del: take_append)
  then have "aes_cbc_decrypt cr combo (take 80 c) = Some ?x"
    by (auto simp: decrypt_cbc_256_def aes_decrypt_def split: if_splits option.splits)
  ultimately show ?thesis
    using a sd c(1)
    by (simp add: generate_speedy_key_def required_def decode_hex_def crypto_okD(7) [OF ok] pbkdf2_derive_def
      Let_def slice_at_def)
qed

lemma writes_phase_two:
  assumes "au_verifier_type a = VERIFIER_V12C" "generate_speedy_key cr d a = Inr (Some speedy)"
    and hex: "take 64 (hex_encode_upper cr client_key) = hex_encode_upper cr wire_key"
  shows "writes (do_all [write_u16_be END_OF_REQUEST,
      write_phase_two_message cr env d a ver client_key password])
    (phase_two_wire a ver (phase_two_pairs cr env a wire_key speedy password))"
proof -
  let ?ps = "phase_two_pairs cr env a wire_key speedy password"
  let ?user = "if au_username a = [] then [] else [string_wire (Some (au_username a))]"
  have key: "take (min 64 (length (hex_encode_upper cr client_key))) (hex_encode_upper cr client_key)
      = hex_encode_upper cr wire_key"
    using hex by (cases "64 \<le> length (hex_encode_upper cr client_key)") simp_all
  have speedy: "writes (andThen (lift_res (generate_speedy_key cr d a)) (\<lambda>speedy.
      case speedy of Some k \<Rightarrow> write_key_value ''AUTH_PBKDF2_SPEEDY_KEY'' k 0 | None \<Rightarrow> ok ()))
      (pair_wire (''AUTH_PBKDF2_SPEEDY_KEY'', speedy, 0))"
    using writes_pair by (simp add: assms(2))
  define w where "w = concat ([[message_type_byte MsgFunction], [function_code_byte FnAuthPhaseTwo], [2], token_wire ver]
        @ [[if au_username a \<noteq> [] then 1 else 0], ub4_wire (of_nat (length (au_username a))),
           ub4_wire (au_auth_mode a OR AUTH_WITH_PASSWORD), [1], ub4_wire 7, [1], [1]]
        @ ?user @ map pair_wire ?ps)"
  have "writes (write_phase_two_message cr env d a ver client_key password) w"
    unfolding w_def write_phase_two_message_def write_auth_header_def write_user_def Let_def assms(1)
    by (rule writes_do_all) (simp add: key speedy phase_two_pairs_def string_wire_def list_all2_append
      writes_raw writes_ub4 writes_token writes_bytes_with_length writes_pair)
  then have "writes (do_all [write_u16_be END_OF_REQUEST,
      write_phase_two_message cr env d a ver client_key password]) (concat [be_bytes 2 END_OF_REQUEST, w])"
    by (intro writes_do_all) (simp add: writes_raw)
  moreover have "(of_nat (length ?ps) :: u32) = 7" by (simp add: phase_two_pairs_def)
  then have "phase_two_wire a ver ?ps = concat [be_bytes 2 END_OF_REQUEST, w]"
    by (simp add: phase_two_wire_def w_def)
  ultimately show ?thesis by (simp only:)
qed

text \<open>
  C19: the second phase of a 12c login is one data packet with the first 32 bytes of the client's key
  and six more pairs, announced as seven; from it a server that has the combo key recovers the
  password behind its salt (with the padding) and the 64 bytes of the password key behind theirs.
\<close>

theorem login_12c_phase_two:
  assumes "crypto_ok cr" "draws_ok d"
    and "au_phase a = PhaseTwo" "au_verifier_type a = VERIFIER_V12C"
    and "au_client_session_key a = Some client_key"
    and "au_combo_key a = Some combo" "length combo = 32"
    and "sd_auth_vfr_data (au_session_data a) = Some (hex_encode_upper cr vfr_data)"
    and "sd_auth_pbkdf2_vgen_count (au_session_data a) = Some vgen"
  shows "\<exists>speedy password speedy_key secret.
    auth_build_request cr env d a ver large_sdu =
      (let w = phase_two_wire a ver (phase_two_pairs cr env a (take 32 client_key) speedy password)
       in Inr (header_wire large_sdu (header_new Data (of_nat (8 + length w))) @ w))
    \<and> hex_decode cr password = Inr secret
    \<and> aes_cbc_decrypt cr combo secret = Some (pkcs7 (draw_password_salt d @ au_password a))
    \<and> hex_decode cr speedy = Inr speedy_key
    \<and> aes_cbc_decrypt cr combo speedy_key = Some (draw_speedy_salt d
        @ pbkdf2_hmac_sha512 cr (au_password a) (vfr_data @ SPEEDY_KEY) vgen 64)"
proof -
  obtain speedy speedy_key where s: "generate_speedy_key cr d a = Inr (Some speedy)"
    "hex_decode cr speedy = Inr speedy_key" "aes_cbc_decrypt cr combo speedy_key = Some (draw_speedy_salt d
      @ pbkdf2_hmac_sha512 cr (au_password a) (vfr_data @ SPEEDY_KEY) vgen 64)"
    using generate_speedy_key_12c [OF assms(1,2,6,7,4,8,9)] by blast
  obtain password secret where p: "encode_password cr d a = Inr password" "hex_decode cr password = Inr secret"
    "aes_cbc_decrypt cr combo secret = Some (pkcs7 (draw_password_salt d @ au_password a))"
    using encode_password_12c [OF assms(1,6,7,4)] by blast
  have hex: "take 64 (hex_encode_upper cr client_key) = hex_encode_upper cr (take 32 client_key)"
    using crypto_okD(8) [OF assms(1), of 32 client_key] by simp
  have "auth_build_request cr env d a ver large_sdu =
      (let w = phase_two_wire a ver (phase_two_pairs cr env a (take 32 client_key) speedy password)
       in Inr (header_wire large_sdu (header_new Data (of_nat (8 + length w))) @ w))"
    using build_packet_writes [OF writes_phase_two [OF assms(4) s(1) hex], of Data large_sdu]
    by (simp add: auth_build_request_def build_phase_two_def assms(3,5) p(1) required_def Let_def
      PACKET_HEADER_SIZE_def)
  then show ?thesis using s(2,3) p(2,3) by blast
qed

definition toy_auth_two :: auth_message where
  "toy_auth_two = toy_auth\<lparr>au_phase := PhaseTwo, au_verifier_type := VERIFIER_V12C,
     au_client_session_key := Some (replicate 64 5), au_combo_key := Some (replicate 32 6),
     au_session_data := session_data_from_pairs
       [''AUTH_VFR_DATA'' \<mapsto> hex_encode_upper toy_crypto [9, 9], ''AUTH_PBKDF2_VGEN_COUNT'' \<mapsto> show_nat (unat (4096 :: u32))]\<rparr>"

theorem login_12c_phase_two_witness:
  "\<exists>speedy password speedy_key secret.
    auth_build_request toy_crypto toy_env toy_draws toy_auth_two 24 True =
      (let w = phase_two_wire toy_auth_two 24
         (phase_two_pairs toy_crypto toy_env toy_auth_two (take 32 (replicate 64 5)) speedy password)
       in Inr (header_wire True (header_new Data (of_nat (8 + length w))) @ w))
    \<and> hex_decode toy_crypto password = Inr secret
    \<and> aes_cbc_decrypt toy_crypto (replicate 32 6) secret =
      Some (pkcs7 (draw_password_salt toy_draws @ au_password toy_auth_two))
    \<and> hex_decode toy_crypto speedy = Inr speedy_key
    \<and> aes_cbc_decrypt toy_crypto (replicate 32 6) speedy_key = Some (draw_speedy_salt toy_draws
        @ pbkdf2_hmac_sha512 toy_crypto (au_password toy_auth_two) ([9, 9] @ SPEEDY_KEY) 4096 64)"
  by (rule login_12c_phase_two [OF toy_crypto_ok toy_draws_ok])
    (use parse_u32_show [of 4096] in \<open>simp_all add: toy_auth_two_def session_data_from_pairs_def\<close>)

subsection \<open>The server's answer\<close>

lemma answer_checked:
  assumes "crypto_ok cr" "au_phase a = PhaseTwo" "au_verifier_type a = VERIFIER_V12C"
    and "au_combo_key a = Some combo" "length combo = 32"
    and "length plain mod 16 = 0" "plain \<noteq> []" "length plain < 2147483648"
    and "aes_cbc_encrypt cr combo plain = Some response"
  shows "auth_parse_response cr d (auth_reply f [(''AUTH_SVR_RESPONSE'', hex_encode_upper cr response, 0)] @ post) a =
    (if 32 \<le> length plain \<and> take 16 (drop 16 plain) = SERVER_TO_CLIENT then Inr ()
     else Inl (Err (AuthenticationFailed ''Invalid server response'')),
     a\<lparr>au_session_data := session_data_from_pairs [''AUTH_SVR_RESPONSE'' \<mapsto> hex_encode_upper cr response],
       au_phase := PhaseComplete\<rparr>)"
proof -
  let ?ps = "[(''AUTH_SVR_RESPONSE'', hex_encode_upper cr response, 0 :: u32)]"
  have r: "length response = length plain" "aes_cbc_decrypt cr combo response = Some plain"
    using cbc_encrypt [OF assms(1,6), of combo] assms(9) by auto
  have d: "decrypt_cbc_256 cr combo response = Inr plain"
    using r assms(5-7) by (auto simp: decrypt_cbc_256_def aes_decrypt_def)
  have fits: "list_all pair_fits ?ps"
    using assms(8) r(1) by (simp add: pair_fits_def crypto_okD [OF assms(1)] auth_keys_str)
  show ?thesis
    by (subst auth_parse_reply [OF fits])
      (simp_all add: auth_advance_def assms(2,3,4) pairs_map_def pairs_verifier_def verify_server_response_def
        session_data_from_pairs_def required_def decode_hex_def crypto_okD(7) [OF assms(1)] d Let_def)
qed

text \<open>
  C20: the answer to the second phase is accepted exactly when there is no AUTH_SVR_RESPONSE to
  check, or when it decrypts under the combo key to at least 32 bytes with the text
  SERVER_TO_CLIENT in the second block; and in either case the message counts as complete.
\<close>

theorem server_response_checked:
  assumes "crypto_ok cr" "au_phase a = PhaseTwo" "au_verifier_type a = VERIFIER_V12C"
    and "au_combo_key a = Some combo" "length combo = 32"
    and "length plain mod 16 = 0" "plain \<noteq> []" "length plain < 2147483648"
    and "aes_cbc_encrypt cr combo plain = Some response"
  shows "auth_parse_response cr d (auth_reply f [(''AUTH_SVR_RESPONSE'', hex_encode_upper cr response, 0)] @ post) a =
    (if 32 \<le> length plain \<and> take 16 (drop 16 plain) = SERVER_TO_CLIENT then Inr ()
     else Inl (Err (AuthenticationFailed ''Invalid server response'')),
     a\<lparr>au_session_data := session_data_from_pairs [''AUTH_SVR_RESPONSE'' \<mapsto> hex_encode_upper cr response],
       au_phase := PhaseComplete\<rparr>)"
  by (rule answer_checked [OF assms])

theorem server_response_checked_witness:
  "auth_parse_response toy_crypto toy_draws
      (auth_reply 0 [(''AUTH_SVR_RESPONSE'', hex_encode_upper toy_crypto
        (the (xor_cipher (replicate 32 6) (replicate 16 0 @ SERVER_TO_CLIENT @ replicate 16 16))), 0)] @ []) toy_auth_two =
    (Inr (), toy_auth_two\<lparr>au_session_data := session_data_from_pairs
        [''AUTH_SVR_RESPONSE'' \<mapsto> hex_encode_upper toy_crypto
          (the (xor_cipher (replicate 32 6) (replicate 16 0 @ SERVER_TO_CLIENT @ replicate 16 16)))],
      au_phase := PhaseComplete\<rparr>)"
proof -
  let ?plain = "replicate 16 0 @ SERVER_TO_CLIENT @ replicate 16 16 :: u8 list"
  have l: "length SERVER_TO_CLIENT = 16" by code_simp
  have a: "au_phase toy_auth_two = PhaseTwo" "au_verifier_type toy_auth_two = VERIFIER_V12C"
    "au_combo_key toy_auth_two = Some (replicate 32 6)"
    by (simp_all add: toy_auth_two_def)
  have "aes_cbc_encrypt toy_crypto (replicate 32 6) ?plain = Some (the (xor_cipher (replicate 32 6) ?plain))"
    by (simp add: toy_crypto_def xor_cipher_def l)
  then show ?thesis
    using server_response_checked [OF toy_crypto_ok a, of ?plain _ toy_draws 0 "[]"] by (simp add: l)
qed

text \<open>
  A server session key of one block is accepted by the decryption and then sliced beyond its end:
  the 12c login panics, as does an 11g one below 40 bytes.
\<close>

lemma short_session_key_panics:
  assumes "length part_a < 32"
  shows "generate_12c_combo_key cr part_a part_b salt iterations = Inl Panic"
  using assms by (simp add: generate_12c_combo_key_def slice_at_def)

lemma short_session_key_panics_11g:
  assumes "length part_a < 40"
  shows "generate_11g_combo_key cr part_a part_b = Inl Panic"
  using assms by (simp add: generate_11g_combo_key_def xor_parts_def)

end
