(* ===== verification/NegotiationLaws.thy ===== *)
theory NegotiationLaws
  imports HandshakeLaws
begin

section \<open>Properties of the negotiation\<close>

subsection \<open>ACCEPT\<close>

text \<open>What a server sends as ACCEPT, without accept data.\<close>

definition accept_wire :: "u16 \<Rightarrow> u16 \<Rightarrow> u16 \<Rightarrow> u16 \<Rightarrow> u8 \<Rightarrow> u32 \<Rightarrow> u32 \<Rightarrow> u8 list" where
  "accept_wire ver opts sdu_low tdu flags sdu ext =
     be_bytes 2 ver @ be_bytes 2 opts @ be_bytes 2 sdu_low @ be_bytes 2 tdu @ [0, 0]
     @ be_bytes 2 (0 :: u16) @ be_bytes 2 (0 :: u16) @ flags # flags # replicate 8 0 @ be_bytes 4 sdu
     @ (if 318 \<le> ver then replicate 5 0 @ be_bytes 4 ext else [])"

definition accepted :: "u16 \<Rightarrow> u16 \<Rightarrow> u16 \<Rightarrow> u8 \<Rightarrow> u32 \<Rightarrow> u32 \<Rightarrow> accept_message" where
  "accepted ver opts tdu flags sdu ext =
     \<lparr>am_protocol_version = ver, am_service_options = opts, am_sdu = sdu, am_tdu = ucast tdu,
      am_flags = flags, am_flags2 = ext, am_accept_data = None,
      am_supports_fast_auth = (ext AND 0x10000000 \<noteq> 0), am_supports_oob = (opts AND 0x0400 \<noteq> 0),
      am_supports_end_of_response = (319 \<le> ver \<and> ext AND 0x02000000 \<noteq> 0)\<rparr>"

lemma reads_then:
  "reads (f v2) bs u \<Longrightarrow> reads (andThen read_u16_be f) (be_bytes 2 v2 @ bs) u"
  "reads (g v4) bs u \<Longrightarrow> reads (andThen read_u32_be g) (be_bytes 4 v4 @ bs) u"
  by (rule reads_andThen [OF reads_be_bytes(1)] reads_andThen [OF reads_be_bytes(4)], assumption)+

lemma reads_skip_then: "length xs = n \<Longrightarrow> reads k bs u \<Longrightarrow> reads (andSeq (skip n) k) (xs @ bs) u"
  unfolding andSeq_def by (rule reads_andThen [OF reads_skip])

lemma reads_u8_seq: "reads k bs u \<Longrightarrow> reads (andSeq read_u8 k) (b # bs) u"
  unfolding andSeq_def by (rule reads_u8_then)

lemma reads_opt_last:
  "reads m vs v \<Longrightarrow> reads (f (if c then v else d)) [] u \<Longrightarrow>
   reads (andThen (if c then m else ok d) f) (if c then vs else []) u"
  by (cases c) (auto intro: reads_andThen_Nil)

lemma reads_accept:
  assumes "315 \<le> ver" "flags AND NSI_NA_REQUIRED = 0"
  shows "reads accept_read (accept_wire ver opts sdu_low tdu flags sdu ext)
    (accepted ver opts tdu flags sdu (if 318 \<le> ver then ext else 0))"
proof -
  have c: "\<not> ver < VERSION_MIN_ACCEPTED" "VERSION_MIN_LARGE_SDU \<le> ver"
    "\<not> (flags AND NSI_NA_REQUIRED \<noteq> 0)" "VERSION_MIN_OOB_CHECK = 318"
    using assms by (simp_all add: VERSION_MIN_ACCEPTED_def VERSION_MIN_LARGE_SDU_def VERSION_MIN_OOB_CHECK_def)
  have f: "reads (andSeq (skip 5) read_u32_be) (replicate 5 0 @ be_bytes 4 ext) ext"
    by (rule reads_skip_then [OF _ reads_be_bytes(4)]) simp
  show ?thesis
    unfolding accept_read_def accept_wire_def
    apply (rule reads_then(1), simp only: c(1) if_False)
    apply (rule reads_then(1))+
    apply (rule reads_skip_then, simp)
    apply (rule reads_then(1))+
    apply (rule reads_u8_then, rule reads_u8_seq, simp only: c(3) if_False)
    apply (rule reads_skip_then, simp)
    apply (simp only: c(2) if_True, rule reads_then(2), simp only: c(4), rule reads_opt_last [OF f])
    apply (simp add: read_accept_data_def accepted_def accept_flags_defs version_defs reads_ok)
    done
qed

text \<open>
  An ACCEPT packet of protocol version 315 or later that does not require native network
  encryption is read field by field: the 32-bit SDU, the extended flags only from version 318 on,
  and what they say about fast authentication, out-of-band data and end-of-response markers.
\<close>

theorem accept_parsed:
  assumes "315 \<le> ver" "flags AND NSI_NA_REQUIRED = 0"
  shows "accept_parse (message_packet Accept (accept_wire ver opts sdu_low tdu flags sdu ext @ post)) =
    Inr (accepted ver opts tdu flags sdu (if 318 \<le> ver then ext else 0))"
  unfolding accept_parse_def by (rule parse_message_packet [OF reads_accept [OF assms]])

theorem accept_parsed_witness:
  "accept_parse (message_packet Accept (accept_wire 319 0x401 8192 65535 4 8192 0x12000000 @ [])) =
    Inr (accepted 319 0x401 65535 4 8192 0x12000000)"
  using accept_parsed [where ver = 319 and flags = 4 and opts = "0x401" and sdu_low = 8192 and tdu = 65535 and sdu = 8192
    and ext = "0x12000000" and post = "[]"] by (simp add: NSI_NA_REQUIRED_def)

text \<open>
  C31: what the ACCEPT message says the server supports and what the capabilities record after it
  agree, although the source computes them in two places.
\<close>

theorem accept_agrees_with_capabilities:
  assumes "accept_parse p = Inr a" "negotiated c"
  shows "\<exists>c'. adjust_for_protocol (am_protocol_version a) (am_service_options a) (am_flags2 a) c = Inr c'
    \<and> cp_supports_oob c' = am_supports_oob a
    \<and> cp_supports_fast_auth c' = (am_supports_fast_auth a \<or> cp_supports_fast_auth c)
    \<and> cp_supports_end_of_response c' = (am_supports_end_of_response a \<or> cp_supports_end_of_response c)"
proof -
  have a: "am_supports_oob a = (am_service_options a AND 0x0400 \<noteq> 0)"
    "am_supports_fast_auth a = (am_flags2 a AND ACCEPT_FAST_AUTH \<noteq> 0)"
    "am_supports_end_of_response a = (VERSION_MIN_END_OF_RESPONSE \<le> am_protocol_version a
       \<and> am_flags2 a AND ACCEPT_HAS_END_OF_RESPONSE \<noteq> 0)"
    using assms(1)
    by (auto simp: accept_parse_def parse_packet_def accept_read_def andThen_apply andSeq_apply action_apply
      split: if_splits prod.splits sum.splits)
  show ?thesis
    using set_bits_wf [of "c\<lparr>cp_protocol_version := am_protocol_version a\<rparr>"] negotiated_wf [OF assms(2)]
    by (auto simp: a adjust_for_protocol_def Let_def CAN_RECV_ATTENTION_def set_bits_def caps_wf_def caps_bounds)
qed

theorem accept_agrees_with_capabilities_witness:
  "\<exists>c c'. adjust_for_protocol 319 0x401 0x12000000 c = Inr c' \<and> cp_supports_oob c' \<and> cp_supports_fast_auth c'
    \<and> cp_supports_end_of_response c'"
proof -
  have p: "accept_parse (message_packet Accept (accept_wire 319 0x401 8192 65535 4 8192 0x12000000 @ [])) =
      Inr (accepted 319 0x401 65535 4 8192 0x12000000)"
    unfolding accept_parse_def
    using parse_message_packet [OF reads_accept [where ver = 319 and flags = 4 and opts = "0x401" and sdu_low = 8192
      and tdu = 65535 and sdu = 8192 and ext = "0x12000000"], where post = "[]"]
    by (simp add: NSI_NA_REQUIRED_def)
  obtain c where "capabilities_new = Inr c" using capabilities_new_eq by blast
  then have "negotiated c" by (rule negotiated.fresh)
  from accept_agrees_with_capabilities [OF p this] show ?thesis by (auto simp: accepted_def)
qed

text \<open>A reader that fails on a wire form, whatever follows it.\<close>

definition stops :: "'a reader \<Rightarrow> u8 list \<Rightarrow> error \<Rightarrow> bool" where
  "stops m bs e \<longleftrightarrow>
     (\<forall>pre post. fst (m \<lparr>rb_data = pre @ bs @ post, rb_pos = length pre\<rparr>) = Inl (Err e))"

lemma stops_fail: "stops (fail e) [] e"
  by (simp add: stops_def fail_apply)

lemma stops_andThen:
  assumes "reads m bs v" "stops (f v) cs e"
  shows "stops (andThen m f) (bs @ cs) e"
  unfolding stops_def
proof (intro allI)
  fix pre post
  have "fst (f v \<lparr>rb_data = (pre @ bs) @ cs @ post, rb_pos = length (pre @ bs)\<rparr>) = Inl (Err e)"
    using assms(2) by (simp only: stops_def)
  then show "fst (andThen m f \<lparr>rb_data = pre @ (bs @ cs) @ post, rb_pos = length pre\<rparr>) = Inl (Err e)"
    using readsD [OF assms(1), of pre "cs @ post"] by (simp add: andThen_apply)
qed

lemma stops_then:
  "stops (f v) bs e \<Longrightarrow> stops (andThen read_u16_be f) (be_bytes 2 v @ bs) e"
  "stops (g b) bs e \<Longrightarrow> stops (andThen read_u8 g) (b # bs) e"
  "stops k bs e \<Longrightarrow> stops (andSeq read_u8 k) (b # bs) e"
  "length xs = n \<Longrightarrow> stops k bs e \<Longrightarrow> stops (andSeq (skip n) k) (xs @ bs) e"
  using stops_andThen [OF reads_u8, of g b bs e] stops_andThen [OF reads_u8, of "\<lambda>_. k" b bs e]
  unfolding andSeq_def by (auto intro: stops_andThen [OF reads_be_bytes(1)] stops_andThen [OF reads_skip])

lemma parse_stops:
  "stops m payload e \<Longrightarrow> parse_packet t m (message_packet t (payload @ post)) = Inl (Err e)"
  by (simp add: parse_packet_def message_packet_def is_packet_def header_new_def stops_def rbuf_new_def)
    (metis append_Nil list.size(3))

lemma accept_too_old: "ver < 315 \<Longrightarrow> stops accept_read (be_bytes 2 ver @ []) (ProtocolVersionNotSupported ver 315)"
  unfolding accept_read_def by (rule stops_then(1)) (simp add: VERSION_MIN_ACCEPTED_def stops_fail)

lemma accept_encryption:
  fixes ver opts sdu tdu len offset :: u16
  assumes "315 \<le> ver" "flags AND NSI_NA_REQUIRED \<noteq> 0" "length order = 2"
  shows "stops accept_read (be_bytes 2 ver @ be_bytes 2 opts @ be_bytes 2 sdu @ be_bytes 2 tdu @ order
    @ be_bytes 2 len @ be_bytes 2 offset @ [flags, flags1]) NativeNetworkEncryptionRequired"
proof -
  have c: "\<not> ver < VERSION_MIN_ACCEPTED" using assms(1) by (simp add: VERSION_MIN_ACCEPTED_def)
  show ?thesis
    unfolding accept_read_def
    by (rule stops_then(1), simp only: c if_False, (rule stops_then(1))+, rule stops_then(4) [OF assms(3)],
      (rule stops_then(1))+, rule stops_then(2), rule stops_then(3), simp only: assms(2) if_True simp_thms stops_fail)
qed

text \<open>
  An ACCEPT packet that cannot be used is an error whatever follows: a protocol version below
  315, and a server that requires native network encryption.
\<close>

theorem accept_rejected:
  fixes ver opts sdu tdu len offset old :: u16
  assumes "315 \<le> ver" "flags AND NSI_NA_REQUIRED \<noteq> 0" "length order = 2" "old < 315"
  shows "accept_parse (message_packet Accept (be_bytes 2 old @ post)) =
      Inl (Err (ProtocolVersionNotSupported old 315))
    \<and> accept_parse (message_packet Accept ((be_bytes 2 ver @ be_bytes 2 opts @ be_bytes 2 sdu @ be_bytes 2 tdu
        @ order @ be_bytes 2 len @ be_bytes 2 offset @ [flags, flags1]) @ post)) =
      Inl (Err NativeNetworkEncryptionRequired)"
  using parse_stops [OF accept_too_old [OF assms(4)], of Accept post]
    parse_stops [OF accept_encryption [OF assms(1-3)], of Accept opts sdu tdu len offset flags1 post]
  by (simp add: accept_parse_def)

theorem accept_rejected_witness:
  "accept_parse (message_packet Accept (be_bytes 2 (300 :: u16) @ [0, 1])) =
      Inl (Err (ProtocolVersionNotSupported 300 315))
    \<and> accept_parse (message_packet Accept ((be_bytes 2 (319 :: u16) @ be_bytes 2 (1 :: u16) @ be_bytes 2 (8192 :: u16)
        @ be_bytes 2 (8192 :: u16) @ [0, 0] @ be_bytes 2 (0 :: u16) @ be_bytes 2 (0 :: u16) @ [0x14, 0]) @ [0, 1])) =
      Inl (Err NativeNetworkEncryptionRequired)"
  by (rule accept_rejected) (simp_all add: NSI_NA_REQUIRED_def)

subsection \<open>CONNECT\<close>

definition connect_wire :: "connect_message \<Rightarrow> u8 list" where
  "connect_wire m =
     be_bytes 2 (cm_version_desired m) @ be_bytes 2 (cm_version_minimum m) @ be_bytes 2 (cm_service_options m)
     @ be_bytes 2 (ucast (min (cm_sdu m) 65535) :: u16) @ be_bytes 2 (ucast (min (cm_tdu m) 65535) :: u16)
     @ be_bytes 2 (cm_protocol_characteristics m) @ be_bytes 2 (0 :: u16) @ be_bytes 2 (1 :: u16)
     @ be_bytes 2 (of_nat (length (cm_connect_data m)) :: u16) @ be_bytes 2 (74 :: u16) @ be_bytes 4 (0 :: u32)
     @ [cm_nsi_flags m] @ [cm_nsi_flags m] @ replicate 24 0 @ be_bytes 4 (cm_sdu m) @ be_bytes 4 (cm_tdu m)
     @ be_bytes 4 (cm_connect_flags_1 m) @ be_bytes 4 (cm_connect_flags_2 m)"

lemma length_connect_wire [simp]: "length (connect_wire m) = 66"
  by (simp add: connect_wire_def)

lemma writes_connect_fields: "writes (do_all (connect_fields m)) (connect_wire m)"
  using writes_do_all [of "connect_fields m"
    "[be_bytes 2 (cm_version_desired m), be_bytes 2 (cm_version_minimum m), be_bytes 2 (cm_service_options m),
      be_bytes 2 (ucast (min (cm_sdu m) 65535) :: u16), be_bytes 2 (ucast (min (cm_tdu m) 65535) :: u16),
      be_bytes 2 (cm_protocol_characteristics m), be_bytes 2 (0 :: u16), be_bytes 2 (1 :: u16),
      be_bytes 2 (of_nat (length (cm_connect_data m)) :: u16), be_bytes 2 (74 :: u16), be_bytes 4 (0 :: u32),
      [cm_nsi_flags m], [cm_nsi_flags m], replicate 24 0, be_bytes 4 (cm_sdu m), be_bytes 4 (cm_tdu m),
      be_bytes 4 (cm_connect_flags_1 m), be_bytes 4 (cm_connect_flags_2 m)]"]
  by (simp add: connect_fields_def connect_wire_def writes_raw)

lemma writes_connect_data:
  "writes (do_all (connect_fields m @ [write_bytes bs])) (connect_wire m @ bs)"
  using writes_andSeq [OF writes_connect_fields writes_andSeq [OF writes_raw(2) [of bs] writes_ok]]
  by (simp add: do_all_append)

lemma writes_continuation: "writes (do_all [write_u16_be 0, write_bytes bs]) ([0, 0] @ bs)"
  using writes_andSeq [OF writes_raw(4) [of 0] writes_andSeq [OF writes_raw(2) [of bs] writes_ok]]
  by (simp add: be_bytes_def numeral_2_eq_2)

lemma take_drop_at: "length pre = n \<Longrightarrow> length mid = k \<Longrightarrow> take k (drop n (pre @ mid @ rest)) = mid"
  by auto

lemma built_packet:
  assumes "writes w bs" "length bs < 65528"
  shows "\<exists>p. build_packet t False w = Inr p \<and> drop 8 p = bs \<and> length p = 8 + length bs
    \<and> (\<exists>pkt. packet_from_bytes p = Inr pkt \<and> is_packet t pkt \<and> total_size pkt = length p \<and> pk_payload pkt = bs)"
proof -
  have "unat (of_nat (8 + length bs) :: u32) = 8 + length bs"
    using assms(2) by (subst unat_of_nat) simp
  then show ?thesis
    using build_packet_parses [OF assms, of t] build_packet_writes [OF assms(1), of t False]
    by (auto simp: is_packet_def total_size_def header_new_def PACKET_HEADER_SIZE_def)
qed

lemma connect_wire_fields:
  "take 2 (connect_wire m) = be_bytes 2 (cm_version_desired m)"
  "take 2 (drop 16 (connect_wire m)) = be_bytes 2 (of_nat (length (cm_connect_data m)) :: u16)"
  "take 2 (drop 18 (connect_wire m)) = be_bytes 2 (74 :: u16)"
  by (simp_all add: connect_wire_def)



subsection \<open>The protocol message\<close>

lemma reads_until_null: "0 \<notin> set bs \<Longrightarrow> reads (read_until_null acc) (bs @ [0]) (acc @ bs)"
proof (induction bs arbitrary: acc)
  have body: "read_until_null acc s = andThen read_u8 (\<lambda>b. if b = 0 then ok acc else read_until_null (acc @ [b])) s" for acc s
    by (subst read_until_null.simps) (auto simp: andThen_apply split: prod.splits sum.splits)
  note step = reads_state_eq [OF body]
  {
    case Nil
    show ?case by (rule step) (auto intro!: reads_u8_then reads_ok)
  next
    case (Cons b bs)
    then show ?case using Cons.IH [of "acc @ [b]"] by (intro step) (auto intro!: reads_u8_then)
  }
qed

text \<open>A server's protocol message: its element data and its format description are opaque.\<close>

definition protocol_wire ::
  "u8 \<Rightarrow> string \<Rightarrow> u16 \<Rightarrow> u8 \<Rightarrow> u16 \<Rightarrow> u8 list \<Rightarrow> u8 list \<Rightarrow> u8 list option \<Rightarrow> u8 list option \<Rightarrow> u8 list" where
  "protocol_wire version banner cs flags n elems fdo ccaps rcaps =
     message_type_byte MsgProtocol # version # [0] @ (bytes_of_text banner @ [0]) @ rev (be_bytes 2 cs) @ flags
     # rev (be_bytes 2 n) @ elems @ (be_bytes 2 (of_nat (length fdo) :: u16) @ fdo)
     @ bytes_wire ccaps @ bytes_wire rcaps"

lemma reads_fdo: "length fdo < 65536 \<Longrightarrow> reads read_fdo (be_bytes 2 (of_nat (length fdo) :: u16) @ fdo) fdo"
proof -
  assume l: "length fdo < 65536"
  then have "unat (of_nat (length fdo) :: u16) = length fdo" by (subst unat_of_nat) simp
  then show ?thesis
    unfolding read_fdo_def
    by (intro reads_then) (auto intro: reads_bytes_vec reads_ok)
qed

lemma reads_seq: "reads m bs u \<Longrightarrow> reads k cs v \<Longrightarrow> reads (andSeq m k) (bs @ cs) v"
  unfolding andSeq_def by (rule reads_andThen)

lemma reads_elems: "length elems = unat n * 5 \<Longrightarrow> reads (if 0 < unat n then skip (unat n * 5) else ok ()) elems ()"
  by (auto intro: reads_skip reads_ok)

definition told :: "u16 \<Rightarrow> u8 list \<Rightarrow> capabilities \<Rightarrow> capabilities" where
  "told cs fdo c = c\<lparr>cp_charset_id := cs,
     cp_ncharset_id := (case fdo_ncharset fdo of None \<Rightarrow> cp_ncharset_id c | Some n \<Rightarrow> n)\<rparr>"

lemma reads_protocol:
  assumes "is_str banner" "0 \<notin> set (bytes_of_text banner)" "length elems = unat n * 5" "length fdo < 65536"
    "adjust_compile ccaps (told cs fdo c) = Inr c1"
  shows "reads (protocol_parse_message c) (protocol_wire version banner cs flags n elems fdo ccaps rcaps)
    (\<lparr>pm_server_version = version, pm_server_flags = flags, pm_server_banner = Some banner,
      pm_server_compile_caps = ccaps, pm_server_runtime_caps = rcaps\<rparr>, adjust_runtime rcaps c1)"
proof -
  have b: "reads read_null_terminated_string (bytes_of_text banner @ [0]) banner"
    unfolding read_null_terminated_string_def
    using reads_fmap [OF reads_until_null [OF assms(2), of "[]"], of from_utf8_lossy banner] assms(1)
    by (simp add: from_utf8_lossy_str)
  have t: "reads (andThen (lift_res (adjust_compile ccaps (c\<lparr>cp_charset_id := cs,
        cp_ncharset_id := (case fdo_ncharset fdo of None \<Rightarrow> cp_ncharset_id c | Some n \<Rightarrow> n)\<rparr>))) f) bs u"
    if "reads (f c1) bs u" for f bs and u :: 'b
    using assms(5) that by (simp add: told_def)
  show ?thesis
    unfolding protocol_parse_message_def protocol_parse_body_def protocol_wire_def
    apply (rule reads_u8_then, simp only: simp_thms if_False)
    apply (rule reads_u8_then, rule reads_skip_then, simp, rule reads_andThen [OF b])
    apply (rule reads_andThen [OF reads_be_bytes(3)], rule reads_u8_then, rule reads_andThen [OF reads_be_bytes(3)])
    apply (rule reads_seq [OF reads_elems [OF assms(3)]], rule reads_andThen [OF reads_fdo [OF assms(4)]])
    apply (rule reads_andThen [OF reads_bytes_with_length], rule t)
    apply (rule reads_andThen_Nil [OF reads_bytes_with_length], rule reads_ok)
    done
qed

lemma protocol_response:
  assumes "caps_wf c" "is_str banner" "0 \<notin> set (bytes_of_text banner)" "length elems = unat n * 5"
    "length fdo < 65536" "CCAP_FIELD_VERSION < length ccaps" "RCAP_TTC < length rcaps"
  shows "\<exists>m c'. protocol_parse_response ([f1, f2] @
        protocol_wire version banner cs flags n elems fdo (Some ccaps) (Some rcaps) @ post) c = Inr (m, c')
    \<and> cp_supports_fast_auth c' = cp_supports_fast_auth c \<and> pm_server_banner m = Some banner \<and> pm_server_compile_caps m = Some ccaps
    \<and> pm_server_runtime_caps m = Some rcaps \<and> cp_charset_id c' = cs
    \<and> cp_ttc_field_version c' = min (cp_ttc_field_version c) (ccaps ! CCAP_FIELD_VERSION)
    \<and> cp_max_string_size c' = (if rcaps ! RCAP_TTC AND TTC_32K \<noteq> 0 then 32767 else 4000)"
proof -
  have "caps_wf (told cs fdo c)" using assms(1) by (simp add: told_def caps_wf_def)
  from adjust_for_server_compile_caps_wf [OF this, of ccaps] assms(6)
  obtain c1 where c1: "adjust_compile (Some ccaps) (told cs fdo c) = Inr c1"
    "cp_ttc_field_version c1 = min (cp_ttc_field_version c) (ccaps ! CCAP_FIELD_VERSION)"
    by (auto simp: adjust_compile_def told_def)
  have cs: "cp_charset_id c1 = cs" "cp_supports_fast_auth c1 = cp_supports_fast_auth c"
    using c1(1) by (auto simp: adjust_compile_def adjust_for_server_compile_caps_def adjust_field_version_def
      adjust_boundaries_def drop_end_of_response_def clear_bits_def told_def res_bind_Inr_iff Let_def split: if_splits)
  have "reads (andSeq (skip 2) (protocol_parse_message c))
      ([f1, f2] @ protocol_wire version banner cs flags n elems fdo (Some ccaps) (Some rcaps))
      (\<lparr>pm_server_version = version, pm_server_flags = flags, pm_server_banner = Some banner,
        pm_server_compile_caps = Some ccaps, pm_server_runtime_caps = Some rcaps\<rparr>, adjust_runtime (Some rcaps) c1)"
    by (rule reads_skip_then [OF _ reads_protocol [OF assms(2-5) c1(1)]]) simp
  from reads_new [OF this, of post] c1(2) cs assms(7) show ?thesis
    by (simp add: protocol_parse_response_def adjust_runtime_def adjust_for_server_runtime_caps_def)
qed

text \<open>
  C26: negotiation with a server's protocol message, from any state of the capabilities: the
  message is read to its end, the banner and both capability arrays are the server's, the
  character set is the one it names, the field version is the lower of the two and the maximum
  string size is the one its runtime capabilities announce.
\<close>

theorem protocol_negotiated:
  assumes "negotiated c" "is_str banner" "0 \<notin> set (bytes_of_text banner)" "length elems = unat n * 5"
    "length fdo < 65536" "CCAP_FIELD_VERSION < length ccaps" "RCAP_TTC < length rcaps"
  shows "\<exists>m c'. protocol_parse_response (f1 # f2 #
        protocol_wire version banner cs flags n elems fdo (Some ccaps) (Some rcaps) @ post) c = Inr (m, c')
    \<and> pm_server_banner m = Some banner \<and> pm_server_compile_caps m = Some ccaps
    \<and> pm_server_runtime_caps m = Some rcaps \<and> cp_charset_id c' = cs
    \<and> cp_ttc_field_version c' = min (cp_ttc_field_version c) (ccaps ! CCAP_FIELD_VERSION)
    \<and> cp_max_string_size c' = (if rcaps ! RCAP_TTC AND TTC_32K \<noteq> 0 then 32767 else 4000)"
  using protocol_response [OF negotiated_wf [OF assms(1)] assms(2-7), of f1 f2 version cs flags post] by auto

theorem protocol_negotiated_witness:
  "\<exists>c m c'. protocol_parse_response (0 # 0 #
        protocol_wire 6 ''Oracle'' 873 1 1 [1, 2, 3, 4, 5] [] (Some [6, 0, 0, 0, 0, 0, 0, 12])
          (Some [2, 0, 0, 0, 0, 0, 4]) @ []) c = Inr (m, c')
    \<and> cp_ttc_field_version c' = 12 \<and> cp_max_string_size c' = 32767"
proof -
  obtain c where c: "capabilities_new = Inr c" "cp_ttc_field_version c = FIELD_VERSION_MAX"
    using capabilities_new_eq by blast
  have n: "negotiated c" using c(1) by (rule negotiated.fresh)
  have b: "is_str ''Oracle''" "0 \<notin> set (bytes_of_text ''Oracle'')" by code_simp+
  from protocol_negotiated [OF n b, of "[1, 2, 3, 4, 5]" 1 "[]" "[6, 0, 0, 0, 0, 0, 0, 12]" "[2, 0, 0, 0, 0, 0, 4]"]
  show ?thesis
    by (fastforce simp: CCAP_FIELD_VERSION_def RCAP_TTC_def TTC_32K_def c(2) FIELD_VERSION_MAX_def min_def)
qed

subsection \<open>The data types message\<close>

text \<open>The table on the wire; an entry without a conversion has no representation.\<close>

definition entry_wire :: "data_type_definition \<Rightarrow> u8 list" where
  "entry_wire d = be_bytes 2 (dt_data_type d) @ be_bytes 2 (dt_conv_data_type d)
     @ (if dt_conv_data_type d = 0 then [] else be_bytes 2 (dt_representation d) @ [0, 0])"

definition table_wire :: "data_type_definition list \<Rightarrow> u8 list" where
  "table_wire ds = concat (map entry_wire ds) @ [0, 0]"

lemma be_bytes_2_zero: "be_bytes 2 (0 :: u16) = [0, 0]"
  by (simp add: be_bytes_def numeral_2_eq_2)

lemma reads_zero_entry: "reads (f 0) [] u \<Longrightarrow> reads (andThen read_u16_be f) [0, 0] u"
  using reads_then(1) [of f 0 "[]" u] by (simp add: be_bytes_2_zero)

lemma writes_zero_entry: "writes (write_u16_be 0) [0, 0]"
  using writes_raw(4) [of 0] by (simp add: be_bytes_2_zero)

lemma reads_table:
  assumes "list_all (\<lambda>d. dt_data_type d \<noteq> 0) ds"
  shows "reads data_types_parse_body (table_wire ds) ()"
  using assms
proof (induction ds)
  have body: "data_types_parse_body s = andThen read_u16_be (\<lambda>t. if t = 0 then ok ()
      else andThen read_u16_be (\<lambda>conv. if conv \<noteq> 0 then andSeq (skip 4) data_types_parse_body
             else data_types_parse_body)) s" for s
    by (subst data_types_parse_body.simps) (auto simp: andThen_apply andSeq_def split: prod.splits sum.splits)
  note step = reads_state_eq [OF body]
  {
    case Nil
    show ?case
      by (rule step, simp add: table_wire_def, rule reads_zero_entry) (simp add: reads_ok)
  next
    case (Cons d ds)
    then have "reads data_types_parse_body (table_wire ds) ()" by simp
    then have k: "reads (if dt_conv_data_type d \<noteq> 0 then andSeq (skip 4) data_types_parse_body
        else data_types_parse_body)
      ((if dt_conv_data_type d = 0 then [] else be_bytes 2 (dt_representation d) @ [0, 0]) @ table_wire ds) ()"
      using reads_skip_then [of "be_bytes 2 (dt_representation d) @ [0, 0]" 4] by auto
    have c: "reads (andThen read_u16_be (\<lambda>conv. if conv \<noteq> 0 then andSeq (skip 4) data_types_parse_body
        else data_types_parse_body)) (be_bytes 2 (dt_conv_data_type d)
      @ (if dt_conv_data_type d = 0 then [] else be_bytes 2 (dt_representation d) @ [0, 0]) @ table_wire ds) ()"
      by (rule reads_then(1)) (rule k)
    have "table_wire (d # ds) = be_bytes 2 (dt_data_type d) @ be_bytes 2 (dt_conv_data_type d)
        @ (if dt_conv_data_type d = 0 then [] else be_bytes 2 (dt_representation d) @ [0, 0]) @ table_wire ds"
      by (simp add: table_wire_def entry_wire_def)
    moreover have "dt_data_type d \<noteq> 0" using Cons.prems by simp
    ultimately show ?case
      by (simp only:) (rule step, rule reads_then(1), simp only: if_False, rule c)
  }
qed

lemma writes_entry:
  assumes "type_sent d"
  shows "writes (do_all (data_type_fields d)) (entry_wire d)"
  using assms writes_do_all [of "data_type_fields d" "[be_bytes 2 (dt_data_type d), be_bytes 2 (dt_conv_data_type d),
      be_bytes 2 (dt_representation d), be_bytes 2 (0 :: u16)]"]
  by (simp add: data_type_fields_def entry_wire_def type_sent_def writes_raw writes_zero_entry be_bytes_2_zero)

lemma writes_entries:
  "list_all type_sent ds \<Longrightarrow> writes (do_all (concat (map data_type_fields ds))) (concat (map entry_wire ds))"
  by (induction ds) (auto simp: do_all_append intro: writes_ok writes_andSeq writes_entry)

definition data_types_wire :: "capabilities \<Rightarrow> u8 list" where
  "data_types_wire c =
     message_type_byte MsgDataTypes # rev (be_bytes 2 CHARSET_UTF8) @ rev (be_bytes 2 CHARSET_UTF8)
     @ (ENCODING_MULTI_BYTE OR ENCODING_CONV_LENGTH)
     # bytes_wire (Some (cp_compile_caps c)) @ bytes_wire (Some (cp_runtime_caps c)) @ table_wire DATA_TYPES"

lemma writes_data_types: "writes (data_types_encode c) (data_types_wire c)"
proof -
  have "writes (do_all [write_u16_be 0]) [0, 0]"
    using writes_andSeq [OF writes_zero_entry writes_ok] by simp
  then have t: "writes (do_all (concat (map data_type_fields DATA_TYPES) @ [write_u16_be 0])) (table_wire DATA_TYPES)"
    unfolding do_all_append table_wire_def by (intro writes_andSeq writes_entries data_types_sent)
  have h: "writes (do_all [write_u8 (message_type_byte MsgDataTypes), write_u16_le CHARSET_UTF8,
      write_u16_le CHARSET_UTF8, write_u8 (ENCODING_MULTI_BYTE OR ENCODING_CONV_LENGTH),
      write_bytes_with_length (Some (cp_compile_caps c)), write_bytes_with_length (Some (cp_runtime_caps c))])
    (concat [[message_type_byte MsgDataTypes], rev (be_bytes 2 CHARSET_UTF8), rev (be_bytes 2 CHARSET_UTF8),
      [ENCODING_MULTI_BYTE OR ENCODING_CONV_LENGTH], bytes_wire (Some (cp_compile_caps c)),
      bytes_wire (Some (cp_runtime_caps c))])"
    by (rule writes_do_all) (simp add: writes_raw writes_bytes_with_length)
  show ?thesis
    using writes_andSeq [OF h t]
    unfolding data_types_encode_def data_types_wire_def do_all_append [of "[_, _, _, _, _, _]"] by simp
qed

text \<open>
  C40: the data types request carries the table in the form the protocol's reader expects.  The
  request is a DATA packet whose payload is the end-of-request flag, the message with the client's
  capabilities, and the table; the table has no entry that looks like its terminator, so reading
  it, in the client or in a server that uses the same layout, ends exactly at its end.
\<close>

theorem data_types_request_reads_back:
  "data_types_build_request c large_sdu =
      (let body = be_bytes 2 END_OF_REQUEST @ data_types_wire c
       in Inr (header_wire large_sdu (header_new Data (of_nat (PACKET_HEADER_SIZE + length body))) @ body))
    \<and> data_types_parse_response ([0, 0, message_type_byte MsgDataTypes] @ table_wire DATA_TYPES @ post) = Inr ()
    \<and> data_types_parse_body (rbuf_new (table_wire DATA_TYPES @ post)) =
        (Inr (), \<lparr>rb_data = table_wire DATA_TYPES @ post, rb_pos = length (table_wire DATA_TYPES)\<rparr>)
    \<and> length DATA_TYPES = 319"
proof -
  have t: "reads data_types_parse_body (table_wire DATA_TYPES) ()"
    using data_types_sent by (intro reads_table) (auto simp: list_all_iff type_sent_def)
  have "reads (andSeq (skip 2) data_types_parse_message) ([0, 0] @ message_type_byte MsgDataTypes # table_wire DATA_TYPES) ()"
    unfolding data_types_parse_message_def
    by (rule reads_skip_then, simp, rule reads_u8_then, simp only: simp_thms if_False, rule t)
  from reads_new [OF this, of post]
  have r: "data_types_parse_response ([0, 0, message_type_byte MsgDataTypes] @ table_wire DATA_TYPES @ post) = Inr ()"
    by (simp add: data_types_parse_response_def)
  have "writes (do_all [write_u16_be END_OF_REQUEST, data_types_encode c]) (be_bytes 2 END_OF_REQUEST @ data_types_wire c @ [])"
    unfolding do_all.simps by (intro writes_andSeq writes_raw writes_data_types writes_ok)
  from build_packet_writes [OF this, of Data large_sdu]
  have "data_types_build_request c large_sdu =
      (let body = be_bytes 2 END_OF_REQUEST @ data_types_wire c
       in Inr (header_wire large_sdu (header_new Data (of_nat (PACKET_HEADER_SIZE + length body))) @ body))"
    by (simp add: data_types_build_request_def Let_def add.left_commute)
  moreover have "length DATA_TYPES = 319" by (simp add: DATA_TYPES_def data_type_tables)
  ultimately show ?thesis using r reads_new [OF t, of post] by blast
qed

end
