(* ===== verification/LoginLaws.thy ===== *)
theory LoginLaws
  imports Login AuthLaws NegotiationLaws
begin

section \<open>Properties of opening a connection\<close>

subsection \<open>Invariants of actions\<close>

definition keeps :: "('s \<Rightarrow> bool) \<Rightarrow> ('s, 'e, 'a) action \<Rightarrow> bool" where
  "keeps P m \<longleftrightarrow> (\<forall>s. P s \<longrightarrow> P (snd (m s)))"

named_theorems keeps_intros

lemma keepsD: "keeps P m \<Longrightarrow> P s \<Longrightarrow> m s = (r, s') \<Longrightarrow> P s'"
  by (metis keeps_def snd_conv)

lemma keeps_app: "keeps P m \<Longrightarrow> P s \<Longrightarrow> P (snd (m s))"
  by (simp add: keeps_def)

lemma keeps_andThen [keeps_intros]: "keeps P m \<Longrightarrow> (\<And>a. keeps P (f a)) \<Longrightarrow> keeps P (andThen m f)"
  unfolding keeps_def andThen_apply by (auto split: prod.splits sum.splits)

lemma keeps_andSeq [keeps_intros]: "keeps P m \<Longrightarrow> keeps P k \<Longrightarrow> keeps P (andSeq m k)"
  by (simp add: andSeq_def keeps_andThen)

lemma keeps_basic [keeps_intros]:
  "keeps P (ok a)" "keeps P (fail e)" "keeps P (lift_res r)"
  by (simp_all add: keeps_def action_apply)

lemma keeps_asks [keeps_intros]: "keeps P (asks f)"
  by (simp add: keeps_def asks_def)

lemma keeps_modify [keeps_intros]: "(\<And>s. P s \<Longrightarrow> P (f s)) \<Longrightarrow> keeps P (modify f)"
  by (simp add: keeps_def modify_def)

lemma keeps_if [keeps_intros]: "(c \<Longrightarrow> keeps P m) \<Longrightarrow> (\<not> c \<Longrightarrow> keeps P k) \<Longrightarrow> keeps P (if c then m else k)"
  by simp

lemma keeps_option [keeps_intros]:
  "keeps P m \<Longrightarrow> (\<And>a. keeps P (f a)) \<Longrightarrow> keeps P (case x of None \<Rightarrow> m | Some a \<Rightarrow> f a)"
  by (simp split: option.split)

lemma keeps_prod [keeps_intros]: "(\<And>a b. keeps P (f a b)) \<Longrightarrow> keeps P (case p of (a, b) \<Rightarrow> f a b)"
  by (simp split: prod.split)

subsection \<open>The transport never makes a connection ready\<close>

abbreviation unready :: "conn \<Rightarrow> bool" where
  "unready c \<equiv> cn_state c \<noteq> Ready"

lemma keeps_close_on_error [keeps_intros]:
  assumes "keeps unready m"
  shows "keeps unready (close_on_error m)"
  unfolding keeps_def
proof (intro allI impI)
  fix c
  assume c: "unready c"
  obtain r c' where r: "m c = (r, c')" by fastforce
  have "unready c'" by (rule keepsD [OF assms c r])
  then show "unready (snd (close_on_error m c))" by (cases r) (simp_all add: close_on_error_def r)
qed

lemma unready_transport [keeps_intros]:
  "keeps unready (stream_read_exact n)" "keeps unready (conn_send bs)" "keeps unready (send_marker b)"
  by (auto simp: keeps_def stream_read_exact_def conn_send_def stream_write_all_def send_marker_def split: option.splits)

lemma unready_conn_receive [keeps_intros]: "keeps unready conn_receive"
proof -
  have "keeps unready (andThen (close_on_error (stream_read_exact PACKET_HEADER_SIZE)) (\<lambda>header_buf.
          let payload_len = packet_len large header_buf - PACKET_HEADER_SIZE
          in andThen (if 0 < payload_len then close_on_error (stream_read_exact payload_len) else ok [])
               (\<lambda>payload_buf. ok (header_buf @ payload_buf))))" for large
    unfolding Let_def by (intro keeps_intros)
  then show ?thesis by (simp add: keeps_def conn_receive_def)
qed

lemma unready_response_loop: "unready c \<Longrightarrow> unready (snd (response_loop acc is_first packet c))"
proof (induction acc is_first packet c rule: response_loop.induct)
  case (1 acc is_first packet c)
  show ?case
  proof (cases "response_step acc is_first packet")
    case (Inr r)
    then show ?thesis
      using 1 keepsD [OF unready_conn_receive]
      by (subst response_loop.simps) (auto simp: andThen_apply split: option.splits bool.splits prod.splits sum.splits)
  qed (use 1 in \<open>subst response_loop.simps, simp\<close>)
qed

lemma unready_receive_response [keeps_intros]: "keeps unready receive_response"
  unfolding receive_response_def receive_response_from_first_packet_with_payload_def
  by (intro keeps_intros) (simp add: keeps_def unready_response_loop)

subsection \<open>Only a completed login makes it ready\<close>

abbreviation waiting :: "'m session \<Rightarrow> bool" where
  "waiting s \<equiv> conn_state_of s \<noteq> Ready"

lemma waiting_on_conn [keeps_intros]:
  assumes "keeps unready m"
  shows "keeps waiting (on_conn m)"
  unfolding keeps_def
proof (intro allI impI)
  fix s :: "'m session"
  assume s: "waiting s"
  obtain r c where r: "m (se_conn s) = (r, c)" by fastforce
  have "unready c" by (rule keepsD [OF assms s r])
  then show "waiting (snd (on_conn m s))" by (simp add: on_conn_def r)
qed

lemma waiting_set_state: "st \<noteq> Ready \<Longrightarrow> keeps waiting (set_state st)"
  by (simp add: set_state_def keeps_def modify_def)

lemma waiting_set [keeps_intros]: "keeps waiting (set_caps c)" "keeps waiting (set_banner b)"
  "keeps waiting (set_state ProtocolNegotiated)" "keeps waiting (set_state DataTypesNegotiated)"
  by (simp_all add: set_caps_def set_banner_def set_state_def keeps_def modify_def)

lemma waiting_send_built [keeps_intros]: "keeps waiting (send_built f)"
  unfolding send_built_def by (intro keeps_intros)

lemma waiting_lift_auth [keeps_intros]: "keeps waiting (lift_auth m a)"
  by (simp add: lift_auth_def keeps_intros)

lemma waiting_accept [keeps_intros]: "keeps waiting (accept_connection response)"
  unfolding accept_connection_def by (intro keeps_intros) simp

lemma waiting_refuse [keeps_intros]: "keeps waiting (refuse_connection response)"
  unfolding refuse_connection_def by (intro keeps_intros)

lemma waiting_send_connect [keeps_intros]: "keeps waiting (send_connect p cont)"
  unfolding send_connect_def by (intro keeps_intros)

lemma waiting_connect_loop [keeps_intros]: "keeps (waiting :: 'm session \<Rightarrow> bool) (connect_loop p cont n)"
proof (induction "MAX_RESENDS - n" arbitrary: n rule: less_induct)
  case less
  have again: "keeps (waiting :: 'm session \<Rightarrow> bool) (connect_loop p cont (n + 1))" if "\<not> MAX_RESENDS < n + 1"
    by (rule less) (use that in simp)
  show ?case
    unfolding keeps_def
  proof (intro allI impI)
    fix s :: "'m session"
    assume "waiting s"
    then show "waiting (snd (connect_loop p cont n s))"
      by (subst connect_loop.simps, elim keeps_app [rotated]) (intro keeps_intros again)
  qed
qed

lemma fast_loop_waits: "waiting s \<Longrightarrow> waiting (snd (fast_auth_loop cr d flags a buf s))"
proof (induction cr d flags a buf s rule: fast_auth_loop.induct)
  case (1 cr d flags a buf s)
  show ?case
    by (subst fast_auth_loop.simps) (auto split: prod.splits sum.splits simp: 1)
qed

lemma waiting_fast_loop [keeps_intros]: "keeps waiting (fast_auth_loop cr d flags a buf)"
  by (simp add: keeps_def fast_loop_waits)

lemma waiting_send_connect_packet [keeps_intros]: "keeps waiting send_connect_packet"
  unfolding send_connect_packet_def by (intro keeps_intros)

lemma waiting_steps [keeps_intros]:
  "keeps waiting send_oob_check" "keeps waiting negotiate_protocol" "keeps waiting negotiate_data_types"
  "keeps waiting (authenticate_phase_one cr env d a)" "keeps waiting (authenticate_phase_two cr env d a)"
  unfolding send_oob_check_def negotiate_protocol_def negotiate_data_types_def authenticate_phase_one_def
    authenticate_phase_two_def send_auth_def
  by (intro keeps_intros)+

text \<open>An action whose success, and only it, makes a waiting connection ready.\<close>

definition readies :: "('m, 'a) session_action \<Rightarrow> ('a \<Rightarrow> bool) \<Rightarrow> bool" where
  "readies m Q \<longleftrightarrow> (\<forall>s r s'. waiting s \<longrightarrow> m s = (r, s') \<longrightarrow>
     (conn_state_of s' = Ready \<longleftrightarrow> (\<exists>a. r = Inr a \<and> Q a)) \<and> (conn_state_of s' = Ready \<longrightarrow> cn_seq (se_conn s') = 2))"

lemma readies_after:
  assumes "keeps waiting m" "\<And>a. readies (f a) Q"
  shows "readies (andThen m f) Q"
  unfolding readies_def
proof (intro allI impI)
  fix s r s'
  assume s: "waiting s" "andThen m f s = (r, s')"
  obtain x t where x: "m s = (x, t)" by fastforce
  have t: "waiting t" by (rule keepsD [OF assms(1) s(1) x])
  show "(conn_state_of s' = Ready \<longleftrightarrow> (\<exists>a. r = Inr a \<and> Q a)) \<and> (conn_state_of s' = Ready \<longrightarrow> cn_seq (se_conn s') = 2)"
  proof (cases x)
    case (Inl e)
    then show ?thesis using s x t by auto
  next
    case (Inr a)
    then have "f a t = (r, s')" using s(2) x by simp
    then show ?thesis using assms(2) [of a] t unfolding readies_def by blast
  qed
qed

lemma readies_fails: "keeps waiting m \<Longrightarrow> readies m (\<lambda>_. False)"
  unfolding readies_def by (auto dest: keepsD)

lemma readies_finish: "readies (finish_authentication a) (\<lambda>_. True)"
  by (auto simp: readies_def finish_authentication_def modify_def fail_def lift_res_def)

lemma readies_authenticate: "readies (authenticate cr env d) (\<lambda>_. True)"
  unfolding authenticate_def by (intro readies_after keeps_intros readies_finish)

lemma readies_fast_end: "readies (andSeq (finish_authentication a) (ok True)) (\<lambda>b. b)"
  by (auto simp: readies_def finish_authentication_def modify_def fail_def lift_res_def andSeq_def andThen_apply ok_def)

lemma readies_ok_False: "readies (ok False) (\<lambda>b. b)"
  by (simp add: readies_def ok_def)

lemma readies_fail: "readies (fail e) Q"
  by (simp add: readies_def fail_def lift_res_def)

lemma readies_fast_auth: "readies (authenticate_with_fast_auth cr env d) (\<lambda>b. b)"
  unfolding authenticate_with_fast_auth_def Let_def andSeq_def [of "send_built f" for f]
  by (intro readies_after keeps_intros)
    (auto intro!: readies_after keeps_intros readies_fail readies_ok_False readies_fast_end split: fast_outcome.split)

lemma readies_then:
  assumes m: "readies m Q" and no: "\<And>a. \<not> Q a \<Longrightarrow> readies (f a) R" and yes: "\<And>a. Q a \<Longrightarrow> \<exists>b. f a = ok b \<and> R b"
  shows "readies (andThen m f) R"
  unfolding readies_def
proof (intro allI impI)
  fix s r s'
  assume s: "waiting s" "andThen m f s = (r, s')"
  obtain x t where x: "m s = (x, t)" by fastforce
  have t: "conn_state_of t = Ready \<longleftrightarrow> (\<exists>a. x = Inr a \<and> Q a)" "conn_state_of t = Ready \<longrightarrow> cn_seq (se_conn t) = 2"
    using m s(1) x unfolding readies_def by blast+
  show "(conn_state_of s' = Ready \<longleftrightarrow> (\<exists>b. r = Inr b \<and> R b)) \<and> (conn_state_of s' = Ready \<longrightarrow> cn_seq (se_conn s') = 2)"
  proof (cases x)
    case (Inl e)
    then show ?thesis using s x t by auto
  next
    case (Inr a)
    then have fa: "f a t = (r, s')" using s(2) x by simp
    show ?thesis
    proof (cases "Q a")
      case True
      then show ?thesis using yes [of a] fa t Inr by (auto simp: ok_def)
    next
      case False
      then have "waiting t" using t(1) Inr by simp
      then show ?thesis using no [OF False] fa unfolding readies_def by blast
    qed
  qed
qed

lemma readies_login_steps: "readies (login_steps cr env d fast) (\<lambda>_. True)"
proof (cases fast)
  case True
  then show ?thesis
    unfolding login_steps_def if_P [OF True] andSeq_def
    by (intro readies_then [OF readies_fast_auth])
      (auto intro!: readies_after keeps_intros readies_authenticate)
next
  case False
  then show ?thesis
    unfolding login_steps_def if_not_P [OF False] andSeq_def
    by (intro readies_after keeps_intros readies_authenticate)
qed

lemma readies_handshake: "readies (perform_handshake cr env d) (\<lambda>_. True)"
  unfolding perform_handshake_def andSeq_def
  by (intro readies_after keeps_intros readies_login_steps)

text \<open>
  C8: the handshake makes a connection ready exactly when it succeeds, and it is then ready for
  sequence number 3: no error, refusal, early end of the stream or half-way negotiation leaves a
  connection that operations would use.
\<close>

theorem handshake_ready_iff_ok:
  assumes "conn_state_of s \<noteq> Ready" "perform_handshake cr env d s = (r, s')"
  shows "(conn_state_of s' = Ready \<longleftrightarrow> r = Inr ()) \<and> (r = Inr () \<longrightarrow> cn_seq (se_conn s') = 2)"
proof -
  have "(conn_state_of s' = Ready \<longleftrightarrow> (\<exists>a. r = Inr a \<and> True)) \<and> (conn_state_of s' = Ready \<longrightarrow> cn_seq (se_conn s') = 2)"
    using readies_handshake [of cr env d] assms unfolding readies_def by blast
  then show ?thesis by (cases r) auto
qed

subsection \<open>Runs against a server\<close>

text \<open>\<open>runs P m a Q\<close>: from every state with \<open>P\<close> the action gives \<open>a\<close> and a state with \<open>Q\<close>.\<close>

definition runs :: "('s \<Rightarrow> bool) \<Rightarrow> ('s, 'e, 'a) action \<Rightarrow> 'a \<Rightarrow> ('s \<Rightarrow> bool) \<Rightarrow> bool" where
  "runs P m a Q \<longleftrightarrow> (\<forall>s. P s \<longrightarrow> (\<exists>s'. m s = (Inr a, s') \<and> Q s'))"

lemma runsI: "(\<And>s. P s \<Longrightarrow> \<exists>s'. m s = (Inr a, s') \<and> Q s') \<Longrightarrow> runs P m a Q"
  by (simp add: runs_def)

lemma runsD: "runs P m a Q \<Longrightarrow> P s \<Longrightarrow> \<exists>s'. m s = (Inr a, s') \<and> Q s'"
  by (simp add: runs_def)

lemma runs_andThen:
  assumes "runs P m a Q" "runs Q (f a) b R"
  shows "runs P (andThen m f) b R"
  unfolding runs_def
proof (intro allI impI)
  fix s
  assume "P s"
  then obtain t where t: "m s = (Inr a, t)" "Q t" using runsD [OF assms(1)] by blast
  then obtain s' where "f a t = (Inr b, s')" "R s'" using runsD [OF assms(2)] by blast
  then show "\<exists>s'. andThen m f s = (Inr b, s') \<and> R s'" using t by simp
qed

lemma runs_andSeq: "runs P m a Q \<Longrightarrow> runs Q k b R \<Longrightarrow> runs P (andSeq m k) b R"
  unfolding andSeq_def by (rule runs_andThen)

lemma runs_ok: "runs P (ok a) a P"
  by (simp add: runs_def ok_def)

lemma runs_asks: "(\<And>s. P s \<Longrightarrow> f s = a) \<Longrightarrow> runs P (asks f) a P"
  by (simp add: runs_def asks_def)

lemma runs_lift: "r = Inr a \<Longrightarrow> runs P (lift_res r) a P"
  by (simp add: runs_def lift_res_def)

lemma runs_modify: "(\<And>s. P s \<Longrightarrow> Q (f s)) \<Longrightarrow> runs P (modify f) () Q"
  by (simp add: runs_def modify_def)

text \<open>
  A live connection: the packet framing in force, what the server will still send, and the
  parts of the state that the steps of the handshake look at.
\<close>

definition online :: "bool \<Rightarrow> u8 list \<Rightarrow> config \<Rightarrow> capabilities \<Rightarrow> (server_info \<Rightarrow> bool) \<Rightarrow> 'm session \<Rightarrow> bool" where
  "online large incoming cfg caps P s \<longleftrightarrow> cn_open (se_conn s) \<and> cn_wfail (se_conn s) = None
     \<and> se_large_sdu s = large \<and> cn_in (se_conn s) = incoming \<and> se_config s = cfg \<and> se_caps s = caps
     \<and> P (se_server_info s)"

lemma runs_send:
  "runs (online L i cfg caps P) (on_conn (conn_send bs)) () (online L i cfg caps P)"
  by (simp add: runs_def online_def on_conn_def conn_send_def stream_write_all_def)

lemma runs_send_built:
  assumes "\<And>s :: 'm session. se_large_sdu s = L \<Longrightarrow> se_caps s = caps \<Longrightarrow> \<exists>req. build s = Inr req"
  shows "runs (online L i cfg caps P) (send_built build) () (online L i cfg caps P :: 'm session \<Rightarrow> bool)"
proof (rule runsI)
  fix s :: "'m session"
  assume s: "online L i cfg caps P s"
  then obtain req where "build s = Inr req" using assms unfolding online_def by blast
  moreover obtain s' where "on_conn (conn_send req) s = (Inr (), s')" "online L i cfg caps P s'"
    using runsD [OF runs_send s] by blast
  ultimately show "\<exists>s'. send_built build s = (Inr (), s') \<and> online L i cfg caps P s'"
    by (simp add: send_built_def asks_def andThen_apply lift_res_def)
qed

abbreviation fits_packet :: "bool \<Rightarrow> u8 list \<Rightarrow> bool" where
  "fits_packet large body \<equiv> 10 + length body < (if large then 4294967296 else 65536)"

lemma runs_receive:
  assumes "fits_packet L body"
  shows "runs (online L (data_packet L f body @ i) cfg caps P) (on_conn conn_receive)
    (data_packet L f body) (online L i cfg caps P)"
  using conn_receive_data [of _ body f i] assms by (simp add: runs_def online_def on_conn_def)

lemma receive_one_response:
  assumes "cn_open c" "fits_packet (cn_large_sdu c) body" "f AND END_OF_RESPONSE \<noteq> 0"
    "cn_in c = data_packet (cn_large_sdu c) f body @ i"
  shows "receive_response c = (Inr (data_packet (cn_large_sdu c) f body), c\<lparr>cn_in := i\<rparr>)"
  using receive_response_frames [of "[(f, body)]" c i] assms
  by (simp add: frame_packet_def build_data_packet_from_payload_def data_packet_def end_flagged_def Let_def
    PACKET_HEADER_SIZE_def)

lemma runs_receive_response:
  assumes "fits_packet L body" "f AND END_OF_RESPONSE \<noteq> 0"
  shows "runs (online L (data_packet L f body @ i) cfg caps P) (on_conn receive_response)
    (data_packet L f body) (online L i cfg caps P)"
  using receive_one_response [of _ body f i] assms by (simp add: runs_def online_def on_conn_def)

lemma data_packet_parts:
  "length (data_packet L f body) = 10 + length body" "is_data_packet (data_packet L f body)"
  "drop PACKET_HEADER_SIZE (data_packet L f body) = be_bytes 2 f @ body"
  "has_message t (data_packet L f body) \<longleftrightarrow> body \<noteq> [] \<and> hd body = message_type_byte t"
proof -
  show l: "length (data_packet L f body) = 10 + length body" by (simp add: data_packet_def)
  then show "is_data_packet (data_packet L f body)" by (simp add: is_data_packet_def)
  show "drop PACKET_HEADER_SIZE (data_packet L f body) = be_bytes 2 f @ body"
    by (simp add: data_packet_def PACKET_HEADER_SIZE_def)
  show "has_message t (data_packet L f body) \<longleftrightarrow> body \<noteq> [] \<and> hd body = message_type_byte t"
    unfolding has_message_def l by (cases body) (simp_all add: data_packet_def PACKET_HEADER_SIZE_def nth_append)
qed

subsection \<open>The steps\<close>

lemma build_with_continuation_ok: "\<exists>p c. build_with_continuation m = Inr (p, c)"
  using build_packet_writes [OF writes_connect_fields, of Connect False m]
    build_packet_writes [OF writes_connect_data, of Connect False m]
    build_packet_writes [OF writes_continuation, of Data False]
  by (simp add: build_with_continuation_def build_connect_def)

lemma ucast_of_nat_16: "ucast (of_nat n :: u32) = (of_nat n :: u16)"
  by (simp add: bit_eq_iff bit_simps)

lemma packet_prefix_wire: "packet_prefix False t n = header_wire False (header_new t (of_nat n))"
  by (simp add: packet_prefix_def header_wire_def header_new_def be_bytes_2_zero ucast_of_nat_16)

lemma packet_of_prefix:
  assumes "8 + length body < 65536"
  shows "packet_from_bytes (packet_prefix False t (8 + length body) @ body) = Inr (message_packet t body)"
proof -
  have "unat (of_nat (8 + length body) :: u32) = 8 + length body" using assms by (subst unat_of_nat) simp
  then have "header_fits False (header_new t (of_nat (8 + length body)))"
    using assms by (simp add: header_fits_def header_new_def del: of_nat_add)
  then show ?thesis
    unfolding packet_prefix_wire
    by (simp add: packet_from_bytes_wire message_packet_def PACKET_HEADER_SIZE_def)
qed

lemma runs_connect:
  assumes acc: "315 \<le> ver" "flags AND NSI_NA_REQUIRED = 0"
    and caps1: "adjust_for_protocol ver opts (if 318 \<le> ver then ext else 0) caps = Inr caps1"
  shows "runs (online False (packet_prefix False Accept (8 + length (accept_wire ver opts sdu_low tdu flags sdu ext))
        @ accept_wire ver opts sdu_low tdu flags sdu ext @ i) cfg caps P) (send_connect_packet :: ('m, unit) session_action) ()
    (online True i cfg (caps1\<lparr>cp_sdu := sdu\<rparr>)
      (\<lambda>si. si_protocol_version si = ver \<and> si_supports_oob si = (opts AND 0x0400 \<noteq> 0)))"
proof -
  let ?acc = "accept_wire ver opts sdu_low tdu flags sdu ext"
  let ?packet = "packet_prefix False Accept (8 + length ?acc) @ ?acc"
  let ?msg = "accepted ver opts tdu flags sdu (if 318 \<le> ver then ext else 0)"
  obtain p c where p: "build_with_continuation (connect_from_config cfg) = Inr (p, c)"
    using build_with_continuation_ok by blast
  have l: "8 + length ?acc < 65536" by (simp add: accept_wire_def)
  have msg: "res_bind (packet_from_bytes ?packet) accept_parse = Inr ?msg"
    using parse_message_packet [OF reads_accept [OF acc, where opts = opts and sdu_low = sdu_low and tdu = tdu
      and sdu = sdu and ext = ext], where t = Accept and post = "[]"]
    unfolding packet_of_prefix [OF l] by (simp add: accept_parse_def)
  have type: "?packet ! 4 = 2" "\<not> length ?packet < PACKET_HEADER_SIZE"
    by (simp_all add: nth_append packet_prefix_type PACKET_HEADER_SIZE_def)
  have loop: "runs (online False (?packet @ i) cfg caps P) (connect_loop p c 0 :: ('m, unit) session_action) ()
    (online True i cfg (caps1\<lparr>cp_sdu := sdu\<rparr>)
      (\<lambda>si. si_protocol_version si = ver \<and> si_supports_oob si = (opts AND 0x0400 \<noteq> 0)))"
  proof (rule runsI)
    fix s :: "'m session"
    assume s: "online False (?packet @ i) cfg caps P s"
    then have "on_conn conn_receive s = (Inr ?packet, s\<lparr>se_conn := (se_conn s)\<lparr>cn_in := i\<rparr>\<rparr>)"
      using conn_receive_packet [of "se_conn s" ?acc Accept i] l by (simp add: online_def on_conn_def)
    then have "connect_loop p c 0 s = accept_connection ?packet (s\<lparr>se_conn := (se_conn s)\<lparr>cn_in := i\<rparr>\<rparr>)"
      by (subst connect_loop.simps, simp only: andThen_Inr type simp_thms if_False if_True)
    then show "\<exists>s'. connect_loop p c 0 s = (Inr (), s') \<and> online True i cfg (caps1\<lparr>cp_sdu := sdu\<rparr>)
      (\<lambda>si. si_protocol_version si = ver \<and> si_supports_oob si = (opts AND 0x0400 \<noteq> 0)) s'"
      using s caps1 acc(1)
      by (simp add: accept_connection_def msg asks_def andThen_apply lift_res_def online_def modify_def accepted_def
        uses_large_sdu_def VERSION_MIN_LARGE_SDU_def)
  qed
  have send: "runs (online False (?packet @ i) cfg caps P) (send_connect p c) () (online False (?packet @ i) cfg caps P)"
    unfolding send_connect_def by (rule runs_andSeq [OF runs_send]) (cases c; simp add: runs_send runs_ok)
  have ask: "runs (online False (?packet @ i) cfg caps P) (asks (build_with_continuation \<circ> connect_from_config \<circ> se_config))
      (Inr (p, c)) (online False (?packet @ i) cfg caps P)"
    by (rule runs_asks) (simp add: online_def p)
  show ?thesis
    unfolding send_connect_packet_def append_assoc [symmetric]
    by (rule runs_andThen [OF ask], rule runs_andThen [OF runs_lift [OF refl]]) (simp add: runs_andSeq [OF send loop] del: append_assoc)
qed

lemma protocol_request_ok: "\<exists>req. protocol_build_request large = Inr req"
proof -
  have "writes protocol_encode (concat [[1], [6], [0], bytes_of_text DRIVER_NAME, [0]])"
    unfolding protocol_encode_def by (intro writes_do_all) (simp add: writes_raw)
  then have "writes (do_all [write_u16_be END_OF_REQUEST, protocol_encode])
      (concat [be_bytes 2 END_OF_REQUEST, concat [[1], [6], [0], bytes_of_text DRIVER_NAME, [0]]])"
    by (intro writes_do_all) (simp add: writes_raw)
  from build_packet_writes [OF this] show ?thesis by (simp add: protocol_build_request_def)
qed

lemma data_types_request_ok: "\<exists>req. data_types_build_request caps large = Inr req"
proof -
  have "writes (do_all [write_u16_be END_OF_REQUEST, data_types_encode caps])
      (concat [be_bytes 2 END_OF_REQUEST, data_types_wire caps])"
    by (intro writes_do_all) (simp add: writes_raw writes_data_types)
  from build_packet_writes [OF this] show ?thesis by (simp add: data_types_build_request_def)
qed

lemma runs_protocol:
  assumes "fits_packet L body" "protocol_parse_response (be_bytes 2 f @ body) caps = Inr (m, caps1)"
    and "pm_server_banner m = Some b" "\<And>si. P si \<Longrightarrow> Q (si\<lparr>si_banner := b\<rparr>)"
  shows "runs (online L (data_packet L f body @ i) cfg caps P) negotiate_protocol () (online L i cfg caps1 Q)"
proof -
  have ask: "runs (online L i cfg caps P) (asks se_caps) caps (online L i cfg caps P)"
    by (rule runs_asks) (simp add: online_def)
  have rest: "runs (online L i cfg caps P)
      (andSeq (set_caps caps1) (andSeq (set_banner b) (set_state ProtocolNegotiated))) () (online L i cfg caps1 Q)"
    by (rule runsI) (simp add: set_caps_def set_banner_def set_state_def modify_def andSeq_def andThen_apply online_def assms(4))
  show ?thesis
    unfolding negotiate_protocol_def
    by (rule runs_andSeq [OF runs_send_built [OF protocol_request_ok]], rule runs_andThen [OF runs_receive [OF assms(1)]])
      (simp add: data_packet_parts assms(2,3), rule runs_andThen [OF ask],
       rule runs_andThen [OF runs_lift [OF assms(2)]], simp add: assms(3) rest)
qed

lemma runs_data_types:
  assumes "fits_packet L body"
  shows "runs (online L (data_packet L f body @ i) cfg caps P) negotiate_data_types () (online L i cfg caps P)"
proof -
  have st: "runs (online L i cfg caps P) (set_state DataTypesNegotiated) () (online L i cfg caps P)"
    unfolding set_state_def by (rule runs_modify) (simp add: online_def)
  show ?thesis
    unfolding negotiate_data_types_def
    by (rule runs_andSeq [OF runs_send_built], use data_types_request_ok in blast,
        rule runs_andThen [OF runs_receive [OF assms]]) (simp add: data_packet_parts st)
qed

subsection \<open>The login\<close>

lemma phase_one_request_ok:
  assumes "au_phase a = PhaseOne"
  shows "\<exists>req. auth_build_request cr env d a ver large = Inr req"
proof -
  let ?user = "if au_username a = [] then [] else [string_wire (Some (au_username a))]"
  have "writes (write_phase_one_message a ver)
      (concat ([[message_type_byte MsgFunction], [function_code_byte FnAuthPhaseOne], [au_sequence_number a], token_wire ver]
        @ [[if au_username a \<noteq> [] then 1 else 0], ub4_wire (of_nat (length (au_username a))),
           ub4_wire (au_auth_mode a), [1], ub4_wire 5, [0], [1]] @ ?user
        @ [pair_wire (''AUTH_TERMINAL'', au_terminal a, 0), pair_wire (''AUTH_PROGRAM_NM'', au_program a, 0),
           pair_wire (''AUTH_MACHINE'', au_machine a, 0), pair_wire (''AUTH_PID'', au_pid a, 0),
           pair_wire (''AUTH_SID'', au_osuser a, 0)]))" (is "writes _ ?w")
    unfolding write_phase_one_message_def write_auth_header_def write_user_def
    by (rule writes_do_all) (simp add: string_wire_def list_all2_append
      writes_raw writes_ub4 writes_token writes_bytes_with_length writes_pair)
  then have "writes (do_all [write_u16_be END_OF_REQUEST, write_phase_one_message a ver])
      (concat [be_bytes 2 END_OF_REQUEST, ?w])"
    by (intro writes_do_all) (simp add: writes_raw)
  from build_packet_writes [OF this] show ?thesis using assms by (simp add: auth_build_request_def build_phase_one_def)
qed

lemma phase_two_request_ok:
  assumes "crypto_ok cr" "draws_ok d" "au_phase a = PhaseTwo" "au_verifier_type a = VERIFIER_V12C"
    and "au_client_session_key a = Some client_key" "au_combo_key a = Some combo" "length combo = 32"
    and "sd_auth_vfr_data (au_session_data a) = Some (hex_encode_upper cr vfr_data)"
    and "sd_auth_pbkdf2_vgen_count (au_session_data a) = Some vgen"
  shows "\<exists>req. auth_build_request cr env d a ver large = Inr req"
proof -
  obtain speedy where s: "generate_speedy_key cr d a = Inr (Some speedy)"
    using generate_speedy_key_12c [OF assms(1,2,6,7,4,8,9)] by blast
  obtain password where p: "encode_password cr d a = Inr password"
    using encode_password_12c [OF assms(1,6,7,4)] by blast
  have hex: "take 64 (hex_encode_upper cr client_key) = hex_encode_upper cr (take 32 client_key)"
    using crypto_okD(8) [OF assms(1), of 32 client_key] by simp
  show ?thesis
    using build_packet_writes [OF writes_phase_two [OF assms(4) s hex], of Data large]
    by (simp add: auth_build_request_def build_phase_two_def assms(3,5) p required_def)
qed

lemma auth_body_parts: "auth_body ps \<noteq> []" "hd (auth_body ps) = 8"
  by (simp_all add: auth_body_def)

lemma runs_phase_one:
  assumes "au_phase a = PhaseOne" "fits_packet L (auth_body ps)"
    and "auth_parse_response cr d (auth_reply f ps @ []) a = (Inr (), a1)"
  shows "runs (online L (data_packet L f (auth_body ps) @ i) cfg caps P) (authenticate_phase_one cr env d a) a1
    (online L i cfg caps P)"
proof -
  have l: "lift_auth (auth_parse_response cr d (be_bytes 2 f @ auth_body ps)) a = lift_res (Inr a1)"
    using assms(3) by (simp add: lift_auth_def auth_reply_def)
  show ?thesis
    unfolding authenticate_phase_one_def send_auth_def
    by (rule runs_andSeq [OF runs_send_built [OF phase_one_request_ok [OF assms(1)]]],
        rule runs_andThen [OF runs_receive [OF assms(2)]])
      (simp add: data_packet_parts auth_body_parts PACKET_HEADER_SIZE_def [symmetric] l runs_lift, simp add: PACKET_HEADER_SIZE_def)
qed

lemma runs_phase_two:
  assumes "au_phase a = PhaseTwo" "fits_packet L (auth_body ps)" "f AND END_OF_RESPONSE \<noteq> 0"
    and "\<And>ver large. \<exists>req. auth_build_request cr env d a ver large = Inr req"
    and "auth_parse_response cr d (auth_reply f ps @ []) a = (Inr (), a1)"
  shows "runs (online L (data_packet L f (auth_body ps) @ i) cfg caps P) (authenticate_phase_two cr env d a) a1
    (online L i cfg caps P)"
proof -
  have l: "lift_auth (auth_parse_response cr d (be_bytes 2 f @ auth_body ps)) a = lift_res (Inr a1)"
    using assms(5) by (simp add: lift_auth_def auth_reply_def)
  show ?thesis
    by (simp only: authenticate_phase_two_def send_auth_def assms(1) simp_thms if_False,
        rule runs_andSeq [OF runs_send_built [OF assms(4)]], rule runs_andThen [OF runs_receive_response [OF assms(2,3)]])
      (simp add: data_packet_parts auth_body_parts PACKET_HEADER_SIZE_def [symmetric] l runs_lift, simp add: PACKET_HEADER_SIZE_def)
qed

lemma runs_finish:
  assumes "auth_is_complete a" "au_combo_key a = Some k"
  shows "runs (online L i cfg caps P) (finish_authentication a) ()
    (\<lambda>s. online L i cfg (caps\<lparr>cp_combo_key := Some k\<rparr>) P s \<and> conn_state_of s = Ready)"
  using assms by (simp add: runs_def finish_authentication_def modify_def online_def)

text \<open>The answer to the second phase, with the proof that the server has the key.\<close>

lemma server_proof_accepted:
  assumes "crypto_ok cr" "au_phase a = PhaseTwo" "au_verifier_type a = VERIFIER_V12C"
    and "au_combo_key a = Some combo" "length combo = 32"
    and "length plain mod 16 = 0" "length plain < 2147483648"
    and "aes_cbc_encrypt cr combo plain = Some response"
    and "32 \<le> length plain" "take 16 (drop 16 plain) = SERVER_TO_CLIENT"
  shows "auth_parse_response cr d (auth_reply f [(''AUTH_SVR_RESPONSE'', hex_encode_upper cr response, 0)] @ post) a =
    (Inr (), a\<lparr>au_session_data := session_data_from_pairs [''AUTH_SVR_RESPONSE'' \<mapsto> hex_encode_upper cr response],
       au_phase := PhaseComplete\<rparr>)"
proof -
  have "plain \<noteq> []" using assms(9) by auto
  then show ?thesis using answer_checked [OF assms(1-6) _ assms(7,8), of d f post] assms(9,10) by simp
qed

lemma runs_authenticate:
  assumes ok: "crypto_ok cr" "draws_ok d" and a: "a = login_message env cfg"
    and part: "length part_a mod 16 = 0" "32 \<le> length part_a" "length part_a < 2147483648"
    and vfr: "length vfr_data < 2147483648" "length salt < 2147483648"
    and key: "aes_cbc_encrypt cr (password_verifier cr (au_password a) vfr_data vgen) part_a = Some server_key"
    and answer: "aes_cbc_encrypt cr (agreed_key cr d part_a salt sder) plain = Some response"
      "length plain mod 16 = 0" "32 \<le> length plain" "length plain < 2147483648"
      "take 16 (drop 16 plain) = SERVER_TO_CLIENT"
    and fits: "fits_packet L (auth_body (challenge cr server_key vfr_data salt vgen sder))"
      "fits_packet L (auth_body [(''AUTH_SVR_RESPONSE'', hex_encode_upper cr response, 0)])"
      "g AND END_OF_RESPONSE \<noteq> 0"
  shows "runs (online L (data_packet L f (auth_body (challenge cr server_key vfr_data salt vgen sder))
        @ data_packet L g (auth_body [(''AUTH_SVR_RESPONSE'', hex_encode_upper cr response, 0)]) @ i) cfg caps P)
      (authenticate cr env d) ()
    (\<lambda>s. online L i cfg (caps\<lparr>cp_combo_key := Some (agreed_key cr d part_a salt sder)\<rparr>) P s \<and> conn_state_of s = Ready)"
proof -
  have one: "au_phase a = PhaseOne" by (simp add: a login_message_def auth_new_def)
  obtain client_key sd where ch: "auth_parse_response cr d (auth_reply f (challenge cr server_key vfr_data salt vgen sder) @ []) a =
      (Inr (), a\<lparr>au_session_data := sd, au_verifier_type := VERIFIER_V12C, au_phase := PhaseTwo,
        au_client_session_key := Some client_key, au_combo_key := Some (agreed_key cr d part_a salt sder)\<rparr>)"
    and sd: "sd_auth_vfr_data sd = Some (hex_encode_upper cr vfr_data)" "sd_auth_pbkdf2_vgen_count sd = Some vgen"
    using challenge_answered [OF ok one part vfr key, of f sder "[]"] by blast
  define a1 where "a1 = a\<lparr>au_session_data := sd, au_verifier_type := VERIFIER_V12C, au_phase := PhaseTwo,
        au_client_session_key := Some client_key, au_combo_key := Some (agreed_key cr d part_a salt sder)\<rparr>"
  have a1: "au_phase a1 = PhaseTwo" "au_verifier_type a1 = VERIFIER_V12C" "au_client_session_key a1 = Some client_key"
    "au_combo_key a1 = Some (agreed_key cr d part_a salt sder)" "au_session_data a1 = sd"
    by (simp_all add: a1_def)
  have l: "length (agreed_key cr d part_a salt sder) = 32" by (simp add: agreed_key_def crypto_okD(1) [OF ok(1)])
  define a2 where "a2 = a1\<lparr>au_session_data := session_data_from_pairs [''AUTH_SVR_RESPONSE'' \<mapsto> hex_encode_upper cr response],
       au_phase := PhaseComplete\<rparr>"
  have two: "auth_parse_response cr d (auth_reply g [(''AUTH_SVR_RESPONSE'', hex_encode_upper cr response, 0)] @ []) a1 =
      (Inr (), a2)"
    unfolding a2_def by (rule server_proof_accepted [OF ok(1) a1(1,2,4) l answer(2,4,1,3,5)])
  have req: "\<exists>req. auth_build_request cr env d a1 ver large = Inr req" for ver large
    by (rule phase_two_request_ok [OF ok a1(1-4) l]) (simp_all add: a1(5) sd)
  have ask: "runs (online L j cfg caps P) (asks (login_message env \<circ> se_config)) a (online L j cfg caps P)" for j
    by (rule runs_asks) (simp add: online_def a)
  have fin: "runs (online L i cfg caps P) (finish_authentication a2) ()
      (\<lambda>s. online L i cfg (caps\<lparr>cp_combo_key := Some (agreed_key cr d part_a salt sder)\<rparr>) P s \<and> conn_state_of s = Ready)"
    by (rule runs_finish) (simp_all add: a2_def auth_is_complete_def a1(4))
  show ?thesis
    unfolding authenticate_def
    by (rule runs_andThen [OF ask], rule runs_andThen [OF runs_phase_one [OF one fits(1) ch]], fold a1_def,
        rule runs_andThen [OF runs_phase_two [OF a1(1) fits(2,3) req two]], rule fin)
qed

lemma capabilities_new_fast: "capabilities_new = Inr c \<Longrightarrow> \<not> cp_supports_fast_auth c"
  by (auto simp: capabilities_new_def init_compile_caps_def init_runtime_caps_def capabilities_blank_def
    res_bind_Inr_iff Let_def)

text \<open>
  C3: a login goes through from the first byte to the last.  A server that accepts the connection
  (without fast authentication and out-of-band check), names itself and its character set, takes
  the data types, challenges the client under the verifier of its password and answers with proof
  of the key leaves a connection that is ready, with the server's banner and protocol version, the
  key both sides derived, and the rest of the stream unread.
\<close>

theorem login_completes:
  fixes I :: "'m index_map"
  assumes "crypto_ok cr" "draws_ok d"
    and "dial cfg = Inr (packet_prefix False Accept (8 + length (accept_wire ver opts sdu_low tdu flags sdu ext))
        @ accept_wire ver opts sdu_low tdu flags sdu ext
        @ data_packet True fa (protocol_wire version banner cs pflags n elems fdo (Some ccaps) (Some rcaps))
        @ data_packet True fb types
        @ data_packet True fc (auth_body (challenge cr server_key vfr_data salt vgen sder))
        @ data_packet True fe (auth_body [(''AUTH_SVR_RESPONSE'', hex_encode_upper cr response, 0)]) @ rest, None)"
    and "315 \<le> ver" "flags AND NSI_NA_REQUIRED = 0" "opts AND 0x0400 = 0" "ext AND ACCEPT_FAST_AUTH = 0"
    and "is_str banner" "0 \<notin> set (bytes_of_text banner)" "length elems = unat n * 5" "length fdo < 65536"
      "CCAP_FIELD_VERSION < length ccaps" "RCAP_TTC < length rcaps"
    and "fits_packet True (protocol_wire version banner cs pflags n elems fdo (Some ccaps) (Some rcaps))"
      "fits_packet True types" "fits_packet True (auth_body (challenge cr server_key vfr_data salt vgen sder))"
      "fits_packet True (auth_body [(''AUTH_SVR_RESPONSE'', hex_encode_upper cr response, 0)])"
      "fe AND END_OF_RESPONSE \<noteq> 0"
    and "length part_a mod 16 = 0" "32 \<le> length part_a" "length part_a < 2147483648"
    and "length vfr_data < 2147483648" "length salt < 2147483648"
    and "aes_cbc_encrypt cr (password_verifier cr (bytes_of_text (cf_password cfg)) vfr_data vgen) part_a = Some server_key"
    and "aes_cbc_encrypt cr (agreed_key cr d part_a salt sder) plain = Some response"
      "length plain mod 16 = 0" "32 \<le> length plain" "length plain < 2147483648"
      "take 16 (drop 16 plain) = SERVER_TO_CLIENT"
  shows "\<exists>s. connect_with_config I cr env d dial cfg = Inr s \<and> conn_state_of s = Ready
    \<and> cp_combo_key (se_caps s) = Some (agreed_key cr d part_a salt sder) \<and> cp_charset_id (se_caps s) = cs
    \<and> si_banner (se_server_info s) = banner \<and> si_protocol_version (se_server_info s) = ver
    \<and> cn_in (se_conn s) = rest \<and> se_large_sdu s"
proof -
  let ?acc = "accept_wire ver opts sdu_low tdu flags sdu ext"
  let ?proto = "protocol_wire version banner cs pflags n elems fdo (Some ccaps) (Some rcaps)"
  let ?one = "auth_body (challenge cr server_key vfr_data salt vgen sder)"
  let ?two = "auth_body [(''AUTH_SVR_RESPONSE'', hex_encode_upper cr response, 0)]"
  let ?login = "data_packet True fc ?one @ data_packet True fe ?two @ rest"
  let ?in = "packet_prefix False Accept (8 + length ?acc) @ ?acc @ data_packet True fa ?proto @ data_packet True fb types @ ?login"
  let ?P = "\<lambda>si. si_protocol_version si = ver \<and> si_supports_oob si = (opts AND 0x0400 \<noteq> 0)"
  let ?Q = "\<lambda>si. si_protocol_version si = ver \<and> si_banner si = banner"
  obtain c0 where c0: "capabilities_new = Inr c0" "caps_wf c0" "\<not> cp_supports_fast_auth c0"
    using capabilities_new_eq capabilities_new_fast by fastforce
  obtain c1 where c1: "adjust_for_protocol ver opts (if 318 \<le> ver then ext else 0) c0 = Inr c1" "caps_wf c1"
    using adjust_for_protocol_wf [OF c0(2)] by blast
  have fast: "\<not> cp_supports_fast_auth c1"
    using c1(1) c0(3) assms(7) by (auto simp: adjust_for_protocol_def set_bits_def Let_def res_bind_Inr_iff split: if_splits)
  have wf: "caps_wf (c1\<lparr>cp_sdu := sdu\<rparr>)" using c1(2) by (simp add: caps_wf_def)
  have fa_parts: "be_bytes 2 fa = [be_bytes 2 fa ! 0, be_bytes 2 fa ! 1]"
    by (rule nth_equalityI) (auto simp: less_2_cases_iff)
  obtain m c2 where m: "protocol_parse_response (be_bytes 2 fa @ ?proto) (c1\<lparr>cp_sdu := sdu\<rparr>) = Inr (m, c2)"
    "pm_server_banner m = Some banner" "cp_charset_id c2 = cs"
    using protocol_response [OF wf assms(8-13), of "be_bytes 2 fa ! 0" "be_bytes 2 fa ! 1" version cs pflags "[]"]
    unfolding fa_parts [symmetric] append_Nil2 by blast
  have none: "opts AND 0x0400 = 0" by (rule assms(6))
  have a: "au_password (login_message env cfg) = bytes_of_text (cf_password cfg)"
    by (simp add: login_message_def auth_new_def)
  obtain s0 where s0: "session_new I cfg ?in None = Inr s0" "online False ?in cfg c0 (\<lambda>_. True) s0"
    by (simp add: session_new_def c0 online_def conn_new_def)
  have login: "runs (online True ?login cfg c2 ?Q) (authenticate cr env d) ()
    (\<lambda>s. online True rest cfg (c2\<lparr>cp_combo_key := Some (agreed_key cr d part_a salt sder)\<rparr>) ?Q s \<and> conn_state_of s = Ready)"
    by (rule runs_authenticate [OF assms(1,2) refl _ _ _ _ _ _ assms(25-29) assms(16-18)]) (use assms a in simp_all)
  have steps: "runs (online True (data_packet True fa ?proto @ data_packet True fb types @ ?login) cfg (c1\<lparr>cp_sdu := sdu\<rparr>) ?P)
      (login_steps cr env d False) ()
    (\<lambda>s. online True rest cfg (c2\<lparr>cp_combo_key := Some (agreed_key cr d part_a salt sder)\<rparr>) ?Q s \<and> conn_state_of s = Ready)"
    unfolding login_steps_def if_False
    by (rule runs_andSeq [OF runs_protocol [OF assms(14) m(1,2), of ?P ?Q]], simp,
        rule runs_andSeq [OF runs_data_types [OF assms(15)] login])
  have ask: "runs (online L i cfg (c1\<lparr>cp_sdu := sdu\<rparr>) ?P) (asks needs_oob_check) False
      (online L i cfg (c1\<lparr>cp_sdu := sdu\<rparr>) ?P)" for L i
    by (rule runs_asks) (simp add: online_def needs_oob_check_def none)
  have ask': "runs (online L i cfg (c1\<lparr>cp_sdu := sdu\<rparr>) ?P) (asks (cp_supports_fast_auth \<circ> se_caps)) False
      (online L i cfg (c1\<lparr>cp_sdu := sdu\<rparr>) ?P)" for L i
    by (rule runs_asks) (simp add: online_def fast)
  have "runs (online False ?in cfg c0 (\<lambda>_. True)) (perform_handshake cr env d :: ('m, unit) session_action) ()
    (\<lambda>s. online True rest cfg (c2\<lparr>cp_combo_key := Some (agreed_key cr d part_a salt sder)\<rparr>) ?Q s \<and> conn_state_of s = Ready)"
    unfolding perform_handshake_def
    by (rule runs_andSeq [OF runs_connect [OF assms(4,5) c1(1)]], rule runs_andThen [OF ask],
        simp only: if_False, rule runs_andSeq [OF runs_ok], rule runs_andThen [OF ask'], rule steps)
  from this [unfolded runs_def, rule_format, OF s0(2)]
  obtain s where s: "perform_handshake cr env d s0 = (Inr (), s)" "conn_state_of s = Ready"
    "online True rest cfg (c2\<lparr>cp_combo_key := Some (agreed_key cr d part_a salt sder)\<rparr>) ?Q s"
    by blast
  have "connect_with_config I cr env d dial cfg = Inr s"
    unfolding connect_with_config_def assms(3) by (simp only: res_bind_simps prod.case s0(1) s(1) sum.case)
  then show ?thesis using s(2,3) m(3) by (intro exI [of _ s]) (simp add: online_def)
qed

subsection \<open>A login that completes\<close>

lemma length_ub4_wire: "length (ub4_wire v) \<le> 5"
  by (simp add: ub4_wire_def)

lemma length_pair_wire:
  "length key \<le> 252 \<Longrightarrow> length val \<le> 252 \<Longrightarrow> length (pair_wire (key, val, flags)) \<le> length key + length val + 17"
  using length_ub4_wire [of "of_nat (length key)"] length_ub4_wire [of "of_nat (length val)"] length_ub4_wire [of flags]
  by (auto simp: pair_wire_def string_wire_def bytes_wire_def bytes_of_text_def MAX_SHORT_def simp del: of_nat_numeral)

definition toy_server_key :: "u8 list" where
  "toy_server_key = the (xor_cipher (password_verifier toy_crypto (bytes_of_text ''tiger'') [9, 9] 4096) (replicate 48 3))"

definition toy_plain :: "u8 list" where
  "toy_plain = replicate 16 0 @ SERVER_TO_CLIENT @ replicate 16 16"

definition toy_response :: "u8 list" where
  "toy_response = the (xor_cipher (agreed_key toy_crypto toy_draws (replicate 48 3) [1, 2, 3, 4] 3) toy_plain)"

definition toy_config :: config where
  "toy_config = set_password ''tiger'' (config_default\<lparr>cf_username := ''scott''\<rparr>)"

definition toy_protocol :: "u8 list" where
  "toy_protocol = protocol_wire 6 ''Oracle'' 873 1 1 [1, 2, 3, 4, 5] [] (Some [6, 0, 0, 0, 0, 0, 0, 12])
     (Some [2, 0, 0, 0, 0, 0, 4])"

definition toy_stream :: "u8 list" where
  "toy_stream = packet_prefix False Accept (8 + length (accept_wire 319 0 8192 8192 0 8192 0))
     @ accept_wire 319 0 8192 8192 0 8192 0
     @ data_packet True 0 toy_protocol @ data_packet True 0 [2, 0, 0]
     @ data_packet True 0 (auth_body (challenge toy_crypto toy_server_key [9, 9] [1, 2, 3, 4] 4096 3))
     @ data_packet True END_OF_RESPONSE (auth_body [(''AUTH_SVR_RESPONSE'', hex_encode_upper toy_crypto toy_response, 0)])
     @ [1, 2, 3]"

lemma toy_lengths:
  "length toy_server_key = 48" "length toy_response = 48" "length toy_plain = 48"
  "aes_cbc_encrypt toy_crypto k (replicate 48 3) = Some (the (xor_cipher k (replicate 48 3)))"
  "aes_cbc_encrypt toy_crypto k toy_plain = Some (the (xor_cipher k toy_plain))"
proof -
  have l: "length SERVER_TO_CLIENT = 16" by code_simp
  show p: "length toy_plain = 48" by (simp add: toy_plain_def l)
  show "length toy_server_key = 48" by (simp add: toy_server_key_def xor_cipher_def)
  show "length toy_response = 48" using p by (simp add: toy_response_def xor_cipher_def)
  show "aes_cbc_encrypt toy_crypto k (replicate 48 3) = Some (the (xor_cipher k (replicate 48 3)))"
    by (simp add: toy_crypto_def xor_cipher_def)
  show "aes_cbc_encrypt toy_crypto k toy_plain = Some (the (xor_cipher k toy_plain))"
    using p by (simp add: toy_crypto_def xor_cipher_def)
qed

lemma toy_fits:
  "fits_packet True toy_protocol"
  "fits_packet True (auth_body (challenge toy_crypto toy_server_key [9, 9] [1, 2, 3, 4] 4096 3))"
  "fits_packet True (auth_body [(''AUTH_SVR_RESPONSE'', hex_encode_upper toy_crypto toy_response, 0)])"
proof -
  have u: "length (ub2_wire v) \<le> 3" for v by (simp add: ub2_wire_def)
  have h: "length (hex_encode_upper toy_crypto bs) = 2 * length bs" for bs
    by (rule crypto_okD(5) [OF toy_crypto_ok])
  have n: "length (show_nat 4096) = 4" "length (show_nat 3) = 1"
    by (simp_all add: show_nat.simps)
  show "fits_packet True toy_protocol"
    by (simp add: toy_protocol_def protocol_wire_def bytes_wire_def bytes_of_text_def MAX_SHORT_def)
  show "fits_packet True (auth_body [(''AUTH_SVR_RESPONSE'', hex_encode_upper toy_crypto toy_response, 0)])"
    using length_pair_wire [of "''AUTH_SVR_RESPONSE''" "hex_encode_upper toy_crypto toy_response" 0] u [of 1]
    by (simp add: auth_body_def h toy_lengths)
  show "fits_packet True (auth_body (challenge toy_crypto toy_server_key [9, 9] [1, 2, 3, 4] 4096 3))"
    using length_pair_wire [of "''AUTH_SESSKEY''" "hex_encode_upper toy_crypto toy_server_key" 0]
      length_pair_wire [of "''AUTH_VFR_DATA''" "hex_encode_upper toy_crypto [9, 9]" VERIFIER_V12C]
      length_pair_wire [of "''AUTH_PBKDF2_CSK_SALT''" "hex_encode_upper toy_crypto [1, 2, 3, 4]" 0]
      length_pair_wire [of "''AUTH_PBKDF2_VGEN_COUNT''" "show_nat (unat (4096 :: u32))" 0]
      length_pair_wire [of "''AUTH_PBKDF2_SDER_COUNT''" "show_nat (unat (3 :: u32))" 0] u [of 5]
    by (simp add: auth_body_def challenge_def h n toy_lengths)
qed

theorem login_completes_witness:
  "\<exists>s. connect_with_config assoc_index_map toy_crypto toy_env toy_draws (\<lambda>_. Inr (toy_stream, None)) toy_config = Inr s
    \<and> conn_state_of s = Ready
    \<and> cp_combo_key (se_caps s) = Some (agreed_key toy_crypto toy_draws (replicate 48 3) [1, 2, 3, 4] 3)
    \<and> cp_charset_id (se_caps s) = 873 \<and> si_banner (se_server_info s) = ''Oracle''
    \<and> si_protocol_version (se_server_info s) = 319 \<and> cn_in (se_conn s) = [1, 2, 3] \<and> se_large_sdu s"
proof -
  have b: "is_str ''Oracle''" "0 \<notin> set (bytes_of_text ''Oracle'')" by code_simp+
  have pw: "cf_password toy_config = ''tiger''" by (simp add: toy_config_def set_password_def)
  have tp: "take 16 (drop 16 toy_plain) = SERVER_TO_CLIENT" by code_simp
  have eor: "END_OF_RESPONSE AND END_OF_RESPONSE \<noteq> 0" by (simp add: END_OF_RESPONSE_def)
  show ?thesis
    by (rule login_completes [OF toy_crypto_ok toy_draws_ok, where part_a = "replicate 48 3" and plain = toy_plain
          and vfr_data = "[9, 9]" and vgen = 4096 and server_key = toy_server_key and response = toy_response
          and version = 6 and pflags = 1 and n = 1 and elems = "[1, 2, 3, 4, 5]" and fdo = "[]"
          and ccaps = "[6, 0, 0, 0, 0, 0, 0, 12]" and rcaps = "[2, 0, 0, 0, 0, 0, 4]"
          and ver = 319 and opts = 0 and sdu_low = 8192 and tdu = 8192 and flags = 0 and sdu = 8192 and ext = 0
          and types = "[2, 0, 0]" and fa = 0 and fb = 0 and fc = 0 and fe = END_OF_RESPONSE])
      (use b eor tp toy_fits in \<open>simp_all add: pw toy_lengths toy_stream_def toy_protocol_def [symmetric] toy_server_key_def
        toy_response_def NSI_NA_REQUIRED_def CCAP_FIELD_VERSION_def RCAP_TTC_def\<close>)
qed

theorem handshake_ready_iff_ok_witness:
  "\<exists>s r s'. session_new assoc_index_map toy_config toy_stream None = Inr s \<and> conn_state_of s \<noteq> Ready
    \<and> perform_handshake toy_crypto toy_env toy_draws s = (r, s')
    \<and> (conn_state_of s' = Ready \<longleftrightarrow> r = Inr ())"
proof -
  obtain c where c: "capabilities_new = Inr c" using capabilities_new_eq by blast
  then have "\<exists>s. session_new assoc_index_map toy_config toy_stream None = Inr s \<and> conn_state_of s \<noteq> Ready"
    by (simp add: session_new_def conn_new_def c)
  then obtain s where s: "session_new assoc_index_map toy_config toy_stream None = Inr s" "conn_state_of s \<noteq> Ready"
    by blast
  obtain r s' where "perform_handshake toy_crypto toy_env toy_draws s = (r, s')" by fastforce
  with handshake_ready_iff_ok [OF s(2) this] s show ?thesis by blast
qed

subsection \<open>Resends\<close>

definition resend_packet :: "u8 list" where
  "resend_packet = packet_prefix False Resend 8"

definition both :: "u8 list \<Rightarrow> u8 list option \<Rightarrow> u8 list" where
  "both p c = p @ (case c of None \<Rightarrow> [] | Some q \<Rightarrow> q)"

definition exchanged :: "u8 list \<Rightarrow> u8 list \<Rightarrow> 'm session \<Rightarrow> 'm session" where
  "exchanged out i s = s\<lparr>se_conn := (se_conn s)\<lparr>cn_in := i, cn_out := cn_out (se_conn s) @ out\<rparr>\<rparr>"

lemma exchanged_Nil: "exchanged [] i s = s\<lparr>se_conn := (se_conn s)\<lparr>cn_in := i\<rparr>\<rparr>"
  by (cases s, cases "se_conn s") (simp add: exchanged_def)

lemma exchanged_same: "exchanged [] (cn_in (se_conn s)) s = s"
  by (cases s, cases "se_conn s") (simp add: exchanged_def)

lemma send_connect_out:
  assumes "cn_open (se_conn s)" "cn_wfail (se_conn s) = None"
  shows "send_connect p c s = (Inr (), exchanged (both p c) (cn_in (se_conn s)) s)"
  using assms by (auto simp: send_connect_def andSeq_def andThen_apply on_conn_def conn_send_def stream_write_all_def
    ok_def both_def exchanged_def split: option.split)

lemma connect_loop_resend:
  assumes "cn_open (se_conn s)" "cn_wfail (se_conn s) = None" "\<not> se_large_sdu s"
    and "cn_in (se_conn s) = resend_packet @ i"
  shows "connect_loop p c k s =
    (if MAX_RESENDS < k + 1
     then (Inl (Err (ProtocolError ''Server requested too many resends during connect'')), exchanged [] i s)
     else connect_loop p c (k + 1) (exchanged (both p c) i s))"
proof -
  have t: "resend_packet ! 4 = 11" "length resend_packet = PACKET_HEADER_SIZE"
    by (simp_all add: resend_packet_def packet_prefix_type PACKET_HEADER_SIZE_def)
  have r: "on_conn conn_receive s = (Inr resend_packet, exchanged [] i s)"
    using conn_receive_packet [of "se_conn s" "[]" Resend i] assms
    by (simp add: on_conn_def resend_packet_def exchanged_Nil)
  have e: "send_connect p c (exchanged [] i s) = (Inr (), exchanged (both p c) i s)"
    using send_connect_out [of "exchanged [] i s" p c] assms by (simp add: exchanged_def)
  show ?thesis
    by (subst connect_loop.simps) (simp add: r t e andThen_apply fail_def lift_res_def)
qed

lemma connect_loop_resends:
  assumes "cn_open (se_conn s)" "cn_wfail (se_conn s) = None" "\<not> se_large_sdu s"
    and "cn_in (se_conn s) = concat (replicate n resend_packet) @ i" "k + n \<le> MAX_RESENDS"
  shows "connect_loop p c k s = connect_loop p c (k + n) (exchanged (concat (replicate n (both p c))) i s)"
  using assms
proof (induction n arbitrary: s k)
  case 0
  then show ?case using exchanged_same [of s] by simp
next
  case (Suc n)
  let ?s = "exchanged (both p c) (concat (replicate n resend_packet) @ i) s"
  have "connect_loop p c k s = connect_loop p c (k + 1) ?s"
    using Suc.prems by (subst connect_loop_resend) simp_all
  also have "\<dots> = connect_loop p c (k + 1 + n) (exchanged (concat (replicate n (both p c))) i ?s)"
    using Suc.prems by (intro Suc.IH) (simp_all add: exchanged_def)
  finally show ?case by (simp add: exchanged_def)
qed

text \<open>
  C32: a server may ask for the CONNECT packet again: up to three requests are met, each with the
  packet and its continuation, and the loop goes on with the packet behind them; a fourth ends the
  handshake with an error and nothing more is sent.
\<close>

theorem connect_resends_bounded:
  assumes "cn_open (se_conn s)" "cn_wfail (se_conn s) = None" "\<not> se_large_sdu s"
    and "cn_in (se_conn s) = concat (replicate n resend_packet) @ i"
  shows "connect_loop p c 0 s =
    (if n \<le> 3 then connect_loop p c n (exchanged (concat (replicate n (both p c))) i s)
     else (Inl (Err (ProtocolError ''Server requested too many resends during connect'')),
           exchanged (concat (replicate 3 (both p c))) (concat (replicate (n - 4) resend_packet) @ i) s))"
proof (cases "n \<le> 3")
  case True
  then show ?thesis using connect_loop_resends [OF assms, of 0 p c] by (simp add: MAX_RESENDS_def)
next
  case False
  then obtain m where m: "n = 3 + Suc m" using less_imp_Suc_add [of 3 n] by auto
  let ?i = "concat (replicate (Suc m) resend_packet) @ i"
  have i: "cn_in (se_conn s) = concat (replicate 3 resend_packet) @ ?i"
    unfolding assms(4) m replicate_add by simp
  have "connect_loop p c 0 s = connect_loop p c 3 (exchanged (concat (replicate 3 (both p c))) ?i s)"
    using connect_loop_resends [OF assms(1-3) i, of 0 p c] by (simp add: MAX_RESENDS_def)
  also have "\<dots> = (Inl (Err (ProtocolError ''Server requested too many resends during connect'')),
      exchanged (concat (replicate 3 (both p c))) (concat (replicate m resend_packet) @ i) s)"
    using assms(1-3) by (subst connect_loop_resend [where i = "concat (replicate m resend_packet) @ i"])
      (simp_all add: exchanged_def MAX_RESENDS_def)
  finally show ?thesis using False m by simp
qed

theorem connect_resends_bounded_witness:
  "\<exists>s. connect_loop [1, 2] None 0 s = (Inl (Err (ProtocolError ''Server requested too many resends during connect'')),
      exchanged (concat (replicate 3 (both [1, 2] None))) (concat (replicate (5 - 4) resend_packet) @ []) (s :: assoc_map session))"
proof -
  obtain c where c: "capabilities_new = Inr c" using capabilities_new_eq by blast
  let ?in = "concat (replicate 5 resend_packet) @ []"
  obtain s :: "assoc_map session" where s: "session_new assoc_index_map toy_config ?in None = Inr s"
    by (simp add: session_new_def c)
  then have "cn_open (se_conn s)" "cn_wfail (se_conn s) = None" "\<not> se_large_sdu s" "cn_in (se_conn s) = ?in"
    by (auto simp: session_new_def conn_new_def c)
  from connect_resends_bounded [OF this, of "[1, 2]" None] show ?thesis by (intro exI [of _ s]) simp
qed

end
