(* ===== verification/Fetch.thy ===== *)
theory Fetch
  imports Execute
begin

section \<open>Fetch and function requests\<close>

text \<open>
  \<open>FetchMessage\<close> of \<open>src/src/messages/fetch.rs\<close>, and the body shared with the one-byte functions
  that \<open>Connection::send_simple_function_inner\<close> sends.
\<close>

record fetch_message =
  fm_cursor_id :: u16
  fm_num_rows :: u32
  fm_orientation :: "fetch_orientation option"
  fm_offset :: i64
  fm_sequence_number :: u8

definition fetch_message_new :: "u16 \<Rightarrow> u32 \<Rightarrow> fetch_message" where
  "fetch_message_new cursor_id num_rows =
     \<lparr>fm_cursor_id = cursor_id, fm_num_rows = num_rows, fm_orientation = None, fm_offset = 0,
      fm_sequence_number = 1\<rparr>"

definition fetch_message_scrollable :: "u16 \<Rightarrow> u32 \<Rightarrow> fetch_orientation \<Rightarrow> i64 \<Rightarrow> fetch_message" where
  "fetch_message_scrollable cursor_id num_rows orientation offset =
     (fetch_message_new cursor_id num_rows)\<lparr>fm_orientation := Some orientation, fm_offset := offset\<rparr>"

definition fetch_fields :: "u8 \<Rightarrow> fetch_message \<Rightarrow> unit writer" where
  "fetch_fields ver m =
     do_all ([write_function_header ver FnFetch (fm_sequence_number m),
        write_ub4 (ucast (fm_cursor_id m)), write_ub4 (fm_num_rows m)]
        @ (case fm_orientation m of
             None \<Rightarrow> []
           | Some t \<Rightarrow> [write_ub4 (fetch_orientation_code t), write_ub4 (ucast (fm_offset m))]))"

definition build_fetch_request :: "u8 \<Rightarrow> bool \<Rightarrow> fetch_message \<Rightarrow> u8 list result" where
  "build_fetch_request ver large_sdu m =
     res_bind (written (fetch_fields ver m)) (\<lambda>payload.
       Inr (data_header large_sdu (PACKET_HEADER_SIZE + 2 + length payload)
         @ be_bytes 2 END_OF_REQUEST @ payload))"

text \<open>The request of a function without arguments.\<close>

definition function_request :: "u8 \<Rightarrow> bool \<Rightarrow> function_code \<Rightarrow> u8 \<Rightarrow> u8 list result" where
  "function_request ver large_sdu code seq =
     res_bind (written (andSeq (write_u16_be END_OF_REQUEST) (write_function_header ver code seq))) (\<lambda>payload.
       Inr (data_header large_sdu (PACKET_HEADER_SIZE + length payload) @ payload))"

subsection \<open>What is sent\<close>

definition function_wire :: "u8 \<Rightarrow> function_code \<Rightarrow> u8 \<Rightarrow> u8 list" where
  "function_wire ver code seq =
     [message_type_byte MsgFunction, function_code_byte code, seq] @ token_wire ver"

lemma writes_function_header [writes_intros]:
  "writes (write_function_header ver code seq) (function_wire ver code seq)"
proof -
  have "writes (do_all [write_u8 (message_type_byte MsgFunction), write_u8 (function_code_byte code), write_u8 seq,
       write_token ver]) (concat [[message_type_byte MsgFunction], [function_code_byte code], [seq], token_wire ver])"
    by (rule writes_do_all) (simp add: writes_raw writes_token)
  then show ?thesis by (simp add: write_function_header_def function_wire_def)
qed

lemma function_request_ok:
  "function_request ver large_sdu code seq =
     Inr (data_header large_sdu (10 + length (function_wire ver code seq))
       @ be_bytes 2 END_OF_REQUEST @ function_wire ver code seq)"
  using written_writes [OF writes_andSeq [OF writes_raw(4) [of END_OF_REQUEST] writes_function_header]]
  by (simp add: function_request_def PACKET_HEADER_SIZE_def)

lemma fetch_request_ok:
  assumes "fm_orientation m = None"
  shows "build_fetch_request ver large_sdu m =
    (let w = function_wire ver FnFetch (fm_sequence_number m) @ ub4_wire (ucast (fm_cursor_id m)) @ ub4_wire (fm_num_rows m)
     in Inr (data_header large_sdu (10 + length w) @ be_bytes 2 END_OF_REQUEST @ w))"
proof -
  have "writes (fetch_fields ver m) (concat [function_wire ver FnFetch (fm_sequence_number m),
      ub4_wire (ucast (fm_cursor_id m)), ub4_wire (fm_num_rows m)])"
    unfolding fetch_fields_def by (rule writes_do_all) (simp add: assms writes_function_header writes_ub4)
  from written_writes [OF this] show ?thesis
    by (simp add: build_fetch_request_def PACKET_HEADER_SIZE_def)
qed

end
