(* ===== verification/LobOp.thy ===== *)
theory LobOp
  imports Fetch
begin

section \<open>LOB operation messages\<close>

text \<open>
  \<open>LobOpMessage\<close> of \<open>src/src/messages/lob_op.rs\<close>: one message for every operation on large
  objects.  A borrowed locator and an owned one (\<open>CREATE_TEMP\<close>) are the two optional fields of the
  source.
\<close>

definition LOB_GET_LENGTH :: u32 where "LOB_GET_LENGTH = 0x0001"
definition LOB_READ :: u32 where "LOB_READ = 0x0002"
definition LOB_TRIM :: u32 where "LOB_TRIM = 0x0020"
definition LOB_WRITE :: u32 where "LOB_WRITE = 0x0040"
definition LOB_GET_CHUNK_SIZE :: u32 where "LOB_GET_CHUNK_SIZE = 0x4000"
definition LOB_CREATE_TEMP :: u32 where "LOB_CREATE_TEMP = 0x0110"
definition LOB_IS_OPEN :: u32 where "LOB_IS_OPEN = 0x11000"
definition LOB_FILE_EXISTS :: u32 where "LOB_FILE_EXISTS = 0x0800"
definition LOB_FILE_OPEN :: u32 where "LOB_FILE_OPEN = 0x0100"
definition LOB_FILE_CLOSE :: u32 where "LOB_FILE_CLOSE = 0x0200"
definition LOB_FILE_ISOPEN :: u32 where "LOB_FILE_ISOPEN = 0x0400"
definition LOB_DURATION_SESSION :: u64 where "LOB_DURATION_SESSION = 10"
definition LOB_OPEN_READ_ONLY :: u8 where "LOB_OPEN_READ_ONLY = 11"

lemmas lob_operations = LOB_GET_LENGTH_def LOB_READ_def LOB_TRIM_def LOB_WRITE_def LOB_GET_CHUNK_SIZE_def
  LOB_CREATE_TEMP_def LOB_IS_OPEN_def LOB_FILE_EXISTS_def LOB_FILE_OPEN_def LOB_FILE_CLOSE_def LOB_FILE_ISOPEN_def

record lob_op_message =
  lm_locator :: "lob_locator option"
  lm_owned_locator :: "u8 list option"
  lm_operation :: u32
  lm_source_offset :: u64
  lm_dest_offset :: u64
  lm_amount :: u64
  lm_dest_length :: u32
  lm_send_amount :: bool
  lm_write_data :: "u8 list option"
  lm_sequence_number :: u8
  lm_oracle_type :: "oracle_type option"

text \<open>The fields that the constructors for an existing LOB share.\<close>

definition lob_message :: "lob_locator \<Rightarrow> u32 \<Rightarrow> bool \<Rightarrow> lob_op_message" where
  "lob_message locator operation send_amount =
     \<lparr>lm_locator = Some locator, lm_owned_locator = None, lm_operation = operation, lm_source_offset = 0,
      lm_dest_offset = 0, lm_amount = 0, lm_dest_length = 0, lm_send_amount = send_amount, lm_write_data = None,
      lm_sequence_number = 0, lm_oracle_type = None\<rparr>"

definition new_read :: "lob_locator \<Rightarrow> u64 \<Rightarrow> u64 \<Rightarrow> lob_op_message" where
  "new_read locator offset amount =
     (lob_message locator LOB_READ True)\<lparr>lm_source_offset := offset, lm_amount := amount\<rparr>"

definition new_write :: "lob_locator \<Rightarrow> u64 \<Rightarrow> u8 list \<Rightarrow> lob_op_message" where
  "new_write locator offset data =
     (lob_message locator LOB_WRITE False)\<lparr>lm_source_offset := offset, lm_write_data := Some data\<rparr>"

definition new_get_length :: "lob_locator \<Rightarrow> lob_op_message" where
  "new_get_length locator = lob_message locator LOB_GET_LENGTH True"

definition new_trim :: "lob_locator \<Rightarrow> u64 \<Rightarrow> lob_op_message" where
  "new_trim locator new_size = (lob_message locator LOB_TRIM True)\<lparr>lm_amount := new_size\<rparr>"

definition new_get_chunk_size :: "lob_locator \<Rightarrow> lob_op_message" where
  "new_get_chunk_size locator = lob_message locator LOB_GET_CHUNK_SIZE True"

definition new_file_exists :: "lob_locator \<Rightarrow> lob_op_message" where
  "new_file_exists locator = lob_message locator LOB_FILE_EXISTS False"

definition new_file_open :: "lob_locator \<Rightarrow> lob_op_message" where
  "new_file_open locator = (lob_message locator LOB_FILE_OPEN True)\<lparr>lm_amount := ucast LOB_OPEN_READ_ONLY\<rparr>"

definition new_file_close :: "lob_locator \<Rightarrow> lob_op_message" where
  "new_file_close locator = lob_message locator LOB_FILE_CLOSE False"

definition new_file_is_open :: "lob_locator \<Rightarrow> lob_op_message" where
  "new_file_is_open locator = lob_message locator LOB_FILE_ISOPEN False"

definition new_create_temp :: "oracle_type \<Rightarrow> lob_op_message" where
  "new_create_temp t =
     \<lparr>lm_locator = None, lm_owned_locator = Some (replicate 40 0), lm_operation = LOB_CREATE_TEMP,
      lm_source_offset = (if t = OraClob then 1 else 0), lm_dest_offset = ucast (oracle_type_byte t),
      lm_amount = LOB_DURATION_SESSION, lm_dest_length = ucast LOB_DURATION_SESSION, lm_send_amount = True,
      lm_write_data = None, lm_sequence_number = 0, lm_oracle_type = Some t\<rparr>"

subsection \<open>The message on the wire\<close>

definition lm_locator_bytes :: "lob_op_message \<Rightarrow> u8 list" where
  "lm_locator_bytes m =
     (case lm_locator m of Some loc \<Rightarrow> loc_bytes loc
      | None \<Rightarrow> (case lm_owned_locator m of Some owned \<Rightarrow> owned | None \<Rightarrow> []))"

definition is_create_temp :: "lob_op_message \<Rightarrow> bool" where
  "is_create_temp m \<longleftrightarrow> lm_operation m = LOB_CREATE_TEMP"

definition null_lob_pointer :: "lob_op_message \<Rightarrow> bool" where
  "null_lob_pointer m \<longleftrightarrow>
     lm_operation m \<in> {LOB_FILE_EXISTS, LOB_FILE_ISOPEN, LOB_CREATE_TEMP, LOB_IS_OPEN}"

definition write_lob_message :: "u8 \<Rightarrow> lob_op_message \<Rightarrow> unit writer" where
  "write_lob_message ver m =
     (let loc = lm_locator_bytes m; flag = (\<lambda>b. write_u8 (if b then 1 else 0))
      in do_all ([write_function_header ver FnLobOp (lm_sequence_number m),
           flag (loc \<noteq> []), write_ub4 (of_nat (length loc)), write_u8 0, write_ub4 (lm_dest_length m),
           write_ub4 0, write_ub4 0, flag (is_create_temp m), write_u8 0, flag (null_lob_pointer m),
           write_ub4 (lm_operation m), write_u8 0, write_u8 0, write_ub8 (lm_source_offset m),
           write_ub8 (lm_dest_offset m), flag (lm_send_amount m),
           write_u16_be 0, write_u16_be 0, write_u16_be 0]
         @ (if loc \<noteq> [] then [write_bytes loc] else [])
         @ (if is_create_temp m then [write_ub4 (ucast CHARSET_UTF8)] else [])
         @ (case lm_write_data m of
              Some data \<Rightarrow> [write_u8 (message_type_byte MsgLobData), write_bytes_with_length (Some data)]
            | None \<Rightarrow> [])
         @ (if lm_send_amount m then [write_ub8 (lm_amount m)] else [])))"

definition build_message_only :: "u8 \<Rightarrow> lob_op_message \<Rightarrow> u8 list result" where
  "build_message_only ver m = written (write_lob_message ver m)"

text \<open>
  \<open>payload_len as u16 + PACKET_HEADER_SIZE as u16\<close>: the length is truncated first, and the sum can
  overflow.
\<close>

definition lob_packet_length :: "bool \<Rightarrow> nat \<Rightarrow> unit writer" where
  "lob_packet_length large_sdu n =
     (if large_sdu then
        andThen (lift_res (add_chk (of_nat n) (8 :: u32))) write_u32_be
      else
        andThen (lift_res (add_chk (of_nat n) (8 :: u16))) (\<lambda>len.
          andSeq (write_u16_be len) (write_u16_be 0)))"

definition build_lob_request :: "u8 \<Rightarrow> bool \<Rightarrow> lob_op_message \<Rightarrow> u8 list result" where
  "build_lob_request ver large_sdu m =
     res_bind (build_message_only ver m) (\<lambda>message.
       written (andSeq (lob_packet_length large_sdu (2 + length message))
         (do_all [write_u8 (packet_type_byte Data), write_u8 0, write_u16_be 0, write_u16_be END_OF_REQUEST,
            write_bytes message])))"

subsection \<open>What is sent\<close>

definition lob_wire :: "u8 \<Rightarrow> lob_op_message \<Rightarrow> u8 list" where
  "lob_wire ver m =
     (let loc = lm_locator_bytes m; flag = (\<lambda>b. [if b then 1 else 0])
      in function_wire ver FnLobOp (lm_sequence_number m)
         @ flag (loc \<noteq> []) @ ub4_wire (of_nat (length loc)) @ [0] @ ub4_wire (lm_dest_length m)
         @ ub4_wire 0 @ ub4_wire 0 @ flag (is_create_temp m) @ [0] @ flag (null_lob_pointer m)
         @ ub4_wire (lm_operation m) @ [0, 0] @ ub8_wire (lm_source_offset m)
         @ ub8_wire (lm_dest_offset m) @ flag (lm_send_amount m) @ replicate 6 0 @ loc
         @ (if is_create_temp m then ub4_wire (ucast CHARSET_UTF8) else [])
         @ (case lm_write_data m of
              Some data \<Rightarrow> message_type_byte MsgLobData # bytes_wire (Some data) | None \<Rightarrow> [])
         @ (if lm_send_amount m then ub8_wire (lm_amount m) else []))"

lemma writes_lob_message: "writes (write_lob_message ver m) (lob_wire ver m)"
proof -
  let ?loc = "lm_locator_bytes m" and ?flag = "\<lambda>b. [if b then 1 else 0 :: u8]"
  let ?ws = "[function_wire ver FnLobOp (lm_sequence_number m),
      ?flag (?loc \<noteq> []), ub4_wire (of_nat (length ?loc)), [0], ub4_wire (lm_dest_length m),
      ub4_wire 0, ub4_wire 0, ?flag (is_create_temp m), [0], ?flag (null_lob_pointer m),
      ub4_wire (lm_operation m), [0], [0], ub8_wire (lm_source_offset m),
      ub8_wire (lm_dest_offset m), ?flag (lm_send_amount m), be_bytes 2 (0 :: u16), be_bytes 2 (0 :: u16), be_bytes 2 (0 :: u16)]
    @ (if ?loc \<noteq> [] then [?loc] else []) @ (if is_create_temp m then [ub4_wire (ucast CHARSET_UTF8)] else [])
    @ (case lm_write_data m of Some data \<Rightarrow> [[message_type_byte MsgLobData], bytes_wire (Some data)] | None \<Rightarrow> [])
    @ (if lm_send_amount m then [ub8_wire (lm_amount m)] else [])"
  have "writes (write_lob_message ver m) (concat ?ws)"
    unfolding write_lob_message_def Let_def
    by (rule writes_do_all, intro list_all2_appendI)
      (auto simp: writes_raw writes_ub4 writes_ub8 writes_function_header intro: writes_bytes_with_length
        split: option.split)
  also have "concat ?ws = lob_wire ver m"
    by (simp add: lob_wire_def Let_def be_bytes_def numeral_eq_Suc split: option.split)
  finally show ?thesis .
qed

lemma add_chk_of_nat:
  fixes b :: "'a::len word"
  assumes "n + unat b < 2 ^ LENGTH('a)"
  shows "add_chk (of_nat n) b = Inr (of_nat n + b)"
  using assms by (simp add: add_chk_def unat_of_nat)

text \<open>A message that fits is one data packet, with the end-of-request flag.\<close>

lemma lob_request_ok:
  assumes "10 + length (lob_wire ver m) < (if large_sdu then 2 ^ 32 else 2 ^ 16)"
  shows "build_lob_request ver large_sdu m =
    Inr (data_header large_sdu (10 + length (lob_wire ver m)) @ be_bytes 2 END_OF_REQUEST @ lob_wire ver m)"
proof -
  let ?n = "2 + length (lob_wire ver m)"
  have len: "writes (lob_packet_length large_sdu ?n)
      (if large_sdu then be_bytes 4 (of_nat (10 + length (lob_wire ver m)) :: u32)
       else be_bytes 2 (of_nat (10 + length (lob_wire ver m)) :: u16) @ [0, 0])"
  proof (cases large_sdu)
    case True
    then have "add_chk (of_nat ?n) 8 = (Inr (of_nat (10 + length (lob_wire ver m))) :: u32 result)"
      using assms by (subst add_chk_of_nat) simp_all
    then show ?thesis using True by (simp add: lob_packet_length_def writes_raw)
  next
    case False
    then have "add_chk (of_nat ?n) 8 = (Inr (of_nat (10 + length (lob_wire ver m))) :: u16 result)"
      using assms by (subst add_chk_of_nat) simp_all
    moreover have "writes (write_u16_be 0) [0, 0]" using writes_raw(4) [of 0] by (simp add: be_bytes_def numeral_2_eq_2)
    ultimately show ?thesis using False by (simp add: lob_packet_length_def writes_andSeq writes_raw)
  qed
  have rest: "writes (do_all [write_u8 (packet_type_byte Data), write_u8 0, write_u16_be 0,
      write_u16_be END_OF_REQUEST, write_bytes (lob_wire ver m)])
    (concat [[packet_type_byte Data], [0], be_bytes 2 (0 :: u16), be_bytes 2 END_OF_REQUEST, lob_wire ver m])"
    by (rule writes_do_all) (simp add: writes_raw)
  have "be_bytes 2 (0 :: u16) = [0, 0]" by (simp add: be_bytes_def numeral_2_eq_2)
  then have "written (andSeq (lob_packet_length large_sdu ?n)
      (do_all [write_u8 (packet_type_byte Data), write_u8 0, write_u16_be 0, write_u16_be END_OF_REQUEST,
         write_bytes (lob_wire ver m)])) =
    Inr (data_header large_sdu (10 + length (lob_wire ver m)) @ be_bytes 2 END_OF_REQUEST @ lob_wire ver m)"
    using written_writes [OF writes_andSeq [OF len rest]] by (simp add: data_header_def split: if_splits)
  then show ?thesis
    using written_writes [OF writes_lob_message] by (simp add: build_lob_request_def build_message_only_def)
qed

end
