(* ===== verification/Client.thy ===== *)
theory Client
  imports Session LobOp Response
begin

section \<open>The operations of a connection\<close>

text \<open>
  The public operations of \<open>Connection\<close> in \<open>src/src/connection.rs\<close>: statements and their cache,
  fetches, cursors and transactions.  An operation is a state transformer on the session whose
  result is optional: the response parsers and the multi-packet send are partial functions, and
  \<open>None\<close> stands for not returning.
\<close>

record 'm client_env =
  ce_map :: "'m index_map"
  ce_clock :: "nat \<Rightarrow> nat"
  ce_ins :: json_insert
  ce_depth :: nat
  ce_texts :: texts

type_synonym ('m, 'a) client = "'m session \<Rightarrow> ('a result \<times> 'm session) option"

definition act :: "('m, 'a) session_action \<Rightarrow> ('m, 'a) client" where
  "act m = (\<lambda>s. Some (m s))"

definition cthen :: "('m, 'a) client \<Rightarrow> ('a \<Rightarrow> ('m, 'b) client) \<Rightarrow> ('m, 'b) client" where
  "cthen m f = (\<lambda>s. case m s of None \<Rightarrow> None | Some (Inl e, s') \<Rightarrow> Some (Inl e, s') | Some (Inr a, s') \<Rightarrow> f a s')"

text \<open>\<open>let result = operation;\<close> without \<open>?\<close>: an error is a value, a panic is not.\<close>

definition attempt :: "('m, 'a) client \<Rightarrow> ('m, 'a result) client" where
  "attempt m = (\<lambda>s. case m s of None \<Rightarrow> None | Some (Inl Panic, s') \<Rightarrow> Some (Inl Panic, s') | Some (r, s') \<Rightarrow> Some (Inr r, s'))"

text \<open>A response parser with the session state it updates.\<close>

definition parsed :: "('m session \<Rightarrow> session_state \<Rightarrow> ('a result \<times> session_state) option) \<Rightarrow> ('m, 'a) client" where
  "parsed p = (\<lambda>s. map_option (\<lambda>(r, ss). (r, s\<lparr>se_state := ss\<rparr>)) (p s (se_state s)))"

definition from_result :: "'a result option \<Rightarrow> ('m, 'a) client" where
  "from_result r = (\<lambda>s. map_option (\<lambda>x. (x, s)) r)"

subsection \<open>A request and its response\<close>

definition is_marker :: "u8 list \<Rightarrow> bool" where
  "is_marker response \<longleftrightarrow> response ! 4 = packet_type_byte Marker"

text \<open>\<open>&response[PACKET_HEADER_SIZE..]\<close>.\<close>

definition payload_of :: "u8 list \<Rightarrow> u8 list result" where
  "payload_of response = (if length response < PACKET_HEADER_SIZE then Inl Panic else Inr (drop PACKET_HEADER_SIZE response))"

definition exchange :: "string \<Rightarrow> (u8 \<Rightarrow> 'm session \<Rightarrow> u8 list result) \<Rightarrow> ('m, u8 list \<times> u8 list) session_action" where
  "exchange empty_text build =
     andThen (on_conn next_sequence_number) (\<lambda>seq.
     andSeq (send_built (build seq)) (
     andThen (on_conn receive_response_or_marker) (\<lambda>(response, partial).
     if length response \<le> PACKET_HEADER_SIZE then fail (Protocol empty_text) else ok (response, partial))))"

definition reset_payload :: "u8 list \<Rightarrow> ('m, u8 list) session_action" where
  "reset_payload partial =
     andThen (on_conn (handle_marker_reset_with_partial partial)) (\<lambda>response. lift_res (payload_of response))"

text \<open>After a marker: the response that follows the reset is parsed in place of the first.\<close>

definition recovered :: "u8 list \<times> u8 list \<Rightarrow> ('m, u8 list) session_action" where
  "recovered = (\<lambda>(response, partial).
     if is_marker response then reset_payload partial else lift_res (payload_of response))"

text \<open>After a marker: the response that follows the reset is parsed as an error.\<close>

definition marker_error :: "u8 list \<Rightarrow> ('m, query_result) session_action" where
  "marker_error partial = andThen (reset_payload partial) (\<lambda>payload. lift_res (parse_error_response payload))"

definition execute_request :: "'m client_env \<Rightarrow> execute_message \<Rightarrow> u8 \<Rightarrow> 'm session \<Rightarrow> u8 list result" where
  "execute_request env m seq s =
     build_execute_request (ce_texts env) (se_ver s) (se_large_sdu s) (m\<lparr>em_sequence_number := seq\<rparr>)"

definition with_params :: "value list \<Rightarrow> execute_message \<Rightarrow> execute_message" where
  "with_params params m = (if params = [] then m else set_bind_values params m)"

subsection \<open>Fetching\<close>

definition fetch_more :: "'m client_env \<Rightarrow> u16 \<Rightarrow> column_info list \<Rightarrow> u32 \<Rightarrow> ('m, query_result) client" where
  "fetch_more env cursor_id columns fetch_size =
     cthen (act (andSeq ensure_ready
       (andThen (exchange ''Empty fetch response'' (\<lambda>seq s.
           build_fetch_request (se_ver s) (se_large_sdu s)
             ((fetch_message_new cursor_id fetch_size)\<lparr>fm_sequence_number := seq\<rparr>)))
         recovered))) (\<lambda>payload.
     parsed (\<lambda>s. parse_fetch_response (ce_ins env) (ce_depth env) (se_ver s) cursor_id columns payload))"

text \<open>A cursor that PL/SQL returned: a statement without text that only fetches.\<close>

definition cursor_statement :: "u16 \<Rightarrow> column_info list \<Rightarrow> statement" where
  "cursor_statement cursor_id columns =
     set_statement_type StQuery (set_executed True (set_columns columns (set_cursor_id cursor_id (statement_new []))))"

definition fetch_cursor_with_size :: "'m client_env \<Rightarrow> ref_cursor \<Rightarrow> u32 \<Rightarrow> ('m, query_result) client" where
  "fetch_cursor_with_size env cursor fetch_size =
     (if rc_cursor_id cursor = 0 then act (fail (InvalidCursor ''Cursor ID is 0 (not initialized)''))
      else cthen (act (andSeq ensure_ready
        (exchange ''Empty cursor response'' (execute_request env
          (execute_message_new (cursor_statement (rc_cursor_id cursor) (rc_columns cursor))
            (options_for_ref_cursor fetch_size)))))) (\<lambda>(response, partial).
      if is_marker response then act (marker_error partial)
      else cthen (act (lift_res (payload_of response))) (\<lambda>payload.
        parsed (\<lambda>s. parse_fetch_response (ce_ins env) (ce_depth env) (se_ver s) (rc_cursor_id cursor)
          (rc_columns cursor) payload))))"

definition fetch_cursor :: "'m client_env \<Rightarrow> ref_cursor \<Rightarrow> ('m, query_result) client" where
  "fetch_cursor env cursor = fetch_cursor_with_size env cursor 100"

definition fetch_implicit_result_with_size :: "'m client_env \<Rightarrow> implicit_result \<Rightarrow> u32 \<Rightarrow> ('m, query_result) client" where
  "fetch_implicit_result_with_size env r fetch_size =
     fetch_cursor_with_size env (ref_cursor_new (ir_cursor_id r) (ir_columns r)) fetch_size"

definition fetch_implicit_result :: "'m client_env \<Rightarrow> implicit_result \<Rightarrow> ('m, query_result) client" where
  "fetch_implicit_result env r = fetch_implicit_result_with_size env r 100"

text \<open>
  \<open>fetch_remaining_query_rows\<close>: after a full first batch, fetch until a batch is short or the
  server says there is no more.
\<close>

partial_function (option) fetch_loop ::
  "'m client_env \<Rightarrow> query_result \<Rightarrow> u32 \<Rightarrow> 'm session \<Rightarrow> (query_result result \<times> 'm session) option" where
  "fetch_loop env r fetch_size s =
     (case fetch_more env (qr_cursor_id r) (qr_columns r) fetch_size s of
        None \<Rightarrow> None
      | Some (Inl e, s') \<Rightarrow> Some (Inl e, s')
      | Some (Inr batch, s') \<Rightarrow>
          if length (qr_rows batch) < unat fetch_size \<or> \<not> qr_has_more_rows batch
          then Some (Inr (r\<lparr>qr_rows := qr_rows r @ qr_rows batch, qr_has_more_rows := False\<rparr>), s')
          else fetch_loop env (r\<lparr>qr_rows := qr_rows r @ qr_rows batch\<rparr>) fetch_size s')"

definition fetch_remaining_query_rows :: "'m client_env \<Rightarrow> query_result \<Rightarrow> u32 \<Rightarrow> ('m, query_result) client" where
  "fetch_remaining_query_rows env r fetch_size =
     (if qr_cursor_id r = 0 \<or> qr_columns r = [] \<or> length (qr_rows r) < unat fetch_size
      then act (ok (r\<lparr>qr_has_more_rows := False\<rparr>))
      else fetch_loop env r fetch_size)"

subsection \<open>Executing queries\<close>

definition PREFETCH_ROWS :: u32 where "PREFETCH_ROWS = 100"

text \<open>One execution; the flag says that a marker came and the result is that of the error response.\<close>

definition query_round ::
  "'m client_env \<Rightarrow> string \<Rightarrow> execute_message \<Rightarrow> column_info list \<Rightarrow> ('m, bool \<times> query_result) client" where
  "query_round env empty_text m known =
     cthen (act (exchange empty_text (execute_request env m))) (\<lambda>(response, partial).
     if is_marker response then act (fmap (Pair True) (marker_error partial))
     else cthen (act (lift_res (payload_of response))) (\<lambda>payload.
       cthen (parsed (\<lambda>s. parse_query_response_with_columns (ce_ins env) (ce_depth env) (se_ver s) known payload))
         (\<lambda>r. act (ok (False, r)))))"

definition define_statement :: "query_result \<Rightarrow> statement \<Rightarrow> statement" where
  "define_statement r stmt =
     set_executed True (set_no_prefetch True (set_requires_define True
       (set_cursor_id (qr_cursor_id r) (set_columns (qr_columns r) stmt))))"

definition needs_define :: "query_result \<Rightarrow> statement \<Rightarrow> bool" where
  "needs_define r stmt \<longleftrightarrow>
     list_ex (\<lambda>col. is_lob (ci_oracle_type col)) (qr_columns r) \<and> \<not> st_requires_define stmt"

text \<open>Large object columns are described by the first execution and defined for the second.\<close>

definition execute_query_with_params :: "'m client_env \<Rightarrow> statement \<Rightarrow> value list \<Rightarrow> ('m, query_result) client" where
  "execute_query_with_params env stmt params =
     cthen (query_round env ''Empty query response''
         (with_params params (execute_message_new stmt (options_for_query PREFETCH_ROWS))) []) (\<lambda>(early, r).
     if early then act (ok r)
     else if needs_define r stmt then
       cthen (query_round env ''Empty define response''
           (execute_message_new (define_statement r stmt) (options_for_query PREFETCH_ROWS))
           (st_columns (define_statement r stmt))) (\<lambda>(early, r').
       if early then act (ok r') else fetch_remaining_query_rows env r' PREFETCH_ROWS)
     else fetch_remaining_query_rows env r PREFETCH_ROWS)"

subsection \<open>Executing other statements\<close>

definition dml_options :: "statement \<Rightarrow> execute_options" where
  "dml_options stmt =
     (if is_plsql stmt \<and> st_cursor_id stmt = 0 then (options_for_dml False)\<lparr>eo_no_implicit_release := True\<rparr>
      else options_for_dml False)"

definition execute_dml_with_params :: "'m client_env \<Rightarrow> statement \<Rightarrow> value list \<Rightarrow> ('m, query_result) client" where
  "execute_dml_with_params env stmt params =
     cthen (act (andThen (exchange ''Empty DML response''
         (execute_request env (with_params params (execute_message_new stmt (dml_options stmt))))) recovered)) (\<lambda>payload.
     parsed (\<lambda>s. parse_dml_response payload))"

subsection \<open>Statements and their cache\<close>

text \<open>The cached statement, checked out, or a new one; the flag says which.\<close>

definition checkout :: "'m client_env \<Rightarrow> string \<Rightarrow> ('m, statement \<times> bool) session_action" where
  "checkout env sql = (\<lambda>s.
     case se_cache s of
       None \<Rightarrow> (Inr (statement_new sql, False), s)
     | Some cache \<Rightarrow>
         (case cache_get (ce_map env) (ce_clock env (se_ticks s)) sql cache of
            (found, cache') \<Rightarrow>
              (Inr (case found of Some stmt \<Rightarrow> (stmt, True) | None \<Rightarrow> (statement_new sql, False)),
               s\<lparr>se_cache := Some cache', se_ticks := se_ticks s + 1\<rparr>)))"

definition on_cache :: "('m stmt_cache \<Rightarrow> 'm stmt_cache) \<Rightarrow> ('m, unit) session_action" where
  "on_cache f = modify (\<lambda>s. s\<lparr>se_cache := map_option f (se_cache s)\<rparr>)"

definition give_back :: "'m client_env \<Rightarrow> string \<Rightarrow> bool \<Rightarrow> ('m, unit) session_action" where
  "give_back env sql close =
     on_cache (\<lambda>c. let c' = return_statement (ce_map env) sql c in if close then mark_cursor_closed (ce_map env) sql c' else c')"

definition remember :: "'m client_env \<Rightarrow> string \<Rightarrow> statement \<Rightarrow> bool \<Rightarrow> ('m, unit) session_action" where
  "remember env sql stmt close =
     andThen (asks (\<lambda>s. ce_clock env (se_ticks s))) (\<lambda>t.
     andSeq (modify (\<lambda>s. s\<lparr>se_ticks := se_ticks s + 1\<rparr>))
       (on_cache (\<lambda>c. let c' = cache_put (ce_map env) t sql stmt c
                       in if close then mark_cursor_closed (ce_map env) sql c' else c')))"

text \<open>
  What happens to the cache after the execution.  \<open>close\<close> says whether the cursor is done; \<open>keep\<close>
  whether the columns are remembered with a statement that is cached for the first time.
\<close>

definition settle ::
  "'m client_env \<Rightarrow> string \<Rightarrow> statement \<Rightarrow> bool \<Rightarrow> (query_result \<Rightarrow> bool) \<Rightarrow> bool \<Rightarrow> query_result result
     \<Rightarrow> ('m, unit) session_action" where
  "settle env sql stmt from_cache close keep r =
     (case r of
        Inl _ \<Rightarrow> if from_cache then give_back env sql True else ok ()
      | Inr q \<Rightarrow>
          if from_cache then give_back env sql (close q)
          else if qr_cursor_id q > 0 \<and> \<not> is_ddl stmt then
            (let stmt1 = set_executed True (set_cursor_id (qr_cursor_id q) stmt)
             in remember env sql (if keep then set_columns (qr_columns q) stmt1 else stmt1) (close q))
          else ok ())"

definition with_statement ::
  "'m client_env \<Rightarrow> string \<Rightarrow> (statement \<Rightarrow> bool \<Rightarrow> ('m, query_result) client)
     \<Rightarrow> (statement \<Rightarrow> query_result \<Rightarrow> bool) \<Rightarrow> bool \<Rightarrow> ('m, query_result) client" where
  "with_statement env sql run close keep =
     cthen (act ensure_ready) (\<lambda>_.
     cthen (act (checkout env sql)) (\<lambda>(stmt, from_cache).
     cthen (attempt (run stmt from_cache)) (\<lambda>r.
     cthen (act (settle env sql stmt from_cache (close stmt) keep r)) (\<lambda>_.
     act (handle_result r)))))"

definition execute_sql_statement :: "'m client_env \<Rightarrow> string \<Rightarrow> value list \<Rightarrow> ('m, query_result) client" where
  "execute_sql_statement env sql params =
     with_statement env sql
       (\<lambda>stmt _. if is_query stmt then execute_query_with_params env stmt params else execute_dml_with_params env stmt params)
       (\<lambda>stmt q. is_query stmt \<longrightarrow> \<not> qr_has_more_rows q) False"

text \<open>A cached query keeps its columns, which the server does not send again.\<close>

definition restore_columns :: "statement \<Rightarrow> bool \<Rightarrow> query_result \<Rightarrow> query_result" where
  "restore_columns stmt from_cache q =
     (if from_cache \<and> qr_columns q = [] \<and> st_columns stmt \<noteq> [] then q\<lparr>qr_columns := st_columns stmt\<rparr> else q)"

definition query :: "'m client_env \<Rightarrow> string \<Rightarrow> value list \<Rightarrow> ('m, query_result) client" where
  "query env sql params =
     with_statement env sql
       (\<lambda>stmt from_cache. cthen (execute_query_with_params env stmt params)
          (\<lambda>q. act (ok (restore_columns stmt from_cache q))))
       (\<lambda>stmt q. \<not> qr_has_more_rows q) True"

definition execute_dml_sql :: "'m client_env \<Rightarrow> string \<Rightarrow> value list \<Rightarrow> ('m, u64) client" where
  "execute_dml_sql env sql params =
     cthen (with_statement env sql (\<lambda>stmt _. execute_dml_with_params env stmt params) (\<lambda>stmt q. True) False)
       (\<lambda>q. act (ok (qr_rows_affected q)))"

definition clear_statement_cache :: "'m client_env \<Rightarrow> ('m, unit) session_action" where
  "clear_statement_cache env = on_cache (cache_clear (ce_map env))"

subsection \<open>Transactions\<close>

definition transaction :: "'m client_env \<Rightarrow> string \<Rightarrow> ('m, unit) client" where
  "transaction env sql =
     cthen (act ensure_ready) (\<lambda>_. cthen (execute_sql_statement env sql []) (\<lambda>_. act (ok ())))"

definition commit :: "'m client_env \<Rightarrow> ('m, unit) client" where
  "commit env = transaction env ''COMMIT''"

definition rollback :: "'m client_env \<Rightarrow> ('m, unit) client" where
  "rollback env = transaction env ''ROLLBACK''"

definition savepoint :: "'m client_env \<Rightarrow> string \<Rightarrow> ('m, unit) client" where
  "savepoint env name = transaction env (''SAVEPOINT '' @ name)"

definition rollback_to_savepoint :: "'m client_env \<Rightarrow> string \<Rightarrow> ('m, unit) client" where
  "rollback_to_savepoint env name = transaction env (''ROLLBACK TO SAVEPOINT '' @ name)"

definition ping :: "'m client_env \<Rightarrow> ('m, unit) client" where
  "ping env =
     cthen (act ensure_ready) (\<lambda>_. cthen (query env ''SELECT 1 FROM DUAL'' []) (\<lambda>_. act (ok ())))"

end
