(* ===== verification/Lobs.thy ===== *)
theory Lobs
  imports Client
begin

section \<open>Operations on large objects\<close>

text \<open>
  The LOB operations of \<open>Connection\<close> in \<open>src/src/connection.rs\<close>: reading, in one piece and in
  chunks, writing, length, trimming and temporary objects.
\<close>

definition lob_request :: "lob_op_message \<Rightarrow> u8 \<Rightarrow> 'm session \<Rightarrow> u8 list result" where
  "lob_request m seq s = build_lob_request (se_ver s) (se_large_sdu s) (m\<lparr>lm_sequence_number := seq\<rparr>)"

text \<open>The response after a marker: the reset, then the error it carries.\<close>

definition lob_failure :: "('m, 'a) session_action" where
  "lob_failure =
     andThen (on_conn handle_marker_reset) (\<lambda>error_response.
     andThen (lift_res (payload_of error_response)) (\<lambda>payload.
     lift_res (case skip 2 (rbuf_new payload) of (Inl e, _) \<Rightarrow> Inl e | (Inr _, b) \<Rightarrow> parse_lob_error b)))"

definition lob_answer :: "string \<Rightarrow> u8 list \<Rightarrow> ('m, u8 list) session_action" where
  "lob_answer empty_text response =
     (if length response \<le> PACKET_HEADER_SIZE then fail (Protocol empty_text)
      else if is_marker response then lob_failure
      else lift_res (payload_of response))"

definition lob_exchange :: "string \<Rightarrow> u8 list conn_action \<Rightarrow> lob_op_message \<Rightarrow> ('m, u8 list) session_action" where
  "lob_exchange empty_text receive m =
     andThen (on_conn next_sequence_number) (\<lambda>seq.
     andSeq (send_built (lob_request m seq)) (
     andThen (on_conn receive) (lob_answer empty_text)))"

subsection \<open>Reading\<close>

definition read_lob_internal :: "lob_locator \<Rightarrow> u64 \<Rightarrow> u64 \<Rightarrow> ('m, lob_data) client" where
  "read_lob_internal locator offset amount =
     cthen (act (lob_exchange ''Empty LOB read response'' receive_response (new_read locator offset amount))) (\<lambda>payload.
     from_result (parse_lob_read_response payload locator))"

definition read_lob_range :: "lob_locator \<Rightarrow> u64 \<Rightarrow> u64 \<Rightarrow> ('m, lob_data) client" where
  "read_lob_range locator offset amount = cthen (act ensure_ready) (\<lambda>_. read_lob_internal locator offset amount)"

definition read_lob :: "lob_locator \<Rightarrow> ('m, lob_data) client" where
  "read_lob locator = read_lob_range locator 1 (loc_size locator)"

definition read_clob :: "lob_locator \<Rightarrow> ('m, string) client" where
  "read_clob locator =
     (if is_blob locator \<or> is_bfile locator
      then act (fail (Protocol ''Cannot read BLOB/BFILE as string, use read_blob instead''))
      else cthen (read_lob locator) (\<lambda>data.
        case data of LobText s \<Rightarrow> act (ok s)
        | LobBytes _ \<Rightarrow> act (fail (Protocol ''Unexpected bytes from CLOB read''))))"

definition read_blob :: "lob_locator \<Rightarrow> ('m, u8 list) client" where
  "read_blob locator =
     (if is_clob locator then act (fail (Protocol ''Cannot read CLOB as bytes, use read_clob instead''))
      else cthen (read_lob locator) (\<lambda>data.
        case data of LobBytes b \<Rightarrow> act (ok b)
        | LobText _ \<Rightarrow> act (fail (Protocol ''Unexpected string from BLOB read''))))"

definition lob_chunk_size :: "lob_locator \<Rightarrow> ('m, u32) client" where
  "lob_chunk_size locator =
     cthen (act (andSeq ensure_ready
       (lob_exchange ''Empty LOB chunk size response'' conn_receive (new_get_chunk_size locator)))) (\<lambda>payload.
     cthen (from_result (parse_lob_amount_response payload locator)) (\<lambda>v. act (ok (ucast v))))"

text \<open>
  \<open>read_lob_chunked\<close>.  The callback gets each piece and may use the connection; \<open>'k\<close> is what it
  captures.  The chunk size is positive, so the offset grows: the branch where it does not stands for
  the endless loop that a size of zero would be.
\<close>

function (sequential) read_lob_chunks ::
  "lob_locator \<Rightarrow> u64 \<Rightarrow> (lob_data \<Rightarrow> 'k \<Rightarrow> ('m, 'k) client) \<Rightarrow> u64 \<Rightarrow> 'k \<Rightarrow> 'm session
     \<Rightarrow> ('k result \<times> 'm session) option" where
  "read_lob_chunks locator chunk_size callback offset k s =
     (if loc_size locator < offset then Some (Inr k, s)
      else case res_bind (sub_chk (loc_size locator) offset) (\<lambda>d. add_chk d 1) of
        Inl e \<Rightarrow> Some (Inl e, s)
      | Inr left \<Rightarrow>
          (let amount = min left chunk_size
           in cthen (read_lob_internal locator offset amount) (\<lambda>chunk.
              cthen (callback chunk k) (\<lambda>k' s'.
                case add_chk offset amount of
                  Inl e \<Rightarrow> Some (Inl e, s')
                | Inr offset' \<Rightarrow>
                    if offset' \<le> offset then None
                    else read_lob_chunks locator chunk_size callback offset' k' s')) s))"
  by pat_completeness auto
termination
  by (relation "measure (\<lambda>(locator, _, _, offset, _, _). 2 ^ 64 - unat offset)")
    (auto simp: word_le_nat_alt intro!: diff_less_mono2 unat_u64_less)

declare read_lob_chunks.simps [simp del]

definition chunk_size_of :: "lob_locator \<Rightarrow> u64 \<Rightarrow> ('m, u64) client" where
  "chunk_size_of locator chunk_size =
     (if chunk_size = 0 then cthen (lob_chunk_size locator) (\<lambda>n. act (ok (ucast (max n 8192))))
      else act (ok chunk_size))"

definition read_lob_chunked ::
  "lob_locator \<Rightarrow> u64 \<Rightarrow> (lob_data \<Rightarrow> 'k \<Rightarrow> ('m, 'k) client) \<Rightarrow> 'k \<Rightarrow> ('m, 'k) client" where
  "read_lob_chunked locator chunk_size callback k =
     cthen (act ensure_ready) (\<lambda>_.
     if loc_size locator = 0 then act (ok k)
     else cthen (chunk_size_of locator chunk_size) (\<lambda>n. read_lob_chunks locator n callback 1 k))"

subsection \<open>Writing\<close>

text \<open>\<open>encode_utf16\<close> on the UTF-8 bytes of a text: its code points, and their units.\<close>

definition code_point :: "u8 list \<Rightarrow> nat" where
  "code_point bs =
     (case map unat bs of
        [a] \<Rightarrow> a
      | [a, b] \<Rightarrow> (a mod 32) * 64 + b mod 64
      | [a, b, c] \<Rightarrow> (a mod 16) * 4096 + (b mod 64) * 64 + c mod 64
      | [a, b, c, d] \<Rightarrow> (a mod 8) * 262144 + (b mod 64) * 4096 + (c mod 64) * 64 + d mod 64
      | _ \<Rightarrow> 0)"

function code_points :: "u8 list \<Rightarrow> nat list" where
  "code_points [] = []"
| "code_points (b # bs) =
     (let n = utf8_width b - 1 in code_point (b # take n bs) # code_points (drop n bs))"
  by pat_completeness auto
termination
  by (relation "measure length") auto

definition utf16_units :: "nat \<Rightarrow> u16 list" where
  "utf16_units c =
     (if c < 0x10000 then [of_nat c]
      else [of_nat (0xD800 + (c - 0x10000) div 1024), of_nat (0xDC00 + (c - 0x10000) mod 1024)])"

definition encode_utf16 :: "string \<Rightarrow> u16 list" where
  "encode_utf16 t = concat (map utf16_units (code_points (bytes_of_text t)))"

text \<open>Text for a CLOB in UTF-16 is converted from UTF-8, where malformed bytes are replaced.\<close>

definition write_data_of :: "lob_locator \<Rightarrow> u8 list \<Rightarrow> u8 list" where
  "write_data_of locator data =
     (if is_clob locator \<and> uses_var_length_charset locator
      then concat (map (be_bytes 2) (encode_utf16 (from_utf8_lossy data)))
      else data)"

definition send_message :: "lob_op_message \<Rightarrow> u8 list \<Rightarrow> ('m, unit) client" where
  "send_message m message = (\<lambda>s.
     if unat (cn_sdu (se_conn s)) - (PACKET_HEADER_SIZE + 2) < length message
     then map_option (\<lambda>(r, c). (r, s\<lparr>se_conn := c\<rparr>)) (send_multi_packet message 0 (se_conn s))
     else act (send_built (\<lambda>s. build_lob_request (se_ver s) (se_large_sdu s) m)) s)"

definition write_lob :: "lob_locator \<Rightarrow> u64 \<Rightarrow> u8 list \<Rightarrow> ('m, unit) client" where
  "write_lob locator offset data =
     cthen (act (andSeq ensure_ready (on_conn next_sequence_number))) (\<lambda>seq.
     let m = (new_write locator offset (write_data_of locator data))\<lparr>lm_sequence_number := seq\<rparr>
     in cthen (act (andThen (asks (\<lambda>s. build_message_only (se_ver s) m)) lift_res)) (\<lambda>message.
        cthen (send_message m message) (\<lambda>_.
        cthen (act (andThen (on_conn receive_response) (lob_answer ''Empty LOB write response''))) (\<lambda>payload.
        from_result (parse_lob_simple_response payload locator)))))"

definition write_clob :: "lob_locator \<Rightarrow> u64 \<Rightarrow> string \<Rightarrow> ('m, unit) client" where
  "write_clob locator offset t =
     (if is_blob locator \<or> is_bfile locator
      then act (fail (Protocol ''Cannot write string to BLOB/BFILE, use write_blob instead''))
      else write_lob locator offset (bytes_of_text t))"

definition write_blob :: "lob_locator \<Rightarrow> u64 \<Rightarrow> u8 list \<Rightarrow> ('m, unit) client" where
  "write_blob locator offset data =
     (if is_clob locator then act (fail (Protocol ''Cannot write bytes to CLOB, use write_clob instead''))
      else write_lob locator offset data)"

subsection \<open>Length, size and temporary objects\<close>

definition lob_length :: "lob_locator \<Rightarrow> ('m, u64) client" where
  "lob_length locator =
     cthen (act (andSeq ensure_ready
       (lob_exchange ''Empty LOB get_length response'' conn_receive (new_get_length locator)))) (\<lambda>payload.
     from_result (parse_lob_amount_response payload locator))"

definition lob_trim :: "lob_locator \<Rightarrow> u64 \<Rightarrow> ('m, unit) client" where
  "lob_trim locator new_size =
     cthen (act (andSeq ensure_ready
       (lob_exchange ''Empty LOB trim response'' conn_receive (new_trim locator new_size)))) (\<lambda>payload.
     from_result (parse_lob_simple_response payload locator))"

text \<open>The answer to CREATE_TEMP: the locator, its character set and a flag.\<close>

definition read_temp_locator :: "u8 list reader" where
  "read_temp_locator = andThen (read_bytes_vec 40) (\<lambda>loc. andSeq skip_ub2 (andSeq (skip 1) (ok loc)))"

definition temp_step :: "u8 list option \<Rightarrow> u8 \<Rightarrow> (u8 list option \<times> bool) parser" where
  "temp_step st msg_type =
     (if is_parameter msg_type then fmap (\<lambda>loc. (Some loc, False)) (rd read_temp_locator)
      else if msg_type = message_type_byte MsgError then (\<lambda>s.
        case rd parse_error_info s of
          (Inl Panic, s') \<Rightarrow> (Inl Panic, s')
        | (Inl (Err e), s') \<Rightarrow> (Inr (st, False), s')
        | (Inr info, s') \<Rightarrow>
            (if ei_code info \<noteq> 0
             then Inl (Err (OracleError (ei_code info)
                    (case ei_message info of Some m \<Rightarrow> m | None \<Rightarrow> ''CREATE_TEMP LOB error'')))
             else Inr (st, False), s'))
      else ok (st, msg_type = message_type_byte MsgEndOfResponse))"

definition temp_locator :: "oracle_type \<Rightarrow> u8 list option \<Rightarrow> lob_locator result" where
  "temp_locator t loc =
     (case loc of
        None \<Rightarrow> Inl (Err (Protocol ''CREATE_TEMP LOB response did not contain locator''))
      | Some bytes \<Rightarrow> Inr \<lparr>loc_bytes = bytes, loc_size = 0, loc_chunk_size = 0, loc_type = t, loc_csfrm = 1\<rparr>)"

definition parse_temp_response :: "oracle_type \<Rightarrow> u8 list \<Rightarrow> lob_locator result option" where
  "parse_temp_response t payload =
     (case rd (skip 2) (rbuf_new payload, session_state_default) of
        (Inl e, _) \<Rightarrow> Some (Inl e)
      | (Inr _, s) \<Rightarrow> map_option (\<lambda>(r, _). res_bind r (temp_locator t)) (message_loop temp_step None s))"

text \<open>The debug text of the type is an argument.\<close>

definition create_temp_lob :: "(oracle_type \<Rightarrow> string) \<Rightarrow> oracle_type \<Rightarrow> ('m, lob_locator) client" where
  "create_temp_lob debug t =
     (if t \<noteq> OraClob \<and> t \<noteq> OraBlob
      then act (fail (Protocol (''create_temp_lob: invalid type '' @ debug t @ '', must be Clob or Blob'')))
      else cthen (act (andSeq ensure_ready
        (lob_exchange ''Empty CREATE_TEMP LOB response'' conn_receive (new_create_temp t)))) (\<lambda>payload.
      from_result (parse_temp_response t payload)))"

end
