(* ===== verification/Calls.thy ===== *)
theory Calls
  imports Client
begin

section \<open>PL/SQL calls, batches, scrolling, object types\<close>

text \<open>
  The operations of \<open>Connection\<close> in \<open>src/src/connection.rs\<close> that are built from the ones of theory
  Client: \<open>execute_plsql\<close>, \<open>execute_with_binds\<close>, \<open>execute_batch\<close>, the scrollable cursors and
  \<open>get_type\<close>.
\<close>

subsection \<open>PL/SQL\<close>

definition plsql_bind_value :: "bind_param \<Rightarrow> value" where
  "plsql_bind_value p =
     (if bp_direction p = BindOutput then placeholder_value p
      else case bp_value p of Some v \<Rightarrow> v | None \<Rightarrow> VNull)"

definition text_size :: "string \<Rightarrow> u32" where
  "text_size s = of_nat (length (bytes_of_text s))"

definition derived_buffer_size :: "value \<Rightarrow> u32" where
  "derived_buffer_size v =
     (case v of
        VString s \<Rightarrow> max (text_size s) 1
      | VBytes b \<Rightarrow> max (of_nat (length b)) 1
      | VTypedNull t \<Rightarrow> default_bind_buffer_size t
      | VInteger _ \<Rightarrow> 22
      | VNumber _ \<Rightarrow> 22
      | VFloat _ \<Rightarrow> 8
      | VBoolean _ \<Rightarrow> 1
      | VTimestamp _ \<Rightarrow> 13
      | VDate _ \<Rightarrow> 7
      | VRowId _ \<Rightarrow> 18
      | _ \<Rightarrow> 100)"

definition plsql_bind_metadata :: "bind_param \<Rightarrow> value \<Rightarrow> bind_metadata" where
  "plsql_bind_metadata p v =
     \<lparr>bm_oracle_type = bp_oracle_type p,
      bm_buffer_size = (if 0 < bp_buffer_size p then bp_buffer_size p else derived_buffer_size v)\<rparr>"

definition plsql_message :: "string \<Rightarrow> bind_param list \<Rightarrow> execute_message" where
  "plsql_message sql params =
     (let bind_values = map plsql_bind_value params
      in (set_bind_values bind_values (execute_message_new (statement_new sql) options_for_plsql))
           \<lparr>em_metadata := Some (map2 plsql_bind_metadata params bind_values)\<rparr>)"

definition execute_plsql :: "'m client_env \<Rightarrow> string \<Rightarrow> bind_param list \<Rightarrow> ('m, plsql_result) client" where
  "execute_plsql env sql params =
     cthen (act (andSeq ensure_ready
       (exchange ''Empty PL/SQL response'' (execute_request env (plsql_message sql params))))) (\<lambda>(response, partial).
     if is_marker response
     then act (andThen (marker_error partial) (\<lambda>_. fail (Protocol ''PL/SQL execution failed'')))
     else cthen (act (lift_res (payload_of response))) (\<lambda>payload.
       cthen (attempt (parsed (\<lambda>s. parse_plsql_response (ce_ins env) (ce_depth env) (se_ver s) params payload)))
         (\<lambda>r. act (handle_result r))))"

subsection \<open>Named binds\<close>

fun trim_colons :: "string \<Rightarrow> string" where
  "trim_colons [] = []"
| "trim_colons (c # cs) = (if c = CHR '':'' then trim_colons cs else c # cs)"

definition bind_names_equal :: "string \<Rightarrow> string \<Rightarrow> bool" where
  "bind_names_equal left right = eq_ignore_ascii_case (trim_colons left) right"

definition bind_oracle_type :: "value \<Rightarrow> oracle_type" where
  "bind_oracle_type v =
     (case v of
        VString _ \<Rightarrow> OraVarchar
      | VBytes _ \<Rightarrow> OraRaw
      | VInteger _ \<Rightarrow> OraNumber
      | VNumber _ \<Rightarrow> OraNumber
      | VFloat _ \<Rightarrow> OraBinaryDouble
      | VDate _ \<Rightarrow> OraDate
      | VTimestamp _ \<Rightarrow> OraTimestamp
      | VIntervalYM _ \<Rightarrow> OraIntervalYm
      | VIntervalDS _ \<Rightarrow> OraIntervalDs
      | VRowId _ \<Rightarrow> OraRowid
      | VBoolean _ \<Rightarrow> OraBoolean
      | VLob l \<Rightarrow> (case l of LobLoc loc \<Rightarrow> loc_type loc | _ \<Rightarrow> OraClob)
      | VJson _ \<Rightarrow> OraJson
      | VVector _ \<Rightarrow> OraVector
      | VCursor _ \<Rightarrow> OraCursor
      | VCollection _ \<Rightarrow> OraObject
      | VNull \<Rightarrow> OraVarchar
      | VTypedNull t \<Rightarrow> t)"

definition bind_buffer_size :: "value \<Rightarrow> u32" where
  "bind_buffer_size v =
     (case v of
        VTypedNull t \<Rightarrow> default_bind_buffer_size t
      | VString s \<Rightarrow> max (text_size s) 4000
      | VBytes b \<Rightarrow> max (of_nat (length b)) 4000
      | VInteger _ \<Rightarrow> 22
      | VNumber _ \<Rightarrow> 22
      | VFloat _ \<Rightarrow> 8
      | VBoolean _ \<Rightarrow> 1
      | VDate _ \<Rightarrow> 7
      | VTimestamp _ \<Rightarrow> 13
      | VIntervalYM _ \<Rightarrow> 5
      | VIntervalDS _ \<Rightarrow> 11
      | VRowId _ \<Rightarrow> 18
      | VCursor _ \<Rightarrow> 0
      | _ \<Rightarrow> 4000)"

type_synonym named_bind = "string \<times> value \<times> bind_direction"

definition bind_param_of :: "value \<Rightarrow> bind_direction \<Rightarrow> bind_param" where
  "bind_param_of v direction =
     (case direction of
        BindInput \<Rightarrow> bind_input v
      | BindOutput \<Rightarrow> bind_output (bind_oracle_type v) (max (bind_buffer_size v) 1)
      | BindInputOutput \<Rightarrow> bind_input_output v (max (bind_buffer_size v) 1))"

text \<open>The parameters in the order of the statement's binds, and the places of the OUT binds.\<close>

fun named_params :: "named_bind list \<Rightarrow> bind_info list \<Rightarrow> (bind_param list \<times> nat list) result" where
  "named_params binds [] = Inr ([], [])"
| "named_params binds (b # bs) =
     (case position (\<lambda>(name, _). bind_names_equal name (bi_name b)) binds of
        None \<Rightarrow> Inl (Err (Protocol (''Missing bind value: '' @ bi_name b)))
      | Some i \<Rightarrow>
          (case binds ! i of (_, v, direction) \<Rightarrow>
             res_bind (named_params binds bs) (\<lambda>(params, outs).
               Inr (bind_param_of v direction # params, if is_output direction then i # outs else outs))))"

definition store_out :: "value list \<Rightarrow> nat list \<Rightarrow> named_bind list \<Rightarrow> named_bind list" where
  "store_out out_values outs binds =
     fold (\<lambda>(k, i) bs.
             (case list_get out_values k of
                None \<Rightarrow> bs
              | Some v \<Rightarrow> bs[i := (fst (bs ! i), v, snd (snd (bs ! i)))]))
       (enumerate 0 outs) binds"

text \<open>The result with the binds as the call leaves them; an error leaves them alone.\<close>

definition execute_with_binds ::
  "'m client_env \<Rightarrow> string \<Rightarrow> named_bind list \<Rightarrow> ('m, plsql_result \<times> named_bind list) client" where
  "execute_with_binds env sql binds =
     cthen (act (lift_res (named_params binds (st_bind_info_list (statement_new sql))))) (\<lambda>(params, outs).
     cthen (execute_plsql env sql params) (\<lambda>r. act (ok (r, store_out (pr_out_values r) outs binds))))"

subsection \<open>Batches\<close>

definition batch_message :: "batch_binds \<Rightarrow> execute_message" where
  "batch_message b =
     set_batch_bind_values (bb_rows b) (execute_message_new (bb_statement b)
       ((options_for_dml (bo_auto_commit (bb_options b)))
          \<lparr>eo_num_execs := of_nat (length (bb_rows b)), eo_batch_errors := bo_batch_errors (bb_options b),
           eo_dml_row_counts := bo_array_dml_row_counts (bb_options b)\<rparr>))"

definition execute_batch :: "'m client_env \<Rightarrow> batch_binds \<Rightarrow> ('m, batch_result) client" where
  "execute_batch env b =
     cthen (act (andSeq ensure_ready (lift_res (batch_validate b)))) (\<lambda>_.
     if bb_rows b = [] then act (ok batch_result_new)
     else cthen (act (andThen (exchange ''Empty batch response'' (execute_request env (batch_message b))) recovered)) (\<lambda>payload.
       parsed (\<lambda>s. parse_batch_response (length (bb_rows b)) (bo_array_dml_row_counts (bb_options b))
         (bo_batch_errors (bb_options b)) payload)))"

subsection \<open>Scrollable cursors\<close>

record scroll_result =
  sr_rows :: "row list"
  sr_position :: int
  sr_at_beginning :: bool
  sr_at_end :: bool

definition scroll_result_new :: "row list \<Rightarrow> int \<Rightarrow> scroll_result" where
  "scroll_result_new rows pos =
     \<lparr>sr_rows = rows, sr_position = pos, sr_at_beginning = False, sr_at_end = False\<rparr>"

definition open_scrollable_cursor :: "'m client_env \<Rightarrow> string \<Rightarrow> ('m, scrollable_cursor) client" where
  "open_scrollable_cursor env sql =
     cthen (act (andSeq ensure_ready
       (exchange ''Empty scrollable cursor response'' (execute_request env
         (execute_message_new (statement_new sql) ((options_for_query 1)\<lparr>eo_scrollable := True\<rparr>)))))) (\<lambda>(response, partial).
     if is_marker response
     then act (andThen (marker_error partial) (\<lambda>_. fail (Protocol ''Unexpected successful response after MARKER'')))
     else cthen (act (lift_res (payload_of response))) (\<lambda>payload.
       cthen (parsed (\<lambda>s. parse_query_response (ce_ins env) (ce_depth env) (se_ver s) payload)) (\<lambda>r.
       act (ok (scrollable_cursor_new (qr_cursor_id r) (qr_columns r))))))"

text \<open>\<open>(..).max(0) as u32\<close> of an \<open>i64\<close>, whose sums are checked.\<close>

definition clamp_u32 :: "int result \<Rightarrow> u32 result" where
  "clamp_u32 r = res_bind r (\<lambda>v. Inr (of_int (max v 0)))"

definition fetch_pos :: "fetch_orientation \<Rightarrow> int \<Rightarrow> int \<Rightarrow> u32 result" where
  "fetch_pos orientation pos offset =
     (case orientation of
        FetchFirst \<Rightarrow> Inr 1
      | FetchLast \<Rightarrow> Inr 0
      | FetchAbsolute \<Rightarrow> clamp_u32 (Inr offset)
      | FetchRelative \<Rightarrow> clamp_u32 (signed_chk 64 (pos + offset))
      | FetchNext \<Rightarrow> clamp_u32 (signed_chk 64 (pos + 1))
      | FetchPrior \<Rightarrow> clamp_u32 (signed_chk 64 (pos - 1))
      | FetchCurrent \<Rightarrow> clamp_u32 (Inr pos))"

text \<open>The position after a scroll that gave no row.\<close>

definition position_without_row :: "fetch_orientation \<Rightarrow> scrollable_cursor \<Rightarrow> int \<Rightarrow> int result" where
  "position_without_row orientation cursor offset =
     (case orientation of
        FetchFirst \<Rightarrow> Inr 0
      | FetchLast \<Rightarrow> signed_chk 64 (sint (case sc_row_count cursor of Some n \<Rightarrow> n | None \<Rightarrow> 0) + 1)
      | FetchNext \<Rightarrow> signed_chk 64 (sc_position cursor + 1)
      | FetchPrior \<Rightarrow> signed_chk 64 (sc_position cursor - 1)
      | FetchAbsolute \<Rightarrow> Inr offset
      | FetchRelative \<Rightarrow> signed_chk 64 (sc_position cursor + offset)
      | FetchCurrent \<Rightarrow> Inr (sc_position cursor))"

definition scroll_message :: "scrollable_cursor \<Rightarrow> fetch_orientation \<Rightarrow> u32 \<Rightarrow> execute_message" where
  "scroll_message cursor orientation pos =
     execute_message_new (cursor_statement (sc_cursor_id cursor) (sc_columns cursor))
       ((options_for_query 1)\<lparr>eo_scrollable := True, eo_scroll_operation := True,
          eo_fetch_orientation := fetch_orientation_code orientation, eo_fetch_pos := pos\<rparr>)"

definition scrolled ::
  "fetch_orientation \<Rightarrow> int \<Rightarrow> scrollable_cursor \<Rightarrow> query_result \<Rightarrow> (scroll_result \<times> scrollable_cursor) result" where
  "scrolled orientation offset cursor r =
     res_bind (if qr_rows r \<noteq> [] then Inr (sint (qr_rows_affected r))
               else position_without_row orientation cursor offset) (\<lambda>pos.
     Inr ((scroll_result_new (qr_rows r) pos)\<lparr>sr_at_end := \<not> qr_has_more_rows r, sr_at_beginning := pos \<le> 1\<rparr>,
          scrollable_update_position pos cursor))"

text \<open>The result and the cursor, which an error leaves as it is.\<close>

definition scroll ::
  "'m client_env \<Rightarrow> scrollable_cursor \<Rightarrow> fetch_orientation \<Rightarrow> int
     \<Rightarrow> ('m, scroll_result \<times> scrollable_cursor) client" where
  "scroll env cursor orientation offset =
     cthen (act (andSeq ensure_ready
       (if \<not> sc_is_open cursor then fail CursorClosed
        else andThen (lift_res (fetch_pos orientation (sc_position cursor) offset)) (\<lambda>pos.
          exchange ''Empty scroll response'' (execute_request env (scroll_message cursor orientation pos)))))) (\<lambda>(response, partial).
     if is_marker response
     then act (andThen (marker_error partial) (\<lambda>_. fail (Protocol ''Scroll operation failed'')))
     else cthen (act (lift_res (payload_of response))) (\<lambda>payload.
       cthen (parsed (\<lambda>s. parse_query_response_with_columns (ce_ins env) (ce_depth env) (se_ver s)
           (sc_columns cursor) payload)) (\<lambda>r.
       act (lift_res (scrolled orientation offset cursor r)))))"

definition close_cursor :: "scrollable_cursor \<Rightarrow> scrollable_cursor" where
  "close_cursor cursor = (if \<not> sc_is_open cursor then cursor else scrollable_mark_closed cursor)"

subsection \<open>Object types\<close>

text \<open>Upper case is that of ASCII letters; the names the dictionary holds are such.\<close>

fun joined :: "string list \<Rightarrow> string" where
  "joined [] = []"
| "joined [w] = w"
| "joined (w # ws) = w @ CHR ''.'' # joined ws"

definition parse_type_name :: "string \<Rightarrow> string \<Rightarrow> string \<times> string" where
  "parse_type_name type_name default_schema =
     (case split_char CHR ''.'' type_name of
        [] \<Rightarrow> (ascii_upper_text default_schema, [])
      | [name] \<Rightarrow> (ascii_upper_text default_schema, ascii_upper_text name)
      | schema # name \<Rightarrow> (ascii_upper_text schema, ascii_upper_text (joined name)))"

definition oracle_type_from_name :: "string \<Rightarrow> oracle_type" where
  "oracle_type_from_name type_name =
     (let n = ascii_upper_text type_name
      in if n \<in> {''NUMBER'', ''INTEGER'', ''INT'', ''SMALLINT''} then OraNumber
         else if n \<in> {''FLOAT'', ''REAL'', ''DOUBLE PRECISION'', ''BINARY_DOUBLE''} then OraBinaryDouble
         else if n = ''BINARY_FLOAT'' then OraBinaryFloat
         else if n \<in> {''VARCHAR2'', ''VARCHAR'', ''NVARCHAR2''} then OraVarchar
         else if n \<in> {''CHAR'', ''NCHAR''} then OraChar
         else if n = ''DATE'' then OraDate
         else if n = ''TIMESTAMP'' then OraTimestamp
         else if n = ''TIMESTAMP WITH TIME ZONE'' then OraTimestampTz
         else if n = ''TIMESTAMP WITH LOCAL TIME ZONE'' then OraTimestampLtz
         else if n = ''RAW'' then OraRaw
         else if n = ''BLOB'' then OraBlob
         else if n \<in> {''CLOB'', ''NCLOB''} then OraClob
         else if n \<in> {''BOOLEAN'', ''PL/SQL BOOLEAN''} then OraBoolean
         else if n \<in> {''ROWID'', ''UROWID''} then OraRowid
         else OraVarchar)"

definition text_at :: "row \<Rightarrow> nat \<Rightarrow> string option" where
  "text_at r i = Option.bind (row_get r i) as_str"

definition text_or :: "string \<Rightarrow> string option \<Rightarrow> string" where
  "text_or d t = (case t of Some s \<Rightarrow> s | None \<Rightarrow> d)"

definition type_oid_at :: "row \<Rightarrow> nat \<Rightarrow> u8 list option" where
  "type_oid_at r i = Option.bind (row_get r i) as_bytes"

definition collection_of_row :: "string \<Rightarrow> string \<Rightarrow> row \<Rightarrow> db_object_type" where
  "collection_of_row schema name r =
     object_type_collection schema name
       (if text_or [] (text_at r 0) = ''TABLE'' then NestedTable else Varray)
       (oracle_type_from_name (text_or ''VARCHAR2'' (text_at r 1)))"

definition TYPE_QUERY :: string where
  "TYPE_QUERY = ''SELECT typecode, type_oid FROM all_types WHERE owner = :1 AND type_name = :2''"

definition COLLECTION_QUERY :: string where
  "COLLECTION_QUERY = ''SELECT coll_type, elem_type_name, elem_type_owner, upper_bound FROM all_coll_types''
     @ '' WHERE owner = :1 AND type_name = :2''"

definition get_type :: "'m client_env \<Rightarrow> string \<Rightarrow> ('m, db_object_type) client" where
  "get_type env type_name =
     cthen (act ensure_ready) (\<lambda>_.
     cthen (act (asks (\<lambda>s. parse_type_name type_name (cf_username (se_config s))))) (\<lambda>(schema, name).
     cthen (query env TYPE_QUERY [VString schema, VString name]) (\<lambda>type_info.
     case qr_rows type_info of
       [] \<Rightarrow> act (fail (OracleError 4043 (''Type '' @ schema @ ''.'' @ name @ '' not found'')))
     | r # _ \<Rightarrow>
         if text_or [] (text_at r 0) = ''COLLECTION'' then
           cthen (query env COLLECTION_QUERY [VString schema, VString name]) (\<lambda>coll_info.
           case qr_rows coll_info of
             [] \<Rightarrow> act (fail (OracleError 4043 (''Collection type '' @ schema @ ''.'' @ name @ '' metadata not found'')))
           | c # _ \<Rightarrow> act (ok ((collection_of_row schema name c)\<lparr>ot_oid := type_oid_at r 1\<rparr>)))
         else act (ok ((object_type_new schema name)\<lparr>ot_oid := type_oid_at r 1\<rparr>)))))"

end
