(* ===== verification/Closing.thy ===== *)
theory Closing
  imports Lobs Calls
begin

section \<open>BFILE operations and closing\<close>

text \<open>
  The BFILE operations of \<open>Connection\<close> in \<open>src/src/connection.rs\<close>, and \<open>close\<close> with the function
  call it sends.
\<close>

subsection \<open>Files\<close>

definition bfile_exchange :: "string \<Rightarrow> string \<Rightarrow> lob_locator \<Rightarrow> lob_op_message \<Rightarrow> ('m, u8 list) session_action" where
  "bfile_exchange name empty_text locator m =
     andSeq ensure_ready
       (if \<not> is_bfile locator then fail (Protocol (name @ '' called on non-BFILE locator''))
        else lob_exchange empty_text conn_receive m)"

definition bfile_exists :: "lob_locator \<Rightarrow> ('m, bool) client" where
  "bfile_exists locator =
     cthen (act (bfile_exchange ''bfile_exists'' ''Empty BFILE exists response'' locator (new_file_exists locator))) (\<lambda>payload.
     from_result (parse_lob_bool_response payload locator))"

definition bfile_open :: "lob_locator \<Rightarrow> ('m, unit) client" where
  "bfile_open locator =
     cthen (act (bfile_exchange ''bfile_open'' ''Empty BFILE open response'' locator (new_file_open locator))) (\<lambda>payload.
     from_result (parse_lob_simple_response payload locator))"

definition bfile_close :: "lob_locator \<Rightarrow> ('m, unit) client" where
  "bfile_close locator =
     cthen (act (bfile_exchange ''bfile_close'' ''Empty BFILE close response'' locator (new_file_close locator))) (\<lambda>payload.
     from_result (parse_lob_simple_response payload locator))"

definition bfile_is_open :: "lob_locator \<Rightarrow> ('m, bool) client" where
  "bfile_is_open locator =
     cthen (act (bfile_exchange ''bfile_is_open'' ''Empty BFILE is_open response'' locator (new_file_is_open locator))) (\<lambda>payload.
     from_result (parse_lob_bool_response payload locator))"

definition read_bfile :: "lob_locator \<Rightarrow> ('m, u8 list) client" where
  "read_bfile locator =
     (if \<not> is_bfile locator then act (fail (Protocol ''read_bfile called on non-BFILE locator''))
      else cthen (bfile_is_open locator) (\<lambda>opened.
        cthen (if opened then act (ok ()) else bfile_open locator) (\<lambda>_.
        cthen (attempt (read_blob locator)) (\<lambda>r.
        cthen (if opened then act (ok (Inr ())) else attempt (bfile_close locator)) (\<lambda>_.
        act (lift_res r))))))"

subsection \<open>A function call\<close>

text \<open>The error a data packet carries, when its message is one.\<close>

definition carried_error :: "u8 list \<Rightarrow> unit result" where
  "carried_error pkt =
     (if PACKET_HEADER_SIZE + 2 < length pkt \<and> pkt ! (PACKET_HEADER_SIZE + 2) = message_type_byte MsgError then
        (case andSeq (skip 2) (andSeq (skip 1) parse_error_info) (rbuf_new (drop PACKET_HEADER_SIZE pkt)) of
           (Inl e, _) \<Rightarrow> Inl e
         | (Inr info, _) \<Rightarrow>
             if ei_code info \<noteq> 0
             then Inl (Err (OracleError (ei_code info)
                    (case ei_message info of Some m \<Rightarrow> m | None \<Rightarrow> ''ORA-'' @ padded 5 (unat (ei_code info)))))
             else Inr ())
      else Inr ())"

definition close_conn :: "conn \<Rightarrow> conn" where
  "close_conn c = c\<lparr>cn_state := Closed\<rparr>"

text \<open>The first loop: up to the RESET marker or a packet that is no marker.\<close>

function (sequential) await_break_reset :: "conn \<Rightarrow> unit result \<times> conn" where
  "await_break_reset c =
     (case conn_receive c of
        (Inl e, c') \<Rightarrow> (Inl e, close_conn c')
      | (Inr pkt, c') \<Rightarrow>
          if length pkt < PACKET_HEADER_SIZE + 1 then (Inr (), c')
          else if is_marker pkt then
            (if PACKET_HEADER_SIZE + 3 \<le> length pkt \<and> pkt ! (PACKET_HEADER_SIZE + 2) = MARKER_TYPE_RESET
             then (Inr (), c') else await_break_reset c')
          else (Inr (), c'))"
  by pat_completeness auto
termination
  by (relation "measure (\<lambda>c. length (cn_in c))") (auto dest: conn_receive_consumes [OF sym])

text \<open>The second loop: past further markers to the answer; a stream that ends is a success.\<close>

function (sequential) after_break_reset :: "conn \<Rightarrow> unit result \<times> conn" where
  "after_break_reset c =
     (case conn_receive c of
        (Inl Panic, c') \<Rightarrow> (Inl Panic, c')
      | (Inl e, c') \<Rightarrow> (Inr (), close_conn c')
      | (Inr pkt, c') \<Rightarrow>
          if length pkt < PACKET_HEADER_SIZE + 1 then (Inr (), c')
          else if is_marker pkt then after_break_reset c'
          else if pkt ! 4 = packet_type_byte Data then (carried_error pkt, c')
          else (Inr (), c'))"
  by pat_completeness auto
termination
  by (relation "measure (\<lambda>c. length (cn_in c))") (auto dest: conn_receive_consumes [OF sym])

declare await_break_reset.simps [simp del] after_break_reset.simps [simp del]

definition MARKER_TYPE_BREAK :: u8 where "MARKER_TYPE_BREAK = 1"

definition break_reset :: "unit conn_action" where
  "break_reset = (\<lambda>c.
     case send_marker MARKER_TYPE_RESET c of
       (Inl e, c') \<Rightarrow> (Inl e, close_conn c')
     | (Inr _, c') \<Rightarrow> andSeq await_break_reset after_break_reset c')"

definition function_answer :: "function_code \<Rightarrow> u8 list \<Rightarrow> unit conn_action" where
  "function_answer code response =
     (if length response \<le> 4 then fail (Protocol ''Response too short'')
      else if is_marker response then
        (if PACKET_HEADER_SIZE + 3 \<le> length response \<and> response ! (PACKET_HEADER_SIZE + 2) = MARKER_TYPE_BREAK
         then if code = FnLogoff then (\<lambda>c. (Inr (), close_conn c)) else break_reset
         else ok ())
      else if response ! 4 = packet_type_byte Data then lift_res (carried_error response)
      else fail (Protocol (''Unexpected packet type '' @ show_nat (unat (response ! 4)) @ '' for function call'')))"

definition send_simple_function :: "function_code \<Rightarrow> ('m, unit) session_action" where
  "send_simple_function code =
     andThen (on_conn next_sequence_number) (\<lambda>seq.
     andSeq (send_built (\<lambda>s. function_request (se_ver s) (se_large_sdu s) code seq)) (
     andThen (on_conn conn_receive) (\<lambda>response. on_conn (function_answer code response))))"

subsection \<open>Closing\<close>

text \<open>The flag is set first; the result of the logoff is dropped; then the stream.\<close>

definition drop_stream :: "'m session \<Rightarrow> 'm session" where
  "drop_stream s = s\<lparr>se_conn := (close_conn (se_conn s))\<lparr>cn_open := False\<rparr>\<rparr>"

definition close :: "('m, unit) session_action" where
  "close s =
     (if is_closed s then (Inr (), s)
      else let s1 = mark_closed s
           in if conn_state_of s1 = Ready then
                (case send_simple_function FnLogoff s1 of
                   (Inl Panic, s2) \<Rightarrow> (Inl Panic, s2)
                 | (_, s2) \<Rightarrow> (Inr (), drop_stream s2))
              else (Inr (), drop_stream s1))"

end
