(* ===== verification/ExchangeLaws.thy ===== *)
theory ExchangeLaws
  imports Client LoginLaws QueryLaws ExecuteLaws
begin

section \<open>A statement against a server\<close>

text \<open>
  What the operations of theory Client do when the server answers: the response to a request comes
  back from any division into packets, the requests of bindable values can be built, and a query
  collects the rows of its first response and of every fetch after it.
\<close>

lemma act_apply [simp]: "act m s = Some (m s)"
  by (simp add: act_def)

lemma cthen_apply:
  "cthen m f s = (case m s of None \<Rightarrow> None | Some (Inl e, s') \<Rightarrow> Some (Inl e, s') | Some (Inr a, s') \<Rightarrow> f a s')"
  by (simp add: cthen_def)

lemma cthen_fails: "m s = Some (Inl e, s') \<Longrightarrow> cthen m f s = Some (Inl e, s')"
  by (simp add: cthen_def)

lemma cthen_goes: "m s = Some (Inr a, s') \<Longrightarrow> cthen m f s = f a s'"
  by (simp add: cthen_def)

definition usable :: "'m session \<Rightarrow> bool" where
  "usable s \<longleftrightarrow> \<not> is_closed s \<and> conn_state_of s = Ready"

lemma ensure_ready_usable: "usable s \<Longrightarrow> ensure_ready s = (Inr (), s)"
  by (auto simp: usable_def ensure_ready_def)

subsection \<open>Responses in packets\<close>

text \<open>The two ways to collect a response agree, but for the partial payload before a marker.\<close>

lemma response_or_marker_agrees:
  "fmap fst (response_or_marker_loop acc is_first) c = andThen conn_receive (response_loop acc is_first) c"
proof (induction acc is_first c rule: response_or_marker_loop.induct)
  case (1 acc is_first c)
  show ?case
  proof (cases "conn_receive c")
    case (Pair r c')
    show ?thesis
    proof (cases r)
      case (Inr packet)
      have "fmap fst (response_or_marker_loop acc' False) c' = andThen conn_receive (response_loop acc' False) c'"
        if "Framing.response_step acc is_first packet = Inr (Some (acc', False))" for acc'
        by (rule 1) (use that Pair Inr in auto)
      then show ?thesis
        using Pair Inr
        unfolding fmap_def andThen_apply response_or_marker_loop.simps [of acc is_first c]
        by (auto simp: response_loop.simps [of acc is_first packet c'] andThen_apply ok_apply
            split: sum.splits option.splits bool.splits prod.splits)
    qed (simp add: response_or_marker_loop.simps [of acc] fmap_def andThen_apply Pair)
  qed
qed

text \<open>The packets of a response whose first one has the data flags \<open>f\<close>.\<close>

definition framed :: "bool \<Rightarrow> u16 \<Rightarrow> u8 list \<Rightarrow> u8 list \<Rightarrow> bool" where
  "framed large f body bs \<longleftrightarrow>
     (\<exists>frs. ends_at_last [] True frs \<and> (\<forall>x\<in>set frs. fits_packet large (snd x)) \<and> fst (hd frs) = f
        \<and> concat (map snd frs) = body \<and> concat (map (frame_packet large) frs) = bs)"

lemma receive_framed:
  assumes "framed (cn_large_sdu c) f body bs" "cn_open c" "cn_in c = bs @ i"
  shows "\<exists>partial. receive_response_or_marker c =
    (Inr (build_data_packet_from_payload c (be_bytes 2 f @ body), partial), c\<lparr>cn_in := i\<rparr>)"
proof -
  have "receive_response c = (Inr (build_data_packet_from_payload c (be_bytes 2 f @ body)), c\<lparr>cn_in := i\<rparr>)"
    using assms receive_response_frames [OF _ assms(2)] by (auto simp: framed_def)
  then have "fmap fst (response_or_marker_loop [] True) c =
      (Inr (build_data_packet_from_payload c (be_bytes 2 f @ body)), c\<lparr>cn_in := i\<rparr>)"
    by (simp add: response_or_marker_agrees receive_response_def
        receive_response_from_first_packet_with_payload_def)
  then show ?thesis
    unfolding receive_response_or_marker_def
    by (cases "response_or_marker_loop [] True c")
      (auto simp: fmap_def andThen_apply ok_apply split: sum.splits)
qed

text \<open>One packet with the end-of-response flag.\<close>

lemma framed_packet:
  "fits_packet large body \<Longrightarrow> f AND END_OF_RESPONSE \<noteq> 0 \<Longrightarrow> framed large f body (data_packet large f body)"
  unfolding framed_def by (rule exI [of _ "[(f, body)]"]) (simp add: frame_packet_def end_flagged_def Let_def)

lemma built_is_packet:
  "length (build_data_packet_from_payload c payload) = 8 + length payload"
  "payload_of (build_data_packet_from_payload c payload) = Inr payload"
  "\<not> is_marker (build_data_packet_from_payload c payload)"
  by (simp_all add: build_data_packet_from_payload_def payload_of_def PACKET_HEADER_SIZE_def is_marker_def
      nth_append packet_prefix_type)

subsection \<open>A request and its answer\<close>

text \<open>A ready connection whose stream holds \<open>i\<close>.\<close>

definition live :: "u8 list \<Rightarrow> 'm session \<Rightarrow> bool" where
  "live i s \<longleftrightarrow> usable s \<and> cn_open (se_conn s) \<and> cn_wfail (se_conn s) = None \<and> cn_in (se_conn s) = i"

text \<open>Sessions that differ in the transport only.\<close>

definition same_but_conn :: "'m session \<Rightarrow> 'm session \<Rightarrow> bool" where
  "same_but_conn s s' \<longleftrightarrow> s' = s\<lparr>se_conn := se_conn s'\<rparr> \<and> se_large_sdu s' = se_large_sdu s"

lemma same_trans: "same_but_conn s s' \<Longrightarrow> same_but_conn s' s'' \<Longrightarrow> same_but_conn s s''"
  unfolding same_but_conn_def by (cases s; cases s'; cases s'') simp

lemma same_ver: "same_but_conn s s' \<Longrightarrow> se_ver s' = se_ver s"
  unfolding same_but_conn_def by (cases s; cases s') simp

lemma same_large: "same_but_conn s s' \<Longrightarrow> se_large_sdu s' = se_large_sdu s"
  by (simp add: same_but_conn_def)

lemma same_cache: "same_but_conn s s' \<Longrightarrow> se_cache s' = se_cache s"
  unfolding same_but_conn_def by (cases s; cases s') simp

lemma live_usable: "live i s \<Longrightarrow> usable s"
  by (simp add: live_def)

lemma exchange_framed:
  assumes "live (bs @ i) s" "framed (se_large_sdu s) f body bs"
    and "\<And>seq s'. same_but_conn s s' \<Longrightarrow> \<exists>req. build seq s' = Inr req"
  shows "\<exists>c partial s'. exchange t build s = (Inr (build_data_packet_from_payload c (be_bytes 2 f @ body), partial), s')
    \<and> same_but_conn s s' \<and> live i s'"
proof -
  obtain seq c1 where n: "next_sequence_number (se_conn s) = (Inr seq, c1)" "c1 = (se_conn s)\<lparr>cn_seq := seq\<rparr>"
    by (simp add: next_sequence_number_def Let_def)
  obtain req where req: "build seq (s\<lparr>se_conn := c1\<rparr>) = Inr req"
    using assms(3) [of "s\<lparr>se_conn := c1\<rparr>" seq] n(2) by (auto simp: same_but_conn_def)
  let ?c = "c1\<lparr>cn_out := cn_out c1 @ req\<rparr>"
  have sent: "conn_send req c1 = (Inr (), ?c)"
    using assms(1) n(2) by (simp add: live_def conn_send_def stream_write_all_def)
  obtain partial where r: "receive_response_or_marker ?c =
      (Inr (build_data_packet_from_payload ?c (be_bytes 2 f @ body), partial), ?c\<lparr>cn_in := i\<rparr>)"
    using receive_framed [of ?c f body bs i] assms(1,2) n(2) by (auto simp: live_def)
  have "exchange t build s =
      (Inr (build_data_packet_from_payload ?c (be_bytes 2 f @ body), partial), s\<lparr>se_conn := ?c\<lparr>cn_in := i\<rparr>\<rparr>)"
    using n sent req r
    by (simp add: exchange_def andSeq_def andThen_apply on_conn_def send_built_def asks_def lift_res_def
        built_is_packet PACKET_HEADER_SIZE_def ok_def)
  moreover have "same_but_conn s (s\<lparr>se_conn := ?c\<lparr>cn_in := i\<rparr>\<rparr>)" "live i (s\<lparr>se_conn := ?c\<lparr>cn_in := i\<rparr>\<rparr>)"
    using assms(1) n(2) by (simp_all add: same_but_conn_def live_def usable_def is_closed_def)
  ultimately show ?thesis by blast
qed

lemma recovered_data:
  "recovered (build_data_packet_from_payload c payload, partial) s = (Inr payload, s)"
  by (simp add: recovered_def built_is_packet lift_res_def)

subsection \<open>Fetching\<close>

lemma be_bytes_2_eq: "\<exists>a b. be_bytes 2 f = [a, b]"
proof -
  have "be_bytes 2 f = [be_bytes 2 f ! 0, be_bytes 2 f ! 1]"
    by (rule nth_equalityI) (auto simp: less_2_cases_iff)
  then show ?thesis by blast
qed

text \<open>One fetch, answered with rows.\<close>

lemma fetch_more_reads:
  assumes "live (bs @ i) s"
    and "framed (se_large_sdu s) f (fetch_body (se_ver s) rows cursor_id row_count code message) bs"
    and "rows_ok (parse_column_value (ce_ins env) (ce_depth env) (se_ver s)) None cols rows"
    and "code = 0 \<or> code = 1403" "code = 0 \<or> is_str message"
  shows "\<exists>s'. fetch_more env c cols n s =
    Some (Inr \<lparr>qr_columns = cols, qr_rows = map row_of rows, qr_rows_affected = 0,
       qr_has_more_rows = (code \<noteq> 1403), qr_cursor_id = cursor_id\<rparr>, s') \<and> same_but_conn s s' \<and> live i s'"
proof -
  let ?build = "\<lambda>seq s. build_fetch_request (se_ver s) (se_large_sdu s) ((fetch_message_new c n)\<lparr>fm_sequence_number := seq\<rparr>)"
  have "\<exists>req. ?build seq s' = Inr req" for seq and s' :: "'a session"
    by (subst fetch_request_ok) (simp_all add: fetch_message_new_def Let_def)
  then obtain c' partial s' where e: "exchange ''Empty fetch response'' ?build s =
      (Inr (build_data_packet_from_payload c' (be_bytes 2 f @ fetch_body (se_ver s) rows cursor_id row_count code message), partial), s')"
    and s': "same_but_conn s s'" "live i s'"
    using exchange_framed [OF assms(1,2), of ?build "''Empty fetch response''"] by blast
  obtain a b where f: "be_bytes 2 f = [a, b]" using be_bytes_2_eq by blast
  have "se_state s' = se_state s" using s'(1) by (cases s; cases s') (simp add: same_but_conn_def)
  then have "s'\<lparr>se_state := se_state s\<rparr> = s'" by simp
  then show ?thesis
    using assms(1) s' fetch_response [OF assms(3-5), of c a b cursor_id row_count "[]" "se_state s'"]
    unfolding fetch_more_def
    by (intro exI [of _ s'])
      (simp add: cthen_apply andSeq_def andThen_apply ensure_ready_usable live_usable e recovered_data f parsed_def same_ver)
qed

text \<open>
  What the stream holds for the fetches of one query: full batches, then one that is short or says
  that there is no more.
\<close>

inductive batches :: "(column_info \<Rightarrow> value reader) \<Rightarrow> u8 \<Rightarrow> bool \<Rightarrow> column_info list \<Rightarrow> nat
    \<Rightarrow> u8 list \<Rightarrow> cell list list \<Rightarrow> bool"
  for dec ver large cols n where
  last_batch: "framed large f (fetch_body ver rows cursor_id row_count code message) bs \<Longrightarrow>
    rows_ok dec None cols rows \<Longrightarrow> code = 0 \<or> code = 1403 \<Longrightarrow> code = 0 \<or> is_str message \<Longrightarrow>
    length rows < n \<or> code = 1403 \<Longrightarrow> batches dec ver large cols n bs rows"
| full_batch: "framed large f (fetch_body ver rows cursor_id row_count 0 message) bs \<Longrightarrow>
    rows_ok dec None cols rows \<Longrightarrow> n \<le> length rows \<Longrightarrow>
    batches dec ver large cols n bs' rows' \<Longrightarrow> batches dec ver large cols n (bs @ bs') (rows @ rows')"

lemma fetch_loop_batches:
  assumes "batches dec ver large cols (unat n) bs rows"
    and "ver = se_ver s" "large = se_large_sdu s" "dec = parse_column_value (ce_ins env) (ce_depth env) ver"
    and "live (bs @ i) s" "qr_columns r = cols"
  shows "\<exists>s'. fetch_loop env r n s =
    Some (Inr (r\<lparr>qr_rows := qr_rows r @ map row_of rows, qr_has_more_rows := False\<rparr>), s')
    \<and> same_but_conn s s' \<and> live i s'"
  using assms
proof (induction arbitrary: s r)
  case (last_batch f rows cursor_id row_count code message bs)
  then obtain s' where "fetch_more env (qr_cursor_id r) (qr_columns r) n s =
    Some (Inr \<lparr>qr_columns = cols, qr_rows = map row_of rows, qr_rows_affected = 0,
       qr_has_more_rows = (code \<noteq> 1403), qr_cursor_id = cursor_id\<rparr>, s')" "same_but_conn s s'" "live i s'"
    using fetch_more_reads [of bs i s f rows cursor_id row_count code message env cols "qr_cursor_id r" n] by auto
  then show ?case
    using last_batch.hyps(5) by (intro exI [of _ s']) (subst fetch_loop.simps, auto)
next
  case (full_batch f rows cursor_id row_count message bs bs' rows')
  then obtain t where t: "fetch_more env (qr_cursor_id r) (qr_columns r) n s =
    Some (Inr \<lparr>qr_columns = cols, qr_rows = map row_of rows, qr_rows_affected = 0,
       qr_has_more_rows = True, qr_cursor_id = cursor_id\<rparr>, t)" "same_but_conn s t" "live (bs' @ i) t"
    using fetch_more_reads [of bs "bs' @ i" s f rows cursor_id row_count 0 message env cols "qr_cursor_id r" n]
    by auto
  obtain s' where s': "fetch_loop env (r\<lparr>qr_rows := qr_rows r @ map row_of rows\<rparr>) n t =
    Some (Inr (r\<lparr>qr_rows := (qr_rows r @ map row_of rows) @ map row_of rows', qr_has_more_rows := False\<rparr>), s')"
    "same_but_conn t s'" "live i s'"
    using full_batch.IH [of t "r\<lparr>qr_rows := qr_rows r @ map row_of rows\<rparr>"] full_batch.prems t(3)
      same_ver [OF t(2)] same_large [OF t(2)]
    by auto
  then show ?case
    using t full_batch.hyps(3) same_trans [OF t(2) s'(2)]
    by (intro exI [of _ s']) (subst fetch_loop.simps, simp)
qed

subsection \<open>Queries\<close>

lemma query_round_reads:
  assumes "live (bs @ i) s" "sendable m"
    and "framed (se_large_sdu s) f (query_body (se_ver s) cols rows cursor_id row_count code message) bs"
    and "\<forall>col\<in>set cols. column_sent col" "length cols < 4294967296"
    and "rows_ok (parse_column_value (ce_ins env) (ce_depth env) (se_ver s)) None cols rows"
    and "code = 0 \<or> code = 1403" "plain_message code message"
  shows "\<exists>s'. query_round env t m [] s =
    Some (Inr (False, \<lparr>qr_columns = cols, qr_rows = map row_of rows, qr_rows_affected = row_count,
       qr_has_more_rows = (cursor_id \<noteq> 0 \<and> code \<noteq> 1403), qr_cursor_id = cursor_id\<rparr>), s')
    \<and> same_but_conn s s' \<and> live i s'"
proof -
  have "\<exists>req. execute_request env m seq s' = Inr req" for seq and s' :: "'a session"
    unfolding execute_request_def using assms(2) by (intro build_execute_request_ok) (simp add: sendable_def)
  then obtain c partial s' where e: "exchange t (execute_request env m) s = (Inr (build_data_packet_from_payload c
      (be_bytes 2 f @ query_body (se_ver s) cols rows cursor_id row_count code message), partial), s')"
    and s': "same_but_conn s s'" "live i s'"
    using exchange_framed [OF assms(1,3), of "execute_request env m" t] by blast
  obtain a b where f: "be_bytes 2 f = [a, b]" using be_bytes_2_eq by blast
  have "se_state s' = se_state s" using s'(1) by (cases s; cases s') (simp add: same_but_conn_def)
  then have "s'\<lparr>se_state := se_state s\<rparr> = s'" by simp
  then show ?thesis
    using s' query_response [OF assms(4-8), of a b cursor_id row_count "[]" "se_state s'"]
    unfolding query_round_def
    by (intro exI [of _ s'])
      (simp add: cthen_apply e built_is_packet lift_res_def f parsed_def same_ver parse_query_response_def ok_def)
qed

text \<open>What the stream holds after the response to the query itself.\<close>

definition completes :: "(column_info \<Rightarrow> value reader) \<Rightarrow> u8 \<Rightarrow> bool \<Rightarrow> column_info list \<Rightarrow> u16 \<Rightarrow> cell list list
    \<Rightarrow> u8 list \<Rightarrow> cell list list \<Rightarrow> bool" where
  "completes dec ver large cols cursor_id rows bs' rows' \<longleftrightarrow>
     (if cursor_id = 0 \<or> length rows < unat PREFETCH_ROWS then bs' = [] \<and> rows' = []
      else batches dec ver large cols (unat PREFETCH_ROWS) bs' rows')"

lemma fetch_remaining_reads:
  assumes "live (bs' @ i) s" "qr_columns r \<noteq> []" "qr_rows r = map row_of rows"
    and "completes (parse_column_value (ce_ins env) (ce_depth env) (se_ver s)) (se_ver s) (se_large_sdu s)
      (qr_columns r) (qr_cursor_id r) rows bs' rows'"
  shows "\<exists>s'. fetch_remaining_query_rows env r PREFETCH_ROWS s =
    Some (Inr (r\<lparr>qr_rows := map row_of (rows @ rows'), qr_has_more_rows := False\<rparr>), s')
    \<and> same_but_conn s s' \<and> live i s'"
proof (cases "qr_cursor_id r = 0 \<or> length rows < unat PREFETCH_ROWS")
  case True
  then show ?thesis
    using assms by (intro exI [of _ s]) (auto simp: fetch_remaining_query_rows_def completes_def ok_def same_but_conn_def)
next
  case False
  then show ?thesis
    using assms fetch_loop_batches [OF _ refl refl refl assms(1) refl, where n = PREFETCH_ROWS and env = env and rows = rows' and r = r]
    by (auto simp: fetch_remaining_query_rows_def completes_def)
qed

lemma execute_query_reads:
  assumes "live (bs @ bs' @ i) s" "list_all bindable params" "cols \<noteq> []"
    and "framed (se_large_sdu s) f (query_body (se_ver s) cols rows cursor_id row_count code message) bs"
    and "\<forall>col\<in>set cols. column_sent col \<and> \<not> is_lob (ci_oracle_type col)" "length cols < 4294967296"
    and "rows_ok (parse_column_value (ce_ins env) (ce_depth env) (se_ver s)) None cols rows"
    and "code = 0 \<or> code = 1403" "plain_message code message"
    and "completes (parse_column_value (ce_ins env) (ce_depth env) (se_ver s)) (se_ver s) (se_large_sdu s)
      cols cursor_id rows bs' rows'"
  shows "\<exists>s'. execute_query_with_params env stmt params s =
    Some (Inr \<lparr>qr_columns = cols, qr_rows = map row_of (rows @ rows'), qr_rows_affected = row_count,
       qr_has_more_rows = False, qr_cursor_id = cursor_id\<rparr>, s') \<and> same_but_conn s s' \<and> live i s'"
proof -
  let ?m = "with_params params (execute_message_new stmt (options_for_query PREFETCH_ROWS))"
  let ?r = "\<lparr>qr_columns = cols, qr_rows = map row_of rows, qr_rows_affected = row_count,
       qr_has_more_rows = (cursor_id \<noteq> 0 \<and> code \<noteq> 1403), qr_cursor_id = cursor_id\<rparr>"
  have m: "sendable ?m" using assms(2) by (simp add: with_params_def sendable_new sendable_values)
  obtain t where t: "query_round env ''Empty query response'' ?m [] s = Some (Inr (False, ?r), t)"
    "same_but_conn s t" "live (bs' @ i) t"
    using query_round_reads [OF assms(1) m assms(4) _ assms(6-9), of "''Empty query response''"] assms(5) by blast
  have no: "\<not> needs_define ?r stmt"
    using assms(5) by (auto simp: needs_define_def list_ex_iff)
  obtain s' where s': "fetch_remaining_query_rows env ?r PREFETCH_ROWS t =
    Some (Inr (?r\<lparr>qr_rows := map row_of (rows @ rows'), qr_has_more_rows := False\<rparr>), s')" "same_but_conn t s'" "live i s'"
    using fetch_remaining_reads [OF t(3), of ?r rows env rows'] assms(3,10) same_ver [OF t(2)] same_large [OF t(2)] by auto
  then show ?thesis
    using t(1) no same_trans [OF t(2) s'(2)]
    by (intro exI [of _ s']) (simp add: execute_query_with_params_def cthen_apply)
qed

text \<open>The cache around the execution leaves the connection alone.\<close>

lemma checkout_keeps:
  "\<exists>stmt from_cache s'. checkout env sql s = (Inr (stmt, from_cache), s') \<and> se_conn s' = se_conn s
    \<and> se_caps s' = se_caps s \<and> se_closed s' = se_closed s"
  by (cases "se_cache s") (auto simp: checkout_def split: prod.splits option.splits)

lemma settle_keeps:
  "\<exists>s'. settle env sql stmt from_cache finished retain r s = (Inr (), s') \<and> se_conn s' = se_conn s
    \<and> se_closed s' = se_closed s"
  by (cases r) (auto simp: settle_def give_back_def remember_def on_cache_def modify_def ok_def asks_def Let_def
      andThen_apply andSeq_def)

lemma with_statement_goes:
  assumes "live i s"
    and "\<And>stmt from_cache t. live i t \<Longrightarrow> se_caps t = se_caps s \<Longrightarrow> se_conn t = se_conn s \<Longrightarrow>
      \<exists>t'. run stmt from_cache t = Some (Inr q, t') \<and> live j t'"
  shows "\<exists>s'. with_statement env sql run finished retain s = Some (Inr q, s') \<and> live j s'"
proof -
  obtain stmt from_cache t where t: "checkout env sql s = (Inr (stmt, from_cache), t)" "se_conn t = se_conn s"
    "se_caps t = se_caps s" "se_closed t = se_closed s"
    using checkout_keeps [of env sql s] by blast
  have "live i t" using assms(1) t by (simp add: live_def usable_def is_closed_def)
  then obtain t' where t': "run stmt from_cache t = Some (Inr q, t')" "live j t'"
    using assms(2) t by blast
  obtain s' where s': "settle env sql stmt from_cache (finished stmt) retain (Inr q) t' = (Inr (), s')"
    "se_conn s' = se_conn t'" "se_closed s' = se_closed t'"
    using settle_keeps [of env sql stmt from_cache "finished stmt" retain "Inr q" t'] by blast
  have "with_statement env sql run finished retain s = Some (Inr q, s')"
    using assms(1) t(1) t'(1) s'(1)
    by (simp add: with_statement_def cthen_apply ensure_ready_usable live_usable attempt_def handle_result_def)
  moreover have "live j s'" using t'(2) s' by (simp add: live_def usable_def is_closed_def)
  ultimately show ?thesis by blast
qed

lemma query_reads:
  assumes "live (bs @ bs' @ i) s" "list_all bindable params" "cols \<noteq> []"
    and "framed (se_large_sdu s) f (query_body (se_ver s) cols rows cursor_id row_count code message) bs"
    and "\<forall>col\<in>set cols. column_sent col \<and> \<not> is_lob (ci_oracle_type col)" "length cols < 4294967296"
    and "rows_ok (parse_column_value (ce_ins env) (ce_depth env) (se_ver s)) None cols rows"
    and "code = 0 \<or> code = 1403" "plain_message code message"
    and "completes (parse_column_value (ce_ins env) (ce_depth env) (se_ver s)) (se_ver s) (se_large_sdu s)
      cols cursor_id rows bs' rows'"
  shows "\<exists>s'. query env sql params s =
    Some (Inr \<lparr>qr_columns = cols, qr_rows = map row_of (rows @ rows'), qr_rows_affected = row_count,
       qr_has_more_rows = False, qr_cursor_id = cursor_id\<rparr>, s') \<and> live i s'"
  unfolding query_def
proof (rule with_statement_goes [OF assms(1)])
  fix stmt from_cache and t :: "'a session"
  assume t: "live (bs @ bs' @ i) t" "se_caps t = se_caps s" "se_conn t = se_conn s"
  let ?q = "\<lparr>qr_columns = cols, qr_rows = map row_of (rows @ rows'), qr_rows_affected = row_count,
       qr_has_more_rows = False, qr_cursor_id = cursor_id\<rparr>"
  obtain t' where "execute_query_with_params env stmt params t = Some (Inr ?q, t')" "live i t'"
    using execute_query_reads [OF t(1) assms(2,3), of f rows cursor_id row_count code message env rows' stmt] assms(4-10) t(2,3)
    by auto
  then show "\<exists>t'. cthen (execute_query_with_params env stmt params)
      (\<lambda>q. act (ok (restore_columns stmt from_cache q))) t = Some (Inr ?q, t') \<and> live i t'"
    using assms(3) by (simp add: cthen_apply restore_columns_def ok_def)
qed


text \<open>A first batch of a hundred rows, and a fetch with two more.\<close>

definition hundred_rows :: "cell list list" where
  "hundred_rows = replicate 100 (hd sample_rows)"

definition toy_client :: "assoc_map client_env" where
  "toy_client = \<lparr>ce_map = assoc_index_map, ce_clock = id, ce_ins = (\<lambda>k v m. m), ce_depth = 0,
     ce_texts = \<lparr>tx_float = \<lambda>_. [], tx_json = \<lambda>_. [], tx_debug = \<lambda>_. []\<rparr>\<rparr>"

definition first_response :: "u8 list" where
  "first_response = data_packet True END_OF_RESPONSE (query_body 24 sample_columns hundred_rows 3 100 0 [])"

definition second_response :: "u8 list" where
  "second_response = data_packet True END_OF_RESPONSE (fetch_body 24 sample_rows 3 102 1403 ''ORA-01403: no data found'')"

definition toy_session :: "u8 list \<Rightarrow> capabilities \<Rightarrow> assoc_map session" where
  "toy_session incoming caps =
     \<lparr>se_conn = (conn_new incoming None)\<lparr>cn_state := Ready, cn_large_sdu := True\<rparr>,
      se_caps = caps\<lparr>cp_ttc_field_version := 24\<rparr>, se_server_info = server_info_default,
      se_cache = Some (cache_new assoc_index_map 20), se_state = session_state_default, se_config = config_default,
      se_closed = False, se_ticks = 0\<rparr>"

lemma sample_head: "hd sample_rows = sample_rows ! 0"
  by (simp add: sample_rows_def)

lemma repeated_rows_ok:
  assumes "\<And>prev. row_ok dec prev cols cells"
  shows "rows_ok dec prev cols (replicate n cells)"
  using assms by (induction n arbitrary: prev) simp_all

lemma hundred_rows_ok: "rows_ok (parse_column_value ins depth ver) None sample_columns hundred_rows"
  unfolding hundred_rows_def
proof (rule repeated_rows_ok)
  fix prev
  show "row_ok (parse_column_value ins depth ver) prev sample_columns (hd sample_rows)"
    using sample_reads by (auto simp: row_ok_def cell_ok_def sample_rows_def sample_columns_def less_Suc_eq)
qed

lemma toy_sizes: "fits_packet True (query_body 24 sample_columns hundred_rows 3 100 0 [])"
  "fits_packet True (fetch_body 24 sample_rows 3 102 1403 ''ORA-01403: no data found'')"
proof -
  have "length (describe_wire 24 sample_columns) = 72" by code_simp
  moreover have "length (row_message (hd sample_rows)) = 6" by code_simp
  ultimately show "fits_packet True (query_body 24 sample_columns hundred_rows 3 100 0 [])"
    by (simp add: query_body_def hundred_rows_def row_header_wire_def sum_list_replicate length_concat end_wire_def
      ub2_wire_def ub4_wire_def ub8_wire_def)
  have "length (fetch_body 24 sample_rows 3 102 1403 ''ORA-01403: no data found'') = 76" by code_simp
  then show "fits_packet True (fetch_body 24 sample_rows 3 102 1403 ''ORA-01403: no data found'')" by simp
qed

lemma toy_query_facts:
  fixes caps :: capabilities
  defines "s \<equiv> toy_session (first_response @ second_response @ [9, 9]) caps"
  shows "live (first_response @ second_response @ [9, 9]) s"
    and "list_all bindable sample_binds" and "sample_columns \<noteq> []"
    and "framed (se_large_sdu s) END_OF_RESPONSE (query_body (se_ver s) sample_columns hundred_rows 3 100 0 []) first_response"
    and "\<forall>col\<in>set sample_columns. column_sent col \<and> \<not> is_lob (ci_oracle_type col)"
    and "length sample_columns < 4294967296"
    and "rows_ok (parse_column_value (ce_ins toy_client) (ce_depth toy_client) (se_ver s)) None sample_columns hundred_rows"
    and "(0 :: u32) = 0 \<or> (0 :: u32) = 1403" and "plain_message 0 []"
    and "completes (parse_column_value (ce_ins toy_client) (ce_depth toy_client) (se_ver s)) (se_ver s) (se_large_sdu s)
      sample_columns 3 hundred_rows second_response sample_rows"
proof -
  have eor: "END_OF_RESPONSE AND END_OF_RESPONSE \<noteq> 0" by (simp add: END_OF_RESPONSE_def)
  have s: "se_ver s = 24" "se_large_sdu s" by (simp_all add: s_def toy_session_def)
  show "live (first_response @ second_response @ [9, 9]) s"
    by (simp add: s_def toy_session_def live_def usable_def is_closed_def conn_new_def)
  show "framed (se_large_sdu s) END_OF_RESPONSE (query_body (se_ver s) sample_columns hundred_rows 3 100 0 []) first_response"
    using framed_packet [OF toy_sizes(1) eor] by (simp add: s first_response_def)
  have second: "framed True END_OF_RESPONSE (fetch_body 24 sample_rows 3 102 1403 ''ORA-01403: no data found'') second_response"
    unfolding second_response_def by (rule framed_packet [OF toy_sizes(2) eor])
  have "is_str ''ORA-01403: no data found''" by code_simp
  then show "completes (parse_column_value (ce_ins toy_client) (ce_depth toy_client) (se_ver s)) (se_ver s) (se_large_sdu s)
      sample_columns 3 hundred_rows second_response sample_rows"
    using last_batch [OF second sample_rows_ok] s by (simp add: completes_def hundred_rows_def PREFETCH_ROWS_def)
  show "\<forall>col\<in>set sample_columns. column_sent col \<and> \<not> is_lob (ci_oracle_type col)"
    using sample_sent by (simp add: sample_columns_def column_info_new_def is_lob_def)
qed (simp_all add: sample_bindable hundred_rows_ok plain_message_def, simp_all add: sample_columns_def)


end
