(* ===== verification/ClientLaws.thy ===== *)
theory ClientLaws
  imports Closing ExchangeLaws
begin

section \<open>Properties of the operations\<close>

text \<open>
  Laws of the operations of a connection, theories Client, Calls, Lobs and Closing: what an unusable
  connection refuses, what happens to the statement cache, that operations return, and closing.
\<close>

subsection \<open>Refusal\<close>

definition refused :: "'m session \<Rightarrow> error fault" where
  "refused s = Err (if is_closed s then ConnectionClosed else ConnectionNotReady)"

lemma ensure_ready_refuses: "\<not> usable s \<Longrightarrow> ensure_ready s = (Inl (refused s), s)"
  by (auto simp: usable_def refused_def ensure_ready_def)

lemma ensure_first: "\<not> usable s \<Longrightarrow> andSeq ensure_ready m s = (Inl (refused s), s)"
  by (simp add: andSeq_apply ensure_ready_refuses)

lemma with_statement_refuses:
  "\<not> usable s \<Longrightarrow> with_statement env sql run finished retain s = Some (Inl (refused s), s)"
  unfolding with_statement_def by (intro cthen_fails) (simp add: ensure_ready_refuses)

lemmas refusing_defs = query_def execute_sql_statement_def execute_dml_sql_def execute_plsql_def execute_batch_def
  fetch_more_def open_scrollable_cursor_def scroll_def get_type_def transaction_def ping_def
  read_lob_range_def read_lob_chunked_def write_lob_def lob_length_def lob_trim_def bfile_exchange_def

lemma refusing:
  assumes "\<not> usable s"
  shows "query env sql ps s = Some (Inl (refused s), s)"
    and "execute_sql_statement env sql ps s = Some (Inl (refused s), s)"
    and "execute_dml_sql env sql ps s = Some (Inl (refused s), s)"
    and "execute_plsql env sql params s = Some (Inl (refused s), s)"
    and "execute_batch env b s = Some (Inl (refused s), s)"
    and "fetch_more env cursor_id cols m s = Some (Inl (refused s), s)"
    and "open_scrollable_cursor env sql s = Some (Inl (refused s), s)"
    and "scroll env cursor how where_to s = Some (Inl (refused s), s)"
    and "get_type env name s = Some (Inl (refused s), s)"
    and "transaction env sql s = Some (Inl (refused s), s)"
    and "ping env s = Some (Inl (refused s), s)"
    and "read_lob locator s = Some (Inl (refused s), s)"
    and "read_lob_chunked locator n callback k s = Some (Inl (refused s), s)"
    and "write_lob locator pos data s = Some (Inl (refused s), s)"
    and "lob_length locator s = Some (Inl (refused s), s)"
    and "lob_trim locator new_size s = Some (Inl (refused s), s)"
  using assms
  by (simp_all add: refusing_defs read_lob_def cthen_apply with_statement_refuses ensure_first ensure_ready_refuses)


subsection \<open>Statements come back to the cache\<close>

definition ckeeps :: "('m session \<Rightarrow> bool) \<Rightarrow> ('m, 'a) client \<Rightarrow> bool" where
  "ckeeps P m \<longleftrightarrow> (\<forall>s r s'. P s \<longrightarrow> m s = Some (r, s') \<longrightarrow> P s')"

named_theorems ckeeps_intros

lemma ckeepsD: "ckeeps P m \<Longrightarrow> P s \<Longrightarrow> m s = Some (r, s') \<Longrightarrow> P s'"
  unfolding ckeeps_def by blast

lemma ckeeps_act [ckeeps_intros]: "keeps P m \<Longrightarrow> ckeeps P (act m)"
  unfolding ckeeps_def act_def by (metis keepsD option.inject)

lemma ckeeps_cthen [ckeeps_intros]:
  assumes "ckeeps P m" "\<And>a. ckeeps P (f a)"
  shows "ckeeps P (cthen m f)"
  unfolding ckeeps_def
proof (intro allI impI)
  fix s r s'
  assume s: "P s" "cthen m f s = Some (r, s')"
  then obtain x t where x: "m s = Some (x, t)" by (auto simp: cthen_def split: option.splits)
  have t: "P t" by (rule ckeepsD [OF assms(1) s(1) x])
  show "P s'"
  proof (cases x)
    case (Inl e)
    then show ?thesis using s(2) x t by (simp add: cthen_def)
  next
    case (Inr a)
    then show ?thesis using s(2) x ckeepsD [OF assms(2) t] by (simp add: cthen_def)
  qed
qed

lemma ckeeps_if [ckeeps_intros]: "(c \<Longrightarrow> ckeeps P m) \<Longrightarrow> (\<not> c \<Longrightarrow> ckeeps P k) \<Longrightarrow> ckeeps P (if c then m else k)"
  by simp

lemma ckeeps_prod [ckeeps_intros]: "(\<And>a b. ckeeps P (f a b)) \<Longrightarrow> ckeeps P (case p of (a, b) \<Rightarrow> f a b)"
  by (simp split: prod.split)

text \<open>Until a statement is given back its execution does not touch the cache.\<close>

abbreviation caches :: "'m stmt_cache option \<Rightarrow> 'm session \<Rightarrow> bool" where
  "caches C s \<equiv> se_cache s = C"

lemma caches_parsed [ckeeps_intros]: "ckeeps (caches C) (parsed p)"
  by (auto simp: ckeeps_def parsed_def)

lemma caches_on_conn [keeps_intros]: "keeps (caches C) (on_conn m)"
  by (auto simp: keeps_def on_conn_def split: prod.split)

lemma caches_ensure_ready [keeps_intros]: "keeps (caches C) ensure_ready"
  by (simp add: keeps_def ensure_ready_def)

lemma caches_fmap [keeps_intros]: "keeps P m \<Longrightarrow> keeps P (fmap f m)"
  unfolding fmap_def by (intro keeps_intros)

lemma caches_requests [keeps_intros]:
  "keeps (caches C) (send_built build)" "keeps (caches C) (exchange t build')" "keeps (caches C) (recovered x)"
  "keeps (caches C) (marker_error partial)"
  unfolding exchange_def recovered_def marker_error_def reset_payload_def send_built_def
  by (intro keeps_intros)+

lemma caches_query_round [ckeeps_intros]: "ckeeps (caches C) (query_round env t m known)"
  unfolding query_round_def by (intro ckeeps_intros keeps_intros)

lemma caches_fetch_more: "ckeeps (caches C) (fetch_more env c cols n)"
  unfolding fetch_more_def by (intro ckeeps_intros keeps_intros)

lemma fetch_loop_caches:
  assumes "fetch_loop env r n s = Some y"
  shows "se_cache (snd y) = se_cache s"
proof (rule fetch_loop.raw_induct [where P = "\<lambda>_ _ _ s y. se_cache (snd y) = se_cache s", OF _ assms])
  fix loop env and r :: query_result and n :: u32 and s :: "'a session" and y
  assume step: "\<And>r n s b y. loop r n s b = Some y \<Longrightarrow> se_cache (snd y) = se_cache b"
    and run: "(case fetch_more env (qr_cursor_id r) (qr_columns r) n s of
        None \<Rightarrow> None
      | Some (Inl e, s') \<Rightarrow> Some (Inl e, s')
      | Some (Inr batch, s') \<Rightarrow>
          if length (qr_rows batch) < unat n \<or> \<not> qr_has_more_rows batch
          then Some (Inr (r\<lparr>qr_rows := qr_rows r @ qr_rows batch, qr_has_more_rows := False\<rparr>), s')
          else loop env (r\<lparr>qr_rows := qr_rows r @ qr_rows batch\<rparr>) n s') = Some y"
  obtain x t where x: "fetch_more env (qr_cursor_id r) (qr_columns r) n s = Some (x, t)"
    using run by (auto split: option.splits)
  have "se_cache t = se_cache s" by (rule ckeepsD [OF caches_fetch_more refl x])
  then show "se_cache (snd y) = se_cache s"
    using run x by (auto split: sum.splits if_splits dest: step)
qed

lemma caches_execute [ckeeps_intros]:
  "ckeeps (caches C) (execute_query_with_params env stmt params)"
  "ckeeps (caches C) (execute_dml_with_params env stmt params)"
proof -
  have "ckeeps (caches C) (fetch_remaining_query_rows env r n)" for r n
    unfolding fetch_remaining_query_rows_def
    by (intro ckeeps_intros keeps_intros) (auto simp: ckeeps_def dest: fetch_loop_caches)
  then show "ckeeps (caches C) (execute_query_with_params env stmt params)"
    unfolding execute_query_with_params_def by (intro ckeeps_intros keeps_intros)
  show "ckeeps (caches C) (execute_dml_with_params env stmt params)"
    unfolding execute_dml_with_params_def by (intro ckeeps_intros keeps_intros)
qed

text \<open>The statements that are checked out.\<close>

definition borrowed :: "'m index_map \<Rightarrow> 'm stmt_cache \<Rightarrow> string set" where
  "borrowed I c = {sql. \<exists>v. im_get I (stc_cache c) sql = Some v \<and> cs_in_use v}"

context index_map_laws
begin

lemma get_borrows:
  "borrowed I (snd (cache_get I now sql c)) \<subseteq>
     (if fst (cache_get I now sql c) = None then borrowed I c else insert sql (borrowed I c))"
  by (auto simp: borrowed_def cache_get_def touch_def Let_def get_insert split: option.splits if_splits)

lemma return_gives_back: "borrowed I (return_statement I sql c) \<subseteq> borrowed I c - {sql}"
  by (auto simp: borrowed_def return_statement_def get_insert split: option.splits if_splits)

lemma put_borrows: "borrowed I (cache_put I now sql stmt c) \<subseteq> borrowed I c"
  by (auto simp: borrowed_def cache_put_def touch_def cached_new_def Let_def get_insert dest: evict_sub
      split: option.splits if_splits)

lemma mark_borrows: "borrowed I (mark_cursor_closed I sql c) \<subseteq> borrowed I c"
  by (auto simp: borrowed_def mark_cursor_closed_def get_insert split: option.splits if_splits)

end

lemma checkout_cache:
  assumes "se_cache s = Some c"
  shows "\<exists>now stmt. checkout env sql s = (Inr (stmt, fst (cache_get (ce_map env) now sql c) \<noteq> None),
    s\<lparr>se_cache := Some (snd (cache_get (ce_map env) now sql c)), se_ticks := se_ticks s + 1\<rparr>)"
  using assms
  by (intro exI [of _ "ce_clock env (se_ticks s)"]) (auto simp: checkout_def split: prod.splits option.splits)

lemma settle_cache:
  assumes laws: "index_map_laws (ce_map env)" and "se_cache s = Some c"
  shows "\<exists>s' c'. settle env sql stmt from_cache finished retain r s = (Inr (), s') \<and> se_cache s' = Some c'
    \<and> borrowed (ce_map env) c' \<subseteq> (if from_cache then borrowed (ce_map env) c - {sql} else borrowed (ce_map env) c)"
proof -
  note put = index_map_laws.put_borrows [OF laws] and given = index_map_laws.return_gives_back [OF laws]
    and mark = index_map_laws.mark_borrows [OF laws]
  have give: "\<exists>s' c'. give_back env sql b s = (Inr (), s') \<and> se_cache s' = Some c'
      \<and> borrowed (ce_map env) c' \<subseteq> borrowed (ce_map env) c - {sql}" for b
    using assms(2) given mark by (auto simp: give_back_def on_cache_def modify_def Let_def dest!: mark [THEN subsetD] given [THEN subsetD])
  have remember: "\<exists>s' c'. remember env sql stmt' b s = (Inr (), s') \<and> se_cache s' = Some c'
      \<and> borrowed (ce_map env) c' \<subseteq> borrowed (ce_map env) c" for stmt' b
    using assms(2) by (auto simp: remember_def on_cache_def modify_def asks_def andThen_apply andSeq_def Let_def
        dest!: mark [THEN subsetD] put [THEN subsetD])
  show ?thesis
    using assms(2) give remember by (cases r) (simp_all add: settle_def ok_def Let_def)
qed

lemma handle_result_cache: "\<exists>s'. handle_result r s = (r, s') \<and> se_cache s' = se_cache s"
  by (cases r) (auto simp: handle_result_def mark_closed_def split: fault.splits)

lemma with_statement_borrows:
  assumes laws: "index_map_laws (ce_map env)" and run: "\<And>stmt from_cache C. ckeeps (caches C) (run stmt from_cache)"
    and c: "se_cache s = Some c" and result: "with_statement env sql run finished retain s = Some (r, s')" "r \<noteq> Inl Panic"
  shows "\<exists>c'. se_cache s' = Some c' \<and> borrowed (ce_map env) c' \<subseteq> borrowed (ce_map env) c"
proof (cases "usable s")
  case False
  then show ?thesis using with_statement_refuses [OF False] result(1) c by simp
next
  case True
  obtain now stmt where out: "checkout env sql s = (Inr (stmt, fst (cache_get (ce_map env) now sql c) \<noteq> None),
      s\<lparr>se_cache := Some (snd (cache_get (ce_map env) now sql c)), se_ticks := se_ticks s + 1\<rparr>)"
    using checkout_cache [OF c] by blast
  let ?from = "fst (cache_get (ce_map env) now sql c) \<noteq> None"
  let ?t = "s\<lparr>se_cache := Some (snd (cache_get (ce_map env) now sql c)), se_ticks := se_ticks s + 1\<rparr>"
  obtain x u where x: "run stmt ?from ?t = Some (x, u)" "x \<noteq> Inl Panic"
    using result True out
    by (auto simp: with_statement_def cthen_apply ensure_ready_usable attempt_def split: option.splits sum.splits fault.splits)
  have u: "se_cache u = Some (snd (cache_get (ce_map env) now sql c))"
    by (rule ckeepsD [OF run _ x(1)]) simp
  obtain v c' where v: "settle env sql stmt ?from (finished stmt) retain x u = (Inr (), v)" "se_cache v = Some c'"
    "borrowed (ce_map env) c' \<subseteq> (if ?from then borrowed (ce_map env) (snd (cache_get (ce_map env) now sql c)) - {sql}
       else borrowed (ce_map env) (snd (cache_get (ce_map env) now sql c)))"
    using settle_cache [OF laws u] by blast
  have "attempt (run stmt ?from) ?t = Some (Inr x, u)"
    using x by (auto simp: attempt_def split: sum.splits fault.splits)
  then have "with_statement env sql run finished retain s = Some (handle_result x v)"
    using True out v(1) by (simp add: with_statement_def cthen_apply ensure_ready_usable)
  then have "se_cache s' = Some c'" using handle_result_cache [of x v] result(1) v(2) by auto
  then show ?thesis
    using v(3) index_map_laws.get_borrows [OF laws, of now sql c] by (auto split: if_splits)
qed

text \<open>
  C4: no statement stays checked out.  However a query or another statement ends, with rows, with
  an error of the server, with a broken stream or refused, the statements that are in use in the
  cache afterwards were in use before: what it took from the cache it has given back.
\<close>

theorem statements_come_back:
  assumes "index_map_laws (ce_map env)" "se_cache s = Some c"
    and "operation \<in> {query env sql params, execute_sql_statement env sql params}"
    and "operation s = Some (r, s')" "r \<noteq> Inl Panic"
  shows "\<exists>c'. se_cache s' = Some c' \<and> borrowed (ce_map env) c' \<subseteq> borrowed (ce_map env) c"
proof -
  have q: "ckeeps (caches C) (cthen (execute_query_with_params env stmt params) (\<lambda>q. act (ok (restore_columns stmt b q))))"
    for C stmt b
    by (intro ckeeps_intros keeps_intros)
  have e: "ckeeps (caches C) (if is_query stmt then execute_query_with_params env stmt params
      else execute_dml_with_params env stmt params)" for C stmt
    by (intro ckeeps_intros)
  from assms(3) consider "operation = query env sql params" | "operation = execute_sql_statement env sql params" by blast
  then show ?thesis
  proof cases
    case 1
    show ?thesis
      by (rule with_statement_borrows [OF assms(1) q assms(2) assms(4) [unfolded 1 query_def] assms(5)])
  next
    case 2
    show ?thesis
      by (rule with_statement_borrows [OF assms(1) e assms(2) assms(4) [unfolded 2 execute_sql_statement_def] assms(5)])
  qed
qed

theorem statements_come_back_witness:
  "\<exists>caps r s' c'. query toy_client ''select c, n from t'' sample_binds (toy_session (first_response @ second_response @ [9, 9]) caps)
      = Some (r, s')
    \<and> se_cache s' = Some c' \<and> borrowed assoc_index_map c' \<subseteq> borrowed assoc_index_map (cache_new assoc_index_map 20)"
proof -
  have laws: "index_map_laws (ce_map toy_client)"
    by (simp add: toy_client_def assoc.index_map_laws_axioms)
  obtain caps where "capabilities_new = Inr caps" using capabilities_new_eq by blast
  let ?s = "toy_session (first_response @ second_response @ [9, 9]) caps"
  obtain r s' where q: "query toy_client ''select c, n from t'' sample_binds ?s = Some (Inr r, s')"
    using query_reads [OF toy_query_facts] by blast
  have c: "se_cache ?s = Some (cache_new assoc_index_map 20)" by (simp add: toy_session_def)
  have "\<exists>c'. se_cache s' = Some c' \<and> borrowed assoc_index_map c' \<subseteq> borrowed assoc_index_map (cache_new assoc_index_map 20)"
    using statements_come_back [OF laws c, where operation = "query toy_client ''select c, n from t'' sample_binds"
        and sql = "''select c, n from t''" and params = sample_binds and r = "Inr r" and s' = s'] q
    by (simp add: toy_client_def)
  with q show ?thesis by blast
qed


end
