(* ===== verification/ReturnLaws.thy ===== *)
theory ReturnLaws
  imports ClientLaws
begin

section \<open>Operations return\<close>

text \<open>
  No operation waits for ever on a stream that ends: every receive consumes bytes of the stream, and
  the loops of an operation receive in every round.
\<close>

subsection \<open>Nothing puts bytes back\<close>

abbreviation stream_le :: "nat \<Rightarrow> conn \<Rightarrow> bool" where
  "stream_le n c \<equiv> length (cn_in c) \<le> n"

lemma stream_le_close_on_error [keeps_intros]:
  assumes "keeps (stream_le n) m"
  shows "keeps (stream_le n) (close_on_error m)"
  unfolding keeps_def
proof (intro allI impI)
  fix c
  assume c: "stream_le n c"
  obtain r c' where r: "m c = (r, c')" by fastforce
  have "stream_le n c'" by (rule keepsD [OF assms c r])
  then show "stream_le n (snd (close_on_error m c))" by (cases r) (simp_all add: close_on_error_def r)
qed

lemma stream_le_transport [keeps_intros]:
  "keeps (stream_le n) (stream_read_exact k)" "keeps (stream_le n) (conn_send bs)" "keeps (stream_le n) (send_marker b)"
  "keeps (stream_le n) next_sequence_number"
  by (auto simp: keeps_def stream_read_exact_def conn_send_def stream_write_all_def send_marker_def
      next_sequence_number_def Let_def split: option.splits)

lemma stream_le_conn_receive [keeps_intros]: "keeps (stream_le n) conn_receive"
proof -
  have "keeps (stream_le n) (andThen (close_on_error (stream_read_exact PACKET_HEADER_SIZE)) (\<lambda>header_buf.
          let payload_len = packet_len large header_buf - PACKET_HEADER_SIZE
          in andThen (if 0 < payload_len then close_on_error (stream_read_exact payload_len) else ok [])
               (\<lambda>payload_buf. ok (header_buf @ payload_buf))))" for large
    unfolding Let_def by (intro keeps_intros)
  then show ?thesis by (simp add: keeps_def conn_receive_def)
qed

lemma stream_le_response_loop [keeps_intros]: "keeps (stream_le n) (response_loop acc is_first packet)"
proof -
  have "stream_le n c \<Longrightarrow> stream_le n (snd (response_loop acc is_first packet c))" for c
  proof (induction acc is_first packet c rule: response_loop.induct)
    case (1 acc is_first packet c)
    show ?case
    proof (cases "Framing.response_step acc is_first packet")
      case (Inr r)
      then show ?thesis
        using 1 keepsD [OF stream_le_conn_receive]
        by (subst response_loop.simps) (auto simp: andThen_apply split: option.splits bool.splits prod.splits sum.splits)
    qed (use 1 in \<open>subst response_loop.simps, simp\<close>)
  qed
  then show ?thesis by (simp add: keeps_def)
qed

lemma stream_le_receive_response [keeps_intros]: "keeps (stream_le n) receive_response"
  unfolding receive_response_def receive_response_from_first_packet_with_payload_def by (intro keeps_intros)

lemma response_or_marker_snd:
  "snd (receive_response_or_marker c) = snd (receive_response c)"
  "is_ok (fst (receive_response_or_marker c)) = is_ok (fst (receive_response c))"
proof -
  have "fmap fst (response_or_marker_loop [] True) c = receive_response c"
    by (simp add: response_or_marker_agrees receive_response_def receive_response_from_first_packet_with_payload_def)
  then have eq: "fmap fst receive_response_or_marker c = receive_response c"
    by (simp add: receive_response_or_marker_def)
  obtain x c' where x: "receive_response_or_marker c = (x, c')" by fastforce
  have "snd (fmap fst receive_response_or_marker c) = c'" "is_ok (fst (fmap fst receive_response_or_marker c)) = is_ok x"
    using x by (cases x; simp add: fmap_def andThen_apply ok_apply is_ok_def)+
  then show "snd (receive_response_or_marker c) = snd (receive_response c)"
    "is_ok (fst (receive_response_or_marker c)) = is_ok (fst (receive_response c))"
    unfolding eq x by simp_all
qed

lemma stream_le_response_or_marker [keeps_intros]: "keeps (stream_le n) receive_response_or_marker"
  using stream_le_receive_response [of n] by (simp add: keeps_def response_or_marker_snd)

text \<open>A response that came has used some of the stream.\<close>

lemma receive_response_uses:
  assumes "receive_response c = (Inr r, c')"
  shows "length (cn_in c') < length (cn_in c)"
proof -
  obtain first c1 where c1: "conn_receive c = (Inr first, c1)"
    using assms by (cases "conn_receive c") (auto simp: receive_response_def andThen_apply split: sum.splits)
  then have "response_loop [] True first c1 = (Inr r, c')"
    using assms by (simp add: receive_response_def receive_response_from_first_packet_with_payload_def)
  from keepsD [OF stream_le_response_loop order_refl this] conn_receive_consumes [OF c1] show ?thesis by simp
qed

lemma response_or_marker_uses:
  assumes "receive_response_or_marker c = (Inr r, c')"
  shows "length (cn_in c') < length (cn_in c)"
proof -
  have "is_ok (fst (receive_response c))" "snd (receive_response c) = c'"
    using response_or_marker_snd [of c] assms by (simp_all add: is_ok_def)
  then obtain x where "receive_response c = (Inr x, c')"
    by (cases "receive_response c") (auto simp: is_ok_def split: sum.splits)
  then show ?thesis by (rule receive_response_uses)
qed

lemma stream_le_recovery [keeps_intros]: "keeps (stream_le n) (handle_marker_reset_with_partial partial)"
proof -
  have after: "stream_le n c \<Longrightarrow> stream_le n (snd (after_reset_loop partial c))" for partial c
  proof (induction partial c rule: after_reset_loop.induct)
    case (1 partial c)
    obtain r c' where r: "conn_receive c = (r, c')" by fastforce
    have c': "stream_le n c'" by (rule keepsD [OF stream_le_conn_receive 1(2) r])
    show ?case
      using 1(1) [OF r [symmetric]] r c' keeps_app [OF stream_le_response_loop c']
      by (subst after_reset_loop.simps)
        (auto simp: receive_response_from_first_packet_with_payload_def split: sum.splits)
  qed
  have await: "stream_le n c \<Longrightarrow> stream_le n (snd (await_reset_loop partial c))" for partial c
  proof (induction partial c rule: await_reset_loop.induct)
    case (1 partial c)
    obtain r c' where r: "conn_receive c = (r, c')" by fastforce
    have c': "stream_le n c'" by (rule keepsD [OF stream_le_conn_receive 1(2) r])
    show ?case
      using 1(1) r c' after [OF c'] keeps_app [OF stream_le_response_loop c']
      by (subst await_reset_loop.simps)
        (auto simp: andThen_apply receive_response_from_first_packet_with_payload_def split: sum.splits)
  qed
  have "keeps (stream_le n) (await_reset_loop partial)" using await by (simp add: keeps_def)
  then show ?thesis unfolding handle_marker_reset_with_partial_def by (intro keeps_intros)
qed

subsection \<open>A fetch uses the stream\<close>

abbreviation session_le :: "nat \<Rightarrow> 'm session \<Rightarrow> bool" where
  "session_le n s \<equiv> stream_le n (se_conn s)"

lemma session_le_on_conn [keeps_intros]: "keeps (stream_le n) m \<Longrightarrow> keeps (session_le n) (on_conn m)"
  by (auto simp: keeps_def on_conn_def split: prod.split)

lemma session_le_requests [keeps_intros]:
  "keeps (session_le n) (send_built build)" "keeps (session_le n) (recovered x)"
  unfolding recovered_def reset_payload_def send_built_def
  by (intro keeps_intros)+

lemma exchange_uses:
  assumes "exchange t build s = (Inr x, s')"
  shows "length (cn_in (se_conn s')) < length (cn_in (se_conn s))"
proof -
  obtain seq s1 where s1: "on_conn next_sequence_number s = (Inr seq, s1)"
    by (simp add: on_conn_def next_sequence_number_def Let_def)
  obtain r s2 where s2: "send_built (build seq) s1 = (r, s2)" by fastforce
  have w: "session_le (length (cn_in (se_conn s))) s2"
    by (rule keepsD [OF session_le_requests(1) keepsD [OF session_le_on_conn [OF stream_le_transport(4)] order_refl s1] s2])
  obtain y c where y: "receive_response_or_marker (se_conn s2) = (y, c)" by fastforce
  have "is_ok r" "is_ok y" "s' = s2\<lparr>se_conn := c\<rparr>"
    using assms s1 s2 y
    by (auto simp: exchange_def andSeq_def andThen_apply on_conn_def is_ok_def fail_def ok_def lift_res_def
        split: sum.splits if_splits prod.splits)
  then show ?thesis
    using w response_or_marker_uses y by (fastforce simp: is_ok_def split: sum.splits)
qed

lemma fetch_more_uses:
  assumes "fetch_more env c cols n s = Some (Inr q, s')"
  shows "length (cn_in (se_conn s')) < length (cn_in (se_conn s))"
proof -
  let ?e = "exchange ''Empty fetch response'' (\<lambda>seq s. build_fetch_request (se_ver s) (se_large_sdu s)
      ((fetch_message_new c n)\<lparr>fm_sequence_number := seq\<rparr>))"
  obtain x s1 p s2 where x: "?e s = (Inr x, s1)" "recovered x s1 = (Inr p, s2)" "se_conn s' = se_conn s2"
    using assms
    by (auto simp: fetch_more_def cthen_apply andSeq_def andThen_apply ensure_ready_def parsed_def
        split: sum.splits prod.splits if_splits)
  have "session_le (length (cn_in (se_conn s1))) s2"
    by (rule keepsD [OF session_le_requests(2) order_refl x(2)])
  with exchange_uses [OF x(1)] x(3) show ?thesis by simp
qed

subsection \<open>Returning\<close>

definition returns :: "('m, 'a) client \<Rightarrow> bool" where
  "returns m \<longleftrightarrow> (\<forall>s. \<exists>y. m s = Some y)"

named_theorems returns_intros

lemma returnsD: "returns m \<Longrightarrow> \<exists>y. m s = Some y"
  by (simp add: returns_def)

lemma returns_act [returns_intros]: "returns (act m)"
  by (simp add: returns_def)

lemma returnsE:
  assumes "returns m"
  obtains x t where "m s = Some (x, t)"
proof -
  obtain y where "m s = Some y" using returnsD [OF assms] by blast
  then show thesis using that [of "fst y" "snd y"] by simp
qed

lemma returns_cthen [returns_intros]:
  assumes "returns m" "\<And>a. returns (f a)"
  shows "returns (cthen m f)"
  unfolding returns_def
proof
  fix s
  obtain x t where x: "m s = Some (x, t)" by (rule returnsE [OF assms(1)])
  show "\<exists>y. cthen m f s = Some y"
  proof (cases x)
    case (Inr a)
    then show ?thesis using returnsD [OF assms(2)] x by (simp add: cthen_apply)
  qed (simp add: cthen_apply x)
qed

lemma returns_attempt [returns_intros]:
  assumes "returns m"
  shows "returns (attempt m)"
  unfolding returns_def
proof
  fix s
  obtain x t where "m s = Some (x, t)" by (rule returnsE [OF assms])
  then show "\<exists>y. attempt m s = Some y" by (auto simp: attempt_def split: sum.split fault.split)
qed

lemma returns_if [returns_intros]: "returns m \<Longrightarrow> returns k \<Longrightarrow> returns (if c then m else k)"
  by simp

lemma returns_prod [returns_intros]: "(\<And>a b. returns (f a b)) \<Longrightarrow> returns (case p of (a, b) \<Rightarrow> f a b)"
  by (simp split: prod.split)

lemma returns_list [returns_intros]: "returns m \<Longrightarrow> (\<And>x xs. returns (f x xs)) \<Longrightarrow> returns (case l of [] \<Rightarrow> m | x # xs \<Rightarrow> f x xs)"
  by (simp split: list.split)

lemma returns_lob_data [returns_intros]:
  "(\<And>t. returns (f t)) \<Longrightarrow> (\<And>b. returns (g b)) \<Longrightarrow> returns (case d of LobText t \<Rightarrow> f t | LobBytes b \<Rightarrow> g b)"
  by (simp split: lob_data.split)

lemma returns_parsed [returns_intros]: "(\<And>s ss. \<exists>y. p s ss = Some y) \<Longrightarrow> returns (parsed p)"
  unfolding returns_def parsed_def by (metis option.simps(9))

lemma returns_from_result [returns_intros]: "\<exists>y. r = Some y \<Longrightarrow> returns (from_result r)"
  unfolding returns_def from_result_def by auto

lemma returns_fetch_more [returns_intros]: "returns (fetch_more env c cols n)"
  unfolding fetch_more_def by (intro returns_intros parsers_return)

lemma fetch_loop_returns: "\<exists>y. fetch_loop env r n s = Some y"
proof (induction "length (cn_in (se_conn s))" arbitrary: r s rule: less_induct)
  case less
  obtain x t where x: "fetch_more env (qr_cursor_id r) (qr_columns r) n s = Some (x, t)"
    by (rule returnsE [OF returns_fetch_more])
  show ?case
  proof (cases x)
    case (Inr batch)
    then have "\<exists>y. fetch_loop env r' n t = Some y" for r'
      using less fetch_more_uses x by blast
    then show ?thesis using x Inr by (subst fetch_loop.simps) simp
  qed (use x in \<open>subst fetch_loop.simps, simp\<close>)
qed

lemma returns_execute [returns_intros]:
  "returns (execute_query_with_params env stmt params)" "returns (execute_dml_with_params env stmt params)"
proof -
  have rest: "returns (fetch_remaining_query_rows env r n)" for r n
    unfolding fetch_remaining_query_rows_def by (intro returns_intros) (simp only: returns_def fetch_loop_returns simp_thms)
  have round: "returns (query_round env t m known)" for t m known
    unfolding query_round_def by (intro returns_intros parsers_return)
  show "returns (execute_query_with_params env stmt params)"
    unfolding execute_query_with_params_def by (intro returns_intros rest round)
  show "returns (execute_dml_with_params env stmt params)"
    unfolding execute_dml_with_params_def by (intro returns_intros parsers_return)
qed

lemma returns_statements [returns_intros]:
  "returns (query env sql params)" "returns (execute_sql_statement env sql params)" "returns (execute_dml_sql env sql params)"
  unfolding query_def execute_sql_statement_def execute_dml_sql_def with_statement_def
  by (intro returns_intros)+

lemma returns_calls:
  "returns (fetch_cursor env cursor)" "returns (execute_plsql env sql binds)" "returns (execute_with_binds env sql named)"
  "returns (execute_batch env batch)" "returns (open_scrollable_cursor env sql)" "returns (scroll env sc how where_to)"
  "returns (get_type env name)" "returns (transaction env sql)" "returns (ping env)"
proof -
  show plsql: "returns (execute_plsql env sql binds)" for sql binds
    unfolding execute_plsql_def by (intro returns_intros parsers_return)
  show "returns (execute_with_binds env sql named)"
    unfolding execute_with_binds_def by (intro returns_intros plsql)
qed (unfold fetch_cursor_def fetch_cursor_with_size_def execute_batch_def open_scrollable_cursor_def scroll_def get_type_def
    transaction_def ping_def; intro returns_intros parsers_return)+

lemma returns_lobs:
  "returns (read_lob locator)" "returns (lob_length locator)" "returns (lob_trim locator new_size)"
  "returns (lob_chunk_size locator)" "returns (read_bfile locator)"
  unfolding read_lob_def read_lob_range_def read_lob_internal_def lob_length_def lob_trim_def lob_chunk_size_def
    read_bfile_def bfile_is_open_def bfile_open_def bfile_close_def read_blob_def
  by (intro returns_intros parsers_return)+


end
