(* ===== verification/TextLaws.thy ===== *)
theory TextLaws
  imports Lobs
begin

section \<open>Text in UTF-16\<close>

text \<open>
  The conversion of a CLOB's text: what \<open>write_lob\<close> encodes as UTF-16, \<open>parse_lob_read_response\<close>
  decodes to the same text, for every text a Rust string can hold.
\<close>

subsection \<open>Code points of valid UTF-8\<close>

definition scalar_value :: "nat \<Rightarrow> bool" where
  "scalar_value c \<longleftrightarrow> c < 0x110000 \<and> \<not> high_surrogate c \<and> \<not> low_surrogate c"

lemma byte_tag:
  assumes "unat (b :: u8) = k + x"
  shows "of_nat k + of_nat x = b"
proof -
  have "of_nat (k + x) = (of_nat (unat b) :: u8)" by (simp only: assms)
  then show ?thesis by simp
qed

lemma mod_tag: "k mod m = 0 \<Longrightarrow> x < m \<Longrightarrow> (k + x) mod m = (x :: nat)"
  using mod_add_left_eq [of k m x] by simp

lemma tag_mod:
  "x < 32 \<Longrightarrow> (192 + x) mod 32 = (x :: nat)" "x < 16 \<Longrightarrow> (224 + x) mod 16 = (x :: nat)"
  "x < 8 \<Longrightarrow> (240 + x) mod 8 = (x :: nat)" "x < 64 \<Longrightarrow> (128 + x) mod 64 = (x :: nat)"
  by (rule mod_tag; simp)+

lemma code_point_1: "b < 0x80 \<Longrightarrow> scalar_value (code_point [b]) \<and> utf8_of_code (code_point [b]) = [b]"
  by (auto simp: scalar_value_def code_point_def high_surrogate_def low_surrogate_def utf8_of_code_def word_less_nat_alt)

lemma code_point_2:
  assumes "0xC2 \<le> b" "b \<le> 0xDF" "is_cont b1"
  shows "scalar_value (code_point [b, b1]) \<and> utf8_of_code (code_point [b, b1]) = [b, b1]"
proof -
  obtain x y where x: "unat b = 0xC0 + x" "2 \<le> x" "x < 32" and y: "unat b1 = 0x80 + y" "y < 64"
    using assms by (auto simp: is_cont_def word_le_nat_alt intro!: that [of "unat b - 0xC0" "unat b1 - 0x80"])
  define c where "c = x * 64 + y"
  have "code_point [b, b1] = c" using x y by (simp add: code_point_def tag_mod c_def)
  moreover have "c < 0x800" "\<not> c < 0x80" "c div 64 = x" "c mod 64 = y" using x y by (simp_all add: c_def)
  ultimately show ?thesis
    using byte_tag [OF x(1)] byte_tag [OF y(1)]
    by (simp add: scalar_value_def high_surrogate_def low_surrogate_def utf8_of_code_def)
qed

lemma code_point_3:
  assumes "0xE0 \<le> b" "b \<le> 0xEF" "second_ok b b1" "is_cont b2"
  shows "scalar_value (code_point [b, b1, b2]) \<and> utf8_of_code (code_point [b, b1, b2]) = [b, b1, b2]"
proof -
  have "is_cont b1" using assms(1-3) by (auto simp: second_ok_def is_cont_def word_le_nat_alt split: if_splits)
  then obtain x y z where x: "unat b = 0xE0 + x" "x < 16" and y: "unat b1 = 0x80 + y" "y < 64" and z: "unat b2 = 0x80 + z" "z < 64"
    using assms(1,2,4)
    by (auto simp: is_cont_def word_le_nat_alt intro!: that [of "unat b - 0xE0" "unat b1 - 0x80" "unat b2 - 0x80"])
  have xy: "x = 0 \<longrightarrow> 32 \<le> y" "x = 13 \<longrightarrow> y < 32"
    using assms(3) x y by (auto simp: second_ok_def word_le_nat_alt unat_arith_simps split: if_splits)
  define d where "d = x * 64 + y"
  define c where "c = d * 64 + z"
  have "code_point [b, b1, b2] = c" using x y z by (simp add: code_point_def tag_mod c_def d_def)
  moreover have d34: "d div 64 = x" "d mod 64 = y" using y by (simp_all add: d_def)
  moreover have d1: "d < 0x400" using x y by (simp add: d_def)
  moreover have d2: "32 \<le> d" using xy(1) by (cases "x = 0") (simp_all add: d_def)
  moreover have d5: "d < 0x360 \<or> 0x380 \<le> d"
  proof (cases "x = 13")
    case False
    then have "x \<le> 12 \<or> 14 \<le> x" by linarith
    then show ?thesis using y by (auto simp: d_def)
  qed (use xy(2) in \<open>simp add: d_def\<close>)
  moreover have c: "c div 64 = d" "c mod 64 = z" using z by (simp_all add: c_def)
  moreover have "c div 4096 = x" using c(1) d34(1) by (simp flip: div_mult2_eq [of c 64 64, simplified])
  moreover have "c < 0x10000" "\<not> c < 0x800" "c < 0xD800 \<or> 0xE000 \<le> c" using d1 d2 d5 z by (auto simp: c_def)
  ultimately show ?thesis
    using byte_tag [OF x(1)] byte_tag [OF y(1)] byte_tag [OF z(1)]
    by (auto simp: scalar_value_def high_surrogate_def low_surrogate_def utf8_of_code_def)
qed

lemma code_point_4:
  assumes "0xF0 \<le> b" "b \<le> 0xF4" "second_ok b b1" "is_cont b2" "is_cont b3"
  shows "scalar_value (code_point [b, b1, b2, b3]) \<and> utf8_of_code (code_point [b, b1, b2, b3]) = [b, b1, b2, b3]"
proof -
  have "is_cont b1" using assms(1-3) by (auto simp: second_ok_def is_cont_def word_le_nat_alt split: if_splits)
  then obtain w x y z where w: "unat b = 0xF0 + w" "w < 5" and x: "unat b1 = 0x80 + x" "x < 64"
    and y: "unat b2 = 0x80 + y" "y < 64" and z: "unat b3 = 0x80 + z" "z < 64"
    using assms(1,2,4,5)
    by (auto simp: is_cont_def word_le_nat_alt
        intro!: that [of "unat b - 0xF0" "unat b1 - 0x80" "unat b2 - 0x80" "unat b3 - 0x80"])
  have wx: "w = 0 \<longrightarrow> 16 \<le> x" "w = 4 \<longrightarrow> x < 16"
    using assms(3) w x by (auto simp: second_ok_def word_le_nat_alt unat_arith_simps split: if_splits)
  define e where "e = w * 64 + x"
  define d where "d = e * 64 + y"
  define c where "c = d * 64 + z"
  have "code_point [b, b1, b2, b3] = c" using w x y z by (simp add: code_point_def tag_mod c_def d_def e_def)
  moreover have e: "e div 64 = w" "e mod 64 = x" using x by (simp_all add: e_def)
  moreover have e3: "16 \<le> e" using wx(1) by (cases "w = 0") (simp_all add: e_def)
  moreover have e4: "e < 0x110"
  proof (cases "w = 4")
    case False
    then have "w \<le> 3" using w by linarith
    then show ?thesis using x by (simp add: e_def)
  qed (use wx(2) in \<open>simp add: e_def\<close>)
  moreover have d: "d div 64 = e" "d mod 64 = y" using y by (simp_all add: d_def)
  moreover have c: "c div 64 = d" "c mod 64 = z" using z by (simp_all add: c_def)
  moreover have c2: "c div 4096 = e" using c(1) d(1) by (simp flip: div_mult2_eq [of c 64 64, simplified])
  moreover have "c div 262144 = w" using c2 e(1) by (simp flip: div_mult2_eq [of c 4096 64, simplified])
  moreover have "c < 0x110000" "\<not> c < 0x10000" using e3 e4 y z by (simp_all add: c_def d_def)
  ultimately show ?thesis
    using byte_tag [OF w(1)] byte_tag [OF x(1)] byte_tag [OF y(1)] byte_tag [OF z(1)]
    by (auto simp: scalar_value_def high_surrogate_def low_surrogate_def utf8_of_code_def)
qed

lemma next_code_point:
  assumes "utf8_seq_error b bs = None"
  shows "scalar_value (code_point (b # take (utf8_width b - 1) bs))
    \<and> utf8_of_code (code_point (b # take (utf8_width b - 1) bs)) = b # take (utf8_width b - 1) bs"
proof -
  consider "b < 0x80" | "0xC2 \<le> b" "b \<le> 0xDF" | "0xE0 \<le> b" "b \<le> 0xEF" | "0xF0 \<le> b" "b \<le> 0xF4"
    using assms by (auto simp: utf8_seq_error_def utf8_width_def split: if_splits)
  then show ?thesis
  proof cases
    case 1
    then show ?thesis using code_point_1 by (simp add: utf8_width_def)
  next
    case 2
    then have w: "utf8_width b = 2" by (auto simp: utf8_width_def word_less_nat_alt word_le_nat_alt)
    then obtain b1 bs' where "bs = b1 # bs'" "second_ok b b1"
      using assms by (auto simp: utf8_seq_error_def split: list.splits if_splits)
    moreover from this 2 have "is_cont b1"
      by (auto simp: second_ok_def word_less_nat_alt word_le_nat_alt split: if_splits)
    ultimately show ?thesis using code_point_2 [OF 2] w by simp
  next
    case 3
    then have w: "utf8_width b = 3" by (auto simp: utf8_width_def word_less_nat_alt word_le_nat_alt)
    then obtain b1 b2 bs' where "bs = b1 # b2 # bs'" "second_ok b b1" "is_cont b2"
      using assms by (auto simp: utf8_seq_error_def numeral_eq_Suc split: list.splits if_splits elim!: utf8_tail.elims)
    then show ?thesis using code_point_3 [OF 3] w by (simp add: numeral_eq_Suc)
  next
    case 4
    then have w: "utf8_width b = 4" by (auto simp: utf8_width_def word_less_nat_alt word_le_nat_alt)
    then obtain b1 rest where r: "bs = b1 # rest" "second_ok b b1" "utf8_tail 2 2 rest = None"
      using assms by (auto simp: utf8_seq_error_def split: list.splits if_splits)
    moreover from r(3) obtain b2 b3 bs' where "rest = b2 # b3 # bs'" "is_cont b2" "is_cont b3"
      by (cases rest; cases "tl rest") (auto simp: numeral_2_eq_2 split: if_splits)
    ultimately show ?thesis using code_point_4 [OF 4] w by (simp add: numeral_eq_Suc)
  qed
qed

lemma valid_code_points:
  assumes "utf8_error i bs = None"
  shows "list_all scalar_value (code_points bs) \<and> concat (map utf8_of_code (code_points bs)) = bs"
  using assms
proof (induction bs arbitrary: i rule: code_points.induct)
  case (2 b bs)
  have e: "utf8_seq_error b bs = None" "utf8_error (i + utf8_width b) (drop (utf8_width b - 1) bs) = None"
    using 2(2) by (auto split: option.splits)
  then show ?case
    using 2(1) [OF refl e(2)] next_code_point [OF e(1)] by (simp add: Let_def)
qed simp

subsection \<open>Units\<close>

lemma utf16_scalar:
  assumes "scalar_value c"
  shows "utf16_lossy (map unat (utf16_units c) @ us) = utf8_of_code c @ utf16_lossy us"
proof (cases "c < 0x10000")
  case True
  then have "unat (of_nat c :: u16) = c" by (simp add: unat_of_nat)
  then show ?thesis using assms True by (cases us) (simp_all add: utf16_units_def scalar_value_def)
next
  case False
  define h l where "h = (c - 0x10000) div 1024" and "l = (c - 0x10000) mod 1024"
  have hl: "h < 1024" "l < 1024" "c = 0x10000 + h * 1024 + l"
    using assms False by (auto simp: h_def l_def scalar_value_def)
  have "unat (of_nat (0xD800 + h) :: u16) = 0xD800 + h" "unat (of_nat (0xDC00 + l) :: u16) = 0xDC00 + l"
    using hl by (simp_all add: unat_of_nat del: of_nat_add)
  then have "map unat (utf16_units c) = [0xD800 + h, 0xDC00 + l]"
    using False by (simp add: utf16_units_def h_def l_def del: of_nat_add)
  moreover have "high_surrogate (0xD800 + h)" "low_surrogate (0xDC00 + l)"
    using hl by (simp_all add: high_surrogate_def low_surrogate_def)
  ultimately show ?thesis by (simp add: hl(3))
qed

lemma utf16_scalars:
  "list_all scalar_value cs \<Longrightarrow> utf16_lossy (map unat (concat (map utf16_units cs))) = concat (map utf8_of_code cs)"
  by (induction cs) (simp_all add: utf16_scalar)

lemma be_unit: "unat (ucast (drop_bit 8 u) :: u8) * 256 + unat (ucast (u :: u16) :: u8) = unat u"
proof -
  have "unat (drop_bit 8 u) = unat u div 256" by (simp add: unat_drop_bit_eq drop_bit_eq_div unat_div)
  moreover have "unat u < 65536" using unsigned_less [of u] by simp
  ultimately show ?thesis by (simp add: unsigned_ucast_eq take_bit_eq_mod)
qed

lemma be_units_bytes: "be_units (concat (map (be_bytes 2) us)) = map unat (us :: u16 list)"
proof (induction us)
  case (Cons u us)
  have "unat (ucast (drop_bit 8 u) :: u8) * 256 + unat (ucast u :: u8) = unat u"
    using be_unit [of u] .
  then show ?case using Cons by (simp add: be_bytes_def numeral_2_eq_2)
qed simp

lemma utf16_roundtrip:
  assumes "is_str t"
  shows "text_of_bytes (utf16_lossy (be_units (concat (map (be_bytes 2) (encode_utf16 t))))) = t"
  using assms valid_code_points [of 0 "bytes_of_text t"]
  by (simp add: be_units_bytes encode_utf16_def utf16_scalars is_str_def)

text \<open>
  C16: text survives a CLOB.  What \<open>write_lob\<close> sends of a text, in UTF-16 or in UTF-8 as the locator
  says, is decoded by the response of a LOB read to the same text, surrogate pairs included.
\<close>

theorem clob_text_roundtrip:
  assumes "is_clob locator" "is_str t"
  shows "lob_data_of locator (Some (write_data_of locator (bytes_of_text t))) = LobText t"
proof -
  have "\<not> is_blob locator" "\<not> is_bfile locator"
    using assms(1) by (simp_all add: is_clob_def is_blob_def is_bfile_def)
  then show ?thesis
    using assms utf16_roundtrip [OF assms(2)]
    by (simp add: lob_data_of_def write_data_of_def from_utf8_lossy_str)
qed

definition clob_in_utf16 :: lob_locator where
  "clob_in_utf16 = \<lparr>loc_bytes = [0, 0, 0, 0, 0, 0, 0x80, 0], loc_size = 0, loc_chunk_size = 0, loc_type = OraClob, loc_csfrm = 1\<rparr>"

definition a_smile :: string where
  "a_smile = text_of_bytes [0x41, 0xF0, 0x9F, 0x98, 0x80]"

lemma a_smile_str: "is_str a_smile" by code_simp

lemma a_smile_units: "encode_utf16 a_smile = [0x41, 0xD83D, 0xDE00]"
proof -
  have "code_points (bytes_of_text a_smile) = [0x41, 0x1F600]"
    by (simp add: a_smile_def code_point_def utf8_width_def)
  then show ?thesis by (simp add: encode_utf16_def utf16_units_def)
qed

lemma a_smile_bytes: "concat (map (be_bytes 2) [0x41, 0xD83D, 0xDE00 :: u16]) = [0, 0x41, 0xD8, 0x3D, 0xDE, 0]"
  by code_simp

theorem clob_text_roundtrip_witness:
  "uses_var_length_charset clob_in_utf16
    \<and> write_data_of clob_in_utf16 (bytes_of_text a_smile) = [0, 0x41, 0xD8, 0x3D, 0xDE, 0]
    \<and> lob_data_of clob_in_utf16 (Some (write_data_of clob_in_utf16 (bytes_of_text a_smile))) = LobText a_smile"
proof (intro conjI clob_text_roundtrip)
  show c: "is_clob clob_in_utf16" and u: "uses_var_length_charset clob_in_utf16" by code_simp+
  show "is_str a_smile" by (rule a_smile_str)
  show "write_data_of clob_in_utf16 (bytes_of_text a_smile) = [0, 0x41, 0xD8, 0x3D, 0xDE, 0]"
    unfolding write_data_of_def from_utf8_lossy_str [OF a_smile_str] a_smile_units a_smile_bytes using c u by simp
qed

end
