(* ===== verification/Describe.thy ===== *)
theory Describe
  imports QueryLaws
begin

section \<open>The describe parser of messages\<close>

text \<open>
  \<open>messages/describe.rs\<close>: a second parser of the column metadata, exported and not used by the
  connection.  Its chunk loop, its column and its list of columns; and how far it agrees with the
  parser of \<open>connection.rs\<close>.
\<close>

subsection \<open>The parser\<close>

definition skip_describe_chunk :: "u8 \<Rightarrow> unit reader" where
  "skip_describe_chunk len =
     (if len = 0xFE then andThen read_ub4 (\<lambda>long_length. skip (unat long_length)) else skip (unat len))"

lemma rd_skip_describe_chunk [rd_intros]: "rd_safe (skip_describe_chunk len)"
  unfolding skip_describe_chunk_def by (intro rd_intros TrueI)

lemma skip_describe_chunk_remaining: "skip_describe_chunk len s = (Inr u, s') \<Longrightarrow> remaining s' \<le> remaining s"
  by (fastforce simp: skip_describe_chunk_def andThen_apply dest: read_ub4_progress skip_remaining
      split: if_splits prod.splits sum.splits)

lemma describe_u8_progress: "read_u8 s = (Inr b, s') \<Longrightarrow> remaining s' < remaining s"
  by (auto simp: remaining_def dest: read_u8_InrD)

function (sequential) skip_describe_chunks :: "rbuf \<Rightarrow> unit result \<times> rbuf" where
  "skip_describe_chunks s =
     andThen read_u8 (\<lambda>len s1.
       if len = 0 \<or> len = 0xFF then ok () s1
       else andThen (skip_describe_chunk len) (\<lambda>_ s2. skip_describe_chunks s2) s1) s"
  by pat_completeness auto
termination
  by (relation "measure remaining") (auto dest!: describe_u8_progress skip_describe_chunk_remaining)

declare skip_describe_chunks.simps [simp del]

definition described_string :: "string reader" where
  "described_string = fmap (\<lambda>s. case s of None \<Rightarrow> [] | Some t \<Rightarrow> t) read_string_with_length"

definition optional_string :: "string option reader" where
  "optional_string = andThen read_ub4 (\<lambda>n. if 0 < n then fmap Some described_string else ok None)"

definition described_name :: "string reader" where
  "described_name = andThen read_ub4 (\<lambda>name_length.
     if 0 < name_length then described_string else fail (Protocol ''column name is required''))"

definition described_annotation :: "unit reader" where
  "described_annotation = andSeq read_ub4 (andSeq described_string (andThen read_ub4 (\<lambda>value_length.
     andSeq (if 0 < value_length then fmap (\<lambda>_. ()) described_string else ok ())
       (fmap (\<lambda>_. ()) read_ub4))))"

definition described_annotations :: "unit reader" where
  "described_annotations = andThen read_ub4 (\<lambda>annotations_count.
     if 0 < annotations_count then
       andSeq (skip 1) (andThen read_ub4 (\<lambda>actual_count. andSeq (skip 1)
         (andSeq (read_n described_annotation (unat actual_count)) (fmap (\<lambda>_. ()) read_ub4))))
     else ok ())"

definition described_domain :: "u8 \<Rightarrow> (string option \<times> string option) reader" where
  "described_domain ver =
     (if FIELD_VERSION_23_1 \<le> ver
      then andThen optional_string (\<lambda>schema. fmap (\<lambda>name. (schema, name)) optional_string)
      else ok (None, None))"

definition described_vector :: "u8 \<Rightarrow> (u32 option \<times> u8 option) reader" where
  "described_vector ver =
     (if FIELD_VERSION_23_4 \<le> ver
      then andThen read_ub4 (\<lambda>dimensions. andThen read_u8 (\<lambda>format.
        fmap (\<lambda>flags. (if flags AND 1 \<noteq> 0 then None else Some dimensions, Some format)) read_u8))
      else ok (None, None))"

definition parse_described_column :: "u8 \<Rightarrow> column_info reader" where
  "parse_described_column ver =
     andThen read_u8 (\<lambda>data_type_num.
     andThen (lift_res (oracle_type_try_from data_type_num)) (\<lambda>oracle_type.
     andSeq (skip 1)
     (andThen read_u8 (\<lambda>precision. andThen read_u8 (\<lambda>scale.
     andThen read_ub4 (\<lambda>buffer_size.
     andSeq read_ub4 (andSeq read_ub8
     (andThen read_ub4 (\<lambda>oid_length.
     andSeq (if 0 < oid_length then skip_describe_chunks else ok ())
     (andSeq read_ub2 (andSeq read_ub2 (andThen read_u8 (\<lambda>csfrm. andThen read_ub4 (\<lambda>data_size.
     andSeq (if FIELD_VERSION_12_2 \<le> ver then fmap (\<lambda>_. ()) read_ub4 else ok ())
     (andThen read_u8 (\<lambda>nullable. andSeq (skip 1)
     (andThen described_name (\<lambda>name.
     andThen optional_string (\<lambda>type_schema.
     andThen optional_string (\<lambda>type_name.
     andSeq read_ub2 (andSeq read_ub4
     (andThen (described_domain ver) (\<lambda>(domain_schema, domain_name).
     andSeq (if FIELD_VERSION_23_1 \<le> ver then described_annotations else ok ())
     (andThen (described_vector ver) (\<lambda>(vector_dimensions, vector_format).
       ok \<lparr>ci_name = name, ci_oracle_type = oracle_type,
           ci_data_size = (if oracle_type = OraRaw then buffer_size else data_size),
           ci_buffer_size = buffer_size, ci_precision = ucast precision, ci_scale = ucast scale,
           ci_nullable = (nullable \<noteq> 0), ci_csfrm = csfrm, ci_type_schema = type_schema,
           ci_type_name = type_name, ci_domain_schema = domain_schema, ci_domain_name = domain_name,
           ci_is_json = (oracle_type = OraJson), ci_is_oson = (oracle_type = OraJson),
           ci_vector_dimensions = vector_dimensions, ci_vector_format = vector_format,
           ci_element_type = None, ci_collection_type = None\<rparr>)))))))))))))))))))))))))"

definition parse_described_columns :: "u8 \<Rightarrow> column_info list reader" where
  "parse_described_columns ver =
     andSeq skip_describe_chunks (andSeq read_ub4 (andThen read_ub4 (\<lambda>column_count.
     andSeq (if 0 < column_count then skip 1 else ok ())
     (andThen (read_n (parse_described_column ver) (unat column_count)) (\<lambda>columns.
     andThen read_ub4 (\<lambda>has_date.
     andSeq (if 0 < has_date then skip_describe_chunks else ok ())
     (andSeq read_ub4 (andSeq read_ub4 (andSeq read_ub4 (andSeq read_ub4
     (andThen read_ub4 (\<lambda>has_qcky.
     andSeq (if 0 < has_qcky then skip_describe_chunks else ok ()) (ok columns)))))))))))))"

subsection \<open>No input makes it panic\<close>

lemma rd_skip_describe_chunks [rd_intros]: "rd_safe skip_describe_chunks"
  unfolding rd_post_def
proof
  fix s
  show "rd_at skip_describe_chunks s (\<lambda>_. True)"
  proof (induction s rule: skip_describe_chunks.induct)
    case (1 s)
    show ?case
      by (rule rd_at_unfold [OF skip_describe_chunks.simps],
          intro rd_at_andThen [OF rd_at_post [OF rd_read_u8]])
        (auto intro!: rd_at_if rd_at_andThen [OF rd_at_post [OF rd_skip_describe_chunk]] rd_at_post [OF rd_post_ok] "1.IH")
  qed
qed

lemmas stays_describe_chunks [stays_intros] = rd_skip_describe_chunks [THEN stays_safe]

lemma stays_described_string [stays_intros]: "stays np described_string"
  unfolding described_string_def by (intro stays_fmap stays_safe rd_read_string_with_length)

lemma oracle_type_try_from_returns: "oracle_type_try_from b \<noteq> Inl Panic"
  by (simp add: oracle_type_try_from_def)

lemma parse_described_columns_stays: "stays np (parse_described_columns ver)"
  unfolding parse_described_columns_def parse_described_column_def described_vector_def described_domain_def
    described_annotations_def described_annotation_def described_name_def optional_string_def
  by (intro stays_intros stays_lift_res oracle_type_try_from_returns)

lemma described_columns_do_not_panic:
  "rb_wf s \<Longrightarrow> parse_described_columns ver s = (r, s') \<Longrightarrow> rd_frame s s' \<and> r \<noteq> Inl Panic"
  using staysD [OF parse_described_columns_stays [of True]] by blast

subsection \<open>Agreement with the parser of the connection\<close>

text \<open>What this parser makes of a column the other one reads as \<open>col\<close>.\<close>

definition described_as :: "u8 \<Rightarrow> column_info \<Rightarrow> column_info" where
  "described_as ver col = col
     \<lparr>ci_data_size := (if ci_oracle_type col = OraRaw then ci_buffer_size col else ci_data_size col),
      ci_nullable := False, ci_is_json := ci_oracle_type col = OraJson, ci_is_oson := ci_oracle_type col = OraJson,
      ci_vector_dimensions := (if FIELD_VERSION_23_4 \<le> ver then Some 0 else None),
      ci_vector_format := (if FIELD_VERSION_23_4 \<le> ver then Some 0 else None)\<rparr>"

named_theorems described_steps

lemma described_step_type [described_steps]:
  "r = Inr a \<Longrightarrow> reads (f a) bs u \<Longrightarrow> reads (andThen (lift_res r) f) bs u"
  by (simp add: reads_def andThen_apply lift_res_apply)

lemma described_step_zero [described_steps]:
  "reads k bs u \<Longrightarrow> reads (andSeq read_ub2 k) (0 # bs) u"
  "reads k bs u \<Longrightarrow> reads (andSeq read_ub8 k) (0 # bs) u"
  "reads k bs u \<Longrightarrow> reads (andSeq (if 0 < (0 :: u32) then m else ok ()) k) bs u"
  using reads_step_ub(1) [of "\<lambda>_. k" 0] reads_step_ub(3) [of "\<lambda>_. k" 0]
  by (auto simp: ub2_wire_def ub8_wire_def andSeq_def)

lemma reads_ignored: "reads (fmap (\<lambda>_. ()) read_ub4) [0] ()"
  using reads_fmap [OF reads_ub4 [of 0]] by (simp add: ub4_wire_def)

lemma reads_described_string:
  assumes "sends_text t"
  shows "reads described_string (string_wire (Some t)) t"
  using reads_fmap [OF reads_string_with_length [of "Some t"], of "\<lambda>s. case s of None \<Rightarrow> [] | Some t \<Rightarrow> t"] assms
  by (simp add: described_string_def sends_text_def)

lemma text_length_positive: "sends_text t \<Longrightarrow> t \<noteq> [] \<Longrightarrow> 0 < (of_nat (length t) :: u32)"
  by (simp add: sends_text_def word_gt_0 unat_eq_0 [symmetric] unat_of_nat)

lemma described_step_name [described_steps]:
  assumes "sends_text t" "t \<noteq> []" "reads (f t) bs u"
  shows "reads (andThen described_name f) (text_wire t @ bs) u"
proof (rule reads_andThen [where f = f and cs = bs])
  show "reads (f t) bs u" by (rule assms(3))
next
  show "reads described_name (text_wire t) t"
    using assms text_length_positive [OF assms(1,2)]
    by (auto simp: described_name_def text_wire_def intro!: reads_step_ub(2) reads_described_string)
qed

lemma described_step_option [described_steps]:
  assumes "sends_text (or_empty t)" "t \<noteq> Some []" "reads (f t) bs u"
  shows "reads (andThen optional_string f) (text_wire (or_empty t) @ bs) u"
proof (rule reads_andThen [where f = f and cs = bs])
  show "reads (f t) bs u" by (rule assms(3))
next
  show "reads optional_string (text_wire (or_empty t)) t"
  proof (cases t)
    case None
    then show ?thesis
      unfolding optional_string_def by (auto simp: or_empty_def text_wire_def intro!: reads_step_ub_zero reads_ok)
  next
    case (Some x)
    then show ?thesis
      using assms(1,2) text_length_positive [of x] reads_fmap [OF reads_described_string [of x], of Some]
      by (auto simp: optional_string_def or_empty_def text_wire_def intro!: reads_step_ub(2))
  qed
qed

lemma described_step_domain [described_steps]:
  assumes "reads (f None None) bs u"
  shows "reads (andThen (described_domain ver) (case_prod f)) ((if FIELD_VERSION_23_1 \<le> ver then [0, 0] else []) @ bs) u"
proof (rule reads_andThen [where f = "case_prod f" and cs = bs and v = "(None, None)"])
  show "reads (case_prod f (None, None)) bs u" using assms by simp
next
  have none: "reads optional_string [0] None"
    unfolding optional_string_def by (intro reads_step_ub_zero) (simp add: reads_ok)
  have "reads (andThen optional_string (\<lambda>schema. fmap (\<lambda>name. (schema, name)) optional_string)) ([0] @ [0]) (None, None)"
    by (rule reads_andThen [OF none reads_fmap [OF none refl]])
  then show "reads (described_domain ver) (if FIELD_VERSION_23_1 \<le> ver then [0, 0] else []) (None, None)"
    by (simp add: described_domain_def reads_ok)
qed

lemma described_step_annotations [described_steps]:
  assumes "FIELD_VERSION_23_1 \<le> ver \<longleftrightarrow> 20 \<le> ver" "reads k bs u"
  shows "reads (andSeq (if FIELD_VERSION_23_1 \<le> ver then described_annotations else ok ()) k)
    ((if 20 \<le> ver then [0] else []) @ bs) u"
proof -
  have "reads described_annotations [0] ()"
    unfolding described_annotations_def by (intro reads_step_ub_zero) (simp add: reads_ok)
  from reads_step_when [OF this assms(2)] show ?thesis using assms(1) by simp
qed

lemma described_vector_reads:
  "reads (described_vector ver) (if FIELD_VERSION_23_4 \<le> ver then [0, 0, 0] else [])
     (if FIELD_VERSION_23_4 \<le> ver then (Some 0, Some 0) else (None, None))"
proof -
  have "reads (fmap (\<lambda>flags :: u8. (if flags AND 1 \<noteq> 0 then None else Some (0 :: u32), Some (0 :: u8))) read_u8) [0] (Some 0, Some 0)"
    by (rule reads_fmap [OF reads_u8]) simp
  then have "reads (andThen read_ub4 (\<lambda>dimensions. andThen read_u8 (\<lambda>format. fmap (\<lambda>flags.
      (if flags AND 1 \<noteq> 0 then None else Some dimensions, Some format)) read_u8))) [0, 0, 0] (Some 0, Some 0)"
    by (intro reads_step_ub_zero reads_step_u8)
  then show ?thesis by (simp add: described_vector_def reads_ok)
qed

lemma described_step_vector:
  assumes "f (if FIELD_VERSION_23_4 \<le> ver then Some 0 else None) (if FIELD_VERSION_23_4 \<le> ver then Some 0 else None) = ok v"
  shows "reads (andThen (described_vector ver) (case_prod f)) (if FIELD_VERSION_23_4 \<le> ver then [0, 0, 0] else []) v"
  using assms by (intro reads_andThen_Nil [OF described_vector_reads]) (simp add: reads_ok split: if_splits)

lemma described_column_reads:
  assumes "column_sent col" "ci_name col \<noteq> []" "FIELD_VERSION_23_1 \<le> ver \<longleftrightarrow> 20 \<le> ver"
  shows "reads (parse_described_column ver) (describe_column_wire ver col) (described_as ver col)"
proof -
  note sent = assms(1) [unfolded column_sent_def]
  have rest: "ci_domain_schema col = None" "ci_domain_name col = None" "ci_element_type col = None"
    "ci_collection_type col = None"
    using sent by (cases col; simp add: column_info_new_def)+
  show ?thesis
    unfolding parse_described_column_def describe_column_wire_def opt_text_wire_def
    using sent assms(2,3)
    by (intro reads_steps described_steps reads_ignored described_step_vector)
      (simp_all only: oracle_type_byte_inv simp_thms,
        auto simp: described_as_def rest ucast_small intro!: arg_cong [of _ _ ok] column_info.equality)
qed

lemma skip_describe_end: "reads skip_describe_chunks [0] ()"
  by (simp add: reads_def skip_describe_chunks.simps andThen_apply read_u8_def rd_prim_defs ok_apply)

lemma described_columns_read:
  assumes "\<forall>col\<in>set cols. column_sent col \<and> ci_name col \<noteq> []" "length cols < 4294967296" "cols \<noteq> []"
    and "FIELD_VERSION_23_1 \<le> ver \<longleftrightarrow> 20 \<le> ver"
  shows "reads (parse_described_columns ver) (0 # describe_wire ver cols) (map (described_as ver) cols)"
proof -
  have n: "0 < (of_nat (length cols) :: u32)" "unat (of_nat (length cols) :: u32) = length cols"
    using assms(2,3) by (simp_all add: word_gt_0 unat_eq_0 [symmetric] unat_of_nat)
  have chunk: "reads k bs u \<Longrightarrow> reads (andSeq skip_describe_chunks k) (0 # bs) u" for k :: "column_info list reader" and bs u
    using reads_andThen [OF skip_describe_end, of "\<lambda>_. k" bs u] by (simp add: andSeq_def)
  have tail: "reads (andThen read_ub4 (\<lambda>has_date. andSeq (if 0 < has_date then skip_describe_chunks else ok ())
      (andSeq read_ub4 (andSeq read_ub4 (andSeq read_ub4 (andSeq read_ub4
        (andThen read_ub4 (\<lambda>has_qcky. andSeq (if 0 < has_qcky then skip_describe_chunks else ok ()) (ok cs))))))))) [0, 0, 0, 0, 0, 0] cs"
    for cs
    by (intro reads_step_ub_zero described_step_zero) (rule reads_ok)
  have each: "reads (read_n (parse_described_column ver) (length cs)) (concat (map (describe_column_wire ver) cs)) (map (described_as ver) cs)"
    if "\<forall>col\<in>set cs. column_sent col \<and> ci_name col \<noteq> []" for cs
    using that
    by (induction cs) (auto intro!: reads_ok reads_andThen [OF described_column_reads] reads_fmap simp: assms(4))
  have "reads (andThen (read_n (parse_described_column ver) (length cols)) (\<lambda>columns.
      andThen read_ub4 (\<lambda>has_date. andSeq (if 0 < has_date then skip_describe_chunks else ok ())
      (andSeq read_ub4 (andSeq read_ub4 (andSeq read_ub4 (andSeq read_ub4
        (andThen read_ub4 (\<lambda>has_qcky. andSeq (if 0 < has_qcky then skip_describe_chunks else ok ()) (ok columns))))))))))
      (concat (map (describe_column_wire ver) cols) @ [0, 0, 0, 0, 0, 0]) (map (described_as ver) cols)"
    by (rule reads_andThen [OF each [OF assms(1)]]) (rule tail)
  then show ?thesis
    unfolding parse_described_columns_def describe_wire_def
    using n assms(3) by (auto simp del: One_nat_def intro!: chunk reads_step_ub_zero reads_step_ub reads_step_skip_byte)
qed

text \<open>
  The two agree on such columns up to the field versions' bits.  They part on a chunk: after its bytes
  this parser's loop takes the next byte for another length, so that a date of the server costs it
  the field behind the date.
\<close>

lemma describe_chunk_runs_on:
  assumes "0 < n" "n < 0xFE" "length bs = unat n"
  shows "reads skip_raw_bytes_chunked (n # bs) ()" "reads skip_describe_chunks (n # bs @ [0]) ()"
proof -
  have s: "reads (skip (unat n)) bs ()" using assms(3) by (intro reads_skip) simp
  show "reads skip_raw_bytes_chunked (n # bs) ()"
    unfolding skip_raw_bytes_chunked_def using assms s
    by (intro reads_step_u8) (auto simp: LONG_INDICATOR_def)
  have "reads (andThen read_u8 (\<lambda>len. if len = 0 \<or> len = 0xFF then ok () else andSeq (skip_describe_chunk len) skip_describe_chunks))
      (n # bs @ [0]) ()"
    using assms s by (intro reads_step_u8)
      (auto simp: skip_describe_chunk_def andSeq_def intro!: reads_andThen skip_describe_end)
  moreover have "skip_describe_chunks = andThen read_u8
      (\<lambda>len. if len = 0 \<or> len = 0xFF then ok () else andSeq (skip_describe_chunk len) skip_describe_chunks)"
    by (rule ext) (subst skip_describe_chunks.simps, auto simp: andThen_apply andSeq_def split: sum.splits prod.splits)
  ultimately show "reads skip_describe_chunks (n # bs @ [0]) ()" by simp
qed

end
