(* ===== verification/Drcp.thy ===== *)
theory Drcp
  imports Prelude
begin

section \<open>Options of resident connection pooling\<close>

text \<open>
  \<open>drcp.rs\<close>: the options and the session state of DRCP, which the configuration and the connection
  do not use yet.
\<close>

datatype session_purity = PurityDefault | PurityNew | PuritySelf

datatype release_mode = ReleaseNormal | Deauthenticate

definition release_mode_code :: "release_mode \<Rightarrow> u32" where
  "release_mode_code m = (case m of ReleaseNormal \<Rightarrow> 0 | Deauthenticate \<Rightarrow> 2)"

record drcp_options =
  do_connection_class :: "string option"
  do_purity :: session_purity
  do_enabled :: bool

definition drcp_options_default :: drcp_options where
  "drcp_options_default = \<lparr>do_connection_class = None, do_purity = PurityDefault, do_enabled = False\<rparr>"

definition drcp_options_new :: drcp_options where
  "drcp_options_new = \<lparr>do_connection_class = None, do_purity = PurityDefault, do_enabled = True\<rparr>"

definition with_connection_class :: "string \<Rightarrow> drcp_options \<Rightarrow> drcp_options" where
  "with_connection_class class_name opts = opts\<lparr>do_connection_class := Some class_name\<rparr>"

definition with_purity :: "session_purity \<Rightarrow> drcp_options \<Rightarrow> drcp_options" where
  "with_purity purity opts = opts\<lparr>do_purity := purity\<rparr>"

definition disabled :: "drcp_options \<Rightarrow> drcp_options" where
  "disabled opts = opts\<lparr>do_enabled := False\<rparr>"

record drcp_session =
  ds_is_held :: bool
  ds_tag :: "string option"
  ds_state_changed :: bool

definition drcp_session_new :: drcp_session where
  "drcp_session_new = \<lparr>ds_is_held = False, ds_tag = None, ds_state_changed = False\<rparr>"

definition set_held :: "bool \<Rightarrow> drcp_session \<Rightarrow> drcp_session" where
  "set_held held s = s\<lparr>ds_is_held := held\<rparr>"

definition set_tag :: "string option \<Rightarrow> drcp_session \<Rightarrow> drcp_session" where
  "set_tag tag s = s\<lparr>ds_tag := tag\<rparr>"

definition mark_state_changed :: "drcp_session \<Rightarrow> drcp_session" where
  "mark_state_changed s = s\<lparr>ds_state_changed := True\<rparr>"

definition clear_state_changed :: "drcp_session \<Rightarrow> drcp_session" where
  "clear_state_changed s = s\<lparr>ds_state_changed := False\<rparr>"

text \<open>The default of the derived trait and the constructor differ in one field, which disabling takes back.\<close>

lemma disabled_new: "disabled drcp_options_new = drcp_options_default"
  by (simp add: disabled_def drcp_options_new_def drcp_options_default_def)

end
