(* ===== verification/ErrorText.thy ===== *)
theory ErrorText
  imports Values
begin

section \<open>The text of an error\<close>

text \<open>
  \<open>Display\<close> of \<open>Error\<close>, the format strings of \<open>src/src/error.rs\<close>, with the \<open>Debug\<close> forms they and the
  command line shell use: packet and Oracle types by name, a duration in its largest unit.
\<close>

definition packet_type_name :: "packet_type \<Rightarrow> string" where
  "packet_type_name t =
     (case t of Connect \<Rightarrow> ''Connect'' | Accept \<Rightarrow> ''Accept'' | Ack \<Rightarrow> ''Ack'' | Refuse \<Rightarrow> ''Refuse''
      | Redirect \<Rightarrow> ''Redirect'' | Data \<Rightarrow> ''Data'' | NullPacket \<Rightarrow> ''Null'' | Abort \<Rightarrow> ''Abort''
      | Resend \<Rightarrow> ''Resend'' | Marker \<Rightarrow> ''Marker'' | Attention \<Rightarrow> ''Attention'' | Control \<Rightarrow> ''Control'')"

primrec oracle_type_name :: "oracle_type \<Rightarrow> string" where
  "oracle_type_name OraVarchar = ''Varchar''"
| "oracle_type_name OraNumber = ''Number''"
| "oracle_type_name OraBinaryInteger = ''BinaryInteger''"
| "oracle_type_name OraLong = ''Long''"
| "oracle_type_name OraRowid = ''Rowid''"
| "oracle_type_name OraDate = ''Date''"
| "oracle_type_name OraRaw = ''Raw''"
| "oracle_type_name OraLongRaw = ''LongRaw''"
| "oracle_type_name OraChar = ''Char''"
| "oracle_type_name OraBinaryFloat = ''BinaryFloat''"
| "oracle_type_name OraBinaryDouble = ''BinaryDouble''"
| "oracle_type_name OraCursor = ''Cursor''"
| "oracle_type_name OraObject = ''Object''"
| "oracle_type_name OraClob = ''Clob''"
| "oracle_type_name OraBlob = ''Blob''"
| "oracle_type_name OraBfile = ''Bfile''"
| "oracle_type_name OraJson = ''Json''"
| "oracle_type_name OraVector = ''Vector''"
| "oracle_type_name OraTimestamp = ''Timestamp''"
| "oracle_type_name OraTimestampTz = ''TimestampTz''"
| "oracle_type_name OraIntervalYm = ''IntervalYm''"
| "oracle_type_name OraIntervalDs = ''IntervalDs''"
| "oracle_type_name OraUrowid = ''Urowid''"
| "oracle_type_name OraTimestampLtz = ''TimestampLtz''"
| "oracle_type_name OraBoolean = ''Boolean''"

fun show_hex :: "nat \<Rightarrow> string" where
  "show_hex n =
     (let d = char_of (if n mod 16 < 10 then 48 + n mod 16 else 87 + n mod 16)
      in if n < 16 then [d] else show_hex (n div 16) @ [d])"

declare show_hex.simps [simp del]

text \<open>\<open>Debug\<close> of a \<open>Duration\<close> of \<open>n\<close> nanoseconds: trailing zeros of the fraction are dropped.\<close>

definition decimal_unit :: "nat \<Rightarrow> nat \<Rightarrow> string \<Rightarrow> string" where
  "decimal_unit digits n unit_name =
     (let f = rev (dropWhile (\<lambda>c. c = CHR ''0'') (rev (padded digits (n mod 10 ^ digits))))
      in show_nat (n div 10 ^ digits) @ (if n mod 10 ^ digits = 0 then [] else ''.'' @ f) @ unit_name)"

definition duration_text :: "nat \<Rightarrow> string" where
  "duration_text n =
     (if 1000000000 \<le> n then decimal_unit 9 n ''s''
      else if 1000000 \<le> n then decimal_unit 6 n ''ms''
      else if 1000 \<le> n then decimal_unit 3 n (text_of_bytes [0xC2, 0xB5, 0x73])
      else show_nat n @ ''ns'')"

definition or_default :: "string \<Rightarrow> string option \<Rightarrow> string" where
  "or_default d t = (case t of None \<Rightarrow> d | Some x \<Rightarrow> x)"

definition prefixed :: "string \<Rightarrow> string option \<Rightarrow> string" where
  "prefixed p t = (case t of None \<Rightarrow> [] | Some x \<Rightarrow> p @ x)"

definition display_error :: "error \<Rightarrow> string" where
  "display_error e =
     (case e of
        InvalidPacketType b \<Rightarrow> ''invalid packet type: '' @ show_nat (unat b)
      | InvalidMessageType b \<Rightarrow> ''invalid message type: '' @ show_nat (unat b)
      | PacketTooShort expected actual \<Rightarrow>
          ''packet too short: expected at least '' @ show_nat expected @ '' bytes, got '' @ show_nat actual
      | UnexpectedPacketType expected actual \<Rightarrow>
          ''unexpected packet type: expected '' @ packet_type_name expected @ '', got '' @ packet_type_name actual
      | ProtocolVersionNotSupported v least \<Rightarrow>
          ''server protocol version '' @ show_nat (unat v) @ '' not supported (minimum: '' @ show_nat (unat least) @ '')''
      | Protocol t \<Rightarrow> ''protocol error: '' @ t
      | ProtocolError t \<Rightarrow> ''protocol error: '' @ t
      | BufferUnderflow needed available \<Rightarrow>
          ''buffer underflow: need '' @ show_nat needed @ '' bytes but only '' @ show_nat available @ '' available''
      | BufferOverflow needed available \<Rightarrow>
          ''buffer overflow: need '' @ show_nat needed @ '' bytes but only '' @ show_nat available @ '' available''
      | InvalidLengthIndicator b \<Rightarrow> ''invalid length indicator: '' @ show_nat (unat b)
      | ConnectionRefused code message \<Rightarrow>
          ''connection refused'' @ (case code of None \<Rightarrow> [] | Some c \<Rightarrow> '' (error '' @ show_nat (unat c) @ '')'')
            @ '': '' @ or_default ''unknown reason'' message
      | ConnectionRedirected address \<Rightarrow> ''connection redirected to: '' @ address
      | ConnectionRedirect t \<Rightarrow> ''connection redirected to: '' @ t
      | ConnectionClosed \<Rightarrow> ''connection closed unexpectedly''
      | ConnectionClosedByServer t \<Rightarrow> t
      | ConnectionNotReady \<Rightarrow> ''connection not ready''
      | CursorClosed \<Rightarrow> ''cursor is closed''
      | InvalidCursor t \<Rightarrow> ''invalid cursor: '' @ t
      | ConnectionTimeout n \<Rightarrow> ''connection timeout after '' @ duration_text n
      | InvalidConnectionString t \<Rightarrow> ''invalid connection string: '' @ t
      | InvalidServiceName name message \<Rightarrow>
          ''invalid service name'' @ prefixed '': '' name @ '': '' @ or_default ''service not found'' message
      | InvalidSid name message \<Rightarrow> ''invalid SID'' @ prefixed '': '' name @ '': '' @ or_default ''SID not found'' message
      | AuthenticationFailed t \<Rightarrow> ''authentication failed: '' @ t
      | InvalidCredentials \<Rightarrow> ''invalid username or password''
      | UnsupportedVerifierType v \<Rightarrow> ''unsupported verifier type: 0x'' @ show_hex (unat v)
      | OracleError code message \<Rightarrow> ''ORA-'' @ padded 5 (unat code) @ '': '' @ message
      | SqlError t \<Rightarrow> ''SQL execution error: '' @ t
      | NoDataFound \<Rightarrow> ''no data found''
      | ServerError code message \<Rightarrow> ''server error ('' @ show_nat (unat code) @ ''): '' @ message
      | InvalidDataType t \<Rightarrow> ''invalid data type: '' @ show_nat (unat t)
      | InvalidOracleType t \<Rightarrow> ''invalid Oracle type: '' @ show_nat (unat t)
      | DataConversionError t \<Rightarrow> ''data conversion error: '' @ t
      | UnexpectedNull \<Rightarrow> ''unexpected NULL value''
      | Io t \<Rightarrow> ''I/O error: '' @ t
      | FeatureNotSupported t \<Rightarrow> ''feature not supported: '' @ t
      | NativeNetworkEncryptionRequired \<Rightarrow>
          ''native network encryption and data integrity is required but not supported''
      | Internal t \<Rightarrow> ''internal error: '' @ t)"

end
