(* ===== verification/ShellText.thy ===== *)
theory ShellText
  imports ErrorText Config
begin

section \<open>The text functions of the command line shell\<close>

text \<open>
  The functions of \<open>src/src/bin/sqlrs.rs\<close> that do not touch the connection: how a script's text is
  recognised and cut, how values are shown, and the parsers of its commands.  Text is UTF-8; a
  scan for ASCII characters reads bytes, since no byte of a longer sequence is ASCII.
\<close>

subsection \<open>Text of the standard library\<close>

definition trim_start :: "string \<Rightarrow> string" where
  "trim_start s = strip_ws ws_seqs s"

definition trim_end :: "string \<Rightarrow> string" where
  "trim_end s = rev (strip_ws (map rev ws_seqs) (rev s))"

definition begins :: "string \<Rightarrow> string \<Rightarrow> bool" where
  "begins s p \<longleftrightarrow> take (length p) s = p"

definition strip_prefix_text :: "string \<Rightarrow> string \<Rightarrow> string option" where
  "strip_prefix_text p s = (if begins s p then Some (drop (length p) s) else None)"

definition split_once_text :: "string \<Rightarrow> string \<Rightarrow> (string \<times> string) option" where
  "split_once_text pat s = map_option (\<lambda>i. (take i s, drop (i + length pat) s)) (find_text pat s)"

text \<open>\<open>rfind\<close> and \<open>rsplit_once\<close> of a character.\<close>

definition rfind_char :: "char \<Rightarrow> string \<Rightarrow> nat option" where
  "rfind_char c s = map_option (\<lambda>i. length s - 1 - i) (find_char c (rev s))"

definition rsplit_once_char :: "char \<Rightarrow> string \<Rightarrow> (string \<times> string) option" where
  "rsplit_once_char c s = map_option (\<lambda>i. (take i s, drop (i + 1) s)) (rfind_char c s)"

text \<open>The first white space of a text, and \<open>split_whitespace\<close>.\<close>

fun before_space :: "string \<Rightarrow> string" where
  "before_space [] = []"
| "before_space (c # s) = (if 0 < ws_head ws_seqs (c # s) then [] else c # before_space s)"

lemma length_before_space: "length (before_space s) \<le> length s"
  by (induction s) auto

definition split_once_space :: "string \<Rightarrow> (string \<times> string) option" where
  "split_once_space s =
     (let w = before_space s; rest = drop (length w) s
      in if rest = [] then None else Some (w, drop (ws_head ws_seqs rest) rest))"

lemma length_strip_ws: "length (strip_ws seqs s) \<le> length s"
  by (induction seqs s rule: strip_ws.induct) (subst strip_ws.simps, force)

lemma before_space_stripped: "strip_ws ws_seqs s \<noteq> [] \<Longrightarrow> before_space (strip_ws ws_seqs s) \<noteq> []"
proof (induction ws_seqs s rule: strip_ws.induct)
  case (1 s)
  show ?case
  proof (cases "s = [] \<or> ws_head ws_seqs s = 0")
    case True
    then have "strip_ws ws_seqs s = s" by (subst strip_ws.simps) simp
    then show ?thesis using True 1(2) by (cases s) auto
  next
    case False
    then have "strip_ws ws_seqs s = strip_ws ws_seqs (drop (ws_head ws_seqs s) s)" by (subst strip_ws.simps) simp
    then show ?thesis using 1 False by simp
  qed
qed

function (sequential) words :: "string \<Rightarrow> string list" where
  "words s =
     (let t = trim_start s; w = before_space t
      in if t = [] then [] else w # words (drop (length w) t))"
  by pat_completeness auto
termination
proof (relation "measure length")
  fix s t w
  assume t: "t = trim_start s" and w: "w = before_space t" and ne: "t \<noteq> []"
  have "length t \<le> length s" using t by (simp add: trim_start_def length_strip_ws)
  moreover have "w \<noteq> []" using before_space_stripped [of s] ne by (simp add: t w trim_start_def)
  moreover have "length w \<le> length t" using w by (simp add: length_before_space)
  ultimately show "(drop (length w) t, s) \<in> measure length" using ne by (cases w) auto
qed simp

declare words.simps [simp del]

text \<open>\<open>str::lines\<close>: the line end is a line feed with the carriage return before it.\<close>

definition chop_cr :: "string \<Rightarrow> string" where
  "chop_cr s = (if s \<noteq> [] \<and> last s = char_of (13 :: nat) then butlast s else s)"

definition str_lines :: "string \<Rightarrow> string list" where
  "str_lines s =
     (let ps = split_char (char_of (10 :: nat)) s
      in map chop_cr (butlast ps) @ (if last ps = [] then [] else [last ps]))"

definition trim_end_char :: "char \<Rightarrow> string \<Rightarrow> string" where
  "trim_end_char c s = rev (dropWhile (\<lambda>x. x = c) (rev s))"

definition trim_start_char :: "char \<Rightarrow> string \<Rightarrow> string" where
  "trim_start_char c s = dropWhile (\<lambda>x. x = c) s"

definition trim_char :: "char \<Rightarrow> string \<Rightarrow> string" where
  "trim_char c s = trim_end_char c (trim_start_char c s)"

text \<open>The number of characters of a text, by its leading bytes.\<close>

definition char_count :: "string \<Rightarrow> nat" where
  "char_count s = length (filter (\<lambda>b. \<not> is_cont b) (bytes_of_text s))"

subsection \<open>Recognising statements\<close>

definition is_anonymous_plsql :: "string \<Rightarrow> bool" where
  "is_anonymous_plsql sql =
     (let upper = ascii_upper_text (trim_start sql) in begins upper ''BEGIN'' \<or> begins upper ''DECLARE'')"

definition create_blocks :: "string list" where
  "create_blocks = [''CREATE OR REPLACE PROCEDURE'', ''CREATE PROCEDURE'', ''CREATE OR REPLACE FUNCTION'',
     ''CREATE FUNCTION'', ''CREATE OR REPLACE PACKAGE'', ''CREATE PACKAGE'', ''CREATE OR REPLACE TRIGGER'',
     ''CREATE TRIGGER'']"

definition starts_plsql_or_create_block :: "string \<Rightarrow> bool" where
  "starts_plsql_or_create_block sql \<longleftrightarrow>
     is_anonymous_plsql sql \<or> list_ex (begins (ascii_upper_text (trim_start sql))) create_blocks"

definition is_query_text :: "string \<Rightarrow> bool" where
  "is_query_text sql =
     (let upper = ascii_upper_text (trim_start sql) in begins upper ''SELECT'' \<or> begins upper ''WITH'')"

definition ends_with_char :: "char \<Rightarrow> string \<Rightarrow> bool" where
  "ends_with_char c s \<longleftrightarrow> s \<noteq> [] \<and> last s = c"

definition ends_sql_statement :: "string \<Rightarrow> bool" where
  "ends_sql_statement line \<longleftrightarrow> ends_with_char (CHR '';'') (trim_end line)"

definition strip_trailing_semicolon :: "string \<Rightarrow> string" where
  "strip_trailing_semicolon sql =
     (let t = trim_end sql in trim_end (if ends_with_char (CHR '';'') t then butlast t else sql))"

definition normalize_var_name :: "string \<Rightarrow> string" where
  "normalize_var_name name = ascii_upper_text (trim_start_char (CHR '':'') (str_trim name))"

subsection \<open>Bind names and calls\<close>

definition is_bind_char :: "char \<Rightarrow> bool" where
  "is_bind_char c \<longleftrightarrow>
     is_digit_char c \<or> (65 \<le> (of_char c :: nat) \<and> (of_char c :: nat) \<le> 90)
     \<or> (97 \<le> (of_char c :: nat) \<and> (of_char c :: nat) \<le> 122) \<or> c = CHR ''_'' \<or> c = CHR ''$'' \<or> c = CHR ''#''"

function (sequential) bind_names_from :: "bool \<Rightarrow> string \<Rightarrow> string list" where
  "bind_names_from in_single_quote [] = []"
| "bind_names_from in_single_quote (c # s) =
     (if c = CHR 0x27 then bind_names_from (\<not> in_single_quote) s
      else if in_single_quote \<or> c \<noteq> CHR '':'' then bind_names_from in_single_quote s
      else let name = takeWhile is_bind_char s; rest = dropWhile is_bind_char s
           in (if name = [] then [] else [normalize_var_name name]) @ bind_names_from in_single_quote rest)"
  by pat_completeness auto
termination
  by (relation "measure (\<lambda>(_, s). length s)") (auto simp: le_imp_less_Suc length_dropWhile_le)

definition bind_names_for_sql :: "string \<Rightarrow> string list" where
  "bind_names_for_sql sql = bind_names_from False sql"

text \<open>\<open>split_top_level\<close>: the piece being read is kept reversed.\<close>

fun split_from :: "char \<Rightarrow> int \<Rightarrow> bool \<Rightarrow> string \<Rightarrow> string \<Rightarrow> string list" where
  "split_from d depth q piece [] = [rev piece]"
| "split_from d depth q piece (c # s) =
     (if c = CHR 0x27 then split_from d depth (\<not> q) (c # piece) s
      else if c = CHR ''('' \<and> \<not> q then split_from d (depth + 1) q (c # piece) s
      else if c = CHR '')'' \<and> \<not> q then split_from d (depth - 1) q (c # piece) s
      else if c = d \<and> \<not> q \<and> depth = 0 then rev piece # split_from d depth q [] s
      else split_from d depth q (c # piece) s)"

definition split_top_level :: "string \<Rightarrow> char \<Rightarrow> string list" where
  "split_top_level text d = split_from d 0 False [] text"

text \<open>The call of an EXEC: a closing bracket before the opening one is a slice out of range.\<close>

definition unsupported_exec :: "string \<Rightarrow> string" where
  "unsupported_exec call = ''SP2-0734: unsupported EXEC form: '' @ call"

definition parse_call :: "string \<Rightarrow> (string, string \<times> string list) outcome" where
  "parse_call call =
     (case (find_char (CHR ''('') call, rfind_char (CHR '')'') call) of
        (Some opening, Some closing) \<Rightarrow>
          res_bind (slice_at call (opening + 1) closing) (\<lambda>inner.
            Inr (str_trim (take opening call),
              filter (\<lambda>arg. arg \<noteq> []) (map str_trim (split_top_level inner (CHR '','')))))
      | _ \<Rightarrow> Inl (Err (unsupported_exec call)))"

end
