(* ===== verification/ShellFormat.thy ===== *)
theory ShellFormat
  imports ShellText Results
begin

section \<open>Literals, displays and messages of the shell\<close>

text \<open>
  The rest of the pure functions of \<open>src/src/bin/sqlrs.rs\<close>: the literals and types of its commands,
  the connect string, how values, errors and the outcome of statements are shown.
\<close>

subsection \<open>Literals and types\<close>

text \<open>\<open>str::replace\<close> of two quotes by one.\<close>

fun undouble_quotes :: "string \<Rightarrow> string" where
  "undouble_quotes (a # b # s) =
     (if a = CHR 0x27 \<and> b = CHR 0x27 then CHR 0x27 # undouble_quotes s else a # undouble_quotes (b # s))"
| "undouble_quotes s = s"

definition parse_literal :: "string \<Rightarrow> value" where
  "parse_literal t =
     (let trimmed = str_trim (strip_trailing_semicolon (str_trim t))
      in if eq_ignore_ascii_case trimmed ''NULL'' then VNull
         else if begins trimmed [CHR 0x27] \<and> ends_with_char (CHR 0x27) trimmed \<and> 2 \<le> length trimmed
         then VString (undouble_quotes (butlast (tl trimmed)))
         else case parse_i64 trimmed of
             Inr i \<Rightarrow> VInteger i
           | Inl _ \<Rightarrow> (case parse_f64 trimmed of Inr f \<Rightarrow> VFloat f | Inl _ \<Rightarrow> VString trimmed))"

definition shell_type_of :: "value \<Rightarrow> oracle_type" where
  "shell_type_of v =
     (case v of VInteger _ \<Rightarrow> OraNumber | VNumber _ \<Rightarrow> OraNumber | VFloat _ \<Rightarrow> OraBinaryDouble | VBytes _ \<Rightarrow> OraRaw
      | _ \<Rightarrow> OraVarchar)"

definition shell_buffer_size :: "value \<Rightarrow> u32" where
  "shell_buffer_size v =
     (case v of VString s \<Rightarrow> of_nat (max (length s) 1) | VBytes b \<Rightarrow> of_nat (max (length b) 1)
      | VInteger _ \<Rightarrow> 22 | VNumber _ \<Rightarrow> 22 | VFloat _ \<Rightarrow> 8 | _ \<Rightarrow> 4000)"

definition parse_sqlplus_type :: "string \<Rightarrow> oracle_type \<times> u32" where
  "parse_sqlplus_type type_spec =
     (let upper = ascii_upper_text type_spec;
          number = Option.bind (split_once_text ''('' upper) (\<lambda>(_, rest).
            Option.bind (split_once_text '')'' rest) (\<lambda>(num, _). ok_option (FloatOps.parse_u32 num)));
          size = (case number of Some n \<Rightarrow> n | None \<Rightarrow> 4000)
      in if begins upper ''NUMBER'' then (OraNumber, 22)
         else if begins upper ''BINARY_DOUBLE'' then (OraBinaryDouble, 8)
         else if begins upper ''BINARY_FLOAT'' then (OraBinaryFloat, 4)
         else if begins upper ''RAW'' then (OraRaw, size)
         else (OraVarchar, size))"

subsection \<open>Connect string\<close>

record parsed_connect =
  pc_user :: string
  pc_password :: string
  pc_host :: string
  pc_port :: u16
  pc_service :: string

definition parse_connect :: "string \<Rightarrow> (string, parsed_connect) outcome" where
  "parse_connect connect =
     (case split_once_text ''@'' connect of
        None \<Rightarrow> Inl (Err ''connect string must be user/password@//host:port/service'')
      | Some (credentials, target0) \<Rightarrow>
     (case split_once_text ''/'' credentials of
        None \<Rightarrow> Inl (Err ''connect string must include user/password'')
      | Some (user, password) \<Rightarrow>
     (let target = or_default target0 (strip_prefix_text ''//'' target0)
      in case split_once_text ''/'' target of
        None \<Rightarrow> Inl (Err ''connect string must include /service'')
      | Some (host_port, service) \<Rightarrow>
          res_bind (case rsplit_once_char (CHR '':'') host_port of
              None \<Rightarrow> Inr (host_port, 1521)
            | Some (host, port) \<Rightarrow>
               (case FloatOps.parse_u16 port of
                  Inl e \<Rightarrow> Inl (Err (''invalid port in connect string: '' @ e))
                | Inr p \<Rightarrow> Inr (host, p)))
            (\<lambda>(host, port). Inr \<lparr>pc_user = user, pc_password = password, pc_host = host, pc_port = port,
               pc_service = service\<rparr>))))"

subsection \<open>Values\<close>

text \<open>Control characters are dropped, those of Latin-1 (\<open>C2 80\<close> to \<open>C2 9F\<close>) included.\<close>

fun sanitize_text :: "string \<Rightarrow> string" where
  "sanitize_text [] = []"
| "sanitize_text (c # s) =
     (if (of_char c :: nat) \<in> {9, 10, 13} then c # sanitize_text s
      else if (of_char c :: nat) < 32 \<or> (of_char c :: nat) = 127 then sanitize_text s
      else case s of
          d # t \<Rightarrow> if (of_char c :: nat) = 0xC2 \<and> 0x80 \<le> (of_char d :: nat) \<and> (of_char d :: nat) < 0xA0
                    then sanitize_text t else c # sanitize_text s
        | [] \<Rightarrow> [c])"

definition upper_hex_digit :: "nat \<Rightarrow> char" where
  "upper_hex_digit d = char_of (if d < 10 then 48 + d else 55 + d)"

definition bytes_to_hex :: "u8 list \<Rightarrow> string" where
  "bytes_to_hex bs = concat (map (\<lambda>b. [upper_hex_digit (unat b div 16), upper_hex_digit (unat b mod 16)]) bs)"

text \<open>\<open>i32::abs\<close> of the least integer overflows.\<close>

definition display_year :: "int \<Rightarrow> ('e, int) outcome" where
  "display_year year = (if year < 0 then if year = - (2 ^ 31) then Inl Panic else Inr (- year) else Inr year)"

definition format_sqlplus_date :: "int \<Rightarrow> u8 \<Rightarrow> u8 \<Rightarrow> u8 \<Rightarrow> u8 \<Rightarrow> u8 \<Rightarrow> ('e, string) outcome" where
  "format_sqlplus_date year month day hour minute second =
     res_bind (display_year year) (\<lambda>y. Inr (ymd_text y month day hour minute second))"

definition format_sqlplus_timestamp :: "oracle_timestamp \<Rightarrow> ('e, string) outcome" where
  "format_sqlplus_timestamp t =
     res_bind (format_sqlplus_date (ts_year t) (ts_month t) (ts_day t) (ts_hour t) (ts_minute t) (ts_second t))
       (\<lambda>s. Inr (s @ ''.'' @ padded 6 (unat (ts_microsecond t))))"

text \<open>
  \<open>shift\<close> stands for the calendar of \<open>chrono\<close>: the timestamp so many minutes later, \<open>None\<close> where the
  date or the time does not exist, and a panic where the sum is out of its range.
\<close>

type_synonym calendar = "oracle_timestamp \<Rightarrow> int \<Rightarrow> (string, oracle_timestamp option) outcome"

definition format_timestamp_with_offset :: "calendar \<Rightarrow> oracle_timestamp \<Rightarrow> int \<Rightarrow> (string, string) outcome" where
  "format_timestamp_with_offset shift t offset_minutes =
     res_bind (shift t offset_minutes) (\<lambda>r.
       case r of
         None \<Rightarrow> format_sqlplus_timestamp t
       | Some a \<Rightarrow> Inr (ymd_text (ts_year a) (ts_month a) (ts_day a) (ts_hour a) (ts_minute a) (ts_second a)
           @ ''.'' @ padded 6 (unat (ts_microsecond a))))"

definition lob_cell :: "lob_value \<Rightarrow> string" where
  "lob_cell lob =
     (case lob of
        LobLoc l \<Rightarrow> ''<LOB '' @ oracle_type_name (loc_type l) @ '' size='' @ show_nat (unat (loc_size l)) @ ''>''
      | _ \<Rightarrow> ''<LOB size='' @ (case lob_size lob of None \<Rightarrow> ''None'' | Some n \<Rightarrow> ''Some('' @ show_nat (unat n) @ '')'') @ ''>'')"

text \<open>A conversion that the driver's \<open>Display\<close> can fail in panics.\<close>

definition shown :: "'a result \<Rightarrow> (string, 'a) outcome" where
  "shown r = (case r of Inl _ \<Rightarrow> Inl Panic | Inr a \<Rightarrow> Inr a)"

definition format_cell ::
  "calendar \<Rightarrow> (json \<Rightarrow> string) \<Rightarrow> value \<Rightarrow> oracle_type option \<Rightarrow> int option \<Rightarrow> (string, string) outcome" where
  "format_cell shift json_text v column_type offset =
     (case v of
        VNull \<Rightarrow> Inr []
      | VTypedNull _ \<Rightarrow> Inr []
      | VString s \<Rightarrow> Inr (sanitize_text s)
      | VBytes bytes \<Rightarrow> Inr (bytes_to_hex bytes)
      | VDate d \<Rightarrow> format_sqlplus_date (od_year d) (od_month d) (od_day d) (od_hour d) (od_minute d) (od_second d)
      | VTimestamp t \<Rightarrow>
          (case (if column_type = Some OraTimestampLtz then offset else None) of
             Some m \<Rightarrow> format_timestamp_with_offset shift t m
           | None \<Rightarrow> format_sqlplus_timestamp t)
      | VLob lob \<Rightarrow> Inr (lob_cell lob)
      | _ \<Rightarrow> res_bind (shown (value_text json_text v)) (\<lambda>t. Inr (sanitize_text t)))"

definition format_value :: "calendar \<Rightarrow> (json \<Rightarrow> string) \<Rightarrow> value \<Rightarrow> (string, string) outcome" where
  "format_value shift json_text v = format_cell shift json_text v None None"

subsection \<open>The outcome of a statement\<close>

definition rows_text :: "u64 \<Rightarrow> string \<Rightarrow> string" where
  "rows_text n what = (if n = 1 then ''1 row '' else show_nat (unat n) @ '' rows '') @ what"

fun first_match :: "string \<Rightarrow> (string \<times> 'a) list \<Rightarrow> 'a \<Rightarrow> 'a" where
  "first_match s [] d = d"
| "first_match s ((p, a) # ps) d = (if begins s p then a else first_match s ps d)"

definition feedback_for_statement :: "string \<Rightarrow> u64 \<Rightarrow> string" where
  "feedback_for_statement sql n = first_match (ascii_upper_text (trim_start sql))
     [(''CREATE MATERIALIZED VIEW'', ''Materialized view created.''),
      (''CREATE GLOBAL TEMPORARY TABLE'', ''Table created.''), (''CREATE TABLE'', ''Table created.''),
      (''CREATE VIEW'', ''View created.''),
      (''CREATE OR REPLACE PROCEDURE'', ''Procedure created.''), (''CREATE PROCEDURE'', ''Procedure created.''),
      (''CREATE OR REPLACE FUNCTION'', ''Function created.''), (''CREATE FUNCTION'', ''Function created.''),
      (''CREATE OR REPLACE PACKAGE'', ''Package created.''), (''CREATE PACKAGE'', ''Package created.''),
      (''CREATE OR REPLACE TRIGGER'', ''Trigger created.''), (''CREATE TRIGGER'', ''Trigger created.''),
      (''CREATE '', ''Created.''), (''ALTER '', ''Session altered.''), (''DROP TABLE'', ''Table dropped.''),
      (''DROP VIEW'', ''View dropped.''), (''DROP MATERIALIZED VIEW'', ''Materialized view dropped.''),
      (''DROP PROCEDURE'', ''Procedure dropped.''), (''DROP '', ''Dropped.''),
      (''COMMIT'', ''Commit complete.''), (''ROLLBACK'', ''Rollback complete.''),
      (''INSERT '', rows_text n ''created.''), (''UPDATE '', rows_text n ''updated.''),
      (''DELETE '', rows_text n ''deleted.'')] (rows_text n ''affected.'')"

definition quoted_oracle_identifier :: "string \<Rightarrow> string option" where
  "quoted_oracle_identifier message =
     Option.bind (find_char (CHR 0x22) message) (\<lambda>start.
       let rest = drop (start + 1) message
       in map_option (\<lambda>n. take n rest) (find_char (CHR 0x22) rest))"

definition find_case_insensitive :: "string \<Rightarrow> string \<Rightarrow> nat option" where
  "find_case_insensitive haystack needle = find_text (ascii_upper_text needle) (ascii_upper_text haystack)"

text \<open>The number of white space characters at the start.\<close>

definition leading_spaces :: "string \<Rightarrow> nat" where
  "leading_spaces s = char_count (take (length s - length (trim_start s)) s)"

definition error_pointer_column :: "string \<Rightarrow> string \<Rightarrow> nat" where
  "error_pointer_column sql_line message =
     (case Option.bind (quoted_oracle_identifier message) (find_case_insensitive sql_line) of
        Some pos \<Rightarrow> pos
      | None \<Rightarrow>
     (case (if contains_text message ''ORA-01476'' then find_char (CHR ''/'') sql_line else None) of
        Some pos \<Rightarrow> pos
      | None \<Rightarrow> if begins (ascii_upper_text sql_line) ''SELECT '' then 7 else leading_spaces sql_line))"

definition format_oracle_error :: "error \<Rightarrow> string" where
  "format_oracle_error e =
     (case e of
        OracleError code message \<Rightarrow>
          (let m = str_trim (sanitize_text message) in if m = [] then ''ORA-'' @ padded 5 (unat code) else m)
      | _ \<Rightarrow> sanitize_text (display_error e))"

definition sqlplus_error_lines :: "string \<Rightarrow> error \<Rightarrow> string list" where
  "sqlplus_error_lines sql e =
     (let message = format_oracle_error e;
          first_line = trim_end (case str_lines sql of [] \<Rightarrow> sql | l # _ \<Rightarrow> l)
      in [first_line, replicate (error_pointer_column first_line message) CHR '' '' @ ''*'', ''ERROR at line 1:'', message])"

subsection \<open>Time zones\<close>

text \<open>The arithmetic is that of \<open>i32\<close>.\<close>

definition i32_checked :: "int \<Rightarrow> ('e, int) outcome" where
  "i32_checked n = (if - (2 ^ 31) \<le> n \<and> n < 2 ^ 31 then Inr n else Inl Panic)"

definition parse_i32 :: "string \<Rightarrow> int option" where
  "parse_i32 s = ok_option (parse_int True (- (2 ^ 31)) (2 ^ 31 - 1) s)"

definition parse_numeric_time_zone_offset :: "string \<Rightarrow> ('e, int option) outcome" where
  "parse_numeric_time_zone_offset v =
     (if v = [] \<or> hd v \<notin> {CHR ''+'', CHR ''-''} then Inr None
      else case split_once_text '':'' (tl v) of
        None \<Rightarrow> Inr None
      | Some (h, m) \<Rightarrow>
         (case (parse_i32 h, parse_i32 m) of
            (Some hours, Some minutes) \<Rightarrow>
              res_bind (i32_checked (hours * 60)) (\<lambda>a. res_bind (i32_checked (a + minutes)) (\<lambda>b.
              res_bind (i32_checked ((if hd v = CHR ''+'' then 1 else - 1) * b)) (\<lambda>c. Inr (Some c))))
          | _ \<Rightarrow> Inr None))"

definition parse_time_zone_offset :: "string \<Rightarrow> ('e, int option) outcome" where
  "parse_time_zone_offset v =
     (if eq_ignore_ascii_case v ''UTC'' \<or> v = ''+00:00'' \<or> v = ''-00:00'' then Inr (Some 0)
      else if eq_ignore_ascii_case v ''Asia/Kolkata'' then Inr (Some 330)
      else parse_numeric_time_zone_offset v)"

definition parse_alter_session_time_zone :: "string \<Rightarrow> ('e, int option) outcome" where
  "parse_alter_session_time_zone sql =
     (if \<not> begins (ascii_upper_text sql) ''ALTER SESSION SET TIME_ZONE'' then Inr None
      else case split_once_text ''='' sql of
        None \<Rightarrow> Inr None
      | Some (_, v) \<Rightarrow>
          parse_time_zone_offset (trim_char (CHR 0x27) (str_trim (strip_trailing_semicolon (str_trim v)))))"

subsection \<open>The table of a query\<close>

text \<open>\<open>{:width$}\<close> pads by characters.\<close>

definition pad_right :: "nat \<Rightarrow> string \<Rightarrow> string" where
  "pad_right width s = s @ replicate (width - char_count s) CHR '' ''"

fun spaced :: "string list \<Rightarrow> string" where
  "spaced [] = []"
| "spaced [s] = s"
| "spaced (s # ss) = s @ '' '' @ spaced ss"

fun format_all :: "('a \<Rightarrow> ('e, 'b) outcome) \<Rightarrow> 'a list \<Rightarrow> ('e, 'b list) outcome" where
  "format_all f [] = Inr []"
| "format_all f (a # xs) = res_bind (f a) (\<lambda>b. res_bind (format_all f xs) (\<lambda>bs. Inr (b # bs)))"

definition format_row ::
  "calendar \<Rightarrow> (json \<Rightarrow> string) \<Rightarrow> column_info list \<Rightarrow> int option \<Rightarrow> row \<Rightarrow> (string, string list) outcome" where
  "format_row shift json_text columns offset r =
     format_all (\<lambda>(i, v). format_cell shift json_text v
         (if i < length columns then Some (ci_oracle_type (columns ! i)) else None) offset)
       (enumerate 0 (row_values r))"

definition column_widths :: "column_info list \<Rightarrow> string list list \<Rightarrow> nat list" where
  "column_widths columns rows =
     fold (\<lambda>texts ws. map (\<lambda>(i, w). if i < length texts then max w (length (texts ! i)) else w) (enumerate 0 ws))
       rows (map (\<lambda>c. max (length (ci_name c)) 1) columns)"

text \<open>A row with more cells than there are columns is indexed beyond the widths.\<close>

definition row_line :: "nat list \<Rightarrow> string list \<Rightarrow> (string, string) outcome" where
  "row_line widths texts =
     (if length widths < length texts then Inl Panic else Inr (spaced (map2 pad_right widths texts)))"

fun tabbed :: "string list \<Rightarrow> string" where
  "tabbed [] = []"
| "tabbed [s] = s"
| "tabbed (s # ss) = s @ char_of (9 :: nat) # tabbed ss"

definition query_result_lines ::
  "calendar \<Rightarrow> (json \<Rightarrow> string) \<Rightarrow> query_result \<Rightarrow> int option \<Rightarrow> (string, string list) outcome" where
  "query_result_lines shift json_text r offset =
     (if qr_columns r = []
      then format_all (\<lambda>x. res_bind (format_all (format_value shift json_text) (row_values x)) (\<lambda>ts. Inr (tabbed ts))) (qr_rows r)
      else res_bind (format_all (format_row shift json_text (qr_columns r) offset) (qr_rows r)) (\<lambda>rows.
        let widths = column_widths (qr_columns r) rows
        in res_bind (format_all (row_line widths) rows) (\<lambda>body.
          Inr ([] # spaced (map2 pad_right widths (map ci_name (qr_columns r)))
            # spaced (map (\<lambda>w. replicate w CHR ''-'') widths) # body))))"

end
