(* ===== verification/Shell.thy ===== *)
theory Shell
  imports ShellFormat Calls
begin

section \<open>The command line shell\<close>

text \<open>
  \<open>SqlRs\<close> of \<open>src/src/bin/sqlrs.rs\<close>: a script is run line by line over a connection.  The state is the
  session, the bind variables, the switches, and what was printed.  An operation returns \<open>None\<close> when
  it does not return, else its result, an error being the text to print at the end, and the new
  state.  The functions of the driver are those of Client and Calls.
\<close>

subsection \<open>State\<close>

record bind_variable =
  bv_oracle_type :: oracle_type
  bv_buffer_size :: u32
  bv_value :: "value option"

record 'm shell =
  sh_conn :: "'m session"
  sh_vars :: "string \<Rightarrow> bind_variable option"
  sh_echo :: bool
  sh_feedback :: bool
  sh_serveroutput :: bool
  sh_continue_on_error :: bool
  sh_time_zone :: "int option"
  sh_out :: "string list"

record 'm shell_env =
  sv_client :: "'m client_env"
  sv_calendar :: calendar

type_synonym ('m, 'a) shell_op = "'m shell \<Rightarrow> ((string, 'a) outcome \<times> 'm shell) option"

definition shell_new :: "'m session \<Rightarrow> 'm shell" where
  "shell_new conn = \<lparr>sh_conn = conn, sh_vars = Map.empty, sh_echo = False, sh_feedback = True, sh_serveroutput = False,
     sh_continue_on_error = False, sh_time_zone = None, sh_out = []\<rparr>"

definition json_shown :: "'m shell_env \<Rightarrow> json \<Rightarrow> string" where
  "json_shown env = tx_json (ce_texts (sv_client env))"

subsection \<open>Sequencing\<close>

definition sdo :: "('m shell \<Rightarrow> 'm shell) \<Rightarrow> ('m, unit) shell_op" where
  "sdo f = (\<lambda>s. Some (Inr (), f s))"

definition sret :: "(string, 'a) outcome \<Rightarrow> ('m, 'a) shell_op" where
  "sret r = (\<lambda>s. Some (r, s))"

definition sthen :: "('m, 'a) shell_op \<Rightarrow> ('a \<Rightarrow> ('m, 'b) shell_op) \<Rightarrow> ('m, 'b) shell_op" where
  "sthen m f = (\<lambda>s. case m s of None \<Rightarrow> None | Some (Inl e, s') \<Rightarrow> Some (Inl e, s') | Some (Inr a, s') \<Rightarrow> f a s')"

definition sseq :: "('m, 'a) shell_op \<Rightarrow> ('m, 'b) shell_op \<Rightarrow> ('m, 'b) shell_op" where
  "sseq m k = sthen m (\<lambda>_. k)"

definition sask :: "('m shell \<Rightarrow> ('m, 'a) shell_op) \<Rightarrow> ('m, 'a) shell_op" where
  "sask f = (\<lambda>s. f s s)"

definition println :: "string \<Rightarrow> ('m, unit) shell_op" where
  "println line = sdo (\<lambda>s. s\<lparr>sh_out := sh_out s @ [line]\<rparr>)"

definition printlns :: "string list \<Rightarrow> ('m, unit) shell_op" where
  "printlns ls = sdo (\<lambda>s. s\<lparr>sh_out := sh_out s @ ls\<rparr>)"

text \<open>A call of the driver: its error is a value here, a panic is not.\<close>

definition on_driver :: "('m, 'a) client \<Rightarrow> ('m, error + 'a) shell_op" where
  "on_driver m = (\<lambda>s. map_option (\<lambda>(r, c).
     (case r of Inr a \<Rightarrow> Inr (Inr a) | Inl (Err e) \<Rightarrow> Inr (Inl e) | Inl Panic \<Rightarrow> Inl Panic, s\<lparr>sh_conn := c\<rparr>)) (m (sh_conn s)))"

definition when_feedback :: "string list \<Rightarrow> ('m, unit) shell_op" where
  "when_feedback ls = sask (\<lambda>s. if sh_feedback s then printlns ([] # ls @ [[]]) else sret (Inr ()))"

definition plsql_done :: "('m, unit) shell_op" where
  "plsql_done = when_feedback [''PL/SQL procedure successfully completed.'']"

subsection \<open>Variables\<close>

definition set_var :: "string \<Rightarrow> bind_variable \<Rightarrow> 'm shell \<Rightarrow> 'm shell" where
  "set_var name v s = s\<lparr>sh_vars := (sh_vars s)(name \<mapsto> v)\<rparr>"

definition undeclared :: bind_variable where
  "undeclared = \<lparr>bv_oracle_type = OraVarchar, bv_buffer_size = 4000, bv_value = None\<rparr>"

text \<open>\<open>entry(name).and_modify(..).or_insert_with(..)\<close>: the declared type is kept.\<close>

definition assign_var :: "string \<Rightarrow> value \<Rightarrow> 'm shell \<Rightarrow> 'm shell" where
  "assign_var name v s =
     set_var name
       (case sh_vars s name of
          Some var \<Rightarrow> var\<lparr>bv_value := Some v\<rparr>
        | None \<Rightarrow> \<lparr>bv_oracle_type = shell_type_of v, bv_buffer_size = shell_buffer_size v, bv_value = Some v\<rparr>) s"

definition var_or_default :: "'m shell \<Rightarrow> string \<Rightarrow> bind_variable" where
  "var_or_default s name = (case sh_vars s name of None \<Rightarrow> undeclared | Some v \<Rightarrow> v)"

definition param_of :: "bind_variable \<Rightarrow> bind_param" where
  "param_of var =
     (case bv_value var of
        Some v \<Rightarrow> bind_input_output v (max (bv_buffer_size var) 1)
      | None \<Rightarrow> bind_output (bv_oracle_type var) (max (bv_buffer_size var) 1))"

fun join_words :: "string list \<Rightarrow> string" where
  "join_words [] = []"
| "join_words [w] = w"
| "join_words (w # ws) = w @ '' '' @ join_words ws"

definition define_variable :: "string \<Rightarrow> ('m, unit) shell_op" where
  "define_variable rest =
     (case words rest of
        [] \<Rightarrow> sret (Inl (Err ''SP2-0552: bind variable name expected''))
      | name # spec \<Rightarrow>
          (case parse_sqlplus_type (join_words spec) of (t, n) \<Rightarrow>
            sdo (set_var (normalize_var_name name) \<lparr>bv_oracle_type = t, bv_buffer_size = n, bv_value = None\<rparr>)))"

definition print_variable :: "'m shell_env \<Rightarrow> string \<Rightarrow> ('m, unit) shell_op" where
  "print_variable env name = sask (\<lambda>s.
     let key = normalize_var_name name
     in case sh_vars s key of
        None \<Rightarrow> sret (Inl (Err (''SP2-0552: Bind variable \"'' @ key @ ''\" not declared.'')))
      | Some var \<Rightarrow>
          sthen (sret (case bv_value var of None \<Rightarrow> Inr [] | Some v \<Rightarrow> format_value (sv_calendar env) (json_shown env) v))
            (\<lambda>t. printlns [[], key, replicate (max (length key) 1) CHR ''-'', t, []]))"

definition apply_assignment :: "string \<Rightarrow> ('m, unit) shell_op" where
  "apply_assignment assignment =
     (case split_once_text '':='' assignment of
        None \<Rightarrow> sret (Inl (Err (''SP2-0734: unknown EXEC assignment: '' @ assignment)))
      | Some (left, right) \<Rightarrow>
          sdo (assign_var (normalize_var_name (trim_start_char (CHR '':'') (str_trim left))) (parse_literal (str_trim right))))"

fun apply_assignments :: "string list \<Rightarrow> ('m, unit) shell_op" where
  "apply_assignments [] = sret (Inr ())"
| "apply_assignments (a # as) = sseq (apply_assignment (str_trim a)) (apply_assignments as)"

subsection \<open>Statements\<close>

definition handle_statement_error :: "string \<Rightarrow> error \<Rightarrow> ('m, unit) shell_op" where
  "handle_statement_error sql e =
     sseq (printlns ([] # (case e of OracleError _ _ \<Rightarrow> sqlplus_error_lines sql e | _ \<Rightarrow> [sanitize_text (display_error e)]) @ [[]]))
       (sask (\<lambda>s. sret (if sh_continue_on_error s then Inr () else Inl (Err []))))"

text \<open>\<open>drain_dbms_output\<close>: one line of the server's output buffer at a time, until it has no more.\<close>

definition GET_LINE :: string where
  "GET_LINE = ''BEGIN DBMS_OUTPUT.GET_LINE(:line, :status); END;''"

definition get_line_status :: "plsql_result \<Rightarrow> int" where
  "get_line_status r =
     (if 1 < length (pr_out_values r)
      then case as_i64 (pr_out_values r ! 1) of None \<Rightarrow> 1 | Some i \<Rightarrow> i else 1)"

definition get_line_text :: "plsql_result \<Rightarrow> string" where
  "get_line_text r =
     (case pr_out_values r of [] \<Rightarrow> [] | v # _ \<Rightarrow> (case as_str v of None \<Rightarrow> [] | Some t \<Rightarrow> t))"

partial_function (option) drain_loop :: "'m shell_env \<Rightarrow> 'm shell \<Rightarrow> ((string, unit) outcome \<times> 'm shell) option" where
  "drain_loop env s =
     (case on_driver (execute_plsql (sv_client env) GET_LINE [bind_output OraVarchar 32767, bind_output OraNumber 22]) s of
        None \<Rightarrow> None
      | Some (Inl e, s') \<Rightarrow> Some (Inl e, s')
      | Some (Inr (Inl e), s') \<Rightarrow> Some (Inl (Err (display_error e)), s')
      | Some (Inr (Inr r), s') \<Rightarrow>
          if get_line_status r \<noteq> 0 then Some (Inr (), s')
          else drain_loop env (s'\<lparr>sh_out := sh_out s' @ [get_line_text r]\<rparr>))"

definition drain_dbms_output :: "'m shell_env \<Rightarrow> ('m, unit) shell_op" where
  "drain_dbms_output env = (\<lambda>s. if sh_serveroutput s then drain_loop env s else Some (Inr (), s))"

definition bind_values_for_sql :: "string \<Rightarrow> 'm shell \<Rightarrow> value list" where
  "bind_values_for_sql sql s =
     map (\<lambda>name. case Option.bind (sh_vars s name) bv_value of None \<Rightarrow> VNull | Some v \<Rightarrow> v) (bind_names_for_sql sql)"

definition assign_outputs :: "string list \<Rightarrow> value list \<Rightarrow> 'm shell \<Rightarrow> 'm shell" where
  "assign_outputs names values s = fold (\<lambda>(name, v). assign_var name v) (zip names values) s"

definition execute_plsql_text :: "'m shell_env \<Rightarrow> string \<Rightarrow> ('m, error + unit) shell_op" where
  "execute_plsql_text env sql = sask (\<lambda>s.
     let names = bind_names_for_sql sql
     in sthen (on_driver (execute_plsql (sv_client env) sql (map (\<lambda>n. param_of (var_or_default s n)) names))) (\<lambda>r.
        case r of
          Inl e \<Rightarrow> sret (Inr (Inl e))
        | Inr result \<Rightarrow> sseq (sdo (assign_outputs names (pr_out_values result))) (sret (Inr (Inr ())))))"

datatype execution = ExQuery query_result | ExDml query_result | ExPlsql

definition run_statement :: "'m shell_env \<Rightarrow> string \<Rightarrow> ('m, error + execution) shell_op" where
  "run_statement env sql = sask (\<lambda>s.
     let binds = bind_values_for_sql sql s;
         ask = (\<lambda>m c. sthen (on_driver m) (\<lambda>r. sret (Inr (map_sum id c r))))
     in if is_query_text sql then ask (query (sv_client env) sql binds) ExQuery
        else if is_anonymous_plsql sql \<and> binds = [] then ask (execute_sql_statement (sv_client env) sql []) (\<lambda>_. ExPlsql)
        else if starts_plsql_or_create_block sql then
          (if binds = [] then ask (execute_sql_statement (sv_client env) sql []) ExDml
           else sthen (execute_plsql_text env sql) (\<lambda>r. sret (Inr (map_sum id (\<lambda>_. ExPlsql) r))))
        else ask (execute_sql_statement (sv_client env) sql binds) ExDml)"

definition update_session_display_state :: "string \<Rightarrow> ('m, unit) shell_op" where
  "update_session_display_state sql = sthen (sret (parse_alter_session_time_zone sql)) (\<lambda>offset.
     case offset of None \<Rightarrow> sret (Inr ()) | Some m \<Rightarrow> sdo (\<lambda>s. s\<lparr>sh_time_zone := Some m\<rparr>))"

definition show_execution :: "'m shell_env \<Rightarrow> string \<Rightarrow> execution \<Rightarrow> ('m, unit) shell_op" where
  "show_execution env sql x =
     (case x of
        ExQuery r \<Rightarrow>
          sseq (sask (\<lambda>s. sthen (sret (query_result_lines (sv_calendar env) (json_shown env) r (sh_time_zone s))) printlns))
            (when_feedback [show_nat (length (qr_rows r)) @ '' row'' @ (if length (qr_rows r) = 1 then [] else ''s'') @ '' selected.''])
      | ExDml r \<Rightarrow>
          sseq (update_session_display_state sql) (when_feedback [feedback_for_statement sql (qr_rows_affected r)])
      | ExPlsql \<Rightarrow>
          sseq (update_session_display_state sql) (sseq (drain_dbms_output env) plsql_done))"

definition execute_statement :: "'m shell_env \<Rightarrow> string \<Rightarrow> ('m, unit) shell_op" where
  "execute_statement env sql0 =
     (let sql = str_trim sql0
      in if sql = [] then sret (Inr ())
         else sthen (run_statement env sql) (\<lambda>r.
           case r of Inl e \<Rightarrow> handle_statement_error sql e | Inr x \<Rightarrow> show_execution env sql x))"

subsection \<open>EXEC\<close>

text \<open>
  The arguments of a call: a variable becomes a numbered bind, anything else is left in the text.
  The result is the binds with the variables they stand for, and the arguments of the new text.
\<close>

fun call_binds :: "'m shell \<Rightarrow> nat \<Rightarrow> string list \<Rightarrow> (bind_param \<times> string) list \<times> string list" where
  "call_binds s n [] = ([], [])"
| "call_binds s n (arg # args) =
     (case strip_prefix_text '':'' (str_trim arg) of
        Some var_name \<Rightarrow>
          (let key = normalize_var_name var_name
           in case call_binds s (n + 1) args of
                (binds, texts) \<Rightarrow> ((param_of (var_or_default s key), key) # binds, ('':'' @ show_nat (n + 1)) # texts))
      | None \<Rightarrow> (case call_binds s n args of (binds, texts) \<Rightarrow> (binds, str_trim arg # texts)))"

fun comma_list :: "string list \<Rightarrow> string" where
  "comma_list [] = []"
| "comma_list [t] = t"
| "comma_list (t # ts) = t @ '', '' @ comma_list ts"

definition call_text :: "string \<Rightarrow> string list \<Rightarrow> string" where
  "call_text name args = ''BEGIN '' @ name @ ''('' @ comma_list args @ ''); END;''"

text \<open>Each bind is an output too, so the values that come back are those of the binds, in order.\<close>

definition execute_plsql_call :: "'m shell_env \<Rightarrow> string \<Rightarrow> ('m, unit) shell_op" where
  "execute_plsql_call env call = sthen (sret (parse_call call)) (\<lambda>(name, args). sask (\<lambda>s.
     case call_binds s 0 args of
       (binds, texts) \<Rightarrow>
         (let sql = call_text name texts
          in sthen (on_driver (execute_plsql (sv_client env) sql (map fst binds))) (\<lambda>r.
               case r of
                 Inl e \<Rightarrow> handle_statement_error sql e
               | Inr result \<Rightarrow>
                   sseq (sdo (assign_outputs (map snd binds) (pr_out_values result)))
                     (sseq (drain_dbms_output env) plsql_done)))))"

definition execute_exec :: "'m shell_env \<Rightarrow> string \<Rightarrow> ('m, unit) shell_op" where
  "execute_exec env rest =
     (let trimmed = str_trim (strip_trailing_semicolon (str_trim rest))
      in if begins trimmed '':'' \<and> contains_text trimmed '':=''
         then sseq (apply_assignments (split_top_level trimmed (CHR '';''))) plsql_done
         else execute_plsql_call env trimmed)"

subsection \<open>Commands\<close>

definition handle_set :: "'m shell_env \<Rightarrow> string \<Rightarrow> ('m, unit) shell_op" where
  "handle_set env rest =
     (let ws = map ascii_upper_text (words rest);
          name = (case ws of [] \<Rightarrow> [] | w # _ \<Rightarrow> w);
          v = (case ws of _ # w # _ \<Rightarrow> w | _ \<Rightarrow> [])
      in if name = ''ECHO'' then sdo (\<lambda>s. s\<lparr>sh_echo := (v = ''ON'')\<rparr>)
         else if name = ''FEEDBACK'' then sdo (\<lambda>s. s\<lparr>sh_feedback := (v \<noteq> ''OFF'')\<rparr>)
         else if name = ''SERVEROUTPUT'' then
           sseq (sdo (\<lambda>s. s\<lparr>sh_serveroutput := (v = ''ON'')\<rparr>))
             (if v = ''ON''
              then sthen (on_driver (execute_sql_statement (sv_client env) ''BEGIN DBMS_OUTPUT.ENABLE(NULL); END;'' []))
                     (\<lambda>_. sret (Inr ()))
              else sret (Inr ()))
         else sret (Inr ()))"

definition after_space :: "string \<Rightarrow> string" where
  "after_space t = (case split_once_space t of None \<Rightarrow> [] | Some (_, rest) \<Rightarrow> rest)"

definition handled :: "('m, unit) shell_op \<Rightarrow> ('m, bool) shell_op" where
  "handled m = sseq m (sret (Inr True))"

definition handle_command :: "'m shell_env \<Rightarrow> string \<Rightarrow> ('m, bool) shell_op" where
  "handle_command env trimmed =
     (let upper = ascii_upper_text trimmed
      in if begins upper ''SET '' then handled (handle_set env (drop 4 trimmed))
         else if begins upper ''PROMPT'' then handled (println (trim_start (drop 6 trimmed)))
         else if begins upper ''WHENEVER SQLERROR''
           then handled (sdo (\<lambda>s. s\<lparr>sh_continue_on_error := contains_text upper ''CONTINUE''\<rparr>))
         else if begins upper ''VAR '' \<or> begins upper ''VARIABLE '' then handled (define_variable (after_space trimmed))
         else if begins upper ''PRINT '' then handled (print_variable env (str_trim (drop 6 trimmed)))
         else if upper = ''COMMIT'' \<or> upper = ''ROLLBACK'' then handled (execute_statement env upper)
         else if begins upper ''EXEC '' \<or> begins upper ''EXECUTE '' then handled (execute_exec env (after_space trimmed))
         else sret (Inr False))"

subsection \<open>Scripts\<close>

text \<open>The reader's state: the text collected, whether it is a block, the number of the next line echoed.\<close>

type_synonym script_state = "string \<times> bool \<times> nat"

definition echo_line :: "string \<Rightarrow> script_state \<Rightarrow> ('m, nat) shell_op" where
  "echo_line line = (\<lambda>(buffer, block_mode, n). sask (\<lambda>s.
     if \<not> sh_echo s then sret (Inr n)
     else if buffer = [] then sseq (println (''SQL> '' @ line)) (sret (Inr 2))
     else sseq (println (replicate (3 - length (show_nat n)) CHR '' '' @ show_nat n @ ''  '' @ line)) (sret (Inr (n + 1)))))"

definition LF :: string where
  "LF = [char_of (10 :: nat)]"

definition collect_line :: "string \<Rightarrow> string \<Rightarrow> string" where
  "collect_line buffer line = (if buffer = [] then line else buffer @ LF @ line)"

definition run_line :: "'m shell_env \<Rightarrow> script_state \<Rightarrow> string \<Rightarrow> ('m, script_state) shell_op" where
  "run_line env st raw_line =
     (case st of (buffer, block_mode, n) \<Rightarrow>
      let line = trim_end_char (char_of (13 :: nat)) raw_line; trimmed = str_trim line
      in if buffer = [] \<and> trimmed = [] then
           sseq (sask (\<lambda>s. if sh_echo s then println ''SQL> '' else sret (Inr ()))) (sret (Inr (buffer, block_mode, 1)))
         else sthen (echo_line line st) (\<lambda>n'.
              sthen (if buffer = [] then handle_command env trimmed else sret (Inr False)) (\<lambda>was_command.
              if was_command then sret (Inr (buffer, block_mode, 1))
              else if trimmed = ''/'' \<and> block_mode then
                sseq (execute_statement env (str_trim buffer)) (sret (Inr ([], False, 1)))
              else
                let block_mode' = (block_mode \<or> buffer = [] \<and> starts_plsql_or_create_block trimmed);
                    buffer' = collect_line buffer line
                in if \<not> block_mode' \<and> ends_sql_statement trimmed
                   then sseq (execute_statement env (strip_trailing_semicolon (str_trim buffer'))) (sret (Inr ([], block_mode', 1)))
                   else sret (Inr (buffer', block_mode', n')))))"

fun run_lines :: "'m shell_env \<Rightarrow> script_state \<Rightarrow> string list \<Rightarrow> ('m, unit) shell_op" where
  "run_lines env st [] =
     (case st of (buffer, _, _) \<Rightarrow>
       if str_trim buffer \<noteq> [] then execute_statement env (strip_trailing_semicolon (str_trim buffer)) else sret (Inr ()))"
| "run_lines env st (l # ls) = sthen (run_line env st l) (\<lambda>st'. run_lines env st' ls)"

definition run_script :: "'m shell_env \<Rightarrow> string \<Rightarrow> ('m, unit) shell_op" where
  "run_script env content = run_lines env ([], False, 1) (str_lines content)"

text \<open>The file system gives the content of the script, or the text of its error.\<close>

definition run_file :: "'m shell_env \<Rightarrow> (string \<Rightarrow> string + string) \<Rightarrow> string \<Rightarrow> ('m, unit) shell_op" where
  "run_file env read_file path =
     (case read_file path of
        Inl e \<Rightarrow> sret (Inl (Err (''SP2-0310: unable to open file '' @ [CHR 0x27] @ path @ [CHR 0x27] @ '': '' @ e)))
      | Inr content \<Rightarrow> run_script env content)"

subsection \<open>Arguments\<close>

record shell_options =
  so_connect :: "string option"
  so_script :: "string option"

text \<open>\<open>Inr None\<close>: the usage was asked for, and the process ends.\<close>

fun parse_args_from :: "shell_options \<Rightarrow> string list \<Rightarrow> string + shell_options option" where
  "parse_args_from opts [] = Inr (Some opts)"
| "parse_args_from opts (arg # args) =
     (case strip_prefix_text ''@'' arg of
        Some path \<Rightarrow> parse_args_from (opts\<lparr>so_script := Some path\<rparr>) args
      | None \<Rightarrow>
          if arg = ''-h'' \<or> arg = ''--help'' then Inr None
          else if so_connect opts = None then parse_args_from (opts\<lparr>so_connect := Some arg\<rparr>) args
          else if so_script opts = None then parse_args_from (opts\<lparr>so_script := Some arg\<rparr>) args
          else Inl (''unexpected argument: '' @ arg))"

definition parse_args :: "string list \<Rightarrow> string + shell_options option" where
  "parse_args args = parse_args_from \<lparr>so_connect = None, so_script = None\<rparr> args"

definition env_or_default :: "(string \<Rightarrow> string option) \<Rightarrow> string \<Rightarrow> string \<Rightarrow> string" where
  "env_or_default var name default_value =
     (case var name of None \<Rightarrow> default_value | Some v \<Rightarrow> if v = [] then default_value else v)"

definition display_target :: "string \<Rightarrow> u16 \<Rightarrow> string \<Rightarrow> string" where
  "display_target host port service = host @ '':'' @ show_nat (unat port) @ ''/'' @ service"

definition config_from_options :: "(string \<Rightarrow> string option) \<Rightarrow> shell_options \<Rightarrow> (string, config \<times> string) outcome" where
  "config_from_options var opts =
     (case so_connect opts of
        Some connect \<Rightarrow>
          res_bind (parse_connect connect) (\<lambda>p.
            Inr (config_new (pc_host p) (pc_port p) (pc_service p) (pc_user p) (pc_password p),
                 display_target (pc_host p) (pc_port p) (pc_service p)))
      | None \<Rightarrow>
          (let host = env_or_default var ''ORACLE_HOST'' ''localhost'';
               service = env_or_default var ''ORACLE_SERVICE'' ''FREEPDB1'';
               user = env_or_default var ''ORACLE_USER'' ''testuser'';
               password = env_or_default var ''ORACLE_PASSWORD'' ''testpass''
           in case FloatOps.parse_u16 (env_or_default var ''ORACLE_PORT'' ''1521'') of
                Inl e \<Rightarrow> Inl (Err (''ORACLE_PORT must be a u16: '' @ e))
              | Inr port \<Rightarrow> Inr (config_new host port service user password, display_target host port service)))"

end
