(* ===== verification/ShellLaws.thy ===== *)
theory ShellLaws
  imports Shell ExchangeLaws
begin

section \<open>What a script does\<close>

text \<open>
  The reader of scripts cuts a script into the statements that were written, and runs them in order;
  the scanner of arguments cuts at the separators outside strings and brackets; a quoted literal
  is read back.
\<close>

subsection \<open>Silent scripts\<close>

definition silent :: "'m shell \<Rightarrow> bool" where
  "silent s \<longleftrightarrow> \<not> sh_echo s"

definition stays_silent :: "('m, 'a) shell_op \<Rightarrow> bool" where
  "stays_silent m \<longleftrightarrow> (\<forall>s r s'. silent s \<longrightarrow> m s = Some (r, s') \<longrightarrow> silent s')"

named_theorems silent_intros

lemma stays_silentD: "stays_silent m \<Longrightarrow> silent s \<Longrightarrow> m s = Some (r, s') \<Longrightarrow> silent s'"
  by (auto simp: stays_silent_def)

lemma silent_sret [silent_intros]: "stays_silent (sret r)"
  by (simp add: stays_silent_def sret_def)

lemma silent_sdo: "(\<And>s. sh_echo (f s) = sh_echo s) \<Longrightarrow> stays_silent (sdo f)"
  by (auto simp: stays_silent_def sdo_def silent_def)

lemma silent_sthen [silent_intros]:
  assumes "stays_silent m" "\<And>a. stays_silent (f a)"
  shows "stays_silent (sthen m f)"
  unfolding stays_silent_def
proof (intro allI impI)
  fix s r s' assume s: "silent s" and run: "sthen m f s = Some (r, s')"
  then obtain r1 s1 where m1: "m s = Some (r1, s1)" by (auto simp: sthen_def split: option.splits)
  from stays_silentD [OF assms(1) s m1] have s1: "silent s1" .
  show "silent s'"
  proof (cases r1)
    case (Inl e)
    then show ?thesis using run m1 s1 by (simp add: sthen_def)
  next
    case (Inr a)
    then have "f a s1 = Some (r, s')" using run m1 by (simp add: sthen_def)
    then show ?thesis by (rule stays_silentD [OF assms(2) s1])
  qed
qed

lemma silent_sseq [silent_intros]: "stays_silent m \<Longrightarrow> stays_silent k \<Longrightarrow> stays_silent (sseq m k)"
  unfolding sseq_def by (intro silent_intros)

lemma silent_sask [silent_intros]: "(\<And>s. stays_silent (f s)) \<Longrightarrow> stays_silent (sask f)"
  by (auto simp: stays_silent_def sask_def)

lemma silent_prints [silent_intros]: "stays_silent (println l)" "stays_silent (printlns ls)"
  unfolding println_def printlns_def by (rule silent_sdo, simp)+

lemma silent_if [silent_intros]: "stays_silent a \<Longrightarrow> stays_silent b \<Longrightarrow> stays_silent (if c then a else b)"
  by simp

lemma silent_option [silent_intros]:
  "stays_silent a \<Longrightarrow> (\<And>x. stays_silent (b x)) \<Longrightarrow> stays_silent (case v of None \<Rightarrow> a | Some x \<Rightarrow> b x)"
  by (cases v) simp_all

lemma silent_sum [silent_intros]:
  "(\<And>x. stays_silent (a x)) \<Longrightarrow> (\<And>x. stays_silent (b x)) \<Longrightarrow> stays_silent (case v of Inl x \<Rightarrow> a x | Inr x \<Rightarrow> b x)"
  by (cases v) simp_all

lemma silent_on_driver [silent_intros]: "stays_silent (on_driver m)"
  by (auto simp: stays_silent_def on_driver_def silent_def)

lemma silent_drain_loop:
  assumes "drain_loop env s = Some y"
  shows "silent s \<longrightarrow> silent (snd y)"
proof (rule drain_loop.raw_induct [where P = "\<lambda>env s y. silent s \<longrightarrow> silent (snd y)", OF _ assms], intro impI)
  fix loop :: "'a shell_env \<Rightarrow> 'a shell \<Rightarrow> ((string, unit) outcome \<times> 'a shell) option"
    and env :: "'a shell_env" and s :: "'a shell" and y
  assume IH: "\<And>env s y. loop env s = Some y \<Longrightarrow> silent s \<longrightarrow> silent (snd y)" and s: "silent s"
  let ?m = "on_driver (execute_plsql (sv_client env) GET_LINE [bind_output OraVarchar 32767, bind_output OraNumber 22])"
  assume run: "(case ?m s of
        None \<Rightarrow> None
      | Some (Inl e, s') \<Rightarrow> Some (Inl e, s')
      | Some (Inr (Inl e), s') \<Rightarrow> Some (Inl (Err (display_error e)), s')
      | Some (Inr (Inr r), s') \<Rightarrow>
          if get_line_status r \<noteq> 0 then Some (Inr (), s')
          else loop env (s'\<lparr>sh_out := sh_out s' @ [get_line_text r]\<rparr>)) = Some y"
  obtain r1 s1 where m1: "?m s = Some (r1, s1)" using run by (auto split: option.splits)
  have s1: "silent s1" by (rule stays_silentD [OF silent_on_driver s m1])
  then have "silent (s1\<lparr>sh_out := l\<rparr>)" for l by (simp add: silent_def)
  then show "silent (snd y)" using IH run m1 s1 by (auto split: sum.splits if_splits)
qed

lemma silent_drain [silent_intros]: "stays_silent (drain_dbms_output env)"
  using silent_drain_loop by (force simp: stays_silent_def drain_dbms_output_def split: if_splits)

lemma echo_assign_var: "sh_echo (assign_var name v s) = sh_echo s"
  by (simp add: assign_var_def set_var_def)

lemma echo_assign_vars: "sh_echo (fold (\<lambda>(name, v). assign_var name v) bs s) = sh_echo s"
  by (induction bs arbitrary: s) (simp_all add: echo_assign_var case_prod_beta)

lemma silent_execute_statement: "stays_silent (execute_statement env sql)"
proof -
  have tz: "stays_silent (sdo (\<lambda>s. s\<lparr>sh_time_zone := z\<rparr>))" for z by (rule silent_sdo) simp
  have out: "stays_silent (sdo (assign_outputs names vs))" for names vs
    by (rule silent_sdo) (simp add: assign_outputs_def echo_assign_vars)
  show ?thesis
    unfolding execute_statement_def run_statement_def handle_statement_error_def show_execution_def
      execute_plsql_text_def update_session_display_state_def when_feedback_def plsql_done_def Let_def
    by (intro silent_intros tz out) (auto split: execution.split intro!: silent_intros tz)
qed

subsection \<open>The statements of a script\<close>

text \<open>A statement as written: SQL up to the line that ends with a semicolon, or a block up to a line with a slash.\<close>

datatype piece = Sql "string list" | Block "string list"

primrec piece_lines :: "piece \<Rightarrow> string list" where
  "piece_lines (Sql ls) = ls"
| "piece_lines (Block ls) = ls @ [''/'']"

fun join_lines :: "string list \<Rightarrow> string" where
  "join_lines [] = []"
| "join_lines (l # ls) = l @ concat (map (\<lambda>x. LF @ x) ls)"

primrec piece_statement :: "piece \<Rightarrow> string" where
  "piece_statement (Sql ls) = strip_trailing_semicolon (str_trim (join_lines ls))"
| "piece_statement (Block ls) = str_trim (join_lines ls)"

definition script_text :: "piece list \<Rightarrow> string" where
  "script_text ps = concat (map (\<lambda>l. l @ LF) (concat (map piece_lines ps)))"

definition line_ok :: "string \<Rightarrow> bool" where
  "line_ok l \<longleftrightarrow> char_of (10 :: nat) \<notin> set l \<and> \<not> ends_with_char (char_of (13 :: nat)) l"

definition is_command :: "string \<Rightarrow> bool" where
  "is_command t \<longleftrightarrow>
     (let upper = ascii_upper_text t
      in list_ex (begins upper) [''SET '', ''PROMPT'', ''WHENEVER SQLERROR'', ''VAR '', ''VARIABLE '', ''PRINT '', ''EXEC '', ''EXECUTE '']
         \<or> upper = ''COMMIT'' \<or> upper = ''ROLLBACK'')"

definition opens :: "string \<Rightarrow> bool" where
  "opens l \<longleftrightarrow> str_trim l \<noteq> [] \<and> \<not> is_command (str_trim l)"

primrec piece_ok :: "piece \<Rightarrow> bool" where
  "piece_ok (Sql ls) \<longleftrightarrow> ls \<noteq> [] \<and> list_all line_ok ls \<and> opens (hd ls) \<and> \<not> starts_plsql_or_create_block (str_trim (hd ls))
     \<and> list_all (\<lambda>l. \<not> ends_sql_statement (str_trim l)) (butlast ls) \<and> ends_sql_statement (str_trim (last ls))"
| "piece_ok (Block ls) \<longleftrightarrow> ls \<noteq> [] \<and> list_all line_ok ls \<and> opens (hd ls) \<and> starts_plsql_or_create_block (str_trim (hd ls))
     \<and> list_all (\<lambda>l. str_trim l \<noteq> ''/'') ls"

fun run_each :: "'m shell_env \<Rightarrow> string list \<Rightarrow> ('m, unit) shell_op" where
  "run_each env [] = sret (Inr ())"
| "run_each env (t # ts) = sseq (execute_statement env t) (run_each env ts)"

lemma split_joined:
  "c \<notin> set l \<Longrightarrow> split_char c (l @ c # s) = l # split_char c s"
  by (induction l) auto

lemma str_lines_joined: "list_all line_ok ls \<Longrightarrow> str_lines (concat (map (\<lambda>l. l @ LF) ls)) = ls"
proof -
  assume ok: "list_all line_ok ls"
  have "split_char (char_of (10 :: nat)) (concat (map (\<lambda>l. l @ LF) ls)) = ls @ [[]]"
    using ok by (induction ls) (auto simp: LF_def line_ok_def split_joined)
  moreover have "map chop_cr ls = ls"
    using ok by (induction ls) (auto simp: line_ok_def chop_cr_def ends_with_char_def)
  ultimately show ?thesis by (simp add: str_lines_def)
qed

lemma not_command: "\<not> is_command t \<Longrightarrow> handle_command env t = sret (Inr False)"
  by (simp add: is_command_def handle_command_def Let_def)

lemma not_empty_trim: "str_trim l \<noteq> [] \<Longrightarrow> l \<noteq> []"
  by (auto simp: str_trim_def strip_ws.simps)

lemma line_kept: "line_ok l \<Longrightarrow> trim_end_char (char_of (13 :: nat)) l = l"
  by (cases l rule: rev_cases) (auto simp: line_ok_def ends_with_char_def trim_end_char_def)

text \<open>One line: collected, or the end of a statement.\<close>

lemma line_collected:
  assumes "silent s" "line_ok l" "buffer = [] \<Longrightarrow> opens l" "\<not> (str_trim l = ''/'' \<and> block)"
    and "b \<longleftrightarrow> block \<or> buffer = [] \<and> starts_plsql_or_create_block (str_trim l)" "b \<or> \<not> ends_sql_statement (str_trim l)"
  shows "run_line env (buffer, block, n) l s = Some (Inr (collect_line buffer l, b, n), s)"
  using assms by (cases "buffer = []")
    (auto simp: run_line_def line_kept opens_def not_command echo_line_def silent_def sthen_def sret_def sask_def Let_def)

lemma line_ends_sql:
  assumes "silent s" "line_ok l" "buffer = [] \<Longrightarrow> opens l \<and> \<not> starts_plsql_or_create_block (str_trim l)"
    and "ends_sql_statement (str_trim l)"
  shows "run_line env (buffer, False, n) l s
    = sseq (execute_statement env (strip_trailing_semicolon (str_trim (collect_line buffer l)))) (sret (Inr ([], False, 1))) s"
  using assms by (cases "buffer = []")
    (auto simp: run_line_def line_kept opens_def not_command echo_line_def silent_def sthen_def sret_def sask_def Let_def)

lemma line_ends_block:
  assumes "silent s" "buffer \<noteq> []"
  shows "run_line env (buffer, True, n) ''/'' s
    = sseq (execute_statement env (str_trim buffer)) (sret (Inr ([], False, 1))) s"
proof -
  have "str_trim ''/'' = ''/''" "trim_end_char (char_of (13 :: nat)) ''/'' = ''/''" by code_simp+
  then show ?thesis
    using assms by (simp add: run_line_def echo_line_def silent_def sthen_def sret_def sask_def Let_def)
qed

lemma collect_not_empty: "buffer \<noteq> [] \<Longrightarrow> collect_line buffer l \<noteq> []"
  by (simp add: collect_line_def)

text \<open>The lines after the first.\<close>

lemma sql_collected:
  assumes "silent s" "buffer \<noteq> []" "list_all line_ok ls" "list_all (\<lambda>l. \<not> ends_sql_statement (str_trim l)) ls"
  shows "run_lines env (buffer, False, n) (ls @ rest) s = run_lines env (foldl collect_line buffer ls, False, n) rest s"
  using assms(2-4)
proof (induction ls arbitrary: buffer)
  case (Cons l ls)
  then have "run_line env (buffer, False, n) l s = Some (Inr (collect_line buffer l, False, n), s)"
    by (intro line_collected assms(1)) auto
  then show ?case using Cons by (simp add: sthen_def collect_not_empty)
qed simp

lemma block_collected:
  assumes "silent s" "buffer \<noteq> []" "list_all line_ok ls" "list_all (\<lambda>l. str_trim l \<noteq> ''/'') ls"
  shows "run_lines env (buffer, True, n) (ls @ rest) s = run_lines env (foldl collect_line buffer ls, True, n) rest s"
  using assms(2-4)
proof (induction ls arbitrary: buffer)
  case (Cons l ls)
  then have "run_line env (buffer, True, n) l s = Some (Inr (collect_line buffer l, True, n), s)"
    by (intro line_collected assms(1)) auto
  then show ?case using Cons by (simp add: sthen_def collect_not_empty)
qed simp

lemma foldl_collect: "buffer \<noteq> [] \<Longrightarrow> foldl collect_line buffer ls = buffer @ concat (map (\<lambda>x. LF @ x) ls)"
  by (induction ls arbitrary: buffer) (simp_all add: collect_line_def)

lemma joined: "l \<noteq> [] \<Longrightarrow> foldl collect_line l ls = join_lines (l # ls)"
  by (simp add: foldl_collect)

lemma sthen_sret: "sthen (sseq m (sret (Inr st))) f = sthen m (\<lambda>_. f st)"
  by (auto simp: sseq_def sthen_def sret_def fun_eq_iff split: option.splits sum.splits prod.splits)

lemma line_ended:
  assumes "run_line env st l s = sseq m (sret (Inr st')) s"
  shows "run_lines env st (l # rest) s = sthen m (\<lambda>_. run_lines env st' rest) s"
proof -
  have "run_lines env st (l # rest) s = sthen (sseq m (sret (Inr st'))) (\<lambda>st. run_lines env st rest) s"
    using assms by (simp add: sthen_def)
  then show ?thesis by (simp add: sthen_sret)
qed

lemma sql_runs:
  assumes s: "silent s" and ok: "piece_ok (Sql ls)"
  shows "run_lines env ([], False, 1) (ls @ rest) s
    = sthen (execute_statement env (piece_statement (Sql ls))) (\<lambda>_. run_lines env ([], False, 1) rest) s"
proof -
  obtain l ls' where ls: "ls = l # ls'" using ok by (cases ls) auto
  have l: "l \<noteq> []" "opens l" "line_ok l" "\<not> starts_plsql_or_create_block (str_trim l)"
    using ok not_empty_trim [of l] by (auto simp: ls opens_def)
  show ?thesis
  proof (cases ls' rule: rev_cases)
    case Nil
    then have "run_line env ([], False, 1) l s
        = sseq (execute_statement env (piece_statement (Sql ls))) (sret (Inr ([], False, 1))) s"
      using line_ends_sql [OF s l(3), of "[]" env 1] l ok by (simp add: ls collect_line_def)
    then have "run_lines env ([], False, 1) (l # rest) s
        = sthen (execute_statement env (piece_statement (Sql ls))) (\<lambda>_. run_lines env ([], False, 1) rest) s"
      by (rule line_ended)
    then show ?thesis by (simp only: ls Nil append_Cons append_Nil)
  next
    case (snoc mid z)
    have mid: "list_all line_ok mid" "list_all (\<lambda>l. \<not> ends_sql_statement (str_trim l)) mid" "\<not> ends_sql_statement (str_trim l)"
      and z: "line_ok z" "ends_sql_statement (str_trim z)"
      using ok by (auto simp: ls snoc butlast_append)
    let ?b = "foldl collect_line l mid"
    have b: "?b \<noteq> []" using l(1) by (simp add: foldl_collect)
    have "run_line env ([], False, 1) l s = Some (Inr (collect_line [] l, False, 1), s)"
      using l mid(3) by (intro line_collected s) auto
    then have "run_lines env ([], False, 1) (ls @ rest) s = run_lines env (?b, False, 1) (z # rest) s"
      using sql_collected [OF s l(1) mid(1,2), of env 1 "z # rest"] by (simp add: ls snoc sthen_def collect_line_def)
    also have "run_line env (?b, False, 1) z s
        = sseq (execute_statement env (strip_trailing_semicolon (str_trim (collect_line ?b z)))) (sret (Inr ([], False, 1))) s"
      using z b by (intro line_ends_sql s) auto
    then have "run_lines env (?b, False, 1) (z # rest) s
        = sthen (execute_statement env (strip_trailing_semicolon (str_trim (collect_line ?b z)))) (\<lambda>_. run_lines env ([], False, 1) rest) s"
      by (rule line_ended)
    also have "collect_line ?b z = join_lines ls" using joined [OF l(1), of "mid @ [z]"] by (simp add: ls snoc)
    finally show ?thesis by simp
  qed
qed

lemma block_runs:
  assumes s: "silent s" and ok: "piece_ok (Block ls)"
  shows "run_lines env ([], False, 1) ((ls @ [''/'']) @ rest) s
    = sthen (execute_statement env (piece_statement (Block ls))) (\<lambda>_. run_lines env ([], False, 1) rest) s"
proof -
  obtain l ls' where ls: "ls = l # ls'" using ok by (cases ls) auto
  have l: "l \<noteq> []" "opens l" "line_ok l" "starts_plsql_or_create_block (str_trim l)" "str_trim l \<noteq> ''/''"
    and ls': "list_all line_ok ls'" "list_all (\<lambda>l. str_trim l \<noteq> ''/'') ls'"
    using ok not_empty_trim [of l] by (auto simp: ls opens_def)
  let ?b = "foldl collect_line l ls'"
  have b: "?b \<noteq> []" "?b = join_lines ls" using l(1) joined [OF l(1), of ls'] by (simp_all add: foldl_collect ls)
  have "run_line env ([], False, 1) l s = Some (Inr (collect_line [] l, True, 1), s)"
    using l by (intro line_collected s) auto
  then have "run_lines env ([], False, 1) ((ls @ [''/'']) @ rest) s = run_lines env (?b, True, 1) (''/'' # rest) s"
    using block_collected [OF s l(1) ls', of env 1 "''/'' # rest"] by (simp add: ls sthen_def collect_line_def)
  also have "\<dots> = sthen (execute_statement env (str_trim ?b)) (\<lambda>_. run_lines env ([], False, 1) rest) s"
    by (rule line_ended [OF line_ends_block [OF s b(1)]])
  finally show ?thesis using b(2) by simp
qed

lemma pieces_run:
  assumes "silent s" "list_all piece_ok ps"
  shows "run_lines env ([], False, 1) (concat (map piece_lines ps)) s = run_each env (map piece_statement ps) s"
  using assms
proof (induction ps arbitrary: s)
  case Nil
  have "str_trim [] = []" by code_simp
  then show ?case by simp
next
  case (Cons p ps)
  have "run_lines env ([], False, 1) (concat (map piece_lines (p # ps))) s
      = sthen (execute_statement env (piece_statement p)) (\<lambda>_. run_lines env ([], False, 1) (concat (map piece_lines ps))) s"
    using Cons.prems sql_runs [OF Cons.prems(1)] block_runs [OF Cons.prems(1)] by (cases p) auto
  also have "\<dots> = sthen (execute_statement env (piece_statement p)) (\<lambda>_. run_each env (map piece_statement ps)) s"
    using Cons.IH Cons.prems stays_silentD [OF silent_execute_statement Cons.prems(1)]
    by (auto simp: sthen_def split: option.splits sum.splits)
  finally show ?case by (simp add: sseq_def)
qed

text \<open>
  C21: a script runs the statements that were written.  A script of SQL statements and PL/SQL blocks,
  each of one or more lines, runs each statement once and in order, with the text of its lines and
  without the semicolon or the slash that ends it, and stops at the first that gives an error.
\<close>

theorem script_runs_statements:
  assumes "\<not> sh_echo s" "list_all piece_ok ps"
  shows "run_script env (script_text ps) s = run_each env (map piece_statement ps) s"
proof -
  have "list_all line_ok (concat (map piece_lines ps))"
    using assms(2)
  proof (induction ps)
    case (Cons p ps)
    have "line_ok ''/''" by code_simp
    then show ?case using Cons by (cases p) auto
  qed simp
  then show ?thesis
    using pieces_run [OF _ assms(2)] assms(1) by (simp add: run_script_def script_text_def str_lines_joined silent_def)
qed

definition sample_script :: "piece list" where
  "sample_script = [Sql [''select *'', ''from t;''], Block [''begin'', ''p(1);'', ''end;''], Sql [''drop view v;'']]"

lemma sample_trims:
  "str_trim ''select *'' = ''select *''" "str_trim ''from t;'' = ''from t;''" "str_trim ''begin'' = ''begin''"
  "str_trim ''p(1);'' = ''p(1);''" "str_trim ''end;'' = ''end;''" "str_trim ''drop view v;'' = ''drop view v;''"
  by (rule str_trim_visible; simp add: visible_char_def)+

lemma sample_commands:
  "\<not> is_command ''select *''" "\<not> is_command ''begin''" "\<not> is_command ''drop view v;''"
  "\<not> starts_plsql_or_create_block ''select *''" "starts_plsql_or_create_block ''begin''"
  "\<not> starts_plsql_or_create_block ''drop view v;''"
  by code_simp+

lemma sample_lines:
  "line_ok ''select *''" "line_ok ''from t;''" "line_ok ''begin''" "line_ok ''p(1);''" "line_ok ''end;''"
  "line_ok ''drop view v;''" "\<not> ends_sql_statement ''select *''" "ends_sql_statement ''from t;''"
  "ends_sql_statement ''drop view v;''"
  by code_simp+

lemma sample_ok: "list_all piece_ok sample_script"
  by (simp add: sample_script_def opens_def sample_trims sample_commands sample_lines)

lemma sample_statements:
  "map piece_statement sample_script
     = [''select *'' @ LF @ ''from t'', ''begin'' @ LF @ ''p(1);'' @ LF @ ''end;'', ''drop view v'']"
  by code_simp

theorem script_runs_statements_witness:
  "\<forall>(env :: assoc_map shell_env) (c :: assoc_map session). run_script env (script_text sample_script) (shell_new c)
     = run_each env [''select *'' @ LF @ ''from t'', ''begin'' @ LF @ ''p(1);'' @ LF @ ''end;'', ''drop view v''] (shell_new c)"
proof (intro allI)
  fix env :: "assoc_map shell_env" and c :: "assoc_map session"
  have "\<not> sh_echo (shell_new c)" by (simp add: shell_new_def)
  from script_runs_statements [OF this sample_ok, of env]
  show "run_script env (script_text sample_script) (shell_new c)
     = run_each env [''select *'' @ LF @ ''from t'', ''begin'' @ LF @ ''p(1);'' @ LF @ ''end;'', ''drop view v''] (shell_new c)"
    unfolding sample_statements .
qed

subsection \<open>Calls and literals\<close>

text \<open>The arguments a call can have: words, quoted text and calls of functions.\<close>

datatype expr = Word string | Str string | App string "expr list"

fun double_quotes :: "string \<Rightarrow> string" where
  "double_quotes [] = []"
| "double_quotes (c # s) = (if c = CHR 0x27 then [c, c] else [c]) @ double_quotes s"

definition quoted :: "string \<Rightarrow> string" where
  "quoted s = CHR 0x27 # double_quotes s @ [CHR 0x27]"

fun commas :: "string list \<Rightarrow> string" where
  "commas [] = []"
| "commas [t] = t"
| "commas (t # ts) = t @ '','' @ commas ts"

fun expr_text :: "expr \<Rightarrow> string" where
  "expr_text (Word w) = w"
| "expr_text (Str s) = quoted s"
| "expr_text (App f es) = f @ ''('' @ commas (map expr_text es) @ '')''"

definition plain_word :: "string \<Rightarrow> bool" where
  "plain_word w \<longleftrightarrow> w \<noteq> [] \<and> visible_char (hd w) \<and> visible_char (last w)
     \<and> set w \<inter> {CHR 0x27, CHR ''('', CHR '')'', CHR '',''} = {}"

fun expr_ok :: "expr \<Rightarrow> bool" where
  "expr_ok (Word w) \<longleftrightarrow> plain_word w"
| "expr_ok (Str s) \<longleftrightarrow> True"
| "expr_ok (App f es) \<longleftrightarrow> plain_word f \<and> list_all expr_ok es"

lemma split_word:
  "set w \<inter> {CHR 0x27, CHR ''('', CHR '')'', CHR '',''} = {} \<Longrightarrow>
   split_from (CHR '','') k False p (w @ rest) = split_from (CHR '','') k False (rev w @ p) rest"
  by (induction w arbitrary: p) auto

lemma split_string:
  "split_from (CHR '','') k True p (double_quotes s @ rest) = split_from (CHR '','') k True (rev (double_quotes s) @ p) rest"
  by (induction s arbitrary: p) auto

lemma split_quoted:
  "split_from (CHR '','') k False p (quoted s @ rest) = split_from (CHR '','') k False (rev (quoted s) @ p) rest"
  by (simp add: quoted_def split_string)

text \<open>Inside brackets nothing is cut.\<close>

lemma split_inner:
  assumes "0 < k" "\<And>e p rest. e \<in> set ts \<Longrightarrow>
      split_from (CHR '','') k False p (e @ rest) = split_from (CHR '','') k False (rev e @ p) rest"
  shows "split_from (CHR '','') k False p (commas ts @ rest) = split_from (CHR '','') k False (rev (commas ts) @ p) rest"
  using assms(2)
proof (induction ts arbitrary: p rule: commas.induct)
  case (3 t u ts)
  then show ?case using assms(1) 3(2) [of t p "'','' @ commas (u # ts) @ rest"] by simp
qed simp_all

lemma split_expr:
  "expr_ok e \<Longrightarrow> 0 \<le> k \<Longrightarrow>
   split_from (CHR '','') k False p (expr_text e @ rest) = split_from (CHR '','') k False (rev (expr_text e) @ p) rest"
proof (induction e arbitrary: k p rest rule: expr_text.induct)
  case (1 w)
  then show ?case by (simp add: plain_word_def split_word)
next
  case (2 s)
  then show ?case by (simp add: split_quoted)
next
  case (3 f es)
  have f: "set f \<inter> {CHR 0x27, CHR ''('', CHR '')'', CHR '',''} = {}" using 3(2) by (simp add: plain_word_def)
  have "split_from (CHR '','') (k + 1) False p (commas (map expr_text es) @ rest)
      = split_from (CHR '','') (k + 1) False (rev (commas (map expr_text es)) @ p) rest" for p rest
    using 3 by (intro split_inner) (auto simp: list_all_iff)
  then show ?case using split_word [OF f, of k p "''('' @ commas (map expr_text es) @ '')'' @ rest"] by simp
qed

lemma split_exprs:
  "list_all expr_ok es \<Longrightarrow> es \<noteq> [] \<Longrightarrow> split_from (CHR '','') 0 False [] (commas (map expr_text es)) = map expr_text es"
proof (induction es rule: induct_list012)
  case (2 e)
  then show ?case using split_expr [of e 0 "[]" "[]"] by simp
next
  case (3 e f es)
  then show ?case using split_expr [of e 0 "[]" "'','' @ commas (map expr_text (f # es))"] by simp
qed simp

lemma expr_visible:
  "expr_ok e \<Longrightarrow> expr_text e \<noteq> [] \<and> visible_char (hd (expr_text e)) \<and> visible_char (last (expr_text e))"
  by (cases e) (auto simp: plain_word_def quoted_def visible_char_def hd_append)

lemma parse_literal_quoted: "parse_literal (quoted s) = VString s"
proof -
  have v: "visible_char (CHR 0x27)" by (simp add: visible_char_def)
  have q: "quoted s \<noteq> []" "hd (quoted s) = CHR 0x27" "last (quoted s) = CHR 0x27" "2 \<le> length (quoted s)"
    by (simp_all add: quoted_def)
  have trim: "str_trim (quoted s) = quoted s" using q v by (intro str_trim_visible) simp_all
  have "ws_head (map rev ws_seqs) (rev (quoted s)) = 0"
    using ws_head_visible_rev [OF v] by (simp add: quoted_def)
  then have "trim_end (quoted s) = quoted s" by (simp add: trim_end_def strip_ws_id)
  then have semi: "strip_trailing_semicolon (quoted s) = quoted s"
    by (simp add: strip_trailing_semicolon_def ends_with_char_def q)
  have "undouble_quotes (double_quotes s) = s"
  proof (induction s)
    case (Cons c s)
    show ?case
    proof (cases "double_quotes s")
      case Nil
      then have "s = []" by (cases s) (auto split: if_splits)
      then show ?thesis using Nil by simp
    qed (use Cons in simp)
  qed simp
  then have "undouble_quotes (butlast (tl (quoted s))) = s" by (simp add: quoted_def)
  moreover have "\<not> eq_ignore_ascii_case (quoted s) ''NULL''"
    by (simp add: eq_ignore_ascii_case_def quoted_def ascii_lower_char_def)
  ultimately show ?thesis
    using q by (simp add: parse_literal_def trim semi begins_def ends_with_char_def) (simp add: quoted_def)
qed

lemma parse_call_text:
  assumes "plain_word name" "list_all expr_ok es"
  shows "parse_call (expr_text (App name es)) = Inr (name, map expr_text es)"
proof -
  let ?inner = "commas (map expr_text es)"
  have f: "find_char (CHR ''('') (name @ CHR ''('' # ?inner @ '')'') = Some (length name)"
    using assms(1) find_char_first [of "CHR ''(''" name "?inner @ '')''"] by (auto simp: plain_word_def)
  have r: "rfind_char (CHR '')'') (name @ CHR ''('' # ?inner @ '')'') = Some (length name + 1 + length ?inner)"
    using find_char_first [of "CHR '')''" "[]" "rev ?inner @ CHR ''('' # rev name"] by (simp add: rfind_char_def)
  have pieces: "filter (\<lambda>arg. arg \<noteq> []) (map str_trim (split_top_level ?inner (CHR '',''))) = map expr_text es"
  proof (cases "es = []")
    case True
    have "str_trim [] = []" by code_simp
    then show ?thesis using True by (simp add: split_top_level_def)
  next
    case False
    have "str_trim (expr_text e) = expr_text e" "expr_text e \<noteq> []" if "e \<in> set es" for e
      using expr_visible [of e] assms(2) that by (auto simp: list_all_iff intro: str_trim_visible)
    then have "map str_trim (map expr_text es) = map expr_text es" "filter (\<lambda>arg. arg \<noteq> []) (map expr_text es) = map expr_text es"
      by (auto simp: filter_id_conv)
    then show ?thesis by (simp only: split_top_level_def split_exprs [OF assms(2) False])
  qed
  have "str_trim name = name" using assms(1) by (intro str_trim_visible) (simp_all add: plain_word_def)
  then show ?thesis using pieces by (simp add: parse_call_def f r slice_at_def)
qed

text \<open>
  C22: an EXEC is read as it was written.  A call with any arguments, quoted text with brackets, commas
  and quotes in it and nested calls included, is parsed to its name and exactly its arguments; and
  a quoted literal is read back to its text.
\<close>

theorem exec_call_roundtrip:
  assumes "plain_word name" "list_all expr_ok es"
  shows "parse_call (expr_text (App name es)) = Inr (name, map expr_text es) \<and> parse_literal (expr_text (Str t)) = VString t"
  using parse_call_text [OF assms] parse_literal_quoted [of t] by simp

theorem exec_call_roundtrip_witness:
  "parse_call (''p(:x,'' @ quoted (''a,('' @ [CHR 0x27] @ ''b'') @ '',f(1,2))'')
     = Inr (''p'', ['':x'', quoted (''a,('' @ [CHR 0x27] @ ''b''), ''f(1,2)''])
   \<and> parse_literal (quoted ''x;y'') = VString ''x;y''"
proof -
  have "list_all expr_ok [Word '':x'', Str (''a,('' @ [CHR 0x27] @ ''b''), App ''f'' [Word ''1'', Word ''2'']]" "plain_word ''p''"
    by (simp_all add: plain_word_def visible_char_def)
  from exec_call_roundtrip [OF this(2,1), of "''x;y''"] show ?thesis by simp
qed

text \<open>
  A closing bracket before the opening one ends the shell with a panic, as does a time zone whose
  hours do not fit in minutes.
\<close>

lemma parse_call_panics: "parse_call '')('' = Inl Panic"
  by (simp add: parse_call_def rfind_char_def find_char_def find_text.simps [of "[_]"] slice_at_def)

lemma time_zone_panics: "case parse_numeric_time_zone_offset ''+99999999:00'' of Inl Panic \<Rightarrow> True | _ \<Rightarrow> False"
  by code_simp

end
